(* ===== verification/BSP_Prelude.thy ===== *)
theory BSP_Prelude
  imports Main "HOL-Library.Word" "HOL-Library.Monad_Syntax" "HOL-Library.Signed_Division"
begin

unbundle bit_operations_syntax

text \<open>
  Shared notions of the board-support development.

  \<^item> Machine types: \<open>byte\<close> is \<open>unsigned char\<close> (and \<open>char\<close>, which is unsigned on the Arm
    targets of both boards), \<open>u16\<close> is \<open>unsigned short\<close>, \<open>u32\<close> is \<open>uint32_t\<close>. A C \<open>int\<close> that
    holds a length or a return code is an \<open>int\<close>; C division is \<open>sdiv\<close>/\<open>smod\<close>.
  \<^item> Memory: an object (a packet buffer) is the list of its bytes, a pointer into it an offset.
    A load or store outside the object is undefined behaviour in C and \<open>None\<close> here.
  \<^item> The writer algebra: \<open>put bs\<close> stores a run of bytes at the cursor and advances it, and
    \<open>put\<close> of an append is the composition of the \<open>put\<close>s. Every C writer is shown equal to one
    \<open>put\<close>, so a serializer is a single \<open>put\<close> of the packet's bytes.
  \<^item> Two interface locales: \<open>guarded_serializer\<close>, what every packet serializer of the MQTT
    library does with its \<open>buflen\<close> guard, and \<open>safe_serializer\<close>, the stronger contract (the
    guard is large enough for what is written) that only some of them meet.
\<close>

section \<open>Machine types\<close>

type_synonym byte = "8 word"
type_synonym u16 = "16 word"
type_synonym u32 = "32 word"
type_synonym u64 = "64 word"
type_synonym mem = "byte list"
type_synonym cursor = "mem \<times> nat"

named_theorems mem_simps "loads and stores of byte objects"
named_theorems put_simps "writers as runs of stored bytes"
named_theorems wire_defs "definitions of the abstract packets"

section \<open>Loads and stores\<close>

definition load8 :: "mem \<Rightarrow> nat \<Rightarrow> byte option" where
  "load8 m i = (if i < length m then Some (m ! i) else None)"

definition store_bytes :: "mem \<Rightarrow> nat \<Rightarrow> byte list \<Rightarrow> mem option" where
  "store_bytes m off bs =
     (if off + length bs \<le> length m
      then Some (take off m @ bs @ drop (off + length bs) m) else None)"

text \<open>\<open>memcpy\<close> of \<open>n\<close> bytes out of an object: a negative or too large count faults.\<close>

definition take_n :: "byte list \<Rightarrow> int \<Rightarrow> byte list option" where
  "take_n src n = (if 0 \<le> n \<and> n \<le> int (length src) then Some (take (nat n) src) else None)"

definition put :: "byte list \<Rightarrow> cursor \<Rightarrow> cursor option" where
  "put bs = (\<lambda>(m, p). do { m' \<leftarrow> store_bytes m p bs; Some (m', p + length bs) })"

lemma load8_in: "i < length m \<Longrightarrow> load8 m i = Some (m ! i)"
  by (simp add: load8_def)

lemma load8_append: "i < length xs \<Longrightarrow> load8 (xs @ ys) i = Some (xs ! i)"
  by (simp add: load8_def nth_append)

lemma load8_mid [mem_simps]: "length xs = i \<Longrightarrow> load8 (xs @ b # ys) i = Some b"
  by (auto simp: load8_def nth_append)

lemma load8_Suc [mem_simps]: "length xs = i \<Longrightarrow> load8 (xs @ a # b # ys) (Suc i) = Some b"
  by (auto simp: load8_def nth_append)

lemma store_bytes_length: "store_bytes m off bs = Some m' \<Longrightarrow> length m' = length m"
  by (auto simp: store_bytes_def split: if_splits)

lemma store_bytes_Nil [mem_simps]: "store_bytes m off [] = (if off \<le> length m then Some m else None)"
  by (simp add: store_bytes_def)

lemma store_bytes_0 [mem_simps]:
  "length bs \<le> length m \<Longrightarrow> store_bytes m 0 bs = Some (bs @ drop (length bs) m)"
  by (simp add: store_bytes_def)

lemma store_bytes_None_iff [mem_simps]:
  "store_bytes m off bs = None \<longleftrightarrow> length m < off + length bs"
  by (auto simp: store_bytes_def)

lemma store_bytes_append:
  "store_bytes m off (xs @ ys) = do { m' \<leftarrow> store_bytes m off xs; store_bytes m' (off + length xs) ys }"
  by (cases xs) (auto simp: store_bytes_def min_def ac_simps)

text \<open>Two adjacent runs stored one after the other are one run.\<close>

lemma splice_take:
  "p + length bs \<le> length m \<Longrightarrow>
     take (p + length bs) (take p m @ bs @ drop (p + length bs) m) = take p m @ bs"
  by (simp add: min_absorb2)

lemma splice_drop:
  "p + length bs \<le> length m \<Longrightarrow>
     drop (p + length bs + k) (take p m @ bs @ drop (p + length bs) m) = drop (p + length bs + k) m"
  by (simp add: min_absorb2 add.commute)

lemma take_n_all [simp]: "take_n src (int (length src)) = Some src"
  by (simp add: take_n_def)

lemma take_n_Some_length: "take_n src n = Some bs \<Longrightarrow> int (length bs) = n \<and> 0 \<le> n"
  by (auto simp: take_n_def split: if_splits)

lemma take_n_prefix: "take_n (bs @ rest) (int (length bs)) = Some bs"
  by (simp add: take_n_def)

section \<open>Arrays\<close>

text \<open>A C array is a list; an access outside it faults.\<close>

definition arr_get :: "'a list \<Rightarrow> nat \<Rightarrow> 'a option" where
  "arr_get xs i = (if i < length xs then Some (xs ! i) else None)"

definition arr_set :: "'a list \<Rightarrow> nat \<Rightarrow> 'a \<Rightarrow> 'a list option" where
  "arr_set xs i v = (if i < length xs then Some (xs[i := v]) else None)"

lemma arr_get_in [mem_simps]: "i < length xs \<Longrightarrow> arr_get xs i = Some (xs ! i)"
  by (simp add: arr_get_def)

lemma arr_set_in [mem_simps]: "i < length xs \<Longrightarrow> arr_set xs i v = Some (xs[i := v])"
  by (simp add: arr_set_def)

lemma take_Suc_update: "i < length xs \<Longrightarrow> take (Suc i) (xs[i := v]) = take i xs @ [v]"
  by (simp add: take_Suc_conv_app_nth)

lemma take_drop_Suc: "i < length xs \<Longrightarrow> take (Suc k) (drop i xs) = xs ! i # take k (drop (Suc i) xs)"
  by (metis Cons_nth_drop_Suc take_Suc_Cons)

lemma map_zip_left: "length xs = length ys \<Longrightarrow> map (f \<circ> fst) (zip xs ys) = map f xs"
  by (induction xs ys rule: list_induct2) simp_all

lemma map_zip_right: "length xs = length ys \<Longrightarrow> map (\<lambda>(x, y). f y) (zip xs ys) = map f ys"
  by (induction xs ys rule: list_induct2) simp_all

section \<open>The writer algebra\<close>

lemma put_append: "put (xs @ ys) c = put xs c \<bind> put ys"
  by (cases c) (simp add: put_def store_bytes_append bind_assoc add.assoc)

lemma put_put [put_simps]: "put xs c \<bind> put ys = put (xs @ ys) c"
  by (simp add: put_append)

lemma put_put_cont [put_simps]:
  "put xs c \<bind> (\<lambda>c'. put ys c' \<bind> k) = put (xs @ ys) c \<bind> k"
  by (simp add: put_append bind_assoc)

lemma put_Nil: "p \<le> length m \<Longrightarrow> put [] (m, p) = Some (m, p)"
  by (simp add: put_def store_bytes_Nil)

lemma put_Some_iff:
  "put bs (m, p) = Some (m', p') \<longleftrightarrow>
     p + length bs \<le> length m \<and> p' = p + length bs \<and>
     m' = take p m @ bs @ drop (p + length bs) m"
  by (auto simp: put_def store_bytes_def)

lemma put_in:
  "p + length bs \<le> length m \<Longrightarrow>
     put bs (m, p) = Some (take p m @ bs @ drop (p + length bs) m, p + length bs)"
  by (simp add: put_Some_iff)

lemma put_0: "length bs \<le> length m \<Longrightarrow> put bs (m, 0) = Some (bs @ drop (length bs) m, length bs)"
  by (simp add: put_def store_bytes_0)

lemma put_0_None: "length m < length bs \<Longrightarrow> put bs (m, 0) = None"
  by (simp add: put_def store_bytes_def)

lemma put_0_cases:
  "put bs (m, 0) =
     (if length bs \<le> length m then Some (bs @ drop (length bs) m, length bs) else None)"
  by (simp add: put_0 put_0_None)

section \<open>C integer helpers\<close>

lemma sdiv_nonneg [simp]: "0 \<le> a \<Longrightarrow> 0 < b \<Longrightarrow> a sdiv b = a div (b :: int)"
  by (simp add: signed_divide_int_def sgn_if)

lemma smod_nonneg [simp]: "0 \<le> a \<Longrightarrow> 0 < b \<Longrightarrow> a smod b = a mod (b :: int)"
  by (simp add: signed_modulo_int_def signed_divide_int_def sgn_if minus_div_mult_eq_mod [symmetric])

lemma uint_byte_range: "0 \<le> uint (b :: byte)" "uint (b :: byte) < 256"
  using uint_lt2p [of b] by simp_all

lemma uint_of_int_byte: "0 \<le> n \<Longrightarrow> n < 256 \<Longrightarrow> uint (of_int n :: byte) = n"
  by (simp add: uint_word_of_int)

lemma uint_of_int_u16: "0 \<le> n \<Longrightarrow> n < 65536 \<Longrightarrow> uint (of_int n :: u16) = n"
  by (simp add: uint_word_of_int)

section \<open>Serializer interfaces\<close>

text \<open>
  Every packet serializer has the shape \<open>ser args buflen buf\<close> and returns a code and the buffer.
  It compares a size \<open>need args\<close> with \<open>buflen\<close>; when the comparison fails it returns
  \<open>MQTTPACKET_BUFFER_TOO_SHORT\<close> (-2) without touching the buffer, otherwise it stores the
  bytes \<open>wire args\<close> from the start of the buffer and returns their number. \<open>ok\<close> says which
  arguments are memory safe to read.
\<close>

locale guarded_serializer =
  fixes ser :: "'a \<Rightarrow> int \<Rightarrow> mem \<Rightarrow> (int \<times> mem) option"
    and need :: "'a \<Rightarrow> int"
    and wire :: "'a \<Rightarrow> byte list"
    and ok :: "'a \<Rightarrow> bool"
  assumes too_short: "ok a \<Longrightarrow> buflen < need a \<Longrightarrow> ser a buflen buf = Some (-2, buf)"
    and fits: "ok a \<Longrightarrow> need a \<le> buflen \<Longrightarrow>
      ser a buflen buf = do { (buf', n) \<leftarrow> put (wire a) (buf, 0); Some (int n, buf') }"
begin

lemma fits_Some:
  assumes "ok a" "need a \<le> buflen" "length (wire a) \<le> length buf"
  shows "ser a buflen buf = Some (int (length (wire a)), wire a @ drop (length (wire a)) buf)"
  using assms by (simp add: fits put_0)

lemma fault_iff:
  "ok a \<Longrightarrow> ser a buflen buf = None \<longleftrightarrow> need a \<le> buflen \<and> length buf < length (wire a)"
  by (cases "need a \<le> buflen") (auto simp: too_short fits put_0_cases)

lemma result_cases:
  assumes "ok a" "ser a buflen buf = Some (rc, buf')"
  shows "(rc = -2 \<and> buf' = buf \<and> buflen < need a) \<or>
         (rc = int (length (wire a)) \<and> buf' = wire a @ drop (length (wire a)) buf \<and>
          length (wire a) \<le> length buf \<and> need a \<le> buflen)"
  using assms by (cases "need a \<le> buflen") (auto simp: too_short fits put_0_cases split: if_splits)

lemma same_length:
  assumes "ok a" "ser a buflen buf = Some (rc, buf')" shows "length buf' = length buf"
  using result_cases [OF assms] by auto

lemma frame:
  assumes "ok a" "ser a buflen buf = Some (rc, buf')" "0 < rc" "nat rc \<le> i"
  shows "drop i buf' = drop i buf"
  using result_cases [OF assms(1,2)] assms(3,4) by auto

end

text \<open>The contract that makes the guard sufficient: what is written fits what was checked.\<close>

locale safe_serializer = guarded_serializer +
  assumes covers: "ok a \<Longrightarrow> int (length (wire a)) \<le> need a"
begin

lemma no_fault:
  assumes "ok a" "buflen \<le> int (length buf)"
  shows "\<exists>rc buf'. ser a buflen buf = Some (rc, buf')"
proof -
  have "ser a buflen buf \<noteq> None"
    using assms covers [of a] by (simp add: fault_iff)
  then show ?thesis by auto
qed

lemma rc_le_buflen:
  assumes "ok a" "ser a buflen buf = Some (rc, buf')" "0 < rc"
  shows "rc \<le> buflen"
  using result_cases [OF assms(1,2)] assms(3) covers [OF assms(1)] by auto

lemma written:
  assumes "ok a" "need a \<le> buflen" "buflen \<le> int (length buf)"
  shows "ser a buflen buf = Some (int (length (wire a)), wire a @ drop (length (wire a)) buf)"
  using assms covers [of a] by (intro fits_Some) auto

end

text \<open>Tables without some keys.\<close>

lemma map_of_filter_key: "map_of (filter (\<lambda>(k, _). k \<notin> A) xs) k = (if k \<in> A then None else map_of xs k)"
  by (induction xs) auto

section \<open>Lists in blocks\<close>

function chunks :: "nat \<Rightarrow> 'a list \<Rightarrow> 'a list list" where
  "chunks n xs = (if n = 0 \<or> xs = [] then [] else take n xs # chunks n (drop n xs))"
  by pat_completeness auto
termination by (relation "measure (length \<circ> snd)") auto

declare chunks.simps [simp del]

lemma chunks_Nil [simp]: "chunks n [] = []"
  by (simp add: chunks.simps)

lemma chunks_append:
  assumes "0 < n" shows "n dvd length xs \<Longrightarrow> chunks n (xs @ ys) = chunks n xs @ chunks n ys"
proof (induction "length xs" arbitrary: xs rule: less_induct)
  case less
  show ?case
  proof (cases "xs = []")
    case False
    then have n: "n \<le> length xs" using less.prems by (auto intro: dvd_imp_le)
    moreover have "chunks n (drop n xs @ ys) = chunks n (drop n xs) @ chunks n ys"
      using less.hyps [of "drop n xs"] less.prems False assms n by (auto simp: dvd_diff_nat)
    ultimately show ?thesis
      using assms False by (subst (1 2) chunks.simps) simp
  qed simp
qed

lemma chunks_one: "0 < n \<Longrightarrow> length xs = n \<Longrightarrow> chunks n xs = [xs]"
  by (subst chunks.simps) auto

lemma chunks_lengths: "n dvd length xs \<Longrightarrow> list_all (\<lambda>b. length b = n) (chunks n xs)"
proof (induction n xs rule: chunks.induct)
  case (1 n xs)
  show ?case
  proof (cases "n = 0 \<or> xs = []")
    case False
    then have "n \<le> length xs" using 1 by (auto intro: dvd_imp_le)
    then show ?thesis using 1 False by (subst chunks.simps) (simp add: dvd_diff_nat)
  qed (auto simp: chunks.simps)
qed

end
