(* ===== verification/Mqtt_Packet.thy ===== *)
theory Mqtt_Packet
  imports BSP_Prelude
begin

unbundle bit_operations_syntax

text \<open>
  \<^verbatim>\<open>yangfan/common/mqtt/mqttpacket/src/MQTTPacket.c\<close> and the data types of
  \<^verbatim>\<open>MQTTPacket.h\<close>: the remaining-length codec, the readers and writers every packet uses,
  MQTT strings, and the blocking and non-blocking packet readers.

  A \<open>char *\<close> of an \<open>MQTTString\<close> is the list of bytes that can be read through it: for
  \<open>cstring\<close> the bytes before the terminating NUL, for \<open>lenstring.data\<close> everything from the
  pointer to the end of the object it points into. A byte source (\<open>getcharfn\<close>, \<open>getfn\<close>) is a
  function on a source state: asked for \<open>n\<close> bytes it gives the C return value, the bytes it
  stored and the next state.
\<close>

section \<open>Data\<close>

definition MQTTPACKET_BUFFER_TOO_SHORT :: int where "MQTTPACKET_BUFFER_TOO_SHORT = -2"
definition MQTTPACKET_READ_ERROR :: int where "MQTTPACKET_READ_ERROR = -1"

datatype msgTypes = CONNECT | CONNACK | PUBLISH | PUBACK | PUBREC | PUBREL | PUBCOMP
  | SUBSCRIBE | SUBACK | UNSUBSCRIBE | UNSUBACK | PINGREQ | PINGRESP | DISCONNECT

fun msg_code :: "msgTypes \<Rightarrow> byte" where
  "msg_code CONNECT = 1"
| "msg_code CONNACK = 2"
| "msg_code PUBLISH = 3"
| "msg_code PUBACK = 4"
| "msg_code PUBREC = 5"
| "msg_code PUBREL = 6"
| "msg_code PUBCOMP = 7"
| "msg_code SUBSCRIBE = 8"
| "msg_code SUBACK = 9"
| "msg_code UNSUBSCRIBE = 10"
| "msg_code UNSUBACK = 11"
| "msg_code PINGREQ = 12"
| "msg_code PINGRESP = 13"
| "msg_code DISCONNECT = 14"

text \<open>The union \<open>MQTTHeader\<close>: bit-fields allocated from the low bit (\<open>REVERSED\<close> is not defined).\<close>

definition header_byte :: "byte \<Rightarrow> byte \<Rightarrow> byte \<Rightarrow> byte \<Rightarrow> byte" where
  "header_byte type dup qos retain =
     push_bit 4 (type AND 15) OR push_bit 3 (dup AND 1) OR push_bit 1 (qos AND 3) OR (retain AND 1)"

definition header_type :: "byte \<Rightarrow> byte" where "header_type b = drop_bit 4 b AND 15"
definition header_dup :: "byte \<Rightarrow> byte" where "header_dup b = drop_bit 3 b AND 1"
definition header_qos :: "byte \<Rightarrow> byte" where "header_qos b = drop_bit 1 b AND 3"
definition header_retain :: "byte \<Rightarrow> byte" where "header_retain b = b AND 1"

record MQTTLenString =
  ls_len :: int
  ls_data :: "byte list option"

record MQTTString =
  cstring :: "byte list option"
  lenstring :: MQTTLenString

definition MQTTString_initializer :: MQTTString where
  "MQTTString_initializer = \<lparr>cstring = None, lenstring = \<lparr>ls_len = 0, ls_data = None\<rparr>\<rparr>"

section \<open>The remaining-length field\<close>

function encode_loop :: "mem \<Rightarrow> nat \<Rightarrow> nat \<Rightarrow> int \<Rightarrow> (nat \<times> mem) option" where
  "encode_loop buf off rc len =
     (let d = (of_int (len smod 128) :: byte);
          len' = len sdiv 128;
          d' = (if len' > 0 then d OR 128 else d)
      in case store_bytes buf (off + rc) [d'] of
           None \<Rightarrow> None
         | Some buf' \<Rightarrow>
             (if len' > 0 then encode_loop buf' off (rc + 1) len' else Some (rc + 1, buf')))"
  by pat_completeness auto
termination
proof (relation "measure (\<lambda>(buf, off, rc, len). nat len)", goal_cases)
  case (2 buf off rc len x xa xb x2)
  have "0 < len sdiv 128" using 2 by simp
  then have "0 < len"
    by (cases "0 < len") (auto simp: signed_divide_int_def sgn_if zdiv_eq_0_iff not_less split: if_splits)
  with 2 show ?case by simp
qed simp

text \<open>\<open>MQTTPacket_encode(buf + off, len)\<close>: the number of bytes and the buffer.\<close>

definition MQTTPacket_encode :: "mem \<Rightarrow> nat \<Rightarrow> int \<Rightarrow> (nat \<times> mem) option" where
  "MQTTPacket_encode buf off len = encode_loop buf off 0 len"

type_synonym 's getfn = "'s \<Rightarrow> nat \<Rightarrow> (int \<times> byte list \<times> 's) option"

definition MAX_NO_OF_REMAINING_LENGTH_BYTES :: nat where
  "MAX_NO_OF_REMAINING_LENGTH_BYTES = 4"

text \<open>
  The loop of \<open>MQTTPacket_decode\<close>; \<open>len\<close> is the counter before the increment. A source that
  returns 1 without storing a byte leaves \<open>c\<close> indeterminate, which faults.
\<close>

function decode_loop :: "'s getfn \<Rightarrow> nat \<Rightarrow> int \<Rightarrow> int \<Rightarrow> 's \<Rightarrow> (nat \<times> int \<times> 's) option" where
  "decode_loop getcharfn len multiplier val s =
     (if len + 1 > MAX_NO_OF_REMAINING_LENGTH_BYTES then Some (len + 1, val, s)
      else case getcharfn s 1 of
          None \<Rightarrow> None
        | Some (rc, bs, s') \<Rightarrow>
            (if rc \<noteq> 1 then Some (len + 1, val, s')
             else case bs of
                 [] \<Rightarrow> None
               | c # _ \<Rightarrow>
                   (let val' = val + uint (c AND 127) * multiplier
                    in if c AND 128 \<noteq> 0
                       then decode_loop getcharfn (len + 1) (multiplier * 128) val' s'
                       else Some (len + 1, val', s'))))"
  by pat_completeness auto
termination
  by (relation "measure (\<lambda>(g, len, m, v, s). MAX_NO_OF_REMAINING_LENGTH_BYTES - len)") auto

definition MQTTPacket_decode :: "'s getfn \<Rightarrow> 's \<Rightarrow> (nat \<times> int \<times> 's) option" where
  "MQTTPacket_decode getcharfn s = decode_loop getcharfn 0 1 0 s"

definition MQTTPacket_len :: "int \<Rightarrow> int" where
  "MQTTPacket_len rem_len0 =
     (let rem_len = rem_len0 + 1
      in if rem_len < 128 then rem_len + 1
         else if rem_len < 16384 then rem_len + 2
         else if rem_len < 2097151 then rem_len + 3
         else rem_len + 4)"

text \<open>\<open>bufchar\<close>: the source over \<open>bufptr\<close>. It stores every byte in the same place \<open>*c\<close>.\<close>

fun bufchar :: "cursor getfn" where
  "bufchar (buf, p) count =
     (if p + count \<le> length buf
      then Some (int count, (if count = 0 then [] else [buf ! (p + count - 1)]), (buf, p + count))
      else None)"

definition MQTTPacket_decodeBuf :: "mem \<Rightarrow> nat \<Rightarrow> (nat \<times> int) option" where
  "MQTTPacket_decodeBuf buf off =
     do { (n, val, _) \<leftarrow> MQTTPacket_decode bufchar (buf, off); Some (n, val) }"

section \<open>Readers and writers\<close>

definition readInt :: "mem \<Rightarrow> nat \<Rightarrow> (int \<times> nat) option" where
  "readInt buf ptr =
     do { a \<leftarrow> load8 buf ptr; b \<leftarrow> load8 buf (ptr + 1); Some (256 * uint a + uint b, ptr + 2) }"

definition readChar :: "mem \<Rightarrow> nat \<Rightarrow> (byte \<times> nat) option" where
  "readChar buf ptr = do { c \<leftarrow> load8 buf ptr; Some (c, ptr + 1) }"

definition writeChar :: "byte \<Rightarrow> cursor \<Rightarrow> cursor option" where
  "writeChar c = (\<lambda>(buf, ptr). do { buf \<leftarrow> store_bytes buf ptr [c]; Some (buf, ptr + 1) })"

definition writeInt :: "int \<Rightarrow> cursor \<Rightarrow> cursor option" where
  "writeInt anInt cur =
     do { cur \<leftarrow> writeChar (of_int (anInt sdiv 256)) cur; writeChar (of_int (anInt smod 256)) cur }"

definition memcpy_to :: "byte list \<Rightarrow> int \<Rightarrow> cursor \<Rightarrow> cursor option" where
  "memcpy_to src n cur = do { bs \<leftarrow> take_n src n; put bs cur }"

definition writeCString :: "byte list \<Rightarrow> cursor \<Rightarrow> cursor option" where
  "writeCString str cur =
     (let len = int (length str)
      in do { cur \<leftarrow> writeInt len cur; memcpy_to str len cur })"

definition getLenStringLen :: "byte list \<Rightarrow> int option" where
  "getLenStringLen ptr = do { a \<leftarrow> load8 ptr 0; b \<leftarrow> load8 ptr 1; Some (256 * uint a + uint b) }"

definition writeMQTTString :: "MQTTString \<Rightarrow> cursor \<Rightarrow> cursor option" where
  "writeMQTTString s cur =
     (if ls_len (lenstring s) > 0
      then do { cur \<leftarrow> writeInt (ls_len (lenstring s)) cur;
                src \<leftarrow> ls_data (lenstring s);
                memcpy_to src (ls_len (lenstring s)) cur }
      else case cstring s of
          Some str \<Rightarrow> writeCString str cur
        | None \<Rightarrow> writeInt 0 cur)"

text \<open>The idiom \<open>ptr += MQTTPacket_encode(ptr, len)\<close> of the serializers.\<close>

definition writeRemLen :: "int \<Rightarrow> cursor \<Rightarrow> cursor option" where
  "writeRemLen len = (\<lambda>(buf, ptr). do {
     (n, buf) \<leftarrow> MQTTPacket_encode buf ptr len; Some (buf, ptr + n) })"

text \<open>The result is the return code, the string and the pointer; \<open>enddata\<close> is an offset too.\<close>

definition readMQTTLenString ::
  "MQTTString \<Rightarrow> mem \<Rightarrow> nat \<Rightarrow> int \<Rightarrow> (bool \<times> MQTTString \<times> nat) option" where
  "readMQTTLenString s buf ptr enddata =
     (if enddata - int ptr > 1
      then do {
        (len, ptr) \<leftarrow> readInt buf ptr;
        (if int ptr + len \<le> enddata
         then Some (True,
                s\<lparr>cstring := None, lenstring := \<lparr>ls_len = len, ls_data = Some (drop ptr buf)\<rparr>\<rparr>,
                ptr + nat len)
         else Some (False, s\<lparr>cstring := None, lenstring := (lenstring s)\<lparr>ls_len := len\<rparr>\<rparr>, ptr))
      }
      else Some (False, s\<lparr>cstring := None\<rparr>, ptr))"

definition MQTTstrlen :: "MQTTString \<Rightarrow> int" where
  "MQTTstrlen s = (case cstring s of Some str \<Rightarrow> int (length str) | None \<Rightarrow> ls_len (lenstring s))"

text \<open>\<open>strncmp(a, b, n) == 0\<close>: equal up to a common NUL or \<open>n\<close> bytes; a C string ends in a NUL.\<close>

fun strncmp_eq :: "byte list \<Rightarrow> byte list \<Rightarrow> nat \<Rightarrow> bool option" where
  "strncmp_eq a b 0 = Some True"
| "strncmp_eq (x # a) (y # b) (Suc n) =
     (if x \<noteq> y then Some False else if x = 0 then Some True else strncmp_eq a b n)"
| "strncmp_eq _ _ (Suc n) = None"

definition MQTTPacket_equals :: "MQTTString \<Rightarrow> byte list \<Rightarrow> bool option" where
  "MQTTPacket_equals a bptr =
     (let (aptr, alen) = (case cstring a of
              Some str \<Rightarrow> (Some (str @ [0]), int (length str))
            | None \<Rightarrow> (ls_data (lenstring a), ls_len (lenstring a)));
          blen = int (length bptr)
      in if alen = blen
         then do { ap \<leftarrow> aptr; strncmp_eq ap (bptr @ [0]) (nat alen) }
         else Some False)"

section \<open>Packet readers\<close>

definition MQTTPacket_read :: "mem \<Rightarrow> int \<Rightarrow> 's getfn \<Rightarrow> 's \<Rightarrow> (int \<times> mem \<times> 's) option" where
  "MQTTPacket_read buf buflen getfn s =
     do { (rc, bs, s) \<leftarrow> getfn s 1;
          buf \<leftarrow> store_bytes buf 0 bs;
          if rc \<noteq> 1 then Some (-1, buf, s)
          else do {
            (_, rem_len, s) \<leftarrow> MQTTPacket_decode getfn s;
            (n, buf) \<leftarrow> MQTTPacket_encode buf 1 rem_len;
            let len = 1 + n;
            if rem_len + int len > buflen then Some (-1, buf, s)
            else if rem_len \<noteq> 0
            then do {
              (rc, bs, s) \<leftarrow> getfn s (nat rem_len);
              buf \<leftarrow> store_bytes buf len bs;
              if rc \<noteq> rem_len then Some (-1, buf, s)
              else do { b \<leftarrow> load8 buf 0; Some (uint (header_type b), buf, s) }
            }
            else do { b \<leftarrow> load8 buf 0; Some (uint (header_type b), buf, s) }
          } }"

text \<open>\<open>MQTTTransport\<close>; \<open>getfn\<close> is passed beside it, \<open>sck\<close> is the state of the source.\<close>

record 's MQTTTransport =
  sck :: 's
  tr_multiplier :: int
  tr_rem_len :: int
  tr_len :: nat
  tr_state :: nat

function decodenb_loop :: "'s getfn \<Rightarrow> 's MQTTTransport \<Rightarrow> (int \<times> 's MQTTTransport) option" where
  "decodenb_loop getfn trp =
     (if tr_len trp \<ge> MAX_NO_OF_REMAINING_LENGTH_BYTES then Some (MQTTPACKET_READ_ERROR, trp)
      else case getfn (sck trp) 1 of
          None \<Rightarrow> None
        | Some (frc, bs, s') \<Rightarrow>
            (if frc = -1 then Some (MQTTPACKET_READ_ERROR, trp\<lparr>sck := s'\<rparr>)
             else if frc = 0 then Some (0, trp\<lparr>sck := s'\<rparr>)
             else case bs of
                 [] \<Rightarrow> None
               | c # _ \<Rightarrow>
                   (let trp' = trp\<lparr>sck := s', tr_len := tr_len trp + 1,
                          tr_rem_len := tr_rem_len trp + uint (c AND 127) * tr_multiplier trp,
                          tr_multiplier := tr_multiplier trp * 128\<rparr>
                    in if c AND 128 \<noteq> 0 then decodenb_loop getfn trp'
                       else Some (int (tr_len trp'), trp'))))"
  by pat_completeness auto
termination
  by (relation "measure (\<lambda>(g, trp). MAX_NO_OF_REMAINING_LENGTH_BYTES - tr_len trp)") auto

definition MQTTPacket_decodenb :: "'s getfn \<Rightarrow> 's MQTTTransport \<Rightarrow> (int \<times> 's MQTTTransport) option" where
  "MQTTPacket_decodenb getfn trp =
     decodenb_loop getfn (if tr_len trp = 0 then trp\<lparr>tr_multiplier := 1, tr_rem_len := 0\<rparr> else trp)"

text \<open>
  The cases of the \<open>switch\<close> in \<open>MQTTPacket_readnb\<close>, each falling through to the next. The label
  \<open>exit\<close> resets the state; a plain \<open>return 0\<close> keeps it for the next call.
\<close>

definition readnb_finish :: "mem \<Rightarrow> 's MQTTTransport \<Rightarrow> (int \<times> mem \<times> 's MQTTTransport) option" where
  "readnb_finish buf trp =
     do { b \<leftarrow> load8 buf 0; Some (uint (header_type b), buf, trp\<lparr>tr_state := 0\<rparr>) }"

definition readnb_case2 ::
  "'s getfn \<Rightarrow> mem \<Rightarrow> 's MQTTTransport \<Rightarrow> (int \<times> mem \<times> 's MQTTTransport) option" where
  "readnb_case2 getfn buf trp =
     (if tr_rem_len trp \<noteq> 0
      then do {
        (frc, bs, s') \<leftarrow> getfn (sck trp) (nat (tr_rem_len trp));
        buf \<leftarrow> store_bytes buf (tr_len trp) bs;
        let trp = trp\<lparr>sck := s'\<rparr>;
        if frc = -1 then Some (-1, buf, trp\<lparr>tr_state := 0\<rparr>)
        else if frc = 0 then Some (0, buf, trp)
        else let trp = trp\<lparr>tr_rem_len := tr_rem_len trp - frc, tr_len := tr_len trp + nat frc\<rparr>
             in if tr_rem_len trp \<noteq> 0 then Some (0, buf, trp) else readnb_finish buf trp
      }
      else readnb_finish buf trp)"

definition readnb_case1 ::
  "'s getfn \<Rightarrow> mem \<Rightarrow> int \<Rightarrow> 's MQTTTransport \<Rightarrow> (int \<times> mem \<times> 's MQTTTransport) option" where
  "readnb_case1 getfn buf buflen trp =
     do { (frc, trp) \<leftarrow> MQTTPacket_decodenb getfn trp;
          if frc = MQTTPACKET_READ_ERROR then Some (-1, buf, trp\<lparr>tr_state := 0\<rparr>)
          else if frc = 0 then Some (0, buf, trp)
          else do {
            (n, buf) \<leftarrow> MQTTPacket_encode buf 1 (tr_rem_len trp);
            let trp = trp\<lparr>tr_len := 1 + n\<rparr>;
            if tr_rem_len trp + int (tr_len trp) > buflen then Some (-1, buf, trp\<lparr>tr_state := 0\<rparr>)
            else readnb_case2 getfn buf (trp\<lparr>tr_state := tr_state trp + 1\<rparr>)
          } }"

definition readnb_case0 ::
  "'s getfn \<Rightarrow> mem \<Rightarrow> int \<Rightarrow> 's MQTTTransport \<Rightarrow> (int \<times> mem \<times> 's MQTTTransport) option" where
  "readnb_case0 getfn buf buflen trp =
     do { (frc, bs, s') \<leftarrow> getfn (sck trp) 1;
          buf \<leftarrow> store_bytes buf 0 bs;
          let trp = trp\<lparr>sck := s'\<rparr>;
          if frc = -1 then Some (-1, buf, trp\<lparr>tr_state := 0\<rparr>)
          else if frc = 0 then Some (0, buf, trp)
          else readnb_case1 getfn buf buflen (trp\<lparr>tr_len := 0, tr_state := tr_state trp + 1\<rparr>) }"

definition MQTTPacket_readnb ::
  "'s getfn \<Rightarrow> mem \<Rightarrow> int \<Rightarrow> 's MQTTTransport \<Rightarrow> (int \<times> mem \<times> 's MQTTTransport) option" where
  "MQTTPacket_readnb getfn buf buflen trp =
     (if tr_state trp = 1 then readnb_case1 getfn buf buflen trp
      else if tr_state trp = 2 then readnb_case2 getfn buf trp
      else readnb_case0 getfn buf buflen (trp\<lparr>tr_state := 0\<rparr>))"

section \<open>Header bytes\<close>

lemma and_masks: "(x :: byte) AND 15 = x AND mask 4" "x AND 127 = x AND mask 7" "x AND 3 = x AND mask 2" "x AND 1 = x AND mask 1"
  by (simp_all add: mask_numeral)

lemmas header_bits = bit_and_iff bit_or_iff bit_drop_bit_eq bit_push_bit_iff bit_mask_iff o_def

lemma header_extract:
  "header_type (header_byte t d q r) = t AND 15"
  "header_dup (header_byte t d q r) = d AND 1"
  "header_qos (header_byte t d q r) = q AND 3"
  "header_retain (header_byte t d q r) = r AND 1"
  unfolding header_byte_def header_type_def header_dup_def header_qos_def header_retain_def and_masks
  by (rule bit_word_eqI, simp only: header_bits, (auto)[1])+

lemma header_fields [simp]:
  "t < 16 \<Longrightarrow> header_type (header_byte t d q r) = t"
  "d < 2 \<Longrightarrow> header_dup (header_byte t d q r) = d"
  "q < 4 \<Longrightarrow> header_qos (header_byte t d q r) = q"
  "r < 2 \<Longrightarrow> header_retain (header_byte t d q r) = r"
  unfolding header_extract and_masks by (rule less_mask_eq, simp)+

lemma msg_code_less [simp]: "msg_code t < 16"
  by (cases t) simp_all

lemma header_type_msg [simp]: "header_type (header_byte (msg_code t) d q r) = msg_code t"
  by simp

lemma msg_code_inj [simp]: "msg_code a = msg_code b \<longleftrightarrow> a = b"
  by (cases a; cases b) simp_all

section \<open>The remaining-length codec\<close>

text \<open>The abstract encoding: base 128, least significant digit first, top bit on all but the last.\<close>

fun enc_rem :: "nat \<Rightarrow> byte list" where
  "enc_rem n = (if n < 128 then [of_nat n] else (of_nat (n mod 128) OR 128) # enc_rem (n div 128))"

declare enc_rem.simps [simp del]
declare encode_loop.simps [simp del]
declare decode_loop.simps [simp del]
declare decodenb_loop.simps [simp del]

lemma enc_rem_small: "n < 128 \<Longrightarrow> enc_rem n = [of_nat n]"
  by (simp add: enc_rem.simps)

lemma enc_rem_big: "128 \<le> n \<Longrightarrow> enc_rem n = (of_nat (n mod 128) OR 128) # enc_rem (n div 128)"
  by (subst enc_rem.simps) simp

lemma enc_rem_ne [simp]: "enc_rem n \<noteq> []"
  by (subst enc_rem.simps) simp

lemma encode_loop_put:
  "encode_loop buf off rc (int n) =
     do { (buf', p) \<leftarrow> put (enc_rem n) (buf, off + rc); Some (p - off, buf') }"
proof (induction n arbitrary: buf rc rule: enc_rem.induct)
  case (1 n)
  show ?case
  proof (cases "n < 128")
    case True
    then show ?thesis
      by (simp add: encode_loop.simps [of _ _ _ "int n"] enc_rem_small put_def split: option.splits)
  next
    case False
    then have "int n div 128 > 0" by auto
    moreover have "int n div 128 = int (n div 128)" "int n mod 128 = int (n mod 128)"
      by (simp_all add: zdiv_int zmod_int)
    ultimately show ?thesis
      using False 1 [of _ "rc + 1"]
      by (simp add: encode_loop.simps [of _ _ _ "int n"] enc_rem_big
          put_append [of "[_]" "enc_rem (n div 128)", simplified]
          put_def [of "[_]"] bind_assoc Let_def split: option.splits)
  qed
qed

lemma MQTTPacket_encode_put:
  "MQTTPacket_encode buf off (int n) =
     do { (buf', p) \<leftarrow> put (enc_rem n) (buf, off); Some (p - off, buf') }"
  by (simp add: MQTTPacket_encode_def encode_loop_put)

lemma digit_last:
  assumes "n < 128"
  shows "uint ((of_nat n :: byte) AND 127) = int n" "(of_nat n :: byte) AND 128 = 0"
proof -
  have lt: "(of_nat n :: byte) < 2 ^ 7"
    using assms by (simp add: word_less_nat_alt unat_of_nat)
  then have m: "(of_nat n :: byte) AND mask 7 = of_nat n" by (rule less_mask_eq)
  show "uint ((of_nat n :: byte) AND 127) = int n"
    unfolding and_masks m using assms by (simp add: uint_nat unat_of_nat)
  have "(of_nat n :: byte) AND 128 = (of_nat n AND mask 7) AND 128" by (simp only: m)
  also have "\<dots> = 0" by (simp add: and.assoc mask_numeral)
  finally show "(of_nat n :: byte) AND 128 = 0" .
qed

lemma digit_more:
  assumes "n < 128"
  shows "uint ((of_nat n OR 128 :: byte) AND 127) = int n" "(of_nat n OR 128 :: byte) AND 128 \<noteq> 0"
proof -
  have "(of_nat n OR 128 :: byte) AND 127 = of_nat n AND 127"
    by (simp add: bit.conj_disj_distrib2)
  then show "uint ((of_nat n OR 128 :: byte) AND 127) = int n"
    using digit_last [OF assms] by simp
  show "(of_nat n OR 128 :: byte) AND 128 \<noteq> 0"
    by (simp add: bit.conj_disj_distrib2 digit_last [OF assms])
qed

lemma digit_split: "int (n mod 128) * mult + int (n div 128) * (mult * 128) = int n * mult"
proof -
  have "int n = int (n mod 128 + n div 128 * 128)" by (simp only: mod_div_mult_eq)
  then have "int n = int (n mod 128) + int (n div 128) * 128"
    by (simp only: of_nat_add of_nat_mult of_nat_numeral)
  then show ?thesis by (simp only: distrib_right mult.assoc mult.commute [of 128 mult])
qed

lemma length_enc_rem_le: "n < 128 ^ k \<Longrightarrow> length (enc_rem n) \<le> max 1 k"
proof (induction n arbitrary: k rule: enc_rem.induct)
  case (1 n)
  show ?case
  proof (cases "n < 128")
    case True
    then show ?thesis by (simp add: enc_rem_small)
  next
    case False
    with "1.prems" obtain j where k: "k = Suc j" "j \<noteq> 0"
      by (cases k; cases "k = 1") auto
    with "1.prems" have "n div 128 < 128 ^ j"
      by (simp add: less_mult_imp_div_less mult.commute)
    with "1.IH" False k show ?thesis by (fastforce simp: enc_rem_big)
  qed
qed

lemma length_enc_rem:
  "length (enc_rem n) =
     (if n < 128 then 1 else if n < 16384 then 2 else if n < 2097152 then 3
      else if n < 268435456 then 4 else 1 + length (enc_rem (n div 128)))"
  by (simp add: enc_rem_small enc_rem_big)

lemma packet_len_bounds:
  assumes "0 \<le> len" "len < 268435456"
  shows "1 + int (length (enc_rem (nat len))) + len \<le> MQTTPacket_len len"
    "MQTTPacket_len len \<le> 2 + int (length (enc_rem (nat len))) + len"
proof -
  have "nat len < k \<longleftrightarrow> len < int k" for k using assms(1) by linarith
  then show "1 + int (length (enc_rem (nat len))) + len \<le> MQTTPacket_len len"
    "MQTTPacket_len len \<le> 2 + int (length (enc_rem (nat len))) + len"
    using assms by (simp_all add: MQTTPacket_len_def length_enc_rem Let_def)
qed

section \<open>Byte sources\<close>

text \<open>What \<open>MQTTPacket_decode\<close> needs of its callback: pending bytes come one at a time.\<close>

locale byte_source =
  fixes get :: "'s getfn"
    and pending :: "'s \<Rightarrow> byte list"
  assumes get_one: "pending s = b # bs \<Longrightarrow> \<exists>s'. get s 1 = Some (1, [b], s') \<and> pending s' = bs"
begin

lemma decode_loop_enc:
  assumes "pending s = enc_rem n @ rest" "len + length (enc_rem n) \<le> 4"
  shows "\<exists>s'. decode_loop get len mult val s = Some (len + length (enc_rem n), val + int n * mult, s')
           \<and> pending s' = rest"
  using assms
proof (induction n arbitrary: s len mult val rule: enc_rem.induct)
  case (1 n)
  show ?case
  proof (cases "n < 128")
    case True
    with "1.prems"(1) have "pending s = of_nat n # rest" by (simp add: enc_rem_small)
    from get_one [OF this] obtain s' where "get s 1 = Some (1, [of_nat n], s')" "pending s' = rest"
      by blast
    with True "1.prems"(2) show ?thesis
      by (simp add: decode_loop.simps [of get len] MAX_NO_OF_REMAINING_LENGTH_BYTES_def
          enc_rem_small digit_last)
  next
    case False
    let ?c = "of_nat (n mod 128) OR 128 :: byte"
    from False "1.prems"(1) have "pending s = ?c # enc_rem (n div 128) @ rest"
      by (simp add: enc_rem_big)
    from get_one [OF this] obtain s1 where s1: "get s 1 = Some (1, [?c], s1)"
      "pending s1 = enc_rem (n div 128) @ rest" by blast
    from False "1.prems"(2) have "(len + 1) + length (enc_rem (n div 128)) \<le> 4"
      by (simp add: enc_rem_big)
    from "1.IH" [OF False s1(2) this, of "mult * 128" "val + int (n mod 128) * mult"]
    obtain s' where s': "pending s' = rest"
      "decode_loop get (len + 1) (mult * 128) (val + int (n mod 128) * mult) s1 =
         Some (len + 1 + length (enc_rem (n div 128)),
           val + int (n mod 128) * mult + int (n div 128) * (mult * 128), s')" by blast
    with s1 False "1.prems"(2) show ?thesis
      by (simp add: decode_loop.simps [of get len] MAX_NO_OF_REMAINING_LENGTH_BYTES_def
          enc_rem_big digit_more add.assoc digit_split)
  qed
qed

lemma decode_enc:
  assumes "pending s = enc_rem n @ rest" "n < 268435456"
  shows "\<exists>s'. MQTTPacket_decode get s = Some (length (enc_rem n), int n, s') \<and> pending s' = rest"
proof -
  have "length (enc_rem n) \<le> 4" using assms(2) length_enc_rem_le [of n 4] by simp
  then show ?thesis
    using decode_loop_enc [OF assms(1), of 0 1 0] by (simp add: MQTTPacket_decode_def)
qed

end

interpretation bufsrc: byte_source bufchar "\<lambda>(buf, p). drop p buf"
proof
  fix s :: cursor and b bs
  assume pend: "(case s of (buf, p) \<Rightarrow> drop p buf) = b # bs"
  obtain buf p where s: "s = (buf, p)" by (cases s)
  with pend have d: "drop p buf = b # bs" by simp
  then have p: "p < length buf" using not_le by fastforce
  from d p have "buf ! p = b" "drop (Suc p) buf = bs"
    by (auto simp: Cons_nth_drop_Suc [symmetric])
  with s p show "\<exists>s'. bufchar s 1 = Some (1, [b], s') \<and> (case s' of (buf, p) \<Rightarrow> drop p buf) = bs"
    by auto
qed

lemma decodeBuf_enc:
  assumes "n < 268435456"
  shows "MQTTPacket_decodeBuf (xs @ enc_rem n @ ys) (length xs) = Some (length (enc_rem n), int n)"
proof -
  have "(case (xs @ enc_rem n @ ys, length xs) of (buf, p) \<Rightarrow> drop p buf) = enc_rem n @ ys" by simp
  from bufsrc.decode_enc [OF this assms] show ?thesis
    by (auto simp: MQTTPacket_decodeBuf_def)
qed

lemma decode_loop_bounds:
  assumes "decode_loop g len mult val s = Some (n, v, s')" "0 \<le> mult" "len \<le> 4"
  shows "len < n \<and> n \<le> 5 \<and> val \<le> v \<and> v \<le> val + mult * (128 ^ (4 - len) - 1)"
  using assms
proof (induction g len mult val s rule: decode_loop.induct)
  case (1 g len mult val s)
  show ?case
  proof (cases "len < 4")
    case False
    with "1.prems" show ?thesis
      by (simp add: decode_loop.simps [of g len] MAX_NO_OF_REMAINING_LENGTH_BYTES_def)
  next
    case True
    have pow: "(128 :: int) ^ (4 - len) = 128 * 128 ^ (4 - (len + 1))"
      using True by (simp flip: power_Suc add: Suc_diff_Suc)
    have ge1: "(1 :: int) \<le> 128 ^ (4 - (len + 1))" by simp
    have grow: "0 \<le> mult * (128 ^ (4 - len) - 1)" using "1.prems"(2) by simp
    have digit: "0 \<le> uint (c AND 127)" "uint (c AND 127) \<le> 127" for c :: byte
      using and_mask_lt_2p [of c 7] unfolding and_masks by simp_all
    have part: "val + uint (c AND 127) * mult + mult * 128 * (128 ^ (4 - (len + 1)) - 1)
          \<le> val + mult * (128 ^ (4 - len) - 1)" for c :: byte
      using mult_right_mono [OF digit(2) "1.prems"(2), of c] by (simp add: pow algebra_simps)
    have part1: "val + uint (c AND 127) * mult \<le> val + mult * (128 ^ (4 - len) - 1)" for c :: byte
      using part [of c] mult_nonneg_nonneg [OF "1.prems"(2), of "128 * (128 ^ (4 - (len + 1)) - 1)"] ge1
      by (simp add: mult.assoc)
    obtain rc bs s1 where g: "g s 1 = Some (rc, bs, s1)"
      using True "1.prems"(1)
      by (cases "g s 1")
        (auto simp: decode_loop.simps [of g len] MAX_NO_OF_REMAINING_LENGTH_BYTES_def)
    show ?thesis
    proof (cases "rc = 1 \<and> bs \<noteq> [] \<and> hd bs AND 128 \<noteq> 0")
      case False
      with True g "1.prems"(1) show ?thesis
        using grow part1 digit "1.prems"(2)
        by (auto simp: decode_loop.simps [of g len] MAX_NO_OF_REMAINING_LENGTH_BYTES_def
            split: list.splits if_splits)
    next
      case more: True
      then obtain c bs' where bs: "bs = c # bs'" "c AND 128 \<noteq> 0" "rc = 1" by (cases bs) auto
      with True g "1.prems"(1)
      have rec: "decode_loop g (len + 1) (mult * 128) (val + uint (c AND 127) * mult) s1 = Some (n, v, s')"
        by (simp add: decode_loop.simps [of g len] MAX_NO_OF_REMAINING_LENGTH_BYTES_def)
      have "len + 1 < n \<and> n \<le> 5 \<and> val + uint (c AND 127) * mult \<le> v \<and>
          v \<le> val + uint (c AND 127) * mult + mult * 128 * (128 ^ (4 - (len + 1)) - 1)"
        using True g bs rec "1.prems"(2)
        by (intro "1.IH") (auto simp: MAX_NO_OF_REMAINING_LENGTH_BYTES_def)
      then show ?thesis
        using part [of c] mult_nonneg_nonneg [OF digit(1) "1.prems"(2), of c] by linarith
    qed
  qed
qed

section \<open>Readers and writers as runs of bytes\<close>

definition int_bytes :: "int \<Rightarrow> byte list" where
  "int_bytes n = [of_int (n sdiv 256), of_int (n smod 256)]"

lemma length_int_bytes [simp]: "length (int_bytes n) = 2"
  by (simp add: int_bytes_def)

lemma writeChar_put [put_simps]: "writeChar c = put [c]"
  by (auto simp: writeChar_def put_def fun_eq_iff)

lemma writeInt_put [put_simps]: "writeInt n = put (int_bytes n)"
  by (rule ext) (simp add: writeInt_def int_bytes_def put_simps)

lemma memcpy_to_put: "take_n src n = Some bs \<Longrightarrow> memcpy_to src n = put bs"
  by (rule ext) (simp add: memcpy_to_def)

lemma writeCString_put [put_simps]:
  "writeCString str = put (int_bytes (int (length str)) @ str)"
  by (rule ext) (simp add: writeCString_def memcpy_to_put put_simps)

lemma writeRemLen_put: "0 \<le> len \<Longrightarrow> writeRemLen len = put (enc_rem (nat len))"
proof (rule ext)
  fix cur :: cursor assume "0 \<le> len"
  then show "writeRemLen len cur = put (enc_rem (nat len)) cur"
    using MQTTPacket_encode_put [of "fst cur" "snd cur" "nat len"]
    by (cases cur) (simp add: writeRemLen_def put_def bind_assoc)
qed

text \<open>
  A well-formed \<open>MQTTString\<close> uses one of its two halves: \<open>MQTTstrlen\<close> prefers \<open>cstring\<close> and
  \<open>writeMQTTString\<close> prefers \<open>lenstring\<close>, so a string with both would be sized by one and
  written by the other.
\<close>

definition str_ok :: "MQTTString \<Rightarrow> bool" where
  "str_ok s \<longleftrightarrow> (case cstring s of
       Some _ \<Rightarrow> ls_len (lenstring s) \<le> 0
     | None \<Rightarrow> 0 \<le> ls_len (lenstring s) \<and>
         (0 < ls_len (lenstring s) \<longrightarrow>
           (case ls_data (lenstring s) of None \<Rightarrow> False
            | Some d \<Rightarrow> ls_len (lenstring s) \<le> int (length d))))"

definition content :: "MQTTString \<Rightarrow> byte list" where
  "content s = (case cstring s of
       Some str \<Rightarrow> str
     | None \<Rightarrow> (case ls_data (lenstring s) of
           Some d \<Rightarrow> take (nat (ls_len (lenstring s))) d
         | None \<Rightarrow> []))"

definition str_bytes :: "MQTTString \<Rightarrow> byte list" where
  "str_bytes s = int_bytes (int (length (content s))) @ content s"

lemma content_read [simp]:
  "content (s\<lparr>cstring := None, lenstring := \<lparr>ls_len = int (length c), ls_data = Some (c @ rest)\<rparr>\<rparr>) = c"
  by (simp add: content_def)

lemma length_content: "str_ok s \<Longrightarrow> int (length (content s)) = MQTTstrlen s"
  by (auto simp: str_ok_def content_def MQTTstrlen_def split: option.splits)

lemma length_str_bytes: "str_ok s \<Longrightarrow> int (length (str_bytes s)) = MQTTstrlen s + 2"
  by (simp add: str_bytes_def length_content)

lemma MQTTstrlen_nonneg: "str_ok s \<Longrightarrow> 0 \<le> MQTTstrlen s"
  using length_content [of s] by simp

lemma writeMQTTString_put: "str_ok s \<Longrightarrow> writeMQTTString s = put (str_bytes s)"
proof (rule ext)
  fix cur assume ok: "str_ok s"
  show "writeMQTTString s cur = put (str_bytes s) cur"
  proof (cases "0 < ls_len (lenstring s)")
    case True
    with ok obtain d where d: "cstring s = None" "ls_data (lenstring s) = Some d"
      "ls_len (lenstring s) \<le> int (length d)"
      by (auto simp: str_ok_def split: option.splits)
    with True have "take_n d (ls_len (lenstring s)) = Some (content s)"
      "int (length (content s)) = ls_len (lenstring s)"
      by (auto simp: take_n_def content_def)
    with True d show ?thesis
      by (simp add: writeMQTTString_def str_bytes_def memcpy_to_put put_simps)
  next
    case False
    with ok show ?thesis
      by (auto simp: writeMQTTString_def str_ok_def str_bytes_def content_def put_simps
          split: option.splits)
  qed
qed

lemma readChar_at [mem_simps]: "length xs = p \<Longrightarrow> readChar (xs @ b # ys) p = Some (b, Suc p)"
  by (simp add: readChar_def mem_simps)

lemma readInt_at [mem_simps]:
  assumes "length xs = p" "0 \<le> n" "n < 65536"
  shows "readInt (xs @ int_bytes n @ ys) p = Some (n, p + 2)"
proof -
  have "uint (of_int (n div 256) :: byte) = n div 256" "uint (of_int (n mod 256) :: byte) = n mod 256"
    using assms by (simp_all add: uint_of_int_byte)
  with assms show ?thesis
    by (simp add: readInt_def int_bytes_def mem_simps)
qed

lemma readMQTTLenString_at:
  assumes "length xs = p" "length c < 65536" "int (p + 2 + length c) \<le> enddata"
  shows "readMQTTLenString s (xs @ int_bytes (int (length c)) @ c @ ys) p enddata =
    Some (True, s\<lparr>cstring := None, lenstring := \<lparr>ls_len = int (length c), ls_data = Some (c @ ys)\<rparr>\<rparr>,
          p + 2 + length c)"
  using assms readInt_at [OF assms(1), of "int (length c)" "c @ ys"]
  by (simp add: readMQTTLenString_def)

section \<open>Reading a fragmented stream\<close>

text \<open>
  The contract \<^verbatim>\<open>MQTTPacket.h\<close> states for the non-blocking callback, on a stream whose unread
  bytes are \<open>pending\<close>: 0 means call again, otherwise the number of bytes read.
\<close>

definition nb_source :: "'s getfn \<Rightarrow> ('s \<Rightarrow> byte list) \<Rightarrow> bool" where
  "nb_source get pending \<longleftrightarrow> (\<forall>s n. 0 < n \<longrightarrow> (\<exists>s'.
      (get s n = Some (0, [], s') \<and> pending s' = pending s) \<or>
      (\<exists>k. 0 < k \<and> k \<le> n \<and> k \<le> length (pending s) \<and>
         get s n = Some (int k, take k (pending s), s') \<and> pending s' = drop k (pending s))))"

text \<open>A source that always has a byte when one is due.\<close>

definition nb_ready :: "'s getfn \<Rightarrow> ('s \<Rightarrow> byte list) \<Rightarrow> bool" where
  "nb_ready get pending \<longleftrightarrow>
     (\<forall>s n bs s'. 0 < n \<longrightarrow> pending s \<noteq> [] \<longrightarrow> get s n \<noteq> Some (0, bs, s'))"

lemma nb_source_cases:
  assumes "nb_source get pending" "0 < n"
  obtains (again) s' where "get s n = Some (0, [], s')" "pending s' = pending s"
  | (some) k s' where "0 < k" "k \<le> n" "k \<le> length (pending s)"
      "get s n = Some (int k, take k (pending s), s')" "pending s' = drop k (pending s)"
  using assms unfolding nb_source_def by metis

definition nb_digits ::
  "('s \<Rightarrow> byte list) \<Rightarrow> nat \<Rightarrow> byte list \<Rightarrow> 's MQTTTransport \<Rightarrow> bool" where
  "nb_digits pending n rest trp \<longleftrightarrow> (\<exists>m. pending (sck trp) = enc_rem m @ rest \<and>
     tr_len trp + length (enc_rem m) \<le> 4 \<and>
     (if tr_len trp = 0 then m = n else tr_rem_len trp + int m * tr_multiplier trp = int n))"

lemma decodenb_loop_frag:
  assumes src: "nb_source get pending"
    and "pending (sck trp) = enc_rem m @ rest" "tr_len trp + length (enc_rem m) \<le> 4"
    and "tr_rem_len trp + int m * tr_multiplier trp = int n" "tr_len trp = 0 \<longrightarrow> m = n"
  shows "\<exists>frc trp'. decodenb_loop get trp = Some (frc, trp') \<and> tr_state trp' = tr_state trp \<and>
     length (pending (sck trp')) \<le> length (pending (sck trp)) \<and>
     ((frc = 0 \<and> nb_digits pending n rest trp' \<and> \<not> nb_ready get pending) \<or>
      (0 < frc \<and> tr_rem_len trp' = int n \<and> pending (sck trp') = rest))"
  using assms(2-)
proof (induction m arbitrary: trp rule: enc_rem.induct)
  case (1 m)
  let ?b = "hd (enc_rem m)"
  have ne: "pending (sck trp) = ?b # tl (enc_rem m) @ rest" using "1.prems"(1) by simp
  have lt: "\<not> 4 \<le> tr_len trp" using "1.prems"(2) by (cases "enc_rem m") auto
  show ?case
  proof (cases rule: nb_source_cases [OF src, of 1 "sck trp", consumes 1, case_names gt again some])
    case gt
    show ?case by simp
  next
    case (again s')
    then have "\<not> nb_ready get pending" using ne by (fastforce simp: nb_ready_def)
    with again lt "1.prems" show ?thesis
      by (auto simp: decodenb_loop.simps [of get trp] MAX_NO_OF_REMAINING_LENGTH_BYTES_def
          nb_digits_def intro!: exI [of _ m])
  next
    case (some k s')
    then have g: "get (sck trp) 1 = Some (1, [?b], s')" "pending s' = tl (enc_rem m) @ rest"
      using ne by (auto simp: le_Suc_eq)
    let ?trp = "trp\<lparr>sck := s', tr_len := tr_len trp + 1,
        tr_rem_len := tr_rem_len trp + uint (?b AND 127) * tr_multiplier trp,
        tr_multiplier := tr_multiplier trp * 128\<rparr>"
    show ?thesis
    proof (cases "m < 128")
      case True
      with g lt "1.prems" show ?thesis
        by (auto simp: decodenb_loop.simps [of get trp] MAX_NO_OF_REMAINING_LENGTH_BYTES_def
            enc_rem_small digit_last)
    next
      case False
      have "\<exists>frc trp'. decodenb_loop get ?trp = Some (frc, trp') \<and> tr_state trp' = tr_state ?trp \<and>
        length (pending (sck trp')) \<le> length (pending (sck ?trp)) \<and>
        ((frc = 0 \<and> nb_digits pending n rest trp' \<and> \<not> nb_ready get pending) \<or>
         (0 < frc \<and> tr_rem_len trp' = int n \<and> pending (sck trp') = rest))"
        using False g "1.prems" digit_split [of m "tr_multiplier trp"]
        by (intro "1.IH") (auto simp: enc_rem_big digit_more algebra_simps)
      with False g lt "1.prems"(1) show ?thesis
        by (auto simp: decodenb_loop.simps [of get trp] MAX_NO_OF_REMAINING_LENGTH_BYTES_def
            enc_rem_big digit_more)
    qed
  qed
qed

definition packet_of :: "byte \<Rightarrow> byte list \<Rightarrow> byte list" where
  "packet_of hb payload = hb # enc_rem (length payload) @ payload"

text \<open>
  Where the reader stands in the packet \<open>packet_of hb payload\<close>: before its first byte, inside
  the remaining length, or inside the payload with the bytes so far in the buffer.
\<close>

definition nb_inv ::
  "('s \<Rightarrow> byte list) \<Rightarrow> byte \<Rightarrow> byte list \<Rightarrow> byte list \<Rightarrow> mem \<Rightarrow> 's MQTTTransport \<Rightarrow> bool" where
  "nb_inv pending hb payload tail buf trp \<longleftrightarrow>
     (let pkt = packet_of hb payload in
      length pkt \<le> length buf \<and>
      (if tr_state trp = 1
       then load8 buf 0 = Some hb \<and> nb_digits pending (length payload) (payload @ tail) trp
       else if tr_state trp = 2
       then 0 < tr_len trp \<and> tr_len trp < length pkt \<and>
            take (tr_len trp) buf = take (tr_len trp) pkt \<and>
            pending (sck trp) = drop (tr_len trp) pkt @ tail \<and>
            tr_rem_len trp = int (length pkt - tr_len trp)
       else pending (sck trp) = pkt @ tail))"

definition nb_done ::
  "('s \<Rightarrow> byte list) \<Rightarrow> byte \<Rightarrow> byte list \<Rightarrow> byte list \<Rightarrow> mem \<Rightarrow> 's MQTTTransport \<Rightarrow> bool" where
  "nb_done pending hb payload tail buf trp \<longleftrightarrow>
     take (length (packet_of hb payload)) buf = packet_of hb payload \<and>
     pending (sck trp) = tail \<and> tr_state trp = 0"

text \<open>One call either keeps its place (and, on a ready source, moves on) or completes.\<close>

definition nb_step_ok where
  "nb_step_ok get pending hb payload tail len0 r \<longleftrightarrow>
     (\<exists>rc buf' trp'. r = Some (rc, buf', trp') \<and>
       ((rc = 0 \<and> nb_inv pending hb payload tail buf' trp' \<and>
         (nb_ready get pending \<longrightarrow> length (pending (sck trp')) < len0)) \<or>
        (rc = uint (header_type hb) \<and> nb_done pending hb payload tail buf' trp')))"

lemma store_bytes_extend:
  assumes "take p buf = take p pkt" "p + k \<le> length pkt" "length pkt \<le> length buf"
  shows "\<exists>buf'. store_bytes buf p (take k (drop p pkt @ tail)) = Some buf' \<and>
           take (p + k) buf' = take (p + k) pkt \<and> length buf' = length buf"
proof -
  have "take k (drop p pkt @ tail) = take k (drop p pkt)" "length (take k (drop p pkt)) = k"
    using assms by auto
  moreover have "take p pkt @ take k (drop p pkt) = take (p + k) pkt"
    by (simp add: take_add)
  ultimately show ?thesis
    using assms by (auto simp: store_bytes_def min_def)
qed

lemma readnb_finish_ok:
  assumes "take (length (packet_of hb payload)) buf = packet_of hb payload"
    "pending (sck trp) = tail"
  shows "nb_step_ok get pending hb payload tail len0 (readnb_finish buf trp)"
proof -
  from assms(1) have "load8 buf 0 = Some hb"
    by (cases buf) (auto simp: packet_of_def load8_def)
  with assms show ?thesis
    by (auto simp: readnb_finish_def nb_step_ok_def nb_done_def)
qed

lemma readnb_case2_ok:
  assumes src: "nb_source get pending"
    and inv: "nb_inv pending hb payload tail buf trp" "tr_state trp = 2"
    and len0: "length (pending (sck trp)) \<le> len0"
  shows "nb_step_ok get pending hb payload tail len0 (readnb_case2 get buf trp)"
proof -
  define pkt where "pkt = packet_of hb payload"
  let ?p = "tr_len trp"
  have inv': "length pkt \<le> length buf" "0 < ?p" "?p < length pkt" "take ?p buf = take ?p pkt"
    "pending (sck trp) = drop ?p pkt @ tail" "tr_rem_len trp = int (length pkt - ?p)"
    using inv by (auto simp: nb_inv_def Let_def pkt_def)
  define q where "q = length pkt - ?p"
  have q: "length pkt = ?p + q" "tr_rem_len trp = int q" "0 < q"
    using inv'(3,6) by (simp_all add: q_def)
  show ?thesis
  proof (cases rule: nb_source_cases [OF src q(3), of "sck trp", case_names again some])
    case (again s')
    have "pending (sck trp) \<noteq> []" using inv'(3,5) by simp
    then have "\<not> nb_ready get pending" using again(1) q(3) unfolding nb_ready_def by blast
    moreover have "nb_inv pending hb payload tail buf (trp\<lparr>sck := s'\<rparr>)"
      using inv again by (simp add: nb_inv_def)
    ultimately show ?thesis
      using again q inv'(1) by (simp add: readnb_case2_def nb_step_ok_def mem_simps)
  next
    case (some k s')
    then obtain buf' where b: "store_bytes buf ?p (take k (pending (sck trp))) = Some buf'"
      "take (?p + k) buf' = take (?p + k) pkt" "length buf' = length buf"
      using store_bytes_extend [OF inv'(4), of k tail] inv'(1,5) q by auto
    let ?trp = "trp\<lparr>sck := s', tr_rem_len := int q - int k, tr_len := ?p + k\<rparr>"
    have step: "readnb_case2 get buf trp =
        (if k \<noteq> q then Some (0, buf', ?trp) else readnb_finish buf' ?trp)"
      using some b q by (simp add: readnb_case2_def)
    show ?thesis
    proof (cases "k = q")
      case True
      then show ?thesis
        using some b q inv'(5) unfolding step by (auto intro!: readnb_finish_ok simp: pkt_def)
    next
      case False
      with some have "k < q" by simp
      then have "nb_inv pending hb payload tail buf' ?trp"
        using some b q inv'(1,2,5) inv(2)
        by (simp add: nb_inv_def pkt_def [symmetric] add.commute)
      moreover have "length (pending (sck ?trp)) < len0" using some len0 by simp
      ultimately show ?thesis
        using False unfolding step by (simp add: nb_step_ok_def)
    qed
  qed
qed

lemma enc_rem_le4: "n < 268435456 \<Longrightarrow> length (enc_rem n) \<le> 4"
  using length_enc_rem_le [of n 4] by simp

lemma encode_into_header:
  assumes "load8 buf 0 = Some hb" "length (packet_of hb payload) \<le> length buf"
  obtains buf' where
    "MQTTPacket_encode buf 1 (int (length payload)) = Some (length (enc_rem (length payload)), buf')"
    "take (1 + length (enc_rem (length payload))) buf' = hb # enc_rem (length payload)"
    "length buf' = length buf"
proof -
  let ?e = "enc_rem (length payload)"
  from assms(1) obtain rest where buf: "buf = hb # rest"
    by (cases buf) (auto simp: load8_def)
  with assms(2) have "length ?e \<le> length rest" by (simp add: packet_of_def)
  then have "put ?e (buf, 1) = Some (hb # ?e @ drop (length ?e) rest, 1 + length ?e)"
    using buf by (simp add: put_Some_iff)
  then show thesis
    using buf \<open>length ?e \<le> length rest\<close> that by (simp add: MQTTPacket_encode_put)
qed

lemma readnb_case1_ok:
  assumes src: "nb_source get pending"
    and inv: "nb_inv pending hb payload tail buf trp" "tr_state trp = 1"
    and fit: "int (length (packet_of hb payload)) \<le> buflen"
    and len0: "length (pending (sck trp)) \<le> len0"
  shows "nb_step_ok get pending hb payload tail len0 (readnb_case1 get buf buflen trp)"
proof -
  define pkt where "pkt = packet_of hb payload"
  let ?n = "length payload"
  let ?e = "enc_rem ?n"
  have inv': "length pkt \<le> length buf" "load8 buf 0 = Some hb"
    "nb_digits pending ?n (payload @ tail) trp"
    using inv by (auto simp: nb_inv_def pkt_def Let_def)
  then obtain m where m: "pending (sck trp) = enc_rem m @ payload @ tail"
    "tr_len trp + length (enc_rem m) \<le> 4"
    "if tr_len trp = 0 then m = ?n else tr_rem_len trp + int m * tr_multiplier trp = int ?n"
    by (auto simp: nb_digits_def)
  let ?trp = "if tr_len trp = 0 then trp\<lparr>tr_multiplier := 1, tr_rem_len := 0\<rparr> else trp"
  have "\<exists>frc trp'. decodenb_loop get ?trp = Some (frc, trp') \<and> tr_state trp' = tr_state ?trp \<and>
     length (pending (sck trp')) \<le> length (pending (sck ?trp)) \<and>
     ((frc = 0 \<and> nb_digits pending ?n (payload @ tail) trp' \<and> \<not> nb_ready get pending) \<or>
      (0 < frc \<and> tr_rem_len trp' = int ?n \<and> pending (sck trp') = payload @ tail))"
    using m by (intro decodenb_loop_frag [OF src, of _ m]) auto
  then obtain frc trp' where d: "MQTTPacket_decodenb get trp = Some (frc, trp')"
    "tr_state trp' = 1"
    "(frc = 0 \<and> nb_digits pending ?n (payload @ tail) trp' \<and> \<not> nb_ready get pending) \<or>
     (0 < frc \<and> tr_rem_len trp' = int ?n \<and> pending (sck trp') = payload @ tail)"
    using inv(2) by (auto simp: MQTTPacket_decodenb_def split: if_splits)
  show ?thesis
  proof (cases "frc = 0")
    case True
    with d inv' have "nb_inv pending hb payload tail buf trp'" "\<not> nb_ready get pending"
      by (auto simp: nb_inv_def pkt_def)
    with d(1) True show ?thesis
      by (simp add: readnb_case1_def nb_step_ok_def MQTTPACKET_READ_ERROR_def)
  next
    case False
    with d have pos: "0 < frc" "tr_rem_len trp' = int ?n" "pending (sck trp') = payload @ tail" by auto
    obtain buf' where b: "MQTTPacket_encode buf 1 (int ?n) = Some (length ?e, buf')"
      "take (1 + length ?e) buf' = hb # ?e" "length buf' = length buf"
      using encode_into_header [OF inv'(2)] inv'(1) unfolding pkt_def by blast
    let ?trp2 = "trp'\<lparr>tr_len := 1 + length ?e, tr_state := 2\<rparr>"
    have plen: "length pkt = 1 + length ?e + ?n" by (simp add: pkt_def packet_of_def)
    have step: "readnb_case1 get buf buflen trp = readnb_case2 get buf' ?trp2"
      using d pos b fit plen
      by (simp add: readnb_case1_def MQTTPACKET_READ_ERROR_def pkt_def [symmetric] numeral_2_eq_2)
    show ?thesis
    proof (cases "payload = []")
      case True
      with pos have "readnb_case2 get buf' ?trp2 = readnb_finish buf' ?trp2"
        by (simp add: readnb_case2_def)
      moreover have "nb_step_ok get pending hb payload tail len0 (readnb_finish buf' ?trp2)"
        using True b pos by (intro readnb_finish_ok) (auto simp: packet_of_def)
      ultimately show ?thesis unfolding step by simp
    next
      case False
      have "nb_inv pending hb payload tail buf' ?trp2"
        using False b pos plen inv'(1) by (simp add: nb_inv_def pkt_def packet_of_def)
      moreover have "length (pending (sck ?trp2)) \<le> len0"
        using pos(3) m(1) len0 by simp
      ultimately show ?thesis
        unfolding step by (intro readnb_case2_ok [OF src]) auto
    qed
  qed
qed

lemma readnb_case0_ok:
  assumes src: "nb_source get pending"
    and inv: "nb_inv pending hb payload tail buf trp" "tr_state trp = 0"
    and fit: "int (length (packet_of hb payload)) \<le> buflen" "length payload < 268435456"
    and len0: "length (pending (sck trp)) \<le> len0"
  shows "nb_step_ok get pending hb payload tail len0 (readnb_case0 get buf buflen trp)"
proof -
  have inv': "length (packet_of hb payload) \<le> length buf"
    "pending (sck trp) = hb # enc_rem (length payload) @ payload @ tail"
    using inv by (auto simp: nb_inv_def Let_def packet_of_def)
  from inv'(1) have ne: "0 < length buf" by (cases buf) (auto simp: packet_of_def)
  show ?thesis
  proof (cases rule: nb_source_cases [OF src zero_less_one, of "sck trp", case_names again some])
    case (again s')
    then have "\<not> nb_ready get pending" using inv'(2) by (fastforce simp: nb_ready_def)
    moreover have "nb_inv pending hb payload tail buf (trp\<lparr>sck := s'\<rparr>)"
      using inv again by (simp add: nb_inv_def)
    ultimately show ?thesis
      using again ne by (simp add: readnb_case0_def nb_step_ok_def mem_simps)
  next
    case (some k s')
    then have g: "get (sck trp) 1 = Some (1, [hb], s')"
      "pending s' = enc_rem (length payload) @ payload @ tail"
      using inv'(2) by (auto simp: le_Suc_eq)
    let ?trp = "trp\<lparr>sck := s', tr_len := 0, tr_state := 1\<rparr>"
    let ?buf = "hb # drop 1 buf"
    have step: "readnb_case0 get buf buflen trp = readnb_case1 get ?buf buflen ?trp"
      using g inv(2) store_bytes_0 [of "[hb]" buf] ne by (simp add: readnb_case0_def Suc_le_eq)
    have "nb_inv pending hb payload tail ?buf ?trp"
      using g inv'(1) ne enc_rem_le4 [OF fit(2)]
      by (auto simp: nb_inv_def nb_digits_def load8_def Let_def)
    moreover have "length (pending (sck ?trp)) \<le> len0" using g inv'(2) len0 by simp
    ultimately show ?thesis
      unfolding step by (intro readnb_case1_ok [OF src _ _ fit(1)]) auto
  qed
qed

lemma readnb_step:
  assumes "nb_source get pending" "nb_inv pending hb payload tail buf trp"
    and "int (length (packet_of hb payload)) \<le> buflen" "length payload < 268435456"
  shows "nb_step_ok get pending hb payload tail (length (pending (sck trp)))
           (MQTTPacket_readnb get buf buflen trp)"
proof -
  have "nb_inv pending hb payload tail buf (trp\<lparr>tr_state := 0\<rparr>)"
    if "tr_state trp \<noteq> 1" "tr_state trp \<noteq> 2"
    using assms(2) that by (simp add: nb_inv_def)
  then show ?thesis
    using assms
    by (auto simp: MQTTPacket_readnb_def
        intro!: readnb_case0_ok readnb_case1_ok readnb_case2_ok)
qed

text \<open>The caller's loop: call \<open>MQTTPacket_readnb\<close> again while it says 0, at most \<open>k\<close> times.\<close>

fun readnb_poll ::
  "nat \<Rightarrow> 's getfn \<Rightarrow> mem \<Rightarrow> int \<Rightarrow> 's MQTTTransport \<Rightarrow> (int \<times> mem \<times> 's MQTTTransport) option" where
  "readnb_poll 0 get buf buflen trp = Some (0, buf, trp)"
| "readnb_poll (Suc k) get buf buflen trp =
     (case MQTTPacket_readnb get buf buflen trp of
        None \<Rightarrow> None
      | Some (rc, buf', trp') \<Rightarrow>
          if rc = 0 then readnb_poll k get buf' buflen trp' else Some (rc, buf', trp'))"

text \<open>Before a packet is complete, at least one of its bytes has not been taken from the stream.\<close>

lemma nb_inv_pending:
  assumes "nb_inv pending hb payload tail buf trp"
  shows "length tail < length (pending (sck trp))"
proof -
  have "enc_rem m \<noteq> []" for m by (subst enc_rem.simps) simp
  then show ?thesis using assms by (fastforce simp: nb_inv_def nb_digits_def packet_of_def Let_def split: if_splits)
qed

lemma readnb_poll_inv:
  assumes "nb_source get pending" "nb_inv pending hb payload tail buf trp"
    and "int (length (packet_of hb payload)) \<le> buflen" "length payload < 268435456"
    and nz: "header_type hb \<noteq> 0"
  shows "\<exists>rc buf' trp'. readnb_poll k get buf buflen trp = Some (rc, buf', trp') \<and>
     ((rc = 0 \<and> nb_inv pending hb payload tail buf' trp') \<or>
      (rc = uint (header_type hb) \<and> nb_done pending hb payload tail buf' trp')) \<and>
     (nb_ready get pending \<and> length (pending (sck trp)) \<le> length tail + k \<longrightarrow> rc \<noteq> 0)"
  using assms(2)
proof (induction k arbitrary: buf trp)
  case 0
  then show ?case using nb_inv_pending [OF 0] by simp
next
  case (Suc k)
  from readnb_step [OF assms(1) Suc.prems assms(3,4)] obtain rc b t where
    r: "MQTTPacket_readnb get buf buflen trp = Some (rc, b, t)"
      "(rc = 0 \<and> nb_inv pending hb payload tail b t \<and>
        (nb_ready get pending \<longrightarrow> length (pending (sck t)) < length (pending (sck trp)))) \<or>
       (rc = uint (header_type hb) \<and> nb_done pending hb payload tail b t)"
    unfolding nb_step_ok_def by blast
  show ?case
  proof (cases "rc = 0")
    case True
    with r nz have "nb_inv pending hb payload tail b t" by (auto simp: uint_0_iff)
    from Suc.IH [OF this] r True nz show ?thesis by (fastforce simp: uint_0_iff)
  next
    case False
    with r show ?thesis by auto
  qed
qed

section \<open>Properties\<close>

text \<open>
  C11. Any remaining length the protocol allows is encoded in one to four bytes, decoding the
  written buffer gives the length and the number of bytes back, and no other byte changes.
\<close>

theorem remaining_length_roundtrip:
  assumes "0 \<le> len" "len < 268435456" "off + 4 \<le> length buf"
  shows "\<exists>n buf'. MQTTPacket_encode buf off len = Some (n, buf') \<and> 1 \<le> n \<and> n \<le> 4 \<and>
     MQTTPacket_decodeBuf buf' off = Some (n, len) \<and>
     take off buf' = take off buf \<and> drop (off + n) buf' = drop (off + n) buf"
proof -
  let ?e = "enc_rem (nat len)"
  let ?buf = "take off buf @ ?e @ drop (off + length ?e) buf"
  have e: "length ?e \<le> 4" "1 \<le> length ?e"
    using assms by (simp_all add: enc_rem_le4 Suc_le_eq)
  have enc: "MQTTPacket_encode buf off len = Some (length ?e, ?buf)"
    using assms e MQTTPacket_encode_put [of buf off "nat len"] by (simp add: put_in)
  have "MQTTPacket_decodeBuf ?buf off = Some (length ?e, len)"
    using decodeBuf_enc [of "nat len" "take off buf"] assms by (simp add: min_def)
  moreover have "take off ?buf = take off buf" "drop (off + length ?e) ?buf = drop (off + length ?e) buf"
    using assms by (simp_all add: min_def)
  ultimately show ?thesis using enc e by blast
qed

theorem remaining_length_roundtrip_witness:
  "\<exists>n buf'. MQTTPacket_encode (replicate 6 7) 1 321 = Some (n, buf') \<and> 1 \<le> n \<and> n \<le> 4 \<and>
     MQTTPacket_decodeBuf buf' 1 = Some (n, 321) \<and>
     take 1 buf' = take 1 (replicate 6 7) \<and> drop (1 + n) buf' = drop (1 + n) (replicate 6 7)"
  by (rule remaining_length_roundtrip) simp_all

text \<open>
  \<open>MQTTPacket_len\<close>, the size every serializer checks against its buffer, is never smaller
  than the header byte, the encoded length and the body, and at most one byte larger.
\<close>

theorem packet_len_covers:
  assumes "0 \<le> len" "len < 268435456" "MQTTPacket_encode buf off len = Some (n, buf')"
  shows "1 + int n + len \<le> MQTTPacket_len len \<and> MQTTPacket_len len \<le> 2 + int n + len"
proof -
  have "n = length (enc_rem (nat len))"
    using assms MQTTPacket_encode_put [of buf off "nat len"]
    by (auto simp: put_def split: Option.bind_splits)
  with packet_len_bounds [OF assms(1,2)] show ?thesis by simp
qed

theorem packet_len_covers_witness:
  "1 + int 1 + 127 \<le> MQTTPacket_len 127 \<and> MQTTPacket_len 127 \<le> 2 + int 1 + 127"
  by (rule packet_len_covers [of _ "[0, 0, 0, 0]" 0 _ "[127, 0, 0, 0]"])
    (simp_all add: MQTTPacket_encode_def encode_loop.simps store_bytes_def)

text \<open>
  Whatever its byte source does, \<open>MQTTPacket_decode\<close> stops after at most five steps of its
  counter with a value the protocol allows: the \<open>int\<close> accumulators never overflow.
\<close>

theorem decode_stays_in_range:
  assumes "MQTTPacket_decode g s = Some (n, v, s')"
  shows "1 \<le> n \<and> n \<le> 5 \<and> 0 \<le> v \<and> v < 268435456"
  using decode_loop_bounds [OF assms [unfolded MQTTPacket_decode_def]] by simp

theorem decode_stays_in_range_witness:
  "1 \<le> (5 :: nat) \<and> (5 :: nat) \<le> 5 \<and> 0 \<le> (268435455 :: int) \<and> (268435455 :: int) < 268435456"
  by (rule decode_stays_in_range [of "\<lambda>s _. Some (1, [255], s)" "()" _ _ "()"])
    (simp add: MQTTPacket_decode_def decode_loop.simps MAX_NO_OF_REMAINING_LENGTH_BYTES_def)

text \<open>
  C8. The non-blocking reader reassembles a packet from any fragmentation of the stream: however
  often the source says ``call again'' and however it cuts the bytes, repeated calls of
  \<open>MQTTPacket_readnb\<close> never fail and, once they return non-zero, return the packet's type with
  the whole packet in the buffer and exactly its bytes taken from the stream. On a source that
  always has a byte when one is due, as many calls as the packet has bytes complete it. The packet
  fits the buffer, and its type is not 0, which would look like ``call again''.
\<close>

theorem readnb_reassembles:
  assumes "nb_source get pending" "header_type hb \<noteq> 0" "length payload < 268435456"
    and "int (length (packet_of hb payload)) \<le> buflen" "buflen \<le> int (length buf)"
    and "tr_state trp = 0" "pending (sck trp) = packet_of hb payload @ tail"
  shows "\<exists>rc buf' trp'. readnb_poll k get buf buflen trp = Some (rc, buf', trp') \<and>
     (rc = 0 \<or>
      rc = uint (header_type hb) \<and> pending (sck trp') = tail \<and> tr_state trp' = 0 \<and>
      take (length (packet_of hb payload)) buf' = packet_of hb payload) \<and>
     (nb_ready get pending \<and> length (packet_of hb payload) \<le> k \<longrightarrow> rc \<noteq> 0)"
proof -
  have "nb_inv pending hb payload tail buf trp"
    using assms by (simp add: nb_inv_def)
  from readnb_poll_inv [OF assms(1) this assms(4,3,2), of k] show ?thesis
    unfolding nb_done_def assms(7) by auto
qed

definition one_byte_get :: "byte list getfn" where
  "one_byte_get s n = (case s of [] \<Rightarrow> Some (0, [], []) | b # bs \<Rightarrow> Some (1, [b], bs))"

lemma one_byte_nb: "nb_source one_byte_get (\<lambda>s. s)"
  unfolding nb_source_def
proof (intro allI impI)
  fix s :: "byte list" and n :: nat assume "0 < n"
  then show "\<exists>s'. (one_byte_get s n = Some (0, [], s') \<and> s' = s) \<or>
      (\<exists>k>0. k \<le> n \<and> k \<le> length s \<and> one_byte_get s n = Some (int k, take k s, s') \<and> s' = drop k s)"
    by (cases s) (auto simp: one_byte_get_def intro!: exI [of _ 1])
qed

lemma one_byte_ready: "nb_ready one_byte_get (\<lambda>s. s)"
  by (auto simp: nb_ready_def one_byte_get_def split: list.splits)

theorem readnb_reassembles_witness:
  "\<exists>buf' trp'. readnb_poll 4 one_byte_get (replicate 8 0) 8
       \<lparr>sck = packet_of 0x40 [0, 9] @ [1], tr_multiplier = 0, tr_rem_len = 0, tr_len = 0, tr_state = 0\<rparr>
     = Some (4, buf', trp') \<and> sck trp' = [1] \<and> tr_state trp' = 0 \<and>
     take (length (packet_of 0x40 [0, 9])) buf' = packet_of 0x40 [0, 9]"
proof -
  have "length (packet_of 0x40 [0, 9]) = 4" "header_type 0x40 = 4" by (simp_all add: header_type_def packet_of_def enc_rem_small)
  then show ?thesis
    using readnb_reassembles [OF one_byte_nb, of "0x40" "[0, 9]" 8 "replicate 8 0"
        "\<lparr>sck = packet_of 0x40 [0, 9] @ [1], tr_multiplier = 0, tr_rem_len = 0, tr_len = 0, tr_state = 0\<rparr>" "[1]" 4] one_byte_ready
    by auto
qed

end
