(* ===== verification/Mqtt_Publish.thy ===== *)
theory Mqtt_Publish
  imports Mqtt_Packet
begin

unbundle bit_operations_syntax

text \<open>
  \<^verbatim>\<open>MQTTSerializePublish.c\<close> and \<^verbatim>\<open>MQTTDeserializePublish.c\<close>: PUBLISH and the four
  acknowledgement packets. The output parameters of a deserializer are a record that is passed
  in and returned, so what an error path leaves unwritten is visible. The serializers are
  interpretations of \<open>safe_serializer\<close>.
\<close>

section \<open>Serialization\<close>

definition MQTTSerialize_publishLength :: "int \<Rightarrow> MQTTString \<Rightarrow> int \<Rightarrow> int" where
  "MQTTSerialize_publishLength qos topicName payloadlen =
     2 + MQTTstrlen topicName + payloadlen + (if qos > 0 then 2 else 0)"

definition MQTTSerialize_publish ::
  "mem \<Rightarrow> int \<Rightarrow> byte \<Rightarrow> int \<Rightarrow> byte \<Rightarrow> u16 \<Rightarrow> MQTTString \<Rightarrow> byte list \<Rightarrow> int \<Rightarrow> (int \<times> mem) option" where
  "MQTTSerialize_publish buf buflen dup qos retained packetid topicName payload payloadlen =
     (let rem_len = MQTTSerialize_publishLength qos topicName payloadlen
      in if MQTTPacket_len rem_len > buflen then Some (MQTTPACKET_BUFFER_TOO_SHORT, buf)
         else do {
           cur \<leftarrow> writeChar (header_byte (msg_code PUBLISH) dup (of_int qos) retained) (buf, 0);
           cur \<leftarrow> writeRemLen rem_len cur;
           cur \<leftarrow> writeMQTTString topicName cur;
           cur \<leftarrow> (if qos > 0 then writeInt (uint packetid) cur else Some cur);
           (buf, ptr) \<leftarrow> memcpy_to payload payloadlen cur;
           Some (int ptr, buf)
         })"

definition MQTTSerialize_ack :: "mem \<Rightarrow> int \<Rightarrow> byte \<Rightarrow> byte \<Rightarrow> u16 \<Rightarrow> (int \<times> mem) option" where
  "MQTTSerialize_ack buf buflen packettype dup packetid =
     (if buflen < 4 then Some (MQTTPACKET_BUFFER_TOO_SHORT, buf)
      else do {
        cur \<leftarrow> writeChar (header_byte packettype dup (if packettype = msg_code PUBREL then 1 else 0) 0) (buf, 0);
        cur \<leftarrow> writeRemLen 2 cur;
        (buf, ptr) \<leftarrow> writeInt (uint packetid) cur;
        Some (int ptr, buf)
      })"

definition MQTTSerialize_puback :: "mem \<Rightarrow> int \<Rightarrow> u16 \<Rightarrow> (int \<times> mem) option" where
  "MQTTSerialize_puback buf buflen packetid = MQTTSerialize_ack buf buflen (msg_code PUBACK) 0 packetid"

definition MQTTSerialize_pubrel :: "mem \<Rightarrow> int \<Rightarrow> byte \<Rightarrow> u16 \<Rightarrow> (int \<times> mem) option" where
  "MQTTSerialize_pubrel buf buflen dup packetid = MQTTSerialize_ack buf buflen (msg_code PUBREL) dup packetid"

definition MQTTSerialize_pubcomp :: "mem \<Rightarrow> int \<Rightarrow> u16 \<Rightarrow> (int \<times> mem) option" where
  "MQTTSerialize_pubcomp buf buflen packetid = MQTTSerialize_ack buf buflen (msg_code PUBCOMP) 0 packetid"

section \<open>Deserialization\<close>

record publish_out =
  po_dup :: byte
  po_qos :: int
  po_retained :: byte
  po_packetid :: u16
  po_topicName :: MQTTString
  po_payload :: "byte list option"
  po_payloadlen :: int

definition MQTTDeserialize_publish :: "publish_out \<Rightarrow> mem \<Rightarrow> int \<Rightarrow> (int \<times> publish_out) option" where
  "MQTTDeserialize_publish out buf buflen =
     do { (h, curdata) \<leftarrow> readChar buf 0;
          if header_type h \<noteq> msg_code PUBLISH then Some (0, out)
          else do {
            let out = out\<lparr>po_dup := header_dup h, po_qos := uint (header_qos h),
                           po_retained := header_retain h\<rparr>;
            (rc, mylen) \<leftarrow> MQTTPacket_decodeBuf buf curdata;
            let curdata = curdata + rc;
            let enddata = int curdata + mylen;
            (good, topic, curdata) \<leftarrow> readMQTTLenString (po_topicName out) buf curdata enddata;
            let out = out\<lparr>po_topicName := topic\<rparr>;
            if \<not> good \<or> enddata - int curdata < 0 then Some (int rc, out)
            else do {
              (out, curdata) \<leftarrow>
                (if po_qos out > 0
                 then do { (i, curdata) \<leftarrow> readInt buf curdata;
                           Some (out\<lparr>po_packetid := of_int i\<rparr>, curdata) }
                 else Some (out, curdata));
              Some (1, out\<lparr>po_payloadlen := enddata - int curdata,
                            po_payload := Some (drop curdata buf)\<rparr>)
            }
          } }"

record ack_out =
  ao_packettype :: byte
  ao_dup :: byte
  ao_packetid :: u16

definition MQTTDeserialize_ack :: "ack_out \<Rightarrow> mem \<Rightarrow> int \<Rightarrow> (int \<times> ack_out) option" where
  "MQTTDeserialize_ack out buf buflen =
     do { (h, curdata) \<leftarrow> readChar buf 0;
          let out = out\<lparr>ao_dup := header_dup h, ao_packettype := header_type h\<rparr>;
          (rc, mylen) \<leftarrow> MQTTPacket_decodeBuf buf curdata;
          let curdata = curdata + rc;
          let enddata = int curdata + mylen;
          if enddata - int curdata < 2 then Some (int rc, out)
          else do { (i, curdata) \<leftarrow> readInt buf curdata;
                    Some (1, out\<lparr>ao_packetid := of_int i\<rparr>) } }"

section \<open>The packets on the wire\<close>

type_synonym publish_args = "byte \<times> int \<times> byte \<times> u16 \<times> MQTTString \<times> byte list \<times> int"

fun publish_ok :: "publish_args \<Rightarrow> bool" where
  "publish_ok (dup, qos, retained, packetid, topic, payload, payloadlen) \<longleftrightarrow>
     str_ok topic \<and> 0 \<le> payloadlen \<and> payloadlen \<le> int (length payload) \<and>
     MQTTSerialize_publishLength qos topic payloadlen < 268435456"

fun publish_wire :: "publish_args \<Rightarrow> byte list" where
  "publish_wire (dup, qos, retained, packetid, topic, payload, payloadlen) =
     header_byte (msg_code PUBLISH) dup (of_int qos) retained #
     enc_rem (nat (MQTTSerialize_publishLength qos topic payloadlen)) @
     str_bytes topic @ (if qos > 0 then int_bytes (uint packetid) else []) @
     take (nat payloadlen) payload"

fun publish_need :: "publish_args \<Rightarrow> int" where
  "publish_need (dup, qos, retained, packetid, topic, payload, payloadlen) =
     MQTTPacket_len (MQTTSerialize_publishLength qos topic payloadlen)"

fun publish_ser :: "publish_args \<Rightarrow> int \<Rightarrow> mem \<Rightarrow> (int \<times> mem) option" where
  "publish_ser (dup, qos, retained, packetid, topic, payload, payloadlen) buflen buf =
     MQTTSerialize_publish buf buflen dup qos retained packetid topic payload payloadlen"

lemma length_publish_wire:
  "publish_ok (d, q, r, p, topic, payload, n) \<Longrightarrow>
   int (length (publish_wire (d, q, r, p, topic, payload, n))) =
     1 + int (length (enc_rem (nat (MQTTSerialize_publishLength q topic n)))) +
     MQTTSerialize_publishLength q topic n"
  by (auto simp: length_str_bytes MQTTSerialize_publishLength_def min_def)

lemma publishLength_nonneg:
  "publish_ok (d, q, r, p, topic, payload, n) \<Longrightarrow> 0 \<le> MQTTSerialize_publishLength q topic n"
  using MQTTstrlen_nonneg [of topic] by (simp add: MQTTSerialize_publishLength_def)

interpretation pub: safe_serializer publish_ser publish_need publish_wire publish_ok
proof
  fix a :: publish_args and buflen :: int and buf :: mem
  obtain d q r p topic payload n where a: "a = (d, q, r, p, topic, payload, n)" by (cases a) auto
  {
    assume "publish_ok a" "buflen < publish_need a"
    then show "publish_ser a buflen buf = Some (-2, buf)"
      by (simp add: a MQTTSerialize_publish_def MQTTPACKET_BUFFER_TOO_SHORT_def)
  next
    assume ok: "publish_ok a" and need: "publish_need a \<le> buflen"
    have t: "take_n payload n = Some (take (nat n) payload)"
      using ok by (simp add: a take_n_def)
    show "publish_ser a buflen buf =
        do { (buf', m) \<leftarrow> put (publish_wire a) (buf, 0); Some (int m, buf') }"
      using ok need publishLength_nonneg [of d q r p topic payload n]
      by (simp add: a MQTTSerialize_publish_def writeRemLen_put writeMQTTString_put
          memcpy_to_put [OF t] put_simps case_prod_unfold)
  next
    assume ok: "publish_ok a"
    then show "int (length (publish_wire a)) \<le> publish_need a"
      using length_publish_wire [OF ok [unfolded a]] publishLength_nonneg [OF ok [unfolded a]]
        packet_len_bounds(1) [of "MQTTSerialize_publishLength q topic n"]
      by (simp add: a del: publish_wire.simps)
  }
qed

type_synonym ack_args = "byte \<times> byte \<times> u16"

fun ack_wire :: "ack_args \<Rightarrow> byte list" where
  "ack_wire (packettype, dup, packetid) =
     header_byte packettype dup (if packettype = msg_code PUBREL then 1 else 0) 0 #
     2 # int_bytes (uint packetid)"

fun ack_ser :: "ack_args \<Rightarrow> int \<Rightarrow> mem \<Rightarrow> (int \<times> mem) option" where
  "ack_ser (packettype, dup, packetid) buflen buf = MQTTSerialize_ack buf buflen packettype dup packetid"

interpretation ack: safe_serializer ack_ser "\<lambda>_. 4" ack_wire "\<lambda>_. True"
proof
  fix a :: ack_args and buflen :: int and buf :: mem
  obtain t d p where a: "a = (t, d, p)" by (cases a) auto
  show "buflen < 4 \<Longrightarrow> ack_ser a buflen buf = Some (-2, buf)"
    by (simp add: a MQTTSerialize_ack_def MQTTPACKET_BUFFER_TOO_SHORT_def)
  show "4 \<le> buflen \<Longrightarrow> ack_ser a buflen buf =
      do { (buf', m) \<leftarrow> put (ack_wire a) (buf, 0); Some (int m, buf') }"
    by (simp add: a MQTTSerialize_ack_def writeRemLen_put put_simps enc_rem_small case_prod_unfold)
  show "int (length (ack_wire a)) \<le> 4" by (simp add: a)
qed

section \<open>Reading a packet back\<close>

text \<open>What every deserializer sees first: the header byte and the remaining length.\<close>

lemma read_header:
  assumes "n < 268435456"
  shows "readChar (h # enc_rem n @ ys) 0 = Some (h, 1)"
    "MQTTPacket_decodeBuf (h # enc_rem n @ ys) 1 = Some (length (enc_rem n), int n)"
  using decodeBuf_enc [OF assms, of "[h]" ys] readChar_at [of "[]" 0 h "enc_rem n @ ys"] by simp_all

lemma publish_readback:
  assumes "publish_ok (d, q, r, p, topic, payload, n)"
    and "d < 2" "r < 2" "0 \<le> q" "q < 4" "length (content topic) < 65536"
  shows "\<exists>out'. MQTTDeserialize_publish out (publish_wire (d, q, r, p, topic, payload, n) @ rest) buflen
           = Some (1, out') \<and>
     po_dup out' = d \<and> po_qos out' = q \<and> po_retained out' = r \<and>
     po_packetid out' = (if q > 0 then p else po_packetid out) \<and>
     content (po_topicName out') = content topic \<and> cstring (po_topicName out') = None \<and>
     po_payloadlen out' = n \<and> po_payload out' = Some (take (nat n) payload @ rest)"
proof -
  define L where "L = MQTTSerialize_publishLength q topic n"
  define h where "h = header_byte (msg_code PUBLISH) d (of_int q) r"
  define idb where "idb = (if q > 0 then int_bytes (uint p) else [])"
  define c where "c = content topic"
  define pl where "pl = take (nat n) payload"
  have L: "0 \<le> L" "L < 268435456" using publishLength_nonneg [OF assms(1)] assms(1) by (simp_all add: L_def)
  have h: "header_type h = msg_code PUBLISH" "header_dup h = d" "uint (header_qos h) = q" "header_retain h = r"
    using assms uint_of_int_byte [of q] by (simp_all add: h_def word_less_def)
  have Lsum: "L = 2 + int (length c) + int (length idb) + n" "int (length pl) = n"
    using assms(1) length_content [of topic]
    by (auto simp: L_def MQTTSerialize_publishLength_def c_def idb_def pl_def min_def)
  define e where "e = enc_rem (nat L)"
  define k where "k = length e + length c + 3"
  define B where "B = h # e @ int_bytes (int (length c)) @ c @ idb @ pl @ rest"
  have wire: "publish_wire (d, q, r, p, topic, payload, n) @ rest = B"
    by (simp add: h_def L_def idb_def c_def pl_def str_bytes_def B_def e_def)
  have hd: "readChar B 0 = Some (h, 1)" "MQTTPacket_decodeBuf B 1 = Some (length e, L)"
    using read_header [of "nat L" h "int_bytes (int (length c)) @ c @ idb @ pl @ rest"] L
    by (simp_all add: B_def e_def)
  define D where "D = int k + int (length idb) + n"
  have ed: "1 + int (length e) + L = D" "int k \<le> D"
    using Lsum assms(1) by (simp_all add: k_def D_def)
  have str: "readMQTTLenString s B (Suc (length e)) D =
      Some (True, s\<lparr>cstring := None,
        lenstring := \<lparr>ls_len = int (length c), ls_data = Some (c @ idb @ pl @ rest)\<rparr>\<rparr>, k)" for s
    using readMQTTLenString_at [of "h # e" "1 + length e" c D s
        "idb @ pl @ rest"] assms(6) assms(1)
    by (simp add: c_def B_def k_def D_def)
  have pid: "readInt B k = Some (uint p, k + 2)" if "q > 0"
    using readInt_at [of "h # e @ int_bytes (int (length c)) @ c" k "uint p" "pl @ rest"]
      that uint_lt2p [of p] by (simp add: idb_def B_def k_def)
  have tail: "drop (k + length idb) B = pl @ rest"
  proof -
    have "B = (h # e @ int_bytes (int (length c)) @ c @ idb) @ pl @ rest" by (simp add: B_def)
    moreover have "length (h # e @ int_bytes (int (length c)) @ c @ idb) = k + length idb"
      by (simp add: k_def)
    ultimately show ?thesis by (metis append_eq_conv_conj)
  qed
  have pos: "D - int (k + length idb) = n" by (simp add: D_def)
  define out1 where "out1 = out\<lparr>po_dup := d, po_qos := q, po_retained := r, po_topicName :=
     (po_topicName out)\<lparr>cstring := None,
        lenstring := \<lparr>ls_len = int (length c), ls_data = Some (c @ idb @ pl @ rest)\<rparr>\<rparr>\<rparr>"
  have "MQTTDeserialize_publish out B buflen = Some (1, (if q > 0 then out1\<lparr>po_packetid := p\<rparr> else out1)
      \<lparr>po_payloadlen := n, po_payload := Some (pl @ rest)\<rparr>)"
    using h hd ed str pid tail pos
    by (cases "q > 0") (simp_all add: MQTTDeserialize_publish_def out1_def idb_def)
  then show ?thesis
    unfolding wire by (simp add: out1_def pl_def c_def [symmetric])
qed

lemma ack_readback:
  assumes "t < 16" "d < 2"
  shows "MQTTDeserialize_ack out (ack_wire (t, d, p) @ rest) buflen =
    Some (1, out\<lparr>ao_packettype := t, ao_dup := d, ao_packetid := p\<rparr>)"
proof -
  have e: "enc_rem 2 = [2]" by (simp add: enc_rem_small)
  let ?h = "header_byte t d (if t = msg_code PUBREL then 1 else 0) 0"
  have "readInt (?h # 2 # int_bytes (uint p) @ rest) 2 = Some (uint p, 4)"
    using readInt_at [of "[?h, 2]" 2 "uint p" rest] uint_lt2p [of p] by simp
  then show ?thesis
    using read_header [of 2 ?h "int_bytes (uint p) @ rest"] assms
    by (simp add: MQTTDeserialize_ack_def e numeral_2_eq_2 [symmetric])
qed

section \<open>Properties\<close>

text \<open>
  C10. A PUBLISH that is serialized without error is read back unchanged: flags, QoS, packet
  identifier (QoS above 0), topic and payload, whatever the rest of the buffer holds.
\<close>

theorem publish_roundtrip:
  assumes "publish_ok (dup, qos, retained, packetid, topic, payload, payloadlen)"
    and "dup < 2" "retained < 2" "0 \<le> qos" "qos < 4" "length (content topic) < 65536"
    and "MQTTSerialize_publish buf buflen dup qos retained packetid topic payload payloadlen = Some (rc, buf')"
    and "0 < rc"
  shows "\<exists>out'. MQTTDeserialize_publish out buf' rc = Some (1, out') \<and>
     po_dup out' = dup \<and> po_qos out' = qos \<and> po_retained out' = retained \<and>
     (0 < qos \<longrightarrow> po_packetid out' = packetid) \<and>
     content (po_topicName out') = content topic \<and> po_payloadlen out' = payloadlen \<and>
     (\<exists>rest. po_payload out' = Some (take (nat payloadlen) payload @ rest))"
proof -
  let ?a = "(dup, qos, retained, packetid, topic, payload, payloadlen)"
  have "buf' = publish_wire ?a @ drop (length (publish_wire ?a)) buf"
    using pub.result_cases [OF assms(1), of buflen buf rc buf'] assms(7,8)
    by (auto simp del: publish_wire.simps)
  with publish_readback [OF assms(1-6), of out "drop (length (publish_wire ?a)) buf" rc]
  show ?thesis by (auto simp del: publish_wire.simps)
qed

definition sample_topic :: MQTTString where
  "sample_topic = MQTTString_initializer\<lparr>cstring := Some [97, 47, 98]\<rparr>"

definition sample_out :: publish_out where
  "sample_out = \<lparr>po_dup = 9, po_qos = 9, po_retained = 9, po_packetid = 9,
     po_topicName = MQTTString_initializer, po_payload = None, po_payloadlen = 9\<rparr>"

lemma sample_publish:
  "MQTTSerialize_publish (replicate 10 0) 10 0 1 0 258 sample_topic [5] 1 =
     Some (10, [0x32, 8, 0, 3, 97, 47, 98, 1, 2, 5])"
  using pub.written [of "(0, 1, 0, 258, sample_topic, [5], 1)" 10 "replicate 10 0"]
  by (simp add: sample_topic_def MQTTString_initializer_def str_ok_def MQTTSerialize_publishLength_def
      MQTTstrlen_def MQTTPacket_len_def header_byte_def str_bytes_def content_def int_bytes_def enc_rem_small)

theorem publish_roundtrip_witness:
  "\<exists>out'. MQTTDeserialize_publish sample_out
      [0x32, 8, 0, 3, 97, 47, 98, 1, 2, 5] 10 = Some (1, out') \<and>
     po_dup out' = 0 \<and> po_qos out' = 1 \<and> po_retained out' = 0 \<and>
     ((0 :: int) < 1 \<longrightarrow> po_packetid out' = 258) \<and>
     content (po_topicName out') = content sample_topic \<and> po_payloadlen out' = 1 \<and>
     (\<exists>rest. po_payload out' = Some (take (nat 1) [5] @ rest))"
  by (rule publish_roundtrip [OF _ _ _ _ _ _ sample_publish])
    (simp_all add: sample_topic_def MQTTString_initializer_def str_ok_def content_def
      MQTTSerialize_publishLength_def MQTTstrlen_def)

text \<open>
  An acknowledgement whose remaining length is 0 or 1 carries no packet identifier, yet the
  parser returns 1, its success code, with the identifier left as the caller had it.
\<close>

theorem ack_truncated_accepted:
  assumes "n < 2"
  shows "MQTTDeserialize_ack out (h # enc_rem n @ rest) buflen =
    Some (1, out\<lparr>ao_dup := header_dup h, ao_packettype := header_type h\<rparr>)"
  using assms read_header [of n h rest] by (simp add: MQTTDeserialize_ack_def enc_rem_small)

theorem ack_truncated_accepted_witness:
  "MQTTDeserialize_ack \<lparr>ao_packettype = 0, ao_dup = 0, ao_packetid = 77\<rparr> (0x40 # enc_rem 0 @ []) 2 =
     Some (1, \<lparr>ao_packettype = 0, ao_dup = 0, ao_packetid = 77\<rparr>
       \<lparr>ao_dup := header_dup 0x40, ao_packettype := header_type 0x40\<rparr>)"
  by (rule ack_truncated_accepted) simp

text \<open>
  A PUBLISH of QoS 1 to 3 that ends right after its topic is accepted although it has no
  packet identifier: the identifier is taken from the two bytes after the packet and the
  payload length reported is -2.
\<close>

theorem publish_missing_id_accepted:
  assumes "header_type h = msg_code PUBLISH" "header_qos h \<noteq> 0" "length t < 65536"
  shows "\<exists>out'. MQTTDeserialize_publish out
      (h # enc_rem (length t + 2) @ int_bytes (int (length t)) @ t @ a # b # rest) buflen = Some (1, out') \<and>
    po_payloadlen out' = -2 \<and> uint (po_packetid out') = 256 * uint a + uint b"
proof -
  define e where "e = enc_rem (length t + 2)"
  define B where "B = h # e @ int_bytes (int (length t)) @ t @ a # b # rest"
  define k where "k = length e + length t + 3"
  have hd: "readChar B 0 = Some (h, 1)" "MQTTPacket_decodeBuf B 1 = Some (length e, int (length t + 2))"
    using read_header [of "length t + 2" h] assms(3) unfolding B_def e_def by simp_all
  have str: "readMQTTLenString s B (Suc (length e)) (int k) = Some (True, s\<lparr>cstring := None, lenstring :=
      \<lparr>ls_len = int (length t), ls_data = Some (t @ a # b # rest)\<rparr>\<rparr>, k)" for s
    using readMQTTLenString_at [of "h # e" "Suc (length e)" t "int k" s "a # b # rest"] assms(3)
    by (simp add: B_def k_def)
  have i: "readInt B k = Some (256 * uint a + uint b, k + 2)"
    using load8_mid [of "h # e @ int_bytes (int (length t)) @ t" k a "b # rest"]
      load8_Suc [of "h # e @ int_bytes (int (length t)) @ t" k a b rest]
    by (simp add: readInt_def B_def k_def)
  have end_k: "1 + int (length e) + int (length t + 2) = int k" by (simp add: k_def)
  have q: "0 < uint (header_qos h)" using assms(2) by (simp add: word_neq_0_conv word_less_def)
  have r: "uint (of_int (256 * uint a + uint b) :: u16) = 256 * uint a + uint b"
    using uint_byte_range [of a] uint_byte_range [of b] by (intro uint_of_int_u16) auto
  show ?thesis
    unfolding B_def [symmetric] e_def [symmetric]
    using hd str i end_k q r assms(1) by (simp add: MQTTDeserialize_publish_def)
qed

theorem publish_missing_id_accepted_witness:
  "\<exists>out'. MQTTDeserialize_publish sample_out
      (0x32 # enc_rem (length [97 :: byte] + 2) @ int_bytes (int (length [97 :: byte])) @ [97] @ 1 # 2 # []) 5
      = Some (1, out') \<and>
    po_payloadlen out' = -2 \<and> uint (po_packetid out') = 256 * uint (1 :: byte) + uint (2 :: byte)"
  by (rule publish_missing_id_accepted) (simp_all add: header_type_def header_qos_def)

end
