(* ===== verification/Mqtt_Connect.thy ===== *)
theory Mqtt_Connect
  imports Mqtt_Publish
begin

unbundle bit_operations_syntax

text \<open>
  \<^verbatim>\<open>MQTTConnect.h\<close>, \<^verbatim>\<open>MQTTConnectClient.c\<close> and \<^verbatim>\<open>MQTTConnectServer.c\<close>: CONNECT, CONNACK and the
  packets without a body. CONNECT and the empty packets are interpretations of
  \<open>safe_serializer\<close>; CONNACK only of \<open>guarded_serializer\<close>, because it checks for two bytes of
  room and writes four.
\<close>

section \<open>Data\<close>

definition connect_flags :: "byte \<Rightarrow> byte \<Rightarrow> byte \<Rightarrow> byte \<Rightarrow> byte \<Rightarrow> byte \<Rightarrow> byte" where
  "connect_flags cleansession will willQoS willRetain password username =
     push_bit 1 (cleansession AND 1) OR push_bit 2 (will AND 1) OR push_bit 3 (willQoS AND 3) OR
     push_bit 5 (willRetain AND 1) OR push_bit 6 (password AND 1) OR push_bit 7 (username AND 1)"

definition flag_cleansession :: "byte \<Rightarrow> byte" where "flag_cleansession f = drop_bit 1 f AND 1"
definition flag_will :: "byte \<Rightarrow> byte" where "flag_will f = drop_bit 2 f AND 1"
definition flag_willQoS :: "byte \<Rightarrow> byte" where "flag_willQoS f = drop_bit 3 f AND 3"
definition flag_willRetain :: "byte \<Rightarrow> byte" where "flag_willRetain f = drop_bit 5 f AND 1"
definition flag_password :: "byte \<Rightarrow> byte" where "flag_password f = drop_bit 6 f AND 1"
definition flag_username :: "byte \<Rightarrow> byte" where "flag_username f = drop_bit 7 f AND 1"

record MQTTPacket_willOptions =
  w_struct_id :: "byte list"
  w_struct_version :: int
  w_topicName :: MQTTString
  w_message :: MQTTString
  w_retained :: byte
  w_qos :: byte

definition MQTTPacket_willOptions_initializer :: MQTTPacket_willOptions where
  "MQTTPacket_willOptions_initializer =
     \<lparr>w_struct_id = [77, 81, 84, 87], w_struct_version = 0, w_topicName = MQTTString_initializer,
      w_message = MQTTString_initializer, w_retained = 0, w_qos = 0\<rparr>"

record MQTTPacket_connectData =
  c_struct_id :: "byte list"
  c_struct_version :: int
  c_MQTTVersion :: byte
  c_clientID :: MQTTString
  c_keepAliveInterval :: u16
  c_cleansession :: byte
  c_willFlag :: byte
  c_will :: MQTTPacket_willOptions
  c_username :: MQTTString
  c_password :: MQTTString

definition MQTTPacket_connectData_initializer :: MQTTPacket_connectData where
  "MQTTPacket_connectData_initializer =
     \<lparr>c_struct_id = [77, 81, 84, 67], c_struct_version = 0, c_MQTTVersion = 4,
      c_clientID = MQTTString_initializer, c_keepAliveInterval = 60, c_cleansession = 1,
      c_willFlag = 0, c_will = MQTTPacket_willOptions_initializer,
      c_username = MQTTString_initializer, c_password = MQTTString_initializer\<rparr>"

text \<open>The literals \<open>"MQTT"\<close> and \<open>"MQIsdp"\<close>, and the test \<open>s.cstring || s.lenstring.data\<close>.\<close>

definition MQTT_name :: "byte list" where "MQTT_name = [77, 81, 84, 84]"
definition MQIsdp_name :: "byte list" where "MQIsdp_name = [77, 81, 73, 115, 100, 112]"

definition present :: "MQTTString \<Rightarrow> bool" where
  "present s \<longleftrightarrow> cstring s \<noteq> None \<or> ls_data (lenstring s) \<noteq> None"

section \<open>Client side\<close>

definition MQTTSerialize_connectLength :: "MQTTPacket_connectData \<Rightarrow> int" where
  "MQTTSerialize_connectLength options =
     (if c_MQTTVersion options = 3 then 12 else if c_MQTTVersion options = 4 then 10 else 0) +
     (MQTTstrlen (c_clientID options) + 2) +
     (if c_willFlag options \<noteq> 0
      then MQTTstrlen (w_topicName (c_will options)) + 2 + MQTTstrlen (w_message (c_will options)) + 2
      else 0) +
     (if present (c_username options) then MQTTstrlen (c_username options) + 2 else 0) +
     (if present (c_password options) then MQTTstrlen (c_password options) + 2 else 0)"

definition MQTTSerialize_connect ::
  "mem \<Rightarrow> int \<Rightarrow> MQTTPacket_connectData \<Rightarrow> (int \<times> mem) option" where
  "MQTTSerialize_connect buf buflen options =
     (let len = MQTTSerialize_connectLength options
      in if MQTTPacket_len len > buflen then Some (MQTTPACKET_BUFFER_TOO_SHORT, buf)
         else do {
           cur \<leftarrow> writeChar (header_byte (msg_code CONNECT) 0 0 0) (buf, 0);
           cur \<leftarrow> writeRemLen len cur;
           cur \<leftarrow> (if c_MQTTVersion options = 4
                   then do { cur \<leftarrow> writeCString MQTT_name cur; writeChar 4 cur }
                   else do { cur \<leftarrow> writeCString MQIsdp_name cur; writeChar 3 cur });
           let will = (if c_willFlag options \<noteq> 0 then 1 else 0);
           let flags = connect_flags (c_cleansession options) will
                 (if will \<noteq> 0 then w_qos (c_will options) else 0)
                 (if will \<noteq> 0 then w_retained (c_will options) else 0)
                 (if present (c_password options) then 1 else 0)
                 (if present (c_username options) then 1 else 0);
           cur \<leftarrow> writeChar flags cur;
           cur \<leftarrow> writeInt (uint (c_keepAliveInterval options)) cur;
           cur \<leftarrow> writeMQTTString (c_clientID options) cur;
           cur \<leftarrow> (if c_willFlag options \<noteq> 0
                   then do { cur \<leftarrow> writeMQTTString (w_topicName (c_will options)) cur;
                             writeMQTTString (w_message (c_will options)) cur }
                   else Some cur);
           cur \<leftarrow> (if flag_username flags \<noteq> 0 then writeMQTTString (c_username options) cur
                   else Some cur);
           (buf, ptr) \<leftarrow> (if flag_password flags \<noteq> 0 then writeMQTTString (c_password options) cur
                         else Some cur);
           Some (int ptr, buf)
         })"

record connack_out =
  ca_sessionPresent :: byte
  ca_rc :: byte

definition MQTTDeserialize_connack :: "connack_out \<Rightarrow> mem \<Rightarrow> int \<Rightarrow> (int \<times> connack_out) option" where
  "MQTTDeserialize_connack out buf buflen =
     do { (h, curdata) \<leftarrow> readChar buf 0;
          if header_type h \<noteq> msg_code CONNACK then Some (0, out)
          else do {
            (rc, mylen) \<leftarrow> MQTTPacket_decodeBuf buf curdata;
            let curdata = curdata + rc;
            let enddata = int curdata + mylen;
            if enddata - int curdata < 2 then Some (int rc, out)
            else do {
              (flags, curdata) \<leftarrow> readChar buf curdata;
              (c, curdata) \<leftarrow> readChar buf curdata;
              Some (1, out\<lparr>ca_sessionPresent := flags AND 1, ca_rc := c\<rparr>)
            }
          } }"

definition MQTTSerialize_zero :: "mem \<Rightarrow> int \<Rightarrow> byte \<Rightarrow> (int \<times> mem) option" where
  "MQTTSerialize_zero buf buflen packettype =
     (if buflen < 2 then Some (MQTTPACKET_BUFFER_TOO_SHORT, buf)
      else do {
        cur \<leftarrow> writeChar (header_byte packettype 0 0 0) (buf, 0);
        (buf, ptr) \<leftarrow> writeRemLen 0 cur;
        Some (int ptr, buf)
      })"

definition MQTTSerialize_disconnect :: "mem \<Rightarrow> int \<Rightarrow> (int \<times> mem) option" where
  "MQTTSerialize_disconnect buf buflen = MQTTSerialize_zero buf buflen (msg_code DISCONNECT)"

definition MQTTSerialize_pingreq :: "mem \<Rightarrow> int \<Rightarrow> (int \<times> mem) option" where
  "MQTTSerialize_pingreq buf buflen = MQTTSerialize_zero buf buflen (msg_code PINGREQ)"

section \<open>Server side\<close>

definition memcmp_eq :: "byte list option \<Rightarrow> byte list \<Rightarrow> int \<Rightarrow> bool option" where
  "memcmp_eq d lit n =
     do { p \<leftarrow> d; a \<leftarrow> take_n p n; b \<leftarrow> take_n lit n; Some (a = b) }"

definition MQTTPacket_checkVersion :: "MQTTString \<Rightarrow> byte \<Rightarrow> bool option" where
  "MQTTPacket_checkVersion protocol version =
     (let p = lenstring protocol
      in if version = 3 then memcmp_eq (ls_data p) MQIsdp_name (min 6 (ls_len p))
         else if version = 4 then memcmp_eq (ls_data p) MQTT_name (min 4 (ls_len p))
         else Some False)"

text \<open>
  The tail of \<open>MQTTDeserialize_connect\<close> after the will: user name and password. Every failing
  read leaves \<open>data\<close> as far as it was filled in and returns 0.
\<close>

definition read_credentials ::
  "MQTTPacket_connectData \<Rightarrow> byte \<Rightarrow> mem \<Rightarrow> nat \<Rightarrow> int \<Rightarrow> (int \<times> MQTTPacket_connectData) option" where
  "read_credentials data flags buf curdata enddata =
     (if flag_username flags \<noteq> 0
      then if enddata - int curdata < 3 then Some (0, data)
           else do {
             (good, u, curdata) \<leftarrow> readMQTTLenString (c_username data) buf curdata enddata;
             let data = data\<lparr>c_username := u\<rparr>;
             if \<not> good then Some (0, data)
             else if flag_password flags \<noteq> 0
             then if enddata - int curdata < 3 then Some (0, data)
                  else do {
                    (good, p, curdata) \<leftarrow> readMQTTLenString (c_password data) buf curdata enddata;
                    Some (if good then 1 else 0, data\<lparr>c_password := p\<rparr>)
                  }
             else Some (1, data)
           }
      else if flag_password flags \<noteq> 0 then Some (0, data)
      else Some (1, data))"

definition read_will ::
  "MQTTPacket_connectData \<Rightarrow> byte \<Rightarrow> mem \<Rightarrow> nat \<Rightarrow> int \<Rightarrow> (int \<times> MQTTPacket_connectData) option" where
  "read_will data flags buf curdata enddata =
     (if flag_will flags \<noteq> 0
      then do {
        let data = data\<lparr>c_will := (c_will data)\<lparr>w_qos := flag_willQoS flags,
                          w_retained := flag_willRetain flags\<rparr>\<rparr>;
        (good, t, curdata) \<leftarrow> readMQTTLenString (w_topicName (c_will data)) buf curdata enddata;
        let data = data\<lparr>c_will := (c_will data)\<lparr>w_topicName := t\<rparr>\<rparr>;
        if \<not> good then Some (0, data)
        else do {
          (good, m, curdata) \<leftarrow> readMQTTLenString (w_message (c_will data)) buf curdata enddata;
          let data = data\<lparr>c_will := (c_will data)\<lparr>w_message := m\<rparr>\<rparr>;
          if \<not> good then Some (0, data) else read_credentials data flags buf curdata enddata
        }
      }
      else read_credentials data flags buf curdata enddata)"

text \<open>The local \<open>Protocol\<close> starts indeterminate; it is only used after it has been filled in.\<close>

definition MQTTDeserialize_connect ::
  "MQTTPacket_connectData \<Rightarrow> mem \<Rightarrow> int \<Rightarrow> (int \<times> MQTTPacket_connectData) option" where
  "MQTTDeserialize_connect data buf len =
     do { (h, curdata) \<leftarrow> readChar buf 0;
          if header_type h \<noteq> msg_code CONNECT then Some (0, data)
          else do {
            (n, mylen) \<leftarrow> MQTTPacket_decodeBuf buf curdata;
            let curdata = curdata + n;
            (good, Protocol, curdata) \<leftarrow> readMQTTLenString MQTTString_initializer buf curdata len;
            if \<not> good \<or> len - int curdata < 0 then Some (0, data)
            else do {
              (version, curdata) \<leftarrow> readChar buf curdata;
              known \<leftarrow> MQTTPacket_checkVersion Protocol version;
              if \<not> known then Some (0, data)
              else do {
                (flags, curdata) \<leftarrow> readChar buf curdata;
                let data = data\<lparr>c_cleansession := flag_cleansession flags\<rparr>;
                (k, curdata) \<leftarrow> readInt buf curdata;
                let data = data\<lparr>c_keepAliveInterval := of_int k\<rparr>;
                (good, cid, curdata) \<leftarrow> readMQTTLenString (c_clientID data) buf curdata len;
                let data = data\<lparr>c_clientID := cid\<rparr>;
                if \<not> good then Some (0, data)
                else read_will (data\<lparr>c_willFlag := flag_will flags\<rparr>) flags buf curdata len
              }
            }
          } }"

definition MQTTSerialize_connack :: "mem \<Rightarrow> int \<Rightarrow> byte \<Rightarrow> byte \<Rightarrow> (int \<times> mem) option" where
  "MQTTSerialize_connack buf buflen connack_rc sessionPresent =
     (if buflen < 2 then Some (MQTTPACKET_BUFFER_TOO_SHORT, buf)
      else do {
        cur \<leftarrow> writeChar (header_byte (msg_code CONNACK) 0 0 0) (buf, 0);
        cur \<leftarrow> writeRemLen 2 cur;
        cur \<leftarrow> writeChar (sessionPresent AND 1) cur;
        (buf, ptr) \<leftarrow> writeChar connack_rc cur;
        Some (int ptr, buf)
      })"

section \<open>Flags\<close>

lemma byte_bits_possible: "possible_bit TYPE(8 word) 0" "possible_bit TYPE(8 word) (Suc 0)"
  by simp_all

lemma bit_fields:
  "bit (x AND 1 :: byte) n \<longleftrightarrow> n = 0 \<and> bit x 0"
  "bit (x AND 3 :: byte) n \<longleftrightarrow> n = 0 \<and> bit x 0 \<or> n = 1 \<and> bit x 1"
  unfolding and_masks
  by (auto simp only: bit_and_iff bit_mask_iff less_Suc_eq numeral_2_eq_2 One_nat_def not_less0
      byte_bits_possible)

lemma connect_flag_extract [simp]:
  "flag_cleansession (connect_flags cs w q r p u) = cs AND 1"
  "flag_will (connect_flags cs w q r p u) = w AND 1"
  "flag_willQoS (connect_flags cs w q r p u) = q AND 3"
  "flag_willRetain (connect_flags cs w q r p u) = r AND 1"
  "flag_password (connect_flags cs w q r p u) = p AND 1"
  "flag_username (connect_flags cs w q r p u) = u AND 1"
  unfolding connect_flags_def flag_cleansession_def flag_will_def flag_willQoS_def
    flag_willRetain_def flag_password_def flag_username_def
  by (rule bit_word_eqI, simp only: bit_fields bit_or_iff bit_drop_bit_eq bit_push_bit_iff o_def,
      (auto)[1])+

section \<open>The packets on the wire\<close>

definition will_bytes :: "MQTTPacket_connectData \<Rightarrow> byte list" where
  "will_bytes a = (if c_willFlag a \<noteq> 0
     then str_bytes (w_topicName (c_will a)) @ str_bytes (w_message (c_will a)) else [])"

definition opt_bytes :: "MQTTString \<Rightarrow> byte list" where
  "opt_bytes s = (if present s then str_bytes s else [])"

definition flags_of :: "MQTTPacket_connectData \<Rightarrow> byte" where
  "flags_of a = connect_flags (c_cleansession a) (if c_willFlag a \<noteq> 0 then 1 else 0)
     (if c_willFlag a \<noteq> 0 then w_qos (c_will a) else 0)
     (if c_willFlag a \<noteq> 0 then w_retained (c_will a) else 0)
     (if present (c_password a) then 1 else 0) (if present (c_username a) then 1 else 0)"

definition proto_bytes :: "MQTTPacket_connectData \<Rightarrow> byte list" where
  "proto_bytes a = (if c_MQTTVersion a = 4 then int_bytes 4 @ MQTT_name @ [4]
     else int_bytes 6 @ MQIsdp_name @ [3])"

definition connect_args_ok :: "MQTTPacket_connectData \<Rightarrow> bool" where
  "connect_args_ok a \<longleftrightarrow> str_ok (c_clientID a) \<and>
     (c_willFlag a \<noteq> 0 \<longrightarrow> str_ok (w_topicName (c_will a)) \<and> str_ok (w_message (c_will a))) \<and>
     (present (c_username a) \<longrightarrow> str_ok (c_username a)) \<and>
     (present (c_password a) \<longrightarrow> str_ok (c_password a)) \<and>
     MQTTSerialize_connectLength a < 268435456"

definition connect_ok :: "MQTTPacket_connectData \<Rightarrow> bool" where
  "connect_ok a \<longleftrightarrow> c_MQTTVersion a \<in> {3, 4} \<and> connect_args_ok a"

definition connect_wire :: "MQTTPacket_connectData \<Rightarrow> byte list" where
  "connect_wire a =
     header_byte (msg_code CONNECT) 0 0 0 # enc_rem (nat (MQTTSerialize_connectLength a)) @
     proto_bytes a @ [flags_of a] @ int_bytes (uint (c_keepAliveInterval a)) @
     str_bytes (c_clientID a) @ will_bytes a @ opt_bytes (c_username a) @ opt_bytes (c_password a)"

abbreviation connect_ser :: "MQTTPacket_connectData \<Rightarrow> int \<Rightarrow> mem \<Rightarrow> (int \<times> mem) option" where
  "connect_ser a buflen buf \<equiv> MQTTSerialize_connect buf buflen a"

abbreviation connect_need :: "MQTTPacket_connectData \<Rightarrow> int" where
  "connect_need a \<equiv> MQTTPacket_len (MQTTSerialize_connectLength a)"

lemma length_opt_bytes:
  "(present s \<longrightarrow> str_ok s) \<Longrightarrow>
     int (length (opt_bytes s)) = (if present s then MQTTstrlen s + 2 else 0)"
  by (simp add: opt_bytes_def length_str_bytes)

definition connect_body :: "MQTTPacket_connectData \<Rightarrow> byte list" where
  "connect_body a = proto_bytes a @ [flags_of a] @ int_bytes (uint (c_keepAliveInterval a)) @
     str_bytes (c_clientID a) @ will_bytes a @ opt_bytes (c_username a) @ opt_bytes (c_password a)"

lemma connect_wire_body:
  "connect_wire a = header_byte (msg_code CONNECT) 0 0 0 #
     enc_rem (nat (MQTTSerialize_connectLength a)) @ connect_body a"
  by (simp add: connect_wire_def connect_body_def)

text \<open>The computed length is that of the body, except that an unknown version counts no header.\<close>

lemma length_connect_body:
  "connect_args_ok a \<Longrightarrow> int (length (connect_body a)) = MQTTSerialize_connectLength a +
     (if c_MQTTVersion a \<in> {3, 4} then 0 else 12)"
  by (auto simp: connect_args_ok_def MQTTSerialize_connectLength_def proto_bytes_def will_bytes_def
      connect_body_def length_opt_bytes length_str_bytes MQTT_name_def MQIsdp_name_def)

lemma connectLength_nonneg: "connect_args_ok a \<Longrightarrow> 0 \<le> MQTTSerialize_connectLength a"
  using MQTTstrlen_nonneg
  by (simp add: connect_args_ok_def MQTTSerialize_connectLength_def)

lemma connect_fits:
  assumes "connect_args_ok a" "connect_need a \<le> buflen"
  shows "connect_ser a buflen buf =
    do { (buf', m) \<leftarrow> put (connect_wire a) (buf, 0); Some (int m, buf') }"
  using assms connectLength_nonneg [OF assms(1)]
  by (simp add: MQTTSerialize_connect_def connect_args_ok_def connect_wire_def proto_bytes_def
      will_bytes_def opt_bytes_def flags_of_def writeRemLen_put writeMQTTString_put put_simps
      case_prod_unfold MQTT_name_def MQIsdp_name_def)

interpretation con: safe_serializer connect_ser connect_need connect_wire connect_ok
proof
  fix a :: MQTTPacket_connectData and buflen :: int and buf :: mem
  show "buflen < connect_need a \<Longrightarrow> connect_ser a buflen buf = Some (-2, buf)"
    by (simp add: MQTTSerialize_connect_def MQTTPACKET_BUFFER_TOO_SHORT_def)
  show "connect_ser a buflen buf =
      do { (buf', m) \<leftarrow> put (connect_wire a) (buf, 0); Some (int m, buf') }"
    if "connect_ok a" "connect_need a \<le> buflen"
    using that by (intro connect_fits) (simp_all add: connect_ok_def)
  show "int (length (connect_wire a)) \<le> connect_need a" if "connect_ok a"
    using length_connect_body [of a] connectLength_nonneg [of a] that
      packet_len_bounds(1) [of "MQTTSerialize_connectLength a"]
    by (simp add: connect_wire_body connect_ok_def connect_args_ok_def)
qed

type_synonym connack_args = "byte \<times> byte"

fun connack_wire :: "connack_args \<Rightarrow> byte list" where
  "connack_wire (connack_rc, sessionPresent) =
     [header_byte (msg_code CONNACK) 0 0 0, 2, sessionPresent AND 1, connack_rc]"

fun connack_ser :: "connack_args \<Rightarrow> int \<Rightarrow> mem \<Rightarrow> (int \<times> mem) option" where
  "connack_ser (connack_rc, sessionPresent) buflen buf =
     MQTTSerialize_connack buf buflen connack_rc sessionPresent"

interpretation connack: guarded_serializer connack_ser "\<lambda>_. 2" connack_wire "\<lambda>_. True"
proof
  fix a :: connack_args and buflen :: int and buf :: mem
  obtain c sp where a: "a = (c, sp)" by (cases a)
  show "buflen < 2 \<Longrightarrow> connack_ser a buflen buf = Some (-2, buf)"
    by (simp add: a MQTTSerialize_connack_def MQTTPACKET_BUFFER_TOO_SHORT_def)
  show "2 \<le> buflen \<Longrightarrow> connack_ser a buflen buf =
      do { (buf', m) \<leftarrow> put (connack_wire a) (buf, 0); Some (int m, buf') }"
    by (simp add: a MQTTSerialize_connack_def writeRemLen_put put_simps enc_rem_small case_prod_unfold)
qed

abbreviation zero_wire :: "byte \<Rightarrow> byte list" where
  "zero_wire packettype \<equiv> [header_byte packettype 0 0 0, 0]"

interpretation zero: safe_serializer
  "\<lambda>packettype buflen buf. MQTTSerialize_zero buf buflen packettype" "\<lambda>_. 2" zero_wire "\<lambda>_. True"
  by unfold_locales
    (simp_all add: MQTTSerialize_zero_def MQTTPACKET_BUFFER_TOO_SHORT_def writeRemLen_put put_simps
      enc_rem_small case_prod_unfold)

section \<open>Reading a packet back\<close>

lemma readMQTTLenString_str:
  assumes "length xs = p" "length (content s) < 65536" "int (p + length (str_bytes s)) \<le> enddata"
  shows "\<exists>t. readMQTTLenString s0 (xs @ str_bytes s @ ys) p enddata =
      Some (True, t, p + length (str_bytes s)) \<and> content t = content s"
  using readMQTTLenString_at [OF assms(1,2), of enddata s0 ys] assms(3)
  by (simp add: str_bytes_def)

definition same_if :: "bool \<Rightarrow> MQTTString \<Rightarrow> MQTTString \<Rightarrow> MQTTString \<Rightarrow> bool" where
  "same_if b t s old \<longleftrightarrow> (if b then content t = content s else t = old)"

lemma read_credentials_back:
  assumes B: "B = xs @ opt_bytes u @ opt_bytes w @ ys" "length xs = p"
    and E: "E = int p + int (length (opt_bytes u)) + int (length (opt_bytes w))"
    and fu: "flag_username f \<noteq> 0 \<longleftrightarrow> present u" and fw: "flag_password f \<noteq> 0 \<longleftrightarrow> present w"
    and wu: "present w \<longrightarrow> present u"
    and u_ok: "present u \<longrightarrow> (present w \<or> content u \<noteq> []) \<and> length (content u) < 65536"
    and w_ok: "present w \<longrightarrow> content w \<noteq> [] \<and> length (content w) < 65536"
  shows "\<exists>u' w'. read_credentials d f B p E = Some (1, d\<lparr>c_username := u', c_password := w'\<rparr>) \<and>
      same_if (present u) u' u (c_username d) \<and> same_if (present w) w' w (c_password d)"
proof (cases "present u")
  case False
  then have "read_credentials d f B p E =
      Some (1, d\<lparr>c_username := c_username d, c_password := c_password d\<rparr>)"
    using fu fw wu by (simp add: read_credentials_def)
  with False wu show ?thesis unfolding same_if_def by metis
next
  case u: True
  define q where "q = p + length (str_bytes u)"
  have e: "E = int q + int (length (opt_bytes w))" "int q \<le> E" "\<not> E - int p < 3"
    using u u_ok by (auto simp: E q_def opt_bytes_def str_bytes_def neq_Nil_conv)
  obtain u' where u': "readMQTTLenString (c_username d) B p E = Some (True, u', q)" "content u' = content u"
    using readMQTTLenString_str [OF B(2), of u E "c_username d" "opt_bytes w @ ys"] u u_ok e(2)
    by (auto simp: q_def B(1) opt_bytes_def [of u])
  show ?thesis
  proof (cases "present w")
    case False
    then have "read_credentials d f B p E =
        Some (1, d\<lparr>c_username := u', c_password := c_password d\<rparr>)"
      using u u' e fu fw by (simp add: read_credentials_def)
    with False u u' show ?thesis unfolding same_if_def by metis
  next
    case w: True
    then have e3: "\<not> E - int q < 3" "E = int (q + length (str_bytes w))"
      using w_ok e(1) by (auto simp: opt_bytes_def str_bytes_def neq_Nil_conv)
    obtain w' where w': "readMQTTLenString (c_password d) B q E =
        Some (True, w', q + length (str_bytes w))" "content w' = content w"
      using readMQTTLenString_str [of "xs @ str_bytes u" q w E "c_password d" ys] u w w_ok e3(2) B(2)
      by (auto simp: B(1) opt_bytes_def q_def)
    have "read_credentials d f B p E = Some (1, d\<lparr>c_username := u', c_password := w'\<rparr>)"
      using u w u' w' e e3(1) fu fw by (simp add: read_credentials_def)
    with u w u' w' show ?thesis unfolding same_if_def by metis
  qed
qed

text \<open>
  Options whose strings the format can hold. Of those, the reader refuses a password without a user name, an empty password, and an empty
  user name that no password follows: at least three bytes must be left where it looks for either.
\<close>

definition connect_readable :: "MQTTPacket_connectData \<Rightarrow> bool" where
  "connect_readable a \<longleftrightarrow> connect_ok a \<and> length (content (c_clientID a)) < 65536 \<and>
     (c_willFlag a \<noteq> 0 \<longrightarrow> length (content (w_topicName (c_will a))) < 65536 \<and>
        length (content (w_message (c_will a))) < 65536) \<and>
     (present (c_username a) \<longrightarrow> length (content (c_username a)) < 65536) \<and>
     (present (c_password a) \<longrightarrow> length (content (c_password a)) < 65536)"

definition credentials_ok :: "MQTTPacket_connectData \<Rightarrow> bool" where
  "credentials_ok a \<longleftrightarrow> (present (c_password a) \<longrightarrow> present (c_username a) \<and> content (c_password a) \<noteq> []) \<and>
     (present (c_username a) \<longrightarrow> present (c_password a) \<or> content (c_username a) \<noteq> [])"

lemma read_credentials_refused:
  assumes B: "B = xs @ opt_bytes (c_username a) @ opt_bytes (c_password a) @ ys" "length xs = p"
    and E: "E = int p + int (length (opt_bytes (c_username a))) + int (length (opt_bytes (c_password a)))"
    and ok: "connect_readable a" "\<not> credentials_ok a"
  shows "\<exists>d'. read_credentials d (flags_of a) B p E = Some (0, d')"
proof -
  let ?u = "c_username a" and ?w = "c_password a"
  have f: "flag_username (flags_of a) \<noteq> 0 \<longleftrightarrow> present ?u" "flag_password (flags_of a) \<noteq> 0 \<longleftrightarrow> present ?w"
    by (simp_all add: flags_of_def)
  show ?thesis
  proof (cases "present ?u \<and> present ?w")
    case False
    then have "present ?w \<and> \<not> present ?u \<or> present ?u \<and> \<not> present ?w \<and> content ?u = []" using ok(2) by (auto simp: credentials_ok_def)
    then show ?thesis using f by (auto simp: read_credentials_def E opt_bytes_def str_bytes_def)
  next
    case True
    then have w: "content ?w = []" using ok(2) by (auto simp: credentials_ok_def)
    define q where "q = p + length (str_bytes ?u)"
    have e: "E = int q + 2" "int q \<le> E" "\<not> E - int p < 3" using True w by (auto simp: E q_def opt_bytes_def str_bytes_def)
    obtain u' where "readMQTTLenString (c_username d) B p E = Some (True, u', q)"
      using readMQTTLenString_str [OF B(2), of ?u E "c_username d" "opt_bytes ?w @ ys"] True ok(1) e(2)
      by (auto simp: q_def B(1) opt_bytes_def [of ?u] connect_readable_def)
    then show ?thesis using True f e by (simp add: read_credentials_def)
  qed
qed

definition will_same :: "MQTTPacket_connectData \<Rightarrow> MQTTPacket_connectData \<Rightarrow> bool" where
  "will_same a d \<longleftrightarrow> w_qos (c_will d) = w_qos (c_will a) AND 3 \<and>
     w_retained (c_will d) = w_retained (c_will a) AND 1 \<and>
     content (w_topicName (c_will d)) = content (w_topicName (c_will a)) \<and>
     content (w_message (c_will d)) = content (w_message (c_will a))"

definition connect_same ::
  "MQTTPacket_connectData \<Rightarrow> MQTTPacket_connectData \<Rightarrow> MQTTPacket_connectData \<Rightarrow> bool" where
  "connect_same a old d \<longleftrightarrow>
     c_cleansession d = c_cleansession a AND 1 \<and> c_keepAliveInterval d = c_keepAliveInterval a \<and>
     content (c_clientID d) = content (c_clientID a) \<and>
     c_willFlag d = (if c_willFlag a \<noteq> 0 then 1 else 0) \<and>
     (if c_willFlag a \<noteq> 0 then will_same a d else c_will d = c_will old) \<and>
     same_if (present (c_username a)) (c_username d) (c_username a) (c_username old) \<and>
     same_if (present (c_password a)) (c_password d) (c_password a) (c_password old)"

lemma flags_of_fields [simp]:
  "flag_username (flags_of a) \<noteq> 0 \<longleftrightarrow> present (c_username a)"
  "flag_password (flags_of a) \<noteq> 0 \<longleftrightarrow> present (c_password a)"
  "flag_will (flags_of a) = (if c_willFlag a \<noteq> 0 then 1 else 0)"
  "flag_cleansession (flags_of a) = c_cleansession a AND 1"
  by (simp_all add: flags_of_def)

lemma read_will_back:
  assumes B: "B = xs @ will_bytes a @ opt_bytes (c_username a) @ opt_bytes (c_password a) @ ys"
      "length xs = p"
    and E: "E = int p + int (length (will_bytes a)) + int (length (opt_bytes (c_username a))) +
        int (length (opt_bytes (c_password a)))"
    and ok: "connect_readable a"
  shows "\<exists>wl. read_will d (flags_of a) B p E = read_credentials (d\<lparr>c_will := wl\<rparr>) (flags_of a) B (p + length (will_bytes a)) E \<and>
      (if c_willFlag a \<noteq> 0 then will_same a (d\<lparr>c_will := wl\<rparr>) else wl = c_will d)"
proof -
  define q where "q = p + length (will_bytes a)"
  have "\<exists>wl. read_will d (flags_of a) B p E = read_credentials (d\<lparr>c_will := wl\<rparr>) (flags_of a) B q E \<and>
      (if c_willFlag a \<noteq> 0 then will_same a (d\<lparr>c_will := wl\<rparr>) else wl = c_will d)"
  proof (cases "c_willFlag a = 0")
    case True
    then have "read_will d (flags_of a) B p E = read_credentials d (flags_of a) B q E"
      by (simp add: read_will_def q_def will_bytes_def)
    with True show ?thesis by (intro exI [of _ "c_will d"]) simp
  next
    case False
    let ?t = "w_topicName (c_will a)" and ?m = "w_message (c_will a)"
    define r where "r = p + length (str_bytes ?t)"
    define c0 where "c0 = (c_will d)\<lparr>w_qos := w_qos (c_will a) AND 3,
        w_retained := w_retained (c_will a) AND 1\<rparr>"
    have q: "q = r + length (str_bytes ?m)" and le: "int r \<le> E" "int q \<le> E"
      using False by (simp_all add: q_def r_def will_bytes_def E)
    obtain t where t: "readMQTTLenString (w_topicName (c_will d)) B p E = Some (True, t, r)"
        "content t = content ?t"
      using readMQTTLenString_str [OF B(2), of ?t E "w_topicName (c_will d)"
          "str_bytes ?m @ opt_bytes (c_username a) @ opt_bytes (c_password a) @ ys"] ok False le(1)
      by (auto simp: r_def B(1) will_bytes_def connect_readable_def)
    obtain m where m: "readMQTTLenString (w_message (c_will d)) B r E = Some (True, m, q)"
        "content m = content ?m"
      using readMQTTLenString_str [of "xs @ str_bytes ?t" r ?m E "w_message (c_will d)"
          "opt_bytes (c_username a) @ opt_bytes (c_password a) @ ys"] ok False le(2) B(2) q
      by (auto simp: r_def B(1) will_bytes_def connect_readable_def)
    define wl where "wl = c0\<lparr>w_topicName := t, w_message := m\<rparr>"
    have "read_will d (flags_of a) B p E = read_credentials (d\<lparr>c_will := wl\<rparr>) (flags_of a) B q E"
      using False t m by (simp add: read_will_def flags_of_def wl_def c0_def)
    moreover have "will_same a (d\<lparr>c_will := wl\<rparr>)"
      using t m by (simp add: will_same_def wl_def c0_def)
    ultimately show ?thesis using False by auto
  qed
  then show ?thesis by (simp add: q_def)
qed

lemma proto_known:
  assumes "c_MQTTVersion a \<in> {3, 4}"
  obtains nm v where "proto_bytes a = int_bytes (int (length nm)) @ nm @ [v]" "length nm < 65536"
    "\<And>s rest. MQTTPacket_checkVersion (s\<lparr>cstring := None, lenstring :=
        \<lparr>ls_len = int (length nm), ls_data = Some (nm @ rest)\<rparr>\<rparr>) v = Some True"
proof (cases "c_MQTTVersion a = 4")
  case True
  then show ?thesis
    by (intro that [of MQTT_name 4])
      (simp_all add: proto_bytes_def MQTT_name_def MQTTPacket_checkVersion_def memcmp_eq_def take_n_def)
next
  case False
  then show ?thesis
    by (intro that [of MQIsdp_name 3])
      (simp_all add: proto_bytes_def MQIsdp_name_def MQTTPacket_checkVersion_def memcmp_eq_def take_n_def)
qed

lemma connect_readback:
  assumes "connect_readable a"
  shows "\<exists>rc d'. MQTTDeserialize_connect d (connect_wire a @ ys) (int (length (connect_wire a))) = Some (rc, d') \<and>
     (if credentials_ok a then rc = 1 \<and> connect_same a d d' else rc = 0)"
proof -
  have ok: "connect_ok a" using assms by (simp add: connect_readable_def)
  define L where "L = nat (MQTTSerialize_connectLength a)"
  have L: "L < 268435456"
    using ok connectLength_nonneg [of a] by (auto simp: L_def connect_ok_def connect_args_ok_def nat_less_iff)
  obtain nm v where pr: "proto_bytes a = int_bytes (int (length nm)) @ nm @ [v]" "length nm < 65536"
    and known: "\<And>s rest. MQTTPacket_checkVersion (s\<lparr>cstring := None, lenstring :=
        \<lparr>ls_len = int (length nm), ls_data = Some (nm @ rest)\<rparr>\<rparr>) v = Some True"
    using proto_known [of a] ok by (auto simp: connect_ok_def)
  define e where "e = enc_rem L"
  define h where "h = header_byte (msg_code CONNECT) 0 0 0"
  define f where "f = flags_of a"
  define ka where "ka = int_bytes (uint (c_keepAliveInterval a))"
  define cid where "cid = str_bytes (c_clientID a)"
  define tl1 where "tl1 = will_bytes a @ opt_bytes (c_username a) @ opt_bytes (c_password a) @ ys"
  define B where "B = connect_wire a @ ys"
  define E where "E = int (length (connect_wire a))"
  have Beq: "B = h # e @ int_bytes (int (length nm)) @ nm @ v # f # ka @ cid @ tl1"
    by (simp add: B_def connect_wire_def pr h_def e_def f_def ka_def cid_def tl1_def L_def)
  define p where "p = length e + length nm + 3"
  define q where "q = p + 4 + length cid"
  have E: "E = int q + int (length (will_bytes a)) + int (length (opt_bytes (c_username a))) +
        int (length (opt_bytes (c_password a)))"
    by (simp add: E_def connect_wire_def pr q_def p_def cid_def e_def L_def)
  then have le: "int q \<le> E" "int p \<le> E" by (simp_all add: q_def)
  have hd: "readChar B 0 = Some (h, 1)" "MQTTPacket_decodeBuf B 1 = Some (length e, int L)"
    using read_header [OF L, of h] unfolding Beq e_def by simp_all
  have proto: "readMQTTLenString s B (Suc (length e)) E = Some (True, s\<lparr>cstring := None, lenstring :=
      \<lparr>ls_len = int (length nm), ls_data = Some (nm @ v # f # ka @ cid @ tl1)\<rparr>\<rparr>, p)" for s
    using readMQTTLenString_at [of "h # e" "Suc (length e)" nm E s "v # f # ka @ cid @ tl1"] pr(2) le(2)
    by (simp add: Beq p_def)
  have pre: "length (h # e @ int_bytes (int (length nm)) @ nm) = p" by (simp add: p_def)
  have rest: "readChar B p = Some (v, Suc p)" "readChar B (Suc p) = Some (f, p + 2)"
      "readInt B (p + 2) = Some (uint (c_keepAliveInterval a), p + 4)"
    using readChar_at [OF pre, of v "f # ka @ cid @ tl1"]
      readChar_at [of "(h # e @ int_bytes (int (length nm)) @ nm) @ [v]" "Suc p" f "ka @ cid @ tl1"]
      readInt_at [of "(h # e @ int_bytes (int (length nm)) @ nm) @ [v, f]" "p + 2"
        "uint (c_keepAliveInterval a)" "cid @ tl1"] pre uint_lt2p [of "c_keepAliveInterval a"]
    by (simp_all add: Beq ka_def)
  obtain c where c: "readMQTTLenString (c_clientID d) B (p + 4) E = Some (True, c, q)"
      "content c = content (c_clientID a)"
    using readMQTTLenString_str [of "h # e @ int_bytes (int (length nm)) @ nm @ v # f # ka" "p + 4"
        "c_clientID a" E "c_clientID d" tl1] assms le(1)
    by (auto simp: Beq p_def q_def cid_def ka_def connect_readable_def)
  define d1 where "d1 = d\<lparr>c_cleansession := c_cleansession a AND 1,
      c_keepAliveInterval := c_keepAliveInterval a, c_clientID := c,
      c_willFlag := if c_willFlag a \<noteq> 0 then 1 else 0\<rparr>"
  have step: "MQTTDeserialize_connect d B E = read_will d1 f B q E"
    using hd proto rest c(1) le(2) known
    by (simp add: MQTTDeserialize_connect_def d1_def h_def f_def)
  define xs where "xs = h # e @ int_bytes (int (length nm)) @ nm @ v # f # ka @ cid"
  have xs: "length xs = q" "B = xs @ will_bytes a @ opt_bytes (c_username a) @ opt_bytes (c_password a) @ ys"
    by (simp_all add: xs_def q_def p_def ka_def Beq tl1_def)
  obtain wl where w: "read_will d1 f B q E = read_credentials (d1\<lparr>c_will := wl\<rparr>) f B (q + length (will_bytes a)) E"
      "if c_willFlag a \<noteq> 0 then will_same a (d1\<lparr>c_will := wl\<rparr>) else wl = c_will d1"
    using read_will_back [OF xs(2,1) E assms, of d1] unfolding f_def by blast
  let ?d = "d1\<lparr>c_will := wl\<rparr>" and ?r = "q + length (will_bytes a)"
  have B: "B = (xs @ will_bytes a) @ opt_bytes (c_username a) @ opt_bytes (c_password a) @ ys" "length (xs @ will_bytes a) = ?r"
      "E = int ?r + int (length (opt_bytes (c_username a))) + int (length (opt_bytes (c_password a)))"
    using xs E by simp_all
  have "\<exists>rc d'. read_credentials ?d f B ?r E = Some (rc, d') \<and> (if credentials_ok a then rc = 1 \<and> connect_same a d d' else rc = 0)"
  proof (cases "credentials_ok a")
    case True
    then obtain u p where u: "read_credentials ?d f B ?r E = Some (1, ?d\<lparr>c_username := u, c_password := p\<rparr>)"
        "same_if (present (c_username a)) u (c_username a) (c_username ?d)" "same_if (present (c_password a)) p (c_password a) (c_password ?d)"
      using read_credentials_back [OF B, of f ?d] assms by (auto simp: f_def credentials_ok_def connect_readable_def)
    have "connect_same a d (?d\<lparr>c_username := u, c_password := p\<rparr>)"
      using w(2) u(2,3) c(2) by (cases "c_willFlag a = 0") (simp_all add: connect_same_def d1_def will_same_def)
    then show ?thesis using u(1) True by auto
  next
    case False
    then show ?thesis using read_credentials_refused [OF B assms, of ?d] by (auto simp: f_def)
  qed
  then show ?thesis using step w(1) unfolding B_def E_def by simp
qed

lemma connack_readback:
  "MQTTDeserialize_connack out (connack_wire (c, sp) @ ys) buflen =
     Some (1, out\<lparr>ca_sessionPresent := sp AND 1, ca_rc := c\<rparr>)"
proof -
  have e: "enc_rem 2 = [2]" by (simp add: enc_rem_small)
  let ?h = "header_byte (msg_code CONNACK) 0 0 0"
  have "readChar (?h # 2 # (sp AND 1) # c # ys) 2 = Some (sp AND 1, 3)"
       "readChar (?h # 2 # (sp AND 1) # c # ys) 3 = Some (c, 4)"
    using readChar_at [of "[?h, 2]" 2 "sp AND 1" "c # ys"]
      readChar_at [of "[?h, 2, sp AND 1]" 3 c ys] by simp_all
  then show ?thesis
    using read_header [of 2 ?h "(sp AND 1) # c # ys"]
    by (simp add: MQTTDeserialize_connack_def e numeral_2_eq_2 [symmetric])
qed

section \<open>Properties\<close>

text \<open>
  C9. CONNECT options of MQTT 3.1 or 3.1.1, with strings of less than 65536 bytes, that were serialized
  without error: the server side reads session flag, keep-alive, client identifier, will, user name and
  password back exactly when the credentials are such that it accepts them (\<open>credentials_ok\<close>), and answers
  0 otherwise. The client side serializes also options whose credentials are refused: a password without
  a user name, an empty password, or an empty user name without a password.
\<close>

theorem connect_roundtrip:
  assumes "connect_readable a" "MQTTSerialize_connect buf buflen a = Some (rc, buf')" "0 < rc"
  shows "\<exists>r d'. MQTTDeserialize_connect d buf' rc = Some (r, d') \<and> (if credentials_ok a then r = 1 \<and> connect_same a d d' else r = 0)"
proof -
  have "connect_ok a" using assms(1) by (simp add: connect_readable_def)
  from con.result_cases [OF this assms(2)] assms(3)
  have "rc = int (length (connect_wire a))" "buf' = connect_wire a @ drop (length (connect_wire a)) buf"
    by auto
  with connect_readback [OF assms(1)] show ?thesis by simp
qed

definition sample_options :: MQTTPacket_connectData where
  "sample_options = MQTTPacket_connectData_initializer\<lparr>c_clientID := sample_topic,
     c_willFlag := 1, c_will := MQTTPacket_willOptions_initializer\<lparr>w_topicName := sample_topic,
     w_qos := 2\<rparr>, c_username := sample_topic\<rparr>"

lemmas sample_options_defs = sample_options_def sample_topic_def MQTTPacket_connectData_initializer_def
  MQTTPacket_willOptions_initializer_def MQTTString_initializer_def

lemma sample_options_ok: "connect_readable sample_options" "connect_ok sample_options"
  "connect_need sample_options = 29" "credentials_ok sample_options"
  by (simp_all add: sample_options_defs connect_readable_def credentials_ok_def connect_ok_def connect_args_ok_def
      present_def str_ok_def content_def MQTTSerialize_connectLength_def MQTTstrlen_def MQTTPacket_len_def)

theorem connect_roundtrip_witness:
  "\<exists>rc buf'. MQTTSerialize_connect (replicate 40 0) 40 sample_options = Some (rc, buf') \<and>
     (\<exists>d'. MQTTDeserialize_connect MQTTPacket_connectData_initializer buf' rc = Some (1, d') \<and>
       connect_same sample_options MQTTPacket_connectData_initializer d')"
proof -
  have w: "MQTTSerialize_connect (replicate 40 0) 40 sample_options =
      Some (int (length (connect_wire sample_options)),
        connect_wire sample_options @ drop (length (connect_wire sample_options)) (replicate 40 0))"
    by (rule con.written) (simp_all add: sample_options_ok)
  moreover have "0 < int (length (connect_wire sample_options))" by (simp add: connect_wire_def)
  ultimately show ?thesis using connect_roundtrip [OF sample_options_ok(1) w, of MQTTPacket_connectData_initializer] sample_options_ok(4) by auto
qed

text \<open>
  With a protocol version other than 3 and 4 the length computed for the guard omits the
  twelve bytes of variable header that are nevertheless written, so a buffer that passes the
  guard by fewer than eleven bytes is overrun.
\<close>

theorem connect_unknown_version_overflows:
  assumes "connect_args_ok a" "c_MQTTVersion a \<notin> {3, 4}"
    and "MQTTPacket_len (MQTTSerialize_connectLength a) \<le> int (length buf)"
    and "int (length buf) < MQTTPacket_len (MQTTSerialize_connectLength a) + 11"
  shows "MQTTSerialize_connect buf (int (length buf)) a = None"
proof -
  have "MQTTPacket_len (MQTTSerialize_connectLength a) + 11 \<le> int (length (connect_wire a))"
    using length_connect_body [OF assms(1)] connectLength_nonneg [OF assms(1)] assms(1,2)
      packet_len_bounds(2) [of "MQTTSerialize_connectLength a"]
    by (simp add: connect_wire_body connect_args_ok_def)
  with assms show ?thesis by (simp add: connect_fits put_0_None)
qed

theorem connect_unknown_version_overflows_witness:
  "MQTTSerialize_connect (replicate 8 0) (int (length (replicate 8 (0 :: byte))))
     (MQTTPacket_connectData_initializer\<lparr>c_MQTTVersion := 5\<rparr>) = None"
  by (rule connect_unknown_version_overflows)
    (simp_all add: sample_options_defs connect_args_ok_def
      present_def str_ok_def content_def MQTTSerialize_connectLength_def MQTTstrlen_def MQTTPacket_len_def)

text \<open>
  The CONNACK serializer asks for two bytes of room and writes four: told the true length of
  its buffer, it runs past the end exactly for buffers of two and three bytes.
\<close>

theorem connack_overflow_iff:
  "MQTTSerialize_connack buf (int (length buf)) connack_rc sessionPresent = None \<longleftrightarrow>
     length buf = 2 \<or> length buf = 3"
  using connack.fault_iff [of "(connack_rc, sessionPresent)" "int (length buf)" buf] by auto

text \<open>
  A CONNACK whose remaining length is 0 or 1 carries no return code, yet the client-side
  parser returns 1, its success code, and leaves both outputs as the caller had them.
\<close>

theorem connack_truncated_accepted:
  assumes "n < 2"
  shows "MQTTDeserialize_connack out (header_byte (msg_code CONNACK) 0 0 0 # enc_rem n @ rest) buflen =
    Some (1, out)"
  using assms read_header [of n "header_byte (msg_code CONNACK) 0 0 0" rest]
  by (simp add: MQTTDeserialize_connack_def enc_rem_small)

theorem connack_truncated_accepted_witness:
  "MQTTDeserialize_connack \<lparr>ca_sessionPresent = 7, ca_rc = 5\<rparr>
     (header_byte (msg_code CONNACK) 0 0 0 # enc_rem 0 @ []) 2 =
     Some (1, \<lparr>ca_sessionPresent = 7, ca_rc = 5\<rparr>)"
  by (rule connack_truncated_accepted) simp

text \<open>
  The server accepts every protocol name that agrees with the expected one on the shorter of
  the two lengths: an empty name, or a longer one, passes for both protocol versions.
\<close>

theorem checkVersion_accepts:
  "MQTTPacket_checkVersion \<lparr>cstring = None,
       lenstring = \<lparr>ls_len = int (length nm), ls_data = Some (nm @ rest)\<rparr>\<rparr> version =
     Some (version = 3 \<and> take 6 nm = take (length nm) MQIsdp_name \<or>
           version = 4 \<and> take 4 nm = take (length nm) MQTT_name)"
proof -
  have tk: "take_n (nm @ rest) (min k (int (length nm))) = Some (take (nat k) nm)" if "0 \<le> k" for k
    using that by (auto simp: take_n_def min_def)
  have lit: "take_n MQIsdp_name (min 6 (int (length nm))) = Some (take (length nm) MQIsdp_name)"
    "take_n MQTT_name (min 4 (int (length nm))) = Some (take (length nm) MQTT_name)"
    by (auto simp: take_n_def min_def MQIsdp_name_def MQTT_name_def)
  show ?thesis
    using tk [of 6] tk [of 4] lit
    by (cases "version = 3"; cases "version = 4")
      (simp_all add: MQTTPacket_checkVersion_def memcmp_eq_def Let_def)
qed

end
