(* ===== verification/Mqtt_Subscribe.thy ===== *)
theory Mqtt_Subscribe
  imports Mqtt_Connect
begin

unbundle bit_operations_syntax

text \<open>
  \<^verbatim>\<open>MQTTSubscribeClient.c\<close>, \<^verbatim>\<open>MQTTSubscribeServer.c\<close>, \<^verbatim>\<open>MQTTUnsubscribeClient.c\<close> and
  \<^verbatim>\<open>MQTTUnsubscribeServer.c\<close>. The caller's arrays are lists whose length is their capacity, so
  a parser that fills more entries than the array has faults. SUBSCRIBE and UNSUBSCRIBE are
  interpretations of \<open>safe_serializer\<close>; SUBACK and UNSUBACK only of \<open>guarded_serializer\<close>.
\<close>

section \<open>Client side\<close>

text \<open>The \<open>for\<close> loops run over the index \<open>i\<close> with \<open>k\<close> iterations to go.\<close>

fun subscribeLength_loop :: "nat \<Rightarrow> nat \<Rightarrow> int \<Rightarrow> MQTTString list \<Rightarrow> int option" where
  "subscribeLength_loop 0 i len topicFilters = Some len"
| "subscribeLength_loop (Suc k) i len topicFilters =
     do { t \<leftarrow> arr_get topicFilters i;
          subscribeLength_loop k (i + 1) (len + (2 + MQTTstrlen t + 1)) topicFilters }"

definition MQTTSerialize_subscribeLength :: "int \<Rightarrow> MQTTString list \<Rightarrow> int option" where
  "MQTTSerialize_subscribeLength count topicFilters =
     subscribeLength_loop (nat count) 0 2 topicFilters"

fun subscribe_loop :: "nat \<Rightarrow> nat \<Rightarrow> MQTTString list \<Rightarrow> int list \<Rightarrow> cursor \<Rightarrow> cursor option" where
  "subscribe_loop 0 i topicFilters requestedQoSs cur = Some cur"
| "subscribe_loop (Suc k) i topicFilters requestedQoSs cur =
     do { t \<leftarrow> arr_get topicFilters i;
          cur \<leftarrow> writeMQTTString t cur;
          q \<leftarrow> arr_get requestedQoSs i;
          cur \<leftarrow> writeChar (of_int q) cur;
          subscribe_loop k (i + 1) topicFilters requestedQoSs cur }"

definition MQTTSerialize_subscribe ::
  "mem \<Rightarrow> int \<Rightarrow> byte \<Rightarrow> u16 \<Rightarrow> int \<Rightarrow> MQTTString list \<Rightarrow> int list \<Rightarrow> (int \<times> mem) option" where
  "MQTTSerialize_subscribe buf buflen dup packetid count topicFilters requestedQoSs =
     do { rem_len \<leftarrow> MQTTSerialize_subscribeLength count topicFilters;
          if MQTTPacket_len rem_len > buflen then Some (MQTTPACKET_BUFFER_TOO_SHORT, buf)
          else do {
            cur \<leftarrow> writeChar (header_byte (msg_code SUBSCRIBE) dup 1 0) (buf, 0);
            cur \<leftarrow> writeRemLen rem_len cur;
            cur \<leftarrow> writeInt (uint packetid) cur;
            (buf, ptr) \<leftarrow> subscribe_loop (nat count) 0 topicFilters requestedQoSs cur;
            Some (int ptr, buf)
          } }"

record suback_out =
  sa_packetid :: u16
  sa_count :: int
  sa_grantedQoSs :: "int list"

function suback_loop ::
  "mem \<Rightarrow> int \<Rightarrow> int \<Rightarrow> nat \<Rightarrow> suback_out \<Rightarrow> (int \<times> suback_out) option" where
  "suback_loop buf maxcount enddata curdata out =
     (if int curdata < enddata
      then if sa_count out > maxcount then Some (-1, out)
           else case readChar buf curdata of
               None \<Rightarrow> None
             | Some (c, curdata') \<Rightarrow>
                 (case arr_set (sa_grantedQoSs out) (nat (sa_count out)) (uint c) of
                    None \<Rightarrow> None
                  | Some g \<Rightarrow> suback_loop buf maxcount enddata curdata'
                      (out\<lparr>sa_grantedQoSs := g, sa_count := sa_count out + 1\<rparr>))
      else Some (1, out))"
  by pat_completeness auto
termination
  by (relation "measure (\<lambda>(buf, maxcount, enddata, curdata, out). nat (enddata - int curdata))")
    (auto simp: readChar_def split: Option.bind_splits)

definition MQTTDeserialize_suback ::
  "suback_out \<Rightarrow> int \<Rightarrow> mem \<Rightarrow> int \<Rightarrow> (int \<times> suback_out) option" where
  "MQTTDeserialize_suback out maxcount buf buflen =
     do { (h, curdata) \<leftarrow> readChar buf 0;
          if header_type h \<noteq> msg_code SUBACK then Some (0, out)
          else do {
            (rc, mylen) \<leftarrow> MQTTPacket_decodeBuf buf curdata;
            let curdata = curdata + rc;
            let enddata = int curdata + mylen;
            if enddata - int curdata < 2 then Some (int rc, out)
            else do {
              (i, curdata) \<leftarrow> readInt buf curdata;
              suback_loop buf maxcount enddata curdata (out\<lparr>sa_packetid := of_int i, sa_count := 0\<rparr>)
            }
          } }"

fun unsubscribeLength_loop :: "nat \<Rightarrow> nat \<Rightarrow> int \<Rightarrow> MQTTString list \<Rightarrow> int option" where
  "unsubscribeLength_loop 0 i len topicFilters = Some len"
| "unsubscribeLength_loop (Suc k) i len topicFilters =
     do { t \<leftarrow> arr_get topicFilters i;
          unsubscribeLength_loop k (i + 1) (len + (2 + MQTTstrlen t)) topicFilters }"

definition MQTTSerialize_unsubscribeLength :: "int \<Rightarrow> MQTTString list \<Rightarrow> int option" where
  "MQTTSerialize_unsubscribeLength count topicFilters =
     unsubscribeLength_loop (nat count) 0 2 topicFilters"

fun unsubscribe_loop :: "nat \<Rightarrow> nat \<Rightarrow> MQTTString list \<Rightarrow> cursor \<Rightarrow> cursor option" where
  "unsubscribe_loop 0 i topicFilters cur = Some cur"
| "unsubscribe_loop (Suc k) i topicFilters cur =
     do { t \<leftarrow> arr_get topicFilters i;
          cur \<leftarrow> writeMQTTString t cur;
          unsubscribe_loop k (i + 1) topicFilters cur }"

definition MQTTSerialize_unsubscribe ::
  "mem \<Rightarrow> int \<Rightarrow> byte \<Rightarrow> u16 \<Rightarrow> int \<Rightarrow> MQTTString list \<Rightarrow> (int \<times> mem) option" where
  "MQTTSerialize_unsubscribe buf buflen dup packetid count topicFilters =
     do { rem_len \<leftarrow> MQTTSerialize_unsubscribeLength count topicFilters;
          if MQTTPacket_len rem_len > buflen then Some (MQTTPACKET_BUFFER_TOO_SHORT, buf)
          else do {
            cur \<leftarrow> writeChar (header_byte (msg_code UNSUBSCRIBE) dup 1 0) (buf, 0);
            cur \<leftarrow> writeRemLen rem_len cur;
            cur \<leftarrow> writeInt (uint packetid) cur;
            (buf, ptr) \<leftarrow> unsubscribe_loop (nat count) 0 topicFilters cur;
            Some (int ptr, buf)
          } }"

definition MQTTDeserialize_unsuback :: "u16 \<Rightarrow> mem \<Rightarrow> int \<Rightarrow> (int \<times> u16) option" where
  "MQTTDeserialize_unsuback packetid buf buflen =
     do { (rc, out) \<leftarrow>
            MQTTDeserialize_ack \<lparr>ao_packettype = 0, ao_dup = 0, ao_packetid = packetid\<rparr> buf buflen;
          Some (if ao_packettype out = msg_code UNSUBACK then 1 else rc, ao_packetid out) }"

section \<open>Server side\<close>

record subscribe_out =
  so_dup :: byte
  so_packetid :: u16
  so_count :: nat
  so_topicFilters :: "MQTTString list"
  so_requestedQoSs :: "int list"

lemma readMQTTLenString_advances:
  "readMQTTLenString s buf p e = Some (b, t, p') \<Longrightarrow> p \<le> p'"
  by (auto simp: readMQTTLenString_def readInt_def split: Option.bind_splits if_splits)

text \<open>The result tells whether the loop ended by its condition or by \<open>goto exit\<close>.\<close>

function deserialize_subscribe_loop ::
  "mem \<Rightarrow> int \<Rightarrow> nat \<Rightarrow> subscribe_out \<Rightarrow> (bool \<times> subscribe_out) option" where
  "deserialize_subscribe_loop buf enddata curdata out =
     (if int curdata < enddata
      then case arr_get (so_topicFilters out) (so_count out) of
          None \<Rightarrow> None
        | Some s \<Rightarrow>
            (case readMQTTLenString s buf curdata enddata of
               None \<Rightarrow> None
             | Some (good, t, curdata') \<Rightarrow>
                 (let out1 = out\<lparr>so_topicFilters := (so_topicFilters out)[so_count out := t]\<rparr>
                  in if \<not> good then Some (False, out1)
                     else if int curdata' \<ge> enddata then Some (False, out1)
                     else case readChar buf curdata' of
                         None \<Rightarrow> None
                       | Some (c, curdata'') \<Rightarrow>
                           (case arr_set (so_requestedQoSs out1) (so_count out1) (uint c) of
                              None \<Rightarrow> None
                            | Some qs \<Rightarrow> deserialize_subscribe_loop buf enddata curdata''
                                (out1\<lparr>so_requestedQoSs := qs, so_count := so_count out1 + 1\<rparr>))))
      else Some (True, out))"
  by pat_completeness auto
termination
  by (relation "measure (\<lambda>(buf, enddata, curdata, out). nat (enddata - int curdata))")
    (auto simp: readChar_def split: Option.bind_splits dest!: readMQTTLenString_advances)

definition MQTTDeserialize_subscribe ::
  "subscribe_out \<Rightarrow> int \<Rightarrow> mem \<Rightarrow> int \<Rightarrow> (int \<times> subscribe_out) option" where
  "MQTTDeserialize_subscribe out maxcount buf buflen =
     do { (h, curdata) \<leftarrow> readChar buf 0;
          if header_type h \<noteq> msg_code SUBSCRIBE then Some (-1, out)
          else do {
            let out = out\<lparr>so_dup := header_dup h\<rparr>;
            (rc, mylen) \<leftarrow> MQTTPacket_decodeBuf buf curdata;
            let curdata = curdata + rc;
            let enddata = int curdata + mylen;
            (i, curdata) \<leftarrow> readInt buf curdata;
            let out = out\<lparr>so_packetid := of_int i, so_count := 0\<rparr>;
            (finished, out) \<leftarrow> deserialize_subscribe_loop buf enddata curdata out;
            Some (if finished then 1 else int rc, out)
          } }"

fun suback_write_loop :: "nat \<Rightarrow> nat \<Rightarrow> int list \<Rightarrow> cursor \<Rightarrow> cursor option" where
  "suback_write_loop 0 i grantedQoSs cur = Some cur"
| "suback_write_loop (Suc k) i grantedQoSs cur =
     do { q \<leftarrow> arr_get grantedQoSs i;
          cur \<leftarrow> writeChar (of_int q) cur;
          suback_write_loop k (i + 1) grantedQoSs cur }"

definition MQTTSerialize_suback :: "mem \<Rightarrow> int \<Rightarrow> u16 \<Rightarrow> int \<Rightarrow> int list \<Rightarrow> (int \<times> mem) option" where
  "MQTTSerialize_suback buf buflen packetid count grantedQoSs =
     (if buflen < 2 + count then Some (MQTTPACKET_BUFFER_TOO_SHORT, buf)
      else do {
        cur \<leftarrow> writeChar (header_byte (msg_code SUBACK) 0 0 0) (buf, 0);
        cur \<leftarrow> writeRemLen (2 + count) cur;
        cur \<leftarrow> writeInt (uint packetid) cur;
        (buf, ptr) \<leftarrow> suback_write_loop (nat count) 0 grantedQoSs cur;
        Some (int ptr, buf)
      })"

text \<open>
  \<open>MQTTDeserialize_unsubscribe\<close> as written: neither \<open>if\<close> has braces, so each guards only the
  trace macro and the \<open>return rc\<close> on the next line is unconditional. The first one returns
  before any output is set.
\<close>

definition MQTTDeserialize_unsubscribe ::
  "subscribe_out \<Rightarrow> int \<Rightarrow> mem \<Rightarrow> int \<Rightarrow> (int \<times> subscribe_out) option" where
  "MQTTDeserialize_unsubscribe out maxcount buf len =
     do { (h, curdata) \<leftarrow> readChar buf 0; Some (0, out) }"

definition MQTTSerialize_unsuback :: "mem \<Rightarrow> int \<Rightarrow> u16 \<Rightarrow> (int \<times> mem) option" where
  "MQTTSerialize_unsuback buf buflen packetid =
     (if buflen < 2 then Some (MQTTPACKET_BUFFER_TOO_SHORT, buf)
      else do {
        cur \<leftarrow> writeChar (header_byte (msg_code UNSUBACK) 0 0 0) (buf, 0);
        cur \<leftarrow> writeRemLen 2 cur;
        (buf, ptr) \<leftarrow> writeInt (uint packetid) cur;
        Some (int ptr, buf)
      })"

declare suback_loop.simps [simp del]
declare deserialize_subscribe_loop.simps [simp del]

section \<open>The loops as list functions\<close>

lemma subscribeLength_loop_sum:
  "i + k \<le> length ts \<Longrightarrow> subscribeLength_loop k i len ts =
     Some (len + (\<Sum>t\<leftarrow>take k (drop i ts). 3 + MQTTstrlen t))"
  by (induction k arbitrary: i len) (simp_all add: mem_simps take_drop_Suc)

lemma unsubscribeLength_loop_sum:
  "i + k \<le> length ts \<Longrightarrow> unsubscribeLength_loop k i len ts =
     Some (len + (\<Sum>t\<leftarrow>take k (drop i ts). 2 + MQTTstrlen t))"
  by (induction k arbitrary: i len) (simp_all add: mem_simps take_drop_Suc)

definition sub_entry :: "MQTTString \<times> int \<Rightarrow> byte list" where
  "sub_entry = (\<lambda>(t, q). str_bytes t @ [of_int q])"

text \<open>
  Writing the empty run is not quite \<open>Some cur\<close>: \<open>put []\<close> faults on a cursor outside the
  buffer. All cursors here lie inside, because a successful \<open>put\<close> leaves them there.
\<close>

lemma put_then_nil: "put xs c \<bind> Some = put xs c"
  by (cases "put xs c") simp_all

lemma subscribe_loop_put:
  assumes "i + k \<le> length ts" "i + k \<le> length qs" "\<forall>t \<in> set ts. str_ok t"
  shows "put xs c \<bind> subscribe_loop k i ts qs =
    put (xs @ concat (map sub_entry (zip (take k (drop i ts)) (take k (drop i qs))))) c"
  using assms(1,2)
proof (induction k arbitrary: i xs)
  case 0
  have "subscribe_loop 0 i ts qs = Some" by (rule ext) simp
  then show ?case by (simp add: put_then_nil)
next
  case (Suc k)
  then have ok: "str_ok (ts ! i)" using assms(3) by simp
  have "subscribe_loop (Suc k) i ts qs = (\<lambda>c. put (sub_entry (ts ! i, qs ! i)) c \<bind> subscribe_loop k (i + 1) ts qs)"
    using Suc.prems ok
    by (intro ext) (simp add: mem_simps writeMQTTString_put put_simps sub_entry_def)
  then show ?case
    using Suc.IH [of "i + 1" "xs @ sub_entry (ts ! i, qs ! i)"] Suc.prems
    by (simp add: put_simps take_drop_Suc)
qed

lemma unsubscribe_loop_put:
  assumes "i + k \<le> length ts" "\<forall>t \<in> set ts. str_ok t"
  shows "put xs c \<bind> unsubscribe_loop k i ts = put (xs @ concat (map str_bytes (take k (drop i ts)))) c"
  using assms(1)
proof (induction k arbitrary: i xs)
  case 0
  have "unsubscribe_loop 0 i ts = Some" by (rule ext) simp
  then show ?case by (simp add: put_then_nil)
next
  case (Suc k)
  then have ok: "str_ok (ts ! i)" using assms(2) by simp
  have "unsubscribe_loop (Suc k) i ts = (\<lambda>c. put (str_bytes (ts ! i)) c \<bind> unsubscribe_loop k (i + 1) ts)"
    using Suc.prems ok by (intro ext) (simp add: mem_simps writeMQTTString_put)
  then show ?case
    using Suc.IH [of "i + 1" "xs @ str_bytes (ts ! i)"] Suc.prems
    by (simp add: put_simps take_drop_Suc)
qed

lemma suback_write_loop_put:
  "i + k \<le> length gs \<Longrightarrow> put xs c \<bind> suback_write_loop k i gs =
     put (xs @ map of_int (take k (drop i gs))) c"
proof (induction k arbitrary: i xs)
  case 0
  have "suback_write_loop 0 i gs = Some" by (rule ext) simp
  then show ?case by (simp add: put_then_nil)
next
  case (Suc k)
  have "suback_write_loop (Suc k) i gs = (\<lambda>c. put [of_int (gs ! i)] c \<bind> suback_write_loop k (i + 1) gs)"
    using Suc.prems by (intro ext) (simp add: mem_simps put_simps)
  then show ?case
    using Suc.IH [of "i + 1" "xs @ [of_int (gs ! i)]"] Suc.prems
    by (simp add: put_simps take_drop_Suc)
qed

section \<open>The packets on the wire\<close>

type_synonym subscribe_args = "byte \<times> u16 \<times> int \<times> MQTTString list \<times> int list"

definition sub_items :: "int \<Rightarrow> MQTTString list \<Rightarrow> int list \<Rightarrow> (MQTTString \<times> int) list" where
  "sub_items count ts qs = zip (take (nat count) ts) (take (nat count) qs)"

definition sub_len :: "int \<Rightarrow> MQTTString list \<Rightarrow> int" where
  "sub_len count ts = 2 + (\<Sum>t\<leftarrow>take (nat count) ts. 3 + MQTTstrlen t)"

fun subscribe_ok :: "subscribe_args \<Rightarrow> bool" where
  "subscribe_ok (dup, packetid, count, ts, qs) \<longleftrightarrow> count \<le> int (length ts) \<and> count \<le> int (length qs) \<and>
     (\<forall>t \<in> set ts. str_ok t) \<and> sub_len count ts < 268435456"

fun subscribe_wire :: "subscribe_args \<Rightarrow> byte list" where
  "subscribe_wire (dup, packetid, count, ts, qs) =
     header_byte (msg_code SUBSCRIBE) dup 1 0 # enc_rem (nat (sub_len count ts)) @
     int_bytes (uint packetid) @ concat (map sub_entry (sub_items count ts qs))"

fun subscribe_need :: "subscribe_args \<Rightarrow> int" where
  "subscribe_need (dup, packetid, count, ts, qs) = MQTTPacket_len (sub_len count ts)"

fun subscribe_ser :: "subscribe_args \<Rightarrow> int \<Rightarrow> mem \<Rightarrow> (int \<times> mem) option" where
  "subscribe_ser (dup, packetid, count, ts, qs) buflen buf =
     MQTTSerialize_subscribe buf buflen dup packetid count ts qs"

lemma subscribeLength_eq:
  "count \<le> int (length ts) \<Longrightarrow> MQTTSerialize_subscribeLength count ts = Some (sub_len count ts)"
  using subscribeLength_loop_sum [of 0 "nat count" ts 2]
  by (simp add: MQTTSerialize_subscribeLength_def sub_len_def nat_le_iff)

lemma length_sub_entries:
  "length ts = length qs \<Longrightarrow> (\<forall>t \<in> set ts. str_ok t) \<Longrightarrow>
     int (length (concat (map sub_entry (zip ts qs)))) = (\<Sum>t\<leftarrow>ts. 3 + MQTTstrlen t)"
  by (induction ts qs rule: list_induct2) (simp_all add: sub_entry_def length_str_bytes)

lemma sub_len_body:
  assumes "subscribe_ok (d, p, count, ts, qs)"
  shows "sub_len count ts = 2 + int (length (concat (map sub_entry (sub_items count ts qs))))"
proof -
  have "length (take (nat count) ts) = length (take (nat count) qs)" using assms by auto
  moreover have "\<forall>t \<in> set (take (nat count) ts). str_ok t" using assms by (auto dest: in_set_takeD)
  ultimately show ?thesis by (simp only: sub_len_def sub_items_def length_sub_entries)
qed

interpretation sub: safe_serializer subscribe_ser subscribe_need subscribe_wire subscribe_ok
proof
  fix a :: subscribe_args and buflen :: int and buf :: mem
  obtain d p n ts qs where a: "a = (d, p, n, ts, qs)" by (cases a) auto
  assume ok: "subscribe_ok a"
  then have len: "MQTTSerialize_subscribeLength n ts = Some (sub_len n ts)"
    by (simp add: a subscribeLength_eq)
  have nonneg: "0 \<le> sub_len n ts" using sub_len_body [OF ok [unfolded a]] by simp
  show "buflen < subscribe_need a \<Longrightarrow> subscribe_ser a buflen buf = Some (-2, buf)"
    by (simp add: a MQTTSerialize_subscribe_def len MQTTPACKET_BUFFER_TOO_SHORT_def)
  show "subscribe_need a \<le> buflen \<Longrightarrow> subscribe_ser a buflen buf =
      do { (buf', m) \<leftarrow> put (subscribe_wire a) (buf, 0); Some (int m, buf') }"
    using ok nonneg subscribe_loop_put [of 0 "nat n" ts qs]
    by (simp add: a MQTTSerialize_subscribe_def len writeRemLen_put put_simps case_prod_unfold
        sub_items_def nat_le_iff flip: bind_assoc)
  show "int (length (subscribe_wire a)) \<le> subscribe_need a"
    using ok sub_len_body [OF ok [unfolded a]] nonneg packet_len_bounds(1) [of "sub_len n ts"]
    by (simp add: a)
qed

type_synonym unsubscribe_args = "byte \<times> u16 \<times> int \<times> MQTTString list"

definition unsub_len :: "int \<Rightarrow> MQTTString list \<Rightarrow> int" where
  "unsub_len count ts = 2 + (\<Sum>t\<leftarrow>take (nat count) ts. 2 + MQTTstrlen t)"

fun unsubscribe_ok :: "unsubscribe_args \<Rightarrow> bool" where
  "unsubscribe_ok (dup, packetid, count, ts) \<longleftrightarrow> count \<le> int (length ts) \<and>
     (\<forall>t \<in> set ts. str_ok t) \<and> unsub_len count ts < 268435456"

fun unsubscribe_wire :: "unsubscribe_args \<Rightarrow> byte list" where
  "unsubscribe_wire (dup, packetid, count, ts) =
     header_byte (msg_code UNSUBSCRIBE) dup 1 0 # enc_rem (nat (unsub_len count ts)) @
     int_bytes (uint packetid) @ concat (map str_bytes (take (nat count) ts))"

fun unsubscribe_need :: "unsubscribe_args \<Rightarrow> int" where
  "unsubscribe_need (dup, packetid, count, ts) = MQTTPacket_len (unsub_len count ts)"

fun unsubscribe_ser :: "unsubscribe_args \<Rightarrow> int \<Rightarrow> mem \<Rightarrow> (int \<times> mem) option" where
  "unsubscribe_ser (dup, packetid, count, ts) buflen buf =
     MQTTSerialize_unsubscribe buf buflen dup packetid count ts"

lemma length_unsub_entries:
  "(\<forall>t \<in> set ts. str_ok t) \<Longrightarrow>
     int (length (concat (map str_bytes ts))) = (\<Sum>t\<leftarrow>ts. 2 + MQTTstrlen t)"
  by (induction ts) (simp_all add: length_str_bytes)

lemma unsub_len_body:
  assumes "unsubscribe_ok (d, p, count, ts)"
  shows "unsub_len count ts = 2 + int (length (concat (map str_bytes (take (nat count) ts))))"
proof -
  have "\<forall>t \<in> set (take (nat count) ts). str_ok t" using assms by (auto dest: in_set_takeD)
  then show ?thesis by (simp only: unsub_len_def length_unsub_entries)
qed

interpretation unsub: safe_serializer unsubscribe_ser unsubscribe_need unsubscribe_wire unsubscribe_ok
proof
  fix a :: unsubscribe_args and buflen :: int and buf :: mem
  obtain d p n ts where a: "a = (d, p, n, ts)" by (cases a) auto
  assume ok: "unsubscribe_ok a"
  then have len: "MQTTSerialize_unsubscribeLength n ts = Some (unsub_len n ts)"
    using unsubscribeLength_loop_sum [of 0 "nat n" ts 2]
    by (simp add: a MQTTSerialize_unsubscribeLength_def unsub_len_def nat_le_iff)
  have nonneg: "0 \<le> unsub_len n ts" using unsub_len_body [OF ok [unfolded a]] by simp
  show "buflen < unsubscribe_need a \<Longrightarrow> unsubscribe_ser a buflen buf = Some (-2, buf)"
    by (simp add: a MQTTSerialize_unsubscribe_def len MQTTPACKET_BUFFER_TOO_SHORT_def)
  show "unsubscribe_need a \<le> buflen \<Longrightarrow> unsubscribe_ser a buflen buf =
      do { (buf', m) \<leftarrow> put (unsubscribe_wire a) (buf, 0); Some (int m, buf') }"
    using ok nonneg unsubscribe_loop_put [of 0 "nat n" ts]
    by (simp add: a MQTTSerialize_unsubscribe_def len writeRemLen_put put_simps case_prod_unfold
        nat_le_iff flip: bind_assoc)
  show "int (length (unsubscribe_wire a)) \<le> unsubscribe_need a"
    using ok unsub_len_body [OF ok [unfolded a]] nonneg packet_len_bounds(1) [of "unsub_len n ts"]
    by (simp add: a)
qed

type_synonym suback_args = "u16 \<times> int \<times> int list"

fun suback_ok :: "suback_args \<Rightarrow> bool" where
  "suback_ok (packetid, count, gs) \<longleftrightarrow> 0 \<le> count \<and> count \<le> int (length gs) \<and> count < 268435454"

fun suback_wire :: "suback_args \<Rightarrow> byte list" where
  "suback_wire (packetid, count, gs) =
     header_byte (msg_code SUBACK) 0 0 0 # enc_rem (nat (2 + count)) @ int_bytes (uint packetid) @
     map of_int (take (nat count) gs)"

fun suback_ser :: "suback_args \<Rightarrow> int \<Rightarrow> mem \<Rightarrow> (int \<times> mem) option" where
  "suback_ser (packetid, count, gs) buflen buf = MQTTSerialize_suback buf buflen packetid count gs"

interpretation suback: guarded_serializer suback_ser "\<lambda>(_, count, _). 2 + count" suback_wire suback_ok
proof
  fix a :: suback_args and buflen :: int and buf :: mem
  obtain p n gs where a: "a = (p, n, gs)" by (cases a) auto
  assume ok: "suback_ok a"
  show "buflen < (case a of (_, count, _) \<Rightarrow> 2 + count) \<Longrightarrow> suback_ser a buflen buf = Some (-2, buf)"
    by (simp add: a MQTTSerialize_suback_def MQTTPACKET_BUFFER_TOO_SHORT_def)
  show "(case a of (_, count, _) \<Rightarrow> 2 + count) \<le> buflen \<Longrightarrow> suback_ser a buflen buf =
      do { (buf', m) \<leftarrow> put (suback_wire a) (buf, 0); Some (int m, buf') }"
    using ok suback_write_loop_put [of 0 "nat n" gs]
    by (simp add: a MQTTSerialize_suback_def writeRemLen_put put_simps case_prod_unfold
        nat_le_iff flip: bind_assoc)
qed

abbreviation unsuback_wire :: "u16 \<Rightarrow> byte list" where
  "unsuback_wire packetid \<equiv> header_byte (msg_code UNSUBACK) 0 0 0 # 2 # int_bytes (uint packetid)"

interpretation unsuback: guarded_serializer
  "\<lambda>packetid buflen buf. MQTTSerialize_unsuback buf buflen packetid" "\<lambda>_. 2" unsuback_wire "\<lambda>_. True"
  by unfold_locales
    (simp_all add: MQTTSerialize_unsuback_def MQTTPACKET_BUFFER_TOO_SHORT_def writeRemLen_put put_simps
      enc_rem_small case_prod_unfold)

section \<open>Reading a packet back\<close>

lemma subscribe_loop_back:
  assumes "B = xs @ concat (map sub_entry items) @ ys" "length xs = p"
    and "E = int p + int (length (concat (map sub_entry items)))"
    and "\<forall>(t, q) \<in> set items. length (content t) < 65536"
    and "so_count out + length items \<le> length (so_topicFilters out)"
    and "so_count out + length items \<le> length (so_requestedQoSs out)"
  shows "\<exists>out'. deserialize_subscribe_loop B E p out = Some (True, out') \<and>
     so_count out' = so_count out + length items \<and>
     map content (take (so_count out') (so_topicFilters out')) =
       map content (take (so_count out) (so_topicFilters out)) @ map (content \<circ> fst) items \<and>
     take (so_count out') (so_requestedQoSs out') =
       take (so_count out) (so_requestedQoSs out) @ map (\<lambda>(t, q). uint (of_int q :: byte)) items \<and>
     so_dup out' = so_dup out \<and> so_packetid out' = so_packetid out"
  using assms
proof (induction items arbitrary: xs p out)
  case Nil
  then show ?case by (simp add: deserialize_subscribe_loop.simps [of _ _ p out])
next
  case (Cons it items)
  obtain t q where it: "it = (t, q)" by (cases it)
  define r where "r = p + length (str_bytes t)"
  define n where "n = so_count out"
  define c where "c = (of_int q :: byte)"
  have lens: "n < length (so_topicFilters out)" "n < length (so_requestedQoSs out)"
    using Cons.prems(5,6) by (simp_all add: n_def)
  have B: "B = xs @ str_bytes t @ c # concat (map sub_entry items) @ ys"
    using Cons.prems(1) by (simp add: it sub_entry_def c_def)
  have E: "int p < E" "int r < E" "E = int (Suc r) + int (length (concat (map sub_entry items)))"
    using Cons.prems(3) by (simp_all add: it sub_entry_def r_def)
  obtain t' where t': "readMQTTLenString (so_topicFilters out ! n) B p E = Some (True, t', r)"
      "content t' = content t"
    using readMQTTLenString_str [OF Cons.prems(2), of t E "so_topicFilters out ! n"
        "c # concat (map sub_entry items) @ ys"] Cons.prems(4) E(2)
    by (auto simp: B r_def it)
  have ch: "readChar B r = Some (c, Suc r)"
    using readChar_at [of "xs @ str_bytes t" r c "concat (map sub_entry items) @ ys"] Cons.prems(2)
    by (simp add: B r_def)
  define out1 where "out1 = out\<lparr>so_topicFilters := (so_topicFilters out)[n := t'],
      so_requestedQoSs := (so_requestedQoSs out)[n := uint c], so_count := n + 1\<rparr>"
  have step: "deserialize_subscribe_loop B E p out = deserialize_subscribe_loop B E (Suc r) out1"
    using E(1,2) t'(1) ch lens
    by (simp add: deserialize_subscribe_loop.simps [of B E p out] out1_def n_def [symmetric] mem_simps)
  have "\<exists>out'. deserialize_subscribe_loop B E (Suc r) out1 = Some (True, out') \<and>
     so_count out' = so_count out1 + length items \<and>
     map content (take (so_count out') (so_topicFilters out')) =
       map content (take (so_count out1) (so_topicFilters out1)) @ map (content \<circ> fst) items \<and>
     take (so_count out') (so_requestedQoSs out') =
       take (so_count out1) (so_requestedQoSs out1) @ map (\<lambda>(t, q). uint (of_int q :: byte)) items \<and>
     so_dup out' = so_dup out1 \<and> so_packetid out' = so_packetid out1"
    using Cons.prems E(3)
    by (intro Cons.IH [of "xs @ str_bytes t @ [c]"]) (simp_all add: B r_def out1_def n_def)
  then show ?case
    using lens t'(2) unfolding step
    by (auto simp: out1_def n_def it c_def take_Suc_update)
qed

lemma subscribe_readback:
  assumes "subscribe_ok (dup, packetid, count, ts, qs)" "dup < 2" "0 \<le> count"
    and "\<forall>t \<in> set ts. length (content t) < 65536"
    and "nat count \<le> length (so_topicFilters out)" "nat count \<le> length (so_requestedQoSs out)"
  shows "\<exists>out'. MQTTDeserialize_subscribe out maxcount
        (subscribe_wire (dup, packetid, count, ts, qs) @ rest) buflen = Some (1, out') \<and>
     so_dup out' = dup \<and> so_packetid out' = packetid \<and> so_count out' = nat count \<and>
     map content (take (nat count) (so_topicFilters out')) = map content (take (nat count) ts) \<and>
     take (nat count) (so_requestedQoSs out') = map (\<lambda>q. uint (of_int q :: byte)) (take (nat count) qs)"
proof -
  define items where "items = sub_items count ts qs"
  define bd where "bd = concat (map sub_entry items)"
  define h where "h = header_byte (msg_code SUBSCRIBE) dup 1 0"
  define L where "L = nat (sub_len count ts)"
  define e where "e = enc_rem L"
  define B where "B = h # e @ int_bytes (uint packetid) @ bd @ rest"
  define p where "p = length e + 3"
  have lens: "length (take (nat count) ts) = nat count" "length (take (nat count) qs) = nat count"
    using assms(1) by auto
  have sl: "sub_len count ts = 2 + int (length bd)"
    using sub_len_body [OF assms(1)] by (simp add: items_def bd_def)
  then have L: "int L = 2 + int (length bd)" "L < 268435456"
    using assms(1) by (auto simp: L_def nat_less_iff)
  have it: "length items = nat count" "map (content \<circ> fst) items = map content (take (nat count) ts)"
      "map (\<lambda>(t, q). uint (of_int q :: byte)) items = map (\<lambda>q. uint (of_int q :: byte)) (take (nat count) qs)"
      "\<forall>(t, q) \<in> set items. length (content t) < 65536"
    using lens assms(4) map_zip_left [of "take (nat count) ts" "take (nat count) qs" content]
      map_zip_right [of "take (nat count) ts" "take (nat count) qs" "\<lambda>q. uint (of_int q :: byte)"]
    by (auto simp: items_def sub_items_def dest!: set_zip_leftD in_set_takeD)
  have hd: "readChar B 0 = Some (h, 1)" "MQTTPacket_decodeBuf B 1 = Some (length e, int L)"
    using read_header [OF L(2), of h] unfolding B_def e_def by simp_all
  have pid: "readInt B (Suc (length e)) = Some (uint packetid, p)"
    using readInt_at [of "h # e" "Suc (length e)" "uint packetid" "bd @ rest"] uint_lt2p [of packetid]
    by (simp add: B_def p_def)
  have ed: "1 + int (length e) + int L = int p + int (length bd)" by (simp add: L(1) p_def)
  define out1 where "out1 = out\<lparr>so_dup := dup, so_packetid := packetid, so_count := 0\<rparr>"
  obtain out' where lp: "deserialize_subscribe_loop B (int p + int (length bd)) p out1 = Some (True, out')"
      "so_count out' = nat count" "so_dup out' = dup" "so_packetid out' = packetid"
      "map content (take (so_count out') (so_topicFilters out')) = map (content \<circ> fst) items"
      "take (so_count out') (so_requestedQoSs out') = map (\<lambda>(t, q). uint (of_int q :: byte)) items"
    using subscribe_loop_back [of B "h # e @ int_bytes (uint packetid)" items rest p
        "int p + int (length bd)" out1] it(1,4) assms(5,6)
    by (auto simp: B_def p_def bd_def out1_def)
  have "header_dup h = dup" "header_type h = msg_code SUBSCRIBE" using assms(2) by (simp_all add: h_def)
  then have "MQTTDeserialize_subscribe out maxcount B buflen = Some (1, out')"
    using hd pid ed lp(1) by (simp add: MQTTDeserialize_subscribe_def out1_def)
  moreover have "subscribe_wire (dup, packetid, count, ts, qs) @ rest = B"
    by (simp add: B_def h_def e_def L_def bd_def items_def)
  ultimately show ?thesis using lp it by auto
qed

lemma suback_loop_back:
  assumes "B = xs @ gs @ ys" "length xs = p" "E = int p + int (length gs)"
    and "sa_count out = int n" "int n + int (length gs) \<le> maxcount + 1"
    and "n + length gs \<le> length (sa_grantedQoSs out)"
  shows "\<exists>out'. suback_loop B maxcount E p out = Some (1, out') \<and>
     sa_count out' = int (n + length gs) \<and> sa_packetid out' = sa_packetid out \<and>
     take (n + length gs) (sa_grantedQoSs out') = take n (sa_grantedQoSs out) @ map uint gs"
  using assms
proof (induction gs arbitrary: xs p out n)
  case Nil
  then show ?case by (simp add: suback_loop.simps [of _ _ _ p])
next
  case (Cons g gs)
  define out1 where "out1 = out\<lparr>sa_grantedQoSs := (sa_grantedQoSs out)[n := uint g], sa_count := int n + 1\<rparr>"
  have n: "n < length (sa_grantedQoSs out)" using Cons.prems(6) by simp
  have "readChar B p = Some (g, Suc p)"
    using readChar_at [OF Cons.prems(2), of g "gs @ ys"] Cons.prems(1) by simp
  then have step: "suback_loop B maxcount E p out = suback_loop B maxcount E (Suc p) out1"
    using Cons.prems(3-5) n by (simp add: suback_loop.simps [of B _ _ p] out1_def mem_simps)
  have "\<exists>out'. suback_loop B maxcount E (Suc p) out1 = Some (1, out') \<and>
     sa_count out' = int (Suc n + length gs) \<and> sa_packetid out' = sa_packetid out1 \<and>
     take (Suc n + length gs) (sa_grantedQoSs out') = take (Suc n) (sa_grantedQoSs out1) @ map uint gs"
    using Cons.prems by (intro Cons.IH [of "xs @ [g]"]) (simp_all add: out1_def)
  then show ?case using n unfolding step by (auto simp: out1_def take_Suc_update)
qed

lemma suback_overrun:
  assumes "B = xs @ gs @ g # ys" "length xs = p" "E = int p + int (length gs) + 1"
    and "sa_count out = int n" "n + length gs = length (sa_grantedQoSs out)"
    and "int (n + length gs) \<le> maxcount"
  shows "suback_loop B maxcount E p out = None"
  using assms
proof (induction gs arbitrary: xs p out n)
  case Nil
  then have "readChar B p = Some (g, Suc p)" by (simp add: mem_simps)
  with Nil show ?case by (simp add: suback_loop.simps [of _ _ _ p] arr_set_def)
next
  case (Cons a gs)
  define out1 where "out1 = out\<lparr>sa_grantedQoSs := (sa_grantedQoSs out)[n := uint a], sa_count := int n + 1\<rparr>"
  from Cons.prems have "readChar B p = Some (a, Suc p)" by (simp add: mem_simps)
  then have "suback_loop B maxcount E p out = suback_loop B maxcount E (Suc p) out1"
    using Cons.prems(3-6) by (simp add: suback_loop.simps [of B _ _ p] out1_def mem_simps)
  moreover have "suback_loop B maxcount E (Suc p) out1 = None"
    using Cons.prems by (intro Cons.IH [of "xs @ [a]" _ _ "Suc n"]) (simp_all add: out1_def)
  ultimately show ?case by simp
qed

text \<open>The header, length and identifier of a SUBACK, up to the loop over the return codes.\<close>

definition suback_packet :: "u16 \<Rightarrow> byte list \<Rightarrow> byte list" where
  "suback_packet packetid gs = header_byte (msg_code SUBACK) 0 0 0 # enc_rem (2 + length gs) @
     int_bytes (uint packetid) @ gs"

lemma suback_header:
  assumes "length gs < 268435454"
  obtains xs where "suback_packet packetid gs = xs @ gs"
    "\<And>out maxcount rest buflen. MQTTDeserialize_suback out maxcount (suback_packet packetid gs @ rest) buflen =
      suback_loop (xs @ gs @ rest) maxcount (int (length xs) + int (length gs)) (length xs)
        (out\<lparr>sa_packetid := packetid, sa_count := 0\<rparr>)"
proof
  define e where "e = enc_rem (2 + length gs)"
  define h where "h = header_byte (msg_code SUBACK) 0 0 0"
  define xs where "xs = h # e @ int_bytes (uint packetid)"
  show pk: "suback_packet packetid gs = xs @ gs"
    by (simp add: suback_packet_def xs_def h_def e_def)
  fix out maxcount rest buflen
  define B where "B = xs @ gs @ rest"
  have hd: "readChar B 0 = Some (h, 1)" "MQTTPacket_decodeBuf B 1 = Some (length e, int (2 + length gs))"
    using read_header [of "2 + length gs" h] assms unfolding B_def e_def xs_def by simp_all
  have pid: "readInt B (Suc (length e)) = Some (uint packetid, length xs)"
    using readInt_at [of "h # e" "Suc (length e)" "uint packetid" "gs @ rest"] uint_lt2p [of packetid]
    by (simp add: B_def xs_def)
  have ed: "1 + int (length e) + int (2 + length gs) = int (length xs) + int (length gs)"
    by (simp add: xs_def)
  have "MQTTDeserialize_suback out maxcount B buflen = suback_loop B maxcount
      (int (length xs) + int (length gs)) (length xs) (out\<lparr>sa_packetid := packetid, sa_count := 0\<rparr>)"
    using hd pid unfolding MQTTDeserialize_suback_def ed [symmetric] by (simp add: h_def)
  then show "MQTTDeserialize_suback out maxcount (suback_packet packetid gs @ rest) buflen =
      suback_loop (xs @ gs @ rest) maxcount (int (length xs) + int (length gs)) (length xs)
        (out\<lparr>sa_packetid := packetid, sa_count := 0\<rparr>)"
    by (simp add: B_def pk)
qed

section \<open>Properties\<close>

text \<open>
  A SUBSCRIBE that was serialized without error is read back by the server side with its
  flag, identifier, number of topics, topic filters and requested QoS, provided the caller's
  arrays can hold that many.
\<close>

theorem subscribe_roundtrip:
  assumes "subscribe_ok (dup, packetid, count, topics, qoss)" "dup < 2" "0 \<le> count"
    and "\<forall>t \<in> set topics. length (content t) < 65536"
    and "MQTTSerialize_subscribe buf buflen dup packetid count topics qoss = Some (rc, buf')" "0 < rc"
    and "nat count \<le> length (so_topicFilters out)" "nat count \<le> length (so_requestedQoSs out)"
  shows "\<exists>out'. MQTTDeserialize_subscribe out maxcount buf' rc = Some (1, out') \<and>
     so_dup out' = dup \<and> so_packetid out' = packetid \<and> so_count out' = nat count \<and>
     map content (take (nat count) (so_topicFilters out')) = map content (take (nat count) topics) \<and>
     take (nat count) (so_requestedQoSs out') = map (\<lambda>q. uint (of_int q :: byte)) (take (nat count) qoss)"
proof -
  let ?a = "(dup, packetid, count, topics, qoss)"
  have "buf' = subscribe_wire ?a @ drop (length (subscribe_wire ?a)) buf"
    using sub.result_cases [OF assms(1), of buflen buf rc buf'] assms(5,6)
    by (auto simp del: subscribe_wire.simps)
  then show ?thesis
    using subscribe_readback [OF assms(1-4,7,8), of maxcount "drop (length (subscribe_wire ?a)) buf" rc]
    by (simp del: subscribe_wire.simps)
qed

lemma sample_subscribe:
  "MQTTSerialize_subscribe (replicate 10 0) 10 0 7 1 [sample_topic] [2] =
     Some (10, [0x82, 8, 0, 7, 0, 3, 97, 47, 98, 2])"
  using sub.written [of "(0, 7, 1, [sample_topic], [2])" 10 "replicate 10 0"]
  by (simp add: sample_topic_def MQTTString_initializer_def str_ok_def sub_len_def sub_items_def
      sub_entry_def MQTTstrlen_def MQTTPacket_len_def header_byte_def str_bytes_def content_def
      int_bytes_def enc_rem_small)

theorem subscribe_roundtrip_witness:
  "\<exists>out'. MQTTDeserialize_subscribe \<lparr>so_dup = 1, so_packetid = 0, so_count = 9,
        so_topicFilters = [MQTTString_initializer, MQTTString_initializer], so_requestedQoSs = [8, 8]\<rparr> 2
      [0x82, 8, 0, 7, 0, 3, 97, 47, 98, 2] 10 = Some (1, out') \<and>
     so_dup out' = 0 \<and> so_packetid out' = 7 \<and> so_count out' = nat 1 \<and>
     map content (take (nat 1) (so_topicFilters out')) = map content (take (nat 1) [sample_topic]) \<and>
     take (nat 1) (so_requestedQoSs out') = map (\<lambda>q. uint (of_int q :: byte)) (take (nat 1) [2])"
  by (rule subscribe_roundtrip [OF _ _ _ _ sample_subscribe])
    (simp_all add: sample_topic_def MQTTString_initializer_def str_ok_def sub_len_def content_def
      MQTTstrlen_def)

text \<open>
  A SUBACK with up to \<open>maxcount\<close> return codes is read back completely into an array of
  \<open>maxcount\<close> entries, but one with \<open>maxcount + 1\<close> codes is not refused: the guard compares with
  \<open>>\<close> instead of \<open>\<ge>\<close> and the last code is stored past the end of the array.
\<close>

theorem suback_capacity:
  assumes "length gs < 268435454" "length (sa_grantedQoSs out) = cap" "length gs \<le> cap + 1"
  shows "if length gs \<le> cap
    then \<exists>out'. MQTTDeserialize_suback out (int cap) (suback_packet packetid gs @ rest) buflen = Some (1, out') \<and>
         sa_packetid out' = packetid \<and> sa_count out' = int (length gs) \<and>
         take (length gs) (sa_grantedQoSs out') = map uint gs
    else MQTTDeserialize_suback out (int cap) (suback_packet packetid gs @ rest) buflen = None"
proof -
  obtain xs where xs: "\<And>out maxcount rest buflen.
      MQTTDeserialize_suback out maxcount (suback_packet packetid gs @ rest) buflen =
      suback_loop (xs @ gs @ rest) maxcount (int (length xs) + int (length gs)) (length xs)
        (out\<lparr>sa_packetid := packetid, sa_count := 0\<rparr>)"
    using suback_header [OF assms(1)] by metis
  show ?thesis
  proof (cases "length gs \<le> cap")
    case True
    then show ?thesis
      using suback_loop_back [OF refl refl refl, of "out\<lparr>sa_packetid := packetid, sa_count := 0\<rparr>" 0
          gs "int cap" xs rest] assms(2) by (auto simp: xs)
  next
    case False
    with assms(3) obtain gs' g where gs: "gs = gs' @ [g]" "length gs' = cap"
      by (cases gs rule: rev_cases) auto
    have "suback_loop (xs @ gs @ rest) (int cap) (int (length xs) + int (length gs)) (length xs)
        (out\<lparr>sa_packetid := packetid, sa_count := 0\<rparr>) = None"
      using gs assms(2) by (intro suback_overrun [of _ xs gs' g rest _ _ _ 0]) simp_all
    with False show ?thesis by (simp add: xs)
  qed
qed

theorem suback_capacity_witness:
  "MQTTDeserialize_suback \<lparr>sa_packetid = 0, sa_count = 0, sa_grantedQoSs = [7]\<rparr> (int 1)
     (suback_packet 9 [0, 1] @ []) 6 = None"
  using suback_capacity [of "[0, 1]" "\<lparr>sa_packetid = 0, sa_count = 0, sa_grantedQoSs = [7]\<rparr>" 1 9 "[]" 6]
  by simp

text \<open>
  The server side of UNSUBSCRIBE never works: whatever was serialized, the parser returns 0,
  its failure code, and leaves every output as the caller had it.
\<close>

theorem unsubscribe_never_parsed:
  assumes "unsubscribe_ok (dup, packetid, count, topics)"
    and "MQTTSerialize_unsubscribe buf buflen dup packetid count topics = Some (rc, buf')" "0 < rc"
  shows "MQTTDeserialize_unsubscribe out maxcount buf' rc = Some (0, out)"
proof -
  have "buf' \<noteq> []"
    using unsub.result_cases [OF assms(1), of buflen buf rc buf'] assms(2,3) by auto
  then show ?thesis
    by (cases buf') (simp_all add: MQTTDeserialize_unsubscribe_def readChar_def load8_def)
qed

lemma sample_unsubscribe:
  "MQTTSerialize_unsubscribe (replicate 9 0) 9 0 7 1 [sample_topic] =
     Some (9, [0xA2, 7, 0, 7, 0, 3, 97, 47, 98])"
  using unsub.written [of "(0, 7, 1, [sample_topic])" 9 "replicate 9 0"]
  by (simp add: sample_topic_def MQTTString_initializer_def str_ok_def unsub_len_def
      MQTTstrlen_def MQTTPacket_len_def header_byte_def str_bytes_def content_def
      int_bytes_def enc_rem_small)

theorem unsubscribe_never_parsed_witness:
  "MQTTDeserialize_unsubscribe \<lparr>so_dup = 1, so_packetid = 0, so_count = 9,
        so_topicFilters = [MQTTString_initializer], so_requestedQoSs = []\<rparr> 1
      [0xA2, 7, 0, 7, 0, 3, 97, 47, 98] 9 =
    Some (0, \<lparr>so_dup = 1, so_packetid = 0, so_count = 9,
        so_topicFilters = [MQTTString_initializer], so_requestedQoSs = []\<rparr>)"
  by (rule unsubscribe_never_parsed [OF _ sample_unsubscribe])
    (simp_all add: sample_topic_def MQTTString_initializer_def str_ok_def unsub_len_def MQTTstrlen_def)

text \<open>
  The SUBACK and UNSUBACK serializers ask for less room than they use: told the true length
  of the buffer, UNSUBACK overruns it exactly when it has two or three bytes, and SUBACK (with at
  most 125 codes) exactly when it has two or three bytes more than there are codes.
\<close>

theorem suback_unsuback_overflow_iff:
  assumes "0 \<le> count" "count \<le> int (length gs)" "count < 126"
  shows "(MQTTSerialize_unsuback buf (int (length buf)) packetid = None \<longleftrightarrow>
       length buf = 2 \<or> length buf = 3) \<and>
     (MQTTSerialize_suback buf (int (length buf)) packetid count gs = None \<longleftrightarrow>
       int (length buf) = count + 2 \<or> int (length buf) = count + 3)"
proof
  show "MQTTSerialize_unsuback buf (int (length buf)) packetid = None \<longleftrightarrow> length buf = 2 \<or> length buf = 3"
    using unsuback.fault_iff [of buf "int (length buf)" packetid] by auto
  have "int (length (suback_wire (packetid, count, gs))) = count + 4"
    using assms by (simp add: enc_rem_small nat_less_iff min_absorb2 nat_le_iff)
  then show "MQTTSerialize_suback buf (int (length buf)) packetid count gs = None \<longleftrightarrow>
       int (length buf) = count + 2 \<or> int (length buf) = count + 3"
    using suback.fault_iff [of "(packetid, count, gs)" "int (length buf)" buf] assms
    by (auto simp del: suback_wire.simps)
qed

theorem suback_unsuback_overflow_iff_witness:
  "(MQTTSerialize_unsuback [0, 0, 0] (int (length [0 :: byte, 0, 0])) 5 = None \<longleftrightarrow>
       length [0 :: byte, 0, 0] = 2 \<or> length [0 :: byte, 0, 0] = 3) \<and>
     (MQTTSerialize_suback [0, 0, 0] (int (length [0 :: byte, 0, 0])) 5 1 [2] = None \<longleftrightarrow>
       int (length [0 :: byte, 0, 0]) = 1 + 2 \<or> int (length [0 :: byte, 0, 0]) = 1 + 3)"
  by (rule suback_unsuback_overflow_iff) simp_all

end
