(* ===== verification/Mqtt_Platform.thy ===== *)
theory Mqtt_Platform
  imports Mqtt_Packet
begin

unbundle bit_operations_syntax

text \<open>
  \<^verbatim>\<open>mqttclient_c/src/linux/MQTTLinux.c\<close>: timers on \<open>gettimeofday\<close> and the socket layer below the
  MQTT client.

  The operating system is a parameter: an \<open>environment\<close> gives the outcome of the \<open>k\<close>-th call of
  \<open>gettimeofday\<close>, \<open>recv\<close> and \<open>write\<close>, and the state \<open>world\<close> counts the calls and records what
  happened (bytes received, bytes accepted for sending, socket options, open sockets). What is
  relied on is stated as \<open>recv_ok\<close> (no more bytes than asked for), \<open>write_ok\<close>, \<open>clock_mono\<close> and
  \<open>clock_runs\<close> (time passes every instant). A loop that may not return is a
  \<open>partial_function\<close>, so that \<open>None\<close> is a fault or no return, and returning is a theorem.
\<close>

section \<open>Timers\<close>

record timeval =
  tv_sec :: int
  tv_usec :: int

record Timer =
  end_time :: timeval

text \<open>The macros \<open>timeradd\<close> and \<open>timersub\<close> of \<^verbatim>\<open>sys/time.h\<close>.\<close>

definition timeradd :: "timeval \<Rightarrow> timeval \<Rightarrow> timeval" where
  "timeradd a b =
     (let s = tv_sec a + tv_sec b; u = tv_usec a + tv_usec b
      in if u \<ge> 1000000 then \<lparr>tv_sec = s + 1, tv_usec = u - 1000000\<rparr> else \<lparr>tv_sec = s, tv_usec = u\<rparr>)"

definition timersub :: "timeval \<Rightarrow> timeval \<Rightarrow> timeval" where
  "timersub a b =
     (let s = tv_sec a - tv_sec b; u = tv_usec a - tv_usec b
      in if u < 0 then \<lparr>tv_sec = s - 1, tv_usec = u + 1000000\<rparr> else \<lparr>tv_sec = s, tv_usec = u\<rparr>)"

datatype io_err = E_AGAIN | E_PIPE | E_OTHER

datatype sockopt = SO_RCVBUF int | SO_RCVTIMEO timeval | SO_SNDBUF int | SO_SNDTIMEO "timeval option"

record addrinfo =
  ai_family :: int
  ai_addr :: u32

record environment =
  os_gettimeofday :: "nat \<Rightarrow> timeval"
  os_recv :: "nat \<Rightarrow> nat \<Rightarrow> io_err + byte list"
  os_write :: "nat \<Rightarrow> byte list \<Rightarrow> io_err + nat"
  os_getaddrinfo :: "byte list \<Rightarrow> int \<times> addrinfo list"
  os_socket :: int
  os_connect :: "u32 \<Rightarrow> int \<Rightarrow> int \<times> bool"
  os_select :: int

record world =
  w_clock :: nat
  w_recvs :: nat
  w_writes :: nat
  w_received :: "byte list"
  w_sent :: "byte list"
  w_sockopts :: "sockopt list"
  w_open :: "int list"
  w_addrs_freed :: nat

definition get_now :: "environment \<Rightarrow> world \<Rightarrow> timeval \<times> world" where
  "get_now env w = (os_gettimeofday env (w_clock w), w\<lparr>w_clock := w_clock w + 1\<rparr>)"

definition TimerInit :: "Timer \<Rightarrow> Timer" where
  "TimerInit timer = timer\<lparr>end_time := \<lparr>tv_sec = 0, tv_usec = 0\<rparr>\<rparr>"

definition TimerIsExpired :: "environment \<Rightarrow> Timer \<Rightarrow> world \<Rightarrow> bool \<times> world" where
  "TimerIsExpired env timer w =
     (let (now, w) = get_now env w; res = timersub (end_time timer) now
      in (tv_sec res < 0 \<or> (tv_sec res = 0 \<and> tv_usec res \<le> 0), w))"

definition TimerCountdownMS :: "environment \<Rightarrow> Timer \<Rightarrow> u32 \<Rightarrow> world \<Rightarrow> Timer \<times> world" where
  "TimerCountdownMS env timer timeout w =
     (let (now, w) = get_now env w;
          interval = \<lparr>tv_sec = uint (timeout div 1000), tv_usec = uint (timeout mod 1000 * 1000)\<rparr>
      in (timer\<lparr>end_time := timeradd now interval\<rparr>, w))"

definition TimerAddSecond :: "Timer \<Rightarrow> u32 \<Rightarrow> Timer" where
  "TimerAddSecond timer time =
     timer\<lparr>end_time := timeradd (end_time timer) \<lparr>tv_sec = uint time, tv_usec = 0\<rparr>\<rparr>"

definition TimerCountdown :: "environment \<Rightarrow> Timer \<Rightarrow> u32 \<Rightarrow> world \<Rightarrow> Timer \<times> world" where
  "TimerCountdown env timer timeout w =
     (let (now, w) = get_now env w
      in (timer\<lparr>end_time := timeradd now \<lparr>tv_sec = uint timeout, tv_usec = 0\<rparr>\<rparr>, w))"

text \<open>The result is computed in \<open>time_t\<close> (64 bits) and converted to \<open>int\<close>.\<close>

definition TimerLeftMS :: "environment \<Rightarrow> Timer \<Rightarrow> world \<Rightarrow> int \<times> world" where
  "TimerLeftMS env timer w =
     (let (now, w) = get_now env w; res = timersub (end_time timer) now
      in (if tv_sec res < 0 then 0
          else signed_take_bit 31 (tv_sec res * 1000 + tv_usec res sdiv 1000), w))"

section \<open>The socket layer\<close>

definition setsockopt :: "sockopt \<Rightarrow> world \<Rightarrow> world" where
  "setsockopt opt w = w\<lparr>w_sockopts := w_sockopts w @ [opt]\<rparr>"

definition do_recv :: "environment \<Rightarrow> nat \<Rightarrow> world \<Rightarrow> (io_err + byte list) \<times> world" where
  "do_recv env n w =
     (let r = os_recv env (w_recvs w) n
      in (r, w\<lparr>w_recvs := w_recvs w + 1,
              w_received := w_received w @ (case r of Inr bs \<Rightarrow> bs | Inl _ \<Rightarrow> [])\<rparr>))"

definition do_write :: "environment \<Rightarrow> byte list \<Rightarrow> world \<Rightarrow> (io_err + nat) \<times> world" where
  "do_write env bs w =
     (let r = os_write env (w_writes w) bs
      in (r, w\<lparr>w_writes := w_writes w + 1,
              w_sent := w_sent w @ (case r of Inr n \<Rightarrow> take n bs | Inl _ \<Rightarrow> [])\<rparr>))"

text \<open>
  The loop of \<open>linux_read\<close> on \<open>buffer = buf + off\<close>. \<open>recv\<close> stores its bytes at
  \<open>&buffer[bytes]\<close>; 0 is the end of the stream.
\<close>

partial_function (option) read_loop ::
  "environment \<Rightarrow> int \<Rightarrow> int \<Rightarrow> nat \<Rightarrow> Timer \<Rightarrow> int \<Rightarrow> mem \<Rightarrow> world \<Rightarrow> (int \<times> mem \<times> world) option" where
  "read_loop env len timeout_ms off timer bytes buf w =
     (if bytes < len
      then let (r, w1) = do_recv env (nat (len - bytes)) w
           in case r of
               Inl e \<Rightarrow>
                 if e \<noteq> E_AGAIN then Some (-1, buf, w1)
                 else let (ex, w2) = TimerIsExpired env timer w1
                      in if ex then Some (bytes, buf, w2)
                         else read_loop env len timeout_ms off timer bytes buf w2
             | Inr bs \<Rightarrow>
                 if bs = [] then Some (0, buf, w1)
                 else case store_bytes buf (off + nat bytes) bs of
                     None \<Rightarrow> None
                   | Some buf1 \<Rightarrow>
                       let (timer1, w2) = TimerCountdownMS env timer (of_int timeout_ms) w1
                       in read_loop env len timeout_ms off timer1 (bytes + int (length bs)) buf1 w2
      else Some (bytes, buf, w))"

definition linux_read ::
  "environment \<Rightarrow> mem \<Rightarrow> nat \<Rightarrow> int \<Rightarrow> int \<Rightarrow> world \<Rightarrow> (int \<times> mem \<times> world) option" where
  "linux_read env buf off len timeout_ms w =
     (let interval0 = \<lparr>tv_sec = timeout_ms sdiv 1000, tv_usec = timeout_ms smod 1000 * 1000\<rparr>;
          interval = (if tv_sec interval0 < 0 \<or> (tv_sec interval0 = 0 \<and> tv_usec interval0 \<le> 0)
                      then \<lparr>tv_sec = 0, tv_usec = 100\<rparr> else interval0);
          w = setsockopt (SO_RCVTIMEO interval) (setsockopt (SO_RCVBUF len) w);
          timer = TimerInit \<lparr>end_time = \<lparr>tv_sec = 0, tv_usec = 0\<rparr>\<rparr>;
          (timer, w) = TimerCountdownMS env timer (of_int timeout_ms) w
      in read_loop env len timeout_ms off timer 0 buf w)"

text \<open>
  The loop of \<open>linux_write\<close>: every iteration passes the whole buffer to \<open>write\<close>. The \<open>interval\<close>
  given to \<open>SO_SNDTIMEO\<close> has not been initialised at that point, hence \<open>None\<close>.
\<close>

partial_function (option) write_loop ::
  "environment \<Rightarrow> byte list \<Rightarrow> int \<Rightarrow> Timer \<Rightarrow> int \<Rightarrow> world \<Rightarrow> (int \<times> world) option" where
  "write_loop env src len timer rc w =
     (if rc < len
      then let (ex, w1) = TimerIsExpired env timer w
           in if ex then Some (rc, w1)
              else case take_n src len of
                  None \<Rightarrow> None
                | Some bs \<Rightarrow>
                    let (r, w2) = do_write env bs w1
                    in case r of
                        Inl e \<Rightarrow>
                          if e \<noteq> E_AGAIN \<and> e \<noteq> E_PIPE then Some (-1, w2)
                          else write_loop env src len timer (-1) w2
                      | Inr n \<Rightarrow> write_loop env src len timer (int n) w2
      else Some (rc, w))"

definition linux_write ::
  "environment \<Rightarrow> mem \<Rightarrow> nat \<Rightarrow> int \<Rightarrow> int \<Rightarrow> world \<Rightarrow> (int \<times> world) option" where
  "linux_write env buf off len timeout_ms w =
     (let timer = TimerInit \<lparr>end_time = \<lparr>tv_sec = 0, tv_usec = 0\<rparr>\<rparr>;
          (timer, w) = TimerCountdownMS env timer (of_int timeout_ms) w;
          w = setsockopt (SO_SNDTIMEO None) (setsockopt (SO_SNDBUF len) w)
      in write_loop env (drop off buf) len timer 0 w)"

type_synonym read_fn = "environment \<Rightarrow> mem \<Rightarrow> nat \<Rightarrow> int \<Rightarrow> int \<Rightarrow> world \<Rightarrow> (int \<times> mem \<times> world) option"
type_synonym write_fn = "environment \<Rightarrow> mem \<Rightarrow> nat \<Rightarrow> int \<Rightarrow> int \<Rightarrow> world \<Rightarrow> (int \<times> world) option"

record Network =
  my_socket :: int
  mqttread :: read_fn
  mqttwrite :: write_fn

definition NetworkInit :: "Network \<Rightarrow> Network" where
  "NetworkInit n = n\<lparr>my_socket := 0, mqttread := linux_read, mqttwrite := linux_write\<rparr>"

definition AF_INET :: int where "AF_INET = 2"

text \<open>
  \<open>NetworkConnect\<close>. The search for an IPv4 entry moves \<open>result\<close> itself, so \<open>freeaddrinfo\<close> frees
  the list from that entry on; \<open>w_addrs_freed\<close> counts the entries freed. \<open>os_connect\<close> says
  what \<open>connect\<close> returns and whether \<open>errno\<close> is \<open>EINPROGRESS\<close>. An empty list with return code 0
  would dereference a null pointer.
\<close>

fun prefer_ip4 :: "addrinfo list \<Rightarrow> addrinfo list \<Rightarrow> addrinfo list" where
  "prefer_ip4 result [] = result"
| "prefer_ip4 result (a # res) = (if ai_family a = AF_INET then a # res else prefer_ip4 result res)"

definition NetworkConnect ::
  "environment \<Rightarrow> Network \<Rightarrow> byte list \<Rightarrow> int \<Rightarrow> world \<Rightarrow> (int \<times> Network \<times> world) option" where
  "NetworkConnect env n addr port w =
     do { let (rc, infos) = os_getaddrinfo env addr;
          (rc, address, w) \<leftarrow>
            (if rc = 0
             then case prefer_ip4 infos infos of
                 [] \<Rightarrow> None
               | result # others \<Rightarrow>
                   Some (if ai_family result = AF_INET then 0 else -1, ai_addr result,
                         w\<lparr>w_addrs_freed := w_addrs_freed w + 1 + length others\<rparr>)
             else Some (rc, 0, w));
          if rc = 0
          then let n = n\<lparr>my_socket := os_socket env\<rparr>
               in if my_socket n \<noteq> -1
                  then let w = w\<lparr>w_open := my_socket n # w_open w\<rparr>;
                           (rc, inprogress) = os_connect env address port
                       in if rc = 0 \<or> (rc \<noteq> 0 \<and> inprogress)
                          then let retval = os_select env
                               in if retval = -1 then Some (-1, n, w)
                                  else if retval = 0 then Some (-1, n, w)
                                  else Some (0, n, w)
                          else Some (rc, n, w)
                  else Some (-1, n, w)
          else Some (rc, n, w) }"

definition NetworkDisconnect :: "Network \<Rightarrow> world \<Rightarrow> world" where
  "NetworkDisconnect n w = w\<lparr>w_open := remove1 (my_socket n) (w_open w)\<rparr>"

section \<open>Time\<close>

definition usecs :: "timeval \<Rightarrow> int" where
  "usecs t = tv_sec t * 1000000 + tv_usec t"

definition tv_norm :: "timeval \<Rightarrow> bool" where
  "tv_norm t \<longleftrightarrow> 0 \<le> tv_usec t \<and> tv_usec t < 1000000"

lemma timeradd_usecs:
  "usecs (timeradd a b) = usecs a + usecs b"
  "tv_norm a \<Longrightarrow> tv_norm b \<Longrightarrow> tv_norm (timeradd a b)"
  by (auto simp: timeradd_def usecs_def tv_norm_def Let_def)

lemma timersub_usecs:
  "usecs (timersub a b) = usecs a - usecs b"
  "tv_norm a \<Longrightarrow> tv_norm b \<Longrightarrow> tv_norm (timersub a b)"
  by (auto simp: timersub_def usecs_def tv_norm_def Let_def)

lemma nonpos_iff:
  "tv_norm t \<Longrightarrow> (tv_sec t < 0 \<or> (tv_sec t = 0 \<and> tv_usec t \<le> 0)) \<longleftrightarrow> usecs t \<le> 0"
  by (auto simp: tv_norm_def usecs_def)

text \<open>The clock of the operating system: well-formed, and it passes every instant.\<close>

definition clock_norm :: "environment \<Rightarrow> bool" where
  "clock_norm env \<longleftrightarrow> (\<forall>k. tv_norm (os_gettimeofday env k))"

definition clock_runs :: "environment \<Rightarrow> bool" where
  "clock_runs env \<longleftrightarrow> (\<forall>t. \<exists>k. \<forall>j\<ge>k. t \<le> usecs (os_gettimeofday env j))"

definition recv_ok :: "environment \<Rightarrow> bool" where
  "recv_ok env \<longleftrightarrow> (\<forall>k n bs. os_recv env k n = Inr bs \<longrightarrow> length bs \<le> n)"

definition write_ok :: "environment \<Rightarrow> bool" where
  "write_ok env \<longleftrightarrow> (\<forall>k bs n. os_write env k bs = Inr n \<longrightarrow> n \<le> length bs)"

abbreviation clock_at :: "environment \<Rightarrow> world \<Rightarrow> int" where
  "clock_at env w \<equiv> usecs (os_gettimeofday env (w_clock w))"

definition timer_ok :: "Timer \<Rightarrow> bool" where
  "timer_ok timer \<longleftrightarrow> tv_norm (end_time timer)"

lemma TimerIsExpired_iff:
  assumes "clock_norm env" "timer_ok timer"
  shows "TimerIsExpired env timer w =
    (usecs (end_time timer) \<le> clock_at env w, w\<lparr>w_clock := w_clock w + 1\<rparr>)"
proof -
  let ?now = "os_gettimeofday env (w_clock w)"
  have "tv_norm (timersub (end_time timer) ?now)"
    using assms by (simp add: timersub_usecs clock_norm_def timer_ok_def)
  from nonpos_iff [OF this] show ?thesis
    by (simp add: TimerIsExpired_def get_now_def timersub_usecs)
qed

lemma ms_interval:
  "usecs \<lparr>tv_sec = uint (t div 1000), tv_usec = uint (t mod 1000 * 1000)\<rparr> = uint (t :: u32) * 1000"
  "tv_norm \<lparr>tv_sec = uint (t div 1000), tv_usec = uint (t mod 1000 * 1000)\<rparr>"
proof -
  have m: "uint (t mod 1000) = uint t mod 1000" and d: "uint (t div 1000) = uint t div 1000"
    by (simp_all add: uint_mod uint_div)
  have "uint t mod 1000 * 1000 < 2 ^ 32" by (rule order_less_trans [of _ 1000000]) simp_all
  then have u: "uint (t mod 1000 * 1000) = uint t mod 1000 * 1000"
    by (simp add: uint_word_ariths m)
  show "usecs \<lparr>tv_sec = uint (t div 1000), tv_usec = uint (t mod 1000 * 1000)\<rparr> = uint t * 1000"
    using div_mult_mod_eq [of "uint t" 1000] unfolding usecs_def timeval.simps d u by linarith
  show "tv_norm \<lparr>tv_sec = uint (t div 1000), tv_usec = uint (t mod 1000 * 1000)\<rparr>"
    by (simp add: tv_norm_def u)
qed

lemma TimerCountdownMS_ends:
  assumes "clock_norm env"
  shows "TimerCountdownMS env timer t w = (timer', w') \<Longrightarrow>
    timer_ok timer' \<and> usecs (end_time timer') = clock_at env w + uint t * 1000 \<and>
    w' = w\<lparr>w_clock := w_clock w + 1\<rparr>"
  using assms ms_interval [of t]
  by (auto simp: TimerCountdownMS_def get_now_def timer_ok_def timeradd_usecs clock_norm_def)

lemma sec_interval:
  "usecs \<lparr>tv_sec = s, tv_usec = 0\<rparr> = s * 1000000" "tv_norm \<lparr>tv_sec = s, tv_usec = 0\<rparr>"
  by (simp_all add: usecs_def tv_norm_def)

lemma TimerCountdown_ends:
  assumes "clock_norm env"
  shows "TimerCountdown env timer t w = (timer', w') \<Longrightarrow>
    timer_ok timer' \<and> usecs (end_time timer') = clock_at env w + uint t * 1000000 \<and>
    w' = w\<lparr>w_clock := w_clock w + 1\<rparr>"
  using assms sec_interval [of "uint t"]
  by (auto simp: TimerCountdown_def get_now_def timer_ok_def timeradd_usecs clock_norm_def)

lemma TimerLeftMS_value:
  assumes "clock_norm env" "timer_ok timer"
    and "usecs (end_time timer) - clock_at env w < 2147483648000"
  shows "TimerLeftMS env timer w =
    (max 0 ((usecs (end_time timer) - clock_at env w) div 1000), w\<lparr>w_clock := w_clock w + 1\<rparr>)"
proof -
  define r where "r = timersub (end_time timer) (os_gettimeofday env (w_clock w))"
  have n: "tv_norm r" and u: "usecs r = usecs (end_time timer) - clock_at env w"
    using assms by (simp_all add: r_def timersub_usecs clock_norm_def timer_ok_def)
  have q: "usecs r div 1000 = tv_sec r * 1000 + tv_usec r div 1000"
    by (simp add: usecs_def) 
  show ?thesis
  proof (cases "tv_sec r < 0")
    case True
    then have "usecs r < 0" using n by (simp add: usecs_def tv_norm_def)
    then have "usecs r div 1000 \<le> 0" by (simp add: neg_imp_zdiv_neg_iff order_less_imp_le)
    with True u show ?thesis
      by (simp add: TimerLeftMS_def get_now_def r_def [symmetric] max_def)
  next
    case False
    have "usecs r div 1000 < 2147483648" using assms(3) u by simp
    moreover have "0 \<le> usecs r div 1000"
      using False n by (simp add: usecs_def tv_norm_def pos_imp_zdiv_nonneg_iff)
    ultimately have "signed_take_bit 31 (usecs r div 1000) = usecs r div 1000"
      by (simp add: signed_take_bit_int_eq_self)
    with False n u q \<open>0 \<le> usecs r div 1000\<close> show ?thesis
      by (simp add: TimerLeftMS_def get_now_def r_def [symmetric] tv_norm_def max_def)
  qed
qed

section \<open>Reading\<close>

text \<open>What a call may do besides its result: it only reads the clock and the stream.\<close>

definition read_frame :: "world \<Rightarrow> world \<Rightarrow> bool" where
  "read_frame w w' \<longleftrightarrow> w_clock w \<le> w_clock w' \<and> w_writes w' = w_writes w \<and> w_sent w' = w_sent w \<and>
     w_open w' = w_open w"

lemma TimerIsExpired_world: "TimerIsExpired env timer w = (e, w') \<Longrightarrow> w' = w\<lparr>w_clock := w_clock w + 1\<rparr>"
  by (auto simp: TimerIsExpired_def get_now_def Let_def)

lemma TimerCountdownMS_world: "TimerCountdownMS env timer t w = (t', w') \<Longrightarrow> w' = w\<lparr>w_clock := w_clock w + 1\<rparr>"
  by (auto simp: TimerCountdownMS_def get_now_def)

lemma do_recv_world:
  "do_recv env n w = (Inl e, w') \<Longrightarrow> w' = w\<lparr>w_recvs := w_recvs w + 1\<rparr>"
  "do_recv env n w = (Inr bs, w') \<Longrightarrow> w' = w\<lparr>w_recvs := w_recvs w + 1, w_received := w_received w @ bs\<rparr>"
  by (auto simp: do_recv_def Let_def)

lemma do_recv_le: "recv_ok env \<Longrightarrow> do_recv env n w = (Inr bs, w') \<Longrightarrow> length bs \<le> n"
  by (auto simp: do_recv_def Let_def recv_ok_def)

definition read_post :: "int \<Rightarrow> nat \<Rightarrow> int \<Rightarrow> mem \<Rightarrow> world \<Rightarrow> int \<times> mem \<times> world \<Rightarrow> bool" where
  "read_post len off bytes buf w = (\<lambda>(rc, buf', w'). \<exists>bs.
     w_received w' = w_received w @ bs \<and> read_frame w w' \<and> bytes + int (length bs) \<le> len \<and>
     buf' = take (off + nat bytes) buf @ bs @ drop (off + nat bytes + length bs) buf \<and>
     length buf' = length buf \<and>
     (rc = bytes + int (length bs) \<or> (rc = -1 \<or> rc = 0) \<and> bytes + int (length bs) < len))"

lemma read_loop_post:
  assumes "read_loop env len ms off timer bytes buf w = Some r"
    and "recv_ok env" "0 \<le> bytes" "bytes \<le> len"
    and "off + nat bytes \<le> length buf"
  shows "read_post len off bytes buf w r"
  using assms
proof (induction env len ms off timer bytes buf w r
    rule: read_loop.raw_induct [rotated, consumes 1, case_names 1])
  case (1 rl env len ms off timer bytes buf w r)
  show ?case
  proof (cases "bytes < len")
    case False
    with 1 show ?thesis by (auto simp: read_post_def read_frame_def)
  next
    case True
    obtain x w1 where rv: "do_recv env (nat (len - bytes)) w = (x, w1)" by fastforce
    show ?thesis
    proof (cases x)
      case (Inl e)
      note w1 = do_recv_world(1) [OF rv [unfolded Inl]]
      obtain ex w2 where t: "TimerIsExpired env timer w1 = (ex, w2)" by fastforce
      note w2 = TimerIsExpired_world [OF t]
      have stop: ?thesis if "r = (rc, buf, w')" "rc = -1 \<or> rc = bytes" "w' = w1 \<or> w' = w2" for rc w'
        using that True 1(4-6) w1 w2 by (auto simp: read_post_def read_frame_def)
      show ?thesis
      proof (cases "e = E_AGAIN \<and> \<not> ex")
        case False
        with 1(2) True rv Inl t have "r = (-1, buf, w1) \<or> r = (bytes, buf, w2)"
          by (auto split: if_splits)
        then show ?thesis using stop by blast
      next
        case go: True
        with 1(2) True rv Inl t have "rl env len ms off timer bytes buf w2 = Some r" by simp
        from 1(1) [OF this] 1 show ?thesis
          using w1 w2 by (auto simp: read_post_def read_frame_def)
      qed
    next
      case (Inr bs)
      note w1 = do_recv_world(2) [OF rv [unfolded Inr]]
      have le: "int (length bs) \<le> len - bytes"
        using do_recv_le [OF 1(3) rv [unfolded Inr]] True by simp
      show ?thesis
      proof (cases "bs = []")
        case True
        with 1(2) \<open>bytes < len\<close> rv Inr have "r = (0, buf, w1)" by simp
        with 1 True w1 show ?thesis by (auto simp: read_post_def read_frame_def)
      next
        case ne: False
        obtain timer1 w2 where t: "TimerCountdownMS env timer (of_int ms) w1 = (timer1, w2)" by fastforce
        note w2 = TimerCountdownMS_world [OF t]
        from ne 1(2) True rv Inr t obtain buf1 where
          b: "store_bytes buf (off + nat bytes) bs = Some buf1" and
          rec: "rl env len ms off timer1 (bytes + int (length bs)) buf1 w2 = Some r"
          by (auto split: option.splits)
        have b1: "buf1 = take (off + nat bytes) buf @ bs @ drop (off + nat bytes + length bs) buf"
          "off + nat bytes + length bs \<le> length buf"
          using b by (auto simp: store_bytes_def split: if_splits)
        have nb: "nat (bytes + int (length bs)) = nat bytes + length bs"
          using 1(4) by (simp add: nat_add_distrib)
        have "read_post len off (bytes + int (length bs)) buf1 w2 r"
          using 1 le b1 nb by (intro 1(1) [OF rec]) auto
        then obtain rc buf' w' cs where r: "r = (rc, buf', w')" and
          cs: "w_received w' = w_received w2 @ cs" "read_frame w2 w'"
            "bytes + int (length bs) + int (length cs) \<le> len"
            "buf' = take (off + nat bytes + length bs) buf1 @ cs @ drop (off + nat bytes + length bs + length cs) buf1"
            "length buf' = length buf1"
            "rc = bytes + int (length bs) + int (length cs) \<or> (rc = -1 \<or> rc = 0) \<and> bytes + int (length bs) + int (length cs) < len"
          unfolding read_post_def nb add.assoc [symmetric] by (cases r) auto
        have "buf' = take (off + nat bytes) buf @ (bs @ cs) @ drop (off + nat bytes + length (bs @ cs)) buf"
          using cs(4) splice_take [OF b1(2)] splice_drop [OF b1(2), of "length cs"]
          by (simp add: b1(1) add.assoc)
        moreover have "w_received w' = w_received w @ (bs @ cs)" "read_frame w w'"
          using cs(1,2) w1 w2 by (auto simp: read_frame_def)
        moreover have "length buf' = length buf" using cs(5) b store_bytes_length by simp
        ultimately show ?thesis
          using cs(3,6) unfolding r read_post_def by (intro case_prodI exI [of _ "bs @ cs"]) auto
      qed
    qed
  qed
qed

text \<open>
  \<open>linux_read\<close> returns: every iteration either receives a byte or looks at the clock, and the
  clock passes the end of the timer.
\<close>

lemma read_loop_total:
  assumes env: "recv_ok env" "clock_norm env" "clock_runs env"
    and "timer_ok timer" "0 \<le> bytes" "bytes \<le> len" "off + nat len \<le> length buf"
  shows "\<exists>r. read_loop env len ms off timer bytes buf w = Some r"
  using assms(4-)
proof (induction "nat (len - bytes)" arbitrary: timer bytes buf w rule: less_induct)
  case less
  obtain K where K: "\<And>j. K \<le> j \<Longrightarrow> usecs (end_time timer) \<le> usecs (os_gettimeofday env j)"
    using env(3) unfolding clock_runs_def by blast
  show ?case
  proof (induction "K - w_clock w" arbitrary: w rule: less_induct)
    case inner: less
    show ?case
    proof (cases "bytes < len")
      case False
      then show ?thesis by (subst read_loop.simps) simp
    next
      case True
      obtain x w1 where rv: "do_recv env (nat (len - bytes)) w = (x, w1)" by fastforce
      show ?thesis
      proof (cases x)
        case (Inl e)
        note w1 = do_recv_world(1) [OF rv [unfolded Inl]]
        note ex = TimerIsExpired_iff [OF env(2) less.prems(1), of w1]
        let ?w2 = "w1\<lparr>w_clock := w_clock w1 + 1\<rparr>"
        show ?thesis
        proof (cases "K \<le> w_clock w \<or> e \<noteq> E_AGAIN")
          case True
          then show ?thesis
            using K [of "w_clock w"] \<open>bytes < len\<close> rv Inl ex w1
            by (subst read_loop.simps) auto
        next
          case False
          then have "\<exists>r. read_loop env len ms off timer bytes buf ?w2 = Some r"
            using w1 by (intro inner) auto
          then show ?thesis
            using \<open>bytes < len\<close> rv Inl ex by (subst read_loop.simps) auto
        qed
      next
        case (Inr bs)
        have le: "int (length bs) \<le> len - bytes"
          using do_recv_le [OF env(1) rv [unfolded Inr]] True by simp
        then have "off + nat bytes + length bs \<le> length buf"
          using less.prems(2,4) True by linarith
        then obtain buf1 where b: "store_bytes buf (off + nat bytes) bs = Some buf1"
          "length buf1 = length buf" by (auto simp: store_bytes_def)
        obtain timer1 w2 where t: "TimerCountdownMS env timer (of_int ms) w1 = (timer1, w2)" by fastforce
        have "\<exists>r. read_loop env len ms off timer1 (bytes + int (length bs)) buf1 w2 = Some r" if "bs \<noteq> []"
          using that le less.prems b True TimerCountdownMS_ends [OF env(2) t]
          by (intro less.hyps) auto
        then show ?thesis
          using True rv Inr b t by (subst read_loop.simps) auto
      qed
    qed
  qed
qed

text \<open>The contract of a platform's \<open>mqttread\<close>, as the client uses it.\<close>

definition reads_stream :: "mem \<Rightarrow> nat \<Rightarrow> int \<Rightarrow> world \<Rightarrow> int \<times> mem \<times> world \<Rightarrow> bool" where
  "reads_stream buf off len w = (\<lambda>(rc, buf', w'). \<exists>bs.
     w_received w' = w_received w @ bs \<and> read_frame w w' \<and> int (length bs) \<le> len \<and>
     buf' = take off buf @ bs @ drop (off + length bs) buf \<and> length buf' = length buf \<and>
     (rc = int (length bs) \<or> (rc = -1 \<or> rc = 0) \<and> int (length bs) < len))"

lemma linux_read_unfold:
  assumes "clock_norm env"
  obtains timer w1 where "linux_read env buf off len ms w = read_loop env len ms off timer 0 buf w1"
    "timer_ok timer" "read_frame w w1" "w_received w1 = w_received w"
proof -
  obtain timer w1 where t: "TimerCountdownMS env (TimerInit \<lparr>end_time = \<lparr>tv_sec = 0, tv_usec = 0\<rparr>\<rparr>)
      (of_int ms) (setsockopt (SO_RCVTIMEO (if ms sdiv 1000 < 0 \<or> (ms sdiv 1000 = 0 \<and> ms smod 1000 * 1000 \<le> 0)
         then \<lparr>tv_sec = 0, tv_usec = 100\<rparr>
         else \<lparr>tv_sec = ms sdiv 1000, tv_usec = ms smod 1000 * 1000\<rparr>)) (setsockopt (SO_RCVBUF len) w))
      = (timer, w1)" by fastforce
  then have "linux_read env buf off len ms w = read_loop env len ms off timer 0 buf w1"
    by (simp add: linux_read_def)
  moreover from TimerCountdownMS_ends [OF assms t]
  have "timer_ok timer" "read_frame w w1" "w_received w1 = w_received w"
    by (auto simp: setsockopt_def read_frame_def)
  ultimately show thesis using that by blast
qed

lemma linux_read_post:
  assumes "linux_read env buf off len ms w = Some r" "recv_ok env" "clock_norm env" "0 \<le> len" "off \<le> length buf"
  shows "reads_stream buf off len w r"
proof -
  obtain timer w1 where u: "linux_read env buf off len ms w = read_loop env len ms off timer 0 buf w1"
    "read_frame w w1" "w_received w1 = w_received w"
    using linux_read_unfold [OF assms(3)] by metis
  from u(1) assms have "read_post len off 0 buf w1 r" by (intro read_loop_post) auto
  with u(2,3) show ?thesis by (auto simp: read_post_def reads_stream_def read_frame_def)
qed

lemma linux_read_total:
  assumes "recv_ok env" "clock_norm env" "clock_runs env" "0 \<le> len" "off + nat len \<le> length buf"
  shows "\<exists>r. linux_read env buf off len ms w = Some r"
proof -
  obtain timer w1 where u: "linux_read env buf off len ms w = read_loop env len ms off timer 0 buf w1"
    "timer_ok timer"
    using linux_read_unfold [OF assms(2)] by metis
  show ?thesis unfolding u(1) using assms u(2) by (intro read_loop_total) auto
qed

section \<open>Writing\<close>

definition write_frame :: "world \<Rightarrow> world \<Rightarrow> bool" where
  "write_frame w w' \<longleftrightarrow> w_clock w \<le> w_clock w' \<and> w_recvs w' = w_recvs w \<and>
     w_received w' = w_received w \<and> w_open w' = w_open w"

lemma do_write_world:
  "do_write env bs w = (r, w') \<Longrightarrow> w' = w\<lparr>w_writes := w_writes w + 1,
     w_sent := w_sent w @ (case r of Inr n \<Rightarrow> take n bs | Inl _ \<Rightarrow> [])\<rparr>"
  by (auto simp: do_write_def Let_def)

lemma write_loop_total:
  assumes env: "clock_norm env" "clock_runs env" "timer_ok timer" and "take_n src len = Some bs"
  shows "\<exists>rc' w'. write_loop env src len timer rc w = Some (rc', w') \<and> write_frame w w'"
proof -
  obtain K where K: "\<And>j. K \<le> j \<Longrightarrow> usecs (end_time timer) \<le> usecs (os_gettimeofday env j)"
    using env(2) unfolding clock_runs_def by blast
  show ?thesis
  proof (induction "K - w_clock w" arbitrary: w rc rule: less_induct)
    case less
    note ex = TimerIsExpired_iff [OF env(1,3), of w]
    let ?w1 = "w\<lparr>w_clock := w_clock w + 1\<rparr>"
    obtain r w2 where wr: "do_write env bs ?w1 = (r, w2)" by fastforce
    note w2 = do_write_world [OF wr]
    have fr: "write_frame w ?w1" "write_frame w w2" using w2 by (simp_all add: write_frame_def)
    show ?case
    proof (cases "K \<le> w_clock w \<or> \<not> rc < len \<or> usecs (end_time timer) \<le> clock_at env w")
      case True
      then have "\<not> rc < len \<or> usecs (end_time timer) \<le> clock_at env w" using K by blast
      then show ?thesis
        using ex fr by (subst write_loop.simps) (auto simp: write_frame_def)
    next
      case False
      then have rec: "\<exists>rc'' w'. write_loop env src len timer rc' w2 = Some (rc'', w') \<and> write_frame w2 w'" for rc'
        using w2 by (intro less) auto
      have "write_loop env src len timer rc w =
          (case r of Inl e \<Rightarrow> if e \<noteq> E_AGAIN \<and> e \<noteq> E_PIPE then Some (-1, w2)
             else write_loop env src len timer (-1) w2
           | Inr n \<Rightarrow> write_loop env src len timer (int n) w2)"
        using False ex wr assms(4) by (subst write_loop.simps) simp
      then show ?thesis
        using rec fr(2) by (auto simp: write_frame_def split: sum.splits) (meson order_trans)+
    qed
  qed
qed

lemma linux_write_unfold:
  assumes "clock_norm env"
  obtains timer w1 where "linux_write env buf off len ms w = write_loop env (drop off buf) len timer 0 w1"
    "timer_ok timer" "usecs (end_time timer) = clock_at env w + uint (of_int ms :: u32) * 1000"
    "w_clock w1 = w_clock w + 1" "write_frame w w1" "w_sent w1 = w_sent w" "w_writes w1 = w_writes w"
proof -
  obtain timer w1 where t: "TimerCountdownMS env (TimerInit \<lparr>end_time = \<lparr>tv_sec = 0, tv_usec = 0\<rparr>\<rparr>)
      (of_int ms) w = (timer, w1)" by fastforce
  let ?w = "setsockopt (SO_SNDTIMEO None) (setsockopt (SO_SNDBUF len) w1)"
  from t have "linux_write env buf off len ms w = write_loop env (drop off buf) len timer 0 ?w"
    by (simp add: linux_write_def)
  moreover from TimerCountdownMS_ends [OF assms t]
  have "timer_ok timer" "usecs (end_time timer) = clock_at env w + uint (of_int ms :: u32) * 1000"
    "w_clock ?w = w_clock w + 1" "write_frame w ?w" "w_sent ?w = w_sent w" "w_writes ?w = w_writes w"
    by (auto simp: setsockopt_def write_frame_def)
  ultimately show thesis using that by blast
qed

lemma linux_write_total:
  assumes "clock_norm env" "clock_runs env" "0 \<le> len" "off + nat len \<le> length buf"
  shows "\<exists>rc w'. linux_write env buf off len ms w = Some (rc, w') \<and> write_frame w w'"
proof -
  obtain timer w1 where u: "linux_write env buf off len ms w = write_loop env (drop off buf) len timer 0 w1"
    "timer_ok timer" "write_frame w w1"
    using linux_write_unfold [OF assms(1)] by metis
  have "take_n (drop off buf) len = Some (take (nat len) (drop off buf))"
    using assms(3,4) by (auto simp: take_n_def)
  from write_loop_total [OF assms(1,2) u(2) this, of 0 w1] u(1,3) show ?thesis
    by (auto simp: write_frame_def)
qed

lemma write_loop_le:
  assumes "write_loop env src len timer rc w = Some r"
    and "write_ok env" "rc \<le> len" "0 \<le> len"
  shows "fst r \<le> len"
  using assms
proof (induction env src len timer rc w r rule: write_loop.raw_induct [rotated, consumes 1, case_names 1])
  case (1 wl env src len timer rc w r)
  show ?case
  proof (cases "rc < len \<and> \<not> fst (TimerIsExpired env timer w)")
    case False
    then show ?thesis using 1 by (auto simp: Let_def split: prod.splits if_splits)
  next
    case True
    obtain w1 where ex: "TimerIsExpired env timer w = (False, w1)"
      using True by (cases "TimerIsExpired env timer w") auto
    from 1(2) True ex obtain bs where bs: "take_n src len = Some bs"
      by (auto split: option.splits)
    obtain x w2 where wr: "do_write env bs w1 = (x, w2)" by fastforce
    have n: "int n \<le> len" if "x = Inr n" for n
      using wr that 1(3) take_n_Some_length [OF bs] unfolding write_ok_def
      by (auto simp: do_write_def Let_def)
    show ?thesis
      using 1(2) True ex bs wr 1(3-5) n 1(1) [of env src len timer _ w2 r]
      by (cases x) (auto split: if_splits)
  qed
qed

lemma linux_write_le:
  assumes "linux_write env buf off len ms w = Some (rc, w')" "write_ok env" "0 \<le> len"
  shows "rc \<le> len"
  using assms write_loop_le [of env "drop off buf" len _ 0 _ "(rc, w')"]
  by (auto simp: linux_write_def Let_def split: prod.splits)

section \<open>The interface to the client\<close>

text \<open>
  What the MQTT client relies on in its \<open>Network\<close>: reading stays inside the buffer it is given and
  reports what came from the stream, writing leaves the receiving side alone and reports no more
  than it was asked to send, and both return when the clock advances.
\<close>

locale network_io =
  fixes rd :: read_fn and wr :: write_fn and env_ok :: "environment \<Rightarrow> bool"
  assumes clock: "env_ok env \<Longrightarrow> clock_norm env \<and> clock_runs env"
    and rd_total: "env_ok env \<Longrightarrow> 0 \<le> len \<Longrightarrow> off + nat len \<le> length buf \<Longrightarrow>
      \<exists>r. rd env buf off len ms w = Some r"
    and rd_post: "env_ok env \<Longrightarrow> rd env buf off len ms w = Some r \<Longrightarrow> 0 \<le> len \<Longrightarrow>
      off + nat len \<le> length buf \<Longrightarrow> reads_stream buf off len w r"
    and wr_total: "env_ok env \<Longrightarrow> 0 \<le> len \<Longrightarrow> off + nat len \<le> length buf \<Longrightarrow>
      \<exists>rc w'. wr env buf off len ms w = Some (rc, w') \<and> write_frame w w'"
    and wr_le: "env_ok env \<Longrightarrow> wr env buf off len ms w = Some (rc, w') \<Longrightarrow> 0 \<le> len \<Longrightarrow> rc \<le> len"

definition os_ok :: "environment \<Rightarrow> bool" where
  "os_ok env \<longleftrightarrow> clock_norm env \<and> clock_runs env \<and> recv_ok env \<and> write_ok env"

interpretation linux: network_io linux_read linux_write os_ok
proof
  fix env :: environment and buf :: mem and off :: nat and len ms rc :: int and w w' :: world and r
  assume ok: "os_ok env"
  then show "clock_norm env \<and> clock_runs env" by (simp add: os_ok_def)
  assume len: "0 \<le> len"
  show "linux_write env buf off len ms w = Some (rc, w') \<Longrightarrow> rc \<le> len"
    using ok len linux_write_le by (simp add: os_ok_def)
  assume room: "off + nat len \<le> length buf"
  show "\<exists>r. linux_read env buf off len ms w = Some r"
    using ok len room linux_read_total by (simp add: os_ok_def)
  show "linux_read env buf off len ms w = Some r \<Longrightarrow> reads_stream buf off len w r"
    using ok len room linux_read_post by (simp add: os_ok_def)
  show "\<exists>rc w'. linux_write env buf off len ms w = Some (rc, w') \<and> write_frame w w'"
    using ok len room linux_write_total by (simp add: os_ok_def)
qed

section \<open>Properties\<close>

text \<open>
  A timer started for \<open>t\<close> milliseconds is expired from the instant \<open>t\<close> milliseconds after
  the start, to the microsecond, and not before; meanwhile the time left is the difference in
  whole milliseconds (below \<open>2^31\<close>) and 0 afterwards.
\<close>

theorem timer_measures_time:
  assumes "clock_norm env" "TimerCountdownMS env timer t w = (timer', w1)"
    and "d = clock_at env w + uint t * 1000 - clock_at env w2" "d < 2147483648000"
  shows "fst (TimerIsExpired env timer' w2) = (d \<le> 0) \<and>
    fst (TimerLeftMS env timer' w2) = max 0 (d div 1000)"
  using TimerCountdownMS_ends [OF assms(1,2)] assms(3,4)
  by (simp add: TimerIsExpired_iff [OF assms(1)] TimerLeftMS_value [OF assms(1)])

definition sample_env :: environment where
  "sample_env = \<lparr>os_gettimeofday = (\<lambda>k. \<lparr>tv_sec = int k, tv_usec = 0\<rparr>),
     os_recv = (\<lambda>k n. if k < 2 \<and> 0 < n then Inr [of_nat k] else Inl E_AGAIN),
     os_write = (\<lambda>k bs. Inr (if k = 0 then min 1 (length bs) else length bs)),
     os_getaddrinfo = (\<lambda>_. (0, [\<lparr>ai_family = 10, ai_addr = 1\<rparr>, \<lparr>ai_family = 2, ai_addr = 7\<rparr>])),
     os_socket = 3, os_connect = (\<lambda>_ _. (-1, True)), os_select = 0\<rparr>"

definition sample_world :: world where
  "sample_world = \<lparr>w_clock = 0, w_recvs = 0, w_writes = 0, w_received = [], w_sent = [],
     w_sockopts = [], w_open = [], w_addrs_freed = 0\<rparr>"

lemma sample_env_ok:
  "clock_norm sample_env" "clock_runs sample_env" "recv_ok sample_env" "write_ok sample_env"
proof -
  show "clock_norm sample_env" "write_ok sample_env"
    by (auto simp: sample_env_def clock_norm_def tv_norm_def write_ok_def split: if_splits)
  show "recv_ok sample_env"
    by (auto simp: sample_env_def recv_ok_def split: if_splits)
  have "t \<le> int j * 1000000" if "nat t \<le> j" for t j using that by linarith
  then show "clock_runs sample_env"
    by (auto simp: clock_runs_def sample_env_def usecs_def intro!: exI [of _ "nat _"])
qed

theorem timer_measures_time_witness:
  "fst (TimerIsExpired sample_env \<lparr>end_time = \<lparr>tv_sec = 2, tv_usec = 500000\<rparr>\<rparr>
       (sample_world\<lparr>w_clock := 1\<rparr>)) = ((1500000 :: int) \<le> 0) \<and>
    fst (TimerLeftMS sample_env \<lparr>end_time = \<lparr>tv_sec = 2, tv_usec = 500000\<rparr>\<rparr>
       (sample_world\<lparr>w_clock := 1\<rparr>)) = max 0 (1500000 div 1000)"
  by (rule timer_measures_time [OF sample_env_ok(1), of "\<lparr>end_time = \<lparr>tv_sec = 0, tv_usec = 0\<rparr>\<rparr>" 2500
        sample_world _ "sample_world\<lparr>w_clock := 1\<rparr>"])
    (simp_all add: TimerCountdownMS_def get_now_def sample_env_def sample_world_def timeradd_def usecs_def)

text \<open>
  C5. On a system whose clock advances and whose \<open>recv\<close> returns no more than it is asked for,
  \<open>linux_read\<close> always returns, whatever the peer does. The bytes it took from the stream are
  exactly those it stored from \<open>buffer\<close> on, at most \<open>len\<close> of them; every other byte of the object
  is unchanged; and the result is their number, or 0, or -1.
\<close>

theorem linux_read_correct:
  assumes "recv_ok env" "clock_norm env" "clock_runs env" "0 \<le> len" "off + nat len \<le> length buf"
  shows "\<exists>rc buf' w' bs. linux_read env buf off len timeout_ms w = Some (rc, buf', w') \<and>
     w_received w' = w_received w @ bs \<and> int (length bs) \<le> len \<and>
     buf' = take off buf @ bs @ drop (off + length bs) buf \<and> length buf' = length buf \<and>
     w_sent w' = w_sent w \<and> (rc = -1 \<or> rc = 0 \<or> rc = int (length bs))"
proof -
  obtain r where r: "linux_read env buf off len timeout_ms w = Some r"
    using linux_read_total [OF assms] by blast
  from linux_read_post [OF this assms(1,2,4)] assms(5) have "reads_stream buf off len w r" by simp
  with r show ?thesis by (cases r) (auto simp: reads_stream_def read_frame_def)
qed

theorem linux_read_correct_witness:
  "\<exists>rc buf' w' bs. linux_read sample_env [9, 9, 9, 9] 1 3 500 sample_world = Some (rc, buf', w') \<and>
     w_received w' = w_received sample_world @ bs \<and> int (length bs) \<le> 3 \<and>
     buf' = take 1 [9, 9, 9, 9] @ bs @ drop (1 + length bs) [9, 9, 9, 9] \<and>
     length buf' = length [9 :: byte, 9, 9, 9] \<and>
     w_sent w' = w_sent sample_world \<and> (rc = -1 \<or> rc = 0 \<or> rc = int (length bs))"
  by (rule linux_read_correct [OF sample_env_ok(3,1,2)]) simp_all

text \<open>
  A packet that the first \<open>write\<close> of \<open>linux_write\<close> accepts completely is sent exactly once.
  When the first \<open>write\<close> accepts only \<open>k\<close> bytes and the second one everything, the call reports
  full success, but the peer has received the first \<open>k\<close> bytes twice: the loop starts over from
  the beginning of the buffer.
\<close>

theorem linux_write_partial:
  assumes "clock_norm env" "write_ok env" "0 < len" "off + nat len \<le> length buf"
    and bs: "bs = take (nat len) (drop off buf)"
    and live: "\<And>j. j \<in> {1, 2} \<Longrightarrow> usecs (os_gettimeofday env (w_clock w + j)) <
      clock_at env w + uint (of_int timeout_ms :: u32) * 1000"
    and first: "os_write env (w_writes w) bs = Inr k"
    and second: "k < nat len \<Longrightarrow> os_write env (w_writes w + 1) bs = Inr (nat len)"
  shows "\<exists>w'. linux_write env buf off len timeout_ms w = Some (len, w') \<and>
    w_sent w' = w_sent w @ (if k < nat len then take k bs else []) @ bs"
proof -
  obtain timer w1 where u: "linux_write env buf off len timeout_ms w = write_loop env (drop off buf) len timer 0 w1"
    "timer_ok timer" "usecs (end_time timer) = clock_at env w + uint (of_int timeout_ms :: u32) * 1000"
    "w_clock w1 = w_clock w + 1" "w_sent w1 = w_sent w" "w_writes w1 = w_writes w"
    using linux_write_unfold [OF assms(1)] by metis
  have t: "take_n (drop off buf) len = Some bs" "length bs = nat len"
    using assms(3,4) by (auto simp: take_n_def bs)
  have step: "write_loop env (drop off buf) len timer rc v = write_loop env (drop off buf) len timer (int n)
      (v\<lparr>w_clock := w_clock v + 1, w_writes := w_writes v + 1, w_sent := w_sent v @ take n bs\<rparr>)"
    if "rc < len" "w_clock v = w_clock w + j" "j \<in> {1, 2}" "os_write env (w_writes v) bs = Inr n" for rc v j n
    using that live [OF that(3)] u(2,3) t(1)
    by (subst write_loop.simps) (simp add: TimerIsExpired_iff [OF assms(1) u(2)] do_write_def)
  have fin: "write_loop env (drop off buf) len timer len v = Some (len, v)" for v
    by (subst write_loop.simps) simp
  have k: "k \<le> nat len" using assms(2) first t(2) unfolding write_ok_def by metis
  show ?thesis
  proof (cases "k < nat len")
    case False
    with k have "k = nat len" by simp
    then show ?thesis
      using step [of 0 w1 1 k] first u(1,4-6) assms(3) t(2) by (simp add: fin)
  next
    case True
    then show ?thesis
      using step [of 0 w1 1 k] step [of "int k" _ 2 "nat len"] first second u(1,4-6) assms(3) t(2)
      by (simp add: fin)
  qed
qed

theorem linux_write_partial_witness:
  "\<exists>w'. linux_write sample_env [1, 2, 3] 0 3 5000 sample_world = Some (3, w') \<and>
    w_sent w' = w_sent sample_world @ (if (1 :: nat) < nat 3 then take 1 [1, 2, 3] else []) @ [1, 2, 3]"
  by (rule linux_write_partial [OF sample_env_ok(1,4)])
    (auto simp: sample_env_def sample_world_def usecs_def)

text \<open>
  \<open>NetworkConnect\<close> on a host with an IPv4 address, when a socket is available: the result is 0
  exactly when the connection was made or is in progress and \<open>select\<close> reports the socket ready.
  Whatever the result, the socket stays open, so every failed attempt leaks one, and the address
  entries before the first IPv4 one are never freed.
\<close>

theorem network_connect_effects:
  assumes "os_getaddrinfo env addr = (0, infos)" "a \<in> set infos" "ai_family a = AF_INET"
    and "os_socket env \<noteq> -1"
  shows "\<exists>rc. NetworkConnect env n addr port w =
      Some (rc, n\<lparr>my_socket := os_socket env\<rparr>, w\<lparr>w_open := os_socket env # w_open w,
        w_addrs_freed := w_addrs_freed w + length (dropWhile (\<lambda>i. ai_family i \<noteq> AF_INET) infos)\<rparr>) \<and>
    (rc = 0 \<longleftrightarrow> (let (crc, inprogress) = os_connect env
                      (ai_addr (hd (dropWhile (\<lambda>i. ai_family i \<noteq> AF_INET) infos))) port
               in (crc = 0 \<or> inprogress) \<and> os_select env \<noteq> -1 \<and> os_select env \<noteq> 0))"
proof -
  let ?P = "\<lambda>i. ai_family i \<noteq> AF_INET"
  have pick: "prefer_ip4 r xs = dropWhile ?P xs" if "a \<in> set xs" for r xs
    using that assms(3) by (induction xs) auto
  have "dropWhile ?P infos \<noteq> []" using assms(2,3) by (auto simp: dropWhile_eq_Nil_conv)
  then obtain b more' where d: "dropWhile ?P infos = b # more'" by (cases "dropWhile ?P infos") auto
  then have "ai_family b = AF_INET" using hd_dropWhile [of ?P infos] by simp
  with d pick [OF assms(2)] assms(1,4) show ?thesis
    by (auto simp: NetworkConnect_def Let_def split: prod.splits)
qed

theorem network_connect_effects_witness:
  "\<exists>rc. NetworkConnect sample_env (NetworkInit \<lparr>my_socket = 9, mqttread = linux_read, mqttwrite = linux_write\<rparr>)
      [104] 1883 sample_world =
      Some (rc, (NetworkInit \<lparr>my_socket = 9, mqttread = linux_read, mqttwrite = linux_write\<rparr>)
          \<lparr>my_socket := os_socket sample_env\<rparr>, sample_world\<lparr>w_open := os_socket sample_env # w_open sample_world,
        w_addrs_freed := w_addrs_freed sample_world +
          length (dropWhile (\<lambda>i. ai_family i \<noteq> AF_INET) (snd (os_getaddrinfo sample_env [104])))\<rparr>) \<and>
    (rc = 0 \<longleftrightarrow> (let (crc, inprogress) = os_connect sample_env
                      (ai_addr (hd (dropWhile (\<lambda>i. ai_family i \<noteq> AF_INET) (snd (os_getaddrinfo sample_env [104]))))) 1883
               in (crc = 0 \<or> inprogress) \<and> os_select sample_env \<noteq> -1 \<and> os_select sample_env \<noteq> 0))"
  by (rule network_connect_effects [where a = "\<lparr>ai_family = 2, ai_addr = 7\<rparr>"])
    (simp_all add: sample_env_def AF_INET_def)

end
