(* ===== verification/Mqtt_Client.thy ===== *)
theory Mqtt_Client
  imports Mqtt_Subscribe Mqtt_Platform
begin

unbundle bit_operations_syntax

text \<open>
  \<^verbatim>\<open>mqttclient_c/src/MQTTClient.c\<close> and the types of \<^verbatim>\<open>MQTTClient.h\<close>: the client proper. Every
  operation takes the environment, the client and the world and returns its C result with both;
  \<open>None\<close> is a fault or, in the loops, no return.

  Conventions: the two packet buffers are separate objects; a topic filter is the bytes of the C
  string it points to; a message handler is a number, \<open>None\<close> the null pointer, and calling one
  appends it with its arguments to \<open>calls\<close> (the handler's own effects are not modelled). The
  locals that C leaves uninitialised before a parser fills them in are given by the environment
  (\<open>locals_publish\<close>, \<open>locals_ack\<close>), so a parser that fails to set them is visible. The
  library is built without \<open>MQTT_TASK\<close>, so there is no mutex.
\<close>

section \<open>Data\<close>

definition MAX_PACKET_ID :: u32 where "MAX_PACKET_ID = 65535"
definition MAX_MESSAGE_HANDLERS :: nat where "MAX_MESSAGE_HANDLERS = 50"

definition BUFFER_OVERFLOW :: int where "BUFFER_OVERFLOW = -2"
definition FAILURE :: int where "FAILURE = -1"
definition SUCCESS :: int where "SUCCESS = 0"

definition QOS0 :: int where "QOS0 = 0"
definition QOS1 :: int where "QOS1 = 1"
definition QOS2 :: int where "QOS2 = 2"
definition SUBFAIL :: int where "SUBFAIL = 128"

record MQTTMessage =
  m_qos :: int
  m_retained :: byte
  m_dup :: byte
  m_id :: u16
  m_payload :: "byte list option"
  m_payloadlen :: int

record MessageData =
  md_message :: MQTTMessage
  md_topicName :: MQTTString

record MQTTConnackData =
  cd_rc :: byte
  cd_sessionPresent :: byte

record MQTTSubackData =
  sd_grantedQoS :: int

text \<open>
  A slot of the handler table. The C slot keeps the caller's pointer to the filter and compares strings through it; here the slot
  keeps the bytes, so the model speaks of callers that leave a filter as it was for as long as it is in the table.
\<close>

record MessageHandlers =
  topicFilter :: "byte list option"
  fp :: "nat option"

record MQTTClient =
  next_packetid :: u32
  command_timeout_ms :: u32
  buf_size :: int
  readbuf_size :: int
  sendbuf :: mem
  readbuf :: mem
  keepAliveInterval :: u32
  ping_outstanding :: bool
  isconnected :: bool
  cleansession :: byte
  messageHandlers :: "MessageHandlers list"
  defaultMessageHandler :: "nat option"
  ipstack :: Network
  last_sent :: Timer
  last_received :: Timer
  calls :: "(nat \<times> MessageData) list"

record client_env =
  os :: environment
  locals_publish :: publish_out
  locals_ack :: ack_out

type_synonym 'a result = "('a \<times> MQTTClient \<times> world) option"

text \<open>Conversions of the callers: \<open>size_t\<close> to \<open>int\<close>, and the 64-bit wrap of \<open>size_t\<close>.\<close>

definition to_int :: "int \<Rightarrow> int" where "to_int n = signed_take_bit 31 n"
definition to_size :: "int \<Rightarrow> int" where "to_size n = n mod 2 ^ 64"

section \<open>Sending\<close>

definition NewMessageData :: "MQTTString \<Rightarrow> MQTTMessage \<Rightarrow> MessageData" where
  "NewMessageData aTopicName aMessage = \<lparr>md_message = aMessage, md_topicName = aTopicName\<rparr>"

definition getNextPacketId :: "MQTTClient \<Rightarrow> u32 \<times> MQTTClient" where
  "getNextPacketId c =
     (let n = (if next_packetid c = MAX_PACKET_ID then 1 else next_packetid c + 1)
      in (n, c\<lparr>next_packetid := n\<rparr>))"

partial_function (option) send_loop ::
  "environment \<Rightarrow> MQTTClient \<Rightarrow> int \<Rightarrow> Timer \<Rightarrow> int \<Rightarrow> bool \<Rightarrow> world \<Rightarrow> (int \<times> world) option" where
  "send_loop env c len timer sent isexpired w =
     (if sent < len \<and> \<not> isexpired
      then let (left, w1) = TimerLeftMS env timer w
           in case mqttwrite (ipstack c) env (sendbuf c) (nat sent) len left w1 of
               None \<Rightarrow> None
             | Some (rc, w2) \<Rightarrow>
                 if rc < 0 then Some (sent, w2)
                 else let (ex, w3) = TimerIsExpired env timer w2
                      in send_loop env c len timer (sent + rc) ex w3
      else Some (sent, w))"

definition sendPacket :: "environment \<Rightarrow> MQTTClient \<Rightarrow> int \<Rightarrow> Timer \<Rightarrow> world \<Rightarrow> int result" where
  "sendPacket env c len timer w =
     do { let (isexpired, w) = TimerIsExpired env timer w;
          (sent, w) \<leftarrow> send_loop env c len timer 0 isexpired w;
          if sent = len
          then let (t, w) = TimerCountdown env (last_sent c) (keepAliveInterval c) w
               in Some (SUCCESS, c\<lparr>last_sent := t\<rparr>, w)
          else Some (FAILURE, c, w) }"

definition MQTTClientInit ::
  "MQTTClient \<Rightarrow> Network \<Rightarrow> u32 \<Rightarrow> mem \<Rightarrow> int \<Rightarrow> mem \<Rightarrow> int \<Rightarrow> MQTTClient" where
  "MQTTClientInit c network timeout_ms sendb sendbuf_size readb readb_size =
     c\<lparr>ipstack := network,
       messageHandlers := map (\<lambda>h. h\<lparr>topicFilter := None\<rparr>) (messageHandlers c),
       command_timeout_ms := timeout_ms,
       sendbuf := sendb, buf_size := sendbuf_size,
       readbuf := readb, readbuf_size := readb_size,
       isconnected := False, cleansession := 0, ping_outstanding := False,
       defaultMessageHandler := None, next_packetid := 1,
       last_sent := TimerInit (last_sent c), last_received := TimerInit (last_received c)\<rparr>"

section \<open>Receiving\<close>

text \<open>The byte is read into the local \<open>i\<close>, an object of one byte.\<close>

function decodePacket_loop ::
  "environment \<Rightarrow> MQTTClient \<Rightarrow> int \<Rightarrow> nat \<Rightarrow> int \<Rightarrow> int \<Rightarrow> world \<Rightarrow> (nat \<times> int \<times> world) option" where
  "decodePacket_loop env c timeout len multiplier value w =
     (if len + 1 > MAX_NO_OF_REMAINING_LENGTH_BYTES then Some (len + 1, value, w)
      else case mqttread (ipstack c) env [0] 0 1 timeout w of
          None \<Rightarrow> None
        | Some (rc, b, w') \<Rightarrow>
            (if rc \<noteq> 1 then Some (len + 1, value, w')
             else case load8 b 0 of
                 None \<Rightarrow> None
               | Some i \<Rightarrow>
                   (let value' = value + uint (i AND 127) * multiplier
                    in if i AND 128 \<noteq> 0
                       then decodePacket_loop env c timeout (len + 1) (multiplier * 128) value' w'
                       else Some (len + 1, value', w'))))"
  by pat_completeness auto
termination
  by (relation "measure (\<lambda>(env, c, timeout, len, m, v, w). MAX_NO_OF_REMAINING_LENGTH_BYTES - len)") auto

definition decodePacket :: "environment \<Rightarrow> MQTTClient \<Rightarrow> int \<Rightarrow> world \<Rightarrow> (nat \<times> int \<times> world) option" where
  "decodePacket env c timeout w = decodePacket_loop env c timeout 0 1 0 w"

text \<open>The last step of \<open>readPacket\<close>: the packet type and the keep-alive bookkeeping.\<close>

definition readPacket_done :: "environment \<Rightarrow> MQTTClient \<Rightarrow> world \<Rightarrow> int result" where
  "readPacket_done env c w =
     do { b \<leftarrow> load8 (readbuf c) 0;
          if keepAliveInterval c > 0
          then let (lastsent, w) = TimerIsExpired env (last_sent c) w;
                   (lastreceived, w) = TimerIsExpired env (last_received c) w;
                   (t, w) = TimerCountdown env (last_received c) (keepAliveInterval c) w
               in Some (uint (header_type b), c\<lparr>last_received := t\<rparr>, w)
          else Some (uint (header_type b), c, w) }"

definition readPacket :: "environment \<Rightarrow> MQTTClient \<Rightarrow> Timer \<Rightarrow> world \<Rightarrow> int result" where
  "readPacket env c timer w =
     do { let (left, w) = TimerLeftMS env timer w;
          (rc, rb, w) \<leftarrow> mqttread (ipstack c) env (readbuf c) 0 1 left w;
          let c = c\<lparr>readbuf := rb\<rparr>;
          if rc \<noteq> 1 then Some (rc, c, w)
          else do {
            let (left, w) = TimerLeftMS env timer w;
            (_, rem_len, w) \<leftarrow> decodePacket env c left w;
            (n, rb) \<leftarrow> MQTTPacket_encode (readbuf c) 1 rem_len;
            let c = c\<lparr>readbuf := rb\<rparr>;
            let len = 1 + n;
            if rem_len > to_size (readbuf_size c - int len) then Some (BUFFER_OVERFLOW, c, w)
            else if rem_len > 0
            then do {
              let (left, w) = TimerLeftMS env timer w;
              (rd, rb, w) \<leftarrow> mqttread (ipstack c) env (readbuf c) len rem_len left w;
              let c = c\<lparr>readbuf := rb\<rparr>;
              if rd \<noteq> rem_len then Some (0, c, w) else readPacket_done env c w
            }
            else readPacket_done env c w
          } }"

section \<open>Delivery\<close>

text \<open>
  \<open>isTopicMatched\<close>: \<open>curf\<close> is what is left of the filter (the end of the list is its NUL), \<open>curn\<close>
  an offset into the topic's data and \<open>curn_end\<close> the end of the topic. 47, 43 and 35 are the
  separator and the two wildcards. The inner loop of the single-level wildcard is
  \<open>skip_level\<close>.
\<close>

function skip_level :: "byte list \<Rightarrow> int \<Rightarrow> nat \<Rightarrow> nat option" where
  "skip_level data curn_end curn =
     (if int (curn + 1) < curn_end
      then case load8 data (curn + 1) of
          None \<Rightarrow> None
        | Some b \<Rightarrow> if b \<noteq> 47 then skip_level data curn_end (curn + 1) else Some curn
      else Some curn)"
  by pat_completeness auto
termination
  by (relation "measure (\<lambda>(data, e, curn). nat (e - int curn))") auto

fun match_loop :: "byte list \<Rightarrow> int \<Rightarrow> byte list \<Rightarrow> nat \<Rightarrow> bool option" where
  "match_loop data curn_end [] curn = Some (int curn = curn_end)"
| "match_loop data curn_end (f # curf) curn =
     (if int curn < curn_end
      then do {
        b \<leftarrow> load8 data curn;
        if b = 47 \<and> f \<noteq> 47 then Some False
        else if f \<noteq> 43 \<and> f \<noteq> 35 \<and> f \<noteq> b then Some False
        else if f = 43
        then do { curn \<leftarrow> skip_level data curn_end curn; match_loop data curn_end curf (curn + 1) }
        else if f = 35 then match_loop data curn_end curf (nat curn_end)
        else match_loop data curn_end curf (curn + 1)
      }
      else Some False)"

definition isTopicMatched :: "byte list \<Rightarrow> MQTTString \<Rightarrow> bool option" where
  "isTopicMatched filt topicName =
     match_loop (case ls_data (lenstring topicName) of Some d \<Rightarrow> d | None \<Rightarrow> [])
       (ls_len (lenstring topicName)) filt 0"

definition handler_matches :: "MessageHandlers \<Rightarrow> MQTTString \<Rightarrow> bool option" where
  "handler_matches h topicName =
     (case topicFilter h of
        None \<Rightarrow> Some False
      | Some t \<Rightarrow> do { eq \<leftarrow> MQTTPacket_equals topicName t;
                       if eq then Some True else isTopicMatched t topicName })"

text \<open>The handlers called by the loop over \<open>messageHandlers\<close>, in order.\<close>

fun deliver_loop :: "MessageHandlers list \<Rightarrow> MQTTString \<Rightarrow> nat list option" where
  "deliver_loop [] topicName = Some []"
| "deliver_loop (h # hs) topicName =
     do { m \<leftarrow> handler_matches h topicName;
          rest \<leftarrow> deliver_loop hs topicName;
          Some (case fp h of Some f \<Rightarrow> if m then f # rest else rest | None \<Rightarrow> rest) }"

definition deliverMessage ::
  "MQTTClient \<Rightarrow> MQTTString \<Rightarrow> MQTTMessage \<Rightarrow> (int \<times> MQTTClient) option" where
  "deliverMessage c topicName message =
     do { fs \<leftarrow> deliver_loop (messageHandlers c) topicName;
          let md = NewMessageData topicName message;
          let c = c\<lparr>calls := calls c @ map (\<lambda>f. (f, md)) fs\<rparr>;
          if fs \<noteq> [] then Some (SUCCESS, c)
          else case defaultMessageHandler c of
              Some f \<Rightarrow> Some (SUCCESS, c\<lparr>calls := calls c @ [(f, md)]\<rparr>)
            | None \<Rightarrow> Some (FAILURE, c) }"

section \<open>Keep-alive and the dispatch cycle\<close>

definition keepalive :: "environment \<Rightarrow> MQTTClient \<Rightarrow> world \<Rightarrow> int result" where
  "keepalive env c w =
     (if keepAliveInterval c = 0 then Some (SUCCESS, c, w)
      else let res = TimerAddSecond (last_received c) 2;
               (sent_ex, w) = TimerIsExpired env (last_sent c) w;
               (due, w) = (if sent_ex then (True, w) else TimerIsExpired env res w)
           in if \<not> due then Some (SUCCESS, c, w)
              else if ping_outstanding c then Some (FAILURE, c, w)
              else do {
                let timer = TimerInit \<lparr>end_time = \<lparr>tv_sec = 0, tv_usec = 0\<rparr>\<rparr>;
                let (timer, w) = TimerCountdownMS env timer 1000 w;
                (len, b) \<leftarrow> MQTTSerialize_pingreq (sendbuf c) (to_int (buf_size c));
                let c = c\<lparr>sendbuf := b\<rparr>;
                if len > 0
                then do {
                  (rc, c, w) \<leftarrow> sendPacket env c len timer w;
                  Some (rc, if rc = SUCCESS then c\<lparr>ping_outstanding := True\<rparr> else c, w)
                }
                else Some (SUCCESS, c, w)
              })"

definition MQTTCleanSession :: "MQTTClient \<Rightarrow> MQTTClient" where
  "MQTTCleanSession c =
     c\<lparr>messageHandlers := map (\<lambda>h. h\<lparr>topicFilter := None\<rparr>) (messageHandlers c)\<rparr>"

definition MQTTCloseSession :: "MQTTClient \<Rightarrow> MQTTClient" where
  "MQTTCloseSession c =
     (let c = c\<lparr>ping_outstanding := False, isconnected := False\<rparr>
      in if cleansession c \<noteq> 0 then MQTTCleanSession c else c)"

text \<open>
  The cases of the \<open>switch\<close> in \<open>cycle\<close>. Each returns \<open>rc\<close> and whether it leaves with
  \<open>goto exit\<close> (\<open>True\<close>) or with \<open>break\<close>. The parser stores the payload length through an
  \<open>int\<close> pointer into a zeroed \<open>size_t\<close>.
\<close>

definition cycle_publish :: "client_env \<Rightarrow> MQTTClient \<Rightarrow> Timer \<Rightarrow> world \<Rightarrow> (int \<times> bool) result" where
  "cycle_publish G c timer w =
     do { (ok, out) \<leftarrow> MQTTDeserialize_publish (locals_publish G) (readbuf c) (to_int (readbuf_size c));
          if ok \<noteq> 1 then Some ((SUCCESS, True), c, w)
          else do {
            let msg = \<lparr>m_qos = po_qos out, m_retained = po_retained out, m_dup = po_dup out,
                       m_id = po_packetid out, m_payload = po_payload out,
                       m_payloadlen = po_payloadlen out mod 2 ^ 32\<rparr>;
            (_, c) \<leftarrow> deliverMessage c (po_topicName out) msg;
            if m_qos msg = QOS0 then Some ((SUCCESS, False), c, w)
            else do {
              (len, b) \<leftarrow>
                (if m_qos msg = QOS1
                 then MQTTSerialize_ack (sendbuf c) (to_int (buf_size c)) (msg_code PUBACK) 0 (m_id msg)
                 else if m_qos msg = QOS2
                 then MQTTSerialize_ack (sendbuf c) (to_int (buf_size c)) (msg_code PUBREC) 0 (m_id msg)
                 else Some (0, sendbuf c));
              let c = c\<lparr>sendbuf := b\<rparr>;
              if len \<le> 0 then Some ((FAILURE, True), c, w)
              else do {
                (rc, c, w) \<leftarrow> sendPacket (os G) c len timer w;
                Some ((rc, rc = FAILURE), c, w)
              }
            }
          } }"

definition cycle_ack ::
  "client_env \<Rightarrow> msgTypes \<Rightarrow> MQTTClient \<Rightarrow> Timer \<Rightarrow> world \<Rightarrow> (int \<times> bool) result" where
  "cycle_ack G reply c timer w =
     do { (ok, out) \<leftarrow> MQTTDeserialize_ack (locals_ack G) (readbuf c) (to_int (readbuf_size c));
          if ok \<noteq> 1 then Some ((FAILURE, True), c, w)
          else do {
            (len, b) \<leftarrow> MQTTSerialize_ack (sendbuf c) (to_int (buf_size c)) (msg_code reply) 0 (ao_packetid out);
            let c = c\<lparr>sendbuf := b\<rparr>;
            if len \<le> 0 then Some ((FAILURE, True), c, w)
            else do {
              (rc, c, w) \<leftarrow> sendPacket (os G) c len timer w;
              if rc \<noteq> SUCCESS then Some ((FAILURE, True), c, w) else Some ((SUCCESS, False), c, w)
            }
          } }"

definition type_is :: "int \<Rightarrow> msgTypes \<Rightarrow> bool" where
  "type_is n t \<longleftrightarrow> n = uint (msg_code t)"

definition cycle_switch ::
  "client_env \<Rightarrow> int \<Rightarrow> MQTTClient \<Rightarrow> Timer \<Rightarrow> world \<Rightarrow> (int \<times> bool) result" where
  "cycle_switch G packet_type c timer w =
     (if packet_type = 0 \<or> type_is packet_type CONNACK \<or> type_is packet_type PUBACK \<or>
         type_is packet_type SUBACK \<or> type_is packet_type UNSUBACK \<or> type_is packet_type PUBCOMP
      then Some ((SUCCESS, False), c, w)
      else if type_is packet_type PUBLISH then cycle_publish G c timer w
      else if type_is packet_type PUBREC then cycle_ack G PUBREL c timer w
      else if type_is packet_type PUBREL then cycle_ack G PUBCOMP c timer w
      else if type_is packet_type PINGRESP
      then Some ((SUCCESS, False), c\<lparr>ping_outstanding := False\<rparr>, w)
      else Some ((packet_type, True), c, w))"

definition cycle :: "client_env \<Rightarrow> MQTTClient \<Rightarrow> Timer \<Rightarrow> world \<Rightarrow> int result" where
  "cycle G c timer w =
     do { (packet_type, c, w) \<leftarrow> readPacket (os G) c timer w;
          ((rc, leave), c, w) \<leftarrow> cycle_switch G packet_type c timer w;
          (rc, c, w) \<leftarrow>
            (if leave then Some (rc, c, w)
             else do { (k, c, w) \<leftarrow> keepalive (os G) c w;
                       Some (if k \<noteq> SUCCESS then FAILURE else rc, c, w) });
          if rc = SUCCESS then Some (packet_type, c, w)
          else Some (rc, if isconnected c then MQTTCloseSession c else c, w) }"

partial_function (option) yield_loop ::
  "client_env \<Rightarrow> Timer \<Rightarrow> MQTTClient \<Rightarrow> world \<Rightarrow> int result" where
  "yield_loop G timer c w =
     (case cycle G c timer w of
        None \<Rightarrow> None
      | Some (rc, c1, w1) \<Rightarrow>
          if rc < 0 then Some (FAILURE, c1, w1)
          else let (ex, w2) = TimerIsExpired (os G) timer w1
               in if ex then Some (SUCCESS, c1, w2) else yield_loop G timer c1 w2)"

text \<open>Every API call starts its own timer with \<open>TimerInit\<close> and \<open>TimerCountdownMS\<close>.\<close>

definition start_timer :: "environment \<Rightarrow> u32 \<Rightarrow> world \<Rightarrow> Timer \<times> world" where
  "start_timer env ms w = TimerCountdownMS env (TimerInit \<lparr>end_time = \<lparr>tv_sec = 0, tv_usec = 0\<rparr>\<rparr>) ms w"

definition MQTTYield :: "client_env \<Rightarrow> MQTTClient \<Rightarrow> int \<Rightarrow> world \<Rightarrow> int result" where
  "MQTTYield G c timeout_ms w =
     (let (timer, w) = start_timer (os G) (of_int timeout_ms) w in yield_loop G timer c w)"

definition MQTTIsConnected :: "MQTTClient \<Rightarrow> bool" where
  "MQTTIsConnected client = isconnected client"

text \<open>\<open>MQTTRun\<close> never returns; \<open>run_steps k\<close> is its state after \<open>k\<close> rounds of the loop.\<close>

fun run_steps :: "nat \<Rightarrow> client_env \<Rightarrow> MQTTClient \<Rightarrow> world \<Rightarrow> (MQTTClient \<times> world) option" where
  "run_steps 0 G c w = Some (c, w)"
| "run_steps (Suc k) G c w =
     do { let (timer, w) = start_timer (os G) 500 w;
          (_, c, w) \<leftarrow> cycle G c timer w;
          run_steps k G c w }"

partial_function (option) waitfor_loop ::
  "client_env \<Rightarrow> int \<Rightarrow> Timer \<Rightarrow> int \<Rightarrow> MQTTClient \<Rightarrow> world \<Rightarrow> int result" where
  "waitfor_loop G packet_type timer rc c w =
     (let (ex, w1) = TimerIsExpired (os G) timer w
      in if ex then Some (rc, c, w1)
         else case cycle G c timer w1 of
             None \<Rightarrow> None
           | Some (rc1, c1, w2) \<Rightarrow>
               if rc1 \<noteq> packet_type \<and> rc1 \<ge> 0 then waitfor_loop G packet_type timer rc1 c1 w2
               else Some (rc1, c1, w2))"

definition waitfor :: "client_env \<Rightarrow> MQTTClient \<Rightarrow> int \<Rightarrow> Timer \<Rightarrow> world \<Rightarrow> int result" where
  "waitfor G c packet_type timer w = waitfor_loop G packet_type timer FAILURE c w"

section \<open>The client interface\<close>

definition MQTTConnectWithResults ::
  "client_env \<Rightarrow> MQTTClient \<Rightarrow> MQTTPacket_connectData option \<Rightarrow> MQTTConnackData \<Rightarrow> world
     \<Rightarrow> (int \<times> MQTTConnackData) result" where
  "MQTTConnectWithResults G c options data w =
     (if isconnected c then Some ((FAILURE, data), c, w)
      else do {
        let (connect_timer, w) = start_timer (os G) (command_timeout_ms c) w;
        let options = (case options of Some x \<Rightarrow> x | None \<Rightarrow> MQTTPacket_connectData_initializer);
        let c = c\<lparr>keepAliveInterval := ucast (c_keepAliveInterval options),
                  cleansession := c_cleansession options\<rparr>;
        let (t, w) = TimerCountdown (os G) (last_received c) (keepAliveInterval c) w;
        let c = c\<lparr>last_received := t\<rparr>;
        (len, b) \<leftarrow> MQTTSerialize_connect (sendbuf c) (to_int (buf_size c)) options;
        let c = c\<lparr>sendbuf := b\<rparr>;
        if len \<le> 0 then Some ((FAILURE, data), c, w)
        else do {
          (rc, c, w) \<leftarrow> sendPacket (os G) c len connect_timer w;
          if rc \<noteq> SUCCESS then Some ((rc, data), c, w)
          else do {
            (t, c, w) \<leftarrow> waitfor G c (uint (msg_code CONNACK)) connect_timer w;
            if type_is t CONNACK
            then do {
              (ok, out) \<leftarrow> MQTTDeserialize_connack \<lparr>ca_sessionPresent = 0, ca_rc = 0\<rparr>
                  (readbuf c) (to_int (readbuf_size c));
              let data = \<lparr>cd_rc = ca_rc out, cd_sessionPresent = ca_sessionPresent out\<rparr>;
              let rc = (if ok = 1 then uint (cd_rc data) else FAILURE);
              Some ((rc, data),
                    if rc = SUCCESS then c\<lparr>isconnected := True, ping_outstanding := False\<rparr> else c, w)
            }
            else Some ((FAILURE, data), c, w)
          }
        }
      })"

definition MQTTConnect ::
  "client_env \<Rightarrow> MQTTClient \<Rightarrow> MQTTPacket_connectData option \<Rightarrow> world \<Rightarrow> int result" where
  "MQTTConnect G c options w =
     do { ((rc, _), c, w) \<leftarrow>
            MQTTConnectWithResults G c options \<lparr>cd_rc = 0, cd_sessionPresent = 0\<rparr> w;
          Some (rc, c, w) }"

text \<open>The \<open>for\<close> loops over the handler table stop at the first slot that satisfies the test.\<close>

fun find_slot :: "(MessageHandlers \<Rightarrow> bool) \<Rightarrow> MessageHandlers list \<Rightarrow> nat" where
  "find_slot P [] = 0"
| "find_slot P (h # hs) = (if P h then 0 else Suc (find_slot P hs))"

definition MQTTSetMessageHandler ::
  "MQTTClient \<Rightarrow> byte list \<Rightarrow> nat option \<Rightarrow> int \<times> MQTTClient" where
  "MQTTSetMessageHandler c topic handler =
     (let hs = messageHandlers c;
          i = find_slot (\<lambda>h. topicFilter h = Some topic) hs;
          rc = (if i < MAX_MESSAGE_HANDLERS then SUCCESS else FAILURE)
      in case handler of
          None \<Rightarrow>
            (rc, if i < MAX_MESSAGE_HANDLERS
                 then c\<lparr>messageHandlers := hs[i := \<lparr>topicFilter = None, fp = None\<rparr>]\<rparr> else c)
        | Some f \<Rightarrow>
            (let (rc, i) =
               (if rc = FAILURE
                then let j = find_slot (\<lambda>h. topicFilter h = None) hs
                     in (if j < MAX_MESSAGE_HANDLERS then SUCCESS else FAILURE, j)
                else (rc, i))
             in (rc, if i < MAX_MESSAGE_HANDLERS
                     then c\<lparr>messageHandlers := hs[i := \<lparr>topicFilter = Some topic, fp = Some f\<rparr>]\<rparr>
                     else c)))"

text \<open>The label \<open>exit\<close> of the calls below: a failed call closes the session.\<close>

definition finish_call :: "int \<Rightarrow> MQTTClient \<Rightarrow> world \<Rightarrow> int result" where
  "finish_call rc c w = Some (rc, if rc = FAILURE then MQTTCloseSession c else c, w)"

definition topic_of :: "byte list \<Rightarrow> MQTTString" where
  "topic_of t = MQTTString_initializer\<lparr>cstring := Some t\<rparr>"

definition MQTTAsyncSubscribe ::
  "client_env \<Rightarrow> MQTTClient \<Rightarrow> byte list \<Rightarrow> int \<Rightarrow> nat option \<Rightarrow> world \<Rightarrow> int result" where
  "MQTTAsyncSubscribe G c filt qos handler w =
     (if \<not> isconnected c then finish_call FAILURE c w
      else do {
        let (timer, w) = start_timer (os G) (command_timeout_ms c) w;
        let (pid, c) = getNextPacketId c;
        (len, b) \<leftarrow> MQTTSerialize_subscribe (sendbuf c) (to_int (buf_size c)) 0 (ucast pid) 1
            [topic_of filt] [qos];
        let c = c\<lparr>sendbuf := b\<rparr>;
        if len \<le> 0 then finish_call FAILURE c w
        else do {
          (rc, c, w) \<leftarrow> sendPacket (os G) c len timer w;
          if rc \<noteq> SUCCESS then finish_call rc c w
          else let (rc, c) = MQTTSetMessageHandler c filt handler in finish_call rc c w
        }
      })"

text \<open>The granted QoS is parsed into \<open>&data->grantedQoS\<close>, an array of one entry.\<close>

definition MQTTSubscribeWithResults ::
  "client_env \<Rightarrow> MQTTClient \<Rightarrow> byte list \<Rightarrow> int \<Rightarrow> nat option \<Rightarrow> MQTTSubackData \<Rightarrow> world
     \<Rightarrow> (int \<times> MQTTSubackData) result" where
  "MQTTSubscribeWithResults G c filt qos handler data w =
     (let finish = (\<lambda>rc data c w. do { (rc, c, w) \<leftarrow> finish_call rc c w; Some ((rc, data), c, w) })
      in if \<not> isconnected c then finish FAILURE data c w
      else do {
        let (timer, w) = start_timer (os G) (command_timeout_ms c) w;
        let (pid, c) = getNextPacketId c;
        (len, b) \<leftarrow> MQTTSerialize_subscribe (sendbuf c) (to_int (buf_size c)) 0 (ucast pid) 1
            [topic_of filt] [qos];
        let c = c\<lparr>sendbuf := b\<rparr>;
        if len \<le> 0 then finish FAILURE data c w
        else do {
          (rc, c, w) \<leftarrow> sendPacket (os G) c len timer w;
          if rc \<noteq> SUCCESS then finish rc data c w
          else do {
            (t, c, w) \<leftarrow> waitfor G c (uint (msg_code SUBACK)) timer w;
            if type_is t SUBACK
            then do {
              (ok, out) \<leftarrow> MQTTDeserialize_suback \<lparr>sa_packetid = 0, sa_count = 0, sa_grantedQoSs = [QOS0]\<rparr> 1
                  (readbuf c) (to_int (readbuf_size c));
              g \<leftarrow> arr_get (sa_grantedQoSs out) 0;
              let data = data\<lparr>sd_grantedQoS := g\<rparr>;
              if ok = 1 \<and> g \<noteq> 128
              then let (rc, c) = MQTTSetMessageHandler c filt handler in finish rc data c w
              else finish rc data c w
            }
            else finish FAILURE data c w
          }
        }
      })"

definition MQTTSubscribe ::
  "client_env \<Rightarrow> MQTTClient \<Rightarrow> byte list \<Rightarrow> int \<Rightarrow> nat option \<Rightarrow> world \<Rightarrow> int result" where
  "MQTTSubscribe G c filt qos handler w = MQTTAsyncSubscribe G c filt qos handler w"

definition MQTTAsyncUnsubscribe :: "client_env \<Rightarrow> MQTTClient \<Rightarrow> byte list \<Rightarrow> world \<Rightarrow> int result" where
  "MQTTAsyncUnsubscribe G c filt w =
     (if \<not> isconnected c then finish_call FAILURE c w
      else do {
        let (timer, w) = start_timer (os G) (command_timeout_ms c) w;
        let (pid, c) = getNextPacketId c;
        (len, b) \<leftarrow> MQTTSerialize_unsubscribe (sendbuf c) (to_int (buf_size c)) 0 (ucast pid) 1 [topic_of filt];
        let c = c\<lparr>sendbuf := b\<rparr>;
        if len \<le> 0 then finish_call FAILURE c w
        else do {
          (rc, c, w) \<leftarrow> sendPacket (os G) c len timer w;
          if rc \<noteq> SUCCESS then finish_call rc c w
          else finish_call rc (snd (MQTTSetMessageHandler c filt None)) w
        }
      })"

definition MQTTUnsubscribe :: "client_env \<Rightarrow> MQTTClient \<Rightarrow> byte list \<Rightarrow> world \<Rightarrow> int result" where
  "MQTTUnsubscribe G c filt w =
     (if \<not> isconnected c then finish_call FAILURE c w
      else do {
        let (timer, w) = start_timer (os G) (command_timeout_ms c) w;
        let (pid, c) = getNextPacketId c;
        (len, b) \<leftarrow> MQTTSerialize_unsubscribe (sendbuf c) (to_int (buf_size c)) 0 (ucast pid) 1 [topic_of filt];
        let c = c\<lparr>sendbuf := b\<rparr>;
        if len \<le> 0 then finish_call FAILURE c w
        else do {
          (rc, c, w) \<leftarrow> sendPacket (os G) c len timer w;
          if rc \<noteq> SUCCESS then finish_call rc c w
          else do {
            (t, c, w) \<leftarrow> waitfor G c (uint (msg_code UNSUBACK)) timer w;
            if type_is t UNSUBACK
            then do {
              (ok, _) \<leftarrow> MQTTDeserialize_unsuback 0 (readbuf c) (to_int (readbuf_size c));
              finish_call rc (if ok = 1 then snd (MQTTSetMessageHandler c filt None) else c) w
            }
            else finish_call FAILURE c w
          }
        }
      })"

text \<open>
  \<open>MQTTAsyncPublish\<close> and the common first part of \<open>MQTTPublish\<close>: the packet is built and sent.
  The message is passed by pointer and gets its identifier; \<open>payload\<close> must hold
  \<open>payloadlen\<close> bytes, a null one only when that is 0.
\<close>

definition publish_send ::
  "client_env \<Rightarrow> MQTTClient \<Rightarrow> byte list \<Rightarrow> MQTTMessage \<Rightarrow> Timer \<Rightarrow> world \<Rightarrow> (int \<times> MQTTMessage) result" where
  "publish_send G c topicName message timer w =
     do { let (message, c) =
            (if m_qos message = QOS1 \<or> m_qos message = QOS2
             then let (pid, c) = getNextPacketId c in (message\<lparr>m_id := ucast pid\<rparr>, c)
             else (message, c));
          (len, b) \<leftarrow> MQTTSerialize_publish (sendbuf c) (to_int (buf_size c)) 0 (m_qos message)
            (m_retained message) (m_id message) (topic_of topicName)
            (case m_payload message of Some p \<Rightarrow> p | None \<Rightarrow> []) (to_int (m_payloadlen message));
          let c = c\<lparr>sendbuf := b\<rparr>;
          if len \<le> 0 then Some ((FAILURE, message), c, w)
          else do {
            (rc, c, w) \<leftarrow> sendPacket (os G) c len timer w;
            Some ((rc, message), c, w)
          } }"

definition MQTTAsyncPublish ::
  "client_env \<Rightarrow> MQTTClient \<Rightarrow> byte list \<Rightarrow> MQTTMessage \<Rightarrow> world \<Rightarrow> int result" where
  "MQTTAsyncPublish G c topicName message w =
     (if \<not> isconnected c then finish_call FAILURE c w
      else do {
        let (timer, w) = start_timer (os G) (command_timeout_ms c) w;
        ((rc, _), c, w) \<leftarrow> publish_send G c topicName message timer w;
        finish_call rc c w
      })"

text \<open>Waiting for the last acknowledgement of a QoS 1 or 2 publication.\<close>

definition publish_await :: "client_env \<Rightarrow> msgTypes \<Rightarrow> Timer \<Rightarrow> MQTTClient \<Rightarrow> world \<Rightarrow> int result" where
  "publish_await G ack timer c w =
     do { (t, c, w) \<leftarrow> waitfor G c (uint (msg_code ack)) timer w;
          if type_is t ack
          then do {
            (ok, _) \<leftarrow> MQTTDeserialize_ack (locals_ack G) (readbuf c) (to_int (readbuf_size c));
            finish_call (if ok \<noteq> 1 then FAILURE else SUCCESS) c w
          }
          else finish_call FAILURE c w }"

definition MQTTPublish ::
  "client_env \<Rightarrow> MQTTClient \<Rightarrow> byte list \<Rightarrow> MQTTMessage \<Rightarrow> world \<Rightarrow> int result" where
  "MQTTPublish G c topicName message w =
     (if \<not> isconnected c then finish_call FAILURE c w
      else do {
        let (timer, w) = start_timer (os G) (command_timeout_ms c) w;
        ((rc, message), c, w) \<leftarrow> publish_send G c topicName message timer w;
        if rc \<noteq> SUCCESS then finish_call rc c w
        else if m_qos message = QOS1 then publish_await G PUBACK timer c w
        else if m_qos message = QOS2 then publish_await G PUBCOMP timer c w
        else finish_call rc c w
      })"

definition MQTTDisconnect :: "client_env \<Rightarrow> MQTTClient \<Rightarrow> world \<Rightarrow> int result" where
  "MQTTDisconnect G c w =
     do { let (timer, w) = start_timer (os G) (command_timeout_ms c) w;
          (len, b) \<leftarrow> MQTTSerialize_disconnect (sendbuf c) (to_int (buf_size c));
          let c = c\<lparr>sendbuf := b\<rparr>;
          (rc, c, w) \<leftarrow> (if len > 0 then sendPacket (os G) c len timer w else Some (FAILURE, c, w));
          Some (rc, MQTTCloseSession c, w) }"

end
