(* ===== verification/Mqtt_Topics.thy ===== *)
theory Mqtt_Topics
  imports Mqtt_Client
begin

text \<open>
  The topic logic of the MQTT client. \<open>isTopicMatched\<close> walks over the two strings byte by byte;
  \<open>level_match\<close> is the specification on the topic levels between separators, and the two
  agree on well-formed filters. The handler table of \<open>MQTTSetMessageHandler\<close> refines a finite map
  from topic filters to handlers, and \<open>deliverMessage\<close> calls the handlers of the matching
  filters.
\<close>

section \<open>Topic levels\<close>

fun levels :: "byte list \<Rightarrow> byte list list" where
  "levels [] = [[]]"
| "levels (c # cs) = (if c = 47 then [] # levels cs else (c # hd (levels cs)) # tl (levels cs))"

fun level_match :: "byte list list \<Rightarrow> byte list list \<Rightarrow> bool" where
  "level_match [] ns = (ns = [])"
| "level_match (f # fs) [] = False"
| "level_match (f # fs) (n # ns) =
     (if f = [35] then fs = [] \<and> n \<noteq> []
      else if f = [43] then n \<noteq> [] \<and> level_match fs ns
      else f = n \<and> level_match fs ns)"

text \<open>The comment in the source: \<open>#\<close> only at the end, wildcards only next to separators.\<close>

fun wf_levels :: "byte list list \<Rightarrow> bool" where
  "wf_levels [] = True"
| "wf_levels (l # ls) =
     ((l = [35] \<and> ls = [] \<or> l = [43] \<or> (35 \<notin> set l \<and> 43 \<notin> set l)) \<and> wf_levels ls)"

text \<open>The matching loop on what is left of the two strings.\<close>

fun lmatch :: "byte list \<Rightarrow> byte list \<Rightarrow> bool" where
  "lmatch [] n = (n = [])"
| "lmatch (f # fs) [] = False"
| "lmatch (f # fs) (b # bs) =
     (if b = 47 \<and> f \<noteq> 47 then False
      else if f = 43 then lmatch fs (dropWhile (\<lambda>x. x \<noteq> 47) bs)
      else if f = 35 then lmatch fs []
      else f = b \<and> lmatch fs bs)"

abbreviation level1 :: "byte list \<Rightarrow> byte list" where "level1 \<equiv> takeWhile (\<lambda>x. x \<noteq> 47)"
abbreviation after1 :: "byte list \<Rightarrow> byte list" where "after1 \<equiv> dropWhile (\<lambda>x. x \<noteq> 47)"

declare skip_level.simps [simp del]

lemma skip_level_drop:
  assumes "e \<le> length data" "curn < e"
  shows "\<exists>k. skip_level data (int e) curn = Some k \<and> curn \<le> k \<and> k < e \<and>
    drop (Suc k) (take e data) = after1 (drop (Suc curn) (take e data))"
  using assms
proof (induction "e - curn" arbitrary: curn rule: less_induct)
  case less
  show ?case
  proof (cases "Suc curn < e")
    case False
    with less.prems show ?thesis by (simp add: skip_level.simps [of _ _ curn])
  next
    case True
    have ld: "load8 data (Suc curn) = Some (data ! Suc curn)"
      using True less.prems by (simp add: load8_def)
    have d: "drop (Suc curn) (take e data) = data ! Suc curn # drop (Suc (Suc curn)) (take e data)"
      using True less.prems by (subst Cons_nth_drop_Suc [symmetric]) simp_all
    show ?thesis
    proof (cases "data ! Suc curn = 47")
      case True
      then show ?thesis using \<open>Suc curn < e\<close> ld d by (simp add: skip_level.simps [of _ _ curn])
    next
      case False
      have "\<exists>k. skip_level data (int e) (Suc curn) = Some k \<and> Suc curn \<le> k \<and> k < e \<and>
          drop (Suc k) (take e data) = after1 (drop (Suc (Suc curn)) (take e data))"
        using True less.prems by (intro less.hyps) auto
      then show ?thesis
        using True False ld d by (auto simp: skip_level.simps [of _ _ curn])
    qed
  qed
qed

lemma match_loop_lmatch:
  assumes "e \<le> length data" "curn \<le> e"
  shows "match_loop data (int e) f curn = Some (lmatch f (drop curn (take e data)))"
  using assms(2)
proof (induction f arbitrary: curn)
  case Nil
  then show ?case using assms(1) by auto
next
  case (Cons c f)
  show ?case
  proof (cases "curn < e")
    case False
    with Cons.prems assms(1) show ?thesis by simp
  next
    case True
    then have d: "drop curn (take e data) = data ! curn # drop (Suc curn) (take e data)"
      using assms(1) by (subst Cons_nth_drop_Suc [symmetric]) simp_all
    have ld: "load8 data curn = Some (data ! curn)" using True assms(1) by (simp add: load8_def)
    obtain k where k: "skip_level data (int e) curn = Some k" "k < e"
      "drop (Suc k) (take e data) = after1 (drop (Suc curn) (take e data))"
      using skip_level_drop [OF assms(1) True] by blast
    have k': "after1 (drop (Suc curn) (take e data)) = drop (Suc k) (take e data)" using k(3) by simp
    show ?thesis
      using True ld k(1,2) Cons.IH [of "Suc k"] Cons.IH [of e] Cons.IH [of "Suc curn"] assms(1)
      by (simp add: d k')
  qed
qed

lemma levels_ne [simp]: "levels s \<noteq> []"
  by (cases s) simp_all

lemma levels_split: "47 \<notin> set l \<Longrightarrow> levels (l @ 47 # r) = l # levels r"
  by (induction l) auto

lemma levels_single: "47 \<notin> set l \<Longrightarrow> levels l = [l]"
  by (induction l) auto

lemma levels_first:
  "levels s = level1 s # (case after1 s of [] \<Rightarrow> [] | _ # r \<Rightarrow> levels r)"
proof (cases "47 \<in> set s")
  case False
  then have tw: "level1 s = s" and dw: "after1 s = []" by (auto simp: takeWhile_eq_all_conv)
  show ?thesis unfolding tw dw levels_single [OF False] by simp
next
  case True
  then have ne: "after1 s \<noteq> []" by (auto simp: dropWhile_eq_Nil_conv)
  then obtain r where r: "after1 s = 47 # r"
    using hd_dropWhile [of "\<lambda>x. x \<noteq> 47" s] by (cases "after1 s") auto
  have "47 \<notin> set (level1 s)" by (auto dest: set_takeWhileD)
  then show ?thesis
    using levels_split [of "level1 s" r] takeWhile_dropWhile_id [of "\<lambda>x. x \<noteq> 47" s] r by simp
qed

text \<open>One level of the filter against one level of the name.\<close>

lemma lmatch_literal:
  assumes "35 \<notin> set l" "43 \<notin> set l" "47 \<notin> set l" "r = [] \<or> hd r = 47"
  shows "lmatch (l @ r) n \<longleftrightarrow> l = level1 n \<and> lmatch r (after1 n)"
  using assms
proof (induction l arbitrary: n)
  case Nil
  then show ?case by (cases n; cases r) auto
next
  case (Cons c l)
  then show ?case by (cases n) auto
qed

lemma lmatch_plus: "lmatch (43 # r) n \<longleftrightarrow> level1 n \<noteq> [] \<and> lmatch r (after1 n)"
  by (cases n) auto

lemma lmatch_hash: "lmatch [35] n \<longleftrightarrow> level1 n \<noteq> []"
  by (cases n) auto

lemma lmatch_sep: "lmatch (47 # r) s \<longleftrightarrow> (\<exists>s'. s = 47 # s' \<and> lmatch r s')"
  by (cases s) auto

lemma after1_cases: "after1 n = [] \<or> (\<exists>s. after1 n = 47 # s)"
  using hd_dropWhile [of "\<lambda>x. x \<noteq> 47" n] by (cases "after1 n") auto

lemma lmatch_levels: "wf_levels (levels f) \<Longrightarrow> lmatch f n \<longleftrightarrow> level_match (levels f) (levels n)"
proof (induction "length f" arbitrary: f n rule: less_induct)
  case less
  define l where "l = level1 f"
  define r where "r = after1 f"
  have f: "f = l @ r" and l47: "47 \<notin> set l"
    by (simp_all add: l_def r_def) (auto dest: set_takeWhileD)
  have rc: "r = [] \<or> (\<exists>r'. r = 47 # r')" using after1_cases by (simp add: r_def)
  have lv: "levels f = l # (case r of [] \<Rightarrow> [] | _ # r' \<Rightarrow> levels r')"
    using levels_first [of f] by (simp add: l_def r_def)
  have ln: "levels n = level1 n # (case after1 n of [] \<Rightarrow> [] | _ # s \<Rightarrow> levels s)" by (rule levels_first)
  have rest: "lmatch r (after1 n) \<longleftrightarrow>
      level_match (case r of [] \<Rightarrow> [] | _ # r' \<Rightarrow> levels r') (case after1 n of [] \<Rightarrow> [] | _ # s \<Rightarrow> levels s)"
    using rc
  proof
    assume r0: "r = []"
    define s where "s = after1 n"
    show ?thesis unfolding r0 s_def [symmetric] by (cases s) simp_all
  next
    assume "\<exists>r'. r = 47 # r'"
    then obtain r' where r': "r = 47 # r'" by blast
    have "wf_levels (levels r')" using less.prems lv r' by simp
    moreover have "length r' < length f" using f r' by simp
    ultimately have ih: "lmatch r' s \<longleftrightarrow> level_match (levels r') (levels s)" for s
      using less.hyps by blast
    have ne: "\<not> level_match (levels r') []" by (cases "levels r'") auto
    define s where "s = after1 n"
    have "s = [] \<or> (\<exists>s'. s = 47 # s')" unfolding s_def by (rule after1_cases)
    then show ?thesis
      unfolding s_def [symmetric] using r' ih ne by (elim disjE exE) (simp_all add: lmatch_sep)
  qed
  from less.prems lv consider "l = [35]" "r = []" | "l = [43]" | "35 \<notin> set l" "43 \<notin> set l"
    using rc by (auto split: list.splits)
  then show ?case
  proof cases
    case 1
    then show ?thesis using f lv ln by (simp add: lmatch_hash)
  next
    case 2
    then show ?thesis using f lv ln rest by (simp add: lmatch_plus)
  next
    case 3
    have "lmatch (l @ r) n \<longleftrightarrow> l = level1 n \<and> lmatch r (after1 n)"
      using 3 l47 rc by (intro lmatch_literal) auto
    moreover have "l \<noteq> [35]" "l \<noteq> [43]" using 3 by auto
    ultimately show ?thesis using rest unfolding f [symmetric] lv ln by simp
  qed
qed

section \<open>The handler table\<close>

lemma find_slot_less: "find_slot P hs < length hs \<longleftrightarrow> (\<exists>h \<in> set hs. P h)"
  by (induction hs) auto

lemma find_slot_holds: "find_slot P hs < length hs \<Longrightarrow> P (hs ! find_slot P hs)"
  by (induction hs) auto

lemma find_slot_le: "find_slot P hs \<le> length hs"
  by (induction hs) auto

lemma find_slot_first: "i < find_slot P hs \<Longrightarrow> \<not> P (hs ! i)"
  by (induction hs arbitrary: i) (auto simp: nth_Cons split: if_splits nat.splits)

lemma find_slot_unique:
  assumes "i < length hs" "P (hs ! i)" "\<And>j. j < length hs \<Longrightarrow> P (hs ! j) \<Longrightarrow> j = i"
  shows "find_slot P hs = i"
proof -
  have "find_slot P hs < length hs" using assms(1,2) by (auto simp: find_slot_less)
  then show ?thesis using assms(3) find_slot_holds by blast
qed

lemma find_slot_none: "(\<And>j. j < length hs \<Longrightarrow> \<not> P (hs ! j)) \<Longrightarrow> find_slot P hs = length hs"
  using find_slot_holds find_slot_le [of P hs] by (metis le_neq_implies_less)

text \<open>The abstract table: a finite map from topic filters to handlers.\<close>

definition handler_map :: "MessageHandlers list \<Rightarrow> byte list \<Rightarrow> nat option" where
  "handler_map hs t =
     (let i = find_slot (\<lambda>h. topicFilter h = Some t) hs
      in if i < length hs then fp (hs ! i) else None)"

definition handlers_ok :: "MessageHandlers list \<Rightarrow> bool" where
  "handlers_ok hs \<longleftrightarrow> length hs = MAX_MESSAGE_HANDLERS \<and>
     (\<forall>i<length hs. \<forall>j<length hs. \<forall>t. topicFilter (hs ! i) = Some t \<longrightarrow>
        topicFilter (hs ! j) = Some t \<longrightarrow> i = j) \<and>
     (\<forall>h \<in> set hs. topicFilter h \<noteq> None \<longrightarrow> fp h \<noteq> None)"

definition free_slots :: "MessageHandlers list \<Rightarrow> nat" where
  "free_slots hs = length (filter (\<lambda>h. topicFilter h = None) hs)"

lemma handler_map_at:
  assumes "handlers_ok hs" "i < length hs" "topicFilter (hs ! i) = Some t"
  shows "handler_map hs t = fp (hs ! i)"
proof -
  have "find_slot (\<lambda>h. topicFilter h = Some t) hs = i"
    using assms by (intro find_slot_unique) (auto simp: handlers_ok_def)
  with assms(2) show ?thesis by (simp add: handler_map_def)
qed

lemma handler_map_none: "(\<And>h. h \<in> set hs \<Longrightarrow> topicFilter h \<noteq> Some t) \<Longrightarrow> handler_map hs t = None"
  by (auto simp: handler_map_def Let_def find_slot_less)

lemma handler_map_dom:
  assumes "handlers_ok hs"
  shows "handler_map hs t \<noteq> None \<longleftrightarrow> (\<exists>h \<in> set hs. topicFilter h = Some t)"
proof
  assume "\<exists>h \<in> set hs. topicFilter h = Some t"
  then obtain i where i: "i < length hs" "topicFilter (hs ! i) = Some t" by (metis in_set_conv_nth)
  then show "handler_map hs t \<noteq> None"
    using handler_map_at [OF assms i] assms by (auto simp: handlers_ok_def)
next
  assume "handler_map hs t \<noteq> None"
  then show "\<exists>h \<in> set hs. topicFilter h = Some t" using handler_map_none [of hs t] by metis
qed

text \<open>Storing an entry in a slot that held the same topic, or none when the topic is new.\<close>

lemma handlers_update:
  assumes ok: "handlers_ok hs" and i: "i < length hs"
    and here: "topicFilter (hs ! i) = Some t \<or>
      topicFilter (hs ! i) = None \<and> (\<forall>h \<in> set hs. topicFilter h \<noteq> Some t)"
    and new: "n = \<lparr>topicFilter = Some t, fp = Some f\<rparr> \<and> v = Some f \<or>
      n = \<lparr>topicFilter = None, fp = None\<rparr> \<and> v = None"
  shows "handlers_ok (hs[i := n]) \<and> handler_map (hs[i := n]) = (handler_map hs)(t := v)"
proof
  have others: "topicFilter (hs ! j) \<noteq> Some t" if "j < length hs" "j \<noteq> i" for j
    using that ok here i unfolding handlers_ok_def by (metis nth_mem)
  have fpn: "fp h \<noteq> None" if "h \<in> set (hs[i := n])" "topicFilter h \<noteq> None" for h
  proof -
    have "h = n \<or> h \<in> set hs" using that(1) set_update_subset_insert by fastforce
    then show ?thesis using that(2) new ok by (auto simp: handlers_ok_def)
  qed
  show ok': "handlers_ok (hs[i := n])"
    unfolding handlers_ok_def
  proof (intro conjI allI impI ballI)
    show "length (hs[i := n]) = MAX_MESSAGE_HANDLERS" using ok by (simp add: handlers_ok_def)
    show "fp h \<noteq> None" if "h \<in> set (hs[i := n])" "topicFilter h \<noteq> None" for h using fpn that .
    fix j k t' assume "j < length (hs[i := n])" "k < length (hs[i := n])"
      "topicFilter (hs[i := n] ! j) = Some t'" "topicFilter (hs[i := n] ! k) = Some t'"
    then show "j = k"
      using ok others new by (cases "j = i"; cases "k = i") (auto simp: handlers_ok_def)
  qed
  show "handler_map (hs[i := n]) = (handler_map hs)(t := v)"
  proof
    fix t'
    show "handler_map (hs[i := n]) t' = ((handler_map hs)(t := v)) t'"
    proof (cases "t' = t")
      case True
      from new show ?thesis
      proof
        assume n: "n = \<lparr>topicFilter = Some t, fp = Some f\<rparr> \<and> v = Some f"
        then show ?thesis using handler_map_at [OF ok', of i t] i True by simp
      next
        assume n: "n = \<lparr>topicFilter = None, fp = None\<rparr> \<and> v = None"
        have "topicFilter h \<noteq> Some t" if "h \<in> set (hs[i := n])" for h
        proof -
          from that obtain j where j: "j < length hs" "h = hs[i := n] ! j"
            by (metis in_set_conv_nth length_list_update)
          then show ?thesis using others [OF j(1)] n by (cases "j = i") auto
        qed
        from handler_map_none [OF this] n True show ?thesis by simp
      qed
    next
      case False
      show ?thesis
      proof (cases "\<exists>j<length hs. topicFilter (hs ! j) = Some t'")
        case True
        then obtain j where j: "j < length hs" "topicFilter (hs ! j) = Some t'" by blast
        moreover have "j \<noteq> i" using j here \<open>t' \<noteq> t\<close> by auto
        ultimately show ?thesis
          using handler_map_at [OF ok j] handler_map_at [OF ok', of j t'] False by simp
      next
        case none: False
        have "topicFilter h \<noteq> Some t'" if "h \<in> set (hs[i := n])" for h
        proof -
          from that obtain j where j: "j < length hs" "h = hs[i := n] ! j"
            by (metis in_set_conv_nth length_list_update)
          then show ?thesis using none new \<open>t' \<noteq> t\<close> by (cases "j = i") auto
        qed
        moreover have "topicFilter h \<noteq> Some t'" if "h \<in> set hs" for h
          using that none by (metis in_set_conv_nth)
        ultimately show ?thesis using False by (simp add: handler_map_none)
      qed
    qed
  qed
qed

lemma set_handler_cases:
  assumes "handlers_ok (messageHandlers c)" "MQTTSetMessageHandler c t h = (rc, c')"
  shows "handlers_ok (messageHandlers c') \<and>
    (rc = SUCCESS \<and> handler_map (messageHandlers c') = (handler_map (messageHandlers c))(t := h) \<or>
     rc = FAILURE \<and> c' = c \<and> handler_map (messageHandlers c) t = None \<and>
       (h \<noteq> None \<longrightarrow> free_slots (messageHandlers c) = 0))"
proof -
  let ?hs = "messageHandlers c"
  let ?P = "\<lambda>h. topicFilter h = Some t" and ?Q = "\<lambda>h. topicFilter h = None"
  have len: "length ?hs = MAX_MESSAGE_HANDLERS" using assms(1) by (simp add: handlers_ok_def)
  have found: "find_slot ?P ?hs < MAX_MESSAGE_HANDLERS \<longleftrightarrow> (\<exists>h \<in> set ?hs. ?P h)"
    "find_slot ?Q ?hs < MAX_MESSAGE_HANDLERS \<longleftrightarrow> (\<exists>h \<in> set ?hs. ?Q h)"
    by (simp_all add: find_slot_less flip: len)
  note sf = SUCCESS_def FAILURE_def
  show ?thesis
  proof (cases "\<exists>h \<in> set ?hs. ?P h")
    case True
    define i where "i = find_slot ?P ?hs"
    have i: "i < MAX_MESSAGE_HANDLERS" using found(1) True by (simp add: i_def)
    then have "topicFilter (?hs ! i) = Some t" using find_slot_holds [of ?P ?hs] len by (simp add: i_def)
    then show ?thesis
      using handlers_update [OF assms(1), of i t] i assms(2) len
      by (cases h) (auto simp: MQTTSetMessageHandler_def i_def [symmetric] sf)
  next
    case False
    then have no: "\<not> find_slot ?P ?hs < MAX_MESSAGE_HANDLERS" using found(1) by simp
    have none: "handler_map ?hs t = None" using False by (intro handler_map_none) blast
    show ?thesis
    proof (cases h)
      case None
      with no none assms show ?thesis by (simp add: MQTTSetMessageHandler_def sf)
    next
      case (Some f)
      define j where "j = find_slot ?Q ?hs"
      show ?thesis
      proof (cases "j < MAX_MESSAGE_HANDLERS")
        case True
        then have "topicFilter (?hs ! j) = None" using find_slot_holds [of ?Q ?hs] len by (simp add: j_def)
        then show ?thesis
          using handlers_update [OF assms(1), of j t] True False assms(2) len no Some
          by (auto simp: MQTTSetMessageHandler_def j_def [symmetric] sf)
      next
        case full: False
        then have "free_slots ?hs = 0"
          using found(2) by (auto simp: j_def free_slots_def filter_empty_conv)
        with full no none assms Some show ?thesis
          by (simp add: MQTTSetMessageHandler_def j_def [symmetric] sf)
      qed
    qed
  qed
qed

lemma set_handler_keeps:
  "handlers_ok (messageHandlers c) \<Longrightarrow> MQTTSetMessageHandler c t h = (rc, c') \<Longrightarrow>
     handlers_ok (messageHandlers c')"
  using set_handler_cases by blast

section \<open>Delivery\<close>

lemma topic_matched:
  assumes "wf_levels (levels f)" "ls_data (lenstring topic) = Some data"
    and "ls_len (lenstring topic) = int n" "n \<le> length data"
  shows "isTopicMatched f topic = Some (level_match (levels f) (levels (take n data)))"
  using match_loop_lmatch [OF assms(4), of 0 f] lmatch_levels [OF assms(1), of "take n data"] assms(2,3)
  by (simp add: isTopicMatched_def)

text \<open>\<open>strncmp\<close> against a string of the same length compares all bytes.\<close>

lemma strncmp_same_length:
  "length f \<le> length xs \<Longrightarrow> 0 \<notin> set f \<Longrightarrow> strncmp_eq xs (f @ ys) (length f) = Some (take (length f) xs = f)"
proof (induction f arbitrary: xs)
  case (Cons b f)
  then show ?case by (cases xs) auto
qed simp

lemma topic_equals:
  assumes "cstring topic = None" "ls_data (lenstring topic) = Some data" "ls_len (lenstring topic) = int n" "n \<le> length data" "0 \<notin> set f"
  shows "MQTTPacket_equals topic f = Some (take n data = f)"
proof (cases "n = length f")
  case True
  then show ?thesis using assms strncmp_same_length [of f data "[0]"] by (simp add: MQTTPacket_equals_def)
next
  case False
  then have "take n data \<noteq> f" using assms(4) by (metis length_take min.absorb2)
  then show ?thesis using assms False by (simp add: MQTTPacket_equals_def)
qed

text \<open>The slots that are to be called for a topic: their filter is the topic, or matches it level by level.\<close>

definition wants :: "byte list \<Rightarrow> MessageHandlers \<Rightarrow> bool" where
  "wants name h \<longleftrightarrow> fp h \<noteq> None \<and> (\<exists>f. topicFilter h = Some f \<and> (f = name \<or> level_match (levels f) (levels name)))"

definition filters_ok :: "MessageHandlers list \<Rightarrow> bool" where
  "filters_ok hs \<longleftrightarrow> (\<forall>h \<in> set hs. \<forall>f. topicFilter h = Some f \<longrightarrow> 0 \<notin> set f \<and> wf_levels (levels f))"

lemma deliver_loop_wants:
  assumes "cstring topic = None" "ls_data (lenstring topic) = Some data" "ls_len (lenstring topic) = int n" "n \<le> length data" "filters_ok hs"
  shows "deliver_loop hs topic = Some (map (\<lambda>h. the (fp h)) (filter (wants (take n data)) hs))"
  using assms(5)
proof (induction hs)
  case (Cons h hs)
  define m where "m \<longleftrightarrow> (\<exists>f. topicFilter h = Some f \<and> (f = take n data \<or> level_match (levels f) (levels (take n data))))"
  have "handler_matches h topic = Some m"
  proof (cases "topicFilter h")
    case (Some f)
    then have "0 \<notin> set f" "wf_levels (levels f)" using Cons.prems by (auto simp: filters_ok_def)
    then show ?thesis
      using Some topic_equals [OF assms(1-4)] topic_matched [OF _ assms(2-4)] by (auto simp: handler_matches_def m_def)
  qed (simp add: handler_matches_def m_def)
  moreover have "deliver_loop hs topic = Some (map (\<lambda>h. the (fp h)) (filter (wants (take n data)) hs))"
    using Cons by (auto simp: filters_ok_def)
  moreover have "wants (take n data) h \<longleftrightarrow> fp h \<noteq> None \<and> m" by (simp add: wants_def m_def)
  ultimately show ?case by (auto split: option.splits)
qed simp

section \<open>Properties\<close>

text \<open>
  C4. On a filter whose wildcards stand alone in their level (and \<open>#\<close> in the last one), the
  byte-wise loop of \<open>isTopicMatched\<close> never reads outside the topic and computes the match of the
  two level sequences: literal levels must be equal, \<open>+\<close> stands for one non-empty level, \<open>#\<close>
  for the rest of a topic whose next level is not empty.
\<close>

theorem isTopicMatched_levels:
  assumes "wf_levels (levels f)" "ls_data (lenstring topic) = Some data"
    and "ls_len (lenstring topic) = int n" "n \<le> length data"
  shows "isTopicMatched f topic = Some (level_match (levels f) (levels (take n data)))"
  using assms by (rule topic_matched)

theorem isTopicMatched_levels_witness:
  "isTopicMatched [97, 47, 43, 47, 35] \<lparr>cstring = None,
       lenstring = \<lparr>ls_len = 7, ls_data = Some [97, 47, 98, 98, 47, 99, 47, 0]\<rparr>\<rparr> =
     Some (level_match (levels [97, 47, 43, 47, 35]) (levels (take 7 [97, 47, 98, 98, 47, 99, 47, 0])))"
  by (rule isTopicMatched_levels) simp_all

text \<open>
  C3. The fixed table of \<open>MQTTSetMessageHandler\<close> implements a map from topic filters to handlers.
  Starting from a well-formed table, the table stays well-formed; success means that exactly the
  given filter was set or removed; failure leaves the client as it was and happens only when a
  new filter finds no free slot or the filter to remove is not there.
\<close>

theorem set_handler_refines_map:
  assumes "handlers_ok (messageHandlers c)" "MQTTSetMessageHandler c t h = (rc, c')"
  shows "handlers_ok (messageHandlers c') \<and>
    (rc = SUCCESS \<and> handler_map (messageHandlers c') = (handler_map (messageHandlers c))(t := h) \<or>
     rc = FAILURE \<and> c' = c \<and> handler_map (messageHandlers c) t = None \<and>
       (h \<noteq> None \<longrightarrow> free_slots (messageHandlers c) = 0))"
  using set_handler_cases [OF assms] .

definition sample_client :: MQTTClient where
  "sample_client = \<lparr>next_packetid = 1, command_timeout_ms = 3000, buf_size = 64, readbuf_size = 64,
     sendbuf = replicate 64 0, readbuf = replicate 64 0, keepAliveInterval = 60,
     ping_outstanding = False, isconnected = True, cleansession = 1,
     messageHandlers = replicate 50 \<lparr>topicFilter = None, fp = None\<rparr>, defaultMessageHandler = None,
     ipstack = NetworkInit \<lparr>my_socket = 0, mqttread = linux_read, mqttwrite = linux_write\<rparr>,
     last_sent = \<lparr>end_time = \<lparr>tv_sec = 0, tv_usec = 0\<rparr>\<rparr>,
     last_received = \<lparr>end_time = \<lparr>tv_sec = 0, tv_usec = 0\<rparr>\<rparr>, calls = []\<rparr>"

lemma sample_handlers_ok: "handlers_ok (messageHandlers sample_client)"
  by (auto simp: handlers_ok_def sample_client_def MAX_MESSAGE_HANDLERS_def)

theorem set_handler_refines_map_witness:
  "\<exists>rc c'. MQTTSetMessageHandler sample_client [97] (Some 4) = (rc, c') \<and>
    handlers_ok (messageHandlers c') \<and>
    (rc = SUCCESS \<and> handler_map (messageHandlers c') = (handler_map (messageHandlers sample_client))([97] := Some 4) \<or>
     rc = FAILURE \<and> c' = sample_client \<and> handler_map (messageHandlers sample_client) [97] = None \<and>
       (Some (4 :: nat) \<noteq> None \<longrightarrow> free_slots (messageHandlers sample_client) = 0))"
  using set_handler_refines_map [OF sample_handlers_ok, of "[97]" "Some 4"]
  by (cases "MQTTSetMessageHandler sample_client [97] (Some 4)") metis

text \<open>
  C7. \<open>deliverMessage\<close> calls, in table order and once per slot, exactly the handlers whose filter is
  the topic name byte for byte or matches its levels (\<open>wants\<close>), each with the message and its topic;
  the default handler is called exactly when no other one is; and the call fails exactly when
  nothing was called. The topic is one that was parsed from a packet, and the filters of the table are
  C strings whose wildcards stand alone in their level.
\<close>

theorem deliver_calls:
  assumes "cstring topic = None" "ls_data (lenstring topic) = Some data" "ls_len (lenstring topic) = int n" "n \<le> length data"
    "filters_ok (messageHandlers c)"
  shows "deliverMessage c topic msg = Some
     (let md = \<lparr>md_message = msg, md_topicName = topic\<rparr>;
          fs = map (\<lambda>h. the (fp h)) (filter (wants (take n data)) (messageHandlers c));
          called = (if fs \<noteq> [] then fs else case defaultMessageHandler c of Some f \<Rightarrow> [f] | None \<Rightarrow> [])
      in (if called = [] then FAILURE else SUCCESS,
          c\<lparr>calls := calls c @ map (\<lambda>f. (f, md)) called\<rparr>))"
  using deliver_loop_wants [OF assms]
  by (simp add: deliverMessage_def NewMessageData_def Let_def split: option.splits)

theorem deliver_calls_witness:
  "\<exists>c'. deliverMessage (sample_client\<lparr>messageHandlers := [\<lparr>topicFilter = Some [97], fp = Some 4\<rparr>,
        \<lparr>topicFilter = Some [98], fp = Some 5\<rparr>, \<lparr>topicFilter = Some [35], fp = Some 6\<rparr>]\<rparr>)
      \<lparr>cstring = None, lenstring = \<lparr>ls_len = 1, ls_data = Some [98]\<rparr>\<rparr>
      \<lparr>m_qos = 0, m_retained = 0, m_dup = 0, m_id = 0, m_payload = None, m_payloadlen = 0\<rparr> = Some (SUCCESS, c') \<and>
     map fst (calls c') = [5, 6]"
proof -
  let ?c = "sample_client\<lparr>messageHandlers := [\<lparr>topicFilter = Some [97], fp = Some 4\<rparr>,
        \<lparr>topicFilter = Some [98], fp = Some 5\<rparr>, \<lparr>topicFilter = Some [35], fp = Some 6\<rparr>]\<rparr>"
  let ?t = "\<lparr>cstring = None, lenstring = \<lparr>ls_len = 1, ls_data = Some [98]\<rparr>\<rparr> :: MQTTString"
  have "filters_ok (messageHandlers ?c)" by (auto simp: filters_ok_def)
  from deliver_calls [of ?t "[98]" 1 ?c, OF _ _ _ _ this] show ?thesis
    by (simp add: wants_def sample_client_def Let_def)
qed

end
