(* ===== verification/Mqtt_Session.thy ===== *)
theory Mqtt_Session
  imports Mqtt_Topics
begin

text \<open>
  The I/O and session behaviour of the MQTT client. The lemmas about \<open>readPacket\<close> and
  \<open>sendPacket\<close> are proved in the locale \<open>network_io\<close>, from the contract of the network
  functions alone, and used through its interpretation on \<open>linux_read\<close> and \<open>linux_write\<close>. The
  client invariant is preserved by every call of the interface, so it holds in every state
  reachable from \<open>MQTTClientInit\<close>.
\<close>

section \<open>The remaining length read from the network\<close>

text \<open>\<open>decodePacket\<close> is \<open>MQTTPacket_decode\<close> with the network as its byte source.\<close>

definition net_get :: "environment \<Rightarrow> MQTTClient \<Rightarrow> int \<Rightarrow> world getfn" where
  "net_get env c timeout w n = mqttread (ipstack c) env [0] 0 1 timeout w"

declare decodePacket_loop.simps [simp del]

lemma decodePacket_loop_eq:
  "decodePacket_loop env c timeout len m v w = decode_loop (net_get env c timeout) len m v w"
proof (induction env c timeout len m v w rule: decodePacket_loop.induct)
  case (1 env c timeout len m v w)
  show ?case
  proof (cases "mqttread (ipstack c) env [0] 0 1 timeout w")
    case None
    then show ?thesis
      by (simp add: decodePacket_loop.simps [of env c _ len] decode_loop.simps [of _ len] net_get_def)
  next
    case (Some r)
    obtain rc b w' where r: "r = (rc, b, w')" by (cases r) auto
    have ih: "decodePacket_loop env c timeout (len + 1) (m * 128) (v + uint (i AND 127) * m) w' =
        decode_loop (net_get env c timeout) (len + 1) (m * 128) (v + uint (i AND 127) * m) w'"
      if "\<not> MAX_NO_OF_REMAINING_LENGTH_BYTES < len + 1" "rc = 1" "load8 b 0 = Some i" "i AND 128 \<noteq> 0" for i
      using that Some r by (intro 1) auto
    have g: "net_get env c timeout w 1 = Some (rc, b, w')" using Some r by (simp add: net_get_def)
    show ?thesis
      using ih Some r g
      by (cases b)
        (simp_all add: decodePacket_loop.simps [of env c _ len] decode_loop.simps [of _ len] load8_def Let_def)
  qed
qed

lemma decodePacket_eq: "decodePacket env c timeout w = MQTTPacket_decode (net_get env c timeout) w"
  by (simp add: decodePacket_def MQTTPacket_decode_def decodePacket_loop_eq)

lemma read_frame_refl: "read_frame w w" by (simp add: read_frame_def)

lemma read_frame_trans: "read_frame a b \<Longrightarrow> read_frame b c \<Longrightarrow> read_frame a c"
  by (simp add: read_frame_def)

lemma read_frame_tick [simp]: "read_frame w (w\<lparr>w_clock := Suc (w_clock w)\<rparr>)"
  by (simp add: read_frame_def)

lemma write_frame_trans: "write_frame a b \<Longrightarrow> write_frame b c \<Longrightarrow> write_frame a c"
  by (simp add: write_frame_def)

lemma write_frame_tick [simp]: "write_frame w (w\<lparr>w_clock := Suc (w_clock w)\<rparr>)"
  by (simp add: write_frame_def)

lemma TimerLeftMS_world: "TimerLeftMS env timer w = (l, w') \<Longrightarrow> w' = w\<lparr>w_clock := w_clock w + 1\<rparr>"
  by (auto simp: TimerLeftMS_def get_now_def Let_def split: if_splits)

lemma TimerCountdown_world: "TimerCountdown env timer t w = (t', w') \<Longrightarrow> w' = w\<lparr>w_clock := w_clock w + 1\<rparr>"
  by (auto simp: TimerCountdown_def get_now_def)

section \<open>Reading a packet\<close>

text \<open>The value of the bytes of a length field, seven bits of each and the low ones first.\<close>

primrec rem_value :: "byte list \<Rightarrow> nat" where
  "rem_value [] = 0"
| "rem_value (b # bs) = unat (b AND 127) + 128 * rem_value bs"

text \<open>
  What reading a packet makes of the bytes \<open>got\<close> that arrived, in a buffer \<open>rb\<close>: nothing arrived, or a header byte, at most four bytes of
  the length, and as much of the payload as there was. A packet that is too long for the buffer is refused before its payload is read; one
  that was cut short gives 0; and a complete one gives its type, and is in the buffer with its length and its payload.
\<close>

definition packet_read :: "mem \<Rightarrow> int \<Rightarrow> byte list \<Rightarrow> bool" where
  "packet_read rb rc got \<longleftrightarrow>
     got = [] \<and> (rc = 0 \<or> rc = FAILURE) \<or>
     (\<exists>hb lens part. got = hb # lens @ part \<and> length lens \<le> 4 \<and> (\<forall>b \<in> set (butlast lens). b AND 128 \<noteq> 0) \<and>
        (if length rb < 1 + length (enc_rem (rem_value lens)) + rem_value lens then rc = BUFFER_OVERFLOW \<and> part = []
         else if length part < rem_value lens then rc = 0
         else length part = rem_value lens \<and> rc = uint (header_type hb) \<and> (\<exists>rest. rb = packet_of hb part @ rest)))"

lemma packet_readI:
  assumes "got = hb # lens @ part" "length lens \<le> 4" "\<forall>b \<in> set (butlast lens). b AND 128 \<noteq> 0" "length part = rem_value lens"
    "rb = packet_of hb part @ rest"
  shows "packet_read rb (uint (header_type (rb ! 0))) got"
  using assms unfolding packet_read_def by (intro disjI2 exI [of _ hb] exI [of _ lens] exI [of _ part]) (auto simp: packet_of_def)

definition buffers_ok :: "MQTTClient \<Rightarrow> bool" where
  "buffers_ok c \<longleftrightarrow> buf_size c = int (length (sendbuf c)) \<and> readbuf_size c = int (length (readbuf c)) \<and>
     5 \<le> length (readbuf c) \<and> length (readbuf c) < 2 ^ 31 \<and> length (sendbuf c) < 2 ^ 31"

definition read_result :: "MQTTClient \<Rightarrow> world \<Rightarrow> int \<times> MQTTClient \<times> world \<Rightarrow> bool" where
  "read_result c w = (\<lambda>(rc, c', w'). read_frame w w' \<and>
     (\<exists>rb t. c' = c\<lparr>readbuf := rb, last_received := t\<rparr> \<and> length rb = length (readbuf c)) \<and>
     (\<exists>got. w_received w' = w_received w @ got \<and> packet_read (readbuf c') rc got))"

lemma same_received:
  "length rb = n \<Longrightarrow> \<exists>rb' t. c\<lparr>readbuf := rb\<rparr> = c\<lparr>readbuf := rb', last_received := t\<rparr> \<and> length rb' = n"
  by (rule exI [of _ rb], rule exI [of _ "last_received c"]) simp

lemma readPacket_done_result:
  assumes "read_frame w0 w" "length rb = length (readbuf c)" "0 < length rb" "w_received w = w_received w0 @ got"
    "packet_read rb (uint (header_type (rb ! 0))) got"
  shows "\<exists>r. readPacket_done env (c\<lparr>readbuf := rb\<rparr>) w = Some r \<and> read_result c w0 r"
proof -
  have ld: "load8 rb 0 = Some (rb ! 0)"
    using assms(3) by (simp add: load8_def)
  show ?thesis
  proof (cases "keepAliveInterval c > 0")
    case True
    obtain a w1 where 1: "TimerIsExpired env (last_sent c) w = (a, w1)" by fastforce
    obtain b w2 where 2: "TimerIsExpired env (last_received c) w1 = (b, w2)" by fastforce
    obtain t w3 where 3: "TimerCountdown env (last_received c) (keepAliveInterval c) w2 = (t, w3)" by fastforce
    have "read_frame w0 w3" "w_received w3 = w_received w0 @ got"
      using assms(4) assms(1) TimerIsExpired_world [OF 1] TimerIsExpired_world [OF 2] TimerCountdown_world [OF 3]
      by (auto simp: read_frame_def)
    then show ?thesis
      using True 1 2 3 ld assms(2,5) by (auto simp: readPacket_done_def read_result_def)
  next
    case False
    then have "readPacket_done env (c\<lparr>readbuf := rb\<rparr>) w = Some (uint (header_type (rb ! 0)), c\<lparr>readbuf := rb\<rparr>, w)"
      using ld by (simp add: readPacket_done_def)
    then show ?thesis
      using assms same_received [of rb "length (readbuf c)" c] by (simp add: read_result_def)
  qed
qed

definition uses_net :: "read_fn \<Rightarrow> write_fn \<Rightarrow> MQTTClient \<Rightarrow> bool" where
  "uses_net rd wr c \<longleftrightarrow> mqttread (ipstack c) = rd \<and> mqttwrite (ipstack c) = wr"

context network_io
begin

lemma one_byte:
  assumes "env_ok env"
  obtains rc b w' where "rd env [0] 0 1 ms w = Some (rc, [b], w')" "read_frame w w'"
    "w_received w' = w_received w @ (if rc = 1 then [b] else [])"
proof -
  have "\<exists>r. rd env [0] 0 1 ms w = Some r" by (rule rd_total [OF assms]) simp_all
  then obtain r where r: "rd env [0] 0 1 ms w = Some r" by blast
  from rd_post [OF assms r] have "reads_stream [0] 0 1 w r" by simp
  then show thesis
    using r that by (cases r) (auto simp: reads_stream_def length_Suc_conv le_Suc_eq)
qed

lemma decode_total:
  assumes "env_ok env" "uses_net rd wr c"
  shows "\<exists>n v w' lens. decode_loop (net_get env c ms) len m val w = Some (n, v, w') \<and> read_frame w w' \<and>
    w_received w' = w_received w @ lens \<and> length lens \<le> 4 - len \<and> (\<forall>b \<in> set (butlast lens). b AND 128 \<noteq> 0) \<and>
    v = val + int (rem_value lens) * m"
proof (induction "4 - len" arbitrary: len m val w rule: less_induct)
  case less
  obtain rc b w' where r: "rd env [0] 0 1 ms w = Some (rc, [b], w')" "read_frame w w'"
      "w_received w' = w_received w @ (if rc = 1 then [b] else [])"
    using one_byte [OF assms(1)] by blast
  have g: "net_get env c ms w 1 = Some (rc, [b], w')"
    using r(1) assms(2) by (simp add: net_get_def uses_net_def)
  show ?case
  proof (cases "len < 4 \<and> rc = 1 \<and> b AND 128 \<noteq> 0")
    case False
    have "\<exists>n v w' lens. decode_loop (net_get env c ms) len m val w = Some (n, v, w') \<and> read_frame w w' \<and>
        w_received w' = w_received w @ lens \<and> length lens \<le> min 1 (4 - len) \<and> v = val + int (rem_value lens) * m"
    proof (cases "len < 4 \<and> rc = 1")
      case True
      then have "decode_loop (net_get env c ms) len m val w = Some (len + 1, val + uint (b AND 127) * m, w')"
        using False g by (simp add: decode_loop.simps [of _ len] MAX_NO_OF_REMAINING_LENGTH_BYTES_def)
      then show ?thesis
        using True r(2,3) by (intro exI [of _ "len + 1"] exI [of _ "val + uint (b AND 127) * m"] exI [of _ w'] exI [of _ "[b]"]) auto
    next
      case False
      then show ?thesis
        using g r(2,3) read_frame_refl by (auto simp: decode_loop.simps [of _ len] MAX_NO_OF_REMAINING_LENGTH_BYTES_def split: if_splits)
    qed
    then obtain n v w2 lens where d: "decode_loop (net_get env c ms) len m val w = Some (n, v, w2)" "read_frame w w2"
        "w_received w2 = w_received w @ lens" "length lens \<le> min 1 (4 - len)" "v = val + int (rem_value lens) * m" by blast
    then have "butlast lens = []" by (cases lens) auto
    then show ?thesis using d by auto
  next
    case True
    then have "4 - (len + 1) < 4 - len" by auto
    from less [OF this, of "m * 128" "val + uint (b AND 127) * m" w']
    obtain n v w2 lens where d: "decode_loop (net_get env c ms) (len + 1) (m * 128)
        (val + uint (b AND 127) * m) w' = Some (n, v, w2)" "read_frame w' w2" "w_received w2 = w_received w' @ lens"
        "length lens \<le> 4 - (len + 1)" "\<forall>b \<in> set (butlast lens). b AND 128 \<noteq> 0"
        "v = val + uint (b AND 127) * m + int (rem_value lens) * (m * 128)"
      by blast
    have "decode_loop (net_get env c ms) len m val w = Some (n, v, w2)"
      using True g d(1) by (simp add: decode_loop.simps [of _ len] MAX_NO_OF_REMAINING_LENGTH_BYTES_def)
    moreover have "v = val + int (rem_value (b # lens)) * m" by (simp add: d(6) algebra_simps)
    ultimately show ?thesis
      using True r(3) d(3,4,5) read_frame_trans [OF r(2) d(2)] by (intro exI [of _ "b # lens"] exI conjI) auto
  qed
qed

lemma decodePacket_total:
  assumes "env_ok env" "uses_net rd wr c"
  obtains n v w' lens where "decodePacket env c ms w = Some (n, v, w')" "read_frame w w'" "0 \<le> v" "v < 268435456"
    "w_received w' = w_received w @ lens" "length lens \<le> 4" "\<forall>b \<in> set (butlast lens). b AND 128 \<noteq> 0" "v = int (rem_value lens)"
proof -
  obtain n v w' lens where d: "decode_loop (net_get env c ms) 0 1 0 w = Some (n, v, w')" "read_frame w w'"
      "w_received w' = w_received w @ lens" "length lens \<le> 4" "\<forall>b \<in> set (butlast lens). b AND 128 \<noteq> 0" "v = int (rem_value lens)"
    using decode_total [OF assms, of ms 0 1 0 w] by auto
  with decode_loop_bounds [OF d(1)] show thesis
    using that by (simp add: decodePacket_eq MQTTPacket_decode_def)
qed

lemma readPacket_result:
  assumes env: "env_ok env" and net: "uses_net rd wr c" and buf: "buffers_ok c"
  shows "\<exists>r. readPacket env c timer w = Some r \<and> read_result c w r"
proof -
  let ?n = "length (readbuf c)"
  obtain left w1 where l1: "TimerLeftMS env timer w = (left, w1)" by fastforce
  have f1: "read_frame w w1" "w_received w1 = w_received w" using TimerLeftMS_world [OF l1] by simp_all
  have "\<exists>r. rd env (readbuf c) 0 1 left w1 = Some r"
    using buf by (intro rd_total [OF env]) (simp_all add: buffers_ok_def)
  then obtain rc rb w2 where r1: "rd env (readbuf c) 0 1 left w1 = Some (rc, rb, w2)" by auto
  have "reads_stream (readbuf c) 0 1 w1 (rc, rb, w2)"
    using rd_post [OF env r1] buf by (simp add: buffers_ok_def)
  then have rb: "length rb = ?n" "read_frame w1 w2" "rc = -1 \<or> rc = 0 \<or> rc = 1"
      "w_received w2 = w_received w @ (if rc = 1 then [rb ! 0] else [])"
    using f1(2) by (auto simp: reads_stream_def le_Suc_eq length_Suc_conv)
  note f2 = read_frame_trans [OF f1(1) rb(2)]
  show ?thesis
  proof (cases "rc = 1")
    case False
    then have "readPacket env c timer w = Some (rc, c\<lparr>readbuf := rb\<rparr>, w2)"
      using l1 r1 net by (simp add: readPacket_def uses_net_def)
    with rb False f2 same_received [OF rb(1), of c] show ?thesis by (auto simp: read_result_def packet_read_def FAILURE_def)
  next
    case True
    define hb where "hb = rb ! 0"
    obtain left2 w3 where l2: "TimerLeftMS env timer w2 = (left2, w3)" by fastforce
    obtain k v w4 lens where d: "decodePacket env (c\<lparr>readbuf := rb\<rparr>) left2 w3 = Some (k, v, w4)"
      "read_frame w3 w4" "0 \<le> v" "v < 268435456" "w_received w4 = w_received w3 @ lens" "length lens \<le> 4"
      "\<forall>b \<in> set (butlast lens). b AND 128 \<noteq> 0" "v = int (rem_value lens)"
    proof -
      have "uses_net rd wr (c\<lparr>readbuf := rb\<rparr>)" using net by (simp add: uses_net_def)
      from decodePacket_total [OF env this] that show thesis by blast
    qed
    have f4: "read_frame w w4" "w_received w4 = w_received w @ hb # lens"
      using f2 d(2,5) rb(4) True TimerLeftMS_world [OF l2] by (auto simp: read_frame_def hb_def)
    define e where "e = enc_rem (nat v)"
    define rb2 where "rb2 = take 1 rb @ e @ drop (1 + length e) rb"
    have el: "length e \<le> 4" "1 \<le> length e"
      using d(3,4) by (simp_all add: e_def enc_rem_le4 nat_less_iff Suc_le_eq)
    have rb_len: "1 + length e \<le> length rb" "0 < length rb"
      using el rb(1) buf by (auto simp: buffers_ok_def)
    have enc: "MQTTPacket_encode rb 1 v = Some (length e, rb2)"
      using MQTTPacket_encode_put [of rb 1 "nat v"] d(3) put_in [of 1 e rb] rb_len
      by (simp add: e_def [symmetric] rb2_def)
    have rb2: "length rb2 = ?n" "rb2 = hb # e @ drop (1 + length e) rb"
      using rb(1) rb_len by (auto simp: rb2_def hb_def take_Suc_conv_app_nth)
    have sz: "to_size (int ?n - int (1 + length e)) = int ?n - int (1 + length e)"
      using rb_len rb(1) buf by (simp add: to_size_def buffers_ok_def)
    have rp: "readPacket env c timer w =
      (if v > int ?n - int (1 + length e) then Some (BUFFER_OVERFLOW, c\<lparr>readbuf := rb2\<rparr>, w4)
       else if v > 0
       then do {
         let (left, w) = TimerLeftMS env timer w4;
         (rdn, rb, w) \<leftarrow> rd env rb2 (1 + length e) v left w;
         if rdn \<noteq> v then Some (0, c\<lparr>readbuf := rb\<rparr>, w) else readPacket_done env (c\<lparr>readbuf := rb\<rparr>) w
       }
       else readPacket_done env (c\<lparr>readbuf := rb2\<rparr>) w4)"
      using l1 r1 l2 d(1) enc True net sz buf
      by (simp add: readPacket_def uses_net_def buffers_ok_def Let_def)
    consider "v > int ?n - int (1 + length e)" | "v \<le> int ?n - int (1 + length e)" "v = 0"
      | "v \<le> int ?n - int (1 + length e)" "0 < v" using d(3) by linarith
    then show ?thesis
    proof cases
      case 1
      then have "packet_read rb2 BUFFER_OVERFLOW (hb # lens)"
        using d(6,7,8) rb2(1) unfolding packet_read_def
        by (intro disjI2 exI [of _ hb] exI [of _ lens] exI [of _ "[]"]) (simp add: e_def)
      with 1 f4 same_received [OF rb2(1), of c] show ?thesis
        unfolding rp by (simp add: read_result_def)
    next
      case 2
      have "packet_read rb2 (uint (header_type (rb2 ! 0))) (hb # lens)"
        using 2 rb2(2) d(6,7,8) by (intro packet_readI [of _ hb lens "[]"]) (simp_all add: packet_of_def e_def)
      moreover have "0 < length rb2" by (simp add: rb2(2))
      ultimately show ?thesis using readPacket_done_result [OF f4(1) rb2(1) _ f4(2)] 2 unfolding rp by simp
    next
      case 3
      obtain left3 w5 where l3: "TimerLeftMS env timer w4 = (left3, w5)" by fastforce
      have room: "1 + length e + nat v \<le> length rb2" using 3 rb2(1) by linarith
      have "\<exists>r. rd env rb2 (1 + length e) v left3 w5 = Some r" by (rule rd_total [OF env d(3) room])
      then obtain rdn rb3 w6 where r3: "rd env rb2 (1 + length e) v left3 w5 = Some (rdn, rb3, w6)" by auto
      from rd_post [OF env r3 d(3) room] obtain bs where
        bs: "read_frame w5 w6" "rb3 = take (1 + length e) rb2 @ bs @ drop (1 + length e + length bs) rb2"
          "length rb3 = ?n" "w_received w6 = w_received w5 @ bs" "int (length bs) \<le> v"
          "rdn = int (length bs) \<or> (rdn = -1 \<or> rdn = 0) \<and> int (length bs) < v"
        by (auto simp: reads_stream_def rb2(1))
      have f6: "read_frame w w6" "w_received w6 = w_received w @ hb # lens @ bs"
        using f4 bs(1,4) TimerLeftMS_world [OF l3] by (auto simp: read_frame_def)
      show ?thesis
      proof (cases "rdn = v")
        case False
        then have "length bs < rem_value lens" using bs(5,6) d(8) by auto
        then have "packet_read rb3 0 (hb # lens @ bs)"
          using d(6,7,8) 3(1) bs(3) unfolding packet_read_def
          by (intro disjI2 exI [of _ hb] exI [of _ lens] exI [of _ bs]) (simp add: e_def)
        with False 3 l3 r3 f6 same_received [OF bs(3), of c] show ?thesis
          unfolding rp by (simp add: read_result_def)
      next
        case True
        then have "nat v = length bs" using bs(6) 3 by auto
        then have rb3: "rb3 = packet_of hb bs @ drop (1 + length e + length bs) rb2"
          using bs(2) rb2(2) by (simp add: packet_of_def e_def)
        then have "packet_read rb3 (uint (header_type (rb3 ! 0))) (hb # lens @ bs)"
          using d(6,7,8) \<open>nat v = length bs\<close> by (intro packet_readI) auto
        moreover have "0 < length rb3" by (simp add: rb3 packet_of_def)
        ultimately show ?thesis using readPacket_done_result [OF f6(1) bs(3) _ f6(2)] 3 l3 r3 True unfolding rp by simp
      qed
    qed
  qed
qed

lemma send_loop_total:
  assumes env: "env_ok env" and net: "uses_net rd wr c" and t: "timer_ok timer"
    and len: "0 \<le> sent" "0 \<le> len" "2 * nat len \<le> length (sendbuf c)"
  shows "\<exists>s w'. send_loop env c len timer sent ex w = Some (s, w') \<and> write_frame w w'"
proof -
  obtain K where K: "\<And>j. K \<le> j \<Longrightarrow> usecs (end_time timer) \<le> usecs (os_gettimeofday env j)"
    using clock [OF env] unfolding clock_runs_def by blast
  from len(1) show ?thesis
  proof (induction "Suc K - w_clock w" arbitrary: sent ex w rule: less_induct)
    case less
    show ?case
    proof (cases "sent < len \<and> \<not> ex")
      case False
      then have "send_loop env c len timer sent ex w = Some (sent, w)" by (subst send_loop.simps) auto
      then show ?thesis by (simp add: write_frame_def)
    next
      case True
      obtain left w1 where l: "TimerLeftMS env timer w = (left, w1)" by fastforce
      note w1 = TimerLeftMS_world [OF l]
      have "nat sent + nat len \<le> length (sendbuf c)" using True len(3) by linarith
      from wr_total [OF env len(2) this] obtain rc w2 where
        r: "wr env (sendbuf c) (nat sent) len left w1 = Some (rc, w2)" "write_frame w1 w2" by metis
      let ?w3 = "w2\<lparr>w_clock := w_clock w2 + 1\<rparr>"
      define ex2 where "ex2 = (usecs (end_time timer) \<le> clock_at env w2)"
      have ex2: "TimerIsExpired env timer w2 = (ex2, ?w3)"
        using TimerIsExpired_iff [OF _ t] clock [OF env] by (simp add: ex2_def)
      have fr: "write_frame w w2" "write_frame w ?w3" using w1 r(2) by (auto simp: write_frame_def)
      have step: "send_loop env c len timer sent ex w =
          (if rc < 0 then Some (sent, w2) else send_loop env c len timer (sent + rc) ex2 ?w3)"
        using True l r(1) ex2 net by (subst send_loop.simps) (simp add: uses_net_def)
      show ?thesis
      proof (cases "rc < 0 \<or> K \<le> w_clock w2")
        case True
        then have "rc < 0 \<or> ex2" using K by (auto simp: ex2_def)
        then show ?thesis
          using fr send_loop.simps [of env c len timer "sent + rc" ex2 ?w3] unfolding step by auto
      next
        case False
        then have "\<exists>s w'. send_loop env c len timer (sent + rc) ex2 ?w3 = Some (s, w') \<and> write_frame ?w3 w'"
          using less.prems fr(1) by (intro less.hyps) (auto simp: write_frame_def)
        then show ?thesis using False fr(2) write_frame_trans unfolding step by fastforce
      qed
    qed
  qed
qed

lemma sendPacket_total:
  assumes "env_ok env" "uses_net rd wr c" "timer_ok timer" "0 \<le> len" "2 * nat len \<le> length (sendbuf c)"
  shows "\<exists>rc t w'. sendPacket env c len timer w = Some (rc, c\<lparr>last_sent := t\<rparr>, w') \<and>
    (rc = SUCCESS \<or> rc = FAILURE) \<and> write_frame w w'"
proof -
  obtain ex w1 where ex: "TimerIsExpired env timer w = (ex, w1)" by fastforce
  obtain s w2 where s: "send_loop env c len timer 0 ex w1 = Some (s, w2)" "write_frame w1 w2"
    using send_loop_total [OF assms(1-3) order_refl assms(4,5)] by blast
  obtain t w3 where t: "TimerCountdown env (last_sent c) (keepAliveInterval c) w2 = (t, w3)" by fastforce
  have fr: "write_frame w w2" "write_frame w w3"
    using s(2) TimerIsExpired_world [OF ex] TimerCountdown_world [OF t] by (auto simp: write_frame_def)
  show ?thesis
  proof (cases "s = len")
    case True
    with ex s t fr show ?thesis by (auto simp: sendPacket_def)
  next
    case False
    with ex s fr have "sendPacket env c len timer w = Some (FAILURE, c\<lparr>last_sent := last_sent c\<rparr>, w2)"
      by (simp add: sendPacket_def)
    with fr show ?thesis by blast
  qed
qed

end

section \<open>Buffers keep their size\<close>

text \<open>A writer that succeeds leaves the length of the buffer as it was, whatever its arguments.\<close>

definition keeps :: "(cursor \<Rightarrow> cursor option) \<Rightarrow> bool" where
  "keeps f \<longleftrightarrow> (\<forall>c c'. f c = Some c' \<longrightarrow> length (fst c') = length (fst c))"

named_theorems keeps_intros "writers that keep the buffer's size"

lemma keeps_bind [keeps_intros]: "keeps f \<Longrightarrow> (\<And>c. keeps g) \<Longrightarrow> keeps (\<lambda>c. f c \<bind> g)"
  by (force simp: keeps_def split: Option.bind_splits)

lemma keeps_Some [keeps_intros]: "keeps Some"
  by (simp add: keeps_def)

lemma keeps_put [keeps_intros]: "keeps (put bs)"
  by (auto simp: keeps_def put_def split: Option.bind_splits dest: store_bytes_length)

lemma keeps_memcpy [keeps_intros]: "keeps (memcpy_to src n)"
proof (cases "take_n src n")
  case None
  then show ?thesis by (simp add: keeps_def memcpy_to_def)
next
  case (Some bs)
  then show ?thesis by (simp add: memcpy_to_put keeps_put)
qed

lemma keeps_writeMQTTString [keeps_intros]: "keeps (writeMQTTString s)"
proof (cases "0 < ls_len (lenstring s)")
  case True
  show ?thesis
  proof (cases "ls_data (lenstring s)")
    case None
    with True show ?thesis
      by (auto simp: keeps_def writeMQTTString_def split: Option.bind_splits)
  next
    case (Some d)
    with True have "writeMQTTString s = (\<lambda>c. put (int_bytes (ls_len (lenstring s))) c \<bind> memcpy_to d (ls_len (lenstring s)))"
      by (intro ext) (simp add: writeMQTTString_def put_simps)
    then show ?thesis by (auto intro: keeps_intros)
  qed
next
  case False
  then have "writeMQTTString s = put (case cstring s of Some str \<Rightarrow> int_bytes (int (length str)) @ str | None \<Rightarrow> int_bytes 0)"
    by (intro ext) (simp add: writeMQTTString_def put_simps split: option.splits)
  then show ?thesis by (simp add: keeps_put)
qed

lemma encode_loop_length: "encode_loop buf off rc len = Some (n, buf') \<Longrightarrow> length buf' = length buf"
proof (induction buf off rc len rule: encode_loop.induct)
  case (1 buf off rc len)
  obtain b' where b': "store_bytes buf (off + rc)
      [if 0 < len sdiv 128 then of_int (len smod 128) OR 128 else of_int (len smod 128)] = Some b'"
    using "1.prems" by (subst (asm) encode_loop.simps) (auto simp: Let_def split: option.splits)
  have "length b' = length buf" using store_bytes_length [OF b'] .
  moreover have "length buf' = length b'"
  proof (cases "0 < len sdiv 128")
    case True
    have "encode_loop b' off (rc + 1) (len sdiv 128) = Some (n, buf')"
      using "1.prems" b' True by (subst (asm) encode_loop.simps) (simp add: Let_def)
    then show ?thesis using "1.IH" [OF refl refl refl] b' True by simp
  next
    case False
    with "1.prems" b' show ?thesis by (subst (asm) encode_loop.simps) (simp add: Let_def)
  qed
  ultimately show ?case by simp
qed

lemma keeps_writeRemLen [keeps_intros]: "keeps (writeRemLen len)"
  by (auto simp: keeps_def writeRemLen_def MQTTPacket_encode_def split: Option.bind_splits
      dest: encode_loop_length)

text \<open>The same facts as destruction rules on the result.\<close>

lemma keepsD: "keeps f \<Longrightarrow> f (m, p) = Some (m', p') \<Longrightarrow> length m' = length m"
  by (force simp: keeps_def)

lemmas writer_lengths =
  keepsD [OF keeps_put] keepsD [OF keeps_memcpy] keepsD [OF keeps_writeMQTTString]
  keepsD [OF keeps_writeRemLen]

lemma subscribe_loop_length: "subscribe_loop k i ts qs (m, p) = Some (m', p') \<Longrightarrow> length m' = length m"
  by (induction k arbitrary: i m p) (auto simp: put_simps split: Option.bind_splits dest!: writer_lengths)

lemma unsubscribe_loop_length: "unsubscribe_loop k i ts (m, p) = Some (m', p') \<Longrightarrow> length m' = length m"
  by (induction k arbitrary: i m p) (auto split: Option.bind_splits dest!: writer_lengths)

lemmas ser_lengths = writer_lengths subscribe_loop_length unsubscribe_loop_length

lemma ack_length: "MQTTSerialize_ack buf n t d i = Some (rc, buf') \<Longrightarrow> length buf' = length buf"
  by (auto simp: MQTTSerialize_ack_def writeChar_put writeInt_put
      split: Option.bind_splits if_splits dest!: ser_lengths)

lemma zero_length: "MQTTSerialize_zero buf n t = Some (rc, buf') \<Longrightarrow> length buf' = length buf"
  by (auto simp: MQTTSerialize_zero_def writeChar_put
      split: Option.bind_splits if_splits dest!: ser_lengths)

lemma publish_length:
  "MQTTSerialize_publish buf n d q r i t p k = Some (rc, buf') \<Longrightarrow> length buf' = length buf"
  by (auto simp: MQTTSerialize_publish_def Let_def writeChar_put writeInt_put
      split: Option.bind_splits if_splits dest!: ser_lengths)

lemma connect_length: "MQTTSerialize_connect buf n a = Some (rc, buf') \<Longrightarrow> length buf' = length buf"
  by (auto simp: MQTTSerialize_connect_def Let_def writeChar_put writeInt_put writeCString_put
      split: Option.bind_splits if_splits dest!: ser_lengths)

lemma subscribe_length:
  "MQTTSerialize_subscribe buf n d i k ts qs = Some (rc, buf') \<Longrightarrow> length buf' = length buf"
  by (auto simp: MQTTSerialize_subscribe_def writeChar_put writeInt_put
      split: Option.bind_splits if_splits dest!: ser_lengths)

lemma unsubscribe_length:
  "MQTTSerialize_unsubscribe buf n d i k ts = Some (rc, buf') \<Longrightarrow> length buf' = length buf"
  by (auto simp: MQTTSerialize_unsubscribe_def writeChar_put writeInt_put
      split: Option.bind_splits if_splits dest!: ser_lengths)

lemmas packet_lengths = ack_length publish_length connect_length subscribe_length unsubscribe_length
  zero_length [of _ _ "msg_code PINGREQ", folded MQTTSerialize_pingreq_def]
  zero_length [of _ _ "msg_code DISCONNECT", folded MQTTSerialize_disconnect_def]

section \<open>The client invariant\<close>

definition client_inv :: "MQTTClient \<Rightarrow> bool" where
  "client_inv c \<longleftrightarrow> handlers_ok (messageHandlers c) \<and>
     0 < next_packetid c \<and> next_packetid c \<le> MAX_PACKET_ID \<and>
     buffers_ok c \<and> uses_net linux_read linux_write c"

lemmas client_inv_defs = client_inv_def buffers_ok_def uses_net_def

lemma client_inv_update [simp]:
  "client_inv (c\<lparr>last_sent := t\<rparr>) = client_inv c"
  "client_inv (c\<lparr>last_received := t\<rparr>) = client_inv c"
  "client_inv (c\<lparr>ping_outstanding := b\<rparr>) = client_inv c"
  "client_inv (c\<lparr>isconnected := b\<rparr>) = client_inv c"
  "client_inv (c\<lparr>cleansession := x\<rparr>) = client_inv c"
  "client_inv (c\<lparr>keepAliveInterval := k\<rparr>) = client_inv c"
  "client_inv (c\<lparr>calls := l\<rparr>) = client_inv c"
  by (simp_all add: client_inv_defs)

lemma client_inv_sendbuf: "client_inv c \<Longrightarrow> length b = length (sendbuf c) \<Longrightarrow> client_inv (c\<lparr>sendbuf := b\<rparr>)"
  by (simp add: client_inv_defs)

lemma client_inv_readbuf: "client_inv c \<Longrightarrow> length b = length (readbuf c) \<Longrightarrow> client_inv (c\<lparr>readbuf := b\<rparr>)"
  by (simp add: client_inv_defs)

lemma handlers_ok_cleared: "length hs = 50 \<Longrightarrow> handlers_ok (map (\<lambda>h. h\<lparr>topicFilter := None\<rparr>) hs)"
  by (auto simp: handlers_ok_def MAX_MESSAGE_HANDLERS_def)

lemma client_inv_close: "client_inv c \<Longrightarrow> client_inv (MQTTCloseSession c)"
proof -
  assume inv: "client_inv c"
  then have "length (messageHandlers c) = 50"
    by (simp add: client_inv_def handlers_ok_def MAX_MESSAGE_HANDLERS_def)
  from handlers_ok_cleared [OF this] inv show ?thesis
    by (cases "cleansession c = 0")
      (simp_all add: MQTTCloseSession_def MQTTCleanSession_def client_inv_defs Let_def)
qed

lemma next_id_range:
  assumes "0 < next_packetid c" "next_packetid c \<le> MAX_PACKET_ID"
  shows "0 < (if next_packetid c = MAX_PACKET_ID then 1 else next_packetid c + 1) \<and>
    (if next_packetid c = MAX_PACKET_ID then 1 else next_packetid c + 1) \<le> MAX_PACKET_ID"
proof (cases "next_packetid c = MAX_PACKET_ID")
  case False
  with assms(2) have "next_packetid c < MAX_PACKET_ID" by (simp add: order_less_le)
  then have lt: "uint (next_packetid c) < 65535" by (simp add: MAX_PACKET_ID_def word_less_def)
  then have "uint (next_packetid c + 1) = uint (next_packetid c) + 1"
    by (simp add: uint_word_ariths)
  with False lt show ?thesis by (simp add: MAX_PACKET_ID_def word_le_def word_less_def)
qed (simp add: MAX_PACKET_ID_def)

lemma client_inv_next: "client_inv c \<Longrightarrow> getNextPacketId c = (n, c') \<Longrightarrow> client_inv c'"
  using next_id_range [of c] by (auto simp: getNextPacketId_def client_inv_defs Let_def)

lemma client_inv_set:
  assumes "client_inv c" "MQTTSetMessageHandler c t h = (rc, c')"
  shows "client_inv c'"
proof -
  have "\<exists>hs. c' = c\<lparr>messageHandlers := hs\<rparr>"
    using assms(2) unfolding MQTTSetMessageHandler_def Let_def
    by (cases h) (auto split: if_splits intro: exI [of _ "messageHandlers c"])
  moreover have "handlers_ok (messageHandlers c')"
    using set_handler_keeps [OF _ assms(2)] assms(1) by (simp add: client_inv_def)
  ultimately show ?thesis using assms(1) by (auto simp: client_inv_defs)
qed

text \<open>Results whose client satisfies the invariant, with one rule per construct of the model.\<close>

definition good :: "'a result \<Rightarrow> bool" where
  "good r \<longleftrightarrow> (\<forall>x c w. r = Some (x, c, w) \<longrightarrow> client_inv c)"

lemma goodD: "good r \<Longrightarrow> r = Some (x, c, w) \<Longrightarrow> client_inv c"
  by (simp add: good_def)

lemma good_Some: "client_inv c \<Longrightarrow> good (Some (x, c, w))"
  by (simp add: good_def)

lemma good_None: "good None"
  by (simp add: good_def)

lemma good_if: "(b \<Longrightarrow> good x) \<Longrightarrow> (\<not> b \<Longrightarrow> good y) \<Longrightarrow> good (if b then x else y)"
  by simp

lemma good_prod: "(\<And>a b. p = (a, b) \<Longrightarrow> good (f a b)) \<Longrightarrow> good (case p of (a, b) \<Rightarrow> f a b)"
  by (cases p) simp

lemma good_bind:
  "good m \<Longrightarrow> (\<And>x c w. m = Some (x, c, w) \<Longrightarrow> client_inv c \<Longrightarrow> good (f x c w)) \<Longrightarrow>
     good (m \<bind> (\<lambda>(x, c, w). f x c w))"
  by (cases m) (auto simp: good_def)

lemma good_bind2:
  "good m \<Longrightarrow> (\<And>x y c w. m = Some ((x, y), c, w) \<Longrightarrow> client_inv c \<Longrightarrow> good (f x y c w)) \<Longrightarrow>
     good (m \<bind> (\<lambda>((x, y), c, w). f x y c w))"
  by (cases m) (auto simp: good_def)

lemma good_pure_bind:
  fixes m :: "(int \<times> 'b) option"
  shows "(\<And>x y. m = Some (x, y) \<Longrightarrow> good (f x y)) \<Longrightarrow> good (m \<bind> (\<lambda>(x, y). f x y))"
  by (cases m) (auto simp: good_None)

lemma good_int_bind:
  fixes m :: "int option"
  shows "(\<And>x. m = Some x \<Longrightarrow> good (f x)) \<Longrightarrow> good (m \<bind> f)"
  by (cases m) (auto simp: good_None)

lemma good_sendPacket:
  "client_inv c \<Longrightarrow> good (sendPacket env c len timer w)"
  by (auto simp: sendPacket_def good_def split: Option.bind_splits if_splits prod.splits)

lemma good_readPacket:
  assumes "client_inv c" "os_ok env"
  shows "good (readPacket env c timer w)"
proof -
  have "uses_net linux_read linux_write c" "buffers_ok c" using assms(1) by (simp_all add: client_inv_def)
  from linux.readPacket_result [OF assms(2) this, of timer w] assms(1) show ?thesis
    by (auto simp: read_result_def good_def client_inv_readbuf)
qed

lemma good_finish: "client_inv c \<Longrightarrow> good (finish_call rc c w)"
  by (simp add: finish_call_def good_def client_inv_close)

lemmas good_pure_binds = good_pure_bind [where 'b = "byte list"] good_pure_bind [where 'b = publish_out]
  good_pure_bind [where 'b = ack_out] good_pure_bind [where 'b = connack_out]
  good_pure_bind [where 'b = suback_out] good_pure_bind [where 'b = u16]
  good_pure_bind [where 'b = MQTTClient]

lemmas good_rules = good_Some good_None good_if good_prod good_pure_binds good_int_bind
  good_sendPacket good_finish good_bind [OF good_sendPacket]

text \<open>The buffer a serializer returned replaces \<open>sendbuf\<close>.\<close>

lemma client_inv_serialized:
  assumes "client_inv c"
  shows "MQTTSerialize_ack (sendbuf c) n t d i = Some (len, b) \<Longrightarrow> client_inv (c\<lparr>sendbuf := b\<rparr>)"
    "MQTTSerialize_pingreq (sendbuf c) n = Some (len, b) \<Longrightarrow> client_inv (c\<lparr>sendbuf := b\<rparr>)"
    "MQTTSerialize_disconnect (sendbuf c) n = Some (len, b) \<Longrightarrow> client_inv (c\<lparr>sendbuf := b\<rparr>)"
    "MQTTSerialize_connect (sendbuf c) n a = Some (len, b) \<Longrightarrow> client_inv (c\<lparr>sendbuf := b\<rparr>)"
    "MQTTSerialize_subscribe (sendbuf c) n d i k ts qs = Some (len, b) \<Longrightarrow> client_inv (c\<lparr>sendbuf := b\<rparr>)"
    "MQTTSerialize_unsubscribe (sendbuf c) n d i k ts = Some (len, b) \<Longrightarrow> client_inv (c\<lparr>sendbuf := b\<rparr>)"
    "MQTTSerialize_publish (sendbuf c) n d q r i tp p k = Some (len, b) \<Longrightarrow> client_inv (c\<lparr>sendbuf := b\<rparr>)"
  using assms by (auto intro!: client_inv_sendbuf dest!: packet_lengths)

lemma good_keepalive: "client_inv c \<Longrightarrow> good (keepalive env c w)"
  unfolding keepalive_def Let_def
  by (intro good_rules) (simp_all add: client_inv_serialized)

lemma deliver_inv:
  "client_inv c \<Longrightarrow> deliverMessage c t m = Some (rc, c') \<Longrightarrow> client_inv c'"
  by (auto simp: deliverMessage_def Let_def split: Option.bind_splits if_splits option.splits)

lemma good_cycle_ack: "client_inv c \<Longrightarrow> good (cycle_ack G reply c timer w)"
  unfolding cycle_ack_def Let_def
  by (intro good_rules) (simp_all add: client_inv_serialized)

lemma good_cycle_publish: "client_inv c \<Longrightarrow> good (cycle_publish G c timer w)"
  unfolding cycle_publish_def Let_def
  by (intro good_rules)
    (auto simp: client_inv_serialized client_inv_sendbuf dest: deliver_inv split: if_splits)

lemma good_cycle_switch: "client_inv c \<Longrightarrow> good (cycle_switch G n c timer w)"
  unfolding cycle_switch_def
  by (intro good_rules good_cycle_publish good_cycle_ack) simp_all

lemma good_cycle:
  assumes "client_inv c" "os_ok (os G)"
  shows "good (cycle G c timer w)"
  unfolding cycle_def
  using assms
  by (intro good_bind [OF good_readPacket] good_bind2 [OF good_cycle_switch] good_bind [OF good_if]
      good_bind [OF good_keepalive] good_Some good_if)
    (simp_all add: client_inv_close)

lemma good_yield_loop:
  assumes "os_ok (os G)" "client_inv c"
  shows "good (yield_loop G timer c w)"
proof -
  have "client_inv (fst (snd r))" if "yield_loop G timer c w = Some r" for r
    using that assms
  proof (induction G timer c w r rule: yield_loop.raw_induct [rotated, consumes 1, case_names 1])
    case (1 yl G timer c w r)
    obtain rc c1 w1 where cy: "cycle G c timer w = Some (rc, c1, w1)"
      using 1(2) by (auto split: option.splits)
    have i: "client_inv c1" using goodD [OF good_cycle [OF 1(4,3)] cy] .
    show ?case
      using 1(2) cy i 1(1) [OF _ 1(3) i] by (auto simp: Let_def split: if_splits prod.splits)
  qed
  then show ?thesis by (force simp: good_def)
qed

lemma good_waitfor_loop:
  assumes "os_ok (os G)" "client_inv c"
  shows "good (waitfor_loop G n timer rc c w)"
proof -
  have "client_inv (fst (snd r))" if "waitfor_loop G n timer rc c w = Some r" for r
    using that assms
  proof (induction G n timer rc c w r rule: waitfor_loop.raw_induct [rotated, consumes 1, case_names 1])
    case (1 wl G n timer rc c w r)
    obtain ex w1 where ex: "TimerIsExpired (os G) timer w = (ex, w1)" by fastforce
    show ?case
    proof (cases ex)
      case True
      with 1 ex show ?thesis by auto
    next
      case False
      obtain rc1 c1 w2 where cy: "cycle G c timer w1 = Some (rc1, c1, w2)"
        using 1(2) ex False by (auto split: option.splits)
      have i: "client_inv c1" using goodD [OF good_cycle [OF 1(4,3)] cy] .
      show ?thesis
        using 1(2) ex False cy i 1(1) [OF _ 1(3) i] by (auto split: if_splits)
    qed
  qed
  then show ?thesis by (force simp: good_def)
qed

lemma good_waitfor: "os_ok (os G) \<Longrightarrow> client_inv c \<Longrightarrow> good (waitfor G c n timer w)"
  by (simp add: waitfor_def good_waitfor_loop)

lemma good_yield: "os_ok (os G) \<Longrightarrow> client_inv c \<Longrightarrow> good (MQTTYield G c ms w)"
  by (simp add: MQTTYield_def good_yield_loop split: prod.splits)

section \<open>The calls of the interface\<close>

lemma good_connect:
  "os_ok (os G) \<Longrightarrow> client_inv c \<Longrightarrow> good (MQTTConnectWithResults G c options data w)"
  unfolding MQTTConnectWithResults_def Let_def
  by (intro good_rules good_bind [OF good_waitfor]) (simp_all add: client_inv_serialized)

lemma good_async_subscribe:
  "os_ok (os G) \<Longrightarrow> client_inv c \<Longrightarrow> good (MQTTAsyncSubscribe G c filt qos h w)"
  unfolding MQTTAsyncSubscribe_def Let_def
  by (intro good_rules)
    (auto simp: client_inv_serialized dest: client_inv_next client_inv_set)

lemma good_async_unsubscribe:
  "os_ok (os G) \<Longrightarrow> client_inv c \<Longrightarrow> good (MQTTAsyncUnsubscribe G c filt w)"
  unfolding MQTTAsyncUnsubscribe_def Let_def
  by (intro good_rules)
    (auto simp: client_inv_serialized dest: client_inv_next intro: client_inv_set [OF _ surjective_pairing])

lemma good_unsubscribe:
  "os_ok (os G) \<Longrightarrow> client_inv c \<Longrightarrow> good (MQTTUnsubscribe G c filt w)"
  unfolding MQTTUnsubscribe_def Let_def
  by (intro good_rules good_bind [OF good_waitfor])
    (auto simp: client_inv_serialized dest: client_inv_next intro: client_inv_set [OF _ surjective_pairing])

lemma good_subscribe_results:
  "os_ok (os G) \<Longrightarrow> client_inv c \<Longrightarrow> good (MQTTSubscribeWithResults G c filt qos h data w)"
  unfolding MQTTSubscribeWithResults_def Let_def
  by (intro good_rules good_bind [OF good_waitfor] good_bind [OF good_finish])
    (auto simp: client_inv_serialized dest: client_inv_next client_inv_set)

lemma good_publish_send: "client_inv c \<Longrightarrow> good (publish_send G c t m timer w)"
  unfolding publish_send_def Let_def
  by (intro good_rules)
    (auto simp: client_inv_serialized dest: client_inv_next split: if_splits prod.splits)

lemma good_async_publish:
  "os_ok (os G) \<Longrightarrow> client_inv c \<Longrightarrow> good (MQTTAsyncPublish G c t m w)"
  unfolding MQTTAsyncPublish_def Let_def
  by (intro good_rules good_bind2 [OF good_publish_send]) simp_all

lemma good_publish_await:
  "os_ok (os G) \<Longrightarrow> client_inv c \<Longrightarrow> good (publish_await G ack timer c w)"
  unfolding publish_await_def Let_def
  by (intro good_rules good_bind [OF good_waitfor]) simp_all

lemma good_publish:
  "os_ok (os G) \<Longrightarrow> client_inv c \<Longrightarrow> good (MQTTPublish G c t m w)"
  unfolding MQTTPublish_def Let_def
  by (intro good_rules good_bind2 [OF good_publish_send] good_publish_await) simp_all

lemma good_disconnect: "client_inv c \<Longrightarrow> good (MQTTDisconnect G c w)"
  unfolding MQTTDisconnect_def Let_def
  by (intro good_prod good_pure_binds good_bind [OF good_if] good_sendPacket good_Some)
    (simp_all add: client_inv_serialized client_inv_close)

text \<open>An application's calls, and the states it can reach from \<open>MQTTClientInit\<close>.\<close>

datatype api_call =
    Connect "MQTTPacket_connectData option"
  | Subscribe "byte list" int "nat option"
  | SubscribeWithResults "byte list" int "nat option" MQTTSubackData
  | Unsubscribe "byte list"
  | AsyncUnsubscribe "byte list"
  | Publish "byte list" MQTTMessage
  | AsyncPublish "byte list" MQTTMessage
  | SetMessageHandler "byte list" "nat option"
  | Yield int
  | Disconnect

fun api :: "client_env \<Rightarrow> api_call \<Rightarrow> MQTTClient \<Rightarrow> world \<Rightarrow> int result" where
  "api G (Connect options) c w = MQTTConnect G c options w"
| "api G (Subscribe t q h) c w = MQTTSubscribe G c t q h w"
| "api G (SubscribeWithResults t q h d) c w =
     do { ((rc, _), c, w) \<leftarrow> MQTTSubscribeWithResults G c t q h d w; Some (rc, c, w) }"
| "api G (Unsubscribe t) c w = MQTTUnsubscribe G c t w"
| "api G (AsyncUnsubscribe t) c w = MQTTAsyncUnsubscribe G c t w"
| "api G (Publish t m) c w = MQTTPublish G c t m w"
| "api G (AsyncPublish t m) c w = MQTTAsyncPublish G c t m w"
| "api G (SetMessageHandler t h) c w =
     (let (rc, c) = MQTTSetMessageHandler c t h in Some (rc, c, w))"
| "api G (Yield ms) c w = MQTTYield G c ms w"
| "api G Disconnect c w = MQTTDisconnect G c w"

lemma good_api: "os_ok (os G) \<Longrightarrow> client_inv c \<Longrightarrow> good (api G a c w)"
  by (cases a)
    (auto simp: MQTTConnect_def MQTTSubscribe_def good_async_subscribe good_unsubscribe
      good_async_unsubscribe good_publish good_async_publish good_yield good_disconnect
      intro!: good_bind2 [OF good_connect] good_bind2 [OF good_subscribe_results] good_Some
      good_prod dest: client_inv_set)

inductive reachable :: "client_env \<Rightarrow> MQTTClient \<Rightarrow> world \<Rightarrow> bool" for G where
  start: "length (messageHandlers c0) = MAX_MESSAGE_HANDLERS \<Longrightarrow>
    5 \<le> length rb \<Longrightarrow> length rb < 2 ^ 31 \<Longrightarrow> length sb < 2 ^ 31 \<Longrightarrow>
    reachable G (MQTTClientInit c0 (NetworkInit n) ms sb (int (length sb)) rb (int (length rb))) w"
| call: "reachable G c w \<Longrightarrow> api G a c w = Some (rc, c', w') \<Longrightarrow> reachable G c' w'"

lemma init_inv:
  assumes "length (messageHandlers c0) = MAX_MESSAGE_HANDLERS" "5 \<le> length rb" "length rb < 2 ^ 31"
    "length sb < 2 ^ 31"
  shows "client_inv (MQTTClientInit c0 (NetworkInit n) ms sb (int (length sb)) rb (int (length rb)))"
  using assms handlers_ok_cleared [of "messageHandlers c0"]
  by (simp add: client_inv_defs MQTTClientInit_def NetworkInit_def MAX_MESSAGE_HANDLERS_def MAX_PACKET_ID_def)

lemma reachable_inv: "reachable G c w \<Longrightarrow> os_ok (os G) \<Longrightarrow> client_inv c"
proof (induction rule: reachable.induct)
  case (start c0 rb sb n ms w)
  then show ?case by (intro init_inv)
next
  case (call c w a rc c' w')
  then show ?case using goodD [OF good_api call.hyps(2)] by blast
qed

section \<open>Failed calls\<close>

lemma close_disconnects [simp]: "\<not> isconnected (MQTTCloseSession c)"
  by (simp add: MQTTCloseSession_def MQTTCleanSession_def Let_def)

lemma finish_closes: "finish_call rc c w = Some (FAILURE, c', w') \<Longrightarrow> \<not> isconnected c'"
  by (auto simp: finish_call_def split: if_splits)

lemma cycle_negative_closes:
  assumes "cycle G c timer w = Some (rc, c', w')" "rc < 0"
  shows "\<not> isconnected c'"
proof -
  obtain n c1 w1 where 1: "readPacket (os G) c timer w = Some (n, c1, w1)"
    using assms(1) by (auto simp: cycle_def split: Option.bind_splits)
  obtain rc2 leave c2 w2 where 2: "cycle_switch G n c1 timer w1 = Some ((rc2, leave), c2, w2)"
    using assms(1) 1 by (auto simp: cycle_def split: Option.bind_splits)
  have "rc2 = SUCCESS \<Longrightarrow> 0 \<le> n"
    using 2 by (auto simp: cycle_switch_def type_is_def SUCCESS_def split: if_splits)
  moreover have "rc2 = SUCCESS \<or> rc2 \<noteq> SUCCESS" by simp
  ultimately show ?thesis
    using assms 1 2
    by (auto simp: cycle_def SUCCESS_def FAILURE_def split: Option.bind_splits if_splits)
qed

lemma yield_failure_closes:
  assumes "yield_loop G timer c w = Some (FAILURE, c', w')"
  shows "\<not> isconnected c'"
proof -
  have "\<not> isconnected (fst (snd r))" if "yield_loop G timer c w = Some r" "fst r = FAILURE" for r
    using that
  proof (induction G timer c w r rule: yield_loop.raw_induct [rotated, consumes 1, case_names 1])
    case (1 yl G timer c w r)
    obtain rc c1 w1 where cy: "cycle G c timer w = Some (rc, c1, w1)"
      using 1(2) by (auto split: option.splits)
    show ?case
    proof (cases "rc < 0")
      case True
      with 1(2) cy cycle_negative_closes [OF cy] show ?thesis by auto
    next
      case False
      then show ?thesis
        using 1 cy by (auto simp: Let_def SUCCESS_def FAILURE_def split: if_splits prod.splits)
    qed
  qed
  from this [OF assms] show ?thesis by simp
qed

fun closes_on_failure :: "api_call \<Rightarrow> bool" where
  "closes_on_failure (Connect _) = False"
| "closes_on_failure (SetMessageHandler _ _) = False"
| "closes_on_failure _ = True"

lemma bind_Some_iff: "m \<bind> f = Some r \<longleftrightarrow> (\<exists>x. m = Some x \<and> f x = Some r)"
  by (cases m) simp_all

definition fails_closed :: "'a result \<Rightarrow> ('a \<Rightarrow> int) \<Rightarrow> bool" where
  "fails_closed r code \<longleftrightarrow> (\<forall>x c w. r = Some (x, c, w) \<longrightarrow> code x = FAILURE \<longrightarrow> \<not> isconnected c)"

lemma fails_closed_bind:
  "(\<And>x. m = Some x \<Longrightarrow> fails_closed (f x) code) \<Longrightarrow> fails_closed (m \<bind> f) code"
  by (cases m) (simp_all add: fails_closed_def)

lemma fails_closed_prod: "(\<And>a b. fails_closed (f a b) code) \<Longrightarrow> fails_closed (case p of (a, b) \<Rightarrow> f a b) code"
  by (cases p) simp

lemma fails_closed_prod2:
  "(\<And>a b c w. fails_closed (f a b c w) code) \<Longrightarrow>
     fails_closed ((case p of (a, b) \<Rightarrow> \<lambda>(c, w). f a b c w) q) code"
  by (cases p; cases q) simp

lemma fails_closed_if: "fails_closed x code \<Longrightarrow> fails_closed y code \<Longrightarrow> fails_closed (if b then x else y) code"
  by simp

lemma fails_closed_finish: "fails_closed (finish_call rc c w) (\<lambda>x. x)"
  by (auto simp: fails_closed_def finish_call_def)

lemmas fails_closed_rules = fails_closed_prod fails_closed_prod2 fails_closed_if fails_closed_finish

lemma fails_closed_calls:
  "fails_closed (MQTTAsyncSubscribe G c t q h w) (\<lambda>x. x)"
  "fails_closed (MQTTAsyncUnsubscribe G c t w) (\<lambda>x. x)"
  "fails_closed (MQTTUnsubscribe G c t w) (\<lambda>x. x)"
  "fails_closed (MQTTAsyncPublish G c t m w) (\<lambda>x. x)"
  "fails_closed (publish_await G ack timer c w) (\<lambda>x. x)"
  unfolding MQTTAsyncSubscribe_def MQTTAsyncUnsubscribe_def MQTTUnsubscribe_def MQTTAsyncPublish_def
    publish_await_def Let_def
  by (intro fails_closed_rules fails_closed_bind)+

lemma fails_closed_publish: "fails_closed (MQTTPublish G c t m w) (\<lambda>x. x)"
  unfolding MQTTPublish_def Let_def
  by (intro fails_closed_rules fails_closed_bind fails_closed_calls)

lemma fails_closed_results: "fails_closed (MQTTSubscribeWithResults G c t q h d w) fst"
proof -
  have fin: "fails_closed (finish_call rc c w \<bind> (\<lambda>(rc, c, w). Some ((rc, d), c, w))) fst" for rc d c w
    by (auto simp: fails_closed_def finish_call_def)
  show ?thesis
    unfolding MQTTSubscribeWithResults_def Let_def
    by (intro fin fails_closed_prod fails_closed_if fails_closed_bind)
qed

section \<open>Properties\<close>

text \<open>
  C1. In every state an application can reach from \<open>MQTTClientInit\<close> by calls of the interface, on
  any behaviour of the network: the next packet identifier is in 1 to 65535, the handler table has
  its 50 slots with no filter twice and a handler in each used slot, and the two buffers still
  have the size recorded for them.
\<close>

theorem client_invariant:
  assumes "reachable G c w" "os_ok (os G)"
  shows "0 < next_packetid c \<and> next_packetid c \<le> MAX_PACKET_ID \<and> handlers_ok (messageHandlers c) \<and>
    buf_size c = int (length (sendbuf c)) \<and> readbuf_size c = int (length (readbuf c))"
  using reachable_inv [OF assms] by (simp add: client_inv_defs)

definition sample_genv :: client_env where
  "sample_genv = \<lparr>os = sample_env, locals_publish = sample_out,
     locals_ack = \<lparr>ao_packettype = 0, ao_dup = 0, ao_packetid = 0\<rparr>\<rparr>"

lemma sample_os_ok: "os_ok (os sample_genv)" "os_ok sample_env"
  using sample_env_ok by (simp_all add: os_ok_def sample_genv_def)

definition sample_start :: MQTTClient where
  "sample_start = MQTTClientInit sample_client (NetworkInit (ipstack sample_client)) 3000
     (replicate 64 0) (int (length (replicate 64 (0 :: byte)))) (replicate 64 0) (int (length (replicate 64 (0 :: byte))))"

lemma sample_reachable:
  "reachable sample_genv (snd (MQTTSetMessageHandler sample_start [97] (Some 3))) sample_world"
proof -
  have "reachable sample_genv sample_start sample_world"
    unfolding sample_start_def
    by (rule reachable.start) (simp_all add: sample_client_def MAX_MESSAGE_HANDLERS_def)
  moreover have "api sample_genv (SetMessageHandler [97] (Some 3)) sample_start sample_world =
      Some (fst (MQTTSetMessageHandler sample_start [97] (Some 3)),
        snd (MQTTSetMessageHandler sample_start [97] (Some 3)), sample_world)"
    by (simp add: case_prod_unfold Let_def)
  ultimately show ?thesis by (rule reachable.call)
qed

theorem client_invariant_witness:
  "\<exists>c. c = snd (MQTTSetMessageHandler sample_start [97] (Some 3)) \<and>
    0 < next_packetid c \<and> next_packetid c \<le> MAX_PACKET_ID \<and> handlers_ok (messageHandlers c) \<and>
    buf_size c = int (length (sendbuf c)) \<and> readbuf_size c = int (length (readbuf c))"
  using client_invariant [OF sample_reachable sample_os_ok(1)] by blast

text \<open>
  C2. \<open>readPacket\<close> always returns and never reads or writes outside the read buffer (of at least
  five bytes), whatever arrives on the network, and changes nothing of the client but the read buffer
  and \<open>last_received\<close>. Its result is decided by the bytes that arrive during the call (\<open>packet_read\<close>):
  no byte gives 0 or an error; a packet too long for the buffer is refused before its payload is read;
  a payload that is cut short gives 0; and after exactly as many payload bytes as the length bytes
  say, the result is the type in the header byte, and the buffer starts with that header byte, the
  length and those payload bytes. A length that is cut short, or longer than four bytes, is taken as
  far as it was read.
\<close>

theorem readPacket_wellformed:
  assumes "client_inv c" "os_ok env"
  shows "\<exists>rc rb t w' got. readPacket env c timer w = Some (rc, c\<lparr>readbuf := rb, last_received := t\<rparr>, w') \<and>
    length rb = length (readbuf c) \<and> w_sent w' = w_sent w \<and> w_received w' = w_received w @ got \<and> packet_read rb rc got"
proof -
  have "uses_net linux_read linux_write c" "buffers_ok c" using assms(1) by (simp_all add: client_inv_def)
  from linux.readPacket_result [OF assms(2) this, of timer w] show ?thesis
    by (fastforce simp: read_result_def read_frame_def)
qed

lemma sample_client_inv: "client_inv sample_client"
  using sample_handlers_ok
  by (simp add: client_inv_defs sample_client_def NetworkInit_def MAX_PACKET_ID_def)

theorem readPacket_wellformed_witness:
  "\<exists>rc rb t w' got. readPacket sample_env sample_client \<lparr>end_time = \<lparr>tv_sec = 9, tv_usec = 0\<rparr>\<rparr> sample_world =
      Some (rc, sample_client\<lparr>readbuf := rb, last_received := t\<rparr>, w') \<and>
    length rb = length (readbuf sample_client) \<and> w_sent w' = w_sent sample_world \<and> w_received w' = got \<and> packet_read rb rc got"
  using readPacket_wellformed [OF sample_client_inv sample_os_ok(2), of "\<lparr>end_time = \<lparr>tv_sec = 9, tv_usec = 0\<rparr>\<rparr>" sample_world]
  by (simp add: sample_world_def)

text \<open>
  C12. \<open>sendPacket\<close> always returns, with success or failure, and stays inside a send buffer of twice
  the packet's length, the room its retry needs because it passes \<open>length\<close> instead of what is left.
\<close>

theorem sendPacket_returns:
  assumes "client_inv c" "os_ok env" "timer_ok timer" "0 \<le> len" "2 * nat len \<le> length (sendbuf c)"
  shows "\<exists>rc t w'. sendPacket env c len timer w = Some (rc, c\<lparr>last_sent := t\<rparr>, w') \<and>
    (rc = SUCCESS \<or> rc = FAILURE) \<and> w_received w' = w_received w"
proof -
  have "uses_net linux_read linux_write c" using assms(1) by (simp add: client_inv_def)
  from linux.sendPacket_total [OF assms(2) this assms(3-5), of w] show ?thesis
    by (auto simp: write_frame_def)
qed

theorem sendPacket_returns_witness:
  "\<exists>rc t w'. sendPacket sample_env sample_client 8 \<lparr>end_time = \<lparr>tv_sec = 9, tv_usec = 0\<rparr>\<rparr> sample_world =
      Some (rc, sample_client\<lparr>last_sent := t\<rparr>, w') \<and>
    (rc = SUCCESS \<or> rc = FAILURE) \<and> w_received w' = w_received sample_world"
  by (rule sendPacket_returns [OF sample_client_inv sample_os_ok(2)])
    (simp_all add: timer_ok_def tv_norm_def sample_client_def)

text \<open>
  C6. A call that reports \<open>FAILURE\<close> leaves the client disconnected: subscribe, unsubscribe and
  publish in both variants, disconnect, and yield, whose failure comes from a failed cycle.
\<close>

theorem failed_call_closes:
  assumes "closes_on_failure a" "api G a c w = Some (FAILURE, c', w')"
  shows "\<not> isconnected c'"
proof (cases a)
  case (SubscribeWithResults t q h d)
  with assms fails_closed_results [of G c t q h d w] show ?thesis
    by (fastforce simp: fails_closed_def bind_Some_iff)
next
  case (Yield ms)
  with assms show ?thesis
    by (auto simp: MQTTYield_def split: prod.splits dest!: yield_failure_closes)
next
  case Disconnect
  with assms show ?thesis
    by (auto simp: MQTTDisconnect_def bind_Some_iff Let_def split: prod.splits)
qed (use assms fails_closed_calls fails_closed_publish in
    \<open>fastforce simp: fails_closed_def MQTTSubscribe_def\<close>)+

theorem failed_call_closes_witness:
  "\<exists>c'. api sample_genv (Subscribe [97] 0 (Some 1)) (sample_client\<lparr>isconnected := False\<rparr>) sample_world =
      Some (FAILURE, c', sample_world) \<and> \<not> isconnected c'"
proof -
  have r: "api sample_genv (Subscribe [97] 0 (Some 1)) (sample_client\<lparr>isconnected := False\<rparr>) sample_world =
      Some (FAILURE, MQTTCloseSession (sample_client\<lparr>isconnected := False\<rparr>), sample_world)"
    by (simp add: MQTTSubscribe_def MQTTAsyncSubscribe_def finish_call_def)
  with failed_call_closes [OF _ r] show ?thesis by simp
qed

text \<open>
  The packet identifiers handed out run through 1 to 65535 in order and start over at 1: after
  \<open>n\<close> requests the identifier is \<open>(first - 1 + n) mod 65535 + 1\<close>, so 65535 consecutive requests
  give different identifiers and 0 is never used.
\<close>

theorem packet_ids_cycle:
  assumes "0 < next_packetid c" "next_packetid c \<le> MAX_PACKET_ID"
  shows "uint (next_packetid (((snd \<circ> getNextPacketId) ^^ n) c)) =
    (uint (next_packetid c) - 1 + int n) mod 65535 + 1"
proof (induction n)
  case 0
  from assms have "0 < uint (next_packetid c)" "uint (next_packetid c) \<le> 65535"
    by (simp_all add: MAX_PACKET_ID_def word_less_def word_le_def)
  then show ?case by simp
next
  case (Suc n)
  define i where "i = next_packetid (((snd \<circ> getNextPacketId) ^^ n) c)"
  define k where "k = uint (next_packetid c) - 1 + int n"
  have i: "uint i = k mod 65535 + 1" using Suc unfolding i_def k_def .
  have "uint (if i = MAX_PACKET_ID then 1 else i + 1) = (k + 1) mod 65535 + 1"
  proof (cases "i = MAX_PACKET_ID")
    case True
    then have "k mod 65535 = 65534" using i by (simp add: MAX_PACKET_ID_def)
    then have "(k + 1) mod 65535 = 0" by (simp add: mod_add_eq [symmetric, of k])
    with True show ?thesis by simp
  next
    case False
    then have "uint i \<noteq> uint MAX_PACKET_ID" by (simp only: word_uint_eq_iff simp_thms)
    then have "uint i \<noteq> 65535" by (simp add: MAX_PACKET_ID_def)
    with i have lt: "k mod 65535 < 65534" using pos_mod_bound [of 65535 k] by linarith
    then have "(k + 1) mod 65535 = k mod 65535 + 1"
      using pos_mod_sign [of 65535 k] by (simp add: mod_add_eq [symmetric, of k])
    moreover have "uint (i + 1) = uint i + 1"
      using i lt pos_mod_sign [of 65535 k] by (simp add: uint_word_ariths)
    ultimately show ?thesis using False i by simp
  qed
  moreover have "next_packetid (((snd \<circ> getNextPacketId) ^^ Suc n) c) = (if i = MAX_PACKET_ID then 1 else i + 1)"
    unfolding i_def by (simp only: funpow.simps o_apply) (simp add: getNextPacketId_def Let_def)
  moreover have "k + 1 = uint (next_packetid c) - 1 + int (Suc n)" by (simp add: k_def)
  ultimately show ?case by (simp only:)
qed

theorem packet_ids_cycle_witness:
  "uint (next_packetid (((snd \<circ> getNextPacketId) ^^ 65534) sample_client)) =
    (uint (next_packetid sample_client) - 1 + int 65534) mod 65535 + 1"
  by (rule packet_ids_cycle) (simp_all add: sample_client_def MAX_PACKET_ID_def)

end
