(* ===== verification/Audio_Base.thy ===== *)
theory Audio_Base
  imports BSP_Prelude
begin

text \<open>
  What the audio drivers of both boards share: the result codes and enumerations of the HDF
  framework, the Linux kernel as they see it, and the contents of a device register.

  \<^item> A driver runs against a \<open>kernel\<close>, a parameter: every call it makes is appended to a log, and
    the answer (a code, a pointer or a value) may depend on all calls made so far.
  \<^item> \<open>reg_val\<close> gives the contents of a register after the calls of a log, by what the kernel
    documents of \<open>regmap_write\<close> and \<open>regmap_update_bits\<close>; \<open>field\<close> reads a bit field, and the
    lemmas say how updates of fields act on fields.
  \<^item> The locale \<open>register_file\<close> is a device with registers as its clients see it; both codecs behind an
    I2C bus interpret it.
  \<^item> \<open>held\<close> counts how often a resource (a clock, a regulator, a mapping) has been taken and not
    given back. The locale \<open>init_stage\<close> is the contract of one stage of a probe function and of its
    exit function: all or nothing, and the exit undoes the stage. Inside it, a stage followed by its
    exit, and a stage before another one, are shown to give back what they took.
\<close>

section \<open>HDF codes and enumerations\<close>

datatype AudioStreamType = AUDIO_CAPTURE_STREAM | AUDIO_RENDER_STREAM | AUDIO_OTHER_STREAM int

datatype AudioFormat = AUDIO_FORMAT_TYPE_PCM_8_BIT | AUDIO_FORMAT_TYPE_PCM_16_BIT
  | AUDIO_FORMAT_TYPE_PCM_24_BIT | AUDIO_FORMAT_TYPE_PCM_32_BIT | AUDIO_FORMAT_OTHER int

text \<open>The commands of the stream dispatcher that the drivers distinguish.\<close>

datatype pcm_cmd = RENDER_START | RENDER_RESUME | RENDER_STOP | RENDER_PAUSE
  | CAPTURE_START | CAPTURE_RESUME | CAPTURE_STOP | CAPTURE_PAUSE | OTHER_CMD int

definition HDF_SUCCESS :: int where "HDF_SUCCESS = 0"
definition HDF_FAILURE :: int where "HDF_FAILURE = -1"
definition HDF_ERR_NOT_SUPPORT :: int where "HDF_ERR_NOT_SUPPORT = -2"
definition HDF_ERR_INVALID_PARAM :: int where "HDF_ERR_INVALID_PARAM = -3"
definition HDF_ERR_INVALID_OBJECT :: int where "HDF_ERR_INVALID_OBJECT = -4"
definition HDF_ERR_MALLOC_FAIL :: int where "HDF_ERR_MALLOC_FAIL = -6"
definition ENOMEM :: int where "ENOMEM = 12"
definition EFAULT :: int where "EFAULT = 14"
definition EBUSY :: int where "EBUSY = 16"
definition EINVAL :: int where "EINVAL = 22"
definition ENOSYS :: int where "ENOSYS = 38"

lemmas err_defs = HDF_SUCCESS_def HDF_FAILURE_def HDF_ERR_NOT_SUPPORT_def HDF_ERR_INVALID_PARAM_def
  HDF_ERR_INVALID_OBJECT_def HDF_ERR_MALLOC_FAIL_def ENOMEM_def EFAULT_def EBUSY_def EINVAL_def ENOSYS_def

section \<open>Interface formats\<close>

text \<open>The format words of the sound core, as the hub driver of the zhiyuan board repeats them; the yangfan
  driver takes the same values from the kernel's header.\<close>

definition SND_SOC_DAIFMT_FORMAT_MASK :: u32 where "SND_SOC_DAIFMT_FORMAT_MASK = 0x000f"
definition SND_SOC_DAIFMT_INV_MASK :: u32 where "SND_SOC_DAIFMT_INV_MASK = 0x0f00"
definition SND_SOC_DAIFMT_MASTER_MASK :: u32 where "SND_SOC_DAIFMT_MASTER_MASK = 0xf000"
definition SND_SOC_DAIFMT_I2S :: u32 where "SND_SOC_DAIFMT_I2S = 1"
definition SND_SOC_DAIFMT_RIGHT_J :: u32 where "SND_SOC_DAIFMT_RIGHT_J = 2"
definition SND_SOC_DAIFMT_LEFT_J :: u32 where "SND_SOC_DAIFMT_LEFT_J = 3"
definition SND_SOC_DAIFMT_DSP_A :: u32 where "SND_SOC_DAIFMT_DSP_A = 4"
definition SND_SOC_DAIFMT_DSP_B :: u32 where "SND_SOC_DAIFMT_DSP_B = 5"
definition SND_SOC_DAIFMT_NB_NF :: u32 where "SND_SOC_DAIFMT_NB_NF = 0x000"
definition SND_SOC_DAIFMT_NB_IF :: u32 where "SND_SOC_DAIFMT_NB_IF = 0x200"
definition SND_SOC_DAIFMT_IB_NF :: u32 where "SND_SOC_DAIFMT_IB_NF = 0x300"
definition SND_SOC_DAIFMT_IB_IF :: u32 where "SND_SOC_DAIFMT_IB_IF = 0x400"
definition SND_SOC_DAIFMT_CBM_CFM :: u32 where "SND_SOC_DAIFMT_CBM_CFM = 0x1000"
definition SND_SOC_DAIFMT_CBS_CFS :: u32 where "SND_SOC_DAIFMT_CBS_CFS = 0x4000"

lemmas daifmt_defs = SND_SOC_DAIFMT_FORMAT_MASK_def SND_SOC_DAIFMT_INV_MASK_def SND_SOC_DAIFMT_MASTER_MASK_def
  SND_SOC_DAIFMT_I2S_def SND_SOC_DAIFMT_RIGHT_J_def SND_SOC_DAIFMT_LEFT_J_def SND_SOC_DAIFMT_DSP_A_def
  SND_SOC_DAIFMT_DSP_B_def SND_SOC_DAIFMT_NB_NF_def SND_SOC_DAIFMT_NB_IF_def SND_SOC_DAIFMT_IB_NF_def
  SND_SOC_DAIFMT_IB_IF_def SND_SOC_DAIFMT_CBM_CFM_def SND_SOC_DAIFMT_CBS_CFS_def

section \<open>The kernel\<close>

datatype kptr = PNULL | PERR int | PVALID

definition IS_ERR_OR_NULL :: "kptr \<Rightarrow> bool" where
  "IS_ERR_OR_NULL p \<longleftrightarrow> p \<noteq> PVALID"

definition PTR_ERR :: "kptr \<Rightarrow> int" where
  "PTR_ERR p = (case p of PNULL \<Rightarrow> 0 | PERR e \<Rightarrow> - e | PVALID \<Rightarrow> 1)"

text \<open>Clocks, regulators, regmaps and device-tree properties are known by their names.\<close>

datatype kcall =
    RegWrite u32 u32
  | RegUpdate u32 u32 u32
  | RegRead u32
  | ClkGet string
  | ClkPut string
  | ClkEnable string
  | ClkDisable string
  | ClkSetRate string u32
  | ClkSetRateLong string u64
  | ClkGetRate string
  | ClkSetParent string string
  | ClkCompensate string int
  | ResetGet
  | ResetDeassert
  | ResetAssert
  | RegulatorGet string
  | RegulatorPut string
  | RegulatorSetVoltage string u32 u32
  | RegulatorEnable string
  | RegulatorDisable string
  | AddressToResource
  | RequestMem
  | ReleaseMem
  | Ioremap
  | Iounmap
  | RegmapInit
  | PinctrlGet
  | PinctrlPut
  | PinctrlLookup string
  | PinctrlSelect string
  | ReadProp string
  | HasProp string
  | Kzalloc
  | Kfree
  | NodePut
  | SysfsCreate
  | SysfsRemove
  | PmGetSync
  | PmEnable
  | GrfWrite u32 u32

type_synonym klog = "kcall list"

record kernel =
  k_int :: "klog \<Rightarrow> kcall \<Rightarrow> int"
  k_ptr :: "klog \<Rightarrow> kcall \<Rightarrow> kptr"
  k_u32 :: "klog \<Rightarrow> kcall \<Rightarrow> u32"

definition ask_int :: "kernel \<Rightarrow> kcall \<Rightarrow> klog \<Rightarrow> int \<times> klog" where
  "ask_int k c l = (k_int k l c, l @ [c])"

definition ask_ptr :: "kernel \<Rightarrow> kcall \<Rightarrow> klog \<Rightarrow> kptr \<times> klog" where
  "ask_ptr k c l = (k_ptr k l c, l @ [c])"

definition ask_u32 :: "kernel \<Rightarrow> kcall \<Rightarrow> klog \<Rightarrow> u32 \<times> klog" where
  "ask_u32 k c l = (k_u32 k l c, l @ [c])"

lemmas ask_defs = ask_int_def ask_ptr_def ask_u32_def

section \<open>Register contents\<close>

definition update_bits :: "'a::len word \<Rightarrow> 'a word \<Rightarrow> 'a word \<Rightarrow> 'a word" where
  "update_bits m v x = (x AND NOT m) OR (v AND m)"

fun reg_step :: "u32 \<Rightarrow> u32 \<Rightarrow> kcall \<Rightarrow> u32" where
  "reg_step r x (RegWrite r' v) = (if r' = r then v else x)"
| "reg_step r x (RegUpdate r' m v) = (if r' = r then update_bits m v x else x)"
| "reg_step r x _ = x"

text \<open>The contents of register \<open>r\<close> after the calls \<open>l\<close>, when it held \<open>x\<close> before.\<close>

definition reg_val :: "u32 \<Rightarrow> klog \<Rightarrow> u32 \<Rightarrow> u32" where
  "reg_val r l x = foldl (reg_step r) x l"

lemma reg_val_Nil [simp]: "reg_val r [] x = x"
  by (simp add: reg_val_def)

lemma reg_val_Cons [simp]: "reg_val r (c # l) x = reg_val r l (reg_step r x c)"
  by (simp add: reg_val_def)

lemma reg_val_append [simp]: "reg_val r (l @ l') x = reg_val r l' (reg_val r l x)"
  by (simp add: reg_val_def)

text \<open>The shape all field updates have: \<open>regmap_update_bits (reg, m << lo, v << lo)\<close>.\<close>

definition set_field :: "u32 \<Rightarrow> u32 \<Rightarrow> nat \<Rightarrow> u32 \<Rightarrow> kcall" where
  "set_field r m lo v = RegUpdate r (push_bit lo m) (push_bit lo v)"

definition field :: "nat \<Rightarrow> nat \<Rightarrow> 'a::len word \<Rightarrow> 'a word" where
  "field lo w x = take_bit w (drop_bit lo x)"

definition put_field :: "u32 \<Rightarrow> nat \<Rightarrow> u32 \<Rightarrow> u32 \<Rightarrow> u32" where
  "put_field m lo v = update_bits (push_bit lo m) (push_bit lo v)"

lemma reg_step_set_field [simp]:
  "reg_step r x (set_field r' m lo v) = (if r' = r then put_field m lo v x else x)"
  by (simp add: set_field_def put_field_def)

lemma bit_update_bits: "bit (update_bits m v x) n = (if bit m n then bit v n else bit x n)"
  by (auto simp: update_bits_def bit_simps dest: bit_imp_possible_bit)

lemma bit_put_field:
  "bit (put_field m lo v x) n = (if lo \<le> n \<and> n < 32 \<and> bit m (n - lo) then bit v (n - lo) else bit x n)"
  by (auto simp: put_field_def bit_update_bits bit_simps)

lemma bit_put_1: "bit (put_field 1 lo v x) n = (if n = lo \<and> n < 32 then bit v 0 else bit x n)"
  by (auto simp: bit_put_field bit_1_iff)

text \<open>Updating a field, seen through the same field and through a disjoint one. The masks of the
  sources are numerals; the premise \<open>m = mask w\<close> is evaluated.\<close>

lemma field_put_same [simp]:
  "m = mask w \<Longrightarrow> lo + w \<le> 32 \<Longrightarrow> field lo w (put_field m lo v x) = take_bit w v"
  by (rule bit_eqI) (auto simp: field_def bit_simps bit_put_field add.commute)

lemma field_put_other:
  "m = mask w \<Longrightarrow> lo' + w' \<le> lo \<or> lo + w \<le> lo' \<Longrightarrow> field lo' w' (put_field m lo v x) = field lo' w' x"
  by (rule bit_eqI) (auto simp: field_def bit_simps bit_put_field)

lemma mask_sizes [simp]:
  "mask 0 = (0 :: u32)" "mask 1 = (1 :: u32)" "mask 2 = (3 :: u32)" "mask 3 = (7 :: u32)" "mask 4 = (0xf :: u32)"
  "mask 5 = (0x1f :: u32)" "mask 6 = (0x3f :: u32)" "mask 7 = (0x7f :: u32)" "mask 8 = (0xff :: u32)"
  "mask 10 = (0x3ff :: u32)" "mask 16 = (0xffff :: u32)"
  by (simp_all add: mask_eq_exp_minus_1)

lemmas field_put_others [simp] =
  field_put_other [OF mask_sizes(2) [symmetric]]
  field_put_other [OF mask_sizes(3) [symmetric]]
  field_put_other [OF mask_sizes(4) [symmetric]]
  field_put_other [OF mask_sizes(5) [symmetric]]
  field_put_other [OF mask_sizes(6) [symmetric]]
  field_put_other [OF mask_sizes(7) [symmetric]]
  field_put_other [OF mask_sizes(8) [symmetric]]
  field_put_other [OF mask_sizes(9) [symmetric]]
  field_put_other [OF mask_sizes(10) [symmetric]]
  field_put_other [OF mask_sizes(11) [symmetric]]

text \<open>An update under a mask, seen through a field inside the mask and through one outside it.\<close>

lemma bit_of_field: "bit (field lo w m) n \<longleftrightarrow> n < w \<and> bit m (lo + n)"
  by (auto simp: field_def bit_simps)

lemma field_update_in: "field lo w (m :: 'a::len word) = mask w \<Longrightarrow> field lo w (update_bits m v x) = field lo w v"
proof (rule bit_eqI)
  fix n assume m: "field lo w m = mask w" and n: "possible_bit TYPE('a word) n"
  have "bit (field lo w m) n = (n < w)" using n by (simp add: m bit_mask_iff)
  then show "bit (field lo w (update_bits m v x)) n = bit (field lo w v) n"
    by (auto simp: bit_of_field bit_update_bits)
qed

lemma field_update_out: "field lo w m = 0 \<Longrightarrow> field lo w (update_bits m v x) = field lo w x"
proof (rule bit_eqI)
  fix n assume m: "field lo w m = 0"
  have "\<not> bit (field lo w m) n" by (simp add: m)
  then show "bit (field lo w (update_bits m v x)) n = bit (field lo w x) n"
    by (auto simp: bit_of_field bit_update_bits)
qed

text \<open>Bits outside a field are not changed by its update.\<close>

definition outside :: "nat \<Rightarrow> nat \<Rightarrow> nat \<Rightarrow> bool" where
  "outside lo w n \<longleftrightarrow> n < lo \<or> lo + w \<le> n"

lemma bit_put_outside: "m = mask w \<Longrightarrow> outside lo w n \<Longrightarrow> bit (put_field m lo v x) n = bit x n"
  by (auto simp: bit_put_field bit_simps outside_def)

lemmas bit_put_outsides =
  bit_put_outside [OF mask_sizes(2) [symmetric]]
  bit_put_outside [OF mask_sizes(3) [symmetric]]
  bit_put_outside [OF mask_sizes(4) [symmetric]]
  bit_put_outside [OF mask_sizes(5) [symmetric]]
  bit_put_outside [OF mask_sizes(6) [symmetric]]
  bit_put_outside [OF mask_sizes(7) [symmetric]]
  bit_put_outside [OF mask_sizes(8) [symmetric]]
  bit_put_outside [OF mask_sizes(9) [symmetric]]
  bit_put_outside [OF mask_sizes(10) [symmetric]]
  bit_put_outside [OF mask_sizes(11) [symmetric]]

section \<open>Register files\<close>

text \<open>
  A device with registers, as its clients see it: reading gives the contents and changes nothing,
  writing changes one register.
\<close>

locale register_file =
  fixes get :: "'w \<Rightarrow> 'r \<Rightarrow> 'l \<Rightarrow> int \<times> 'v \<times> 'l"
    and put :: "'w \<Rightarrow> 'r \<Rightarrow> 'v \<Rightarrow> 'l \<Rightarrow> int \<times> 'l"
    and contents :: "'w \<Rightarrow> 'r \<Rightarrow> 'l \<Rightarrow> 'v"
    and works :: "'w \<Rightarrow> bool"
  assumes get_works: "works w \<Longrightarrow> get w r l = (0, contents w r l, snd (snd (get w r l)))"
    and get_keeps: "works w \<Longrightarrow> contents w r' (snd (snd (get w r l))) = contents w r' l"
    and put_works: "works w \<Longrightarrow> fst (put w r v l) = 0"
    and put_changes: "works w \<Longrightarrow> contents w r' (snd (put w r v l)) = (if r' = r then v else contents w r' l)"
begin

text \<open>Reading, changing and writing back a register.\<close>

lemma modify:
  assumes "works w" "get w r l = (rc, v, l1)" "put w r (f v) l1 = (rc', l2)"
  shows "rc = 0 \<and> rc' = 0 \<and> contents w r' l2 = (if r' = r then f (contents w r l) else contents w r' l)"
proof -
  have 1: "rc = 0" "v = contents w r l" "l1 = snd (snd (get w r l))"
    using get_works [OF assms(1), of r l] assms(2) by auto
  have 2: "rc' = 0" "l2 = snd (put w r (f v) l1)" using put_works [OF assms(1), of r "f v" l1] assms(3) by auto
  show ?thesis using put_changes [OF assms(1), of r' r "f v" l1] get_keeps [OF assms(1), of _ r l] 1 2 by simp
qed

text \<open>The same, where nothing is written when nothing changes.\<close>

lemma modify_changed:
  assumes "works w"
  shows "contents w r' (let (_, v, l1) = get w r l in if f v \<noteq> v then snd (put w r (f v) l1) else l1) =
    (if r' = r then f (contents w r l) else contents w r' l)"
  using get_works [OF assms, of r l] get_keeps [OF assms, of _ r l] put_changes [OF assms]
  by (auto simp: Let_def split: prod.split)

text \<open>Writing a table: every register ends with its last entry.\<close>

lemma put_table:
  assumes "works w" "\<And>l. contents w r (f l) = contents w r l"
  shows "contents w r (foldl (\<lambda>l (a, v). f (snd (put w a v l))) l cs) =
    (case map_of (rev cs) r of None \<Rightarrow> contents w r l | Some v \<Rightarrow> v)"
proof (induction cs arbitrary: l)
  case (Cons c cs)
  obtain a v where c: "c = (a, v)" by (cases c)
  have "contents w r (f (snd (put w a v l))) = (if r = a then v else contents w r l)"
    by (simp add: assms put_changes)
  then show ?case by (simp add: Cons.IH c map_add_def split: option.splits)
qed simp

end

section \<open>Resources\<close>

datatype resource = RClock string | RClockOn string | RReset | RRegulator string | RPower string
  | RMemory | RMapping | RPins | RInfo

text \<open>What a call takes or gives back, depending on the kernel's answer.\<close>

fun gain :: "kernel \<Rightarrow> klog \<Rightarrow> kcall \<Rightarrow> resource \<Rightarrow> int" where
  "gain k l (ClkGet n) r = (if r = RClock n \<and> k_ptr k l (ClkGet n) = PVALID then 1 else 0)"
| "gain k l (ClkPut n) r = (if r = RClock n then -1 else 0)"
| "gain k l (ClkEnable n) r = (if r = RClockOn n \<and> k_int k l (ClkEnable n) = 0 then 1 else 0)"
| "gain k l (ClkDisable n) r = (if r = RClockOn n then -1 else 0)"
| "gain k l ResetDeassert r = (if r = RReset \<and> k_int k l ResetDeassert = 0 then 1 else 0)"
| "gain k l ResetAssert r = (if r = RReset then -1 else 0)"
| "gain k l (RegulatorGet n) r = (if r = RRegulator n \<and> k_ptr k l (RegulatorGet n) = PVALID then 1 else 0)"
| "gain k l (RegulatorPut n) r = (if r = RRegulator n then -1 else 0)"
| "gain k l (RegulatorEnable n) r = (if r = RPower n \<and> k_int k l (RegulatorEnable n) \<ge> 0 then 1 else 0)"
| "gain k l (RegulatorDisable n) r = (if r = RPower n then -1 else 0)"
| "gain k l RequestMem r = (if r = RMemory \<and> k_ptr k l RequestMem = PVALID then 1 else 0)"
| "gain k l ReleaseMem r = (if r = RMemory then -1 else 0)"
| "gain k l Ioremap r = (if r = RMapping \<and> k_ptr k l Ioremap = PVALID then 1 else 0)"
| "gain k l Iounmap r = (if r = RMapping then -1 else 0)"
| "gain k l PinctrlGet r = (if r = RPins \<and> k_ptr k l PinctrlGet = PVALID then 1 else 0)"
| "gain k l PinctrlPut r = (if r = RPins then -1 else 0)"
| "gain k l Kzalloc r = (if r = RInfo \<and> k_ptr k l Kzalloc = PVALID then 1 else 0)"
| "gain k l Kfree r = (if r = RInfo then -1 else 0)"
| "gain k l _ r = 0"

definition held :: "kernel \<Rightarrow> klog \<Rightarrow> resource \<Rightarrow> int" where
  "held k l r = (\<Sum>i<length l. gain k (take i l) (l ! i) r)"

text \<open>What a run of calls takes, after the calls of a log.\<close>

primrec gains :: "kernel \<Rightarrow> klog \<Rightarrow> klog \<Rightarrow> resource \<Rightarrow> int" where
  "gains k l [] r = 0"
| "gains k l (c # cs) r = gain k l c r + gains k (l @ [c]) cs r"

lemma held_snoc: "held k (l @ [c]) r = held k l r + gain k l c r"
proof -
  have "(\<Sum>i<length l. gain k (take i (l @ [c])) ((l @ [c]) ! i) r) = held k l r"
    unfolding held_def by (rule sum.cong) (simp_all add: nth_append)
  then show ?thesis by (simp add: held_def nth_append)
qed

lemma held_append [simp]: "held k (l @ cs) r = held k l r + gains k l cs r"
proof (induction cs arbitrary: l)
  case (Cons c cs)
  have "held k (l @ c # cs) r = held k ((l @ [c]) @ cs) r" by simp
  also have "\<dots> = held k (l @ [c]) r + gains k (l @ [c]) cs r" by (rule Cons.IH)
  finally show ?case by (simp add: held_snoc)
qed simp

text \<open>
  One stage of a probe function. \<open>info\<close> is what the stage stores in the driver's record for its
  exit function; \<open>takes info\<close> is what it holds after success; \<open>good\<close> says which kernels the contract
  is for.
\<close>

locale init_stage =
  fixes init :: "kernel \<Rightarrow> klog \<Rightarrow> int \<times> 'info \<times> klog"
    and exit_fn :: "'info \<Rightarrow> klog \<Rightarrow> klog"
    and takes :: "'info \<Rightarrow> resource \<Rightarrow> int"
    and good :: "kernel \<Rightarrow> bool"
  assumes all: "good k \<Longrightarrow> init k l = (0, info, l') \<Longrightarrow> held k l' r = held k l r + takes info r"
    and nothing: "good k \<Longrightarrow> init k l = (rc, info, l') \<Longrightarrow> rc \<noteq> 0 \<Longrightarrow> held k l' r = held k l r"
    and undone: "held k (exit_fn info l) r = held k l r - takes info r"
begin

lemma init_exit:
  "good k \<Longrightarrow> init k l = (0, info, l') \<Longrightarrow> held k (exit_fn info l') r = held k l r"
  by (simp add: undone all)

text \<open>A stage that has to be undone because something after it failed without leaving anything.\<close>

lemma rollback:
  assumes "good k" "init k l = (0, info, l1)" "\<And>r. held k l2 r = held k l1 r"
  shows "held k (exit_fn info l2) r = held k l r"
  using assms by (simp add: undone all)

end

lemmas stage_defs = ask_defs IS_ERR_OR_NULL_def PTR_ERR_def err_defs

definition mem_takes :: "unit \<Rightarrow> resource \<Rightarrow> int" where
  "mem_takes _ r = (if r \<in> {RMemory, RMapping} then 1 else 0)"

text \<open>Kernels whose clocks never refuse to start, which answer a request for a clock with the clock or
  an error pointer, and a request for memory with memory or \<open>NULL\<close>.\<close>

definition clocks_start :: "kernel \<Rightarrow> bool" where
  "clocks_start k \<longleftrightarrow> (\<forall>l n. k_int k l (ClkEnable n) = 0) \<and>
     (\<forall>l n. k_ptr k l (ClkGet n) \<notin> {PNULL, PERR 0}) \<and> (\<forall>l. k_ptr k l ResetGet \<notin> {PNULL, PERR 0}) \<and>
     (\<forall>l. k_ptr k l Kzalloc \<in> {PNULL, PVALID})"

lemma clocks_startD:
  assumes "clocks_start k"
  shows "k_int k l (ClkEnable n) = 0" "k_ptr k l Kzalloc \<noteq> PNULL \<Longrightarrow> k_ptr k l Kzalloc = PVALID"
  using assms by (auto simp: clocks_start_def)

lemma ptr_err_nonzero:
  assumes "clocks_start k" "c = ResetGet \<or> c = ClkGet n" "k_ptr k l c \<noteq> PVALID"
  shows "PTR_ERR (k_ptr k l c) \<noteq> 0"
proof -
  have "k_ptr k l c \<notin> {PNULL, PERR 0}" using assms(1,2) by (auto simp: clocks_start_def)
  then show ?thesis using assms(3) by (cases "k_ptr k l c") (auto simp: PTR_ERR_def)
qed

section \<open>A concrete kernel\<close>

text \<open>A kernel in which everything succeeds and every register reads 0, for concrete runs.\<close>

definition yes_kernel :: kernel where
  "yes_kernel = \<lparr>k_int = (\<lambda>l c. 0), k_ptr = (\<lambda>l c. PVALID), k_u32 = (\<lambda>l c. 0)\<rparr>"

lemma yes_kernel_simps [simp]:
  "k_int yes_kernel l c = 0" "k_ptr yes_kernel l c = PVALID" "k_u32 yes_kernel l c = 0"
  by (simp_all add: yes_kernel_def)

lemma yes_clocks_start: "clocks_start yes_kernel"
  by (simp add: clocks_start_def)

text \<open>The part of it that concerns the pointers alone: a refusal is an error number, never the null pointer.\<close>

definition handles_valid :: "kernel \<Rightarrow> bool" where
  "handles_valid k \<longleftrightarrow> (\<forall>l n. k_ptr k l (ClkGet n) \<notin> {PNULL, PERR 0}) \<and> (\<forall>l. k_ptr k l ResetGet \<notin> {PNULL, PERR 0}) \<and>
     (\<forall>l. k_ptr k l Kzalloc \<in> {PNULL, PVALID})"

lemma valid_err_nonzero:
  assumes "handles_valid k" "c = ResetGet \<or> c = ClkGet n" "k_ptr k l c \<noteq> PVALID"
  shows "PTR_ERR (k_ptr k l c) \<noteq> 0"
proof -
  have "k_ptr k l c \<notin> {PNULL, PERR 0}" using assms(1,2) by (auto simp: handles_valid_def)
  then show ?thesis using assms(3) by (cases "k_ptr k l c") (auto simp: PTR_ERR_def)
qed

lemma valid_kzalloc: "handles_valid k \<Longrightarrow> k_ptr k l Kzalloc \<noteq> PNULL \<Longrightarrow> k_ptr k l Kzalloc = PVALID"
  by (auto simp: handles_valid_def)

lemma yes_handles_valid: "handles_valid yes_kernel"
  by (simp add: handles_valid_def)

end
