(* ===== verification/Audio_Dma.thy ===== *)
theory Audio_Dma
  imports Audio_Base
begin

text \<open>
  What the audio DMA drivers of the two boards share: the data of the HDF audio framework they
  work on, the Linux DMA engine they call, and the contract they meet for their streams.

  \<^item> The framework's structures (\<open>PlatformData\<close> with its circle buffers and PCM parameters) and the
    kernel's \<open>dma_slave_config\<close> are records with the fields the drivers use. Addresses are
    \<open>nat\<close>; a pointer is an \<open>option\<close>, \<open>None\<close> for \<open>NULL\<close>; a channel pointer may also be an error
    pointer, which is not \<open>NULL\<close> and must not be followed.
  \<^item> The kernel is the parameter \<open>dma_kernel\<close>. Each of its answers may depend on all calls made
    so far, which the state records in \<open>calls\<close>.
  \<^item> A driver operation maps a state to a result code and a state; \<open>None\<close> is undefined behaviour
    (a \<open>NULL\<close> or error pointer followed, an uninitialised variable read, a division by zero).
  \<^item> The locale \<open>stream_isolation\<close> states what a driver must guarantee to serve playback and
    recording at the same time, and proves that then any interleaving of operations on the two
    streams looks to each stream as if it were alone. Both drivers are instances.
\<close>

section \<open>Framework and kernel data\<close>

record CircleBufInfo =
  cirBufMax :: u32
  cirBufSize :: u32
  periodSize :: u32
  periodsMax :: u32
  wbufOffSet :: u32
  virtAddr :: "nat option"
  phyAddr :: nat

record PcmInfo =
  bitWidth :: u32
  channels :: u32
  frameSize :: u32
  interleaved :: bool
  streamType :: AudioStreamType

text \<open>\<open>dmaPrv\<close> is the pointer to the driver's runtime data: set or \<open>NULL\<close>.\<close>

record PlatformData =
  platformInitFlag :: bool
  renderBufInfo :: CircleBufInfo
  captureBufInfo :: CircleBufInfo
  renderPcmInfo :: PcmInfo
  capturePcmInfo :: PcmInfo
  dmaPrv :: bool

datatype dma_transfer_direction = DMA_MEM_TO_MEM | DMA_MEM_TO_DEV | DMA_DEV_TO_MEM
datatype dma_status = DMA_COMPLETE | DMA_IN_PROGRESS | DMA_PAUSED | DMA_ERROR

text \<open>Bus widths are counted in bytes, as the kernel's enumeration does; 0 is undefined.\<close>

record dma_slave_config =
  direction :: dma_transfer_direction
  src_addr :: u32
  dst_addr :: u32
  src_addr_width :: nat
  dst_addr_width :: nat
  src_maxburst :: nat
  dst_maxburst :: nat
  device_fc :: bool
  slave_id :: nat

definition zero_config :: dma_slave_config where
  "zero_config = \<lparr>direction = DMA_MEM_TO_MEM, src_addr = 0, dst_addr = 0, src_addr_width = 0,
     dst_addr_width = 0, src_maxburst = 0, dst_maxburst = 0, device_fc = False, slave_id = 0\<rparr>"

datatype chan_ptr = CHAN_NULL | CHAN_ERR int | CHAN nat

text \<open>Following a channel pointer faults unless it points to a channel.\<close>

fun deref :: "chan_ptr \<Rightarrow> nat option" where
  "deref (CHAN c) = Some c"
| "deref _ = None"

definition IS_ERR :: "chan_ptr \<Rightarrow> bool" where
  "IS_ERR p = (case p of CHAN_ERR e \<Rightarrow> True | _ \<Rightarrow> False)"

section \<open>The DMA engine\<close>

datatype dma_call =
    RequestChan nat string
  | ReleaseChan nat
  | SetMask nat u32
  | AllocWc nat u32
  | FreeWc nat u32 nat nat
  | SlaveConfig nat dma_slave_config
  | PrepCyclic nat nat u32 u32 dma_transfer_direction nat
  | SubmitDesc nat nat
  | IssuePending nat
  | TerminateAsync nat
  | TxStatus nat int

record dma_kernel =
  of_find_node_by_path :: "string \<Rightarrow> nat option"
  of_find_device_by_node :: "nat \<Rightarrow> nat option"
  chan_device :: "nat \<Rightarrow> nat option"
  device_dev :: "nat \<Rightarrow> nat option"
  k_request :: "dma_call list \<Rightarrow> nat \<Rightarrow> string \<Rightarrow> chan_ptr"
  k_alloc :: "dma_call list \<Rightarrow> nat \<Rightarrow> u32 \<Rightarrow> (nat \<times> nat) option"
  k_config :: "dma_call list \<Rightarrow> nat \<Rightarrow> dma_slave_config \<Rightarrow> int"
  k_prep :: "dma_call list \<Rightarrow> nat \<Rightarrow> nat \<Rightarrow> u32 \<Rightarrow> u32 \<Rightarrow> dma_transfer_direction \<Rightarrow> nat option"
  k_submit :: "dma_call list \<Rightarrow> nat \<Rightarrow> nat \<Rightarrow> int"
  k_terminate :: "dma_call list \<Rightarrow> nat \<Rightarrow> int"
  k_status :: "dma_call list \<Rightarrow> nat \<Rightarrow> int \<Rightarrow> dma_status \<times> u32"

record 'r dma_state =
  rtd :: 'r
  pdata :: "PlatformData option"
  calls :: "dma_call list"

definition call :: "dma_call \<Rightarrow> 'r dma_state \<Rightarrow> 'r dma_state" where
  "call c s = s\<lparr>calls := calls s @ [c]\<rparr>"

text \<open>The channel a call works on.\<close>

fun call_chan :: "dma_call \<Rightarrow> nat option" where
  "call_chan (ReleaseChan c) = Some c"
| "call_chan (SlaveConfig c _) = Some c"
| "call_chan (PrepCyclic c _ _ _ _ _) = Some c"
| "call_chan (SubmitDesc c _) = Some c"
| "call_chan (IssuePending c) = Some c"
| "call_chan (TerminateAsync c) = Some c"
| "call_chan (TxStatus c _) = Some c"
| "call_chan _ = None"

definition chan_log :: "nat \<Rightarrow> dma_call list \<Rightarrow> dma_call list" where
  "chan_log c = filter (\<lambda>x. call_chan x = Some c)"

lemma chan_log_simps [simp]:
  "chan_log c [] = []"
  "chan_log c (xs @ ys) = chan_log c xs @ chan_log c ys"
  "chan_log c (x # xs) = (if call_chan x = Some c then x # chan_log c xs else chan_log c xs)"
  by (simp_all add: chan_log_def)

lemma call_simps [simp]:
  "rtd (call c s) = rtd s" "pdata (call c s) = pdata s" "calls (call c s) = calls s @ [c]"
  "call c (s\<lparr>rtd := r\<rparr>) = (call c s)\<lparr>rtd := r\<rparr>" "call c (s\<lparr>pdata := d\<rparr>) = (call c s)\<lparr>pdata := d\<rparr>"
  by (simp_all add: call_def)

text \<open>The calls made on the channel a pointer points to.\<close>

definition own_calls :: "chan_ptr \<Rightarrow> dma_call list \<Rightarrow> dma_call list" where
  "own_calls p l = (case p of CHAN c \<Rightarrow> chan_log c l | _ \<Rightarrow> [])"

text \<open>
  Two hypotheses on the kernel. \<open>channels_independent\<close>: what the engine answers for a channel
  depends on the calls made on that channel only. \<open>channels_exclusive\<close>: a channel that has been
  handed out is not handed out again before it is released.
\<close>

definition channels_independent :: "dma_kernel \<Rightarrow> bool" where
  "channels_independent k \<longleftrightarrow>
     (\<forall>l l' c. chan_log c l = chan_log c l' \<longrightarrow>
        k_config k l c = k_config k l' c \<and> k_prep k l c = k_prep k l' c \<and>
        k_submit k l c = k_submit k l' c \<and> k_terminate k l c = k_terminate k l' c \<and>
        k_status k l c = k_status k l' c)"

definition requested :: "dma_kernel \<Rightarrow> dma_call list \<Rightarrow> nat \<Rightarrow> bool" where
  "requested k l c \<longleftrightarrow>
     (\<exists>i<length l. \<exists>d nm. l ! i = RequestChan d nm \<and> k_request k (take i l) d nm = CHAN c \<and>
        ReleaseChan c \<notin> set (drop i l))"

definition channels_exclusive :: "dma_kernel \<Rightarrow> bool" where
  "channels_exclusive k \<longleftrightarrow>
     (\<forall>l d nm c. k_request k l d nm = CHAN c \<longrightarrow> \<not> requested k l c)"

lemma independent_answers:
  assumes "channels_independent k" "chan_log c l = chan_log c l'"
  shows "k_config k l c = k_config k l' c" "k_prep k l c = k_prep k l' c"
    "k_submit k l c = k_submit k l' c" "k_terminate k l c = k_terminate k l' c"
    "k_status k l c = k_status k l' c"
  using assms unfolding channels_independent_def by blast+

lemma exclusive_second:
  assumes "channels_exclusive k" "k_request k l d nm = CHAN c" "k_request k (l @ RequestChan d nm # l') d' nm' = CHAN c'"
    "ReleaseChan c \<notin> set l'"
  shows "c' \<noteq> c"
proof
  assume "c' = c"
  have "requested k (l @ RequestChan d nm # l') c"
    unfolding requested_def using assms(2,4)
    by (intro exI [of _ "length l"]) simp
  then show False
    using assms(1,3) \<open>c' = c\<close> unfolding channels_exclusive_def by blast
qed

section \<open>The operations of a DMA driver\<close>

text \<open>
  The operations of the table \<open>g_dmaDeviceOps\<close> that the framework calls while a stream is set up
  and runs; \<open>DmaBufAlloc\<close> and \<open>DmaBufFree\<close>, which open and close a stream, are apart. An operation
  gives its result code and, for \<open>DmaPointer\<close>, the position it stored.
\<close>

datatype dma_op = DmaRequestChannel | DmaConfigChannel | DmaPrep | DmaSubmit | DmaPending
  | DmaPause | DmaResume | DmaPointer

type_synonym op_result = "int \<times> u32 option"

definition rc_only :: "(int \<times> 's) option \<Rightarrow> (op_result \<times> 's) option" where
  "rc_only x = do { (r, s) \<leftarrow> x; Some ((r, None), s) }"

text \<open>Calling an operation \<open>n\<close> times, results dropped.\<close>

primrec repeat_op :: "nat \<Rightarrow> ('s \<Rightarrow> (int \<times> 's) option) \<Rightarrow> 's \<Rightarrow> 's option" where
  "repeat_op 0 f s = Some s"
| "repeat_op (Suc n) f s = do { s1 \<leftarrow> repeat_op n f s; (rc, s2) \<leftarrow> f s1; Some s2 }"

primrec run_ops ::
    "('op \<Rightarrow> 'st \<Rightarrow> 's \<Rightarrow> ('res \<times> 's) option) \<Rightarrow> ('op \<times> 'st) list \<Rightarrow> 's \<Rightarrow> (('st \<times> 'res) list \<times> 's) option"
where
  "run_ops run [] s = Some ([], s)"
| "run_ops run (x # xs) s = do {
     (r, s1) \<leftarrow> run (fst x) (snd x) s;
     (rs, s2) \<leftarrow> run_ops run xs s1;
     Some ((snd x, r) # rs, s2) }"

definition only :: "'st \<Rightarrow> ('op \<times> 'st) list \<Rightarrow> ('op \<times> 'st) list" where
  "only st = filter (\<lambda>x. snd x = st)"

definition results_of :: "'st \<Rightarrow> ('st \<times> 'res) list \<Rightarrow> 'res list" where
  "results_of st rs = map snd (filter (\<lambda>r. fst r = st) rs)"

section \<open>Isolation of the streams\<close>

text \<open>
  The contract: in a well-formed state every operation on one of the \<open>streams\<close> returns and keeps
  well-formedness; it does not change what another stream can see; and its result and effect on
  its own stream depend only on what that stream can see.
\<close>

locale stream_isolation =
  fixes run :: "'op \<Rightarrow> 'st \<Rightarrow> 's \<Rightarrow> ('res \<times> 's) option"
    and view :: "'st \<Rightarrow> 's \<Rightarrow> 'v"
    and ok :: "'s \<Rightarrow> bool"
    and streams :: "'st set"
  assumes total: "ok s \<Longrightarrow> st \<in> streams \<Longrightarrow> \<exists>r s'. run op st s = Some (r, s')"
    and keeps: "ok s \<Longrightarrow> st \<in> streams \<Longrightarrow> run op st s = Some (r, s') \<Longrightarrow> ok s'"
    and separate: "ok s \<Longrightarrow> st \<in> streams \<Longrightarrow> st' \<in> streams \<Longrightarrow> st' \<noteq> st \<Longrightarrow>
      run op st s = Some (r, s') \<Longrightarrow> view st' s' = view st' s"
    and determined: "ok s \<Longrightarrow> ok t \<Longrightarrow> st \<in> streams \<Longrightarrow> view st s = view st t \<Longrightarrow>
      run op st s = Some (r, s') \<Longrightarrow> run op st t = Some (q, t') \<Longrightarrow> r = q \<and> view st s' = view st t'"
begin

lemma run_ops_total:
  "ok s \<Longrightarrow> snd ` set ops \<subseteq> streams \<Longrightarrow> \<exists>rs s'. run_ops run ops s = Some (rs, s') \<and> ok s'"
proof (induction ops arbitrary: s)
  case (Cons x xs)
  obtain r s1 where 1: "run (fst x) (snd x) s = Some (r, s1)"
    using total [OF Cons.prems(1), of "snd x" "fst x"] Cons.prems(2) by auto
  then have "ok s1" using keeps [OF Cons.prems(1)] Cons.prems(2) by auto
  then obtain rs s2 where "run_ops run xs s1 = Some (rs, s2)" "ok s2"
    using Cons.IH Cons.prems(2) by (meson image_subset_iff list.set_intros(2))
  then show ?case using 1 by simp
qed simp

text \<open>Unwinding: two states that look alike to a stream stay alike when one of them runs all
  operations and the other only those of the stream.\<close>

lemma unwind:
  assumes "st \<in> streams"
  shows "\<lbrakk> ok s; ok t; view st s = view st t; snd ` set ops \<subseteq> streams;
     run_ops run ops s = Some (rs, s'); run_ops run (only st ops) t = Some (qs, t') \<rbrakk> \<Longrightarrow>
     map snd qs = results_of st rs \<and> view st s' = view st t'"
proof (induction ops arbitrary: s t rs qs)
  case Nil
  then show ?case by (simp add: only_def results_of_def)
next
  case (Cons x xs)
  obtain op a where x: "x = (op, a)" by (cases x)
  have a: "a \<in> streams" and xs: "snd ` set xs \<subseteq> streams" using Cons.prems(4) x by auto
  obtain r s1 rs' where 1: "run op a s = Some (r, s1)" "run_ops run xs s1 = Some (rs', s')"
    "rs = (a, r) # rs'"
    using Cons.prems(5) by (auto simp: x bind_eq_Some_conv)
  have ok1: "ok s1" using keeps [OF Cons.prems(1) a 1(1)] .
  show ?case
  proof (cases "a = st")
    case True
    obtain q t1 qs' where 2: "run op st t = Some (q, t1)"
      "run_ops run (only st xs) t1 = Some (qs', t')" "qs = (st, q) # qs'"
      using Cons.prems(6) True by (auto simp: x only_def bind_eq_Some_conv)
    have "ok t1" using keeps [OF Cons.prems(2) assms 2(1)] .
    moreover have "r = q \<and> view st s1 = view st t1"
      using determined [OF Cons.prems(1,2) assms Cons.prems(3) _ 2(1)] 1(1) True by simp
    ultimately show ?thesis
      using Cons.IH [OF ok1 _ _ xs 1(2) 2(2)] True 1(3) 2(3) by (simp add: results_of_def)
  next
    case False
    have "view st s1 = view st s"
      using separate [OF Cons.prems(1) a assms _ 1(1)] False by auto
    moreover have "run_ops run (only st xs) t = Some (qs, t')"
      using Cons.prems(6) False by (simp add: x only_def)
    ultimately show ?thesis
      using Cons.IH [OF ok1 Cons.prems(2) _ xs 1(2)] Cons.prems(3) False 1(3)
      by (simp add: results_of_def)
  qed
qed

text \<open>Any interleaving looks to a stream as if its own operations ran alone.\<close>

lemma isolated:
  assumes "ok s" "st \<in> streams" "snd ` set ops \<subseteq> streams"
  shows "\<exists>rs s' qs t'. run_ops run ops s = Some (rs, s') \<and>
    run_ops run (only st ops) s = Some (qs, t') \<and>
    results_of st rs = map snd qs \<and> view st s' = view st t'"
proof -
  obtain rs s' where 1: "run_ops run ops s = Some (rs, s')"
    using run_ops_total [OF assms(1,3)] by blast
  have "snd ` set (only st ops) \<subseteq> streams" using assms(3) by (auto simp: only_def)
  then obtain qs t' where 2: "run_ops run (only st ops) s = Some (qs, t')"
    using run_ops_total [OF assms(1)] by blast
  show ?thesis
    using unwind [OF assms(2,1,1) refl assms(3) 1 2] 1 2 by auto
qed

end

section \<open>Access to the data of a stream\<close>

definition buf_of :: "AudioStreamType \<Rightarrow> PlatformData \<Rightarrow> CircleBufInfo" where
  "buf_of st d = (if st = AUDIO_CAPTURE_STREAM then captureBufInfo d else renderBufInfo d)"

definition pcm_of :: "AudioStreamType \<Rightarrow> PlatformData \<Rightarrow> PcmInfo" where
  "pcm_of st d = (if st = AUDIO_CAPTURE_STREAM then capturePcmInfo d else renderPcmInfo d)"

definition set_buf :: "AudioStreamType \<Rightarrow> CircleBufInfo \<Rightarrow> PlatformData \<Rightarrow> PlatformData" where
  "set_buf st b d =
     (if st = AUDIO_CAPTURE_STREAM then d\<lparr>captureBufInfo := b\<rparr> else d\<lparr>renderBufInfo := b\<rparr>)"

lemma buf_of_set_buf [simp]: "buf_of st (set_buf st b d) = b"
  by (simp add: buf_of_def set_buf_def)

abbreviation audio_streams :: "AudioStreamType set" where
  "audio_streams \<equiv> {AUDIO_CAPTURE_STREAM, AUDIO_RENDER_STREAM}"

section \<open>A concrete engine\<close>

text \<open>
  An engine that satisfies the hypotheses, for concrete runs: a request gives the number of calls
  made so far as the channel, every call succeeds and every status says that 48 bytes are left.
\<close>

definition demo_kernel :: dma_kernel where
  "demo_kernel = \<lparr>of_find_node_by_path = (\<lambda>p. Some (length p)), of_find_device_by_node = Some,
     chan_device = Some, device_dev = Some, k_request = (\<lambda>l d nm. CHAN (length l)),
     k_alloc = (\<lambda>l d n. Some (4096, 8192)), k_config = (\<lambda>l c cfg. 0),
     k_prep = (\<lambda>l c a n p dir. Some 1), k_submit = (\<lambda>l c d. 7), k_terminate = (\<lambda>l c. 0),
     k_status = (\<lambda>l c ck. (DMA_IN_PROGRESS, 48))\<rparr>"

lemma demo_kernel_simps [simp]:
  "of_find_node_by_path demo_kernel p = Some (length p)" "of_find_device_by_node demo_kernel n = Some n"
  "chan_device demo_kernel c = Some c" "device_dev demo_kernel c = Some c"
  "k_request demo_kernel l d nm = CHAN (length l)" "k_alloc demo_kernel l d n' = Some (4096, 8192)"
  "k_config demo_kernel l c cfg = 0" "k_prep demo_kernel l c a n' per dir = Some 1"
  "k_submit demo_kernel l c d = 7" "k_terminate demo_kernel l c = 0"
  "k_status demo_kernel l c ck = (DMA_IN_PROGRESS, 48)"
  by (simp_all add: demo_kernel_def)

lemma demo_independent: "channels_independent demo_kernel"
  by (simp add: channels_independent_def demo_kernel_def)

lemma demo_exclusive: "channels_exclusive demo_kernel"
  by (auto simp: channels_exclusive_def requested_def)

text \<open>Stereo streams of 16 bits with rings of 96 bytes in two periods.\<close>

definition demo_buf :: CircleBufInfo where
  "demo_buf = \<lparr>cirBufMax = 128, cirBufSize = 96, periodSize = 48, periodsMax = 0, wbufOffSet = 0,
     virtAddr = None, phyAddr = 0\<rparr>"

definition demo_pcm :: "AudioStreamType \<Rightarrow> PcmInfo" where
  "demo_pcm st = \<lparr>bitWidth = 16, channels = 2, frameSize = 4, interleaved = True, streamType = st\<rparr>"

definition demo_data :: PlatformData where
  "demo_data = \<lparr>platformInitFlag = False, renderBufInfo = demo_buf, captureBufInfo = demo_buf,
     renderPcmInfo = demo_pcm AUDIO_RENDER_STREAM, capturePcmInfo = demo_pcm AUDIO_CAPTURE_STREAM,
     dmaPrv = False\<rparr>"

end
