(* ===== verification/Audio_Dma_T507.thy ===== *)
theory Audio_Dma_T507
  imports Audio_Dma
begin

text \<open>
  The audio DMA driver of the zhiyuan board (\<open>t507_dma_ops.c\<close>, operation table in
  \<open>t507_dma_adapter.c\<close>). The global \<open>g_prtd\<close> is the field \<open>rtd\<close> of the state, the platform data
  the framework passes to every operation is \<open>pdata\<close> (\<open>None\<close> for a \<open>NULL\<close> pointer). The two
  branches each operation has for the two streams differ in the names of the fields only, so the
  model selects the field by the stream.

  Shown: a successful initialisation gives two distinct channels; from there on the operations
  of the two streams never fault and never disturb each other; the reported position lies inside
  the ring buffer; and the life cycle of the DMA buffer, in which a freed buffer keeps its address
  and so is freed again or handed out again.
\<close>

section \<open>State\<close>

definition DMA_STREAM_TX :: nat where "DMA_STREAM_TX = 0"
definition DMA_STREAM_RX :: nat where "DMA_STREAM_RX = 1"

record DmaRuntimeData =
  dma_dev :: "nat option list"
  dma_chan :: "chan_ptr list"
  cookie :: "int list"
  rtd_streamType :: AudioStreamType

type_synonym t507_state = "DmaRuntimeData dma_state"

definition stream_idx :: "AudioStreamType \<Rightarrow> nat option" where
  "stream_idx st = (if st = AUDIO_RENDER_STREAM then Some DMA_STREAM_TX
     else if st = AUDIO_CAPTURE_STREAM then Some DMA_STREAM_RX else None)"

definition g_codec_dtstreepath :: string where
  "g_codec_dtstreepath = ''/soc@3000000/codec@5096000''"
definition g_ahub_dtstreepath :: string where
  "g_ahub_dtstreepath = ''/soc@3000000/ahub@5097000''"

definition SUNXI_CODEC_ADDR_BASE :: u32 where "SUNXI_CODEC_ADDR_BASE = 0x05096000"
definition SUNXI_DAC_TXDATA :: u32 where "SUNXI_DAC_TXDATA = 0x20"
definition SUNXI_AHUB_ADDR_BASE :: u32 where "SUNXI_AHUB_ADDR_BASE = 0x05097000"
definition SUNXI_AHUB_APBIF_RXFIFO :: "u32 \<Rightarrow> u32" where "SUNXI_AHUB_APBIF_RXFIFO n = 0x120 + n * 0x30"
definition AHUB_APBIF_USE :: u32 where "AHUB_APBIF_USE = 0"

section \<open>Initialisation\<close>

definition get_dma_device :: "dma_kernel \<Rightarrow> string \<Rightarrow> nat option" where
  "get_dma_device k dtstreepath = (case of_find_node_by_path k dtstreepath of
     None \<Rightarrow> None
   | Some n \<Rightarrow> of_find_device_by_node k n)"

text \<open>One half of \<open>audio_dma_request\<close>: the device of a stream, then its channel.\<close>

definition request_stream ::
    "dma_kernel \<Rightarrow> nat \<Rightarrow> string \<Rightarrow> string \<Rightarrow> t507_state \<Rightarrow> int \<times> t507_state" where
  "request_stream k i path nm s = (
     let dev = get_dma_device k path;
         s1 = s\<lparr>rtd := (rtd s)\<lparr>dma_dev := (dma_dev (rtd s))[i := dev]\<rparr>\<rparr>
     in case dev of None \<Rightarrow> (HDF_FAILURE, s1)
        | Some d \<Rightarrow>
            let ch = k_request k (calls s1) d nm;
                s2 = call (RequestChan d nm) s1;
                s3 = s2\<lparr>rtd := (rtd s2)\<lparr>dma_chan := (dma_chan (rtd s2))[i := ch]\<rparr>\<rparr>
            in (if IS_ERR ch then HDF_FAILURE else HDF_SUCCESS, s3))"

definition audio_dma_request :: "dma_kernel \<Rightarrow> t507_state \<Rightarrow> int \<times> t507_state" where
  "audio_dma_request k s = (
     let (ret, s1) = request_stream k DMA_STREAM_TX g_codec_dtstreepath ''tx'' s
     in if ret \<noteq> HDF_SUCCESS then (HDF_FAILURE, s1)
        else request_stream k DMA_STREAM_RX g_ahub_dtstreepath ''rx'' s1)"

text \<open>\<open>audioCard\<close> and \<open>platformDevice\<close> say whether the pointers are set; \<open>pdata\<close> is \<open>devData\<close>.\<close>

definition T507AudioDmaDeviceInit :: "dma_kernel \<Rightarrow> bool \<Rightarrow> bool \<Rightarrow> t507_state \<Rightarrow> int \<times> t507_state" where
  "T507AudioDmaDeviceInit k audioCard platformDevice s = (
     if \<not> audioCard \<or> \<not> platformDevice then (HDF_FAILURE, s)
     else case pdata s of None \<Rightarrow> (HDF_FAILURE, s)
     | Some d \<Rightarrow>
         if platformInitFlag d then (HDF_SUCCESS, s)
         else let (ret, s1) = audio_dma_request k s
              in if ret < 0 then (HDF_FAILURE, s1)
                 else (HDF_SUCCESS, s1\<lparr>pdata := Some (d\<lparr>platformInitFlag := True\<rparr>)\<rparr>))"

section \<open>Buffers\<close>

definition T507AudioDmaBufAlloc ::
    "dma_kernel \<Rightarrow> AudioStreamType \<Rightarrow> t507_state \<Rightarrow> (int \<times> t507_state) option" where
  "T507AudioDmaBufAlloc k st s = (case pdata s of
     None \<Rightarrow> Some (HDF_FAILURE, s)
   | Some d \<Rightarrow> (case stream_idx st of
       None \<Rightarrow> Some (HDF_FAILURE, s)
     | Some i \<Rightarrow>
         let finish = (\<lambda>d s. (HDF_SUCCESS, s\<lparr>pdata := Some (d\<lparr>dmaPrv := True\<rparr>),
                             rtd := (rtd s)\<lparr>rtd_streamType := st\<rparr>\<rparr>));
             b = buf_of st d
         in if virtAddr b = None then do {
              dev \<leftarrow> dma_dev (rtd s) ! i;
              s1 \<leftarrow> Some (call (SetMask dev 0xffffffff) s);
              case k_alloc k (calls s1) dev (cirBufMax b) of
                None \<Rightarrow> Some (HDF_FAILURE, call (AllocWc dev (cirBufMax b)) s1)
              | Some (va, pa) \<Rightarrow>
                  Some (finish (set_buf st (b\<lparr>virtAddr := Some va, phyAddr := pa\<rparr>) d)
                          (call (AllocWc dev (cirBufMax b)) s1)) }
            else Some (finish d s)))"

definition T507AudioDmaBufFree ::
    "dma_kernel \<Rightarrow> AudioStreamType \<Rightarrow> t507_state \<Rightarrow> (int \<times> t507_state) option" where
  "T507AudioDmaBufFree k st s = (case pdata s of
     None \<Rightarrow> Some (HDF_FAILURE, s)
   | Some d \<Rightarrow> (case stream_idx st of
       None \<Rightarrow> Some (HDF_FAILURE, s)
     | Some i \<Rightarrow>
         (case virtAddr (buf_of st d) of
            None \<Rightarrow> Some (HDF_SUCCESS, s)
          | Some va \<Rightarrow> do {
              dev \<leftarrow> dma_dev (rtd s) ! i;
              Some (HDF_SUCCESS, call (FreeWc dev (cirBufMax (buf_of st d)) va (phyAddr (buf_of st d))) s) })))"

section \<open>Streaming\<close>

definition T507AudioDmaRequestChannel :: "AudioStreamType \<Rightarrow> t507_state \<Rightarrow> (int \<times> t507_state) option" where
  "T507AudioDmaRequestChannel st s = Some (HDF_SUCCESS, s)"

text \<open>The switch on the bit width; \<open>None\<close> is its default branch.\<close>

definition bus_width :: "u32 \<Rightarrow> nat option" where
  "bus_width w = (if w = 8 then Some 1 else if w = 16 then Some 2 else if w = 32 then Some 4 else None)"

definition slaveConfig_of :: "AudioStreamType \<Rightarrow> nat \<Rightarrow> dma_slave_config" where
  "slaveConfig_of st w = (
     if st = AUDIO_RENDER_STREAM then
       zero_config\<lparr>direction := DMA_MEM_TO_DEV, dst_addr_width := w, src_addr_width := w,
         dst_maxburst := 4, dst_addr := SUNXI_CODEC_ADDR_BASE + SUNXI_DAC_TXDATA, device_fc := False\<rparr>
     else
       zero_config\<lparr>direction := DMA_DEV_TO_MEM, src_addr_width := w, dst_addr_width := w,
         src_maxburst := 4,
         src_addr := SUNXI_AHUB_ADDR_BASE + SUNXI_AHUB_APBIF_RXFIFO AHUB_APBIF_USE,
         device_fc := False\<rparr>)"

definition T507AudioDmaConfigChannel ::
    "dma_kernel \<Rightarrow> AudioStreamType \<Rightarrow> t507_state \<Rightarrow> (int \<times> t507_state) option" where
  "T507AudioDmaConfigChannel k st s = (case pdata s of
     None \<Rightarrow> Some (HDF_FAILURE, s)
   | Some d \<Rightarrow> (case stream_idx st of
       None \<Rightarrow> Some (HDF_FAILURE, s)
     | Some i \<Rightarrow> (case bus_width (bitWidth (pcm_of st d)) of
         None \<Rightarrow> Some (HDF_FAILURE, s)
       | Some w \<Rightarrow> do {
           c \<leftarrow> deref (dma_chan (rtd s) ! i);
           let cfg = slaveConfig_of st w;
           let ret = k_config k (calls s) c cfg;
           Some (if ret \<noteq> 0 then HDF_FAILURE else HDF_SUCCESS, call (SlaveConfig c cfg) s) })))"

definition T507AudioDmaPrep :: "AudioStreamType \<Rightarrow> t507_state \<Rightarrow> (int \<times> t507_state) option" where
  "T507AudioDmaPrep st s = Some (HDF_SUCCESS, s)"

definition stream_direction :: "AudioStreamType \<Rightarrow> dma_transfer_direction" where
  "stream_direction st = (if st = AUDIO_RENDER_STREAM then DMA_MEM_TO_DEV else DMA_DEV_TO_MEM)"

text \<open>\<open>flags\<close> is \<open>DMA_CTRL_ACK | DMA_PREP_INTERRUPT\<close>, 3. The platform data is used unchecked.\<close>

definition T507AudioDmaSubmit ::
    "dma_kernel \<Rightarrow> AudioStreamType \<Rightarrow> t507_state \<Rightarrow> (int \<times> t507_state) option" where
  "T507AudioDmaSubmit k st s = (case stream_idx st of
     None \<Rightarrow> Some (HDF_FAILURE, s)
   | Some i \<Rightarrow> do {
       d \<leftarrow> pdata s;
       c \<leftarrow> deref (dma_chan (rtd s) ! i);
       let b = buf_of st d;
       let s1 = call (PrepCyclic c (phyAddr b) (cirBufSize b) (periodSize b) (stream_direction st) 3) s;
       (case k_prep k (calls s) c (phyAddr b) (cirBufSize b) (periodSize b) (stream_direction st) of
          None \<Rightarrow> Some (- ENOMEM, s1)
        | Some desc \<Rightarrow>
            Some (HDF_SUCCESS, call (SubmitDesc c desc)
              (s1\<lparr>rtd := (rtd s1)\<lparr>cookie := (cookie (rtd s1))[i := k_submit k (calls s1) c desc]\<rparr>\<rparr>))) })"

definition T507AudioDmaPending ::
    "dma_kernel \<Rightarrow> AudioStreamType \<Rightarrow> t507_state \<Rightarrow> (int \<times> t507_state) option" where
  "T507AudioDmaPending k st s = (case pdata s of
     None \<Rightarrow> Some (HDF_FAILURE, s)
   | Some d \<Rightarrow> (case stream_idx st of
       None \<Rightarrow> Some (HDF_FAILURE, s)
     | Some i \<Rightarrow> do {
         c \<leftarrow> deref (dma_chan (rtd s) ! i);
         Some (HDF_SUCCESS, call (IssuePending c) s) }))"

definition T507AudioDmaPause ::
    "dma_kernel \<Rightarrow> AudioStreamType \<Rightarrow> t507_state \<Rightarrow> (int \<times> t507_state) option" where
  "T507AudioDmaPause k st s = (case pdata s of
     None \<Rightarrow> Some (HDF_FAILURE, s)
   | Some d \<Rightarrow> (case stream_idx st of
       None \<Rightarrow> Some (HDF_FAILURE, s)
     | Some i \<Rightarrow> do {
         c \<leftarrow> deref (dma_chan (rtd s) ! i);
         Some (HDF_SUCCESS, call (TerminateAsync c) s) }))"

definition T507AudioDmaResume ::
    "dma_kernel \<Rightarrow> AudioStreamType \<Rightarrow> t507_state \<Rightarrow> (int \<times> t507_state) option" where
  "T507AudioDmaResume k st s = (case pdata s of
     None \<Rightarrow> Some (HDF_FAILURE, s)
   | Some d \<Rightarrow> (case stream_idx st of
       None \<Rightarrow> Some (HDF_FAILURE, s)
     | Some i \<Rightarrow> do {
         (ret, s1) \<leftarrow> T507AudioDmaSubmit k st s;
         if ret \<noteq> HDF_SUCCESS then Some (HDF_FAILURE, s1)
         else do {
           c \<leftarrow> deref (dma_chan (rtd s) ! i);
           Some (HDF_SUCCESS, call (IssuePending c) s1) } }))"

section \<open>Position\<close>

definition BytesToFrames :: "u32 \<Rightarrow> u32 \<Rightarrow> u32" where
  "BytesToFrames fs n = (if fs = 0 \<or> n = 0 then 0 else n div fs)"

text \<open>The bytes already transferred, 0 when the status or the residue makes no sense.\<close>

definition ring_pos :: "dma_status \<times> u32 \<Rightarrow> u32 \<Rightarrow> u32" where
  "ring_pos status_residue buf_size = (
     let (status, residue) = status_residue
     in if (status = DMA_IN_PROGRESS \<or> status = DMA_PAUSED) \<and> residue > 0 \<and> residue \<le> buf_size
        then buf_size - residue else 0)"

text \<open>\<open>ptr\<close> says whether the argument \<open>pointer\<close> is set; the result carries what is stored there.\<close>

definition T507AudioDmaPointer ::
    "dma_kernel \<Rightarrow> AudioStreamType \<Rightarrow> bool \<Rightarrow> t507_state \<Rightarrow> (op_result \<times> t507_state) option" where
  "T507AudioDmaPointer k st ptr s = (case pdata s of
     None \<Rightarrow> Some ((HDF_FAILURE, None), s)
   | Some d \<Rightarrow>
       if \<not> ptr then Some ((HDF_FAILURE, None), s)
       else (case stream_idx st of
         None \<Rightarrow> Some ((HDF_FAILURE, None), s)
       | Some i \<Rightarrow> do {
           c \<leftarrow> deref (dma_chan (rtd s) ! i);
           let ck = cookie (rtd s) ! i;
           let pos = ring_pos (k_status k (calls s) c ck) (cirBufSize (buf_of st d));
           Some ((HDF_SUCCESS, Some (BytesToFrames (frameSize (pcm_of st d)) pos)),
                 call (TxStatus c ck) s) }))"

section \<open>The operation table\<close>

fun t507_op :: "dma_kernel \<Rightarrow> dma_op \<Rightarrow> AudioStreamType \<Rightarrow> t507_state \<Rightarrow> (op_result \<times> t507_state) option" where
  "t507_op k DmaRequestChannel st s = rc_only (T507AudioDmaRequestChannel st s)"
| "t507_op k DmaConfigChannel st s = rc_only (T507AudioDmaConfigChannel k st s)"
| "t507_op k DmaPrep st s = rc_only (T507AudioDmaPrep st s)"
| "t507_op k DmaSubmit st s = rc_only (T507AudioDmaSubmit k st s)"
| "t507_op k DmaPending st s = rc_only (T507AudioDmaPending k st s)"
| "t507_op k DmaPause st s = rc_only (T507AudioDmaPause k st s)"
| "t507_op k DmaResume st s = rc_only (T507AudioDmaResume k st s)"
| "t507_op k DmaPointer st s = T507AudioDmaPointer k st True s"

section \<open>Isolation of the two streams\<close>

text \<open>A state in which both channels are open, as a successful initialisation leaves it.\<close>

definition t507_ok :: "t507_state \<Rightarrow> bool" where
  "t507_ok s \<longleftrightarrow> pdata s \<noteq> None \<and> length (dma_chan (rtd s)) = 2 \<and> length (cookie (rtd s)) = 2 \<and>
     (\<exists>c0 c1. dma_chan (rtd s) ! 0 = CHAN c0 \<and> dma_chan (rtd s) ! 1 = CHAN c1 \<and> c0 \<noteq> c1)"

text \<open>What a stream can see: the platform data, its channel, its cookie and the calls made on its
  channel.\<close>

definition t507_view ::
    "AudioStreamType \<Rightarrow> t507_state \<Rightarrow> PlatformData option \<times> chan_ptr \<times> int \<times> dma_call list" where
  "t507_view st s = (
     let i = (if st = AUDIO_CAPTURE_STREAM then DMA_STREAM_RX else DMA_STREAM_TX)
     in (pdata s, dma_chan (rtd s) ! i, cookie (rtd s) ! i, own_calls (dma_chan (rtd s) ! i) (calls s)))"

lemmas t507_op_defs = rc_only_def T507AudioDmaRequestChannel_def T507AudioDmaConfigChannel_def
  T507AudioDmaPrep_def T507AudioDmaSubmit_def T507AudioDmaPending_def T507AudioDmaPause_def
  T507AudioDmaResume_def T507AudioDmaPointer_def

lemmas t507_idx = stream_idx_def DMA_STREAM_TX_def DMA_STREAM_RX_def

lemma t507_op_ok:
  assumes "t507_ok s" "st \<in> audio_streams"
  shows "\<exists>r s'. t507_op k op st s = Some (r, s') \<and> t507_ok s'"
  using assms
  by (cases op) (auto simp: t507_op_defs t507_idx t507_ok_def Let_def split: option.split)

lemma t507_op_separate:
  assumes "t507_ok s" "st \<in> audio_streams" "st' \<in> audio_streams" "st' \<noteq> st"
    "t507_op k op st s = Some (r, s')"
  shows "t507_view st' s' = t507_view st' s"
  using assms
  by (cases op)
    (auto simp: t507_op_defs t507_idx t507_ok_def t507_view_def own_calls_def Let_def split: option.splits if_splits)

lemma t507_op_determined:
  assumes k: "channels_independent k" and ok: "t507_ok s" "t507_ok t" and st: "st \<in> audio_streams"
    and view: "t507_view st s = t507_view st t"
    and run: "t507_op k op st s = Some (r, s')" "t507_op k op st t = Some (q, t')"
  shows "r = q \<and> t507_view st s' = t507_view st t'"
proof -
  define i :: nat where "i = (if st = AUDIO_CAPTURE_STREAM then 1 else 0)"
  obtain c d where c: "dma_chan (rtd s) ! i = CHAN c" and d: "pdata s = Some d"
    using ok(1) by (cases "st = AUDIO_CAPTURE_STREAM") (auto simp: t507_ok_def i_def)
  have idx: "stream_idx st = Some i" using st by (auto simp: t507_idx i_def)
  have view': "t507_view st u = (pdata u, dma_chan (rtd u) ! i, cookie (rtd u) ! i,
      own_calls (dma_chan (rtd u) ! i) (calls u))" for u
    by (simp add: t507_view_def t507_idx i_def)
  have chan: "dma_chan (rtd t) ! i = CHAN c" using view by (simp add: view' c)
  then have same: "dma_chan (rtd t) ! i = CHAN c" "pdata t = Some d"
    "cookie (rtd t) ! i = cookie (rtd s) ! i" "chan_log c (calls t) = chan_log c (calls s)"
    using view d by (simp_all add: view' c own_calls_def)
  note ans = independent_answers [OF k, of c "calls t" "calls s", OF same(4)]
  have sub: "k_submit k (calls t @ [x]) c = k_submit k (calls s @ [x]) c" for x
    using independent_answers(3) [OF k] same(4) by simp
  have len: "length (cookie (rtd s)) = 2" "length (cookie (rtd t)) = 2" "i < 2"
    using ok by (auto simp: t507_ok_def i_def)
  show ?thesis
    using run c d same len
    by (cases op)
      (auto simp: t507_op_defs idx view' ans sub own_calls_def Let_def split: option.splits if_splits)
qed

interpretation t507_streams: stream_isolation "t507_op k" t507_view "\<lambda>s. t507_ok s \<and> channels_independent k"
  audio_streams
proof unfold_locales
  fix s st op r s'
  assume "t507_ok s \<and> channels_independent k" "st \<in> audio_streams" "t507_op k op st s = Some (r, s')"
  then show "t507_ok s' \<and> channels_independent k"
    using t507_op_ok [of s st k op] by auto
next
  fix s st st' op r s'
  assume "t507_ok s \<and> channels_independent k" "st \<in> audio_streams" "st' \<in> audio_streams" "st' \<noteq> st"
    "t507_op k op st s = Some (r, s')"
  then show "t507_view st' s' = t507_view st' s"
    using t507_op_separate by blast
next
  fix s t st op r s' q t'
  assume "t507_ok s \<and> channels_independent k" "t507_ok t \<and> channels_independent k" "st \<in> audio_streams"
    "t507_view st s = t507_view st t" "t507_op k op st s = Some (r, s')" "t507_op k op st t = Some (q, t')"
  then show "r = q \<and> t507_view st s' = t507_view st t'"
    using t507_op_determined by blast
qed (use t507_op_ok in blast)

section \<open>Initialisation and the life of a buffer\<close>

text \<open>\<open>dma_request_chan\<close> gives a channel or an error pointer, never \<open>NULL\<close>.\<close>

definition request_never_null :: "dma_kernel \<Rightarrow> bool" where
  "request_never_null k \<longleftrightarrow> (\<forall>l d nm. k_request k l d nm \<noteq> CHAN_NULL)"

text \<open>An initialised driver: the channels are open and the devices known.\<close>

definition t507_open :: "t507_state \<Rightarrow> bool" where
  "t507_open s \<longleftrightarrow> t507_ok s \<and> (\<exists>d0 d1. dma_dev (rtd s) = [Some d0, Some d1])"

lemma request_stream_cases:
  "request_stream k i path nm s = (case get_dma_device k path of
     None \<Rightarrow> (HDF_FAILURE, s\<lparr>rtd := (rtd s)\<lparr>dma_dev := (dma_dev (rtd s))[i := None]\<rparr>\<rparr>)
   | Some d \<Rightarrow> (if IS_ERR (k_request k (calls s) d nm) then HDF_FAILURE else HDF_SUCCESS,
       s\<lparr>calls := calls s @ [RequestChan d nm],
         rtd := (rtd s)\<lparr>dma_dev := (dma_dev (rtd s))[i := Some d],
                       dma_chan := (dma_chan (rtd s))[i := k_request k (calls s) d nm]\<rparr>\<rparr>))"
  by (simp add: request_stream_def call_def Let_def split: option.split)

lemma request_stream_result: "fst (request_stream k i path nm s) \<in> {HDF_SUCCESS, HDF_FAILURE}"
  by (simp add: request_stream_cases split: option.split)

lemma request_stream_pdata: "pdata (snd (request_stream k i path nm s)) = pdata s"
  by (simp add: request_stream_cases split: option.split)

lemma is_chan: "request_never_null k \<Longrightarrow> \<not> IS_ERR (k_request k l d nm) \<Longrightarrow> \<exists>c. k_request k l d nm = CHAN c"
  by (cases "k_request k l d nm") (auto simp: request_never_null_def IS_ERR_def)

lemma list2: "length xs = 2 \<Longrightarrow> \<exists>a b. xs = [a, b]"
  by (metis length_0_conv length_Suc_conv numeral_2_eq_2)

lemma request_stream_success:
  assumes "request_stream k i path nm s = (HDF_SUCCESS, s')" "request_never_null k"
  obtains d c where "k_request k (calls s) d nm = CHAN c"
    "s' = s\<lparr>calls := calls s @ [RequestChan d nm],
       rtd := (rtd s)\<lparr>dma_dev := (dma_dev (rtd s))[i := Some d], dma_chan := (dma_chan (rtd s))[i := CHAN c]\<rparr>\<rparr>"
proof (cases "get_dma_device k path")
  case None
  then show ?thesis using assms(1) by (simp add: request_stream_cases HDF_SUCCESS_def HDF_FAILURE_def)
next
  case (Some d)
  then have "\<not> IS_ERR (k_request k (calls s) d nm)"
    using assms(1) by (auto simp: request_stream_cases HDF_SUCCESS_def HDF_FAILURE_def)
  then obtain c where "k_request k (calls s) d nm = CHAN c" using is_chan [OF assms(2)] by blast
  then show ?thesis
    using that [of d c] assms(1) Some by (auto simp: request_stream_cases)
qed

lemma audio_dma_request_opens:
  assumes k: "channels_exclusive k" "request_never_null k"
    and len: "length (dma_dev (rtd s)) = 2" "length (dma_chan (rtd s)) = 2" "length (cookie (rtd s)) = 2"
    and run: "audio_dma_request k s = (HDF_SUCCESS, s')" and d: "pdata s \<noteq> None"
  shows "t507_open s' \<and> pdata s' = pdata s"
proof -
  obtain s1 where 1: "request_stream k 0 g_codec_dtstreepath ''tx'' s = (HDF_SUCCESS, s1)"
    "request_stream k 1 g_ahub_dtstreepath ''rx'' s1 = (HDF_SUCCESS, s')"
    using run by (auto simp: audio_dma_request_def t507_idx HDF_SUCCESS_def HDF_FAILURE_def split: prod.splits if_splits)
  obtain d0 c0 where 2: "k_request k (calls s) d0 ''tx'' = CHAN c0"
    "s1 = s\<lparr>calls := calls s @ [RequestChan d0 ''tx''],
       rtd := (rtd s)\<lparr>dma_dev := (dma_dev (rtd s))[0 := Some d0], dma_chan := (dma_chan (rtd s))[0 := CHAN c0]\<rparr>\<rparr>"
    using request_stream_success [OF 1(1) k(2)] by blast
  obtain d1 c1 where 3: "k_request k (calls s1) d1 ''rx'' = CHAN c1"
    "s' = s1\<lparr>calls := calls s1 @ [RequestChan d1 ''rx''],
       rtd := (rtd s1)\<lparr>dma_dev := (dma_dev (rtd s1))[1 := Some d1], dma_chan := (dma_chan (rtd s1))[1 := CHAN c1]\<rparr>\<rparr>"
    using request_stream_success [OF 1(2) k(2)] by blast
  have "c1 \<noteq> c0"
    using exclusive_second [OF k(1) 2(1), of "[]" d1 "''rx''" c1] 3(1) 2(2) by simp
  moreover obtain a b where "dma_dev (rtd s) = [a, b]" using list2 [OF len(1)] by blast
  ultimately show ?thesis
    using len d by (auto simp: t507_open_def t507_ok_def 2(2) 3(2))
qed

lemma BufFree_Some:
  assumes "pdata s = Some d" "stream_idx st = Some i" "virtAddr (buf_of st d) = Some va"
    "dma_dev (rtd s) ! i = Some dev"
  shows "T507AudioDmaBufFree k st s =
    Some (HDF_SUCCESS, s\<lparr>calls := calls s @ [FreeWc dev (cirBufMax (buf_of st d)) va (phyAddr (buf_of st d))]\<rparr>)"
  using assms by (simp add: T507AudioDmaBufFree_def call_def)

lemma repeat_free:
  assumes "pdata s = Some d" "stream_idx st = Some i" "virtAddr (buf_of st d) = Some va"
    "dma_dev (rtd s) ! i = Some dev"
  shows "repeat_op n (T507AudioDmaBufFree k st) s =
    Some (s\<lparr>calls := calls s @ replicate n (FreeWc dev (cirBufMax (buf_of st d)) va (phyAddr (buf_of st d)))\<rparr>)"
  using assms by (induction n) (simp_all add: BufFree_Some replicate_append_same)

text \<open>The driver before and after its initialisation with the concrete engine.\<close>

definition t507_demo_start :: t507_state where
  "t507_demo_start = \<lparr>rtd = \<lparr>dma_dev = [None, None], dma_chan = [CHAN_NULL, CHAN_NULL], cookie = [0, 0],
     rtd_streamType = AUDIO_CAPTURE_STREAM\<rparr>, pdata = Some demo_data, calls = []\<rparr>"

definition t507_demo_opened :: t507_state where
  "t507_demo_opened = snd (T507AudioDmaDeviceInit demo_kernel True True t507_demo_start)"

lemma t507_demo_opened_eq:
  "t507_demo_opened = \<lparr>rtd = \<lparr>dma_dev = [Some 26, Some 25], dma_chan = [CHAN 0, CHAN 1], cookie = [0, 0],
     rtd_streamType = AUDIO_CAPTURE_STREAM\<rparr>, pdata = Some (demo_data\<lparr>platformInitFlag := True\<rparr>),
     calls = [RequestChan 26 ''tx'', RequestChan 25 ''rx'']\<rparr>"
  by (simp add: t507_demo_opened_def t507_demo_start_def T507AudioDmaDeviceInit_def audio_dma_request_def
      request_stream_cases get_dma_device_def t507_idx IS_ERR_def HDF_SUCCESS_def
      g_codec_dtstreepath_def g_ahub_dtstreepath_def demo_data_def)

lemma t507_demo_opened_ok: "t507_ok t507_demo_opened" "t507_open t507_demo_opened"
  by (simp_all add: t507_open_def t507_ok_def t507_demo_opened_eq)

lemmas t507_demo_defs = demo_data_def demo_buf_def demo_pcm_def buf_of_def pcm_of_def

section \<open>Properties\<close>

text \<open>
  C13. Playback and recording on the zhiyuan board do not disturb each other: once both channels are
  open, every sequence of streaming operations on the two streams, in any order, runs without a
  fault, and each stream gets the results, the cookie and the sequence of DMA engine calls on its
  channel that its own operations alone would give, provided the DMA engine treats its channels
  independently.
\<close>
theorem t507_streams_isolated:
  assumes "channels_independent k" "t507_ok s" "st \<in> audio_streams" "snd ` set ops \<subseteq> audio_streams"
  shows "\<exists>rs s' qs t'. run_ops (t507_op k) ops s = Some (rs, s') \<and>
    run_ops (t507_op k) (only st ops) s = Some (qs, t') \<and>
    results_of st rs = map snd qs \<and> t507_view st s' = t507_view st t'"
  using t507_streams.isolated [of s k st ops] assms by blast

theorem t507_streams_isolated_witness:
  "\<exists>rs s' qs t'.
     run_ops (t507_op demo_kernel) [(DmaSubmit, AUDIO_RENDER_STREAM), (DmaConfigChannel, AUDIO_CAPTURE_STREAM),
       (DmaPending, AUDIO_RENDER_STREAM), (DmaSubmit, AUDIO_CAPTURE_STREAM)] t507_demo_opened = Some (rs, s') \<and>
     run_ops (t507_op demo_kernel) [(DmaSubmit, AUDIO_RENDER_STREAM), (DmaPending, AUDIO_RENDER_STREAM)]
       t507_demo_opened = Some (qs, t') \<and>
     results_of AUDIO_RENDER_STREAM rs = map snd qs \<and>
     t507_view AUDIO_RENDER_STREAM s' = t507_view AUDIO_RENDER_STREAM t'"
  using t507_streams_isolated [OF demo_independent t507_demo_opened_ok(1), of AUDIO_RENDER_STREAM
      "[(DmaSubmit, AUDIO_RENDER_STREAM), (DmaConfigChannel, AUDIO_CAPTURE_STREAM),
        (DmaPending, AUDIO_RENDER_STREAM), (DmaSubmit, AUDIO_CAPTURE_STREAM)]"]
  by (simp add: only_def del: run_ops.simps)

text \<open>
  \<open>T507AudioDmaDeviceInit\<close> on platform data that is not initialised yet returns one of its two
  codes. On success the driver is open (both devices known, two different channels) and the
  platform is marked initialised; on failure the platform data is unchanged, so that a later call
  tries again.
\<close>
theorem t507_init_opens:
  assumes "channels_exclusive k" "request_never_null k"
    "length (dma_dev (rtd s)) = 2" "length (dma_chan (rtd s)) = 2" "length (cookie (rtd s)) = 2"
    "pdata s = Some d" "\<not> platformInitFlag d"
  shows "case T507AudioDmaDeviceInit k True True s of (rc, s') \<Rightarrow>
    (rc = HDF_SUCCESS \<longrightarrow> t507_open s' \<and> pdata s' = Some (d\<lparr>platformInitFlag := True\<rparr>)) \<and>
    (rc \<noteq> HDF_SUCCESS \<longrightarrow> rc = HDF_FAILURE \<and> pdata s' = Some d)"
proof -
  obtain ret s1 where r: "audio_dma_request k s = (ret, s1)" by (cases "audio_dma_request k s")
  have cases: "ret \<in> {HDF_SUCCESS, HDF_FAILURE}" and same: "pdata s1 = pdata s"
    using r request_stream_result request_stream_pdata
    by (auto simp: audio_dma_request_def split: prod.splits if_splits) (metis fst_conv snd_conv)+
  show ?thesis
  proof (cases "ret = HDF_SUCCESS")
    case True
    then have "t507_open s1"
      using audio_dma_request_opens [OF assms(1-5)] r assms(6) by auto
    then show ?thesis
      using r True assms(6,7)
      by (simp add: T507AudioDmaDeviceInit_def HDF_SUCCESS_def t507_open_def t507_ok_def)
  next
    case False
    then show ?thesis
      using r cases same assms(6,7)
      by (auto simp: T507AudioDmaDeviceInit_def HDF_SUCCESS_def HDF_FAILURE_def)
  qed
qed

theorem t507_init_opens_witness:
  "case T507AudioDmaDeviceInit demo_kernel True True t507_demo_start of (rc, s') \<Rightarrow>
    (rc = HDF_SUCCESS \<longrightarrow> t507_open s' \<and> pdata s' = Some (demo_data\<lparr>platformInitFlag := True\<rparr>)) \<and>
    (rc \<noteq> HDF_SUCCESS \<longrightarrow> rc = HDF_FAILURE \<and> pdata s' = Some demo_data)"
  by (rule t507_init_opens [OF demo_exclusive])
    (simp_all add: request_never_null_def t507_demo_start_def demo_data_def)

text \<open>
  C15. \<open>T507AudioDmaPointer\<close> reports a position inside the ring buffer. On an opened stream with a ring that
  is not empty it never fails; it asks once, with the channel and the cookie of its own stream (slot 0 for
  playback, slot 1 for capture); while the transfer is in progress or paused, with a residue from one up to the size
  of the ring, it names the number of whole frames transferred since the start of the ring, and 0 otherwise;
  and the frame it names lies before the end of the ring.
\<close>
theorem t507_pointer_in_ring:
  assumes "t507_ok s" "st \<in> audio_streams" "pdata s = Some d" "0 < cirBufSize (buf_of st d)"
    and "i = (if st = AUDIO_CAPTURE_STREAM then 1 else 0)" "dma_chan (rtd s) ! i = CHAN c"
  shows "\<exists>p s'. T507AudioDmaPointer k st True s = Some ((HDF_SUCCESS, Some p), s') \<and>
    calls s' = calls s @ [TxStatus c (cookie (rtd s) ! i)] \<and>
    (case k_status k (calls s) c (cookie (rtd s) ! i) of (status, residue) \<Rightarrow>
       unat p = (if (status = DMA_IN_PROGRESS \<or> status = DMA_PAUSED) \<and> 0 < residue \<and> residue \<le> cirBufSize (buf_of st d)
         then (unat (cirBufSize (buf_of st d)) - unat residue) div unat (frameSize (pcm_of st d)) else 0)) \<and>
    unat p * unat (frameSize (pcm_of st d)) < unat (cirBufSize (buf_of st d))"
proof -
  have idx: "stream_idx st = Some i" using assms(2,5) by (auto simp: t507_idx)
  define ck where "ck = cookie (rtd s) ! i"
  define n fs where "n = cirBufSize (buf_of st d)" and "fs = frameSize (pcm_of st d)"
  define pos where "pos = ring_pos (k_status k (calls s) c ck) n"
  have pos: "pos < n" if "0 < n"
    using that by (auto simp: pos_def ring_pos_def word_less_nat_alt word_le_nat_alt unat_sub split: prod.split)
  have frames: "unat (BytesToFrames fs pos) = unat pos div unat fs"
    by (simp add: BytesToFrames_def unat_div)
  have "unat pos div unat fs * unat fs \<le> unat pos" by simp
  also have "unat pos < unat n"
    using pos assms(4) by (simp add: n_def word_less_nat_alt)
  finally have "unat (BytesToFrames fs pos) * unat fs < unat n"
    by (simp add: frames)
  moreover have "case k_status k (calls s) c ck of (status, residue) \<Rightarrow> unat (BytesToFrames fs pos) =
      (if (status = DMA_IN_PROGRESS \<or> status = DMA_PAUSED) \<and> 0 < residue \<and> residue \<le> n then (unat n - unat residue) div unat fs else 0)"
    unfolding frames by (cases "k_status k (calls s) c ck") (auto simp: pos_def ring_pos_def unat_sub)
  moreover have "T507AudioDmaPointer k st True s =
      Some ((HDF_SUCCESS, Some (BytesToFrames fs pos)), call (TxStatus c ck) s)"
    using assms(3,6) by (simp add: T507AudioDmaPointer_def idx Let_def pos_def n_def fs_def ck_def)
  ultimately show ?thesis
    unfolding n_def fs_def ck_def
    by (intro exI [of _ "BytesToFrames fs pos"] exI [of _ "call (TxStatus c ck) s"]) (simp add: n_def fs_def ck_def)
qed

theorem t507_pointer_in_ring_witness:
  "\<exists>p s'. T507AudioDmaPointer demo_kernel AUDIO_RENDER_STREAM True t507_demo_opened =
      Some ((HDF_SUCCESS, Some p), s') \<and> unat p * 4 < 96 \<and> unat p = 12"
  using t507_pointer_in_ring [OF t507_demo_opened_ok(1), of AUDIO_RENDER_STREAM
      "demo_data\<lparr>platformInitFlag := True\<rparr>" 0 _ demo_kernel]
  by (auto simp: t507_demo_opened_eq t507_demo_defs)

text \<open>
  \<open>T507AudioDmaBufFree\<close> leaves the address of the buffer it frees in the platform data. A second
  call frees the same memory again, and so does every further one; and a following
  \<open>T507AudioDmaBufAlloc\<close> takes the stale address for a buffer, allocates nothing and reports
  success.
\<close>
theorem t507_free_keeps_address:
  assumes "pdata s = Some d" "stream_idx st = Some i" "virtAddr (buf_of st d) = Some va"
    "dma_dev (rtd s) ! i = Some dev"
  shows "\<exists>s'. repeat_op n (T507AudioDmaBufFree k st) s = Some s' \<and> pdata s' = Some d \<and>
    calls s' = calls s @ replicate n (FreeWc dev (cirBufMax (buf_of st d)) va (phyAddr (buf_of st d))) \<and>
    (\<exists>s''. T507AudioDmaBufAlloc k st s' = Some (HDF_SUCCESS, s'') \<and> calls s'' = calls s' \<and>
       pdata s'' = Some (d\<lparr>dmaPrv := True\<rparr>))"
  using assms by (simp add: repeat_free [OF assms] T507AudioDmaBufAlloc_def Let_def)

theorem t507_free_keeps_address_witness:
  "\<exists>s0 s'. T507AudioDmaBufAlloc demo_kernel AUDIO_RENDER_STREAM t507_demo_opened = Some (HDF_SUCCESS, s0) \<and>
    repeat_op 2 (T507AudioDmaBufFree demo_kernel AUDIO_RENDER_STREAM) s0 = Some s' \<and>
    calls s' = calls s0 @ [FreeWc 26 128 4096 8192, FreeWc 26 128 4096 8192] \<and>
    (\<exists>s''. T507AudioDmaBufAlloc demo_kernel AUDIO_RENDER_STREAM s' = Some (HDF_SUCCESS, s'') \<and> calls s'' = calls s')"
proof -
  define s0 where "s0 = snd (the (T507AudioDmaBufAlloc demo_kernel AUDIO_RENDER_STREAM t507_demo_opened))"
  define d where "d = the (pdata s0)"
  have alloc: "T507AudioDmaBufAlloc demo_kernel AUDIO_RENDER_STREAM t507_demo_opened = Some (HDF_SUCCESS, s0)"
    by (simp add: s0_def T507AudioDmaBufAlloc_def t507_demo_opened_eq t507_demo_defs t507_idx Let_def)
  have b: "pdata s0 = Some d" "buf_of AUDIO_RENDER_STREAM d = demo_buf\<lparr>virtAddr := Some 4096, phyAddr := 8192\<rparr>"
    "dma_dev (rtd s0) ! 0 = Some 26"
    by (simp_all add: d_def s0_def T507AudioDmaBufAlloc_def t507_demo_opened_eq t507_demo_defs t507_idx Let_def set_buf_def)
  have "stream_idx AUDIO_RENDER_STREAM = Some 0" by (simp add: t507_idx)
  from t507_free_keeps_address [OF b(1) this _ b(3), of 4096 2 demo_kernel] b(2)
  show ?thesis by (auto simp: alloc demo_buf_def numeral_2_eq_2)
qed

end
