(* ===== verification/Audio_Dma_RK3399.thy ===== *)
theory Audio_Dma_RK3399
  imports Audio_Dma
begin

text \<open>
  The audio DMA driver of the yangfan board (\<open>rk3399_dma_ops.c\<close>, operation table in
  \<open>rk3399_dma_adapter.c\<close>). The global \<open>g_dmaRtd\<close> is the field \<open>rtd\<close> of the state; the fields of
  \<open>struct DmaRuntimeData\<close> that no function uses (\<open>dmaCfgArray\<close>, \<open>dmaCfgPhy\<close>, \<open>dmaCfgVirt\<close>,
  \<open>dmaTxDes\<close>) are left out. Unlike the driver of the other board this one requests its channels
  when a stream is opened, and treats every stream that is not the capture stream as the render
  stream in all operations but \<open>RK3399DmaBufAlloc\<close> and \<open>RK3399DmaBufFree\<close>.

  Shown: the operations of the two streams never fault and never disturb each other once both
  channels are open; exactly when opening a stream faults; what closing a stream does; which bus
  width the engine is given; and which position is reported.
\<close>

section \<open>State\<close>

record DmaRuntimeData =
  dmaChn :: "chan_ptr list"
  config :: dma_slave_config
  cookie :: "int list"
  dev :: "nat option"

type_synonym rk_state = "DmaRuntimeData dma_state"

definition IIS_PHY_BASE :: u32 where "IIS_PHY_BASE = 0xff880000"
definition I2S_TXDR :: u32 where "I2S_TXDR = 0x24"
definition I2S_RXDR :: u32 where "I2S_RXDR = 0x28"
definition MAX_BURST_NUM :: nat where "MAX_BURST_NUM = 8"
definition MAX_PERIODS_COUNT :: u32 where "MAX_PERIODS_COUNT = 100"

text \<open>The index of a stream in \<open>dmaChn\<close> and \<open>cookie\<close>; anything but capture is taken as render.\<close>

definition chn_idx :: "AudioStreamType \<Rightarrow> nat" where
  "chn_idx st = (if st = AUDIO_CAPTURE_STREAM then 1 else 0)"

text \<open>
  The test \<open>chn == NULL || chn->device == NULL || chn->device->dev == NULL\<close>. It follows an error
  pointer, which is a fault.
\<close>

definition chn_dev :: "dma_kernel \<Rightarrow> nat \<Rightarrow> nat option" where
  "chn_dev k c = do { d \<leftarrow> chan_device k c; device_dev k d }"

definition chn_is_null :: "dma_kernel \<Rightarrow> chan_ptr \<Rightarrow> bool option" where
  "chn_is_null k p = (case p of
     CHAN_NULL \<Rightarrow> Some True
   | CHAN_ERR e \<Rightarrow> None
   | CHAN c \<Rightarrow> Some (chn_dev k c = None))"

section \<open>Initialisation and buffers\<close>

definition AudioDmaDeviceInit :: "rk_state \<Rightarrow> int \<times> rk_state" where
  "AudioDmaDeviceInit s = (case pdata s of
     None \<Rightarrow> (HDF_FAILURE, s)
   | Some d \<Rightarrow> if platformInitFlag d then (HDF_SUCCESS, s)
       else (HDF_SUCCESS, s\<lparr>pdata := Some (d\<lparr>platformInitFlag := True\<rparr>)\<rparr>))"

definition DmaRtdMemAlloc :: "rk_state \<Rightarrow> int \<times> rk_state" where
  "DmaRtdMemAlloc s = (case pdata s of
     None \<Rightarrow> (HDF_FAILURE, s)
   | Some d \<Rightarrow> (HDF_SUCCESS, s\<lparr>pdata := Some (d\<lparr>dmaPrv := True\<rparr>)\<rparr>))"

text \<open>The part of \<open>RK3399DmaBufAlloc\<close> after the device node is found; the two branches of the
  source differ in the names of the fields only.\<close>

definition alloc_stream ::
    "dma_kernel \<Rightarrow> nat \<Rightarrow> AudioStreamType \<Rightarrow> string \<Rightarrow> PlatformData \<Rightarrow> rk_state \<Rightarrow> (int \<times> rk_state) option" where
  "alloc_stream k node st nm d s = do {
     let chn = k_request k (calls s) node nm;
     let s1 = call (RequestChan node nm) s;
     let s2 = s1\<lparr>rtd := (rtd s1)\<lparr>dmaChn := (dmaChn (rtd s1))[chn_idx st := chn]\<rparr>\<rparr>;
     null \<leftarrow> chn_is_null k chn;
     if null then Some (HDF_FAILURE, s2)
     else do {
       c \<leftarrow> deref chn;
       dv \<leftarrow> chn_dev k c;
       let b = buf_of st d;
       let finish = (\<lambda>b s. (HDF_SUCCESS, s\<lparr>rtd := (rtd s)\<lparr>dev := Some dv\<rparr>,
           pdata := Some (set_buf st (b\<lparr>wbufOffSet := 0, periodsMax := MAX_PERIODS_COUNT\<rparr>) d)\<rparr>));
       if virtAddr b = None then
         (let s3 = call (SetMask dv 0xffffffff) s2;
              s4 = call (AllocWc dv (cirBufMax b)) s3
          in case k_alloc k (calls s3) dv (cirBufMax b) of
               None \<Rightarrow> Some (HDF_FAILURE, s4)
             | Some (va, pa) \<Rightarrow> Some (finish (b\<lparr>virtAddr := Some va, phyAddr := pa\<rparr>) s4))
       else Some (finish b s2) } }"

definition RK3399DmaBufAlloc ::
    "dma_kernel \<Rightarrow> AudioStreamType \<Rightarrow> rk_state \<Rightarrow> (int \<times> rk_state) option" where
  "RK3399DmaBufAlloc k st s = (case pdata s of
     None \<Rightarrow> Some (HDF_FAILURE, s)
   | Some d \<Rightarrow>
       let (ret, s1) = DmaRtdMemAlloc s
       in if ret \<noteq> HDF_SUCCESS then Some (HDF_FAILURE, s1)
          else (case of_find_node_by_path k ''/i2s@ff880000'' of
            None \<Rightarrow> Some (HDF_FAILURE, s1)
          | Some node \<Rightarrow> do {
              d1 \<leftarrow> pdata s1;
              if st = AUDIO_CAPTURE_STREAM then alloc_stream k node st ''rx'' d1 s1
              else if st = AUDIO_RENDER_STREAM then alloc_stream k node st ''tx'' d1 s1
              else Some (HDF_FAILURE, s1) }))"

definition release_stream :: "dma_kernel \<Rightarrow> nat \<Rightarrow> rk_state \<Rightarrow> rk_state option" where
  "release_stream k i s = do {
     null \<leftarrow> chn_is_null k (dmaChn (rtd s) ! i);
     if null then Some s
     else do { c \<leftarrow> deref (dmaChn (rtd s) ! i); Some (call (ReleaseChan c) s) } }"

definition DmaRtdMemFree :: "dma_kernel \<Rightarrow> AudioStreamType \<Rightarrow> rk_state \<Rightarrow> (int \<times> rk_state) option" where
  "DmaRtdMemFree k st s = (case pdata s of
     None \<Rightarrow> Some (HDF_FAILURE, s)
   | Some d \<Rightarrow>
       if \<not> dmaPrv d then Some (HDF_SUCCESS, s)
       else do {
         s1 \<leftarrow> (if st = AUDIO_RENDER_STREAM then release_stream k 0 s else Some s);
         s2 \<leftarrow> (if st = AUDIO_CAPTURE_STREAM then release_stream k 1 s1 else Some s1);
         Some (HDF_SUCCESS, s2) })"

text \<open>The buffer of a stream is freed when channel \<open>i\<close> is usable; \<open>phyAddr\<close> is reset.\<close>

definition free_buf ::
    "dma_kernel \<Rightarrow> nat \<Rightarrow> AudioStreamType \<Rightarrow> nat \<Rightarrow> PlatformData \<Rightarrow> rk_state \<Rightarrow> rk_state option" where
  "free_buf k i st dv d s = (case virtAddr (buf_of st d) of
     None \<Rightarrow> Some s
   | Some va \<Rightarrow> do {
       null \<leftarrow> chn_is_null k (dmaChn (rtd s) ! i);
       if null then Some s
       else Some ((call (FreeWc dv (cirBufMax (buf_of st d)) va (phyAddr (buf_of st d))) s)
              \<lparr>pdata := Some (set_buf st ((buf_of st d)\<lparr>phyAddr := 0\<rparr>) d)\<rparr>) })"

definition RK3399DmaBufFree ::
    "dma_kernel \<Rightarrow> AudioStreamType \<Rightarrow> rk_state \<Rightarrow> (int \<times> rk_state) option" where
  "RK3399DmaBufFree k st s = (case pdata s of
     None \<Rightarrow> Some (HDF_FAILURE, s)
   | Some d \<Rightarrow>
       if \<not> dmaPrv d then Some (HDF_FAILURE, s)
       else (case dev (rtd s) of
         None \<Rightarrow> Some (HDF_FAILURE, s)
       | Some dv \<Rightarrow>
           if st = AUDIO_CAPTURE_STREAM \<or> st = AUDIO_RENDER_STREAM then do {
             s1 \<leftarrow> free_buf k (if st = AUDIO_CAPTURE_STREAM then 0 else 1) st dv d s;
             (ret, s2) \<leftarrow> DmaRtdMemFree k st s1;
             Some (if ret \<noteq> HDF_SUCCESS then HDF_FAILURE else HDF_SUCCESS, s2) }
           else Some (HDF_FAILURE, s)))"

section \<open>Configuration\<close>

definition RK3399DmaRequestChannel :: "AudioStreamType \<Rightarrow> rk_state \<Rightarrow> (int \<times> rk_state) option" where
  "RK3399DmaRequestChannel st s = Some (HDF_SUCCESS, s)"

definition SetBusWidthToSlaveConfig :: "PcmInfo \<Rightarrow> dma_slave_config \<Rightarrow> int \<times> dma_slave_config" where
  "SetBusWidthToSlaveConfig pcmInfo slaveConfig = (
     let bits = sint (bitWidth pcmInfo * channels pcmInfo)
     in if bits < 8 \<or> bits > 64 then (HDF_FAILURE, slaveConfig)
        else let buswidth = (if bits = 8 then 1 else if bits = 16 then 2 else if bits = 24 then 3
                             else if bits \<le> 32 then 4 else 8)
             in (HDF_SUCCESS,
                 if streamType pcmInfo = AUDIO_CAPTURE_STREAM then slaveConfig\<lparr>src_addr_width := buswidth\<rparr>
                 else slaveConfig\<lparr>dst_addr_width := buswidth\<rparr>))"

definition SetDmaSlaveConfig ::
    "PcmInfo \<Rightarrow> AudioStreamType \<Rightarrow> dma_slave_config \<Rightarrow> int \<times> dma_slave_config" where
  "SetDmaSlaveConfig pcmInfo st slaveConfig = (
     let (ret, cfg) = SetBusWidthToSlaveConfig (pcmInfo\<lparr>streamType := st\<rparr>) slaveConfig
     in if ret \<noteq> HDF_SUCCESS then (HDF_FAILURE, cfg)
        else (HDF_SUCCESS,
          (if st = AUDIO_CAPTURE_STREAM
           then cfg\<lparr>direction := DMA_DEV_TO_MEM, src_addr := IIS_PHY_BASE + I2S_RXDR, src_maxburst := MAX_BURST_NUM\<rparr>
           else cfg\<lparr>direction := DMA_MEM_TO_DEV, dst_addr := IIS_PHY_BASE + I2S_TXDR, dst_maxburst := MAX_BURST_NUM\<rparr>)
          \<lparr>device_fc := False, slave_id := 0\<rparr>))"

text \<open>The test of the channel here is \<open>chn == NULL || chn->device == NULL\<close>.\<close>

definition config_channel :: "dma_kernel \<Rightarrow> nat \<Rightarrow> rk_state \<Rightarrow> (int \<times> rk_state) option" where
  "config_channel k i s = (case dmaChn (rtd s) ! i of
     CHAN_NULL \<Rightarrow> Some (HDF_FAILURE, s)
   | CHAN_ERR e \<Rightarrow> None
   | CHAN c \<Rightarrow>
       if chan_device k c = None then Some (HDF_FAILURE, s)
       else let ret = k_config k (calls s) c (config (rtd s))
            in Some (if ret \<noteq> HDF_SUCCESS then HDF_FAILURE else HDF_SUCCESS,
                     call (SlaveConfig c (config (rtd s))) s))"

text \<open>For the capture stream the result of \<open>SetDmaSlaveConfig\<close> is dropped.\<close>

definition RK3399DmaConfigChannel ::
    "dma_kernel \<Rightarrow> AudioStreamType \<Rightarrow> rk_state \<Rightarrow> (int \<times> rk_state) option" where
  "RK3399DmaConfigChannel k st s = (case pdata s of
     None \<Rightarrow> Some (HDF_FAILURE, s)
   | Some d \<Rightarrow>
       if \<not> dmaPrv d then Some (HDF_FAILURE, s)
       else if st = AUDIO_CAPTURE_STREAM then
         (let (_, cfg) = SetDmaSlaveConfig (capturePcmInfo d) st zero_config
          in config_channel k 1 (s\<lparr>rtd := (rtd s)\<lparr>config := cfg\<rparr>\<rparr>))
       else
         (let (ret, cfg) = SetDmaSlaveConfig (renderPcmInfo d) st zero_config;
              s1 = s\<lparr>rtd := (rtd s)\<lparr>config := cfg\<rparr>\<rparr>
          in if ret \<noteq> HDF_SUCCESS then Some (HDF_FAILURE, s1) else config_channel k 0 s1))"

section \<open>Position\<close>

definition PcmDmaGetAddr :: "dma_kernel \<Rightarrow> nat \<Rightarrow> int \<Rightarrow> rk_state \<Rightarrow> u32 \<times> rk_state" where
  "PcmDmaGetAddr k c ck s = (snd (k_status k (calls s) c ck), call (TxStatus c ck) s)"

text \<open>The product is computed in 32 bits; a zero divisor faults.\<close>

definition BytesToFrames :: "u32 \<Rightarrow> u32 \<Rightarrow> u32 option" where
  "BytesToFrames frameBits n = (if frameBits = 0 then None else Some (n * 8 div frameBits))"

text \<open>
  \<open>nowPointer\<close> is not initialised: when the channel is \<open>NULL\<close> reading it faults. The conversion to
  \<open>int\<close> and back does not change its 32 bits.
\<close>

definition RK3399PcmPointer ::
    "dma_kernel \<Rightarrow> AudioStreamType \<Rightarrow> bool \<Rightarrow> rk_state \<Rightarrow> (op_result \<times> rk_state) option" where
  "RK3399PcmPointer k st ptr s = (
     if \<not> ptr then Some ((HDF_FAILURE, None), s)
     else case pdata s of
       None \<Rightarrow> Some ((HDF_FAILURE, None), s)
     | Some d \<Rightarrow>
         if \<not> dmaPrv d then Some ((HDF_FAILURE, None), s)
         else do {
           let i = chn_idx st;
           (nowPointer, s1) \<leftarrow> (case dmaChn (rtd s) ! i of
              CHAN_NULL \<Rightarrow> Some (None, s)
            | CHAN_ERR e \<Rightarrow> None
            | CHAN c \<Rightarrow>
                let (resiude1, s1) = PcmDmaGetAddr k c (cookie (rtd s) ! i) s
                in Some (Some (cirBufSize (buf_of st d) - resiude1), s1));
           let frameBits = bitWidth (pcm_of st d) * channels (pcm_of st d);
           now \<leftarrow> nowPointer;
           pointer \<leftarrow> BytesToFrames frameBits now;
           Some ((HDF_SUCCESS, Some (
             if (st = AUDIO_RENDER_STREAM \<and> pointer = cirBufSize (renderBufInfo d)) \<or>
                (st = AUDIO_CAPTURE_STREAM \<and> pointer = cirBufSize (captureBufInfo d))
             then 0 else pointer)), s1) })"

section \<open>Streaming\<close>

definition RK3399DmaPrep :: "AudioStreamType \<Rightarrow> rk_state \<Rightarrow> (int \<times> rk_state) option" where
  "RK3399DmaPrep st s = Some (HDF_SUCCESS, s)"

text \<open>The checks the streaming operations start with: the platform data, its \<open>dmaPrv\<close>.\<close>

definition with_rtd ::
    "(PlatformData \<Rightarrow> rk_state \<Rightarrow> (int \<times> rk_state) option) \<Rightarrow> rk_state \<Rightarrow> (int \<times> rk_state) option" where
  "with_rtd f s = (case pdata s of
     None \<Rightarrow> Some (HDF_FAILURE, s)
   | Some d \<Rightarrow> if \<not> dmaPrv d then Some (HDF_FAILURE, s) else f d s)"

text \<open>The check of the stream's channel, then the use of it.\<close>

definition with_chn ::
    "dma_kernel \<Rightarrow> AudioStreamType \<Rightarrow> (nat \<Rightarrow> rk_state \<Rightarrow> (int \<times> rk_state) option) \<Rightarrow> rk_state \<Rightarrow>
     (int \<times> rk_state) option" where
  "with_chn k st f s = do {
     null \<leftarrow> chn_is_null k (dmaChn (rtd s) ! chn_idx st);
     if null then Some (HDF_FAILURE, s)
     else do { c \<leftarrow> deref (dmaChn (rtd s) ! chn_idx st); f c s } }"

definition RK3399DmaSubmit ::
    "dma_kernel \<Rightarrow> AudioStreamType \<Rightarrow> rk_state \<Rightarrow> (int \<times> rk_state) option" where
  "RK3399DmaSubmit k st = with_rtd (\<lambda>d. with_chn k st (\<lambda>c s.
     let dir = (if st = AUDIO_CAPTURE_STREAM then DMA_DEV_TO_MEM else DMA_MEM_TO_DEV);
         b = buf_of st d;
         s1 = call (PrepCyclic c (phyAddr b) (cirBufSize b) (periodSize b) dir 3) s
     in case k_prep k (calls s) c (phyAddr b) (cirBufSize b) (periodSize b) dir of
          None \<Rightarrow> Some (HDF_FAILURE, s1)
        | Some desc \<Rightarrow>
            Some (HDF_SUCCESS, call (SubmitDesc c desc)
              (s1\<lparr>rtd := (rtd s1)\<lparr>cookie := (cookie (rtd s1))[chn_idx st := k_submit k (calls s1) c desc]\<rparr>\<rparr>))))"

definition RK3399DmaPending ::
    "dma_kernel \<Rightarrow> AudioStreamType \<Rightarrow> rk_state \<Rightarrow> (int \<times> rk_state) option" where
  "RK3399DmaPending k st = with_rtd (\<lambda>d. with_chn k st (\<lambda>c s.
     Some (HDF_SUCCESS, call (IssuePending c) s)))"

definition RK3399DmaPause ::
    "dma_kernel \<Rightarrow> AudioStreamType \<Rightarrow> rk_state \<Rightarrow> (int \<times> rk_state) option" where
  "RK3399DmaPause k st = with_rtd (\<lambda>d. with_chn k st (\<lambda>c s.
     let ret = k_terminate k (calls s) c
     in Some (if ret \<noteq> 0 then HDF_FAILURE else HDF_SUCCESS, call (TerminateAsync c) s)))"

text \<open>The result of the submission is dropped.\<close>

definition RK3399DmaResume ::
    "dma_kernel \<Rightarrow> AudioStreamType \<Rightarrow> rk_state \<Rightarrow> (int \<times> rk_state) option" where
  "RK3399DmaResume k st = with_rtd (\<lambda>d s. do {
     (_, s1) \<leftarrow> RK3399DmaSubmit k st s;
     with_chn k st (\<lambda>c s. Some (HDF_SUCCESS, call (IssuePending c) s)) s1 })"

section \<open>The operation table\<close>

fun rk_op :: "dma_kernel \<Rightarrow> dma_op \<Rightarrow> AudioStreamType \<Rightarrow> rk_state \<Rightarrow> (op_result \<times> rk_state) option" where
  "rk_op k DmaRequestChannel st s = rc_only (RK3399DmaRequestChannel st s)"
| "rk_op k DmaConfigChannel st s = rc_only (RK3399DmaConfigChannel k st s)"
| "rk_op k DmaPrep st s = rc_only (RK3399DmaPrep st s)"
| "rk_op k DmaSubmit st s = rc_only (RK3399DmaSubmit k st s)"
| "rk_op k DmaPending st s = rc_only (RK3399DmaPending k st s)"
| "rk_op k DmaPause st s = rc_only (RK3399DmaPause k st s)"
| "rk_op k DmaResume st s = rc_only (RK3399DmaResume k st s)"
| "rk_op k DmaPointer st s = RK3399PcmPointer k st True s"

section \<open>Isolation of the two streams\<close>

text \<open>A state in which both streams have been opened.\<close>

definition rk_ok :: "dma_kernel \<Rightarrow> rk_state \<Rightarrow> bool" where
  "rk_ok k s \<longleftrightarrow>
     (\<exists>d. pdata s = Some d \<and> dmaPrv d \<and>
        bitWidth (renderPcmInfo d) * channels (renderPcmInfo d) \<noteq> 0 \<and>
        bitWidth (capturePcmInfo d) * channels (capturePcmInfo d) \<noteq> 0) \<and>
     length (cookie (rtd s)) = 2 \<and>
     (\<exists>c0 c1. dmaChn (rtd s) = [CHAN c0, CHAN c1] \<and> c0 \<noteq> c1 \<and> chn_dev k c0 \<noteq> None \<and> chn_dev k c1 \<noteq> None)"

definition rk_view ::
    "AudioStreamType \<Rightarrow> rk_state \<Rightarrow> PlatformData option \<times> chan_ptr \<times> int \<times> dma_call list" where
  "rk_view st s = (pdata s, dmaChn (rtd s) ! chn_idx st, cookie (rtd s) ! chn_idx st,
     own_calls (dmaChn (rtd s) ! chn_idx st) (calls s))"

lemmas rk_op_defs = rc_only_def RK3399DmaRequestChannel_def RK3399DmaConfigChannel_def
  RK3399DmaPrep_def RK3399DmaSubmit_def RK3399DmaPending_def RK3399DmaPause_def
  RK3399DmaResume_def RK3399PcmPointer_def with_rtd_def with_chn_def config_channel_def
  PcmDmaGetAddr_def BytesToFrames_def chn_is_null_def

lemma chn_dev_device: "chn_dev k c \<noteq> None \<Longrightarrow> chan_device k c \<noteq> None"
  by (auto simp: chn_dev_def bind_eq_None_conv)

lemma rk_op_ok:
  assumes "rk_ok k s" "st \<in> audio_streams"
  shows "\<exists>r s'. rk_op k op st s = Some (r, s') \<and> rk_ok k s'"
proof -
  obtain c0 c1 where c: "dmaChn (rtd s) = [CHAN c0, CHAN c1]" "chn_dev k c0 \<noteq> None" "chn_dev k c1 \<noteq> None"
    using assms(1) by (auto simp: rk_ok_def)
  note c' = c(2,3) [THEN chn_dev_device]
  show ?thesis
    using assms c c'
    by (cases op)
      (auto simp: rk_op_defs chn_idx_def rk_ok_def Let_def pcm_of_def split: option.split prod.split)
qed

lemma rk_op_separate:
  assumes "rk_ok k s" "st \<in> audio_streams" "st' \<in> audio_streams" "st' \<noteq> st"
    "rk_op k op st s = Some (r, s')"
  shows "rk_view st' s' = rk_view st' s"
  using assms
  by (cases op)
    (auto simp: rk_op_defs chn_idx_def rk_ok_def rk_view_def own_calls_def Let_def
      split: option.splits if_splits prod.splits)

lemma rk_op_determined:
  assumes k: "channels_independent k" and ok: "rk_ok k s" "rk_ok k t" and st: "st \<in> audio_streams"
    and view: "rk_view st s = rk_view st t"
    and run: "rk_op k op st s = Some (r, s')" "rk_op k op st t = Some (q, t')"
  shows "r = q \<and> rk_view st s' = rk_view st t'"
proof -
  define i where "i = chn_idx st"
  have i: "i < 2" "(if st = AUDIO_CAPTURE_STREAM then 1 else 0) = i"
    by (auto simp: i_def chn_idx_def)
  obtain c d where c: "dmaChn (rtd s) ! i = CHAN c" and d: "pdata s = Some d"
    using ok(1) by (cases "st = AUDIO_CAPTURE_STREAM") (auto simp: rk_ok_def i_def chn_idx_def)
  have chan: "dmaChn (rtd t) ! i = CHAN c" using view by (simp add: rk_view_def c i_def [symmetric])
  then have same: "pdata t = Some d" "cookie (rtd t) ! i = cookie (rtd s) ! i"
    "chan_log c (calls t) = chan_log c (calls s)"
    using view d by (simp_all add: rk_view_def i_def [symmetric] c own_calls_def)
  note ans = independent_answers [OF k, of c "calls t" "calls s", OF same(3)]
  have sub: "k_submit k (calls t @ [x]) c = k_submit k (calls s @ [x]) c" for x
    using independent_answers(3) [OF k] same(3) by simp
  have len: "length (cookie (rtd s)) = 2" "length (cookie (rtd t)) = 2"
    using ok by (auto simp: rk_ok_def)
  have idx: "chn_idx st = i" "st = AUDIO_CAPTURE_STREAM \<Longrightarrow> i = 1" "st \<noteq> AUDIO_CAPTURE_STREAM \<Longrightarrow> i = 0"
    by (simp_all add: i_def chn_idx_def)
  show ?thesis
    using run c d chan same len i(1) idx(2,3)
    by (cases op)
      (auto simp: rk_op_defs idx(1) rk_view_def ans sub own_calls_def Let_def
        split: option.splits if_splits prod.splits)
qed

interpretation rk_streams: stream_isolation "rk_op k" rk_view "\<lambda>s. rk_ok k s \<and> channels_independent k"
  audio_streams
proof unfold_locales
  fix s st op r s'
  assume "rk_ok k s \<and> channels_independent k" "st \<in> audio_streams" "rk_op k op st s = Some (r, s')"
  then show "rk_ok k s' \<and> channels_independent k"
    using rk_op_ok [of k s st op] by auto
next
  fix s st st' op r s'
  assume "rk_ok k s \<and> channels_independent k" "st \<in> audio_streams" "st' \<in> audio_streams" "st' \<noteq> st"
    "rk_op k op st s = Some (r, s')"
  then show "rk_view st' s' = rk_view st' s"
    using rk_op_separate by blast
next
  fix s t st op r s' q t'
  assume "rk_ok k s \<and> channels_independent k" "rk_ok k t \<and> channels_independent k" "st \<in> audio_streams"
    "rk_view st s = rk_view st t" "rk_op k op st s = Some (r, s')" "rk_op k op st t = Some (q, t')"
  then show "r = q \<and> rk_view st s' = rk_view st t'"
    using rk_op_determined by blast
qed (use rk_op_ok in blast)

section \<open>Supporting lemmas\<close>

lemma rk_ok_chan:
  assumes "rk_ok k s"
  obtains c where "dmaChn (rtd s) ! chn_idx st = CHAN c" "chn_dev k c \<noteq> None" "chan_device k c \<noteq> None"
  using assms chn_dev_device by (cases "st = AUDIO_CAPTURE_STREAM") (auto simp: rk_ok_def chn_idx_def)

lemma alloc_stream_fault: "alloc_stream k node st nm d s = None \<longleftrightarrow> IS_ERR (k_request k (calls s) node nm)"
  by (auto simp: alloc_stream_def chn_is_null_def IS_ERR_def Let_def bind_eq_None_conv
      split: chan_ptr.splits option.splits if_splits)

definition frame_bits :: "PcmInfo \<Rightarrow> u32" where
  "frame_bits p = bitWidth p * channels p"

definition supported :: "PcmInfo \<Rightarrow> bool" where
  "supported p \<longleftrightarrow> 8 \<le> sint (frame_bits p) \<and> sint (frame_bits p) \<le> 64"

text \<open>The bus width chosen for a supported format, in bytes.\<close>

definition frame_bytes :: "PcmInfo \<Rightarrow> nat" where
  "frame_bytes p = (let bits = sint (frame_bits p) in
     if bits = 8 then 1 else if bits = 16 then 2 else if bits = 24 then 3 else if bits \<le> 32 then 4 else 8)"

lemma frame_bytes_enough: "supported p \<Longrightarrow> sint (frame_bits p) \<le> 8 * int (frame_bytes p) \<and> frame_bytes p \<in> {1, 2, 3, 4, 8}"
  by (simp add: supported_def frame_bytes_def Let_def)

definition stream_config :: "AudioStreamType \<Rightarrow> PcmInfo \<Rightarrow> dma_slave_config" where
  "stream_config st p = (if st = AUDIO_CAPTURE_STREAM
     then zero_config\<lparr>direction := DMA_DEV_TO_MEM, src_addr := 0xff880028, src_addr_width := frame_bytes p, src_maxburst := 8\<rparr>
     else zero_config\<lparr>direction := DMA_MEM_TO_DEV, dst_addr := 0xff880024, dst_addr_width := frame_bytes p, dst_maxburst := 8\<rparr>)"

lemma SetDmaSlaveConfig_cases:
  "SetDmaSlaveConfig p st zero_config =
     (if supported p then (HDF_SUCCESS, stream_config st p) else (HDF_FAILURE, zero_config))"
  by (auto simp: SetDmaSlaveConfig_def SetBusWidthToSlaveConfig_def supported_def stream_config_def
      frame_bits_def frame_bytes_def zero_config_def Let_def HDF_SUCCESS_def HDF_FAILURE_def
      IIS_PHY_BASE_def I2S_RXDR_def I2S_TXDR_def MAX_BURST_NUM_def)

text \<open>The frame the ring position falls into; a position equal to the size of the ring in bytes is
  taken as 0.\<close>

lemma unat_mult_8: "unat (n :: u32) < 2 ^ 29 \<Longrightarrow> unat (n * 8) = unat n * 8"
  by (simp add: unat_mult_lem [THEN iffD1])

lemma full_ring_frames:
  fixes a n b :: nat
  assumes "a \<le> n" "8 \<le> b" "0 < n"
  shows "a * 8 div b = n \<longleftrightarrow> a = n \<and> b = 8"
proof
  assume eq: "a * 8 div b = n"
  then have "n * b \<le> a * 8" by (metis div_times_less_eq_dividend)
  moreover have "a * 8 \<le> n * 8" "n * 8 \<le> n * b" using assms by simp_all
  ultimately have "a * 8 = n * 8" "n * b = n * 8" by linarith+
  then show "a = n \<and> b = 8" using assms(3) by simp
qed simp

text \<open>The driver before the streams are opened, and with both streams open, on the concrete engine.\<close>

definition rk_demo_start :: rk_state where
  "rk_demo_start = \<lparr>rtd = \<lparr>dmaChn = [CHAN_NULL, CHAN_NULL], config = zero_config, cookie = [0, 0], dev = None\<rparr>,
     pdata = Some demo_data, calls = []\<rparr>"

definition rk_demo_captured :: rk_state where
  "rk_demo_captured = snd (the (RK3399DmaBufAlloc demo_kernel AUDIO_CAPTURE_STREAM rk_demo_start))"

definition rk_demo_opened :: rk_state where
  "rk_demo_opened = snd (the (RK3399DmaBufAlloc demo_kernel AUDIO_RENDER_STREAM rk_demo_captured))"

definition rk_demo_open_buf :: CircleBufInfo where
  "rk_demo_open_buf = demo_buf\<lparr>virtAddr := Some 4096, phyAddr := 8192, wbufOffSet := 0, periodsMax := 100\<rparr>"

lemmas rk_demo_alloc_defs = RK3399DmaBufAlloc_def DmaRtdMemAlloc_def alloc_stream_def chn_is_null_def
  chn_dev_def Let_def HDF_SUCCESS_def MAX_PERIODS_COUNT_def buf_of_def set_buf_def chn_idx_def

lemma rk_demo_captured_eq:
  "rk_demo_captured = \<lparr>rtd = \<lparr>dmaChn = [CHAN_NULL, CHAN 0], config = zero_config, cookie = [0, 0], dev = Some 0\<rparr>,
     pdata = Some (demo_data\<lparr>dmaPrv := True, captureBufInfo := rk_demo_open_buf\<rparr>),
     calls = [RequestChan 13 ''rx'', SetMask 0 0xffffffff, AllocWc 0 128]\<rparr>"
  by (simp add: rk_demo_captured_def rk_demo_start_def rk_demo_alloc_defs demo_data_def demo_buf_def rk_demo_open_buf_def)

lemma rk_demo_opened_eq:
  "rk_demo_opened = \<lparr>rtd = \<lparr>dmaChn = [CHAN 3, CHAN 0], config = zero_config, cookie = [0, 0], dev = Some 3\<rparr>,
     pdata = Some (demo_data\<lparr>dmaPrv := True, captureBufInfo := rk_demo_open_buf, renderBufInfo := rk_demo_open_buf\<rparr>),
     calls = [RequestChan 13 ''rx'', SetMask 0 0xffffffff, AllocWc 0 128,
              RequestChan 13 ''tx'', SetMask 3 0xffffffff, AllocWc 3 128]\<rparr>"
  by (simp add: rk_demo_opened_def rk_demo_captured_eq rk_demo_alloc_defs demo_data_def demo_buf_def rk_demo_open_buf_def)

lemma rk_demo_opened_ok: "rk_ok demo_kernel rk_demo_opened"
  by (simp add: rk_ok_def rk_demo_opened_eq chn_dev_def demo_data_def demo_pcm_def)

section \<open>Properties\<close>

text \<open>
  C14. Playback and recording on the yangfan board do not disturb each other: once both streams have
  been opened, every sequence of streaming operations on the two, in any order, runs without a
  fault, and each stream gets the results, the cookie and the sequence of DMA engine calls on its
  channel that its own operations alone would give. The configuration record the two share is
  rewritten before each use.
\<close>
theorem rk_streams_isolated:
  assumes "channels_independent k" "rk_ok k s" "st \<in> audio_streams" "snd ` set ops \<subseteq> audio_streams"
  shows "\<exists>rs s' qs t'. run_ops (rk_op k) ops s = Some (rs, s') \<and>
    run_ops (rk_op k) (only st ops) s = Some (qs, t') \<and>
    results_of st rs = map snd qs \<and> rk_view st s' = rk_view st t'"
  using rk_streams.isolated [of k s st ops] assms by blast

theorem rk_streams_isolated_witness:
  "\<exists>rs s' qs t'.
     run_ops (rk_op demo_kernel) [(DmaConfigChannel, AUDIO_RENDER_STREAM), (DmaConfigChannel, AUDIO_CAPTURE_STREAM),
       (DmaResume, AUDIO_RENDER_STREAM), (DmaPause, AUDIO_CAPTURE_STREAM)] rk_demo_opened = Some (rs, s') \<and>
     run_ops (rk_op demo_kernel) [(DmaConfigChannel, AUDIO_CAPTURE_STREAM), (DmaPause, AUDIO_CAPTURE_STREAM)]
       rk_demo_opened = Some (qs, t') \<and>
     results_of AUDIO_CAPTURE_STREAM rs = map snd qs \<and>
     rk_view AUDIO_CAPTURE_STREAM s' = rk_view AUDIO_CAPTURE_STREAM t'"
  using rk_streams_isolated [OF demo_independent rk_demo_opened_ok, of AUDIO_CAPTURE_STREAM
      "[(DmaConfigChannel, AUDIO_RENDER_STREAM), (DmaConfigChannel, AUDIO_CAPTURE_STREAM),
        (DmaResume, AUDIO_RENDER_STREAM), (DmaPause, AUDIO_CAPTURE_STREAM)]"]
  by (simp add: only_def del: run_ops.simps)

text \<open>
  \<open>RK3399DmaBufAlloc\<close> faults exactly when the DMA engine refuses the channel: the refusal is an
  error pointer, the code tests for \<open>NULL\<close> only and follows it. In every other case it returns.
\<close>
theorem rk_alloc_fault_iff:
  "RK3399DmaBufAlloc k st s = None \<longleftrightarrow>
     st \<in> audio_streams \<and> pdata s \<noteq> None \<and>
     (\<exists>node. of_find_node_by_path k ''/i2s@ff880000'' = Some node \<and>
        IS_ERR (k_request k (calls s) node (if st = AUDIO_CAPTURE_STREAM then ''rx'' else ''tx'')))"
  by (auto simp: RK3399DmaBufAlloc_def DmaRtdMemAlloc_def alloc_stream_fault HDF_SUCCESS_def
      split: option.splits)

text \<open>
  Closing a stream with \<open>RK3399DmaBufFree\<close> releases its channel, but gives its buffer back only if
  the channel of the other stream is usable: the code tests the wrong one of the two. When only
  this stream was opened the buffer is lost. In both cases the address of the buffer and the
  released channel stay in place.
\<close>
theorem rk_free_tests_other_channel:
  assumes "pdata s = Some d" "dmaPrv d" "dev (rtd s) = Some dv" "st \<in> audio_streams"
    "virtAddr (buf_of st d) = Some va"
    "dmaChn (rtd s) ! chn_idx st = CHAN c" "chn_dev k c \<noteq> None"
    "chn_is_null k (dmaChn (rtd s) ! (1 - chn_idx st)) = Some unusable"
  shows "\<exists>s' d'. RK3399DmaBufFree k st s = Some (HDF_SUCCESS, s') \<and>
    calls s' = calls s @
      (if unusable then [] else [FreeWc dv (cirBufMax (buf_of st d)) va (phyAddr (buf_of st d))]) @
      [ReleaseChan c] \<and>
    pdata s' = Some d' \<and> virtAddr (buf_of st d') = Some va \<and> rtd s' = rtd s"
proof -
  have "chn_is_null k (CHAN c) = Some False" using assms(7) by (simp add: chn_is_null_def)
  then show ?thesis
    using assms
    by (cases unusable)
      (auto simp: RK3399DmaBufFree_def free_buf_def DmaRtdMemFree_def release_stream_def chn_idx_def
        buf_of_def set_buf_def)
qed

theorem rk_free_tests_other_channel_witness:
  "\<exists>s'. RK3399DmaBufFree demo_kernel AUDIO_CAPTURE_STREAM rk_demo_captured = Some (HDF_SUCCESS, s') \<and>
     calls s' = calls rk_demo_captured @ [ReleaseChan 0]"
proof -
  have "\<exists>s' d'. RK3399DmaBufFree demo_kernel AUDIO_CAPTURE_STREAM rk_demo_captured = Some (HDF_SUCCESS, s') \<and>
    calls s' = calls rk_demo_captured @ (if True then [] else [FreeWc 0 128 4096 8192]) @ [ReleaseChan 0] \<and>
    pdata s' = Some d' \<and> virtAddr (buf_of AUDIO_CAPTURE_STREAM d') = Some 4096 \<and> rtd s' = rtd rk_demo_captured"
    using rk_free_tests_other_channel
      [of rk_demo_captured "demo_data\<lparr>dmaPrv := True, captureBufInfo := rk_demo_open_buf\<rparr>" 0
        AUDIO_CAPTURE_STREAM 4096 0 demo_kernel True]
    by (simp add: rk_demo_captured_eq chn_idx_def chn_dev_def chn_is_null_def buf_of_def rk_demo_open_buf_def demo_buf_def)
  then show ?thesis by auto
qed

text \<open>
  For a format of 8 to 64 bits per frame \<open>RK3399DmaConfigChannel\<close> gives the engine one
  configuration: the direction and data register of the stream, and a bus wide enough for a frame.
  For any other format it fails without calling the engine on the render stream, whereas on the
  capture stream the engine is given the empty configuration (memory to memory, no address, no
  width) and success is reported if the engine takes it.
\<close>
theorem rk_config_bus_width:
  assumes "rk_ok k s" "st \<in> audio_streams" "pdata s = Some d" "p = pcm_of st d"
  shows "\<exists>rc s' c. RK3399DmaConfigChannel k st s = Some (rc, s') \<and> dmaChn (rtd s) ! chn_idx st = CHAN c \<and>
    (supported p \<longrightarrow> calls s' = calls s @ [SlaveConfig c (stream_config st p)] \<and>
       (rc = HDF_SUCCESS \<longleftrightarrow> k_config k (calls s) c (stream_config st p) = 0) \<and>
       sint (frame_bits p) \<le> 8 * int (frame_bytes p)) \<and>
    (\<not> supported p \<and> st = AUDIO_RENDER_STREAM \<longrightarrow> rc = HDF_FAILURE \<and> calls s' = calls s) \<and>
    (\<not> supported p \<and> st = AUDIO_CAPTURE_STREAM \<longrightarrow> calls s' = calls s @ [SlaveConfig c zero_config] \<and>
       (rc = HDF_SUCCESS \<longleftrightarrow> k_config k (calls s) c zero_config = 0))"
proof -
  obtain c where c: "dmaChn (rtd s) ! chn_idx st = CHAN c" "chan_device k c \<noteq> None"
    using rk_ok_chan [OF assms(1)] by metis
  have "dmaPrv d" using assms(1,3) by (auto simp: rk_ok_def)
  then show ?thesis
    using c assms(2,3) frame_bytes_enough [of p]
    by (auto simp: RK3399DmaConfigChannel_def SetDmaSlaveConfig_cases config_channel_def chn_idx_def
        assms(4) pcm_of_def HDF_SUCCESS_def HDF_FAILURE_def Let_def)
qed

theorem rk_config_bus_width_witness:
  "\<exists>rc s' c. RK3399DmaConfigChannel demo_kernel AUDIO_RENDER_STREAM rk_demo_opened = Some (rc, s') \<and>
     calls s' = calls rk_demo_opened @ [SlaveConfig c (stream_config AUDIO_RENDER_STREAM (demo_pcm AUDIO_RENDER_STREAM))] \<and>
     rc = HDF_SUCCESS"
proof -
  have p: "pcm_of AUDIO_RENDER_STREAM (the (pdata rk_demo_opened)) = demo_pcm AUDIO_RENDER_STREAM"
    by (simp add: rk_demo_opened_eq pcm_of_def demo_data_def)
  have "supported (demo_pcm AUDIO_RENDER_STREAM)"
    by (simp add: supported_def frame_bits_def demo_pcm_def)
  then show ?thesis
    using rk_config_bus_width [OF rk_demo_opened_ok, of AUDIO_RENDER_STREAM "the (pdata rk_demo_opened)"
        "demo_pcm AUDIO_RENDER_STREAM"] p
    by (auto simp: rk_demo_opened_eq)
qed

text \<open>
  \<open>RK3399PcmPointer\<close> on an open stream whose ring is smaller than 512 MB, with a residue that fits
  the ring, reports the number of whole frames transferred. At the end of the ring (residue 0) it
  does not start over at 0 but reports the number of frames of the whole ring, one past the last
  frame, unless a frame has 8 bits: the wrap-around test compares frames with bytes.
\<close>
theorem rk_pointer_frames:
  assumes "rk_ok k s" "st \<in> audio_streams" "pdata s = Some d"
    "n = cirBufSize (buf_of st d)" "0 < n" "unat n < 2 ^ 29" "8 \<le> unat (frame_bits (pcm_of st d))"
    "dmaChn (rtd s) ! chn_idx st = CHAN c"
    "k_status k (calls s) c (cookie (rtd s) ! chn_idx st) = (status, residue)" "residue \<le> n"
  shows "\<exists>p s'. RK3399PcmPointer k st True s = Some ((HDF_SUCCESS, Some p), s') \<and>
    unat p = (if residue = 0 \<and> unat (frame_bits (pcm_of st d)) = 8 then 0
              else (unat n - unat residue) * 8 div unat (frame_bits (pcm_of st d)))"
proof -
  define b where "b = frame_bits (pcm_of st d)"
  have b: "b \<noteq> 0" "8 \<le> unat b" using assms(7) by (auto simp: b_def)
  have sub: "unat (n - residue) = unat n - unat residue"
    using assms(10) by (simp add: unat_sub word_le_nat_alt)
  then have "unat ((n - residue) * 8) = (unat n - unat residue) * 8"
    using assms(6) by (subst unat_mult_8) simp_all
  then have frames: "unat ((n - residue) * 8 div b) = (unat n - unat residue) * 8 div unat b"
    by (simp only: unat_div)
  have "(n - residue) * 8 div b = n \<longleftrightarrow> (unat n - unat residue) * 8 div unat b = unat n"
    using frames by (simp only: word_unat_eq_iff)
  also have "\<dots> \<longleftrightarrow> residue = 0 \<and> unat b = 8"
    using full_ring_frames [of "unat n - unat residue" "unat n" "unat b"] b(2) assms(5,10)
    by (auto simp: word_less_nat_alt word_le_nat_alt unat_eq_zero [symmetric])
  finally have full: "(n - residue) * 8 div b = n \<longleftrightarrow> residue = 0 \<and> unat b = 8" .
  have prv: "dmaPrv d" using assms(1,3) by (auto simp: rk_ok_def)
  have "RK3399PcmPointer k st True s = Some ((HDF_SUCCESS, Some (
      if (n - residue) * 8 div b = n then 0 else (n - residue) * 8 div b)),
      call (TxStatus c (cookie (rtd s) ! chn_idx st)) s)"
    using assms(2,3,8,9) prv b(1)
    by (auto simp: RK3399PcmPointer_def PcmDmaGetAddr_def BytesToFrames_def Let_def b_def frame_bits_def
        assms(4) buf_of_def)
  then show ?thesis using frames full by (auto simp: b_def)
qed

theorem rk_pointer_frames_witness:
  "\<exists>p s'. RK3399PcmPointer demo_kernel AUDIO_RENDER_STREAM True rk_demo_opened = Some ((HDF_SUCCESS, Some p), s') \<and>
     unat p = 12"
proof -
  define d where "d = the (pdata rk_demo_opened)"
  have d: "pdata rk_demo_opened = Some d" "cirBufSize (buf_of AUDIO_RENDER_STREAM d) = 96"
    "frame_bits (pcm_of AUDIO_RENDER_STREAM d) = 32"
    by (simp_all add: d_def rk_demo_opened_eq demo_data_def rk_demo_open_buf_def demo_buf_def buf_of_def pcm_of_def
        frame_bits_def demo_pcm_def)
  have c: "dmaChn (rtd rk_demo_opened) ! chn_idx AUDIO_RENDER_STREAM = CHAN 3"
    by (simp add: rk_demo_opened_eq chn_idx_def)
  show ?thesis
    using rk_pointer_frames [OF rk_demo_opened_ok _ d(1) d(2) [symmetric] _ _ _ c demo_kernel_simps(11)]
    by (simp add: d(3))
qed

end
