(* ===== verification/T507_Codec.thy ===== *)
theory T507_Codec
  imports Audio_Base
begin

text \<open>
  The audio codec driver of the zhiyuan board (\<open>t507_codec_impl_linux.c\<close> and
  \<open>t507_codec_ops.c\<close>): probing and removing the device, the playback volume control, hardware
  parameters and the trigger. Reading and writing the codec's registers goes through the kernel's
  regmap, so the calls are logged and \<open>reg_val\<close> tells what the registers hold afterwards. What the
  HDF framework's helper functions return is passed in.

  Shown: the line-out volume field always agrees with the volume and mute controls; hardware
  parameters end up in the right bit fields, and for which sampling rates the rate table is read
  out of bounds; starting and stopping a stream leave the registers as they were; every stage of
  the probe function but the clocks takes everything or nothing, and a failed clock enable is
  reported as success.
\<close>

section \<open>Registers\<close>

definition SUNXI_DAC_DPC :: u32 where "SUNXI_DAC_DPC = 0x00"
definition SUNXI_DAC_FIFO_CTL :: u32 where "SUNXI_DAC_FIFO_CTL = 0x10"
definition SUNXI_DAC_FIFO_STA :: u32 where "SUNXI_DAC_FIFO_STA = 0x14"
definition SUNXI_DAC_CNT :: u32 where "SUNXI_DAC_CNT = 0x24"
definition AC_DAC_REG :: u32 where "AC_DAC_REG = 0x310"
definition AC_RAMP_REG :: u32 where "AC_RAMP_REG = 0x31c"
definition SUNXI_AUDIO_MAX_REG :: u32 where "SUNXI_AUDIO_MAX_REG = AC_RAMP_REG"

lemmas codec_regs = SUNXI_DAC_DPC_def SUNXI_DAC_FIFO_CTL_def SUNXI_DAC_FIFO_STA_def SUNXI_DAC_CNT_def
  AC_DAC_REG_def AC_RAMP_REG_def

definition EN_DA :: nat where "EN_DA = 31"
definition DAC_FS :: nat where "DAC_FS = 29"
definition DAC_FIFO_MODE :: nat where "DAC_FIFO_MODE = 24"
definition DAC_MONO_EN :: nat where "DAC_MONO_EN = 6"
definition TX_SAMPLE_BITS :: nat where "TX_SAMPLE_BITS = 5"
definition DAC_DRQ_EN :: nat where "DAC_DRQ_EN = 4"
definition DAC_FIFO_FLUSH :: nat where "DAC_FIFO_FLUSH = 0"
definition DAC_TXE_INT :: nat where "DAC_TXE_INT = 3"
definition DAC_TXU_INT :: nat where "DAC_TXU_INT = 2"
definition DAC_TXO_INT :: nat where "DAC_TXO_INT = 1"
definition DACLEN :: nat where "DACLEN = 15"
definition DACREN :: nat where "DACREN = 14"
definition LINEOUTL_EN :: nat where "LINEOUTL_EN = 13"
definition LINEOUTR_EN :: nat where "LINEOUTR_EN = 11"
definition LINEOUT_VOL :: nat where "LINEOUT_VOL = 0"
definition RDEN :: nat where "RDEN = 0"

lemmas codec_bits = EN_DA_def DAC_FS_def DAC_FIFO_MODE_def DAC_MONO_EN_def TX_SAMPLE_BITS_def
  DAC_DRQ_EN_def DAC_FIFO_FLUSH_def DAC_TXE_INT_def DAC_TXU_INT_def DAC_TXO_INT_def DACLEN_def DACREN_def
  LINEOUTL_EN_def LINEOUTR_EN_def LINEOUT_VOL_def RDEN_def

section \<open>State\<close>

definition KCONTROL_RENDER_VOL :: u32 where "KCONTROL_RENDER_VOL = 0x00"
definition KCONTROL_RENDER_MUTE :: u32 where "KCONTROL_RENDER_MUTE = 0x02"

record KcontrolRender =
  vol :: u32
  mute :: u32
  todo :: u32

definition g_KctrlRender_init :: KcontrolRender where
  "g_KctrlRender_init = \<lparr>vol = 0x1f, mute = 0, todo = 0\<rparr>"

text \<open>\<open>g_codec_pdev\<close> is set once the device has been probed; the driver's record is reached through
  it, so before that every access faults.\<close>

record codec =
  g_codec_pdev :: bool
  g_KctrlRender :: KcontrolRender
  codec_log :: klog

definition g_sample_rate_conv :: "(u32 \<times> u32) list" where
  "g_sample_rate_conv = [(44100, 0), (48000, 0), (8000, 5), (32000, 1), (22050, 2), (24000, 2),
     (16000, 3), (11025, 4), (12000, 4), (192000, 6), (96000, 7)]"

definition issue :: "kcall list \<Rightarrow> codec \<Rightarrow> codec" where
  "issue cs s = s\<lparr>codec_log := codec_log s @ cs\<rparr>"

text \<open>\<open>dev_get_drvdata(&g_codec_pdev->dev)\<close>.\<close>

definition with_pdev :: "(codec \<Rightarrow> 'a option) \<Rightarrow> codec \<Rightarrow> 'a option" where
  "with_pdev f s = (if g_codec_pdev s then f s else None)"

section \<open>Registers and controls\<close>

definition T507CodecImplRegmapWrite :: "u32 \<Rightarrow> u32 \<Rightarrow> codec \<Rightarrow> codec option" where
  "T507CodecImplRegmapWrite reg val = with_pdev (\<lambda>s. Some (issue [RegWrite reg val] s))"

definition T507CodecImplRegmapRead :: "kernel \<Rightarrow> u32 \<Rightarrow> codec \<Rightarrow> (u32 \<times> codec) option" where
  "T507CodecImplRegmapRead k reg = with_pdev (\<lambda>s.
     Some (k_u32 k (codec_log s) (RegRead reg), issue [RegRead reg] s))"

text \<open>
  \<open>kcontrol\<close> is the register number of the mixer control behind the kcontrol, \<open>None\<close> when the
  kcontrol or its private value is missing; \<open>elem\<close> says whether the element value is there; \<open>fw\<close>
  and \<open>fwr\<close> are what \<open>AudioGetCtrlOpsReg\<close> and \<open>AudioGetCtrlOpsRReg\<close> return for a value.
\<close>

definition T507CodecImplGetCtrlOps ::
    "(u32 \<Rightarrow> int) \<Rightarrow> (u32 \<Rightarrow> int) \<Rightarrow> u32 option \<Rightarrow> bool \<Rightarrow> codec \<Rightarrow> int \<times> u32 option" where
  "T507CodecImplGetCtrlOps fw fwr kcontrol elem s = (
     if kcontrol = None \<or> \<not> elem then (HDF_ERR_INVALID_OBJECT, None)
     else let cur = (if the kcontrol = KCONTROL_RENDER_VOL then vol (g_KctrlRender s)
                     else if the kcontrol = KCONTROL_RENDER_MUTE then mute (g_KctrlRender s)
                     else todo (g_KctrlRender s))
          in if fw cur \<noteq> HDF_SUCCESS \<or> fwr cur \<noteq> HDF_SUCCESS then (HDF_FAILURE, None)
             else (HDF_SUCCESS, Some cur))"

definition T507CodecImplUpdateRegBits :: "u32 \<Rightarrow> u32 \<Rightarrow> codec \<Rightarrow> codec option" where
  "T507CodecImplUpdateRegBits reg value = with_pdev (\<lambda>s.
     let kc = (if reg = KCONTROL_RENDER_VOL then (g_KctrlRender s)\<lparr>vol := value\<rparr>
               else if reg = KCONTROL_RENDER_MUTE then (g_KctrlRender s)\<lparr>mute := value\<rparr>
               else g_KctrlRender s)
     in Some (issue [set_field AC_DAC_REG 0x1f LINEOUT_VOL (if mute kc \<noteq> 0 then 0 else vol kc)]
               (s\<lparr>g_KctrlRender := kc\<rparr>)))"

text \<open>\<open>fw\<close> and \<open>fwr\<close> are the results of \<open>AudioSetCtrlOpsReg\<close> (code and value) and
  \<open>AudioSetCtrlOpsRReg\<close> (code, value, whether to update).\<close>

definition T507CodecImplSetCtrlOps ::
    "int \<times> u32 \<Rightarrow> int \<times> u32 \<times> bool \<Rightarrow> u32 option \<Rightarrow> bool \<Rightarrow> codec \<Rightarrow> (int \<times> codec) option" where
  "T507CodecImplSetCtrlOps fw fwr kcontrol elem s = (
     if kcontrol = None \<or> \<not> elem then Some (HDF_ERR_INVALID_OBJECT, s)
     else if fst fw \<noteq> HDF_SUCCESS then Some (HDF_ERR_INVALID_OBJECT, s)
     else do {
       s1 \<leftarrow> T507CodecImplUpdateRegBits (the kcontrol) (snd fw) s;
       if fst fwr \<noteq> HDF_SUCCESS then Some (HDF_ERR_INVALID_OBJECT, s1)
       else if snd (snd fwr) then do {
         s2 \<leftarrow> T507CodecImplUpdateRegBits (the kcontrol) (fst (snd fwr)) s1;
         Some (HDF_SUCCESS, s2) }
       else Some (HDF_SUCCESS, s1) })"

text \<open>The initial register values from the configuration: \<open>None\<close> when the group is missing.\<close>

definition T507CodecImplRegDefaultInit :: "(u32 \<times> u32) list option \<Rightarrow> codec \<Rightarrow> (int \<times> codec) option" where
  "T507CodecImplRegDefaultInit regCfgGroup = with_pdev (\<lambda>s. case regCfgGroup of
     None \<Rightarrow> Some (HDF_FAILURE, s)
   | Some items \<Rightarrow> if items = [] then Some (HDF_FAILURE, s)
       else Some (HDF_SUCCESS, issue (map (\<lambda>(a, v). RegWrite a v) items) s))"

section \<open>Streams\<close>

definition T507CodecImplStartup :: "AudioStreamType \<Rightarrow> int" where
  "T507CodecImplStartup st = HDF_SUCCESS"

text \<open>The switch that chooses the base frequency; \<open>None\<close> is its default branch.\<close>

definition freq_point :: "u32 \<Rightarrow> u32 option" where
  "freq_point rate =
     (if rate \<in> set [8000, 12000, 16000, 24000, 32000, 48000, 64000, 96000, 192000] then Some 24576000
      else if rate \<in> set [11025, 22050, 44100, 88200, 176400] then Some 22579200
      else None)"

text \<open>The loop over the rate table ends at the first entry for the rate or at the end of the table;
  reading the entry there faults.\<close>

fun rate_index :: "(u32 \<times> u32) list \<Rightarrow> u32 \<Rightarrow> nat" where
  "rate_index [] rate = 0"
| "rate_index (e # es) rate = (if fst e = rate then 0 else Suc (rate_index es rate))"

definition hw_format :: "AudioFormat \<Rightarrow> kcall list option" where
  "hw_format format = (case format of
     AUDIO_FORMAT_TYPE_PCM_16_BIT \<Rightarrow>
       Some [set_field SUNXI_DAC_FIFO_CTL 3 DAC_FIFO_MODE 3, set_field SUNXI_DAC_FIFO_CTL 1 TX_SAMPLE_BITS 0]
   | AUDIO_FORMAT_TYPE_PCM_24_BIT \<Rightarrow>
       Some [set_field SUNXI_DAC_FIFO_CTL 3 DAC_FIFO_MODE 0, set_field SUNXI_DAC_FIFO_CTL 1 TX_SAMPLE_BITS 1]
   | _ \<Rightarrow> None)"

definition hw_channels :: "u32 \<Rightarrow> kcall list option" where
  "hw_channels channels =
     (if channels = 1 then Some [set_field SUNXI_DAC_FIFO_CTL 1 DAC_MONO_EN 1]
      else if channels = 2 then Some [set_field SUNXI_DAC_FIFO_CTL 1 DAC_MONO_EN 0]
      else None)"

definition hw_clear :: "kcall list" where
  "hw_clear = [set_field SUNXI_DAC_FIFO_CTL 1 DAC_FIFO_FLUSH 1,
     RegWrite SUNXI_DAC_FIFO_STA (push_bit DAC_TXE_INT 1 OR push_bit DAC_TXU_INT 1 OR push_bit DAC_TXO_INT 1),
     RegWrite SUNXI_DAC_CNT 0]"

definition T507CodecImplHwParams ::
    "kernel \<Rightarrow> AudioStreamType \<Rightarrow> AudioFormat \<Rightarrow> u32 \<Rightarrow> u32 \<Rightarrow> codec \<Rightarrow> (int \<times> codec) option" where
  "T507CodecImplHwParams k st format channels rate = with_pdev (\<lambda>s.
     if st = AUDIO_CAPTURE_STREAM then Some (HDF_SUCCESS, s)
     else case freq_point rate of
       None \<Rightarrow> Some (HDF_FAILURE, s)
     | Some fp \<Rightarrow>
         let c1 = ClkSetRate ''clk_pll_audio_4x'' (fp * 4);
             s1 = issue [c1] s
         in if k_int k (codec_log s) c1 \<noteq> 0 then Some (- EINVAL, s1)
            else
              let c2 = ClkSetRate ''clk_audio'' (fp * 2);
                  s2 = issue [c2] s1
              in if k_int k (codec_log s1) c2 \<noteq> 0 then Some (- EINVAL, s2)
                 else case hw_format format of
                   None \<Rightarrow> Some (HDF_FAILURE, s2)
                 | Some fmt \<Rightarrow> do {
                     let s3 = issue fmt s2;
                     (_, rate_bit) \<leftarrow> arr_get g_sample_rate_conv (rate_index g_sample_rate_conv rate);
                     let s4 = issue [set_field SUNXI_DAC_FIFO_CTL 7 DAC_FS rate_bit] s3;
                     case hw_channels channels of
                       None \<Rightarrow> Some (HDF_FAILURE, s4)
                     | Some ch \<Rightarrow> Some (HDF_SUCCESS, issue hw_clear (issue ch s4)) })"

definition renderRouteCtrl :: "bool \<Rightarrow> codec \<Rightarrow> codec option" where
  "renderRouteCtrl enable = with_pdev (\<lambda>s. Some (issue (
     if enable then
       [set_field SUNXI_DAC_DPC 1 EN_DA 1, set_field AC_DAC_REG 1 DACLEN 1, set_field AC_DAC_REG 1 DACREN 1,
        set_field AC_DAC_REG 1 LINEOUTL_EN 1, set_field AC_DAC_REG 1 LINEOUTR_EN 1, set_field AC_RAMP_REG 1 RDEN 1]
     else
       [set_field AC_RAMP_REG 1 RDEN 0, set_field AC_DAC_REG 1 LINEOUTL_EN 0, set_field AC_DAC_REG 1 LINEOUTR_EN 0,
        set_field AC_DAC_REG 1 DACLEN 0, set_field AC_DAC_REG 1 DACREN 0, set_field SUNXI_DAC_DPC 1 EN_DA 0]) s))"

definition T507CodecImplTrigger :: "AudioStreamType \<Rightarrow> bool \<Rightarrow> codec \<Rightarrow> (int \<times> codec) option" where
  "T507CodecImplTrigger st enable = with_pdev (\<lambda>s.
     if st = AUDIO_CAPTURE_STREAM then Some (HDF_SUCCESS, s)
     else do {
       s1 \<leftarrow> renderRouteCtrl enable s;
       Some (HDF_SUCCESS, issue [set_field SUNXI_DAC_FIFO_CTL 1 DAC_DRQ_EN (if enable then 1 else 0)] s1) })"

section \<open>Probing and removing\<close>

abbreviation "CLK_BUS \<equiv> ''clk_bus_audio''"
abbreviation "CLK_PLL \<equiv> ''clk_pll_audio''"
abbreviation "CLK_PLLX4 \<equiv> ''clk_pll_audio_4x''"
abbreviation "CLK_AUDIO \<equiv> ''clk_audio''"

definition snd_sunxi_codec_mem_init :: "kernel \<Rightarrow> klog \<Rightarrow> int \<times> unit \<times> klog" where
  "snd_sunxi_codec_mem_init k l = (
     let (ret, l) = ask_int k AddressToResource l in
     if ret \<noteq> 0 then (- EINVAL, (), l) else
     let (memregion, l) = ask_ptr k RequestMem l in
     if IS_ERR_OR_NULL memregion then (- EBUSY, (), l) else
     let (membase, l) = ask_ptr k Ioremap l in
     if IS_ERR_OR_NULL membase then (- EBUSY, (), l @ [ReleaseMem]) else
     let (regmap, l) = ask_ptr k RegmapInit l in
     if IS_ERR_OR_NULL regmap then (- EINVAL, (), l @ [Iounmap, ReleaseMem])
     else (0, (), l))"

definition snd_sunxi_codec_mem_exit :: "unit \<Rightarrow> klog \<Rightarrow> klog" where
  "snd_sunxi_codec_mem_exit _ l = l @ [Iounmap, ReleaseMem]"

text \<open>Only the failure of the reset line sets \<open>ret\<close>.\<close>

definition snd_sunxi_codec_clk_enable :: "kernel \<Rightarrow> klog \<Rightarrow> int \<times> klog" where
  "snd_sunxi_codec_clk_enable k l = (
     let ret = 0 in
     let (r, l) = ask_int k ResetDeassert l in
     if r \<noteq> 0 then (- EINVAL, l) else
     let (r, l) = ask_int k (ClkEnable CLK_BUS) l in
     if r \<noteq> 0 then (ret, l @ [ResetAssert]) else
     let (r, l) = ask_int k (ClkEnable CLK_PLL) l in
     if r \<noteq> 0 then (ret, l @ [ClkDisable CLK_BUS, ResetAssert]) else
     let (r, l) = ask_int k (ClkEnable CLK_PLLX4) l in
     if r \<noteq> 0 then (ret, l @ [ClkDisable CLK_PLL, ClkDisable CLK_BUS, ResetAssert]) else
     let (r, l) = ask_int k (ClkEnable CLK_AUDIO) l in
     if r \<noteq> 0 then (ret, l @ [ClkDisable CLK_PLLX4, ClkDisable CLK_PLL, ClkDisable CLK_BUS, ResetAssert])
     else (0, l))"

definition snd_sunxi_codec_clk_disable :: "klog \<Rightarrow> klog" where
  "snd_sunxi_codec_clk_disable l =
     l @ [ClkDisable CLK_AUDIO, ClkDisable CLK_PLLX4, ClkDisable CLK_PLL, ClkDisable CLK_BUS, ResetAssert]"

definition snd_sunxi_codec_clk_init :: "kernel \<Rightarrow> klog \<Rightarrow> int \<times> unit \<times> klog" where
  "snd_sunxi_codec_clk_init k l = (
     let (p, l) = ask_ptr k ResetGet l in
     if IS_ERR_OR_NULL p then (PTR_ERR p, (), l) else
     let (p, l) = ask_ptr k (ClkGet CLK_BUS) l in
     if IS_ERR_OR_NULL p then (PTR_ERR p, (), l) else
     let (p, l) = ask_ptr k (ClkGet CLK_PLL) l in
     if IS_ERR_OR_NULL p then (PTR_ERR p, (), l @ [ClkPut CLK_BUS]) else
     let (p, l) = ask_ptr k (ClkGet CLK_PLLX4) l in
     if IS_ERR_OR_NULL p then (PTR_ERR p, (), l @ [ClkPut CLK_PLL, ClkPut CLK_BUS]) else
     let (p, l) = ask_ptr k (ClkGet CLK_AUDIO) l in
     if IS_ERR_OR_NULL p then (PTR_ERR p, (), l @ [ClkPut CLK_PLLX4, ClkPut CLK_PLL, ClkPut CLK_BUS]) else
     let (r, l) = ask_int k (ClkSetParent CLK_AUDIO CLK_PLLX4) l in
     if r \<noteq> 0 then (- EINVAL, (), l @ [ClkPut CLK_AUDIO, ClkPut CLK_PLLX4, ClkPut CLK_PLL, ClkPut CLK_BUS]) else
     let (ret, l) = snd_sunxi_codec_clk_enable k l in
     if ret \<noteq> 0 then (- EINVAL, (), l @ [ClkPut CLK_AUDIO, ClkPut CLK_PLLX4, ClkPut CLK_PLL, ClkPut CLK_BUS])
     else (0, (), l))"

definition snd_sunxi_codec_clk_exit :: "unit \<Rightarrow> klog \<Rightarrow> klog" where
  "snd_sunxi_codec_clk_exit _ l = snd_sunxi_codec_clk_disable l @
     [ClkPut CLK_AUDIO, ClkPut CLK_PLLX4, ClkPut CLK_PLL, ClkPut CLK_BUS]"

definition snd_sunxi_codec_rglt_init :: "kernel \<Rightarrow> klog \<Rightarrow> int \<times> kptr \<times> klog" where
  "snd_sunxi_codec_rglt_init k l = (
     let (avcc, l) = ask_ptr k (RegulatorGet ''avcc'') l in
     if IS_ERR_OR_NULL avcc then (- EFAULT, avcc, l) else
     let (ret, l) = ask_int k (RegulatorSetVoltage ''avcc'' 1800000 1800000) l in
     if ret < 0 then (- EFAULT, avcc, l @ [RegulatorPut ''avcc'']) else
     let (ret, l) = ask_int k (RegulatorEnable ''avcc'') l in
     if ret < 0 then (- EFAULT, avcc, l @ [RegulatorPut ''avcc''])
     else (0, avcc, l))"

definition snd_sunxi_codec_rglt_exit :: "kptr \<Rightarrow> klog \<Rightarrow> klog" where
  "snd_sunxi_codec_rglt_exit avcc l =
     (if IS_ERR_OR_NULL avcc then l else l @ [RegulatorDisable ''avcc'', RegulatorPut ''avcc''])"

text \<open>The line-out volume of the device tree, 0 when it is missing.\<close>

definition snd_sunxi_dts_params_init :: "kernel \<Rightarrow> klog \<Rightarrow> u32 \<times> klog" where
  "snd_sunxi_dts_params_init k l = (
     let (ret, l') = ask_int k (ReadProp ''lineout-vol'') l
     in (if ret < 0 then 0 else k_u32 k l (ReadProp ''lineout-vol''), l'))"

definition sunxi_internal_codec_dev_probe :: "kernel \<Rightarrow> codec \<Rightarrow> int \<times> codec" where
  "sunxi_internal_codec_dev_probe k s = (
     let (codec_info, l) = ask_ptr k Kzalloc (codec_log s) in
     if codec_info = PNULL then (- ENOMEM, s\<lparr>codec_log := l @ [NodePut]\<rparr>) else
     let (ret, mem_info, l) = snd_sunxi_codec_mem_init k l in
     if ret \<noteq> 0 then (- ENOMEM, s\<lparr>codec_log := l @ [Kfree, NodePut]\<rparr>) else
     let (ret, clk_info, l) = snd_sunxi_codec_clk_init k l in
     if ret \<noteq> 0 then (- ENOMEM, s\<lparr>codec_log := snd_sunxi_codec_mem_exit mem_info l @ [Kfree, NodePut]\<rparr>) else
     let (ret, rglt_info, l) = snd_sunxi_codec_rglt_init k l in
     if ret \<noteq> 0 then (- ENOMEM, s\<lparr>codec_log :=
       snd_sunxi_codec_mem_exit mem_info (snd_sunxi_codec_clk_exit clk_info l) @ [Kfree, NodePut]\<rparr>) else
     let (lineout_vol, l) = snd_sunxi_dts_params_init k l;
         (ret, l) = ask_int k SysfsCreate l
     in (0, s\<lparr>codec_log := l, g_codec_pdev := True\<rparr>))"

text \<open>\<open>avcc\<close> is the regulator the probe stored in the driver's record.\<close>

definition sunxi_internal_codec_dev_remove :: "kptr \<Rightarrow> codec \<Rightarrow> int \<times> codec" where
  "sunxi_internal_codec_dev_remove avcc s = (0, s\<lparr>codec_log :=
     snd_sunxi_codec_rglt_exit avcc (snd_sunxi_codec_clk_exit () (snd_sunxi_codec_mem_exit ()
       (codec_log s @ [SysfsRemove]))) @ [Kfree, NodePut]\<rparr>)"

section \<open>Framework entry points\<close>

definition T507CodecDeviceReadReg :: "kernel \<Rightarrow> u32 \<Rightarrow> bool \<Rightarrow> codec \<Rightarrow> (int \<times> u32 option \<times> codec) option" where
  "T507CodecDeviceReadReg k reg value s = (
     if \<not> value then Some (HDF_FAILURE, None, s)
     else do { (v, s1) \<leftarrow> T507CodecImplRegmapRead k reg s; Some (HDF_SUCCESS, Some v, s1) })"

definition T507CodecDeviceWriteReg :: "u32 \<Rightarrow> u32 \<Rightarrow> codec \<Rightarrow> (int \<times> codec) option" where
  "T507CodecDeviceWriteReg reg value s =
     do { s1 \<leftarrow> T507CodecImplRegmapWrite reg value s; Some (HDF_SUCCESS, s1) }"

definition T507CodecDaiDeviceInit :: "bool \<Rightarrow> int" where
  "T507CodecDaiDeviceInit device = (if \<not> device then HDF_FAILURE else HDF_SUCCESS)"

text \<open>\<open>params\<close> says whether all pointers the function checks are set.\<close>

definition T507CodecDaiHwParams ::
    "kernel \<Rightarrow> bool \<Rightarrow> AudioStreamType \<Rightarrow> AudioFormat \<Rightarrow> u32 \<Rightarrow> u32 \<Rightarrow> codec \<Rightarrow> (int \<times> codec) option" where
  "T507CodecDaiHwParams k params st format channels rate s = (
     if \<not> params then Some (HDF_FAILURE, s)
     else do {
       (ret, s1) \<leftarrow> T507CodecImplHwParams k st format channels rate s;
       Some (if ret \<noteq> HDF_SUCCESS then HDF_FAILURE else HDF_SUCCESS, s1) })"

definition T507CodecDaiStartup :: int where
  "T507CodecDaiStartup =
     (if T507CodecImplStartup AUDIO_RENDER_STREAM \<noteq> HDF_SUCCESS then HDF_FAILURE else HDF_SUCCESS)"

definition run_trigger :: "AudioStreamType \<Rightarrow> bool \<Rightarrow> codec \<Rightarrow> (int \<times> codec) option" where
  "run_trigger st enable s = do {
     (ret, s1) \<leftarrow> T507CodecImplTrigger st enable s;
     Some (if ret \<noteq> HDF_SUCCESS then HDF_FAILURE else HDF_SUCCESS, s1) }"

definition T507CodecDaiTrigger :: "pcm_cmd \<Rightarrow> codec \<Rightarrow> (int \<times> codec) option" where
  "T507CodecDaiTrigger cmd s = (case cmd of
     RENDER_START \<Rightarrow> run_trigger AUDIO_RENDER_STREAM True s
   | RENDER_RESUME \<Rightarrow> run_trigger AUDIO_RENDER_STREAM True s
   | RENDER_STOP \<Rightarrow> run_trigger AUDIO_RENDER_STREAM False s
   | RENDER_PAUSE \<Rightarrow> run_trigger AUDIO_RENDER_STREAM False s
   | CAPTURE_START \<Rightarrow> run_trigger AUDIO_CAPTURE_STREAM True s
   | CAPTURE_RESUME \<Rightarrow> run_trigger AUDIO_CAPTURE_STREAM True s
   | CAPTURE_STOP \<Rightarrow> run_trigger AUDIO_CAPTURE_STREAM False s
   | CAPTURE_PAUSE \<Rightarrow> run_trigger AUDIO_CAPTURE_STREAM False s
   | OTHER_CMD _ \<Rightarrow> Some (HDF_SUCCESS, s))"

text \<open>
  \<open>T507CodecDeviceInit\<close> calls the framework six times around the register initialisation; \<open>fw i\<close>
  is the code of the \<open>i\<close>-th of these calls. \<open>params\<close> says whether all pointers are set.
\<close>

definition T507CodecDeviceInit ::
    "(nat \<Rightarrow> int) \<Rightarrow> bool \<Rightarrow> (u32 \<times> u32) list option \<Rightarrow> codec \<Rightarrow> (int \<times> codec) option" where
  "T507CodecDeviceInit fw params regCfgGroup s = (
     if \<not> params then Some (HDF_ERR_INVALID_OBJECT, s)
     else if fw 0 \<noteq> HDF_SUCCESS then Some (HDF_FAILURE, s)
     else do {
       (ret, s1) \<leftarrow> T507CodecImplRegDefaultInit regCfgGroup s;
       Some (if ret \<noteq> HDF_SUCCESS \<or> fw 1 \<noteq> HDF_SUCCESS \<or> fw 2 \<noteq> HDF_SUCCESS \<or> fw 3 \<noteq> HDF_SUCCESS \<or>
                fw 4 \<noteq> HDF_SUCCESS \<or> fw 5 \<noteq> HDF_SUCCESS
             then HDF_FAILURE else HDF_SUCCESS, s1) })"

section \<open>The stages of the probe function\<close>

definition codec_clk_takes :: "unit \<Rightarrow> resource \<Rightarrow> int" where
  "codec_clk_takes _ r = (if r \<in> {RReset, RClock CLK_BUS, RClock CLK_PLL, RClock CLK_PLLX4, RClock CLK_AUDIO,
     RClockOn CLK_BUS, RClockOn CLK_PLL, RClockOn CLK_PLLX4, RClockOn CLK_AUDIO} then 1 else 0)"

definition rglt_takes :: "kptr \<Rightarrow> resource \<Rightarrow> int" where
  "rglt_takes avcc r = (if avcc = PVALID \<and> r \<in> {RRegulator ''avcc'', RPower ''avcc''} then 1 else 0)"

interpretation codec_mem: init_stage snd_sunxi_codec_mem_init snd_sunxi_codec_mem_exit mem_takes "\<lambda>k. True"
  by unfold_locales
    (auto simp: snd_sunxi_codec_mem_init_def snd_sunxi_codec_mem_exit_def mem_takes_def stage_defs Let_def
      split: if_splits)

interpretation codec_rglt: init_stage snd_sunxi_codec_rglt_init snd_sunxi_codec_rglt_exit rglt_takes "\<lambda>k. True"
  by unfold_locales
    (auto simp: snd_sunxi_codec_rglt_init_def snd_sunxi_codec_rglt_exit_def rglt_takes_def stage_defs Let_def
      split: if_splits)

interpretation codec_clk: init_stage snd_sunxi_codec_clk_init snd_sunxi_codec_clk_exit codec_clk_takes clocks_start
proof unfold_locales
  fix k l info l' r
  assume k: "clocks_start k" and run: "snd_sunxi_codec_clk_init k l = (0, info, l')"
  show "held k l' r = held k l r + codec_clk_takes info r"
    using run
    by (auto simp: snd_sunxi_codec_clk_init_def snd_sunxi_codec_clk_enable_def clocks_startD(1) [OF k]
        codec_clk_takes_def ask_defs IS_ERR_OR_NULL_def err_defs Let_def ptr_err_nonzero [OF k] split: if_splits)
next
  fix k l rc info l' r
  assume k: "clocks_start k" and run: "snd_sunxi_codec_clk_init k l = (rc, info, l')" and rc: "rc \<noteq> 0"
  show "held k l' r = held k l r"
    using run rc
    by (auto simp: snd_sunxi_codec_clk_init_def snd_sunxi_codec_clk_enable_def clocks_startD(1) [OF k]
        ask_defs IS_ERR_OR_NULL_def err_defs Let_def split: if_splits)
qed (auto simp: snd_sunxi_codec_clk_exit_def snd_sunxi_codec_clk_disable_def codec_clk_takes_def)

section \<open>Operations in sequence\<close>

text \<open>The operations the framework performs on a probed codec that change its state.\<close>

datatype codec_op =
    SetCtrl "int \<times> u32" "int \<times> u32 \<times> bool" u32
  | HwParams AudioStreamType AudioFormat u32 u32
  | Trigger pcm_cmd
  | ReadReg u32
  | WriteReg u32 u32
  | DeviceInit "nat \<Rightarrow> int" "(u32 \<times> u32) list option"

fun codec_step :: "kernel \<Rightarrow> codec_op \<Rightarrow> codec \<Rightarrow> (int \<times> codec) option" where
  "codec_step k (SetCtrl fw fwr reg) s = T507CodecImplSetCtrlOps fw fwr (Some reg) True s"
| "codec_step k (HwParams st format channels rate) s = T507CodecDaiHwParams k True st format channels rate s"
| "codec_step k (Trigger cmd) s = T507CodecDaiTrigger cmd s"
| "codec_step k (ReadReg reg) s = do { (rc, v, s) \<leftarrow> T507CodecDeviceReadReg k reg True s; Some (rc, s) }"
| "codec_step k (WriteReg reg v) s = T507CodecDeviceWriteReg reg v s"
| "codec_step k (DeviceInit fw cfg) s = T507CodecDeviceInit fw True cfg s"

primrec codec_run :: "kernel \<Rightarrow> codec_op list \<Rightarrow> codec \<Rightarrow> codec option" where
  "codec_run k [] s = Some s"
| "codec_run k (x # xs) s = do { (rc, s1) \<leftarrow> codec_step k x s; codec_run k xs s1 }"

text \<open>
  The operations that write registers by their number, one by one or from the table of the initialisation, can write the register of
  the volume behind the back of the controls.
\<close>

fun spares_volume :: "codec_op \<Rightarrow> bool" where
  "spares_volume (WriteReg reg v) = (reg \<noteq> AC_DAC_REG)"
| "spares_volume (DeviceInit fw cfg) = (\<forall>items. cfg = Some items \<longrightarrow> AC_DAC_REG \<notin> fst ` set items)"
| "spares_volume _ = True"

text \<open>The line-out volume field agrees with the controls.\<close>

definition vol_shown :: "u32 \<Rightarrow> codec \<Rightarrow> bool" where
  "vol_shown x s \<longleftrightarrow> field LINEOUT_VOL 5 (reg_val AC_DAC_REG (codec_log s) x) =
     (if mute (g_KctrlRender s) \<noteq> 0 then 0 else take_bit 5 (vol (g_KctrlRender s)))"

lemma issue_simps [simp]:
  "codec_log (issue cs s) = codec_log s @ cs" "g_KctrlRender (issue cs s) = g_KctrlRender s"
  "g_codec_pdev (issue cs s) = g_codec_pdev s"
  by (simp_all add: issue_def)

lemmas codec_defs = with_pdev_def T507CodecImplHwParams_def T507CodecImplTrigger_def renderRouteCtrl_def
  run_trigger_def T507CodecDaiTrigger_def T507CodecDaiHwParams_def

lemma writes_elsewhere: "r \<notin> fst ` set items \<Longrightarrow> reg_val r (map (\<lambda>(a, v). RegWrite a v) items) x = x"
  by (induction items arbitrary: x) auto

lemma update_shows_volume:
  "T507CodecImplUpdateRegBits reg v s = Some s' \<Longrightarrow> vol_shown x s'"
  by (auto simp: T507CodecImplUpdateRegBits_def with_pdev_def vol_shown_def Let_def codec_bits split: if_splits)

lemma set_shows_volume:
  assumes "T507CodecImplSetCtrlOps fw fwr (Some reg) True s = Some (rc, s')" "vol_shown x s \<or> rc = HDF_SUCCESS"
  shows "vol_shown x s'"
  using assms
  by (auto simp: T507CodecImplSetCtrlOps_def bind_eq_Some_conv err_defs split: if_splits
      dest: update_shows_volume)

lemma trigger_log:
  assumes "T507CodecDaiTrigger cmd s = Some (rc, s')"
  shows "\<exists>cs. codec_log s' = codec_log s @ cs \<and> g_KctrlRender s' = g_KctrlRender s \<and>
    g_codec_pdev s' = g_codec_pdev s \<and>
    (\<forall>x. field LINEOUT_VOL 5 (reg_val AC_DAC_REG cs x) = field LINEOUT_VOL 5 x)"
  using assms
  by (cases cmd) (auto simp: codec_defs codec_regs codec_bits split: if_splits)

text \<open>Hardware parameters touch three registers only.\<close>

definition fifo_only :: "klog \<Rightarrow> bool" where
  "fifo_only cs \<longleftrightarrow>
     (\<forall>r x. r \<notin> {SUNXI_DAC_FIFO_CTL, SUNXI_DAC_FIFO_STA, SUNXI_DAC_CNT} \<longrightarrow> reg_val r cs x = x)"

definition adds_fifo :: "codec \<Rightarrow> codec \<Rightarrow> bool" where
  "adds_fifo s s' \<longleftrightarrow> (\<exists>cs. s' = issue cs s \<and> fifo_only cs)"

lemma adds_fifo_refl: "adds_fifo s s"
  by (auto simp: adds_fifo_def fifo_only_def issue_def intro: exI [of _ "[]"])

lemma adds_fifo_issue:
  assumes "adds_fifo s s'" "fifo_only cs" shows "adds_fifo s (issue cs s')"
proof -
  obtain cs' where "s' = issue cs' s" "fifo_only cs'" using assms(1) by (auto simp: adds_fifo_def)
  with assms(2) have "issue cs s' = issue (cs' @ cs) s" "fifo_only (cs' @ cs)"
    by (simp_all add: issue_def fifo_only_def)
  then show ?thesis by (auto simp: adds_fifo_def)
qed

lemma fifo_only_parts:
  "fifo_only [ClkSetRate n v]" "fifo_only [set_field SUNXI_DAC_FIFO_CTL m lo v]" "fifo_only hw_clear"
  "hw_format f = Some cs \<Longrightarrow> fifo_only cs" "hw_channels c = Some cs \<Longrightarrow> fifo_only cs"
  by (auto simp: fifo_only_def hw_clear_def hw_format_def hw_channels_def split: AudioFormat.splits if_splits)

lemma hw_params_fifo:
  assumes "T507CodecImplHwParams k st f ch rate s = Some (rc, s')"
  shows "adds_fifo s s'"
proof -
  note rules = adds_fifo_refl adds_fifo_issue fifo_only_parts(1-3)
  have pd: "g_codec_pdev s" using assms by (auto simp: T507CodecImplHwParams_def with_pdev_def split: if_splits)
  show ?thesis
  proof (cases "st = AUDIO_CAPTURE_STREAM")
    case True
    then show ?thesis using assms pd by (simp add: T507CodecImplHwParams_def with_pdev_def adds_fifo_refl)
  next
    case False
    then show ?thesis
      using assms pd
      by (auto simp: T507CodecImplHwParams_def with_pdev_def Let_def bind_eq_Some_conv
          split: if_splits option.splits intro!: rules intro: fifo_only_parts(4,5))
  qed
qed

lemma step_shows_volume:
  assumes "vol_shown x s" "codec_step k op s = Some (rc, s')" "spares_volume op" shows "vol_shown x s'"
proof (cases op)
  case (SetCtrl fw fwr reg)
  then show ?thesis using assms set_shows_volume by auto
next
  case (HwParams st f ch rate)
  with assms(2) obtain rc' where "T507CodecImplHwParams k st f ch rate s = Some (rc', s')"
    by (auto simp: T507CodecDaiHwParams_def bind_eq_Some_conv)
  from hw_params_fifo [OF this] assms(1) show ?thesis
    by (auto simp: adds_fifo_def fifo_only_def vol_shown_def codec_regs)
next
  case (Trigger cmd)
  then show ?thesis using assms trigger_log [of cmd s rc s'] by (auto simp: vol_shown_def)
next
  case (ReadReg reg)
  then show ?thesis using assms by (auto simp: T507CodecDeviceReadReg_def T507CodecImplRegmapRead_def with_pdev_def vol_shown_def split: if_splits)
next
  case (WriteReg reg v)
  then show ?thesis using assms by (auto simp: T507CodecDeviceWriteReg_def T507CodecImplRegmapWrite_def with_pdev_def vol_shown_def split: if_splits)
next
  case (DeviceInit fw cfg)
  then show ?thesis
    using assms by (auto simp: T507CodecDeviceInit_def T507CodecImplRegDefaultInit_def with_pdev_def vol_shown_def writes_elsewhere
        split: if_splits option.splits)
qed

lemma run_shows_volume:
  "vol_shown x s \<Longrightarrow> codec_run k ops s = Some s' \<Longrightarrow> list_all spares_volume ops \<Longrightarrow> vol_shown x s'"
  by (induction ops arbitrary: s) (auto simp: bind_eq_Some_conv dest: step_shows_volume)

section \<open>Supporting lemmas\<close>

text \<open>The code of a sampling rate in the field \<open>DAC_FS\<close>.\<close>

definition rate_code :: "u32 \<Rightarrow> u32 option" where
  "rate_code rate = map_of g_sample_rate_conv rate"

lemma arr_get_rate:
  "arr_get es (rate_index es rate) = (case map_of es rate of None \<Rightarrow> None | Some b \<Rightarrow> Some (rate, b))"
proof (induction es)
  case (Cons e es)
  then show ?case by (cases e) (auto simp: arr_get_def split: if_splits option.splits)
qed (simp add: arr_get_def)

lemma missing_rates:
  "freq_point rate \<noteq> None \<and> rate_code rate = None \<longleftrightarrow> rate \<in> {64000, 88200, 176400}"
  by (auto simp: freq_point_def rate_code_def g_sample_rate_conv_def split: if_splits)

definition clocks_accept :: "kernel \<Rightarrow> u32 \<Rightarrow> klog \<Rightarrow> bool" where
  "clocks_accept k fp l \<longleftrightarrow> k_int k l (ClkSetRate CLK_PLLX4 (fp * 4)) = 0 \<and>
     k_int k (l @ [ClkSetRate CLK_PLLX4 (fp * 4)]) (ClkSetRate CLK_AUDIO (fp * 2)) = 0"

text \<open>The playback path is off: the bits \<open>renderRouteCtrl\<close> and the trigger set are clear.\<close>

definition route_bits :: "(u32 \<times> nat) list" where
  "route_bits = [(SUNXI_DAC_DPC, EN_DA), (AC_DAC_REG, DACLEN), (AC_DAC_REG, DACREN), (AC_DAC_REG, LINEOUTL_EN),
     (AC_DAC_REG, LINEOUTR_EN), (AC_RAMP_REG, RDEN), (SUNXI_DAC_FIFO_CTL, DAC_DRQ_EN)]"

definition trigger_calls :: "bool \<Rightarrow> klog" where
  "trigger_calls enable = codec_log (the (renderRouteCtrl enable \<lparr>g_codec_pdev = True,
       g_KctrlRender = g_KctrlRender_init, codec_log = []\<rparr>)) @
     [set_field SUNXI_DAC_FIFO_CTL 1 DAC_DRQ_EN (if enable then 1 else 0)]"

lemma trigger_issues:
  assumes "g_codec_pdev s"
  shows "T507CodecDaiTrigger RENDER_START s = Some (HDF_SUCCESS, issue (trigger_calls True) s)"
    "T507CodecDaiTrigger RENDER_STOP s = Some (HDF_SUCCESS, issue (trigger_calls False) s)"
  using assms by (simp_all add: codec_defs trigger_calls_def issue_def)

lemma trigger_bits:
  "bit (reg_val r (trigger_calls enable) x) n = (if (r, n) \<in> set route_bits then enable else bit x n)"
  by (cases enable)
    (auto simp: trigger_calls_def renderRouteCtrl_def with_pdev_def issue_def route_bits_def bit_put_1
      codec_regs codec_bits)

text \<open>All calls of a successful run, in order.\<close>

lemma hw_params_calls:
  assumes "g_codec_pdev s" "st \<noteq> AUDIO_CAPTURE_STREAM" "freq_point rate = Some fp"
    "clocks_accept k fp (codec_log s)" "hw_format f = Some fmt" "rate_code rate = Some b" "hw_channels ch = Some cc"
  shows "T507CodecImplHwParams k st f ch rate s = Some (HDF_SUCCESS, issue
    ([ClkSetRate CLK_PLLX4 (fp * 4), ClkSetRate CLK_AUDIO (fp * 2)] @ fmt @
     [set_field SUNXI_DAC_FIFO_CTL 7 DAC_FS b] @ cc @ hw_clear) s)"
  using assms
  by (simp add: T507CodecImplHwParams_def with_pdev_def Let_def arr_get_rate clocks_accept_def rate_code_def
      issue_def)

text \<open>A probed codec before any other call.\<close>

definition demo_codec :: codec where
  "demo_codec = \<lparr>g_codec_pdev = True, g_KctrlRender = g_KctrlRender_init, codec_log = []\<rparr>"

section \<open>Properties\<close>

text \<open>
  C16. From a successful use of a volume control on, whatever sequence of operations follows, control
  changes that fail among them, the line-out volume field of the codec holds 0 while the mute control
  is set and the low five bits of the volume control otherwise. The sequence may write registers by
  their number and initialise the device again, as long as neither writes the register of the volume
  itself: the controls do not notice such a write, until one of them is used again.
\<close>
theorem codec_volume_invariant:
  assumes "T507CodecImplSetCtrlOps fw fwr (Some reg) True s0 = Some (HDF_SUCCESS, s)"
    "codec_run k ops s = Some s'" "list_all spares_volume ops"
  shows "field LINEOUT_VOL 5 (reg_val AC_DAC_REG (codec_log s') x) =
    (if mute (g_KctrlRender s') \<noteq> 0 then 0 else take_bit 5 (vol (g_KctrlRender s')))"
  using run_shows_volume [OF set_shows_volume [OF assms(1)] assms(2,3), of x] by (simp add: vol_shown_def)

theorem codec_volume_invariant_witness:
  "\<exists>s s'. T507CodecImplSetCtrlOps (0, 10) (0, 0, False) (Some KCONTROL_RENDER_VOL) True demo_codec = Some (HDF_SUCCESS, s) \<and>
     codec_run yes_kernel [Trigger RENDER_START, HwParams AUDIO_RENDER_STREAM AUDIO_FORMAT_TYPE_PCM_16_BIT 2 48000, WriteReg SUNXI_DAC_CNT 0] s
       = Some s' \<and>
     field LINEOUT_VOL 5 (reg_val AC_DAC_REG (codec_log s') 0) = 10"
proof -
  define s where "s = snd (the (T507CodecImplSetCtrlOps (0, 10) (0, 0, False) (Some KCONTROL_RENDER_VOL) True demo_codec))"
  have set: "T507CodecImplSetCtrlOps (0, 10) (0, 0, False) (Some KCONTROL_RENDER_VOL) True demo_codec = Some (HDF_SUCCESS, s)"
    by (simp add: s_def T507CodecImplSetCtrlOps_def T507CodecImplUpdateRegBits_def with_pdev_def demo_codec_def
        Let_def err_defs)
  have s: "g_codec_pdev s" "mute (g_KctrlRender s) = 0" "vol (g_KctrlRender s) = 10"
    by (simp_all add: s_def T507CodecImplSetCtrlOps_def T507CodecImplUpdateRegBits_def with_pdev_def demo_codec_def
        g_KctrlRender_init_def Let_def err_defs)
  obtain s' where run: "codec_run yes_kernel [Trigger RENDER_START,
      HwParams AUDIO_RENDER_STREAM AUDIO_FORMAT_TYPE_PCM_16_BIT 2 48000, WriteReg SUNXI_DAC_CNT 0] s = Some s'"
    "g_KctrlRender s' = g_KctrlRender s"
    using s(1) hw_params_calls [of "issue (trigger_calls True) s" AUDIO_RENDER_STREAM 48000 24576000 yes_kernel
        AUDIO_FORMAT_TYPE_PCM_16_BIT _ 0 2]
    by (simp add: trigger_issues T507CodecDaiHwParams_def freq_point_def clocks_accept_def hw_format_def
        rate_code_def g_sample_rate_conv_def hw_channels_def T507CodecDeviceWriteReg_def T507CodecImplRegmapWrite_def with_pdev_def)
  have "list_all spares_volume [Trigger RENDER_START, HwParams AUDIO_RENDER_STREAM AUDIO_FORMAT_TYPE_PCM_16_BIT 2 48000,
      WriteReg SUNXI_DAC_CNT 0]" by (simp add: codec_regs)
  then show ?thesis
    using codec_volume_invariant [OF set run(1), of 0] set run s by auto
qed

text \<open>
  When the clocks accept their rates, playback parameters with a 16 or 24 bit format, one or two
  channels and a sampling rate of the table succeed, program both clocks, and put the rate code,
  FIFO mode, sample width and mono flag into their fields of the FIFO control register, whose other
  bits but the flush bit stay as they were.
\<close>
theorem codec_hw_params_fields:
  assumes "g_codec_pdev s" "freq_point rate = Some fp" "rate_code rate = Some b"
    "clocks_accept k fp (codec_log s)" "channels \<in> {1, 2}"
    "(format, mode, bits) \<in> {(AUDIO_FORMAT_TYPE_PCM_16_BIT, 3, 0), (AUDIO_FORMAT_TYPE_PCM_24_BIT, 0, 1)}"
  shows "\<exists>s' cs. T507CodecImplHwParams k AUDIO_RENDER_STREAM format channels rate s = Some (HDF_SUCCESS, s') \<and>
    codec_log s' = codec_log s @ ClkSetRate CLK_PLLX4 (fp * 4) # ClkSetRate CLK_AUDIO (fp * 2) # cs \<and>
    (let old = reg_val SUNXI_DAC_FIFO_CTL (codec_log s) x; new = reg_val SUNXI_DAC_FIFO_CTL (codec_log s') x
     in field DAC_FS 3 new = b \<and> field DAC_FIFO_MODE 2 new = mode \<and> field TX_SAMPLE_BITS 1 new = bits \<and>
        field DAC_MONO_EN 1 new = (if channels = 1 then 1 else 0) \<and>
        (\<forall>n. n \<notin> {0, 5, 6, 24, 25, 29, 30, 31} \<longrightarrow> bit new n = bit old n))"
proof -
  obtain fmt where fmt: "hw_format format = Some fmt" using assms(6) by (auto simp: hw_format_def)
  obtain cc where cc: "hw_channels channels = Some cc" using assms(5) by (auto simp: hw_channels_def)
  have b: "take_bit 3 b = b"
    using assms(3) by (auto simp: rate_code_def g_sample_rate_conv_def split: if_splits)
  note run = hw_params_calls [OF assms(1) _ assms(2,4) fmt assms(3) cc, of AUDIO_RENDER_STREAM, simplified]
  have frame: "bit (reg_val SUNXI_DAC_FIFO_CTL (fmt @ [set_field SUNXI_DAC_FIFO_CTL 7 DAC_FS b] @ cc @ hw_clear) y) n
      = bit y n" if "n \<notin> {0, 5, 6, 24, 25, 29, 30, 31}" for n y
  proof -
    have out: "outside 29 3 n" "outside 24 2 n" "outside 5 1 n" "outside 6 1 n" "outside 0 1 n"
      using that by (auto simp: outside_def)
    have "bit (reg_val SUNXI_DAC_FIFO_CTL fmt z) n = bit z n" for z
      using fmt out by (auto simp: hw_format_def codec_regs codec_bits bit_put_outsides split: AudioFormat.splits)
    moreover have "bit (reg_val SUNXI_DAC_FIFO_CTL cc z) n = bit z n" for z
      using cc out by (auto simp: hw_channels_def codec_regs codec_bits bit_put_outsides split: if_splits)
    ultimately show ?thesis
      using out by (simp add: hw_clear_def codec_regs codec_bits bit_put_outsides)
  qed
  show ?thesis
    unfolding run Let_def
    using assms(5,6) fmt cc b frame
    by (auto simp: hw_format_def hw_channels_def hw_clear_def codec_regs codec_bits)
qed

theorem codec_hw_params_fields_witness:
  "\<exists>s'. T507CodecImplHwParams yes_kernel AUDIO_RENDER_STREAM AUDIO_FORMAT_TYPE_PCM_24_BIT 1 8000 demo_codec =
      Some (HDF_SUCCESS, s') \<and>
    field DAC_FS 3 (reg_val SUNXI_DAC_FIFO_CTL (codec_log s') 0) = 5 \<and>
    field DAC_MONO_EN 1 (reg_val SUNXI_DAC_FIFO_CTL (codec_log s') 0) = 1"
  using codec_hw_params_fields [of demo_codec 8000 24576000 5 yes_kernel 1 AUDIO_FORMAT_TYPE_PCM_24_BIT 0 1 0]
  by (auto simp: demo_codec_def freq_point_def rate_code_def g_sample_rate_conv_def clocks_accept_def Let_def)

text \<open>
  \<open>T507CodecImplHwParams\<close> on a probed codec faults exactly for the playback rates 64000, 88200 and
  176400 with an accepted format and accepting clocks: the clock switch lists these rates but the
  rate table does not, and the entry one past its end is read.
\<close>
theorem codec_rate_overrun_iff:
  assumes "g_codec_pdev s"
  shows "T507CodecImplHwParams k st format channels rate s = None \<longleftrightarrow>
    st \<noteq> AUDIO_CAPTURE_STREAM \<and> rate \<in> {64000, 88200, 176400} \<and> hw_format format \<noteq> None \<and>
    clocks_accept k (the (freq_point rate)) (codec_log s)"
proof (cases "freq_point rate")
  case None
  then show ?thesis
    using assms missing_rates [of rate] by (auto simp: T507CodecImplHwParams_def with_pdev_def)
next
  case (Some fp)
  then have "rate_code rate = None \<longleftrightarrow> rate \<in> {64000, 88200, 176400}"
    using missing_rates [of rate] by auto
  then show ?thesis
    using assms Some
    by (auto simp: T507CodecImplHwParams_def with_pdev_def Let_def arr_get_rate rate_code_def
        clocks_accept_def split: option.splits)
qed

theorem codec_rate_overrun_iff_witness:
  "T507CodecImplHwParams yes_kernel AUDIO_RENDER_STREAM AUDIO_FORMAT_TYPE_PCM_16_BIT 2 88200 demo_codec = None"
  using codec_rate_overrun_iff [of demo_codec yes_kernel AUDIO_RENDER_STREAM AUDIO_FORMAT_TYPE_PCM_16_BIT 2 88200]
  by (simp add: demo_codec_def hw_format_def clocks_accept_def)

text \<open>
  Starting playback sets exactly the bits of the playback path and stopping it clears exactly them:
  when the path was off before, a start followed by a stop leaves the contents of every register as
  they were.
\<close>
theorem codec_start_stop_restores:
  assumes "g_codec_pdev s" "\<forall>(r, n) \<in> set route_bits. \<not> bit (reg_val r (codec_log s) (x r)) n"
  shows "\<exists>s1 s2. T507CodecDaiTrigger RENDER_START s = Some (HDF_SUCCESS, s1) \<and>
    T507CodecDaiTrigger RENDER_STOP s1 = Some (HDF_SUCCESS, s2) \<and>
    (\<forall>r n. bit (reg_val r (codec_log s1) (x r)) n \<longleftrightarrow>
       (r, n) \<in> set route_bits \<or> bit (reg_val r (codec_log s) (x r)) n) \<and>
    (\<forall>r. reg_val r (codec_log s2) (x r) = reg_val r (codec_log s) (x r))"
proof -
  let ?s1 = "issue (trigger_calls True) s"
  have "reg_val r (trigger_calls False) (reg_val r (trigger_calls True) (reg_val r (codec_log s) (x r))) =
      reg_val r (codec_log s) (x r)" for r
    using assms(2) by (intro bit_eqI) (auto simp: trigger_bits)
  then show ?thesis
    using trigger_issues [OF assms(1)] trigger_issues [of ?s1] assms(1) by (auto simp: trigger_bits)
qed

theorem codec_start_stop_restores_witness:
  "\<exists>s1 s2. T507CodecDaiTrigger RENDER_START demo_codec = Some (HDF_SUCCESS, s1) \<and>
    T507CodecDaiTrigger RENDER_STOP s1 = Some (HDF_SUCCESS, s2) \<and>
    bit (reg_val AC_DAC_REG (codec_log s1) 0) DACLEN \<and> (\<forall>r. reg_val r (codec_log s2) 0 = 0)"
proof -
  have "(AC_DAC_REG, DACLEN) \<in> set route_bits" by (simp add: route_bits_def)
  moreover have "\<forall>(r, n) \<in> set route_bits. \<not> bit (reg_val r (codec_log demo_codec) ((\<lambda>_. 0) r)) n"
    by (simp add: demo_codec_def split_def)
  from codec_start_stop_restores [OF _ this]
  obtain s1 s2 where "T507CodecDaiTrigger RENDER_START demo_codec = Some (HDF_SUCCESS, s1)"
    "T507CodecDaiTrigger RENDER_STOP s1 = Some (HDF_SUCCESS, s2)"
    "\<forall>r n. bit (reg_val r (codec_log s1) 0) n \<longleftrightarrow> (r, n) \<in> set route_bits \<or> bit (reg_val r (codec_log demo_codec) 0) n"
    "\<forall>r. reg_val r (codec_log s2) 0 = reg_val r (codec_log demo_codec) 0"
    by (auto simp: demo_codec_def)
  ultimately show ?thesis by (auto simp: demo_codec_def)
qed

text \<open>
  \<open>snd_sunxi_codec_clk_enable\<close> reports success whenever the reset line could be released. When one of
  the four clocks does not start it switches everything off again and still returns 0, so the caller
  goes on with a codec that is in reset and has no clock.
\<close>
theorem codec_clk_enable_result:
  assumes "snd_sunxi_codec_clk_enable k l = (rc, l')"
  shows "(rc = 0 \<longleftrightarrow> k_int k l ResetDeassert = 0) \<and>
    (held k l' RReset = held k l RReset \<longrightarrow> (\<forall>r. held k l' r = held k l r)) \<and>
    (k_int k l ResetDeassert = 0 \<longrightarrow> k_int k (l @ [ResetDeassert]) (ClkEnable CLK_BUS) \<noteq> 0 \<longrightarrow>
       rc = 0 \<and> l' = l @ [ResetDeassert, ClkEnable CLK_BUS, ResetAssert] \<and> (\<forall>r. held k l' r = held k l r))"
proof (intro conjI impI)
  show "rc = 0 \<longleftrightarrow> k_int k l ResetDeassert = 0"
    using assms by (auto simp: snd_sunxi_codec_clk_enable_def ask_defs err_defs Let_def split: if_splits)
next
  assume "held k l' RReset = held k l RReset"
  then show "\<forall>r. held k l' r = held k l r"
    using assms by (auto simp: snd_sunxi_codec_clk_enable_def ask_defs err_defs Let_def split: if_splits)
qed (use assms in \<open>auto simp: snd_sunxi_codec_clk_enable_def ask_defs err_defs Let_def split: if_splits\<close>)

theorem codec_clk_enable_result_witness:
  "snd_sunxi_codec_clk_enable (yes_kernel\<lparr>k_int := (\<lambda>l c. if c = ClkEnable CLK_BUS then -1 else 0)\<rparr>) [] =
     (0, [ResetDeassert, ClkEnable CLK_BUS, ResetAssert])"
proof -
  let ?k = "yes_kernel\<lparr>k_int := (\<lambda>l c. if c = ClkEnable CLK_BUS then -1 else 0)\<rparr>"
  obtain rc l where run: "snd_sunxi_codec_clk_enable ?k [] = (rc, l)" by (cases "snd_sunxi_codec_clk_enable ?k []")
  show ?thesis using codec_clk_enable_result [OF run] run by simp
qed

text \<open>What the clocks of the codec are taken for: to be had, and to run.\<close>

definition codec_get_takes :: "resource \<Rightarrow> int" where
  "codec_get_takes r = (if r \<in> {RClock CLK_BUS, RClock CLK_PLL, RClock CLK_PLLX4, RClock CLK_AUDIO} then 1 else 0)"

definition codec_run_takes :: "resource \<Rightarrow> int" where
  "codec_run_takes r = (if r \<in> {RReset, RClockOn CLK_BUS, RClockOn CLK_PLL, RClockOn CLK_PLLX4, RClockOn CLK_AUDIO} then 1 else 0)"

lemma codec_clk_split: "codec_clk_takes i r = codec_get_takes r + codec_run_takes r"
  by (simp add: codec_clk_takes_def codec_get_takes_def codec_run_takes_def)

lemma codec_clk_enable_outcome:
  assumes "snd_sunxi_codec_clk_enable k l = (rc, l')"
  obtains (failed) "rc \<noteq> 0" "\<And>r. held k l' r = held k l r"
  | (on) "rc = 0" "\<And>r. held k l' r = held k l r + codec_run_takes r"
  | (off) "rc = 0" "\<And>r. held k l' r = held k l r" "\<exists>m n. k_int k m (ClkEnable n) \<noteq> 0"
proof -
  let ?off = "rc = 0 \<and> (\<forall>r. held k l' r = held k l r) \<and> (\<exists>m n. k_int k m (ClkEnable n) \<noteq> 0)"
  have "rc \<noteq> 0 \<and> (\<forall>r. held k l' r = held k l r) \<or> rc = 0 \<and> (\<forall>r. held k l' r = held k l r + codec_run_takes r) \<or> ?off"
    using assms by (auto simp: snd_sunxi_codec_clk_enable_def codec_run_takes_def ask_defs err_defs Let_def split: if_splits)
  then show thesis using that by blast
qed

text \<open>The requests that come before the clocks are started, and whether all of them are granted.\<close>

definition clk_requests :: klog where
  "clk_requests = [ResetGet, ClkGet CLK_BUS, ClkGet CLK_PLL, ClkGet CLK_PLLX4, ClkGet CLK_AUDIO, ClkSetParent CLK_AUDIO CLK_PLLX4]"

definition clk_granted :: "kernel \<Rightarrow> klog \<Rightarrow> bool" where
  "clk_granted k l \<longleftrightarrow> (\<forall>i < 5. k_ptr k (l @ take i clk_requests) (clk_requests ! i) = PVALID) \<and>
     k_int k (l @ take 5 clk_requests) (clk_requests ! 5) = 0"

lemma clk_granted_steps: "clk_granted k l \<longleftrightarrow>
    k_ptr k l ResetGet = PVALID \<and> k_ptr k (l @ [ResetGet]) (ClkGet CLK_BUS) = PVALID \<and>
    k_ptr k (l @ [ResetGet, ClkGet CLK_BUS]) (ClkGet CLK_PLL) = PVALID \<and>
    k_ptr k (l @ [ResetGet, ClkGet CLK_BUS, ClkGet CLK_PLL]) (ClkGet CLK_PLLX4) = PVALID \<and>
    k_ptr k (l @ [ResetGet, ClkGet CLK_BUS, ClkGet CLK_PLL, ClkGet CLK_PLLX4]) (ClkGet CLK_AUDIO) = PVALID \<and>
    k_int k (l @ [ResetGet, ClkGet CLK_BUS, ClkGet CLK_PLL, ClkGet CLK_PLLX4, ClkGet CLK_AUDIO]) (ClkSetParent CLK_AUDIO CLK_PLLX4) = 0"
  by (simp add: clk_granted_def clk_requests_def numeral_eq_Suc All_less_Suc) blast

lemma clk_init_refused:
  assumes "handles_valid k" "snd_sunxi_codec_clk_init k l = (rc, (), l')" "\<not> clk_granted k l"
  shows "rc \<noteq> 0" "held k l' r = held k l r"
  using assms(2,3)
  by (auto simp: snd_sunxi_codec_clk_init_def clk_granted_steps ask_defs IS_ERR_OR_NULL_def err_defs Let_def
      valid_err_nonzero [OF assms(1)] split: if_splits prod.splits)

lemma clk_init_granted:
  assumes "clk_granted k l"
  shows "snd_sunxi_codec_clk_init k l = (let (ret, l1) = snd_sunxi_codec_clk_enable k (l @ clk_requests) in
      if ret \<noteq> 0 then (- EINVAL, (), l1 @ [ClkPut CLK_AUDIO, ClkPut CLK_PLLX4, ClkPut CLK_PLL, ClkPut CLK_BUS]) else (0, (), l1))"
    "held k (l @ clk_requests) r = held k l r + codec_get_takes r"
  using assms
  by (simp_all add: snd_sunxi_codec_clk_init_def clk_granted_steps clk_requests_def codec_get_takes_def ask_defs IS_ERR_OR_NULL_def Let_def)

lemma codec_clk_init_outcome:
  assumes "handles_valid k" "snd_sunxi_codec_clk_init k l = (rc, (), l')"
  obtains (failed) "rc \<noteq> 0" "\<And>r. held k l' r = held k l r"
  | (on) "rc = 0" "\<And>r. held k l' r = held k l r + codec_clk_takes () r"
  | (off) "rc = 0" "\<And>r. held k l' r = held k l r + codec_get_takes r" "\<exists>m n. k_int k m (ClkEnable n) \<noteq> 0"
proof (cases "clk_granted k l")
  case False
  then show thesis using clk_init_refused [OF assms False] that(1) by blast
next
  case True
  obtain ret l1 where e: "snd_sunxi_codec_clk_enable k (l @ clk_requests) = (ret, l1)" by fastforce
  note r = clk_init_granted [OF True, unfolded e]
  show thesis using e
  proof (cases rule: codec_clk_enable_outcome)
    case failed
    then have "held k l' r' = held k l r'" for r' using r assms(2) by (auto simp: codec_get_takes_def)
    then show thesis using failed r(1) assms(2) that(1) by (auto simp: err_defs)
  next
    case on
    then show thesis using r assms(2) that(2) by (auto simp: codec_clk_split)
  next
    case off
    then show thesis using r assms(2) that(3) by auto
  qed
qed



end
