(* ===== verification/T507_Ahub.thy ===== *)
theory T507_Ahub
  imports Audio_Base
begin

text \<open>
  The audio hub driver of the zhiyuan board (\<open>t507_dai_ahub_impl_linux.c\<close> and
  \<open>t507_dai_ahub_ops.c\<close>), the digital audio interface used for recording: probing and removing the
  device, the device-tree parameters, the initial routing, clocks, formats and the trigger. Register
  accesses are calls of the log, as in the codec driver.

  Shown: the parameters read from the device tree are always in range, so that no register
  address or shift leaves its range; the only fault is that of clock rates set through handles the
  probe gave back when the bus clock did not start; for every accepted sampling rate the dividers give exactly the
  master and bit clocks the code asks for; the stages of the probe function take everything or
  nothing, but for the bus clock, whose failure is reported as success.
\<close>

section \<open>Registers\<close>

definition SUNXI_AHUB_RST :: u32 where "SUNXI_AHUB_RST = 0x08"
definition SUNXI_AHUB_GAT :: u32 where "SUNXI_AHUB_GAT = 0x0c"
definition SUNXI_AHUB_APBIF_TX_CTL :: "u32 \<Rightarrow> u32" where "SUNXI_AHUB_APBIF_TX_CTL n = 0x10 + n * 0x30"
definition SUNXI_AHUB_APBIF_TX_IRQ_STA :: "u32 \<Rightarrow> u32" where "SUNXI_AHUB_APBIF_TX_IRQ_STA n = 0x18 + n * 0x30"
definition SUNXI_AHUB_APBIF_TXFIFO_CTL :: "u32 \<Rightarrow> u32" where "SUNXI_AHUB_APBIF_TXFIFO_CTL n = 0x20 + n * 0x30"
definition SUNXI_AHUB_APBIF_TXFIFO_CNT :: "u32 \<Rightarrow> u32" where "SUNXI_AHUB_APBIF_TXFIFO_CNT n = 0x34 + n * 0x30"
definition SUNXI_AHUB_APBIF_RX_CTL :: "u32 \<Rightarrow> u32" where "SUNXI_AHUB_APBIF_RX_CTL n = 0x100 + n * 0x30"
definition SUNXI_AHUB_APBIF_RX_IRQ_CTL :: "u32 \<Rightarrow> u32" where "SUNXI_AHUB_APBIF_RX_IRQ_CTL n = 0x104 + n * 0x30"
definition SUNXI_AHUB_APBIF_RX_IRQ_STA :: "u32 \<Rightarrow> u32" where "SUNXI_AHUB_APBIF_RX_IRQ_STA n = 0x108 + n * 0x30"
definition SUNXI_AHUB_APBIF_RXFIFO_CTL :: "u32 \<Rightarrow> u32" where "SUNXI_AHUB_APBIF_RXFIFO_CTL n = 0x110 + n * 0x30"
definition SUNXI_AHUB_APBIF_RXFIFO_CONT :: "u32 \<Rightarrow> u32" where "SUNXI_AHUB_APBIF_RXFIFO_CONT n = 0x118 + n * 0x30"
definition SUNXI_AHUB_APBIF_RXFIFO_CNT :: "u32 \<Rightarrow> u32" where "SUNXI_AHUB_APBIF_RXFIFO_CNT n = 0x124 + n * 0x30"
definition SUNXI_AHUB_I2S_CTL :: "u32 \<Rightarrow> u32" where "SUNXI_AHUB_I2S_CTL n = 0x200 + push_bit 8 n"
definition SUNXI_AHUB_I2S_FMT0 :: "u32 \<Rightarrow> u32" where "SUNXI_AHUB_I2S_FMT0 n = 0x204 + push_bit 8 n"
definition SUNXI_AHUB_I2S_FMT1 :: "u32 \<Rightarrow> u32" where "SUNXI_AHUB_I2S_FMT1 n = 0x208 + push_bit 8 n"
definition SUNXI_AHUB_I2S_CLKD :: "u32 \<Rightarrow> u32" where "SUNXI_AHUB_I2S_CLKD n = 0x20c + push_bit 8 n"
definition SUNXI_AHUB_I2S_RXCONT :: "u32 \<Rightarrow> u32" where "SUNXI_AHUB_I2S_RXCONT n = 0x220 + push_bit 8 n"
definition SUNXI_AHUB_I2S_CHCFG :: "u32 \<Rightarrow> u32" where "SUNXI_AHUB_I2S_CHCFG n = 0x224 + push_bit 8 n"
definition SUNXI_AHUB_I2S_OUT_SLOT :: "u32 \<Rightarrow> u32 \<Rightarrow> u32" where
  "SUNXI_AHUB_I2S_OUT_SLOT n m = 0x230 + push_bit 8 n + push_bit 4 m"
definition SUNXI_AHUB_I2S_OUT_CHMAP0 :: "u32 \<Rightarrow> u32 \<Rightarrow> u32" where
  "SUNXI_AHUB_I2S_OUT_CHMAP0 n m = 0x234 + push_bit 8 n + push_bit 4 m"
definition SUNXI_AHUB_I2S_OUT_CHMAP1 :: "u32 \<Rightarrow> u32 \<Rightarrow> u32" where
  "SUNXI_AHUB_I2S_OUT_CHMAP1 n m = 0x238 + push_bit 8 n + push_bit 4 m"
definition SUNXI_AHUB_I2S_IN_SLOT :: "u32 \<Rightarrow> u32" where "SUNXI_AHUB_I2S_IN_SLOT n = 0x270 + push_bit 8 n"
definition SUNXI_AHUB_I2S_IN_CHMAP0 :: "u32 \<Rightarrow> u32" where "SUNXI_AHUB_I2S_IN_CHMAP0 n = 0x274 + push_bit 8 n"
definition SUNXI_AHUB_I2S_IN_CHMAP1 :: "u32 \<Rightarrow> u32" where "SUNXI_AHUB_I2S_IN_CHMAP1 n = 0x278 + push_bit 8 n"
definition SUNXI_AHUB_I2S_IN_CHMAP2 :: "u32 \<Rightarrow> u32" where "SUNXI_AHUB_I2S_IN_CHMAP2 n = 0x27c + push_bit 8 n"
definition SUNXI_AHUB_I2S_IN_CHMAP3 :: "u32 \<Rightarrow> u32" where "SUNXI_AHUB_I2S_IN_CHMAP3 n = 0x280 + push_bit 8 n"
definition SUNXI_AHUB_MAX_REG :: u32 where "SUNXI_AHUB_MAX_REG = 0xa6c + push_bit 7 1"

lemmas ahub_regs = SUNXI_AHUB_RST_def SUNXI_AHUB_GAT_def SUNXI_AHUB_APBIF_TX_CTL_def
  SUNXI_AHUB_APBIF_TX_IRQ_STA_def SUNXI_AHUB_APBIF_TXFIFO_CTL_def SUNXI_AHUB_APBIF_TXFIFO_CNT_def
  SUNXI_AHUB_APBIF_RX_CTL_def SUNXI_AHUB_APBIF_RX_IRQ_CTL_def SUNXI_AHUB_APBIF_RX_IRQ_STA_def
  SUNXI_AHUB_APBIF_RXFIFO_CTL_def SUNXI_AHUB_APBIF_RXFIFO_CONT_def SUNXI_AHUB_APBIF_RXFIFO_CNT_def
  SUNXI_AHUB_I2S_CTL_def SUNXI_AHUB_I2S_FMT0_def SUNXI_AHUB_I2S_FMT1_def SUNXI_AHUB_I2S_CLKD_def
  SUNXI_AHUB_I2S_RXCONT_def SUNXI_AHUB_I2S_CHCFG_def SUNXI_AHUB_I2S_OUT_SLOT_def
  SUNXI_AHUB_I2S_OUT_CHMAP0_def SUNXI_AHUB_I2S_OUT_CHMAP1_def SUNXI_AHUB_I2S_IN_SLOT_def
  SUNXI_AHUB_I2S_IN_CHMAP0_def SUNXI_AHUB_I2S_IN_CHMAP1_def SUNXI_AHUB_I2S_IN_CHMAP2_def
  SUNXI_AHUB_I2S_IN_CHMAP3_def SUNXI_AHUB_MAX_REG_def

definition I2S_CTL_GEN :: nat where "I2S_CTL_GEN = 0"
definition I2S_CTL_RXEN :: nat where "I2S_CTL_RXEN = 1"
definition I2S_CTL_MODE :: nat where "I2S_CTL_MODE = 4"
definition I2S_CTL_SDI0_EN :: nat where "I2S_CTL_SDI0_EN = 12"
definition I2S_CTL_CLK_OUT :: nat where "I2S_CTL_CLK_OUT = 18"
definition I2S0_RST :: nat where "I2S0_RST = 23"
definition I2S0_GAT :: nat where "I2S0_GAT = 23"
definition APBIF_TXDIF0_RST :: nat where "APBIF_TXDIF0_RST = 31"
definition APBIF_TXDIF0_GAT :: nat where "APBIF_TXDIF0_GAT = 31"
definition APBIF_RXDIF0_RST :: nat where "APBIF_RXDIF0_RST = 27"
definition APBIF_RXDIF0_GAT :: nat where "APBIF_RXDIF0_GAT = 27"
definition APBIF_TX_WS :: nat where "APBIF_TX_WS = 16"
definition APBIF_TX_CHAN_NUM :: nat where "APBIF_TX_CHAN_NUM = 8"
definition APBIF_TX_FTX :: nat where "APBIF_TX_FTX = 12"
definition APBIF_TX_LEVEL :: nat where "APBIF_TX_LEVEL = 4"
definition APBIF_TX_TXIM :: nat where "APBIF_TX_TXIM = 0"
definition APBIF_TX_OV_PEND :: nat where "APBIF_TX_OV_PEND = 2"
definition APBIF_TX_EM_PEND :: nat where "APBIF_TX_EM_PEND = 0"
definition APBIF_RX_WS :: nat where "APBIF_RX_WS = 16"
definition APBIF_RX_CHAN_NUM :: nat where "APBIF_RX_CHAN_NUM = 8"
definition APBIF_RX_START :: nat where "APBIF_RX_START = 4"
definition APBIF_RX_DRQ :: nat where "APBIF_RX_DRQ = 3"
definition APBIF_RX_FRX :: nat where "APBIF_RX_FRX = 12"
definition APBIF_RX_LEVEL :: nat where "APBIF_RX_LEVEL = 4"
definition APBIF_RX_RXOM :: nat where "APBIF_RX_RXOM = 0"
definition APBIF_RX_UV_PEND :: nat where "APBIF_RX_UV_PEND = 2"
definition APBIF_RX_AV_PEND :: nat where "APBIF_RX_AV_PEND = 0"
definition APBIF_RX_I2S0_TXDIF :: nat where "APBIF_RX_I2S0_TXDIF = 27"
definition APBIF_RX_I2S1_TXDIF :: nat where "APBIF_RX_I2S1_TXDIF = 26"
definition APBIF_RX_I2S2_TXDIF :: nat where "APBIF_RX_I2S2_TXDIF = 25"
definition APBIF_RX_I2S3_TXDIF :: nat where "APBIF_RX_I2S3_TXDIF = 23"
definition I2S_RX_APBIF_TXDIF0 :: nat where "I2S_RX_APBIF_TXDIF0 = 31"
definition I2S_RX_APBIF_TXDIF1 :: nat where "I2S_RX_APBIF_TXDIF1 = 30"
definition I2S_RX_APBIF_TXDIF2 :: nat where "I2S_RX_APBIF_TXDIF2 = 29"
definition I2S_CLKD_MCLK :: nat where "I2S_CLKD_MCLK = 8"
definition I2S_CLKD_BCLKDIV :: nat where "I2S_CLKD_BCLKDIV = 4"
definition I2S_CLKD_MCLKDIV :: nat where "I2S_CLKD_MCLKDIV = 0"
definition I2S_FMT0_LRCK_WIDTH :: nat where "I2S_FMT0_LRCK_WIDTH = 30"
definition I2S_FMT0_LRCK_POLARITY :: nat where "I2S_FMT0_LRCK_POLARITY = 19"
definition I2S_FMT0_LRCK_PERIOD :: nat where "I2S_FMT0_LRCK_PERIOD = 8"
definition I2S_FMT0_BCLK_POLARITY :: nat where "I2S_FMT0_BCLK_POLARITY = 7"
definition I2S_FMT0_SR :: nat where "I2S_FMT0_SR = 4"
definition I2S_FMT0_SW :: nat where "I2S_FMT0_SW = 0"
definition I2S_CHCFG_RX_CHANNUM :: nat where "I2S_CHCFG_RX_CHANNUM = 4"
definition I2S_CHCFG_TX_CHANNUM :: nat where "I2S_CHCFG_TX_CHANNUM = 0"
definition I2S_OUT_OFFSET :: nat where "I2S_OUT_OFFSET = 20"
definition I2S_OUT_SLOT_NUM :: nat where "I2S_OUT_SLOT_NUM = 16"
definition I2S_OUT_SLOT_EN :: nat where "I2S_OUT_SLOT_EN = 0"
definition I2S_IN_OFFSET :: nat where "I2S_IN_OFFSET = 20"
definition I2S_IN_SLOT_NUM :: nat where "I2S_IN_SLOT_NUM = 16"

lemmas ahub_bits = I2S_CTL_GEN_def I2S_CTL_RXEN_def I2S_CTL_MODE_def I2S_CTL_SDI0_EN_def I2S_CTL_CLK_OUT_def
  I2S0_RST_def I2S0_GAT_def APBIF_TXDIF0_RST_def APBIF_TXDIF0_GAT_def APBIF_RXDIF0_RST_def APBIF_RXDIF0_GAT_def
  APBIF_TX_WS_def APBIF_TX_CHAN_NUM_def APBIF_TX_FTX_def APBIF_TX_LEVEL_def APBIF_TX_TXIM_def
  APBIF_TX_OV_PEND_def APBIF_TX_EM_PEND_def APBIF_RX_WS_def APBIF_RX_CHAN_NUM_def APBIF_RX_START_def
  APBIF_RX_DRQ_def APBIF_RX_FRX_def APBIF_RX_LEVEL_def APBIF_RX_RXOM_def APBIF_RX_UV_PEND_def
  APBIF_RX_AV_PEND_def APBIF_RX_I2S0_TXDIF_def APBIF_RX_I2S1_TXDIF_def APBIF_RX_I2S2_TXDIF_def
  APBIF_RX_I2S3_TXDIF_def I2S_RX_APBIF_TXDIF0_def I2S_RX_APBIF_TXDIF1_def I2S_RX_APBIF_TXDIF2_def
  I2S_CLKD_MCLK_def I2S_CLKD_BCLKDIV_def I2S_CLKD_MCLKDIV_def I2S_FMT0_LRCK_WIDTH_def
  I2S_FMT0_LRCK_POLARITY_def I2S_FMT0_LRCK_PERIOD_def I2S_FMT0_BCLK_POLARITY_def I2S_FMT0_SR_def
  I2S_FMT0_SW_def I2S_CHCFG_RX_CHANNUM_def I2S_CHCFG_TX_CHANNUM_def I2S_OUT_OFFSET_def
  I2S_OUT_SLOT_NUM_def I2S_OUT_SLOT_EN_def I2S_IN_OFFSET_def I2S_IN_SLOT_NUM_def

section \<open>State\<close>

record ahub_dts =
  apb_num :: u32
  tdm_num :: u32
  tx_pin :: u32
  rx_pin :: u32

text \<open>\<open>g_ahub_pdev\<close> is set once the device has been probed, \<open>drvdata\<close> once it has a driver record;
  \<open>dts_info\<close> and the frequencies are fields of that record.\<close>

record ahub =
  g_ahub_pdev :: bool
  drvdata :: bool
  dts_info :: ahub_dts
  ah_fmt :: u32
  pllclk_freq :: u32
  moduleclk_freq :: u32
  mclk_freq :: u32
  ahub_log :: klog

definition ahub_issue :: "kcall list \<Rightarrow> ahub \<Rightarrow> ahub" where
  "ahub_issue cs s = s\<lparr>ahub_log := ahub_log s @ cs\<rparr>"

text \<open>\<open>dev_get_drvdata(&g_ahub_pdev->dev)\<close> faults before the device is known; using the record
  faults when there is none.\<close>

definition ahub_pdev :: "(ahub \<Rightarrow> 'a option) \<Rightarrow> ahub \<Rightarrow> 'a option" where
  "ahub_pdev f s = (if g_ahub_pdev s then f s else None)"

definition ahub_info :: "(ahub \<Rightarrow> 'a option) \<Rightarrow> ahub \<Rightarrow> 'a option" where
  "ahub_info f s = (if g_ahub_pdev s \<and> drvdata s then f s else None)"

section \<open>Initial routing\<close>

text \<open>The bit number \<open>n - m\<close>, computed in \<open>uint32_t\<close>; shifting by 32 or more is undefined.\<close>

definition shift_down :: "nat \<Rightarrow> u32 \<Rightarrow> nat option" where
  "shift_down n m = (let d = of_nat n - m in if d < 32 then Some (unat d) else None)"

definition shift_up :: "nat \<Rightarrow> u32 \<Rightarrow> nat option" where
  "shift_up n m = (let d = of_nat n + m in if d < 32 then Some (unat d) else None)"

definition rx_pin_map :: "u32 \<Rightarrow> u32" where
  "rx_pin_map p = push_bit 4 p OR push_bit 12 p OR push_bit 20 p OR push_bit 28 p"

definition tdm_to_apb :: "u32 \<Rightarrow> nat option" where
  "tdm_to_apb n = (if n = 0 then Some APBIF_RX_I2S0_TXDIF else if n = 1 then Some APBIF_RX_I2S1_TXDIF
     else if n = 2 then Some APBIF_RX_I2S2_TXDIF else if n = 3 then Some APBIF_RX_I2S3_TXDIF else None)"

definition apb_to_tdm :: "u32 \<Rightarrow> nat option" where
  "apb_to_tdm n = (if n = 0 then Some I2S_RX_APBIF_TXDIF0 else if n = 1 then Some I2S_RX_APBIF_TXDIF1
     else if n = 2 then Some I2S_RX_APBIF_TXDIF2 else None)"

definition route_calls :: "ahub_dts \<Rightarrow> kcall list" where
  "route_calls d = (
     let apb = apb_num d; tdm = tdm_num d in
     [RegWrite (SUNXI_AHUB_I2S_OUT_CHMAP0 tdm (tx_pin d)) 0x76543210,
      RegWrite (SUNXI_AHUB_I2S_OUT_CHMAP1 tdm (tx_pin d)) 0xFEDCBA98,
      RegWrite (SUNXI_AHUB_I2S_IN_CHMAP0 tdm) (0x03020100 OR rx_pin_map (rx_pin d)),
      RegWrite (SUNXI_AHUB_I2S_IN_CHMAP1 tdm) (0x07060504 OR rx_pin_map (rx_pin d)),
      RegWrite (SUNXI_AHUB_I2S_IN_CHMAP2 tdm) (0x0B0A0908 OR rx_pin_map (rx_pin d)),
      RegWrite (SUNXI_AHUB_I2S_IN_CHMAP3 tdm) (0x0F0E0D0C OR rx_pin_map (rx_pin d)),
      RegWrite (SUNXI_AHUB_I2S_FMT1 tdm) 0x30,
      set_field (SUNXI_AHUB_APBIF_TXFIFO_CTL apb) 1 APBIF_TX_TXIM 0,
      set_field (SUNXI_AHUB_APBIF_TXFIFO_CTL apb) 0x3f APBIF_TX_LEVEL 0x20,
      set_field (SUNXI_AHUB_APBIF_RXFIFO_CTL apb) 3 APBIF_RX_RXOM 0,
      set_field (SUNXI_AHUB_APBIF_RXFIFO_CTL apb) 0x7f APBIF_RX_LEVEL 0x40] @
     (case tdm_to_apb tdm of None \<Rightarrow> []
      | Some t \<Rightarrow> RegWrite (SUNXI_AHUB_APBIF_RXFIFO_CONT apb) (push_bit t 1) #
          (case apb_to_tdm apb of None \<Rightarrow> []
           | Some a \<Rightarrow> [RegWrite (SUNXI_AHUB_I2S_RXCONT tdm) (push_bit a 1)])))"

definition T507AhubImplDeviceInit :: "ahub \<Rightarrow> ahub option" where
  "T507AhubImplDeviceInit = ahub_info (\<lambda>s. do {
     let apb = apb_num (dts_info s);
     let tdm = tdm_num (dts_info s);
     i2s_rst \<leftarrow> shift_down I2S0_RST tdm;
     i2s_gat \<leftarrow> shift_down I2S0_GAT tdm;
     tx_rst \<leftarrow> shift_down APBIF_TXDIF0_RST apb;
     tx_gat \<leftarrow> shift_down APBIF_TXDIF0_GAT apb;
     rx_rst \<leftarrow> shift_down APBIF_RXDIF0_RST apb;
     rx_gat \<leftarrow> shift_down APBIF_RXDIF0_GAT apb;
     Some (ahub_issue (
       [set_field (SUNXI_AHUB_I2S_CTL tdm) 1 I2S_CTL_GEN 1,
        set_field SUNXI_AHUB_RST 1 i2s_rst 1, set_field SUNXI_AHUB_GAT 1 i2s_gat 1,
        set_field SUNXI_AHUB_RST 1 tx_rst 1, set_field SUNXI_AHUB_GAT 1 tx_gat 1,
        set_field SUNXI_AHUB_RST 1 rx_rst 1, set_field SUNXI_AHUB_GAT 1 rx_gat 1] @
       route_calls (dts_info s)) s) })"

definition T507AhubImplRegmapWrite :: "u32 \<Rightarrow> u32 \<Rightarrow> ahub \<Rightarrow> ahub option" where
  "T507AhubImplRegmapWrite reg val = ahub_info (\<lambda>s. Some (ahub_issue [RegWrite reg val] s))"

definition T507AhubImplRegmapRead :: "kernel \<Rightarrow> u32 \<Rightarrow> ahub \<Rightarrow> (u32 \<times> ahub) option" where
  "T507AhubImplRegmapRead k reg = ahub_info (\<lambda>s.
     Some (k_u32 k (ahub_log s) (RegRead reg), ahub_issue [RegRead reg] s))"

definition T507AhubImplStartup :: "AudioStreamType \<Rightarrow> int" where
  "T507AhubImplStartup st = HDF_SUCCESS"

section \<open>Clocks and formats\<close>

text \<open>The two switches from a frequency ratio to the code of the divider are the same.\<close>

definition clk_ratio_map :: "(u32 \<times> u32) list" where
  "clk_ratio_map = [(1, 1), (2, 2), (4, 3), (6, 4), (8, 5), (12, 6), (16, 7), (24, 8), (32, 9), (48, 10),
     (64, 11), (96, 12), (128, 13), (176, 14), (192, 15)]"

definition sunxi_ahub_dai_set_sysclk :: "u32 \<Rightarrow> ahub \<Rightarrow> (int \<times> ahub) option" where
  "sunxi_ahub_dai_set_sysclk freq = ahub_pdev (\<lambda>s.
     if \<not> drvdata s then Some (- ENOMEM, s)
     else let clkd = SUNXI_AHUB_I2S_CLKD (tdm_num (dts_info s)) in
       if freq = 0 then Some (0, ahub_issue [set_field clkd 1 I2S_CLKD_MCLK 0] s)
       else if pllclk_freq s = 0 then Some (- ENOMEM, s)
       else case map_of clk_ratio_map (pllclk_freq s div freq) of
         None \<Rightarrow> Some (- EINVAL, ahub_issue [set_field clkd 1 I2S_CLKD_MCLK 0] s)
       | Some c \<Rightarrow> Some (0, ahub_issue
           [set_field clkd 0xf I2S_CLKD_MCLKDIV c, set_field clkd 1 I2S_CLKD_MCLK 1] s))"

definition sunxi_ahub_dai_set_bclk_ratio :: "u32 \<Rightarrow> ahub \<Rightarrow> (int \<times> ahub) option" where
  "sunxi_ahub_dai_set_bclk_ratio ratio = ahub_pdev (\<lambda>s.
     if \<not> drvdata s then Some (- ENOMEM, s)
     else case map_of clk_ratio_map ratio of
       None \<Rightarrow> Some (- EINVAL, s)
     | Some c \<Rightarrow> Some (0, ahub_issue
         [set_field (SUNXI_AHUB_I2S_CLKD (tdm_num (dts_info s))) 0xf I2S_CLKD_BCLKDIV c] s))"

text \<open>The first switch of \<open>sunxi_ahub_dai_set_fmt\<close>: mode, offset and the frame width of the DSP modes.\<close>

definition fmt_mode :: "u32 \<Rightarrow> (u32 \<times> u32 \<times> u32 option) option" where
  "fmt_mode fmt = (let f = fmt AND SND_SOC_DAIFMT_FORMAT_MASK in
     if f = SND_SOC_DAIFMT_I2S then Some (1, 1, None)
     else if f = SND_SOC_DAIFMT_RIGHT_J then Some (2, 0, None)
     else if f = SND_SOC_DAIFMT_LEFT_J then Some (1, 0, None)
     else if f = SND_SOC_DAIFMT_DSP_A then Some (0, 1, Some 0)
     else if f = SND_SOC_DAIFMT_DSP_B then Some (0, 0, Some 1)
     else None)"

text \<open>The second switch: frame and bit clock polarity.\<close>

definition fmt_polarity :: "u32 \<Rightarrow> (u32 \<times> u32) option" where
  "fmt_polarity fmt = (let i = fmt AND SND_SOC_DAIFMT_INV_MASK in
     if i = SND_SOC_DAIFMT_NB_NF then Some (0, 0)
     else if i = SND_SOC_DAIFMT_NB_IF then Some (1, 0)
     else if i = SND_SOC_DAIFMT_IB_NF then Some (0, 1)
     else if i = SND_SOC_DAIFMT_IB_IF then Some (1, 1)
     else None)"

text \<open>The third switch: whether the clocks are outputs.\<close>

definition fmt_clk_out :: "u32 \<Rightarrow> u32 option" where
  "fmt_clk_out fmt = (let m = fmt AND SND_SOC_DAIFMT_MASTER_MASK in
     if m = SND_SOC_DAIFMT_CBM_CFM then Some 0
     else if m = SND_SOC_DAIFMT_CBS_CFS then Some 1
     else None)"

definition is_dsp :: "u32 \<Rightarrow> bool" where
  "is_dsp fmt \<longleftrightarrow> fmt AND SND_SOC_DAIFMT_FORMAT_MASK = SND_SOC_DAIFMT_DSP_A \<or>
     fmt AND SND_SOC_DAIFMT_FORMAT_MASK = SND_SOC_DAIFMT_DSP_B"

text \<open>\<open>fmt\<close> is stored in the driver record before the record is checked, so a missing record faults.\<close>

definition sunxi_ahub_dai_set_fmt :: "u32 \<Rightarrow> ahub \<Rightarrow> (int \<times> ahub) option" where
  "sunxi_ahub_dai_set_fmt fmt = ahub_info (\<lambda>s0.
     let s = s0\<lparr>ah_fmt := fmt\<rparr>; tdm = tdm_num (dts_info s) in
     case fmt_mode fmt of
       None \<Rightarrow> Some (- EINVAL, s)
     | Some (mode, off, width) \<Rightarrow>
         let s1 = ahub_issue (
               (case width of None \<Rightarrow> [] | Some w \<Rightarrow> [set_field (SUNXI_AHUB_I2S_FMT0 tdm) 1 I2S_FMT0_LRCK_WIDTH w]) @
               [set_field (SUNXI_AHUB_I2S_CTL tdm) 3 I2S_CTL_MODE mode,
                set_field (SUNXI_AHUB_I2S_OUT_SLOT tdm 0) 3 I2S_OUT_OFFSET off,
                set_field (SUNXI_AHUB_I2S_OUT_SLOT tdm 1) 3 I2S_OUT_OFFSET off,
                set_field (SUNXI_AHUB_I2S_OUT_SLOT tdm 2) 3 I2S_OUT_OFFSET off,
                set_field (SUNXI_AHUB_I2S_OUT_SLOT tdm 3) 3 I2S_OUT_OFFSET off,
                set_field (SUNXI_AHUB_I2S_IN_SLOT tdm) 3 I2S_IN_OFFSET off]) s
         in case fmt_polarity fmt of
              None \<Rightarrow> Some (- EINVAL, s1)
            | Some (lrck, bclk) \<Rightarrow>
                let s2 = ahub_issue
                      [set_field (SUNXI_AHUB_I2S_FMT0 tdm) 1 I2S_FMT0_LRCK_POLARITY
                         (if is_dsp fmt then lrck XOR 1 else lrck),
                       set_field (SUNXI_AHUB_I2S_FMT0 tdm) 1 I2S_FMT0_BCLK_POLARITY bclk] s1
                in case fmt_clk_out fmt of
                     None \<Rightarrow> Some (- EINVAL, s2)
                   | Some v \<Rightarrow> Some (0, ahub_issue [set_field (SUNXI_AHUB_I2S_CTL tdm) 1 I2S_CTL_CLK_OUT v] s2))"

definition slot_width_map :: "(int \<times> u32) list" where
  "slot_width_map = [(8, 1), (12, 2), (16, 3), (20, 4), (24, 5), (28, 6), (32, 7)]"

text \<open>The number of slots for the frame period: C division rounds towards zero.\<close>

definition tdm_slots :: "u32 \<Rightarrow> int \<Rightarrow> int option" where
  "tdm_slots fmt slots = (let f = fmt AND SND_SOC_DAIFMT_FORMAT_MASK in
     if f \<in> set [SND_SOC_DAIFMT_I2S, SND_SOC_DAIFMT_RIGHT_J, SND_SOC_DAIFMT_LEFT_J]
     then Some (if slots < 0 then - (- slots div 2) else slots div 2)
     else if f \<in> set [SND_SOC_DAIFMT_DSP_A, SND_SOC_DAIFMT_DSP_B] then Some slots
     else None)"

text \<open>The product is computed in \<open>int\<close>; its overflow is undefined.\<close>

definition sunxi_ahub_dai_set_tdm_slot :: "int \<Rightarrow> int \<Rightarrow> ahub \<Rightarrow> (int \<times> ahub) option" where
  "sunxi_ahub_dai_set_tdm_slot slots slot_width = ahub_pdev (\<lambda>s.
     if \<not> drvdata s then Some (- ENOMEM, s)
     else let fmt0 = SUNXI_AHUB_I2S_FMT0 (tdm_num (dts_info s)) in
       case map_of slot_width_map slot_width of
         None \<Rightarrow> Some (- EINVAL, s)
       | Some w \<Rightarrow>
           let s1 = ahub_issue [set_field fmt0 7 I2S_FMT0_SW w] s in
           case tdm_slots (ah_fmt s) slots of
             None \<Rightarrow> Some (- EINVAL, s1)
           | Some n \<Rightarrow>
               if n * slot_width - 1 < - (2 ^ 31) \<or> n * slot_width \<ge> 2 ^ 31 then None
               else Some (0, ahub_issue
                 [set_field fmt0 0x3ff I2S_FMT0_LRCK_PERIOD (of_int (n * slot_width - 1))] s1))"

definition channels_en :: "u32 list" where
  "channels_en = [0x0001, 0x0003, 0x0007, 0x000f, 0x001f, 0x003f, 0x007f, 0x00ff,
     0x01ff, 0x03ff, 0x07ff, 0x0fff, 0x1fff, 0x3fff, 0x7fff, 0xffff]"

text \<open>The code of a sample width, the same for the APB interface and the TDM interface.\<close>

definition width_code :: "AudioFormat \<Rightarrow> u32 option" where
  "width_code format = (case format of AUDIO_FORMAT_TYPE_PCM_16_BIT \<Rightarrow> Some 3
   | AUDIO_FORMAT_TYPE_PCM_24_BIT \<Rightarrow> Some 5 | AUDIO_FORMAT_TYPE_PCM_32_BIT \<Rightarrow> Some 7 | _ \<Rightarrow> None)"

definition sunxi_ahub_dai_hw_params ::
    "AudioStreamType \<Rightarrow> AudioFormat \<Rightarrow> u32 \<Rightarrow> u32 \<Rightarrow> ahub \<Rightarrow> (int \<times> ahub) option" where
  "sunxi_ahub_dai_hw_params st format channels rate = ahub_pdev (\<lambda>s.
     if \<not> drvdata s then Some (- ENOMEM, s)
     else let apb = apb_num (dts_info s); tdm = tdm_num (dts_info s) in
       case width_code format of
         None \<Rightarrow> Some (- EINVAL, s)
       | Some w \<Rightarrow>
           let s1 = ahub_issue (
                 (if st = AUDIO_RENDER_STREAM then
                    [set_field (SUNXI_AHUB_APBIF_TX_CTL apb) 7 APBIF_TX_WS w,
                     set_field (SUNXI_AHUB_APBIF_TXFIFO_CTL apb) 1 APBIF_TX_TXIM 1]
                  else
                    [set_field (SUNXI_AHUB_APBIF_RX_CTL apb) 7 APBIF_RX_WS w,
                     set_field (SUNXI_AHUB_APBIF_RXFIFO_CTL apb) 3 APBIF_RX_RXOM 1]) @
                 [set_field (SUNXI_AHUB_I2S_FMT0 tdm) 7 I2S_FMT0_SR w]) s
           in if st = AUDIO_RENDER_STREAM then do {
                en \<leftarrow> arr_get channels_en (unat (channels - 1));
                Some (0, ahub_issue
                  [set_field (SUNXI_AHUB_APBIF_TX_CTL apb) 0xf APBIF_TX_CHAN_NUM (channels - 1),
                   set_field (SUNXI_AHUB_I2S_CHCFG tdm) 0xf I2S_CHCFG_TX_CHANNUM (channels - 1),
                   set_field (SUNXI_AHUB_I2S_OUT_SLOT tdm (tx_pin (dts_info s))) 0xf I2S_OUT_SLOT_NUM (channels - 1),
                   set_field (SUNXI_AHUB_I2S_OUT_SLOT tdm (tx_pin (dts_info s))) 0xffff I2S_OUT_SLOT_EN en] s1) }
              else Some (0, ahub_issue
                  [set_field (SUNXI_AHUB_APBIF_RX_CTL apb) 0xf APBIF_RX_CHAN_NUM (channels - 1),
                   set_field (SUNXI_AHUB_I2S_CHCFG tdm) 0xf I2S_CHCFG_RX_CHANNUM (channels - 1),
                   set_field (SUNXI_AHUB_I2S_IN_SLOT tdm) 0xf I2S_IN_SLOT_NUM (channels - 1)] s1))"

definition sunxi_ahub_dai_prepare :: "AudioStreamType \<Rightarrow> ahub \<Rightarrow> (int \<times> ahub) option" where
  "sunxi_ahub_dai_prepare st = ahub_pdev (\<lambda>s.
     if \<not> drvdata s then Some (- ENOMEM, s)
     else let apb = apb_num (dts_info s) in Some (0, ahub_issue (
       if st = AUDIO_RENDER_STREAM then
         [set_field (SUNXI_AHUB_APBIF_TXFIFO_CTL apb) 1 APBIF_TX_FTX 1,
          RegWrite (SUNXI_AHUB_APBIF_TX_IRQ_STA apb) (push_bit APBIF_TX_OV_PEND 1 OR push_bit APBIF_TX_EM_PEND 1),
          RegWrite (SUNXI_AHUB_APBIF_TXFIFO_CNT apb) 0]
       else
         [set_field (SUNXI_AHUB_APBIF_RXFIFO_CTL apb) 1 APBIF_RX_FRX 1,
          RegWrite (SUNXI_AHUB_APBIF_RX_IRQ_STA apb) (push_bit APBIF_RX_UV_PEND 1 OR push_bit APBIF_RX_AV_PEND 1),
          RegWrite (SUNXI_AHUB_APBIF_RXFIFO_CNT apb) 0]) s))"

text \<open>The switch that chooses the base frequency; \<open>None\<close> is its default branch.\<close>

definition ahub_freq_point :: "u32 \<Rightarrow> u32 option" where
  "ahub_freq_point rate =
     (if rate \<in> set [8000, 12000, 16000, 24000, 32000, 48000, 64000, 96000, 192000] then Some 24576000
      else if rate \<in> set [11025, 22050, 44100, 88200, 176400] then Some 22579200
      else None)"

text \<open>The settings are made one after the other, up to the first that fails.\<close>

primrec ahub_settings :: "(ahub \<Rightarrow> (int \<times> ahub) option) list \<Rightarrow> ahub \<Rightarrow> (int \<times> ahub) option" where
  "ahub_settings [] s = Some (HDF_SUCCESS, s)"
| "ahub_settings (f # fs) s = do {
     (ret, s1) \<leftarrow> f s;
     if ret \<noteq> 0 then Some (HDF_FAILURE, s1) else ahub_settings fs s1 }"

definition ahub_dai_fmt :: u32 where
  "ahub_dai_fmt = 0 OR SND_SOC_DAIFMT_I2S OR SND_SOC_DAIFMT_NB_NF OR SND_SOC_DAIFMT_CBS_CFS"

text \<open>
  Whether the record's handle of a clock has been given back: the last call of the log about it is
  \<open>clk_put\<close>. A new record starts with null handles, which \<open>clk_set_rate\<close> accepts; a handle that has been
  put is freed memory.
\<close>

primrec freed_after :: "string \<Rightarrow> klog \<Rightarrow> bool \<Rightarrow> bool" where
  "freed_after c [] freed = freed"
| "freed_after c (x # xs) freed =
     freed_after c xs (x = ClkPut c \<or> x \<noteq> ClkGet c \<and> x \<noteq> Kzalloc \<and> freed)"

definition clk_freed :: "string \<Rightarrow> klog \<Rightarrow> bool" where
  "clk_freed c l = freed_after c l False"

definition T507AhubImplHwParams ::
    "kernel \<Rightarrow> AudioStreamType \<Rightarrow> AudioFormat \<Rightarrow> u32 \<Rightarrow> u32 \<Rightarrow> ahub \<Rightarrow> (int \<times> ahub) option" where
  "T507AhubImplHwParams k st format channels rate = ahub_pdev (\<lambda>s.
     if format \<notin> set [AUDIO_FORMAT_TYPE_PCM_16_BIT, AUDIO_FORMAT_TYPE_PCM_24_BIT, AUDIO_FORMAT_TYPE_PCM_32_BIT]
     then Some (HDF_FAILURE, s)
     else if st = AUDIO_RENDER_STREAM then Some (HDF_SUCCESS, s)
     else case ahub_freq_point rate of
       None \<Rightarrow> Some (HDF_FAILURE, s)
     | Some fp \<Rightarrow> if \<not> drvdata s then None else
         let s1 = s\<lparr>pllclk_freq := fp * 4, moduleclk_freq := fp * 4\<rparr>;
             c1 = ClkSetRate ''clk_pll_audio_4x'' (pllclk_freq s1);
             s2 = ahub_issue [c1] s1
         in if clk_freed ''clk_pll_audio_4x'' (ahub_log s1) then None
            else if k_int k (ahub_log s1) c1 \<noteq> 0 then Some (- EINVAL, s2)
            else
              let c2 = ClkSetRate ''clk_audio_hub'' (moduleclk_freq s2);
                  s3 = ahub_issue [c2] s2
              in if clk_freed ''clk_audio_hub'' (ahub_log s2) then None
                 else if k_int k (ahub_log s2) c2 \<noteq> 0 then Some (- EINVAL, s3)
                 else ahub_settings
                   [\<lambda>s. sunxi_ahub_dai_set_sysclk (mclk_freq s) s,
                    \<lambda>s. sunxi_ahub_dai_set_bclk_ratio (pllclk_freq s div (2 * 32 * rate)) s,
                    sunxi_ahub_dai_set_fmt ahub_dai_fmt,
                    sunxi_ahub_dai_set_tdm_slot 2 32,
                    sunxi_ahub_dai_hw_params st format channels rate,
                    sunxi_ahub_dai_prepare st] (s3\<lparr>mclk_freq := fp div 2\<rparr>))"

section \<open>Trigger\<close>

definition sunxi_ahub_dai_rx_route :: "bool \<Rightarrow> ahub \<Rightarrow> ahub option" where
  "sunxi_ahub_dai_rx_route enable = ahub_info (\<lambda>s. do {
     let apb = apb_num (dts_info s);
     let tdm = tdm_num (dts_info s);
     sdi \<leftarrow> shift_up I2S_CTL_SDI0_EN (rx_pin (dts_info s));
     Some (ahub_issue (
       if enable then
         [set_field (SUNXI_AHUB_I2S_CTL tdm) 1 sdi 1, set_field (SUNXI_AHUB_I2S_CTL tdm) 1 I2S_CTL_RXEN 1,
          set_field (SUNXI_AHUB_APBIF_RX_CTL apb) 1 APBIF_RX_START 1,
          set_field (SUNXI_AHUB_APBIF_RX_IRQ_CTL apb) 1 APBIF_RX_DRQ 1]
       else
         [set_field (SUNXI_AHUB_I2S_CTL tdm) 1 I2S_CTL_RXEN 0, set_field (SUNXI_AHUB_I2S_CTL tdm) 1 sdi 0,
          set_field (SUNXI_AHUB_APBIF_RX_CTL apb) 1 APBIF_RX_START 0,
          set_field (SUNXI_AHUB_APBIF_RX_IRQ_CTL apb) 1 APBIF_RX_DRQ 0]) s) })"

definition T507AhubImplTrigger :: "AudioStreamType \<Rightarrow> bool \<Rightarrow> ahub \<Rightarrow> (int \<times> ahub) option" where
  "T507AhubImplTrigger st enable = ahub_pdev (\<lambda>s.
     if st = AUDIO_RENDER_STREAM then Some (HDF_SUCCESS, s)
     else do { s1 \<leftarrow> sunxi_ahub_dai_rx_route enable s; Some (HDF_SUCCESS, s1) })"

section \<open>Probing and removing\<close>

abbreviation "CLK_HUB_BUS \<equiv> ''clk_bus_audio_hub''"
abbreviation "CLK_HUB \<equiv> ''clk_audio_hub''"
abbreviation "CLK_HUB_PLL \<equiv> ''clk_pll_audio''"
abbreviation "CLK_HUB_PLLX4 \<equiv> ''clk_pll_audio_4x''"

definition snd_sunxi_ahub_mem_init :: "kernel \<Rightarrow> klog \<Rightarrow> int \<times> unit \<times> klog" where
  "snd_sunxi_ahub_mem_init k l = (
     let (ret, l) = ask_int k AddressToResource l in
     if ret \<noteq> 0 then (- EINVAL, (), l) else
     let (memregion, l) = ask_ptr k RequestMem l in
     if IS_ERR_OR_NULL memregion then (- EBUSY, (), l) else
     let (membase, l) = ask_ptr k Ioremap l in
     if IS_ERR_OR_NULL membase then (- EBUSY, (), l @ [ReleaseMem]) else
     let (regmap, l) = ask_ptr k RegmapInit l in
     if IS_ERR_OR_NULL regmap then (- EINVAL, (), l @ [Iounmap, ReleaseMem])
     else (0, (), l))"

definition snd_sunxi_ahub_mem_exit :: "unit \<Rightarrow> klog \<Rightarrow> klog" where
  "snd_sunxi_ahub_mem_exit _ l = l @ [Iounmap, ReleaseMem]"

text \<open>A failure of the bus clock leaves \<open>ret\<close> 0.\<close>

definition snd_sunxi_ahub_clk_init :: "kernel \<Rightarrow> klog \<Rightarrow> int \<times> unit \<times> klog" where
  "snd_sunxi_ahub_clk_init k l = (
     let ret = 0;
         puts = [ClkPut CLK_HUB_PLLX4, ClkPut CLK_HUB_PLL, ClkPut CLK_HUB, ClkPut CLK_HUB_BUS];
         (p, l) = ask_ptr k ResetGet l in
     if IS_ERR_OR_NULL p then (PTR_ERR p, (), l) else
     let (p, l) = ask_ptr k (ClkGet CLK_HUB_BUS) l in
     if IS_ERR_OR_NULL p then (PTR_ERR p, (), l) else
     let (p, l) = ask_ptr k (ClkGet CLK_HUB) l in
     if IS_ERR_OR_NULL p then (- EBUSY, (), l @ drop 3 puts) else
     let (p, l) = ask_ptr k (ClkGet CLK_HUB_PLL) l in
     if IS_ERR_OR_NULL p then (- EBUSY, (), l @ drop 2 puts) else
     let (p, l) = ask_ptr k (ClkGet CLK_HUB_PLLX4) l in
     if IS_ERR_OR_NULL p then (- EBUSY, (), l @ drop 1 puts) else
     let (r, l) = ask_int k (ClkSetParent CLK_HUB CLK_HUB_PLLX4) l in
     if r \<noteq> 0 then (- EINVAL, (), l @ puts) else
     let (r, l) = ask_int k ResetDeassert l in
     if r \<noteq> 0 then (- EINVAL, (), l @ puts) else
     let (r, l) = ask_int k (ClkEnable CLK_HUB_BUS) l in
     if r \<noteq> 0 then (ret, (), l @ [ResetAssert] @ puts) else
     let (r, l) = ask_int k (ClkEnable CLK_HUB_PLL) l in
     if r \<noteq> 0 then (- EBUSY, (), l @ [ClkDisable CLK_HUB_BUS, ResetAssert] @ puts) else
     let (r, l) = ask_int k (ClkEnable CLK_HUB_PLLX4) l in
     if r \<noteq> 0 then (- EBUSY, (), l @ [ClkDisable CLK_HUB_PLL, ClkDisable CLK_HUB_BUS, ResetAssert] @ puts) else
     let (r, l) = ask_int k (ClkEnable CLK_HUB) l in
     if r \<noteq> 0 then (- EBUSY, (), l @ [ClkDisable CLK_HUB_PLLX4, ClkDisable CLK_HUB_PLL, ClkDisable CLK_HUB_BUS,
       ResetAssert] @ puts)
     else (0, (), l))"

definition snd_sunxi_clk_exit :: "unit \<Rightarrow> klog \<Rightarrow> klog" where
  "snd_sunxi_clk_exit _ l = l @ [ClkDisable CLK_HUB, ClkPut CLK_HUB, ClkDisable CLK_HUB_PLL, ClkPut CLK_HUB_PLL,
     ClkDisable CLK_HUB_PLLX4, ClkPut CLK_HUB_PLLX4, ClkDisable CLK_HUB_BUS, ClkPut CLK_HUB_BUS, ResetAssert]"

text \<open>One number of the device tree: 0 when it is missing or above the limit.\<close>

definition read_num :: "kernel \<Rightarrow> string \<Rightarrow> u32 \<Rightarrow> klog \<Rightarrow> u32 \<times> klog" where
  "read_num k prop limit l = (
     let (ret, l') = ask_int k (ReadProp prop) l;
         temp_val = k_u32 k l (ReadProp prop)
     in (if ret < 0 then 0 else if temp_val > limit then 0 else temp_val, l'))"

definition snd_sunxi_ahub_dts_params_init :: "kernel \<Rightarrow> klog \<Rightarrow> int \<times> ahub_dts \<times> klog" where
  "snd_sunxi_ahub_dts_params_init k l = (
     let (a, l) = read_num k ''apb-num'' 2 l;
         (t, l) = read_num k ''tdm-num'' 3 l;
         (tx, l) = read_num k ''tx-pin'' 3 l;
         (rx, l) = read_num k ''rx-pin'' 3 l
     in (0, \<lparr>apb_num = a, tdm_num = t, tx_pin = tx, rx_pin = rx\<rparr>, l))"

definition snd_sunxi_ahub_pin_init :: "kernel \<Rightarrow> klog \<Rightarrow> int \<times> bool \<times> klog" where
  "snd_sunxi_ahub_pin_init k l = (
     let (used, l) = ask_int k (HasProp ''pinctrl-used'') l in
     if used = 0 then (0, False, l) else
     let (p, l) = ask_ptr k PinctrlGet l in
     if IS_ERR_OR_NULL p then (- EINVAL, True, l) else
     let (p, l) = ask_ptr k (PinctrlLookup ''default'') l in
     if IS_ERR_OR_NULL p then (- EINVAL, True, l @ [PinctrlPut]) else
     let (p, l) = ask_ptr k (PinctrlLookup ''sleep'') l in
     if IS_ERR_OR_NULL p then (- EINVAL, True, l @ [PinctrlPut]) else
     let (ret, l) = ask_int k (PinctrlSelect ''default'') l in
     if ret < 0 then (- EBUSY, True, l @ [PinctrlPut])
     else (0, True, l))"

text \<open>The regulator is the one the property \<open>ahub_regulator\<close> names; without the property the pointer
  stays \<open>NULL\<close>.\<close>

definition snd_sunxi_ahub_regulator_init :: "kernel \<Rightarrow> klog \<Rightarrow> int \<times> kptr \<times> klog" where
  "snd_sunxi_ahub_regulator_init k l = (
     let (r, l) = ask_int k (ReadProp ''ahub_regulator'') l in
     if r \<noteq> 0 then (0, PNULL, l) else
     let (rglt, l) = ask_ptr k (RegulatorGet ''ahub_regulator'') l in
     if IS_ERR_OR_NULL rglt then (- EFAULT, rglt, l) else
     let (ret, l) = ask_int k (RegulatorSetVoltage ''ahub_regulator'' 3300000 3300000) l in
     if ret < 0 then (- EFAULT, rglt, l @ [RegulatorPut ''ahub_regulator'']) else
     let (ret, l) = ask_int k (RegulatorEnable ''ahub_regulator'') l in
     if ret < 0 then (- EFAULT, rglt, l @ [RegulatorPut ''ahub_regulator''])
     else (0, rglt, l))"

definition snd_sunxi_ahub_regulator_exit :: "kptr \<Rightarrow> klog \<Rightarrow> klog" where
  "snd_sunxi_ahub_regulator_exit rglt l =
     (if rglt \<noteq> PNULL \<and> \<not> IS_ERR_OR_NULL rglt
      then l @ [RegulatorDisable ''ahub_regulator'', RegulatorPut ''ahub_regulator''] else l)"

text \<open>The result says what the probe stored for the exit functions: the regulator and whether the pins
  are in use.\<close>

definition sunxi_ahub_dev_probe :: "kernel \<Rightarrow> ahub \<Rightarrow> int \<times> (kptr \<times> bool) \<times> ahub" where
  "sunxi_ahub_dev_probe k s = (
     let (p, l) = ask_ptr k Kzalloc (ahub_log s) in
     if IS_ERR_OR_NULL p then (- ENOMEM, (PNULL, False), s\<lparr>ahub_log := l @ [NodePut]\<rparr>) else
     let s = s\<lparr>drvdata := True\<rparr>;
         (ret, rglt, l) = snd_sunxi_ahub_regulator_init k l in
     if ret \<noteq> 0 then (- EINVAL, (rglt, False), s\<lparr>ahub_log := l @ [Kfree, NodePut]\<rparr>) else
     let (ret, mem, l) = snd_sunxi_ahub_mem_init k l in
     if ret \<noteq> 0 then (- EINVAL, (rglt, False), s\<lparr>ahub_log := snd_sunxi_ahub_regulator_exit rglt l @ [Kfree, NodePut]\<rparr>) else
     let (ret, clk, l) = snd_sunxi_ahub_clk_init k l in
     if ret \<noteq> 0 then (- EINVAL, (rglt, False), s\<lparr>ahub_log :=
       snd_sunxi_ahub_regulator_exit rglt (snd_sunxi_ahub_mem_exit mem l) @ [Kfree, NodePut]\<rparr>) else
     let (ret, dts, l) = snd_sunxi_ahub_dts_params_init k l;
         undo = (\<lambda>l. snd_sunxi_ahub_regulator_exit rglt (snd_sunxi_ahub_mem_exit mem (snd_sunxi_clk_exit clk l)) @
           [Kfree, NodePut]) in
     if ret \<noteq> 0 then (- EINVAL, (rglt, False), s\<lparr>ahub_log := undo l\<rparr>) else
     let (ret, pins, l) = snd_sunxi_ahub_pin_init k l in
     if ret \<noteq> 0 then (- EINVAL, (rglt, pins), s\<lparr>ahub_log := undo l\<rparr>) else
     let (ret, l) = ask_int k SysfsCreate l
     in (0, (rglt, pins), s\<lparr>ahub_log := l, g_ahub_pdev := True, dts_info := dts, ah_fmt := 0, pllclk_freq := 0,
           moduleclk_freq := 0, mclk_freq := 0\<rparr>))"

definition sunxi_ahub_dev_remove :: "kptr \<Rightarrow> ahub \<Rightarrow> int \<times> ahub" where
  "sunxi_ahub_dev_remove rglt s = (0, s\<lparr>ahub_log :=
     snd_sunxi_ahub_regulator_exit rglt (snd_sunxi_clk_exit () (snd_sunxi_ahub_mem_exit ()
       (ahub_log s @ [SysfsRemove])))\<rparr>)"

section \<open>Framework entry points\<close>

text \<open>
  \<open>dai\<close> says whether the device and its data are there, \<open>fw\<close> what the framework's functions for the
  controls return; the flag is \<open>daiInitFlag\<close> of the device data.
\<close>

definition T507AhubDeviceInit :: "(nat \<Rightarrow> int) \<Rightarrow> bool \<Rightarrow> bool \<Rightarrow> ahub \<Rightarrow> (int \<times> bool \<times> ahub) option" where
  "T507AhubDeviceInit fw dai flag s = (
     if \<not> dai then Some (HDF_FAILURE, flag, s)
     else if fw 0 \<noteq> HDF_SUCCESS then Some (HDF_FAILURE, flag, s)
     else if fw 1 \<noteq> HDF_SUCCESS then Some (HDF_FAILURE, flag, s)
     else if flag then Some (HDF_SUCCESS, flag, s)
     else do { s1 \<leftarrow> T507AhubImplDeviceInit s; Some (HDF_SUCCESS, True, s1) })"

definition T507AhubDeviceReadReg :: "kernel \<Rightarrow> u32 \<Rightarrow> bool \<Rightarrow> ahub \<Rightarrow> (int \<times> u32 option \<times> ahub) option" where
  "T507AhubDeviceReadReg k reg value s = (
     if \<not> value then Some (HDF_FAILURE, None, s)
     else do { (v, s1) \<leftarrow> T507AhubImplRegmapRead k reg s; Some (HDF_SUCCESS, Some v, s1) })"

definition T507AhubDeviceWriteReg :: "u32 \<Rightarrow> u32 \<Rightarrow> ahub \<Rightarrow> (int \<times> ahub) option" where
  "T507AhubDeviceWriteReg reg value s =
     do { s1 \<leftarrow> T507AhubImplRegmapWrite reg value s; Some (HDF_SUCCESS, s1) }"

definition ahub_trigger :: "AudioStreamType \<Rightarrow> bool \<Rightarrow> ahub \<Rightarrow> (int \<times> ahub) option" where
  "ahub_trigger st enable s = do {
     (ret, s1) \<leftarrow> T507AhubImplTrigger st enable s;
     Some (if ret \<noteq> HDF_SUCCESS then HDF_FAILURE else HDF_SUCCESS, s1) }"

definition T507AhubDaiTrigger :: "pcm_cmd \<Rightarrow> ahub \<Rightarrow> (int \<times> ahub) option" where
  "T507AhubDaiTrigger cmd s = (case cmd of
     RENDER_START \<Rightarrow> ahub_trigger AUDIO_RENDER_STREAM True s
   | RENDER_RESUME \<Rightarrow> ahub_trigger AUDIO_RENDER_STREAM True s
   | RENDER_STOP \<Rightarrow> ahub_trigger AUDIO_RENDER_STREAM False s
   | RENDER_PAUSE \<Rightarrow> ahub_trigger AUDIO_RENDER_STREAM False s
   | CAPTURE_START \<Rightarrow> ahub_trigger AUDIO_CAPTURE_STREAM True s
   | CAPTURE_RESUME \<Rightarrow> ahub_trigger AUDIO_CAPTURE_STREAM True s
   | CAPTURE_STOP \<Rightarrow> ahub_trigger AUDIO_CAPTURE_STREAM False s
   | CAPTURE_PAUSE \<Rightarrow> ahub_trigger AUDIO_CAPTURE_STREAM False s
   | OTHER_CMD _ \<Rightarrow> Some (HDF_SUCCESS, s))"

definition T507AhubDaiStartup :: int where
  "T507AhubDaiStartup =
     (if T507AhubImplStartup AUDIO_CAPTURE_STREAM \<noteq> HDF_SUCCESS then HDF_FAILURE else HDF_SUCCESS)"

definition T507AhubDaiHwParams ::
    "kernel \<Rightarrow> bool \<Rightarrow> AudioStreamType \<Rightarrow> AudioFormat \<Rightarrow> u32 \<Rightarrow> u32 \<Rightarrow> ahub \<Rightarrow> (int \<times> ahub) option" where
  "T507AhubDaiHwParams k params st format channels rate s = (
     if \<not> params then Some (HDF_FAILURE, s)
     else do {
       (ret, s1) \<leftarrow> T507AhubImplHwParams k st format channels rate s;
       Some (if ret \<noteq> HDF_SUCCESS then HDF_FAILURE else HDF_SUCCESS, s1) })"

section \<open>The stages of the probe function\<close>

definition ahub_clk_takes :: "unit \<Rightarrow> resource \<Rightarrow> int" where
  "ahub_clk_takes _ r = (if r \<in> {RReset, RClock CLK_HUB_BUS, RClock CLK_HUB_PLL, RClock CLK_HUB_PLLX4,
     RClock CLK_HUB, RClockOn CLK_HUB_BUS, RClockOn CLK_HUB_PLL, RClockOn CLK_HUB_PLLX4, RClockOn CLK_HUB}
     then 1 else 0)"

definition ahub_rglt_takes :: "kptr \<Rightarrow> resource \<Rightarrow> int" where
  "ahub_rglt_takes p r =
     (if p = PVALID \<and> r \<in> {RRegulator ''ahub_regulator'', RPower ''ahub_regulator''} then 1 else 0)"

interpretation ahub_mem: init_stage snd_sunxi_ahub_mem_init snd_sunxi_ahub_mem_exit mem_takes "\<lambda>k. True"
  by unfold_locales
    (auto simp: snd_sunxi_ahub_mem_init_def snd_sunxi_ahub_mem_exit_def mem_takes_def stage_defs Let_def
      split: if_splits)

interpretation ahub_rglt: init_stage snd_sunxi_ahub_regulator_init snd_sunxi_ahub_regulator_exit
  ahub_rglt_takes "\<lambda>k. True"
  by unfold_locales
    (auto simp: snd_sunxi_ahub_regulator_init_def snd_sunxi_ahub_regulator_exit_def ahub_rglt_takes_def
      stage_defs Let_def split: if_splits)

interpretation ahub_clk: init_stage snd_sunxi_ahub_clk_init snd_sunxi_clk_exit ahub_clk_takes clocks_start
proof unfold_locales
  fix k l info l' r
  assume k: "clocks_start k" and run: "snd_sunxi_ahub_clk_init k l = (0, info, l')"
  show "held k l' r = held k l r + ahub_clk_takes info r"
    using run
    by (auto simp: snd_sunxi_ahub_clk_init_def clocks_startD(1) [OF k] ahub_clk_takes_def ask_defs
        IS_ERR_OR_NULL_def err_defs Let_def ptr_err_nonzero [OF k] split: if_splits)
next
  fix k l rc info l' r
  assume k: "clocks_start k" and run: "snd_sunxi_ahub_clk_init k l = (rc, info, l')" and rc: "rc \<noteq> 0"
  show "held k l' r = held k l r"
    using run rc
    by (auto simp: snd_sunxi_ahub_clk_init_def clocks_startD(1) [OF k] ask_defs IS_ERR_OR_NULL_def err_defs
        Let_def numeral_2_eq_2 numeral_3_eq_3 split: if_splits)
qed (auto simp: snd_sunxi_clk_exit_def ahub_clk_takes_def)

section \<open>Every operation returns and stays within the device\<close>

definition dts_ok :: "ahub_dts \<Rightarrow> bool" where
  "dts_ok d \<longleftrightarrow> apb_num d \<le> 2 \<and> tdm_num d \<le> 3 \<and> tx_pin d \<le> 3 \<and> rx_pin d \<le> 3"

definition ahub_ready :: "ahub \<Rightarrow> bool" where
  "ahub_ready s \<longleftrightarrow> g_ahub_pdev s \<and> drvdata s \<and> dts_ok (dts_info s)"

text \<open>The handles of the two clocks whose rates are set are not freed memory.\<close>

definition hub_clocks :: "ahub \<Rightarrow> bool" where
  "hub_clocks s \<longleftrightarrow> \<not> clk_freed CLK_HUB_PLLX4 (ahub_log s) \<and> \<not> clk_freed CLK_HUB (ahub_log s)"

text \<open>The register map: 32-bit registers up to \<open>max_register\<close>. A call of an operation on a probed hub
  sets a clock rate or addresses a register of the map or one of the set \<open>A\<close> named by the framework.\<close>

definition reg_ok :: "u32 \<Rightarrow> bool" where
  "reg_ok r \<longleftrightarrow> r \<le> SUNXI_AHUB_MAX_REG \<and> r mod 4 = 0"

fun in_window :: "u32 set \<Rightarrow> kcall \<Rightarrow> bool" where
  "in_window A (RegWrite r v) \<longleftrightarrow> reg_ok r \<or> r \<in> A"
| "in_window A (RegUpdate r m v) \<longleftrightarrow> reg_ok r \<or> r \<in> A"
| "in_window A (RegRead r) \<longleftrightarrow> reg_ok r \<or> r \<in> A"
| "in_window A (ClkSetRate n f) \<longleftrightarrow> True"
| "in_window A _ \<longleftrightarrow> False"

lemma in_window_set_field [simp]: "in_window A (set_field r m lo v) \<longleftrightarrow> reg_ok r \<or> r \<in> A"
  by (simp add: set_field_def)

lemma freed_after_append: "freed_after c (xs @ ys) b = freed_after c ys (freed_after c xs b)"
  by (induction xs arbitrary: b) auto

lemma clk_freed_append [simp]: "clk_freed c (l @ cs) = freed_after c cs (clk_freed c l)"
  by (simp add: clk_freed_def freed_after_append)

lemma freed_after_window [simp]: "list_all (in_window A) cs \<Longrightarrow> freed_after c cs b = b"
proof (induction cs arbitrary: b)
  case (Cons x xs)
  then show ?case by (cases x) auto
qed simp

lemma u32_le_3: "(x :: u32) \<le> 3 \<Longrightarrow> x \<in> {0, 1, 2, 3}"
  by (auto simp: word_le_nat_alt word_unat_eq_iff)

lemma u32_le_2: "(x :: u32) \<le> 2 \<Longrightarrow> x \<in> {0, 1, 2}"
  using u32_le_3 [of x] by (auto simp: word_le_nat_alt)

lemma i2s_regs_ok:
  assumes "t \<le> 3"
  shows "reg_ok (SUNXI_AHUB_I2S_CTL t)" "reg_ok (SUNXI_AHUB_I2S_FMT0 t)" "reg_ok (SUNXI_AHUB_I2S_FMT1 t)"
    "reg_ok (SUNXI_AHUB_I2S_CLKD t)" "reg_ok (SUNXI_AHUB_I2S_RXCONT t)" "reg_ok (SUNXI_AHUB_I2S_CHCFG t)"
    "reg_ok (SUNXI_AHUB_I2S_IN_SLOT t)" "reg_ok (SUNXI_AHUB_I2S_IN_CHMAP0 t)" "reg_ok (SUNXI_AHUB_I2S_IN_CHMAP1 t)"
    "reg_ok (SUNXI_AHUB_I2S_IN_CHMAP2 t)" "reg_ok (SUNXI_AHUB_I2S_IN_CHMAP3 t)"
  using u32_le_3 [OF assms] by (auto simp: reg_ok_def ahub_regs)

lemma i2s_slots_ok:
  assumes "t \<le> 3" "p \<le> 3"
  shows "reg_ok (SUNXI_AHUB_I2S_OUT_SLOT t p)" "reg_ok (SUNXI_AHUB_I2S_OUT_CHMAP0 t p)"
    "reg_ok (SUNXI_AHUB_I2S_OUT_CHMAP1 t p)"
  using u32_le_3 [OF assms(1)] u32_le_3 [OF assms(2)] by (auto simp: reg_ok_def ahub_regs)

lemma apb_regs_ok:
  assumes "a \<le> 2"
  shows "reg_ok (SUNXI_AHUB_APBIF_TX_CTL a)" "reg_ok (SUNXI_AHUB_APBIF_TX_IRQ_STA a)"
    "reg_ok (SUNXI_AHUB_APBIF_TXFIFO_CTL a)" "reg_ok (SUNXI_AHUB_APBIF_TXFIFO_CNT a)"
    "reg_ok (SUNXI_AHUB_APBIF_RX_CTL a)" "reg_ok (SUNXI_AHUB_APBIF_RX_IRQ_CTL a)"
    "reg_ok (SUNXI_AHUB_APBIF_RX_IRQ_STA a)" "reg_ok (SUNXI_AHUB_APBIF_RXFIFO_CTL a)"
    "reg_ok (SUNXI_AHUB_APBIF_RXFIFO_CONT a)" "reg_ok (SUNXI_AHUB_APBIF_RXFIFO_CNT a)"
  using u32_le_2 [OF assms] by (auto simp: reg_ok_def ahub_regs)

lemma fixed_regs_ok: "reg_ok SUNXI_AHUB_RST" "reg_ok SUNXI_AHUB_GAT"
  by (simp_all add: reg_ok_def ahub_regs)

lemmas regs_ok = i2s_regs_ok i2s_slots_ok apb_regs_ok fixed_regs_ok

lemma shifts_ok:
  "t \<le> 3 \<Longrightarrow> \<exists>n. shift_down I2S0_RST t = Some n" "t \<le> 3 \<Longrightarrow> \<exists>n. shift_down I2S0_GAT t = Some n"
  "a \<le> 2 \<Longrightarrow> \<exists>n. shift_down APBIF_TXDIF0_RST a = Some n" "a \<le> 2 \<Longrightarrow> \<exists>n. shift_down APBIF_TXDIF0_GAT a = Some n"
  "a \<le> 2 \<Longrightarrow> \<exists>n. shift_down APBIF_RXDIF0_RST a = Some n" "a \<le> 2 \<Longrightarrow> \<exists>n. shift_down APBIF_RXDIF0_GAT a = Some n"
  by (auto dest!: u32_le_3 u32_le_2 simp: shift_down_def ahub_bits)

lemma shift_rx: "p \<le> 3 \<Longrightarrow> shift_up I2S_CTL_SDI0_EN p = Some (12 + unat p)"
  by (auto dest!: u32_le_3 simp: shift_up_def ahub_bits)

text \<open>The state after an operation: the device is as ready as before and the new calls stay within
  the register map.\<close>

definition moves :: "u32 set \<Rightarrow> ahub \<Rightarrow> ahub \<Rightarrow> bool" where
  "moves A s s' \<longleftrightarrow> g_ahub_pdev s' = g_ahub_pdev s \<and> drvdata s' = drvdata s \<and> dts_info s' = dts_info s \<and>
     (\<exists>cs. ahub_log s' = ahub_log s @ cs \<and> list_all (in_window A) cs)"

definition returns :: "u32 set \<Rightarrow> (ahub \<Rightarrow> (int \<times> ahub) option) \<Rightarrow> bool" where
  "returns A f \<longleftrightarrow> (\<forall>s. ahub_ready s \<longrightarrow> (\<exists>rc s'. f s = Some (rc, s') \<and> moves A s s'))"

lemma moves_refl [simp]: "moves A s s"
  by (simp add: moves_def)

lemma moves_trans: "moves A s s' \<Longrightarrow> moves A s' s'' \<Longrightarrow> moves A s s''"
  by (auto simp: moves_def)

lemma moves_issue: "moves A s s' \<Longrightarrow> list_all (in_window A) cs \<Longrightarrow> moves A s (ahub_issue cs s')"
  by (auto simp: moves_def ahub_issue_def)

lemma moves_fields [simp]:
  "moves A s (s'\<lparr>ah_fmt := v\<rparr>) = moves A s s'" "moves A s (s'\<lparr>pllclk_freq := v\<rparr>) = moves A s s'"
  "moves A s (s'\<lparr>moduleclk_freq := v\<rparr>) = moves A s s'" "moves A s (s'\<lparr>mclk_freq := v\<rparr>) = moves A s s'"
  by (simp_all add: moves_def)

lemma moves_ready: "moves A s s' \<Longrightarrow> ahub_ready s \<Longrightarrow> ahub_ready s'"
  by (simp add: moves_def ahub_ready_def)

lemma moves_clocks: "moves A s s' \<Longrightarrow> hub_clocks s' = hub_clocks s"
  by (auto simp: moves_def hub_clocks_def)

lemma ahub_issue_simps [simp]:
  "ahub_log (ahub_issue cs s) = ahub_log s @ cs" "dts_info (ahub_issue cs s) = dts_info s"
  "g_ahub_pdev (ahub_issue cs s) = g_ahub_pdev s" "drvdata (ahub_issue cs s) = drvdata s"
  "ah_fmt (ahub_issue cs s) = ah_fmt s" "pllclk_freq (ahub_issue cs s) = pllclk_freq s"
  "moduleclk_freq (ahub_issue cs s) = moduleclk_freq s" "mclk_freq (ahub_issue cs s) = mclk_freq s"
  by (simp_all add: ahub_issue_def)

lemma ready_infos:
  assumes "ahub_ready s"
  shows "ahub_pdev f s = f s" "ahub_info f s = f s" "drvdata s"
    "apb_num (dts_info s) \<le> 2" "tdm_num (dts_info s) \<le> 3" "tx_pin (dts_info s) \<le> 3" "rx_pin (dts_info s) \<le> 3"
  using assms by (auto simp: ahub_ready_def ahub_pdev_def ahub_info_def dts_ok_def)

lemma set_sysclk_returns: "returns A (sunxi_ahub_dai_set_sysclk freq)"
  by (auto simp: returns_def sunxi_ahub_dai_set_sysclk_def Let_def ready_infos regs_ok
      intro!: moves_issue split: option.splits)

lemma set_bclk_returns: "returns A (sunxi_ahub_dai_set_bclk_ratio ratio)"
  by (auto simp: returns_def sunxi_ahub_dai_set_bclk_ratio_def Let_def ready_infos regs_ok
      intro!: moves_issue split: option.splits)

lemma set_fmt_returns: "returns A (sunxi_ahub_dai_set_fmt fmt)"
  by (auto simp: returns_def sunxi_ahub_dai_set_fmt_def Let_def ready_infos regs_ok
      intro!: moves_issue split: option.splits)

lemma set_tdm_returns: "returns A (sunxi_ahub_dai_set_tdm_slot 2 32)"
  by (auto simp: returns_def sunxi_ahub_dai_set_tdm_slot_def tdm_slots_def slot_width_map_def Let_def
      ready_infos regs_ok intro!: moves_issue split: option.splits if_splits)

lemma hw_params_returns: "st \<noteq> AUDIO_RENDER_STREAM \<Longrightarrow> returns A (sunxi_ahub_dai_hw_params st f ch rate)"
  by (auto simp: returns_def sunxi_ahub_dai_hw_params_def Let_def ready_infos regs_ok
      intro!: moves_issue split: option.splits)

lemma prepare_returns: "returns A (sunxi_ahub_dai_prepare st)"
  by (auto simp: returns_def sunxi_ahub_dai_prepare_def Let_def ready_infos regs_ok intro!: moves_issue)

lemma returns_state: "(\<And>s. returns A (f s)) \<Longrightarrow> returns A (\<lambda>s. f s s)"
  by (simp add: returns_def)

lemma settings_return: "\<forall>f \<in> set fs. returns A f \<Longrightarrow> returns A (ahub_settings fs)"
proof (induction fs)
  case (Cons f fs)
  show ?case unfolding returns_def
  proof (intro allI impI)
    fix s assume s: "ahub_ready s"
    obtain rc s1 where f: "f s = Some (rc, s1)" "moves A s s1" using Cons.prems s by (auto simp: returns_def)
    moreover obtain rc' s2 where "ahub_settings fs s1 = Some (rc', s2)" "moves A s1 s2"
      using Cons.IH Cons.prems moves_ready [OF f(2) s] by (auto simp: returns_def)
    ultimately show "\<exists>rc s'. ahub_settings (f # fs) s = Some (rc, s') \<and> moves A s s'"
      by (auto intro: moves_trans)
  qed
qed (simp add: returns_def)

text \<open>Whether parameters get as far as the rates of the clocks: an accepted format and rate of a stream
  other than playback.\<close>

definition sets_rates :: "AudioStreamType \<Rightarrow> AudioFormat \<Rightarrow> u32 \<Rightarrow> bool" where
  "sets_rates st format rate \<longleftrightarrow> st \<noteq> AUDIO_RENDER_STREAM \<and> ahub_freq_point rate \<noteq> None \<and>
     format \<in> {AUDIO_FORMAT_TYPE_PCM_16_BIT, AUDIO_FORMAT_TYPE_PCM_24_BIT, AUDIO_FORMAT_TYPE_PCM_32_BIT}"

lemma impl_hw_params_returns:
  assumes s: "ahub_ready s" and c: "sets_rates st format rate \<Longrightarrow> hub_clocks s"
  shows "\<exists>rc s'. T507AhubImplHwParams k st format channels rate s = Some (rc, s') \<and> moves A s s'"
proof (cases "sets_rates st format rate")
  case False
  then show ?thesis
    using s by (auto simp: T507AhubImplHwParams_def ready_infos sets_rates_def split: option.splits)
next
  case True
  then obtain fp where fp: "ahub_freq_point rate = Some fp" by (auto simp: sets_rates_def)
  let ?fs = "[\<lambda>s. sunxi_ahub_dai_set_sysclk (mclk_freq s) s,
    \<lambda>s. sunxi_ahub_dai_set_bclk_ratio (pllclk_freq s div (2 * 32 * rate)) s,
    sunxi_ahub_dai_set_fmt ahub_dai_fmt, sunxi_ahub_dai_set_tdm_slot 2 32,
    sunxi_ahub_dai_hw_params st format channels rate, sunxi_ahub_dai_prepare st]"
  have fs: "returns A (ahub_settings ?fs)"
    using True by (intro settings_return)
      (auto simp: sets_rates_def intro: set_sysclk_returns set_bclk_returns set_fmt_returns set_tdm_returns
        hw_params_returns prepare_returns returns_state [where f = "\<lambda>s. sunxi_ahub_dai_set_sysclk (mclk_freq s)"]
        returns_state [where f = "\<lambda>s. sunxi_ahub_dai_set_bclk_ratio (pllclk_freq s div (64 * rate))"])
  let ?c1 = "ClkSetRate ''clk_pll_audio_4x'' (fp * 4)" and ?c2 = "ClkSetRate ''clk_audio_hub'' (fp * 4)"
  let ?s2 = "ahub_issue [?c1] (s\<lparr>pllclk_freq := fp * 4, moduleclk_freq := fp * 4\<rparr>)"
  let ?s3 = "ahub_issue [?c2] ?s2\<lparr>mclk_freq := fp div 2\<rparr>"
  have m2: "moves A s ?s2" and m3: "moves A s ?s3" by (auto intro!: moves_issue)
  have live: "\<not> clk_freed CLK_HUB_PLLX4 (ahub_log s)" "\<not> clk_freed CLK_HUB (ahub_log s @ [?c1])"
    using c [OF True] by (auto simp: hub_clocks_def)
  obtain rc s4 where s4: "ahub_settings ?fs ?s3 = Some (rc, s4)" "moves A ?s3 s4"
    using fs moves_ready [OF m3 s] unfolding returns_def by blast
  show ?thesis
    using True fp m2 m3 s4 moves_trans [OF m3 s4(2)] s live
    by (auto simp: T507AhubImplHwParams_def sets_rates_def ready_infos Let_def)
qed

lemma impl_hw_params_faults:
  assumes "ahub_ready s" "sets_rates st format rate" "clk_freed CLK_HUB_PLLX4 (ahub_log s)"
  shows "T507AhubImplHwParams k st format channels rate s = None"
  using assms by (auto simp: T507AhubImplHwParams_def sets_rates_def ready_infos Let_def)

lemma device_init_returns:
  assumes "ahub_ready s" shows "\<exists>s'. T507AhubImplDeviceInit s = Some s' \<and> moves A s s'"
proof -
  let ?t = "tdm_num (dts_info s)" and ?a = "apb_num (dts_info s)"
  have d: "?a \<le> 2" "?t \<le> 3" "tx_pin (dts_info s) \<le> 3" using ready_infos [OF assms] by auto
  have "list_all (in_window A) (route_calls (dts_info s))"
    using d by (auto simp: route_calls_def Let_def regs_ok split: option.splits)
  then show ?thesis
    using shifts_ok(1,2) [OF d(2)] shifts_ok(3-6) [OF d(1)] d
    by (auto simp: T507AhubImplDeviceInit_def ready_infos [OF assms] Let_def regs_ok intro!: moves_issue)
qed

lemma rx_route_returns:
  assumes "ahub_ready s" shows "\<exists>s'. sunxi_ahub_dai_rx_route enable s = Some s' \<and> moves A s s'"
  by (auto simp: sunxi_ahub_dai_rx_route_def ready_infos [OF assms] shift_rx Let_def regs_ok intro!: moves_issue)

lemma trigger_returns: "returns A (T507AhubDaiTrigger cmd)"
  unfolding returns_def
proof (intro allI impI)
  fix s assume s: "ahub_ready s"
  have "\<exists>rc s'. ahub_trigger st en s = Some (rc, s') \<and> moves A s s'" for st en
    using rx_route_returns [OF s, of en A]
    by (auto simp: ahub_trigger_def T507AhubImplTrigger_def ready_infos [OF s])
  then show "\<exists>rc s'. T507AhubDaiTrigger cmd s = Some (rc, s') \<and> moves A s s'"
    by (cases cmd) (auto simp: T507AhubDaiTrigger_def)
qed

text \<open>The operations the framework performs on a probed hub; register reads and writes take their
  address from the framework.\<close>

datatype ahub_op =
    AhubInit "nat \<Rightarrow> int" bool
  | AhubRead u32
  | AhubWrite u32 u32
  | AhubTrigger pcm_cmd
  | AhubHwParams AudioStreamType AudioFormat u32 u32

fun ahub_step :: "kernel \<Rightarrow> ahub_op \<Rightarrow> ahub \<Rightarrow> (int \<times> ahub) option" where
  "ahub_step k (AhubInit fw flag) s = do { (rc, _, s1) \<leftarrow> T507AhubDeviceInit fw True flag s; Some (rc, s1) }"
| "ahub_step k (AhubRead r) s = do { (rc, _, s1) \<leftarrow> T507AhubDeviceReadReg k r True s; Some (rc, s1) }"
| "ahub_step k (AhubWrite r v) s = T507AhubDeviceWriteReg r v s"
| "ahub_step k (AhubTrigger cmd) s = T507AhubDaiTrigger cmd s"
| "ahub_step k (AhubHwParams st f ch rate) s = T507AhubDaiHwParams k True st f ch rate s"

primrec ahub_run :: "kernel \<Rightarrow> ahub_op list \<Rightarrow> ahub \<Rightarrow> ahub option" where
  "ahub_run k [] s = Some s"
| "ahub_run k (x # xs) s = do { (rc, s1) \<leftarrow> ahub_step k x s; ahub_run k xs s1 }"

text \<open>The register numbers the framework passes, and the operations that set the rates of the clocks.\<close>

fun names_regs :: "ahub_op \<Rightarrow> u32 set" where
  "names_regs (AhubRead r) = {r}"
| "names_regs (AhubWrite r v) = {r}"
| "names_regs _ = {}"

fun needs_clocks :: "ahub_op \<Rightarrow> bool" where
  "needs_clocks (AhubHwParams st f ch rate) \<longleftrightarrow> sets_rates st f rate"
| "needs_clocks _ \<longleftrightarrow> False"

lemma step_returns:
  assumes "ahub_ready s" "names_regs op \<subseteq> A" "needs_clocks op \<Longrightarrow> hub_clocks s"
  shows "\<exists>rc s'. ahub_step k op s = Some (rc, s') \<and> moves A s s'"
proof (cases op)
  case (AhubInit fw flag)
  then show ?thesis using device_init_returns [OF assms(1)] by (fastforce simp: T507AhubDeviceInit_def)
next
  case (AhubHwParams st f ch rate)
  then show ?thesis
    using impl_hw_params_returns [OF assms(1), of st f rate k ch A] assms(3) by (fastforce simp: T507AhubDaiHwParams_def)
next
  case (AhubTrigger cmd)
  then show ?thesis using trigger_returns [of A cmd] assms(1) by (simp add: returns_def)
next
  case (AhubRead r)
  then show ?thesis using assms
    by (auto simp: T507AhubDeviceReadReg_def T507AhubImplRegmapRead_def ready_infos intro!: moves_issue)
next
  case (AhubWrite r v)
  then show ?thesis using assms
    by (auto simp: T507AhubDeviceWriteReg_def T507AhubImplRegmapWrite_def ready_infos intro!: moves_issue)
qed

lemma step_faults:
  assumes "ahub_ready s" "needs_clocks op" "clk_freed CLK_HUB_PLLX4 (ahub_log s)"
  shows "ahub_step k op s = None"
  using assms impl_hw_params_faults by (cases op) (auto simp: T507AhubDaiHwParams_def)

lemma run_returns:
  assumes "ahub_ready s" "\<Union> (names_regs ` set ops) \<subseteq> A" "list_ex needs_clocks ops \<Longrightarrow> hub_clocks s"
  shows "\<exists>s'. ahub_run k ops s = Some s' \<and> moves A s s'"
  using assms
proof (induction ops arbitrary: s)
  case (Cons x xs)
  obtain rc s1 where x: "ahub_step k x s = Some (rc, s1)" "moves A s s1"
    using step_returns [of s x A k] Cons.prems by auto
  moreover obtain s2 where "ahub_run k xs s1 = Some s2" "moves A s1 s2"
    using Cons.IH [OF moves_ready [OF x(2) Cons.prems(1)]] Cons.prems(2,3) moves_clocks [OF x(2)] by auto
  ultimately show ?case by (auto intro: moves_trans)
qed simp

lemma run_faults:
  assumes "ahub_ready s" "list_ex needs_clocks ops" "clk_freed CLK_HUB_PLLX4 (ahub_log s)"
  shows "ahub_run k ops s = None"
  using assms
proof (induction ops arbitrary: s)
  case (Cons x xs)
  show ?case
  proof (cases "needs_clocks x")
    case True
    then show ?thesis using step_faults [OF Cons.prems(1) _ Cons.prems(3)] by simp
  next
    case False
    then obtain rc s1 where x: "ahub_step k x s = Some (rc, s1)" "moves (names_regs x) s s1"
      using step_returns [OF Cons.prems(1) order_refl] by blast
    then have "clk_freed CLK_HUB_PLLX4 (ahub_log s1)" using Cons.prems(3) by (auto simp: moves_def)
    then have "ahub_run k xs s1 = None"
      using Cons.IH [OF moves_ready [OF x(2) Cons.prems(1)]] Cons.prems(2) False by simp
    then show ?thesis by (simp add: x(1))
  qed
qed simp

lemma read_num_le: "fst (read_num k prop limit l) \<le> limit"
  by (auto simp: read_num_def ask_defs Let_def)

lemma dts_init_ok: "snd_sunxi_ahub_dts_params_init k l = (rc, d, l') \<Longrightarrow> rc = 0 \<and> dts_ok d"
  by (auto simp: snd_sunxi_ahub_dts_params_init_def dts_ok_def read_num_le split: prod.splits)
    (metis fst_conv read_num_le)+

lemma probe_ready:
  assumes "sunxi_ahub_dev_probe k s = (0, r, s')" shows "ahub_ready s'"
  using assms dts_init_ok
  by (auto simp: sunxi_ahub_dev_probe_def ask_defs err_defs Let_def ahub_ready_def split: if_splits prod.splits)

text \<open>After a successful probe the two handles are freed together, exactly when the bus clock was
  taken and did not start.\<close>

lemma stages_keep_handles:
  "snd_sunxi_ahub_regulator_init k l = (rc, p, l') \<Longrightarrow> clk_freed c l' = clk_freed c l"
  "snd_sunxi_ahub_mem_init k l = (rc, u, l') \<Longrightarrow> clk_freed c l' = clk_freed c l"
  "snd_sunxi_ahub_dts_params_init k l = (rc, d, l') \<Longrightarrow> clk_freed c l' = clk_freed c l"
  "snd_sunxi_ahub_pin_init k l = (rc, b, l') \<Longrightarrow> clk_freed c l' = clk_freed c l"
  by (auto simp: snd_sunxi_ahub_regulator_init_def snd_sunxi_ahub_mem_init_def snd_sunxi_ahub_dts_params_init_def
      snd_sunxi_ahub_pin_init_def read_num_def ask_defs Let_def split: if_splits)

lemma clk_init_handles:
  assumes "snd_sunxi_ahub_clk_init k l = (0, u, l')" "\<not> clk_freed CLK_HUB_PLLX4 l" "\<not> clk_freed CLK_HUB l"
  shows "clk_freed CLK_HUB l' = clk_freed CLK_HUB_PLLX4 l'"
    "(\<And>m. k_int k m (ClkEnable CLK_HUB_BUS) = 0) \<Longrightarrow> \<not> clk_freed CLK_HUB_PLLX4 l'"
    "handles_valid k \<Longrightarrow> (\<And>m. k_int k m (ClkEnable CLK_HUB_BUS) \<noteq> 0) \<Longrightarrow> clk_freed CLK_HUB_PLLX4 l'"
  using assms valid_err_nonzero
  by (fastforce simp: snd_sunxi_ahub_clk_init_def ask_defs IS_ERR_OR_NULL_def err_defs Let_def split: if_splits)+

lemma probe_clocks:
  assumes "sunxi_ahub_dev_probe k s = (0, r, s0)"
  shows "hub_clocks s0 \<longleftrightarrow> \<not> clk_freed CLK_HUB_PLLX4 (ahub_log s0)"
    "(\<And>m. k_int k m (ClkEnable CLK_HUB_BUS) = 0) \<Longrightarrow> hub_clocks s0"
    "handles_valid k \<Longrightarrow> (\<And>m. k_int k m (ClkEnable CLK_HUB_BUS) \<noteq> 0) \<Longrightarrow> \<not> hub_clocks s0"
proof -
  let ?l0 = "ahub_log s @ [Kzalloc]"
  obtain rc1 rg l1 where 1: "snd_sunxi_ahub_regulator_init k ?l0 = (rc1, rg, l1)" by (metis prod.exhaust)
  obtain rc2 l2 where 2: "snd_sunxi_ahub_mem_init k l1 = (rc2, (), l2)" by (metis (full_types) old.unit.exhaust prod.exhaust)
  obtain rc3 l3 where 3: "snd_sunxi_ahub_clk_init k l2 = (rc3, (), l3)" by (metis (full_types) old.unit.exhaust prod.exhaust)
  obtain rc4 dts l4 where 4: "snd_sunxi_ahub_dts_params_init k l3 = (rc4, dts, l4)" by (metis prod.exhaust)
  obtain rc5 pn l5 where 5: "snd_sunxi_ahub_pin_init k l4 = (rc5, pn, l5)" by (metis prod.exhaust)
  have "rc3 = 0" and log: "ahub_log s0 = l5 @ [SysfsCreate]"
    using assms by (auto simp: sunxi_ahub_dev_probe_def ask_defs err_defs Let_def 1 2 3 4 5 split: if_splits)
  moreover have l2: "\<not> clk_freed c l2" for c
    using stages_keep_handles(1) [OF 1, of c] stages_keep_handles(2) [OF 2, of c] by simp
  moreover have l5: "clk_freed c l5 = clk_freed c l3" for c
    using stages_keep_handles(3) [OF 4, of c] stages_keep_handles(4) [OF 5, of c] by simp
  ultimately have h: "clk_freed CLK_HUB l3 = clk_freed CLK_HUB_PLLX4 l3"
    "(\<And>m. k_int k m (ClkEnable CLK_HUB_BUS) = 0) \<Longrightarrow> \<not> clk_freed CLK_HUB_PLLX4 l3"
    "handles_valid k \<Longrightarrow> (\<And>m. k_int k m (ClkEnable CLK_HUB_BUS) \<noteq> 0) \<Longrightarrow> clk_freed CLK_HUB_PLLX4 l3"
    using clk_init_handles [of k l2 "()" l3] 3 by auto
  show "hub_clocks s0 \<longleftrightarrow> \<not> clk_freed CLK_HUB_PLLX4 (ahub_log s0)"
    "(\<And>m. k_int k m (ClkEnable CLK_HUB_BUS) = 0) \<Longrightarrow> hub_clocks s0"
    "handles_valid k \<Longrightarrow> (\<And>m. k_int k m (ClkEnable CLK_HUB_BUS) \<noteq> 0) \<Longrightarrow> \<not> hub_clocks s0"
    using h by (auto simp: hub_clocks_def log l5)
qed

section \<open>Capture parameters\<close>

text \<open>The calls that program a capture stream, in order: \<open>c\<close> is the code of the bit clock divider,
  \<open>w\<close> that of the sample width.\<close>

definition capture_calls :: "u32 \<Rightarrow> u32 \<Rightarrow> u32 \<Rightarrow> u32 \<Rightarrow> u32 \<Rightarrow> kcall list" where
  "capture_calls t a c w n =
    [set_field (SUNXI_AHUB_I2S_CLKD t) 0xf I2S_CLKD_MCLKDIV 5, set_field (SUNXI_AHUB_I2S_CLKD t) 1 I2S_CLKD_MCLK 1,
     set_field (SUNXI_AHUB_I2S_CLKD t) 0xf I2S_CLKD_BCLKDIV c,
     set_field (SUNXI_AHUB_I2S_CTL t) 3 I2S_CTL_MODE 1,
     set_field (SUNXI_AHUB_I2S_OUT_SLOT t 0) 3 I2S_OUT_OFFSET 1, set_field (SUNXI_AHUB_I2S_OUT_SLOT t 1) 3 I2S_OUT_OFFSET 1,
     set_field (SUNXI_AHUB_I2S_OUT_SLOT t 2) 3 I2S_OUT_OFFSET 1, set_field (SUNXI_AHUB_I2S_OUT_SLOT t 3) 3 I2S_OUT_OFFSET 1,
     set_field (SUNXI_AHUB_I2S_IN_SLOT t) 3 I2S_IN_OFFSET 1,
     set_field (SUNXI_AHUB_I2S_FMT0 t) 1 I2S_FMT0_LRCK_POLARITY 0, set_field (SUNXI_AHUB_I2S_FMT0 t) 1 I2S_FMT0_BCLK_POLARITY 0,
     set_field (SUNXI_AHUB_I2S_CTL t) 1 I2S_CTL_CLK_OUT 1,
     set_field (SUNXI_AHUB_I2S_FMT0 t) 7 I2S_FMT0_SW 7, set_field (SUNXI_AHUB_I2S_FMT0 t) 0x3ff I2S_FMT0_LRCK_PERIOD 31,
     set_field (SUNXI_AHUB_APBIF_RX_CTL a) 7 APBIF_RX_WS w, set_field (SUNXI_AHUB_APBIF_RXFIFO_CTL a) 3 APBIF_RX_RXOM 1,
     set_field (SUNXI_AHUB_I2S_FMT0 t) 7 I2S_FMT0_SR w,
     set_field (SUNXI_AHUB_APBIF_RX_CTL a) 0xf APBIF_RX_CHAN_NUM (n - 1),
     set_field (SUNXI_AHUB_I2S_CHCFG t) 0xf I2S_CHCFG_RX_CHANNUM (n - 1),
     set_field (SUNXI_AHUB_I2S_IN_SLOT t) 0xf I2S_IN_SLOT_NUM (n - 1),
     set_field (SUNXI_AHUB_APBIF_RXFIFO_CTL a) 1 APBIF_RX_FRX 1,
     RegWrite (SUNXI_AHUB_APBIF_RX_IRQ_STA a) (push_bit APBIF_RX_UV_PEND 1 OR push_bit APBIF_RX_AV_PEND 1),
     RegWrite (SUNXI_AHUB_APBIF_RXFIFO_CNT a) 0]"

text \<open>The codes of the bit clock dividers: the divider is \<open>4 fp / (64 rate)\<close> and is always exact.\<close>

lemma bclk_exact:
  assumes "ahub_freq_point rate = Some fp"
  shows "\<exists>c. map_of clk_ratio_map (fp * 4 div (64 * rate)) = Some c"
    "unat (fp * 4 div (64 * rate)) * (64 * unat rate) = 4 * unat fp"
  using assms by (auto simp: ahub_freq_point_def clk_ratio_map_def split: if_splits)

lemma mclk_exact:
  assumes "ahub_freq_point rate = Some fp"
  shows "fp div 2 \<noteq> 0" "fp * 4 \<noteq> 0" "map_of clk_ratio_map (fp * 4 div (fp div 2)) = Some 5"
    "8 * unat (fp div 2) = 4 * unat fp" "unat (fp * 4) = 4 * unat fp"
  using assms by (auto simp: ahub_freq_point_def clk_ratio_map_def split: if_splits)

lemma dai_fmt_parts:
  "fmt_mode ahub_dai_fmt = Some (1, 1, None)" "fmt_polarity ahub_dai_fmt = Some (0, 0)"
  "fmt_clk_out ahub_dai_fmt = Some 1" "\<not> is_dsp ahub_dai_fmt" "tdm_slots ahub_dai_fmt 2 = Some 1"
  by (simp_all add: ahub_dai_fmt_def daifmt_defs fmt_mode_def fmt_polarity_def fmt_clk_out_def is_dsp_def
      tdm_slots_def Let_def)

definition hub_clocks_accept :: "kernel \<Rightarrow> u32 \<Rightarrow> klog \<Rightarrow> bool" where
  "hub_clocks_accept k fp l \<longleftrightarrow> k_int k l (ClkSetRate CLK_HUB_PLLX4 (fp * 4)) = 0 \<and>
     k_int k (l @ [ClkSetRate CLK_HUB_PLLX4 (fp * 4)]) (ClkSetRate CLK_HUB (fp * 4)) = 0"

lemma width_code_formats:
  "width_code format = Some w \<Longrightarrow>
   format \<in> {AUDIO_FORMAT_TYPE_PCM_16_BIT, AUDIO_FORMAT_TYPE_PCM_24_BIT, AUDIO_FORMAT_TYPE_PCM_32_BIT}"
  by (auto simp: width_code_def split: AudioFormat.splits)

text \<open>Each setting of a ready hub, as the calls it issues.\<close>

lemma settings_issue:
  assumes "ahub_ready s"
  shows "freq \<noteq> 0 \<Longrightarrow> pllclk_freq s \<noteq> 0 \<Longrightarrow> map_of clk_ratio_map (pllclk_freq s div freq) = Some c \<Longrightarrow>
      sunxi_ahub_dai_set_sysclk freq s = Some (0, ahub_issue
        [set_field (SUNXI_AHUB_I2S_CLKD (tdm_num (dts_info s))) 0xf I2S_CLKD_MCLKDIV c,
         set_field (SUNXI_AHUB_I2S_CLKD (tdm_num (dts_info s))) 1 I2S_CLKD_MCLK 1] s)"
    "map_of clk_ratio_map ratio = Some c \<Longrightarrow>
      sunxi_ahub_dai_set_bclk_ratio ratio s = Some (0, ahub_issue
        [set_field (SUNXI_AHUB_I2S_CLKD (tdm_num (dts_info s))) 0xf I2S_CLKD_BCLKDIV c] s)"
    "sunxi_ahub_dai_set_fmt ahub_dai_fmt s = Some (0, ahub_issue
       (drop 3 (take 12 (capture_calls (tdm_num (dts_info s)) (apb_num (dts_info s)) c w n))) (s\<lparr>ah_fmt := ahub_dai_fmt\<rparr>))"
    "ah_fmt s = ahub_dai_fmt \<Longrightarrow> sunxi_ahub_dai_set_tdm_slot 2 32 s = Some (0, ahub_issue
       (drop 12 (take 14 (capture_calls (tdm_num (dts_info s)) (apb_num (dts_info s)) c w n))) s)"
    "st \<noteq> AUDIO_RENDER_STREAM \<Longrightarrow> width_code format = Some w \<Longrightarrow>
      sunxi_ahub_dai_hw_params st format n rate s = Some (0, ahub_issue
       (drop 14 (take 20 (capture_calls (tdm_num (dts_info s)) (apb_num (dts_info s)) c w n))) s)"
    "st \<noteq> AUDIO_RENDER_STREAM \<Longrightarrow>
      sunxi_ahub_dai_prepare st s = Some (0, ahub_issue
       (drop 20 (capture_calls (tdm_num (dts_info s)) (apb_num (dts_info s)) c w n)) s)"
  by (simp_all add: ready_infos [OF assms] sunxi_ahub_dai_set_sysclk_def sunxi_ahub_dai_set_bclk_ratio_def
      sunxi_ahub_dai_set_fmt_def dai_fmt_parts sunxi_ahub_dai_set_tdm_slot_def slot_width_map_def
      sunxi_ahub_dai_hw_params_def sunxi_ahub_dai_prepare_def capture_calls_def ahub_issue_def Let_def)

lemma ready_kept [simp]:
  "ahub_ready (ahub_issue cs s) = ahub_ready s" "ahub_ready (s\<lparr>ah_fmt := v\<rparr>) = ahub_ready s"
  "ahub_ready (s\<lparr>pllclk_freq := v\<rparr>) = ahub_ready s" "ahub_ready (s\<lparr>moduleclk_freq := v\<rparr>) = ahub_ready s"
  "ahub_ready (s\<lparr>mclk_freq := v\<rparr>) = ahub_ready s"
  by (simp_all add: ahub_ready_def)

lemma capture_run:
  assumes "ahub_ready s" "st \<noteq> AUDIO_RENDER_STREAM" "ahub_freq_point rate = Some fp" "hub_clocks_accept k fp (ahub_log s)"
    "hub_clocks s" "width_code format = Some w" "map_of clk_ratio_map (fp * 4 div (64 * rate)) = Some c"
  shows "\<exists>s'. T507AhubImplHwParams k st format n rate s = Some (HDF_SUCCESS, s') \<and>
    ahub_log s' = ahub_log s @ [ClkSetRate CLK_HUB_PLLX4 (fp * 4), ClkSetRate CLK_HUB (fp * 4)] @
      capture_calls (tdm_num (dts_info s)) (apb_num (dts_info s)) c w n \<and>
    pllclk_freq s' = fp * 4 \<and> mclk_freq s' = fp div 2 \<and> dts_info s' = dts_info s \<and> ahub_ready s'"
proof -
  let ?calls = "capture_calls (tdm_num (dts_info s)) (apb_num (dts_info s)) c w n"
  have parts: "take 3 ?calls @ drop 3 (take 12 ?calls) @ drop 12 (take 14 ?calls) @ drop 14 (take 20 ?calls) @
      drop 20 ?calls = ?calls"
    by (simp add: capture_calls_def)
  have first: "take 3 ?calls =
      [set_field (SUNXI_AHUB_I2S_CLKD (tdm_num (dts_info s))) 0xf I2S_CLKD_MCLKDIV 5,
       set_field (SUNXI_AHUB_I2S_CLKD (tdm_num (dts_info s))) 1 I2S_CLKD_MCLK 1,
       set_field (SUNXI_AHUB_I2S_CLKD (tdm_num (dts_info s))) 0xf I2S_CLKD_BCLKDIV c]"
    by (simp add: capture_calls_def)
  note issue = settings_issue(1,2) settings_issue(3-6) [where c = c and w = w and n = n]
  show ?thesis
    using assms mclk_exact [OF assms(3)] width_code_formats [OF assms(6)] parts unfolding first
    by (auto simp: T507AhubImplHwParams_def hub_clocks_accept_def hub_clocks_def Let_def ready_infos issue)
qed

lemma capture_regs:
  assumes "t \<le> 3" "a \<le> 2"
  shows "reg_val (SUNXI_AHUB_I2S_CLKD t) (capture_calls t a c w n) x =
      put_field 0xf I2S_CLKD_BCLKDIV c (put_field 1 I2S_CLKD_MCLK 1 (put_field 0xf I2S_CLKD_MCLKDIV 5 x))"
    "reg_val (SUNXI_AHUB_I2S_FMT0 t) (capture_calls t a c w n) x =
      put_field 7 I2S_FMT0_SR w (put_field 0x3ff I2S_FMT0_LRCK_PERIOD 31 (put_field 7 I2S_FMT0_SW 7
        (put_field 1 I2S_FMT0_BCLK_POLARITY 0 (put_field 1 I2S_FMT0_LRCK_POLARITY 0 x))))"
    "reg_val (SUNXI_AHUB_I2S_CTL t) (capture_calls t a c w n) x =
      put_field 1 I2S_CTL_CLK_OUT 1 (put_field 3 I2S_CTL_MODE 1 x)"
    "reg_val (SUNXI_AHUB_I2S_CHCFG t) (capture_calls t a c w n) x = put_field 0xf I2S_CHCFG_RX_CHANNUM (n - 1) x"
    "reg_val (SUNXI_AHUB_APBIF_RX_CTL a) (capture_calls t a c w n) x =
      put_field 0xf APBIF_RX_CHAN_NUM (n - 1) (put_field 7 APBIF_RX_WS w x)"
    "reg_val (SUNXI_AHUB_I2S_IN_SLOT t) (capture_calls t a c w n) x =
      put_field 0xf I2S_IN_SLOT_NUM (n - 1) (put_field 3 I2S_IN_OFFSET 1 x)"
proof -
  note cases = u32_le_3 [OF assms(1)] u32_le_2 [OF assms(2)]
  show "reg_val (SUNXI_AHUB_I2S_CLKD t) (capture_calls t a c w n) x =
      put_field 0xf I2S_CLKD_BCLKDIV c (put_field 1 I2S_CLKD_MCLK 1 (put_field 0xf I2S_CLKD_MCLKDIV 5 x))"
    using cases by (elim insertE emptyE; simp add: capture_calls_def ahub_regs)
  show "reg_val (SUNXI_AHUB_I2S_FMT0 t) (capture_calls t a c w n) x =
      put_field 7 I2S_FMT0_SR w (put_field 0x3ff I2S_FMT0_LRCK_PERIOD 31 (put_field 7 I2S_FMT0_SW 7
        (put_field 1 I2S_FMT0_BCLK_POLARITY 0 (put_field 1 I2S_FMT0_LRCK_POLARITY 0 x))))"
    using cases by (elim insertE emptyE; simp add: capture_calls_def ahub_regs)
  show "reg_val (SUNXI_AHUB_I2S_CTL t) (capture_calls t a c w n) x =
      put_field 1 I2S_CTL_CLK_OUT 1 (put_field 3 I2S_CTL_MODE 1 x)"
    using cases by (elim insertE emptyE; simp add: capture_calls_def ahub_regs)
  show "reg_val (SUNXI_AHUB_I2S_CHCFG t) (capture_calls t a c w n) x = put_field 0xf I2S_CHCFG_RX_CHANNUM (n - 1) x"
    using cases by (elim insertE emptyE; simp add: capture_calls_def ahub_regs)
  show "reg_val (SUNXI_AHUB_APBIF_RX_CTL a) (capture_calls t a c w n) x =
      put_field 0xf APBIF_RX_CHAN_NUM (n - 1) (put_field 7 APBIF_RX_WS w x)"
    using cases by (elim insertE emptyE; simp add: capture_calls_def ahub_regs)
  show "reg_val (SUNXI_AHUB_I2S_IN_SLOT t) (capture_calls t a c w n) x =
      put_field 0xf I2S_IN_SLOT_NUM (n - 1) (put_field 3 I2S_IN_OFFSET 1 x)"
    using cases by (elim insertE emptyE; simp add: capture_calls_def ahub_regs)
qed

section \<open>Starting and stopping\<close>

definition rx_bits :: "ahub_dts \<Rightarrow> (u32 \<times> nat) list" where
  "rx_bits d = [(SUNXI_AHUB_I2S_CTL (tdm_num d), 12 + unat (rx_pin d)), (SUNXI_AHUB_I2S_CTL (tdm_num d), I2S_CTL_RXEN),
     (SUNXI_AHUB_APBIF_RX_CTL (apb_num d), APBIF_RX_START), (SUNXI_AHUB_APBIF_RX_IRQ_CTL (apb_num d), APBIF_RX_DRQ)]"

definition rx_calls :: "ahub_dts \<Rightarrow> bool \<Rightarrow> kcall list" where
  "rx_calls d enable = (let b = (if enable then 1 else 0);
       sdi = set_field (SUNXI_AHUB_I2S_CTL (tdm_num d)) 1 (12 + unat (rx_pin d)) b;
       rxen = set_field (SUNXI_AHUB_I2S_CTL (tdm_num d)) 1 I2S_CTL_RXEN b
     in (if enable then [sdi, rxen] else [rxen, sdi]) @
        [set_field (SUNXI_AHUB_APBIF_RX_CTL (apb_num d)) 1 APBIF_RX_START b,
         set_field (SUNXI_AHUB_APBIF_RX_IRQ_CTL (apb_num d)) 1 APBIF_RX_DRQ b])"

lemma capture_trigger_issues:
  assumes "ahub_ready s"
  shows "cmd \<in> {CAPTURE_START, CAPTURE_RESUME} \<Longrightarrow>
      T507AhubDaiTrigger cmd s = Some (HDF_SUCCESS, ahub_issue (rx_calls (dts_info s) True) s)"
    "cmd \<in> {CAPTURE_STOP, CAPTURE_PAUSE} \<Longrightarrow>
      T507AhubDaiTrigger cmd s = Some (HDF_SUCCESS, ahub_issue (rx_calls (dts_info s) False) s)"
  using shift_rx [of "rx_pin (dts_info s)"]
  by (auto simp: T507AhubDaiTrigger_def ahub_trigger_def T507AhubImplTrigger_def sunxi_ahub_dai_rx_route_def
      ready_infos [OF assms] rx_calls_def Let_def)

lemma rx_bits_set:
  assumes "dts_ok d"
  shows "bit (reg_val r (rx_calls d enable) x) n = (if (r, n) \<in> set (rx_bits d) then enable else bit x n)"
proof -
  have "12 + unat (rx_pin d) < 32" using assms by (auto simp: dts_ok_def word_le_nat_alt)
  then show ?thesis
    by (cases enable) (auto simp: rx_calls_def rx_bits_def Let_def bit_put_1 ahub_bits)
qed

text \<open>A probed hub before any other call.\<close>

definition demo_ahub :: ahub where
  "demo_ahub = \<lparr>g_ahub_pdev = True, drvdata = True,
     dts_info = \<lparr>apb_num = 1, tdm_num = 2, tx_pin = 0, rx_pin = 3\<rparr>, ah_fmt = 0, pllclk_freq = 0,
     moduleclk_freq = 0, mclk_freq = 0, ahub_log = []\<rparr>"

lemma demo_ready: "ahub_ready demo_ahub"
  by (simp add: ahub_ready_def demo_ahub_def dts_ok_def)

lemma demo_clocks: "hub_clocks demo_ahub"
  by (simp add: hub_clocks_def clk_freed_def demo_ahub_def)

lemma demo_probe:
  "\<exists>rg pins s0. sunxi_ahub_dev_probe yes_kernel (demo_ahub\<lparr>g_ahub_pdev := False\<rparr>) = (0, (rg, pins), s0)"
proof -
  let ?s = "demo_ahub\<lparr>g_ahub_pdev := False\<rparr>"
  obtain rc rg pins s0 where run: "sunxi_ahub_dev_probe yes_kernel ?s = (rc, (rg, pins), s0)" by (metis prod.exhaust)
  then have "rc = 0"
    by (auto simp: sunxi_ahub_dev_probe_def snd_sunxi_ahub_mem_init_def snd_sunxi_ahub_clk_init_def
        snd_sunxi_ahub_regulator_init_def snd_sunxi_ahub_pin_init_def ask_defs IS_ERR_OR_NULL_def Let_def
        dest: dts_init_ok split: prod.splits if_splits)
  then show ?thesis using run by blast
qed

section \<open>Properties\<close>

text \<open>
  C18. For each of the fourteen sampling rates the driver accepts, with clocks that accept their rates,
  capture parameters succeed and the dividers are exact: the master clock divider in the clock
  register times the master clock of \<open>fp / 2\<close> is the PLL frequency, and so is the bit clock divider
  times a bit clock of 64 cycles per sample. The frame period is 32 bit clocks per channel, slots are
  32 bits wide and start one bit clock after the frame edge as in the I2S format, and the hub drives the
  clocks. The sample width is in the fields of the serial interface and of the bus interface; the
  number of channels is in the field of the bus interface and in the channel and slot counts of the
  serial one. The handles of the clocks must not have been given back.
\<close>
theorem ahub_capture_clocks:
  assumes "ahub_ready s" "ahub_freq_point rate = Some fp" "hub_clocks_accept k fp (ahub_log s)"
    "hub_clocks s" "width_code format = Some w" "1 \<le> n" "n \<le> 16"
  shows "\<exists>s' m b. T507AhubDaiHwParams k True AUDIO_CAPTURE_STREAM format n rate s = Some (HDF_SUCCESS, s') \<and>
    (let t = tdm_num (dts_info s); a = apb_num (dts_info s);
         clkd = reg_val (SUNXI_AHUB_I2S_CLKD t) (ahub_log s') x1; fmt0 = reg_val (SUNXI_AHUB_I2S_FMT0 t) (ahub_log s') x2;
         ctl = reg_val (SUNXI_AHUB_I2S_CTL t) (ahub_log s') x3; rx = reg_val (SUNXI_AHUB_APBIF_RX_CTL a) (ahub_log s') x4;
         chcfg = reg_val (SUNXI_AHUB_I2S_CHCFG t) (ahub_log s') x5; slot = reg_val (SUNXI_AHUB_I2S_IN_SLOT t) (ahub_log s') x6
     in unat (pllclk_freq s') = 4 * unat fp \<and> field I2S_CLKD_MCLK 1 clkd = 1 \<and>
        (m, field I2S_CLKD_MCLKDIV 4 clkd) \<in> set clk_ratio_map \<and> unat m * unat (mclk_freq s') = unat (pllclk_freq s') \<and>
        (b, field I2S_CLKD_BCLKDIV 4 clkd) \<in> set clk_ratio_map \<and> unat b * (2 * 32 * unat rate) = unat (pllclk_freq s') \<and>
        field I2S_FMT0_LRCK_PERIOD 10 fmt0 = 32 - 1 \<and> field I2S_CTL_CLK_OUT 1 ctl = 1 \<and>
        field I2S_CTL_MODE 2 ctl = 1 \<and> field I2S_IN_OFFSET 2 slot = 1 \<and> field I2S_FMT0_SW 3 fmt0 = 7 \<and>
        field I2S_FMT0_SR 3 fmt0 = w \<and> field APBIF_RX_WS 3 rx = w \<and> field APBIF_RX_CHAN_NUM 4 rx = n - 1 \<and>
        field I2S_CHCFG_RX_CHANNUM 4 chcfg = n - 1 \<and> field I2S_IN_SLOT_NUM 4 slot = n - 1)"
proof -
  let ?b = "fp * 4 div (64 * rate)"
  obtain c where c: "map_of clk_ratio_map ?b = Some c" using bclk_exact(1) [OF assms(2)] by auto
  have d: "tdm_num (dts_info s) \<le> 3" "apb_num (dts_info s) \<le> 2"
    using assms(1) by (auto simp: ahub_ready_def dts_ok_def)
  have codes: "take_bit 4 c = c" "(8 :: u32, 5 :: u32) \<in> set clk_ratio_map" "(?b, c) \<in> set clk_ratio_map"
    using map_of_SomeD [OF c] by (auto simp: clk_ratio_map_def)
  have w: "take_bit 3 w = w" using assms(5) by (auto simp: width_code_def split: AudioFormat.splits)
  have n: "take_bit 4 (n - 1) = n - 1"
  proof -
    have "unat (n - 1) < 2 ^ 4" using assms(6,7) by (simp add: unat_sub word_le_nat_alt)
    then show ?thesis by (simp add: word_unat_eq_iff unat_mod take_bit_eq_mod)
  qed
  obtain s' where run: "T507AhubImplHwParams k AUDIO_CAPTURE_STREAM format n rate s = Some (HDF_SUCCESS, s')"
    "ahub_log s' = ahub_log s @ [ClkSetRate CLK_HUB_PLLX4 (fp * 4), ClkSetRate CLK_HUB (fp * 4)] @
      capture_calls (tdm_num (dts_info s)) (apb_num (dts_info s)) c w n"
    "pllclk_freq s' = fp * 4" "mclk_freq s' = fp div 2"
    using capture_run [OF assms(1) _ assms(2-5) c, of AUDIO_CAPTURE_STREAM n] by auto
  show ?thesis
    by (rule exI [of _ s'], rule exI [of _ "8 :: u32"], rule exI [of _ ?b])
      (simp add: T507AhubDaiHwParams_def run capture_regs [OF d] ahub_bits codes w n mclk_exact [OF assms(2)]
        bclk_exact(2) [OF assms(2)] Let_def)
qed

theorem ahub_capture_clocks_witness:
  "\<exists>s' b. T507AhubDaiHwParams yes_kernel True AUDIO_CAPTURE_STREAM AUDIO_FORMAT_TYPE_PCM_16_BIT 2 44100 demo_ahub =
      Some (HDF_SUCCESS, s') \<and>
    (b, field I2S_CLKD_BCLKDIV 4 (reg_val (SUNXI_AHUB_I2S_CLKD 2) (ahub_log s') 0)) \<in> set clk_ratio_map \<and>
    unat b * (2 * 32 * 44100) = 90316800 \<and>
    field I2S_IN_SLOT_NUM 4 (reg_val (SUNXI_AHUB_I2S_IN_SLOT 2) (ahub_log s') 0) = 1"
proof -
  have 1: "ahub_freq_point 44100 = Some 22579200" by (simp add: ahub_freq_point_def)
  have 2: "hub_clocks_accept yes_kernel 22579200 (ahub_log demo_ahub)" by (simp add: hub_clocks_accept_def)
  have 3: "width_code AUDIO_FORMAT_TYPE_PCM_16_BIT = Some 3" by (simp add: width_code_def)
  have d: "tdm_num (dts_info demo_ahub) = 2" by (simp add: demo_ahub_def)
  show ?thesis
    using ahub_capture_clocks [OF demo_ready 1 2 demo_clocks 3, of 2 0 0 0 0 0 0] by (auto simp: Let_def d)
qed

text \<open>
  C19. After a successful probe, whatever the device tree says, whatever the kernel answers and whatever
  parameters the framework passes, a sequence of initialisation, register accesses, hardware parameters
  and start, stop, pause and resume commands faults in exactly one case: the handles of the clocks were
  given back by the probe and the sequence holds parameters of a recording that are accepted and so
  set the rates through the freed handles. That never happens when the bus clock of the hub starts, and
  always when its handle is valid and it does not, since \<open>snd_sunxi_ahub_clk_init\<close> then puts all clocks
  and returns 0. In every other case all operations return, the parameters from the device tree stay in
  range, no shift leaves the width of a word, and every register that is addressed lies in the register
  map unless its number is one the framework itself passed to a register access.
\<close>
theorem ahub_fault_iff:
  assumes "sunxi_ahub_dev_probe k s = (0, r, s0)"
  shows "(if \<not> hub_clocks s0 \<and> list_ex needs_clocks ops then ahub_run k ops s0 = None
     else \<exists>s' cs. ahub_run k ops s0 = Some s' \<and> dts_ok (dts_info s') \<and> ahub_log s' = ahub_log s0 @ cs \<and>
       list_all (in_window (\<Union> (names_regs ` set ops))) cs) \<and>
    ((\<forall>l. k_int k l (ClkEnable CLK_HUB_BUS) = 0) \<longrightarrow> hub_clocks s0) \<and>
    (handles_valid k \<and> (\<forall>l. k_int k l (ClkEnable CLK_HUB_BUS) \<noteq> 0) \<longrightarrow> \<not> hub_clocks s0)"
proof -
  note ready = probe_ready [OF assms] and clocks = probe_clocks [OF assms]
  have "ahub_run k ops s0 = None" if "\<not> hub_clocks s0" "list_ex needs_clocks ops"
    using run_faults [OF ready that(2)] that(1) clocks(1) by blast
  moreover have "\<exists>s' cs. ahub_run k ops s0 = Some s' \<and> dts_ok (dts_info s') \<and> ahub_log s' = ahub_log s0 @ cs \<and>
      list_all (in_window (\<Union> (names_regs ` set ops))) cs" if "hub_clocks s0 \<or> \<not> list_ex needs_clocks ops"
    using run_returns [OF ready order_refl, of ops k] that ready by (fastforce simp: moves_def ahub_ready_def)
  ultimately show ?thesis using clocks(2,3) by auto
qed

theorem ahub_fault_iff_witness:
  "\<exists>r s0 s'. sunxi_ahub_dev_probe yes_kernel (demo_ahub\<lparr>g_ahub_pdev := False\<rparr>) = (0, r, s0) \<and> hub_clocks s0 \<and>
     ahub_run yes_kernel [AhubInit (\<lambda>_. 0) False, AhubHwParams AUDIO_CAPTURE_STREAM AUDIO_FORMAT_TYPE_PCM_16_BIT 0 48000,
       AhubTrigger CAPTURE_START] s0 = Some s'"
proof -
  obtain rg pins s0 where run: "sunxi_ahub_dev_probe yes_kernel (demo_ahub\<lparr>g_ahub_pdev := False\<rparr>) = (0, (rg, pins), s0)"
    using demo_probe by blast
  then show ?thesis
    using ahub_fault_iff [OF run, of "[AhubInit (\<lambda>_. 0) False,
        AhubHwParams AUDIO_CAPTURE_STREAM AUDIO_FORMAT_TYPE_PCM_16_BIT 0 48000, AhubTrigger CAPTURE_START]"]
    by (auto split: if_splits)
qed

text \<open>
  Starting capture sets exactly the four bits of the capture path and stopping it clears exactly them:
  when the path was off before, a start followed by a stop leaves the contents of every register as
  they were.
\<close>
theorem ahub_start_stop_restores:
  assumes "ahub_ready s" "\<forall>(r, n) \<in> set (rx_bits (dts_info s)). \<not> bit (reg_val r (ahub_log s) (x r)) n"
  shows "\<exists>s1 s2. T507AhubDaiTrigger CAPTURE_START s = Some (HDF_SUCCESS, s1) \<and>
    T507AhubDaiTrigger CAPTURE_STOP s1 = Some (HDF_SUCCESS, s2) \<and>
    (\<forall>r n. bit (reg_val r (ahub_log s1) (x r)) n \<longleftrightarrow>
       (r, n) \<in> set (rx_bits (dts_info s)) \<or> bit (reg_val r (ahub_log s) (x r)) n) \<and>
    (\<forall>r. reg_val r (ahub_log s2) (x r) = reg_val r (ahub_log s) (x r))"
proof -
  have d: "dts_ok (dts_info s)" using assms(1) by (simp add: ahub_ready_def)
  have "reg_val r (rx_calls (dts_info s) False) (reg_val r (rx_calls (dts_info s) True) (reg_val r (ahub_log s) (x r))) =
      reg_val r (ahub_log s) (x r)" for r
    using assms(2) by (intro bit_eqI) (auto simp: rx_bits_set [OF d])
  then show ?thesis
    using capture_trigger_issues [OF assms(1)] capture_trigger_issues [of "ahub_issue (rx_calls (dts_info s) True) s"] assms(1)
    by (auto simp: rx_bits_set [OF d])
qed

theorem ahub_start_stop_restores_witness:
  "\<exists>s1 s2. T507AhubDaiTrigger CAPTURE_START demo_ahub = Some (HDF_SUCCESS, s1) \<and>
    T507AhubDaiTrigger CAPTURE_STOP s1 = Some (HDF_SUCCESS, s2) \<and>
    bit (reg_val (SUNXI_AHUB_I2S_CTL 2) (ahub_log s1) 0) 15 \<and> (\<forall>r. reg_val r (ahub_log s2) 0 = 0)"
proof -
  have d: "dts_info demo_ahub = \<lparr>apb_num = 1, tdm_num = 2, tx_pin = 0, rx_pin = 3\<rparr>" "ahub_log demo_ahub = []"
    by (simp_all add: demo_ahub_def)
  have "(SUNXI_AHUB_I2S_CTL 2, 15) \<in> set (rx_bits (dts_info demo_ahub))" by (simp add: rx_bits_def d)
  moreover have "\<forall>(r, n) \<in> set (rx_bits (dts_info demo_ahub)). \<not> bit (reg_val r (ahub_log demo_ahub) ((\<lambda>_. 0) r)) n"
    by (simp add: d split_def)
  from ahub_start_stop_restores [OF demo_ready this]
  obtain s1 s2 where "T507AhubDaiTrigger CAPTURE_START demo_ahub = Some (HDF_SUCCESS, s1)"
    "T507AhubDaiTrigger CAPTURE_STOP s1 = Some (HDF_SUCCESS, s2)"
    "\<forall>r n. bit (reg_val r (ahub_log s1) 0) n \<longleftrightarrow>
       (r, n) \<in> set (rx_bits (dts_info demo_ahub)) \<or> bit (reg_val r (ahub_log demo_ahub) 0) n"
    "\<forall>r. reg_val r (ahub_log s2) 0 = reg_val r (ahub_log demo_ahub) 0"
    by auto
  ultimately show ?thesis by (auto simp: d)
qed

lemma pin_init_held:
  assumes "snd_sunxi_ahub_pin_init k l = (rc, pins, l')"
  shows "held k l' r = held k l r + (if rc = 0 \<and> pins \<and> r = RPins then 1 else 0)"
  using assms by (auto simp: snd_sunxi_ahub_pin_init_def stage_defs Let_def split: if_splits)

lemma dts_init_held:
  "snd_sunxi_ahub_dts_params_init k l = (rc, d, l') \<Longrightarrow> held k l' r = held k l r"
  by (auto simp: snd_sunxi_ahub_dts_params_init_def read_num_def ask_defs Let_def)

text \<open>
  With clocks that start, probing the hub is all or nothing: a failed probe gives back every clock,
  the reset line, the regulator, the memory region, the mapping and the pins it had taken. A successful
  one holds each of them once more, and removing the device gives all of them back but the driver
  record and the pins, which the kernel manages for the device.
\<close>
theorem ahub_probe_all_or_nothing:
  assumes "clocks_start k" "sunxi_ahub_dev_probe k s = (rc, (rglt, pins), s')"
  shows "(rc \<noteq> 0 \<longrightarrow> g_ahub_pdev s' = g_ahub_pdev s \<and> (\<forall>r. held k (ahub_log s') r = held k (ahub_log s) r)) \<and>
    (rc = 0 \<longrightarrow> g_ahub_pdev s' \<and>
      (\<forall>r. held k (ahub_log s') r = held k (ahub_log s) r + mem_takes () r + ahub_clk_takes () r +
         ahub_rglt_takes rglt r + (if r = RInfo \<or> r = RPins \<and> pins then 1 else 0)) \<and>
      (\<forall>r. held k (ahub_log (snd (sunxi_ahub_dev_remove rglt s'))) r =
         held k (ahub_log s) r + (if r = RInfo \<or> r = RPins \<and> pins then 1 else 0)))"
proof -
  let ?l0 = "ahub_log s @ [Kzalloc]"
  obtain rc1 rg l1 where 1: "snd_sunxi_ahub_regulator_init k ?l0 = (rc1, rg, l1)" by (metis prod.exhaust)
  obtain rc2 l2 where 2: "snd_sunxi_ahub_mem_init k l1 = (rc2, (), l2)" by (metis (full_types) old.unit.exhaust prod.exhaust)
  obtain rc3 l3 where 3: "snd_sunxi_ahub_clk_init k l2 = (rc3, (), l3)" by (metis (full_types) old.unit.exhaust prod.exhaust)
  obtain rc4 dts l4 where 4: "snd_sunxi_ahub_dts_params_init k l3 = (rc4, dts, l4)" by (metis prod.exhaust)
  obtain rc5 pn l5 where 5: "snd_sunxi_ahub_pin_init k l4 = (rc5, pn, l5)" by (metis prod.exhaust)
  have g: "rc1 = 0 \<Longrightarrow> held k l1 r = held k ?l0 r + ahub_rglt_takes rg r" "rc1 \<noteq> 0 \<Longrightarrow> held k l1 r = held k ?l0 r" for r
    using ahub_rglt.all [of k ?l0 rg l1 r] ahub_rglt.nothing [of k ?l0 rc1 rg l1 r] 1 by auto
  have m: "rc2 = 0 \<Longrightarrow> held k l2 r = held k l1 r + mem_takes () r" "rc2 \<noteq> 0 \<Longrightarrow> held k l2 r = held k l1 r" for r
    using ahub_mem.all [of k l1 "()" l2 r] ahub_mem.nothing [of k l1 rc2 "()" l2 r] 2 by auto
  have c: "rc3 = 0 \<Longrightarrow> held k l3 r = held k l2 r + ahub_clk_takes () r" "rc3 \<noteq> 0 \<Longrightarrow> held k l3 r = held k l2 r" for r
    using ahub_clk.all [of k l2 "()" l3 r] ahub_clk.nothing [of k l2 rc3 "()" l3 r] 3 assms(1) by auto
  note parts = sunxi_ahub_dev_probe_def ask_defs err_defs IS_ERR_OR_NULL_def Let_def 1 2 3 4 5
    g m c dts_init_held [OF 4] pin_init_held [OF 5] ahub_mem.undone ahub_clk.undone ahub_rglt.undone
  show ?thesis
    using assms(2) dts_init_ok [OF 4]
    by (auto simp: parts sunxi_ahub_dev_remove_def split: if_splits)
qed

theorem ahub_probe_all_or_nothing_witness:
  "\<exists>rg pins s'. sunxi_ahub_dev_probe yes_kernel (demo_ahub\<lparr>g_ahub_pdev := False\<rparr>) = (0, (rg, pins), s') \<and> g_ahub_pdev s' \<and>
    held yes_kernel (ahub_log s') (RClockOn CLK_HUB) = 1 \<and>
    held yes_kernel (ahub_log (snd (sunxi_ahub_dev_remove rg s'))) (RClockOn CLK_HUB) = 0"
proof -
  obtain rg pins s0 where run: "sunxi_ahub_dev_probe yes_kernel (demo_ahub\<lparr>g_ahub_pdev := False\<rparr>) = (0, (rg, pins), s0)"
    using demo_probe by blast
  show ?thesis
    using ahub_probe_all_or_nothing [OF yes_clocks_start run] run
    by (auto simp: mem_takes_def ahub_clk_takes_def ahub_rglt_takes_def demo_ahub_def held_def)
qed

text \<open>
  When the bus clock of the hub does not start, \<open>snd_sunxi_ahub_clk_init\<close> gives everything back and
  still reports success.
\<close>
lemma ahub_bus_clock_failure:
  assumes "k = yes_kernel\<lparr>k_int := \<lambda>l c. if c = ClkEnable CLK_HUB_BUS then -1 else 0\<rparr>"
  shows "\<exists>l'. snd_sunxi_ahub_clk_init k l = (0, (), l') \<and> held k l' r = held k l r"
proof -
  have "snd_sunxi_ahub_clk_init k l = (0, (), l @ [ResetGet, ClkGet CLK_HUB_BUS, ClkGet CLK_HUB, ClkGet CLK_HUB_PLL,
      ClkGet CLK_HUB_PLLX4, ClkSetParent CLK_HUB CLK_HUB_PLLX4, ResetDeassert, ClkEnable CLK_HUB_BUS, ResetAssert,
      ClkPut CLK_HUB_PLLX4, ClkPut CLK_HUB_PLL, ClkPut CLK_HUB, ClkPut CLK_HUB_BUS])"
    by (simp add: assms snd_sunxi_ahub_clk_init_def ask_defs IS_ERR_OR_NULL_def Let_def)
  then show ?thesis by (simp add: assms)
qed

end
