(* ===== verification/RK3399_Dai.thy ===== *)
theory RK3399_Dai
  imports Audio_Base
begin

text \<open>
  The digital audio interface of the yangfan board (\<open>rk3399_dai_ops.c\<close>): starting the interface, its
  format and clocks, hardware parameters, the trigger and the register entry points. The controller's
  registers are reached through the kernel's regmap; \<open>clk_prepare_enable\<close> and \<open>clk_enable\<close> are both
  \<open>ClkEnable\<close>. What the framework's helpers return is passed in. The argument of the one delay in the
  trigger, \<open>0d150\<close>, is no C number; the delay changes no state and is left out.

  Shown: the bit clock divider is the closest one to the wanted bit clock, and when it is exact; the
  sample width goes into the register of its stream and nothing else of it changes; after every
  sequence of commands transmitter and receiver run or rest together, as the last command said, so
  that stopping one stream stops the other; when starting the interface faults, and which clocks
  it leaves running.
\<close>

section \<open>Registers\<close>

definition I2S_TXCR :: u32 where "I2S_TXCR = 0x0000"
definition I2S_RXCR :: u32 where "I2S_RXCR = 0x0004"
definition I2S_CKR :: u32 where "I2S_CKR = 0x0008"
definition I2S_DMACR :: u32 where "I2S_DMACR = 0x0010"
definition I2S_XFER :: u32 where "I2S_XFER = 0x001c"
definition I2S_CLR :: u32 where "I2S_CLR = 0x0020"

lemmas i2s_regs = I2S_TXCR_def I2S_RXCR_def I2S_CKR_def I2S_DMACR_def I2S_XFER_def I2S_CLR_def

definition I2S_DMACR_RDE_SHIFT :: nat where "I2S_DMACR_RDE_SHIFT = 24"
definition I2S_DMACR_RDE_DISABLE :: u32 where "I2S_DMACR_RDE_DISABLE = push_bit I2S_DMACR_RDE_SHIFT 0"
definition I2S_DMACR_RDE_ENABLE :: u32 where "I2S_DMACR_RDE_ENABLE = push_bit I2S_DMACR_RDE_SHIFT 1"
definition I2S_DMACR_RDL_SHIFT :: nat where "I2S_DMACR_RDL_SHIFT = 16"
definition I2S_DMACR_RDL_MASK :: u32 where "I2S_DMACR_RDL_MASK = push_bit I2S_DMACR_RDL_SHIFT 0x1f"
definition I2S_DMACR_TDE_SHIFT :: nat where "I2S_DMACR_TDE_SHIFT = 8"
definition I2S_DMACR_TDE_DISABLE :: u32 where "I2S_DMACR_TDE_DISABLE = push_bit I2S_DMACR_TDE_SHIFT 0"
definition I2S_DMACR_TDE_ENABLE :: u32 where "I2S_DMACR_TDE_ENABLE = push_bit I2S_DMACR_TDE_SHIFT 1"
definition I2S_DMACR_TDL_SHIFT :: nat where "I2S_DMACR_TDL_SHIFT = 0"
definition I2S_DMACR_TDL_MASK :: u32 where "I2S_DMACR_TDL_MASK = push_bit I2S_DMACR_TDL_SHIFT 0x1f"
definition I2S_XFER_RXS_SHIFT :: nat where "I2S_XFER_RXS_SHIFT = 1"
definition I2S_XFER_RXS_STOP :: u32 where "I2S_XFER_RXS_STOP = push_bit I2S_XFER_RXS_SHIFT 0"
definition I2S_XFER_RXS_START :: u32 where "I2S_XFER_RXS_START = push_bit I2S_XFER_RXS_SHIFT 1"
definition I2S_XFER_TXS_SHIFT :: nat where "I2S_XFER_TXS_SHIFT = 0"
definition I2S_XFER_TXS_STOP :: u32 where "I2S_XFER_TXS_STOP = push_bit I2S_XFER_TXS_SHIFT 0"
definition I2S_XFER_TXS_START :: u32 where "I2S_XFER_TXS_START = push_bit I2S_XFER_TXS_SHIFT 1"
definition I2S_CLR_RXC :: u32 where "I2S_CLR_RXC = push_bit 1 1"
definition I2S_CLR_TXC :: u32 where "I2S_CLR_TXC = push_bit 0 1"
definition I2S_CKR_MDIV_SHIFT :: nat where "I2S_CKR_MDIV_SHIFT = 16"
definition I2S_CKR_TSD_SHIFT :: nat where "I2S_CKR_TSD_SHIFT = 0"
definition I2S_CKR_RSD_SHIFT :: nat where "I2S_CKR_RSD_SHIFT = 8"
definition I2S_CKR_MDIV_MASK :: u32 where "I2S_CKR_MDIV_MASK = push_bit I2S_CKR_MDIV_SHIFT 0xff"
definition I2S_CKR_TSD_MASK :: u32 where "I2S_CKR_TSD_MASK = push_bit I2S_CKR_TSD_SHIFT 0xff"
definition I2S_CKR_RSD_MASK :: u32 where "I2S_CKR_RSD_MASK = push_bit I2S_CKR_RSD_SHIFT 0xff"
definition I2S_CKR_MSS_SHIFT :: nat where "I2S_CKR_MSS_SHIFT = 27"
definition I2S_CKR_MSS_MASTER :: u32 where "I2S_CKR_MSS_MASTER = push_bit I2S_CKR_MSS_SHIFT 0"
definition I2S_CKR_MSS_SLAVE :: u32 where "I2S_CKR_MSS_SLAVE = push_bit I2S_CKR_MSS_SHIFT 1"
definition I2S_CKR_MSS_MASK :: u32 where "I2S_CKR_MSS_MASK = push_bit I2S_CKR_MSS_SHIFT 1"
definition I2S_CKR_CKP_SHIFT :: nat where "I2S_CKR_CKP_SHIFT = 26"
definition I2S_CKR_CKP_NORMAL :: u32 where "I2S_CKR_CKP_NORMAL = push_bit I2S_CKR_CKP_SHIFT 0"
definition I2S_CKR_CKP_INVERTED :: u32 where "I2S_CKR_CKP_INVERTED = push_bit I2S_CKR_CKP_SHIFT 1"
definition I2S_CKR_CKP_MASK :: u32 where "I2S_CKR_CKP_MASK = push_bit I2S_CKR_CKP_SHIFT 1"
definition I2S_CKR_RLP_SHIFT :: nat where "I2S_CKR_RLP_SHIFT = 25"
definition I2S_CKR_RLP_NORMAL :: u32 where "I2S_CKR_RLP_NORMAL = push_bit I2S_CKR_RLP_SHIFT 0"
definition I2S_CKR_RLP_INVERTED :: u32 where "I2S_CKR_RLP_INVERTED = push_bit I2S_CKR_RLP_SHIFT 1"
definition I2S_CKR_RLP_MASK :: u32 where "I2S_CKR_RLP_MASK = push_bit I2S_CKR_RLP_SHIFT 1"
definition I2S_CKR_TLP_SHIFT :: nat where "I2S_CKR_TLP_SHIFT = 24"
definition I2S_CKR_TLP_NORMAL :: u32 where "I2S_CKR_TLP_NORMAL = push_bit I2S_CKR_TLP_SHIFT 0"
definition I2S_CKR_TLP_INVERTED :: u32 where "I2S_CKR_TLP_INVERTED = push_bit I2S_CKR_TLP_SHIFT 1"
definition I2S_CKR_TLP_MASK :: u32 where "I2S_CKR_TLP_MASK = push_bit I2S_CKR_TLP_SHIFT 1"
definition I2S_IO_DIRECTION_MASK :: u32 where "I2S_IO_DIRECTION_MASK = 7"
definition I2S_IO_8CH_OUT_2CH_IN :: u32 where "I2S_IO_8CH_OUT_2CH_IN = 0"
definition I2S_IO_6CH_OUT_4CH_IN :: u32 where "I2S_IO_6CH_OUT_4CH_IN = 4"
definition I2S_IO_4CH_OUT_6CH_IN :: u32 where "I2S_IO_4CH_OUT_6CH_IN = 6"
definition I2S_IO_2CH_OUT_8CH_IN :: u32 where "I2S_IO_2CH_OUT_8CH_IN = 7"
definition I2S_CSR_SHIFT :: nat where "I2S_CSR_SHIFT = 15"
definition I2S_CHN_2 :: u32 where "I2S_CHN_2 = push_bit I2S_CSR_SHIFT 0"
definition I2S_CHN_4 :: u32 where "I2S_CHN_4 = push_bit I2S_CSR_SHIFT 1"
definition I2S_CHN_6 :: u32 where "I2S_CHN_6 = push_bit I2S_CSR_SHIFT 2"
definition I2S_CHN_8 :: u32 where "I2S_CHN_8 = push_bit I2S_CSR_SHIFT 3"
definition I2S_TXCR_CSR_SHIFT :: nat where "I2S_TXCR_CSR_SHIFT = 15"
definition I2S_TXCR_CSR_MASK :: u32 where "I2S_TXCR_CSR_MASK = push_bit I2S_TXCR_CSR_SHIFT 3"
definition I2S_TXCR_IBM_SHIFT :: nat where "I2S_TXCR_IBM_SHIFT = 9"
definition I2S_TXCR_IBM_NORMAL :: u32 where "I2S_TXCR_IBM_NORMAL = push_bit I2S_TXCR_IBM_SHIFT 0"
definition I2S_TXCR_IBM_LSJM :: u32 where "I2S_TXCR_IBM_LSJM = push_bit I2S_TXCR_IBM_SHIFT 1"
definition I2S_TXCR_IBM_RSJM :: u32 where "I2S_TXCR_IBM_RSJM = push_bit I2S_TXCR_IBM_SHIFT 2"
definition I2S_TXCR_IBM_MASK :: u32 where "I2S_TXCR_IBM_MASK = push_bit I2S_TXCR_IBM_SHIFT 3"
definition I2S_TXCR_PBM_SHIFT :: nat where "I2S_TXCR_PBM_SHIFT = 7"
definition I2S_TXCR_PBM_MASK :: u32 where "I2S_TXCR_PBM_MASK = push_bit I2S_TXCR_PBM_SHIFT 3"
definition I2S_TXCR_TFS_SHIFT :: nat where "I2S_TXCR_TFS_SHIFT = 5"
definition I2S_TXCR_TFS_PCM :: u32 where "I2S_TXCR_TFS_PCM = push_bit I2S_TXCR_TFS_SHIFT 1"
definition I2S_TXCR_TFS_MASK :: u32 where "I2S_TXCR_TFS_MASK = push_bit I2S_TXCR_TFS_SHIFT 1"
definition I2S_TXCR_VDW_SHIFT :: nat where "I2S_TXCR_VDW_SHIFT = 0"
definition I2S_TXCR_VDW_MASK :: u32 where "I2S_TXCR_VDW_MASK = push_bit I2S_TXCR_VDW_SHIFT 0x1f"
definition I2S_RXCR_CSR_SHIFT :: nat where "I2S_RXCR_CSR_SHIFT = 15"
definition I2S_RXCR_CSR_MASK :: u32 where "I2S_RXCR_CSR_MASK = push_bit I2S_RXCR_CSR_SHIFT 3"
definition I2S_RXCR_IBM_SHIFT :: nat where "I2S_RXCR_IBM_SHIFT = 9"
definition I2S_RXCR_IBM_NORMAL :: u32 where "I2S_RXCR_IBM_NORMAL = push_bit I2S_RXCR_IBM_SHIFT 0"
definition I2S_RXCR_IBM_LSJM :: u32 where "I2S_RXCR_IBM_LSJM = push_bit I2S_RXCR_IBM_SHIFT 1"
definition I2S_RXCR_IBM_RSJM :: u32 where "I2S_RXCR_IBM_RSJM = push_bit I2S_RXCR_IBM_SHIFT 2"
definition I2S_RXCR_IBM_MASK :: u32 where "I2S_RXCR_IBM_MASK = push_bit I2S_RXCR_IBM_SHIFT 3"
definition I2S_RXCR_PBM_SHIFT :: nat where "I2S_RXCR_PBM_SHIFT = 7"
definition I2S_RXCR_PBM_MASK :: u32 where "I2S_RXCR_PBM_MASK = push_bit I2S_RXCR_PBM_SHIFT 3"
definition I2S_RXCR_TFS_SHIFT :: nat where "I2S_RXCR_TFS_SHIFT = 5"
definition I2S_RXCR_TFS_PCM :: u32 where "I2S_RXCR_TFS_PCM = push_bit I2S_RXCR_TFS_SHIFT 1"
definition I2S_RXCR_TFS_MASK :: u32 where "I2S_RXCR_TFS_MASK = push_bit I2S_RXCR_TFS_SHIFT 1"
definition I2S_RXCR_VDW_SHIFT :: nat where "I2S_RXCR_VDW_SHIFT = 0"
definition I2S_RXCR_VDW_MASK :: u32 where "I2S_RXCR_VDW_MASK = push_bit I2S_RXCR_VDW_SHIFT 0x1f"

definition HALF_MILLION :: u64 where "HALF_MILLION = 500000"
definition ONE_MILLION :: u64 where "ONE_MILLION = 1000000"

definition I2sRxcrPbmMode :: "u32 \<Rightarrow> u32" where "I2sRxcrPbmMode x = push_bit I2S_RXCR_PBM_SHIFT x"
definition I2sDmacrRdl :: "u32 \<Rightarrow> u32" where "I2sDmacrRdl x = push_bit I2S_DMACR_RDL_SHIFT (x - 1)"
definition I2sDmacrTdl :: "u32 \<Rightarrow> u32" where "I2sDmacrTdl x = push_bit I2S_DMACR_TDL_SHIFT x"
definition I2sCkrMdiv :: "u32 \<Rightarrow> u32" where "I2sCkrMdiv x = push_bit I2S_CKR_MDIV_SHIFT (x - 1)"
definition I2sCkrTsd :: "u32 \<Rightarrow> u32" where "I2sCkrTsd x = push_bit I2S_CKR_TSD_SHIFT (x - 1)"
definition I2sCkrRsd :: "u32 \<Rightarrow> u32" where "I2sCkrRsd x = push_bit I2S_CKR_RSD_SHIFT (x - 1)"
definition I2sTxcrPbmMode :: "u32 \<Rightarrow> u32" where "I2sTxcrPbmMode x = push_bit I2S_TXCR_PBM_SHIFT x"
definition I2sTxcrVdw :: "u32 \<Rightarrow> u32" where "I2sTxcrVdw x = push_bit I2S_TXCR_VDW_SHIFT (x - 1)"

section \<open>State\<close>

text \<open>The fields of the controller's record the driver uses: \<open>grf_ok\<close> says that \<open>grf\<close> is no error
  pointer, \<open>pins\<close> is the register offset and shift it points to.\<close>

record rk_i2s_dev =
  rx_start :: bool
  is_master_mode :: bool
  pins :: "(u32 \<times> u32) option"
  grf_ok :: bool
  bclk_fs :: u32
  mclk_root_rate :: u32
  mclk_root_initial_rate :: u32
  clk_ppm :: int
  mclk_calibrate :: bool

record pcm_info =
  pi_channels :: u32
  pi_bitWidth :: u32
  pi_rate :: u32
  pi_streamType :: AudioStreamType

text \<open>\<open>g_rkI2SDev\<close> is set by the first start of the interface; using it before faults.\<close>

record rk_dai =
  g_rkI2SDev :: "rk_i2s_dev option"
  pcmInfo :: pcm_info
  rk_log :: klog

definition rk_issue :: "kcall list \<Rightarrow> rk_dai \<Rightarrow> rk_dai" where
  "rk_issue cs s = s\<lparr>rk_log := rk_log s @ cs\<rparr>"

definition set_dev :: "rk_i2s_dev \<Rightarrow> rk_dai \<Rightarrow> rk_dai" where
  "set_dev d s = s\<lparr>g_rkI2SDev := Some d\<rparr>"

section \<open>Register entry points\<close>

text \<open>Neither reads nor writes reach the hardware: \<open>val\<close> is the variable the pointer refers to.\<close>

definition DaiDeviceReadReg :: "u32 \<Rightarrow> u32 option \<Rightarrow> int \<times> u32 option" where
  "DaiDeviceReadReg reg val = (case val of
     None \<Rightarrow> (HDF_FAILURE, None)
   | Some v \<Rightarrow> if reg = 0xffffff then (HDF_SUCCESS, Some v) else (HDF_SUCCESS, Some 0))"

definition DaiDeviceWriteReg :: "u32 \<Rightarrow> u32 \<Rightarrow> int" where
  "DaiDeviceWriteReg reg value = HDF_SUCCESS"

definition DaiDeviceRegUpdateBits :: "u32 \<Rightarrow> u32 \<Rightarrow> u32 \<Rightarrow> int" where
  "DaiDeviceRegUpdateBits reg m val = HDF_SUCCESS"

text \<open>\<open>regAddr\<close> is the value of an uninitialised local variable; \<open>fw\<close> are the codes of the framework
  calls. The result has the stored address and the flag \<open>daiInitFlag\<close>.\<close>

definition DaiDeviceInit ::
    "(nat \<Rightarrow> int) \<Rightarrow> int \<Rightarrow> bool \<Rightarrow> bool \<Rightarrow> int \<Rightarrow> bool \<Rightarrow> int \<times> int \<times> bool" where
  "DaiDeviceInit fw regAddr dai regConfig regVirtualAddr daiInitFlag = (
     if \<not> dai then (HDF_FAILURE, regVirtualAddr, daiInitFlag)
     else if \<not> regConfig then (HDF_FAILURE, regVirtualAddr, daiInitFlag)
     else if fw 0 \<noteq> HDF_SUCCESS then (HDF_FAILURE, regAddr, daiInitFlag)
     else if fw 1 \<noteq> HDF_SUCCESS then (HDF_FAILURE, regAddr, daiInitFlag)
     else (HDF_SUCCESS, regAddr, True))"

section \<open>Trigger\<close>

definition DaiTrigger :: "pcm_cmd \<Rightarrow> rk_dai \<Rightarrow> (int \<times> rk_dai) option" where
  "DaiTrigger cmd s = (
     let update = (\<lambda>v m (s, start). do { d \<leftarrow> g_rkI2SDev s; Some (rk_issue [RegUpdate I2S_DMACR m v] s, start) });
         transfer = (\<lambda>(s, start). Some (HDF_SUCCESS, rk_issue (
           if start then
             [RegUpdate I2S_XFER (I2S_XFER_TXS_START OR I2S_XFER_RXS_START) (I2S_XFER_TXS_START OR I2S_XFER_RXS_START)]
           else
             [RegUpdate I2S_XFER (I2S_XFER_TXS_START OR I2S_XFER_RXS_START) (I2S_XFER_TXS_STOP OR I2S_XFER_RXS_STOP),
              RegUpdate I2S_CLR (I2S_CLR_TXC OR I2S_CLR_RXC) (I2S_CLR_TXC OR I2S_CLR_RXC)]) s));
         tx_on = update I2S_DMACR_TDE_ENABLE I2S_DMACR_TDE_ENABLE (s, True) \<bind> transfer;
         tx_off = update I2S_DMACR_TDE_DISABLE I2S_DMACR_TDE_ENABLE (s, False) \<bind> transfer;
         rx_on = update I2S_DMACR_RDE_ENABLE I2S_DMACR_RDE_ENABLE (s, True) \<bind> transfer;
         rx_off = do {
           d \<leftarrow> g_rkI2SDev s;
           update I2S_DMACR_RDE_DISABLE I2S_DMACR_RDE_ENABLE (set_dev (d\<lparr>rx_start := False\<rparr>) s, False) \<bind> transfer }
     in case cmd of
       RENDER_START \<Rightarrow> tx_on | RENDER_RESUME \<Rightarrow> tx_on
     | RENDER_STOP \<Rightarrow> tx_off | RENDER_PAUSE \<Rightarrow> tx_off
     | CAPTURE_START \<Rightarrow> rx_on | CAPTURE_RESUME \<Rightarrow> rx_on
     | CAPTURE_STOP \<Rightarrow> rx_off | CAPTURE_PAUSE \<Rightarrow> rx_off
     | OTHER_CMD _ \<Rightarrow> Some (HDF_FAILURE, s))"

section \<open>Clocks and formats\<close>

text \<open>
  \<open>rate\<close> is an \<open>unsigned long\<close> of 64 bits and \<open>ppm\<close> an \<open>int\<close>. The correction is computed in
  \<open>uint64_t\<close> and cut to \<open>int\<close>; negating the smallest \<open>int\<close> is undefined.
\<close>

definition rate_delta :: "u64 \<Rightarrow> int \<Rightarrow> int option" where
  "rate_delta rate ppm = (
     let q = (rate * of_int \<bar>ppm\<bar> + HALF_MILLION) div ONE_MILLION;
         d = sint (ucast q :: u32)
     in if ppm < 0 then (if d = - (2 ^ 31) then None else Some (- d)) else Some d)"

definition rockchip_i2s_clk_set_rate ::
    "kernel \<Rightarrow> string \<Rightarrow> u64 \<Rightarrow> int \<Rightarrow> rk_dai \<Rightarrow> (int \<times> rk_dai) option" where
  "rockchip_i2s_clk_set_rate k clk rate ppm s = do {
     d \<leftarrow> g_rkI2SDev s;
     if ppm = clk_ppm d then Some (0, s)
     else do {
       let (ret, l) = ask_int k (ClkCompensate clk ppm) (rk_log s);
       let s1 = s\<lparr>rk_log := l\<rparr>;
       if ret \<noteq> - ENOSYS then
         Some (ret, if ret = 0 then set_dev (d\<lparr>clk_ppm := ppm\<rparr>) s1 else s1)
       else do {
         delta \<leftarrow> rate_delta rate ppm;
         let rate_target = rate + of_int delta;
         if rate_target = 0 then Some (HDF_FAILURE, s1)
         else do {
           let (ret, l) = ask_int k (ClkSetRateLong clk rate_target) (rk_log s1);
           let s2 = s1\<lparr>rk_log := l\<rparr>;
           if ret \<noteq> 0 then Some (ret, s2)
           else Some (ret, set_dev (d\<lparr>clk_ppm := ppm\<rparr>) s2) } } } }"

text \<open>The four switches of \<open>rockchip_i2s_set_fmt\<close>. Each assigns \<open>val\<close>, but its default branch leaves
  what the previous one assigned.\<close>

definition fmt_mss :: "u32 \<Rightarrow> u32 \<times> bool \<Rightarrow> u32 \<times> bool" where
  "fmt_mss fmt vm = (let m = fmt AND SND_SOC_DAIFMT_MASTER_MASK in
     if m = SND_SOC_DAIFMT_CBS_CFS then (I2S_CKR_MSS_MASTER, True)
     else if m = SND_SOC_DAIFMT_CBM_CFM then (I2S_CKR_MSS_SLAVE, False)
     else vm)"

definition fmt_inv :: "u32 \<Rightarrow> u32 \<Rightarrow> u32" where
  "fmt_inv fmt val = (let i = fmt AND SND_SOC_DAIFMT_INV_MASK in
     if i = SND_SOC_DAIFMT_NB_NF then I2S_CKR_CKP_NORMAL OR I2S_CKR_TLP_NORMAL OR I2S_CKR_RLP_NORMAL
     else if i = SND_SOC_DAIFMT_NB_IF then I2S_CKR_CKP_NORMAL OR I2S_CKR_TLP_INVERTED OR I2S_CKR_RLP_INVERTED
     else if i = SND_SOC_DAIFMT_IB_NF then I2S_CKR_CKP_INVERTED OR I2S_CKR_TLP_NORMAL OR I2S_CKR_RLP_NORMAL
     else if i = SND_SOC_DAIFMT_IB_IF then I2S_CKR_CKP_INVERTED OR I2S_CKR_TLP_INVERTED OR I2S_CKR_RLP_INVERTED
     else val)"

definition fmt_tx :: "u32 \<Rightarrow> u32 \<Rightarrow> u32" where
  "fmt_tx fmt val = (let f = fmt AND SND_SOC_DAIFMT_FORMAT_MASK in
     if f = SND_SOC_DAIFMT_RIGHT_J then I2S_TXCR_IBM_RSJM
     else if f = SND_SOC_DAIFMT_LEFT_J then I2S_TXCR_IBM_LSJM
     else if f = SND_SOC_DAIFMT_I2S then I2S_TXCR_IBM_NORMAL
     else if f = SND_SOC_DAIFMT_DSP_A then I2S_TXCR_TFS_PCM OR I2sTxcrPbmMode 1
     else if f = SND_SOC_DAIFMT_DSP_B then I2S_TXCR_TFS_PCM
     else val)"

definition fmt_rx :: "u32 \<Rightarrow> u32 \<Rightarrow> u32" where
  "fmt_rx fmt val = (let f = fmt AND SND_SOC_DAIFMT_FORMAT_MASK in
     if f = SND_SOC_DAIFMT_RIGHT_J then I2S_RXCR_IBM_RSJM
     else if f = SND_SOC_DAIFMT_LEFT_J then I2S_RXCR_IBM_LSJM
     else if f = SND_SOC_DAIFMT_I2S then I2S_RXCR_IBM_NORMAL
     else if f = SND_SOC_DAIFMT_DSP_A then I2S_RXCR_TFS_PCM OR I2sRxcrPbmMode 1
     else if f = SND_SOC_DAIFMT_DSP_B then I2S_RXCR_TFS_PCM
     else val)"

text \<open>Whatever branch was taken, \<open>ret\<close> is set to success at the end.\<close>

definition rockchip_i2s_set_fmt :: "rk_dai \<Rightarrow> (int \<times> rk_dai) option" where
  "rockchip_i2s_set_fmt s = do {
     d \<leftarrow> g_rkI2SDev s;
     let fmt = SND_SOC_DAIFMT_CBS_CFS;
     let (val1, master) = fmt_mss fmt (0, is_master_mode d);
     let val2 = fmt_inv fmt val1;
     let val3 = fmt_tx fmt val2;
     let val4 = fmt_rx fmt val3;
     Some (HDF_SUCCESS, rk_issue
       [PmGetSync,
        RegUpdate I2S_CKR I2S_CKR_MSS_MASK val1,
        RegUpdate I2S_CKR (I2S_CKR_CKP_MASK OR I2S_CKR_TLP_MASK OR I2S_CKR_RLP_MASK) val2,
        RegUpdate I2S_TXCR (I2S_TXCR_IBM_MASK OR I2S_TXCR_TFS_MASK OR I2S_TXCR_PBM_MASK) val3,
        RegUpdate I2S_RXCR (I2S_RXCR_IBM_MASK OR I2S_RXCR_TFS_MASK OR I2S_RXCR_PBM_MASK) val4]
       (set_dev (d\<lparr>is_master_mode := master\<rparr>) s)) }"

text \<open>The kernel's \<open>DIV_ROUND_CLOSEST\<close> and \<open>round_up\<close> on 32-bit unsigned numbers.\<close>

definition DIV_ROUND_CLOSEST :: "u32 \<Rightarrow> u32 \<Rightarrow> u32" where
  "DIV_ROUND_CLOSEST x d = (x + d div 2) div d"

definition round_up_2 :: "u32 \<Rightarrow> u32" where
  "round_up_2 x = ((x - 1) OR 1) + 1"

definition startup_rate :: u32 where "startup_rate = 0xac4400"

text \<open>The part of \<open>DaiStartup\<close> under \<open>mclk_calibrate\<close>. Dividing by a zero rate faults.\<close>

definition calibrate :: "kernel \<Rightarrow> rk_dai \<Rightarrow> (int \<times> rk_dai) option" where
  "calibrate k s = do {
     d0 \<leftarrow> g_rkI2SDev s;
     (ret, s1) \<leftarrow> rockchip_i2s_clk_set_rate k ''mclk_root'' (ucast (mclk_root_rate d0)) 0 s;
     if ret \<noteq> 0 then Some (ret, s1)
     else do {
       d \<leftarrow> g_rkI2SDev s1;
       let root_rate = mclk_root_rate d;
       let delta = (of_int \<bar>sint (root_rate mod startup_rate - startup_rate)\<bar> :: u32);
       ppm \<leftarrow> (if root_rate = 0 then None else Some ((ucast delta * ONE_MILLION) div (ucast root_rate :: u64)));
       if ppm = 0 then Some (0, s1)
       else do {
         let root_rate = startup_rate * round_up_2 (DIV_ROUND_CLOSEST (mclk_root_initial_rate d) startup_rate);
         let (ret, l) = ask_int k (ClkSetRate ''mclk_root'' root_rate) (rk_log s1);
         let s2 = s1\<lparr>rk_log := l\<rparr>;
         if ret \<noteq> 0 then Some (ret, s2)
         else do {
           let (r, l) = ask_u32 k (ClkGetRate ''mclk_root'') (rk_log s2);
           Some (0, set_dev (d\<lparr>mclk_root_rate := r\<rparr>) (s2\<lparr>rk_log := l\<rparr>)) } } } }"

text \<open>\<open>dev\<close> is what \<open>GetRockChipI2SDevice\<close> returns.\<close>

definition DaiStartup :: "kernel \<Rightarrow> rk_i2s_dev option \<Rightarrow> rk_dai \<Rightarrow> (int \<times> rk_dai) option" where
  "DaiStartup k dev s = (case dev of
     None \<Rightarrow> Some (HDF_FAILURE, s\<lparr>g_rkI2SDev := None\<rparr>)
   | Some d0 \<Rightarrow> do {
       (_, s1) \<leftarrow> rockchip_i2s_set_fmt (set_dev d0 s);
       (ret, s2) \<leftarrow> (if mclk_calibrate d0 then calibrate k s1 else Some (0, s1));
       if ret \<noteq> 0 then Some (ret, s2)
       else do {
         let (ret, l) = ask_int k (ClkSetRate ''mclk'' startup_rate) (rk_log s2);
         let (ret, l) = ask_int k (ClkEnable ''mclk'') l;
         if ret \<noteq> 0 then Some (ret, s2\<lparr>rk_log := l\<rparr>)
         else do {
           let (ret, l) = ask_int k (ClkEnable ''hclk'') l;
           if ret \<noteq> 0 then Some (ret, s2\<lparr>rk_log := l\<rparr>)
           else do {
             let (ret, l) = ask_int k (ClkEnable ''hclk'') l;
             if ret \<noteq> 0 then Some (ret, s2\<lparr>rk_log := l\<rparr>)
             else Some (HDF_SUCCESS, s2\<lparr>rk_log := l @ [PmEnable]\<rparr>) } } } })"

section \<open>Hardware parameters\<close>

definition DATA_BIT_WIDTH16 :: u32 where "DATA_BIT_WIDTH16 = 16"
definition DATA_BIT_WIDTH24 :: u32 where "DATA_BIT_WIDTH24 = 24"

definition width_value :: "u32 \<Rightarrow> u32 option" where
  "width_value w = (if w = DATA_BIT_WIDTH16 then Some (I2sTxcrVdw 16 OR I2S_CHN_2)
     else if w = DATA_BIT_WIDTH24 then Some (I2sTxcrVdw 24 OR I2S_CHN_2) else None)"

text \<open>The clock dividers of the master mode.\<close>

definition master_clocks :: "kernel \<Rightarrow> rk_i2s_dev \<Rightarrow> u32 \<Rightarrow> rk_dai \<Rightarrow> int \<times> rk_dai" where
  "master_clocks k d rate s = (
     let (mclk_rate, l) = ask_u32 k (ClkGetRate ''mclk'') (rk_log s);
         s1 = s\<lparr>rk_log := l\<rparr>;
         bclk_rate = bclk_fs d * rate
     in if bclk_rate = 0 then (HDF_FAILURE, s1)
        else
          let div_bclk = DIV_ROUND_CLOSEST mclk_rate bclk_rate;
              div_lrck = bclk_rate div rate
          in (0, rk_issue
            [RegUpdate I2S_CKR I2S_CKR_MDIV_MASK (I2sCkrMdiv div_bclk),
             RegUpdate I2S_CKR (I2S_CKR_TSD_MASK OR I2S_CKR_RSD_MASK) (I2sCkrTsd div_lrck OR I2sCkrRsd div_lrck)] s1))"

definition io_direction :: "u32 \<Rightarrow> u32" where
  "io_direction csr = (if csr = I2S_CHN_4 then I2S_IO_4CH_OUT_6CH_IN
     else if csr = I2S_CHN_6 then I2S_IO_6CH_OUT_4CH_IN
     else if csr = I2S_CHN_8 then I2S_IO_8CH_OUT_2CH_IN
     else I2S_IO_2CH_OUT_8CH_IN)"

definition write_direction :: "kernel \<Rightarrow> rk_i2s_dev \<Rightarrow> rk_dai \<Rightarrow> rk_dai option" where
  "write_direction k d s = (case pins d of
     Some (reg_offset, shift) \<Rightarrow> if grf_ok d then
         let (v, l) = ask_u32 k (RegRead I2S_TXCR) (rk_log s);
             dir = io_direction (v AND I2S_TXCR_CSR_MASK)
         in if shift \<ge> 32 then None
            else Some (s\<lparr>rk_log := l @ [GrfWrite reg_offset
              (push_bit (unat shift) dir OR push_bit 16 (push_bit (unat shift) I2S_IO_DIRECTION_MASK))]\<rparr>)
       else Some s
   | None \<Rightarrow> Some s)"

text \<open>
  \<open>params\<close> says whether all pointers are set, \<open>check\<close> is \<open>DaiCheckSampleRate\<close>, \<open>data\<close> whether
  \<open>DaiDataFromCard\<close> finds the data, \<open>width\<close> is \<open>AudioFramatToBitWidth\<close>.
\<close>

definition DaiHwParams ::
    "kernel \<Rightarrow> bool \<Rightarrow> (u32 \<Rightarrow> int) \<Rightarrow> bool \<Rightarrow> (AudioFormat \<Rightarrow> u32 option) \<Rightarrow> AudioStreamType \<Rightarrow> AudioFormat \<Rightarrow>
     u32 \<Rightarrow> u32 \<Rightarrow> rk_dai \<Rightarrow> (int \<times> rk_dai) option" where
  "DaiHwParams k params check data width st format channels rate s = (
     if \<not> params then Some (HDF_FAILURE, s)
     else if check rate \<noteq> HDF_SUCCESS then Some (HDF_ERR_NOT_SUPPORT, s)
     else if \<not> data then Some (HDF_FAILURE, s)
     else
       let s0 = s\<lparr>pcmInfo := (pcmInfo s)\<lparr>pi_channels := channels\<rparr>\<rparr>
       in case width format of
            None \<Rightarrow> Some (HDF_FAILURE, s0)
          | Some w \<Rightarrow> do {
              let s1 = s0\<lparr>pcmInfo := \<lparr>pi_channels = channels, pi_bitWidth = w, pi_rate = rate, pi_streamType = st\<rparr>\<rparr>;
              d \<leftarrow> g_rkI2SDev s1;
              let (ret, s2) = (if is_master_mode d then master_clocks k d rate s1 else (0, s1));
              if ret \<noteq> 0 then Some (ret, s2)
              else case width_value w of
                None \<Rightarrow> Some (HDF_FAILURE, s2)
              | Some val \<Rightarrow> do {
                  let s3 = rk_issue [if st = AUDIO_CAPTURE_STREAM
                    then RegUpdate I2S_RXCR (I2S_RXCR_VDW_MASK OR I2S_RXCR_CSR_MASK) val
                    else RegUpdate I2S_TXCR (I2S_TXCR_VDW_MASK OR I2S_TXCR_CSR_MASK) val] s2;
                  s4 \<leftarrow> write_direction k d s3;
                  Some (HDF_SUCCESS, rk_issue
                    [RegUpdate I2S_DMACR I2S_DMACR_TDL_MASK (I2sDmacrTdl 16),
                     RegUpdate I2S_DMACR I2S_DMACR_RDL_MASK (I2sDmacrRdl 16)] s4) } })"

section \<open>The trigger\<close>

fun starts :: "pcm_cmd \<Rightarrow> bool" where
  "starts RENDER_START = True" | "starts RENDER_RESUME = True" | "starts CAPTURE_START = True"
| "starts CAPTURE_RESUME = True" | "starts _ = False"

text \<open>What a command says about playback and about recording.\<close>

fun tx_cmd :: "pcm_cmd \<Rightarrow> bool option" where
  "tx_cmd RENDER_START = Some True" | "tx_cmd RENDER_RESUME = Some True" | "tx_cmd RENDER_STOP = Some False"
| "tx_cmd RENDER_PAUSE = Some False" | "tx_cmd _ = None"

fun rx_cmd :: "pcm_cmd \<Rightarrow> bool option" where
  "rx_cmd CAPTURE_START = Some True" | "rx_cmd CAPTURE_RESUME = Some True" | "rx_cmd CAPTURE_STOP = Some False"
| "rx_cmd CAPTURE_PAUSE = Some False" | "rx_cmd _ = None"

text \<open>The last word on a stream.\<close>

definition last_word :: "(pcm_cmd \<Rightarrow> bool option) \<Rightarrow> pcm_cmd list \<Rightarrow> bool \<Rightarrow> bool" where
  "last_word f cmds b = foldl (\<lambda>b c. case f c of None \<Rightarrow> b | Some v \<Rightarrow> v) b cmds"

lemma last_word_snoc: "last_word f (cs @ [c]) b = (case f c of None \<Rightarrow> last_word f cs b | Some v \<Rightarrow> v)"
  by (simp add: last_word_def split: option.split)

primrec rk_run :: "pcm_cmd list \<Rightarrow> rk_dai \<Rightarrow> rk_dai option" where
  "rk_run [] s = Some s"
| "rk_run (c # cs) s = do { (rc, s1) \<leftarrow> DaiTrigger c s; rk_run cs s1 }"

lemma rk_issue_simps [simp]:
  "rk_log (rk_issue cs s) = rk_log s @ cs" "g_rkI2SDev (rk_issue cs s) = g_rkI2SDev s"
  "pcmInfo (rk_issue cs s) = pcmInfo s" "rk_log (set_dev d s) = rk_log s" "g_rkI2SDev (set_dev d s) = Some d"
  "pcmInfo (set_dev d s) = pcmInfo s"
  by (simp_all add: rk_issue_def set_dev_def)

lemma rk_run_append: "rk_run (cs @ ds) s = rk_run cs s \<bind> rk_run ds"
  by (induction cs arbitrary: s) (auto simp: bind_eq_Some_conv split: bind_splits)

lemmas xfer_bits = I2S_XFER_TXS_START_def I2S_XFER_RXS_START_def I2S_XFER_TXS_STOP_def I2S_XFER_RXS_STOP_def
  I2S_XFER_RXS_SHIFT_def I2S_XFER_TXS_SHIFT_def I2S_DMACR_TDE_ENABLE_def I2S_DMACR_TDE_DISABLE_def
  I2S_DMACR_RDE_ENABLE_def I2S_DMACR_RDE_DISABLE_def I2S_DMACR_TDE_SHIFT_def I2S_DMACR_RDE_SHIFT_def

text \<open>One command: which bits it leaves in the registers.\<close>

lemma trigger_step:
  assumes "g_rkI2SDev s \<noteq> None"
  shows "\<exists>rc s'. DaiTrigger c s = Some (rc, s') \<and> g_rkI2SDev s' \<noteq> None \<and>
    (\<forall>n. c \<noteq> OTHER_CMD n) = (rc = HDF_SUCCESS) \<and>
    bit (reg_val I2S_DMACR (rk_log s') x) 8 =
      (case tx_cmd c of None \<Rightarrow> bit (reg_val I2S_DMACR (rk_log s) x) 8 | Some v \<Rightarrow> v) \<and>
    bit (reg_val I2S_DMACR (rk_log s') x) 24 =
      (case rx_cmd c of None \<Rightarrow> bit (reg_val I2S_DMACR (rk_log s) x) 24 | Some v \<Rightarrow> v) \<and>
    ((\<forall>n. c \<noteq> OTHER_CMD n) \<longrightarrow> (\<forall>y. bit (reg_val I2S_XFER (rk_log s') y) 0 = starts c \<and>
      bit (reg_val I2S_XFER (rk_log s') y) 1 = starts c))"
  using assms
  by (cases c) (auto simp: DaiTrigger_def Let_def i2s_regs bit_update_bits bit_simps xfer_bits err_defs)

lemma trigger_run:
  assumes "g_rkI2SDev s \<noteq> None"
  shows "\<exists>s'. rk_run cmds s = Some s' \<and> g_rkI2SDev s' \<noteq> None \<and>
    bit (reg_val I2S_DMACR (rk_log s') x) 8 = last_word tx_cmd cmds (bit (reg_val I2S_DMACR (rk_log s) x) 8) \<and>
    bit (reg_val I2S_DMACR (rk_log s') x) 24 = last_word rx_cmd cmds (bit (reg_val I2S_DMACR (rk_log s) x) 24)"
  using assms
proof (induction cmds arbitrary: s)
  case (Cons c cs)
  obtain rc s1 where c: "DaiTrigger c s = Some (rc, s1)" "g_rkI2SDev s1 \<noteq> None"
    "bit (reg_val I2S_DMACR (rk_log s1) x) 8 =
      (case tx_cmd c of None \<Rightarrow> bit (reg_val I2S_DMACR (rk_log s) x) 8 | Some v \<Rightarrow> v)"
    "bit (reg_val I2S_DMACR (rk_log s1) x) 24 =
      (case rx_cmd c of None \<Rightarrow> bit (reg_val I2S_DMACR (rk_log s) x) 24 | Some v \<Rightarrow> v)"
    using trigger_step [OF Cons.prems, of c x] by auto
  show ?case using Cons.IH [OF c(2)] c by (auto simp: last_word_def)
qed (simp add: last_word_def)

section \<open>Clock arithmetic\<close>

text \<open>The rounded quotient is the closest one.\<close>

lemma div_round_nat:
  fixes x d :: nat assumes "0 < d"
  shows "2 * ((x + d div 2) div d * d) \<le> 2 * x + d \<and> 2 * x \<le> 2 * ((x + d div 2) div d * d) + d"
proof -
  let ?q = "(x + d div 2) div d" and ?r = "(x + d div 2) mod d"
  have "?q * d + ?r = x + d div 2" "?r < d" using assms by simp_all
  moreover have "2 * (d div 2) \<le> d" "d \<le> 2 * (d div 2) + 1" by simp_all
  ultimately show ?thesis by linarith
qed

lemma div_round_closest:
  assumes "0 < d" "unat x + unat d div 2 < 2 ^ 32"
  shows "unat (DIV_ROUND_CLOSEST x d) = (unat x + unat d div 2) div unat d"
  using assms by (simp add: DIV_ROUND_CLOSEST_def unat_div unat_add_lem [THEN iffD1])

text \<open>The correction of a rate below \<open>2^32\<close> by less than half, in parts per million.\<close>

lemma rate_delta_exact:
  assumes "uint rate < 2 ^ 32" "\<bar>ppm\<bar> < 500000"
  shows "rate_delta rate ppm =
    Some ((if ppm < 0 then -1 else 1) * ((uint rate * \<bar>ppm\<bar> + 500000) div 1000000))"
proof -
  let ?q = "(uint rate * \<bar>ppm\<bar> + 500000) div 1000000"
  have le: "uint rate * \<bar>ppm\<bar> \<le> (2 ^ 32 - 1) * 499999"
    using assms by (intro mult_mono) auto
  moreover have "0 \<le> uint rate * \<bar>ppm\<bar> + 500000" by (intro add_nonneg_nonneg mult_nonneg_nonneg) simp_all
  ultimately have q: "0 \<le> ?q" "?q < 2 ^ 31" by (simp_all only: pos_imp_zdiv_nonneg_iff) auto
  have p: "uint (of_int \<bar>ppm\<bar> :: u64) = \<bar>ppm\<bar>" using assms(2) by (simp add: uint_word_of_int)
  have "uint (rate * of_int \<bar>ppm\<bar> :: u64) = uint rate * \<bar>ppm\<bar>"
    using le by (simp add: uint_word_ariths p)
  then have "uint (rate * of_int \<bar>ppm\<bar> + HALF_MILLION :: u64) = uint rate * \<bar>ppm\<bar> + 500000"
    using le by (simp add: uint_word_ariths HALF_MILLION_def)
  then have "uint ((rate * of_int \<bar>ppm\<bar> + HALF_MILLION) div ONE_MILLION) = ?q"
    by (simp add: uint_div ONE_MILLION_def)
  then have sd: "sint (ucast ((rate * of_int \<bar>ppm\<bar> + HALF_MILLION) div ONE_MILLION) :: u32) = ?q"
    using q by (simp add: sint_uint signed_take_bit_int_eq_self unsigned_ucast_eq take_bit_int_eq_self)
  show ?thesis unfolding rate_delta_def Let_def sd using q by auto
qed

section \<open>Hardware parameters\<close>

lemmas ckr_bits = I2S_CKR_MDIV_MASK_def I2S_CKR_TSD_MASK_def I2S_CKR_RSD_MASK_def I2S_CKR_MDIV_SHIFT_def
  I2S_CKR_TSD_SHIFT_def I2S_CKR_RSD_SHIFT_def I2sCkrMdiv_def I2sCkrTsd_def I2sCkrRsd_def

lemmas vdw_bits = I2S_TXCR_VDW_MASK_def I2S_TXCR_CSR_MASK_def I2S_RXCR_VDW_MASK_def I2S_RXCR_CSR_MASK_def
  I2S_TXCR_VDW_SHIFT_def I2S_TXCR_CSR_SHIFT_def I2S_RXCR_VDW_SHIFT_def I2S_RXCR_CSR_SHIFT_def
  I2sTxcrVdw_def I2S_CHN_2_def I2S_CSR_SHIFT_def

lemma field_push: "lo + w \<le> 32 \<Longrightarrow> field lo w (push_bit lo (v :: u32)) = take_bit w v"
  by (rule bit_eqI) (auto simp: field_def bit_simps)

lemma u32_take_bit_self: "unat x < 2 ^ w \<Longrightarrow> take_bit w (x :: u32) = x"
  by (simp add: word_unat_eq_iff unsigned_take_bit_eq take_bit_nat_eq_self)

lemma frame_rate:
  fixes fs rate :: u32
  assumes "0 < rate" "unat fs * unat rate < 2 ^ 32"
  shows "fs * rate div rate = fs" "unat (fs * rate) = unat fs * unat rate"
proof -
  show "unat (fs * rate) = unat fs * unat rate" using assms(2) by (simp add: unat_word_ariths)
  then show "fs * rate div rate = fs"
    using assms by (simp add: word_unat_eq_iff unat_div word_less_nat_alt)
qed

text \<open>The dividers that go into the clock register.\<close>

lemma master_clocks_fields:
  assumes "bclk_fs d * rate \<noteq> 0" "0 < rate"
    "unat (bclk_fs d) * unat rate < 2 ^ 32" "bclk_fs d \<le> 256"
  shows "\<exists>s'. master_clocks k d rate s = (0, s') \<and> g_rkI2SDev s' = g_rkI2SDev s \<and>
    (\<exists>cs. rk_log s' = rk_log s @ cs \<and> (\<forall>r y. r \<noteq> I2S_CKR \<longrightarrow> reg_val r cs y = y) \<and>
    (\<forall>y. field 16 8 (reg_val I2S_CKR cs y) =
        take_bit 8 (DIV_ROUND_CLOSEST (k_u32 k (rk_log s) (ClkGetRate ''mclk'')) (bclk_fs d * rate) - 1) \<and>
      field 0 8 (reg_val I2S_CKR cs y) = bclk_fs d - 1 \<and> field 8 8 (reg_val I2S_CKR cs y) = bclk_fs d - 1 \<and>
      field 24 8 (reg_val I2S_CKR cs y) = field 24 8 y))"
proof -
  let ?m = "DIV_ROUND_CLOSEST (k_u32 k (rk_log s) (ClkGetRate ''mclk'')) (bclk_fs d * rate)"
  let ?cs = "[ClkGetRate ''mclk'', RegUpdate I2S_CKR I2S_CKR_MDIV_MASK (I2sCkrMdiv ?m),
      RegUpdate I2S_CKR (I2S_CKR_TSD_MASK OR I2S_CKR_RSD_MASK) (I2sCkrTsd (bclk_fs d) OR I2sCkrRsd (bclk_fs d))]"
  have fs: "0 < bclk_fs d" using assms(1) by (auto simp: word_neq_0_conv [symmetric])
  have t: "take_bit 8 (bclk_fs d - 1) = bclk_fs d - 1"
    using assms(4) fs by (intro u32_take_bit_self) (auto simp: unat_sub word_le_nat_alt word_less_nat_alt)
  have v: "field 0 8 (I2sCkrTsd (bclk_fs d) OR I2sCkrRsd (bclk_fs d)) = bclk_fs d - 1"
    "field 8 8 (I2sCkrTsd (bclk_fs d) OR I2sCkrRsd (bclk_fs d)) = bclk_fs d - 1"
  proof -
    have "field 8 8 (bclk_fs d - 1) = 0"
      by (subst t [symmetric]) (rule bit_eqI, auto simp: field_def bit_simps)
    moreover have "field lo 8 (a OR b :: u32) = field lo 8 a OR field lo 8 b" for lo a b
      by (rule bit_eqI) (auto simp: field_def bit_simps)
    moreover have "field 0 8 (push_bit 8 (bclk_fs d - 1)) = 0"
      by (rule bit_eqI) (auto simp: field_def bit_simps)
    ultimately show "field 0 8 (I2sCkrTsd (bclk_fs d) OR I2sCkrRsd (bclk_fs d)) = bclk_fs d - 1"
      "field 8 8 (I2sCkrTsd (bclk_fs d) OR I2sCkrRsd (bclk_fs d)) = bclk_fs d - 1"
      using t by (simp_all add: ckr_bits field_push) (simp add: field_def)
  qed
  have m: "field 16 8 I2S_CKR_MDIV_MASK = mask 8" "field 16 8 (I2S_CKR_TSD_MASK OR I2S_CKR_RSD_MASK) = 0"
    "field 0 8 (I2S_CKR_TSD_MASK OR I2S_CKR_RSD_MASK) = mask 8" "field 8 8 (I2S_CKR_TSD_MASK OR I2S_CKR_RSD_MASK) = mask 8"
    "field 24 8 I2S_CKR_MDIV_MASK = 0" "field 24 8 (I2S_CKR_TSD_MASK OR I2S_CKR_RSD_MASK) = 0"
    by (simp_all add: ckr_bits field_def)
  have "master_clocks k d rate s = (0, rk_issue ?cs s)"
    using assms(1) by (simp add: master_clocks_def ask_defs Let_def frame_rate [OF assms(2,3)] rk_issue_def)
  moreover have "field 16 8 (I2sCkrMdiv ?m) = take_bit 8 (?m - 1)" by (simp add: ckr_bits field_push)
  ultimately show ?thesis
    by (intro exI [of _ "rk_issue ?cs s"] conjI exI [of _ ?cs])
      (simp_all add: v m field_update_in field_update_out)
qed

lemma width_value_parts:
  assumes "width_value w = Some v"
  shows "field 0 5 v = w - 1" "v AND 0x18000 = 0" "w \<in> {16, 24}"
  using assms
  by (auto simp: width_value_def DATA_BIT_WIDTH16_def DATA_BIT_WIDTH24_def vdw_bits field_def split: if_splits)

definition width_reg :: "AudioStreamType \<Rightarrow> u32" where
  "width_reg st = (if st = AUDIO_CAPTURE_STREAM then I2S_RXCR else I2S_TXCR)"

definition width_call :: "AudioStreamType \<Rightarrow> u32 \<Rightarrow> kcall" where
  "width_call st v = RegUpdate (width_reg st) 0x1801f v"

lemma width_call_eq:
  "(if st = AUDIO_CAPTURE_STREAM then RegUpdate I2S_RXCR (I2S_RXCR_VDW_MASK OR I2S_RXCR_CSR_MASK) v
    else RegUpdate I2S_TXCR (I2S_TXCR_VDW_MASK OR I2S_TXCR_CSR_MASK) v) = width_call st v"
  by (simp add: width_call_def width_reg_def vdw_bits)

lemma write_direction_log:
  assumes "\<And>off sh. pins d = Some (off, sh) \<Longrightarrow> sh < 32"
  shows "\<exists>s' cs. write_direction k d s = Some s' \<and> rk_log s' = rk_log s @ cs \<and> (\<forall>r y. reg_val r cs y = y)"
proof (cases "\<exists>off sh. pins d = Some (off, sh) \<and> grf_ok d")
  case True
  then obtain off sh where p: "pins d = Some (off, sh)" "grf_ok d" by blast
  then show ?thesis using assms [OF p(1)] by (auto simp: write_direction_def ask_defs Let_def)
next
  case False
  then have "write_direction k d s = Some s" by (auto simp: write_direction_def split: option.splits)
  then show ?thesis by auto
qed

text \<open>All calls of a successful run, grouped.\<close>

lemma hw_params_run:
  assumes "g_rkI2SDev s = Some d" "is_master_mode d" "check rate = HDF_SUCCESS" "width format = Some w"
    "width_value w = Some v" "\<And>off sh. pins d = Some (off, sh) \<Longrightarrow> sh < 32"
    "bclk_fs d * rate \<noteq> 0" "0 < rate" "unat (bclk_fs d) * unat rate < 2 ^ 32" "bclk_fs d \<le> 256"
  shows "\<exists>s' cs ds. DaiHwParams k True check True width st format ch rate s = Some (HDF_SUCCESS, s') \<and>
    rk_log s' = rk_log s @ cs @ [width_call st v] @ ds @
      [RegUpdate I2S_DMACR I2S_DMACR_TDL_MASK (I2sDmacrTdl 16), RegUpdate I2S_DMACR I2S_DMACR_RDL_MASK (I2sDmacrRdl 16)] \<and>
    (\<forall>r y. reg_val r ds y = y) \<and> (\<forall>r y. r \<noteq> I2S_CKR \<longrightarrow> reg_val r cs y = y) \<and>
    (\<forall>y. field 16 8 (reg_val I2S_CKR cs y) =
        take_bit 8 (DIV_ROUND_CLOSEST (k_u32 k (rk_log s) (ClkGetRate ''mclk'')) (bclk_fs d * rate) - 1) \<and>
      field 0 8 (reg_val I2S_CKR cs y) = bclk_fs d - 1 \<and> field 8 8 (reg_val I2S_CKR cs y) = bclk_fs d - 1)"
proof -
  let ?s1 = "s\<lparr>pcmInfo := \<lparr>pi_channels = ch, pi_bitWidth = w, pi_rate = rate, pi_streamType = st\<rparr>\<rparr>"
  obtain s2 cs where s2: "master_clocks k d rate ?s1 = (0, s2)" "rk_log s2 = rk_log s @ cs"
      "\<forall>r y. r \<noteq> I2S_CKR \<longrightarrow> reg_val r cs y = y"
      "\<forall>y. field 16 8 (reg_val I2S_CKR cs y) =
        take_bit 8 (DIV_ROUND_CLOSEST (k_u32 k (rk_log s) (ClkGetRate ''mclk'')) (bclk_fs d * rate) - 1) \<and>
      field 0 8 (reg_val I2S_CKR cs y) = bclk_fs d - 1 \<and> field 8 8 (reg_val I2S_CKR cs y) = bclk_fs d - 1"
    using master_clocks_fields [OF assms(7-10), of k ?s1] by auto
  obtain s4 ds where s4: "write_direction k d (rk_issue [width_call st v] s2) = Some s4"
      "rk_log s4 = rk_log (rk_issue [width_call st v] s2) @ ds" "\<forall>r y. reg_val r ds y = y"
    using write_direction_log [of d k "rk_issue [width_call st v] s2"] assms(6) by blast
  show ?thesis
    using assms(1-5) s2 s4 by (auto simp: DaiHwParams_def width_call_eq Let_def)
qed

lemma width_bits: "bit (0x1801f :: u32) n \<longleftrightarrow> n \<in> {0, 1, 2, 3, 4, 15, 16}"
proof (cases "n < 32")
  case True
  then have "n \<in> set [0..<32]" by simp
  then show ?thesis by (auto simp: upt_rec)
qed (auto dest: bit_imp_le_length)

lemma width_frame:
  assumes "n \<notin> {0, 1, 2, 3, 4, 15, 16}" shows "bit (update_bits (0x1801f :: u32) v y) n = bit y n"
proof -
  have "\<not> bit (0x1801f :: u32) n" using assms unfolding width_bits .
  then show ?thesis unfolding bit_update_bits by (rule if_not_P)
qed

section \<open>Starting the interface\<close>

lemma set_fmt_run:
  assumes "g_rkI2SDev s = Some d"
  shows "rockchip_i2s_set_fmt s = Some (HDF_SUCCESS, rk_issue
    [PmGetSync, RegUpdate I2S_CKR I2S_CKR_MSS_MASK 0,
     RegUpdate I2S_CKR (I2S_CKR_CKP_MASK OR I2S_CKR_TLP_MASK OR I2S_CKR_RLP_MASK) 0,
     RegUpdate I2S_TXCR (I2S_TXCR_IBM_MASK OR I2S_TXCR_TFS_MASK OR I2S_TXCR_PBM_MASK) 0,
     RegUpdate I2S_RXCR (I2S_RXCR_IBM_MASK OR I2S_RXCR_TFS_MASK OR I2S_RXCR_PBM_MASK) 0]
    (set_dev (d\<lparr>is_master_mode := True\<rparr>) s))"
proof -
  let ?f = SND_SOC_DAIFMT_CBS_CFS
  have 1: "fmt_mss ?f x = (0, True)" for x by (simp add: fmt_mss_def daifmt_defs I2S_CKR_MSS_MASTER_def Let_def)
  have 2: "fmt_inv ?f x = 0" for x
    by (simp add: fmt_inv_def daifmt_defs I2S_CKR_CKP_NORMAL_def I2S_CKR_TLP_NORMAL_def I2S_CKR_RLP_NORMAL_def Let_def)
  have 3: "fmt_tx ?f x = x" "fmt_rx ?f x = x" for x by (simp_all add: fmt_tx_def fmt_rx_def daifmt_defs Let_def)
  show ?thesis using assms by (simp add: rockchip_i2s_set_fmt_def Let_def 1 2 3)
qed

lemma rate_delta_0: "rate_delta rate 0 = Some 0"
  by (simp add: rate_delta_def HALF_MILLION_def ONE_MILLION_def Let_def)

text \<open>The call under \<open>mclk_calibrate\<close> asks for the correction 0, so an unsupported correction sets the
  rate again.\<close>

lemma clk_set_rate_0:
  assumes "g_rkI2SDev s = Some d"
  shows "\<exists>rc s'. rockchip_i2s_clk_set_rate k clk rate 0 s = Some (rc, s') \<and>
    (\<exists>d'. g_rkI2SDev s' = Some d' \<and> mclk_root_rate d' = mclk_root_rate d \<and>
      mclk_root_initial_rate d' = mclk_root_initial_rate d) \<and>
    (\<forall>n. held k (rk_log s') (RClockOn n) = held k (rk_log s) (RClockOn n)) \<and>
    (rate = 0 \<longrightarrow> (rc = 0 \<longleftrightarrow> clk_ppm d = 0 \<or> k_int k (rk_log s) (ClkCompensate clk 0) = 0))"
  using assms
  by (auto simp: rockchip_i2s_clk_set_rate_def ask_defs Let_def rate_delta_0 ENOSYS_def HDF_FAILURE_def)

lemma calibrate_run:
  assumes "g_rkI2SDev s = Some d"
  shows "(calibrate k s = None \<longleftrightarrow> mclk_root_rate d = 0 \<and>
      (clk_ppm d = 0 \<or> k_int k (rk_log s) (ClkCompensate ''mclk_root'' 0) = 0)) \<and>
    (\<forall>rc s'. calibrate k s = Some (rc, s') \<longrightarrow>
      (\<forall>n. held k (rk_log s') (RClockOn n) = held k (rk_log s) (RClockOn n)))"
proof -
  let ?r = "ucast (mclk_root_rate d) :: u64"
  obtain rc s1 d1 where c: "rockchip_i2s_clk_set_rate k ''mclk_root'' ?r 0 s = Some (rc, s1)"
    "g_rkI2SDev s1 = Some d1" "mclk_root_rate d1 = mclk_root_rate d"
    "\<forall>n. held k (rk_log s1) (RClockOn n) = held k (rk_log s) (RClockOn n)"
    and z: "?r = 0 \<longrightarrow> (rc = 0 \<longleftrightarrow> clk_ppm d = 0 \<or> k_int k (rk_log s) (ClkCompensate ''mclk_root'' 0) = 0)"
    using clk_set_rate_0 [OF assms, of k "''mclk_root''" ?r] by blast
  have "mclk_root_rate d = 0 \<longrightarrow> (rc = 0 \<longleftrightarrow> clk_ppm d = 0 \<or> k_int k (rk_log s) (ClkCompensate ''mclk_root'' 0) = 0)"
    using z by simp
  then
  show ?thesis
    using c assms by (auto simp: calibrate_def ask_defs Let_def bind_eq_None_conv split: if_splits)
qed

text \<open>A controller as the board's device tree describes it, and an interface that has been started.\<close>

definition demo_dev :: rk_i2s_dev where
  "demo_dev = \<lparr>rx_start = False, is_master_mode = True, pins = Some (0xe220, 11), grf_ok = True, bclk_fs = 64,
     mclk_root_rate = 0, mclk_root_initial_rate = 800000000, clk_ppm = 0, mclk_calibrate = False\<rparr>"

definition demo_dai :: rk_dai where
  "demo_dai = \<lparr>g_rkI2SDev = Some demo_dev,
     pcmInfo = \<lparr>pi_channels = 0, pi_bitWidth = 0, pi_rate = 0, pi_streamType = AUDIO_RENDER_STREAM\<rparr>, rk_log = []\<rparr>"

definition clock_kernel :: kernel where
  "clock_kernel = yes_kernel\<lparr>k_u32 := \<lambda>l c. if c = ClkGetRate ''mclk'' then startup_rate else 0\<rparr>"

section \<open>Properties\<close>

text \<open>
  Whatever commands came before, after a start or resume command of either stream both transmitter
  and receiver run, and after a stop or pause command of either stream both rest, while the DMA
  request of each stream is still on exactly when the last command for that stream was a start. So
  stopping one stream stops the transfers of the other one, which goes on requesting data, although
  the record's comment says that both are stopped only when both streams have asked for it.
\<close>
theorem rk_stop_stops_both:
  assumes "g_rkI2SDev s \<noteq> None" "\<forall>n. cmd \<noteq> OTHER_CMD n"
  shows "\<exists>s'. rk_run (cmds @ [cmd]) s = Some s' \<and>
    bit (reg_val I2S_XFER (rk_log s') y) I2S_XFER_TXS_SHIFT = starts cmd \<and>
    bit (reg_val I2S_XFER (rk_log s') y) I2S_XFER_RXS_SHIFT = starts cmd \<and>
    bit (reg_val I2S_DMACR (rk_log s') x) I2S_DMACR_TDE_SHIFT =
      last_word tx_cmd (cmds @ [cmd]) (bit (reg_val I2S_DMACR (rk_log s) x) I2S_DMACR_TDE_SHIFT) \<and>
    bit (reg_val I2S_DMACR (rk_log s') x) I2S_DMACR_RDE_SHIFT =
      last_word rx_cmd (cmds @ [cmd]) (bit (reg_val I2S_DMACR (rk_log s) x) I2S_DMACR_RDE_SHIFT)"
proof -
  obtain s1 where s1: "rk_run cmds s = Some s1" "g_rkI2SDev s1 \<noteq> None"
    "bit (reg_val I2S_DMACR (rk_log s1) x) 8 = last_word tx_cmd cmds (bit (reg_val I2S_DMACR (rk_log s) x) 8)"
    "bit (reg_val I2S_DMACR (rk_log s1) x) 24 = last_word rx_cmd cmds (bit (reg_val I2S_DMACR (rk_log s) x) 24)"
    using trigger_run [OF assms(1), of cmds x] by auto
  obtain rc s' where s': "DaiTrigger cmd s1 = Some (rc, s')"
    "bit (reg_val I2S_DMACR (rk_log s') x) 8 =
      (case tx_cmd cmd of None \<Rightarrow> bit (reg_val I2S_DMACR (rk_log s1) x) 8 | Some v \<Rightarrow> v)"
    "bit (reg_val I2S_DMACR (rk_log s') x) 24 =
      (case rx_cmd cmd of None \<Rightarrow> bit (reg_val I2S_DMACR (rk_log s1) x) 24 | Some v \<Rightarrow> v)"
    "\<forall>y. bit (reg_val I2S_XFER (rk_log s') y) 0 = starts cmd \<and> bit (reg_val I2S_XFER (rk_log s') y) 1 = starts cmd"
    using trigger_step [OF s1(2), of cmd x] assms(2) by blast
  then have "rk_run (cmds @ [cmd]) s = Some s'" using s1(1) by (simp add: rk_run_append)
  with s' show ?thesis
    unfolding I2S_XFER_TXS_SHIFT_def I2S_XFER_RXS_SHIFT_def I2S_DMACR_TDE_SHIFT_def I2S_DMACR_RDE_SHIFT_def
    by (intro exI [of _ s']) (simp add: last_word_snoc s1(3,4) split: option.split)
qed

theorem rk_stop_stops_both_witness:
  "\<exists>s'. rk_run [RENDER_START, CAPTURE_START, CAPTURE_STOP] demo_dai = Some s' \<and>
    \<not> bit (reg_val I2S_XFER (rk_log s') 0) I2S_XFER_TXS_SHIFT \<and> bit (reg_val I2S_DMACR (rk_log s') 0) I2S_DMACR_TDE_SHIFT"
  using rk_stop_stops_both [of demo_dai CAPTURE_STOP "[RENDER_START, CAPTURE_START]" 0 0]
  by (auto simp: demo_dai_def last_word_def)

text \<open>
  C20. Hardware parameters of an interface in master mode, for a 16 or 24 bit format: the divider in the
  clock register is the closest one, that is, the divided master clock misses the wanted bit clock of
  \<open>bclk_fs\<close> cycles per frame by at most half of it; both frame dividers are \<open>bclk_fs\<close>; the sample width
  goes into the register of the stream, whose other bits but the channel selection stay as they
  were, and the register of the other stream is not touched. The premises bound the numbers to what
  fits the 8-bit fields and 32-bit products.
\<close>
theorem rk_hw_params_clocks:
  assumes "g_rkI2SDev s = Some d" "is_master_mode d" "check rate = HDF_SUCCESS" "width format = Some w"
    "w = 16 \<or> w = 24" "\<forall>off sh. pins d = Some (off, sh) \<longrightarrow> sh < 32"
    "0 < rate" "0 < bclk_fs d" "bclk_fs d \<le> 256" "bclk = unat (bclk_fs d) * unat rate" "bclk < 2 ^ 32"
    "mclk = unat (k_u32 k (rk_log s) (ClkGetRate ''mclk''))" "mclk + bclk div 2 < 2 ^ 32"
    "(mclk + bclk div 2) div bclk \<in> {1..256}"
  shows "\<exists>s' dv. DaiHwParams k True check True width st format ch rate s = Some (HDF_SUCCESS, s') \<and>
    (let ckr = reg_val I2S_CKR (rk_log s') x1; here = width_reg st; other = (if here = I2S_RXCR then I2S_TXCR else I2S_RXCR);
         new = reg_val here (rk_log s') x2; old = reg_val here (rk_log s) x2
     in unat (field I2S_CKR_MDIV_SHIFT 8 ckr) + 1 = dv \<and> 2 * (dv * bclk) \<le> 2 * mclk + bclk \<and> 2 * mclk \<le> 2 * (dv * bclk) + bclk \<and>
        unat (field I2S_CKR_TSD_SHIFT 8 ckr) + 1 = unat (bclk_fs d) \<and>
        unat (field I2S_CKR_RSD_SHIFT 8 ckr) + 1 = unat (bclk_fs d) \<and>
        unat (field I2S_TXCR_VDW_SHIFT 5 new) + 1 = unat w \<and>
        (\<forall>n. n \<notin> {0, 1, 2, 3, 4, 15, 16} \<longrightarrow> bit new n = bit old n) \<and>
        reg_val other (rk_log s') x3 = reg_val other (rk_log s) x3)"
proof -
  let ?D = "DIV_ROUND_CLOSEST (k_u32 k (rk_log s) (ClkGetRate ''mclk'')) (bclk_fs d * rate)"
  obtain v where v: "width_value w = Some v"
    using assms(5) by (auto simp: width_value_def DATA_BIT_WIDTH16_def DATA_BIT_WIDTH24_def)
  have b: "unat (bclk_fs d * rate) = bclk" using frame_rate(2) [of rate "bclk_fs d"] assms(7,10,11) by simp
  have "bclk \<noteq> 0" using assms(7,8,10) by (simp add: word_less_nat_alt)
  then have nz: "bclk_fs d * rate \<noteq> 0" "0 < bclk_fs d * rate" using b by (auto simp: word_less_nat_alt)
  have D: "unat ?D = (mclk + bclk div 2) div bclk"
    using div_round_closest [OF nz(2), of "k_u32 k (rk_log s) (ClkGetRate ''mclk'')"] b assms(12,13) by simp
  have m: "unat (take_bit 8 (?D - 1)) + 1 = (mclk + bclk div 2) div bclk"
  proof -
    have one: "(1 :: u32) \<le> ?D" using D assms(14) by (simp add: word_le_nat_alt)
    then have e: "unat (?D - 1) = (mclk + bclk div 2) div bclk - 1" using D by (simp add: unat_sub)
    then have "take_bit 8 (?D - 1) = ?D - 1" using assms(14) by (intro u32_take_bit_self) auto
    then show ?thesis using e assms(14) by simp
  qed
  have fs: "unat (bclk_fs d - 1) + 1 = unat (bclk_fs d)" using assms(8) by (simp add: unat_sub word_less_nat_alt word_le_nat_alt)
  have w: "unat (w - 1) + 1 = unat w" using assms(5) by auto
  obtain s' cs ds where run: "DaiHwParams k True check True width st format ch rate s = Some (HDF_SUCCESS, s')"
    "rk_log s' = rk_log s @ cs @ [width_call st v] @ ds @
      [RegUpdate I2S_DMACR I2S_DMACR_TDL_MASK (I2sDmacrTdl 16), RegUpdate I2S_DMACR I2S_DMACR_RDL_MASK (I2sDmacrRdl 16)]"
    "\<forall>r y. reg_val r ds y = y" "\<forall>r y. r \<noteq> I2S_CKR \<longrightarrow> reg_val r cs y = y"
    "\<forall>y. field 16 8 (reg_val I2S_CKR cs y) = take_bit 8 (?D - 1) \<and>
      field 0 8 (reg_val I2S_CKR cs y) = bclk_fs d - 1 \<and> field 8 8 (reg_val I2S_CKR cs y) = bclk_fs d - 1"
    using hw_params_run [of s d check rate width format w v k st ch] assms(1-4,6,7,9-11) v nz(1) by blast
  have regs: "width_reg st \<in> {I2S_TXCR, I2S_RXCR}" "width_reg st \<noteq> I2S_CKR" "width_reg st \<noteq> I2S_DMACR"
    "I2S_TXCR \<noteq> I2S_RXCR" "I2S_TXCR \<noteq> I2S_CKR" "I2S_RXCR \<noteq> I2S_CKR" "I2S_DMACR \<noteq> I2S_CKR"
    "I2S_DMACR \<noteq> I2S_TXCR" "I2S_DMACR \<noteq> I2S_RXCR"
    by (simp_all add: width_reg_def i2s_regs)
  have here: "reg_val (width_reg st) (rk_log s') x2 = update_bits 0x1801f v (reg_val (width_reg st) (rk_log s) x2)"
    using run(2-4) regs by (auto simp: width_call_def)
  have ckr: "reg_val I2S_CKR (rk_log s') x1 = reg_val I2S_CKR cs (reg_val I2S_CKR (rk_log s) x1)"
    using run(2,3) regs by (simp add: width_call_def)
  have other: "r \<noteq> width_reg st \<Longrightarrow> r \<in> {I2S_TXCR, I2S_RXCR} \<Longrightarrow> reg_val r (rk_log s') x3 = reg_val r (rk_log s) x3" for r
    using run(2-4) regs by (auto simp: width_call_def)
  have f: "field 0 5 (update_bits 0x1801f v y) = w - 1" for y
  proof -
    have "field 0 5 (0x1801f :: u32) = mask 5" by (simp add: field_def)
    then show ?thesis using width_value_parts(1) [OF v] by (simp add: field_update_in)
  qed
  note vals = I2S_CKR_MDIV_SHIFT_def I2S_CKR_TSD_SHIFT_def I2S_CKR_RSD_SHIFT_def I2S_TXCR_VDW_SHIFT_def
  show ?thesis
    using div_round_nat [of bclk mclk] \<open>bclk \<noteq> 0\<close> other [of "if width_reg st = I2S_RXCR then I2S_TXCR else I2S_RXCR"] regs
    by (intro exI [of _ s'] exI [of _ "(mclk + bclk div 2) div bclk"])
      (auto simp: Let_def run(1,5) here ckr vals m [simplified] fs [simplified] f w [simplified] width_frame)
qed

theorem rk_hw_params_clocks_witness:
  "\<exists>s'. DaiHwParams clock_kernel True (\<lambda>_. HDF_SUCCESS) True (\<lambda>_. Some 16) AUDIO_RENDER_STREAM
      AUDIO_FORMAT_TYPE_PCM_16_BIT 2 44100 demo_dai = Some (HDF_SUCCESS, s') \<and>
    unat (field I2S_CKR_TSD_SHIFT 8 (reg_val I2S_CKR (rk_log s') 0)) + 1 = 64"
  using rk_hw_params_clocks [of demo_dai demo_dev "\<lambda>_. HDF_SUCCESS" 44100 "\<lambda>_. Some 16" AUDIO_FORMAT_TYPE_PCM_16_BIT 16
      2822400 11289600 clock_kernel AUDIO_RENDER_STREAM 2 0 0 0]
  by (auto simp: demo_dai_def demo_dev_def clock_kernel_def startup_rate_def Let_def)

text \<open>
  The interface is always started with the master clock 11289600 Hz. With 64 bit clocks per frame the
  divider then is exact for the sampling rates of the 44100 family and for none of the 48000 family:
  a stream at 48000 Hz gets the divider 4 and is played at 44100 Hz.
\<close>
theorem rk_startup_rate_family:
  "(\<forall>rate \<in> {11025, 22050, 44100, 88200, 176400}. DIV_ROUND_CLOSEST startup_rate (64 * rate) * (64 * rate) = startup_rate) \<and>
   (\<forall>rate \<in> {8000, 12000, 16000, 24000, 32000, 48000, 96000, 192000}.
      DIV_ROUND_CLOSEST startup_rate (64 * rate) * (64 * rate) \<noteq> startup_rate) \<and>
   DIV_ROUND_CLOSEST startup_rate (64 * 48000) = 4 \<and> startup_rate = 4 * (64 * 44100)"
  by (simp add: DIV_ROUND_CLOSEST_def startup_rate_def)

theorem rk_startup_rate_family_witness:
  "DIV_ROUND_CLOSEST startup_rate (64 * 22050) * (64 * 22050) = startup_rate \<and>
   DIV_ROUND_CLOSEST startup_rate (64 * 8000) * (64 * 8000) \<noteq> startup_rate"
  using rk_startup_rate_family by blast

text \<open>
  Starting the interface with a controller faults exactly when the master clock has to be calibrated,
  the recorded rate of its root is 0, and no correction is in force or the PLL accepts the correction
  0: the deviation is then divided by the rate.
\<close>
theorem rk_startup_fault_iff:
  "DaiStartup k (Some d) s = None \<longleftrightarrow> mclk_calibrate d \<and> mclk_root_rate d = 0 \<and>
     (clk_ppm d = 0 \<or>
      (\<exists>cs. rockchip_i2s_set_fmt (set_dev d s) = Some (HDF_SUCCESS, rk_issue cs (set_dev (d\<lparr>is_master_mode := True\<rparr>) s)) \<and>
        k_int k (rk_log s @ cs) (ClkCompensate ''mclk_root'' 0) = 0))"
proof -
  let ?d = "d\<lparr>is_master_mode := True\<rparr>"
  obtain cs where f: "rockchip_i2s_set_fmt (set_dev d s) = Some (HDF_SUCCESS, rk_issue cs (set_dev ?d s))"
    using set_fmt_run [of "set_dev d s" d] by (auto simp: set_dev_def)
  have u: "cs' = cs" if "rk_issue cs' (set_dev ?d s) = rk_issue cs (set_dev ?d s)" for cs'
    using arg_cong [OF that, of rk_log] by simp
  have "calibrate k (rk_issue cs (set_dev ?d s)) = None \<longleftrightarrow> mclk_root_rate d = 0 \<and>
      (clk_ppm d = 0 \<or> k_int k (rk_log s @ cs) (ClkCompensate ''mclk_root'' 0) = 0)"
    using calibrate_run [of "rk_issue cs (set_dev ?d s)" ?d k] by simp
  then show ?thesis
    using u by (auto simp: DaiStartup_def f ask_defs Let_def bind_eq_None_conv split: if_splits)
qed

text \<open>
  Starting the interface never switches a clock off. A successful start has enabled the master clock
  once and the bus clock twice, even if setting the rate of the master clock failed; when the bus
  clock does not start, the call fails and the master clock stays on.
\<close>
theorem rk_startup_clocks:
  assumes "DaiStartup k (Some d) s = Some (rc, s')"
  shows "(rc = HDF_SUCCESS \<longrightarrow> held k (rk_log s') (RClockOn ''mclk'') = held k (rk_log s) (RClockOn ''mclk'') + 1 \<and>
      held k (rk_log s') (RClockOn ''hclk'') = held k (rk_log s) (RClockOn ''hclk'') + 2) \<and>
    (\<not> mclk_calibrate d \<longrightarrow> (\<forall>l. k_int k l (ClkEnable ''mclk'') = 0) \<longrightarrow> (\<forall>l. k_int k l (ClkEnable ''hclk'') \<noteq> 0) \<longrightarrow>
      rc \<noteq> HDF_SUCCESS \<and> held k (rk_log s') (RClockOn ''mclk'') = held k (rk_log s) (RClockOn ''mclk'') + 1)"
proof -
  let ?d = "d\<lparr>is_master_mode := True\<rparr>"
  obtain cs where f: "rockchip_i2s_set_fmt (set_dev d s) = Some (HDF_SUCCESS, rk_issue cs (set_dev ?d s))"
    and h: "\<And>n l. held k (rk_log s @ cs) (RClockOn n) = held k (rk_log s) (RClockOn n)"
    using set_fmt_run [of "set_dev d s" d] by (auto simp: set_dev_def)
  obtain r s2 where c: "(if mclk_calibrate d then calibrate k (rk_issue cs (set_dev ?d s))
      else Some (0, rk_issue cs (set_dev ?d s))) = Some (r, s2)"
    using assms by (auto simp: DaiStartup_def f bind_eq_Some_conv split: if_splits)
  have h2: "held k (rk_log s2) (RClockOn n) = held k (rk_log s) (RClockOn n)" for n
    using c calibrate_run [of "rk_issue cs (set_dev ?d s)" ?d k] h by (auto simp del: held_append split: if_splits)
  have r0: "\<not> mclk_calibrate d \<Longrightarrow> r = 0" using c by auto
  show ?thesis
    using assms r0 unfolding DaiStartup_def by (auto simp: f c ask_defs Let_def h2 err_defs split: if_splits)
qed

theorem rk_startup_clocks_witness:
  "\<exists>rc s'. DaiStartup (yes_kernel\<lparr>k_int := \<lambda>l c. if c = ClkEnable ''hclk'' then -5 else 0\<rparr>) (Some demo_dev) demo_dai = Some (rc, s') \<and>
    rc \<noteq> HDF_SUCCESS \<and>
    held (yes_kernel\<lparr>k_int := \<lambda>l c. if c = ClkEnable ''hclk'' then -5 else 0\<rparr>) (rk_log s') (RClockOn ''mclk'') = 1"
proof -
  let ?k = "yes_kernel\<lparr>k_int := \<lambda>l c. if c = ClkEnable ''hclk'' then -5 else 0\<rparr>"
  have "\<not> mclk_calibrate demo_dev" by (simp add: demo_dev_def)
  then obtain rc s' where run: "DaiStartup ?k (Some demo_dev) demo_dai = Some (rc, s')"
    using rk_startup_fault_iff [of ?k demo_dev demo_dai] by fastforce
  show ?thesis
    using rk_startup_clocks [OF run] run by (auto simp: demo_dai_def demo_dev_def held_def)
qed

text \<open>
  For rates below \<open>2^32\<close> and corrections below half of the rate, \<open>rockchip_i2s_clk_set_rate\<close> asks the
  clock, when the PLL cannot be corrected itself, for the rate corrected by the given parts per million and
  rounded to the nearest Hertz; the correction is recorded exactly when the clock accepts the rate.
\<close>
theorem rk_rate_correction:
  assumes "g_rkI2SDev s = Some d" "ppm \<noteq> clk_ppm d" "k_int k (rk_log s) (ClkCompensate clk ppm) = - ENOSYS"
    "uint rate < 2 ^ 32" "\<bar>ppm\<bar> < 500000" "0 < rate"
  shows "\<exists>delta s' d'. \<bar>1000000 * delta - uint rate * ppm\<bar> \<le> 500000 \<and>
    (let c = ClkSetRateLong clk (rate + of_int delta); rc = k_int k (rk_log s @ [ClkCompensate clk ppm]) c
     in rockchip_i2s_clk_set_rate k clk rate ppm s = Some (rc, s') \<and>
        rk_log s' = rk_log s @ [ClkCompensate clk ppm, c] \<and> uint (rate + of_int delta) = uint rate + delta \<and>
        g_rkI2SDev s' = Some d' \<and> d' = (if rc = 0 then d\<lparr>clk_ppm := ppm\<rparr> else d))"
proof -
  let ?q = "(uint rate * \<bar>ppm\<bar> + 500000) div 1000000"
  define delta where "delta = (if ppm < 0 then -1 else 1) * ?q"
  have r: "rate_delta rate ppm = Some delta" unfolding delta_def by (rule rate_delta_exact [OF assms(4,5)])
  have q: "1000000 * ?q \<le> uint rate * \<bar>ppm\<bar> + 500000" "uint rate * \<bar>ppm\<bar> < 1000000 * ?q + 500000" by linarith+
  have near: "\<bar>1000000 * delta - uint rate * ppm\<bar> \<le> 500000"
    using q by (cases "ppm < 0") (simp_all add: delta_def)
  have pos: "0 < uint rate" using assms(6) by (simp add: word_less_def)
  have "uint rate * \<bar>ppm\<bar> \<le> uint rate * 499999" using assms(5) pos by (intro mult_left_mono) auto
  moreover have "\<bar>delta\<bar> = ?q" using pos by (simp add: delta_def abs_mult pos_imp_zdiv_nonneg_iff)
  ultimately have "\<bar>delta\<bar> < uint rate" using q(1) pos by linarith
  then have bound: "0 < uint rate + delta" "uint rate + delta < 2 ^ 64" using assms(4) by auto
  have sum: "uint (rate + of_int delta) = uint rate + delta"
  proof -
    have "rate + of_int delta = word_of_int (uint rate + delta)" by simp
    also have "uint \<dots> = uint rate + delta" using bound by (simp only: uint_word_of_int take_bit_int_eq_self) auto
    finally show ?thesis .
  qed
  then have "rate + of_int delta \<noteq> 0" using bound(1) by (metis less_irrefl uint_0_eq)
  then show ?thesis
    using assms(1-3) near sum
    by (intro exI [of _ delta]) (auto simp: rockchip_i2s_clk_set_rate_def ask_defs Let_def r ENOSYS_def)
qed

theorem rk_rate_correction_witness:
  "\<exists>delta :: int. \<bar>1000000 * delta - 11289600 * 100\<bar> \<le> 500000 \<and>
    (\<exists>s'. rockchip_i2s_clk_set_rate (yes_kernel\<lparr>k_int := \<lambda>l c. if c = ClkCompensate ''mclk_root'' 100 then - ENOSYS else 0\<rparr>)
      ''mclk_root'' 11289600 100 demo_dai = Some (0, s'))"
proof -
  let ?k = "yes_kernel\<lparr>k_int := \<lambda>l c. if c = ClkCompensate ''mclk_root'' 100 then - ENOSYS else 0\<rparr>"
  have d: "g_rkI2SDev demo_dai = Some demo_dev" "clk_ppm demo_dev = 0" by (simp_all add: demo_dai_def demo_dev_def)
  have p: "100 \<noteq> clk_ppm demo_dev" "k_int ?k (rk_log demo_dai) (ClkCompensate ''mclk_root'' 100) = - ENOSYS"
    "uint (11289600 :: u64) < 2 ^ 32" "\<bar>100 :: int\<bar> < 500000" "(0 :: u64) < 11289600"
    by (simp_all add: d(2))
  obtain delta s' where "\<bar>1000000 * delta - uint (11289600 :: u64) * 100\<bar> \<le> 500000"
    "rockchip_i2s_clk_set_rate ?k ''mclk_root'' 11289600 100 demo_dai = Some (k_int ?k (rk_log demo_dai @
       [ClkCompensate ''mclk_root'' 100]) (ClkSetRateLong ''mclk_root'' (11289600 + of_int delta)), s')"
    using rk_rate_correction [OF d(1) p] unfolding Let_def by blast
  then show ?thesis by auto
qed

end
