(* ===== verification/Es8316.thy ===== *)
theory Es8316
  imports Audio_Base
begin

text \<open>
  The ES8316 codec accessory of the yangfan board (\<open>es8316_accessory_impl.c\<close>,
  \<open>es8316_accessory_adapter.c\<close>): register access over I2C, bit-field controls, hardware parameters, resets
  and initialisation from the configuration. The I2C bus, the memory allocator and the GPIO
  functions are a parameter; every call is logged, and those that open, allocate or transfer with
  their result. \<open>chip\<close> is what a
  register of the codec holds after the calls of a log, by the codec's documented write protocol.

  Shown: every access closes the bus handle it opened and frees the buffer it allocated, on every path;
  on a bus that works, updating a field changes exactly that field, and is refused exactly when
  the present contents are out of range; initialisation leaves in every register what the reset
  and default tables say; when hardware parameters read the configuration out of bounds.
\<close>

section \<open>Constants and data\<close>

definition RK3399_I2C_BUS_NUMBER :: u32 where "RK3399_I2C_BUS_NUMBER = 1"
definition ES8316_I2C_DEV_ADDR :: u16 where "ES8316_I2C_DEV_ADDR = 0x11"
definition ES8316_I2C_REG_DATA_LEN :: nat where "ES8316_I2C_REG_DATA_LEN = 1"
definition ES8316_I2C_MSG_NUM :: int where "ES8316_I2C_MSG_NUM = 2"
definition ES8316_I2C_MSG_BUF_SIZE :: nat where "ES8316_I2C_MSG_BUF_SIZE = 2"
definition NUM_NEG_SIXTEEN :: int where "NUM_NEG_SIXTEEN = - 16"
definition I2C_FLAG_READ :: u16 where "I2C_FLAG_READ = 1"

definition ES8316_DHP_RENDER_FREQUENCY_INX :: nat where "ES8316_DHP_RENDER_FREQUENCY_INX = 0"
definition ES8316_DHP_RENDER_FORMAT_INX :: nat where "ES8316_DHP_RENDER_FORMAT_INX = 1"
definition ES8316_DHP_RENDER_CHANNEL_INX :: nat where "ES8316_DHP_RENDER_CHANNEL_INX = 2"
definition ES8316_DHP_CAPTURE_FREQUENCY_INX :: nat where "ES8316_DHP_CAPTURE_FREQUENCY_INX = 3"
definition ES8316_DHP_CAPTURE_FORMAT_INX :: nat where "ES8316_DHP_CAPTURE_FORMAT_INX = 4"
definition ES8316_DHP_CAPTURE_CHANNEL_INX :: nat where "ES8316_DHP_CAPTURE_CHANNEL_INX = 5"

lemmas es_index = ES8316_DHP_RENDER_FREQUENCY_INX_def ES8316_DHP_RENDER_FORMAT_INX_def
  ES8316_DHP_RENDER_CHANNEL_INX_def ES8316_DHP_CAPTURE_FREQUENCY_INX_def ES8316_DHP_CAPTURE_FORMAT_INX_def
  ES8316_DHP_CAPTURE_CHANNEL_INX_def

text \<open>The fields of \<open>AudioMixerControl\<close> the driver uses. Its check \<open>reg < 0\<close> is kept, so the register
  number is a mathematical integer.\<close>

record mixer_control =
  mc_min :: u32
  mc_max :: u32
  mc_mask :: u32
  mc_reg :: int
  mc_shift :: u32
  mc_invert :: bool
  mc_value :: u32

text \<open>An address and value of the configuration, and a control configuration (interface and name index).\<close>

type_synonym addr_config = "u32 \<times> u32"
type_synonym ctrl_config = "u32 \<times> nat"

record kcontrol =
  kc_iface :: u32
  kc_name :: "string option"
  kc_private :: nat

text \<open>The configuration groups: \<open>None\<close> for a missing group or item array. \<open>itemNum\<close> of a group is
  the length of its array.\<close>

record es_groups =
  ctrl_cfg :: "ctrl_config list option"
  ctrl_param :: "mixer_control list option"
  dai_param :: "mixer_control list option"
  dai_startup :: "mixer_control list option"
  rset_group :: "addr_config list option"
  init_group :: "addr_config list option"

record i2c_msg =
  im_addr :: u16
  im_flags :: u16
  im_len :: nat
  im_buf :: "byte list"

datatype icall =
    I2cOpen u32 bool
  | I2cClose
  | MemCalloc nat bool
  | MemFree
  | I2cTransfer "i2c_msg list" int
  | MSleep
  | GpioRequest
  | GpioFree
  | GpioSetDir
  | GpioWrite
  | CtrlsCalloc nat
  | ConfigCalloc

type_synonym ilog = "icall list"

text \<open>The outside world: whether the bus opens and memory is there, the result of a transfer and the
  byte it reads, and the codes of other calls.\<close>

record bus =
  b_open :: "ilog \<Rightarrow> bool"
  b_mem :: "ilog \<Rightarrow> bool"
  b_xfer :: "ilog \<Rightarrow> i2c_msg list \<Rightarrow> int \<times> byte"
  b_code :: "ilog \<Rightarrow> icall \<Rightarrow> int"

text \<open>The driver's state: the configuration behind \<open>codecData->regConfig\<close>, whether the two global pointers
  into it are set, the control table and the log.\<close>

record es =
  regConfig :: "es_groups option"
  g_es8316RegCfgGroupNode :: bool
  td_nodes :: bool
  td_count :: nat
  td_controls :: "kcontrol list option"
  es_log :: ilog

definition g_audioControlsList :: "string list" where
  "g_audioControlsList = [''Main Playback Volume'', ''Main Capture Volume'', ''Playback Mute'', ''Capture Mute'',
     ''Mic Left Gain'', ''Mic Right Gain'', ''External Codec Enable'', ''Internally Codec Enable'',
     ''Render Channel Mode'', ''Captrue Channel Mode'']"

section \<open>Register access\<close>

text \<open>Where the buffer of a message lives; the memory of \<open>regs\<close> is on the stack.\<close>

datatype buf = BNull | BStack | BHeap

definition Es8316I2cRelease :: "buf \<times> buf \<Rightarrow> int \<Rightarrow> bool \<Rightarrow> ilog \<Rightarrow> ilog" where
  "Es8316I2cRelease bufs msgSize handle l = (
     let l1 = (if msgSize = 0 \<and> fst bufs \<noteq> BNull then l @ [MemFree]
               else if msgSize = 1 \<and> fst bufs \<noteq> BNull then l @ [MemFree]
               else if msgSize \<ge> ES8316_I2C_MSG_NUM \<and> snd bufs \<noteq> BNull then l @ [MemFree]
               else l)
     in if handle then l1 @ [I2cClose] else l1)"

text \<open>The code, the messages and where their buffers live. One byte of data makes the branches for two
  bytes dead code.\<close>

definition Es8316I2cMsgFill ::
    "bus \<Rightarrow> addr_config \<Rightarrow> u16 \<Rightarrow> ilog \<Rightarrow> int \<times> i2c_msg list \<times> (buf \<times> buf) \<times> ilog" where
  "Es8316I2cMsgFill b regAttr rwFlag l = (
     let reg = (ucast (fst regAttr) :: byte);
         head = \<lparr>im_addr = ES8316_I2C_DEV_ADDR, im_flags = 0, im_len = ES8316_I2C_REG_DATA_LEN + 1, im_buf = []\<rparr>
     in if rwFlag \<noteq> 0 \<and> rwFlag \<noteq> I2C_FLAG_READ then (HDF_ERR_INVALID_PARAM, [], (BNull, BNull), l)
        else if rwFlag = 0 then
          if \<not> b_mem b l then (HDF_ERR_MALLOC_FAIL, [head], (BNull, BNull), l @ [MemCalloc (ES8316_I2C_REG_DATA_LEN + 1) False])
          else (HDF_SUCCESS, [head\<lparr>im_buf := [reg, ucast (snd regAttr)]\<rparr>], (BHeap, BNull),
                l @ [MemCalloc (ES8316_I2C_REG_DATA_LEN + 1) True])
        else
          if \<not> b_mem b l then (HDF_ERR_MALLOC_FAIL, [head], (BNull, BNull), l @ [MemCalloc ES8316_I2C_REG_DATA_LEN False])
          else (HDF_SUCCESS,
                [head\<lparr>im_len := 1, im_buf := [reg]\<rparr>,
                 \<lparr>im_addr = ES8316_I2C_DEV_ADDR, im_flags = I2C_FLAG_READ, im_len = ES8316_I2C_REG_DATA_LEN, im_buf = [0]\<rparr>],
                (BStack, BHeap), l @ [MemCalloc ES8316_I2C_REG_DATA_LEN True]))"

text \<open>The code, the value in \<open>regAttr\<close> afterwards, and the log.\<close>

definition Es8316I2cReadWrite :: "bus \<Rightarrow> addr_config option \<Rightarrow> u16 \<Rightarrow> ilog \<Rightarrow> int \<times> u32 \<times> ilog" where
  "Es8316I2cReadWrite b regAttr rwFlag l = (case regAttr of
     None \<Rightarrow> (HDF_ERR_INVALID_PARAM, 0, l)
   | Some ra \<Rightarrow>
       if rwFlag > 1 then (HDF_ERR_INVALID_PARAM, snd ra, l)
       else if \<not> b_open b l then (HDF_FAILURE, snd ra, l @ [I2cOpen RK3399_I2C_BUS_NUMBER False])
       else
         let transferMsgCount = (if rwFlag = I2C_FLAG_READ then ES8316_I2C_MSG_NUM else 1);
             (ret, msgs, bufs, l1) = Es8316I2cMsgFill b ra rwFlag (l @ [I2cOpen RK3399_I2C_BUS_NUMBER True])
         in if ret \<noteq> HDF_SUCCESS then (HDF_FAILURE, snd ra, l1 @ [I2cClose])
            else
              let (rc, v) = b_xfer b l1 msgs;
                  l2 = l1 @ [I2cTransfer msgs rc]
              in if rc \<noteq> transferMsgCount
                 then (HDF_FAILURE, snd ra, Es8316I2cRelease bufs transferMsgCount True l2)
                 else (HDF_SUCCESS, if rwFlag = I2C_FLAG_READ then ucast v else snd ra,
                       Es8316I2cRelease bufs transferMsgCount True l2))"

text \<open>The result has the control with its value replaced and the register's contents, when they were
  read. Shifting by 32 or more faults.\<close>

definition Es8316RegBitsRead ::
    "bus \<Rightarrow> mixer_control \<Rightarrow> ilog \<Rightarrow> (int \<times> mixer_control \<times> u32 \<times> ilog) option" where
  "Es8316RegBitsRead b regAttr l = (
     if mc_reg regAttr < 0 then Some (HDF_ERR_INVALID_PARAM, regAttr, 0, l)
     else
       let (ret, v, l1) = Es8316I2cReadWrite b (Some (of_int (mc_reg regAttr), 0)) I2C_FLAG_READ l
       in if ret \<noteq> HDF_SUCCESS then Some (HDF_FAILURE, regAttr, 0, l1)
          else if mc_shift regAttr \<ge> 32 then None
          else
            let cur = drop_bit (unat (mc_shift regAttr)) v AND mc_mask regAttr;
                regAttr1 = regAttr\<lparr>mc_value := cur\<rparr>
            in if cur > mc_max regAttr \<or> cur < mc_min regAttr then Some (HDF_FAILURE, regAttr1, v, l1)
               else Some (HDF_SUCCESS,
                 if mc_invert regAttr then regAttr1\<lparr>mc_value := mc_max regAttr - cur\<rparr> else regAttr1, v, l1))"

definition Es8316RegBitsUpdate :: "bus \<Rightarrow> mixer_control \<Rightarrow> ilog \<Rightarrow> (int \<times> ilog) option" where
  "Es8316RegBitsUpdate b regAttr l = (
     if mc_reg regAttr < 0 then Some (HDF_ERR_INVALID_PARAM, l)
     else if mc_shift regAttr \<ge> 32 then None
     else do {
       let val = (if mc_invert regAttr then mc_max regAttr - mc_value regAttr else mc_value regAttr);
       let newValue = push_bit (unat (mc_shift regAttr)) val;
       let newMask = push_bit (unat (mc_shift regAttr)) (mc_mask regAttr);
       (ret, regAttr1, value, l1) \<leftarrow> Es8316RegBitsRead b (regAttr\<lparr>mc_value := val\<rparr>) l;
       if ret \<noteq> HDF_SUCCESS then Some (HDF_FAILURE, l1)
       else
         let (ret, _, l2) = Es8316I2cReadWrite b
               (Some (of_int (mc_reg regAttr), (value AND NOT newMask) OR (newValue AND newMask))) 0 l1
         in Some (if ret \<noteq> HDF_SUCCESS then HDF_FAILURE else HDF_SUCCESS, l2) })"

definition Es8316DeviceRegRead :: "bus \<Rightarrow> u32 \<Rightarrow> bool \<Rightarrow> ilog \<Rightarrow> int \<times> u32 option \<times> ilog" where
  "Es8316DeviceRegRead b reg val l = (
     if \<not> val then (HDF_ERR_INVALID_OBJECT, None, l)
     else let (ret, v, l1) = Es8316I2cReadWrite b (Some (ucast (ucast reg :: byte), 0)) I2C_FLAG_READ l
          in if ret \<noteq> HDF_SUCCESS then (HDF_FAILURE, None, l1) else (HDF_SUCCESS, Some v, l1))"

definition Es8316DeviceRegWrite :: "bus \<Rightarrow> u32 \<Rightarrow> u32 \<Rightarrow> ilog \<Rightarrow> int \<times> ilog" where
  "Es8316DeviceRegWrite b reg value l = (
     let (ret, _, l1) = Es8316I2cReadWrite b (Some (ucast (ucast reg :: byte), ucast (ucast value :: u16))) 0 l
     in (if ret \<noteq> HDF_SUCCESS then HDF_FAILURE else HDF_SUCCESS, l1))"

section \<open>Hardware parameters\<close>

record Es8316DaiParamsVal =
  frequencyVal :: u32
  formatVal :: u32
  channelVal :: u32

definition param_at :: "nat \<Rightarrow> Es8316DaiParamsVal \<Rightarrow> u32 option" where
  "param_at i v = (
     if i = ES8316_DHP_RENDER_FREQUENCY_INX \<or> i = ES8316_DHP_CAPTURE_FREQUENCY_INX then Some (frequencyVal v)
     else if i = ES8316_DHP_RENDER_FORMAT_INX \<or> i = ES8316_DHP_CAPTURE_FORMAT_INX then Some (formatVal v)
     else if i = ES8316_DHP_RENDER_CHANNEL_INX \<or> i = ES8316_DHP_CAPTURE_CHANNEL_INX then Some (channelVal v)
     else None)"

text \<open>The loop over the given indices; the values are stored in the configuration, whose end is not
  checked.\<close>

fun scene_loop ::
    "bus \<Rightarrow> Es8316DaiParamsVal \<Rightarrow> nat list \<Rightarrow> mixer_control list \<Rightarrow> ilog \<Rightarrow> (int \<times> mixer_control list \<times> ilog) option" where
  "scene_loop b v [] items l = Some (HDF_SUCCESS, items, l)"
| "scene_loop b v (i # is) items l = (case param_at i v of
     None \<Rightarrow> scene_loop b v is items l
   | Some x \<Rightarrow> do {
       item \<leftarrow> arr_get items i;
       let items1 = items[i := item\<lparr>mc_value := x\<rparr>];
       (ret, l1) \<leftarrow> Es8316RegBitsUpdate b (item\<lparr>mc_value := x\<rparr>) l;
       if ret \<noteq> HDF_SUCCESS then Some (HDF_FAILURE, items1, l1)
       else scene_loop b v is items1 l1 })"

text \<open>The number of items is kept in a \<open>uint8_t\<close>.\<close>

definition Es8316DaiParamsUpdate4Scene ::
    "bus \<Rightarrow> mixer_control list \<Rightarrow> byte \<Rightarrow> nat \<Rightarrow> nat \<Rightarrow> Es8316DaiParamsVal \<Rightarrow> ilog \<Rightarrow>
     (int \<times> mixer_control list \<times> ilog) option" where
  "Es8316DaiParamsUpdate4Scene b items itemCount beginIndex endIndex v l = (
     if itemCount = 0 then Some (HDF_FAILURE, items, l)
     else scene_loop b v [beginIndex..<endIndex + 1] items l)"

definition Es8316DaiParamsUpdate :: "bus \<Rightarrow> Es8316DaiParamsVal \<Rightarrow> bool \<Rightarrow> es \<Rightarrow> (int \<times> es) option" where
  "Es8316DaiParamsUpdate b v playback s = (case (td_nodes s, regConfig s) of
     (True, Some g) \<Rightarrow> (case dai_param g of
       None \<Rightarrow> Some (HDF_FAILURE, s)
     | Some items \<Rightarrow> do {
         let (beginIndex, endIndex) =
           (if \<not> playback then (ES8316_DHP_CAPTURE_FREQUENCY_INX, ES8316_DHP_CAPTURE_CHANNEL_INX)
            else (ES8316_DHP_RENDER_FREQUENCY_INX, ES8316_DHP_RENDER_CHANNEL_INX));
         (ret, items1, l) \<leftarrow>
           Es8316DaiParamsUpdate4Scene b items (of_nat (length items)) beginIndex endIndex v (es_log s);
         Some (if ret \<noteq> HDF_SUCCESS then HDF_FAILURE else HDF_SUCCESS,
               s\<lparr>regConfig := Some (g\<lparr>dai_param := Some items1\<rparr>), es_log := l\<rparr>) })
   | _ \<Rightarrow> Some (HDF_FAILURE, s))"

definition frequency_codes :: "(u32 \<times> u32) list" where
  "frequency_codes = [(8000, 0), (11025, 1), (12000, 2), (16000, 3), (22050, 4), (24000, 5), (32000, 6), (44100, 7),
     (48000, 8), (64000, 9), (88200, 0xA), (96000, 0xB)]"

definition Es8316DeviceFrequencyParse :: "u32 \<Rightarrow> int \<times> u32 option" where
  "Es8316DeviceFrequencyParse rate = (case map_of frequency_codes rate of
     None \<Rightarrow> (HDF_ERR_NOT_SUPPORT, None) | Some c \<Rightarrow> (HDF_SUCCESS, Some c))"

definition Es8316FormatParse :: "AudioFormat \<Rightarrow> int \<times> u32 option" where
  "Es8316FormatParse format = (case format of
     AUDIO_FORMAT_TYPE_PCM_16_BIT \<Rightarrow> (HDF_SUCCESS, Some 2)
   | AUDIO_FORMAT_TYPE_PCM_24_BIT \<Rightarrow> (HDF_SUCCESS, Some 0)
   | AUDIO_FORMAT_TYPE_PCM_32_BIT \<Rightarrow> (HDF_SUCCESS, Some 4)
   | _ \<Rightarrow> (HDF_ERR_NOT_SUPPORT, None))"

definition Es8316DaiHwParams ::
    "bus \<Rightarrow> bool \<Rightarrow> AudioStreamType \<Rightarrow> AudioFormat \<Rightarrow> u32 \<Rightarrow> u32 \<Rightarrow> es \<Rightarrow> (int \<times> es) option" where
  "Es8316DaiHwParams b param st format channels rate s = (
     if \<not> param then Some (HDF_ERR_INVALID_PARAM, s)
     else case Es8316DeviceFrequencyParse rate of
       (_, None) \<Rightarrow> Some (HDF_ERR_NOT_SUPPORT, s)
     | (_, Some f) \<Rightarrow> (case Es8316FormatParse format of
         (_, None) \<Rightarrow> Some (HDF_ERR_NOT_SUPPORT, s)
       | (_, Some w) \<Rightarrow> do {
           (ret, s1) \<leftarrow> Es8316DaiParamsUpdate b \<lparr>frequencyVal = f, formatVal = w, channelVal = channels\<rparr>
              (st = AUDIO_RENDER_STREAM) s;
           Some (if ret \<noteq> HDF_SUCCESS then HDF_FAILURE else HDF_SUCCESS, s1) }))"

section \<open>Initialisation\<close>

text \<open>\<open>names\<close> are the entries of \<open>g_audioControlsList\<close> and the empty ones after them, up to
  \<open>AUDIO_CTRL_LIST_MAX\<close>; an index past them faults, and so does a control table that could not be
  allocated.\<close>

fun fill_controls :: "string option list \<Rightarrow> nat \<Rightarrow> ctrl_config list \<Rightarrow> kcontrol list option" where
  "fill_controls names i [] = Some []"
| "fill_controls names i ((iface, n) # cs) = do {
     name \<leftarrow> arr_get names n;
     rest \<leftarrow> fill_controls names (Suc i) cs;
     Some (\<lparr>kc_iface = iface, kc_name = name, kc_private = i\<rparr> # rest) }"

definition Es8316DeviceCfgGet :: "bus \<Rightarrow> nat \<Rightarrow> es \<Rightarrow> (int \<times> es) option" where
  "Es8316DeviceCfgGet b ctrl_list_max s = (case regConfig s of
     None \<Rightarrow> Some (HDF_FAILURE, s)
   | Some g \<Rightarrow>
       let s1 = s\<lparr>g_es8316RegCfgGroupNode := True\<rparr>
       in case (ctrl_cfg g, ctrl_param g) of
         (Some cfg, Some _) \<Rightarrow>
           let names = map Some g_audioControlsList @ replicate (ctrl_list_max - length g_audioControlsList) None;
               l = es_log s @ [CtrlsCalloc (length cfg)];
               s2 = s1\<lparr>td_nodes := True, td_count := length cfg, es_log := l\<rparr>
           in if b_mem b (es_log s)
              then do { ctrls \<leftarrow> fill_controls names 0 cfg; Some (HDF_SUCCESS, s2\<lparr>td_controls := Some ctrls\<rparr>) }
              else if cfg = [] then Some (HDF_SUCCESS, s2\<lparr>td_controls := None\<rparr>) else None
       | _ \<Rightarrow> Some (HDF_FAILURE, s1))"

text \<open>The loop both register tables are written with.\<close>

fun write_all :: "bus \<Rightarrow> addr_config list \<Rightarrow> ilog \<Rightarrow> int \<times> ilog" where
  "write_all b [] l = (HDF_SUCCESS, l)"
| "write_all b (c # cs) l = (
     let (ret, _, l1) = Es8316I2cReadWrite b (Some c) 0 l
     in if ret \<noteq> HDF_SUCCESS then (HDF_FAILURE, l1) else write_all b cs (l1 @ [MSleep]))"

definition Es8316DeviceCtrlRegInit :: "bus \<Rightarrow> es \<Rightarrow> int \<times> es" where
  "Es8316DeviceCtrlRegInit b s = (case (g_es8316RegCfgGroupNode s, regConfig s) of
     (True, Some g) \<Rightarrow> (case init_group g of
       None \<Rightarrow> (HDF_FAILURE, s)
     | Some cfg \<Rightarrow> let (ret, l) = write_all b cfg (es_log s) in (ret, s\<lparr>es_log := l\<rparr>))
   | _ \<Rightarrow> (HDF_FAILURE, s))"

definition Es8316SoftwareRest :: "bus \<Rightarrow> es \<Rightarrow> int \<times> es" where
  "Es8316SoftwareRest b s = (case (td_nodes s, regConfig s) of
     (True, Some g) \<Rightarrow> (case rset_group g of
       None \<Rightarrow> (HDF_FAILURE, s)
     | Some cfg \<Rightarrow> let (ret, l) = write_all b cfg (es_log s) in (ret, s\<lparr>es_log := l\<rparr>))
   | _ \<Rightarrow> (HDF_FAILURE, s))"

definition Es8316HardwareRest :: "bus \<Rightarrow> es \<Rightarrow> int \<times> es" where
  "Es8316HardwareRest b s = (
     let l0 = es_log s; ret = b_code b l0 GpioRequest; l1 = l0 @ [GpioRequest]
     in if ret \<noteq> 0 \<and> ret \<noteq> NUM_NEG_SIXTEEN then (HDF_FAILURE, s\<lparr>es_log := l1 @ [GpioFree]\<rparr>)
        else
          let ret = b_code b l1 GpioSetDir; l2 = l1 @ [GpioSetDir]
          in if ret \<noteq> HDF_SUCCESS then (ret, s\<lparr>es_log := l2\<rparr>)
             else
               let ret = b_code b l2 GpioWrite; l3 = l2 @ [GpioWrite]
               in (ret, s\<lparr>es_log := l3\<rparr>))"

text \<open>The number of items is cut to a \<open>uint8_t\<close>.\<close>

fun update_all :: "bus \<Rightarrow> mixer_control list \<Rightarrow> ilog \<Rightarrow> (int \<times> ilog) option" where
  "update_all b [] l = Some (HDF_SUCCESS, l)"
| "update_all b (c # cs) l = do {
     (ret, l1) \<leftarrow> Es8316RegBitsUpdate b c l;
     if ret \<noteq> HDF_SUCCESS then Some (HDF_FAILURE, l1) else update_all b cs l1 }"

definition Es8316WorkStatusEnable :: "bus \<Rightarrow> es \<Rightarrow> (int \<times> es) option" where
  "Es8316WorkStatusEnable b s = (case (td_nodes s, regConfig s) of
     (True, Some g) \<Rightarrow> (case dai_startup g of
       None \<Rightarrow> Some (HDF_FAILURE, s)
     | Some items \<Rightarrow> do {
         (ret, l) \<leftarrow> update_all b (take (length items mod 256) items) (es_log s);
         Some (ret, s\<lparr>es_log := l\<rparr>) })
   | _ \<Rightarrow> Some (HDF_FAILURE, s))"

text \<open>\<open>params\<close> says whether card and device are there, \<open>add\<close> is the code of \<open>AudioAddControls\<close>.\<close>

definition Es8316DeviceInit :: "bus \<Rightarrow> nat \<Rightarrow> bool \<Rightarrow> int \<Rightarrow> es \<Rightarrow> (int \<times> es) option" where
  "Es8316DeviceInit b ctrl_list_max params add s = (
     if \<not> params then Some (HDF_ERR_INVALID_OBJECT, s)
     else do {
       (ret, s1) \<leftarrow> Es8316DeviceCfgGet b ctrl_list_max s;
       if ret \<noteq> HDF_SUCCESS then Some (HDF_FAILURE, s1)
       else
         let (ret, s2) = Es8316HardwareRest b s1
         in if ret \<noteq> HDF_SUCCESS then Some (HDF_FAILURE, s2)
            else
              let (ret, s3) = Es8316SoftwareRest b s2
              in if ret \<noteq> HDF_SUCCESS then Some (HDF_FAILURE, s3)
                 else
                   let (ret, s4) = Es8316DeviceCtrlRegInit b s3
                   in if ret \<noteq> HDF_SUCCESS then Some (HDF_FAILURE, s4)
                      else Some (if add \<noteq> HDF_SUCCESS then HDF_FAILURE else HDF_SUCCESS, s4) })"

definition Es8316DaiDeviceInit :: "bool \<Rightarrow> int" where
  "Es8316DaiDeviceInit device = (if \<not> device then HDF_FAILURE else HDF_SUCCESS)"

definition Es8316DaiStartup :: "bus \<Rightarrow> es \<Rightarrow> (int \<times> es) option" where
  "Es8316DaiStartup b s = do {
     (ret, s1) \<leftarrow> Es8316WorkStatusEnable b s;
     Some (if ret \<noteq> HDF_SUCCESS then HDF_FAILURE else HDF_SUCCESS, s1) }"

section \<open>Driver entry\<close>

text \<open>\<open>parse\<close> is what \<open>CodecGetRegConfig\<close> returns: its code and the configuration it filled in.\<close>

definition Es8316GetConfigInfo :: "bus \<Rightarrow> bool \<Rightarrow> int \<times> es_groups \<Rightarrow> es \<Rightarrow> int \<times> es" where
  "Es8316GetConfigInfo b params parse s = (
     if \<not> params then (HDF_FAILURE, s)
     else if regConfig s \<noteq> None then (HDF_FAILURE, s)
     else
       let s1 = s\<lparr>es_log := es_log s @ [ConfigCalloc]\<rparr>
       in if \<not> b_mem b (es_log s) then (HDF_FAILURE, s1)
          else
            let s2 = s1\<lparr>regConfig := Some (snd parse)\<rparr>
            in if fst parse \<noteq> HDF_SUCCESS then (HDF_FAILURE, s2) else (HDF_SUCCESS, s2))"

text \<open>\<open>property\<close> and \<open>iface\<close> say whether the device node and the resource interface are there; \<open>str\<close> is
  the code of the framework's \<open>GetString\<close>.\<close>

definition GetServiceName :: "bool \<Rightarrow> bool \<Rightarrow> bool \<Rightarrow> int \<Rightarrow> int" where
  "GetServiceName device property iface str = (
     if \<not> device then HDF_FAILURE else if \<not> property then HDF_FAILURE else if \<not> iface then HDF_FAILURE
     else if str \<noteq> HDF_SUCCESS then str else HDF_SUCCESS)"

definition Es8316DriverBind :: int where "Es8316DriverBind = HDF_SUCCESS"

definition Es8316DriverInit ::
    "bus \<Rightarrow> bool \<Rightarrow> int \<times> es_groups \<Rightarrow> bool \<Rightarrow> bool \<Rightarrow> int \<Rightarrow> int \<Rightarrow> es \<Rightarrow> int \<times> es" where
  "Es8316DriverInit b device parse property iface str register s = (
     if \<not> device then (HDF_ERR_INVALID_OBJECT, s)
     else
       let (ret, s1) = Es8316GetConfigInfo b True parse s
       in if ret \<noteq> HDF_SUCCESS then (ret, s1)
          else if GetServiceName True property iface str \<noteq> HDF_SUCCESS then (GetServiceName True property iface str, s1)
          else if register \<noteq> HDF_SUCCESS then (register, s1)
          else (HDF_SUCCESS, s1))"

section \<open>Handles and buffers\<close>

text \<open>Open bus handles and allocated message buffers after a log; \<open>None\<close> when one was given back that
  was not there.\<close>

fun use_step :: "(nat \<times> nat) option \<Rightarrow> icall \<Rightarrow> (nat \<times> nat) option" where
  "use_step (Some (h, m)) (I2cOpen n True) = Some (Suc h, m)"
| "use_step (Some (h, m)) I2cClose = (if h = 0 then None else Some (h - 1, m))"
| "use_step (Some (h, m)) (MemCalloc n True) = Some (h, Suc m)"
| "use_step (Some (h, m)) MemFree = (if m = 0 then None else Some (h, m - 1))"
| "use_step u _ = u"

definition usage :: "ilog \<Rightarrow> (nat \<times> nat) option" where
  "usage l = foldl use_step (Some (0, 0)) l"

lemma usage_append [simp]: "usage (l @ l') = foldl use_step (usage l) l'"
  by (simp add: usage_def)

text \<open>A log that goes on and uses nothing in the end.\<close>

definition tidy :: "ilog \<Rightarrow> ilog \<Rightarrow> bool" where
  "tidy l l' \<longleftrightarrow> (\<forall>u. usage l = Some u \<longrightarrow> usage l' = Some u)"

lemma tidy_refl [simp]: "tidy l l" and tidy_trans: "tidy l l' \<Longrightarrow> tidy l' l'' \<Longrightarrow> tidy l l''"
  by (auto simp: tidy_def)

lemma tidy_call: "(\<And>u. use_step (Some u) c = Some u) \<Longrightarrow> tidy l l' \<Longrightarrow> tidy l (l' @ [c])"
  by (auto simp: tidy_def)

lemma tidy_calls [simp]:
  "tidy l (l' @ [MSleep]) = tidy l l'" "tidy l (l' @ [GpioRequest]) = tidy l l'" "tidy l (l' @ [GpioFree]) = tidy l l'"
  "tidy l (l' @ [GpioSetDir]) = tidy l l'" "tidy l (l' @ [GpioWrite]) = tidy l l'"
  "tidy l (l' @ [CtrlsCalloc n]) = tidy l l'" "tidy l (l' @ [ConfigCalloc]) = tidy l l'"
  unfolding tidy_def usage_append
  by (cases "usage l'"; force)+

lemma read_write_tidy:
  assumes "Es8316I2cReadWrite b ra f l = (rc, v, l')" shows "tidy l l'"
  using assms
  by (auto simp: Es8316I2cReadWrite_def Es8316I2cMsgFill_def Es8316I2cRelease_def tidy_def Let_def I2C_FLAG_READ_def
      ES8316_I2C_MSG_NUM_def err_defs split: option.splits if_splits prod.splits)

lemma bits_read_tidy:
  assumes "Es8316RegBitsRead b c l = Some (rc, c', v, l')" shows "tidy l l'"
  using assms
  by (auto simp: Es8316RegBitsRead_def Let_def split: if_splits prod.splits dest!: read_write_tidy)

lemma bits_update_tidy:
  assumes "Es8316RegBitsUpdate b c l = Some (rc, l')" shows "tidy l l'"
  using assms
  by (auto simp: Es8316RegBitsUpdate_def Let_def bind_eq_Some_conv split: if_splits prod.splits
      dest!: read_write_tidy bits_read_tidy intro: tidy_trans)

lemma scene_tidy: "scene_loop b v is items l = Some (rc, items', l') \<Longrightarrow> tidy l l'"
  by (induction "is" arbitrary: items l)
    (auto simp: bind_eq_Some_conv Let_def split: option.splits if_splits dest!: bits_update_tidy intro: tidy_trans)

lemma update_all_tidy: "update_all b cs l = Some (rc, l') \<Longrightarrow> tidy l l'"
  by (induction cs arbitrary: l)
    (auto simp: bind_eq_Some_conv split: if_splits dest!: bits_update_tidy intro: tidy_trans)

lemma write_all_tidy: "write_all b cs l = (rc, l') \<Longrightarrow> tidy l l'"
proof (induction b cs l arbitrary: rc rule: write_all.induct)
  case (2 b c cs l)
  obtain ret v l1 where 1: "Es8316I2cReadWrite b (Some c) 0 l = (ret, v, l1)" by (metis prod.exhaust)
  note t = read_write_tidy [OF 1]
  show ?case
  proof (cases "ret = HDF_SUCCESS")
    case True
    then have "tidy (l1 @ [MSleep]) l'" using 2 1 by simp
    moreover have "tidy l (l1 @ [MSleep])" using t by simp
    ultimately show ?thesis by (rule tidy_trans [rotated])
  qed (use 2 1 t in simp)
qed simp

text \<open>The entry points of the driver.\<close>

datatype es_op =
    EsInit nat int
  | EsStartup
  | EsHwParams AudioStreamType AudioFormat u32 u32
  | EsRead u32
  | EsWrite u32 u32

fun es_step :: "bus \<Rightarrow> es_op \<Rightarrow> es \<Rightarrow> (int \<times> es) option" where
  "es_step b (EsInit n add) s = Es8316DeviceInit b n True add s"
| "es_step b EsStartup s = Es8316DaiStartup b s"
| "es_step b (EsHwParams st f ch rate) s = Es8316DaiHwParams b True st f ch rate s"
| "es_step b (EsRead r) s = (let (rc, v, l) = Es8316DeviceRegRead b r True (es_log s) in Some (rc, s\<lparr>es_log := l\<rparr>))"
| "es_step b (EsWrite r v) s = (let (rc, l) = Es8316DeviceRegWrite b r v (es_log s) in Some (rc, s\<lparr>es_log := l\<rparr>))"

primrec es_run :: "bus \<Rightarrow> es_op list \<Rightarrow> es \<Rightarrow> es option" where
  "es_run b [] s = Some s"
| "es_run b (x # xs) s = do { (rc, s1) \<leftarrow> es_step b x s; es_run b xs s1 }"

lemma stages_tidy:
  "Es8316DeviceCfgGet b n s = Some (rc, s') \<Longrightarrow> tidy (es_log s) (es_log s')"
  "Es8316HardwareRest b s = (rc, s') \<Longrightarrow> tidy (es_log s) (es_log s')"
  "Es8316SoftwareRest b s = (rc, s') \<Longrightarrow> tidy (es_log s) (es_log s')"
  "Es8316DeviceCtrlRegInit b s = (rc, s') \<Longrightarrow> tidy (es_log s) (es_log s')"
proof -
  show "Es8316HardwareRest b s = (rc, s') \<Longrightarrow> tidy (es_log s) (es_log s')"
    by (auto simp: Es8316HardwareRest_def tidy_def Let_def split: if_splits)
qed (auto simp: Es8316DeviceCfgGet_def Es8316SoftwareRest_def Es8316DeviceCtrlRegInit_def Let_def bind_eq_Some_conv
    split: option.splits if_splits bool.splits prod.splits dest: write_all_tidy)

lemma step_tidy:
  assumes "es_step b op s = Some (rc, s')" shows "tidy (es_log s) (es_log s')"
proof (cases op)
  case (EsInit n add)
  obtain r2 s2 r3 s3 r4 s4 s1 r1 where p: "Es8316DeviceCfgGet b n s = Some (r1, s1)" "Es8316HardwareRest b s1 = (r2, s2)"
    "Es8316SoftwareRest b s2 = (r3, s3)" "Es8316DeviceCtrlRegInit b s3 = (r4, s4)"
    using assms EsInit by (metis (no_types, lifting) Es8316DeviceInit_def bind_eq_Some_conv es_step.simps(1) prod.exhaust)
  have "s' \<in> {s1, s2, s3, s4}"
    using assms EsInit p by (auto simp: Es8316DeviceInit_def split: if_splits)
  then show ?thesis using stages_tidy(1) [OF p(1)] stages_tidy(2) [OF p(2)] stages_tidy(3) [OF p(3)]
    stages_tidy(4) [OF p(4)] by (auto intro: tidy_trans)
next
  case EsStartup
  then show ?thesis using assms
    by (auto simp: Es8316DaiStartup_def Es8316WorkStatusEnable_def bind_eq_Some_conv
        split: option.splits bool.splits dest: update_all_tidy)
next
  case (EsHwParams st f ch rate)
  then show ?thesis using assms
    by (auto simp: Es8316DaiHwParams_def Es8316DaiParamsUpdate_def Es8316DaiParamsUpdate4Scene_def bind_eq_Some_conv Let_def
        split: option.splits bool.splits prod.splits if_splits dest: scene_tidy)
next
  case (EsRead r)
  then show ?thesis using assms
    by (auto simp: Es8316DeviceRegRead_def Let_def split: prod.splits if_splits dest: read_write_tidy)
next
  case (EsWrite r v)
  then show ?thesis using assms
    by (auto simp: Es8316DeviceRegWrite_def Let_def split: prod.splits if_splits dest: read_write_tidy)
qed

lemma run_tidy: "es_run b ops s = Some s' \<Longrightarrow> tidy (es_log s) (es_log s')"
  by (induction ops arbitrary: s) (auto simp: bind_eq_Some_conv dest!: step_tidy intro: tidy_trans)

section \<open>The codec's registers\<close>

text \<open>A message of two bytes that was transferred stores the second in the register the first names.\<close>

fun chip_step :: "byte \<Rightarrow> byte \<Rightarrow> icall \<Rightarrow> byte" where
  "chip_step r x (I2cTransfer [m] rc) = (case im_buf m of [a, v] \<Rightarrow> if rc = 1 \<and> a = r then v else x | _ \<Rightarrow> x)"
| "chip_step r x _ = x"

text \<open>Register \<open>r\<close> after the calls \<open>l\<close>, when the registers held \<open>x\<close> at first.\<close>

definition chip :: "(byte \<Rightarrow> byte) \<Rightarrow> byte \<Rightarrow> ilog \<Rightarrow> byte" where
  "chip x r l = foldl (chip_step r) (x r) l"

definition read_msgs :: "byte \<Rightarrow> i2c_msg list" where
  "read_msgs r =
     [\<lparr>im_addr = ES8316_I2C_DEV_ADDR, im_flags = 0, im_len = 1, im_buf = [r]\<rparr>,
      \<lparr>im_addr = ES8316_I2C_DEV_ADDR, im_flags = I2C_FLAG_READ, im_len = ES8316_I2C_REG_DATA_LEN, im_buf = [0]\<rparr>]"

definition write_msgs :: "byte \<Rightarrow> byte \<Rightarrow> i2c_msg list" where
  "write_msgs r v =
     [\<lparr>im_addr = ES8316_I2C_DEV_ADDR, im_flags = 0, im_len = ES8316_I2C_REG_DATA_LEN + 1, im_buf = [r, v]\<rparr>]"

text \<open>A bus that opens, memory that is there, and a codec that answers a read with the register's contents.\<close>

definition codec_answers :: "bus \<times> (byte \<Rightarrow> byte) \<Rightarrow> bool" where
  "codec_answers w \<longleftrightarrow> (\<forall>l. b_open (fst w) l \<and> b_mem (fst w) l) \<and>
     (\<forall>l r. b_xfer (fst w) l (read_msgs r) = (2, chip (snd w) r l)) \<and>
     (\<forall>l r v. fst (b_xfer (fst w) l (write_msgs r v)) = 1)"

definition chip_get :: "bus \<times> (byte \<Rightarrow> byte) \<Rightarrow> byte \<Rightarrow> ilog \<Rightarrow> int \<times> byte \<times> ilog" where
  "chip_get w r l = (let (rc, v, l1) = Es8316I2cReadWrite (fst w) (Some (ucast r, 0)) I2C_FLAG_READ l in (rc, ucast v, l1))"

definition chip_put :: "bus \<times> (byte \<Rightarrow> byte) \<Rightarrow> byte \<Rightarrow> byte \<Rightarrow> ilog \<Rightarrow> int \<times> ilog" where
  "chip_put w r v l = (let (rc, _, l1) = Es8316I2cReadWrite (fst w) (Some (ucast r, ucast v)) 0 l in (rc, l1))"

definition chip_contents :: "bus \<times> (byte \<Rightarrow> byte) \<Rightarrow> byte \<Rightarrow> ilog \<Rightarrow> byte" where
  "chip_contents w r l = chip (snd w) r l"

lemma chip_append [simp]: "chip x r (l @ l') = foldl (chip_step r) (chip x r l) l'"
  by (simp add: chip_def)

lemma ucast_byte_u32 [simp]: "ucast (ucast (r :: byte) :: u32) = r"
  by (rule bit_word_eqI) (auto simp: bit_simps)

text \<open>All calls of a read and of a write.\<close>

lemma read_run:
  assumes "codec_answers w"
  shows "Es8316I2cReadWrite (fst w) (Some (a, x)) I2C_FLAG_READ l =
    (HDF_SUCCESS, ucast (chip (snd w) (ucast a) l), l @ [I2cOpen RK3399_I2C_BUS_NUMBER True,
      MemCalloc ES8316_I2C_REG_DATA_LEN True, I2cTransfer (read_msgs (ucast a)) 2, MemFree, I2cClose])"
  using assms
  by (simp add: codec_answers_def Es8316I2cReadWrite_def Es8316I2cMsgFill_def Es8316I2cRelease_def I2C_FLAG_READ_def
      ES8316_I2C_MSG_NUM_def Let_def read_msgs_def err_defs)

lemma write_run:
  assumes "codec_answers w"
  shows "Es8316I2cReadWrite (fst w) (Some (a, x)) 0 l =
    (HDF_SUCCESS, x, l @ [I2cOpen RK3399_I2C_BUS_NUMBER True,
      MemCalloc (ES8316_I2C_REG_DATA_LEN + 1) True, I2cTransfer (write_msgs (ucast a) (ucast x)) 1, MemFree, I2cClose])"
proof -
  let ?l = "l @ [I2cOpen RK3399_I2C_BUS_NUMBER True, MemCalloc (ES8316_I2C_REG_DATA_LEN + 1) True]"
  obtain v where "b_xfer (fst w) ?l (write_msgs (ucast a) (ucast x)) = (1, v)"
    using assms by (metis codec_answers_def prod.exhaust_sel)
  then show ?thesis
    using assms
    by (simp add: codec_answers_def Es8316I2cReadWrite_def Es8316I2cMsgFill_def Es8316I2cRelease_def I2C_FLAG_READ_def
        ES8316_I2C_MSG_NUM_def Let_def write_msgs_def err_defs)
qed

interpretation es_regs: register_file chip_get chip_put chip_contents codec_answers
  by unfold_locales
    (auto simp: chip_get_def chip_put_def chip_contents_def read_run write_run read_msgs_def write_msgs_def HDF_SUCCESS_def)

section \<open>Fields\<close>

definition item_reg :: "mixer_control \<Rightarrow> byte" where
  "item_reg c = ucast (of_int (mc_reg c) :: u32)"

text \<open>The value a control asks for, and a register with it in the control's field.\<close>

definition wanted :: "mixer_control \<Rightarrow> u32" where
  "wanted c = (if mc_invert c then mc_max c - mc_value c else mc_value c)"

definition set_item :: "mixer_control \<Rightarrow> byte \<Rightarrow> byte" where
  "set_item c x = (let m = push_bit (unat (mc_shift c)) (mc_mask c); v = push_bit (unat (mc_shift c)) (wanted c)
     in ucast ((ucast x AND NOT m) OR (v AND m)))"

definition current :: "mixer_control \<Rightarrow> byte \<Rightarrow> u32" where
  "current c x = drop_bit (unat (mc_shift c)) (ucast x) AND mc_mask c"

definition in_range :: "mixer_control \<Rightarrow> byte \<Rightarrow> bool" where
  "in_range c x \<longleftrightarrow> mc_min c \<le> current c x \<and> current c x \<le> mc_max c"

lemma bit_set_item:
  assumes "mc_mask c = mask w" "n < 8"
  shows "bit (set_item c x) n =
    (if unat (mc_shift c) \<le> n \<and> n < unat (mc_shift c) + w then bit (wanted c) (n - unat (mc_shift c)) else bit x n)"
  using assms by (auto simp: set_item_def Let_def bit_simps)

lemma update_run:
  assumes "codec_answers (b, x)" "0 \<le> mc_reg c" "mc_shift c < 32"
  shows "\<exists>l'. Es8316RegBitsUpdate b c l = Some (if in_range c (chip x (item_reg c) l) then HDF_SUCCESS else HDF_FAILURE, l') \<and>
    (\<forall>r. chip x r l' = (if r = item_reg c \<and> in_range c (chip x (item_reg c) l)
       then set_item c (chip x r l) else chip x r l))"
proof -
  have sh: "\<not> mc_shift c \<ge> 32" "\<not> mc_reg c < 0" using assms(2,3) by auto
  have rd: "Es8316I2cReadWrite b (Some (a, v)) I2C_FLAG_READ k =
    (HDF_SUCCESS, ucast (chip x (ucast a) k), k @ [I2cOpen RK3399_I2C_BUS_NUMBER True,
      MemCalloc ES8316_I2C_REG_DATA_LEN True, I2cTransfer (read_msgs (ucast a)) 2, MemFree, I2cClose])" for a v k
    using read_run [OF assms(1)] by simp
  have wr: "Es8316I2cReadWrite b (Some (a, v)) 0 k =
    (HDF_SUCCESS, v, k @ [I2cOpen RK3399_I2C_BUS_NUMBER True,
      MemCalloc (ES8316_I2C_REG_DATA_LEN + 1) True, I2cTransfer (write_msgs (ucast a) (ucast v)) 1, MemFree, I2cClose])" for a v k
    using write_run [OF assms(1)] by simp
  show ?thesis
  proof (cases "in_range c (chip x (item_reg c) l)")
    case True
    then show ?thesis
      by (simp add: Es8316RegBitsUpdate_def Es8316RegBitsRead_def sh rd wr Let_def in_range_def current_def
          item_reg_def read_msgs_def write_msgs_def set_item_def wanted_def not_less)
  next
    case False
    then show ?thesis
      by (auto simp: Es8316RegBitsUpdate_def Es8316RegBitsRead_def sh rd Let_def in_range_def current_def
          item_reg_def read_msgs_def not_less err_defs)
  qed
qed

section \<open>Tables and parameters\<close>

definition as_bytes :: "addr_config list \<Rightarrow> (byte \<times> byte) list" where
  "as_bytes cs = map (\<lambda>(a, v). (ucast a, ucast v)) cs"

lemma write_all_run:
  assumes "codec_answers (b, x)"
  shows "write_all b cs l = (HDF_SUCCESS, foldl (\<lambda>l (a, v). snd (chip_put (b, x) a v l) @ [MSleep]) l (as_bytes cs))"
proof (induction cs arbitrary: l)
  case (Cons c cs)
  obtain a v where c: "c = (a, v)" by (cases c)
  have "\<exists>v'. Es8316I2cReadWrite b (Some (a, v)) 0 l = (HDF_SUCCESS, v', snd (chip_put (b, x) (ucast a) (ucast v) l))"
    using write_run [OF assms] by (simp add: chip_put_def)
  then show ?case using Cons.IH c by (auto simp: as_bytes_def)
qed (simp add: as_bytes_def)

lemma write_all_chip:
  assumes "codec_answers (b, x)"
  shows "\<exists>l'. write_all b cs l = (HDF_SUCCESS, l') \<and>
    (\<forall>r. chip x r l' = (case map_of (rev (as_bytes cs)) r of None \<Rightarrow> chip x r l | Some v \<Rightarrow> v))"
  using es_regs.put_table [OF assms, of _ "\<lambda>l. l @ [MSleep]" l "as_bytes cs"] write_all_run [OF assms, of cs l]
  by (auto simp: chip_contents_def split: option.split)

lemma fill_controls_total:
  "\<forall>(i, n) \<in> set cfg. n < length names \<Longrightarrow> \<exists>cs. fill_controls names k cfg = Some cs \<and> length cs = length cfg"
  by (induction names k cfg rule: fill_controls.induct) (auto simp: arr_get_def)

text \<open>A control whose present contents are always in range.\<close>

definition item_ok :: "mixer_control \<Rightarrow> bool" where
  "item_ok c \<longleftrightarrow> 0 \<le> mc_reg c \<and> mc_shift c < 32 \<and> mc_min c = 0 \<and> mc_mask c \<le> mc_max c"

lemma item_ok_range: "item_ok c \<Longrightarrow> in_range c x"
proof -
  assume ok: "item_ok c"
  have "current c x \<le> mc_mask c" unfolding current_def by (simp add: word_and_le1)
  then show ?thesis using ok by (auto simp: in_range_def item_ok_def)
qed

lemma item_ok_value [simp]: "item_ok (c\<lparr>mc_value := v\<rparr>) = item_ok c"
  by (simp add: item_ok_def)

text \<open>The effect of a run of the loop on the registers: each parameter goes into the field of its item.\<close>

fun scene_chip :: "Es8316DaiParamsVal \<Rightarrow> nat list \<Rightarrow> mixer_control list \<Rightarrow> (byte \<Rightarrow> byte) \<Rightarrow> byte \<Rightarrow> byte" where
  "scene_chip v [] items y = y"
| "scene_chip v (i # is) items y = (case param_at i v of
     None \<Rightarrow> scene_chip v is items y
   | Some p \<Rightarrow> (let c = (items ! i)\<lparr>mc_value := p\<rparr> in scene_chip v is items (y(item_reg c := set_item c (y (item_reg c))))))"

lemma scene_chip_values:
  "\<forall>j < length items. items' ! j = (items ! j)\<lparr>mc_value := mc_value (items' ! j)\<rparr> \<Longrightarrow> \<forall>i \<in> set is. i < length items \<Longrightarrow>
   scene_chip v is items' y = scene_chip v is items y"
proof (induction "is" arbitrary: y)
  case (Cons i "is")
  have "(items' ! i)\<lparr>mc_value := p\<rparr> = (items ! i)\<lparr>mc_value := p\<rparr>" for p
  proof -
    have "items' ! i = (items ! i)\<lparr>mc_value := mc_value (items' ! i)\<rparr>" using Cons.prems by simp
    then show ?thesis by (metis (no_types) mixer_control.ext_inject mixer_control.surjective mixer_control.update_convs(7))
  qed
  then show ?case using Cons by (simp split: option.split)
qed simp

lemma scene_run:
  assumes "codec_answers (b, x)" "list_all item_ok items" "\<forall>i \<in> set is. i < length items"
  shows "\<exists>items' l'. scene_loop b v is items l = Some (HDF_SUCCESS, items', l') \<and>
    (\<forall>r. chip x r l' = scene_chip v is items (\<lambda>r. chip x r l) r)"
  using assms(2,3)
proof (induction "is" arbitrary: items l)
  case (Cons i "is")
  show ?case
  proof (cases "param_at i v")
    case None
    then show ?thesis using Cons by simp
  next
    case (Some p)
    let ?c = "(items ! i)\<lparr>mc_value := p\<rparr>" and ?items = "items[i := (items ! i)\<lparr>mc_value := p\<rparr>]"
    have ok: "item_ok ?c" "list_all item_ok ?items"
      using Cons.prems by (auto simp: list_all_iff all_set_conv_all_nth nth_list_update)
    obtain l1 where l1: "Es8316RegBitsUpdate b ?c l = Some (HDF_SUCCESS, l1)"
      "\<forall>r. chip x r l1 = (if r = item_reg ?c then set_item ?c (chip x r l) else chip x r l)"
      using update_run [OF assms(1), of ?c l] ok(1) item_ok_range [OF ok(1)] by (auto simp: item_ok_def)
    obtain items' l' where l': "scene_loop b v is ?items l1 = Some (HDF_SUCCESS, items', l')"
      "\<forall>r. chip x r l' = scene_chip v is ?items (\<lambda>r. chip x r l1) r"
      using Cons.IH [OF ok(2), of l1] Cons.prems by auto
    have "scene_chip v is ?items y = scene_chip v is items y" for y
      using Cons.prems by (intro scene_chip_values) (auto simp: nth_list_update)
    moreover have "(\<lambda>r. chip x r l1) = (\<lambda>r. chip x r l)(item_reg ?c := set_item ?c (chip x (item_reg ?c) l))"
      using l1(2) by auto
    ultimately show ?thesis using Some l1(1) l' Cons.prems by (simp add: arr_get_def Let_def)
  qed
qed simp

lemma scene_overrun:
  assumes "codec_answers (b, x)" "list_all item_ok items" "\<forall>i \<in> set is. param_at i v \<noteq> None"
    "\<exists>i \<in> set is. length items \<le> i"
  shows "scene_loop b v is items l = None"
  using assms(2-4)
proof (induction "is" arbitrary: items l)
  case (Cons i "is")
  obtain p where p: "param_at i v = Some p" using Cons.prems(2) by auto
  show ?case
  proof (cases "i < length items")
    case False
    then show ?thesis using p by (simp add: arr_get_def)
  next
    case True
    let ?c = "(items ! i)\<lparr>mc_value := p\<rparr>"
    have ok: "item_ok ?c" "list_all item_ok (items[i := ?c])"
      using Cons.prems(1) True by (auto simp: list_all_iff all_set_conv_all_nth nth_list_update)
    obtain l1 where "Es8316RegBitsUpdate b ?c l = Some (HDF_SUCCESS, l1)"
      using update_run [OF assms(1), of ?c l] ok(1) item_ok_range [OF ok(1)] by (auto simp: item_ok_def)
    moreover have "scene_loop b v is (items[i := ?c]) l1 = None"
      using Cons.IH [OF ok(2), of l1] Cons.prems(2,3) True by auto
    ultimately show ?thesis using p True by (simp add: arr_get_def Let_def)
  qed
qed simp

text \<open>A codec whose registers hold 0 at first, and a configuration for it.\<close>

definition demo_bus :: bus where
  "demo_bus = \<lparr>b_open = \<lambda>l. True, b_mem = \<lambda>l. True,
     b_xfer = \<lambda>l ms. (int (length ms), if ms = [] then 0 else case im_buf (hd ms) of [] \<Rightarrow> 0 | r # _ \<Rightarrow> chip (\<lambda>_. 0) r l),
     b_code = \<lambda>l c. 0\<rparr>"

lemma demo_answers: "codec_answers (demo_bus, \<lambda>_. 0)"
  by (simp add: codec_answers_def demo_bus_def read_msgs_def write_msgs_def)

definition demo_item :: "int \<Rightarrow> u32 \<Rightarrow> u32 \<Rightarrow> mixer_control" where
  "demo_item r sh m = \<lparr>mc_min = 0, mc_max = m, mc_mask = m, mc_reg = r, mc_shift = sh, mc_invert = False, mc_value = 0\<rparr>"

definition demo_es :: es where
  "demo_es = \<lparr>regConfig = Some \<lparr>ctrl_cfg = Some [(2, 0)], ctrl_param = Some [demo_item 0x33 0 0x1f],
       dai_param = Some [demo_item 0x0b 0 0xf, demo_item 0x0b 4 7, demo_item 0x0c 0 3],
       dai_startup = Some [], rset_group = Some [(0, 0x3f), (0, 0)], init_group = Some [(0x0c, 0x1ff)]\<rparr>,
     g_es8316RegCfgGroupNode = True, td_nodes = True, td_count = 0, td_controls = None, es_log = []\<rparr>"

section \<open>Properties\<close>

text \<open>
  C22. Whatever sequence of initialisations, starts, hardware parameters, register reads and writes is
  performed and however the bus, the allocator and the GPIO functions answer: every bus handle is
  closed and every message buffer freed exactly once, on error paths too.
\<close>
theorem es_handles_balanced:
  assumes "usage (es_log s) = Some u" "es_run b ops s = Some s'"
  shows "usage (es_log s') = Some u"
  using run_tidy [OF assms(2)] assms(1) by (simp add: tidy_def)

theorem es_handles_balanced_witness:
  "\<exists>s'. es_run (demo_bus\<lparr>b_xfer := \<lambda>l ms. (-1, 0)\<rparr>) [EsWrite 5 7, EsRead 5] demo_es = Some s' \<and>
     usage (es_log s') = Some (0, 0)"
proof -
  have u: "usage (es_log demo_es) = Some (0, 0)" by (simp add: demo_es_def usage_def)
  let ?b = "demo_bus\<lparr>b_xfer := \<lambda>l ms. (-1, 0)\<rparr>"
  obtain rc1 l1 where 1: "Es8316DeviceRegWrite ?b 5 7 (es_log demo_es) = (rc1, l1)" by (metis prod.exhaust)
  obtain rc2 v l2 where 2: "Es8316DeviceRegRead ?b 5 True l1 = (rc2, v, l2)" by (metis prod.exhaust)
  have run: "es_run ?b [EsWrite 5 7, EsRead 5] demo_es = Some (demo_es\<lparr>es_log := l2\<rparr>)" by (simp add: 1 2)
  from es_handles_balanced [OF u run] run show ?thesis by blast
qed

text \<open>
  C21. On a bus that works, \<open>Es8316RegBitsUpdate\<close> of a field of \<open>w\<close> bits puts the value, inverted against the
  maximum when the control says so, into exactly the bits of the field, and leaves all other bits
  and registers alone. It is refused, without any change, exactly when the present contents of the
  field are out of the control's range.
\<close>
theorem es_update_field:
  assumes "codec_answers (b, x)" "0 \<le> mc_reg c" "mc_mask c = mask w" "unat (mc_shift c) + w \<le> 8"
  shows "\<exists>rc l'. Es8316RegBitsUpdate b c l = Some (rc, l') \<and>
    (rc = HDF_SUCCESS \<longleftrightarrow> in_range c (chip x (item_reg c) l)) \<and>
    (\<forall>r. r \<noteq> item_reg c \<or> rc \<noteq> HDF_SUCCESS \<longrightarrow> chip x r l' = chip x r l) \<and>
    (rc = HDF_SUCCESS \<longrightarrow> (\<forall>n < 8. bit (chip x (item_reg c) l') n =
      (if unat (mc_shift c) \<le> n \<and> n < unat (mc_shift c) + w then bit (wanted c) (n - unat (mc_shift c))
       else bit (chip x (item_reg c) l) n)))"
proof -
  have "mc_shift c < 32" using assms(4) by (simp add: word_less_nat_alt)
  from update_run [OF assms(1,2) this, of l] show ?thesis
    by (auto simp: bit_set_item [OF assms(3)] err_defs)
qed

theorem es_update_field_witness:
  "\<exists>l'. Es8316RegBitsUpdate demo_bus ((demo_item 0x0b 4 7)\<lparr>mc_value := 5\<rparr>) [] = Some (HDF_SUCCESS, l') \<and>
    bit (chip (\<lambda>_. 0) 0x0b l') 4 \<and> \<not> bit (chip (\<lambda>_. 0) 0x0b l') 5"
proof -
  let ?c = "(demo_item 0x0b 4 7)\<lparr>mc_value := 5\<rparr>"
  have c: "item_reg ?c = 0x0b" "in_range ?c (chip (\<lambda>_. 0) 0x0b [])" "mc_mask ?c = mask 3" "mc_shift ?c = 4" "wanted ?c = 5" "mc_reg ?c = 0x0b"
    by (simp_all add: item_reg_def demo_item_def in_range_def current_def chip_def wanted_def)
  obtain rc l' where "Es8316RegBitsUpdate demo_bus ?c [] = Some (rc, l')" "rc = HDF_SUCCESS"
    "\<forall>n < 8. bit (chip (\<lambda>_. 0) 0x0b l') n = (if 4 \<le> n \<and> n < 4 + 3 then bit (5 :: u32) (n - 4) else bit (chip (\<lambda>_. 0) 0x0b []) n)"
    using es_update_field [OF demo_answers, of ?c 3 "[]"] by (auto simp: c)
  then show ?thesis by auto
qed

text \<open>
  Initialisation on a bus that works, with working GPIO functions and a complete configuration,
  succeeds and leaves in every register of the codec the value of its last entry in the reset table
  followed by the table of defaults, and what it held before when it has none.
\<close>
theorem es_init_tables:
  assumes "codec_answers (b, x)" "\<forall>l c. b_code b l c = HDF_SUCCESS" "regConfig s = Some g"
    "ctrl_cfg g = Some cfg" "ctrl_param g = Some ps" "rset_group g = Some rs" "init_group g = Some is"
    "\<forall>(i, n) \<in> set cfg. n < ctrl_list_max"
  shows "\<exists>s'. Es8316DeviceInit b ctrl_list_max True HDF_SUCCESS s = Some (HDF_SUCCESS, s') \<and>
    td_count s' = length cfg \<and>
    (\<forall>r. chip x r (es_log s') = (case map_of (rev (as_bytes (rs @ is))) r of None \<Rightarrow> chip x r (es_log s) | Some v \<Rightarrow> v))"
proof -
  let ?names = "map Some g_audioControlsList @ replicate (ctrl_list_max - length g_audioControlsList) None"
  have "ctrl_list_max \<le> length ?names" by simp
  then have "\<forall>(i, n) \<in> set cfg. n < length ?names" using assms(8) by (auto simp: split_def)
  then obtain cs where cs: "fill_controls ?names 0 cfg = Some cs" using fill_controls_total by blast
  let ?l0 = "es_log s @ [CtrlsCalloc (length cfg), GpioRequest, GpioSetDir, GpioWrite]"
  obtain l1 where l1: "write_all b rs ?l0 = (HDF_SUCCESS, l1)"
    "\<forall>r. chip x r l1 = (case map_of (rev (as_bytes rs)) r of None \<Rightarrow> chip x r ?l0 | Some v \<Rightarrow> v)"
    using write_all_chip [OF assms(1)] by blast
  obtain l2 where l2: "write_all b is l1 = (HDF_SUCCESS, l2)"
    "\<forall>r. chip x r l2 = (case map_of (rev (as_bytes is)) r of None \<Rightarrow> chip x r l1 | Some v \<Rightarrow> v)"
    using write_all_chip [OF assms(1)] by blast
  have mem: "b_mem b l" for l using assms(1) by (simp add: codec_answers_def)
  have "chip x r l2 = (case map_of (rev (as_bytes (rs @ is))) r of None \<Rightarrow> chip x r (es_log s) | Some v \<Rightarrow> v)" for r
    by (simp add: l1 l2 as_bytes_def map_add_def split: option.splits)
  then show ?thesis
    using assms(2-7) cs l1(1) l2(1) mem
    by (simp add: Es8316DeviceInit_def Es8316DeviceCfgGet_def Es8316HardwareRest_def Es8316SoftwareRest_def
        Es8316DeviceCtrlRegInit_def Let_def HDF_SUCCESS_def)
qed

theorem es_init_tables_witness:
  "\<exists>s'. Es8316DeviceInit demo_bus 10 True HDF_SUCCESS demo_es = Some (HDF_SUCCESS, s') \<and>
    chip (\<lambda>_. 0) 0 (es_log s') = 0 \<and> chip (\<lambda>_. 0) 0x0c (es_log s') = 0xff"
proof -
  have c: "\<forall>l c. b_code demo_bus l c = HDF_SUCCESS" by (simp add: demo_bus_def HDF_SUCCESS_def)
  show ?thesis
    using es_init_tables [OF demo_answers c, of demo_es "the (regConfig demo_es)" "[(2, 0)]"
        "[demo_item 0x33 0 0x1f]" "[(0, 0x3f), (0, 0)]" "[(0x0c, 0x1ff)]" 10]
    by (auto simp: demo_es_def as_bytes_def)
qed

text \<open>
  Hardware parameters on a bus that works, for a supported rate and format and a configuration whose
  controls accept whatever their registers hold: with enough configured items the rate code, the format
  code and the number of channels are put, in this order, into the fields of the three items of the
  stream's direction; with fewer items, but not none, the configuration is read past its end.
\<close>
theorem es_hw_params:
  assumes "codec_answers (b, x)" "td_nodes s" "regConfig s = Some g" "dai_param g = Some items" "list_all item_ok items"
    "map_of frequency_codes rate = Some f" "Es8316FormatParse format = (HDF_SUCCESS, Some w)"
    "first = (if st = AUDIO_RENDER_STREAM then 0 else 3)"
  shows "(first + 2 < length items \<longrightarrow> length items < 256 \<longrightarrow>
      (\<exists>s'. Es8316DaiHwParams b True st format ch rate s = Some (HDF_SUCCESS, s') \<and>
        (\<forall>r. chip x r (es_log s') = scene_chip \<lparr>frequencyVal = f, formatVal = w, channelVal = ch\<rparr> [first, first + 1, first + 2]
           items (\<lambda>r. chip x r (es_log s)) r))) \<and>
    (Es8316DaiHwParams b True st format ch rate s = None \<longleftrightarrow>
      length items mod 256 \<noteq> 0 \<and> length items \<le> first + 2)"
proof -
  let ?v = "\<lparr>frequencyVal = f, formatVal = w, channelVal = ch\<rparr>"
  have codes: "Es8316DeviceFrequencyParse rate = (HDF_SUCCESS, Some f)" using assms(6) by (simp add: Es8316DeviceFrequencyParse_def)
  have idx: "[first..<first + 2 + 1] = [first, first + 1, first + 2]" by (simp add: upt_rec)
  have zero: "(of_nat (length items) :: byte) = 0 \<longleftrightarrow> length items mod 256 = 0"
    by (simp add: word_of_nat_eq_0_iff dvd_eq_mod_eq_0)
  have upd: "Es8316DaiParamsUpdate b ?v (st = AUDIO_RENDER_STREAM) s = do {
      (ret, items1, l) \<leftarrow> Es8316DaiParamsUpdate4Scene b items (of_nat (length items)) first (first + 2) ?v (es_log s);
      Some (if ret \<noteq> HDF_SUCCESS then HDF_FAILURE else HDF_SUCCESS,
            s\<lparr>regConfig := Some (g\<lparr>dai_param := Some items1\<rparr>), es_log := l\<rparr>) }"
    using assms(2-4,8) by (cases "st = AUDIO_RENDER_STREAM") (simp_all add: Es8316DaiParamsUpdate_def es_index numeral_2_eq_2)
  have scene: "Es8316DaiParamsUpdate4Scene b items (of_nat (length items)) first (first + 2) ?v (es_log s) =
      (if length items mod 256 = 0 then Some (HDF_FAILURE, items, es_log s)
       else scene_loop b ?v [first, first + 1, first + 2] items (es_log s))"
    unfolding Es8316DaiParamsUpdate4Scene_def idx zero by (rule refl)
  have hw: "Es8316DaiHwParams b True st format ch rate s =
      (if length items mod 256 = 0 then Some (HDF_FAILURE, s\<lparr>regConfig := Some (g\<lparr>dai_param := Some items\<rparr>), es_log := es_log s\<rparr>)
       else do { (ret, items1, l) \<leftarrow> scene_loop b ?v [first, first + 1, first + 2] items (es_log s);
         Some (if ret \<noteq> HDF_SUCCESS then HDF_FAILURE else HDF_SUCCESS,
           s\<lparr>regConfig := Some (g\<lparr>dai_param := Some items1\<rparr>), es_log := l\<rparr>) })"
    unfolding Es8316DaiHwParams_def codes assms(7) prod.case option.case upd scene
    by (cases "scene_loop b ?v [first, first + 1, first + 2] items (es_log s)")
      (auto simp: HDF_FAILURE_def HDF_SUCCESS_def simp del: scene_loop.simps)
  have enough: "\<exists>items' l'. scene_loop b ?v [first, first + 1, first + 2] items (es_log s) = Some (HDF_SUCCESS, items', l') \<and>
      (\<forall>r. chip x r l' = scene_chip ?v [first, first + 1, first + 2] items (\<lambda>r. chip x r (es_log s)) r)"
    if "first + 2 < length items"
    using that by (intro scene_run [OF assms(1,5)]) auto
  have few: "scene_loop b ?v [first, first + 1, first + 2] items (es_log s) = None" if "length items \<le> first + 2"
    using that assms(8) by (intro scene_overrun [OF assms(1,5)]) (auto simp: param_at_def es_index)
  show ?thesis
  proof (cases "first + 2 < length items")
    case True
    then show ?thesis using enough [OF True] by (auto simp: hw simp del: scene_loop.simps scene_chip.simps)
  next
    case False
    then show ?thesis using few by (auto simp: hw simp del: scene_loop.simps scene_chip.simps)
  qed
qed

theorem es_hw_params_witness:
  "\<exists>s'. Es8316DaiHwParams demo_bus True AUDIO_RENDER_STREAM AUDIO_FORMAT_TYPE_PCM_16_BIT 2 48000 demo_es = Some (HDF_SUCCESS, s') \<and>
    chip (\<lambda>_. 0) 0x0b (es_log s') = 0x28 \<and> chip (\<lambda>_. 0) 0x0c (es_log s') = 2"
proof -
  let ?items = "[demo_item 0x0b 0 0xf, demo_item 0x0b 4 7, demo_item 0x0c 0 3]"
  have ok: "list_all item_ok ?items" by (simp add: item_ok_def demo_item_def)
  have es: "td_nodes demo_es" "regConfig demo_es = Some (the (regConfig demo_es))" "dai_param (the (regConfig demo_es)) = Some ?items"
    "map_of frequency_codes 48000 = Some 8" "Es8316FormatParse AUDIO_FORMAT_TYPE_PCM_16_BIT = (HDF_SUCCESS, Some 2)"
    by (simp_all add: demo_es_def frequency_codes_def Es8316FormatParse_def)
  have chips: "scene_chip \<lparr>frequencyVal = 8, formatVal = 2, channelVal = 2\<rparr> [0, 1, 2] ?items (\<lambda>r. chip (\<lambda>_. 0) r (es_log demo_es)) 0x0b = 0x28"
    "scene_chip \<lparr>frequencyVal = 8, formatVal = 2, channelVal = 2\<rparr> [0, 1, 2] ?items (\<lambda>r. chip (\<lambda>_. 0) r (es_log demo_es)) 0x0c = 2"
    by (simp_all add: param_at_def es_index demo_item_def item_reg_def set_item_def wanted_def demo_es_def chip_def Let_def)
  show ?thesis
    using es_hw_params [OF demo_answers es(1-3) ok es(4,5), of 0 AUDIO_RENDER_STREAM 2] chips
    by (auto simp: numeral_2_eq_2 simp del: scene_loop.simps scene_chip.simps)
qed

text \<open>
  A configuration that could not be parsed stays attached to the codec, so every later attempt to
  initialise the driver is refused.
\<close>
lemma es_parse_failure_sticks:
  assumes "regConfig s = None" "b_mem b (es_log s)" "fst parse \<noteq> HDF_SUCCESS"
  shows "\<exists>s'. Es8316DriverInit b True parse p i str reg s = (HDF_FAILURE, s') \<and>
    (\<forall>parse' b'. fst (Es8316DriverInit b' True parse' p' i' str' reg' s') = HDF_FAILURE)"
  using assms by (auto simp: Es8316DriverInit_def Es8316GetConfigInfo_def Let_def HDF_FAILURE_def HDF_SUCCESS_def)

end
