(* ===== verification/Ac107.thy ===== *)
theory Ac107
  imports Audio_Base
begin

text \<open>
  The AC107 microphone codec of the zhiyuan board,
  \<open>zhiyuan/kernel/hdf/driver/audio/codec/ac107\<close>: register access over I2C (\<open>ac107_read\<close>,
  \<open>ac107_write\<close>, \<open>ac107_update_bits\<close> and their forms for several chips), the framework's entry points
  (hardware parameters, trigger, register access), the debug files, probe and remove, and the driver
  entry of the adapter.

  \<^item> The I2C bus, the contents of uninitialised stack bytes and the rest of the kernel are a parameter
    \<open>ac_world\<close>; all calls go to a log. A client is a number; its \<open>adapter\<close> pointer is part of the world.
  \<^item> \<open>None\<close> is a fault: a NULL pointer followed, or an index past \<open>i2c_ctrl\<close>.
  \<^item> \<open>chip_regs\<close> is a chip's register file after the calls of a log; \<open>ac_answers\<close> says that the chip answers
    from it. The locale \<open>register_file\<close> is interpreted on \<open>ac107_read\<close> and \<open>ac107_write\<close>.
  \<^item> \<open>ac_step\<close> is the driver as a state machine; \<open>ac_inv\<close> is its invariant.
\<close>

section \<open>Registers and fields\<close>

definition CHIP_AUDIO_RST :: byte where "CHIP_AUDIO_RST = 0x00"
definition PWR_CTRL1 :: byte where "PWR_CTRL1 = 0x01"
definition PWR_CTRL2 :: byte where "PWR_CTRL2 = 0x02"
definition PLL_CTRL1 :: byte where "PLL_CTRL1 = 0x10"
definition PLL_CTRL2 :: byte where "PLL_CTRL2 = 0x11"
definition PLL_CTRL3 :: byte where "PLL_CTRL3 = 0x12"
definition PLL_CTRL4 :: byte where "PLL_CTRL4 = 0x13"
definition PLL_CTRL5 :: byte where "PLL_CTRL5 = 0x14"
definition PLL_CTRL6 :: byte where "PLL_CTRL6 = 0x16"
definition PLL_CTRL7 :: byte where "PLL_CTRL7 = 0x17"
definition PLL_LOCK_CTRL :: byte where "PLL_LOCK_CTRL = 0x18"
definition SYSCLK_CTRL :: byte where "SYSCLK_CTRL = 0x20"
definition MOD_CLK_EN :: byte where "MOD_CLK_EN = 0x21"
definition MOD_RST_CTRL :: byte where "MOD_RST_CTRL = 0x22"
definition I2S_CTRL :: byte where "I2S_CTRL = 0x30"
definition I2S_BCLK_CTRL :: byte where "I2S_BCLK_CTRL = 0x31"
definition I2S_LRCK_CTRL1 :: byte where "I2S_LRCK_CTRL1 = 0x32"
definition I2S_LRCK_CTRL2 :: byte where "I2S_LRCK_CTRL2 = 0x33"
definition I2S_FMT_CTRL1 :: byte where "I2S_FMT_CTRL1 = 0x34"
definition I2S_FMT_CTRL2 :: byte where "I2S_FMT_CTRL2 = 0x35"
definition I2S_FMT_CTRL3 :: byte where "I2S_FMT_CTRL3 = 0x36"
definition I2S_TX_CTRL1 :: byte where "I2S_TX_CTRL1 = 0x38"
definition I2S_TX_CTRL2 :: byte where "I2S_TX_CTRL2 = 0x39"
definition I2S_TX_CTRL3 :: byte where "I2S_TX_CTRL3 = 0x3A"
definition I2S_TX_CHMP_CTRL1 :: byte where "I2S_TX_CHMP_CTRL1 = 0x3C"
definition I2S_TX_CHMP_CTRL2 :: byte where "I2S_TX_CHMP_CTRL2 = 0x3D"
definition I2S_RX_CTRL1 :: byte where "I2S_RX_CTRL1 = 0x50"
definition I2S_RX_CTRL2 :: byte where "I2S_RX_CTRL2 = 0x51"
definition I2S_RX_CTRL3 :: byte where "I2S_RX_CTRL3 = 0x52"
definition I2S_RX_CHMP_CTRL1 :: byte where "I2S_RX_CHMP_CTRL1 = 0x54"
definition I2S_RX_CHMP_CTRL2 :: byte where "I2S_RX_CHMP_CTRL2 = 0x55"
definition PDM_CTRL :: byte where "PDM_CTRL = 0x59"
definition ADC_SPRC :: byte where "ADC_SPRC = 0x60"
definition ADC_DIG_EN :: byte where "ADC_DIG_EN = 0x61"
definition DMIC_EN :: byte where "DMIC_EN = 0x62"
definition HPF_EN :: byte where "HPF_EN = 0x66"
definition ADC1_DVOL_CTRL :: byte where "ADC1_DVOL_CTRL = 0x70"
definition ADC2_DVOL_CTRL :: byte where "ADC2_DVOL_CTRL = 0x71"
definition ADC1_DMIX_SRC :: byte where "ADC1_DMIX_SRC = 0x76"
definition ADC2_DMIX_SRC :: byte where "ADC2_DMIX_SRC = 0x77"
definition ADC_DIG_DEBUG :: byte where "ADC_DIG_DEBUG = 0x7F"
definition ADC_ANA_DEBUG1 :: byte where "ADC_ANA_DEBUG1 = 0x80"
definition ADC_ANA_DEBUG2 :: byte where "ADC_ANA_DEBUG2 = 0x81"
definition I2S_PADDRV_CTRL :: byte where "I2S_PADDRV_CTRL = 0x82"
definition ANA_ADC1_CTRL1 :: byte where "ANA_ADC1_CTRL1 = 0xA0"
definition ANA_ADC1_CTRL2 :: byte where "ANA_ADC1_CTRL2 = 0xA1"
definition ANA_ADC1_CTRL3 :: byte where "ANA_ADC1_CTRL3 = 0xA2"
definition ANA_ADC1_CTRL4 :: byte where "ANA_ADC1_CTRL4 = 0xA3"
definition ANA_ADC1_CTRL5 :: byte where "ANA_ADC1_CTRL5 = 0xA4"
definition ANA_ADC2_CTRL1 :: byte where "ANA_ADC2_CTRL1 = 0xA5"
definition ANA_ADC2_CTRL2 :: byte where "ANA_ADC2_CTRL2 = 0xA6"
definition ANA_ADC2_CTRL3 :: byte where "ANA_ADC2_CTRL3 = 0xA7"
definition ANA_ADC2_CTRL4 :: byte where "ANA_ADC2_CTRL4 = 0xA8"
definition ANA_ADC2_CTRL5 :: byte where "ANA_ADC2_CTRL5 = 0xA9"
definition ADC_DITHER_CTRL :: byte where "ADC_DITHER_CTRL = 0xAA"

definition VREF_FSU_DISABLE :: nat where "VREF_FSU_DISABLE = 5"
definition PLL_COM_EN :: nat where "PLL_COM_EN = 1"
definition PLL_EN :: nat where "PLL_EN = 0"
definition SYSCLK_HOLD_TIME :: nat where "SYSCLK_HOLD_TIME = 4"
definition SYSCLK_SRC :: nat where "SYSCLK_SRC = 2"
definition SYSCLK_EN :: nat where "SYSCLK_EN = 0"
definition LRCK_IOEN :: nat where "LRCK_IOEN = 6"
definition MCLK_IOEN :: nat where "MCLK_IOEN = 5"
definition SDO_EN :: nat where "SDO_EN = 4"
definition TXEN :: nat where "TXEN = 2"
definition GEN :: nat where "GEN = 0"
definition EDGE_TRANSFER :: nat where "EDGE_TRANSFER = 5"
definition BCLK_POLARITY :: nat where "BCLK_POLARITY = 4"
definition LRCK_POLARITY :: nat where "LRCK_POLARITY = 4"
definition LRCK_PERIODH :: nat where "LRCK_PERIODH = 0"
definition ENCD_FMT :: nat where "ENCD_FMT = 7"
definition ENCD_SEL :: nat where "ENCD_SEL = 6"
definition MODE_SEL :: nat where "MODE_SEL = 4"
definition TX_OFFSET :: nat where "TX_OFFSET = 2"
definition TX_SLOT_HIZ :: nat where "TX_SLOT_HIZ = 1"
definition TX_STATE :: nat where "TX_STATE = 0"
definition SLOT_WIDTH_SEL :: nat where "SLOT_WIDTH_SEL = 4"
definition SAMPLE_RESOLUTION :: nat where "SAMPLE_RESOLUTION = 0"
definition TX_MLS :: nat where "TX_MLS = 7"
definition SEXT :: nat where "SEXT = 5"
definition SDOUT_MUTE :: nat where "SDOUT_MUTE = 3"
definition LRCK_WIDTH :: nat where "LRCK_WIDTH = 2"
definition TX_PDM :: nat where "TX_PDM = 0"
definition PDM_TIMING :: nat where "PDM_TIMING = 1"
definition PDM_EN :: nat where "PDM_EN = 0"
definition ADC_FS_I2S :: nat where "ADC_FS_I2S = 0"
definition ADC_PTN_SEL :: nat where "ADC_PTN_SEL = 0"
definition MCLK_DRV :: nat where "MCLK_DRV = 6"
definition RX1_PGA_GAIN_CTRL :: nat where "RX1_PGA_GAIN_CTRL = 0"
definition RX1_GLOBAL_EN :: nat where "RX1_GLOBAL_EN = 6"
definition RX2_PGA_GAIN_CTRL :: nat where "RX2_PGA_GAIN_CTRL = 0"
definition RX2_GLOBAL_EN :: nat where "RX2_GLOBAL_EN = 6"

definition PLLCLK_SRC_MCLK :: byte where "PLLCLK_SRC_MCLK = 0"
definition PLLCLK_SRC_BCLK :: byte where "PLLCLK_SRC_BCLK = 1"
definition SYSCLK_SRC_MCLK :: byte where "SYSCLK_SRC_MCLK = 0"
definition SYSCLK_SRC_BCLK :: byte where "SYSCLK_SRC_BCLK = 1"
definition SYSCLK_SRC_PLL :: byte where "SYSCLK_SRC_PLL = 2"
definition BCLK_NORMAL_DRIVE_N_SAMPLE_P :: byte where "BCLK_NORMAL_DRIVE_N_SAMPLE_P = 0"
definition BCLK_INVERT_DRIVE_P_SAMPLE_N :: byte where "BCLK_INVERT_DRIVE_P_SAMPLE_N = 1"
definition LRCK_LEFT_LOW_RIGHT_HIGH :: byte where "LRCK_LEFT_LOW_RIGHT_HIGH = 0"
definition LRCK_LEFT_HIGH_RIGHT_LOW :: byte where "LRCK_LEFT_HIGH_RIGHT_LOW = 1"
definition PCM_FORMAT :: byte where "PCM_FORMAT = 0"
definition LEFT_JUSTIFIED_FORMAT :: byte where "LEFT_JUSTIFIED_FORMAT = 1"
definition RIGHT_JUSTIFIED_FORMAT :: byte where "RIGHT_JUSTIFIED_FORMAT = 2"
definition SIGN_EXTENSION_MSB :: byte where "SIGN_EXTENSION_MSB = 1"
definition TRANSFER_ZERO_AFTER :: byte where "TRANSFER_ZERO_AFTER = 3"
definition ADC_PTN_NORMAL :: byte where "ADC_PTN_NORMAL = 0"
definition ADC_PGA_GAIN_28dB :: byte where "ADC_PGA_GAIN_28dB = 29"

lemmas ac_reg_defs = CHIP_AUDIO_RST_def PWR_CTRL1_def PWR_CTRL2_def PLL_CTRL1_def PLL_CTRL2_def PLL_CTRL3_def
  PLL_CTRL4_def PLL_CTRL5_def PLL_CTRL6_def PLL_CTRL7_def PLL_LOCK_CTRL_def SYSCLK_CTRL_def MOD_CLK_EN_def
  MOD_RST_CTRL_def I2S_CTRL_def I2S_BCLK_CTRL_def I2S_LRCK_CTRL1_def I2S_LRCK_CTRL2_def I2S_FMT_CTRL1_def
  I2S_FMT_CTRL2_def I2S_FMT_CTRL3_def I2S_TX_CTRL1_def I2S_TX_CTRL2_def I2S_TX_CTRL3_def I2S_TX_CHMP_CTRL1_def
  I2S_TX_CHMP_CTRL2_def I2S_RX_CTRL1_def I2S_RX_CTRL2_def I2S_RX_CTRL3_def I2S_RX_CHMP_CTRL1_def
  I2S_RX_CHMP_CTRL2_def PDM_CTRL_def ADC_SPRC_def ADC_DIG_EN_def DMIC_EN_def HPF_EN_def ADC1_DVOL_CTRL_def
  ADC2_DVOL_CTRL_def ADC1_DMIX_SRC_def ADC2_DMIX_SRC_def ADC_DIG_DEBUG_def ADC_ANA_DEBUG1_def ADC_ANA_DEBUG2_def
  I2S_PADDRV_CTRL_def ANA_ADC1_CTRL1_def ANA_ADC1_CTRL2_def ANA_ADC1_CTRL3_def ANA_ADC1_CTRL4_def
  ANA_ADC1_CTRL5_def ANA_ADC2_CTRL1_def ANA_ADC2_CTRL2_def ANA_ADC2_CTRL3_def ANA_ADC2_CTRL4_def ANA_ADC2_CTRL5_def
  ADC_DITHER_CTRL_def

lemmas ac_bit_defs = VREF_FSU_DISABLE_def PLL_COM_EN_def PLL_EN_def SYSCLK_HOLD_TIME_def SYSCLK_SRC_def
  SYSCLK_EN_def LRCK_IOEN_def MCLK_IOEN_def SDO_EN_def TXEN_def GEN_def EDGE_TRANSFER_def BCLK_POLARITY_def
  LRCK_POLARITY_def LRCK_PERIODH_def ENCD_FMT_def ENCD_SEL_def MODE_SEL_def TX_OFFSET_def TX_SLOT_HIZ_def
  TX_STATE_def SLOT_WIDTH_SEL_def SAMPLE_RESOLUTION_def TX_MLS_def SEXT_def SDOUT_MUTE_def LRCK_WIDTH_def
  TX_PDM_def PDM_TIMING_def PDM_EN_def ADC_FS_I2S_def ADC_PTN_SEL_def MCLK_DRV_def RX1_PGA_GAIN_CTRL_def
  RX1_GLOBAL_EN_def RX2_PGA_GAIN_CTRL_def RX2_GLOBAL_EN_def

lemmas ac_value_defs = PLLCLK_SRC_MCLK_def PLLCLK_SRC_BCLK_def SYSCLK_SRC_MCLK_def SYSCLK_SRC_BCLK_def
  SYSCLK_SRC_PLL_def BCLK_NORMAL_DRIVE_N_SAMPLE_P_def BCLK_INVERT_DRIVE_P_SAMPLE_N_def LRCK_LEFT_LOW_RIGHT_HIGH_def
  LRCK_LEFT_HIGH_RIGHT_LOW_def PCM_FORMAT_def LEFT_JUSTIFIED_FORMAT_def RIGHT_JUSTIFIED_FORMAT_def
  SIGN_EXTENSION_MSB_def TRANSFER_ZERO_AFTER_def ADC_PTN_NORMAL_def ADC_PGA_GAIN_28dB_def

text \<open>The build options of the driver.\<close>

definition AC107_CHIP_NUMS :: nat where "AC107_CHIP_NUMS = 1"
definition AC107_CHIP_NUMS_MAX :: nat where "AC107_CHIP_NUMS_MAX = 8"
definition AC107_SLOT_WIDTH :: nat where "AC107_SLOT_WIDTH = 32"
definition AC107_ENCODING_EN :: byte where "AC107_ENCODING_EN = 0"
definition AC107_ENCODING_CH_NUMS :: nat where "AC107_ENCODING_CH_NUMS = 2"
definition AC107_ENCODING_FMT :: byte where "AC107_ENCODING_FMT = 0"
definition AC107_LRCK_PERIOD :: nat where
  "AC107_LRCK_PERIOD = AC107_SLOT_WIDTH * (if AC107_ENCODING_EN \<noteq> 0 then 2 else AC107_CHIP_NUMS)"
definition AC107_KCONTROL_EN :: byte where "AC107_KCONTROL_EN = 1"
definition AC107_DAPM_EN :: byte where "AC107_DAPM_EN = 0"
definition AC107_PGA_GAIN :: byte where "AC107_PGA_GAIN = ADC_PGA_GAIN_28dB"
definition AC107_DMIC_EN :: byte where "AC107_DMIC_EN = 0"
definition AC107_PDM_EN :: byte where "AC107_PDM_EN = 0"
definition AC107_MAX_REG :: byte where "AC107_MAX_REG = ADC_DITHER_CTRL"

lemmas ac_option_defs = AC107_CHIP_NUMS_def AC107_CHIP_NUMS_MAX_def AC107_SLOT_WIDTH_def AC107_ENCODING_EN_def
  AC107_ENCODING_CH_NUMS_def AC107_ENCODING_FMT_def AC107_LRCK_PERIOD_def AC107_KCONTROL_EN_def AC107_DAPM_EN_def
  AC107_PGA_GAIN_def AC107_DMIC_EN_def AC107_PDM_EN_def

definition ac107_sample_rate :: "(u32 \<times> byte) list" where
  "ac107_sample_rate = [(8000, 0), (11025, 1), (12000, 2), (16000, 3), (22050, 4), (24000, 5), (32000, 6),
     (44100, 7), (48000, 8)]"

definition ac107_reg_default_value :: "(byte \<times> byte) list" where
  "ac107_reg_default_value = [
     (CHIP_AUDIO_RST, 0x4B), (PWR_CTRL1, 0x00), (PWR_CTRL2, 0x11),
     (PLL_CTRL1, 0x48), (PLL_CTRL2, 0x00), (PLL_CTRL3, 0x03), (PLL_CTRL4, 0x0D), (PLL_CTRL5, 0x00),
     (PLL_CTRL6, 0x0F), (PLL_CTRL7, 0xD0), (PLL_LOCK_CTRL, 0x00),
     (SYSCLK_CTRL, 0x00), (MOD_CLK_EN, 0x00), (MOD_RST_CTRL, 0x00),
     (I2S_CTRL, 0x00), (I2S_BCLK_CTRL, 0x00), (I2S_LRCK_CTRL1, 0x00), (I2S_LRCK_CTRL2, 0x00),
     (I2S_FMT_CTRL1, 0x00), (I2S_FMT_CTRL2, 0x55), (I2S_FMT_CTRL3, 0x60),
     (I2S_TX_CTRL1, 0x00), (I2S_TX_CTRL2, 0x00), (I2S_TX_CTRL3, 0x00), (I2S_TX_CHMP_CTRL1, 0x00), (I2S_TX_CHMP_CTRL2, 0x00),
     (I2S_RX_CTRL1, 0x00), (I2S_RX_CTRL2, 0x03), (I2S_RX_CTRL3, 0x00), (I2S_RX_CHMP_CTRL1, 0x00), (I2S_RX_CHMP_CTRL2, 0x00),
     (PDM_CTRL, 0x00), (ADC_SPRC, 0x00), (ADC_DIG_EN, 0x00), (DMIC_EN, 0x00), (HPF_EN, 0x03),
     (ADC1_DVOL_CTRL, 0xA0), (ADC2_DVOL_CTRL, 0xA0), (ADC1_DMIX_SRC, 0x01), (ADC2_DMIX_SRC, 0x02), (ADC_DIG_DEBUG, 0x00),
     (ADC_ANA_DEBUG1, 0x11), (ADC_ANA_DEBUG2, 0x11), (I2S_PADDRV_CTRL, 0x55),
     (ANA_ADC1_CTRL1, 0x00), (ANA_ADC1_CTRL2, 0x00), (ANA_ADC1_CTRL3, 0x00), (ANA_ADC1_CTRL4, 0x00), (ANA_ADC1_CTRL5, 0x00),
     (ANA_ADC2_CTRL1, 0x00), (ANA_ADC2_CTRL2, 0x00), (ANA_ADC2_CTRL3, 0x00), (ANA_ADC2_CTRL4, 0x00), (ANA_ADC2_CTRL5, 0x00),
     (ADC_DITHER_CTRL, 0x00)]"

text \<open>The names and saved values of the labels are only printed.\<close>

definition g_reg_labels :: "byte list" where
  "g_reg_labels = [CHIP_AUDIO_RST, PWR_CTRL1, PWR_CTRL2, PLL_CTRL1, PLL_CTRL2, PLL_CTRL3, PLL_CTRL4, PLL_CTRL5,
     PLL_CTRL6, PLL_CTRL7, PLL_LOCK_CTRL, SYSCLK_CTRL, MOD_CLK_EN, MOD_RST_CTRL, I2S_CTRL, I2S_BCLK_CTRL,
     I2S_LRCK_CTRL1, I2S_LRCK_CTRL2, I2S_FMT_CTRL1, I2S_FMT_CTRL2, I2S_FMT_CTRL3, I2S_TX_CTRL1, I2S_TX_CTRL2,
     I2S_TX_CTRL3, I2S_TX_CHMP_CTRL1, I2S_TX_CHMP_CTRL2, I2S_RX_CTRL1, I2S_RX_CTRL2, I2S_RX_CTRL3,
     I2S_RX_CHMP_CTRL1, I2S_RX_CHMP_CTRL2, PDM_CTRL, ADC_SPRC, ADC_DIG_EN, DMIC_EN, HPF_EN, ADC1_DVOL_CTRL,
     ADC2_DVOL_CTRL, ADC1_DMIX_SRC, ADC2_DMIX_SRC, ADC_DIG_DEBUG, ADC_ANA_DEBUG1, ADC_ANA_DEBUG2,
     I2S_PADDRV_CTRL, ANA_ADC1_CTRL1, ANA_ADC1_CTRL2, ANA_ADC1_CTRL3, ANA_ADC1_CTRL4, ANA_ADC1_CTRL5,
     ANA_ADC2_CTRL1, ANA_ADC2_CTRL2, ANA_ADC2_CTRL3, ANA_ADC2_CTRL4, ANA_ADC2_CTRL5, ADC_DITHER_CTRL]"

definition ac107_kcontrol_dapm_reg :: "byte list" where
  "ac107_kcontrol_dapm_reg = [ANA_ADC1_CTRL3, ANA_ADC2_CTRL3, ADC1_DVOL_CTRL, ADC2_DVOL_CTRL, ADC1_DMIX_SRC,
     ADC2_DMIX_SRC, ADC_DIG_DEBUG]"

section \<open>State\<close>

type_synonym client = nat

datatype acall =
    Send client "byte list" int
  | Recv client int byte
  | DevmKzalloc
  | ReadString string
  | GetRegulator string
  | SetVoltage string nat nat
  | EnableRegulator string
  | GetNamedGpio string
  | GpioRequest int
  | GpioDirectionOutput int
  | GpioSetValue int
  | Sleep20
  | CreateGroup client
  | RemoveGroup client
  | AddDriver
  | DelDriver

type_synonym alog = "acall list"

text \<open>\<open>w_recv\<close> gives the result of a one-byte receive and the contents of the destination after it,
  from the contents before; \<open>w_stack\<close> is an uninitialised byte of the stack.\<close>

record ac_world =
  w_send :: "alog \<Rightarrow> client \<Rightarrow> byte list \<Rightarrow> int"
  w_recv :: "alog \<Rightarrow> client \<Rightarrow> byte \<Rightarrow> int \<times> byte"
  w_stack :: "alog \<Rightarrow> byte"
  w_adapter :: "client \<Rightarrow> bool"
  w_code :: "alog \<Rightarrow> acall \<Rightarrow> int"
  w_ptr :: "alog \<Rightarrow> acall \<Rightarrow> kptr"
  w_gpio_valid :: "int \<Rightarrow> bool"

record ac107_priv =
  i2c :: client
  dvcc_1v8 :: kptr
  avcc_vccio_3v3 :: kptr
  reset_gpio :: int

record ac107 =
  g_ac107_i2c :: "client option"
  i2c_ctrl :: "client option list"
  ac107_regulator_en :: u32
  drvdata :: "client \<rightharpoonup> ac107_priv"
  ac_log :: alog

definition ac_boot :: ac107 where
  "ac_boot = \<lparr>g_ac107_i2c = None, i2c_ctrl = replicate AC107_CHIP_NUMS_MAX None, ac107_regulator_en = 0,
     drvdata = Map.empty, ac_log = []\<rparr>"

section \<open>Register access\<close>

text \<open>The code, the destination afterwards and the log.\<close>

definition ac107_read :: "ac_world \<Rightarrow> byte \<Rightarrow> byte \<Rightarrow> client option \<Rightarrow> alog \<Rightarrow> int \<times> byte \<times> alog" where
  "ac107_read w reg rt_value client l = (case client of
     None \<Rightarrow> (-1, rt_value, l)
   | Some c \<Rightarrow>
       if \<not> w_adapter w c then (-1, rt_value, l)
       else
         let ret = w_send w l c [reg]; l1 = l @ [Send c [reg] ret]
         in if ret \<noteq> 1 then (-1, rt_value, l1)
            else
              let (ret, v) = w_recv w l1 c rt_value; l2 = l1 @ [Recv c ret v]
              in if ret \<noteq> 1 then (-1, v, l2) else (0, v, l2))"

definition ac107_write :: "ac_world \<Rightarrow> byte \<Rightarrow> byte \<Rightarrow> client option \<Rightarrow> alog \<Rightarrow> int \<times> alog" where
  "ac107_write w reg val client l = (case client of
     None \<Rightarrow> (-1, l)
   | Some c \<Rightarrow>
       if \<not> w_adapter w c then (-1, l)
       else
         let ret = w_send w l c [reg, val]; l1 = l @ [Send c [reg, val] ret]
         in if ret \<noteq> 2 then (-1, l1) else (0, l1))"

text \<open>The functions below return 0 in the source, whatever the bus answered, so only the log is left.\<close>

definition ac107_update_bits :: "ac_world \<Rightarrow> byte \<Rightarrow> byte \<Rightarrow> byte \<Rightarrow> client option \<Rightarrow> alog \<Rightarrow> alog" where
  "ac107_update_bits w reg msk val client l = (
     let (_, val_old, l1) = ac107_read w reg (w_stack w l) client l;
         val_new = (val_old AND NOT msk) OR (val AND msk)
     in if val_new \<noteq> val_old then snd (ac107_write w reg val_new client l1) else l1)"

definition ac107_multi_chips_write :: "ac_world \<Rightarrow> client option list \<Rightarrow> byte \<Rightarrow> byte \<Rightarrow> alog \<Rightarrow> alog" where
  "ac107_multi_chips_write w ctrl reg val l =
     fold (\<lambda>i l. snd (ac107_write w reg val (ctrl ! i) l)) [0..<AC107_CHIP_NUMS] l"

definition ac107_multi_chips_update_bits ::
    "ac_world \<Rightarrow> client option list \<Rightarrow> byte \<Rightarrow> byte \<Rightarrow> byte \<Rightarrow> alog \<Rightarrow> alog" where
  "ac107_multi_chips_update_bits w ctrl reg msk val l =
     fold (\<lambda>i l. ac107_update_bits w reg msk val (ctrl ! i) l) [0..<AC107_CHIP_NUMS] l"

definition Ac107DeviceInit :: int where "Ac107DeviceInit = HDF_SUCCESS"
definition Ac107DaiDeviceInit :: int where "Ac107DaiDeviceInit = HDF_SUCCESS"
definition Ac107DaiStartup :: int where "Ac107DaiStartup = HDF_SUCCESS"

text \<open>The code and the caller's word afterwards: only its low byte is the destination.\<close>

definition Ac107DeviceReadReg :: "ac_world \<Rightarrow> u32 \<Rightarrow> u32 \<Rightarrow> ac107 \<Rightarrow> int \<times> u32 \<times> ac107" where
  "Ac107DeviceReadReg w reg val s = (
     let (_, v, l) = ac107_read w (ucast reg) (ucast val) (g_ac107_i2c s) (ac_log s)
     in (HDF_SUCCESS, (val AND NOT 0xff) OR ucast v, s\<lparr>ac_log := l\<rparr>))"

definition Ac107DeviceWriteReg :: "ac_world \<Rightarrow> u32 \<Rightarrow> u32 \<Rightarrow> ac107 \<Rightarrow> int \<times> ac107" where
  "Ac107DeviceWriteReg w reg val s =
     (HDF_SUCCESS, s\<lparr>ac_log := snd (ac107_write w (ucast reg) (ucast val) (g_ac107_i2c s) (ac_log s))\<rparr>)"

section \<open>Clock and format\<close>

definition ac107_set_pll :: "ac_world \<Rightarrow> u32 \<Rightarrow> ac107 \<Rightarrow> int \<times> ac107" where
  "ac107_set_pll w freq s = (
     let pll_id = PLLCLK_SRC_MCLK; clk_id = SYSCLK_SRC_MCLK; div_id = (0 :: int);
         freq_in = freq div 2;
         upd = (\<lambda>m v. s\<lparr>ac_log := ac107_multi_chips_update_bits w (i2c_ctrl s) SYSCLK_CTRL m v (ac_log s)\<rparr>)
     in if freq_in < 128000 \<or> freq_in > 24576000 then (- EINVAL, s)
        else if (freq_in = 12288000 \<or> freq_in = 11289600) \<and> (pll_id = PLLCLK_SRC_MCLK \<or> pll_id = PLLCLK_SRC_BCLK)
        then (0, upd (push_bit SYSCLK_SRC 3 OR push_bit SYSCLK_EN 1) (push_bit SYSCLK_SRC pll_id OR push_bit SYSCLK_EN 1))
        else if clk_id \<notin> {SYSCLK_SRC_MCLK, SYSCLK_SRC_BCLK, SYSCLK_SRC_PLL} then (- EINVAL, s)
        else
          let s1 = upd (push_bit SYSCLK_SRC 3)
                (push_bit SYSCLK_SRC (if clk_id = SYSCLK_SRC_MCLK then SYSCLK_SRC_MCLK
                   else if clk_id = SYSCLK_SRC_BCLK then SYSCLK_SRC_BCLK else SYSCLK_SRC_PLL))
          in if div_id = 0 then (HDF_SUCCESS, s1) else (- EINVAL, s1))"

text \<open>\<open>dev_get_drvdata (&g_ac107_i2c->dev)->i2c\<close>.\<close>

definition own_client :: "ac107 \<Rightarrow> client option" where
  "own_client s = do { g \<leftarrow> g_ac107_i2c s; p \<leftarrow> drvdata s g; Some (i2c p) }"

definition others_update ::
    "ac_world \<Rightarrow> client option list \<Rightarrow> client \<Rightarrow> byte \<Rightarrow> byte \<Rightarrow> byte \<Rightarrow> alog \<Rightarrow> alog" where
  "others_update w ctrl c reg msk val l = fold (\<lambda>i l.
     if ctrl ! i = Some c then l else ac107_update_bits w reg msk val (ctrl ! i) l) [0..<AC107_CHIP_NUMS] l"

text \<open>Mode, offset and sign extension for the format bits; \<open>None\<close> for those that are not supported.\<close>

definition i2s_format :: "u32 \<Rightarrow> (byte \<times> byte \<times> byte) option" where
  "i2s_format f = (
     if f = SND_SOC_DAIFMT_I2S then Some (LEFT_JUSTIFIED_FORMAT, 1, TRANSFER_ZERO_AFTER)
     else if f = SND_SOC_DAIFMT_RIGHT_J then Some (RIGHT_JUSTIFIED_FORMAT, 0, SIGN_EXTENSION_MSB)
     else if f = SND_SOC_DAIFMT_LEFT_J then Some (LEFT_JUSTIFIED_FORMAT, 0, TRANSFER_ZERO_AFTER)
     else if f = SND_SOC_DAIFMT_DSP_A then Some (PCM_FORMAT, 1, TRANSFER_ZERO_AFTER)
     else if f = SND_SOC_DAIFMT_DSP_B then Some (PCM_FORMAT, 0, TRANSFER_ZERO_AFTER)
     else None)"

text \<open>The polarities of the bit clock and of the frame clock.\<close>

definition polarity :: "u32 \<Rightarrow> (byte \<times> byte) option" where
  "polarity f = (
     if f = SND_SOC_DAIFMT_NB_NF then Some (BCLK_NORMAL_DRIVE_N_SAMPLE_P, LRCK_LEFT_LOW_RIGHT_HIGH)
     else if f = SND_SOC_DAIFMT_NB_IF then Some (BCLK_NORMAL_DRIVE_N_SAMPLE_P, LRCK_LEFT_HIGH_RIGHT_LOW)
     else if f = SND_SOC_DAIFMT_IB_NF then Some (BCLK_INVERT_DRIVE_P_SAMPLE_N, LRCK_LEFT_LOW_RIGHT_HIGH)
     else if f = SND_SOC_DAIFMT_IB_IF then Some (BCLK_INVERT_DRIVE_P_SAMPLE_N, LRCK_LEFT_HIGH_RIGHT_LOW)
     else None)"

definition ac107_set_fmt :: "ac_world \<Rightarrow> u32 \<Rightarrow> ac107 \<Rightarrow> (int \<times> ac107) option" where
  "ac107_set_fmt w fmt s = (
     if g_ac107_i2c s = None then None
     else
       let master = fmt AND SND_SOC_DAIFMT_MASTER_MASK in
       if master \<noteq> SND_SOC_DAIFMT_CBM_CFM \<and> master \<noteq> SND_SOC_DAIFMT_CBS_CFS then Some (- EINVAL, s)
       else do {
         c \<leftarrow> own_client s;
         let l1 = ac107_update_bits w I2S_CTRL (push_bit LRCK_IOEN 3)
           (push_bit LRCK_IOEN (if master = SND_SOC_DAIFMT_CBM_CFM then 3 else 0)) (Some c) (ac_log s);
         let l2 = others_update w (i2c_ctrl s) c I2S_CTRL (push_bit LRCK_IOEN 3) (push_bit LRCK_IOEN 0) l1;
         case i2s_format (fmt AND SND_SOC_DAIFMT_FORMAT_MASK) of
           None \<Rightarrow> Some (- EINVAL, s\<lparr>ac_log := l2\<rparr>)
         | Some (i2s_mode, tx_offset, sign_ext) \<Rightarrow>
             let l3 = ac107_multi_chips_update_bits w (i2c_ctrl s) I2S_FMT_CTRL1
                   (push_bit MODE_SEL 3 OR push_bit TX_OFFSET 1) (push_bit MODE_SEL i2s_mode OR push_bit TX_OFFSET tx_offset) l2;
                 l4 = ac107_multi_chips_update_bits w (i2c_ctrl s) I2S_FMT_CTRL3 (push_bit SEXT 3) (push_bit SEXT sign_ext) l3
             in case polarity (fmt AND SND_SOC_DAIFMT_INV_MASK) of
                  None \<Rightarrow> Some (- EINVAL, s\<lparr>ac_log := l4\<rparr>)
                | Some (brck_polarity, lrck_polarity) \<Rightarrow>
                    let l5 = ac107_multi_chips_update_bits w (i2c_ctrl s) I2S_BCLK_CTRL
                          (push_bit BCLK_POLARITY 1) (push_bit BCLK_POLARITY brck_polarity) l4;
                        l6 = ac107_multi_chips_update_bits w (i2c_ctrl s) I2S_LRCK_CTRL1
                          (push_bit LRCK_POLARITY 1) (push_bit LRCK_POLARITY lrck_polarity) l5
                    in Some (0, s\<lparr>ac_log := l6\<rparr>) })"

section \<open>Hardware parameters\<close>

text \<open>\<open>!x\<close> and \<open>!!x\<close> of a value.\<close>

definition c_not :: "byte \<Rightarrow> byte" where
  "c_not x = (if x = 0 then 1 else 0)"

definition ac107_hw_init :: "ac_world \<Rightarrow> client option \<Rightarrow> alog \<Rightarrow> alog" where
  "ac107_hw_init w c l = (
     let l = snd (ac107_write w PWR_CTRL1 0x80 c l);
         l = snd (ac107_write w PWR_CTRL2 0x55 c l);
         l = ac107_update_bits w SYSCLK_CTRL (push_bit SYSCLK_EN 1) (push_bit SYSCLK_EN 1) c l;
         l = snd (ac107_write w MOD_CLK_EN 0x07 c l);
         l = snd (ac107_write w MOD_RST_CTRL 0x03 c l);
         l = ac107_update_bits w I2S_CTRL (push_bit SDO_EN 1) (push_bit SDO_EN 1) c l;
         l = ac107_update_bits w I2S_BCLK_CTRL (push_bit EDGE_TRANSFER 1) (push_bit EDGE_TRANSFER 0) c l;
         l = ac107_update_bits w I2S_LRCK_CTRL1 (push_bit LRCK_PERIODH 3)
               (push_bit LRCK_PERIODH (of_nat ((AC107_LRCK_PERIOD - 1) div 2 ^ 8))) c l;
         l = snd (ac107_write w I2S_LRCK_CTRL2 (of_nat (AC107_LRCK_PERIOD - 1)) c l);
         l = ac107_update_bits w I2S_FMT_CTRL1
               (push_bit ENCD_FMT 1 OR push_bit ENCD_SEL 1 OR push_bit TX_SLOT_HIZ 1 OR push_bit TX_STATE 1)
               (push_bit ENCD_FMT (c_not (c_not AC107_ENCODING_FMT)) OR push_bit ENCD_SEL (c_not (c_not AC107_ENCODING_EN))
                OR push_bit TX_SLOT_HIZ 0 OR push_bit TX_STATE 1) c l;
         l = ac107_update_bits w I2S_FMT_CTRL2 (push_bit SLOT_WIDTH_SEL 7)
               (push_bit SLOT_WIDTH_SEL (of_nat (AC107_SLOT_WIDTH div 4 - 1))) c l;
         l = ac107_update_bits w I2S_FMT_CTRL3
               (push_bit TX_MLS 1 OR push_bit SDOUT_MUTE 1 OR push_bit LRCK_WIDTH 1 OR push_bit TX_PDM 3)
               (push_bit TX_MLS 0 OR push_bit SDOUT_MUTE 0 OR push_bit LRCK_WIDTH 0 OR push_bit TX_PDM 0) c l;
         l = ac107_update_bits w I2S_TX_CHMP_CTRL1 (c_not AC107_DAPM_EN * 0xff) 0xaa c l;
         l = ac107_update_bits w I2S_TX_CHMP_CTRL2 (c_not AC107_DAPM_EN * 0xff) 0xaa c l;
         l = ac107_update_bits w PDM_CTRL (push_bit PDM_TIMING 1 OR push_bit PDM_EN 1)
               (push_bit PDM_TIMING 0 OR push_bit PDM_EN (c_not (c_not AC107_PDM_EN))) c l;
         l = ac107_update_bits w ADC_DIG_EN (c_not AC107_DAPM_EN * 0x7) 0x7 c l;
         l = ac107_update_bits w DMIC_EN (c_not AC107_DAPM_EN * 0x1) (c_not (c_not AC107_DMIC_EN)) c l;
         (_, dbg, l) = ac107_read w ADC_DIG_DEBUG (w_stack w l) c l;
         l = snd (ac107_write w HPF_EN (c_not (dbg AND 0x7) * 0x03) c l);
         l = ac107_update_bits w ADC1_DVOL_CTRL (c_not AC107_KCONTROL_EN * 0xff) 0xA0 c l;
         l = ac107_update_bits w ADC2_DVOL_CTRL (c_not AC107_KCONTROL_EN * 0xff) 0xA0 c l;
         l = ac107_update_bits w ANA_ADC1_CTRL3 (push_bit RX1_PGA_GAIN_CTRL (c_not AC107_KCONTROL_EN * 0x1f))
               (push_bit RX1_PGA_GAIN_CTRL AC107_PGA_GAIN) c l;
         l = ac107_update_bits w ANA_ADC2_CTRL3 (push_bit RX2_PGA_GAIN_CTRL (c_not AC107_KCONTROL_EN * 0x1f))
               (push_bit RX2_PGA_GAIN_CTRL AC107_PGA_GAIN) c l;
         l = ac107_update_bits w ANA_ADC1_CTRL5 (push_bit RX1_GLOBAL_EN (c_not AC107_DAPM_EN * 0x1)) (push_bit RX1_GLOBAL_EN 1) c l;
         l = ac107_update_bits w ANA_ADC2_CTRL5 (push_bit RX2_GLOBAL_EN (c_not AC107_DAPM_EN * 0x1)) (push_bit RX2_GLOBAL_EN 1) c l
     in ac107_update_bits w PWR_CTRL1 (push_bit VREF_FSU_DISABLE 1) (push_bit VREF_FSU_DISABLE 1) c l)"

definition set_rate :: "ac_world \<Rightarrow> u32 \<Rightarrow> client option list \<Rightarrow> alog \<Rightarrow> alog" where
  "set_rate w rate ctrl l = (
     case map_of ac107_sample_rate (rate div (if AC107_ENCODING_EN \<noteq> 0 then of_nat (AC107_ENCODING_CH_NUMS div 2) else 1)) of
       Some code \<Rightarrow> ac107_multi_chips_update_bits w ctrl ADC_SPRC (push_bit ADC_FS_I2S 0xf) (push_bit ADC_FS_I2S code) l
     | None \<Rightarrow> l)"

definition tx_write :: "ac_world \<Rightarrow> byte \<Rightarrow> byte \<Rightarrow> byte \<Rightarrow> client option \<Rightarrow> alog \<Rightarrow> alog" where
  "tx_write w a b c client l = snd (ac107_write w I2S_TX_CTRL3 c client
     (snd (ac107_write w I2S_TX_CTRL2 b client (snd (ac107_write w I2S_TX_CTRL1 a client l)))))"

text \<open>The channel mask for chip \<open>i\<close>, in the \<open>int\<close> of the expression before it is stored in a \<open>u16\<close>.\<close>

definition channels_en :: "nat \<Rightarrow> nat \<Rightarrow> u16" where
  "channels_en n i = (if n \<ge> 2 * (i + 1) then of_nat (3 * 2 ^ (2 * i)) else of_nat ((2 ^ (n mod 2) - 1) * 2 ^ (2 * i)))"

text \<open>Both loops over the chips; the index of the first one may leave the array.\<close>

fun chips_on :: "ac_world \<Rightarrow> nat \<Rightarrow> nat list \<Rightarrow> client option list \<Rightarrow> alog \<Rightarrow> alog option" where
  "chips_on w n [] ctrl l = Some l"
| "chips_on w n (i # is) ctrl l = do {
     c \<leftarrow> arr_get ctrl i;
     chips_on w n is ctrl
       (tx_write w (of_int (int n - 1)) (ucast (channels_en n i)) (ucast (drop_bit 8 (channels_en n i))) c l) }"

fun chips_off :: "ac_world \<Rightarrow> nat list \<Rightarrow> client option list \<Rightarrow> alog \<Rightarrow> alog option" where
  "chips_off w [] ctrl l = Some l"
| "chips_off w (i # is) ctrl l = do { c \<leftarrow> arr_get ctrl i; chips_off w is ctrl (tx_write w 0 0 0 c l) }"

definition set_channels :: "ac_world \<Rightarrow> nat \<Rightarrow> client option list \<Rightarrow> alog \<Rightarrow> alog option" where
  "set_channels w n ctrl l = do {
     l1 \<leftarrow> chips_on w n [0..<(n + 1) div 2] ctrl l;
     chips_off w [(n + 1) div 2..<AC107_CHIP_NUMS] ctrl l1 }"

definition sample_resolution :: "AudioFormat \<Rightarrow> nat option" where
  "sample_resolution format = (case format of
     AUDIO_FORMAT_TYPE_PCM_8_BIT \<Rightarrow> Some 8
   | AUDIO_FORMAT_TYPE_PCM_16_BIT \<Rightarrow> Some 16
   | AUDIO_FORMAT_TYPE_PCM_24_BIT \<Rightarrow> Some 24
   | AUDIO_FORMAT_TYPE_PCM_32_BIT \<Rightarrow> Some 32
   | AUDIO_FORMAT_OTHER _ \<Rightarrow> None)"

text \<open>The last part reads the clock register into the low byte of the loop variable \<open>i\<close>.\<close>

definition pll_enable :: "ac_world \<Rightarrow> u16 \<Rightarrow> client \<Rightarrow> client option list \<Rightarrow> alog \<Rightarrow> alog" where
  "pll_enable w i c ctrl l = (
     let (_, v, l) = ac107_read w SYSCLK_CTRL (ucast i) (Some c) l;
         i = (i AND 0xff00) OR ucast v
     in if i AND 0x80 = 0 then l
        else if i AND 0x0c = 0 then
          let l = ac107_update_bits w I2S_CTRL (push_bit MCLK_IOEN 1) (push_bit MCLK_IOEN 1) (Some c) l;
              l = ac107_update_bits w I2S_PADDRV_CTRL (push_bit MCLK_DRV 3) (push_bit MCLK_DRV 3) (Some c) l;
              l = others_update w ctrl c I2S_CTRL (push_bit MCLK_IOEN 1) (push_bit MCLK_IOEN 0) l;
              l = ac107_update_bits w SYSCLK_CTRL (push_bit SYSCLK_SRC 3) (push_bit SYSCLK_SRC SYSCLK_SRC_PLL) (Some c) l
          in ac107_update_bits w PLL_CTRL1 (push_bit PLL_EN 1 OR push_bit PLL_COM_EN 1)
               (push_bit PLL_EN 1 OR push_bit PLL_COM_EN 1) (Some c) l
        else if drop_bit 2 (i AND 0x0c) = 2 then
          let l = ac107_multi_chips_update_bits w ctrl PLL_LOCK_CTRL (push_bit SYSCLK_HOLD_TIME 7) (push_bit SYSCLK_HOLD_TIME 3) l
          in ac107_multi_chips_update_bits w ctrl PLL_CTRL1 (push_bit PLL_EN 1 OR push_bit PLL_COM_EN 1)
               (push_bit PLL_EN 1 OR push_bit PLL_COM_EN 1) l
        else l)"

definition ac107_hw_params :: "ac_world \<Rightarrow> AudioFormat \<Rightarrow> u32 \<Rightarrow> u32 \<Rightarrow> ac107 \<Rightarrow> (int \<times> ac107) option" where
  "ac107_hw_params w format channels rate s = (
     if g_ac107_i2c s = None then None
     else do {
       let l1 = ac107_hw_init w (i2c_ctrl s ! 0) (ac_log s);
       let l2 = set_rate w rate (i2c_ctrl s) l1;
       let channels_tmp = unat (ucast (channels * (if AC107_ENCODING_EN \<noteq> 0 then of_nat (AC107_ENCODING_CH_NUMS div 2) else 1)) :: u16);
       l3 \<leftarrow> set_channels w channels_tmp (i2c_ctrl s) l2;
       case sample_resolution format of
         None \<Rightarrow> Some (- EINVAL, s\<lparr>ac_log := l3\<rparr>)
       | Some res \<Rightarrow> do {
           let l4 = ac107_multi_chips_update_bits w (i2c_ctrl s) I2S_FMT_CTRL2 (push_bit SAMPLE_RESOLUTION 7)
             (push_bit SAMPLE_RESOLUTION (of_nat (res div 4 - 1))) l3;
           c \<leftarrow> own_client s;
           Some (0, s\<lparr>ac_log := pll_enable w (of_nat (max ((channels_tmp + 1) div 2) AC107_CHIP_NUMS)) c (i2c_ctrl s) l4\<rparr>) } })"

definition freq_point :: "u32 \<Rightarrow> u32 option" where
  "freq_point rate = (
     if rate \<in> {8000, 12000, 16000, 24000, 32000, 48000, 64000, 96000, 192000} then Some 24576000
     else if rate \<in> {11025, 22050, 44100, 88200, 176400} then Some 22579200
     else None)"

definition Ac107DaiHwParams ::
    "ac_world \<Rightarrow> AudioStreamType \<Rightarrow> AudioFormat \<Rightarrow> u32 \<Rightarrow> u32 \<Rightarrow> ac107 \<Rightarrow> (int \<times> ac107) option" where
  "Ac107DaiHwParams w streamType format channels rate s = (
     let dai_fmt = SND_SOC_DAIFMT_I2S OR SND_SOC_DAIFMT_NB_NF OR SND_SOC_DAIFMT_CBS_CFS in
     if streamType = AUDIO_RENDER_STREAM then Some (HDF_SUCCESS, s)
     else case freq_point rate of
       None \<Rightarrow> Some (HDF_FAILURE, s)
     | Some f \<Rightarrow>
         let (ret, s1) = ac107_set_pll w f s in
         if ret \<noteq> 0 then Some (HDF_FAILURE, s1)
         else do {
           (ret, s2) \<leftarrow> ac107_set_fmt w dai_fmt s1;
           if ret \<noteq> 0 then Some (HDF_FAILURE, s2)
           else do {
             (ret, s3) \<leftarrow> ac107_hw_params w format channels rate s2;
             Some (if ret \<noteq> 0 then HDF_FAILURE else HDF_SUCCESS, s3) } })"

section \<open>Trigger\<close>

text \<open>The inner loop ends with \<open>j\<close> at the size of the table exactly when the register is not in it.\<close>

fun restore_defaults :: "ac_world \<Rightarrow> client option list \<Rightarrow> (byte \<times> byte) list \<Rightarrow> alog \<Rightarrow> alog" where
  "restore_defaults w ctrl [] l = l"
| "restore_defaults w ctrl ((reg, v) # ds) l = restore_defaults w ctrl ds
     (if reg \<in> set ac107_kcontrol_dapm_reg then l else ac107_multi_chips_write w ctrl reg v l)"

definition Ac107DaiTrigger :: "ac_world \<Rightarrow> pcm_cmd \<Rightarrow> ac107 \<Rightarrow> int \<times> ac107" where
  "Ac107DaiTrigger w cmd s = (
     if cmd \<in> {RENDER_START, RENDER_RESUME, RENDER_STOP, RENDER_PAUSE} then (HDF_SUCCESS, s)
     else if cmd \<in> {CAPTURE_START, CAPTURE_RESUME} then
       (HDF_SUCCESS, s\<lparr>ac_log := ac107_multi_chips_update_bits w (i2c_ctrl s) I2S_CTRL
          (push_bit TXEN 1 OR push_bit GEN 1) (push_bit TXEN 1 OR push_bit GEN 1) (ac_log s)\<rparr>)
     else if cmd \<in> {CAPTURE_STOP, CAPTURE_PAUSE} then
       (HDF_SUCCESS, s\<lparr>ac_log := restore_defaults w (i2c_ctrl s) ac107_reg_default_value
          (ac107_multi_chips_update_bits w (i2c_ctrl s) I2S_CTRL
            (push_bit TXEN 1 OR push_bit GEN 0) (push_bit TXEN 1 OR push_bit GEN 0) (ac_log s))\<rparr>)
     else (HDF_FAILURE, s))"

section \<open>Debug files\<close>

text \<open>\<open>sscanf\<close> has read \<open>cnt\<close> numbers into words that were 0 before; the number of bytes taken is
  \<open>count\<close> on every path. The words are printed.\<close>

definition ac107_store :: "ac_world \<Rightarrow> client \<Rightarrow> int \<Rightarrow> u32 \<Rightarrow> u32 \<Rightarrow> ac107 \<Rightarrow> ac107 option" where
  "ac107_store w dev cnt off val s = (
     if cnt = 0 \<or> cnt > 2 then Some s
     else if off > ucast AC107_MAX_REG then Some s
     else if cnt = 1 then do {
       p \<leftarrow> drvdata s dev;
       let (_, _, l) = ac107_read w (ucast off) (w_stack w (ac_log s)) (Some (i2c p)) (ac_log s);
       Some (s\<lparr>ac_log := l\<rparr>) }
     else if cnt = 2 then do {
       p \<leftarrow> drvdata s dev;
       let (_, v, l) = ac107_read w (ucast off) (w_stack w (ac_log s)) (Some (i2c p)) (ac_log s);
       let l = snd (ac107_write w (ucast off) (ucast val) (Some (i2c p)) l);
       let (_, _, l) = ac107_read w (ucast off) v (Some (i2c p)) l;
       Some (s\<lparr>ac_log := l\<rparr>) }
     else Some s)"

text \<open>The bytes shown in the kernel's log, and 0 as the number of bytes for the reader.\<close>

fun show_loop :: "ac_world \<Rightarrow> client \<Rightarrow> byte list \<Rightarrow> byte \<Rightarrow> alog \<Rightarrow> byte list \<times> alog" where
  "show_loop w c [] buf l = ([], l)"
| "show_loop w c (r # rs) buf l = (
     let (_, v, l) = ac107_read w r buf (Some c) l; (vs, l) = show_loop w c rs v l
     in (v # vs, l))"

definition ac107_show :: "ac_world \<Rightarrow> client \<Rightarrow> ac107 \<Rightarrow> (int \<times> byte list \<times> ac107) option" where
  "ac107_show w dev s = do {
     p \<leftarrow> drvdata s dev;
     let (vs, l) = show_loop w (i2c p) g_reg_labels (w_stack w (ac_log s)) (ac_log s);
     Some (0, vs, s\<lparr>ac_log := l\<rparr>) }"

section \<open>Probe and remove\<close>

definition AC107_DVCC_NAME :: string where "AC107_DVCC_NAME = ''ac107_dvcc_1v8''"
definition AC107_AVCC_VCCIO_NAME :: string where "AC107_AVCC_VCCIO_NAME = ''ac107_avcc_vccio_3v3''"

definition ac107_i2c_id :: "(string \<times> nat) list" where
  "ac107_i2c_id = [(''ac107_0'', 0)]"

text \<open>The two supplies are treated alike: no name in the device tree, refused by the regulator
  framework, or switched on; a failure of \<open>regulator_enable\<close> is only reported.\<close>

datatype supply_state = NoName | Refused | Supplied

definition get_supply :: "ac_world \<Rightarrow> string \<Rightarrow> nat \<Rightarrow> alog \<Rightarrow> supply_state \<times> kptr \<times> alog" where
  "get_supply w name uV l = (
     let l1 = l @ [ReadString name] in
     if w_code w l (ReadString name) \<noteq> 0 then (NoName, PNULL, l1)
     else
       let p = w_ptr w l1 (GetRegulator name); l2 = l1 @ [GetRegulator name]
       in if IS_ERR_OR_NULL p then (Refused, p, l2)
          else (Supplied, p, l2 @ [SetVoltage name uV uV, EnableRegulator name]))"

definition get_reset :: "ac_world \<Rightarrow> alog \<Rightarrow> int \<times> alog" where
  "get_reset w l = (
     let gpio = w_code w l (GetNamedGpio ''gpio-reset''); l1 = l @ [GetNamedGpio ''gpio-reset'']
     in if \<not> w_gpio_valid w gpio then (gpio, l1)
        else if w_code w l1 (GpioRequest gpio) = 0
        then (gpio, l1 @ [GpioRequest gpio, GpioDirectionOutput gpio, GpioSetValue gpio, Sleep20])
        else (gpio, l1 @ [GpioRequest gpio]))"

text \<open>The part under \<open>AC107_MATCH_DTS_EN\<close>, run until one probe has found a supply.\<close>

definition power_up :: "ac_world \<Rightarrow> ac107_priv \<Rightarrow> u32 \<Rightarrow> alog \<Rightarrow> int \<times> ac107_priv \<times> u32 \<times> alog" where
  "power_up w p en l = (
     if en \<noteq> 0 then (0, p, en, l)
     else
       let (r1, d, l1) = get_supply w AC107_DVCC_NAME 1800000 l; p1 = p\<lparr>dvcc_1v8 := d\<rparr>
       in if r1 = Refused then (- EFAULT, p1, en, l1)
          else
            let en1 = (if r1 = Supplied then en OR 1 else en);
                (r2, a, l2) = get_supply w AC107_AVCC_VCCIO_NAME 3300000 l1; p2 = p1\<lparr>avcc_vccio_3v3 := a\<rparr>
            in if r2 = Refused then (- EFAULT, p2, en1, l2)
               else
                 let (g, l3) = get_reset w l2
                 in (0, p2\<lparr>reset_gpio := g\<rparr>, if r2 = Supplied then en1 OR 2 else en1, l3))"

definition ac107_i2c_probe :: "ac_world \<Rightarrow> client \<Rightarrow> nat \<Rightarrow> ac107 \<Rightarrow> int \<times> ac107" where
  "ac107_i2c_probe w c driver_data s = (
     let l = ac_log s @ [DevmKzalloc] in
     if w_ptr w (ac_log s) DevmKzalloc = PNULL then (- ENOMEM, s\<lparr>ac_log := l\<rparr>)
     else
       let (ret, p, en, l1) =
             power_up w \<lparr>i2c = c, dvcc_1v8 = PNULL, avcc_vccio_3v3 = PNULL, reset_gpio = 0\<rparr> (ac107_regulator_en s) l;
           s1 = s\<lparr>drvdata := (drvdata s)(c \<mapsto> p), ac107_regulator_en := en, ac_log := l1\<rparr>
       in if ret \<noteq> 0 then (ret, s1)
          else
            let s2 = (if driver_data < AC107_CHIP_NUMS then s1\<lparr>i2c_ctrl := (i2c_ctrl s1)[driver_data := Some c]\<rparr> else s1);
                ret = w_code w l1 (CreateGroup c)
            in (ret, s2\<lparr>g_ac107_i2c := Some c, ac_log := l1 @ [CreateGroup c]\<rparr>))"

definition ac107_i2c_remove :: "client \<Rightarrow> ac107 \<Rightarrow> int \<times> ac107" where
  "ac107_i2c_remove c s = (0, s\<lparr>ac_log := ac_log s @ [RemoveGroup c]\<rparr>)"

definition ac107_init :: "ac_world \<Rightarrow> ac107 \<Rightarrow> int \<times> ac107" where
  "ac107_init w s = (w_code w (ac_log s) AddDriver, s\<lparr>ac_log := ac_log s @ [AddDriver]\<rparr>)"

definition ac107_exit :: "ac107 \<Rightarrow> ac107" where
  "ac107_exit s = s\<lparr>ac_log := ac_log s @ [DelDriver]\<rparr>"

section \<open>The framework's driver entry\<close>

text \<open>What the framework provides: the device and its property node, the configuration interface, and the
  results of reading the configuration, of reading the service name and of the registration.\<close>

definition GetServiceName :: "bool \<Rightarrow> bool \<Rightarrow> bool \<Rightarrow> int \<Rightarrow> int" where
  "GetServiceName device node iface name_rc = (
     if \<not> device then HDF_FAILURE
     else if \<not> node then HDF_FAILURE
     else if \<not> iface then HDF_FAILURE
     else if name_rc \<noteq> HDF_SUCCESS then name_rc
     else HDF_SUCCESS)"

definition Ac107DriverBind :: int where "Ac107DriverBind = HDF_SUCCESS"

definition Ac107DriverInit :: "bool \<Rightarrow> bool \<Rightarrow> bool \<Rightarrow> int \<Rightarrow> int \<Rightarrow> int \<Rightarrow> int" where
  "Ac107DriverInit device node iface config_rc name_rc register_rc = (
     if \<not> device then HDF_ERR_INVALID_OBJECT
     else if config_rc \<noteq> HDF_SUCCESS then config_rc
     else
       let ret = GetServiceName device node iface name_rc
       in if ret \<noteq> HDF_SUCCESS then ret
          else if register_rc \<noteq> HDF_SUCCESS then register_rc
          else HDF_SUCCESS)"
section \<open>The chip's registers\<close>

text \<open>A two-byte message writes a register, a one-byte message selects one for the next byte read.\<close>

fun ac_reg_step :: "client \<Rightarrow> (byte \<Rightarrow> byte) \<Rightarrow> acall \<Rightarrow> byte \<Rightarrow> byte" where
  "ac_reg_step c f (Send c' [r, v] ret) = (if c' = c then f(r := v) else f)"
| "ac_reg_step c f _ = f"

definition chip_regs :: "(client \<Rightarrow> byte \<Rightarrow> byte) \<Rightarrow> client \<Rightarrow> alog \<Rightarrow> byte \<Rightarrow> byte" where
  "chip_regs x c l = foldl (ac_reg_step c) (x c) l"

fun ac_select_step :: "client \<Rightarrow> byte \<Rightarrow> acall \<Rightarrow> byte" where
  "ac_select_step c a (Send c' [r] ret) = (if c' = c then r else a)"
| "ac_select_step c a _ = a"

definition selected :: "client \<Rightarrow> alog \<Rightarrow> byte" where
  "selected c l = foldl (ac_select_step c) 0 l"

text \<open>Every message is taken, and a byte received is the one in the selected register.\<close>

definition ac_answers :: "ac_world \<Rightarrow> (client \<Rightarrow> byte \<Rightarrow> byte) \<Rightarrow> bool" where
  "ac_answers w x \<longleftrightarrow> (\<forall>c. w_adapter w c) \<and> (\<forall>l c bs. w_send w l c bs = int (length bs)) \<and>
     (\<forall>l c v. w_recv w l c v = (1, chip_regs x c l (selected c l)))"

lemma chip_regs_append [simp]: "chip_regs x c (l @ l') = foldl (ac_reg_step c) (chip_regs x c l) l'"
  by (simp add: chip_regs_def)

lemma selected_append [simp]: "selected c (l @ l') = foldl (ac_select_step c) (selected c l) l'"
  by (simp add: selected_def)

lemma ac_read_run:
  "ac_answers w x \<Longrightarrow> ac107_read w r v (Some c) l =
     (0, chip_regs x c l r, l @ [Send c [r] 1, Recv c 1 (chip_regs x c l r)])"
  by (simp add: ac_answers_def ac107_read_def Let_def)

lemma ac_write_run:
  "ac_answers w x \<Longrightarrow> ac107_write w r v (Some c) l = (0, l @ [Send c [r, v] 2])"
  by (simp add: ac_answers_def ac107_write_def Let_def)

definition ac_get where "ac_get = (\<lambda>(w, x :: client \<Rightarrow> byte \<Rightarrow> byte, c) r l. ac107_read w r 0 (Some c) l)"
definition ac_put where "ac_put = (\<lambda>(w, x :: client \<Rightarrow> byte \<Rightarrow> byte, c) r v l. ac107_write w r v (Some c) l)"
definition ac_contents where "ac_contents = (\<lambda>(w :: ac_world, x, c) r l. chip_regs x c l r)"
definition ac_works where "ac_works = (\<lambda>(w, x, c :: client). ac_answers w x)"

interpretation ac_regs: register_file ac_get ac_put ac_contents ac_works
  by unfold_locales (auto simp: ac_get_def ac_put_def ac_contents_def ac_works_def ac_read_run ac_write_run)

text \<open>An update of a register: the bits under the mask become those of the value.\<close>

definition upd_reg :: "byte \<times> byte \<times> byte \<Rightarrow> (byte \<Rightarrow> byte) \<Rightarrow> byte \<Rightarrow> byte" where
  "upd_reg u f = (case u of (r, m, v) \<Rightarrow> f(r := update_bits m v (f r)))"

lemma upd_reg_apply [simp]: "upd_reg (r, m, v) f r' = (if r' = r then update_bits m v (f r) else f r')"
  by (simp add: upd_reg_def)

lemma upd_regs_other: "r \<notin> fst ` set us \<Longrightarrow> fold upd_reg us f r = f r"
  by (induction us arbitrary: f) auto

lemma upd_reg_write: "upd_reg (r, 0xff, v) f = f(r := v)"
proof -
  have "update_bits 0xff v (f r) = v"
  proof (rule bit_eqI)
    fix n assume "possible_bit TYPE(byte) n"
    then have "n < 8" by simp
    moreover have "bit (0xff :: byte) n \<longleftrightarrow> n < 8" using bit_mask_iff [of 8 n, where ?'a = byte]
      by (simp add: mask_eq_exp_minus_1)
    ultimately show "bit (update_bits 0xff v (f r)) n = bit v n" by (simp add: bit_update_bits)
  qed
  then show ?thesis by (auto simp: upd_reg_def)
qed

lemma ac_write_regs:
  "ac_answers w x \<Longrightarrow> chip_regs x c (snd (ac107_write w r v (Some c) l)) = upd_reg (r, 0xff, v) (chip_regs x c l)"
  by (simp add: ac_write_run upd_reg_write)

lemma ac_update_regs:
  assumes "ac_answers w x"
  shows "chip_regs x c (ac107_update_bits w r m v (Some c) l) = upd_reg (r, m, v) (chip_regs x c l)"
proof (rule ext)
  fix r'
  show "chip_regs x c (ac107_update_bits w r m v (Some c) l) r' = upd_reg (r, m, v) (chip_regs x c l) r'"
    using ac_regs.modify_changed [where w = "(w, x, c)" and r = r and f = "update_bits m v" and r' = r' and l = l] assms
    by (simp add: ac_get_def ac_put_def ac_contents_def ac_works_def ac107_update_bits_def ac_read_run ac_write_run
        Let_def update_bits_def)
qed

section \<open>Effect on the chip\<close>

lemmas ac_defs = ac_reg_defs ac_bit_defs ac_value_defs ac_option_defs c_not_def

lemma multi_one [simp]:
  "ac107_multi_chips_update_bits w ctrl r m v l = ac107_update_bits w r m v (ctrl ! 0) l"
  "ac107_multi_chips_write w ctrl r v l = snd (ac107_write w r v (ctrl ! 0) l)"
  "others_update w ctrl c r m v l = (if ctrl ! 0 = Some c then l else ac107_update_bits w r m v (ctrl ! 0) l)"
  by (simp_all add: ac107_multi_chips_update_bits_def ac107_multi_chips_write_def others_update_def AC107_CHIP_NUMS_def)

text \<open>The updates each function makes to the registers, as numbers.\<close>

definition init_plan :: "byte \<Rightarrow> (byte \<times> byte \<times> byte) list" where
  "init_plan dbg = [(0x01, 0xff, 0x80), (0x02, 0xff, 0x55), (0x20, 0x01, 0x01), (0x21, 0xff, 0x07), (0x22, 0xff, 0x03),
     (0x30, 0x10, 0x10), (0x31, 0x20, 0), (0x32, 0x03, 0), (0x33, 0xff, 31), (0x34, 0xc3, 0x01), (0x35, 0x70, 0x70),
     (0x36, 0x8f, 0), (0x3c, 0xff, 0xaa), (0x3d, 0xff, 0xaa), (0x59, 0x03, 0), (0x61, 0x07, 0x07), (0x62, 0x01, 0),
     (0x66, 0xff, if dbg AND 7 = 0 then 3 else 0), (0x70, 0, 0xa0), (0x71, 0, 0xa0), (0xa2, 0, 29), (0xa7, 0, 29),
     (0xa4, 0x40, 0x40), (0xa9, 0x40, 0x40), (0x01, 0x20, 0x20)]"

lemma ac_hw_init_regs:
  assumes "ac_answers w x"
  shows "chip_regs x c (ac107_hw_init w (Some c) l) = fold upd_reg (init_plan (chip_regs x c l 0x7f)) (chip_regs x c l)"
proof -
  have *: "chip_regs x c (l @ [Send c [r] 1, Recv c 1 v]) = chip_regs x c l" for l r v by simp
  show ?thesis
    unfolding ac107_hw_init_def ac_read_run [OF assms] Let_def prod.case init_plan_def
    by (simp add: ac_write_regs [OF assms] ac_update_regs [OF assms] * ac_defs)
qed

definition fmt_plan :: "(byte \<times> byte \<times> byte) list" where
  "fmt_plan = [(0x30, 0xc0, 0), (0x34, 0x34, 0x14), (0x36, 0x60, 0x60), (0x31, 0x10, 0), (0x32, 0x10, 0)]"

text \<open>A state in which a client has been probed as chip 0.\<close>

definition ac_inv :: "ac107 \<Rightarrow> bool" where
  "ac_inv s \<longleftrightarrow> length (i2c_ctrl s) = AC107_CHIP_NUMS_MAX \<and> (\<forall>i\<in>{AC107_CHIP_NUMS..<AC107_CHIP_NUMS_MAX}. i2c_ctrl s ! i = None) \<and>
     (\<forall>c p. drvdata s c = Some p \<longrightarrow> i2c p = c)"

definition ac_ready :: "ac107 \<Rightarrow> client \<Rightarrow> bool" where
  "ac_ready s c \<longleftrightarrow> ac_inv s \<and> g_ac107_i2c s = Some c \<and> drvdata s c \<noteq> None \<and> i2c_ctrl s ! 0 = Some c"

lemma ac_ready_log [simp]: "ac_ready (s\<lparr>ac_log := l\<rparr>) c = ac_ready s c"
  by (simp add: ac_ready_def ac_inv_def)

lemma ac_ready_own: "ac_ready s c \<Longrightarrow> own_client s = Some c"
  by (auto simp: ac_ready_def ac_inv_def own_client_def)

lemma ac_set_fmt_run:
  assumes "ac_answers w x" "ac_ready s c"
  obtains l where "ac107_set_fmt w (SND_SOC_DAIFMT_I2S OR SND_SOC_DAIFMT_NB_NF OR SND_SOC_DAIFMT_CBS_CFS) s =
      Some (0, s\<lparr>ac_log := l\<rparr>)" "chip_regs x c l = fold upd_reg fmt_plan (chip_regs x c (ac_log s))"
proof -
  have 1: "i2s_format 1 = Some (1, 1, 3)" "polarity 0 = Some (0, 0)"
    by (simp_all add: i2s_format_def polarity_def daifmt_defs ac_value_defs)
  show thesis
    using assms(2) that
    by (simp add: ac107_set_fmt_def ac_ready_own [OF assms(2)] ac_ready_def daifmt_defs 1 Let_def
        ac_update_regs [OF assms(1)] fmt_plan_def ac_defs)
qed

lemma ac_set_pll_run:
  assumes "ac_answers w x" "ac_ready s c" "freq_point rate = Some f"
  obtains l where "ac107_set_pll w f s = (0, s\<lparr>ac_log := l\<rparr>)"
    "chip_regs x c l = upd_reg (0x20, 0x0d, 0x01) (chip_regs x c (ac_log s))"
proof -
  have f: "f = 24576000 \<or> f = 22579200" using assms(3) by (auto simp: freq_point_def split: if_splits)
  have ctrl: "i2c_ctrl s ! 0 = Some c" using assms(2) by (simp add: ac_ready_def)
  show thesis
    using f that by (elim disjE) (simp_all add: ac107_set_pll_def ctrl Let_def ac_update_regs [OF assms(1)] ac_defs)
qed

lemma chips_on_None:
  assumes "length ctrl = 8" "i < k"
  shows "chips_on w n [i..<k] ctrl l = None \<longleftrightarrow> k > 8"
proof -
  have "chips_on w n is ctrl l = None \<longleftrightarrow> (\<exists>i\<in>set is. i \<ge> 8)" for "is" l
    by (induction "is" arbitrary: l) (auto simp: arr_get_def assms(1))
  moreover have "(\<exists>j\<in>set [i..<k]. j \<ge> 8) \<longleftrightarrow> k > 8" using assms(2) by (auto intro!: bexI [of _ "k - 1"])
  ultimately show ?thesis by simp
qed

lemma chips_on_rest:
  assumes "length ctrl = 8" "\<forall>i\<in>{1..<8}. ctrl ! i = None" "k \<le> 8"
  shows "chips_on w n [1..<k] ctrl l = Some l"
proof -
  have "set is \<subseteq> {1..<8} \<Longrightarrow> chips_on w n is ctrl l = Some l" for "is"
    using assms(1,2) by (induction "is") (auto simp: arr_get_def tx_write_def ac107_write_def)
  then show ?thesis using assms(3) by simp
qed

text \<open>The transmit registers for a number of channels.\<close>

definition tx_plan :: "nat \<Rightarrow> (byte \<times> byte \<times> byte) list" where
  "tx_plan n = [(0x38, 0xff, if n = 0 then 0 else of_nat (n - 1)),
     (0x39, 0xff, if n = 0 then 0 else if n = 1 then 1 else 3), (0x3a, 0xff, 0)]"

lemma set_channels_None:
  assumes "length ctrl = 8"
  shows "set_channels w n ctrl l = None \<longleftrightarrow> n > 16"
proof (cases "n = 0")
  case True
  then show ?thesis using assms by (simp add: set_channels_def AC107_CHIP_NUMS_def arr_get_def)
next
  case False
  then have k: "0 < (n + 1) div 2" by simp
  have "set_channels w n ctrl l = chips_on w n [0..<(n + 1) div 2] ctrl l"
    using k by (cases "chips_on w n [0..<(n + 1) div 2] ctrl l") (auto simp: set_channels_def AC107_CHIP_NUMS_def)
  with chips_on_None [OF assms k] show ?thesis by auto
qed

lemma set_channels_run:
  assumes "ac_answers w x" "ac_ready s c" "n \<le> 16"
  obtains l' where "set_channels w n (i2c_ctrl s) l = Some l'"
    "chip_regs x c l' = fold upd_reg (tx_plan n) (chip_regs x c l)"
proof -
  have s: "length (i2c_ctrl s) = 8" "\<forall>i\<in>{1..<8}. i2c_ctrl s ! i = None" "i2c_ctrl s ! 0 = Some c"
    using assms(2) by (auto simp: ac_ready_def ac_inv_def AC107_CHIP_NUMS_def AC107_CHIP_NUMS_MAX_def)
  show thesis
  proof (cases "n = 0")
    case True
    then have "set_channels w n (i2c_ctrl s) l = Some (tx_write w 0 0 0 (Some c) l)"
      using s by (simp add: set_channels_def AC107_CHIP_NUMS_def arr_get_def)
    with True that show ?thesis by (simp add: tx_plan_def tx_write_def ac_write_regs [OF assms(1)] ac_reg_defs)
  next
    case False
    have en: "channels_en n 0 = (if n = 1 then 1 else 3)" using False by (cases "n = 1") (auto simp: channels_en_def)
    have none_off: "[(n + 1) div 2..<AC107_CHIP_NUMS] = []" using False by (simp add: AC107_CHIP_NUMS_def)
    have "[0..<(n + 1) div 2] = 0 # [1..<(n + 1) div 2]" using False by (simp add: upt_conv_Cons)
    then have "set_channels w n (i2c_ctrl s) l = Some (tx_write w (of_int (int n - 1)) (ucast (channels_en n 0))
        (ucast (drop_bit 8 (channels_en n 0))) (Some c) l)"
      using assms(3) s chips_on_rest [OF s(1,2)] unfolding set_channels_def none_off by (simp add: arr_get_def)
    moreover have "(of_int (int n - 1) :: byte) = of_nat (n - 1)" using False
      by (metis One_nat_def Suc_leI neq0_conv of_int_of_nat_eq of_nat_1 of_nat_diff)
    ultimately show ?thesis
      using False en that by (simp add: tx_plan_def tx_write_def ac_write_regs [OF assms(1)] ac_reg_defs)
  qed
qed

definition pll_plan :: "bool \<Rightarrow> (byte \<times> byte \<times> byte) list" where
  "pll_plan on = (if on then [(0x30, 0x20, 0x20), (0x82, 0xc0, 0xc0), (0x20, 0x0c, 0x08), (0x10, 0x03, 0x03)] else [])"

lemma pll_enable_run:
  assumes "ac_answers w x" "ctrl ! 0 = Some c" "i \<le> 8" "chip_regs x c l 0x20 AND 0x0c = 0"
  shows "chip_regs x c (pll_enable w (of_nat i) c ctrl l) =
    fold upd_reg (pll_plan (bit (chip_regs x c l 0x20) 7)) (chip_regs x c l)"
proof -
  let ?v = "chip_regs x c l 0x20"
  have "i \<in> set [0..<9]" using assms(3) by simp
  then have hi: "(of_nat i :: u16) AND 0xff00 = 0" by (auto simp: upt_rec)
  have b: "(ucast ?v :: u16) AND 0x80 = 0 \<longleftrightarrow> \<not> bit ?v 7"
    using and_exp_eq_0_iff_not_bit [of "ucast ?v :: u16" 7] by (simp add: bit_simps)
  have m: "(ucast ?v :: u16) AND 0x0c = ucast (?v AND 0x0c)" by (simp add: unsigned_and_eq)
  have *: "chip_regs x c (l @ [Send c [r] 1, Recv c 1 v]) = chip_regs x c l" for r v by simp
  show ?thesis
    unfolding pll_enable_def ac_read_run [OF assms(1)] Let_def prod.case
    by (simp add: hi b m assms(2,4) SYSCLK_CTRL_def * pll_plan_def ac_update_regs [OF assms(1)]) (simp add: ac_defs)
qed

definition rate_plan :: "u32 \<Rightarrow> (byte \<times> byte \<times> byte) list" where
  "rate_plan rate = (case map_of ac107_sample_rate rate of Some code \<Rightarrow> [(0x60, 0x0f, code)] | None \<Rightarrow> [])"

lemma set_rate_run:
  "ac_answers w x \<Longrightarrow> ctrl ! 0 = Some c \<Longrightarrow>
     chip_regs x c (set_rate w rate ctrl l) = fold upd_reg (rate_plan rate) (chip_regs x c l)"
  by (simp add: set_rate_def rate_plan_def ac_update_regs AC107_ENCODING_EN_def ADC_SPRC_def ADC_FS_I2S_def split: option.split)

text \<open>Everything a capture set-up does to registers that held \<open>f\<close>.\<close>

definition setup_plan :: "(byte \<Rightarrow> byte) \<Rightarrow> nat \<Rightarrow> u32 \<Rightarrow> (byte \<times> byte \<times> byte) list" where
  "setup_plan f n rate = [(0x20, 0x0d, 0x01)] @ fmt_plan @ init_plan (f 0x7f) @ rate_plan rate @ tx_plan n"

definition capture_plan :: "(byte \<Rightarrow> byte) \<Rightarrow> AudioFormat \<Rightarrow> nat \<Rightarrow> u32 \<Rightarrow> (byte \<times> byte \<times> byte) list" where
  "capture_plan f format n rate = setup_plan f n rate @ (case sample_resolution format of
     None \<Rightarrow> []
   | Some res \<Rightarrow> (0x35, 0x07, of_nat (res div 4 - 1)) # pll_plan (bit (f 0x20) 7))"

lemma rate_plan_regs: "fst ` set (rate_plan rate) \<subseteq> {0x60}" and tx_plan_regs: "fst ` set (tx_plan n) = {0x38, 0x39, 0x3a}"
  by (auto simp: rate_plan_def tx_plan_def split: option.splits)

lemma setup_sysclk: "fold upd_reg (setup_plan f n rate) f 0x20 = update_bits 0x01 0x01 (update_bits 0x0d 0x01 (f 0x20))"
proof -
  have "0x20 \<notin> fst ` set (rate_plan rate)" "(0x20 :: byte) \<notin> fst ` set (tx_plan n)"
    using rate_plan_regs [of rate] tx_plan_regs [of n] by auto
  then show ?thesis by (simp add: setup_plan_def upd_regs_other fmt_plan_def init_plan_def)
qed

lemma byte_eqI:
  fixes a b :: byte
  assumes "bit a 0 = bit b 0" "bit a 1 = bit b 1" "bit a 2 = bit b 2" "bit a 3 = bit b 3" "bit a 4 = bit b 4"
    "bit a 5 = bit b 5" "bit a 6 = bit b 6" "bit a 7 = bit b 7"
  shows "a = b"
proof (rule bit_eqI)
  fix n assume "possible_bit TYPE(byte) n"
  then have "n \<in> {0, 1, 2, 3, 4, 5, 6, 7}" by auto
  then show "bit a n = bit b n" using assms by (elim insertE emptyE) simp_all
qed

lemma sysclk_bits:
  "update_bits 0x01 0x01 (update_bits 0x0d 0x01 y) AND (0x0c :: byte) = 0"
  "bit (update_bits 0x01 0x01 (update_bits 0x0d 0x01 (y :: byte))) 7 = bit y 7"
  by (rule byte_eqI; simp add: bit_update_bits bit_and_iff) (simp add: bit_update_bits)

lemma ac_hw_params_run:
  assumes "ac_answers w x" "ac_ready s c" "n \<le> 16" "n = unat (ucast channels :: u16)"
    and before: "chip_regs x c (ac_log s) = fold upd_reg ([(0x20, 0x0d, 0x01)] @ fmt_plan) f"
  obtains l where "ac107_hw_params w format channels rate s =
      Some (if sample_resolution format = None then - EINVAL else 0, s\<lparr>ac_log := l\<rparr>)"
    "chip_regs x c l = fold upd_reg (capture_plan f format n rate) f"
proof -
  have s: "g_ac107_i2c s = Some c" "i2c_ctrl s ! 0 = Some c" "own_client s = Some c"
    using assms(2) ac_ready_own [OF assms(2)] by (auto simp: ac_ready_def)
  let ?l2 = "set_rate w rate (i2c_ctrl s) (ac107_hw_init w (Some c) (ac_log s))"
  obtain l3 where l3: "set_channels w n (i2c_ctrl s) ?l2 = Some l3"
      "chip_regs x c l3 = fold upd_reg (tx_plan n) (chip_regs x c ?l2)"
    by (rule set_channels_run [OF assms(1-3)])
  have dbg: "chip_regs x c (ac_log s) 0x7f = f 0x7f" unfolding before by (simp add: fmt_plan_def)
  have r3: "chip_regs x c l3 = fold upd_reg (setup_plan f n rate) f"
    by (simp add: l3(2) set_rate_run [OF assms(1) s(2)] ac_hw_init_regs [OF assms(1)] dbg setup_plan_def) (simp add: before)
  show thesis
  proof (cases "sample_resolution format")
    case None
    then show ?thesis
      using that [of l3] r3 by (simp add: ac107_hw_params_def s l3 AC107_ENCODING_EN_def assms(4)[symmetric] capture_plan_def)
  next
    case (Some res)
    define l4 where "l4 = ac107_update_bits w 0x35 0x07 (of_nat (res div 4 - 1)) (Some c) l3"
    define i where "i = max ((n + 1) div 2) AC107_CHIP_NUMS"
    have r4: "chip_regs x c l4 = fold upd_reg (setup_plan f n rate @ [(0x35, 0x07, of_nat (res div 4 - 1))]) f"
      by (simp add: l4_def ac_update_regs [OF assms(1)] r3)
    have "i \<le> 8" using assms(3) by (simp add: i_def AC107_CHIP_NUMS_def)
    from pll_enable_run [OF assms(1) s(2) this, of l4] have
      "chip_regs x c (pll_enable w (of_nat i) c (i2c_ctrl s) l4) = fold upd_reg (capture_plan f format n rate) f"
      unfolding r4 by (simp add: capture_plan_def Some setup_sysclk sysclk_bits)
    then show ?thesis
      using that [of "pll_enable w (of_nat i) c (i2c_ctrl s) l4"]
      by (simp add: ac107_hw_params_def s l3 AC107_ENCODING_EN_def assms(4)[symmetric] Some I2S_FMT_CTRL2_def SAMPLE_RESOLUTION_def
          l4_def i_def)
  qed
qed

lemma ac_capture_run:
  assumes "ac_answers w x" "ac_ready s c" "n \<le> 16" "n = unat (ucast channels :: u16)"
    "st \<noteq> AUDIO_RENDER_STREAM" "freq_point rate \<noteq> None"
  obtains l where "Ac107DaiHwParams w st format channels rate s =
      Some (if sample_resolution format = None then HDF_FAILURE else HDF_SUCCESS, s\<lparr>ac_log := l\<rparr>)"
    "chip_regs x c l = fold upd_reg (capture_plan (chip_regs x c (ac_log s)) format n rate) (chip_regs x c (ac_log s))"
proof -
  obtain f where f: "freq_point rate = Some f" using assms(6) by auto
  obtain l1 where l1: "ac107_set_pll w f s = (0, s\<lparr>ac_log := l1\<rparr>)"
      "chip_regs x c l1 = upd_reg (0x20, 0x0d, 0x01) (chip_regs x c (ac_log s))"
    by (rule ac_set_pll_run [OF assms(1,2) f])
  have 1: "ac_ready (s\<lparr>ac_log := l1\<rparr>) c" using assms(2) by simp
  obtain l2 where l2: "ac107_set_fmt w (SND_SOC_DAIFMT_I2S OR SND_SOC_DAIFMT_NB_NF OR SND_SOC_DAIFMT_CBS_CFS) (s\<lparr>ac_log := l1\<rparr>) =
      Some (0, s\<lparr>ac_log := l2\<rparr>)" "chip_regs x c l2 = fold upd_reg fmt_plan (chip_regs x c l1)"
    by (rule ac_set_fmt_run [OF assms(1) 1]) auto
  have 2: "ac_ready (s\<lparr>ac_log := l2\<rparr>) c" using assms(2) by simp
  have 3: "chip_regs x c (ac_log (s\<lparr>ac_log := l2\<rparr>)) = fold upd_reg ([(0x20, 0x0d, 0x01)] @ fmt_plan) (chip_regs x c (ac_log s))"
    by (simp add: l2 l1)
  obtain l where l: "ac107_hw_params w format channels rate (s\<lparr>ac_log := l2\<rparr>) =
      Some (if sample_resolution format = None then - EINVAL else 0, s\<lparr>ac_log := l\<rparr>)"
    "chip_regs x c l = fold upd_reg (capture_plan (chip_regs x c (ac_log s)) format n rate) (chip_regs x c (ac_log s))"
    by (rule ac_hw_params_run [OF assms(1) 2 assms(3,4) 3]) auto
  show thesis
    using assms(5) l(1) by (intro that [OF _ l(2)]) (simp add: Ac107DaiHwParams_def f l1 l2 EINVAL_def Let_def)
qed

section \<open>The driver as a state machine\<close>

text \<open>What the I2C core, the framework and users of the debug files may call. After a failed probe and
  after a removal the core frees the memory allocated with \<open>devm_kzalloc\<close>, so the client has no private
  data any more.\<close>

datatype ac_op =
    Probe client nat
  | Remove client
  | HwParams AudioStreamType AudioFormat u32 u32
  | Trigger pcm_cmd
  | ReadReg u32 u32
  | WriteReg u32 u32
  | Store client int u32 u32
  | Show client

fun ac_step :: "ac_world \<Rightarrow> ac_op \<Rightarrow> ac107 \<Rightarrow> (int \<times> ac107) option" where
  "ac_step w (Probe c d) s = (
     let (rc, s1) = ac107_i2c_probe w c d s
     in Some (rc, if rc = 0 then s1 else s1\<lparr>drvdata := (drvdata s1)(c := None)\<rparr>))"
| "ac_step w (Remove c) s = (let (rc, s1) = ac107_i2c_remove c s in Some (rc, s1\<lparr>drvdata := (drvdata s1)(c := None)\<rparr>))"
| "ac_step w (HwParams st format channels rate) s = Ac107DaiHwParams w st format channels rate s"
| "ac_step w (Trigger cmd) s = Some (Ac107DaiTrigger w cmd s)"
| "ac_step w (ReadReg reg v) s = (let (rc, _, s1) = Ac107DeviceReadReg w reg v s in Some (rc, s1))"
| "ac_step w (WriteReg reg v) s = Some (Ac107DeviceWriteReg w reg v s)"
| "ac_step w (Store c cnt off v) s = map_option (\<lambda>s1. (0, s1)) (ac107_store w c cnt off v s)"
| "ac_step w (Show c) s = map_option (\<lambda>(rc, _, s1). (rc, s1)) (ac107_show w c s)"

fun ac_run :: "ac_world \<Rightarrow> ac_op list \<Rightarrow> ac107 \<Rightarrow> ac107 option" where
  "ac_run w [] s = Some s"
| "ac_run w (op # ops) s = do { (rc, s1) \<leftarrow> ac_step w op s; ac_run w ops s1 }"

lemma set_pll_log: "\<exists>l. ac107_set_pll w f s = (fst (ac107_set_pll w f s), s\<lparr>ac_log := l\<rparr>)"
  by (auto simp: ac107_set_pll_def Let_def intro: exI [of _ "ac_log s"])

lemma set_fmt_log: "ac107_set_fmt w fmt s = Some (rc, s') \<Longrightarrow> \<exists>l. s' = s\<lparr>ac_log := l\<rparr>"
  by (auto simp: ac107_set_fmt_def Let_def bind_eq_Some_conv intro: exI [of _ "ac_log s"]
      split: if_splits option.splits prod.splits)

lemma hw_params_log: "ac107_hw_params w format channels rate s = Some (rc, s') \<Longrightarrow> \<exists>l. s' = s\<lparr>ac_log := l\<rparr>"
  by (auto simp: ac107_hw_params_def Let_def bind_eq_Some_conv split: if_splits option.splits)

lemma dai_hw_params_log:
  assumes "Ac107DaiHwParams w st format channels rate s = Some (rc, s')"
  shows "\<exists>l. s' = s\<lparr>ac_log := l\<rparr>"
proof (cases "st = AUDIO_RENDER_STREAM \<or> freq_point rate = None")
  case True
  then have "s' = s\<lparr>ac_log := ac_log s\<rparr>" using assms by (auto simp: Ac107DaiHwParams_def split: if_splits)
  then show ?thesis by blast
next
  case False
  then obtain f where f: "freq_point rate = Some f" by auto
  obtain r1 l1 where 1: "ac107_set_pll w f s = (r1, s\<lparr>ac_log := l1\<rparr>)" using set_pll_log [of w f s] by metis
  let ?fmt = "SND_SOC_DAIFMT_I2S OR SND_SOC_DAIFMT_NB_NF OR SND_SOC_DAIFMT_CBS_CFS"
  have *: "s' = s\<lparr>ac_log := l1\<rparr> \<or> (\<exists>r2 s2. ac107_set_fmt w ?fmt (s\<lparr>ac_log := l1\<rparr>) = Some (r2, s2) \<and>
      (s' = s2 \<or> (\<exists>r3. ac107_hw_params w format channels rate s2 = Some (r3, s'))))"
    using assms False by (auto simp: Ac107DaiHwParams_def f 1 bind_eq_Some_conv split: if_splits)
  then show ?thesis by (auto dest!: set_fmt_log hw_params_log)
qed

lemma ac_inv_log [simp]: "ac_inv (s\<lparr>ac_log := l\<rparr>) = ac_inv s"
  by (simp add: ac_inv_def)

lemma ac_inv_detach:
  "ac_inv s \<Longrightarrow> ac_inv (s\<lparr>drvdata := (drvdata s)(c := None)\<rparr>)"
  "ac_inv s \<Longrightarrow> ac_inv (s\<lparr>ac_log := l, drvdata := (drvdata s)(c := None)\<rparr>)"
  by (simp_all add: ac_inv_def)

lemma debug_log:
  "ac107_store w c cnt off v s = Some s' \<Longrightarrow> ac_inv s' = ac_inv s"
  "ac107_show w c s = Some (rc, vs, s') \<Longrightarrow> ac_inv s' = ac_inv s"
  by (auto simp: ac107_store_def ac107_show_def Let_def case_prod_beta bind_eq_Some_conv split: if_splits)

lemma power_up_client: "power_up w p en l = (rc, p', en', l') \<Longrightarrow> i2c p' = i2c p"
  by (auto simp: power_up_def Let_def split: if_splits prod.splits)

lemma probe_inv:
  assumes "ac_inv s" shows "ac_inv (snd (ac107_i2c_probe w c d s))"
  using assms
  by (auto simp: ac107_i2c_probe_def ac_inv_def Let_def nth_list_update AC107_CHIP_NUMS_def dest: power_up_client
      split: if_splits prod.splits)

lemma step_inv: "ac_inv s \<Longrightarrow> ac_step w op s = Some (rc, s') \<Longrightarrow> ac_inv s'"
proof (cases op)
  case (HwParams st format channels rate)
  then show "ac_inv s \<Longrightarrow> ac_step w op s = Some (rc, s') \<Longrightarrow> ac_inv s'" by (auto dest!: dai_hw_params_log)
qed (auto simp: ac107_i2c_remove_def Ac107DaiTrigger_def Ac107DeviceReadReg_def Ac107DeviceWriteReg_def Let_def
    ac_inv_detach probe_inv case_prod_beta dest: debug_log split: prod.splits if_splits)

lemma ac_boot_inv: "ac_inv ac_boot"
  by (simp add: ac_inv_def ac_boot_def AC107_CHIP_NUMS_def AC107_CHIP_NUMS_MAX_def)

lemma run_inv: "ac_inv s \<Longrightarrow> ac_run w ops s = Some s' \<Longrightarrow> ac_inv s'"
  by (induction ops arbitrary: s) (auto simp: bind_eq_Some_conv dest: step_inv)

lemma set_fmt_result:
  assumes "fmt = SND_SOC_DAIFMT_I2S OR SND_SOC_DAIFMT_NB_NF OR SND_SOC_DAIFMT_CBS_CFS"
  shows "own_client s = None \<Longrightarrow> ac107_set_fmt w fmt s = None"
    and "own_client s = Some c \<Longrightarrow> \<exists>l. ac107_set_fmt w fmt s = Some (0, s\<lparr>ac_log := l\<rparr>)"
proof -
  have fmt: "i2s_format 1 = Some (1, 1, 3)" "polarity 0 = Some (0, 0)"
    by (simp_all add: i2s_format_def polarity_def daifmt_defs ac_value_defs)
  show "ac107_set_fmt w fmt s = None" if "own_client s = None"
    using that by (simp add: ac107_set_fmt_def assms daifmt_defs)
  show "\<exists>l. ac107_set_fmt w fmt s = Some (0, s\<lparr>ac_log := l\<rparr>)" if "own_client s = Some c"
  proof -
    have "g_ac107_i2c s \<noteq> None" using that by (auto simp: own_client_def bind_eq_Some_conv)
    then show ?thesis using that by (auto simp: ac107_set_fmt_def assms daifmt_defs fmt Let_def)
  qed
qed

lemma own_client_log [simp]: "own_client (s\<lparr>ac_log := l\<rparr>) = own_client s"
  by (simp add: own_client_def)

lemma hw_params_fault:
  assumes "ac_inv s" "own_client s = Some c"
  shows "ac107_hw_params w format channels rate s = None \<longleftrightarrow> unat (ucast channels :: u16) > 16"
proof -
  have "length (i2c_ctrl s) = 8" using assms(1) by (simp add: ac_inv_def AC107_CHIP_NUMS_MAX_def)
  note none = set_channels_None [OF this, where w = w]
  have g: "g_ac107_i2c s \<noteq> None" using assms(2) by (auto simp: own_client_def bind_eq_Some_conv)
  show ?thesis
    using none g assms(2)
    by (auto simp: ac107_hw_params_def AC107_ENCODING_EN_def Let_def bind_eq_None_conv split: option.splits)
qed

lemma ac_fault:
  assumes "ac_inv s"
  shows "Ac107DaiHwParams w st format channels rate s = None \<longleftrightarrow>
    st \<noteq> AUDIO_RENDER_STREAM \<and> freq_point rate \<noteq> None \<and> (own_client s = None \<or> unat (ucast channels :: u16) > 16)"
proof (cases "st = AUDIO_RENDER_STREAM \<or> freq_point rate = None")
  case True
  then show ?thesis by (auto simp: Ac107DaiHwParams_def)
next
  case False
  then obtain f where f: "freq_point rate = Some f" by auto
  have freq: "f = 24576000 \<or> f = 22579200" using f by (auto simp: freq_point_def split: if_splits)
  then have "fst (ac107_set_pll w f s) = 0" by (auto simp: ac107_set_pll_def PLLCLK_SRC_MCLK_def Let_def)
  then obtain l1 where pll: "ac107_set_pll w f s = (0, s\<lparr>ac_log := l1\<rparr>)" using set_pll_log [of w f s] by metis
  show ?thesis
  proof (cases "own_client s")
    case None
    then show ?thesis
      using False set_fmt_result(1) [OF refl, of "s\<lparr>ac_log := l1\<rparr>" w] by (simp add: Ac107DaiHwParams_def f pll)
  next
    case (Some c)
    then obtain l2 where fmt: "ac107_set_fmt w (SND_SOC_DAIFMT_I2S OR SND_SOC_DAIFMT_NB_NF OR SND_SOC_DAIFMT_CBS_CFS)
        (s\<lparr>ac_log := l1\<rparr>) = Some (0, s\<lparr>ac_log := l2\<rparr>)"
      using set_fmt_result(2) [OF refl, of "s\<lparr>ac_log := l1\<rparr>" c w] by auto
    have "ac107_hw_params w format channels rate (s\<lparr>ac_log := l2\<rparr>) = None \<longleftrightarrow> unat (ucast channels :: u16) > 16"
      using hw_params_fault [of "s\<lparr>ac_log := l2\<rparr>" c w format channels rate] assms Some by simp
    then show ?thesis
      using False Some
      by (cases "ac107_hw_params w format channels rate (s\<lparr>ac_log := l2\<rparr>)") (auto simp: Ac107DaiHwParams_def f pll fmt)
  qed
qed

section \<open>Stopping and the user's settings\<close>

text \<open>The table of defaults without the registers of the user's controls.\<close>

definition reset_table :: "(byte \<times> byte) list" where
  "reset_table = filter (\<lambda>(r, _). r \<notin> set ac107_kcontrol_dapm_reg) ac107_reg_default_value"

lemma restore_foldl:
  assumes "ctrl ! 0 = Some c"
  shows "restore_defaults w ctrl ds l =
    foldl (\<lambda>l (r, v). id (snd (ac_put (w, x, c) r v l))) l (filter (\<lambda>(r, _). r \<notin> set ac107_kcontrol_dapm_reg) ds)"
  using assms by (induction w ctrl ds l rule: restore_defaults.induct) (auto simp: ac_put_def)

lemma reset_table_distinct: "distinct (map fst reset_table)"
  by (simp add: reset_table_def ac107_reg_default_value_def ac107_kcontrol_dapm_reg_def ac_reg_defs)

lemma stop_regs:
  assumes "ac_answers w x" "ac_ready s c" "cmd \<in> {CAPTURE_STOP, CAPTURE_PAUSE}"
  shows "chip_regs x c (ac_log (snd (Ac107DaiTrigger w cmd s))) r =
    (case map_of reset_table r of Some v \<Rightarrow> v | None \<Rightarrow> upd_reg (0x30, 0x04, 0x04) (chip_regs x c (ac_log s)) r)"
proof -
  let ?l = "ac107_update_bits w 0x30 0x04 0x04 (Some c) (ac_log s)"
  have ctrl: "i2c_ctrl s ! 0 = Some c" using assms(2) by (simp add: ac_ready_def)
  have "ac_contents (w, x, c) r (restore_defaults w (i2c_ctrl s) ac107_reg_default_value ?l) =
      (case map_of (rev reset_table) r of None \<Rightarrow> ac_contents (w, x, c) r ?l | Some v \<Rightarrow> v)"
    unfolding restore_foldl [OF ctrl, where x = x] reset_table_def
    by (rule ac_regs.put_table) (simp_all add: ac_works_def assms(1))
  also have "map_of (rev reset_table) r = map_of reset_table r"
    using map_of_eqI [of "rev reset_table" reset_table] reset_table_distinct by (metis distinct_rev map_of_inject_set rev_map set_rev)
  finally show ?thesis
    using assms(3)
    by (auto simp: Ac107DaiTrigger_def ctrl ac_contents_def ac_update_regs [OF assms(1)] ac_reg_defs ac_bit_defs
        split: option.splits)
qed

text \<open>The last value the framework wrote to a register, or \<open>y\<close>.\<close>

fun last_written :: "byte \<Rightarrow> byte \<Rightarrow> ac_op list \<Rightarrow> byte" where
  "last_written r y [] = y"
| "last_written r y (WriteReg a v # ops) = last_written r (if ucast a = r then ucast v else y) ops"
| "last_written r y (_ # ops) = last_written r y ops"

fun framework_op :: "ac_op \<Rightarrow> bool" where
  "framework_op (HwParams _ _ _ _) = True"
| "framework_op (Trigger _) = True"
| "framework_op (ReadReg _ _) = True"
| "framework_op (WriteReg _ _) = True"
| "framework_op _ = False"

lemma control_regs: "set ac107_kcontrol_dapm_reg = {0xa2, 0xa7, 0x70, 0x71, 0x76, 0x77, 0x7f}"
  by (simp add: ac107_kcontrol_dapm_reg_def ac_reg_defs)

lemma update_mask_0 [simp]: "update_bits 0 v x = x"
  by (simp add: update_bits_def)

lemma capture_plan_controls:
  assumes "r \<in> set ac107_kcontrol_dapm_reg"
  shows "fold upd_reg (capture_plan f format n rate) g r = g r"
proof -
  have *: "r \<notin> fst ` set (rate_plan rate)" "r \<notin> fst ` set (tx_plan n)"
    using assms rate_plan_regs [of rate] tx_plan_regs [of n] unfolding control_regs by auto
  have init: "fold upd_reg (init_plan d) g r = g r" for d g
    using assms unfolding control_regs init_plan_def by (elim insertE emptyE) simp_all
  have fmt: "fold upd_reg fmt_plan g r = g r" for g
    using assms unfolding control_regs fmt_plan_def by (elim insertE emptyE) simp_all
  have pll: "fold upd_reg (pll_plan b) g r = g r" for b g
    using assms unfolding control_regs pll_plan_def by (elim insertE emptyE) simp_all
  have one: "r \<noteq> 0x20" "r \<noteq> 0x35" using assms unfolding control_regs by (elim insertE emptyE; simp)+
  show ?thesis
    by (cases "sample_resolution format") (simp_all add: capture_plan_def setup_plan_def upd_regs_other * init fmt pll one)
qed

lemma step_controls:
  assumes "ac_answers w x" "ac_ready s c" "framework_op op" "ac_step w op s = Some (rc, s')"
    and r: "r \<in> set ac107_kcontrol_dapm_reg"
  shows "ac_ready s' c \<and> chip_regs x c (ac_log s') r = last_written r (chip_regs x c (ac_log s) r) [op]"
proof (cases op)
  case (HwParams st format channels rate)
  then have run: "Ac107DaiHwParams w st format channels rate s = Some (rc, s')" using assms(4) by simp
  have ready: "ac_ready s' c" using dai_hw_params_log [OF run] assms(2) by auto
  have "chip_regs x c (ac_log s') r = chip_regs x c (ac_log s) r"
  proof (cases "st = AUDIO_RENDER_STREAM \<or> freq_point rate = None")
    case True
    then show ?thesis using run by (auto simp: Ac107DaiHwParams_def split: if_splits)
  next
    case False
    have own: "own_client s = Some c" "ac_inv s" using ac_ready_own [OF assms(2)] assms(2) by (auto simp: ac_ready_def)
    have n: "unat (ucast channels :: u16) \<le> 16"
      using ac_fault [OF own(2), of w st format channels rate] False own(1) run by auto
    show ?thesis
      by (rule ac_capture_run [OF assms(1,2) n refl, of st rate format])
        (use False run in \<open>auto simp: capture_plan_controls [OF r]\<close>)
  qed
  with ready HwParams show ?thesis by simp
next
  case (Trigger cmd)
  have ctrl: "i2c_ctrl s ! 0 = Some c" using assms(2) by (simp add: ac_ready_def)
  have none: "map_of reset_table r = None" "r \<noteq> 0x30"
    using r by (auto simp: reset_table_def map_of_eq_None_iff control_regs)
  have "chip_regs x c (ac_log (snd (Ac107DaiTrigger w cmd s))) r = chip_regs x c (ac_log s) r"
  proof (cases "cmd \<in> {CAPTURE_STOP, CAPTURE_PAUSE}")
    case True
    then show ?thesis by (subst stop_regs [OF assms(1,2)]) (simp_all add: none)
  next
    case False
    then show ?thesis by (auto simp: Ac107DaiTrigger_def ctrl ac_update_regs [OF assms(1)] I2S_CTRL_def none)
  qed
  moreover have "ac_ready (snd (Ac107DaiTrigger w cmd s)) c" using assms(2) by (simp add: Ac107DaiTrigger_def)
  moreover have "s' = snd (Ac107DaiTrigger w cmd s)" using assms(4) Trigger by simp
  ultimately show ?thesis using Trigger by simp
next
  case (ReadReg a v)
  have "g_ac107_i2c s = Some c" using assms(2) by (simp add: ac_ready_def)
  then show ?thesis using assms(2,4) ReadReg by (auto simp: Ac107DeviceReadReg_def ac_read_run [OF assms(1)])
next
  case (WriteReg a v)
  have "g_ac107_i2c s = Some c" using assms(2) by (simp add: ac_ready_def)
  then show ?thesis using assms(2,4) WriteReg by (auto simp: Ac107DeviceWriteReg_def ac_write_run [OF assms(1)])
qed (use assms(3) in simp_all)

lemma last_written_Cons: "last_written r y (op # ops) = last_written r (last_written r y [op]) ops"
  by (cases op) simp_all

section \<open>The fields after a capture set-up\<close>

definition setup_result :: "(byte \<Rightarrow> byte) \<Rightarrow> nat \<Rightarrow> nat \<Rightarrow> u32 \<Rightarrow> byte \<Rightarrow> byte" where
  "setup_result f res n rate =
     fold upd_reg (setup_plan f n rate @ (0x35, 0x07, of_nat (res div 4 - 1)) # pll_plan (bit (f 0x20) 7)) f"

lemma rate_other: "r \<noteq> 0x60 \<Longrightarrow> fold upd_reg (rate_plan rate) f r = f r"
  using rate_plan_regs [of rate] by (auto intro!: upd_regs_other)

lemma tx_other: "r \<noteq> 0x38 \<Longrightarrow> r \<noteq> 0x39 \<Longrightarrow> r \<noteq> 0x3a \<Longrightarrow> fold upd_reg (tx_plan n) f r = f r"
  by (simp add: tx_plan_def)

lemmas plan_simps = setup_result_def setup_plan_def pll_plan_def fmt_plan_def init_plan_def rate_other tx_other

text \<open>The contents of the registers with fields of interest, from the old contents.\<close>

lemma setup_values:
  "setup_result f res n rate 0x35 = update_bits 0x07 (of_nat (res div 4 - 1)) (update_bits 0x70 0x70 (f 0x35))"
  "setup_result f res n rate 0x34 = update_bits 0xc3 0x01 (update_bits 0x34 0x14 (f 0x34))"
  "setup_result f res n rate 0x36 = update_bits 0x8f 0 (update_bits 0x60 0x60 (f 0x36))"
  "setup_result f res n rate 0x30 = (let y = update_bits 0x10 0x10 (update_bits 0xc0 0 (f 0x30))
     in if bit (f 0x20) 7 then update_bits 0x20 0x20 y else y)"
  "setup_result f res n rate 0x20 = (let y = update_bits 0x01 0x01 (update_bits 0x0d 0x01 (f 0x20))
     in if bit (f 0x20) 7 then update_bits 0x0c 0x08 y else y)"
  by (simp_all add: plan_simps)

lemma setup_tx:
  "setup_result f res n rate 0x38 = (if n = 0 then 0 else of_nat (n - 1))"
  "setup_result f res n rate 0x39 = (if n = 0 then 0 else if n = 1 then 1 else 3)"
  "setup_result f res n rate 0x3a = 0"
  by (simp_all add: plan_simps tx_plan_def upd_reg_write)

lemma setup_rate:
  "setup_result f res n rate 0x60 = (case map_of ac107_sample_rate rate of Some code \<Rightarrow> update_bits 0x0f code (f 0x60) | None \<Rightarrow> f 0x60)"
  by (simp add: plan_simps rate_plan_def split: option.split)

lemma setup_frame:
  assumes "r \<notin> {0x01, 0x02, 0x10, 0x20, 0x21, 0x22, 0x30, 0x31, 0x32, 0x33, 0x34, 0x35, 0x36, 0x38, 0x39, 0x3a, 0x3c, 0x3d,
    0x59, 0x60, 0x61, 0x62, 0x66, 0x82, 0xa4, 0xa9}"
  shows "setup_result f res n rate r = f r"
proof -
  have init: "fold upd_reg (init_plan d) g r = g r" for d g using assms by (simp add: init_plan_def)
  have fmt: "fold upd_reg fmt_plan g r = g r" for g using assms by (simp add: fmt_plan_def)
  show ?thesis using assms by (simp add: setup_result_def setup_plan_def pll_plan_def rate_other tx_other init fmt)
qed

lemma sample_codes:
  "map_of ac107_sample_rate rate = Some code \<Longrightarrow> field 0 4 code = code"
  "sample_resolution format = Some res \<Longrightarrow> field 0 3 (of_nat (res div 4 - 1) :: byte) = of_nat (res div 4 - 1)"
  by (auto simp: ac107_sample_rate_def sample_resolution_def field_def split: if_splits AudioFormat.splits)

text \<open>A field of an update, where the field lies inside or outside of the mask.\<close>

lemma byte_fields:
  "field 0 4 (update_bits 0x0f v y) = field 0 4 (v :: byte)"
  "field 0 3 (update_bits 0x07 v y) = field 0 3 (v :: byte)"
  "field 4 3 (update_bits 0x07 v y) = field 4 3 (y :: byte)"
  "field 4 3 (update_bits 0x70 v y) = field 4 3 (v :: byte)"
  "field 4 2 (update_bits 0xc3 v y) = field 4 2 (y :: byte)"
  "field 4 2 (update_bits 0x34 v y) = field 4 2 (v :: byte)"
  "field 5 2 (update_bits 0x8f v y) = field 5 2 (y :: byte)" "field 5 2 (update_bits 0x60 v y) = field 5 2 (v :: byte)"
  "field 6 2 (update_bits 0x10 v y) = field 6 2 (y :: byte)" "field 6 2 (update_bits 0x20 v y) = field 6 2 (y :: byte)"
  "field 6 2 (update_bits 0xc0 v y) = field 6 2 (v :: byte)"
  "field 0 3 (update_bits 0x10 v y) = field 0 3 (y :: byte)" "field 0 3 (update_bits 0x20 v y) = field 0 3 (y :: byte)"
  "field 0 3 (update_bits 0xc0 v y) = field 0 3 (y :: byte)"
  "field 2 2 (update_bits 0x0c v y) = field 2 2 (v :: byte)" "field 2 2 (update_bits 0x01 v y) = field 2 2 (y :: byte)"
  "field 2 2 (update_bits 0x0d v y) = field 2 2 (v :: byte)"
  by (rule field_update_in field_update_out; simp add: field_def mask_eq_exp_minus_1)+

lemma setup_fields:
  "field 4 3 (setup_result f res n rate 0x35) = 7"
  "field 4 2 (setup_result f res n rate 0x34) = 1" "bit (setup_result f res n rate 0x34) 2"
  "field 5 2 (setup_result f res n rate 0x36) = 3"
  "field 6 2 (setup_result f res n rate 0x30) = 0"
  "field 0 3 (setup_result f res n rate 0x30) = field 0 3 (f 0x30)"
  "field 2 2 (setup_result f res n rate 0x20) = (if bit (f 0x20) 7 then 2 else 0)"
  "bit (setup_result f res n rate 0x20) 0"
  by (simp_all add: setup_values Let_def byte_fields bit_update_bits) (simp_all add: field_def)

lemma setup_parameters:
  "sample_resolution format = Some res \<Longrightarrow> field 0 3 (setup_result f res n rate 0x35) = of_nat (res div 4 - 1)"
  "field 0 4 (setup_result f res n rate 0x60) =
     (case map_of ac107_sample_rate rate of Some code \<Rightarrow> code | None \<Rightarrow> field 0 4 (f 0x60))"
  using sample_codes by (simp_all add: setup_values setup_rate byte_fields split: option.split)

lemma run_controls:
  assumes "ac_answers w x" "r \<in> set ac107_kcontrol_dapm_reg"
  shows "ac_ready s c \<Longrightarrow> list_all framework_op ops \<Longrightarrow> ac_run w ops s = Some s' \<Longrightarrow>
    chip_regs x c (ac_log s') r = last_written r (chip_regs x c (ac_log s) r) ops"
proof (induction ops arbitrary: s)
  case (Cons op ops)
  then obtain rc s1 where s1: "ac_step w op s = Some (rc, s1)" "ac_run w ops s1 = Some s'"
    by (auto simp: bind_eq_Some_conv)
  have "framework_op op" using Cons.prems(2) by simp
  note one = step_controls [OF assms(1) Cons.prems(1) this s1(1) assms(2)]
  show ?case using Cons.IH [of s1] one s1(2) Cons.prems(2) last_written_Cons [of r _ op ops] by simp
qed simp

section \<open>Concrete runs\<close>

definition ac_demo :: ac_world where
  "ac_demo = \<lparr>w_send = (\<lambda>l c bs. int (length bs)), w_recv = (\<lambda>l c v. (1, chip_regs (\<lambda>_ _. 0) c l (selected c l))),
     w_stack = (\<lambda>l. 0), w_adapter = (\<lambda>c. True), w_code = (\<lambda>l c. 0), w_ptr = (\<lambda>l c. PVALID), w_gpio_valid = (\<lambda>g. True)\<rparr>"

lemma ac_demo_answers: "ac_answers ac_demo (\<lambda>_ _. 0)"
  by (simp add: ac_answers_def ac_demo_def)

definition ac_demo_state :: ac107 where
  "ac_demo_state = the (ac_run ac_demo [Probe 7 0] ac_boot)"

lemma ac_demo_run: "ac_run ac_demo [Probe 7 0] ac_boot = Some ac_demo_state"
  by (simp add: ac_demo_state_def case_prod_beta)

lemma ac_demo_ready: "ac_ready ac_demo_state 7"
proof -
  have "ac_inv ac_demo_state" by (rule run_inv [OF ac_boot_inv ac_demo_run])
  then show ?thesis
    by (simp add: ac_ready_def ac_demo_state_def ac107_i2c_probe_def power_up_def get_supply_def get_reset_def ac_demo_def
        IS_ERR_OR_NULL_def ac_boot_def AC107_CHIP_NUMS_def AC107_CHIP_NUMS_MAX_def Let_def)
qed

section \<open>Properties\<close>

text \<open>
  C23. For every rate the interface accepts, a supported sample width and up to 16 channels, hardware
  parameters for capture on a chip that answers report success and set up the chip as an I2S slave on the
  master clock (from the PLL if it was switched on before): the sample width, the slot width, the number of
  channels and the mask of the chip's two channels are in their fields, the interface is not started, and
  the rate's code is in the rate field if the rate is in the table; the rates above 48 kHz leave that field as it
  was. Only the registers listed are changed.
\<close>

theorem ac_capture_setup:
  assumes "ac_answers w x" "ac_ready s c" "st \<noteq> AUDIO_RENDER_STREAM" "freq_point rate \<noteq> None"
    "sample_resolution format = Some res" "n = unat (ucast channels :: u16)" "n \<le> 16"
  shows "\<exists>s'. Ac107DaiHwParams w st format channels rate s = Some (HDF_SUCCESS, s') \<and>
    (let old = chip_regs x c (ac_log s); new = chip_regs x c (ac_log s') in
      field ADC_FS_I2S 4 (new ADC_SPRC) = (case map_of ac107_sample_rate rate of Some code \<Rightarrow> code | None \<Rightarrow> field ADC_FS_I2S 4 (old ADC_SPRC)) \<and>
      field SAMPLE_RESOLUTION 3 (new I2S_FMT_CTRL2) = of_nat (res div 4 - 1) \<and>
      field SLOT_WIDTH_SEL 3 (new I2S_FMT_CTRL2) = of_nat (AC107_SLOT_WIDTH div 4 - 1) \<and>
      new I2S_TX_CTRL1 = (if n = 0 then 0 else of_nat (n - 1)) \<and>
      new I2S_TX_CTRL2 = (if n = 0 then 0 else if n = 1 then 1 else 3) \<and> new I2S_TX_CTRL3 = 0 \<and>
      field MODE_SEL 2 (new I2S_FMT_CTRL1) = LEFT_JUSTIFIED_FORMAT \<and> bit (new I2S_FMT_CTRL1) TX_OFFSET \<and>
      field SEXT 2 (new I2S_FMT_CTRL3) = TRANSFER_ZERO_AFTER \<and>
      field LRCK_IOEN 2 (new I2S_CTRL) = 0 \<and> field GEN 3 (new I2S_CTRL) = field GEN 3 (old I2S_CTRL) \<and>
      field SYSCLK_SRC 2 (new SYSCLK_CTRL) = (if bit (old SYSCLK_CTRL) 7 then SYSCLK_SRC_PLL else SYSCLK_SRC_MCLK) \<and>
      bit (new SYSCLK_CTRL) SYSCLK_EN \<and>
      (\<forall>r. r \<notin> {PWR_CTRL1, PWR_CTRL2, PLL_CTRL1, SYSCLK_CTRL, MOD_CLK_EN, MOD_RST_CTRL, I2S_CTRL, I2S_BCLK_CTRL, I2S_LRCK_CTRL1,
         I2S_LRCK_CTRL2, I2S_FMT_CTRL1, I2S_FMT_CTRL2, I2S_FMT_CTRL3, I2S_TX_CTRL1, I2S_TX_CTRL2, I2S_TX_CTRL3,
         I2S_TX_CHMP_CTRL1, I2S_TX_CHMP_CTRL2, PDM_CTRL, ADC_SPRC, ADC_DIG_EN, DMIC_EN, HPF_EN, I2S_PADDRV_CTRL,
         ANA_ADC1_CTRL5, ANA_ADC2_CTRL5} \<longrightarrow> new r = old r))"
proof -
  define f where "f = chip_regs x c (ac_log s)"
  obtain l where l: "Ac107DaiHwParams w st format channels rate s = Some (HDF_SUCCESS, s\<lparr>ac_log := l\<rparr>)"
    "chip_regs x c l = fold upd_reg (capture_plan f format n rate) f"
    unfolding f_def by (rule ac_capture_run [OF assms(1,2,7,6,3,4), of format]) (simp add: assms(5))
  have new: "chip_regs x c l = setup_result f res n rate" by (simp add: l(2) setup_result_def capture_plan_def assms(5))
  have log: "ac_log (s\<lparr>ac_log := l\<rparr>) = l" by simp
  have slot: "(of_nat (32 div 4 - 1) :: byte) = 7" by simp
  show ?thesis
    unfolding l(1) Let_def ac_reg_defs ac_bit_defs ac_value_defs AC107_SLOT_WIDTH_def
    by (intro exI [of _ "s\<lparr>ac_log := l\<rparr>"] conjI allI impI)
      (simp_all only: log new slot f_def [symmetric] setup_fields setup_parameters(1) [OF assms(5)] setup_parameters(2)
        setup_tx refl, erule setup_frame)
qed

theorem ac_capture_setup_witness:
  "\<exists>s'. Ac107DaiHwParams ac_demo AUDIO_CAPTURE_STREAM AUDIO_FORMAT_TYPE_PCM_16_BIT 2 16000 ac_demo_state = Some (HDF_SUCCESS, s') \<and>
     field ADC_FS_I2S 4 (chip_regs (\<lambda>_ _. 0) 7 (ac_log s') ADC_SPRC) = 3"
proof -
  have "freq_point 16000 \<noteq> None" "sample_resolution AUDIO_FORMAT_TYPE_PCM_16_BIT = Some 16" "(2 :: nat) = unat (ucast (2 :: u32) :: u16)"
    "map_of ac107_sample_rate 16000 = Some 3" "AUDIO_CAPTURE_STREAM \<noteq> AUDIO_RENDER_STREAM" "(2 :: nat) \<le> 16"
    by (simp_all add: freq_point_def sample_resolution_def ac107_sample_rate_def)
  note demo = this
  obtain s' where "Ac107DaiHwParams ac_demo AUDIO_CAPTURE_STREAM AUDIO_FORMAT_TYPE_PCM_16_BIT 2 16000 ac_demo_state = Some (HDF_SUCCESS, s')"
    "field ADC_FS_I2S 4 (chip_regs (\<lambda>_ _. 0) 7 (ac_log s') ADC_SPRC) = (case map_of ac107_sample_rate 16000 of Some code \<Rightarrow> code
       | None \<Rightarrow> field ADC_FS_I2S 4 (chip_regs (\<lambda>_ _. 0) 7 (ac_log ac_demo_state) ADC_SPRC))"
    using ac_capture_setup [OF ac_demo_answers ac_demo_ready demo(5,1-3,6)] unfolding Let_def by blast
  then show ?thesis by (simp add: demo(4))
qed

text \<open>
  After any calls that returned, hardware parameters follow a null pointer or leave the array of
  clients exactly when they are for capture at an accepted rate and either no probed client has private
  data (no probe, a failed probe, or a removed device, whose global pointer stays behind) or the number
  of channels, which is kept in 16 bits, is above 16.
\<close>

theorem ac_fault_iff:
  assumes "ac_run w ops ac_boot = Some s"
  shows "Ac107DaiHwParams w st format channels rate s = None \<longleftrightarrow>
    st \<noteq> AUDIO_RENDER_STREAM \<and> freq_point rate \<noteq> None \<and>
    ((\<forall>c. g_ac107_i2c s = Some c \<longrightarrow> drvdata s c = None) \<or> unat (ucast channels :: u16) > 16)"
proof -
  have "own_client s = None \<longleftrightarrow> (\<forall>c. g_ac107_i2c s = Some c \<longrightarrow> drvdata s c = None)"
    by (cases "g_ac107_i2c s") (auto simp: own_client_def bind_eq_None_conv)
  then show ?thesis using ac_fault [OF run_inv [OF ac_boot_inv assms]] by simp
qed

theorem ac_fault_iff_witness:
  "Ac107DaiHwParams ac_demo AUDIO_CAPTURE_STREAM AUDIO_FORMAT_TYPE_PCM_16_BIT 17 16000 ac_demo_state = None"
  using ac_fault_iff [OF ac_demo_run, of AUDIO_CAPTURE_STREAM AUDIO_FORMAT_TYPE_PCM_16_BIT 17 16000]
  by (simp add: freq_point_def)

text \<open>
  Stopping or pausing capture on a chip that answers puts the power-on value into every register of the
  default table but those of the user's controls, which keep their contents like all registers outside
  the table.
\<close>

theorem ac_stop_resets:
  assumes "ac_answers w x" "ac_ready s c" "cmd \<in> {CAPTURE_STOP, CAPTURE_PAUSE}"
  shows "fst (Ac107DaiTrigger w cmd s) = HDF_SUCCESS \<and>
    chip_regs x c (ac_log (snd (Ac107DaiTrigger w cmd s))) r =
      (if r \<in> set ac107_kcontrol_dapm_reg then chip_regs x c (ac_log s) r
       else case map_of ac107_reg_default_value r of Some v \<Rightarrow> v | None \<Rightarrow> chip_regs x c (ac_log s) r)"
proof -
  have table: "map_of reset_table r = (if r \<in> set ac107_kcontrol_dapm_reg then None else map_of ac107_reg_default_value r)"
    unfolding reset_table_def by (rule map_of_filter_key)
  have "map_of ac107_reg_default_value 0x30 \<noteq> None" "0x30 \<notin> set ac107_kcontrol_dapm_reg"
    by (simp_all add: ac107_reg_default_value_def control_regs ac_reg_defs)
  then have "r \<in> set ac107_kcontrol_dapm_reg \<or> map_of ac107_reg_default_value r = None \<Longrightarrow> r \<noteq> 0x30" by auto
  moreover have "fst (Ac107DaiTrigger w cmd s) = HDF_SUCCESS" using assms(3) by (auto simp: Ac107DaiTrigger_def)
  ultimately show ?thesis by (auto simp: stop_regs [OF assms] table split: option.splits)
qed

theorem ac_stop_resets_witness:
  "chip_regs (\<lambda>_ _. 0) 7 (ac_log (snd (Ac107DaiTrigger ac_demo CAPTURE_STOP ac_demo_state))) PWR_CTRL2 = 0x11"
  using ac_stop_resets [OF ac_demo_answers ac_demo_ready, of CAPTURE_STOP PWR_CTRL2]
  by (simp add: control_regs ac107_reg_default_value_def ac_reg_defs)

text \<open>
  Whatever the framework does with a probed chip that answers, the registers of the user's controls
  (gains, volumes, mixer sources and test pattern) hold what was last written to them through the
  framework's register access: starting, stopping and new parameters do not disturb them.
\<close>

theorem ac_controls_survive:
  assumes "ac_answers w x" "ac_ready s c" "list_all framework_op ops" "ac_run w ops s = Some s'"
    "r \<in> set ac107_kcontrol_dapm_reg"
  shows "chip_regs x c (ac_log s') r = last_written r (chip_regs x c (ac_log s) r) ops"
  by (rule run_controls [OF assms(1,5,2,3,4)])

theorem ac_controls_survive_witness:
  "\<exists>s'. ac_run ac_demo [WriteReg 0x70 0x55, Trigger CAPTURE_START, Trigger CAPTURE_STOP] ac_demo_state = Some s' \<and>
     chip_regs (\<lambda>_ _. 0) 7 (ac_log s') ADC1_DVOL_CTRL = 0x55"
proof -
  let ?ops = "[WriteReg 0x70 0x55, Trigger CAPTURE_START, Trigger CAPTURE_STOP]"
  obtain s' where s': "ac_run ac_demo ?ops ac_demo_state = Some s'" by (auto simp: case_prod_beta)
  have "ADC1_DVOL_CTRL \<in> set ac107_kcontrol_dapm_reg" by (simp add: ac107_kcontrol_dapm_reg_def)
  from ac_controls_survive [OF ac_demo_answers ac_demo_ready _ s' this] s' show ?thesis by (auto simp: ADC1_DVOL_CTRL_def)
qed

end
