(* ===== verification/Kernel_Text.thy ===== *)
theory Kernel_Text
  imports BSP_Prelude "HOL-Library.Char_ord"
begin

text \<open>
  The formatted printing and scanning of the kernel library, as far as the drivers of the zhiyuan board use
  it. A C string is the list of its characters in front of the terminating zero byte.

  \<^item> \<open>fmt_hex\<close> is \<open>%x\<close> and \<open>%X\<close> with a width and zero padding, \<open>fmt_dec\<close> is \<open>%d\<close> of a number that is not
    negative, \<open>fmt_str\<close> is \<open>%s\<close> with a width.
  \<^item> \<open>scan_hhx\<close> is one conversion \<open>%02hhx\<close> of \<open>sscanf\<close>, \<open>scan_mac\<close> a sequence of them with colons between.
  \<^item> The main fact is the round trip: what \<open>fmt_mac\<close> prints is what \<open>scan_mac\<close> reads.
\<close>

section \<open>Printing\<close>

definition hexdig :: "bool \<Rightarrow> nat \<Rightarrow> char" where
  "hexdig upper n = (if upper then ''0123456789ABCDEF'' else ''0123456789abcdef'') ! n"

fun hex_digits :: "bool \<Rightarrow> nat \<Rightarrow> string" where
  "hex_digits upper n =
     (if n < 16 then [hexdig upper n] else hex_digits upper (n div 16) @ [hexdig upper (n mod 16)])"

fun dec_digits :: "nat \<Rightarrow> string" where
  "dec_digits n = (if n < 10 then [char_of (48 + n)] else dec_digits (n div 10) @ [char_of (48 + n mod 10)])"

declare hex_digits.simps [simp del] dec_digits.simps [simp del]

definition pad_left :: "char \<Rightarrow> nat \<Rightarrow> string \<Rightarrow> string" where
  "pad_left c w s = replicate (w - length s) c @ s"

definition fmt_hex :: "bool \<Rightarrow> nat \<Rightarrow> nat \<Rightarrow> string" where
  "fmt_hex upper w n = pad_left (CHR ''0'') w (hex_digits upper n)"

definition fmt_dec :: "nat \<Rightarrow> string" where
  "fmt_dec = dec_digits"

definition fmt_str :: "nat \<Rightarrow> string \<Rightarrow> string" where
  "fmt_str w s = pad_left (CHR '' '') w s"

definition newline :: char where
  "newline = CHR 0x0A"

text \<open>\<open>%02X:%02X:...\<close> over the bytes of an address.\<close>

fun fmt_mac :: "byte list \<Rightarrow> string" where
  "fmt_mac [] = []"
| "fmt_mac [b] = fmt_hex True 2 (unat b)"
| "fmt_mac (b # bs) = fmt_hex True 2 (unat b) @ CHR '':'' # fmt_mac bs"

section \<open>Scanning\<close>

definition isspace :: "char \<Rightarrow> bool" where
  "isspace c = (let n = of_char c :: nat in 9 \<le> n \<and> n \<le> 13 \<or> n = 32 \<or> n = 160)"

definition isxdigit :: "char \<Rightarrow> bool" where
  "isxdigit c = (let n = of_char c :: nat in
     48 \<le> n \<and> n \<le> 57 \<or> 65 \<le> n \<and> n \<le> 70 \<or> 97 \<le> n \<and> n \<le> 102)"

definition xval :: "char \<Rightarrow> nat" where
  "xval c = (let n = of_char c :: nat in if n \<le> 57 then n - 48 else if n \<le> 70 then n - 55 else n - 87)"

text \<open>
  One conversion \<open>%02hhx\<close>: white space is skipped, the first character has to be a hexadecimal digit, and
  at most two characters are used. The prefix \<open>0x\<close> fills the width and gives 0.
\<close>

definition scan_hhx :: "string \<Rightarrow> (byte \<times> string) option" where
  "scan_hhx s =
     (case dropWhile isspace s of
        [] \<Rightarrow> None
      | c # cs \<Rightarrow>
          if \<not> isxdigit c then None
          else (case cs of
             [] \<Rightarrow> Some (of_nat (xval c), [])
           | d # ds \<Rightarrow>
               if c = CHR ''0'' \<and> (d = CHR ''x'' \<or> d = CHR ''X'') then Some (0, ds)
               else if isxdigit d then Some (of_nat (16 * xval c + xval d), ds)
               else Some (of_nat (xval c), cs)))"

text \<open>
  \<open>sscanf\<close> with \<open>n\<close> such conversions and colons between them: the values that are stored. Their number is
  the return value.
\<close>

fun scan_mac :: "nat \<Rightarrow> string \<Rightarrow> byte list" where
  "scan_mac 0 s = []"
| "scan_mac (Suc n) s =
     (case scan_hhx s of
        None \<Rightarrow> []
      | Some (b, r) \<Rightarrow>
          b # (case r of [] \<Rightarrow> [] | c # r' \<Rightarrow> if n \<noteq> 0 \<and> c = CHR '':'' then scan_mac n r' else []))"

section \<open>Facts\<close>

lemma hexdig_props:
  assumes "n < 16"
  shows "isxdigit (hexdig up n)" "xval (hexdig up n) = n" "\<not> isspace (hexdig up n)"
    "hexdig up n \<noteq> CHR ''x''" "hexdig up n \<noteq> CHR ''X''" "hexdig up n \<noteq> CHR '':''"
proof -
  have "n \<in> {0,1,2,3,4,5,6,7,8,9,10,11,12,13,14,15}" using assms by (simp; presburger)
  then have "isxdigit (hexdig up n) \<and> xval (hexdig up n) = n \<and> \<not> isspace (hexdig up n) \<and>
     hexdig up n \<noteq> CHR ''x'' \<and> hexdig up n \<noteq> CHR ''X'' \<and> hexdig up n \<noteq> CHR '':''"
    by (cases up; elim insertE emptyE; simp add: hexdig_def isxdigit_def xval_def isspace_def)
  then show "isxdigit (hexdig up n)" "xval (hexdig up n) = n" "\<not> isspace (hexdig up n)"
    "hexdig up n \<noteq> CHR ''x''" "hexdig up n \<noteq> CHR ''X''" "hexdig up n \<noteq> CHR '':''" by simp_all
qed

lemma hexdig_0: "CHR ''0'' = hexdig up 0"
  by (simp add: hexdig_def)

lemma fmt_byte: "n < 256 \<Longrightarrow> fmt_hex up 2 n = [hexdig up (n div 16), hexdig up (n mod 16)]"
  by (auto simp: fmt_hex_def hexdig_0 [of up] pad_left_def hex_digits.simps [of up n] hex_digits.simps [of up "n div 16"])

lemma hex_digits_length: "n < 16 ^ k \<Longrightarrow> 0 < k \<Longrightarrow> length (hex_digits up n) \<le> k"
proof (induction k arbitrary: n)
  case (Suc k)
  show ?case
  proof (cases "n < 16")
    case False
    then have "0 < k" "n div 16 < 16 ^ k" using Suc.prems by (cases k; simp add: less_mult_imp_div_less mult.commute)+
    then show ?thesis using Suc.IH [of "n div 16"] False by (simp add: hex_digits.simps [of up n])
  qed (simp add: hex_digits.simps)
qed simp

lemma fmt_hex_length: "n < 16 ^ w \<Longrightarrow> 0 < w \<Longrightarrow> length (fmt_hex up w n) = w"
  using hex_digits_length [of n w up] by (simp add: fmt_hex_def pad_left_def)

lemma unat_byte_lt: "unat (b :: byte) < 256"
  using unsigned_less [of b] by simp

lemma scan_fmt_byte:
  fixes b :: byte
  shows "scan_hhx (fmt_hex up 2 (unat b) @ rest) = Some (b, rest)"
proof -
  have d: "unat b div 16 < 16" "unat b mod 16 < 16" using unat_byte_lt [of b] by auto
  have "(of_nat (16 * (unat b div 16) + unat b mod 16) :: byte) = b" unfolding mult_div_mod_eq by simp
  then show ?thesis
    using hexdig_props [OF d(1), of up] hexdig_props [OF d(2), of up] unat_byte_lt [of b]
    by (simp add: fmt_byte scan_hhx_def)
qed

lemma scan_fmt_mac: "bs \<noteq> [] \<Longrightarrow> scan_mac (length bs) (fmt_mac bs @ rest) = bs"
proof (induction bs rule: fmt_mac.induct)
  case (2 b)
  then show ?case using scan_fmt_byte [of True b rest] by (simp split: list.split)
qed (simp_all add: scan_fmt_byte)

lemma fmt_mac_length: "bs \<noteq> [] \<Longrightarrow> length (fmt_mac bs) = 3 * length bs - 1"
proof (induction bs rule: fmt_mac.induct)
  case (3 b c bs)
  then show ?case using unat_byte_lt by (simp add: fmt_byte)
qed (use unat_byte_lt in \<open>simp_all add: fmt_byte\<close>)

lemma scan_mac_length: "length (scan_mac n s) \<le> n"
  by (induction n s rule: scan_mac.induct) (auto split: option.splits list.splits)

end
