(* ===== verification/Sunxi_Sid.thy ===== *)
theory Sunxi_Sid
  imports Kernel_Text
begin

text \<open>
  The chip identity of the zhiyuan board: the calls to the secure monitor
  (\<open>zhiyuan/kernel/driver/drivers/smc/sunxi-smc.c\<close>) and the driver of the fuses with the identity of the chip
  (\<open>zhiyuan/kernel/driver/drivers/sid/sunxi-sid.c\<close>), built for arm64 (\<open>CONFIG_ARM64\<close>, \<open>CONFIG_ARCH_SUN50IW9\<close>).

  \<^item> \<open>platform\<close> is what the code does not own: the device tree, the registers behind \<open>readl\<close>, the secure
    monitor behind \<open>arm_smccc_smc\<close>, and the configured name of the chip.
  \<^item> \<open>sid\<close> holds the static variables of the driver, the \<open>init_flag\<close> of each reader, and two counters of
    resources that are taken and given back: the register mappings and the references to device-tree nodes.
  \<^item> \<open>None\<close> is undefined behaviour: a store outside of a buffer, or a shift by the width of the type.
  \<^item> The locale \<open>one_time_reader\<close> is a reader that looks at the hardware until it has succeeded once and
    then answers from its static variable; it is interpreted on the readers of the driver.
\<close>

unbundle bit_operations_syntax

section \<open>The platform\<close>

record smc_res =
  a0 :: u64
  a1 :: u64
  a2 :: u64
  a3 :: u64

record dt_node =
  iomap :: u64
  res_start :: "u64 option"
  children :: "string \<Rightarrow> (string \<Rightarrow> u32 option) option"

record platform =
  compatible_node :: "string \<Rightarrow> dt_node option"
  readl :: "u64 \<Rightarrow> u32"
  arm_smccc_smc :: "u64 \<Rightarrow> u64 \<Rightarrow> u64 \<Rightarrow> u64 \<Rightarrow> smc_res"
  soc_name :: string

section \<open>Calls to the secure monitor\<close>

definition ARM_SMCCC_CALL_VAL :: "u64 \<Rightarrow> u64 \<Rightarrow> u64 \<Rightarrow> u64 \<Rightarrow> u64" where
  "ARM_SMCCC_CALL_VAL type conv owner func_num =
     push_bit 31 type OR push_bit 30 conv OR push_bit 24 (owner AND 0x3F) OR (func_num AND 0xFFFF)"

definition OPTEE_SMC_FAST_CALL_VAL :: "u64 \<Rightarrow> u64" where
  "OPTEE_SMC_FAST_CALL_VAL func_num = ARM_SMCCC_CALL_VAL 1 0 50 func_num"

definition sunxi_smc_readl :: "platform \<Rightarrow> u64 \<Rightarrow> u32" where
  "sunxi_smc_readl hw addr = ucast (a0 (arm_smccc_smc hw 0xC000ff05 addr 0 0))"

definition sunxi_smc_writel :: "platform \<Rightarrow> u32 \<Rightarrow> u64 \<Rightarrow> u32" where
  "sunxi_smc_writel hw val addr = ucast (a0 (arm_smccc_smc hw 0xC000ff06 addr (ucast val) 0))"

definition arm_svc_efuse_write :: "platform \<Rightarrow> u64 \<Rightarrow> u32" where
  "arm_svc_efuse_write hw key_buf = ucast (a0 (arm_smccc_smc hw 0xc000fe01 key_buf 0 0))"

definition arm_svc_efuse_read :: "platform \<Rightarrow> u64 \<Rightarrow> u64 \<Rightarrow> u32" where
  "arm_svc_efuse_read hw key_buf read_buf = ucast (a0 (arm_smccc_smc hw 0xc000fe00 key_buf read_buf 0))"

definition smc_tee_get_os_revision :: "platform \<Rightarrow> u32 \<times> u32" where
  "smc_tee_get_os_revision hw =
     (let param = arm_smccc_smc hw (OPTEE_SMC_FAST_CALL_VAL 1) 0 0 0 in (ucast (a0 param), ucast (a1 param)))"

definition sunxi_smc_call_offset :: "platform \<Rightarrow> u64" where
  "sunxi_smc_call_offset hw =
     (let (major, minor) = smc_tee_get_os_revision hw in
      if 3 < major \<or> major = 3 \<and> 5 \<le> minor then 0x200 else 0)"

definition sunxi_smc_copy_arisc_paras :: "platform \<Rightarrow> u64 \<Rightarrow> u64 \<Rightarrow> u32 \<Rightarrow> u32" where
  "sunxi_smc_copy_arisc_paras hw dest src len =
     ucast (a0 (arm_smccc_smc hw (OPTEE_SMC_FAST_CALL_VAL (19 OR sunxi_smc_call_offset hw)) dest src (ucast len)))"

definition sunxi_smc_get_teeaddr_paras :: "platform \<Rightarrow> u64 \<Rightarrow> u64" where
  "sunxi_smc_get_teeaddr_paras hw resumeaddr =
     a0 (arm_smccc_smc hw (OPTEE_SMC_FAST_CALL_VAL (20 OR sunxi_smc_call_offset hw)) resumeaddr 0 0)"

definition sunxi_smc_refresh_hdcp :: "platform \<Rightarrow> u32" where
  "sunxi_smc_refresh_hdcp hw = ucast (a0 (arm_smccc_smc hw (OPTEE_SMC_FAST_CALL_VAL 16) 5 0 0))"

text \<open>The configuration of the protected memory: base, size and the base of the trusted system.\<close>

definition optee_probe_drm_configure :: "platform \<Rightarrow> int \<times> (u64 \<times> u64 \<times> u64) option" where
  "optee_probe_drm_configure hw =
     (let res = arm_smccc_smc hw (OPTEE_SMC_FAST_CALL_VAL (15 OR sunxi_smc_call_offset hw)) 0 0 0 in
      if a0 res \<noteq> 0 then (-22, None) else (0, Some (a1 res, a2 res, a3 res)))"

section \<open>State of the driver\<close>

record soc_ver_reg =
  reg_offset :: u32
  reg_mask :: u32
  reg_shift :: u32
  rev_a :: u32
  rev_b :: u32

definition zero_reg :: soc_ver_reg where
  "zero_reg = \<lparr>reg_offset = 0, reg_mask = 0, reg_shift = 0, rev_a = 0, rev_b = 0\<rparr>"

record sid =
  sunxi_soc_chipid :: "u32 list"
  sunxi_soc_ftzone :: "u32 list"
  sunxi_serial :: "u32 list"
  sunxi_soc_secure :: u32
  sunxi_soc_bin :: u32
  sunxi_soc_ver :: u32
  sunxi_soc_rotpk_status :: u32
  ver_init :: bool
  chipid_init :: bool
  ft_zone_init :: bool
  secure_init :: bool
  rotpk_init :: bool
  ver_reg :: soc_ver_reg
  id_reg :: soc_ver_reg
  bin_reg :: soc_ver_reg
  mappings :: int
  node_refs :: int

definition sid_boot :: sid where
  "sid_boot = \<lparr>sunxi_soc_chipid = replicate 4 0, sunxi_soc_ftzone = replicate 4 0, sunxi_serial = replicate 4 0,
     sunxi_soc_secure = 0, sunxi_soc_bin = 0, sunxi_soc_ver = 0, sunxi_soc_rotpk_status = 0,
     ver_init = False, chipid_init = False, ft_zone_init = False, secure_init = False, rotpk_init = False,
     ver_reg = zero_reg, id_reg = zero_reg, bin_reg = zero_reg, mappings = 0, node_refs = 0\<rparr>"

definition EFUSE_SID_BASE :: string where
  "EFUSE_SID_BASE = ''allwinner,sunxi-sid''"

definition SRAM_CTRL_BASE :: string where
  "SRAM_CTRL_BASE = ''allwinner,sram_ctrl''"

section \<open>Access to the registers\<close>

text \<open>\<open>of_find_compatible_node\<close> takes a reference to the node it finds.\<close>

definition sid_get_vir_base :: "platform \<Rightarrow> string \<Rightarrow> sid \<Rightarrow> u64 option \<times> sid" where
  "sid_get_vir_base hw compatible st =
     (case compatible_node hw compatible of
        None \<Rightarrow> (None, st)
      | Some nd \<Rightarrow>
          let st = st\<lparr>node_refs := node_refs st + 1\<rparr> in
          if iomap nd = 0 then (None, st) else (Some (iomap nd), st\<lparr>mappings := mappings st + 1\<rparr>))"

definition sid_get_phy_base :: "platform \<Rightarrow> string \<Rightarrow> sid \<Rightarrow> u64 option \<times> sid" where
  "sid_get_phy_base hw compatible st =
     (case compatible_node hw compatible of
        None \<Rightarrow> (None, st)
      | Some nd \<Rightarrow> (res_start nd, st\<lparr>node_refs := node_refs st + 1\<rparr>))"

definition sid_get_base :: "platform \<Rightarrow> string \<Rightarrow> u32 \<Rightarrow> sid \<Rightarrow> u64 option \<times> sid" where
  "sid_get_base hw compatible sec st =
     (if sec = 1 then sid_get_phy_base hw compatible st else sid_get_vir_base hw compatible st)"

definition sid_put_base :: "u64 \<Rightarrow> u32 \<Rightarrow> sid \<Rightarrow> sid" where
  "sid_put_base base sec st =
     (let st = (if sec = 0 \<and> base \<noteq> 0 then st\<lparr>mappings := mappings st - 1\<rparr> else st) in
      st\<lparr>node_refs := node_refs st - 1\<rparr>)"

definition sid_readl :: "platform \<Rightarrow> u64 \<Rightarrow> u32 \<Rightarrow> u32" where
  "sid_readl hw base sec = (if sec = 0 then readl hw base else sunxi_smc_readl hw base)"

definition of_property_read_u32 :: "(string \<Rightarrow> u32 option) \<Rightarrow> string \<Rightarrow> u32 \<Rightarrow> u32" where
  "of_property_read_u32 nd prop old = (case nd prop of None \<Rightarrow> old | Some v \<Rightarrow> v)"

text \<open>The references to the node and to its child are not given back.\<close>

definition dt_child :: "platform \<Rightarrow> string \<Rightarrow> string \<Rightarrow> sid \<Rightarrow> (string \<Rightarrow> u32 option) option \<times> sid" where
  "dt_child hw name compatible st =
     (case compatible_node hw compatible of
        None \<Rightarrow> (None, st)
      | Some nd \<Rightarrow>
          (case children nd name of
             None \<Rightarrow> (None, st\<lparr>node_refs := node_refs st + 1\<rparr>)
           | Some ch \<Rightarrow> (Some ch, st\<lparr>node_refs := node_refs st + 2\<rparr>)))"

definition get_key_map_info :: "platform \<Rightarrow> string \<Rightarrow> string \<Rightarrow> u32 \<times> u32 \<Rightarrow> sid \<Rightarrow> int \<times> (u32 \<times> u32) \<times> sid" where
  "get_key_map_info hw name compatible out st =
     (case dt_child hw name compatible st of
        (None, st) \<Rightarrow> (-6, out, st)
      | (Some ch, st) \<Rightarrow>
          (0, (of_property_read_u32 ch ''offset'' (fst out), of_property_read_u32 ch ''size'' (snd out)), st))"

text \<open>The loop of \<open>sid_read_key\<close>: \<open>n\<close> words from word \<open>k\<close> on.\<close>

fun store_words :: "(nat \<Rightarrow> u32) \<Rightarrow> nat \<Rightarrow> nat \<Rightarrow> u32 list \<Rightarrow> u32 list option" where
  "store_words f 0 k buf = Some buf"
| "store_words f (Suc n) k buf = do { buf' \<leftarrow> arr_set buf k (f k); store_words f n (Suc k) buf' }"

definition sid_read_key :: "platform \<Rightarrow> string \<Rightarrow> u32 list \<Rightarrow> u32 \<Rightarrow> u32 \<Rightarrow> sid \<Rightarrow> (u32 list \<times> sid) option" where
  "sid_read_key hw key_name key_buf key_size sec st =
     (case sid_get_base hw EFUSE_SID_BASE sec st of
        (None, st) \<Rightarrow> Some (key_buf, st)
      | (Some base, st) \<Rightarrow>
          let (_, (offset, max_size), st) = get_key_map_info hw key_name EFUSE_SID_BASE (0, 0) st;
              n = (if max_size < key_size then max_size else key_size) in
          do {
            buf \<leftarrow> store_words (\<lambda>k. sid_readl hw (base + ucast offset + of_nat (4 * k)) sec)
              ((unat n + 3) div 4) 0 key_buf;
            Some (buf, sid_put_base base sec st) })"

definition sid_rd_bits :: "platform \<Rightarrow> string \<Rightarrow> u32 \<Rightarrow> u32 \<Rightarrow> u32 \<Rightarrow> u32 \<Rightarrow> sid \<Rightarrow> (u32 \<times> sid) option" where
  "sid_rd_bits hw name offset shift msk sec st =
     (case sid_get_base hw name sec st of
        (None, st) \<Rightarrow> Some (0, st)
      | (Some base, st) \<Rightarrow>
          let val = sid_readl hw (base + ucast offset) sec in
          if 32 \<le> shift then None
          else Some (drop_bit (unat shift) val AND msk, sid_put_base base sec st))"

definition get_soc_ver_regs :: "platform \<Rightarrow> string \<Rightarrow> string \<Rightarrow> soc_ver_reg \<Rightarrow> sid \<Rightarrow> int \<times> soc_ver_reg \<times> sid" where
  "get_soc_ver_regs hw name compatible reg st =
     (case dt_child hw name compatible st of
        (None, st) \<Rightarrow> (-6, reg, st)
      | (Some ch, st) \<Rightarrow>
          (0, \<lparr>reg_offset = of_property_read_u32 ch ''offset'' (reg_offset reg),
               reg_mask = of_property_read_u32 ch ''mask'' (reg_mask reg),
               reg_shift = of_property_read_u32 ch ''shift'' (reg_shift reg),
               rev_a = of_property_read_u32 ch ''ver_a'' (rev_a reg),
               rev_b = of_property_read_u32 ch ''ver_b'' (rev_b reg)\<rparr>, st))"

section \<open>The readers\<close>

text \<open>On this chip the version is taken as it is.\<close>

definition chip_ver_platform_process :: "u32 \<Rightarrow> u32" where
  "chip_ver_platform_process val = val"

definition sid_rd_ver_reg :: "platform \<Rightarrow> u32 \<Rightarrow> sid \<Rightarrow> sid option" where
  "sid_rd_ver_reg hw soc_id st =
     (let (_, reg, st) = get_soc_ver_regs hw ''soc_ver'' SRAM_CTRL_BASE (ver_reg st) st;
          st = st\<lparr>ver_reg := reg\<rparr> in
      do {
        (ver, st) \<leftarrow> sid_rd_bits hw SRAM_CTRL_BASE (reg_offset reg) (reg_shift reg) (reg_mask reg) 0 st;
        Some (st\<lparr>sunxi_soc_ver := rev_a reg + chip_ver_platform_process ver\<rparr>) })"

definition sid_rd_soc_ver_from_sid :: "platform \<Rightarrow> sid \<Rightarrow> sid option" where
  "sid_rd_soc_ver_from_sid hw st =
     (let (_, reg, st) = get_soc_ver_regs hw ''soc_id'' SRAM_CTRL_BASE (id_reg st) st;
          st = st\<lparr>id_reg := reg\<rparr> in
      do {
        (soc_id, st) \<leftarrow> sid_rd_bits hw EFUSE_SID_BASE (reg_offset reg) (reg_shift reg) (reg_mask reg) 0 st;
        sid_rd_ver_reg hw soc_id st })"

definition sid_soc_ver_init :: "platform \<Rightarrow> sid \<Rightarrow> sid option" where
  "sid_soc_ver_init hw st =
     (if ver_init st then Some st
      else do { st \<leftarrow> sid_rd_soc_ver_from_sid hw st; Some (st\<lparr>ver_init := True\<rparr>) })"

definition sid_rd_soc_secure_status :: "platform \<Rightarrow> sid \<Rightarrow> sid" where
  "sid_rd_soc_secure_status hw st =
     (if secure_init st then st
      else case sid_get_base hw EFUSE_SID_BASE 1 st of
        (None, st) \<Rightarrow> st
      | (Some base, st) \<Rightarrow>
          let (_, (offset, _), st) = get_key_map_info hw ''secure_status'' EFUSE_SID_BASE (0, 0) st;
              st = st\<lparr>sunxi_soc_secure := sunxi_smc_readl hw (base + ucast offset) AND 1\<rparr> in
          (sid_put_base base 1 st)\<lparr>secure_init := True\<rparr>)"

definition sunxi_soc_is_secure :: "platform \<Rightarrow> sid \<Rightarrow> u32 \<times> sid" where
  "sunxi_soc_is_secure hw st = (let st = sid_rd_soc_secure_status hw st in (sunxi_soc_secure st, st))"

definition soc_bin_of :: "u32 \<Rightarrow> u32 \<Rightarrow> u32" where
  "soc_bin_of type old = (if type = 1 then 1 else if type = 3 then 2 else if type = 7 then 3 else old)"

definition sid_chipid_init :: "platform \<Rightarrow> sid \<Rightarrow> sid option" where
  "sid_chipid_init hw st =
     (if chipid_init st then Some st
      else let (sec, st) = sunxi_soc_is_secure hw st in
      do {
        (chipid, st) \<leftarrow> sid_read_key hw ''chipid'' (sunxi_soc_chipid st) 16 sec st;
        let st = st\<lparr>sunxi_soc_chipid := chipid,
                    sunxi_serial := (sunxi_serial st)[0 := chipid ! 3, 1 := chipid ! 2, 2 := drop_bit 16 (chipid ! 1) AND 0xFFFF]\<rparr>;
        let (_, (offset, _), st) = get_key_map_info hw ''chipid'' EFUSE_SID_BASE (0, 0) st;
        let (_, reg, st) = get_soc_ver_regs hw ''soc_bin'' SRAM_CTRL_BASE (bin_reg st) st;
        let st = st\<lparr>bin_reg := reg\<rparr>;
        let (sec, st) = sunxi_soc_is_secure hw st;
        (type, st) \<leftarrow> sid_rd_bits hw EFUSE_SID_BASE (reg_offset reg + offset) (reg_shift reg) (reg_mask reg) sec st;
        Some (st\<lparr>sunxi_soc_bin := soc_bin_of type (sunxi_soc_bin st), chipid_init := True\<rparr>) })"

definition sid_ft_zone_init :: "platform \<Rightarrow> sid \<Rightarrow> sid option" where
  "sid_ft_zone_init hw st =
     (if ft_zone_init st then Some st
      else let (sec, st) = sunxi_soc_is_secure hw st in
      do {
        (buf, st) \<leftarrow> sid_read_key hw ''ft_zone'' (sunxi_soc_ftzone st) 0x10 sec st;
        Some (st\<lparr>sunxi_soc_ftzone := buf, ft_zone_init := True\<rparr>) })"

definition sid_rotpk_status_init :: "platform \<Rightarrow> sid \<Rightarrow> sid option" where
  "sid_rotpk_status_init hw st =
     (if rotpk_init st then Some st
      else let (sec, st) = sunxi_soc_is_secure hw st in
      do {
        (buf, st) \<leftarrow> sid_read_key hw ''rotpk'' [sunxi_soc_rotpk_status st] 4 sec st;
        Some (st\<lparr>sunxi_soc_rotpk_status := hd buf, rotpk_init := True\<rparr>) })"

section \<open>The interface\<close>

definition le_bytes4 :: "u32 \<Rightarrow> byte list" where
  "le_bytes4 w = [ucast w, ucast (drop_bit 8 w), ucast (drop_bit 16 w), ucast (drop_bit 24 w)]"

definition sunxi_get_platform :: "platform \<Rightarrow> nat \<Rightarrow> nat \<times> string" where
  "sunxi_get_platform hw n = (length (soc_name hw), take (n - 1) (soc_name hw))"

definition sunxi_get_soc_chipid :: "platform \<Rightarrow> sid \<Rightarrow> (byte list \<times> sid) option" where
  "sunxi_get_soc_chipid hw st =
     do { st \<leftarrow> sid_chipid_init hw st; Some (concat (map le_bytes4 (sunxi_soc_chipid st)), st) }"

definition sunxi_get_serial :: "platform \<Rightarrow> sid \<Rightarrow> (byte list \<times> sid) option" where
  "sunxi_get_serial hw st =
     do { st \<leftarrow> sid_chipid_init hw st; Some (concat (map le_bytes4 (sunxi_serial st)), st) }"

definition sunxi_get_soc_chipid_str :: "platform \<Rightarrow> sid \<Rightarrow> (string \<times> sid) option" where
  "sunxi_get_soc_chipid_str hw st =
     do { st \<leftarrow> sid_chipid_init hw st;
          Some (fmt_hex False 8 (unat (sunxi_soc_chipid st ! 0 AND 0xffff)), st) }"

definition sunxi_get_soc_ft_zone_str :: "platform \<Rightarrow> sid \<Rightarrow> (string \<times> sid) option" where
  "sunxi_get_soc_ft_zone_str hw st =
     do { st \<leftarrow> sid_ft_zone_init hw st;
          Some (fmt_hex False 8 (unat (drop_bit 24 (sunxi_soc_ftzone st ! 0 AND 0xff000000))), st) }"

definition sunxi_get_soc_rotpk_status_str :: "platform \<Rightarrow> sid \<Rightarrow> (string \<times> sid) option" where
  "sunxi_get_soc_rotpk_status_str hw st =
     do { st \<leftarrow> sid_rotpk_status_init hw st;
          Some (fmt_dec (unat (drop_bit 1 (sunxi_soc_rotpk_status st AND 3))), st) }"

definition sunxi_get_soc_bin :: "platform \<Rightarrow> sid \<Rightarrow> (u32 \<times> sid) option" where
  "sunxi_get_soc_bin hw st = do { st \<leftarrow> sid_chipid_init hw st; Some (sunxi_soc_bin st, st) }"

definition sunxi_get_soc_ver :: "platform \<Rightarrow> sid \<Rightarrow> (u32 \<times> sid) option" where
  "sunxi_get_soc_ver hw st = do { st \<leftarrow> sid_soc_ver_init hw st; Some (sunxi_soc_ver st, st) }"

text \<open>The loop of \<open>sunxi_get_module_param_from_sid\<close>: the counter is a number of bytes and indexes words.\<close>

fun param_loop :: "(nat \<Rightarrow> u32) \<Rightarrow> nat \<Rightarrow> nat \<Rightarrow> u32 list \<Rightarrow> u32 list option" where
  "param_loop f 0 i dst = Some dst"
| "param_loop f (Suc n) i dst = do { dst' \<leftarrow> arr_set dst i (f i); param_loop f n (i + 4) dst' }"

definition sunxi_get_module_param_from_sid ::
    "platform \<Rightarrow> u32 list option \<Rightarrow> u32 \<Rightarrow> u32 \<Rightarrow> sid \<Rightarrow> (int \<times> u32 list option \<times> sid) option" where
  "sunxi_get_module_param_from_sid hw dst offset len st =
     (case dst of
        None \<Rightarrow> Some (-1, None, st)
      | Some buf \<Rightarrow>
          if len AND 3 \<noteq> 0 then Some (-2, dst, st)
          else case sid_get_base hw EFUSE_SID_BASE 0 st of
            (None, st) \<Rightarrow> Some (0, dst, st)
          | (Some base, st) \<Rightarrow>
              do {
                buf' \<leftarrow> param_loop (\<lambda>i. sid_readl hw (base + 0x200 + ucast offset + of_nat i) 0) (unat len div 4) 0 buf;
                Some (0, Some buf', sid_put_base base 0 st) })"

text \<open>
  The last character of the key is dropped; the local array for the name has 32 bytes, the terminating zero
  included.
\<close>

definition sunxi_efuse_readn ::
    "platform \<Rightarrow> string option \<Rightarrow> u32 list option \<Rightarrow> u32 \<Rightarrow> sid \<Rightarrow> (int \<times> u32 list option \<times> sid) option" where
  "sunxi_efuse_readn hw key_name buf n st =
     (case (key_name, buf) of
        (Some key, Some b) \<Rightarrow>
          if key = [] \<or> n = 0 then Some (-22, buf, st)
          else if 32 < length key then None
          else let (sec, st) = sunxi_soc_is_secure hw st in
            do { (b', st) \<leftarrow> sid_read_key hw (butlast key) b n sec st; Some (0, Some b', st) }
      | _ \<Rightarrow> Some (-22, buf, st))"
section \<open>The fuse device\<close>

text \<open>
  \<open>/dev/sid_efuse\<close>: user space reads and writes keys through the secure monitor. \<open>efuse_env\<close> is the
  environment of one call: the monitor, the physical addresses of the three buffers, what the monitor
  leaves in the buffer of the driver, and the memory of the caller.
\<close>

record key_info =
  key_name :: "byte list"
  key_len :: u32
  key_offset :: u32
  key_data :: u64

definition zero_key :: key_info where
  "zero_key = \<lparr>key_name = replicate 64 0, key_len = 0, key_offset = 0, key_data = 0\<rparr>"

record efuse_crypt =
  key_store :: key_info
  temp_data :: "byte list option"
  cmd :: u32
  work_ret :: u32

record efuse_dev =
  nfcr :: "efuse_crypt option"
  temp_key :: key_info
  registered :: bool

record efuse_env =
  monitor :: platform
  aw_smc :: bool
  name_phys :: u64
  temp_phys :: u64
  temp_key_phys :: u64
  monitor_fill :: "byte list \<Rightarrow> byte list \<Rightarrow> byte list"
  user_key :: "key_info option"
  user_read :: "u64 \<Rightarrow> nat \<Rightarrow> byte list option"
  user_writable :: "u64 \<Rightarrow> nat \<Rightarrow> bool"

definition SEC_BLK_SIZE :: nat where
  "SEC_BLK_SIZE = 4096"

definition SUNXI_EFUSE_READ :: u32 where
  "SUNXI_EFUSE_READ = 0x5601"

definition SUNXI_EFUSE_WRITE :: u32 where
  "SUNXI_EFUSE_WRITE = 0x5602"

text \<open>The end of the requested range and the result of the monitor are compared as unsigned 32-bit numbers.\<close>

definition sunxi_efuse_work :: "efuse_env \<Rightarrow> efuse_crypt \<Rightarrow> efuse_crypt option" where
  "sunxi_efuse_work env fc =
     (if aw_smc env \<and> cmd fc = SUNXI_EFUSE_READ then
        (case temp_data fc of
           None \<Rightarrow> None
         | Some tmp \<Rightarrow>
             Some (fc\<lparr>temp_data := Some (monitor_fill env (key_name (key_store fc)) tmp),
                      work_ret := (if arm_svc_efuse_read (monitor env) (name_phys env) (temp_phys env)
                                        < key_offset (key_store fc) + key_len (key_store fc) then -1 else 0)\<rparr>))
      else if aw_smc env \<and> cmd fc = SUNXI_EFUSE_WRITE then
        Some (fc\<lparr>work_ret := arm_svc_efuse_write (monitor env) (temp_key_phys env)\<rparr>)
      else Some (fc\<lparr>work_ret := -1\<rparr>))"

text \<open>The label \<open>_out\<close>.\<close>

definition efuse_out :: "efuse_crypt \<Rightarrow> efuse_crypt option" where
  "efuse_out fc =
     (case temp_data fc of
        None \<Rightarrow> None
      | Some _ \<Rightarrow> Some (fc\<lparr>temp_data := Some (replicate SEC_BLK_SIZE 0), key_store := zero_key, cmd := -1\<rparr>))"

text \<open>The bytes \<open>offset\<close> to \<open>offset + len\<close> of the buffer.\<close>

definition temp_slice :: "byte list \<Rightarrow> key_info \<Rightarrow> byte list option" where
  "temp_slice tmp key =
     (if unat (key_offset key) + unat (key_len key) \<le> length tmp
      then Some (take (unat (key_len key)) (drop (unat (key_offset key)) tmp)) else None)"

definition efuse_read_cmd :: "efuse_env \<Rightarrow> efuse_crypt \<Rightarrow> (int \<times> byte list option \<times> efuse_crypt) option" where
  "efuse_read_cmd env fc =
     do {
       fc \<leftarrow> sunxi_efuse_work env fc;
       if work_ret fc \<noteq> 0 then Some (sint (work_ret fc), None, fc)
       else do {
         tmp \<leftarrow> temp_data fc;
         bytes \<leftarrow> temp_slice tmp (key_store fc);
         if user_writable env (key_data (key_store fc)) (unat (key_len (key_store fc)))
         then Some (0, Some bytes, fc) else Some (-14, None, fc) } }"

definition efuse_write_cmd ::
    "efuse_env \<Rightarrow> key_info \<Rightarrow> efuse_crypt \<Rightarrow> (int \<times> key_info \<times> efuse_crypt) option" where
  "efuse_write_cmd env tk fc =
     do {
       tmp \<leftarrow> temp_data fc;
       let key = key_store fc;
       if length tmp < unat (key_len key) then None
       else case user_read env (key_data key) (unat (key_len key)) of
         None \<Rightarrow> Some (-14, tk, fc)
       | Some bytes \<Rightarrow>
           if 0 \<notin> set (key_name key) then None
           else do {
             let name = takeWhile (\<lambda>b. b \<noteq> 0) (key_name key);
             let tk = tk\<lparr>key_name := name @ 0 # drop (Suc (length name)) (key_name tk),
                          key_len := key_len key, key_offset := key_offset key, key_data := temp_phys env\<rparr>;
             fc \<leftarrow> sunxi_efuse_work env (fc\<lparr>temp_data := Some (bytes @ drop (length bytes) tmp)\<rparr>);
             Some (sint (work_ret fc), tk, fc) } }"

definition sunxi_efuse_ioctl ::
    "efuse_env \<Rightarrow> u32 \<Rightarrow> efuse_dev \<Rightarrow> (int \<times> byte list option \<times> efuse_dev) option" where
  "sunxi_efuse_ioctl env ioctl_num dev =
     do {
       fc \<leftarrow> nfcr dev;
       (err, bytes, tk, fc) \<leftarrow>
         (case user_key env of
            None \<Rightarrow> Some (-14, None, temp_key dev, fc)
          | Some key \<Rightarrow>
              let fc = fc\<lparr>key_store := key, cmd := ioctl_num\<rparr> in
              if ioctl_num = SUNXI_EFUSE_READ then
                do { (err, bytes, fc) \<leftarrow> efuse_read_cmd env fc; Some (err, bytes, temp_key dev, fc) }
              else if ioctl_num = SUNXI_EFUSE_WRITE then
                do { (err, tk, fc) \<leftarrow> efuse_write_cmd env (temp_key dev) fc; Some (err, None, tk, fc) }
              else Some (0, None, temp_key dev, fc));
       fc \<leftarrow> efuse_out fc;
       Some (err, bytes, dev\<lparr>nfcr := Some fc, temp_key := tk\<rparr>) }"

text \<open>\<open>reg\<close>, \<open>mem\<close> and \<open>blk\<close>: the outcomes of \<open>misc_register\<close> and of the two allocations.\<close>

definition sunxi_efuse_init :: "int \<Rightarrow> bool \<Rightarrow> bool \<Rightarrow> efuse_dev \<Rightarrow> int \<times> efuse_dev" where
  "sunxi_efuse_init reg mem blk dev =
     (if reg \<noteq> 0 then (reg, dev)
      else let dev = dev\<lparr>registered := True\<rparr> in
      if \<not> mem then (-1, dev\<lparr>nfcr := None\<rparr>)
      else let fc = \<lparr>key_store = zero_key, temp_data = None, cmd = 0, work_ret = 0\<rparr> in
      if \<not> blk then (-1, dev\<lparr>nfcr := Some fc\<rparr>)
      else (0, dev\<lparr>nfcr := Some (fc\<lparr>temp_data := Some (replicate SEC_BLK_SIZE 0)\<rparr>)\<rparr>))"

definition sunxi_efuse_exit :: "efuse_dev \<Rightarrow> efuse_dev option" where
  "sunxi_efuse_exit dev = do { _ \<leftarrow> nfcr dev; Some (dev\<lparr>registered := False, nfcr := None\<rparr>) }"
section \<open>Resources\<close>

text \<open>Every access changes the static values through its result only, and the two counters.\<close>

definition took :: "int \<Rightarrow> int \<Rightarrow> sid \<Rightarrow> sid" where
  "took m r st = st\<lparr>mappings := mappings st + m, node_refs := node_refs st + r\<rparr>"

lemma took_sel [simp]:
  "sunxi_soc_chipid (took m r st) = sunxi_soc_chipid st" "sunxi_soc_ftzone (took m r st) = sunxi_soc_ftzone st"
  "sunxi_serial (took m r st) = sunxi_serial st" "sunxi_soc_secure (took m r st) = sunxi_soc_secure st"
  "sunxi_soc_bin (took m r st) = sunxi_soc_bin st" "sunxi_soc_ver (took m r st) = sunxi_soc_ver st"
  "sunxi_soc_rotpk_status (took m r st) = sunxi_soc_rotpk_status st" "ver_init (took m r st) = ver_init st"
  "chipid_init (took m r st) = chipid_init st" "ft_zone_init (took m r st) = ft_zone_init st"
  "secure_init (took m r st) = secure_init st" "rotpk_init (took m r st) = rotpk_init st"
  "ver_reg (took m r st) = ver_reg st" "id_reg (took m r st) = id_reg st" "bin_reg (took m r st) = bin_reg st"
  "mappings (took m r st) = mappings st + m" "node_refs (took m r st) = node_refs st + r"
  by (simp_all add: took_def)

lemma took_took [simp]: "took m r (took m' r' st) = took (m' + m) (r' + r) st"
  by (simp add: took_def add.assoc)

lemma took_0 [simp]: "took 0 0 st = st"
  by (simp add: took_def)

definition base_of :: "platform \<Rightarrow> string \<Rightarrow> u32 \<Rightarrow> u64 option" where
  "base_of hw c sec =
     (case compatible_node hw c of
        None \<Rightarrow> None
      | Some nd \<Rightarrow> if sec = 1 then res_start nd else if iomap nd = 0 then None else Some (iomap nd))"

definition nd_refs :: "platform \<Rightarrow> string \<Rightarrow> int" where
  "nd_refs hw c = (if compatible_node hw c = None then 0 else 1)"

definition child_of :: "platform \<Rightarrow> string \<Rightarrow> string \<Rightarrow> (string \<Rightarrow> u32 option) option" where
  "child_of hw name c = do { nd \<leftarrow> compatible_node hw c; children nd name }"

definition child_refs :: "platform \<Rightarrow> string \<Rightarrow> string \<Rightarrow> int" where
  "child_refs hw name c = nd_refs hw c + (if child_of hw name c = None then 0 else 1)"

lemma nd_refs_nonneg [simp]: "0 \<le> nd_refs hw c" "0 \<le> child_refs hw name c"
  by (simp_all add: nd_refs_def child_refs_def)

lemma get_base_took:
  "sid_get_base hw c sec st =
     (base_of hw c sec, took (if sec \<noteq> 1 \<and> base_of hw c sec \<noteq> None then 1 else 0) (nd_refs hw c) st)"
  by (simp add: sid_get_base_def sid_get_phy_base_def sid_get_vir_base_def base_of_def nd_refs_def took_def
      split: option.split)

lemma put_base_took: "sid_put_base base sec st = took (if sec = 0 \<and> base \<noteq> 0 then -1 else 0) (-1) st"
  by (simp add: sid_put_base_def took_def)

lemma base_of_mapped: "sec \<noteq> 1 \<Longrightarrow> base_of hw c sec = Some base \<Longrightarrow> base \<noteq> 0"
  by (auto simp: base_of_def split: option.splits if_splits)

lemma base_of_refs: "base_of hw c sec = Some base \<Longrightarrow> nd_refs hw c = 1"
  by (auto simp: base_of_def nd_refs_def split: option.splits)

lemma dt_child_took: "dt_child hw name c st = (child_of hw name c, took 0 (child_refs hw name c) st)"
  by (simp add: dt_child_def child_of_def child_refs_def nd_refs_def took_def split: option.split)

definition key_map :: "platform \<Rightarrow> string \<Rightarrow> u32 \<times> u32 \<Rightarrow> u32 \<times> u32" where
  "key_map hw name out =
     (case child_of hw name EFUSE_SID_BASE of
        None \<Rightarrow> out
      | Some ch \<Rightarrow> (of_property_read_u32 ch ''offset'' (fst out), of_property_read_u32 ch ''size'' (snd out)))"

lemma key_map_took:
  "get_key_map_info hw name EFUSE_SID_BASE out st =
     (if child_of hw name EFUSE_SID_BASE = None then -6 else 0, key_map hw name out, took 0 (child_refs hw name EFUSE_SID_BASE) st)"
  by (simp add: get_key_map_info_def dt_child_took key_map_def split: option.split)

definition ver_regs :: "platform \<Rightarrow> string \<Rightarrow> soc_ver_reg \<Rightarrow> soc_ver_reg" where
  "ver_regs hw name reg = fst (snd (get_soc_ver_regs hw name SRAM_CTRL_BASE reg sid_boot))"

lemma ver_regs_took:
  "\<exists>rc. get_soc_ver_regs hw name SRAM_CTRL_BASE reg st =
     (rc, ver_regs hw name reg, took 0 (child_refs hw name SRAM_CTRL_BASE) st)"
  by (auto simp: get_soc_ver_regs_def ver_regs_def dt_child_took split: option.split)

section \<open>What a reader reads\<close>

lemma store_words_run:
  "k \<le> length buf \<Longrightarrow> store_words f n k buf =
     (if k + n \<le> length buf then Some (take k buf @ map f [k..<k + n] @ drop (k + n) buf) else None)"
proof (induction n arbitrary: k buf)
  case (Suc n)
  show ?case
  proof (cases "k < length buf")
    case True
    then show ?thesis
      using Suc.IH [of "Suc k" "buf[k := f k]"]
      by (simp add: arr_set_def take_Suc_update upt_rec [of k])
  qed (use Suc.prems in \<open>simp add: arr_set_def\<close>)
qed simp

definition key_words :: "platform \<Rightarrow> string \<Rightarrow> u32 list \<Rightarrow> u32 \<Rightarrow> u32 \<Rightarrow> u32 list option" where
  "key_words hw name buf n sec =
     (case base_of hw EFUSE_SID_BASE sec of
        None \<Rightarrow> Some buf
      | Some base \<Rightarrow>
          let (offset, max_size) = key_map hw name (0, 0); w = (unat (min n max_size) + 3) div 4 in
          if w \<le> length buf
          then Some (map (\<lambda>k. sid_readl hw (base + ucast offset + of_nat (4 * k)) sec) [0..<w] @ drop w buf)
          else None)"

definition key_refs :: "platform \<Rightarrow> string \<Rightarrow> u32 \<Rightarrow> int" where
  "key_refs hw name sec =
     (if base_of hw EFUSE_SID_BASE sec = None then nd_refs hw EFUSE_SID_BASE else child_refs hw name EFUSE_SID_BASE)"

lemma key_refs_nonneg [simp]: "0 \<le> key_refs hw name sec"
  by (simp add: key_refs_def)

lemma read_key_took:
  assumes "sec = 0 \<or> sec = 1"
  shows "sid_read_key hw name buf n sec st = map_option (\<lambda>b. (b, took 0 (key_refs hw name sec) st)) (key_words hw name buf n sec)"
proof (cases "base_of hw EFUSE_SID_BASE sec")
  case (Some base)
  obtain off mx where km: "key_map hw name (0, 0) = (off, mx)" by force
  have "(if mx < n then mx else n) = min n mx" by (auto simp: min_def)
  then show ?thesis
    using Some assms base_of_mapped [of sec hw EFUSE_SID_BASE base] base_of_refs [OF Some]
    by (auto simp: sid_read_key_def get_base_took key_map_took km store_words_run put_base_took key_words_def key_refs_def Let_def)
qed (simp add: sid_read_key_def get_base_took key_words_def key_refs_def)

lemma key_words_length: "key_words hw name buf n sec = Some b \<Longrightarrow> length b = length buf"
  by (auto simp: key_words_def Let_def split: option.splits prod.splits if_splits)

lemma key_words_fits:
  assumes "unat n \<le> 4 * length buf" shows "\<exists>b. key_words hw name buf n sec = Some b"
proof -
  have "(unat (min n mx) + 3) div 4 \<le> length buf" for mx
    using assms by (auto simp: min_def word_le_nat_alt)
  then show ?thesis by (auto simp: key_words_def Let_def split: option.split prod.split)
qed

definition bits_of :: "platform \<Rightarrow> string \<Rightarrow> u32 \<Rightarrow> u32 \<Rightarrow> u32 \<Rightarrow> u32 \<Rightarrow> u32" where
  "bits_of hw c off shift msk sec =
     (case base_of hw c sec of None \<Rightarrow> 0 | Some base \<Rightarrow> drop_bit (unat shift) (sid_readl hw (base + ucast off) sec) AND msk)"

lemma rd_bits_took:
  assumes "sec = 0 \<or> sec = 1" "shift < 32"
  shows "sid_rd_bits hw c off shift msk sec st =
    Some (bits_of hw c off shift msk sec, took 0 (if base_of hw c sec = None then nd_refs hw c else 0) st)"
proof (cases "base_of hw c sec")
  case (Some base)
  then show ?thesis
    using assms base_of_mapped [OF _ Some] base_of_refs [OF Some]
    by (elim disjE) (simp_all add: sid_rd_bits_def get_base_took put_base_took bits_of_def not_le)
qed (simp add: sid_rd_bits_def get_base_took bits_of_def)
section \<open>Invariant\<close>

definition shift_ok :: "platform \<Rightarrow> string \<Rightarrow> bool" where
  "shift_ok hw name =
     (case child_of hw name SRAM_CTRL_BASE of
        None \<Rightarrow> True
      | Some ch \<Rightarrow> (case ch ''shift'' of None \<Rightarrow> True | Some s \<Rightarrow> s < 32))"

definition dt_ok :: "platform \<Rightarrow> bool" where
  "dt_ok hw \<longleftrightarrow> shift_ok hw ''soc_ver'' \<and> shift_ok hw ''soc_id'' \<and> shift_ok hw ''soc_bin''"

definition sid_inv :: "sid \<Rightarrow> bool" where
  "sid_inv st \<longleftrightarrow>
     length (sunxi_soc_chipid st) = 4 \<and> length (sunxi_soc_ftzone st) = 4 \<and> length (sunxi_serial st) = 4 \<and>
     (sunxi_soc_secure st = 0 \<or> sunxi_soc_secure st = 1) \<and>
     reg_shift (ver_reg st) < 32 \<and> reg_shift (id_reg st) < 32 \<and> reg_shift (bin_reg st) < 32"

text \<open>The mappings are given back; the references to nodes only grow.\<close>

definition balanced :: "sid \<Rightarrow> sid \<Rightarrow> bool" where
  "balanced st st' \<longleftrightarrow> mappings st' = mappings st \<and> node_refs st \<le> node_refs st'"

lemma ver_regs_shift: "shift_ok hw name \<Longrightarrow> reg_shift reg < 32 \<Longrightarrow> reg_shift (ver_regs hw name reg) < 32"
  by (auto simp: ver_regs_def get_soc_ver_regs_def dt_child_took shift_ok_def of_property_read_u32_def
      split: option.splits)

definition secure_of :: "platform \<Rightarrow> sid \<Rightarrow> u32" where
  "secure_of hw st =
     (if secure_init st then sunxi_soc_secure st
      else case base_of hw EFUSE_SID_BASE 1 of
        None \<Rightarrow> sunxi_soc_secure st
      | Some base \<Rightarrow> sunxi_smc_readl hw (base + ucast (fst (key_map hw ''secure_status'' (0, 0)))) AND 1)"

lemma and_1_cases: "x AND 1 = 0 \<or> x AND 1 = (1 :: u32)"
  by (simp add: and_one_eq mod2_eq_if)

lemma secure_of_cases:
  "sunxi_soc_secure st = 0 \<or> sunxi_soc_secure st = 1 \<Longrightarrow> secure_of hw st = 0 \<or> secure_of hw st = 1"
  using and_1_cases by (simp add: secure_of_def split: option.split)

lemma secure_step:
  "\<exists>r b. sunxi_soc_is_secure hw st = (secure_of hw st, (took 0 r st)\<lparr>sunxi_soc_secure := secure_of hw st, secure_init := b\<rparr>) \<and>
     0 \<le> r \<and> (b \<or> base_of hw EFUSE_SID_BASE 1 = None)"
proof (cases "secure_init st")
  case True
  then show ?thesis
    by (intro exI [of _ 0] exI [of _ True]) (simp add: sunxi_soc_is_secure_def sid_rd_soc_secure_status_def secure_of_def)
next
  case False
  show ?thesis
  proof (cases "base_of hw EFUSE_SID_BASE 1")
    case None
    then show ?thesis using False
      by (intro exI [of _ "nd_refs hw EFUSE_SID_BASE"] exI [of _ False])
        (simp add: sunxi_soc_is_secure_def sid_rd_soc_secure_status_def secure_of_def get_base_took took_def)
  next
    case (Some base)
    then show ?thesis using False base_of_refs [OF Some]
      by (intro exI [of _ "child_refs hw ''secure_status'' EFUSE_SID_BASE"] exI [of _ True])
        (simp add: sunxi_soc_is_secure_def sid_rd_soc_secure_status_def secure_of_def get_base_took key_map_took
          put_base_took took_def Let_def split: prod.split)
  qed
qed

text \<open>Asking for the secure state again gives the same answer.\<close>

lemma secure_of_again:
  "b \<or> base_of hw EFUSE_SID_BASE 1 = None \<Longrightarrow>
   sunxi_soc_secure st' = secure_of hw st \<Longrightarrow> secure_init st' = b \<Longrightarrow> secure_of hw st' = secure_of hw st"
  by (auto simp: secure_of_def split: option.split)

definition chipid_done :: "platform \<Rightarrow> sid \<Rightarrow> sid \<Rightarrow> bool" where
  "chipid_done hw st st' \<longleftrightarrow> chipid_init st' \<and>
     key_words hw ''chipid'' (sunxi_soc_chipid st) 16 (secure_of hw st) = Some (sunxi_soc_chipid st') \<and>
     sunxi_serial st' = [sunxi_soc_chipid st' ! 3, sunxi_soc_chipid st' ! 2,
       drop_bit 16 (sunxi_soc_chipid st' ! 1) AND 0xFFFF, sunxi_serial st ! 3]"

lemma list4_update: "length xs = 4 \<Longrightarrow> xs[0 := a, 1 := b, 2 := c] = [a, b, c, xs ! 3]"
  by (auto simp: numeral_eq_Suc length_Suc_conv)

lemma chipid_run:
  assumes "sid_inv st" "dt_ok hw" "\<not> chipid_init st"
  shows "\<exists>st'. sid_chipid_init hw st = Some st' \<and> sid_inv st' \<and> balanced st st' \<and> chipid_done hw st st'"
proof -
  let ?s = "secure_of hw st"
  obtain r b where s1: "sunxi_soc_is_secure hw st = (?s, (took 0 r st)\<lparr>sunxi_soc_secure := ?s, secure_init := b\<rparr>)"
    "0 \<le> r" "b \<or> base_of hw EFUSE_SID_BASE 1 = None" using secure_step [of hw st] by auto
  have sec: "?s = 0 \<or> ?s = 1" using assms(1) secure_of_cases by (simp add: sid_inv_def)
  obtain id where id: "key_words hw ''chipid'' (sunxi_soc_chipid st) 16 ?s = Some id"
    using key_words_fits [of 16 "sunxi_soc_chipid st" hw "''chipid''" ?s] assms(1) by (auto simp: sid_inv_def)
  have len: "length id = 4" using key_words_length [OF id] assms(1) by (simp add: sid_inv_def)
  let ?serial = "(sunxi_serial st)[0 := id ! 3, 1 := id ! 2, 2 := drop_bit 16 (id ! 1) AND 0xFFFF]"
  let ?reg = "ver_regs hw ''soc_bin'' (bin_reg st)"
  have sh: "reg_shift ?reg < 32" using ver_regs_shift [of hw "''soc_bin''" "bin_reg st"] assms(1,2)
    by (simp add: sid_inv_def dt_ok_def)
  define st1 where "st1 = took 0 (key_refs hw ''chipid'' ?s) ((took 0 r st)\<lparr>sunxi_soc_secure := ?s, secure_init := b\<rparr>)"
  define st2 where "st2 = took 0 (child_refs hw ''soc_bin'' SRAM_CTRL_BASE) (took 0 (child_refs hw ''chipid'' EFUSE_SID_BASE)
      (st1\<lparr>sunxi_soc_chipid := id, sunxi_serial := ?serial\<rparr>))"
  have f1: "bin_reg st1 = bin_reg st" "sunxi_serial st1 = sunxi_serial st" by (simp_all add: st1_def)
  obtain rc where reg: "get_soc_ver_regs hw ''soc_bin'' SRAM_CTRL_BASE (bin_reg st)
      (took 0 (child_refs hw ''chipid'' EFUSE_SID_BASE) (st1\<lparr>sunxi_soc_chipid := id, sunxi_serial := ?serial\<rparr>)) = (rc, ?reg, st2)"
    using ver_regs_took [of hw "''soc_bin''" "bin_reg st" "took 0 (child_refs hw ''chipid'' EFUSE_SID_BASE)
      (st1\<lparr>sunxi_soc_chipid := id, sunxi_serial := ?serial\<rparr>)"] unfolding st2_def by blast
  let ?st3 = "st2\<lparr>bin_reg := ?reg\<rparr>"
  have again: "secure_of hw ?st3 = ?s" by (rule secure_of_again [OF s1(3)]) (simp_all add: st2_def st1_def)
  obtain r2 b2 where s2: "sunxi_soc_is_secure hw ?st3 = (?s, (took 0 r2 ?st3)\<lparr>sunxi_soc_secure := ?s, secure_init := b2\<rparr>)" "0 \<le> r2"
    using secure_step [of hw ?st3] again by auto
  define st' where "st' = (took 0 (if base_of hw EFUSE_SID_BASE ?s = None then nd_refs hw EFUSE_SID_BASE else 0)
      ((took 0 r2 ?st3)\<lparr>sunxi_soc_secure := ?s, secure_init := b2\<rparr>))"
  obtain off mx where km: "key_map hw ''chipid'' (0, 0) = (off, mx)" by force
  obtain ty where run: "sid_chipid_init hw st =
      Some (st'\<lparr>sunxi_soc_bin := soc_bin_of ty (sunxi_soc_bin st'), chipid_init := True\<rparr>)"
    using assms(3) s1(1) id reg s2(1) sec sh
    by (simp add: sid_chipid_init_def read_key_took [OF sec] st1_def [symmetric] f1 key_map_took km rd_bits_took [OF sec sh] st'_def)
  have "?serial = [id ! 3, id ! 2, drop_bit 16 (id ! 1) AND 0xFFFF, sunxi_serial st ! 3]"
    using assms(1) by (intro list4_update) (simp add: sid_inv_def)
  then show ?thesis
    using assms(1) sec sh len s1(2) s2(2) id run
    by (simp add: sid_inv_def balanced_def chipid_done_def st'_def st2_def st1_def)
qed
text \<open>The other readers.\<close>

lemma secure_read:
  assumes "sid_inv st" "unat n \<le> 4 * length buf"
  shows "\<exists>st1 b st2. sunxi_soc_is_secure hw st = (secure_of hw st, st1) \<and>
    sunxi_soc_ftzone st1 = sunxi_soc_ftzone st \<and> sunxi_soc_rotpk_status st1 = sunxi_soc_rotpk_status st \<and>
    sid_read_key hw name buf n (secure_of hw st) st1 = Some (b, st2) \<and> length b = length buf \<and>
    sid_inv st2 \<and> balanced st st2"
proof -
  obtain r b where s1: "sunxi_soc_is_secure hw st = (secure_of hw st, (took 0 r st)\<lparr>sunxi_soc_secure := secure_of hw st, secure_init := b\<rparr>)"
    "0 \<le> r" using secure_step [of hw st] by auto
  have sec: "secure_of hw st = 0 \<or> secure_of hw st = 1" using assms(1) secure_of_cases by (simp add: sid_inv_def)
  obtain w where w: "key_words hw name buf n (secure_of hw st) = Some w" using key_words_fits assms(2) by blast
  show ?thesis
    using assms(1) s1 sec w key_words_length [OF w] by (simp add: read_key_took [OF sec] sid_inv_def balanced_def)
qed

lemma ft_zone_run:
  assumes "sid_inv st" shows "\<exists>st'. sid_ft_zone_init hw st = Some st' \<and> sid_inv st' \<and> balanced st st'"
proof (cases "ft_zone_init st")
  case False
  then show ?thesis
    using secure_read [of st 16 "sunxi_soc_ftzone st" hw "''ft_zone''"] assms
    by (auto simp: sid_ft_zone_init_def sid_inv_def balanced_def)
qed (use assms in \<open>simp add: sid_ft_zone_init_def balanced_def\<close>)

lemma rotpk_run:
  assumes "sid_inv st" shows "\<exists>st'. sid_rotpk_status_init hw st = Some st' \<and> sid_inv st' \<and> balanced st st'"
proof (cases "rotpk_init st")
  case False
  then show ?thesis
    using secure_read [of st 4 "[sunxi_soc_rotpk_status st]" hw "''rotpk''"] assms
    by (auto simp: sid_rotpk_status_init_def sid_inv_def balanced_def)
qed (use assms in \<open>simp add: sid_rotpk_status_init_def balanced_def\<close>)

lemma ver_regs_run:
  assumes "sid_inv st" "shift_ok hw name" "reg_shift reg < 32"
  shows "\<exists>rc st'. get_soc_ver_regs hw name SRAM_CTRL_BASE reg st = (rc, ver_regs hw name reg, st') \<and>
    sid_inv st' \<and> balanced st st' \<and> reg_shift (ver_regs hw name reg) < 32 \<and> ver_reg st' = ver_reg st"
  using ver_regs_took [of hw name reg st] ver_regs_shift [OF assms(2,3)] assms(1)
  by (auto simp: sid_inv_def balanced_def)

lemma rd_bits_run:
  assumes "sid_inv st" "shift < 32"
  shows "\<exists>v st'. sid_rd_bits hw c off shift msk 0 st = Some (v, st') \<and> sid_inv st' \<and> balanced st st' \<and> ver_reg st' = ver_reg st"
  using rd_bits_took [of 0 shift hw c off msk st] assms by (simp add: sid_inv_def balanced_def)

lemma ver_reg_run:
  assumes "sid_inv st" "dt_ok hw" shows "\<exists>st'. sid_rd_ver_reg hw i st = Some st' \<and> sid_inv st' \<and> balanced st st'"
proof -
  let ?reg = "ver_regs hw ''soc_ver'' (ver_reg st)"
  obtain rc st1 where 1: "get_soc_ver_regs hw ''soc_ver'' SRAM_CTRL_BASE (ver_reg st) st = (rc, ?reg, st1)"
      "sid_inv st1" "balanced st st1" "reg_shift ?reg < 32"
    using ver_regs_run [of st hw "''soc_ver''" "ver_reg st"] assms by (auto simp: sid_inv_def dt_ok_def)
  have "sid_inv (st1\<lparr>ver_reg := ?reg\<rparr>)" using 1 by (simp add: sid_inv_def)
  from rd_bits_run [OF this 1(4)] obtain v st2 where "sid_rd_bits hw SRAM_CTRL_BASE (reg_offset ?reg) (reg_shift ?reg) (reg_mask ?reg) 0
      (st1\<lparr>ver_reg := ?reg\<rparr>) = Some (v, st2)" "sid_inv st2" "balanced (st1\<lparr>ver_reg := ?reg\<rparr>) st2" by blast
  then show ?thesis using 1 by (auto simp: sid_rd_ver_reg_def sid_inv_def balanced_def)
qed

lemma ver_run:
  assumes "sid_inv st" "dt_ok hw" shows "\<exists>st'. sid_soc_ver_init hw st = Some st' \<and> sid_inv st' \<and> balanced st st'"
proof (cases "ver_init st")
  case False
  let ?reg = "ver_regs hw ''soc_id'' (id_reg st)"
  obtain rc st1 where 1: "get_soc_ver_regs hw ''soc_id'' SRAM_CTRL_BASE (id_reg st) st = (rc, ?reg, st1)"
      "sid_inv st1" "balanced st st1" "reg_shift ?reg < 32"
    using ver_regs_run [of st hw "''soc_id''" "id_reg st"] assms by (auto simp: sid_inv_def dt_ok_def)
  have "sid_inv (st1\<lparr>id_reg := ?reg\<rparr>)" using 1 by (simp add: sid_inv_def)
  from rd_bits_run [OF this 1(4)] obtain v st2 where 2: "sid_rd_bits hw EFUSE_SID_BASE (reg_offset ?reg) (reg_shift ?reg) (reg_mask ?reg) 0
      (st1\<lparr>id_reg := ?reg\<rparr>) = Some (v, st2)" "sid_inv st2" "balanced (st1\<lparr>id_reg := ?reg\<rparr>) st2" by blast
  from ver_reg_run [OF 2(2) assms(2), of v] obtain st3 where "sid_rd_ver_reg hw v st2 = Some st3" "sid_inv st3" "balanced st2 st3"
    by blast
  then show ?thesis using False 1 2
    by (auto simp: sid_soc_ver_init_def sid_rd_soc_ver_from_sid_def sid_inv_def balanced_def)
qed (use assms in \<open>simp add: sid_soc_ver_init_def balanced_def\<close>)

section \<open>Operations in any order\<close>

text \<open>The calls other drivers make.\<close>

datatype sid_op =
    Get_chipid
  | Get_serial
  | Get_chipid_str
  | Get_ft_zone_str
  | Get_rotpk_status_str
  | Is_secure
  | Get_bin
  | Get_ver
  | Efuse_readn "string option" "u32 list option" u32
  | Module_param "u32 list option" u32 u32

fun sid_exec :: "platform \<Rightarrow> sid_op \<Rightarrow> sid \<Rightarrow> sid option" where
  "sid_exec hw Get_chipid st = map_option snd (sunxi_get_soc_chipid hw st)"
| "sid_exec hw Get_serial st = map_option snd (sunxi_get_serial hw st)"
| "sid_exec hw Get_chipid_str st = map_option snd (sunxi_get_soc_chipid_str hw st)"
| "sid_exec hw Get_ft_zone_str st = map_option snd (sunxi_get_soc_ft_zone_str hw st)"
| "sid_exec hw Get_rotpk_status_str st = map_option snd (sunxi_get_soc_rotpk_status_str hw st)"
| "sid_exec hw Is_secure st = Some (snd (sunxi_soc_is_secure hw st))"
| "sid_exec hw Get_bin st = map_option snd (sunxi_get_soc_bin hw st)"
| "sid_exec hw Get_ver st = map_option snd (sunxi_get_soc_ver hw st)"
| "sid_exec hw (Efuse_readn name buf n) st = map_option (snd \<circ> snd) (sunxi_efuse_readn hw name buf n st)"
| "sid_exec hw (Module_param dst offset len) st =
     map_option (snd \<circ> snd) (sunxi_get_module_param_from_sid hw dst offset len st)"

fun sid_trace :: "(platform \<times> sid_op) list \<Rightarrow> sid \<Rightarrow> sid option" where
  "sid_trace [] st = Some st"
| "sid_trace ((hw, op) # ops) st = do { st' \<leftarrow> sid_exec hw op st; sid_trace ops st' }"

text \<open>
  What a call asks of its caller: the name of a key fits the local array, the buffer of a key has the
  announced size, and the buffer for module parameters has a word at the byte number \<open>len - 4\<close>, four times
  the room the announced length needs.
\<close>

fun op_ok :: "sid_op \<Rightarrow> bool" where
  "op_ok (Efuse_readn (Some name) (Some buf) n) = (length name \<le> 32 \<and> unat n \<le> 4 * length buf)"
| "op_ok (Module_param (Some buf) offset len) = (unat len < length buf + 4)"
| "op_ok _ = True"

lemma chipid_init_run:
  assumes "sid_inv st" "dt_ok hw" shows "\<exists>st'. sid_chipid_init hw st = Some st' \<and> sid_inv st' \<and> balanced st st'"
proof (cases "chipid_init st")
  case False
  then show ?thesis using chipid_run [OF assms] by blast
qed (use assms in \<open>simp add: sid_chipid_init_def balanced_def\<close>)

lemma readn_run:
  assumes "sid_inv st" "op_ok (Efuse_readn name buf n)"
  shows "\<exists>rc b st'. sunxi_efuse_readn hw name buf n st = Some (rc, b, st') \<and> sid_inv st' \<and> balanced st st'"
proof (cases name; cases buf)
  fix nm bf assume "name = Some nm" "buf = Some bf"
  then show ?thesis
    using assms secure_read [of st n bf hw "butlast nm"]
    by (auto simp: sunxi_efuse_readn_def balanced_def)
qed (use assms(1) in \<open>simp_all add: sunxi_efuse_readn_def balanced_def\<close>)

lemma param_loop_returns: "i + 4 * n < length dst + 4 \<Longrightarrow> \<exists>dst'. param_loop f n i dst = Some dst'"
  by (induction f n i dst rule: param_loop.induct) (auto simp: arr_set_def)

lemma module_param_run:
  assumes "sid_inv st" "op_ok (Module_param dst offset len)"
  shows "\<exists>rc b st'. sunxi_get_module_param_from_sid hw dst offset len st = Some (rc, b, st') \<and> sid_inv st' \<and> balanced st st'"
proof (cases dst)
  case (Some buf)
  then have "4 * (unat len div 4) < length buf + 4" using assms(2) by simp
  then have run: "\<exists>buf'. param_loop f (unat len div 4) 0 buf = Some buf'" for f by (intro param_loop_returns) simp
  show ?thesis
  proof (cases "base_of hw EFUSE_SID_BASE 0")
    case None
    then show ?thesis using Some assms(1)
      by (simp add: sunxi_get_module_param_from_sid_def get_base_took balanced_def sid_inv_def)
  next
    case base: (Some base)
    obtain buf' where "param_loop (\<lambda>i. sid_readl hw (base + 0x200 + ucast offset + of_nat i) 0) (unat len div 4) 0 buf = Some buf'"
      using run by blast
    then show ?thesis using Some base assms(1) base_of_mapped [OF _ base] base_of_refs [OF base]
      by (simp add: sunxi_get_module_param_from_sid_def get_base_took put_base_took balanced_def sid_inv_def)
  qed
qed (use assms(1) in \<open>simp add: sunxi_get_module_param_from_sid_def balanced_def\<close>)

lemma sid_exec_run:
  assumes "sid_inv st" "dt_ok hw" "op_ok op"
  shows "\<exists>st'. sid_exec hw op st = Some st' \<and> sid_inv st' \<and> balanced st st'"
proof (cases op)
  case Is_secure
  then show ?thesis
    using secure_step [of hw st] secure_of_cases [of st hw] assms(1) by (auto simp: sid_inv_def balanced_def)
next
  case (Efuse_readn name buf n)
  then show ?thesis using readn_run [OF assms(1), of name buf n hw] assms(3) by auto
next
  case (Module_param dst offset len)
  then show ?thesis using module_param_run [OF assms(1), of dst offset len hw] assms(3) by auto
qed (use chipid_init_run [OF assms(1,2)] ft_zone_run [OF assms(1), of hw] rotpk_run [OF assms(1), of hw]
       ver_run [OF assms(1,2)] in
     \<open>auto simp: sunxi_get_soc_chipid_def sunxi_get_serial_def sunxi_get_soc_chipid_str_def sunxi_get_soc_ft_zone_str_def
        sunxi_get_soc_rotpk_status_str_def sunxi_get_soc_bin_def sunxi_get_soc_ver_def\<close>)

lemma balanced_trans: "balanced a b \<Longrightarrow> balanced b c \<Longrightarrow> balanced a c"
  by (simp add: balanced_def)
section \<open>Readers that read once\<close>

locale one_time_reader =
  fixes rd :: "platform \<Rightarrow> sid \<Rightarrow> sid option"
    and ready :: "sid \<Rightarrow> bool"
  assumes skip: "ready st \<Longrightarrow> rd hw st = Some st"
    and sets: "rd hw st = Some st' \<Longrightarrow> ready st'"
begin

lemma again: "rd hw st = Some st' \<Longrightarrow> rd hw' st' = Some st'"
  by (rule skip) (rule sets)

text \<open>After a frame that keeps the flag the hardware is not asked either.\<close>

lemma later: "rd hw st = Some st' \<Longrightarrow> ready st'' = ready st' \<Longrightarrow> rd hw' st'' = Some st''"
  using sets by (intro skip) simp

end

interpretation chipid: one_time_reader sid_chipid_init chipid_init
  by unfold_locales (auto simp: sid_chipid_init_def Let_def split: prod.splits if_splits Option.bind_splits)

interpretation ft_zone: one_time_reader sid_ft_zone_init ft_zone_init
  by unfold_locales (auto simp: sid_ft_zone_init_def split: prod.splits if_splits Option.bind_splits)

interpretation rotpk: one_time_reader sid_rotpk_status_init rotpk_init
  by unfold_locales (auto simp: sid_rotpk_status_init_def split: prod.splits if_splits Option.bind_splits)

interpretation soc_ver: one_time_reader sid_soc_ver_init ver_init
  by unfold_locales (auto simp: sid_soc_ver_init_def split: if_splits Option.bind_splits)

definition same_id :: "sid \<Rightarrow> sid \<Rightarrow> bool" where
  "same_id st st' \<longleftrightarrow> chipid_init st' = chipid_init st \<and> sunxi_soc_chipid st' = sunxi_soc_chipid st \<and>
     sunxi_serial st' = sunxi_serial st \<and> sunxi_soc_bin st' = sunxi_soc_bin st"

lemma same_id_trans: "same_id a b \<Longrightarrow> same_id b c \<Longrightarrow> same_id a c"
  by (simp add: same_id_def)

lemma same_id_secure: "same_id st (snd (sunxi_soc_is_secure hw st))"
  using secure_step [of hw st] by (auto simp: same_id_def)

lemma read_key_frame: "sid_read_key hw name buf n sec st = Some (b, st') \<Longrightarrow> same_id st st'"
  by (auto simp: sid_read_key_def get_base_took key_map_took put_base_took same_id_def
      split: option.splits prod.splits Option.bind_splits)

lemma rd_bits_frame: "sid_rd_bits hw c off sh msk sec st = Some (v, st') \<Longrightarrow> same_id st st'"
  by (auto simp: sid_rd_bits_def get_base_took put_base_took same_id_def Let_def
      split: option.splits if_splits)

lemma ver_regs_frame: "get_soc_ver_regs hw name SRAM_CTRL_BASE reg st = (rc, reg', st') \<Longrightarrow> same_id st st'"
  using ver_regs_took [of hw name reg st] by (auto simp: same_id_def)

lemma ver_reg_frame: "sid_rd_ver_reg hw i st = Some st' \<Longrightarrow> same_id st st'"
  by (auto simp: sid_rd_ver_reg_def Let_def split: prod.splits Option.bind_splits
      dest!: rd_bits_frame ver_regs_frame) (simp_all add: same_id_def)

lemma ver_frame: "sid_soc_ver_init hw st = Some st' \<Longrightarrow> same_id st st'"
  by (auto simp: sid_soc_ver_init_def sid_rd_soc_ver_from_sid_def Let_def split: prod.splits if_splits Option.bind_splits
      dest!: rd_bits_frame ver_regs_frame ver_reg_frame) (simp_all add: same_id_def)

lemma ft_zone_frame: "sid_ft_zone_init hw st = Some st' \<Longrightarrow> same_id st st'"
  using same_id_secure [of st hw]
  by (auto simp: sid_ft_zone_init_def split: prod.splits if_splits Option.bind_splits
      dest!: read_key_frame) (simp_all add: same_id_def)

lemma rotpk_frame: "sid_rotpk_status_init hw st = Some st' \<Longrightarrow> same_id st st'"
  using same_id_secure [of st hw]
  by (auto simp: sid_rotpk_status_init_def split: prod.splits if_splits Option.bind_splits
      dest!: read_key_frame) (simp_all add: same_id_def)

lemma readn_frame: "sunxi_efuse_readn hw name buf n st = Some (rc, b, st') \<Longrightarrow> same_id st st'"
  using same_id_secure [of st hw]
  by (auto simp: sunxi_efuse_readn_def split: option.splits prod.splits if_splits Option.bind_splits
      dest!: read_key_frame) (simp_all add: same_id_def)

lemma module_param_frame: "sunxi_get_module_param_from_sid hw dst offset len st = Some (rc, b, st') \<Longrightarrow> same_id st st'"
  by (auto simp: sunxi_get_module_param_from_sid_def get_base_took put_base_took same_id_def
      split: option.splits prod.splits if_splits Option.bind_splits)

lemma exec_frame:
  assumes "chipid_init st" "sid_exec hw op st = Some st'"
  shows "same_id st st'"
  using assms
  by (cases op)
    (auto simp: sunxi_get_soc_chipid_def sunxi_get_serial_def sunxi_get_soc_chipid_str_def sunxi_get_soc_ft_zone_str_def
      sunxi_get_soc_rotpk_status_str_def sunxi_get_soc_bin_def sunxi_get_soc_ver_def same_id_secure chipid.skip
      split: Option.bind_splits dest: ver_frame ft_zone_frame rotpk_frame readn_frame module_param_frame,
      simp_all add: same_id_def)

lemma trace_frame: "chipid_init st \<Longrightarrow> sid_trace ops st = Some st' \<Longrightarrow> same_id st st'"
proof (induction ops st rule: sid_trace.induct)
  case (2 hw op ops st)
  then obtain st1 where st1: "sid_exec hw op st = Some st1" "sid_trace ops st1 = Some st'"
    by (auto split: Option.bind_splits)
  note f = exec_frame [OF 2(2) st1(1)]
  show ?case
    using 2(1) [OF st1(1) _ st1(2)] f 2(2) same_id_trans [OF f] by (simp add: same_id_def)
qed (simp add: same_id_def)

lemma param_loop_fault: "length dst \<le> i + 4 * n \<Longrightarrow> param_loop f (Suc n) i dst = None"
proof (induction n arbitrary: i dst)
  case (Suc n)
  then have "param_loop f (Suc n) (i + 4) (dst[i := f i]) = None" by (intro Suc.IH) simp
  then show ?case by (subst param_loop.simps) (simp add: arr_set_def)
qed (simp add: arr_set_def)

section \<open>Properties\<close>

text \<open>
  C29. Whatever calls of the exported functions other drivers make, in whatever order and whatever the
  registers and the secure monitor answer, every call returns, the invariant of the driver holds
  afterwards, and every register mapping that was made has been given back. The device tree must not give
  a shift of 32 or more for the version fields (\<open>dt_ok\<close>), and the callers keep to the sizes of \<open>op_ok\<close>:
  names of keys of up to 32 characters, buffers of the announced size, and, since the code indexes words
  with a byte counter, a buffer for module parameters that is four times as long as announced. What
  happens with a buffer of the announced length is shown below.
\<close>

theorem sid_calls_safe:
  assumes "sid_inv st" "list_all (\<lambda>(hw, op). dt_ok hw \<and> op_ok op) ops"
  shows "\<exists>st'. sid_trace ops st = Some st' \<and> sid_inv st' \<and> mappings st' = mappings st"
  using assms
proof (induction ops arbitrary: st)
  case (Cons x ops)
  obtain hw op where x: "x = (hw, op)" by force
  from Cons.prems x obtain st1 where st1: "sid_exec hw op st = Some st1" "sid_inv st1" "balanced st st1"
    using sid_exec_run [of st hw op] by auto
  show ?case using Cons.IH [OF st1(2)] Cons.prems(2) st1 x by (simp add: balanced_def)
qed simp

text \<open>
  C28. The identity of the chip never changes: once \<open>sunxi_get_soc_chipid\<close> has answered, it gives the same answer
  after any calls and whatever the hardware and the device tree say by then.
\<close>

theorem chipid_stable:
  assumes "sunxi_get_soc_chipid hw st = Some (chipid, st1)" "sid_trace ops st1 = Some st2"
  shows "sunxi_get_soc_chipid hw' st2 = Some (chipid, st2)"
proof -
  from assms(1) have r: "sid_chipid_init hw st = Some st1" "chipid = concat (map le_bytes4 (sunxi_soc_chipid st1))"
    by (auto simp: sunxi_get_soc_chipid_def split: Option.bind_splits)
  have f: "same_id st1 st2" using chipid.sets [OF r(1)] assms(2) by (rule trace_frame)
  then show ?thesis
    using r chipid.later [OF r(1), of st2 hw'] by (simp add: sunxi_get_soc_chipid_def same_id_def)
qed

text \<open>
  The identity is what the fuses hold: with the key \<open>chipid\<close> of at least 16 bytes in the device tree, the
  first call returns the four words at its offset, the low byte first, read through the secure monitor on
  a secure chip and from the registers on another.
\<close>

theorem chipid_value:
  assumes "sid_inv st" "dt_ok hw" "\<not> chipid_init st"
    and "base_of hw EFUSE_SID_BASE (secure_of hw st) = Some base"
    and "child_of hw ''chipid'' EFUSE_SID_BASE = Some ch" "ch ''offset'' = Some off" "ch ''size'' = Some sz" "16 \<le> sz"
  shows "\<exists>st'. sunxi_get_soc_chipid hw st =
    Some (concat (map (\<lambda>k. le_bytes4 (sid_readl hw (base + ucast off + of_nat (4 * k)) (secure_of hw st))) [0, 1, 2, 3]), st')"
proof -
  obtain st' where st': "sid_chipid_init hw st = Some st'" "chipid_done hw st st'" using chipid_run [OF assms(1-3)] by blast
  have "min 16 sz = 16" using assms(8) by (simp add: min_def)
  moreover have "[0..<4] = [0, 1, 2, 3 :: nat]" by (simp add: upt_rec)
  ultimately have "sunxi_soc_chipid st' = map (\<lambda>k. sid_readl hw (base + ucast off + of_nat (4 * k)) (secure_of hw st)) [0, 1, 2, 3]"
    using st'(2) assms(1,4-7)
    by (simp add: chipid_done_def key_words_def key_map_def of_property_read_u32_def sid_inv_def)
  then show ?thesis using st'(1) by (auto simp: sunxi_get_soc_chipid_def)
qed
text \<open>
  \<open>sunxi_get_module_param_from_sid\<close> indexes the words of its buffer with a counter of bytes: on a buffer of
  the \<open>len\<close> bytes it is asked for, it stores outside of it as soon as there is more than one word.
\<close>

theorem module_param_overflows:
  assumes "base_of hw EFUSE_SID_BASE 0 = Some base" "len AND 3 = 0" "4 < len" "length buf = unat len div 4"
  shows "sunxi_get_module_param_from_sid hw (Some buf) offset len st = None"
proof -
  have "4 < unat len" using assms(3) by (simp add: word_less_nat_alt)
  moreover have "unat len mod 4 = 0"
  proof -
    have "len AND 3 = len mod 4" using take_bit_eq_mask [of 2 len] by (simp add: take_bit_eq_mod mask_eq_exp_minus_1)
    then show ?thesis using assms(2) by (simp add: unat_mod unat_eq_0 [symmetric] del: unat_eq_0)
  qed
  ultimately have "2 \<le> unat len div 4" by presburger
  then obtain n where n: "unat len div 4 = Suc n" "0 < n" by (cases "unat len div 4") auto
  then show ?thesis
    using assms param_loop_fault [of buf 0 n]
    by (simp add: sunxi_get_module_param_from_sid_def get_base_took del: param_loop.simps)
qed

text \<open>
  C30. The fuse device leaves nothing of a key behind: whatever an \<open>ioctl\<close> was, after it has returned the
  buffer of the driver and its copy of the request are zero, and no command is pending.
\<close>

theorem efuse_ioctl_scrubs:
  assumes "sunxi_efuse_ioctl env num dev = Some (err, bytes, dev')"
  shows "\<exists>fc. nfcr dev' = Some fc \<and> temp_data fc = Some (replicate SEC_BLK_SIZE 0) \<and> key_store fc = zero_key \<and> cmd fc = -1 \<and>
    (err \<noteq> 0 \<longrightarrow> bytes = None)"
proof -
  have out: "efuse_out fc = Some fc' \<Longrightarrow> temp_data fc' = Some (replicate SEC_BLK_SIZE 0) \<and> key_store fc' = zero_key \<and> cmd fc' = -1"
    for fc fc' by (auto simp: efuse_out_def split: option.splits)
  have rd: "efuse_read_cmd env fc = Some (e, bs, fc') \<Longrightarrow> e \<noteq> 0 \<Longrightarrow> bs = None" for fc e bs fc'
    by (auto simp: efuse_read_cmd_def split: Option.bind_splits if_splits)
  show ?thesis
    using assms
    by (auto simp: sunxi_efuse_ioctl_def Let_def split: Option.bind_splits option.splits if_splits dest!: out)
      (use rd in blast)+
qed

text \<open>
  A read stays inside the buffer exactly if the range of the request does: the comparison with the result
  of the monitor does not see a range whose end wraps around, nor a negative result.
\<close>

theorem efuse_read_bounds:
  assumes "nfcr dev = Some fc" "temp_data fc = Some tmp" "user_key env = Some key" "aw_smc env"
    and "\<And>nm. length (monitor_fill env nm tmp) = SEC_BLK_SIZE"
    and "key_offset key + key_len key \<le> arm_svc_efuse_read (monitor env) (name_phys env) (temp_phys env)"
  shows "sunxi_efuse_ioctl env SUNXI_EFUSE_READ dev = None \<longleftrightarrow> SEC_BLK_SIZE < unat (key_offset key) + unat (key_len key)"
  using assms
  by (auto simp: sunxi_efuse_ioctl_def efuse_read_cmd_def sunxi_efuse_work_def temp_slice_def efuse_out_def not_less Let_def
      split: Option.bind_splits)
section \<open>A concrete chip\<close>

text \<open>A chip that is not secure, with its identity at offset \<open>0x200\<close> of the fuses.\<close>

definition demo_child :: "string \<Rightarrow> (string \<Rightarrow> u32 option) option" where
  "demo_child name =
     (if name = ''chipid'' then Some (\<lambda>p. if p = ''offset'' then Some 0x200 else if p = ''size'' then Some 16 else None)
      else None)"

definition demo_platform :: platform where
  "demo_platform = \<lparr>compatible_node = (\<lambda>c. if c = EFUSE_SID_BASE
       then Some \<lparr>iomap = 0x3006000, res_start = Some 0x3006000, children = demo_child\<rparr> else None),
     readl = (\<lambda>a. ucast a), arm_smccc_smc = (\<lambda>_ _ _ _. \<lparr>a0 = 0, a1 = 0, a2 = 0, a3 = 0\<rparr>), soc_name = ''sun50iw9''\<rparr>"

lemma demo_ok: "dt_ok demo_platform" "sid_inv sid_boot"
  by (simp_all add: dt_ok_def shift_ok_def child_of_def demo_platform_def SRAM_CTRL_BASE_def EFUSE_SID_BASE_def
      sid_inv_def sid_boot_def zero_reg_def)

lemma demo_secure: "secure_of demo_platform sid_boot = 0"
  by (simp add: secure_of_def sid_boot_def demo_platform_def base_of_def sunxi_smc_readl_def)

lemma demo_base: "base_of demo_platform EFUSE_SID_BASE 0 = Some 0x3006000"
  by (simp add: base_of_def demo_platform_def)

lemma demo_key: "child_of demo_platform ''chipid'' EFUSE_SID_BASE =
    Some (\<lambda>p. if p = ''offset'' then Some 0x200 else if p = ''size'' then Some 16 else None)"
  by (simp add: child_of_def demo_platform_def demo_child_def)

theorem sid_calls_safe_witness:
  "sid_inv sid_boot \<and> list_all (\<lambda>(hw, op). dt_ok hw \<and> op_ok op) [(demo_platform, Get_chipid), (demo_platform, Module_param (Some [0]) 0 4)] \<and>
   (\<exists>st'. sid_trace [(demo_platform, Get_chipid), (demo_platform, Module_param (Some [0]) 0 4)] sid_boot = Some st' \<and> sid_inv st' \<and>
      mappings st' = mappings sid_boot)"
  using sid_calls_safe [of sid_boot "[(demo_platform, Get_chipid), (demo_platform, Module_param (Some [0]) 0 4)]"] demo_ok
  by (simp del: sid_trace.simps)

theorem chipid_value_witness:
  "\<exists>st'. sunxi_get_soc_chipid demo_platform sid_boot =
    Some (concat (map (\<lambda>k. le_bytes4 (sid_readl demo_platform (0x3006000 + ucast (0x200 :: u32) + of_nat (4 * k)) 0)) [0, 1, 2, 3]), st')"
  using chipid_value [OF demo_ok(2,1), of "0x3006000" _ "0x200" 16] demo_secure demo_base demo_key
  by (simp add: sid_boot_def)

theorem chipid_stable_witness:
  "\<exists>chipid st1 st2. sunxi_get_soc_chipid demo_platform sid_boot = Some (chipid, st1) \<and>
     sid_trace [(demo_platform, Get_ver)] st1 = Some st2 \<and>
     sunxi_get_soc_chipid (demo_platform\<lparr>readl := \<lambda>_. 0\<rparr>) st2 = Some (chipid, st2)"
proof -
  obtain st1 where r: "sid_chipid_init demo_platform sid_boot = Some st1" "sid_inv st1"
    using chipid_init_run [OF demo_ok(2,1)] by blast
  obtain st2 where t: "sid_trace [(demo_platform, Get_ver)] st1 = Some st2"
    using sid_exec_run [OF r(2) demo_ok(1), of Get_ver] by auto
  have "sunxi_get_soc_chipid demo_platform sid_boot = Some (concat (map le_bytes4 (sunxi_soc_chipid st1)), st1)"
    using r(1) by (simp add: sunxi_get_soc_chipid_def)
  from this chipid_stable [OF this t] t show ?thesis by blast
qed

theorem module_param_overflows_witness:
  "base_of demo_platform EFUSE_SID_BASE 0 = Some 0x3006000 \<and>
   sunxi_get_module_param_from_sid demo_platform (Some [0, 0]) 0 8 sid_boot = None"
  using module_param_overflows [of demo_platform "0x3006000" 8 "[0, 0]" 0 sid_boot] demo_base by simp

definition demo_dev :: efuse_dev where
  "demo_dev = snd (sunxi_efuse_init 0 True True \<lparr>nfcr = None, temp_key = zero_key, registered = False\<rparr>)"

definition demo_env :: efuse_env where
  "demo_env = \<lparr>monitor = demo_platform\<lparr>arm_smccc_smc := \<lambda>_ _ _ _. \<lparr>a0 = 16, a1 = 0, a2 = 0, a3 = 0\<rparr>\<rparr>, aw_smc = True,
     name_phys = 0, temp_phys = 0, temp_key_phys = 0, monitor_fill = (\<lambda>_ tmp. replicate 16 0xA5 @ drop 16 tmp),
     user_key = Some (zero_key\<lparr>key_len := 8, key_offset := -4\<rparr>), user_read = (\<lambda>_ _. None), user_writable = (\<lambda>_ _. True)\<rparr>"

theorem efuse_ioctl_scrubs_witness:
  "\<exists>dev'. sunxi_efuse_ioctl demo_env 0 demo_dev = Some (0, None, dev') \<and>
     (\<exists>fc. nfcr dev' = Some fc \<and> temp_data fc = Some (replicate SEC_BLK_SIZE 0) \<and> key_store fc = zero_key \<and> cmd fc = -1)"
proof -
  obtain dev' where r: "sunxi_efuse_ioctl demo_env 0 demo_dev = Some (0, None, dev')"
    by (auto simp: sunxi_efuse_ioctl_def demo_env_def demo_dev_def sunxi_efuse_init_def SUNXI_EFUSE_READ_def
        SUNXI_EFUSE_WRITE_def efuse_out_def)
  from this efuse_ioctl_scrubs [OF this] show ?thesis by blast
qed

text \<open>The request for the 8 bytes at offset \<open>2 ^ 32 - 4\<close> passes the comparison and reads outside of the buffer.\<close>

theorem efuse_read_bounds_witness:
  "sunxi_efuse_ioctl demo_env SUNXI_EFUSE_READ demo_dev = None"
proof -
  obtain fc tmp where fc: "nfcr demo_dev = Some fc" "temp_data fc = Some tmp" "tmp = replicate SEC_BLK_SIZE 0"
    by (simp add: demo_dev_def sunxi_efuse_init_def)
  have u: "user_key demo_env = Some (zero_key\<lparr>key_len := 8, key_offset := -4\<rparr>)" "aw_smc demo_env"
    by (simp_all add: demo_env_def)
  have fill: "length (monitor_fill demo_env nm tmp) = SEC_BLK_SIZE" for nm
    using fc by (simp add: demo_env_def SEC_BLK_SIZE_def)
  have cmp: "arm_svc_efuse_read (monitor demo_env) (name_phys demo_env) (temp_phys demo_env) = 16"
    by (simp add: demo_env_def arm_svc_efuse_read_def)
  show ?thesis
    using efuse_read_bounds [OF fc(1,2) u(1,2) fill] cmp by (simp add: zero_key_def SEC_BLK_SIZE_def)
qed


end
