(* ===== verification/Sunxi_Sysinfo.thy ===== *)
theory Sunxi_Sysinfo
  imports Sunxi_Sid
begin

text \<open>
  The chip information for user space, \<open>zhiyuan/kernel/driver/drivers/smc/sunxi-sysinfo.c\<close>: the device
  \<open>/dev/sunxi_soc_info\<close> and the files \<open>sys_info\<close> and \<open>key_info\<close> of the class \<open>sunxi_info\<close>, on top of the
  driver of \<open>Sunxi_Sid\<close>.

  \<^item> \<open>sysinfo\<close> is the name of the key that was asked for last and the state of the fuse driver; \<open>sys_reg\<close> is
    what the module has registered.
  \<^item> A file is the text its handler prints; the kernel gives it one page.
\<close>

unbundle bit_operations_syntax

record sysinfo =
  sys_key_name :: string
  sys_sid :: sid

definition PAGE_SIZE :: nat where
  "PAGE_SIZE = 4096"

definition SUNXI_KEY_NAME_LEN :: nat where
  "SUNXI_KEY_NAME_LEN = 32"

section \<open>The device\<close>

text \<open>A string in the array \<open>id\<close> of 17 zero bytes; \<open>copy_to_user\<close> leaves \<open>rest n\<close> of \<open>n\<close> bytes uncopied.\<close>

definition id_array :: "string \<Rightarrow> byte list" where
  "id_array s = map of_char s @ replicate (17 - length s) 0"

definition copy_id :: "(nat \<Rightarrow> nat) \<Rightarrow> nat \<Rightarrow> string \<times> sid \<Rightarrow> int \<times> byte list option \<times> sid" where
  "copy_id rest n r = (int (rest n), Some (take (n - rest n) (id_array (fst r))), snd r)"

definition soc_info_ioctl ::
    "platform \<Rightarrow> (nat \<Rightarrow> nat) \<Rightarrow> u32 \<Rightarrow> sid \<Rightarrow> (int \<times> byte list option \<times> sid) option" where
  "soc_info_ioctl hw rest ioctl_num st =
     (if ioctl_num = 0 then let (s, st) = sunxi_soc_is_secure hw st in Some (sint s, None, st)
      else if ioctl_num = 1 then do { (v, st) \<leftarrow> sunxi_get_soc_ver hw st; Some (sint v, None, st) }
      else if ioctl_num = 3 then map_option (copy_id rest 8) (sunxi_get_soc_chipid_str hw st)
      else if ioctl_num = 4 then map_option (copy_id rest 16) (sunxi_get_soc_chipid_str hw st)
      else if ioctl_num = 5 then map_option (copy_id rest 8) (sunxi_get_soc_ft_zone_str hw st)
      else if ioctl_num = 6 then map_option (copy_id rest 8) (sunxi_get_soc_rotpk_status_str hw st)
      else Some (-22, None, st))"

section \<open>The files\<close>

text \<open>\<open>%#x\<close>\<close>

definition fmt_alt_hex :: "nat \<Rightarrow> string" where
  "fmt_alt_hex n = (if n = 0 then ''0'' else ''0x'' @ hex_digits False n)"

definition info_line :: "string \<Rightarrow> string \<Rightarrow> string" where
  "info_line label text = label @ text @ [newline]"

definition sys_info_show :: "platform \<Rightarrow> sysinfo \<Rightarrow> (string \<times> sysinfo) option" where
  "sys_info_show hw si =
     (let plat = info_line ''sunxi_platform    : '' (snd (sunxi_get_platform hw 129));
          (sec, st) = sunxi_soc_is_secure hw (sys_sid si) in
      do {
        (secure, st) \<leftarrow>
          (if sec \<noteq> 0 then
             do { (s, st) \<leftarrow> sunxi_get_soc_rotpk_status_str hw st;
                  Some (info_line ''sunxi_secure      : '' ''secure'' @ info_line ''sunxi_rotpk       : '' s, st) }
           else Some (info_line ''sunxi_secure      : '' ''normal'', st));
        (_, st) \<leftarrow> sunxi_get_serial hw st;
        let serial = info_line ''sunxi_serial      : '' (concat (map (fmt_hex False 8 \<circ> unat) (sunxi_serial st)));
        (type, st) \<leftarrow> sunxi_get_soc_chipid_str hw st;
        (ver, st) \<leftarrow> sunxi_get_soc_ver hw st;
        Some (plat @ secure @ serial @ info_line ''sunxi_chiptype    : '' type @
              info_line ''sunxi_batchno     : '' (fmt_alt_hex (unat ver)), si\<lparr>sys_sid := st\<rparr>) })"

text \<open>The loop over the words of the key: from the second on a zero ends it.\<close>

fun key_text :: "nat \<Rightarrow> u32 list \<Rightarrow> string" where
  "key_text i [] = []"
| "key_text i (w # ws) =
     (if 0 < i \<and> w = 0 then []
      else (if 0 < i \<and> i mod 8 = 0 then [newline] else []) @ fmt_hex False 8 (unat w) @ '' '' @ key_text (Suc i) ws)"

text \<open>
  \<open>vmalloc (256)\<close> hands out a whole page of 1024 words, \<open>page\<close>; the first 256 of them are cleared. \<open>None\<close> for
  the page is a failed allocation.
\<close>

definition key_info_show :: "platform \<Rightarrow> u32 list option \<Rightarrow> sysinfo \<Rightarrow> (int \<times> string \<times> sysinfo) option" where
  "key_info_show hw page si =
     (case page of
        None \<Rightarrow> Some (-12, [], si)
      | Some words \<Rightarrow>
          if length words < 256 then None
          else do {
            (_, data, st) \<leftarrow> sunxi_efuse_readn hw (Some (sys_key_name si)) (Some (replicate 256 0 @ drop 256 words)) 256 (sys_sid si);
            let text = key_text 0 (take 256 (the data)) @ [newline];
            Some (int (length text), text, si\<lparr>sys_sid := st\<rparr>) })"

definition key_info_store :: "string \<Rightarrow> nat \<Rightarrow> sysinfo \<Rightarrow> int \<times> sysinfo" where
  "key_info_store buf count si =
     (if SUNXI_KEY_NAME_LEN \<le> count then (-22, si) else (int count, si\<lparr>sys_key_name := take count buf\<rparr>))"

section \<open>The module\<close>

record sys_reg =
  class_reg :: bool
  class_files :: nat
  misc_reg :: bool

fun create_files :: "int list \<Rightarrow> sys_reg \<Rightarrow> int \<times> sys_reg" where
  "create_files [] r = (0, r)"
| "create_files (rc # rcs) r = (if rc \<noteq> 0 then (rc, r) else create_files rcs (r\<lparr>class_files := Suc (class_files r)\<rparr>))"

definition unregister_class :: "sys_reg \<Rightarrow> sys_reg" where
  "unregister_class r = r\<lparr>class_reg := False, class_files := 0\<rparr>"

text \<open>\<open>c\<close>, \<open>f1\<close>, \<open>f2\<close> and \<open>m\<close> are the results of the registrations.\<close>

definition sunxi_sys_info_init :: "int \<Rightarrow> int \<Rightarrow> int \<Rightarrow> int \<Rightarrow> sys_reg \<Rightarrow> int \<times> sys_reg" where
  "sunxi_sys_info_init c f1 f2 m r =
     (if c \<noteq> 0 then (c, r)
      else case create_files [f1, f2] (r\<lparr>class_reg := True\<rparr>) of
        (rc, r) \<Rightarrow>
          if rc \<noteq> 0 then (rc, unregister_class r)
          else if m \<noteq> 0 then (m, unregister_class r)
          else (0, r\<lparr>misc_reg := True\<rparr>))"

definition sunxi_sys_info_exit :: "sys_reg \<Rightarrow> sys_reg" where
  "sunxi_sys_info_exit r = unregister_class (r\<lparr>misc_reg := False\<rparr>)"

section \<open>Facts\<close>

lemma unat_u32_lt: "unat (w :: u32) < 16 ^ 8"
  using unsigned_less [of w] by simp

lemma fmt_u32_length: "length (fmt_hex False 8 (unat (w :: u32))) = 8"
  using unat_u32_lt by (intro fmt_hex_length) simp_all

lemma fmt_alt_hex_length: "length (fmt_alt_hex (unat (w :: u32))) \<le> 10"
  using hex_digits_length [OF unat_u32_lt [of w], of False] by (simp add: fmt_alt_hex_def)

lemma dec_digit: "n < 10 \<Longrightarrow> length (fmt_dec n) = 1"
  by (simp add: fmt_dec_def dec_digits.simps)

lemma bit_text_length: "length (fmt_dec (unat (w AND 1 :: u32))) = Suc 0"
  using and_1_cases [of w] dec_digit by auto

lemma key_text_length: "length (key_text i ws) \<le> 10 * length ws"
  by (induction i ws rule: key_text.induct) (auto simp: fmt_u32_length)

lemma serial_length: "length (concat (map (fmt_hex False 8 \<circ> unat) (ws :: u32 list))) = 8 * length ws"
  by (induction ws) (simp_all add: fmt_u32_length)

lemma getters_run:
  assumes "sid_inv st"
  shows "\<exists>s st'. sunxi_get_soc_rotpk_status_str hw st = Some (s, st') \<and> length s = 1 \<and> sid_inv st'"
    and "dt_ok hw \<Longrightarrow> \<exists>b st'. sunxi_get_serial hw st = Some (b, st') \<and> sid_inv st'"
    and "dt_ok hw \<Longrightarrow> \<exists>s st'. sunxi_get_soc_chipid_str hw st = Some (s, st') \<and> length s = 8 \<and> sid_inv st'"
    and "dt_ok hw \<Longrightarrow> \<exists>v st'. sunxi_get_soc_ver hw st = Some (v, st') \<and> sid_inv st'"
  using rotpk_run [OF assms, of hw] chipid_init_run [OF assms, of hw] ver_run [OF assms, of hw]
  by (auto simp: sunxi_get_soc_rotpk_status_str_def sunxi_get_serial_def sunxi_get_soc_chipid_str_def
      sunxi_get_soc_ver_def bit_text_length fmt_u32_length)

lemma secure_run:
  "sid_inv st \<Longrightarrow> \<exists>sec st'. sunxi_soc_is_secure hw st = (sec, st') \<and> sid_inv st'"
  using secure_step [of hw st] secure_of_cases [of st hw] by (auto simp: sid_inv_def)

section \<open>Properties\<close>

text \<open>
  Reading a key through \<open>key_info\<close>: whatever name was stored, the handler returns, and what it prints fits
  in the page that the kernel gives it.
\<close>

theorem key_info_fits:
  assumes "sid_inv (sys_sid si)" "length (sys_key_name si) < SUNXI_KEY_NAME_LEN" "length words = 1024"
  shows "\<exists>n text si'. key_info_show hw (Some words) (snd (key_info_store buf count si)) = Some (n, text, si') \<and>
    n = int (length text) \<and> length text \<le> PAGE_SIZE \<and> sid_inv (sys_sid si')"
proof -
  define si1 where "si1 = snd (key_info_store buf count si)"
  have k: "length (sys_key_name si1) \<le> 32" "sys_sid si1 = sys_sid si"
    using assms(2) by (auto simp: si1_def key_info_store_def SUNXI_KEY_NAME_LEN_def)
  let ?b = "replicate 256 0 @ drop 256 words"
  obtain rc b st' where r: "sunxi_efuse_readn hw (Some (sys_key_name si1)) (Some ?b) 256 (sys_sid si) = Some (rc, b, st')" "sid_inv st'"
    using readn_run [OF assms(1), of "Some (sys_key_name si1)" "Some ?b" 256 hw] k assms(3) by auto
  have "length (key_text 0 (take 256 (the b))) \<le> 10 * 256"
    using key_text_length [of 0 "take 256 (the b)"] by simp
  then show ?thesis
    using r k assms(3) by (simp add: key_info_show_def si1_def [symmetric] PAGE_SIZE_def Let_def)
qed

theorem key_info_fits_witness:
  "\<exists>n text si'. key_info_show demo_platform (Some (replicate 1024 7))
      (snd (key_info_store (''chipid'' @ [newline]) 7 \<lparr>sys_key_name = [], sys_sid = sid_boot\<rparr>)) = Some (n, text, si') \<and>
    n = int (length text) \<and> length text \<le> PAGE_SIZE \<and> sid_inv (sys_sid si')"
  by (rule key_info_fits) (simp_all add: demo_ok SUNXI_KEY_NAME_LEN_def)

text \<open>The summary in \<open>sys_info\<close> is complete and fits in its page as well.\<close>

theorem sys_info_fits:
  assumes "sid_inv (sys_sid si)" "dt_ok hw"
  shows "\<exists>text si'. sys_info_show hw si = Some (text, si') \<and> length text \<le> PAGE_SIZE \<and> sid_inv (sys_sid si')"
proof -
  obtain sec st1 where 1: "sunxi_soc_is_secure hw (sys_sid si) = (sec, st1)" "sid_inv st1" using secure_run assms(1) by blast
  define part where "part = (if sec \<noteq> 0 then
             do { (s, st) \<leftarrow> sunxi_get_soc_rotpk_status_str hw st1;
                  Some (info_line ''sunxi_secure      : '' ''secure'' @ info_line ''sunxi_rotpk       : '' s, st) }
           else Some (info_line ''sunxi_secure      : '' ''normal'', st1))"
  obtain t2 st2 where 2: "part = Some (t2, st2)" "length t2 \<le> 100" "sid_inv st2"
    using getters_run(1) [OF 1(2), of hw] 1(2) by (cases "sec = 0") (auto simp: part_def info_line_def)
  obtain b st3 where 3: "sunxi_get_serial hw st2 = Some (b, st3)" "sid_inv st3" using getters_run(2) [OF 2(3) assms(2)] by blast
  obtain t4 st4 where 4: "sunxi_get_soc_chipid_str hw st3 = Some (t4, st4)" "length t4 = 8" "sid_inv st4"
    using getters_run(3) [OF 3(2) assms(2)] by blast
  obtain v st5 where 5: "sunxi_get_soc_ver hw st4 = Some (v, st5)" "sid_inv st5" using getters_run(4) [OF 4(3) assms(2)] by blast
  have "length (sunxi_serial st3) = 4" using 3(2) by (simp add: sid_inv_def)
  then have ser: "length (concat (map (fmt_hex False 8 \<circ> unat) (sunxi_serial st3))) = 32" using serial_length by simp
  show ?thesis
    using 1(1) 2(1,2) 3(1) 4(1,2) 5 ser fmt_alt_hex_length [of v]
    by (simp add: sys_info_show_def part_def [symmetric] info_line_def sunxi_get_platform_def PAGE_SIZE_def)
qed

theorem sys_info_fits_witness:
  "\<exists>text si'. sys_info_show demo_platform \<lparr>sys_key_name = [], sys_sid = sid_boot\<rparr> = Some (text, si') \<and>
     length text \<le> PAGE_SIZE \<and> sid_inv (sys_sid si')"
  by (rule sys_info_fits) (simp_all add: demo_ok)

text \<open>The module is registered completely or not at all.\<close>

theorem sys_info_init_all_or_nothing:
  assumes "r = \<lparr>class_reg = False, class_files = 0, misc_reg = False\<rparr>"
  shows "sunxi_sys_info_init c f1 f2 m r =
    (if c = 0 \<and> f1 = 0 \<and> f2 = 0 \<and> m = 0 then (0, \<lparr>class_reg = True, class_files = 2, misc_reg = True\<rparr>)
     else (if c \<noteq> 0 then c else if f1 \<noteq> 0 then f1 else if f2 \<noteq> 0 then f2 else m, r))"
  by (simp add: assms sunxi_sys_info_init_def unregister_class_def)

theorem sys_info_init_all_or_nothing_witness:
  "sunxi_sys_info_init 0 0 (-12) 0 \<lparr>class_reg = False, class_files = 0, misc_reg = False\<rparr> =
     (-12, \<lparr>class_reg = False, class_files = 0, misc_reg = False\<rparr>)"
  using sys_info_init_all_or_nothing [OF refl, of 0 0 "-12" 0] by simp

end
