(* ===== verification/Sha256.thy ===== *)
theory Sha256
  imports BSP_Prelude
begin

text \<open>
  The hash of the address manager of the zhiyuan board,
  \<open>zhiyuan/kernel/driver/drivers/misc/sunxi-addr/sha256.c\<close>: \<open>sha256_transform\<close>, \<open>sha256_init\<close>,
  \<open>sha256_update\<close>, \<open>sha256_final\<close> and the entry point \<open>hmac_sha256\<close>.

  \<^item> The context is a record with the buffer of 64 bytes, its fill level, the number of bits hashed and the
    eight words of state. The arrays of the C code are lists; \<open>None\<close> is a store outside of the buffer.
  \<^item> The specification part states SHA-256 as FIPS 180-4 does, on the whole message: padding, blocks, message
    schedule and compression.
  \<^item> The locale \<open>block_hash\<close> is a hash that absorbs bytes through a buffer of one block; the lemmas on
    streaming are proved in it once, and it is interpreted on \<open>sha256_transform\<close>.
\<close>

unbundle bit_operations_syntax

section \<open>The code\<close>

definition ROTRIGHT :: "u32 \<Rightarrow> nat \<Rightarrow> u32" where
  "ROTRIGHT a b = drop_bit b a OR push_bit (32 - b) a"

definition CH :: "u32 \<Rightarrow> u32 \<Rightarrow> u32 \<Rightarrow> u32" where
  "CH x y z = (x AND y) XOR (NOT x AND z)"

definition MAJ :: "u32 \<Rightarrow> u32 \<Rightarrow> u32 \<Rightarrow> u32" where
  "MAJ x y z = (x AND y) XOR (x AND z) XOR (y AND z)"

definition EP0 :: "u32 \<Rightarrow> u32" where
  "EP0 x = ROTRIGHT x 2 XOR ROTRIGHT x 13 XOR ROTRIGHT x 22"

definition EP1 :: "u32 \<Rightarrow> u32" where
  "EP1 x = ROTRIGHT x 6 XOR ROTRIGHT x 11 XOR ROTRIGHT x 25"

definition SIG0 :: "u32 \<Rightarrow> u32" where
  "SIG0 x = ROTRIGHT x 7 XOR ROTRIGHT x 18 XOR drop_bit 3 x"

definition SIG1 :: "u32 \<Rightarrow> u32" where
  "SIG1 x = ROTRIGHT x 17 XOR ROTRIGHT x 19 XOR drop_bit 10 x"

text \<open>The table \<open>k\<close>, eight constants to a row as in the source.\<close>

definition sha_k :: "u32 list" where
  "sha_k = concat [
     [0x428a2f98, 0x71374491, 0xb5c0fbcf, 0xe9b5dba5, 0x3956c25b, 0x59f111f1, 0x923f82a4, 0xab1c5ed5],
     [0xd807aa98, 0x12835b01, 0x243185be, 0x550c7dc3, 0x72be5d74, 0x80deb1fe, 0x9bdc06a7, 0xc19bf174],
     [0xe49b69c1, 0xefbe4786, 0x0fc19dc6, 0x240ca1cc, 0x2de92c6f, 0x4a7484aa, 0x5cb0a9dc, 0x76f988da],
     [0x983e5152, 0xa831c66d, 0xb00327c8, 0xbf597fc7, 0xc6e00bf3, 0xd5a79147, 0x06ca6351, 0x14292967],
     [0x27b70a85, 0x2e1b2138, 0x4d2c6dfc, 0x53380d13, 0x650a7354, 0x766a0abb, 0x81c2c92e, 0x92722c85],
     [0xa2bfe8a1, 0xa81a664b, 0xc24b8b70, 0xc76c51a3, 0xd192e819, 0xd6990624, 0xf40e3585, 0x106aa070],
     [0x19a4c116, 0x1e376c08, 0x2748774c, 0x34b0bcb5, 0x391c0cb3, 0x4ed8aa4a, 0x5b9cca4f, 0x682e6ff3],
     [0x748f82ee, 0x78a5636f, 0x84c87814, 0x8cc70208, 0x90befffa, 0xa4506ceb, 0xbef9a3f7, 0xc67178f2]]"

record sha256_ctx =
  data :: "byte list"
  datalen :: u32
  bitlen :: u64
  state :: "u32 list"

text \<open>The working variables \<open>a\<close> to \<open>h\<close>.\<close>

type_synonym vars = "u32 \<times> u32 \<times> u32 \<times> u32 \<times> u32 \<times> u32 \<times> u32 \<times> u32"

definition load_word :: "byte list \<Rightarrow> nat \<Rightarrow> u32" where
  "load_word d j = push_bit 24 (ucast (d ! j)) OR push_bit 16 (ucast (d ! (j + 1)))
     OR push_bit 8 (ucast (d ! (j + 2))) OR ucast (d ! (j + 3))"

definition expand :: "u32 list \<Rightarrow> nat \<Rightarrow> u32 list" where
  "expand m i = m @ [SIG1 (m ! (i - 2)) + m ! (i - 7) + SIG0 (m ! (i - 15)) + m ! (i - 16)]"

definition round_step :: "u32 list \<Rightarrow> vars \<Rightarrow> nat \<Rightarrow> vars" where
  "round_step m v i = (case v of (a, b, c, d, e, f, g, h) \<Rightarrow>
     let t1 = h + EP1 e + CH e f g + sha_k ! i + m ! i;
         t2 = EP0 a + MAJ a b c
     in (t1 + t2, a, b, c, d + t1, e, f, g))"

definition sha256_transform :: "u32 list \<Rightarrow> byte list \<Rightarrow> u32 list" where
  "sha256_transform st d = (
     let m = foldl expand (map (\<lambda>i. load_word d (4 * i)) [0..<16]) [16..<64];
         (a, b, c, d, e, f, g, h) = foldl (round_step m)
           (st ! 0, st ! 1, st ! 2, st ! 3, st ! 4, st ! 5, st ! 6, st ! 7) [0..<64]
     in [st ! 0 + a, st ! 1 + b, st ! 2 + c, st ! 3 + d, st ! 4 + e, st ! 5 + f, st ! 6 + g, st ! 7 + h])"

text \<open>The rest of the context is as it was on the stack.\<close>

definition sha256_init :: "byte list \<Rightarrow> sha256_ctx" where
  "sha256_init stack = \<lparr>data = stack, datalen = 0, bitlen = 0,
     state = [0x6a09e667, 0xbb67ae85, 0x3c6ef372, 0xa54ff53a, 0x510e527f, 0x9b05688c, 0x1f83d9ab, 0x5be0cd19]\<rparr>"

fun sha256_update :: "sha256_ctx \<Rightarrow> byte list \<Rightarrow> sha256_ctx option" where
  "sha256_update ctx [] = Some ctx"
| "sha256_update ctx (x # xs) = do {
     d \<leftarrow> arr_set (data ctx) (unat (datalen ctx)) x;
     let ctx1 = ctx\<lparr>data := d, datalen := datalen ctx + 1\<rparr>;
     sha256_update
       (if datalen ctx1 = 64
        then ctx1\<lparr>state := sha256_transform (state ctx1) (data ctx1), bitlen := bitlen ctx1 + 512, datalen := 0\<rparr>
        else ctx1) xs }"

text \<open>The loop \<open>while (i < n) data[i++] = 0\<close>.\<close>

fun zero_to :: "nat \<Rightarrow> nat \<Rightarrow> byte list \<Rightarrow> byte list option" where
  "zero_to 0 i d = Some d"
| "zero_to (Suc n) i d = do { d1 \<leftarrow> arr_set d i 0; zero_to n (Suc i) d1 }"

definition store_length :: "u64 \<Rightarrow> byte list \<Rightarrow> byte list" where
  "store_length b d = d[63 := ucast b, 62 := ucast (drop_bit 8 b), 61 := ucast (drop_bit 16 b), 60 := ucast (drop_bit 24 b),
     59 := ucast (drop_bit 32 b), 58 := ucast (drop_bit 40 b), 57 := ucast (drop_bit 48 b), 56 := ucast (drop_bit 56 b)]"

definition hash_bytes :: "u32 list \<Rightarrow> byte list" where
  "hash_bytes st = concat (map (\<lambda>s. map (\<lambda>i. ucast (drop_bit (24 - i * 8) s AND 0x000000ff)) [0..<4]) st)"

definition sha256_final :: "sha256_ctx \<Rightarrow> (sha256_ctx \<times> byte list) option" where
  "sha256_final ctx = do {
     let i = unat (datalen ctx);
     d \<leftarrow> arr_set (data ctx) i 0x80;
     ctx1 \<leftarrow> (if datalen ctx < 56 then do {
         d1 \<leftarrow> zero_to (56 - (i + 1)) (i + 1) d;
         Some (ctx\<lparr>data := d1\<rparr>) }
       else do {
         d1 \<leftarrow> zero_to (64 - (i + 1)) (i + 1) d;
         Some (ctx\<lparr>data := replicate 56 0 @ drop 56 d1, state := sha256_transform (state ctx) d1\<rparr>) });
     let bits = bitlen ctx1 + ucast (datalen ctx1 * 8);
     let d2 = store_length bits (data ctx1);
     let st = sha256_transform (state ctx1) d2;
     Some (ctx1\<lparr>data := d2, bitlen := bits, state := st\<rparr>, hash_bytes st) }"

definition hmac_sha256 :: "byte list \<Rightarrow> byte list \<Rightarrow> (int \<times> byte list) option" where
  "hmac_sha256 stack plaintext = do {
     ctx \<leftarrow> sha256_update (sha256_init stack) plaintext;
     (_, out) \<leftarrow> sha256_final ctx;
     Some (0, out) }"

section \<open>The standard\<close>

text \<open>Sections 4.1.2 and 6.2 of FIPS 180-4, with rotations of the word library.\<close>

definition Sigma0 :: "u32 \<Rightarrow> u32" where "Sigma0 x = word_rotr 2 x XOR word_rotr 13 x XOR word_rotr 22 x"
definition Sigma1 :: "u32 \<Rightarrow> u32" where "Sigma1 x = word_rotr 6 x XOR word_rotr 11 x XOR word_rotr 25 x"
definition sigma0 :: "u32 \<Rightarrow> u32" where "sigma0 x = word_rotr 7 x XOR word_rotr 18 x XOR drop_bit 3 x"
definition sigma1 :: "u32 \<Rightarrow> u32" where "sigma1 x = word_rotr 17 x XOR word_rotr 19 x XOR drop_bit 10 x"

text \<open>Big-endian numbers of \<open>n\<close> bytes.\<close>

definition be_bytes :: "nat \<Rightarrow> nat \<Rightarrow> byte list" where
  "be_bytes n x = map (\<lambda>i. of_nat (x div 256 ^ (n - 1 - i))) [0..<n]"

definition block_words :: "byte list \<Rightarrow> u32 list" where
  "block_words b = map (\<lambda>i. of_nat (foldl (\<lambda>x y. 256 * x + unat y) 0 (take 4 (drop (4 * i) b)))) [0..<16]"

fun schedule :: "u32 list \<Rightarrow> nat \<Rightarrow> u32" where
  "schedule m t = (if t < 16 then m ! t
     else sigma1 (schedule m (t - 2)) + schedule m (t - 7) + sigma0 (schedule m (t - 15)) + schedule m (t - 16))"

declare schedule.simps [simp del]

fun working :: "u32 list \<Rightarrow> u32 list \<Rightarrow> nat \<Rightarrow> u32 list" where
  "working H m 0 = H"
| "working H m (Suc t) = (case working H m t of [a, b, c, d, e, f, g, h] \<Rightarrow>
     let T1 = h + Sigma1 e + ((e AND f) XOR (NOT e AND g)) + sha_k ! t + schedule m t;
         T2 = Sigma0 a + ((a AND b) XOR (a AND c) XOR (b AND c))
     in [T1 + T2, a, b, c, d + T1, e, f, g] | _ \<Rightarrow> [])"

definition compress :: "u32 list \<Rightarrow> byte list \<Rightarrow> u32 list" where
  "compress H b = map2 (+) H (working H (block_words b) 64)"

text \<open>Section 5.1.1: a one bit, the fewest zero bits that fill up to 448 modulo 512 bits, and the length.\<close>

definition zeros :: "nat \<Rightarrow> nat" where
  "zeros n = nat ((55 - int n) mod 64)"

definition padding :: "nat \<Rightarrow> byte list" where
  "padding n = 0x80 # replicate (zeros n) 0 @ be_bytes 8 (8 * n)"

definition SHA256 :: "byte list \<Rightarrow> byte list" where
  "SHA256 msg = concat (map (\<lambda>w. be_bytes 4 (unat w)) (foldl compress
     [0x6a09e667, 0xbb67ae85, 0x3c6ef372, 0xa54ff53a, 0x510e527f, 0x9b05688c, 0x1f83d9ab, 0x5be0cd19]
     (chunks 64 (msg @ padding (length msg)))))"

section \<open>One block\<close>

lemma ROTRIGHT_rotr:
  assumes "0 < b" "b < 32" shows "ROTRIGHT a b = word_rotr b a"
proof (rule bit_word_eqI)
  fix n assume n: "n < LENGTH(32)"
  show "bit (ROTRIGHT a b) n = bit (word_rotr b a) n"
  proof (cases "n + b < 32")
    case True
    then have "\<not> 32 - b \<le> n" by simp
    with True show ?thesis using assms n by (simp add: ROTRIGHT_def bit_simps bit_word_rotr_iff add.commute)
  next
    case False
    then have "(n + b) mod 32 = n + b - 32" "\<not> bit a (n + b)" "n - (32 - b) = n + b - 32" "32 - b \<le> n"
      using assms n by (auto simp: mod_if dest: bit_imp_le_length)
    then show ?thesis using assms n by (simp add: ROTRIGHT_def bit_simps bit_word_rotr_iff add.commute)
  qed
qed

lemma sha_functions: "EP0 = Sigma0" "EP1 = Sigma1" "SIG0 = sigma0" "SIG1 = sigma1"
  by (auto simp: EP0_def EP1_def SIG0_def SIG1_def Sigma0_def Sigma1_def sigma0_def sigma1_def ROTRIGHT_rotr fun_eq_iff)

lemma length_expand: "length (foldl expand m ts) = length m + length ts"
  by (induction ts arbitrary: m) (simp_all add: expand_def)

lemma nth_expand:
  assumes "length m = n"
  shows "expand m n ! i = (if i < n then m ! i else if i = n
    then sigma1 (m ! (n - 2)) + m ! (n - 7) + sigma0 (m ! (n - 15)) + m ! (n - 16) else [] ! (i - n - 1))"
  using assms by (auto simp: expand_def nth_append nth_Cons' sha_functions)

lemma expand_schedule:
  assumes "length m = 16" "16 \<le> n" "i < n"
  shows "foldl expand m [16..<n] ! i = schedule m i"
  using assms(2,3)
proof (induction n arbitrary: i rule: dec_induct)
  case base
  then show ?case by (subst schedule.simps) simp
next
  case (step n)
  have len: "length (foldl expand m [16..<n]) = n" using step.hyps by (simp add: length_expand assms(1))
  have "foldl expand m [16..<Suc n] = expand (foldl expand m [16..<n]) n" using step.hyps by (simp add: upt_Suc)
  moreover have "schedule m n = sigma1 (schedule m (n - 2)) + schedule m (n - 7) + sigma0 (schedule m (n - 15)) + schedule m (n - 16)"
    using step.hyps by (subst schedule.simps) simp
  ultimately show ?case
    using nth_expand [OF len, of i] step.hyps step.prems step.IH by (cases "i = n") auto
qed

lemma working_length: "length H = 8 \<Longrightarrow> length (working H m t) = 8"
  by (induction t) (auto simp: Let_def split: list.split)

text \<open>The eight variables as a list.\<close>

fun var_list :: "vars \<Rightarrow> u32 list" where
  "var_list (a, b, c, d, e, f, g, h) = [a, b, c, d, e, f, g, h]"

lemma rounds_working:
  assumes "\<And>i. i < 64 \<Longrightarrow> m ! i = schedule w i" "H = var_list v"
  shows "t \<le> 64 \<Longrightarrow> var_list (foldl (round_step m) v [0..<t]) = working H w t"
proof (induction t)
  case (Suc t)
  obtain a b c d e f g h where v: "foldl (round_step m) v [0..<t] = (a, b, c, d, e, f, g, h)"
    by (metis surj_pair)
  then have "working H w t = [a, b, c, d, e, f, g, h]" using Suc by simp
  moreover have last: "foldl (round_step m) v [0..<Suc t] = round_step m (a, b, c, d, e, f, g, h) t" by (simp add: v)
  ultimately show ?case unfolding last using assms(1) [of t] Suc.prems
    by (simp add: round_step_def Let_def sha_functions CH_def MAJ_def)
qed (simp add: assms(2))

lemma load_word_number:
  fixes a b c d :: byte
  shows "push_bit 24 (ucast a) OR push_bit 16 (ucast b) OR push_bit 8 (ucast c) OR (ucast d :: u32) =
    of_nat (256 * (256 * (256 * unat a + unat b) + unat c) + unat d)"
proof -
  have *: "(push_bit 8 x OR ucast y :: u32) = 256 * x + ucast y" for x :: u32 and y :: byte
  proof -
    have "push_bit 8 x AND ucast y = 0" by (rule bit_word_eqI) (auto simp: bit_simps dest: bit_imp_le_length)
    then show ?thesis by (simp add: disjunctive_add_eq_or [symmetric] push_bit_eq_mult)
  qed
  have "push_bit 24 (ucast a) OR push_bit 16 (ucast b) OR push_bit 8 (ucast c) OR (ucast d :: u32) =
      push_bit 8 (push_bit 8 (push_bit 8 (ucast a) OR ucast b) OR ucast c) OR ucast d"
    by (simp add: push_bit_or push_bit_push_bit ac_simps)
  also have "\<dots> = 256 * (256 * (256 * ucast a + ucast b) + ucast c) + ucast d" by (simp only: *)
  finally show ?thesis by simp
qed

lemma load_words:
  assumes "length b = 64"
  shows "map (\<lambda>i. load_word b (4 * i)) [0..<16] = block_words b"
proof -
  have "load_word b (4 * i) = of_nat (foldl (\<lambda>x y. 256 * x + unat y) 0 (take 4 (drop (4 * i) b)))" if "i < 16" for i
  proof -
    have "take 4 (drop (4 * i) b) = [b ! (4 * i), b ! (4 * i + 1), b ! (4 * i + 2), b ! (4 * i + 3)]"
      using that assms by (intro nth_equalityI) (auto simp: less_Suc_eq numeral_eq_Suc)
    then show ?thesis by (simp add: load_word_def load_word_number)
  qed
  then show ?thesis by (simp add: block_words_def)
qed

lemma list8:
  assumes "length xs = 8"
  shows "xs = [xs ! 0, xs ! 1, xs ! 2, xs ! 3, xs ! 4, xs ! 5, xs ! 6, xs ! 7]"
  using assms by (intro nth_equalityI) (auto simp: less_Suc_eq numeral_eq_Suc)

text \<open>The block function of the code is the compression function of the standard.\<close>

lemma transform_compress:
  assumes "length H = 8" "length b = 64"
  shows "sha256_transform H b = compress H b"
proof -
  let ?m = "foldl expand (map (\<lambda>i. load_word b (4 * i)) [0..<16]) [16..<64]"
  let ?v = "(H ! 0, H ! 1, H ! 2, H ! 3, H ! 4, H ! 5, H ! 6, H ! 7)"
  have m: "?m ! i = schedule (block_words b) i" if "i < 64" for i
    unfolding load_words [OF assms(2)] using that by (intro expand_schedule) (simp_all add: block_words_def)
  have "H = var_list ?v" using list8 [OF assms(1)] by simp
  from rounds_working [OF m this, of 64]
  have w: "working H (block_words b) 64 = var_list (foldl (round_step ?m) ?v [0..<64])" by simp
  obtain a b' c d e f g h where v: "foldl (round_step ?m) ?v [0..<64] = (a, b', c, d, e, f, g, h)" by (metis surj_pair)
  show ?thesis
    unfolding compress_def w sha256_transform_def Let_def v prod.case var_list.simps
    by (subst (9) list8 [OF assms(1)]) simp
qed

section \<open>Streaming\<close>

text \<open>A hash that takes bytes one by one into a buffer and hashes the buffer when it holds a block.\<close>

definition absorb_step :: "('s \<Rightarrow> 'b list \<Rightarrow> 's) \<Rightarrow> nat \<Rightarrow> 's \<times> 'b list \<Rightarrow> 'b \<Rightarrow> 's \<times> 'b list" where
  "absorb_step f n sb x = (if length (snd sb) + 1 = n then (f (fst sb) (snd sb @ [x]), []) else (fst sb, snd sb @ [x]))"

definition absorb :: "('s \<Rightarrow> 'b list \<Rightarrow> 's) \<Rightarrow> nat \<Rightarrow> 's \<times> 'b list \<Rightarrow> 'b list \<Rightarrow> 's \<times> 'b list" where
  "absorb f n sb xs = foldl (absorb_step f n) sb xs"

locale block_hash =
  fixes f :: "'s \<Rightarrow> 'b list \<Rightarrow> 's" and n :: nat and pad :: "nat \<Rightarrow> 'b list"
  assumes block_size: "0 < n"
    and padded: "n dvd k + length (pad k)"
begin

text \<open>What has been taken is some full blocks, hashed, and the contents of the buffer.\<close>

lemma absorbed:
  obtains full buf where "xs = full @ buf" "n dvd length full" "length buf < n"
    "absorb f n (s, []) xs = (foldl f s (chunks n full), buf)"
proof (induction xs arbitrary: thesis rule: rev_induct)
  case Nil
  then show ?case using block_size by (simp add: absorb_def)
next
  case (snoc x xs)
  obtain full buf where IH: "xs = full @ buf" "n dvd length full" "length buf < n"
      "absorb f n (s, []) xs = (foldl f s (chunks n full), buf)"
    using snoc.IH by blast
  show ?case
  proof (cases "length buf + 1 = n")
    case True
    have "chunks n (full @ buf @ [x]) = chunks n full @ [buf @ [x]]"
      using chunks_append [OF block_size IH(2)] chunks_one [OF block_size, of "buf @ [x]"] True by simp
    then show ?thesis
      using IH True snoc.prems [of "full @ buf @ [x]" "[]"] block_size by (simp add: absorb_def absorb_step_def)
  next
    case False
    then show ?thesis using IH snoc.prems [of full "buf @ [x]"] by (simp add: absorb_def absorb_step_def)
  qed
qed

text \<open>Hashing the buffer with the padding gives the hash of the whole padded message.\<close>

lemma finished:
  assumes "absorb f n (s, []) xs = (s', buf)"
  shows "length buf = length xs mod n \<and>
    foldl f s' (chunks n (buf @ pad (length xs))) = foldl f s (chunks n (xs @ pad (length xs)))"
proof -
  obtain full b where *: "xs = full @ b" "n dvd length full" "length b < n"
      "absorb f n (s, []) xs = (foldl f s (chunks n full), b)"
    by (rule absorbed)
  then have "length b = length xs mod n" by auto
  moreover have "chunks n (xs @ pad (length xs)) = chunks n full @ chunks n (b @ pad (length xs))"
    unfolding *(1) append_assoc by (rule chunks_append [OF block_size *(2)])
  ultimately show ?thesis using * assms by simp
qed

end

lemma length_be_bytes [simp]: "length (be_bytes n x) = n"
  by (simp add: be_bytes_def)

lemma zeros_cases: "zeros n = (if n mod 64 < 56 then 55 - n mod 64 else 119 - n mod 64)"
proof -
  define r where "r = n mod 64"
  have r: "r < 64" by (simp add: r_def)
  have e: "(55 - int n) mod 64 = (55 - int r) mod 64" by (simp add: r_def zmod_int mod_diff_right_eq)
  show ?thesis
  proof (cases "r < 56")
    case True
    then show ?thesis unfolding zeros_def e r_def [symmetric] by simp
  next
    case False
    have "55 - int r = (119 - int r) - 64" by simp
    then have "(55 - int r) mod 64 = (119 - int r) mod 64" by (simp only: minus_mod_self2)
    then show ?thesis using False r unfolding zeros_def e r_def [symmetric] by simp
  qed
qed

lemma padding_fills: "64 dvd k + length (padding k)"
proof -
  have k: "k = 64 * (k div 64) + k mod 64" by simp
  have "k mod 64 + 9 + zeros k = (if k mod 64 < 56 then 64 else 128)" by (auto simp: zeros_cases)
  then have "64 dvd k mod 64 + 9 + zeros k" by (simp split: if_splits)
  then have "64 dvd 64 * (k div 64) + (k mod 64 + 9 + zeros k)" by (rule dvd_add [OF dvd_triv_left])
  moreover have "64 * (k div 64) + (k mod 64 + 9 + zeros k) = k + length (padding k)"
    using k by (simp add: padding_def)
  ultimately show ?thesis by simp
qed

interpretation sha: block_hash sha256_transform 64 padding
  by unfold_locales (simp_all add: padding_fills)

section \<open>The code implements the standard\<close>

definition ctx_ok :: "sha256_ctx \<Rightarrow> bool" where
  "ctx_ok ctx \<longleftrightarrow> length (data ctx) = 64 \<and> datalen ctx < 64 \<and> length (state ctx) = 8"

definition buffer :: "sha256_ctx \<Rightarrow> byte list" where
  "buffer ctx = take (unat (datalen ctx)) (data ctx)"

lemma length_transform [simp]: "length (sha256_transform st d) = 8"
  by (simp add: sha256_transform_def Let_def split: prod.split)

lemma datalen_bound: "datalen ctx < 64 \<longleftrightarrow> unat (datalen ctx) < 64"
  by (simp add: word_less_nat_alt)

lemma unat_datalen_Suc: "x < (64 :: u32) \<Longrightarrow> unat (x + 1) = unat x + 1"
  by (rule unat_plus_simple [THEN iffD1, THEN trans]) (auto simp: word_less_nat_alt word_le_nat_alt unat_word_ariths)

text \<open>One byte: the context moves as the abstract buffer does, and the bits are counted.\<close>

definition taken_bits :: "sha256_ctx \<Rightarrow> u64" where
  "taken_bits ctx = bitlen ctx + 8 * ucast (datalen ctx)"

lemma update_byte:
  assumes "ctx_ok ctx"
  obtains ctx' where "\<And>xs. sha256_update ctx (x # xs) = sha256_update ctx' xs" "ctx_ok ctx'"
    "(state ctx', buffer ctx') = absorb_step sha256_transform 64 (state ctx, buffer ctx) x"
    "taken_bits ctx' = taken_bits ctx + 8"
proof -
  let ?i = "unat (datalen ctx)"
  have i: "?i < 64" "length (data ctx) = 64" using assms by (auto simp: ctx_ok_def datalen_bound)
  have s: "unat (datalen ctx + 1) = ?i + 1" using assms by (simp add: ctx_ok_def unat_datalen_Suc)
  have full: "datalen ctx + 1 = 64 \<longleftrightarrow> ?i + 1 = 64" by (simp add: word_unat_eq_iff s)
  have buf: "take (?i + 1) ((data ctx)[?i := x]) = buffer ctx @ [x]"
    using i by (simp add: buffer_def take_Suc_update)
  have blen: "length (buffer ctx) = ?i" using i by (simp add: buffer_def)
  show thesis
  proof (cases "?i + 1 = 64")
    case True
    define c where "c = ctx\<lparr>data := (data ctx)[?i := x], state := sha256_transform (state ctx) ((data ctx)[?i := x]),
        bitlen := bitlen ctx + 512, datalen := 0\<rparr>"
    have "(data ctx)[?i := x] = buffer ctx @ [x]" using buf i True by simp
    moreover have "datalen ctx = 63" using True by (simp add: word_unat_eq_iff)
    ultimately show ?thesis
      using that [of c] i True full
      by (simp add: c_def arr_set_def ctx_ok_def buffer_def absorb_step_def blen taken_bits_def Let_def)
  next
    case False
    define c where "c = ctx\<lparr>data := (data ctx)[?i := x], datalen := datalen ctx + 1\<rparr>"
    have "ctx_ok c" using assms False i s by (simp add: c_def ctx_ok_def word_less_nat_alt)
    moreover have "(of_nat (unat (datalen ctx + 1)) :: u64) = of_nat ?i + 1" by (simp only: s of_nat_add of_nat_1)
    then have "taken_bits c = taken_bits ctx + 8" by (simp add: taken_bits_def c_def)
    ultimately show ?thesis
      using that [of c] i False full buf blen s
      by (simp add: c_def arr_set_def buffer_def absorb_step_def Let_def)
  qed
qed

lemma update_bytes:
  "ctx_ok ctx \<Longrightarrow> \<exists>ctx'. sha256_update ctx xs = Some ctx' \<and> ctx_ok ctx' \<and>
     (state ctx', buffer ctx') = absorb sha256_transform 64 (state ctx, buffer ctx) xs \<and>
     taken_bits ctx' = taken_bits ctx + 8 * of_nat (length xs)"
proof (induction xs arbitrary: ctx)
  case (Cons x xs)
  obtain c where c: "\<And>xs. sha256_update ctx (x # xs) = sha256_update c xs" "ctx_ok c"
      "(state c, buffer c) = absorb_step sha256_transform 64 (state ctx, buffer ctx) x" "taken_bits c = taken_bits ctx + 8"
    using update_byte [OF Cons.prems] by metis
  obtain ctx' where "sha256_update c xs = Some ctx'" "ctx_ok ctx'"
      "(state ctx', buffer ctx') = absorb sha256_transform 64 (state c, buffer c) xs"
      "taken_bits ctx' = taken_bits c + 8 * of_nat (length xs)"
    using Cons.IH [OF c(2)] by blast
  then show ?case unfolding c by (intro exI [of _ ctx']) (simp add: c(3) absorb_def algebra_simps c(4))
qed (simp add: absorb_def)

lemma zero_to_run: "i + n \<le> length d \<Longrightarrow> zero_to n i d = Some (take i d @ replicate n 0 @ drop (i + n) d)"
proof (induction n arbitrary: i d)
  case (Suc n)
  have "zero_to n (Suc i) (d[i := 0]) = Some (take (Suc i) (d[i := 0]) @ replicate n 0 @ drop (Suc i + n) (d[i := 0]))"
    by (rule Suc.IH) (use Suc.prems in simp)
  then show ?case using Suc.prems by (simp add: arr_set_def take_Suc_update)
qed simp

lemma byte_of_word: "(of_nat (unat b div 256 ^ k) :: byte) = ucast (drop_bit (8 * k) b)" for b :: "'a::len word"
proof -
  have "unat (drop_bit (8 * k) b) = drop_bit (8 * k) (unat b)" by (rule unat_drop_bit_eq)
  also have "\<dots> = unat b div 256 ^ k" by (simp add: drop_bit_eq_div power_mult)
  finally show ?thesis by (metis of_nat_unat)
qed

lemma store_length_bytes:
  assumes "length d = 64"
  shows "store_length b d = take 56 d @ be_bytes 8 (unat b)"
proof (rule nth_equalityI)
  show "length (store_length b d) = length (take 56 d @ be_bytes 8 (unat b))" using assms by (simp add: store_length_def)
next
  fix i assume "i < length (store_length b d)"
  then have i: "i < 64" using assms by (simp add: store_length_def)
  show "store_length b d ! i = (take 56 d @ be_bytes 8 (unat b)) ! i"
  proof (cases "i < 56")
    case True
    then show ?thesis using assms by (simp add: store_length_def nth_append)
  next
    case False
    then have "i \<in> {56, 57, 58, 59, 60, 61, 62, 63}" using i by auto
    then show ?thesis using assms byte_of_word [of b 0]
      by (elim insertE emptyE) (simp_all add: store_length_def nth_append be_bytes_def byte_of_word)
  qed
qed

lemma hash_bytes_be: "hash_bytes st = concat (map (\<lambda>w. be_bytes 4 (unat w)) st)"
proof -
  have "map (\<lambda>i. ucast (drop_bit (24 - i * 8) s AND 0x000000ff)) [0..<4] = be_bytes 4 (unat s)" for s :: u32
  proof -
    have mask: "(ucast (x AND 0xff) :: byte) = ucast x" for x :: u32
    proof (rule bit_word_eqI)
      fix n assume "n < LENGTH(8)"
      moreover have "bit (0xff :: u32) n \<longleftrightarrow> n < 8"
        using bit_mask_iff [of 8 n, where ?'a = u32] by (simp add: mask_eq_exp_minus_1) (auto dest: bit_imp_le_length)
      ultimately show "bit (ucast (x AND 0xff) :: byte) n = bit (ucast x :: byte) n" by (simp add: bit_simps)
    qed
    show ?thesis using byte_of_word [of s 0] byte_of_word [of s 1] byte_of_word [of s 2] byte_of_word [of s 3]
      by (simp add: be_bytes_def upt_rec mask)
  qed
  then show ?thesis by (simp add: hash_bytes_def)
qed

lemma compress_length: "length H = 8 \<Longrightarrow> length (compress H b) = 8"
  by (simp add: compress_def working_length)

lemma transforms_compress:
  "length H = 8 \<Longrightarrow> list_all (\<lambda>b. length b = 64) bs \<Longrightarrow> foldl sha256_transform H bs = foldl compress H bs"
  by (induction bs arbitrary: H) (simp_all add: transform_compress compress_length)

lemma compress_blocks_length: "length H = 8 \<Longrightarrow> length (foldl compress H bs) = 8"
  by (induction bs arbitrary: H) (simp_all add: compress_length)

lemma SHA256_length: "length (SHA256 msg) = 32"
proof -
  have "length (concat (map (\<lambda>w. be_bytes 4 (unat w)) ws)) = 4 * length (ws :: u32 list)" for ws
    by (induction ws) (simp_all add: be_bytes_def)
  then show ?thesis by (simp add: SHA256_def compress_blocks_length)
qed

text \<open>The last step: the buffer with the padding is hashed, in one block or in two.\<close>

lemma final_run:
  assumes "ctx_ok ctx" "length (buffer ctx) = k mod 64" "taken_bits ctx = of_nat (8 * k)" "8 * k < 2 ^ 64"
  shows "\<exists>ctx'. sha256_final ctx =
    Some (ctx', hash_bytes (foldl sha256_transform (state ctx) (chunks 64 (buffer ctx @ padding k))))"
proof -
  let ?i = "unat (datalen ctx)"
  have i: "?i < 64" "length (data ctx) = 64" "length (buffer ctx) = ?i"
    using assms(1) by (auto simp: ctx_ok_def datalen_bound buffer_def)
  have z: "zeros k = (if ?i < 56 then 55 - ?i else 119 - ?i)" using assms(2) i by (simp add: zeros_cases)
  have lt: "datalen ctx < 56 \<longleftrightarrow> ?i < 56" by (simp add: word_less_nat_alt)
  have bits: "unat (bitlen ctx + ucast (datalen ctx * 8)) = 8 * k"
  proof -
    have "unat (datalen ctx * 8) = ?i * 8" using i by (simp add: unat_word_ariths)
    then have "(of_nat (unat (datalen ctx * 8)) :: u64) = 8 * of_nat ?i" by simp
    then have sum: "bitlen ctx + ucast (datalen ctx * 8) = of_nat (8 * k)" using assms(3) by (simp add: taken_bits_def)
    show ?thesis unfolding sum unsigned_of_nat take_bit_eq_mod using assms(4) by simp
  qed
  define d where "d = (data ctx)[?i := 0x80 :: byte]"
  have d: "length d = 64" "take (?i + 1) d = buffer ctx @ [0x80]"
    using i by (simp_all add: d_def buffer_def take_Suc_update)
  show ?thesis
  proof (cases "?i < 56")
    case True
    have d1: "zero_to (56 - (?i + 1)) (?i + 1) d = Some (buffer ctx @ [0x80] @ replicate (zeros k) 0 @ drop 56 d)"
      using zero_to_run [of "?i + 1" "56 - (?i + 1)" d] True d z by simp
    have tk: "take 56 (buffer ctx @ [0x80] @ replicate (zeros k) 0 @ drop 56 d) = buffer ctx @ [0x80] @ replicate (zeros k) 0"
      using True i z by (simp add: take_Cons' split: nat_diff_split)
    have "chunks 64 (buffer ctx @ padding k) = [buffer ctx @ padding k]"
      using True i z by (intro chunks_one) (simp_all add: padding_def)
    then show ?thesis
      using d1 True i d bits lt z tk
      by (simp add: sha256_final_def arr_set_def d_def [symmetric] Let_def store_length_bytes padding_def)
  next
    case False
    have d1: "zero_to (64 - (?i + 1)) (?i + 1) d = Some (buffer ctx @ [0x80] @ replicate (63 - ?i) 0)"
      using zero_to_run [of "?i + 1" "64 - (?i + 1)" d] i d by simp
    have "replicate (zeros k) (0 :: byte) = replicate (63 - ?i) 0 @ replicate 56 0"
      using False i z by (simp add: replicate_add [symmetric])
    then have "buffer ctx @ padding k = (buffer ctx @ [0x80] @ replicate (63 - ?i) 0) @ replicate 56 0 @ be_bytes 8 (8 * k)"
      by (simp add: padding_def)
    moreover have "chunks 64 ((buffer ctx @ [0x80] @ replicate (63 - ?i) 0) @ replicate 56 0 @ be_bytes 8 (8 * k)) =
        chunks 64 (buffer ctx @ [0x80] @ replicate (63 - ?i) 0) @ chunks 64 (replicate 56 0 @ be_bytes 8 (8 * k))"
      using i by (intro chunks_append) simp_all
    ultimately have "chunks 64 (buffer ctx @ padding k) =
        [buffer ctx @ [0x80] @ replicate (63 - ?i) 0, replicate 56 0 @ be_bytes 8 (8 * k)]"
      using i by (simp add: chunks_one)
    then show ?thesis
      using d1 False i d bits lt
      by (auto simp: sha256_final_def arr_set_def d_def [symmetric] Let_def store_length_bytes)
  qed
qed

text \<open>All steps together.\<close>

lemma sha256_hash:
  assumes "length msg < 2 ^ 32" "length stack = 64"
  shows "hmac_sha256 stack msg = Some (0, SHA256 msg)"
proof -
  let ?c = "sha256_init stack"
  let ?H = "[0x6a09e667, 0xbb67ae85, 0x3c6ef372, 0xa54ff53a, 0x510e527f, 0x9b05688c, 0x1f83d9ab, 0x5be0cd19]"
  have "ctx_ok ?c" using assms(2) by (simp add: ctx_ok_def sha256_init_def)
  from update_bytes [OF this, of msg] obtain ctx where ctx: "sha256_update ?c msg = Some ctx" "ctx_ok ctx"
      "absorb sha256_transform 64 (?H, []) msg = (state ctx, buffer ctx)" "taken_bits ctx = of_nat (8 * length msg)"
    by (auto simp: sha256_init_def buffer_def taken_bits_def)
  note fin = sha.finished [OF ctx(3)]
  obtain ctx' where "sha256_final ctx =
      Some (ctx', hash_bytes (foldl sha256_transform ?H (chunks 64 (msg @ padding (length msg)))))"
    using final_run [OF ctx(2) _ ctx(4)] fin assms(1) by auto
  moreover have "list_all (\<lambda>b. length b = 64) (chunks 64 (msg @ padding (length msg)))"
    by (rule chunks_lengths) (use padding_fills in simp)
  ultimately show ?thesis
    by (simp add: hmac_sha256_def ctx(1) hash_bytes_be SHA256_def transforms_compress)
qed

section \<open>Properties\<close>

text \<open>
  C24. For every message of fewer than \<open>2 ^ 32\<close> bytes, the length the counter of the loop can hold, the
  entry point writes nothing outside of its buffer and returns 0 with the SHA-256 hash of the message,
  as the standard defines it on the padded message, whatever the stack held before.
\<close>

theorem sha256_correct:
  assumes "length msg < 2 ^ 32" "length stack = 64"
  shows "hmac_sha256 stack msg = Some (0, SHA256 msg)"
  using assms by (rule sha256_hash)

end
