(* ===== verification/Sha256_Example.thy ===== *)
theory Sha256_Example
  imports Sha256
begin

text \<open>
  A known answer for the hash of \<open>Sha256\<close>: the digest of the identity of an example chip, evaluated step by
  step by the simplifier. The message schedule and the rounds are evaluated in pieces of sixteen.
\<close>

unbundle bit_operations_syntax

definition example_id :: "byte list" where
  "example_id = [0x0, 0x62, 0x0, 0x3, 0x4, 0x62, 0x0, 0x3,
     0x8, 0x62, 0x0, 0x3, 0xc, 0x62, 0x0, 0x3]"

definition example_block :: "byte list" where
  "example_block = example_id @ 0x80 # replicate 39 0 @ [0, 0, 0, 0, 0, 0, 0, 0x80]"

definition example_digest :: "byte list" where
  "example_digest =
     [0x7, 0x1f, 0x18, 0x61, 0xa7, 0xc1, 0xdb, 0x17,
     0x72, 0x4a, 0xcd, 0x3b, 0x86, 0x18, 0x4b, 0x47,
     0x89, 0x37, 0xb4, 0xe2, 0xe1, 0x74, 0xff, 0xb4,
     0xfc, 0xe8, 0xc9, 0xa7, 0x2, 0xe7, 0x62, 0x97]"

lemma example_words: "map (\<lambda>i. load_word example_block (4 * i)) [0..<16] =
    [0x620003, 0x4620003, 0x8620003, 0xc620003, 0x80000000, 0x0, 0x0, 0x0,
     0x0, 0x0, 0x0, 0x0, 0x0, 0x0, 0x0, 0x80]"
  by code_simp

lemma example_schedule_1: "foldl expand
    [0x620003, 0x4620003, 0x8620003, 0xc620003, 0x80000000, 0x0, 0x0, 0x0,
     0x0, 0x0, 0x0, 0x0, 0x0, 0x0, 0x0, 0x80] [16..<32] =
    [0x620003, 0x4620003, 0x8620003, 0xc620003, 0x80000000, 0x0, 0x0, 0x0,
     0x0, 0x0, 0x0, 0x0, 0x0, 0x0, 0x0, 0x80,
     0x86e6451b, 0x8bce461b, 0x7a055159, 0x94e6712, 0x82991316, 0xff691617, 0xabc937db, 0x30dd1f37,
     0x490a98eb, 0xa6769a8b, 0x28c8f614, 0x20d64d69, 0x652bb957, 0x9adab9bd, 0xdc953426, 0xb724793]"
  by code_simp

lemma example_schedule_2: "foldl expand
    [0x620003, 0x4620003, 0x8620003, 0xc620003, 0x80000000, 0x0, 0x0, 0x0,
     0x0, 0x0, 0x0, 0x0, 0x0, 0x0, 0x0, 0x80,
     0x86e6451b, 0x8bce461b, 0x7a055159, 0x94e6712, 0x82991316, 0xff691617, 0xabc937db, 0x30dd1f37,
     0x490a98eb, 0xa6769a8b, 0x28c8f614, 0x20d64d69, 0x652bb957, 0x9adab9bd, 0xdc953426, 0xb724793] [32..<48] =
    [0x620003, 0x4620003, 0x8620003, 0xc620003, 0x80000000, 0x0, 0x0, 0x0,
     0x0, 0x0, 0x0, 0x0, 0x0, 0x0, 0x0, 0x80,
     0x86e6451b, 0x8bce461b, 0x7a055159, 0x94e6712, 0x82991316, 0xff691617, 0xabc937db, 0x30dd1f37,
     0x490a98eb, 0xa6769a8b, 0x28c8f614, 0x20d64d69, 0x652bb957, 0x9adab9bd, 0xdc953426, 0xb724793,
     0x21e626f7, 0x9b3727d, 0x2f887e87, 0xbf811a7e, 0xc3a26c31, 0x7a361119, 0x62a1869b, 0x96fdfa75,
     0xeb6558c6, 0x291e650d, 0x348caf1c, 0x2ee128e1, 0x67c40f5e, 0xca058707, 0xb08cab55, 0xcdebfe66]"
  by code_simp

lemma example_schedule_3: "foldl expand
    [0x620003, 0x4620003, 0x8620003, 0xc620003, 0x80000000, 0x0, 0x0, 0x0,
     0x0, 0x0, 0x0, 0x0, 0x0, 0x0, 0x0, 0x80,
     0x86e6451b, 0x8bce461b, 0x7a055159, 0x94e6712, 0x82991316, 0xff691617, 0xabc937db, 0x30dd1f37,
     0x490a98eb, 0xa6769a8b, 0x28c8f614, 0x20d64d69, 0x652bb957, 0x9adab9bd, 0xdc953426, 0xb724793,
     0x21e626f7, 0x9b3727d, 0x2f887e87, 0xbf811a7e, 0xc3a26c31, 0x7a361119, 0x62a1869b, 0x96fdfa75,
     0xeb6558c6, 0x291e650d, 0x348caf1c, 0x2ee128e1, 0x67c40f5e, 0xca058707, 0xb08cab55, 0xcdebfe66] [48..<64] =
    [0x620003, 0x4620003, 0x8620003, 0xc620003, 0x80000000, 0x0, 0x0, 0x0,
     0x0, 0x0, 0x0, 0x0, 0x0, 0x0, 0x0, 0x80,
     0x86e6451b, 0x8bce461b, 0x7a055159, 0x94e6712, 0x82991316, 0xff691617, 0xabc937db, 0x30dd1f37,
     0x490a98eb, 0xa6769a8b, 0x28c8f614, 0x20d64d69, 0x652bb957, 0x9adab9bd, 0xdc953426, 0xb724793,
     0x21e626f7, 0x9b3727d, 0x2f887e87, 0xbf811a7e, 0xc3a26c31, 0x7a361119, 0x62a1869b, 0x96fdfa75,
     0xeb6558c6, 0x291e650d, 0x348caf1c, 0x2ee128e1, 0x67c40f5e, 0xca058707, 0xb08cab55, 0xcdebfe66,
     0x33ab2448, 0xd31cbc1f, 0x11c2b6c, 0xd1fd7854, 0xd878ab6b, 0x990ef583, 0xf8eb2f1f, 0x358cf648,
     0x370708b4, 0x255a9161, 0xf9853106, 0xd5d044f2, 0xb686110e, 0x8568da88, 0xdc63e8fe, 0xda274d74]"
  by code_simp

definition example_schedule :: "u32 list" where
  "example_schedule =
    [0x620003, 0x4620003, 0x8620003, 0xc620003, 0x80000000, 0x0, 0x0, 0x0,
     0x0, 0x0, 0x0, 0x0, 0x0, 0x0, 0x0, 0x80,
     0x86e6451b, 0x8bce461b, 0x7a055159, 0x94e6712, 0x82991316, 0xff691617, 0xabc937db, 0x30dd1f37,
     0x490a98eb, 0xa6769a8b, 0x28c8f614, 0x20d64d69, 0x652bb957, 0x9adab9bd, 0xdc953426, 0xb724793,
     0x21e626f7, 0x9b3727d, 0x2f887e87, 0xbf811a7e, 0xc3a26c31, 0x7a361119, 0x62a1869b, 0x96fdfa75,
     0xeb6558c6, 0x291e650d, 0x348caf1c, 0x2ee128e1, 0x67c40f5e, 0xca058707, 0xb08cab55, 0xcdebfe66,
     0x33ab2448, 0xd31cbc1f, 0x11c2b6c, 0xd1fd7854, 0xd878ab6b, 0x990ef583, 0xf8eb2f1f, 0x358cf648,
     0x370708b4, 0x255a9161, 0xf9853106, 0xd5d044f2, 0xb686110e, 0x8568da88, 0xdc63e8fe, 0xda274d74]"

lemma example_rounds_1: "foldl (round_step example_schedule)
    (0x6a09e667, 0xbb67ae85, 0x3c6ef372, 0xa54ff53a, 0x510e527f, 0x9b05688c, 0x1f83d9ab, 0x5be0cd19) [0..<16] =
    (0x47fb291e, 0x98948561, 0x7e56d27a, 0x112cf21f, 0xe1724198, 0x4c8f7c27, 0x977339e, 0xcd4e10bc)"
  by code_simp

lemma example_rounds_2: "foldl (round_step example_schedule)
    (0x47fb291e, 0x98948561, 0x7e56d27a, 0x112cf21f, 0xe1724198, 0x4c8f7c27, 0x977339e, 0xcd4e10bc) [16..<32] =
    (0x87288c04, 0xe60280e5, 0x17434df5, 0x25761780, 0x44ce255c, 0xb1eb41da, 0x83e2d4d4, 0xabf65f57)"
  by code_simp

lemma example_rounds_3: "foldl (round_step example_schedule)
    (0x87288c04, 0xe60280e5, 0x17434df5, 0x25761780, 0x44ce255c, 0xb1eb41da, 0x83e2d4d4, 0xabf65f57) [32..<48] =
    (0x1084c472, 0x9e77093f, 0xa93245a0, 0x5f8cb633, 0x978e3f54, 0x96033a12, 0x70baddd5, 0xd16ee7bb)"
  by code_simp

lemma example_rounds_4: "foldl (round_step example_schedule)
    (0x1084c472, 0x9e77093f, 0xa93245a0, 0x5f8cb633, 0x978e3f54, 0x96033a12, 0x70baddd5, 0xd16ee7bb) [48..<64] =
    (0x9d1531fa, 0xec5a2c92, 0x35dbd9c9, 0xe0c8560d, 0x38296263, 0x466f9728, 0xdd64effc, 0xa706957e)"
  by code_simp

lemma example_transform: "sha256_transform [0x6a09e667, 0xbb67ae85, 0x3c6ef372, 0xa54ff53a, 0x510e527f, 0x9b05688c, 0x1f83d9ab, 0x5be0cd19] example_block =
    [0x71f1861, 0xa7c1db17, 0x724acd3b, 0x86184b47, 0x8937b4e2, 0xe174ffb4, 0xfce8c9a7, 0x2e76297]"
proof -
  let ?m = "map (\<lambda>i. load_word example_block (4 * i)) [0..<16]"
  have "[16..<64] = [16..<32] @ [32..<48] @ [48..<64 :: nat]" by (simp add: upt_rec)
  then have sched: "foldl expand ?m [16..<64] = example_schedule"
    unfolding example_words by (simp only: foldl_append example_schedule_1 example_schedule_2 example_schedule_3 example_schedule_def)
  have parts: "[0..<64] = [0..<16] @ [16..<32] @ [32..<48] @ [48..<64 :: nat]" by (simp add: upt_rec)
  have "foldl (round_step example_schedule) (0x6a09e667, 0xbb67ae85, 0x3c6ef372, 0xa54ff53a, 0x510e527f, 0x9b05688c, 0x1f83d9ab, 0x5be0cd19) [0..<64] =
      (0x9d1531fa, 0xec5a2c92, 0x35dbd9c9, 0xe0c8560d, 0x38296263, 0x466f9728, 0xdd64effc, 0xa706957e)"
    unfolding parts by (simp only: foldl_append example_rounds_1 example_rounds_2 example_rounds_3 example_rounds_4)
  then show ?thesis unfolding sha256_transform_def sched by simp
qed

lemma example_padding: "example_id @ padding 16 = example_block"
  by (simp add: padding_def zeros_def be_bytes_def example_block_def upt_rec)

theorem example_hash: "SHA256 example_id = example_digest"
proof -
  have len: "length example_id = 16" "length example_block = 64" by (simp_all add: example_id_def example_block_def)
  have "chunks 64 (example_id @ padding (length example_id)) = [example_block]"
    using len by (simp add: example_padding chunks_one)
  then show ?thesis
    unfolding SHA256_def
    by (simp add: transform_compress [symmetric] len example_transform be_bytes_def upt_rec example_digest_def)
qed

text \<open>The code computes it.\<close>

theorem sha256_correct_witness:
  "length example_id < 2 ^ 32 \<and> hmac_sha256 (replicate 64 0) example_id = Some (0, example_digest)"
  using sha256_correct [of example_id "replicate 64 0"] by (simp add: example_id_def [THEN arg_cong [of _ _ length]] example_hash)

end
