(* ===== verification/Sunxi_Addr.thy ===== *)
theory Sunxi_Addr
  imports Sha256_Example Sunxi_Sid
begin

text \<open>
  The address manager of the zhiyuan board, \<open>zhiyuan/kernel/driver/drivers/misc/sunxi-addr/sunxi-addr.c\<close>: it
  chooses the addresses of the network interfaces (\<open>wifi\<close>, \<open>bt\<close>, \<open>eth\<close>) when it is probed, from the device
  tree, from the identity of the chip (\<open>Sunxi_Sid\<close>) through the hash of \<open>Sha256\<close>, or at random, and hands them
  to the drivers and to user space.

  \<^item> \<open>addr_sys\<close> is the table \<open>info\<close>, the blocks its pointers refer to, the static \<open>hash\<close> and \<open>initial\<close> of
    \<open>addr_factory\<close>, whether the class is registered, and the state of the fuse driver.
  \<^item> \<open>addr_env\<close> is the environment of the probe: the device tree, the random bytes, the allocator, and what
    the stack held.
  \<^item> \<open>None\<close> is an access through a null pointer or to a block that has been freed. The blocks are
    device-managed: they are freed when the probe fails and when the driver is removed, but the pointers stay.
\<close>

unbundle bit_operations_syntax

section \<open>State\<close>

record addr_mgt_info =
  type_def :: u32
  type_cur :: u32
  flag :: u32
  addr :: "nat option"
  name :: string

record addr_sys =
  info :: "addr_mgt_info list"
  blocks :: "nat \<Rightarrow> byte list option"
  hash :: "byte list"
  initial :: int
  addr_class :: bool
  fuses :: sid

record addr_env =
  chip :: platform
  prop_u32 :: "string \<Rightarrow> u32 option"
  prop_string :: "string \<Rightarrow> string option"
  random_bytes :: "nat \<Rightarrow> byte list"
  new_block :: "nat \<Rightarrow> nat option"
  hash_stack :: "byte list"
  addr_stack :: "byte list"
  class_status :: int

definition addr_boot :: "sid \<Rightarrow> addr_sys" where
  "addr_boot st = \<lparr>info = [\<lparr>type_def = 0, type_cur = 0, flag = 1, addr = None, name = ''wifi''\<rparr>,
       \<lparr>type_def = 0, type_cur = 0, flag = 0, addr = None, name = ''bt''\<rparr>,
       \<lparr>type_def = 0, type_cur = 0, flag = 1, addr = None, name = ''eth''\<rparr>],
     blocks = (\<lambda>_. None), hash = replicate 32 0, initial = -1, addr_class = False, fuses = st\<rparr>"

text \<open>An address as an argument, in one of the two formats.\<close>

datatype addr_fmt = FMT_STR string | FMT_VAL "byte list"

definition IS_TYPE_INVALID :: "u32 \<Rightarrow> bool" where
  "IS_TYPE_INVALID x \<longleftrightarrow> 4 < x"

section \<open>The table\<close>

definition addr_parse :: "addr_fmt \<Rightarrow> u32 \<Rightarrow> int" where
  "addr_parse a check =
     (let val_buf = (case a of FMT_STR s \<Rightarrow> scan_mac 6 s | FMT_VAL v \<Rightarrow> take 6 v) in
      if length val_buf \<noteq> 6 then -1
      else if check \<noteq> 0 \<and> val_buf ! 0 AND 1 \<noteq> 0 then -1
      else if val_buf = replicate 6 0 then -1
      else if val_buf = replicate 6 0xFF then -1
      else 0)"

fun find_name :: "string \<Rightarrow> nat \<Rightarrow> addr_mgt_info list \<Rightarrow> nat option" where
  "find_name s i [] = None"
| "find_name s i (t # ts) = (if name t = s then Some i else find_name s (Suc i) ts)"

definition addr_find_by_name :: "addr_sys \<Rightarrow> string \<Rightarrow> nat option" where
  "addr_find_by_name st s = find_name s 0 (info st)"

definition get_addr_by_name :: "bool \<Rightarrow> addr_sys \<Rightarrow> string \<Rightarrow> (int \<times> addr_fmt option) option" where
  "get_addr_by_name as_str st s =
     (case addr_find_by_name st s of
        None \<Rightarrow> Some (-1, None)
      | Some i \<Rightarrow>
          let t = info st ! i in
          if IS_TYPE_INVALID (type_cur t) then Some (-1, None)
          else do {
            p \<leftarrow> addr t;
            m \<leftarrow> blocks st p;
            if addr_parse (FMT_VAL m) (flag t) \<noteq> 0 then Some (-1, None)
            else Some (uint (type_cur t), Some (if as_str then FMT_STR (fmt_mac m) else FMT_VAL m)) })"

definition set_addr_by_name :: "u32 \<Rightarrow> addr_fmt \<Rightarrow> string \<Rightarrow> addr_sys \<Rightarrow> (int \<times> addr_sys) option" where
  "set_addr_by_name type a s st =
     (case addr_find_by_name st s of
        None \<Rightarrow> Some (-1, st)
      | Some i \<Rightarrow>
          let t = info st ! i in
          if addr_parse a (flag t) \<noteq> 0 then Some (-1, st)
          else do {
            p \<leftarrow> addr t;
            _ \<leftarrow> blocks st p;
            let m = (case a of FMT_STR x \<Rightarrow> scan_mac 6 x | FMT_VAL v \<Rightarrow> take 6 v);
            Some (0, st\<lparr>info := (info st)[i := t\<lparr>type_cur := type\<rparr>], blocks := (blocks st)(p \<mapsto> m)\<rparr>) })"

definition get_custom_mac_address :: "bool \<Rightarrow> string \<Rightarrow> addr_sys \<Rightarrow> (int \<times> addr_fmt option) option" where
  "get_custom_mac_address as_str s st = get_addr_by_name as_str st s"

definition set_wifi_custom_mac_address :: "string \<Rightarrow> nat \<Rightarrow> addr_sys \<Rightarrow> (int \<times> addr_sys) option" where
  "set_wifi_custom_mac_address addr_str count st =
     (if 18 < count \<or> addr_parse (FMT_STR addr_str) 1 \<noteq> 0 then Some (-22, st)
      else set_addr_by_name 3 (FMT_STR addr_str) ''wifi'' st)"

section \<open>Choosing the addresses\<close>

text \<open>The part of the case \<open>TYPE_IDGEN\<close> that runs while \<open>initial\<close> is -1.\<close>

definition idgen_prepare :: "addr_env \<Rightarrow> addr_sys \<Rightarrow> addr_sys option" where
  "idgen_prepare env st =
     do {
       (cid, f) \<leftarrow> sunxi_get_soc_chipid (chip env) (fuses st);
       let st = st\<lparr>fuses := f\<rparr>;
       if cid = replicate 16 0 then Some (st\<lparr>initial := 0\<rparr>)
       else if cid = replicate 16 0xFF then Some (st\<lparr>initial := 0\<rparr>)
       else do {
         (rc, h) \<leftarrow> hmac_sha256 (hash_stack env) cid;
         if rc \<noteq> 0 then Some (st\<lparr>hash := h, initial := 0\<rparr>) else Some (st\<lparr>hash := h, initial := 1\<rparr>) } }"

definition addr_factory ::
    "addr_env \<Rightarrow> nat \<Rightarrow> u32 \<Rightarrow> byte list \<Rightarrow> string \<Rightarrow> addr_sys \<Rightarrow> (int \<times> byte list \<times> addr_sys) option" where
  "addr_factory env idx type mac s st =
     (if type = 1 then
        (case prop_string env (''addr_'' @ s) of
           None \<Rightarrow> Some (-1, mac, st)
         | Some p \<Rightarrow>
             let vs = scan_mac 6 p; mac = vs @ drop (length vs) mac in
             if length vs \<noteq> 6 then Some (-1, mac, st) else Some (0, mac, st))
      else if type = 2 then
        (if 32 div 6 - 1 < idx then Some (-1, mac, st)
         else do {
           st \<leftarrow> (if initial st = -1 then idgen_prepare env st else Some st);
           if initial st = 0 then Some (-1, mac, st)
           else Some (0, take 6 (drop (idx * 6) (hash st)), st) })
      else if type = 4 then Some (0, random_bytes env idx, st)
      else Some (-1, mac, st))"

text \<open>The inner loop: the first source that works, in the order of \<open>type_tab\<close>.\<close>

fun try_types ::
    "addr_env \<Rightarrow> nat \<Rightarrow> u32 list \<Rightarrow> byte list \<Rightarrow> addr_sys \<Rightarrow> (byte list \<times> addr_sys) option" where
  "try_types env i [] mac st = Some (mac, st)"
| "try_types env i (ty # tys) mac st =
     do {
       (rc, mac, st) \<leftarrow> addr_factory env i ty mac (name (info st ! i)) st;
       if rc = 0 then Some (mac, st\<lparr>info := (info st)[i := (info st ! i)\<lparr>type_cur := ty\<rparr>]\<rparr>)
       else try_types env i tys mac st }"

definition init_type :: "addr_env \<Rightarrow> nat \<Rightarrow> addr_sys \<Rightarrow> addr_sys" where
  "init_type env i st =
     (case prop_u32 env (''type_addr_'' @ name (info st ! i)) of
        None \<Rightarrow> st
      | Some ty \<Rightarrow> st\<lparr>info := (info st)[i := (info st ! i)\<lparr>type_def := ty, type_cur := ty\<rparr>]\<rparr>)"

definition mask_addr :: "u32 \<Rightarrow> byte list \<Rightarrow> byte list" where
  "mask_addr fl m = (if fl \<noteq> 0 then m[0 := m ! 0 AND 0xFC] else m)"

definition init_entry :: "addr_env \<Rightarrow> nat \<Rightarrow> byte list \<Rightarrow> addr_sys \<Rightarrow> (int \<times> byte list \<times> addr_sys) option" where
  "init_entry env i mac st =
     (let st = init_type env i st; t = info st ! i in
      if IS_TYPE_INVALID (type_def t) then Some (-1, mac, st)
      else do {
        (rc, mac, st) \<leftarrow>
          (if type_def t \<noteq> 0 then addr_factory env i (type_def t) mac (name t) st
           else do { (mac, st) \<leftarrow> try_types env i [1, 2, 4] mac st; Some (0, mac, st) });
        if rc \<noteq> 0 then Some (-1, mac, st)
        else do {
          let mac = mask_addr (flag (info st ! i)) mac;
          if addr_parse (FMT_VAL mac) (flag (info st ! i)) \<noteq> 0 then Some (-1, mac, st)
          else do {
            p \<leftarrow> new_block env i;
            Some (0, mac, st\<lparr>info := (info st)[i := (info st ! i)\<lparr>addr := Some p\<rparr>], blocks := (blocks st)(p \<mapsto> mac)\<rparr>) } } })"

fun init_entries :: "addr_env \<Rightarrow> nat list \<Rightarrow> byte list \<Rightarrow> addr_sys \<Rightarrow> (int \<times> addr_sys) option" where
  "init_entries env [] mac st = Some (0, st)"
| "init_entries env (i # is) mac st =
     do {
       (rc, mac, st) \<leftarrow> init_entry env i mac st;
       if rc \<noteq> 0 then Some (rc, st) else init_entries env is mac st }"

definition addr_init :: "addr_env \<Rightarrow> addr_sys \<Rightarrow> (int \<times> addr_sys) option" where
  "addr_init env st = init_entries env [0..<length (info st)] (addr_stack env) st"

section \<open>Class attributes and the driver\<close>

fun summary_lines :: "(nat \<Rightarrow> byte list option) \<Rightarrow> addr_mgt_info list \<Rightarrow> string option" where
  "summary_lines bl [] = Some []"
| "summary_lines bl (t # ts) =
     do {
       p \<leftarrow> addr t;
       m \<leftarrow> bl p;
       rest \<leftarrow> summary_lines bl ts;
       Some (fmt_str 4 (name t) @ ''  '' @ fmt_dec (unat (type_def t)) @ ''   '' @ fmt_dec (unat (type_cur t)) @ ''  '' @
             fmt_mac m @ [newline] @ rest) }"

definition summary_show :: "addr_sys \<Rightarrow> string option" where
  "summary_show st = do { ls \<leftarrow> summary_lines (blocks st) (info st); Some (''name cfg cur address'' @ [newline] @ ls) }"

text \<open>\<open>addr_wifi_show\<close>, \<open>addr_bt_show\<close> and \<open>addr_eth_show\<close>, and the matching \<open>store\<close> handlers.\<close>

definition addr_show :: "string \<Rightarrow> addr_sys \<Rightarrow> string option" where
  "addr_show s st =
     do {
       (rc, a) \<leftarrow> get_addr_by_name True st s;
       if rc < 0 \<or> 4 < rc then Some []
       else Some ((case a of Some (FMT_STR x) \<Rightarrow> take 17 x | _ \<Rightarrow> []) @ [newline]) }"

definition addr_store :: "string \<Rightarrow> string \<Rightarrow> nat \<Rightarrow> addr_sys \<Rightarrow> (int \<times> addr_sys) option" where
  "addr_store s buf count st =
     (if count \<noteq> 18 then Some (-22, st)
      else do { (_, st) \<leftarrow> set_addr_by_name 3 (FMT_STR buf) s st; Some (int count, st) })"

text \<open>A failed probe and a removal release the device-managed blocks.\<close>

definition addr_mgt_probe :: "addr_env \<Rightarrow> addr_sys \<Rightarrow> (int \<times> addr_sys) option" where
  "addr_mgt_probe env st =
     (if class_status env < 0 then Some (-1, st)
      else do {
        (rc, st) \<leftarrow> addr_init env (st\<lparr>addr_class := True\<rparr>);
        if rc \<noteq> 0 then Some (-1, st\<lparr>addr_class := False, blocks := (\<lambda>_. None)\<rparr>) else Some (0, st) })"

definition addr_mgt_remove :: "addr_sys \<Rightarrow> int \<times> addr_sys" where
  "addr_mgt_remove st = (0, st\<lparr>addr_class := False, blocks := (\<lambda>_. None)\<rparr>)"
section \<open>Invariant\<close>

definition entry_ok :: "(nat \<Rightarrow> byte list option) \<Rightarrow> addr_mgt_info \<Rightarrow> bool" where
  "entry_ok bl t \<longleftrightarrow> \<not> IS_TYPE_INVALID (type_cur t) \<and>
     (\<exists>p m. addr t = Some p \<and> bl p = Some m \<and> length m = 6 \<and> addr_parse (FMT_VAL m) (flag t) = 0)"

definition addr_inv :: "addr_sys \<Rightarrow> bool" where
  "addr_inv st \<longleftrightarrow> map name (info st) = [''wifi'', ''bt'', ''eth''] \<and> map flag (info st) = [1, 0, 1] \<and>
     list_all (entry_ok (blocks st)) (info st) \<and> distinct (map addr (info st))"

text \<open>An address passes \<open>addr_parse\<close> exactly if it is neither zero nor broadcast, and unicast where that is asked for.\<close>

lemma addr_parse_val:
  "length m = 6 \<Longrightarrow> addr_parse (FMT_VAL m) fl = 0 \<longleftrightarrow>
     m \<noteq> replicate 6 0 \<and> m \<noteq> replicate 6 0xFF \<and> (fl \<noteq> 0 \<longrightarrow> m ! 0 AND 1 = 0)"
  by (auto simp: addr_parse_def)

lemma addr_parse_str:
  "addr_parse (FMT_STR s) fl = 0 \<longleftrightarrow> length (scan_mac 6 s) = 6 \<and> addr_parse (FMT_VAL (scan_mac 6 s)) fl = 0"
  by (auto simp: addr_parse_def Let_def)

lemma find_name_nth: "find_name s i ts = Some j \<Longrightarrow> i \<le> j \<and> j - i < length ts \<and> name (ts ! (j - i)) = s"
proof (induction s i ts rule: find_name.induct)
  case (2 s i t ts)
  show ?case
  proof (cases "name t = s")
    case False
    then have "Suc i \<le> j \<and> j - Suc i < length ts \<and> name (ts ! (j - Suc i)) = s" using 2 by simp
    moreover from this have "j - i = Suc (j - Suc i)" by arith
    ultimately show ?thesis by simp
  qed (use 2(2) in simp)
qed simp

lemma find_by_name_nth: "addr_find_by_name st s = Some j \<Longrightarrow> j < length (info st) \<and> name (info st ! j) = s"
  using find_name_nth [of s 0 "info st" j] by (simp add: addr_find_by_name_def)

lemma get_run:
  assumes "addr_inv st"
  shows "\<exists>rc a. get_addr_by_name as_str st s = Some (rc, a) \<and> (rc = -1 \<and> a = None \<and> s \<notin> {''wifi'', ''bt'', ''eth''} \<or>
    (\<exists>i p m. addr_find_by_name st s = Some i \<and> addr (info st ! i) = Some p \<and> blocks st p = Some m \<and> length m = 6 \<and>
       addr_parse (FMT_VAL m) (flag (info st ! i)) = 0 \<and> 0 \<le> rc \<and> rc \<le> 4 \<and> a = Some (if as_str then FMT_STR (fmt_mac m) else FMT_VAL m)))"
proof (cases "addr_find_by_name st s")
  case None
  have "find_name s 0 (info st) = None \<Longrightarrow> s \<notin> {''wifi'', ''bt'', ''eth''}"
    using assms by (auto simp: addr_inv_def map_eq_Cons_conv split: if_splits)
  with None show ?thesis by (simp add: get_addr_by_name_def addr_find_by_name_def)
next
  case (Some i)
  then have "entry_ok (blocks st) (info st ! i)"
    using assms find_by_name_nth [OF Some] by (simp add: addr_inv_def list_all_length)
  moreover have "uint (type_cur (info st ! i)) \<le> 4" if "\<not> IS_TYPE_INVALID (type_cur (info st ! i))"
    using that by (simp add: IS_TYPE_INVALID_def not_less word_le_def)
  ultimately show ?thesis
    using Some by (auto simp: get_addr_by_name_def entry_ok_def Let_def)
qed

lemma set_run:
  assumes "addr_inv st" "\<not> IS_TYPE_INVALID ty"
  shows "\<exists>rc st'. set_addr_by_name ty a s st = Some (rc, st') \<and> addr_inv st'"
proof (cases "addr_find_by_name st s")
  case (Some i)
  note i = find_by_name_nth [OF Some]
  have ok: "entry_ok (blocks st) (info st ! j)" if "j < length (info st)" for j
    using assms that by (simp add: addr_inv_def list_all_length)
  show ?thesis
  proof (cases "addr_parse a (flag (info st ! i)) = 0")
    case True
    obtain p m0 where p: "addr (info st ! i) = Some p" "blocks st p = Some m0" using ok [of i] i by (auto simp: entry_ok_def)
    define m where "m = (case a of FMT_STR x \<Rightarrow> scan_mac 6 x | FMT_VAL v \<Rightarrow> take 6 v)"
    have m: "length m = 6" "addr_parse (FMT_VAL m) (flag (info st ! i)) = 0"
      using True by (auto simp: m_def addr_parse_def Let_def split: addr_fmt.splits if_splits)
    let ?is = "(info st)[i := (info st ! i)\<lparr>type_cur := ty\<rparr>]"
    have keep: "map name ?is = map name (info st)" "map flag ?is = map flag (info st)" "map addr ?is = map addr (info st)"
      using i by (simp_all add: map_update list_update_same_conv)
    have "entry_ok ((blocks st)(p \<mapsto> m)) (?is ! j)" if "j < length (info st)" for j
    proof (cases "j = i")
      case False
      have "distinct (map addr (info st))" using assms(1) by (simp add: addr_inv_def)
      then have "addr (info st ! j) \<noteq> Some p"
        using nth_eq_iff_index_eq [of "map addr (info st)" i j] p(1) i that False by simp
      then show ?thesis using ok [OF that] False by (auto simp: entry_ok_def)
    qed (use i p m assms(2) in \<open>auto simp: entry_ok_def\<close>)
    then have "addr_inv (st\<lparr>info := ?is, blocks := (blocks st)(p \<mapsto> m)\<rparr>)"
      using assms(1) keep by (simp add: addr_inv_def list_all_length)
    then show ?thesis using Some True p by (simp add: set_addr_by_name_def m_def [symmetric] Let_def)
  qed (use assms Some in \<open>simp add: set_addr_by_name_def\<close>)
qed (use assms in \<open>simp add: set_addr_by_name_def\<close>)

text \<open>What a successful \<open>set\<close> stored is what a \<open>get\<close> returns.\<close>

lemma get_after_set:
  assumes "addr_inv st" "set_addr_by_name ty a s st = Some (0, st')" "\<not> IS_TYPE_INVALID ty"
  shows "get_addr_by_name False st' s = Some (uint ty, Some (FMT_VAL (case a of FMT_STR x \<Rightarrow> scan_mac 6 x | FMT_VAL v \<Rightarrow> take 6 v)))"
proof -
  from assms(2) obtain i where i: "addr_find_by_name st s = Some i" by (auto simp: set_addr_by_name_def split: option.splits)
  define m where "m = (case a of FMT_STR x \<Rightarrow> scan_mac 6 x | FMT_VAL v \<Rightarrow> take 6 v)"
  from assms(2) i obtain p where p: "addr_parse a (flag (info st ! i)) = 0" "addr (info st ! i) = Some p"
      "st' = st\<lparr>info := (info st)[i := (info st ! i)\<lparr>type_cur := ty\<rparr>], blocks := (blocks st)(p \<mapsto> m)\<rparr>"
    by (auto simp: set_addr_by_name_def m_def Let_def split: if_splits Option.bind_splits)
  have names: "find_name s k (ts[n := (ts ! n)\<lparr>type_cur := ty\<rparr>]) = find_name s k ts" for k n ts
    by (induction ts arbitrary: k n) (auto split: nat.splits)
  have "addr_find_by_name st' s = Some i" using i p(3) names by (simp add: addr_find_by_name_def)
  moreover have "addr_parse (FMT_VAL m) (flag (info st ! i)) = 0"
    using p(1) by (auto simp: m_def addr_parse_def Let_def split: addr_fmt.splits if_splits)
  ultimately show ?thesis
    using p(2,3) find_by_name_nth [OF i] assms(3) by (simp add: get_addr_by_name_def m_def [symmetric])
qed

section \<open>Calls in any order\<close>

datatype addr_op =
    Get_mac bool string
  | Set_wifi string nat
  | Show_addr string
  | Store_addr string string nat
  | Summary

fun addr_exec :: "addr_op \<Rightarrow> addr_sys \<Rightarrow> addr_sys option" where
  "addr_exec (Get_mac as_str s) st = map_option (\<lambda>_. st) (get_custom_mac_address as_str s st)"
| "addr_exec (Set_wifi s n) st = map_option snd (set_wifi_custom_mac_address s n st)"
| "addr_exec (Show_addr s) st = map_option (\<lambda>_. st) (addr_show s st)"
| "addr_exec (Store_addr s buf n) st = map_option snd (addr_store s buf n st)"
| "addr_exec Summary st = map_option (\<lambda>_. st) (summary_show st)"

fun addr_trace :: "addr_op list \<Rightarrow> addr_sys \<Rightarrow> addr_sys option" where
  "addr_trace [] st = Some st"
| "addr_trace (op # ops) st = do { st' \<leftarrow> addr_exec op st; addr_trace ops st' }"

lemma summary_run: "list_all (entry_ok bl) ts \<Longrightarrow> \<exists>ls. summary_lines bl ts = Some ls"
  by (induction ts) (auto simp: entry_ok_def)

lemma addr_exec_run:
  assumes "addr_inv st" shows "\<exists>st'. addr_exec op st = Some st' \<and> addr_inv st'"
proof (cases op)
  case (Get_mac as_str s)
  then show ?thesis using get_run [OF assms, of as_str s] assms by (auto simp: get_custom_mac_address_def)
next
  case (Set_wifi s n)
  then show ?thesis using set_run [OF assms, of 3 "FMT_STR s" "''wifi''"] assms
    by (auto simp: set_wifi_custom_mac_address_def IS_TYPE_INVALID_def)
next
  case (Show_addr s)
  then show ?thesis using get_run [OF assms, of True s] assms by (auto simp: addr_show_def)
next
  case (Store_addr s buf n)
  then show ?thesis using set_run [OF assms, of 3 "FMT_STR buf" s] assms
    by (auto simp: addr_store_def IS_TYPE_INVALID_def)
next
  case Summary
  then show ?thesis using summary_run [of "blocks st" "info st"] assms by (auto simp: summary_show_def addr_inv_def)
qed
section \<open>The probe\<close>

text \<open>The environment does what its interfaces promise.\<close>

definition env_ok :: "addr_env \<Rightarrow> bool" where
  "env_ok env \<longleftrightarrow> dt_ok (chip env) \<and> length (hash_stack env) = 64 \<and> length (addr_stack env) = 6 \<and>
     list_all (\<lambda>i. length (random_bytes env i) = 6 \<and> new_block env i \<noteq> None) [0, 1, 2] \<and>
     distinct (map (new_block env) [0, 1, 2])"

lemma env_at:
  assumes "env_ok env" "i < 3"
  shows "length (random_bytes env i) = 6 \<and> (\<exists>p. new_block env i = Some p) \<and> (\<forall>j < i. new_block env j \<noteq> new_block env i)"
proof -
  have "i = 0 \<or> i = 1 \<or> i = 2" using assms(2) by arith
  then show ?thesis using assms(1) by (elim disjE) (auto simp: env_ok_def less_2_cases_iff)
qed

text \<open>The static variables of \<open>addr_factory\<close> and the fuse driver.\<close>

definition factory_ok :: "addr_sys \<Rightarrow> bool" where
  "factory_ok st \<longleftrightarrow> sid_inv (fuses st) \<and> length (hash st) = 32"

lemma chipid_bytes:
  assumes "sid_inv f" "dt_ok hw"
  shows "\<exists>cid f'. sunxi_get_soc_chipid hw f = Some (cid, f') \<and> length cid = 16 \<and> sid_inv f'"
proof -
  obtain f' where f': "sid_chipid_init hw f = Some f'" "sid_inv f'" using chipid_init_run [OF assms] by blast
  have "length (concat (map le_bytes4 ws)) = 4 * length ws" for ws by (induction ws) (simp_all add: le_bytes4_def)
  then show ?thesis using f' by (simp add: sunxi_get_soc_chipid_def sid_inv_def)
qed

lemma prepare_run:
  assumes "factory_ok st" "env_ok env"
  shows "\<exists>st'. idgen_prepare env st = Some st' \<and> factory_ok st' \<and> info st' = info st \<and> blocks st' = blocks st"
proof -
  obtain cid f where c: "sunxi_get_soc_chipid (chip env) (fuses st) = Some (cid, f)" "length cid = 16" "sid_inv f"
    using chipid_bytes [of "fuses st" "chip env"] assms by (auto simp: factory_ok_def env_ok_def)
  have "hmac_sha256 (hash_stack env) cid = Some (0, SHA256 cid)"
    using assms(2) c(2) by (intro sha256_hash) (simp_all add: env_ok_def)
  then show ?thesis using c assms by (auto simp: idgen_prepare_def factory_ok_def SHA256_length Let_def)
qed

lemma factory_run:
  assumes "factory_ok st" "env_ok env" "length mac = 6" "i < 3"
  shows "\<exists>rc mac' st'. addr_factory env i ty mac s st = Some (rc, mac', st') \<and> length mac' = 6 \<and> factory_ok st' \<and>
    info st' = info st \<and> blocks st' = blocks st \<and> (ty = 4 \<longrightarrow> rc = 0)"
proof -
  obtain st1 where st1: "(if initial st = -1 then idgen_prepare env st else Some st) = Some st1" "factory_ok st1"
      "info st1 = info st" "blocks st1 = blocks st"
    using prepare_run [OF assms(1,2)] assms(1) by (cases "initial st = -1") auto
  have r: "length (random_bytes env i) = 6" using env_at [OF assms(2,4)] by simp
  have "length (take 6 (drop (i * 6) (hash st1))) = 6" using st1(2) assms(4) by (simp add: factory_ok_def)
  moreover have "length (vs @ drop (length vs) mac) = 6" if "length vs \<le> 6" for vs :: "byte list" using assms(3) that by simp
  moreover note scan_mac_length [of 6]
  ultimately show ?thesis
    using st1 assms r by (auto simp: addr_factory_def Let_def split: option.split)
qed

lemma types_run:
  assumes "env_ok env" "i < 3" "4 \<in> set tys" "set tys \<subseteq> {1, 2, 4}"
  shows "factory_ok st \<Longrightarrow> length mac = 6 \<Longrightarrow> \<exists>mac' st' ty. try_types env i tys mac st = Some (mac', st') \<and> length mac' = 6 \<and>
    factory_ok st' \<and> ty \<in> {1, 2, 4} \<and> info st' = (info st)[i := (info st ! i)\<lparr>type_cur := ty\<rparr>] \<and> blocks st' = blocks st"
  using assms(3,4)
proof (induction tys arbitrary: mac st)
  case (Cons ty tys)
  obtain rc mac' st' where f: "addr_factory env i ty mac (name (info st ! i)) st = Some (rc, mac', st')" "length mac' = 6"
      "factory_ok st'" "info st' = info st" "blocks st' = blocks st" "ty = 4 \<longrightarrow> rc = 0"
    using factory_run [OF Cons.prems(1) assms(1) Cons.prems(2) assms(2)] by blast
  show ?case
  proof (cases "rc = 0")
    case True
    then show ?thesis using f Cons.prems by (auto simp: factory_ok_def)
  next
    case False
    then have "4 \<in> set tys" using f(6) Cons.prems by auto
    then show ?thesis using Cons.IH [OF f(3,2)] Cons.prems f False by auto
  qed
qed simp

text \<open>The table after the entries before \<open>k\<close> have been set up.\<close>

definition set_up :: "addr_env \<Rightarrow> nat \<Rightarrow> addr_sys \<Rightarrow> bool" where
  "set_up env k st \<longleftrightarrow> factory_ok st \<and> map name (info st) = [''wifi'', ''bt'', ''eth''] \<and> map flag (info st) = [1, 0, 1] \<and>
     (\<forall>j < k. addr (info st ! j) = new_block env j \<and> entry_ok (blocks st) (info st ! j)) \<and>
     (\<forall>j. k \<le> j \<and> j < 3 \<longrightarrow> type_def (info st ! j) = 0 \<and> type_cur (info st ! j) = 0)"

lemma set_up_length: "set_up env k st \<Longrightarrow> length (info st) = 3"
  by (metis set_up_def length_map list.size(3,4) One_nat_def numeral_3_eq_3 add_Suc_right add_0_right)


lemma set_up_old: "set_up env i st \<Longrightarrow> i < 3 \<Longrightarrow> info st ! i = (info st ! i)\<lparr>type_def := 0, type_cur := 0\<rparr>"
  by (simp add: set_up_def)

lemma init_type_info:
  assumes "set_up env' i st" "i < 3"
  shows "\<exists>d. init_type env i st = st\<lparr>info := (info st)[i := (info st ! i)\<lparr>type_def := d, type_cur := d\<rparr>]\<rparr>"
proof (cases "prop_u32 env (''type_addr_'' @ name (info st ! i))")
  case None
  then show ?thesis using set_up_old [OF assms] by (intro exI [of _ 0]) (simp add: init_type_def)
qed (auto simp: init_type_def)

lemma choose_run:
  assumes "env_ok env" "i < 3" "length mac = 6" "factory_ok st" "length (info st) = 3" "t = info st ! i" "type_def t = type_cur t"
    "\<not> IS_TYPE_INVALID (type_def t)"
  shows "\<exists>rc mac' st' c. (if type_def t \<noteq> 0 then addr_factory env i (type_def t) mac (name t) st
           else do { (mac, st) \<leftarrow> try_types env i [1, 2, 4] mac st; Some (0, mac, st) }) = Some (rc, mac', st') \<and>
    length mac' = 6 \<and> factory_ok st' \<and> blocks st' = blocks st \<and> info st' = (info st)[i := t\<lparr>type_cur := c\<rparr>] \<and> \<not> IS_TYPE_INVALID c"
proof (cases "type_def t = 0")
  case True
  obtain mac' st' ty where "try_types env i [1, 2, 4] mac st = Some (mac', st')" "length mac' = 6" "factory_ok st'"
      "ty \<in> {1, 2, 4}" "info st' = (info st)[i := (info st ! i)\<lparr>type_cur := ty\<rparr>]" "blocks st' = blocks st"
    using types_run [OF assms(1,2), of "[1, 2, 4]" st mac] assms(3,4) by auto
  then show ?thesis using True assms(6) by (auto simp: IS_TYPE_INVALID_def)
next
  case False
  obtain rc mac' st' where "addr_factory env i (type_def t) mac (name t) st = Some (rc, mac', st')" "length mac' = 6"
      "factory_ok st'" "info st' = info st" "blocks st' = blocks st"
    using factory_run [OF assms(4,1,3,2)] by blast
  moreover have "(info st)[i := t\<lparr>type_cur := type_cur t\<rparr>] = info st" using assms(6) by simp
  ultimately show ?thesis using False assms(7,8) by metis
qed

lemma set_up_next:
  assumes "set_up env i st" "i < 3" "factory_ok st2" "\<not> IS_TYPE_INVALID c" "new_block env i = Some p" "length m = 6"
    "addr_parse (FMT_VAL m) (flag t) = 0" "name t = name (info st ! i) \<and> flag t = flag (info st ! i) \<and> type_cur t = c"
    "\<And>j. j < i \<Longrightarrow> new_block env j \<noteq> Some p"
  shows "set_up env (Suc i) (st2\<lparr>info := (info st)[i := t\<lparr>addr := Some p\<rparr>], blocks := (blocks st)(p \<mapsto> m)\<rparr>)"
proof -
  note len = set_up_length [OF assms(1)]
  have "entry_ok ((blocks st)(p \<mapsto> m)) (info st ! j)" if "j < i" for j
    using assms(1) assms(9) [OF that] that by (fastforce simp: set_up_def entry_ok_def)
  moreover have "entry_ok ((blocks st)(p \<mapsto> m)) (t\<lparr>addr := Some p\<rparr>)" using assms(4,6-8) by (simp add: entry_ok_def)
  moreover have "(map name (info st))[i := name t] = map name (info st)" "(map flag (info st))[i := flag t] = map flag (info st)"
    using assms(2,8) len by (simp_all add: list_update_same_conv)
  ultimately show ?thesis
    using assms(1-3,5) len by (auto simp: set_up_def factory_ok_def map_update nth_list_update less_Suc_eq)
qed

lemma entry_run:
  assumes "set_up env i st" "env_ok env" "i < 3" "length mac = 6"
  shows "\<exists>rc mac' st'. init_entry env i mac st = Some (rc, mac', st') \<and> length mac' = 6 \<and> (rc = 0 \<longrightarrow> set_up env (Suc i) st')"
proof -
  note len = set_up_length [OF assms(1)]
  obtain d where d: "init_type env i st = st\<lparr>info := (info st)[i := (info st ! i)\<lparr>type_def := d, type_cur := d\<rparr>]\<rparr>"
    using init_type_info [OF assms(1,3)] by blast
  define t where "t = (info st ! i)\<lparr>type_def := d, type_cur := d\<rparr>"
  define st1 where "st1 = st\<lparr>info := (info st)[i := t]\<rparr>"
  have st1: "factory_ok st1" "length (info st1) = 3" "info st1 ! i = t" "blocks st1 = blocks st" "type_def t = type_cur t"
    using assms(1,3) len by (simp_all add: st1_def t_def set_up_def factory_ok_def)
  show ?thesis
  proof (cases "IS_TYPE_INVALID (type_def t)")
    case False
    obtain rc mac2 st2 c where 2: "(if type_def t \<noteq> 0 then addr_factory env i (type_def t) mac (name t) st1
           else do { (mac, st) \<leftarrow> try_types env i [1, 2, 4] mac st1; Some (0, mac, st) }) = Some (rc, mac2, st2)"
        "length mac2 = 6" "factory_ok st2" "blocks st2 = blocks st" "info st2 = (info st)[i := t\<lparr>type_cur := c\<rparr>]" "\<not> IS_TYPE_INVALID c"
      using choose_run [OF assms(2,3,4) st1(1,2) st1(3) [symmetric] st1(5) False] st1(4) by (auto simp: st1_def)
    obtain p where p: "new_block env i = Some p" using env_at [OF assms(2,3)] by blast
    let ?t = "t\<lparr>type_cur := c\<rparr>" and ?m = "mask_addr (flag (info st2 ! i)) mac2"
    have run: "init_entry env i mac st = (if rc \<noteq> 0 then Some (-1, mac2, st2)
        else if addr_parse (FMT_VAL ?m) (flag ?t) \<noteq> 0 then Some (-1, ?m, st2)
        else Some (0, ?m, st2\<lparr>info := (info st)[i := ?t\<lparr>addr := Some p\<rparr>], blocks := (blocks st)(p \<mapsto> ?m)\<rparr>))"
      using d 2(1,4,5) st1(3) p False len assms(3)
      by (simp add: init_entry_def t_def [symmetric] st1_def [symmetric]) (simp add: Let_def)
    have m: "length ?m = 6" using 2(2) by (simp add: mask_addr_def)
    have other: "new_block env j \<noteq> Some p" if "j < i" for j
      using env_at [OF assms(2,3)] p that by metis
    have "set_up env (Suc i) (st2\<lparr>info := (info st)[i := ?t\<lparr>addr := Some p\<rparr>], blocks := (blocks st)(p \<mapsto> ?m)\<rparr>)"
      if "addr_parse (FMT_VAL ?m) (flag ?t) = 0"
      using set_up_next [OF assms(1,3) 2(3,6) p m that _ other] by (simp add: t_def)
    then show ?thesis using run m 2(2) by auto
  qed (use d st1 assms(4) in \<open>simp add: init_entry_def t_def [symmetric] st1_def [symmetric]\<close>)
qed

lemma entries_run:
  "set_up env i st \<Longrightarrow> env_ok env \<Longrightarrow> length mac = 6 \<Longrightarrow> i + n = 3 \<Longrightarrow>
   \<exists>rc st'. init_entries env [i..<3] mac st = Some (rc, st') \<and> (rc = 0 \<longrightarrow> set_up env 3 st')"
proof (induction n arbitrary: i mac st)
  case (Suc n)
  then have i: "i < 3" "[i..<3] = i # [Suc i..<3]" by (simp_all add: upt_rec)
  obtain rc mac' st' where "init_entry env i mac st = Some (rc, mac', st')" "length mac' = 6" "rc = 0 \<longrightarrow> set_up env (Suc i) st'"
    using entry_run [OF Suc.prems(1,2) i(1) Suc.prems(3)] by blast
  then show ?case using Suc.IH [of "Suc i" st' mac'] Suc.prems i by (cases "rc = 0") auto
qed simp
lemma boot_set_up: "sid_inv f \<Longrightarrow> set_up env 0 ((addr_boot f)\<lparr>addr_class := True\<rparr>)"
  by (auto simp: set_up_def addr_boot_def factory_ok_def numeral_3_eq_3 less_Suc_eq)

lemma set_up_inv:
  assumes "set_up env 3 st" "env_ok env" shows "addr_inv st"
proof -
  note len = set_up_length [OF assms(1)]
  have "map addr (info st) = map (new_block env) [0, 1, 2]"
    using assms(1) len by (intro nth_equalityI) (auto simp: set_up_def numeral_3_eq_3 less_Suc_eq numeral_2_eq_2)
  moreover have "list_all (entry_ok (blocks st)) (info st)" using assms(1) len by (simp add: set_up_def list_all_length)
  ultimately show ?thesis using assms by (simp add: addr_inv_def set_up_def env_ok_def del: list.map)
qed

lemma probe_run:
  assumes "env_ok env" "sid_inv f"
  shows "\<exists>rc st. addr_mgt_probe env (addr_boot f) = Some (rc, st) \<and> (rc = 0 \<longrightarrow> addr_inv st \<and> set_up env 3 st)"
proof (cases "class_status env < 0")
  case False
  let ?b = "(addr_boot f)\<lparr>addr_class := True\<rparr>"
  have "length (addr_stack env) = 6" using assms(1) by (simp add: env_ok_def)
  then obtain rc st where "init_entries env [0..<3] (addr_stack env) ?b = Some (rc, st)" "rc = 0 \<longrightarrow> set_up env 3 st"
    using entries_run [OF boot_set_up [OF assms(2)] assms(1), of "addr_stack env" 3] by auto
  moreover have "length (info ?b) = 3" by (simp add: addr_boot_def)
  ultimately have "addr_init env ?b = Some (rc, st)" by (simp only: addr_init_def)
  then show ?thesis using False set_up_inv [OF _ assms(1)] \<open>rc = 0 \<longrightarrow> set_up env 3 st\<close>
    by (auto simp: addr_mgt_probe_def)
qed (simp add: addr_mgt_probe_def)

section \<open>Addresses from the identity of the chip\<close>

definition idgen_ready :: "addr_env \<Rightarrow> byte list \<Rightarrow> addr_sys \<Rightarrow> bool" where
  "idgen_ready env cid st \<longleftrightarrow>
     initial st = -1 \<and> (\<exists>f. sunxi_get_soc_chipid (chip env) (fuses st) = Some (cid, f)) \<or>
     initial st = 1 \<and> hash st = SHA256 cid"

definition id_slice :: "byte list \<Rightarrow> nat \<Rightarrow> byte list" where
  "id_slice cid i = take 6 (drop (i * 6) (SHA256 cid))"

definition no_config :: "addr_env \<Rightarrow> bool" where
  "no_config env \<longleftrightarrow> list_all (\<lambda>s. prop_u32 env (''type_addr_'' @ s) = None \<and> prop_string env (''addr_'' @ s) = None)
     [''wifi'', ''bt'', ''eth'']"

definition good_id :: "byte list \<Rightarrow> bool" where
  "good_id cid \<longleftrightarrow> length cid = 16 \<and> cid \<noteq> replicate 16 0 \<and> cid \<noteq> replicate 16 0xFF"

lemma idgen_types:
  assumes "env_ok env" "no_config env" "good_id cid" "idgen_ready env cid st" "i < 3" "map name (info st) = [''wifi'', ''bt'', ''eth'']"
  shows "\<exists>st'. try_types env i [1, 2, 4] mac st =
      Some (id_slice cid i, st'\<lparr>info := (info st)[i := (info st ! i)\<lparr>type_cur := 2\<rparr>]\<rparr>) \<and>
    initial st' = 1 \<and> hash st' = SHA256 cid \<and> blocks st' = blocks st"
proof -
  have i: "i = 0 \<or> i = 1 \<or> i = 2" using assms(5) by arith
  have "prop_string env (''addr_'' @ name (info st ! i)) = None"
    using i assms(2,6) by (elim disjE) (auto simp: no_config_def map_eq_Cons_conv)
  then have burn: "addr_factory env i 1 mac (name (info st ! i)) st = Some (-1, mac, st)" by (simp add: addr_factory_def)
  have h: "hmac_sha256 (hash_stack env) cid = Some (0, SHA256 cid)"
    using assms(1,3) by (intro sha256_hash) (simp_all add: env_ok_def good_id_def)
  obtain st' where st': "(if initial st = -1 then idgen_prepare env st else Some st) = Some st'" "initial st' = 1"
      "hash st' = SHA256 cid" "info st' = info st" "blocks st' = blocks st"
    using assms(3,4) h by (auto simp: idgen_ready_def idgen_prepare_def good_id_def Let_def)
  have "addr_factory env i 2 mac (name (info st ! i)) st = Some (0, id_slice cid i, st')"
    using st' assms(5) by (simp add: addr_factory_def id_slice_def)
  then show ?thesis using burn st' by (auto intro!: exI [of _ st'])
qed

text \<open>The blocks of the entries before \<open>k\<close> hold the slices of the hash.\<close>

definition id_entries :: "addr_env \<Rightarrow> byte list \<Rightarrow> nat \<Rightarrow> addr_sys \<Rightarrow> bool" where
  "id_entries env cid k st \<longleftrightarrow> idgen_ready env cid st \<and>
     (\<forall>j < k. \<forall>p. new_block env j = Some p \<longrightarrow> blocks st p = Some (mask_addr (flag (info st ! j)) (id_slice cid j)))"

lemma idgen_entry_eq:
  assumes "env_ok env" "no_config env" "good_id cid" "set_up env i st" "idgen_ready env cid st" "i < 3" "new_block env i = Some p"
  shows "\<exists>st1. initial st1 = 1 \<and> hash st1 = SHA256 cid \<and>
    init_entry env i mac st =
     (let fl = flag (info st ! i); m = mask_addr fl (id_slice cid i) in
      if addr_parse (FMT_VAL m) fl \<noteq> 0
      then Some (-1, m, st1\<lparr>info := (info st)[i := (info st ! i)\<lparr>type_cur := 2\<rparr>]\<rparr>)
      else Some (0, m, st1\<lparr>info := (info st)[i := (info st ! i)\<lparr>type_cur := 2, addr := Some p\<rparr>], blocks := (blocks st)(p \<mapsto> m)\<rparr>))"
proof -
  note len = set_up_length [OF assms(4)]
  have names: "map name (info st) = [''wifi'', ''bt'', ''eth'']" using assms(4) by (simp add: set_up_def)
  have i: "i = 0 \<or> i = 1 \<or> i = 2" using assms(6) by arith
  have "prop_u32 env (''type_addr_'' @ name (info st ! i)) = None"
    using i assms(2) names by (elim disjE) (auto simp: no_config_def map_eq_Cons_conv)
  then have ty: "init_type env i st = st" by (simp add: init_type_def)
  have zero: "type_def (info st ! i) = 0" using assms(4,6) by (simp add: set_up_def)
  obtain st1 where st1: "try_types env i [1, 2, 4] mac st =
      Some (id_slice cid i, st1\<lparr>info := (info st)[i := (info st ! i)\<lparr>type_cur := 2\<rparr>]\<rparr>)"
      "initial st1 = 1" "hash st1 = SHA256 cid" "blocks st1 = blocks st"
    using idgen_types [OF assms(1-3) assms(5,6) names, of mac] by blast
  then show ?thesis
    using ty zero assms(7) len assms(6)
    by (intro exI [of _ st1]) (simp add: init_entry_def IS_TYPE_INVALID_def Let_def del: try_types.simps)
qed

lemma idgen_entry:
  assumes "env_ok env" "no_config env" "good_id cid" "set_up env i st" "id_entries env cid i st" "i < 3"
    "init_entry env i mac st = Some (0, mac', st')"
  shows "id_entries env cid (Suc i) st'"
proof -
  note len = set_up_length [OF assms(4)]
  obtain p where p: "new_block env i = Some p" "\<forall>j < i. new_block env j \<noteq> Some p" using env_at [OF assms(1,6)] by metis
  have "idgen_ready env cid st" using assms(5) by (simp add: id_entries_def)
  from idgen_entry_eq [OF assms(1-4) this assms(6) p(1), of mac] show ?thesis
    using assms(5-7) len p(2) p(1)
    by (auto simp: id_entries_def idgen_ready_def less_Suc_eq nth_list_update Let_def split: if_splits)
qed

text \<open>If the slices are valid addresses, the probe succeeds.\<close>

definition slices_ok :: "byte list \<Rightarrow> bool" where
  "slices_ok cid \<longleftrightarrow> list_all (\<lambda>i. addr_parse (FMT_VAL (mask_addr ([1, 0, 1] ! i) (id_slice cid i))) ([1, 0, 1] ! i) = 0) [0, 1, 2]"

lemma idgen_entries_succeed:
  assumes "env_ok env" "no_config env" "good_id cid" "slices_ok cid"
  shows "set_up env i st \<Longrightarrow> id_entries env cid i st \<Longrightarrow> length mac = 6 \<Longrightarrow> i + n = 3 \<Longrightarrow>
   \<exists>st'. init_entries env [i..<3] mac st = Some (0, st')"
proof (induction n arbitrary: i mac st)
  case (Suc n)
  then have i: "i < 3" "[i..<3] = i # [Suc i..<3]" "i = 0 \<or> i = 1 \<or> i = 2" by (simp_all add: upt_rec) arith
  obtain p where p: "new_block env i = Some p" using env_at [OF assms(1) i(1)] by blast
  have "map flag (info st) = [1, 0, 1]" using Suc.prems(1) by (simp add: set_up_def)
  then have "flag (info st ! i) = [1, 0, 1] ! i" using i(1) by (metis nth_map set_up_length [OF Suc.prems(1)])
  moreover have "addr_parse (FMT_VAL (mask_addr ([1, 0, 1] ! i) (id_slice cid i))) ([1, 0, 1] ! i) = 0"
    using assms(4) i(3) by (auto simp: slices_ok_def)
  moreover have "idgen_ready env cid st" using Suc.prems(2) by (simp add: id_entries_def)
  ultimately obtain mac1 st1 where r: "init_entry env i mac st = Some (0, mac1, st1)"
    using idgen_entry_eq [OF assms(1-3) Suc.prems(1) _ i(1) p, of mac] by (auto simp: Let_def)
  then have "length mac1 = 6" "set_up env (Suc i) st1"
    using entry_run [OF Suc.prems(1) assms(1) i(1) Suc.prems(3)] by auto
  moreover have "id_entries env cid (Suc i) st1" using idgen_entry [OF assms(1-3) Suc.prems(1,2) i(1) r] .
  ultimately show ?case using Suc.IH [of "Suc i" st1 mac1] Suc.prems(4) i(2) r by simp
qed simp

lemma idgen_entries:
  assumes "env_ok env" "no_config env" "good_id cid"
  shows "set_up env i st \<Longrightarrow> id_entries env cid i st \<Longrightarrow> length mac = 6 \<Longrightarrow> i + n = 3 \<Longrightarrow>
   init_entries env [i..<3] mac st = Some (0, st') \<Longrightarrow> id_entries env cid 3 st'"
proof (induction n arbitrary: i mac st)
  case (Suc n)
  then have i: "i < 3" "[i..<3] = i # [Suc i..<3]" by (simp_all add: upt_rec)
  obtain rc mac1 st1 where r: "init_entry env i mac st = Some (rc, mac1, st1)" "length mac1 = 6" "rc = 0 \<longrightarrow> set_up env (Suc i) st1"
    using entry_run [OF Suc.prems(1) assms(1) i(1) Suc.prems(3)] by blast
  with Suc.prems(5) i have rc: "rc = 0" "init_entries env [Suc i..<3] mac1 st1 = Some (0, st')" by (auto split: if_splits)
  have "id_entries env cid (Suc i) st1"
    using idgen_entry [OF assms Suc.prems(1,2) i(1)] r(1) rc(1) by blast
  then show ?case using Suc.IH [of "Suc i" st1 mac1] r rc Suc.prems(4) by simp
qed simp
lemma probe_from_id:
  assumes "env_ok env" "no_config env" "sid_inv f" "sunxi_get_soc_chipid (chip env) f = Some (cid, f')" "good_id cid" "slices_ok cid"
    "0 \<le> class_status env"
  shows "\<exists>st. addr_mgt_probe env (addr_boot f) = Some (0, st)"
proof -
  let ?b = "(addr_boot f)\<lparr>addr_class := True\<rparr>"
  have "id_entries env cid 0 ?b" using assms(4) by (simp add: id_entries_def idgen_ready_def addr_boot_def)
  then obtain st where "init_entries env [0..<3] (addr_stack env) ?b = Some (0, st)"
    using idgen_entries_succeed [OF assms(1,2,5,6) boot_set_up [OF assms(3)], of "addr_stack env" 3] assms(1)
    by (auto simp: env_ok_def)
  moreover have "length (info ?b) = 3" by (simp add: addr_boot_def)
  ultimately have "addr_init env ?b = Some (0, st)" by (simp only: addr_init_def)
  then show ?thesis using assms(7) by (simp add: addr_mgt_probe_def)
qed

lemma trace_run: "addr_inv st \<Longrightarrow> \<exists>st'. addr_trace ops st = Some st' \<and> addr_inv st'"
proof (induction ops arbitrary: st)
  case (Cons op ops)
  then show ?case using addr_exec_run [OF Cons.prems, of op] by fastforce
qed simp

lemma flag_of_name: "addr_inv st \<Longrightarrow> addr_find_by_name st s = Some i \<Longrightarrow> s \<noteq> ''bt'' \<Longrightarrow> flag (info st ! i) = 1"
  by (auto simp: addr_inv_def map_eq_Cons_conv addr_find_by_name_def split: if_splits)

section \<open>Properties\<close>

text \<open>
  C25. After a successful probe every interface has a usable address for good: whatever calls are made, each of
  them returns, and afterwards \<open>get_custom_mac_address\<close> gives an address that is neither zero nor broadcast,
  and for \<open>wifi\<close> and \<open>eth\<close> not a multicast address.
\<close>

theorem addr_always_valid:
  assumes "env_ok env" "sid_inv f" "addr_mgt_probe env (addr_boot f) = Some (0, st)" "s \<in> {''wifi'', ''bt'', ''eth''}"
  shows "\<exists>st' rc m. addr_trace ops st = Some st' \<and> get_custom_mac_address False s st' = Some (rc, Some (FMT_VAL m)) \<and>
    0 \<le> rc \<and> length m = 6 \<and> m \<noteq> replicate 6 0 \<and> m \<noteq> replicate 6 0xFF \<and> (s \<noteq> ''bt'' \<longrightarrow> m ! 0 AND 1 = 0)"
proof -
  have "addr_inv st" using probe_run [OF assms(1,2)] assms(3) by simp
  then obtain st' where st': "addr_trace ops st = Some st'" "addr_inv st'" using trace_run by blast
  obtain rc i m where g: "get_addr_by_name False st' s = Some (rc, Some (FMT_VAL m))" "addr_find_by_name st' s = Some i"
      "length m = 6" "addr_parse (FMT_VAL m) (flag (info st' ! i)) = 0" "0 \<le> rc"
    using get_run [OF st'(2), of False s] assms(4) by auto
  have "s \<noteq> ''bt'' \<Longrightarrow> flag (info st' ! i) \<noteq> 0" using flag_of_name [OF st'(2) g(2)] by simp
  then show ?thesis using st'(1) g by (auto simp: get_custom_mac_address_def addr_parse_val)
qed

text \<open>
  C27. Saving and restoring an address through the class attributes: what \<open>show\<close> prints has the length that
  \<open>store\<close> asks for, and storing it gives the interface the same address, now as set by the user.
\<close>

theorem addr_show_store:
  assumes "addr_inv st" "s \<in> {''wifi'', ''bt'', ''eth''}"
  shows "\<exists>rc m text st'. get_addr_by_name False st s = Some (rc, Some (FMT_VAL m)) \<and> addr_show s st = Some text \<and>
    length text = 18 \<and> addr_store s text (length text) st = Some (18, st') \<and>
    get_addr_by_name False st' s = Some (3, Some (FMT_VAL m))"
proof -
  obtain rc i p m where g: "addr_find_by_name st s = Some i" "addr (info st ! i) = Some p" "blocks st p = Some m" "length m = 6"
      "addr_parse (FMT_VAL m) (flag (info st ! i)) = 0" "0 \<le> rc" "rc \<le> 4"
      "get_addr_by_name True st s = Some (rc, Some (FMT_STR (fmt_mac m)))"
    using get_run [OF assms(1), of True s] assms(2) by auto
  then have get: "get_addr_by_name False st s = Some (rc, Some (FMT_VAL m))"
    by (auto simp: get_addr_by_name_def Let_def split: if_splits)
  let ?text = "fmt_mac m @ [newline]"
  have ne: "m \<noteq> []" using g(4) by auto
  have m: "length (fmt_mac m) = 17" using g(4) fmt_mac_length [OF ne] by simp
  have shown: "addr_show s st = Some ?text" using g m by (simp add: addr_show_def)
  have scan: "scan_mac 6 ?text = m" using scan_fmt_mac [OF ne, of "[newline]"] g(4) by simp
  then have "addr_parse (FMT_STR ?text) (flag (info st ! i)) = 0" using g(4,5) by (simp add: addr_parse_str)
  then obtain st' where st': "set_addr_by_name 3 (FMT_STR ?text) s st = Some (0, st')"
    using g by (simp add: set_addr_by_name_def)
  have "get_addr_by_name False st' s = Some (3, Some (FMT_VAL m))"
    using get_after_set [OF assms(1) st'] scan by (simp add: IS_TYPE_INVALID_def)
  then show ?thesis using get shown m st' by (simp add: addr_store_def)
qed

text \<open>
  C26. Without configuration in the device tree the addresses are a function of the chip: interface \<open>i\<close> gets bytes
  \<open>6 i\<close> to \<open>6 i + 5\<close> of the SHA-256 hash of the identity in the fuses, with the two low bits of the first
  byte cleared for \<open>wifi\<close> and \<open>eth\<close>.
\<close>

theorem addr_from_chipid:
  assumes "env_ok env" "no_config env" "sid_inv f" "sunxi_get_soc_chipid (chip env) f = Some (cid, f')" "good_id cid"
    "addr_mgt_probe env (addr_boot f) = Some (0, st)" "i < 3"
  shows "\<exists>rc. get_custom_mac_address False ([''wifi'', ''bt'', ''eth''] ! i) st =
    Some (rc, Some (FMT_VAL (mask_addr ([1, 0, 1] ! i) (take 6 (drop (6 * i) (SHA256 cid))))))"
proof -
  let ?b = "(addr_boot f)\<lparr>addr_class := True\<rparr>"
  have inv: "addr_inv st" "set_up env 3 st" using probe_run [OF assms(1,3)] assms(6) by auto
  have "length (info ?b) = 3" by (simp add: addr_boot_def)
  then have run: "init_entries env [0..<3] (addr_stack env) ?b = Some (0, st)"
    using assms(6) by (auto simp: addr_mgt_probe_def addr_init_def split: if_splits Option.bind_splits)
  have "id_entries env cid 0 ?b" using assms(4) by (simp add: id_entries_def idgen_ready_def addr_boot_def)
  then have ids: "id_entries env cid 3 st"
    using idgen_entries [OF assms(1,2,5) boot_set_up [OF assms(3)] _ _ _ run, of 3] assms(1) by (simp add: env_ok_def)
  obtain p where p: "new_block env i = Some p" using env_at [OF assms(1,7)] by blast
  have i: "i = 0 \<or> i = 1 \<or> i = 2" using assms(7) by arith
  have e: "addr_find_by_name st ([''wifi'', ''bt'', ''eth''] ! i) = Some i \<and> flag (info st ! i) = [1, 0, 1] ! i"
    using i inv(1) by (elim disjE) (auto simp: addr_inv_def map_eq_Cons_conv addr_find_by_name_def)
  have a: "addr (info st ! i) = Some p" "entry_ok (blocks st) (info st ! i)" using inv(2) p assms(7) by (auto simp: set_up_def)
  have "blocks st p = Some (mask_addr ([1, 0, 1] ! i) (take 6 (drop (6 * i) (SHA256 cid))))"
    using ids p assms(7) e by (simp add: id_entries_def id_slice_def mult.commute)
  then show ?thesis
    using a e by (auto simp: get_custom_mac_address_def get_addr_by_name_def entry_ok_def Let_def)
qed

text \<open>
  The exported \<open>get_custom_mac_address\<close> does not depend on the driver being there: before the probe it reads
  through a null pointer, and after the driver has been removed through a pointer to freed memory.
\<close>

theorem addr_unguarded:
  assumes "addr_inv st" "s \<in> {''wifi'', ''bt'', ''eth''}"
  shows "get_custom_mac_address as_str s (addr_boot f) = None"
    and "get_custom_mac_address as_str s (snd (addr_mgt_remove st)) = None"
proof -
  show "get_custom_mac_address as_str s (addr_boot f) = None"
    using assms(2) by (auto simp: get_custom_mac_address_def get_addr_by_name_def addr_boot_def addr_find_by_name_def IS_TYPE_INVALID_def)
  obtain i where "addr_find_by_name st s = Some i" "entry_ok (blocks st) (info st ! i)"
    using get_run [OF assms(1), of True s] assms(2) find_by_name_nth [of st s] assms(1) by (fastforce simp: addr_inv_def list_all_length)
  then show "get_custom_mac_address as_str s (snd (addr_mgt_remove st)) = None"
    by (auto simp: get_custom_mac_address_def get_addr_by_name_def addr_mgt_remove_def addr_find_by_name_def entry_ok_def)
qed
section \<open>The example chip\<close>

definition demo_addr_env :: addr_env where
  "demo_addr_env = \<lparr>chip = demo_platform, prop_u32 = (\<lambda>_. None), prop_string = (\<lambda>_. None), random_bytes = (\<lambda>_. replicate 6 2),
     new_block = Some, hash_stack = replicate 64 0, addr_stack = replicate 6 0, class_status = 0\<rparr>"

lemma demo_env: "env_ok demo_addr_env" "no_config demo_addr_env" "chip demo_addr_env = demo_platform" "class_status demo_addr_env = 0"
  by (simp_all add: env_ok_def no_config_def demo_addr_env_def demo_ok)

lemma demo_id: "\<exists>f. sunxi_get_soc_chipid demo_platform sid_boot = Some (example_id, f)"
proof -
  obtain f where f: "sid_chipid_init demo_platform sid_boot = Some f" "chipid_done demo_platform sid_boot f"
    using chipid_run [OF demo_ok(2,1)] by (auto simp: sid_boot_def)
  have rd: "readl demo_platform = (\<lambda>a. ucast a)" by (simp add: demo_platform_def)
  have "[0..<4] = [0, 1, 2, 3 :: nat]" by (simp add: upt_rec)
  then have "sunxi_soc_chipid f = [0x3006200, 0x3006204, 0x3006208, 0x300620c]"
    using f(2) demo_base demo_key
    by (simp add: chipid_done_def key_words_def key_map_def demo_secure of_property_read_u32_def sid_boot_def [THEN arg_cong [of _ _ sunxi_soc_chipid]] sid_readl_def rd)
  then show ?thesis using f(1) by (simp add: sunxi_get_soc_chipid_def le_bytes4_def example_id_def)
qed

lemma demo_slices: "good_id example_id" "slices_ok example_id"
proof -
  show "good_id example_id" by code_simp
  show "slices_ok example_id" unfolding slices_ok_def id_slice_def example_hash by code_simp
qed

lemma addr_demo_probe: "\<exists>st. addr_mgt_probe demo_addr_env (addr_boot sid_boot) = Some (0, st)"
  using probe_from_id [OF demo_env(1,2) demo_ok(2) _ demo_slices] demo_id demo_env(3,4) by auto

theorem addr_always_valid_witness:
  "\<exists>st st' rc m. addr_mgt_probe demo_addr_env (addr_boot sid_boot) = Some (0, st) \<and>
    addr_trace [Store_addr ''bt'' ''12:34:56:78:9a:bc'' 18, Summary] st = Some st' \<and>
    get_custom_mac_address False ''bt'' st' = Some (rc, Some (FMT_VAL m)) \<and> 0 \<le> rc \<and> length m = 6"
proof -
  obtain st where st: "addr_mgt_probe demo_addr_env (addr_boot sid_boot) = Some (0, st)" using addr_demo_probe by blast
  from addr_always_valid [OF demo_env(1) demo_ok(2) st, of "''bt''" "[Store_addr ''bt'' ''12:34:56:78:9a:bc'' 18, Summary]"] st
  show ?thesis by blast
qed

theorem addr_show_store_witness:
  "\<exists>st rc m text st'. addr_inv st \<and> get_addr_by_name False st ''eth'' = Some (rc, Some (FMT_VAL m)) \<and> addr_show ''eth'' st = Some text \<and>
    length text = 18 \<and> addr_store ''eth'' text (length text) st = Some (18, st') \<and>
    get_addr_by_name False st' ''eth'' = Some (3, Some (FMT_VAL m))"
proof -
  obtain st where "addr_inv st" using addr_demo_probe probe_run [OF demo_env(1) demo_ok(2)] by auto
  from this addr_show_store [OF this, of "''eth''"] show ?thesis by blast
qed

theorem addr_from_chipid_witness:
  "\<exists>st rc. addr_mgt_probe demo_addr_env (addr_boot sid_boot) = Some (0, st) \<and>
    get_custom_mac_address False ''wifi'' st = Some (rc, Some (FMT_VAL (mask_addr 1 (take 6 (SHA256 example_id)))))"
proof -
  obtain st where st: "addr_mgt_probe demo_addr_env (addr_boot sid_boot) = Some (0, st)" using addr_demo_probe by blast
  obtain f' where f': "sunxi_get_soc_chipid (chip demo_addr_env) sid_boot = Some (example_id, f')" using demo_id demo_env(3) by auto
  from addr_from_chipid [OF demo_env(1,2) demo_ok(2) f' demo_slices(1) st, of 0] st show ?thesis by simp
qed

theorem addr_unguarded_witness:
  "\<exists>st. addr_inv st \<and> get_custom_mac_address True ''wifi'' (addr_boot sid_boot) = None \<and>
    get_custom_mac_address True ''wifi'' (snd (addr_mgt_remove st)) = None"
proof -
  obtain st where "addr_inv st" using addr_demo_probe probe_run [OF demo_env(1) demo_ok(2)] by auto
  from this addr_unguarded [OF this, of "''wifi''"] show ?thesis by blast
qed


end
