(* ===== verification/Hdf_Entry.thy ===== *)
theory Hdf_Entry
  imports Audio_Base
begin

text \<open>
  The driver entry points of the audio drivers of both boards: what the driver framework calls to bind, to
  initialise and to release a driver. The sources are the adapter files: \<open>t507_codec_adapter.c\<close>,
  \<open>t507_dai_ahub_adapter.c\<close>, \<open>t507_dma_adapter.c\<close> and \<open>dsp_adapter.c\<close> of zhiyuan, \<open>rk3399_dai_adapter.c\<close> and
  \<open>rk3399_dma_adapter.c\<close> of yangfan.

  \<^item> \<open>hdf\<close> is the device object (its \<open>service\<close> and \<open>priv\<close> pointers), the blocks of memory with the structure
    each was allocated for, the mutexes of the driver that are initialised, and what the driver registered.
  \<^item> \<open>hdf_env\<close> is what the framework answers: the allocator, the configuration and the registration.
  \<^item> \<open>None\<close> as a state is a free of memory that is not allocated, or an access through a pointer to another structure.
  \<^item> The locale \<open>driver_entry\<close> is the contract of the three entry points; the lifecycle of a driver is proved in
    it once and it is interpreted on the drivers.
\<close>

section \<open>State\<close>

datatype host = CodecHost | DaiHost | PlatformHost | AudioHost | DspHost | Priv

record hdf =
  service :: "nat option"
  priv :: "nat option"
  heap :: "nat \<Rightarrow> host option"
  mutexes :: "string set"
  service_name :: bool
  init_flag :: bool
  registered :: bool

record hdf_env =
  alloc :: "nat option"
  property :: bool
  drs_ops :: bool
  string_rc :: int
  config_rc :: int
  controls_rc :: int
  dai_name_rc :: int
  register_rc :: int
  register_priv :: "nat option"

text \<open>\<open>OsalMemCalloc\<close> of a host and its link with the device; \<open>OsalMemFree\<close>.\<close>

definition bind_host :: "host \<Rightarrow> hdf_env \<Rightarrow> hdf \<Rightarrow> int \<times> hdf" where
  "bind_host h env st =
     (case alloc env of
        None \<Rightarrow> (HDF_FAILURE, st)
      | Some p \<Rightarrow> (HDF_SUCCESS, st\<lparr>heap := (heap st)(p \<mapsto> h), service := Some p\<rparr>))"

definition mem_free :: "nat \<Rightarrow> hdf \<Rightarrow> hdf option" where
  "mem_free p st = (if heap st p = None then None else Some (st\<lparr>heap := (heap st)(p := None)\<rparr>))"

text \<open>The framework's registration of a driver; it may leave private data with the device.\<close>

definition hdf_register :: "hdf_env \<Rightarrow> hdf \<Rightarrow> int \<times> hdf" where
  "hdf_register env st =
     (if register_rc env \<noteq> HDF_SUCCESS then (register_rc env, st)
      else (HDF_SUCCESS, st\<lparr>registered := True\<rparr>))"

definition read_service_name :: "hdf_env \<Rightarrow> hdf \<Rightarrow> int \<times> hdf" where
  "read_service_name env st =
     (if \<not> property env then (HDF_FAILURE, st)
      else if \<not> drs_ops env then (HDF_FAILURE, st)
      else if string_rc env \<noteq> HDF_SUCCESS then (string_rc env, st)
      else (HDF_SUCCESS, st\<lparr>service_name := True\<rparr>))"

section \<open>The codec of zhiyuan\<close>

text \<open>The argument \<open>device\<close> says whether the pointer to the device is not null.\<close>

definition CodecDriverBind :: "bool \<Rightarrow> hdf_env \<Rightarrow> hdf \<Rightarrow> int \<times> hdf" where
  "CodecDriverBind device env st = (if \<not> device then (HDF_FAILURE, st) else bind_host CodecHost env st)"

definition CodecDriverInit :: "bool \<Rightarrow> hdf_env \<Rightarrow> hdf \<Rightarrow> int \<times> hdf" where
  "CodecDriverInit device env st =
     (if \<not> device then (HDF_ERR_INVALID_OBJECT, st)
      else if config_rc env \<noteq> HDF_SUCCESS then (HDF_FAILURE, st)
      else if controls_rc env \<noteq> HDF_SUCCESS then (HDF_FAILURE, st)
      else if string_rc env \<noteq> HDF_SUCCESS then (HDF_FAILURE, st)
      else if dai_name_rc env \<noteq> HDF_SUCCESS then (HDF_FAILURE, st\<lparr>service_name := True\<rparr>)
      else case hdf_register env (st\<lparr>service_name := True\<rparr>) of
        (rc, st) \<Rightarrow>
          if rc \<noteq> HDF_SUCCESS then (HDF_FAILURE, st)
          else (case register_priv env of
                  None \<Rightarrow> (HDF_SUCCESS, st)
                | Some q \<Rightarrow> (HDF_SUCCESS, st\<lparr>priv := Some q, heap := (heap st)(q \<mapsto> Priv)\<rparr>)))"

definition CodecDriverRelease :: "bool \<Rightarrow> hdf \<Rightarrow> hdf option" where
  "CodecDriverRelease device st =
     (if \<not> device then Some st
      else do {
        st \<leftarrow> (case priv st of None \<Rightarrow> Some st | Some q \<Rightarrow> mem_free q st);
        case service st of None \<Rightarrow> Some st | Some p \<Rightarrow> mem_free p st })"

section \<open>The digital audio interfaces\<close>

definition T507_DaiDriverBind :: "bool \<Rightarrow> hdf_env \<Rightarrow> hdf \<Rightarrow> int \<times> hdf" where
  "T507_DaiDriverBind device env st =
     (if \<not> device then (HDF_FAILURE, st)
      else case bind_host DaiHost env st of
        (rc, st) \<Rightarrow> if rc \<noteq> HDF_SUCCESS then (rc, st) else (HDF_SUCCESS, st\<lparr>init_flag := False\<rparr>))"

definition T507_DaiGetServiceName :: "bool \<Rightarrow> hdf_env \<Rightarrow> hdf \<Rightarrow> int \<times> hdf" where
  "T507_DaiGetServiceName device env st = (if \<not> device then (HDF_FAILURE, st) else read_service_name env st)"

definition T507_DaiDriverInit :: "bool \<Rightarrow> hdf_env \<Rightarrow> hdf \<Rightarrow> int \<times> hdf" where
  "T507_DaiDriverInit device env st =
     (if \<not> device then (HDF_ERR_INVALID_OBJECT, st)
      else if config_rc env \<noteq> HDF_SUCCESS then (HDF_FAILURE, st)
      else case T507_DaiGetServiceName device env st of
        (rc, st) \<Rightarrow>
          if rc \<noteq> HDF_SUCCESS then (HDF_FAILURE, st)
          else hdf_register env (st\<lparr>mutexes := insert ''mutex'' (mutexes st)\<rparr>))"

definition T507_DaiDriverRelease :: "bool \<Rightarrow> hdf \<Rightarrow> hdf option" where
  "T507_DaiDriverRelease device st =
     (if \<not> device then Some st
      else let st = st\<lparr>mutexes := mutexes st - {''mutex''}\<rparr> in
        case service st of None \<Rightarrow> Some st | Some p \<Rightarrow> mem_free p st)"

definition RK3399_DaiDriverBind :: "bool \<Rightarrow> hdf_env \<Rightarrow> hdf \<Rightarrow> int \<times> hdf" where
  "RK3399_DaiDriverBind device env st =
     (if \<not> device then (HDF_FAILURE, st)
      else case bind_host DaiHost env st of
        (rc, st) \<Rightarrow> if rc \<noteq> HDF_SUCCESS then (rc, st) else (HDF_SUCCESS, st\<lparr>init_flag := False\<rparr>))"

definition RK3399_DaiGetServiceName :: "bool \<Rightarrow> hdf_env \<Rightarrow> hdf \<Rightarrow> int \<times> hdf" where
  "RK3399_DaiGetServiceName device env st = (if \<not> device then (HDF_FAILURE, st) else read_service_name env st)"

definition RK3399_DaiDriverInit :: "bool \<Rightarrow> hdf_env \<Rightarrow> hdf \<Rightarrow> int \<times> hdf" where
  "RK3399_DaiDriverInit device env st =
     (if \<not> device then (HDF_ERR_INVALID_OBJECT, st)
      else if config_rc env \<noteq> HDF_SUCCESS then (HDF_FAILURE, st)
      else case RK3399_DaiGetServiceName device env st of
        (rc, st) \<Rightarrow>
          if rc \<noteq> HDF_SUCCESS then (HDF_FAILURE, st)
          else hdf_register env (st\<lparr>mutexes := insert ''mutex'' (mutexes st)\<rparr>))"

definition RK3399_DaiDriverRelease :: "bool \<Rightarrow> hdf \<Rightarrow> hdf option" where
  "RK3399_DaiDriverRelease device st =
     (if \<not> device then Some st
      else let st = st\<lparr>mutexes := mutexes st - {''mutex''}\<rparr> in
        case service st of None \<Rightarrow> Some st | Some p \<Rightarrow> mem_free p st)"

section \<open>The DMA drivers\<close>

definition DmaDriverBind :: "bool \<Rightarrow> hdf_env \<Rightarrow> hdf \<Rightarrow> int \<times> hdf" where
  "DmaDriverBind device env st = (if \<not> device then (HDF_FAILURE, st) else bind_host PlatformHost env st)"

definition DmaGetServiceName :: "bool \<Rightarrow> hdf_env \<Rightarrow> hdf \<Rightarrow> int \<times> hdf" where
  "DmaGetServiceName device env st = (if \<not> device then (HDF_FAILURE, st) else read_service_name env st)"

definition DmaDriverInit :: "bool \<Rightarrow> hdf_env \<Rightarrow> hdf \<Rightarrow> int \<times> hdf" where
  "DmaDriverInit device env st =
     (if \<not> device then (HDF_ERR_INVALID_OBJECT, st)
      else case DmaGetServiceName device env st of
        (rc, st) \<Rightarrow>
          if rc \<noteq> HDF_SUCCESS then (rc, st)
          else hdf_register env (st\<lparr>mutexes := {''render'', ''capture''} \<union> mutexes st, init_flag := False\<rparr>))"

definition DmaDriverRelease :: "bool \<Rightarrow> hdf \<Rightarrow> hdf option" where
  "DmaDriverRelease device st =
     (if \<not> device then Some st
      else case service st of
        None \<Rightarrow> Some st
      | Some p \<Rightarrow> mem_free p (st\<lparr>mutexes := mutexes st - {''render'', ''capture''}\<rparr>))"

definition PlatformDriverBind :: "bool \<Rightarrow> hdf_env \<Rightarrow> hdf \<Rightarrow> int \<times> hdf" where
  "PlatformDriverBind device env st = (if \<not> device then (HDF_FAILURE, st) else bind_host PlatformHost env st)"

definition PlatformGetServiceName :: "bool \<Rightarrow> hdf_env \<Rightarrow> hdf \<Rightarrow> int \<times> hdf" where
  "PlatformGetServiceName device env st = (if \<not> device then (HDF_FAILURE, st) else read_service_name env st)"

definition PlatformDriverInit :: "bool \<Rightarrow> hdf_env \<Rightarrow> hdf \<Rightarrow> int \<times> hdf" where
  "PlatformDriverInit device env st =
     (if \<not> device then (HDF_ERR_INVALID_OBJECT, st)
      else case PlatformGetServiceName device env st of
        (rc, st) \<Rightarrow>
          if rc \<noteq> HDF_SUCCESS then (rc, st)
          else hdf_register env (st\<lparr>mutexes := {''render'', ''capture''} \<union> mutexes st, init_flag := False\<rparr>))"

definition PlatformDriverRelease :: "bool \<Rightarrow> hdf \<Rightarrow> hdf option" where
  "PlatformDriverRelease device st =
     (if \<not> device then Some st
      else case service st of
        None \<Rightarrow> Some st
      | Some p \<Rightarrow> mem_free p (st\<lparr>mutexes := mutexes st - {''render'', ''capture''}\<rparr>))"

section \<open>The signal processor of zhiyuan\<close>

text \<open>\<open>AudioHostCreateAndBind\<close> of the framework allocates an audio host; the release takes it for a \<open>DspHost\<close>.\<close>

definition DspDriverBind :: "bool \<Rightarrow> hdf_env \<Rightarrow> hdf \<Rightarrow> int \<times> hdf" where
  "DspDriverBind device env st = (if \<not> device then (HDF_ERR_INVALID_OBJECT, st) else bind_host AudioHost env st)"

definition DspDriverInit :: "bool \<Rightarrow> hdf_env \<Rightarrow> hdf \<Rightarrow> int \<times> hdf" where
  "DspDriverInit device env st =
     (if \<not> device then (HDF_ERR_INVALID_OBJECT, st)
      else if string_rc env \<noteq> HDF_SUCCESS then (string_rc env, st)
      else if dai_name_rc env \<noteq> HDF_SUCCESS then (dai_name_rc env, st\<lparr>service_name := True\<rparr>)
      else hdf_register env (st\<lparr>service_name := True\<rparr>))"

definition DspDriverRelease :: "bool \<Rightarrow> hdf \<Rightarrow> hdf option" where
  "DspDriverRelease device st =
     (if \<not> device then Some st
      else case service st of
        None \<Rightarrow> Some st
      | Some p \<Rightarrow>
          if heap st p \<noteq> Some DspHost then None
          else do {
            st \<leftarrow> (case priv st of None \<Rightarrow> Some st | Some q \<Rightarrow> mem_free q st);
            mem_free p st })"

text \<open>The operations of the signal processor do nothing.\<close>

definition DspDaiStartup :: int where "DspDaiStartup = HDF_SUCCESS"
definition DspDaiHwParams :: int where "DspDaiHwParams = HDF_SUCCESS"
definition DspDeviceInit :: int where "DspDeviceInit = HDF_SUCCESS"
definition DspDeviceReadReg :: int where "DspDeviceReadReg = HDF_SUCCESS"
definition DspDeviceWriteReg :: int where "DspDeviceWriteReg = HDF_SUCCESS"
definition DspDaiDeviceInit :: int where "DspDaiDeviceInit = HDF_SUCCESS"
definition DspDecodeAudioStream :: int where "DspDecodeAudioStream = HDF_SUCCESS"
definition DspEncodeAudioStream :: int where "DspEncodeAudioStream = HDF_SUCCESS"
definition DspEqualizerActive :: int where "DspEqualizerActive = HDF_SUCCESS"

section \<open>The contract of the entry points\<close>

text \<open>The allocator hands out free addresses.\<close>

definition fresh :: "hdf_env \<Rightarrow> hdf \<Rightarrow> bool" where
  "fresh env st \<longleftrightarrow> (\<forall>p. alloc env = Some p \<longrightarrow> heap st p = None) \<and>
     (\<forall>q. register_priv env = Some q \<longrightarrow> heap st q = None \<and> alloc env \<noteq> Some q)"

definition unbound :: "hdf \<Rightarrow> bool" where
  "unbound st \<longleftrightarrow> service st = None \<and> priv st = None"

definition lifecycle ::
    "(bool \<Rightarrow> hdf_env \<Rightarrow> hdf \<Rightarrow> int \<times> hdf) \<Rightarrow> (bool \<Rightarrow> hdf_env \<Rightarrow> hdf \<Rightarrow> int \<times> hdf) \<Rightarrow> (bool \<Rightarrow> hdf \<Rightarrow> hdf option) \<Rightarrow>
      hdf_env \<Rightarrow> hdf \<Rightarrow> hdf option" where
  "lifecycle bnd ini rel env st =
     (case bnd True env st of
        (rc, st) \<Rightarrow> if rc \<noteq> HDF_SUCCESS then Some st else rel True (snd (ini True env st)))"

locale driver_entry =
  fixes bnd ini :: "bool \<Rightarrow> hdf_env \<Rightarrow> hdf \<Rightarrow> int \<times> hdf"
    and rel :: "bool \<Rightarrow> hdf \<Rightarrow> hdf option"
    and own :: "string set"
    and uses_priv :: bool
  assumes bind_fails: "alloc env = None \<Longrightarrow> \<exists>rc. bnd True env st = (rc, st) \<and> rc \<noteq> HDF_SUCCESS"
    and bind_takes: "alloc env = Some p \<Longrightarrow> \<exists>st' h. bnd True env st = (HDF_SUCCESS, st') \<and> service st' = Some p \<and> priv st' = priv st \<and>
      heap st' = (heap st)(p \<mapsto> h) \<and> mutexes st' = mutexes st"
    and init_keeps: "\<exists>rc st'. ini True env st = (rc, st') \<and> service st' = service st \<and>
      (priv st' = priv st \<and> heap st' = heap st \<or>
       (\<exists>q. uses_priv \<and> register_priv env = Some q \<and> priv st' = Some q \<and> heap st' = (heap st)(q \<mapsto> Priv))) \<and>
      mutexes st \<subseteq> mutexes st' \<and> mutexes st' \<subseteq> mutexes st \<union> own"
    and release_gives: "(priv st \<noteq> None \<Longrightarrow> uses_priv) \<Longrightarrow> service st = Some p \<Longrightarrow> heap st p \<noteq> None \<Longrightarrow> (\<And>q. priv st = Some q \<Longrightarrow> heap st q \<noteq> None \<and> q \<noteq> p) \<Longrightarrow>
      \<exists>st'. rel True st = Some st' \<and> mutexes st' = mutexes st - own \<and>
        heap st' = (heap st)(p := None) |` (- set_option (priv st))"
begin

text \<open>A driver that is bound, initialised with whatever result, and released leaves the memory and the mutexes as they were.\<close>

lemma lifecycle_balanced:
  assumes "fresh env st" "unbound st" "mutexes st \<inter> own = {}"
  shows "\<exists>st'. lifecycle bnd ini rel env st = Some st' \<and> heap st' = heap st \<and> mutexes st' = mutexes st"
proof (cases "alloc env")
  case None
  then show ?thesis using bind_fails [OF None, of st] by (auto simp: lifecycle_def)
next
  case (Some p)
  obtain st1 h where 1: "bnd True env st = (HDF_SUCCESS, st1)" "service st1 = Some p" "priv st1 = None"
      "heap st1 = (heap st)(p \<mapsto> h)" "mutexes st1 = mutexes st"
    using bind_takes [OF Some, of st] assms(2) by (auto simp: unbound_def)
  obtain rc st2 where 2: "ini True env st1 = (rc, st2)" "service st2 = Some p" "mutexes st \<subseteq> mutexes st2" "mutexes st2 \<subseteq> mutexes st \<union> own"
      "priv st2 = None \<and> heap st2 = heap st1 \<or>
       (\<exists>q. uses_priv \<and> register_priv env = Some q \<and> priv st2 = Some q \<and> heap st2 = (heap st1)(q \<mapsto> Priv))"
    using init_keeps [of env st1] 1 by auto
  have live: "heap st2 p \<noteq> None" "\<And>q. priv st2 = Some q \<Longrightarrow> heap st2 q \<noteq> None \<and> q \<noteq> p"
    using 2(5) 1(4) assms(1) Some by (auto simp: fresh_def)
  obtain st3 where 3: "rel True st2 = Some st3" "mutexes st3 = mutexes st2 - own"
      "heap st3 = (heap st2)(p := None) |` (- set_option (priv st2))"
    using release_gives [OF _ 2(2) live] 2(5) by auto
  have "heap st p = None" "\<And>q. register_priv env = Some q \<Longrightarrow> heap st q = None \<and> q \<noteq> p"
    using assms(1) Some by (auto simp: fresh_def)
  then have "heap st3 = heap st" using 3(3) 2(5) 1(4) by (auto simp: fun_eq_iff restrict_map_def)
  moreover have "mutexes st3 = mutexes st" using 3(2) 2(3,4) assms(3) by auto
  ultimately show ?thesis using 1(1) 2(1) 3(1) by (simp add: lifecycle_def)
qed

end


lemmas entry_defs = bind_host_def hdf_register_def read_service_name_def mem_free_def err_defs

interpretation codec_entry: driver_entry CodecDriverBind CodecDriverInit CodecDriverRelease "{}" True
proof unfold_locales
  fix env st
  show "\<exists>rc st'. CodecDriverInit True env st = (rc, st') \<and> service st' = service st \<and>
      (priv st' = priv st \<and> heap st' = heap st \<or>
       (\<exists>q. True \<and> register_priv env = Some q \<and> priv st' = Some q \<and> heap st' = (heap st)(q \<mapsto> Priv))) \<and>
      mutexes st \<subseteq> mutexes st' \<and> mutexes st' \<subseteq> mutexes st \<union> {}"
    by (simp add: CodecDriverInit_def hdf_register_def split: option.split)
qed (auto simp: CodecDriverBind_def CodecDriverRelease_def entry_defs restrict_map_def fun_eq_iff split: option.splits)

interpretation t507_dai_entry: driver_entry T507_DaiDriverBind T507_DaiDriverInit T507_DaiDriverRelease "{''mutex''}" False
  by unfold_locales (auto simp: T507_DaiDriverBind_def T507_DaiDriverInit_def T507_DaiDriverRelease_def T507_DaiGetServiceName_def
      entry_defs restrict_map_def fun_eq_iff split: option.splits)

interpretation rk3399_dai_entry: driver_entry RK3399_DaiDriverBind RK3399_DaiDriverInit RK3399_DaiDriverRelease "{''mutex''}" False
  by unfold_locales (auto simp: RK3399_DaiDriverBind_def RK3399_DaiDriverInit_def RK3399_DaiDriverRelease_def RK3399_DaiGetServiceName_def
      entry_defs restrict_map_def fun_eq_iff split: option.splits)

interpretation t507_dma_entry: driver_entry DmaDriverBind DmaDriverInit DmaDriverRelease "{''render'', ''capture''}" False
  by unfold_locales (auto simp: DmaDriverBind_def DmaDriverInit_def DmaDriverRelease_def DmaGetServiceName_def
      entry_defs restrict_map_def fun_eq_iff split: option.splits)

interpretation rk3399_dma_entry: driver_entry PlatformDriverBind PlatformDriverInit PlatformDriverRelease "{''render'', ''capture''}" False
  by unfold_locales (auto simp: PlatformDriverBind_def PlatformDriverInit_def PlatformDriverRelease_def PlatformGetServiceName_def
      entry_defs restrict_map_def fun_eq_iff split: option.splits)

section \<open>Properties\<close>

text \<open>
  C31. The lifecycle of the audio drivers: on every path, whatever the allocator, the configuration and the
  registration answer, binding, initialising and releasing the codec, the audio interfaces and the DMA drivers
  frees every block of memory exactly once and leaves no mutex initialised.
\<close>

theorem audio_drivers_lifecycle:
  assumes "fresh env st" "unbound st" "mutexes st = {}"
    "(bnd, ini, rel) \<in> {(CodecDriverBind, CodecDriverInit, CodecDriverRelease),
       (T507_DaiDriverBind, T507_DaiDriverInit, T507_DaiDriverRelease), (DmaDriverBind, DmaDriverInit, DmaDriverRelease),
       (RK3399_DaiDriverBind, RK3399_DaiDriverInit, RK3399_DaiDriverRelease), (PlatformDriverBind, PlatformDriverInit, PlatformDriverRelease)}"
  shows "\<exists>st'. lifecycle bnd ini rel env st = Some st' \<and> heap st' = heap st \<and> mutexes st' = {}"
  using assms(4) codec_entry.lifecycle_balanced [OF assms(1,2)] t507_dai_entry.lifecycle_balanced [OF assms(1,2)]
    t507_dma_entry.lifecycle_balanced [OF assms(1,2)] rk3399_dai_entry.lifecycle_balanced [OF assms(1,2)]
    rk3399_dma_entry.lifecycle_balanced [OF assms(1,2)] assms(3)
  by (elim insertE emptyE) simp_all

definition demo_hdf :: hdf where
  "demo_hdf = \<lparr>service = None, priv = None, heap = (\<lambda>_. None), mutexes = {}, service_name = False, init_flag = True, registered = False\<rparr>"

definition demo_hdf_env :: hdf_env where
  "demo_hdf_env = \<lparr>alloc = Some 1, property = True, drs_ops = True, string_rc = 0, config_rc = 0, controls_rc = 0, dai_name_rc = 0,
     register_rc = 0, register_priv = Some 2\<rparr>"

theorem audio_drivers_lifecycle_witness:
  "fresh demo_hdf_env demo_hdf \<and> unbound demo_hdf \<and>
   (\<exists>st'. lifecycle CodecDriverBind CodecDriverInit CodecDriverRelease demo_hdf_env demo_hdf = Some st' \<and>
      heap st' = heap demo_hdf \<and> mutexes st' = {})"
  using audio_drivers_lifecycle [of demo_hdf_env demo_hdf CodecDriverBind CodecDriverInit CodecDriverRelease]
  by (simp add: fresh_def unbound_def demo_hdf_def demo_hdf_env_def)

text \<open>
  No release clears the pointer of the device: a second release frees the host again. And the release of the
  signal processor reads an audio host, which is what was bound, as a structure of another type.
\<close>

theorem release_keeps_pointer:
  assumes "bnd True env st = (HDF_SUCCESS, st1)" "priv st = None"
    "(bnd, rel) \<in> {(CodecDriverBind, CodecDriverRelease), (T507_DaiDriverBind, T507_DaiDriverRelease), (DmaDriverBind, DmaDriverRelease),
       (RK3399_DaiDriverBind, RK3399_DaiDriverRelease), (PlatformDriverBind, PlatformDriverRelease)}"
  shows "\<exists>st2. rel True st1 = Some st2 \<and> rel True st2 = None"
    and "DspDriverBind True env st = (HDF_SUCCESS, st3) \<Longrightarrow> DspDriverRelease True st3 = None"
proof -
  show "\<exists>st2. rel True st1 = Some st2 \<and> rel True st2 = None"
    using assms
    by (elim insertE emptyE; simp)
      (auto simp: CodecDriverBind_def T507_DaiDriverBind_def DmaDriverBind_def RK3399_DaiDriverBind_def PlatformDriverBind_def
        CodecDriverRelease_def T507_DaiDriverRelease_def DmaDriverRelease_def RK3399_DaiDriverRelease_def PlatformDriverRelease_def
        entry_defs split: option.splits)
  show "DspDriverBind True env st = (HDF_SUCCESS, st3) \<Longrightarrow> DspDriverRelease True st3 = None"
    by (auto simp: DspDriverBind_def DspDriverRelease_def entry_defs split: option.splits)
qed

theorem release_keeps_pointer_witness:
  "\<exists>st1 st2. DmaDriverBind True demo_hdf_env demo_hdf = (HDF_SUCCESS, st1) \<and> DmaDriverRelease True st1 = Some st2 \<and>
     DmaDriverRelease True st2 = None"
proof -
  obtain st1 where st1: "DmaDriverBind True demo_hdf_env demo_hdf = (HDF_SUCCESS, st1)"
    by (simp add: DmaDriverBind_def demo_hdf_env_def bind_host_def)
  then show ?thesis
    using release_keeps_pointer(1) [of DmaDriverBind demo_hdf_env demo_hdf st1 DmaDriverRelease] by (auto simp: demo_hdf_def)
qed

end
