(* ===== verification/Xr829_Wifi.thy ===== *)
theory Xr829_Wifi
  imports Sunxi_Addr Audio_Base
begin

text \<open>
  The adapter between the driver framework and the XR829 wireless driver of the zhiyuan board:
  \<open>zhiyuan/kernel/hdf/driver/wifi/xr829_hdfadapter/hdf_mac80211.c\<close> and \<open>net_adpater.c\<close>. The peer-to-peer part is compiled
  only with \<open>XR829_WLAN_FEATURE_P2P\<close>, which no file of the repository defines, and is left out.

  \<^item> \<open>wifi\<close> holds what the adapter keeps: the parameters of the last connection (\<open>global_param\<close>) with the copy of
    the information elements on the heap, the settings of the access point, the device it serves, and the calls
    that were passed on.
  \<^item> \<open>wlan_env\<close> is what the adapter calls and reads: the channels of the radio, the answers of the wireless driver to
    each call, the kernel's count of the channels, the allocator, and the constants of the framework's headers.
  \<^item> \<open>None\<close> is undefined behaviour: a null pointer, memory that is not allocated, an access outside of an array, or the
    use of a variable that was never assigned.
\<close>

unbundle bit_operations_syntax

section \<open>Data\<close>

record channel =
  center_freq :: u32
  chan_flags :: u32
  hw_value :: u32

record band =
  channels :: "channel list"
  bitrates :: "u16 list"
  ht_cap :: u16

type_synonym wiphy = "band option list"

text \<open>
  The ciphers of a connection. \<open>memcpy_s\<close> copies \<open>sizeof(param->crypto)\<close> bytes of the framework's structure to
  the front of the kernel's; that is the only write to it, always of the same size, and \<open>kzalloc\<close> cleared the rest.
  The model keeps the part that was copied; the zeros behind it are left out.
\<close>

record crypto =
  crypto_bytes :: "byte list"

record auth_info =
  auth_type :: byte
  auth_key :: "byte list"
  key_idx :: byte

record connect_params =
  p_freq :: u32
  p_bssid :: "byte list"
  p_ssid :: "byte list"
  p_ssidLen :: nat
  p_ie :: "byte list"
  p_crypto :: crypto
  p_auth :: auth_info

record WlanAssocParams =
  centerFreq :: u32
  bssid :: "byte list"
  ssid :: "byte list"
  ssidLen :: nat
  ie :: "nat option"
  ie_len :: nat
  g_crypto :: crypto

record ap_settings =
  ap_ssid_len :: nat
  ap_ssid :: "byte list"
  ap_freq1 :: u32
  ap_freq2 :: u32
  ap_width :: u32
  ap_chan :: "(u32 \<times> u32) option"
  ap_head :: "byte list"
  ap_tail :: "byte list"
  ap_dtim :: int
  ap_hidden :: int
  ap_interval :: int

record ap_conf =
  c_ssid :: "byte list"
  c_ssidLen :: nat
  c_freq1 :: u32
  c_freq2 :: u32
  c_width :: u32
  c_channel :: u32

record beacon_conf =
  b_head :: "byte list"
  b_tail :: "byte list"
  b_dtim :: int
  b_hidden :: int
  b_interval :: int

record ssid_param =
  s_len :: nat
  s_bytes :: "byte list"

record scan_param =
  freqs :: "u32 list option"
  ssids :: "ssid_param list"
  extraIEs :: "byte list option"
  extraIEsLen :: nat

record preset =
  iftype :: int
  pre_width :: u32
  pre_freq1 :: u32
  pre_freq2 :: u32
  pre_hw :: u32
  pre_center :: u32

text \<open>
  What the adapter passes on to the wireless driver and to the framework. The requests of \<open>auth\<close> and \<open>assoc\<close> hold
  the network that \<open>cfg80211_get_bss\<close> finds for a channel, an address and a name, or \<open>NULL\<close>, which the adapter
  does not test; the calls carry the three arguments of that search, and what the kernel makes of them is part
  of the answer of the driver. \<open>Assoc_null\<close> is an association whose pointer to the elements is \<open>NULL\<close> while the
  length still is the one remembered last.
\<close>

datatype drv_call =
    Change_virtual_intf int
  | Add_key int bool "byte list option" "byte list" "byte list" u32
  | Del_key int bool "byte list option"
  | Set_default_key int bool bool
  | Set_tx_power int
  | Auth channel "byte list" "byte list" "byte list" auth_info
  | Assoc channel "byte list" "byte list" "byte list" crypto
  | Assoc_null channel "byte list" "byte list" nat crypto
  | Deauth "byte list" int
  | Scan "channel list" "byte list list" "byte list option"
  | Cancel_scan
  | Start_ap ap_settings
  | Stop_ap
  | Change_beacon "byte list" "byte list"
  | Del_station "byte list option"
  | Bss_frame channel int "byte list"
  | Connect_result "byte list" "byte list" "byte list" int
  | Ndo_open
  | Ndo_stop
  | Ndo_xmit "byte list"
  | Ndo_set_mac "byte list"
  | Rx "byte list"
  | Eapol "byte list"

record wlan_env =
  radio :: "wiphy option"
  netdev :: bool
  answer :: "drv_call \<Rightarrow> int"
  new_ie :: "nat option"
  crypto_fits :: bool
  WLAN_FREQ_NOT_SPECFIED :: u32
  WIFI_CHAN_DISABLED :: u32
  OAL_IEEE80211_MAX_SSID_LEN :: nat
  IEEE80211_MAX_SSID_LEN :: nat
  WPAS_MAX_SCAN_SSIDS :: nat
  DRIVER_MAX_SCAN_SSIDS :: nat
  NL80211_IFTYPE_AP :: int
  ieee80211_get_num_supported_channels :: "wiphy \<Rightarrow> nat"

record wifi =
  global_param :: "WlanAssocParams option"
  kheap :: "nat \<Rightarrow> byte list option"
  ap_setting_info :: ap_settings
  wdev :: preset
  gp_hdf_netDev :: bool
  sent :: "drv_call list"

text \<open>A call to the driver: it is recorded, and the driver answers.\<close>

definition drv :: "wlan_env \<Rightarrow> drv_call \<Rightarrow> wifi \<Rightarrow> int \<times> wifi" where
  "drv env c st = (answer env c, st\<lparr>sent := sent st @ [c]\<rparr>)"

text \<open>\<open>memcpy_s\<close>: a copy that does not fit clears the destination and is reported.\<close>

definition memcpy_s :: "nat \<Rightarrow> byte list \<Rightarrow> byte list \<Rightarrow> nat \<Rightarrow> (bool \<times> byte list) option" where
  "memcpy_s dest_max dest src count =
     (if dest_max < count then Some (False, replicate dest_max 0)
      else if length src < count then None
      else Some (True, take count src @ drop count dest))"

section \<open>Channels\<close>

fun find_freq :: "u32 \<Rightarrow> channel list \<Rightarrow> channel option" where
  "find_freq f [] = None"
| "find_freq f (c # cs) = (if center_freq c = f then Some c else find_freq f cs)"

fun find_band :: "u32 \<Rightarrow> wiphy \<Rightarrow> channel option" where
  "find_band f [] = None"
| "find_band f (None # bs) = find_band f bs"
| "find_band f (Some b # bs) = (case find_freq f (channels b) of Some c \<Rightarrow> Some c | None \<Rightarrow> find_band f bs)"

text \<open>The frequency is cut to 16 bits by the parameter type.\<close>

definition GetChannelByFreq :: "wiphy \<Rightarrow> u32 \<Rightarrow> channel option" where
  "GetChannelByFreq w f = find_band (ucast (ucast f :: u16)) w"

definition WalGetChannel :: "wiphy option \<Rightarrow> u32 \<Rightarrow> channel option" where
  "WalGetChannel w f = (case w of None \<Rightarrow> None | Some w \<Rightarrow> find_band f w)"

definition chan_usable :: "wlan_env \<Rightarrow> channel option \<Rightarrow> bool" where
  "chan_usable env c = (case c of None \<Rightarrow> False | Some c \<Rightarrow> chan_flags c AND WIFI_CHAN_DISABLED env = 0)"

section \<open>Connecting\<close>

text \<open>
  The channel of a request: \<open>Some None\<close> is a refused frequency. When no frequency is given the variable is not
  assigned, and using it is undefined.
\<close>

definition request_channel :: "wlan_env \<Rightarrow> u32 \<Rightarrow> channel option option" where
  "request_channel env f =
     (if f = WLAN_FREQ_NOT_SPECFIED env then None
      else if chan_usable env (WalGetChannel (radio env) f) then Some (WalGetChannel (radio env) f)
      else Some None)"

definition kfree :: "nat \<Rightarrow> wifi \<Rightarrow> wifi option" where
  "kfree p st = (if kheap st p = None then None else Some (st\<lparr>kheap := (kheap st)(p := None)\<rparr>))"

definition free_ie :: "wifi \<Rightarrow> wifi option" where
  "free_ie st =
     do {
       g \<leftarrow> global_param st;
       case ie g of
         None \<Rightarrow> Some st
       | Some p \<Rightarrow> do { st \<leftarrow> kfree p st; Some (st\<lparr>global_param := Some (g\<lparr>ie := None\<rparr>)\<rparr>) } }"

text \<open>The fields that are copied in front of the allocation.\<close>

definition remember :: "wlan_env \<Rightarrow> connect_params \<Rightarrow> WlanAssocParams \<Rightarrow> WlanAssocParams option" where
  "remember env param g =
     do {
       (_, b) \<leftarrow> memcpy_s 6 (bssid g) (p_bssid param) 6;
       (_, s) \<leftarrow> memcpy_s (OAL_IEEE80211_MAX_SSID_LEN env) (ssid g) (p_ssid param) (p_ssidLen param);
       Some (g\<lparr>centerFreq := p_freq param, ssidLen := p_ssidLen param, ie_len := length (p_ie param), bssid := b, ssid := s\<rparr>) }"

definition WalAuthenticate :: "wlan_env \<Rightarrow> connect_params option \<Rightarrow> wifi \<Rightarrow> (int \<times> wifi) option" where
  "WalAuthenticate env param st =
     (case param of
        None \<Rightarrow> Some (HDF_FAILURE, st)
      | Some param \<Rightarrow>
          if \<not> netdev env then Some (HDF_FAILURE, st)
          else do {
            c \<leftarrow> request_channel env (p_freq param);
            case c of
              None \<Rightarrow> Some (HDF_FAILURE, st)
            | Some c \<Rightarrow>
                do {
                  g \<leftarrow> global_param st;
                  g \<leftarrow> remember env param g;
                  st \<leftarrow> free_ie (st\<lparr>global_param := Some g\<rparr>);
                  case new_ie env of
                    None \<Rightarrow> Some (HDF_FAILURE, st)
                  | Some p \<Rightarrow>
                      let g = g\<lparr>ie := Some p\<rparr>;
                          st = st\<lparr>kheap := (kheap st)(p \<mapsto> replicate (ie_len g) 0), global_param := Some g\<rparr> in
                      if \<not> crypto_fits env then Some (HDF_FAILURE, st)
                      else do {
                        let g = g\<lparr>g_crypto := p_crypto param\<rparr>;
                        let st = st\<lparr>global_param := Some g, kheap := (kheap st)(p \<mapsto> p_ie param)\<rparr>;
                        let (rc, st) = drv env (Auth c (p_bssid param) (take (p_ssidLen param) (p_ssid param)) (p_ie param) (p_auth param)) st;
                        if rc < 0 then do { st \<leftarrow> free_ie st; Some (rc, st) } else Some (rc, st) } } })"

definition WalAssociate :: "wlan_env \<Rightarrow> wifi \<Rightarrow> (int \<times> wifi) option" where
  "WalAssociate env st =
     do {
       g \<leftarrow> global_param st;
       c \<leftarrow> request_channel env (centerFreq g);
       case c of
         None \<Rightarrow> do { st \<leftarrow> free_ie st; Some (HDF_FAILURE, st) }
       | Some c \<Rightarrow>
           do {
             s \<leftarrow> take_n (ssid g) (int (ssidLen g));
             call \<leftarrow> (case ie g of
               None \<Rightarrow> Some (Assoc_null c (bssid g) s (ie_len g) (g_crypto g))
             | Some p \<Rightarrow> do { ies \<leftarrow> kheap st p; Some (Assoc c (bssid g) s ies (g_crypto g)) });
             let (rc, st) = drv env call st;
             st \<leftarrow> free_ie st;
             Some (rc, st) } }"

text \<open>The answer of the access point to the authentication.\<close>

definition inform_auth_result :: "wlan_env \<Rightarrow> u16 \<Rightarrow> wifi \<Rightarrow> wifi option" where
  "inform_auth_result env status_code st =
     (if status_code \<noteq> 0 then Some st else do { (_, st) \<leftarrow> WalAssociate env st; Some st })"

definition WalDisconnect :: "wlan_env \<Rightarrow> int \<Rightarrow> wifi \<Rightarrow> (int \<times> wifi) option" where
  "WalDisconnect env reasonCode st =
     do { g \<leftarrow> global_param st; Some (drv env (Deauth (bssid g) reasonCode) st) }"

definition inform_bss_frame :: "wlan_env \<Rightarrow> channel option \<Rightarrow> int \<Rightarrow> byte list option \<Rightarrow> wifi \<Rightarrow> wifi" where
  "inform_bss_frame env c signal mgmt st =
     (case (c, mgmt) of
        (Some c, Some m) \<Rightarrow> if gp_hdf_netDev st then snd (drv env (Bss_frame c signal m) st) else st
      | _ \<Rightarrow> st)"

definition inform_connect_result ::
    "wlan_env \<Rightarrow> byte list option \<Rightarrow> byte list option \<Rightarrow> byte list option \<Rightarrow> int \<Rightarrow> wifi \<Rightarrow> wifi" where
  "inform_connect_result env bss rspIe reqIe connectStatus st =
     (case (bss, rspIe, reqIe) of
        (Some b, Some r, Some q) \<Rightarrow>
          if gp_hdf_netDev st then snd (drv env (Connect_result (take 6 b) r q connectStatus) st) else st
      | _ \<Rightarrow> st)"
section \<open>Scanning\<close>

text \<open>What a scan request is made of in memory.\<close>

datatype scan_block = Request | Ssids | Ies

text \<open>The channels of the request: the enabled ones of the first band, or those of the listed frequencies that exist.\<close>

definition scan_channels :: "wlan_env \<Rightarrow> wiphy \<Rightarrow> scan_param \<Rightarrow> channel list option" where
  "scan_channels env w param =
     (case freqs param of
        Some (f # fs) \<Rightarrow> Some (List.map_filter (GetChannelByFreq w) (f # fs))
      | _ \<Rightarrow>
          (case w of
             Some b # _ \<Rightarrow> Some (filter (\<lambda>c. chan_flags c AND WIFI_CHAN_DISABLED env = 0) (channels b))
           | _ \<Rightarrow> None))"

text \<open>
  The names: the array of a name has \<open>IEEE80211_MAX_SSID_LEN\<close> bytes, while \<open>memcpy_s\<close> is told another size; a copy, or the
  clearing after a refused one, that is longer than the array would be undefined.
\<close>

fun ssid_loop :: "wlan_env \<Rightarrow> nat \<Rightarrow> ssid_param list \<Rightarrow> byte list list option" where
  "ssid_loop env n [] = Some []"
| "ssid_loop env n (s # ss) =
     (if DRIVER_MAX_SCAN_SSIDS env \<le> n then Some []
      else if IEEE80211_MAX_SSID_LEN env < s_len s then ssid_loop env n ss
      else do {
        (ok, b) \<leftarrow> memcpy_s (OAL_IEEE80211_MAX_SSID_LEN env) (replicate (OAL_IEEE80211_MAX_SSID_LEN env) 0) (s_bytes s) (s_len s);
        if IEEE80211_MAX_SSID_LEN env < (if ok then s_len s else OAL_IEEE80211_MAX_SSID_LEN env) then None
        else if \<not> ok then ssid_loop env n ss
        else do { rest \<leftarrow> ssid_loop env (Suc n) ss; Some (take (s_len s) b # rest) } })"

text \<open>
  The elements of a request: \<open>Inl\<close> is the early return with what stays allocated. \<open>m3\<close> is the outcome of the allocation.
\<close>

definition scan_ies :: "bool \<Rightarrow> scan_param \<Rightarrow> (int \<times> scan_block list + byte list option) option" where
  "scan_ies m3 param =
     (if 512 < extraIEsLen param then Some (Inl (HDF_FAILURE, [Request, Ssids]))
      else case extraIEs param of
        None \<Rightarrow> Some (Inr None)
      | Some e \<Rightarrow>
          if extraIEsLen param = 0 then Some (Inr None)
          else if \<not> m3 then Some (Inl (HDF_FAILURE, [Request, Ssids]))
          else do { b \<leftarrow> take_n e (int (extraIEsLen param)); Some (Inr (Some b)) })"

text \<open>The result is the return code, the blocks that nobody owns any more, and the new state.\<close>

definition WalStartScan ::
    "wlan_env \<Rightarrow> bool \<Rightarrow> bool \<Rightarrow> bool \<Rightarrow> scan_param \<Rightarrow> wifi \<Rightarrow> (int \<times> scan_block list \<times> wifi) option" where
  "WalStartScan env m1 m2 m3 param st =
     do {
       w \<leftarrow> radio env;
       if \<not> m1 then Some (HDF_FAILURE, [], st)
       else case scan_channels env w param of
         None \<Rightarrow> Some (HDF_FAILURE, [Request], st)
       | Some cs \<Rightarrow>
           if ieee80211_get_num_supported_channels env w < length cs then None
           else if cs = [] then Some (HDF_FAILURE, [Request], st)
           else if WPAS_MAX_SCAN_SSIDS env < length (ssids param) then Some (HDF_FAILURE, [Request], st)
           else if ssids param = [] then Some (HDF_SUCCESS, [Request], st)
           else if \<not> m2 then Some (HDF_FAILURE, [Request], st)
           else do {
             ss \<leftarrow> ssid_loop env 0 (ssids param);
             r \<leftarrow> scan_ies m3 param;
             case r of
               Inl (rc, left) \<Rightarrow> Some (rc, left, st)
             | Inr ies \<Rightarrow> let (rc, st) = drv env (Scan cs ss ies) st in Some (rc, [], st) } }"

definition WalAbortScan :: "wlan_env \<Rightarrow> wifi \<Rightarrow> int \<times> wifi" where
  "WalAbortScan env st = drv env Cancel_scan st"

definition WalSetScanningMacAddress :: int where
  "WalSetScanningMacAddress = HDF_ERR_NOT_SUPPORT"

section \<open>Basic operations\<close>

definition WalSetMode :: "wlan_env \<Rightarrow> int \<Rightarrow> wifi \<Rightarrow> int \<times> wifi" where
  "WalSetMode env mode st = drv env (Change_virtual_intf mode) st"

definition WalAddKey ::
    "wlan_env \<Rightarrow> int \<Rightarrow> bool \<Rightarrow> byte list option \<Rightarrow> (byte list \<times> byte list \<times> u32) option \<Rightarrow> wifi \<Rightarrow> (int \<times> wifi) option" where
  "WalAddKey env keyIndex pairw macAddr params st =
     do { (key, sq, cipher) \<leftarrow> params; Some (drv env (Add_key keyIndex pairw macAddr key sq cipher) st) }"

text \<open>An address of zeros stands for no address.\<close>

definition WalDelKey :: "wlan_env \<Rightarrow> int \<Rightarrow> bool \<Rightarrow> byte list option \<Rightarrow> wifi \<Rightarrow> int \<times> wifi" where
  "WalDelKey env keyIndex pairw macAddr st =
     drv env (Del_key keyIndex pairw (case macAddr of Some m \<Rightarrow> if take 6 m = replicate 6 0 then None else Some m | None \<Rightarrow> None)) st"

definition WalSetDefaultKey :: "wlan_env \<Rightarrow> int \<Rightarrow> bool \<Rightarrow> bool \<Rightarrow> wifi \<Rightarrow> int \<times> wifi" where
  "WalSetDefaultKey env keyIndex unicast multicas st = drv env (Set_default_key keyIndex unicast multicas) st"

text \<open>\<open>chip_mac\<close> is the address that the wireless driver reports.\<close>

definition WalGetDeviceMacAddr :: "byte list \<Rightarrow> byte list \<Rightarrow> (int \<times> byte list) option" where
  "WalGetDeviceMacAddr chip_mac mac = do { m \<leftarrow> store_bytes mac 0 chip_mac; Some (HDF_SUCCESS, m) }"

fun fmt_mac_lower :: "byte list \<Rightarrow> string" where
  "fmt_mac_lower [] = []"
| "fmt_mac_lower [b] = fmt_hex False 2 (unat b)"
| "fmt_mac_lower (b # bs) = fmt_hex False 2 (unat b) @ CHR '':'' # fmt_mac_lower bs"

text \<open>The text is printed into an array of six bytes and handed to the address manager.\<close>

definition WalSetMacAddr :: "byte list \<Rightarrow> nat \<Rightarrow> addr_sys \<Rightarrow> (int \<times> addr_sys) option" where
  "WalSetMacAddr mac len am =
     (if len \<le> 6 then
        do {
          m \<leftarrow> take_n mac 6;
          let text = fmt_mac_lower m @ [newline];
          _ \<leftarrow> store_bytes (replicate 6 0) 0 (map of_char text @ [0]);
          (rc, am) \<leftarrow> set_wifi_custom_mac_address text len am;
          Some (if rc < 0 then -1 else HDF_SUCCESS, am) }
      else Some (HDF_SUCCESS, am))"

definition WalSetTxPower :: "wlan_env \<Rightarrow> int \<Rightarrow> wifi \<Rightarrow> int \<times> wifi" where
  "WalSetTxPower env pw st = (HDF_SUCCESS, snd (drv env (Set_tx_power pw) st))"

text \<open>The loop over the channels 1 to 14 with the bounds 2412 and 2472.\<close>

definition channel_freq :: "nat \<Rightarrow> u32" where
  "channel_freq n = (if n < 14 then 2412 + (of_nat n - 1) * 5 else 2484)"

fun freq_loop :: "nat list \<Rightarrow> nat \<Rightarrow> u32 list \<Rightarrow> (nat \<times> u32 list) option" where
  "freq_loop [] i out = Some (i, out)"
| "freq_loop (n # ns) i out =
     (if channel_freq n < 2412 \<or> 2472 < channel_freq n then freq_loop ns i out
      else do { out \<leftarrow> arr_set out i (channel_freq n); freq_loop ns (Suc i) out })"

definition WalGetValidFreqsWithBand :: "int \<Rightarrow> u32 list option \<Rightarrow> (int \<times> u32 list \<times> nat option) option" where
  "WalGetValidFreqsWithBand bnd out =
     (case out of
        None \<Rightarrow> Some (-1, [], None)
      | Some out \<Rightarrow>
          if bnd = 0 then do { (n, out) \<leftarrow> freq_loop [1..<15] 0 out; Some (HDF_SUCCESS, out, Some n) }
          else Some (HDF_ERR_NOT_SUPPORT, out, None))"

record capability =
  cap_ht :: u16
  cap_channels :: "(u32 \<times> u32 \<times> u32) list"
  cap_rates :: "u16 list"

text \<open>\<open>m1\<close>, \<open>m2\<close> and \<open>m3\<close> are the allocations; the counters of the loops have eight bits.\<close>

definition WalGetHwCapability :: "wlan_env \<Rightarrow> bool \<Rightarrow> bool \<Rightarrow> bool \<Rightarrow> (int \<times> capability option) option" where
  "WalGetHwCapability env m1 m2 m3 =
     do {
       w \<leftarrow> radio env;
       bnd \<leftarrow> (case w of Some b # _ \<Rightarrow> Some b | _ \<Rightarrow> None);
       if \<not> m1 then Some (HDF_FAILURE, None)
       else if \<not> m2 then Some (HDF_FAILURE, None)
       else if 255 < length (channels bnd) then None
       else if \<not> m3 then Some (HDF_FAILURE, None)
       else if 255 < length (bitrates bnd) then None
       else Some (HDF_SUCCESS, Some \<lparr>cap_ht = ht_cap bnd,
              cap_channels = map (\<lambda>c. (center_freq c, chan_flags c, hw_value c)) (channels bnd), cap_rates = bitrates bnd\<rparr>) }"

definition WalSendAction :: int where
  "WalSendAction = HDF_ERR_NOT_SUPPORT"

text \<open>The parameter is overwritten instead of what it points to.\<close>

definition WalGetIftype :: "wifi \<Rightarrow> int \<Rightarrow> int \<times> int" where
  "WalGetIftype st out = (HDF_SUCCESS, out)"

section \<open>Access point\<close>

definition SetupWireLessDev :: "wlan_env \<Rightarrow> ap_conf \<Rightarrow> wifi \<Rightarrow> int \<times> wifi" where
  "SetupWireLessDev env conf st =
     (HDF_SUCCESS, st\<lparr>wdev := \<lparr>iftype = NL80211_IFTYPE_AP env, pre_width = c_width conf, pre_freq1 = c_freq1 conf,
        pre_freq2 = c_freq2 conf, pre_hw = c_channel conf, pre_center = c_freq1 conf\<rparr>\<rparr>)"

definition WalConfigAp :: "wlan_env \<Rightarrow> ap_conf \<Rightarrow> wifi \<Rightarrow> (int \<times> wifi) option" where
  "WalConfigAp env conf st =
     (let (rc, st) = SetupWireLessDev env conf st in
      if rc \<noteq> 0 then Some (HDF_FAILURE, st)
      else do {
        (_, s) \<leftarrow> memcpy_s (IEEE80211_MAX_SSID_LEN env) (ap_ssid (ap_setting_info st)) (c_ssid conf) (c_ssidLen conf);
        let st = st\<lparr>ap_setting_info := (ap_setting_info st)\<lparr>ap_ssid_len := c_ssidLen conf, ap_ssid := s, ap_freq1 := c_freq1 conf,
          ap_freq2 := c_freq2 conf, ap_width := c_width conf, ap_chan := Some (c_freq1 conf, c_channel conf)\<rparr>\<rparr>;
        let (_, st) = drv env (Change_virtual_intf (iftype (wdev st))) st;
        Some (HDF_SUCCESS, st) })"

definition WalStartAp :: "wlan_env \<Rightarrow> wifi \<Rightarrow> int \<times> wifi" where
  "WalStartAp env st =
     drv env (Start_ap (ap_setting_info st)) (st\<lparr>wdev := (wdev st)\<lparr>pre_center := pre_freq1 (wdev st)\<rparr>\<rparr>)"

definition WalStopAp :: "wlan_env \<Rightarrow> wifi \<Rightarrow> int \<times> wifi" where
  "WalStopAp env st = drv env Stop_ap st"

definition WalChangeBeacon :: "wlan_env \<Rightarrow> beacon_conf option \<Rightarrow> wifi \<Rightarrow> (int \<times> wifi) option" where
  "WalChangeBeacon env param st =
     do {
       b \<leftarrow> param;
       let st = st\<lparr>ap_setting_info := (ap_setting_info st)\<lparr>ap_dtim := b_dtim b, ap_hidden := b_hidden b, ap_interval := b_interval b,
         ap_head := b_head b, ap_tail := b_tail b\<rparr>\<rparr>;
       let (_, st) = drv env (Change_beacon (b_head b) (b_tail b)) st;
       Some (HDF_SUCCESS, st) }"

definition WalDelStation :: "wlan_env \<Rightarrow> byte list option \<Rightarrow> wifi \<Rightarrow> int \<times> wifi" where
  "WalDelStation env macAddr st = drv env (Del_station macAddr) st"

text \<open>Not supported: only the device is checked.\<close>

definition WalSetCountryCode :: "bool \<Rightarrow> int" where
  "WalSetCountryCode dev = (if \<not> dev then HDF_FAILURE else HDF_SUCCESS)"

definition WalGetAssociatedStasCount :: "bool \<Rightarrow> int" where
  "WalGetAssociatedStasCount dev = (if \<not> dev then HDF_FAILURE else HDF_SUCCESS)"

definition WalGetAssociatedStasInfo :: "bool \<Rightarrow> int" where
  "WalGetAssociatedStasInfo dev = (if \<not> dev then HDF_FAILURE else HDF_SUCCESS)"

text \<open>The tables of operations are set only when the parameters could be allocated; \<open>mem\<close> is the outcome of \<open>kzalloc\<close>.\<close>

definition zero_assoc :: "wlan_env \<Rightarrow> WlanAssocParams" where
  "zero_assoc env = \<lparr>centerFreq = 0, bssid = replicate 6 0, ssid = replicate (OAL_IEEE80211_MAX_SSID_LEN env) 0, ssidLen = 0,
     ie = None, ie_len = 0, g_crypto = \<lparr>crypto_bytes = []\<rparr>\<rparr>"

definition XrMac80211Init :: "wlan_env \<Rightarrow> bool \<Rightarrow> bool \<Rightarrow> wifi \<Rightarrow> bool \<times> wifi" where
  "XrMac80211Init env chipDriver mem st =
     (if \<not> chipDriver then (False, st)
      else case global_param st of
        Some _ \<Rightarrow> (True, st)
      | None \<Rightarrow> if \<not> mem then (False, st) else (True, st\<lparr>global_param := Some (zero_assoc env)\<rparr>))"

section \<open>The network device\<close>

record net_dev =
  nd_ops :: bool
  nd_eapol :: bool
  nd_mac :: "byte list"
  nd_wdev :: bool

definition hdf_netdev_init :: "byte list \<Rightarrow> net_dev option \<Rightarrow> (int \<times> net_dev) option" where
  "hdf_netdev_init chip_mac dev = do { d \<leftarrow> dev; Some (HDF_SUCCESS, d\<lparr>nd_ops := True, nd_eapol := True, nd_mac := chip_mac\<rparr>) }"

text \<open>\<open>lin\<close> is the Linux device of the framework's device, \<open>krn\<close> the one of the wireless driver; \<open>ptr\<close> its wireless device.\<close>

definition hdf_netdev_open :: "wlan_env \<Rightarrow> nat option \<Rightarrow> nat option \<Rightarrow> bool \<Rightarrow> net_dev \<Rightarrow> wifi \<Rightarrow> int \<times> net_dev \<times> wifi" where
  "hdf_netdev_open env lin krn ptr dev st =
     (if lin \<noteq> krn then (0, dev, st)
      else if lin = None then (HDF_FAILURE, dev, st)
      else let (rc, st) = drv env Ndo_open st in (rc, dev\<lparr>nd_wdev := ptr\<rparr>, st\<lparr>gp_hdf_netDev := True\<rparr>))"

definition hdf_netdev_stop :: "wlan_env \<Rightarrow> nat option \<Rightarrow> nat option \<Rightarrow> bool \<Rightarrow> wifi \<Rightarrow> (int \<times> wifi) option" where
  "hdf_netdev_stop env lin krn dev st =
     (if \<not> dev then None
      else if lin \<noteq> krn then Some (0, st)
      else if lin = None then Some (HDF_FAILURE, st)
      else Some (drv env Ndo_stop st))"

definition hdf_netdev_xmit :: "wlan_env \<Rightarrow> nat option \<Rightarrow> byte list option \<Rightarrow> wifi \<Rightarrow> int \<times> wifi" where
  "hdf_netdev_xmit env lin buff st =
     (case (lin, buff) of (Some _, Some b) \<Rightarrow> drv env (Ndo_xmit b) st | _ \<Rightarrow> (HDF_FAILURE, st))"

definition hdf_netdev_ioctl :: "nat option \<Rightarrow> bool \<Rightarrow> int option" where
  "hdf_netdev_ioctl lin dev = (if \<not> dev then None else Some (if lin = None then HDF_FAILURE else HDF_SUCCESS))"

definition hdf_netdev_setmacaddr :: "wlan_env \<Rightarrow> nat option \<Rightarrow> bool \<Rightarrow> byte list option \<Rightarrow> wifi \<Rightarrow> (int \<times> wifi) option" where
  "hdf_netdev_setmacaddr env lin dev a st =
     (if \<not> dev then None
      else case (lin, a) of (Some _, Some m) \<Rightarrow> Some (drv env (Ndo_set_mac m) st) | _ \<Rightarrow> Some (HDF_FAILURE, st))"

text \<open>The pointer for the counters is null and is never assigned: there is no result (\<open>Some None\<close>).\<close>

definition hdf_netdev_getstats :: "nat option \<Rightarrow> bool \<Rightarrow> unit option option" where
  "hdf_netdev_getstats lin dev = (if \<not> dev then None else Some None)"

definition hdf_netdev_changemtu :: "nat option \<Rightarrow> bool \<Rightarrow> int option" where
  "hdf_netdev_changemtu lin dev = (if \<not> dev then None else Some (if lin = None then HDF_FAILURE else HDF_SUCCESS))"

datatype ProcessingResult = PROCESSING_ERROR | PROCESSING_CONTINUE | PROCESSING_COMPLETE

text \<open>\<open>pae\<close> is the type of the frames of the key exchange; the frame is freed here exactly if the queue refuses it.\<close>

definition hdf_netdev_specialethertypeprocess ::
    "wlan_env \<Rightarrow> u16 \<Rightarrow> bool \<Rightarrow> bool \<Rightarrow> byte list option \<Rightarrow> wifi \<Rightarrow> (ProcessingResult \<times> bool \<times> wifi) option" where
  "hdf_netdev_specialethertypeprocess env pae dev procPriv buff st =
     (case buff of
        None \<Rightarrow> Some (PROCESSING_ERROR, False, st)
      | Some d \<Rightarrow>
          if \<not> dev then Some (PROCESSING_ERROR, False, st)
          else do {
            hi \<leftarrow> load8 d 12;
            lo \<leftarrow> load8 d 13;
            let protocol = push_bit 8 (ucast hi) OR ucast lo;
            if protocol \<noteq> pae then Some (PROCESSING_CONTINUE, False, st)
            else if \<not> procPriv then Some (PROCESSING_ERROR, False, st)
            else let (rc, st) = drv env (Eapol d) st in Some (PROCESSING_COMPLETE, rc \<noteq> HDF_SUCCESS, st) })"

text \<open>The received frames go to the device that was opened last.\<close>

definition wal_netif_rx :: "wlan_env \<Rightarrow> byte list \<Rightarrow> wifi \<Rightarrow> wifi" where
  "wal_netif_rx env skb st = snd (drv env (Rx skb) st)"
section \<open>Ownership of the copied elements\<close>

text \<open>
  The heap holds exactly the copy that \<open>global_param\<close> points to; the remembered name and address fit their arrays, and
  a frequency has been remembered.
\<close>

definition heap_owned :: "WlanAssocParams \<Rightarrow> (nat \<Rightarrow> byte list option) \<Rightarrow> bool" where
  "heap_owned g h =
     (case ie g of
        None \<Rightarrow> h = (\<lambda>_. None)
      | Some p \<Rightarrow> (\<exists>b. h = [p \<mapsto> b] \<and> length b = ie_len g))"

definition param_inv :: "wlan_env \<Rightarrow> WlanAssocParams \<Rightarrow> bool" where
  "param_inv env g \<longleftrightarrow> length (bssid g) = 6 \<and> length (ssid g) = OAL_IEEE80211_MAX_SSID_LEN env \<and> ssidLen g \<le> length (ssid g)"

definition wifi_inv :: "wlan_env \<Rightarrow> wifi \<Rightarrow> bool" where
  "wifi_inv env st = (case global_param st of None \<Rightarrow> False | Some g \<Rightarrow> param_inv env g \<and> heap_owned g (kheap st))"

definition freq_known :: "wlan_env \<Rightarrow> wifi \<Rightarrow> bool" where
  "freq_known env st = (case global_param st of None \<Rightarrow> False | Some g \<Rightarrow> centerFreq g \<noteq> WLAN_FREQ_NOT_SPECFIED env)"

definition params_ok :: "wlan_env \<Rightarrow> connect_params \<Rightarrow> bool" where
  "params_ok env param \<longleftrightarrow> p_freq param \<noteq> WLAN_FREQ_NOT_SPECFIED env \<and> 6 \<le> length (p_bssid param) \<and>
     p_ssidLen param \<le> OAL_IEEE80211_MAX_SSID_LEN env \<and> p_ssidLen param \<le> length (p_ssid param)"

text \<open>The sizes alone: an address of six bytes and a name that fits the remembered one.\<close>

definition sizes_ok :: "wlan_env \<Rightarrow> connect_params \<Rightarrow> bool" where
  "sizes_ok env param \<longleftrightarrow> 6 \<le> length (p_bssid param) \<and>
     p_ssidLen param \<le> OAL_IEEE80211_MAX_SSID_LEN env \<and> p_ssidLen param \<le> length (p_ssid param)"

lemma drv_sel [simp]:
  "(case drv env c st of (rc, s) \<Rightarrow> f rc s) = f (answer env c) (snd (drv env c st))"
  "global_param (snd (drv env c st)) = global_param st" "kheap (snd (drv env c st)) = kheap st"
  "sent (snd (drv env c st)) = sent st @ [c]" "gp_hdf_netDev (snd (drv env c st)) = gp_hdf_netDev st"
  by (simp_all add: drv_def)

lemma map_one_free: "[p \<mapsto> b](p := None) = (\<lambda>_. None)"
  by auto

lemma free_ie_run:
  assumes "global_param st = Some g" "heap_owned g (kheap st)"
  shows "free_ie st = Some (st\<lparr>global_param := Some (g\<lparr>ie := None\<rparr>), kheap := (\<lambda>_. None)\<rparr>)"
proof (cases "ie g")
  case None
  then have "g\<lparr>ie := None\<rparr> = g" by simp
  then show ?thesis using assms None by (simp add: free_ie_def heap_owned_def)
next
  case (Some p)
  then obtain b where "kheap st = [p \<mapsto> b]" using assms(2) by (auto simp: heap_owned_def)
  then show ?thesis using assms(1) Some by (simp add: free_ie_def kfree_def)
qed

lemma remember_run:
  assumes "params_ok env param" "param_inv env g"
  shows "remember env param g = Some (g\<lparr>centerFreq := p_freq param, ssidLen := p_ssidLen param, ie_len := length (p_ie param),
      bssid := take 6 (p_bssid param), ssid := take (p_ssidLen param) (p_ssid param) @ drop (p_ssidLen param) (ssid g)\<rparr>)"
  using assms by (simp add: remember_def memcpy_s_def params_ok_def param_inv_def not_less)

definition remembered :: "connect_params \<Rightarrow> WlanAssocParams \<Rightarrow> WlanAssocParams" where
  "remembered param g = g\<lparr>centerFreq := p_freq param, ssidLen := p_ssidLen param, ie_len := length (p_ie param),
      bssid := take 6 (p_bssid param), ssid := take (p_ssidLen param) (p_ssid param) @ drop (p_ssidLen param) (ssid g)\<rparr>"

lemma remembered_inv:
  "params_ok env param \<Longrightarrow> param_inv env g \<Longrightarrow> param_inv env (remembered param g)"
  by (auto simp: params_ok_def param_inv_def remembered_def)

text \<open>The whole of an authentication, case by case.\<close>

lemma authenticate_run:
  assumes "wifi_inv env st" "global_param st = Some g" "params_ok env param" "netdev env"
    "request_channel env (p_freq param) = Some (Some c)"
  shows "WalAuthenticate env (Some param) st =
    (let g1 = remembered param g; st1 = st\<lparr>global_param := Some (g1\<lparr>ie := None\<rparr>), kheap := (\<lambda>_. None)\<rparr> in
     case new_ie env of
       None \<Rightarrow> Some (HDF_FAILURE, st1)
     | Some p \<Rightarrow>
         if \<not> crypto_fits env
         then Some (HDF_FAILURE, st1\<lparr>global_param := Some (g1\<lparr>ie := Some p\<rparr>), kheap := [p \<mapsto> replicate (length (p_ie param)) 0]\<rparr>)
         else let call = Auth c (p_bssid param) (take (p_ssidLen param) (p_ssid param)) (p_ie param) (p_auth param);
                  g2 = g1\<lparr>ie := Some p, g_crypto := p_crypto param\<rparr>;
                  st2 = snd (drv env call (st1\<lparr>global_param := Some g2, kheap := [p \<mapsto> p_ie param]\<rparr>)) in
           if answer env call < 0
           then Some (answer env call, st2\<lparr>global_param := Some (g2\<lparr>ie := None\<rparr>), kheap := (\<lambda>_. None)\<rparr>)
           else Some (answer env call, st2))"
proof -
  have p: "param_inv env g" "heap_owned g (kheap st)" using assms(1,2) by (simp_all add: wifi_inv_def)
  have "remember env param g = Some (remembered param g)"
    using remember_run [OF assms(3) p(1)] by (simp add: remembered_def)
  moreover have "free_ie (st\<lparr>global_param := Some (remembered param g)\<rparr>) =
      Some (st\<lparr>global_param := Some ((remembered param g)\<lparr>ie := None\<rparr>), kheap := (\<lambda>_. None)\<rparr>)"
  proof (cases "ie g")
    case None
    have "(remembered param g)\<lparr>ie := None\<rparr> = remembered param g" using None by (simp add: remembered_def)
    then show ?thesis using None p(2) by (simp add: free_ie_def heap_owned_def remembered_def)
  next
    case (Some q)
    then show ?thesis using p(2) by (auto simp: free_ie_def kfree_def heap_owned_def remembered_def)
  qed
  ultimately have r: "remember env param g = Some (remembered param g)" "free_ie (st\<lparr>global_param := Some (remembered param g)\<rparr>) =
      Some (st\<lparr>global_param := Some ((remembered param g)\<lparr>ie := None\<rparr>), kheap := (\<lambda>_. None)\<rparr>)" by auto
  have l: "ie_len (remembered param g) = length (p_ie param)" by (simp add: remembered_def)
  show ?thesis
    using assms(2,4,5) r l
    by (auto simp: WalAuthenticate_def Let_def split: option.split) (simp add: free_ie_def kfree_def map_one_free)
qed

lemma heap_owned_new:
  "heap_owned (g\<lparr>ie := None\<rparr>) (\<lambda>_. None)" "length b = ie_len g \<Longrightarrow> heap_owned (g\<lparr>ie := Some p\<rparr>) [p \<mapsto> b]"
  by (auto simp: heap_owned_def)

lemma authenticate_inv:
  assumes "wifi_inv env st" "params_ok env param"
  shows "\<exists>rc st'. WalAuthenticate env (Some param) st = Some (rc, st') \<and> wifi_inv env st' \<and> (freq_known env st \<longrightarrow> freq_known env st')"
proof -
  obtain g where g: "global_param st = Some g" "param_inv env g" using assms(1) by (auto simp: wifi_inv_def split: option.splits)
  have f: "p_freq param \<noteq> WLAN_FREQ_NOT_SPECFIED env" using assms(2) by (simp add: params_ok_def)
  show ?thesis
  proof (cases "netdev env \<and> chan_usable env (WalGetChannel (radio env) (p_freq param))")
    case True
    then obtain c where c: "request_channel env (p_freq param) = Some (Some c)"
      using f by (auto simp: request_channel_def chan_usable_def split: option.splits)
    have inv: "param_inv env (remembered param g)" using remembered_inv [OF assms(2) g(2)] .
    have k: "centerFreq (remembered param g) = p_freq param" "ie_len (remembered param g) = length (p_ie param)"
      by (simp_all add: remembered_def)
    show ?thesis
      unfolding authenticate_run [OF assms(1) g(1) assms(2) conjunct1 [OF True] c] Let_def
      using inv k f
      by (cases "new_ie env") (auto simp: wifi_inv_def freq_known_def heap_owned_def param_inv_def)
  next
    case False
    then show ?thesis using assms(1) f by (auto simp: WalAuthenticate_def request_channel_def)
  qed
qed

lemma associate_inv:
  assumes "wifi_inv env st" "freq_known env st"
  shows "\<exists>rc st'. WalAssociate env st = Some (rc, st') \<and> wifi_inv env st' \<and> freq_known env st' \<and> kheap st' = (\<lambda>_. None)"
proof -
  obtain g where g: "global_param st = Some g" "param_inv env g" "heap_owned g (kheap st)" "centerFreq g \<noteq> WLAN_FREQ_NOT_SPECFIED env"
    using assms by (auto simp: wifi_inv_def freq_known_def split: option.splits)
  have s: "take_n (ssid g) (int (ssidLen g)) = Some (take (ssidLen g) (ssid g))" using g(2) by (simp add: take_n_def param_inv_def)
  obtain call where call: "(case ie g of
      None \<Rightarrow> Some (Assoc_null c (bssid g) s (ie_len g) (g_crypto g))
    | Some p \<Rightarrow> do { ies \<leftarrow> kheap st p; Some (Assoc c (bssid g) s ies (g_crypto g)) }) = Some (call c s)" for c s
  proof (cases "ie g")
    case None
    then show ?thesis using that [of "\<lambda>c s. Assoc_null c (bssid g) s (ie_len g) (g_crypto g)"] by simp
  next
    case (Some p)
    then obtain b where "kheap st p = Some b" using g(3) by (auto simp: heap_owned_def)
    then show ?thesis using that [of "\<lambda>c s. Assoc c (bssid g) s b (g_crypto g)"] Some by simp
  qed
  have fr: "free_ie st' = Some (st'\<lparr>global_param := Some (g\<lparr>ie := None\<rparr>), kheap := (\<lambda>_. None)\<rparr>)"
    if "global_param st' = Some g" "kheap st' = kheap st" for st' using free_ie_run that g(3) by simp
  have inv: "param_inv env (g\<lparr>ie := None\<rparr>)" using g(2) by (simp add: param_inv_def)
  show ?thesis
    using g s call inv fr
    by (auto simp: WalAssociate_def request_channel_def wifi_inv_def freq_known_def heap_owned_new split: option.split)
qed
section \<open>Connections in any order\<close>

datatype wifi_op = Connect connect_params | Auth_result u16 | Disconnect int

fun wifi_step :: "wlan_env \<Rightarrow> wifi_op \<Rightarrow> wifi \<Rightarrow> wifi option" where
  "wifi_step env (Connect param) st = map_option snd (WalAuthenticate env (Some param) st)"
| "wifi_step env (Auth_result code) st = inform_auth_result env code st"
| "wifi_step env (Disconnect reason) st = map_option snd (WalDisconnect env reason st)"

fun wifi_trace :: "(wlan_env \<times> wifi_op) list \<Rightarrow> wifi \<Rightarrow> wifi option" where
  "wifi_trace [] st = Some st"
| "wifi_trace ((env, op) # ops) st = do { st' \<leftarrow> wifi_step env op st; wifi_trace ops st' }"

text \<open>The environments of a trace differ in the answers of the driver and the allocator, not in the constants.\<close>

definition same_headers :: "wlan_env \<Rightarrow> wlan_env \<Rightarrow> bool" where
  "same_headers env env' \<longleftrightarrow> OAL_IEEE80211_MAX_SSID_LEN env' = OAL_IEEE80211_MAX_SSID_LEN env \<and>
     WLAN_FREQ_NOT_SPECFIED env' = WLAN_FREQ_NOT_SPECFIED env"

fun step_ok :: "wlan_env \<Rightarrow> wifi_op \<Rightarrow> bool" where
  "step_ok env (Connect param) = sizes_ok env param"
| "step_ok env _ = True"

text \<open>
  A step that uses a channel variable it has not assigned, because no frequency was given, and the traces that
  come to such a step.
\<close>

fun channel_unassigned :: "wlan_env \<Rightarrow> wifi_op \<Rightarrow> wifi \<Rightarrow> bool" where
  "channel_unassigned env (Connect param) st \<longleftrightarrow> netdev env \<and> p_freq param = WLAN_FREQ_NOT_SPECFIED env"
| "channel_unassigned env (Auth_result code) st \<longleftrightarrow> code = 0 \<and> \<not> freq_known env st"
| "channel_unassigned env (Disconnect reason) st \<longleftrightarrow> False"

fun unassigned_in :: "(wlan_env \<times> wifi_op) list \<Rightarrow> wifi \<Rightarrow> bool" where
  "unassigned_in [] st \<longleftrightarrow> False"
| "unassigned_in ((env, op) # ops) st \<longleftrightarrow> channel_unassigned env op st \<or>
     (case wifi_step env op st of None \<Rightarrow> False | Some st' \<Rightarrow> unassigned_in ops st')"

fun gives_freq :: "wlan_env \<Rightarrow> wifi_op \<Rightarrow> bool" where
  "gives_freq env (Connect param) \<longleftrightarrow> p_freq param \<noteq> WLAN_FREQ_NOT_SPECFIED env"
| "gives_freq env _ \<longleftrightarrow> True"

lemma same_headers_inv: "same_headers env env' \<Longrightarrow> wifi_inv env' st = wifi_inv env st \<and> freq_known env' st = freq_known env st"
  by (auto simp: same_headers_def wifi_inv_def freq_known_def param_inv_def split: option.splits)

lemma wifi_step_inv:
  assumes "wifi_inv env st" "step_ok env op" "\<not> channel_unassigned env op st"
  shows "\<exists>st'. wifi_step env op st = Some st' \<and> wifi_inv env st' \<and> (freq_known env st \<and> gives_freq env op \<longrightarrow> freq_known env st')"
proof (cases op)
  case (Connect param)
  show ?thesis
  proof (cases "netdev env")
    case True
    then have "params_ok env param" using assms(2,3) Connect by (simp add: params_ok_def sizes_ok_def)
    then show ?thesis using authenticate_inv [OF assms(1), of param] Connect by auto
  next
    case False
    then show ?thesis using assms(1) Connect by (simp add: WalAuthenticate_def)
  qed
next
  case (Auth_result code)
  then show ?thesis using associate_inv [OF assms(1)] assms by (auto simp: inform_auth_result_def)
next
  case (Disconnect reason)
  obtain g where "global_param st = Some g" using assms(1) by (auto simp: wifi_inv_def split: option.splits)
  then show ?thesis
    using Disconnect assms by (simp add: WalDisconnect_def wifi_inv_def freq_known_def)
qed

lemma wifi_step_fault:
  assumes "wifi_inv env st" "channel_unassigned env op st" shows "wifi_step env op st = None"
  using assms
  by (cases op)
    (auto simp: WalAuthenticate_def request_channel_def inform_auth_result_def WalAssociate_def wifi_inv_def freq_known_def
      split: option.splits)

lemma wifi_trace_inv:
  assumes "wifi_inv env st" "list_all (\<lambda>(e, op). same_headers env e \<and> step_ok e op) ops"
  shows "if unassigned_in ops st then wifi_trace ops st = None else \<exists>st'. wifi_trace ops st = Some st' \<and> wifi_inv env st'"
    "freq_known env st \<Longrightarrow> list_all (\<lambda>(e, op). gives_freq e op) ops \<Longrightarrow> \<not> unassigned_in ops st"
  using assms
proof (induction ops arbitrary: st)
  case (Cons x ops)
  obtain e op where x: "x = (e, op)" by force
  { case 1
    then have e: "wifi_inv e st" "step_ok e op" "same_headers env e" using same_headers_inv x by auto
    show ?case
    proof (cases "channel_unassigned e op st")
      case True
      then show ?thesis using wifi_step_fault [OF e(1)] x by simp
    next
      case False
      then obtain st1 where "wifi_step e op st = Some st1" "wifi_inv env st1"
        using wifi_step_inv [OF e(1,2)] same_headers_inv [OF e(3)] by auto
      then show ?thesis using Cons.IH(1) [of st1] 1(2) x False by auto
    qed
  next
    case 2
    then have e: "wifi_inv e st" "step_ok e op" "same_headers env e" "gives_freq e op" "freq_known e st"
      using same_headers_inv x by auto
    then have un: "\<not> channel_unassigned e op st" by (cases op) auto
    then obtain st1 where "wifi_step e op st = Some st1" "wifi_inv env st1" "freq_known env st1"
      using wifi_step_inv [OF e(1,2)] same_headers_inv [OF e(3)] e(4,5) by auto
    then show ?case using Cons.IH(2) [of st1] 2 x un by auto
  }
qed auto

section \<open>Scan requests\<close>

lemma find_freq_sound: "find_freq f cs = Some c \<Longrightarrow> c \<in> set cs \<and> center_freq c = f"
  by (induction cs) (auto split: if_splits)

lemma find_band_sound: "find_band f w = Some c \<Longrightarrow> center_freq c = f \<and> (\<exists>b. Some b \<in> set w \<and> c \<in> set (channels b))"
  by (induction f w rule: find_band.induct) (auto split: option.splits dest: find_freq_sound)

definition all_channels :: "wiphy \<Rightarrow> channel list" where
  "all_channels w = concat (map (\<lambda>b. case b of None \<Rightarrow> [] | Some b \<Rightarrow> channels b) w)"

text \<open>What the function of the kernel is documented to count: the channels of all bands.\<close>

definition counts_channels :: "wlan_env \<Rightarrow> wiphy \<Rightarrow> bool" where
  "counts_channels env w \<longleftrightarrow> ieee80211_get_num_supported_channels env w = length (all_channels w)"

lemma find_band_member: "find_band f w = Some c \<Longrightarrow> center_freq c = f \<and> c \<in> set (all_channels w)"
  using find_band_sound [of f w c] by (force simp: all_channels_def)

lemma ucast_u32_inj:
  assumes "(ucast (x :: u16) :: u32) = ucast y" shows "x = y"
proof (rule bit_word_eqI)
  fix n assume n: "n < LENGTH(16)"
  have "bit (ucast x :: u32) n = bit (ucast y :: u32) n" using assms by simp
  then show "bit x n = bit y n" using n by (simp add: bit_ucast_iff)
qed

text \<open>Different frequencies select different channels.\<close>

lemma map_filter_freqs:
  assumes "distinct (map (\<lambda>f. ucast f :: u16) fs)"
  shows "distinct (List.map_filter (GetChannelByFreq w) fs) \<and> set (List.map_filter (GetChannelByFreq w) fs) \<subseteq> set (all_channels w)"
  using assms
proof (induction fs)
  case (Cons f fs)
  have "c \<notin> set (List.map_filter (GetChannelByFreq w) fs)" if c: "GetChannelByFreq w f = Some c" for c
  proof
    assume "c \<in> set (List.map_filter (GetChannelByFreq w) fs)"
    then obtain f' where f': "f' \<in> set fs" "GetChannelByFreq w f' = Some c" by (auto simp: List.map_filter_def)
    have "(ucast (ucast f :: u16) :: u32) = ucast (ucast f' :: u16)"
      using find_band_member c f'(2) by (metis GetChannelByFreq_def)
    then have "(ucast f :: u16) = ucast f'" by (rule ucast_u32_inj)
    then show False using Cons.prems f'(1) by (auto simp: image_iff)
  qed
  moreover have "GetChannelByFreq w f = Some c \<Longrightarrow> c \<in> set (all_channels w)" for c
    using find_band_member by (simp add: GetChannelByFreq_def)
  ultimately show ?case using Cons by (auto simp: List.map_filter_simps split: option.split)
qed (simp add: List.map_filter_simps)

lemma ssid_loop_run: "list_all (\<lambda>s. s_len s \<le> length (s_bytes s)) l \<Longrightarrow> \<exists>r. ssid_loop env n l = Some r"
proof (induction l arbitrary: n)
  case (Cons s l)
  obtain r r' where "ssid_loop env n l = Some r" "ssid_loop env (Suc n) l = Some r'"
    using Cons.IH [of n] Cons.IH [of "Suc n"] Cons.prems by auto
  then show ?case using Cons.prems by (auto simp: memcpy_s_def)
qed simp

lemma scan_channels_fit:
  assumes "scan_channels env w param = Some cs" "\<And>fs. freqs param = Some fs \<Longrightarrow> distinct (map (\<lambda>f. ucast f :: u16) fs)"
  shows "length cs \<le> length (all_channels w)"
proof (cases "\<exists>f fs. freqs param = Some (f # fs)")
  case True
  then obtain f fs where f: "freqs param = Some (f # fs)" by blast
  then have cs: "cs = List.map_filter (GetChannelByFreq w) (f # fs)" using assms(1) by (simp add: scan_channels_def)
  note d = map_filter_freqs [OF assms(2) [OF f], of w]
  have "length cs = card (set cs)" using d cs by (simp add: distinct_card)
  also have "\<dots> \<le> card (set (all_channels w))" using d cs by (intro card_mono) auto
  also have "\<dots> \<le> length (all_channels w)" by (rule card_length)
  finally show ?thesis .
next
  case False
  then obtain b w' where "w = Some b # w'" "cs = filter (\<lambda>c. chan_flags c AND WIFI_CHAN_DISABLED env = 0) (channels b)"
    using assms(1) by (auto simp: scan_channels_def split: option.splits list.splits)
  then show ?thesis by (simp add: all_channels_def le_add1 order_trans [OF length_filter_le])
qed

section \<open>Properties\<close>

text \<open>
  C32. Connecting, in any order with answers of access points and disconnects, whichever allocation or driver call
  fails. From a state of the adapter such as the cleared one after \<open>XrMac80211Init\<close>, with addresses of six bytes and
  names that fit the remembered one, a sequence has undefined behaviour exactly if it comes to a step that uses the
  channel although no frequency was given: a connection request without a frequency, which the header allows,
  or an association while no frequency is remembered. Otherwise every call returns, and the heap
  holds exactly the one copy of the information elements that the adapter points to: nothing leaks and nothing is freed
  twice. Once a frequency is remembered, a sequence whose requests all give one never comes to such a step.
\<close>

theorem wifi_heap_balanced:
  assumes "wifi_inv env st" "list_all (\<lambda>(e, op). same_headers env e \<and> step_ok e op) ops"
  shows "(if unassigned_in ops st then wifi_trace ops st = None
     else \<exists>st' g. wifi_trace ops st = Some st' \<and> global_param st' = Some g \<and> dom (kheap st') = set_option (ie g)) \<and>
    (freq_known env st \<and> list_all (\<lambda>(e, op). gives_freq e op) ops \<longrightarrow> \<not> unassigned_in ops st)"
proof -
  have dom: "\<exists>g. global_param st' = Some g \<and> dom (kheap st') = set_option (ie g)" if "wifi_inv env st'" for st'
    using that by (auto simp: wifi_inv_def heap_owned_def split: option.splits if_splits)
  show ?thesis using wifi_trace_inv [OF assms] dom by (auto split: if_splits)
qed

text \<open>
  C33. A connection that the access point lets in: the association request that follows the authentication has the
  channel, the address, the name, the information elements and the ciphers that were asked for, and afterwards the
  copy is gone.
\<close>

theorem connect_then_associate:
  assumes "wifi_inv env st" "params_ok env param" "netdev env" "new_ie env = Some p" "crypto_fits env"
    "WalGetChannel (radio env) (p_freq param) = Some c" "chan_usable env (Some c)"
    "call = Auth c (p_bssid param) (take (p_ssidLen param) (p_ssid param)) (p_ie param) (p_auth param)" "0 \<le> answer env call"
  shows "\<exists>st1 st2. WalAuthenticate env (Some param) st = Some (answer env call, st1) \<and> inform_auth_result env 0 st1 = Some st2 \<and>
    sent st2 = sent st @ [call, Assoc c (take 6 (p_bssid param)) (take (p_ssidLen param) (p_ssid param)) (p_ie param) (p_crypto param)] \<and>
    kheap st2 = (\<lambda>_. None)"
proof -
  obtain g where g: "global_param st = Some g" "param_inv env g" using assms(1) by (auto simp: wifi_inv_def split: option.splits)
  have rc: "request_channel env (p_freq param) = Some (Some c)"
    using assms(2,6,7) by (simp add: request_channel_def params_ok_def)
  define g2 where "g2 = (remembered param g)\<lparr>ie := Some p, g_crypto := p_crypto param\<rparr>"
  define st1 where "st1 = snd (drv env call (st\<lparr>global_param := Some g2, kheap := [p \<mapsto> p_ie param]\<rparr>))"
  have auth: "WalAuthenticate env (Some param) st = Some (answer env call, st1)"
    unfolding authenticate_run [OF assms(1) g(1) assms(2,3) rc] Let_def
    using assms(4,5,8,9) by (simp add: st1_def g2_def drv_def)
  have st1: "global_param st1 = Some g2" "kheap st1 = [p \<mapsto> p_ie param]" "sent st1 = sent st @ [call]" by (simp_all add: st1_def)
  have len: "p_ssidLen param \<le> length (p_ssid param)" "length (ssid g) = OAL_IEEE80211_MAX_SSID_LEN env"
    "p_ssidLen param \<le> OAL_IEEE80211_MAX_SSID_LEN env" using assms(2) g(2) by (simp_all add: params_ok_def param_inv_def)
  have f2: "centerFreq g2 = p_freq param" "ie g2 = Some p" "bssid g2 = take 6 (p_bssid param)" "g_crypto g2 = p_crypto param"
      "ssidLen g2 = p_ssidLen param" "take_n (ssid g2) (int (ssidLen g2)) = Some (take (p_ssidLen param) (p_ssid param))"
    using len by (simp_all add: g2_def remembered_def take_n_def)
  have "heap_owned g2 (kheap s)" if "kheap s = [p \<mapsto> p_ie param]" for s :: wifi
    using that by (auto simp: heap_owned_def g2_def remembered_def)
  then have fr: "free_ie s = Some (s\<lparr>global_param := Some (g2\<lparr>ie := None\<rparr>), kheap := (\<lambda>_. None)\<rparr>)"
    if "global_param s = Some g2" "kheap s = [p \<mapsto> p_ie param]" for s using free_ie_run that by simp
  have "\<exists>st2. inform_auth_result env 0 st1 = Some st2 \<and> sent st2 = sent st @
      [call, Assoc c (take 6 (p_bssid param)) (take (p_ssidLen param) (p_ssid param)) (p_ie param) (p_crypto param)] \<and> kheap st2 = (\<lambda>_. None)"
    using st1 f2 rc by (simp add: inform_auth_result_def WalAssociate_def fr)
  then show ?thesis using auth by blast
qed

text \<open>
  C34. A scan never writes outside of its request when no frequency is listed twice; and when it returns, either the
  wireless driver has been given the request or part of it stays allocated for ever.
\<close>

theorem scan_in_bounds:
  assumes "radio env = Some w" "counts_channels env w" "\<And>fs. freqs param = Some fs \<Longrightarrow> distinct (map (\<lambda>f. ucast f :: u16) fs)"
    "list_all (\<lambda>s. s_len s \<le> length (s_bytes s)) (ssids param)" "\<And>e. extraIEs param = Some e \<Longrightarrow> extraIEsLen param \<le> length e"
  shows "\<exists>rc left st'. WalStartScan env m1 m2 m3 param st = Some (rc, left, st') \<and>
    (sent st' \<noteq> sent st \<and> left = [] \<or> sent st' = sent st \<and> (m1 \<longrightarrow> left \<noteq> []))"
proof -
  have fits: "\<not> ieee80211_get_num_supported_channels env w < length cs" if "scan_channels env w param = Some cs" for cs
    using scan_channels_fit [OF that assms(3)] assms(2) by (simp add: counts_channels_def)
  have ies: "\<exists>r. scan_ies m3 param = Some r \<and> (\<forall>rc l. r = Inl (rc, l) \<longrightarrow> l \<noteq> [])"
    using assms(5) by (auto simp: scan_ies_def take_n_def split: option.split)
  obtain r where r: "scan_ies m3 param = Some r" "\<forall>rc l. r = Inl (rc, l) \<longrightarrow> l \<noteq> []" using ies by blast
  obtain l where l: "ssid_loop env 0 (ssids param) = Some l" using ssid_loop_run [OF assms(4)] by blast
  show ?thesis
    using assms(1) fits r l by (auto simp: WalStartScan_def split: option.split sum.split)
qed

text \<open>The same frequency listed more often than the radio has channels overruns the request.\<close>

theorem scan_duplicates_overflow:
  assumes "radio env = Some w" "freqs param = Some (replicate (Suc (ieee80211_get_num_supported_channels env w)) f)"
    "GetChannelByFreq w f = Some c" "m1"
  shows "WalStartScan env m1 m2 m3 param st = None"
proof -
  have "List.map_filter (GetChannelByFreq w) (replicate n f) = replicate n c" for n
    using assms(3) by (induction n) (simp_all add: List.map_filter_simps)
  from this [of "Suc (ieee80211_get_num_supported_channels env w)"] show ?thesis
    using assms by (simp add: WalStartScan_def scan_channels_def)
qed
text \<open>The frequencies of the 2.4 GHz band: the channels 1 to 13, in order; a shorter array is overrun.\<close>

lemma freq_list: "map channel_freq [1..<15] = [2412, 2417, 2422, 2427, 2432, 2437, 2442, 2447, 2452, 2457, 2462, 2467, 2472, 2484]"
  by (simp add: channel_freq_def upt_rec)

lemma freq_loop_run:
  assumes "list_all (\<lambda>n. 2412 \<le> channel_freq n \<and> channel_freq n \<le> 2472) ns"
  shows "i \<le> length out \<Longrightarrow> freq_loop (ns @ [14]) i out =
    (if i + length ns \<le> length out then Some (i + length ns, take i out @ map channel_freq ns @ drop (i + length ns) out) else None)"
  using assms
proof (induction ns arbitrary: i out)
  case Nil
  then show ?case by (simp add: channel_freq_def)
next
  case (Cons n ns)
  show ?case
  proof (cases "i < length out")
    case True
    have "\<not> channel_freq n < 2412" "\<not> 2472 < channel_freq n" using Cons.prems(2) by (simp_all add: not_less)
    then show ?thesis
      using True Cons.IH [of "Suc i" "out[i := channel_freq n]"] Cons.prems by (simp add: arr_set_def take_Suc_update)
  qed (use Cons.prems in \<open>auto simp: arr_set_def not_less\<close>)
qed

theorem valid_freqs:
  "WalGetValidFreqsWithBand 0 (Some out) =
     (if 13 \<le> length out then Some (HDF_SUCCESS, map (\<lambda>k. 2412 + 5 * of_nat k) [0..<13] @ drop 13 out, Some 13) else None)"
proof -
  have u: "[1..<15] = [1..<14] @ [14 :: nat]" by (simp add: upt_rec)
  have "map channel_freq [1..<14] = map (\<lambda>k. 2412 + 5 * of_nat k) [0..<13]" by (simp add: channel_freq_def upt_rec)
  moreover have "list_all (\<lambda>n. 2412 \<le> channel_freq n \<and> channel_freq n \<le> 2472) [1..<14]" by (simp add: channel_freq_def upt_rec)
  ultimately show ?thesis
    using freq_loop_run [of "[1..<14]" 0 out] unfolding WalGetValidFreqsWithBand_def u by simp
qed

text \<open>Setting the address of the device prints 19 bytes into an array of six, whatever the address.\<close>

lemma fmt_lower_length: "bs \<noteq> [] \<Longrightarrow> length (fmt_mac_lower bs) = 3 * length bs - 1"
proof (induction bs rule: fmt_mac_lower.induct)
  case (3 b c bs)
  then show ?case using unat_byte_lt by (simp add: fmt_byte)
qed (use unat_byte_lt in \<open>simp_all add: fmt_byte\<close>)

theorem set_mac_overflows:
  assumes "len \<le> 6" "6 \<le> length mac"
  shows "WalSetMacAddr mac len am = None"
proof -
  have "length (fmt_mac_lower (take 6 mac)) = 17" using assms(2) by (subst fmt_lower_length) auto
  then show ?thesis using assms by (simp add: WalSetMacAddr_def take_n_def store_bytes_def Let_def)
qed

text \<open>
  The access point is started with what was configured: after \<open>ConfigAp\<close> and \<open>ConfigBeacon\<close>, the driver gets the name,
  the channel, the width, the beacon and its interval.
\<close>

theorem ap_started_as_configured:
  assumes "c_ssidLen conf \<le> IEEE80211_MAX_SSID_LEN env" "c_ssidLen conf \<le> length (c_ssid conf)"
  shows "\<exists>st1 st2 s. WalConfigAp env conf st = Some (HDF_SUCCESS, st1) \<and> WalChangeBeacon env (Some b) st1 = Some (HDF_SUCCESS, st2) \<and>
    last (sent (snd (WalStartAp env st2))) = Start_ap s \<and> take (ap_ssid_len s) (ap_ssid s) = take (c_ssidLen conf) (c_ssid conf) \<and>
    ap_ssid_len s = c_ssidLen conf \<and> ap_chan s = Some (c_freq1 conf, c_channel conf) \<and> ap_freq1 s = c_freq1 conf \<and>
    ap_freq2 s = c_freq2 conf \<and> ap_width s = c_width conf \<and> ap_head s = b_head b \<and> ap_tail s = b_tail b \<and>
    ap_dtim s = b_dtim b \<and> ap_hidden s = b_hidden b \<and> ap_interval s = b_interval b"
  using assms
  by (simp add: WalConfigAp_def SetupWireLessDev_def HDF_SUCCESS_def memcpy_s_def WalChangeBeacon_def WalStartAp_def drv_def)

text \<open>
  Frames of the key exchange are taken out of the stream, all others are passed on; a frame shorter than an
  Ethernet header is read past its end.
\<close>

theorem eapol_frames:
  assumes "length d \<ge> 14"
  shows "\<exists>r freed st'. hdf_netdev_specialethertypeprocess env pae True True (Some d) st = Some (r, freed, st') \<and>
    (r = PROCESSING_COMPLETE \<longleftrightarrow> of_nat (256 * unat (d ! 12) + unat (d ! 13)) = pae) \<and>
    (r \<noteq> PROCESSING_COMPLETE \<longrightarrow> r = PROCESSING_CONTINUE \<and> st' = st \<and> \<not> freed) \<and>
    (r = PROCESSING_COMPLETE \<longrightarrow> sent st' = sent st @ [Eapol d] \<and> (freed \<longleftrightarrow> answer env (Eapol d) \<noteq> HDF_SUCCESS))"
proof -
  have "(push_bit 8 (ucast a) OR ucast b :: u16) = of_nat (256 * unat a + unat b)" for a b :: byte
  proof -
    have "push_bit 8 (ucast a :: u16) AND ucast b = 0" by (rule bit_word_eqI) (auto simp: bit_simps dest: bit_imp_le_length)
    then have "(push_bit 8 (ucast a) OR ucast b :: u16) = push_bit 8 (ucast a) + ucast b"
      by (simp add: disjunctive_add_eq_or [symmetric])
    then show ?thesis by (simp add: push_bit_eq_mult)
  qed
  then show ?thesis using assms by (auto simp: hdf_netdev_specialethertypeprocess_def load8_in)
qed
section \<open>Concrete runs\<close>

definition demo_channel :: channel where
  "demo_channel = \<lparr>center_freq = 2412, chan_flags = 0, hw_value = 1\<rparr>"

definition demo_radio :: wiphy where
  "demo_radio = [Some \<lparr>channels = [demo_channel], bitrates = [10], ht_cap = 0\<rparr>]"

definition demo_wlan :: wlan_env where
  "demo_wlan = \<lparr>radio = Some demo_radio, netdev = True, answer = (\<lambda>_. 0), new_ie = Some 1, crypto_fits = True, WLAN_FREQ_NOT_SPECFIED = 0,
     WIFI_CHAN_DISABLED = 1, OAL_IEEE80211_MAX_SSID_LEN = 32, IEEE80211_MAX_SSID_LEN = 32, WPAS_MAX_SCAN_SSIDS = 16,
     DRIVER_MAX_SCAN_SSIDS = 2, NL80211_IFTYPE_AP = 3,
     ieee80211_get_num_supported_channels = (\<lambda>w. length (concat (map (\<lambda>b. case b of None \<Rightarrow> [] | Some b \<Rightarrow> channels b) w)))\<rparr>"

definition demo_auth :: auth_info where
  "demo_auth = \<lparr>auth_type = 0, auth_key = [], key_idx = 0\<rparr>"

definition demo_params :: connect_params where
  "demo_params = \<lparr>p_freq = 2412, p_bssid = [1, 2, 3, 4, 5, 6], p_ssid = [97, 98], p_ssidLen = 2, p_ie = [48, 0], p_crypto = \<lparr>crypto_bytes = [2]\<rparr>,
     p_auth = demo_auth\<rparr>"

definition demo_wifi :: wifi where
  "demo_wifi = \<lparr>global_param = Some ((zero_assoc demo_wlan)\<lparr>centerFreq := 2412\<rparr>), kheap = (\<lambda>_. None),
     ap_setting_info = \<lparr>ap_ssid_len = 0, ap_ssid = replicate 32 0, ap_freq1 = 0, ap_freq2 = 0, ap_width = 0, ap_chan = None, ap_head = [],
       ap_tail = [], ap_dtim = 0, ap_hidden = 0, ap_interval = 0\<rparr>,
     wdev = \<lparr>iftype = 2, pre_width = 0, pre_freq1 = 0, pre_freq2 = 0, pre_hw = 0, pre_center = 0\<rparr>, gp_hdf_netDev = False, sent = []\<rparr>"

definition demo_scan :: "u32 list \<Rightarrow> scan_param" where
  "demo_scan fs = \<lparr>freqs = Some fs, ssids = [\<lparr>s_len = 2, s_bytes = [97, 98]\<rparr>], extraIEs = Some [1, 2, 3], extraIEsLen = 3\<rparr>"

definition demo_clear :: wifi where
  "demo_clear = snd (XrMac80211Init demo_wlan True True (demo_wifi\<lparr>global_param := None\<rparr>))"

lemma demo_inv: "wifi_inv demo_wlan demo_wifi" "freq_known demo_wlan demo_wifi" "params_ok demo_wlan demo_params"
  "wifi_inv demo_wlan demo_clear"
  by (simp_all add: demo_clear_def XrMac80211Init_def demo_wlan_def demo_wifi_def demo_params_def wifi_inv_def freq_known_def param_inv_def heap_owned_def
      zero_assoc_def params_ok_def)

text \<open>From the cleared parameters, with 0 for no frequency: connecting twice, the access point letting in the second, and a
  disconnect, with the driver refusing the first; and an association before anything was remembered.\<close>

theorem wifi_heap_balanced_witness:
  "(\<exists>st' g. wifi_trace [(demo_wlan\<lparr>answer := \<lambda>_. -1\<rparr>, Connect demo_params), (demo_wlan, Connect demo_params), (demo_wlan, Auth_result 0),
      (demo_wlan, Disconnect 3)] demo_clear = Some st' \<and> global_param st' = Some g \<and> dom (kheap st') = set_option (ie g)) \<and>
   wifi_trace [(demo_wlan, Auth_result 0)] demo_clear = None"
proof -
  let ?ops = "[(demo_wlan\<lparr>answer := \<lambda>_. -1\<rparr>, Connect demo_params), (demo_wlan, Connect demo_params), (demo_wlan, Auth_result 0),
      (demo_wlan, Disconnect 3)]"
  have ok: "list_all (\<lambda>(e, op). same_headers demo_wlan e \<and> step_ok e op) ?ops"
    "list_all (\<lambda>(e, op). same_headers demo_wlan e \<and> step_ok e op) [(demo_wlan, Auth_result 0)]"
    by (simp_all add: same_headers_def demo_wlan_def demo_params_def sizes_ok_def)
  have "\<not> unassigned_in ?ops demo_clear" "unassigned_in [(demo_wlan, Auth_result 0)] demo_clear"
    by (code_simp, code_simp)
  then show ?thesis using wifi_heap_balanced [OF demo_inv(4) ok(1)] wifi_heap_balanced [OF demo_inv(4) ok(2)] by auto
qed

theorem connect_then_associate_witness:
  "\<exists>st1 st2. WalAuthenticate demo_wlan (Some demo_params) demo_wifi = Some (0, st1) \<and> inform_auth_result demo_wlan 0 st1 = Some st2 \<and>
    sent st2 = [Auth demo_channel [1, 2, 3, 4, 5, 6] [97, 98] [48, 0] demo_auth, Assoc demo_channel [1, 2, 3, 4, 5, 6] [97, 98] [48, 0] \<lparr>crypto_bytes = [2]\<rparr>] \<and>
    kheap st2 = (\<lambda>_. None)"
  using connect_then_associate [OF demo_inv(1,3), of 1 demo_channel "Auth demo_channel [1, 2, 3, 4, 5, 6] [97, 98] [48, 0] demo_auth"]
  by (simp add: demo_wlan_def demo_params_def demo_radio_def demo_channel_def demo_wifi_def WalGetChannel_def chan_usable_def)

theorem scan_in_bounds_witness:
  "\<exists>rc left st'. WalStartScan demo_wlan True True True (demo_scan [2412, 2417]) demo_wifi = Some (rc, left, st') \<and>
    (sent st' \<noteq> sent demo_wifi \<and> left = [] \<or> sent st' = sent demo_wifi \<and> (True \<longrightarrow> left \<noteq> []))"
proof (rule scan_in_bounds [where w = demo_radio])
  show "radio demo_wlan = Some demo_radio" by (simp add: demo_wlan_def)
  show "counts_channels demo_wlan demo_radio" by (simp add: counts_channels_def demo_wlan_def all_channels_def)
  show "distinct (map (\<lambda>f. ucast f :: u16) fs)" if "freqs (demo_scan [2412, 2417]) = Some fs" for fs
  proof -
    have "fs = [2412, 2417]" using that by (simp add: demo_scan_def)
    then show ?thesis by simp
  qed
  show "list_all (\<lambda>s. s_len s \<le> length (s_bytes s)) (ssids (demo_scan [2412, 2417]))" by (simp add: demo_scan_def)
  show "extraIEsLen (demo_scan [2412, 2417]) \<le> length e" if "extraIEs (demo_scan [2412, 2417]) = Some e" for e
    using that by (auto simp: demo_scan_def)
qed

theorem scan_duplicates_overflow_witness:
  "WalStartScan demo_wlan True True True (demo_scan [2412, 2412]) demo_wifi = None"
proof (rule scan_duplicates_overflow [where w = demo_radio and f = 2412 and c = demo_channel])
  have "ieee80211_get_num_supported_channels demo_wlan demo_radio = 1" by (simp add: demo_wlan_def demo_radio_def)
  then show "freqs (demo_scan [2412, 2412]) = Some (replicate (Suc (ieee80211_get_num_supported_channels demo_wlan demo_radio)) 2412)"
    by (simp add: demo_scan_def)
  show "GetChannelByFreq demo_radio 2412 = Some demo_channel" by (simp add: GetChannelByFreq_def demo_radio_def demo_channel_def)
qed (simp_all add: demo_wlan_def)

theorem set_mac_overflows_witness:
  "\<forall>am. WalSetMacAddr [0xDC, 0x44, 0x6D, 1, 2, 3] 6 am = None"
  using set_mac_overflows [of 6 "[0xDC, 0x44, 0x6D, 1, 2, 3]"] by simp

definition demo_ap :: ap_conf where
  "demo_ap = \<lparr>c_ssid = [97, 112], c_ssidLen = 2, c_freq1 = 2437, c_freq2 = 0, c_width = 20, c_channel = 6\<rparr>"

definition demo_beacon :: beacon_conf where
  "demo_beacon = \<lparr>b_head = [128], b_tail = [1], b_dtim = 2, b_hidden = 0, b_interval = 100\<rparr>"

theorem ap_started_as_configured_witness:
  "\<exists>st1 st2 s. WalConfigAp demo_wlan demo_ap demo_wifi = Some (HDF_SUCCESS, st1) \<and>
    WalChangeBeacon demo_wlan (Some demo_beacon) st1 = Some (HDF_SUCCESS, st2) \<and>
    last (sent (snd (WalStartAp demo_wlan st2))) = Start_ap s \<and> take (ap_ssid_len s) (ap_ssid s) = [97, 112] \<and> ap_interval s = 100"
  using ap_started_as_configured [of demo_ap demo_wlan demo_wifi demo_beacon]
  by (simp add: demo_ap_def demo_beacon_def demo_wlan_def) blast

theorem eapol_frames_witness:
  "\<exists>r freed st'. hdf_netdev_specialethertypeprocess demo_wlan 0x888E True True (Some (replicate 12 0 @ [0x88, 0x8E])) demo_wifi = Some (r, freed, st') \<and>
    r = PROCESSING_COMPLETE \<and> \<not> freed"
  using eapol_frames [where d = "replicate 12 0 @ [0x88, 0x8E]" and env = demo_wlan and pae = "0x888E" and st = demo_wifi]
  by (auto simp: nth_append demo_wlan_def HDF_SUCCESS_def)


end
