(* ===== verification/Xr829_Chip.thy ===== *)
theory Xr829_Chip
  imports Xr829_Wifi
begin

text \<open>
  The registration of the XR829 chip with the driver framework: \<open>hdfinit_xr829.c\<close> and \<open>hdf_driver_register.c\<close> under
  \<open>zhiyuan/kernel/hdf/driver/wifi/xr829_hdfadapter\<close>. A chip driver object is built for each interface, the network
  device is initialised with it, and the object is released in the end.

  \<^item> \<open>chip\<close> holds the adapter's state \<open>wf\<close> (theory \<open>Xr829_Wifi\<close>), the kernel's network device, the chip driver
    objects that are allocated with whether their operation tables are set, the devices that were added, how often
    the radio was started, and the registered factory.
  \<^item> The outcomes of the allocator, of \<open>memset_s\<close> and of \<open>strcpy_s\<close> are arguments.
\<close>

record chip_driver =
  drv_name :: string
  drv_entry :: bool
  drv_ops :: bool

record chip =
  wf :: wifi
  save_kernel_net :: "nat option"
  drivers :: "nat \<Rightarrow> chip_driver option"
  radio_started :: int
  added :: "net_dev list"
  factory :: bool

definition XR829_DRIVER_NAME :: string where
  "XR829_DRIVER_NAME = ''xr829''"

section \<open>The device\<close>

definition set_krn_netdev :: "nat option \<Rightarrow> chip \<Rightarrow> chip" where
  "set_krn_netdev dev c = c\<lparr>save_kernel_net := dev\<rparr>"

definition get_krn_netdev :: "chip \<Rightarrow> nat option" where
  "get_krn_netdev c = save_kernel_net c"

definition InitXr829Chip :: int where
  "InitXr829Chip = HDF_SUCCESS"

definition DeinitXr829Chip :: int where
  "DeinitXr829Chip = 0"

text \<open>\<open>lin\<close> is the Linux device of \<open>dev\<close>, \<open>plat\<close> whether it has platform data, \<open>chip_mac\<close> the address in the chip.\<close>

definition Xr829Init :: "byte list \<Rightarrow> net_dev option \<Rightarrow> nat option \<Rightarrow> bool \<Rightarrow> chip \<Rightarrow> (int \<times> chip) option" where
  "Xr829Init chip_mac dev lin plat c =
     (case (dev, lin) of
        (Some d, Some l) \<Rightarrow>
          let c = set_krn_netdev (Some l) c in
          if \<not> plat then Some (HDF_FAILURE, c)
          else do {
            (_, d) \<leftarrow> hdf_netdev_init chip_mac (Some d);
            Some (HDF_SUCCESS, c\<lparr>radio_started := radio_started c + 1, added := added c @ [d]\<rparr>) }
      | _ \<Rightarrow> Some (HDF_FAILURE, c))"

definition Xr829Deinit :: "chip \<Rightarrow> int \<times> chip" where
  "Xr829Deinit c = (HDF_SUCCESS, c\<lparr>radio_started := radio_started c - 1\<rparr>)"

section \<open>The chip driver object\<close>

text \<open>\<open>mem\<close> is the allocated block, \<open>cleared\<close> and \<open>named\<close> the outcomes of the two copies, \<open>params\<close> that of the parameters.\<close>

definition BuildXr829Driver ::
    "wlan_env \<Rightarrow> bool \<Rightarrow> nat option \<Rightarrow> bool \<Rightarrow> bool \<Rightarrow> bool \<Rightarrow> chip \<Rightarrow> nat option \<times> chip" where
  "BuildXr829Driver env device mem cleared named params c =
     (if \<not> device then (None, c)
      else case mem of
        None \<Rightarrow> (None, c)
      | Some p \<Rightarrow>
          let c = c\<lparr>drivers := (drivers c)(p \<mapsto> \<lparr>drv_name = [], drv_entry = False, drv_ops = False\<rparr>)\<rparr> in
          if \<not> cleared then (None, c\<lparr>drivers := (drivers c)(p := None)\<rparr>)
          else if \<not> named then (None, c\<lparr>drivers := (drivers c)(p := None)\<rparr>)
          else let (ops, w) = XrMac80211Init env True params (wf c) in
            (Some p, c\<lparr>wf := w, drivers := (drivers c)(p \<mapsto> \<lparr>drv_name = XR829_DRIVER_NAME, drv_entry = True, drv_ops = ops\<rparr>)\<rparr>))"

text \<open>The function returns in its first line.\<close>

definition ReleaseXr829Driver :: "nat option \<Rightarrow> chip \<Rightarrow> chip" where
  "ReleaseXr829Driver chipDriver c = c"

definition GetXr829GetMaxIFCount :: nat where
  "GetXr829GetMaxIFCount = 1"

definition HDFWlanRegXrDriverFactory :: "int option \<Rightarrow> chip \<Rightarrow> int \<times> chip" where
  "HDFWlanRegXrDriverFactory mgr c =
     (case mgr of
        None \<Rightarrow> (HDF_FAILURE, c)
      | Some rc \<Rightarrow> if rc \<noteq> HDF_SUCCESS then (HDF_FAILURE, c) else (HDF_SUCCESS, c\<lparr>factory := True\<rparr>))"

definition HdfWlanXrChipDriverInit :: "int option \<Rightarrow> chip \<Rightarrow> int \<times> chip" where
  "HdfWlanXrChipDriverInit mgr c = HDFWlanRegXrDriverFactory mgr c"

definition HdfWlanXrDriverBind :: int where
  "HdfWlanXrDriverBind = HDF_SUCCESS"

definition HdfWlanXrChipRelease :: "chip \<Rightarrow> chip" where
  "HdfWlanXrChipRelease c = c"

section \<open>Properties\<close>

text \<open>A chip driver comes up ready to connect.\<close>

lemma zero_assoc_inv: "param_inv env (zero_assoc env)" "heap_owned (zero_assoc env) (\<lambda>_. None)"
  by (simp_all add: zero_assoc_def param_inv_def heap_owned_def)

text \<open>
  Building the first chip driver: on every failure nothing stays allocated and nothing changes; on success the
  object has its name and entry points, and its operations exactly if the parameters could be allocated, in which case the
  adapter satisfies the invariant that all later connections keep.
\<close>

theorem build_driver:
  assumes "global_param (wf c) = None" "kheap (wf c) = (\<lambda>_. None)" "\<And>p. mem = Some p \<Longrightarrow> drivers c p = None"
    "BuildXr829Driver env device mem cleared named params c = (r, c')"
  shows "(r = None \<longrightarrow> c' = c) \<and>
    (\<forall>p. r = Some p \<longrightarrow> drivers c' = (drivers c)(p \<mapsto> \<lparr>drv_name = XR829_DRIVER_NAME, drv_entry = True, drv_ops = params\<rparr>) \<and>
       (params \<longrightarrow> wifi_inv env (wf c')) \<and> (\<not> params \<longrightarrow> wf c' = wf c))"
proof -
  have "(drivers c)(p := None) = drivers c" if "mem = Some p" for p using assms(3) that by auto
  then show ?thesis
    using assms(1,2,4)
    by (auto simp: BuildXr829Driver_def XrMac80211Init_def wifi_inv_def zero_assoc_inv Let_def split: option.splits if_splits)
qed

text \<open>Releasing a chip driver frees nothing: building and releasing \<open>n\<close> drivers leaves \<open>n\<close> of them allocated.\<close>

fun build_release :: "wlan_env \<Rightarrow> nat list \<Rightarrow> chip \<Rightarrow> chip" where
  "build_release env [] c = c"
| "build_release env (p # ps) c =
     (let (d, c) = BuildXr829Driver env True (Some p) True True True c in build_release env ps (ReleaseXr829Driver d c))"

theorem release_leaks:
  "dom (drivers (build_release env ps c)) = dom (drivers c) \<union> set ps"
  by (induction ps arbitrary: c)
    (auto simp: BuildXr829Driver_def ReleaseXr829Driver_def Let_def split: prod.split)

text \<open>
  A failed initialisation of the device for want of platform data has already replaced the kernel's network device,
  so that later calls for the device that was there before are taken for those of a virtual one and ignored.
\<close>

theorem init_failure_replaces_device:
  assumes "l \<noteq> l'" "save_kernel_net c = Some l"
  shows "\<exists>c'. Xr829Init chip_mac (Some d) (Some l') False c = Some (HDF_FAILURE, c') \<and>
    hdf_netdev_open env (Some l) (get_krn_netdev c') ptr dev st = (0, dev, st)"
  using assms by (simp add: Xr829Init_def set_krn_netdev_def get_krn_netdev_def hdf_netdev_open_def)

definition demo_chip :: chip where
  "demo_chip = \<lparr>wf = demo_wifi\<lparr>global_param := None\<rparr>, save_kernel_net = Some 1, drivers = (\<lambda>_. None), radio_started = 0, added = [], factory = False\<rparr>"

theorem build_driver_witness:
  "\<exists>d c'. BuildXr829Driver demo_wlan True (Some 7) True True True demo_chip = (Some 7, c') \<and> drivers c' 7 = Some d \<and> drv_ops d \<and> wifi_inv demo_wlan (wf c')"
proof -
  obtain c' where c': "BuildXr829Driver demo_wlan True (Some 7) True True True demo_chip = (Some 7, c')"
    by (simp add: BuildXr829Driver_def Let_def case_prod_unfold)
  show ?thesis
    using build_driver [of demo_chip "Some 7" demo_wlan True True True True "Some 7" c'] c' by (auto simp: demo_chip_def demo_wifi_def)
qed

theorem init_failure_replaces_device_witness:
  "\<exists>c'. Xr829Init [] (Some \<lparr>nd_ops = False, nd_eapol = False, nd_mac = [], nd_wdev = False\<rparr>) (Some 2) False demo_chip = Some (HDF_FAILURE, c') \<and>
    hdf_netdev_open demo_wlan (Some 1) (get_krn_netdev c') True \<lparr>nd_ops = True, nd_eapol = True, nd_mac = [], nd_wdev = False\<rparr> demo_wifi =
      (0, \<lparr>nd_ops = True, nd_eapol = True, nd_mac = [], nd_wdev = False\<rparr>, demo_wifi)"
  by (rule init_failure_replaces_device) (simp_all add: demo_chip_def)

end
