(* ===== verification/Ccu_Common.thy ===== *)
theory Ccu_Common
  imports Audio_Base
begin

text \<open>
  The clock control unit of the zhiyuan board, \<open>zhiyuan/kernel/driver/drivers/clk\<close>: what all its clocks share. Gates
  (\<open>ccu_gate.c\<close>), parents and pre-dividers (\<open>ccu_mux.c\<close>), the fractional mode (\<open>ccu_frac.c\<close>), sigma-delta
  modulation (\<open>ccu_sdm.c\<close>), phases (\<open>ccu_phase.c\<close>), resets (\<open>ccu_reset.c\<close>) and the common part
  (\<open>ccu_common.c\<close>: registration, saving and restoring the registers, the notifier of the processor's clock).

  \<^item> \<open>ccu\<close> is the registers by address: what was written last, and the bits that always read as zero (the key fields of
    some registers). Waiting for a lock bit reads until a timeout and changes nothing, so it is left out.
  \<^item> \<open>clk_env\<close> is what the clock framework of the kernel answers: the flags of the clock, its parents and their rates.
  \<^item> \<open>None\<close> is undefined behaviour: a division by zero, a shift by the width of the type or more, or an access outside of
    a table.
\<close>

unbundle bit_operations_syntax

section \<open>Registers\<close>

record ccu =
  regs :: "u64 \<Rightarrow> u32"
  key_bits :: "u64 \<Rightarrow> u32"

definition readl :: "u64 \<Rightarrow> ccu \<Rightarrow> u32" where
  "readl a st = regs st a AND NOT (key_bits st a)"

definition writel :: "u32 \<Rightarrow> u64 \<Rightarrow> ccu \<Rightarrow> ccu" where
  "writel v a st = st\<lparr>regs := (regs st)(a := v)\<rparr>"

text \<open>\<open>1 << w\<close> as an \<open>int\<close>, and the bits \<open>lo\<close> to \<open>lo + w - 1\<close> of a register as \<open>(v >> lo) & ((1 << w) - 1)\<close> reads them.\<close>

definition int_bit :: "nat \<Rightarrow> nat option" where
  "int_bit w = (if w < 31 then Some (2 ^ w) else None)"

definition get_bits :: "u32 \<Rightarrow> nat \<Rightarrow> nat \<Rightarrow> u32 option" where
  "get_bits v lo w = (if lo < 32 \<and> w < 31 then Some (drop_bit lo v AND mask w) else None)"

text \<open>\<open>GENMASK(w + lo - 1, lo)\<close>, cut to 32 bits; the macro shifts by too much for an empty field at bit 0.\<close>

definition GENMASK :: "nat \<Rightarrow> nat \<Rightarrow> u32 option" where
  "GENMASK lo w = (if 0 < w + lo \<and> w + lo \<le> 64 then Some (push_bit lo (mask w)) else None)"

text \<open>\<open>do_div\<close> has a divisor of 32 bits.\<close>

definition do_div :: "u64 \<Rightarrow> u32 \<Rightarrow> u64 option" where
  "do_div x d = (if d = 0 then None else Some (x div ucast d))"

definition div64 :: "u64 \<Rightarrow> u64 \<Rightarrow> u64 option" where
  "div64 x d = (if d = 0 then None else Some (x div d))"

definition CCU_FEATURE_FRACTIONAL :: u64 where "CCU_FEATURE_FRACTIONAL = 1"
definition CCU_FEATURE_VARIABLE_PREDIV :: u64 where "CCU_FEATURE_VARIABLE_PREDIV = 2"
definition CCU_FEATURE_FIXED_PREDIV :: u64 where "CCU_FEATURE_FIXED_PREDIV = 4"
definition CCU_FEATURE_FIXED_POSTDIV :: u64 where "CCU_FEATURE_FIXED_POSTDIV = 8"
definition CCU_FEATURE_ALL_PREDIV :: u64 where "CCU_FEATURE_ALL_PREDIV = 0x10"
definition CCU_FEATURE_SIGMA_DELTA_MOD :: u64 where "CCU_FEATURE_SIGMA_DELTA_MOD = 0x80"
definition CCU_FEATURE_KEY_FIELD_MOD :: u64 where "CCU_FEATURE_KEY_FIELD_MOD = 0x100"
definition CCU_FEATURE_MP_NO_INDEX_MODE :: u64 where "CCU_FEATURE_MP_NO_INDEX_MODE = 0x200"
definition CCU_FEATURE_FIXED_RATE_GATE :: u64 where "CCU_FEATURE_FIXED_RATE_GATE = 0x400"
definition CCU_FEATURE_REPEAT_SET_MUX :: u64 where "CCU_FEATURE_REPEAT_SET_MUX = 0x800"
definition CCU_MMC_NEW_TIMING_MODE :: u32 where "CCU_MMC_NEW_TIMING_MODE = 0x40000000"

lemmas feature_defs = CCU_FEATURE_FRACTIONAL_def CCU_FEATURE_VARIABLE_PREDIV_def CCU_FEATURE_FIXED_PREDIV_def
  CCU_FEATURE_FIXED_POSTDIV_def CCU_FEATURE_ALL_PREDIV_def CCU_FEATURE_SIGMA_DELTA_MOD_def CCU_FEATURE_KEY_FIELD_MOD_def
  CCU_FEATURE_MP_NO_INDEX_MODE_def CCU_FEATURE_FIXED_RATE_GATE_def CCU_FEATURE_REPEAT_SET_MUX_def

record ccu_common =
  base :: u64
  reg :: u16
  prediv :: u32
  key_value :: u32
  features :: u64

definition has :: "ccu_common \<Rightarrow> u64 \<Rightarrow> bool" where
  "has common f \<longleftrightarrow> features common AND f \<noteq> 0"

definition ccu_addr :: "ccu_common \<Rightarrow> u64" where
  "ccu_addr common = base common + ucast (reg common)"

record clk_env =
  set_rate_parent :: bool
  no_reparent :: bool
  cur_parent :: nat
  parents :: "nat option list"
  clk_rate :: "nat \<Rightarrow> u64"
  clk_round :: "nat \<Rightarrow> u64 \<Rightarrow> u64"

definition set_reg :: "u64 \<Rightarrow> u32 \<Rightarrow> nat \<Rightarrow> nat \<Rightarrow> ccu \<Rightarrow> ccu option" where
  "set_reg a val bw bs st =
     (if bw < 64 \<and> bs < 32 then
        let m = mask bw; tmp = readl a st AND NOT (push_bit bs m) in
        Some (writel (tmp OR push_bit bs (val AND m)) a st)
      else None)"

definition set_reg_key :: "u64 \<Rightarrow> u32 \<Rightarrow> nat \<Rightarrow> nat \<Rightarrow> u32 \<Rightarrow> nat \<Rightarrow> nat \<Rightarrow> ccu \<Rightarrow> ccu option" where
  "set_reg_key a key kbw kbs val bw bs st =
     (if bw < 64 \<and> bs < 32 \<and> kbw < 64 \<and> kbs < 32 then
        let m = mask bw; km = mask kbw; tmp = readl a st AND NOT (push_bit bs m) in
        Some (writel (tmp OR push_bit bs (val AND m) OR push_bit kbs (key AND km)) a st)
      else None)"

section \<open>Gates\<close>

definition with_key :: "ccu_common \<Rightarrow> u32 \<Rightarrow> u32" where
  "with_key common v = (if has common CCU_FEATURE_KEY_FIELD_MOD then v OR key_value common else v)"

definition ccu_gate_helper_disable :: "ccu_common \<Rightarrow> u32 \<Rightarrow> ccu \<Rightarrow> ccu" where
  "ccu_gate_helper_disable common gate st =
     (if gate = 0 then st
      else writel (with_key common (readl (ccu_addr common) st) AND NOT gate) (ccu_addr common) st)"

definition ccu_gate_helper_enable :: "ccu_common \<Rightarrow> u32 \<Rightarrow> ccu \<Rightarrow> int \<times> ccu" where
  "ccu_gate_helper_enable common gate st =
     (if gate = 0 then (0, st)
      else (0, writel (with_key common (readl (ccu_addr common) st) OR gate) (ccu_addr common) st))"

definition ccu_gate_helper_is_enabled :: "ccu_common \<Rightarrow> u32 \<Rightarrow> ccu \<Rightarrow> u32" where
  "ccu_gate_helper_is_enabled common gate st = (if gate = 0 then 1 else readl (ccu_addr common) st AND gate)"

record ccu_gate =
  gate_enable :: u32
  fixed_rate :: u32
  gate_common :: ccu_common

definition ccu_gate_disable :: "ccu_gate \<Rightarrow> ccu \<Rightarrow> ccu" where
  "ccu_gate_disable cg st = ccu_gate_helper_disable (gate_common cg) (gate_enable cg) st"

definition ccu_gate_enable :: "ccu_gate \<Rightarrow> ccu \<Rightarrow> int \<times> ccu" where
  "ccu_gate_enable cg st = ccu_gate_helper_enable (gate_common cg) (gate_enable cg) st"

definition ccu_gate_is_enabled :: "ccu_gate \<Rightarrow> ccu \<Rightarrow> u32" where
  "ccu_gate_is_enabled cg st = ccu_gate_helper_is_enabled (gate_common cg) (gate_enable cg) st"

definition ccu_gate_recalc_rate :: "ccu_gate \<Rightarrow> u64 \<Rightarrow> u64 option" where
  "ccu_gate_recalc_rate cg parent_rate =
     (if has (gate_common cg) CCU_FEATURE_FIXED_RATE_GATE then Some (ucast (fixed_rate cg))
      else if has (gate_common cg) CCU_FEATURE_ALL_PREDIV then div64 parent_rate (ucast (prediv (gate_common cg)))
      else Some parent_rate)"

text \<open>The result is the rate and the rate of the parent; the divider passes through an \<open>int\<close>.\<close>

definition ccu_gate_round_rate :: "clk_env \<Rightarrow> ccu_gate \<Rightarrow> u64 \<Rightarrow> u64 \<Rightarrow> (u64 \<times> u64) option" where
  "ccu_gate_round_rate env cg rate prate =
     (if has (gate_common cg) CCU_FEATURE_FIXED_RATE_GATE then Some (ucast (fixed_rate cg), prate)
      else do {
        let d = (if has (gate_common cg) CCU_FEATURE_ALL_PREDIV then scast (prediv (gate_common cg)) else 1);
        let prate = (if set_rate_parent env then clk_round env (cur_parent env) (rate * d) else prate);
        r \<leftarrow> div64 prate d;
        Some (r, prate) })"

definition ccu_gate_set_rate :: "ccu_gate \<Rightarrow> ccu \<Rightarrow> int \<times> ccu" where
  "ccu_gate_set_rate cg st = (0, st)"

section \<open>Parents\<close>

record ccu_mux_internal =
  mux_shift :: nat
  mux_width :: nat
  mux_table :: "byte list option"
  fixed_predivs :: "(byte \<times> u16) list"
  var_predivs :: "(byte \<times> nat \<times> nat) list"

definition fixed_prediv_of :: "ccu_mux_internal \<Rightarrow> int \<Rightarrow> u16 \<Rightarrow> u16" where
  "fixed_prediv_of cm i p = foldl (\<lambda>p (idx, d). if i = uint idx then d else p) p (fixed_predivs cm)"

fun var_prediv_of :: "(byte \<times> nat \<times> nat) list \<Rightarrow> u32 \<Rightarrow> int \<Rightarrow> u16 \<Rightarrow> u16 option" where
  "var_prediv_of [] v i p = Some p"
| "var_prediv_of ((idx, sh, w) # ps) v i p =
     (if i = uint idx then
        (if sh < 32 \<and> w < 31 then
           let d = (ucast (drop_bit sh v) :: byte) AND mask w in var_prediv_of ps v i (ucast d + 1)
         else None)
      else var_prediv_of ps v i p)"

definition ccu_mux_get_prediv :: "ccu_common \<Rightarrow> ccu_mux_internal \<Rightarrow> int \<Rightarrow> ccu \<Rightarrow> u16 option" where
  "ccu_mux_get_prediv common cm parent_index st =
     (if \<not> (has common CCU_FEATURE_FIXED_PREDIV \<or> has common CCU_FEATURE_VARIABLE_PREDIV \<or> has common CCU_FEATURE_ALL_PREDIV)
      then Some 1
      else if has common CCU_FEATURE_ALL_PREDIV then Some (ucast (prediv common))
      else do {
        let v = readl (ccu_addr common) st;
        i \<leftarrow> (if parent_index < 0 then map_option uint (get_bits v (mux_shift cm) (mux_width cm)) else Some parent_index);
        let p = (if has common CCU_FEATURE_FIXED_PREDIV then fixed_prediv_of cm i 1 else 1);
        if has common CCU_FEATURE_VARIABLE_PREDIV then var_prediv_of (var_predivs cm) v i p else Some p })"

definition ccu_mux_helper_apply_prediv :: "ccu_common \<Rightarrow> ccu_mux_internal \<Rightarrow> int \<Rightarrow> u64 \<Rightarrow> ccu \<Rightarrow> u64 option" where
  "ccu_mux_helper_apply_prediv common cm i parent_rate st =
     do { p \<leftarrow> ccu_mux_get_prediv common cm i st; div64 parent_rate (ucast p) }"

definition ccu_mux_helper_unapply_prediv :: "ccu_common \<Rightarrow> ccu_mux_internal \<Rightarrow> int \<Rightarrow> u64 \<Rightarrow> ccu \<Rightarrow> u64 option" where
  "ccu_mux_helper_unapply_prediv common cm i parent_rate st =
     do { p \<leftarrow> ccu_mux_get_prediv common cm i st; Some (parent_rate * ucast p) }"

text \<open>
  The choice of the parent. \<open>round\<close> is the rate that the clock can make of a parent, with the rate that the parent should
  then have. The loop carries the best rate, and the parent and its rate once one has been chosen; \<open>Inr\<close> is the jump
  out of the loop.
\<close>

type_synonym round_fn = "nat \<Rightarrow> u64 \<Rightarrow> u64 \<Rightarrow> (u64 \<times> u64) option"

record choice =
  best_rate :: u64
  best_parent :: "nat option"
  best_parent_rate :: u64

fun parent_loop ::
    "ccu_common \<Rightarrow> ccu_mux_internal \<Rightarrow> clk_env \<Rightarrow> round_fn \<Rightarrow> u64 \<Rightarrow> ccu \<Rightarrow> nat \<Rightarrow> nat option list \<Rightarrow> choice \<Rightarrow> (choice + choice) option" where
  "parent_loop common cm env round rate st i [] best = Some (Inl best)"
| "parent_loop common cm env round rate st i (None # ps) best = parent_loop common cm env round rate st (Suc i) ps best"
| "parent_loop common cm env round rate st i (Some p # ps) best =
     do {
       pr \<leftarrow> ccu_mux_helper_apply_prediv common cm (int i) (clk_rate env p) st;
       (tmp, pr) \<leftarrow> round p pr rate;
       pr \<leftarrow> ccu_mux_helper_unapply_prediv common cm (int i) pr st;
       let c = \<lparr>best_rate = tmp, best_parent = Some p, best_parent_rate = pr\<rparr>;
       if tmp = rate then Some (Inr c)
       else parent_loop common cm env round rate st (Suc i) ps (if rate - tmp < rate - best_rate best then c else best) }"

definition ccu_mux_helper_determine_rate ::
    "ccu_common \<Rightarrow> ccu_mux_internal \<Rightarrow> clk_env \<Rightarrow> round_fn \<Rightarrow> u64 \<Rightarrow> ccu \<Rightarrow> (int \<times> choice option) option" where
  "ccu_mux_helper_determine_rate common cm env round rate st =
     (if no_reparent env then
        do {
          let p = cur_parent env;
          pr \<leftarrow> ccu_mux_helper_apply_prediv common cm (-1) (clk_rate env p) st;
          (r, pr) \<leftarrow> round p pr rate;
          pr \<leftarrow> ccu_mux_helper_unapply_prediv common cm (-1) pr st;
          Some (0, Some \<lparr>best_rate = r, best_parent = Some p, best_parent_rate = pr\<rparr>) }
      else do {
        r \<leftarrow> parent_loop common cm env round rate st 0 (parents env) \<lparr>best_rate = 0, best_parent = None, best_parent_rate = 0\<rparr>;
        case r of
          Inr c \<Rightarrow> Some (0, Some c)
        | Inl c \<Rightarrow> if best_rate c = 0 then Some (-22, None) else Some (0, Some c) })"

fun find_table :: "byte list \<Rightarrow> byte \<Rightarrow> nat \<Rightarrow> nat \<Rightarrow> byte option option" where
  "find_table t p i 0 = Some None"
| "find_table t p i (Suc n) =
     (if i < length t then (if t ! i = p then Some (Some (of_nat i)) else find_table t p (Suc i) n) else None)"

definition ccu_mux_helper_get_parent :: "clk_env \<Rightarrow> ccu_common \<Rightarrow> ccu_mux_internal \<Rightarrow> ccu \<Rightarrow> byte option" where
  "ccu_mux_helper_get_parent env common cm st =
     (if mux_shift cm < 32 \<and> mux_width cm < 31 then
        let parent = ucast (drop_bit (mux_shift cm) (readl (ccu_addr common) st)) AND mask (mux_width cm) in
        case mux_table cm of
          None \<Rightarrow> Some parent
        | Some t \<Rightarrow> do { r \<leftarrow> find_table t parent 0 (length (parents env)); Some (case r of Some i \<Rightarrow> i | None \<Rightarrow> parent) }
      else None)"

definition ccu_mux_helper_set_parent :: "ccu_common \<Rightarrow> ccu_mux_internal \<Rightarrow> byte \<Rightarrow> ccu \<Rightarrow> (int \<times> ccu) option" where
  "ccu_mux_helper_set_parent common cm index st =
     do {
       index \<leftarrow> (case mux_table cm of None \<Rightarrow> Some index | Some t \<Rightarrow> arr_get t (unat index));
       m \<leftarrow> GENMASK (mux_shift cm) (mux_width cm);
       let v = (with_key common (readl (ccu_addr common) st) AND NOT m) OR push_bit (mux_shift cm) (ucast index);
       let st = writel v (ccu_addr common) st;
       let st = (if has common CCU_FEATURE_REPEAT_SET_MUX then writel v (ccu_addr common) st else st);
       Some (0, st) }"

record ccu_mux =
  mux_enable :: u32
  mux :: ccu_mux_internal
  mux_common :: ccu_common

definition ccu_mux_disable :: "ccu_mux \<Rightarrow> ccu \<Rightarrow> ccu" where
  "ccu_mux_disable cm st = ccu_gate_helper_disable (mux_common cm) (mux_enable cm) st"

definition ccu_mux_enable :: "ccu_mux \<Rightarrow> ccu \<Rightarrow> int \<times> ccu" where
  "ccu_mux_enable cm st = ccu_gate_helper_enable (mux_common cm) (mux_enable cm) st"

definition ccu_mux_is_enabled :: "ccu_mux \<Rightarrow> ccu \<Rightarrow> u32" where
  "ccu_mux_is_enabled cm st = ccu_gate_helper_is_enabled (mux_common cm) (mux_enable cm) st"

definition ccu_mux_get_parent :: "clk_env \<Rightarrow> ccu_mux \<Rightarrow> ccu \<Rightarrow> byte option" where
  "ccu_mux_get_parent env cm st = ccu_mux_helper_get_parent env (mux_common cm) (mux cm) st"

definition ccu_mux_set_parent :: "ccu_mux \<Rightarrow> byte \<Rightarrow> ccu \<Rightarrow> (int \<times> ccu) option" where
  "ccu_mux_set_parent cm index st = ccu_mux_helper_set_parent (mux_common cm) (mux cm) index st"

definition ccu_mux_recalc_rate :: "ccu_mux \<Rightarrow> u64 \<Rightarrow> ccu \<Rightarrow> u64 option" where
  "ccu_mux_recalc_rate cm parent_rate st = ccu_mux_helper_apply_prediv (mux_common cm) (mux cm) (-1) parent_rate st"

text \<open>The notifier that moves the processor to another clock while its own changes.\<close>

datatype clk_event = PRE_RATE_CHANGE | POST_RATE_CHANGE | ABORT_RATE_CHANGE

record ccu_mux_nb =
  nb_common :: ccu_common
  nb_cm :: ccu_mux_internal
  bypass_index :: byte
  original_index :: byte

definition ccu_mux_notifier_cb :: "clk_env \<Rightarrow> clk_event \<Rightarrow> ccu_mux_nb \<Rightarrow> ccu \<Rightarrow> (int \<times> ccu_mux_nb \<times> ccu) option" where
  "ccu_mux_notifier_cb env event nb st =
     (case event of
        PRE_RATE_CHANGE \<Rightarrow>
          do {
            i \<leftarrow> ccu_mux_helper_get_parent env (nb_common nb) (nb_cm nb) st;
            (ret, st) \<leftarrow> ccu_mux_helper_set_parent (nb_common nb) (nb_cm nb) (bypass_index nb) st;
            Some (ret, nb\<lparr>original_index := i\<rparr>, st) }
      | POST_RATE_CHANGE \<Rightarrow>
          do {
            (ret, st) \<leftarrow> ccu_mux_helper_set_parent (nb_common nb) (nb_cm nb) (original_index nb) st;
            Some (ret, nb, st) }
      | ABORT_RATE_CHANGE \<Rightarrow> Some (0, nb, st))"
section \<open>Fractional mode and sigma-delta modulation\<close>

record ccu_frac_internal =
  frac_enable :: u32
  frac_select :: u32
  frac_rate0 :: u64
  frac_rate1 :: u64

definition ccu_frac_helper_is_enabled :: "ccu_common \<Rightarrow> ccu_frac_internal \<Rightarrow> ccu \<Rightarrow> bool" where
  "ccu_frac_helper_is_enabled common cf st =
     (has common CCU_FEATURE_FRACTIONAL \<and> readl (ccu_addr common) st AND frac_enable cf = 0)"

definition ccu_frac_helper_enable :: "ccu_common \<Rightarrow> ccu_frac_internal \<Rightarrow> ccu \<Rightarrow> ccu" where
  "ccu_frac_helper_enable common cf st =
     (if \<not> has common CCU_FEATURE_FRACTIONAL then st
      else writel (readl (ccu_addr common) st AND NOT (frac_enable cf)) (ccu_addr common) st)"

definition ccu_frac_helper_disable :: "ccu_common \<Rightarrow> ccu_frac_internal \<Rightarrow> ccu \<Rightarrow> ccu" where
  "ccu_frac_helper_disable common cf st =
     (if \<not> has common CCU_FEATURE_FRACTIONAL then st
      else writel (readl (ccu_addr common) st OR frac_enable cf) (ccu_addr common) st)"

definition ccu_frac_helper_has_rate :: "ccu_common \<Rightarrow> ccu_frac_internal \<Rightarrow> u64 \<Rightarrow> bool" where
  "ccu_frac_helper_has_rate common cf rate =
     (has common CCU_FEATURE_FRACTIONAL \<and> (frac_rate0 cf = rate \<or> frac_rate1 cf = rate))"

definition ccu_frac_helper_read_rate :: "ccu_common \<Rightarrow> ccu_frac_internal \<Rightarrow> ccu \<Rightarrow> u64" where
  "ccu_frac_helper_read_rate common cf st =
     (if \<not> has common CCU_FEATURE_FRACTIONAL then 0
      else if readl (ccu_addr common) st AND frac_select cf \<noteq> 0 then frac_rate1 cf else frac_rate0 cf)"

definition ccu_frac_helper_set_rate :: "ccu_common \<Rightarrow> ccu_frac_internal \<Rightarrow> u64 \<Rightarrow> ccu \<Rightarrow> int \<times> ccu" where
  "ccu_frac_helper_set_rate common cf rate st =
     (if \<not> has common CCU_FEATURE_FRACTIONAL then (-22, st)
      else if frac_rate0 cf = rate \<or> frac_rate1 cf = rate then
        let sel = (if frac_rate0 cf = rate then 0 else frac_select cf);
            v = readl (ccu_addr common) st AND NOT (frac_select cf) in
        (0, writel (v OR sel) (ccu_addr common) st)
      else (-22, st))"

record ccu_sdm_setting =
  sdm_rate :: u64
  sdm_pattern :: u32
  sdm_m :: u32
  sdm_n :: u32

record ccu_sdm_internal =
  sdm_table :: "ccu_sdm_setting list"
  sdm_enable :: u32
  tuning_enable :: u32
  tuning_reg :: u16

definition sdm_addr :: "ccu_common \<Rightarrow> ccu_sdm_internal \<Rightarrow> u64" where
  "sdm_addr common sdm = base common + ucast (tuning_reg sdm)"

definition ccu_sdm_helper_is_enabled :: "ccu_common \<Rightarrow> ccu_sdm_internal \<Rightarrow> ccu \<Rightarrow> bool" where
  "ccu_sdm_helper_is_enabled common sdm st =
     (if \<not> has common CCU_FEATURE_SIGMA_DELTA_MOD then False
      else if sdm_enable sdm \<noteq> 0 \<and> readl (ccu_addr common) st AND sdm_enable sdm = 0 then False
      else readl (sdm_addr common sdm) st AND tuning_enable sdm \<noteq> 0)"

definition set_pattern :: "ccu_common \<Rightarrow> ccu_sdm_internal \<Rightarrow> u64 \<Rightarrow> ccu \<Rightarrow> ccu" where
  "set_pattern common sdm rate st =
     foldl (\<lambda>st e. if sdm_rate e = rate then writel (sdm_pattern e) (sdm_addr common sdm) st else st) st (sdm_table sdm)"

definition ccu_sdm_helper_enable :: "ccu_common \<Rightarrow> ccu_sdm_internal \<Rightarrow> u64 \<Rightarrow> ccu \<Rightarrow> ccu" where
  "ccu_sdm_helper_enable common sdm rate st =
     (if \<not> has common CCU_FEATURE_SIGMA_DELTA_MOD then st
      else
        let st = set_pattern common sdm rate st;
            st = writel (readl (sdm_addr common sdm) st OR tuning_enable sdm) (sdm_addr common sdm) st in
        writel (readl (ccu_addr common) st OR sdm_enable sdm) (ccu_addr common) st)"

definition ccu_sdm_helper_disable :: "ccu_common \<Rightarrow> ccu_sdm_internal \<Rightarrow> ccu \<Rightarrow> ccu" where
  "ccu_sdm_helper_disable common sdm st =
     (if \<not> has common CCU_FEATURE_SIGMA_DELTA_MOD then st
      else
        let st = writel (readl (ccu_addr common) st AND NOT (sdm_enable sdm)) (ccu_addr common) st in
        writel (readl (sdm_addr common sdm) st AND NOT (tuning_enable sdm)) (sdm_addr common sdm) st)"

definition ccu_sdm_helper_has_rate :: "ccu_common \<Rightarrow> ccu_sdm_internal \<Rightarrow> u64 \<Rightarrow> bool" where
  "ccu_sdm_helper_has_rate common sdm rate =
     (has common CCU_FEATURE_SIGMA_DELTA_MOD \<and> list_ex (\<lambda>e. sdm_rate e = rate) (sdm_table sdm))"

text \<open>The factors are passed as 32-bit numbers. The register is compared with the pattern as it is in the table.\<close>

definition ccu_sdm_helper_read_rate :: "ccu_common \<Rightarrow> ccu_sdm_internal \<Rightarrow> u32 \<Rightarrow> u32 \<Rightarrow> ccu \<Rightarrow> u64" where
  "ccu_sdm_helper_read_rate common sdm m n st =
     (if \<not> has common CCU_FEATURE_SIGMA_DELTA_MOD then 0
      else case List.find (\<lambda>e. sdm_pattern e = readl (sdm_addr common sdm) st \<and> sdm_m e = m \<and> sdm_n e = n) (sdm_table sdm) of
        Some e \<Rightarrow> sdm_rate e
      | None \<Rightarrow> 0)"

definition ccu_sdm_helper_get_factors :: "ccu_common \<Rightarrow> ccu_sdm_internal \<Rightarrow> u64 \<Rightarrow> (u32 \<times> u32) option" where
  "ccu_sdm_helper_get_factors common sdm rate =
     (if \<not> has common CCU_FEATURE_SIGMA_DELTA_MOD then None
      else case List.find (\<lambda>e. sdm_rate e = rate) (sdm_table sdm) of
        Some e \<Rightarrow> Some (sdm_m e, sdm_n e)
      | None \<Rightarrow> None)"

section \<open>Phases\<close>

record ccu_phase =
  ph_shift :: nat
  ph_width :: nat
  ph_common :: ccu_common

text \<open>
  The rates of the parent and of its parent as the framework reports them, cut to \<open>unsigned int\<close>; \<open>None\<close> for a missing
  parent or the rate zero, which is an error of the argument.
\<close>

definition phase_rates :: "(u64 \<times> u64 option) option \<Rightarrow> (u32 \<times> u32) option" where
  "phase_rates rates =
     (case rates of
        Some (p, Some g) \<Rightarrow> if (ucast p :: u32) = 0 \<or> (ucast g :: u32) = 0 then None else Some (ucast p, ucast g)
      | _ \<Rightarrow> None)"

text \<open>\<open>DIV_ROUND_CLOSEST\<close> on numbers that are not negative, and the step of a delay in degrees, in 16 bits.\<close>

definition div_closest :: "nat \<Rightarrow> nat \<Rightarrow> nat option" where
  "div_closest a b = (if b = 0 then None else Some ((a + b div 2) div b))"

definition phase_step :: "u32 \<Rightarrow> u32 \<Rightarrow> nat option" where
  "phase_step p g =
     do { let d = unat (ucast (g div p) :: u16); s \<leftarrow> div_closest 360 d; Some (unat (of_nat s :: u16)) }"

definition ccu_phase_get_phase :: "ccu_phase \<Rightarrow> (u64 \<times> u64 option) option \<Rightarrow> ccu \<Rightarrow> int option" where
  "ccu_phase_get_phase ph rates st =
     (if \<not> (ph_shift ph < 32 \<and> ph_width ph < 31) then None
      else let delay = (ucast (drop_bit (ph_shift ph) (readl (ccu_addr (ph_common ph)) st)) :: byte) AND mask (ph_width ph) in
      if delay = 0 then Some 180
      else case phase_rates rates of
        None \<Rightarrow> Some (-22)
      | Some (p, g) \<Rightarrow> do { s \<leftarrow> phase_step p g; Some (uint delay * int s) })"

definition ccu_phase_set_phase :: "ccu_phase \<Rightarrow> (u64 \<times> u64 option) option \<Rightarrow> nat \<Rightarrow> ccu \<Rightarrow> (int \<times> ccu) option" where
  "ccu_phase_set_phase ph rates degrees st =
     (case phase_rates rates of
        None \<Rightarrow> Some (-22, st)
      | Some (p, g) \<Rightarrow>
          do {
            delay \<leftarrow> (if degrees \<noteq> 180 then do { s \<leftarrow> phase_step p g; d \<leftarrow> div_closest degrees s; Some (of_nat d :: byte) } else Some 0);
            m \<leftarrow> GENMASK (ph_shift ph) (ph_width ph);
            let a = ccu_addr (ph_common ph);
            Some (0, writel ((readl a st AND NOT m) OR push_bit (ph_shift ph) (ucast delay)) a st) })"

section \<open>Resets\<close>

record ccu_reset_map =
  rst_reg :: u16
  rst_bit :: u32

record ccu_reset =
  rst_base :: u64
  reset_map :: "ccu_reset_map list"

definition rst_addr :: "ccu_reset \<Rightarrow> ccu_reset_map \<Rightarrow> u64" where
  "rst_addr rc m = rst_base rc + ucast (rst_reg m)"

definition ccu_reset_assert :: "ccu_reset \<Rightarrow> nat \<Rightarrow> ccu \<Rightarrow> ccu option" where
  "ccu_reset_assert rc i st =
     do { m \<leftarrow> arr_get (reset_map rc) i; Some (writel (readl (rst_addr rc m) st AND NOT (rst_bit m)) (rst_addr rc m) st) }"

definition ccu_reset_deassert :: "ccu_reset \<Rightarrow> nat \<Rightarrow> ccu \<Rightarrow> ccu option" where
  "ccu_reset_deassert rc i st =
     do { m \<leftarrow> arr_get (reset_map rc) i; Some (writel (readl (rst_addr rc m) st OR rst_bit m) (rst_addr rc m) st) }"

definition ccu_reset_reset :: "ccu_reset \<Rightarrow> nat \<Rightarrow> ccu \<Rightarrow> ccu option" where
  "ccu_reset_reset rc i st = do { st \<leftarrow> ccu_reset_assert rc i st; ccu_reset_deassert rc i st }"

definition ccu_reset_status :: "ccu_reset \<Rightarrow> nat \<Rightarrow> ccu \<Rightarrow> bool option" where
  "ccu_reset_status rc i st =
     do { m \<leftarrow> arr_get (reset_map rc) i; Some (rst_bit m AND readl (rst_addr rc m) st = 0) }"

section \<open>Suspend and resume\<close>

record reg_cache =
  reg_base :: u64
  rdump :: "(u32 \<times> u32) list"
  rsuspend :: "(u32 \<times> u32) list"

definition ccu_save :: "u64 \<Rightarrow> (u32 \<times> u32) list \<Rightarrow> ccu \<Rightarrow> (u32 \<times> u32) list" where
  "ccu_save b rd st = map (\<lambda>(off, _). (off, readl (b + ucast off) st)) rd"

definition ccu_restore :: "u64 \<Rightarrow> (u32 \<times> u32) list \<Rightarrow> ccu \<Rightarrow> ccu" where
  "ccu_restore b rd st = foldl (\<lambda>st (off, v). writel v (b + ucast off) st) st rd"

fun ccu_suspend :: "reg_cache list \<Rightarrow> ccu \<Rightarrow> reg_cache list \<times> ccu" where
  "ccu_suspend [] st = ([], st)"
| "ccu_suspend (c # cs) st =
     (let c = c\<lparr>rdump := ccu_save (reg_base c) (rdump c) st\<rparr>;
          (cs, st) = ccu_suspend cs (ccu_restore (reg_base c) (rsuspend c) st) in
      (c # cs, st))"

fun ccu_resume :: "reg_cache list \<Rightarrow> ccu \<Rightarrow> ccu" where
  "ccu_resume [] st = st"
| "ccu_resume (c # cs) st = ccu_resume cs (ccu_restore (reg_base c) (rdump c) st)"

text \<open>The kernel panics when memory is short, so the caches are always there.\<close>

definition ccu_alloc_reg_dump :: "ccu_common list \<Rightarrow> (u32 \<times> u32) list" where
  "ccu_alloc_reg_dump rdmp = map (\<lambda>c. (ucast (reg c), 0)) rdmp"

definition sunxi_ccu_sleep_init :: "u64 \<Rightarrow> ccu_common list \<Rightarrow> (u32 \<times> u32) list \<Rightarrow> reg_cache list \<Rightarrow> reg_cache list" where
  "sunxi_ccu_sleep_init b rdmp rsusp caches =
     caches @ [\<lparr>reg_base = b, rdump = ccu_alloc_reg_dump rdmp, rsuspend = rsusp\<rparr>]"

section \<open>Registration\<close>

record ccu_pll_nb =
  pll_common :: ccu_common
  pll_enable :: u32

definition ccu_pll_notifier_cb :: "clk_event \<Rightarrow> ccu_pll_nb \<Rightarrow> ccu \<Rightarrow> int \<times> ccu" where
  "ccu_pll_notifier_cb event pll st =
     (if event \<noteq> POST_RATE_CHANGE then (0, st)
      else ccu_gate_helper_enable (pll_common pll) (pll_enable pll) (ccu_gate_helper_disable (pll_common pll) (pll_enable pll) st))"

text \<open>
  The base address of each clock, and what the probe has registered with the kernel; \<open>lookups\<close> are the clocks that can be looked up
  by their name (\<open>clk_hw_register_clkdev\<close>).
\<close>

record ccu_reg =
  clk_base :: "nat \<Rightarrow> u64"
  clks :: "nat list"
  lookups :: "nat list"
  provider :: bool
  reset_mem :: nat
  reset_ctl :: "ccu_reset option"

text \<open>The first loop gives every clock the address of the registers; \<open>None\<close> is a hole of the table.\<close>

definition set_bases :: "u64 \<Rightarrow> nat option list \<Rightarrow> (nat \<Rightarrow> u64) \<Rightarrow> nat \<Rightarrow> u64" where
  "set_bases addr ccu_clks b = foldl (\<lambda>b c. case c of None \<Rightarrow> b | Some c \<Rightarrow> b(c := addr)) b ccu_clks"

text \<open>
  The results of the kernel, and whether it was built with \<open>CONFIG_COMMON_CLK_DEBUG\<close>: then a lookup is added for every clock, the one that
  failed included, unless the kernel has no memory for it; the result of that is ignored.
\<close>

record probe_env =
  clk_debug :: bool
  clkdev_ok :: "nat \<Rightarrow> bool"
  clk_rc :: "nat \<Rightarrow> int"
  provider_rc :: int
  reset_alloc :: bool
  reset_rc :: int

text \<open>The loop over the clocks: a failure at clock \<open>i\<close> ends it; \<open>hws\<close> has \<open>None\<close> for the holes of the table.\<close>

definition register_clkdev :: "probe_env \<Rightarrow> nat \<Rightarrow> ccu_reg \<Rightarrow> ccu_reg" where
  "register_clkdev env h k = (if clk_debug env \<and> clkdev_ok env h then k\<lparr>lookups := lookups k @ [h]\<rparr> else k)"

fun reg_loop :: "probe_env \<Rightarrow> nat \<Rightarrow> nat option list \<Rightarrow> ccu_reg \<Rightarrow> int \<times> nat \<times> ccu_reg" where
  "reg_loop env i [] k = (0, i, k)"
| "reg_loop env i (None # hs) k = reg_loop env (Suc i) hs k"
| "reg_loop env i (Some h # hs) k =
     (if clk_rc env h \<noteq> 0 then (clk_rc env h, i, register_clkdev env h k)
      else reg_loop env (Suc i) hs (register_clkdev env h (k\<lparr>clks := clks k @ [h]\<rparr>)))"

text \<open>The loop at \<open>err_clk_unreg\<close>, downwards from \<open>i\<close>.\<close>

fun unreg_loop :: "nat option list \<Rightarrow> nat \<Rightarrow> ccu_reg \<Rightarrow> ccu_reg" where
  "unreg_loop hws 0 k = k"
| "unreg_loop hws (Suc i) k =
     unreg_loop hws i (case hws ! i of None \<Rightarrow> k | Some h \<Rightarrow> k\<lparr>clks := remove1 h (clks k)\<rparr>)"

definition sunxi_ccu_probe :: "probe_env \<Rightarrow> u64 \<Rightarrow> nat option list \<Rightarrow> nat option list \<Rightarrow> ccu_reset_map list \<Rightarrow> ccu_reg \<Rightarrow> int \<times> ccu_reg" where
  "sunxi_ccu_probe env addr ccu_clks hws resets k =
     (case reg_loop env 0 hws (k\<lparr>clk_base := set_bases addr ccu_clks (clk_base k)\<rparr>) of
        (ret, i, k) \<Rightarrow>
          if ret \<noteq> 0 then (ret, unreg_loop hws i k)
          else if provider_rc env \<noteq> 0 then (provider_rc env, unreg_loop hws i k)
          else
            let k = k\<lparr>provider := True\<rparr> in
            if \<not> reset_alloc env then (-12, unreg_loop hws i (k\<lparr>provider := False\<rparr>))
            else
              let k = k\<lparr>reset_mem := Suc (reset_mem k)\<rparr>;
                  reset = \<lparr>rst_base = addr, reset_map = resets\<rparr> in
              if reset_rc env \<noteq> 0
              then (reset_rc env, unreg_loop hws i (k\<lparr>reset_mem := reset_mem k - 1, provider := False\<rparr>))
              else (0, k\<lparr>reset_ctl := Some reset\<rparr>))"

section \<open>Reading what was written\<close>

lemma readl_writel [simp]: "readl b (writel v a st) = (if b = a then v AND NOT (key_bits st a) else readl b st)"
  by (simp add: readl_def writel_def)

lemma readl_hidden: "readl a st AND NOT (key_bits st a) = readl a st"
  by (simp add: readl_def and.assoc)

lemma key_writel [simp]: "key_bits (writel v a st) = key_bits st"
  by (simp add: writel_def)

text \<open>Of two rates that are not above the wanted one, the greater is closer to it.\<close>

lemma word_closer:
  fixes rate :: u64
  assumes "t \<le> rate" "b \<le> rate"
  shows "rate - t < rate - b \<longleftrightarrow> b < t"
proof -
  have u: "unat (rate - t) = unat rate - unat t" "unat (rate - b) = unat rate - unat b"
    using assms by (simp_all add: unat_sub)
  have "unat t \<le> unat rate" "unat b \<le> unat rate" using assms by (simp_all add: word_le_nat_alt)
  then show ?thesis unfolding word_less_nat_alt u by linarith
qed

end
