(* ===== verification/Ccu_Factors.thy ===== *)
theory Ccu_Factors
  imports Ccu_Common
begin

text \<open>
  The clocks of the zhiyuan board whose rate comes from factors in a register: \<open>ccu_nk.c\<close>, \<open>ccu_nkm.c\<close>, \<open>ccu_nkmp.c\<close>,
  \<open>ccu_nm.c\<close>, \<open>ccu_mp.c\<close>, \<open>ccu_mult.c\<close> and \<open>ccu_div.c\<close> under \<open>zhiyuan/kernel/driver/drivers/clk\<close>. Each has a search for the
  factors of a rate, and operations that round a rate, set it and read it back from the register.

  \<^item> A search goes through the candidates in the order of the nested loops of the source (\<open>search\<close>); rates are 64-bit
    words, factors natural numbers.
  \<^item> \<open>None\<close> is undefined behaviour, as in \<open>Ccu_Common\<close>, and a loop that does not end because its counter wraps to zero.
\<close>

unbundle bit_operations_syntax

section \<open>Fields and limits\<close>

record ccu_mult_internal =
  mu_offset :: nat
  mu_shift :: nat
  mu_width :: nat
  mu_min :: nat
  mu_max :: nat

record ccu_div_internal =
  di_shift :: nat
  di_width :: nat
  di_max :: nat
  di_offset :: nat

text \<open>A factor as it is read: the field plus the offset, with one for zero.\<close>

definition read_factor :: "nat \<Rightarrow> nat \<Rightarrow> nat \<Rightarrow> u32 \<Rightarrow> nat option" where
  "read_factor off lo w v = do { f \<leftarrow> get_bits v lo w; let n = unat f + off; Some (if n = 0 then 1 else n) }"

text \<open>The bits of a factor as they are or-ed in: nothing keeps them inside of the field.\<close>

definition factor_bits :: "nat \<Rightarrow> nat \<Rightarrow> nat \<Rightarrow> u32" where
  "factor_bits off lo n = push_bit lo (of_nat n - of_nat off)"

definition mult_lo :: "ccu_mult_internal \<Rightarrow> nat" where
  "mult_lo f = (if mu_min f = 0 then 1 else mu_min f)"

definition mult_hi :: "ccu_mult_internal \<Rightarrow> nat option" where
  "mult_hi f = (if mu_max f = 0 then int_bit (mu_width f) else Some (mu_max f))"

definition div_hi :: "ccu_div_internal \<Rightarrow> nat option" where
  "div_hi f = (if di_max f = 0 then int_bit (di_width f) else Some (di_max f))"

definition pow_hi :: "ccu_div_internal \<Rightarrow> nat option" where
  "pow_hi f = (if di_max f = 0 then do { e \<leftarrow> int_bit (di_width f); int_bit (e - 1) } else Some (di_max f))"

text \<open>The loop \<open>for (p = 1; p <= max; p <<= 1)\<close>, with a counter of \<open>b\<close> bits.\<close>

definition pows :: "nat \<Rightarrow> nat \<Rightarrow> nat list option" where
  "pows b hi = (if hi < 2 ^ (b - 1) then Some (takeWhile (\<lambda>p. p \<le> hi) (map (\<lambda>i. 2 ^ i) [0..<b])) else None)"

section \<open>Searching\<close>

definition better :: "u64 \<Rightarrow> u64 \<Rightarrow> 'f \<Rightarrow> u64 \<times> 'f \<Rightarrow> u64 \<times> 'f" where
  "better rate tmp f best =
     (if rate < tmp then best else if rate - tmp < rate - fst best then (tmp, f) else best)"

fun search :: "('f \<Rightarrow> u64 option) \<Rightarrow> u64 \<Rightarrow> 'f list \<Rightarrow> u64 \<times> 'f \<Rightarrow> (u64 \<times> 'f) option" where
  "search calc rate [] best = Some best"
| "search calc rate (f # fs) best = do { tmp \<leftarrow> calc f; search calc rate fs (better rate tmp f best) }"

definition find_best :: "('f \<Rightarrow> u64 option) \<Rightarrow> 'f \<Rightarrow> u64 \<Rightarrow> 'f list \<Rightarrow> 'f option" where
  "find_best calc none rate cands = map_option snd (search calc rate cands (0, none))"

text \<open>The post-divider: the wanted rate is multiplied by it, the result divided.\<close>

definition post_mul :: "ccu_common \<Rightarrow> u32 \<Rightarrow> u64 \<Rightarrow> u64" where
  "post_mul common d rate = (if has common CCU_FEATURE_FIXED_POSTDIV then rate * ucast d else rate)"

definition post_div :: "ccu_common \<Rightarrow> u32 \<Rightarrow> u64 \<Rightarrow> u64 option" where
  "post_div common d rate = (if has common CCU_FEATURE_FIXED_POSTDIV then do_div rate d else Some rate)"

section \<open>Clocks with the factors N and K\<close>

record ccu_nk =
  nk_enable :: u32
  nk_n :: ccu_mult_internal
  nk_k :: ccu_mult_internal
  nk_post_div :: u32
  nk_common :: ccu_common

definition nk_rate :: "u64 \<Rightarrow> nat \<times> nat \<Rightarrow> u64 option" where
  "nk_rate parent = (\<lambda>(n, k). Some (parent * of_nat n * of_nat k))"

definition nk_cands :: "ccu_nk \<Rightarrow> (nat \<times> nat) list option" where
  "nk_cands c =
     do {
       hn \<leftarrow> mult_hi (nk_n c);
       hk \<leftarrow> mult_hi (nk_k c);
       Some [(n, k). k \<leftarrow> [mult_lo (nk_k c)..<Suc hk], n \<leftarrow> [mult_lo (nk_n c)..<Suc hn]] }"

definition ccu_nk_find_best :: "u64 \<Rightarrow> u64 \<Rightarrow> ccu_nk \<Rightarrow> (nat \<times> nat) option" where
  "ccu_nk_find_best parent rate c = do { cs \<leftarrow> nk_cands c; find_best (nk_rate parent) (0, 0) rate cs }"

definition nk_read :: "ccu_nk \<Rightarrow> u32 \<Rightarrow> (nat \<times> nat) option" where
  "nk_read c v =
     do {
       n \<leftarrow> read_factor (mu_offset (nk_n c)) (mu_shift (nk_n c)) (mu_width (nk_n c)) v;
       k \<leftarrow> read_factor (mu_offset (nk_k c)) (mu_shift (nk_k c)) (mu_width (nk_k c)) v;
       Some (n, k) }"

definition nk_write :: "ccu_nk \<Rightarrow> nat \<times> nat \<Rightarrow> u32 \<Rightarrow> u32 option" where
  "nk_write c = (\<lambda>(n, k) v.
     do {
       mn \<leftarrow> GENMASK (mu_shift (nk_n c)) (mu_width (nk_n c));
       mk \<leftarrow> GENMASK (mu_shift (nk_k c)) (mu_width (nk_k c));
       Some (v AND NOT mn AND NOT mk OR factor_bits (mu_offset (nk_k c)) (mu_shift (nk_k c)) k
             OR factor_bits (mu_offset (nk_n c)) (mu_shift (nk_n c)) n) })"

definition ccu_nk_recalc_rate :: "ccu_nk \<Rightarrow> u64 \<Rightarrow> ccu \<Rightarrow> u64 option" where
  "ccu_nk_recalc_rate c parent_rate st =
     do {
       f \<leftarrow> nk_read c (readl (ccu_addr (nk_common c)) st);
       r \<leftarrow> nk_rate parent_rate f;
       post_div (nk_common c) (nk_post_div c) r }"

definition ccu_nk_round_rate :: "ccu_nk \<Rightarrow> u64 \<Rightarrow> u64 \<Rightarrow> u64 option" where
  "ccu_nk_round_rate c rate parent_rate =
     do {
       f \<leftarrow> ccu_nk_find_best parent_rate (post_mul (nk_common c) (nk_post_div c) rate) c;
       r \<leftarrow> nk_rate parent_rate f;
       post_div (nk_common c) (nk_post_div c) r }"

definition ccu_nk_set_rate :: "ccu_nk \<Rightarrow> u64 \<Rightarrow> u64 \<Rightarrow> ccu \<Rightarrow> (int \<times> ccu) option" where
  "ccu_nk_set_rate c rate parent_rate st =
     do {
       f \<leftarrow> ccu_nk_find_best parent_rate (post_mul (nk_common c) (nk_post_div c) rate) c;
       v \<leftarrow> nk_write c f (readl (ccu_addr (nk_common c)) st);
       Some (0, writel v (ccu_addr (nk_common c)) st) }"

section \<open>Clocks with the factors N, K and M\<close>

record ccu_nkm =
  nkm_enable :: u32
  nkm_n :: ccu_mult_internal
  nkm_k :: ccu_mult_internal
  nkm_m :: ccu_div_internal
  nkm_mux :: ccu_mux_internal
  nkm_post_div :: u32
  nkm_common :: ccu_common

definition nkm_rate :: "u64 \<Rightarrow> nat \<times> nat \<times> nat \<Rightarrow> u64 option" where
  "nkm_rate parent = (\<lambda>(n, k, m). do_div (parent * of_nat n * of_nat k) (of_nat m))"

definition nkm_cands :: "ccu_nkm \<Rightarrow> (nat \<times> nat \<times> nat) list option" where
  "nkm_cands c =
     do {
       hn \<leftarrow> mult_hi (nkm_n c);
       hk \<leftarrow> mult_hi (nkm_k c);
       hm \<leftarrow> div_hi (nkm_m c);
       Some [(n, k, m). k \<leftarrow> [mult_lo (nkm_k c)..<Suc hk], n \<leftarrow> [mult_lo (nkm_n c)..<Suc hn], m \<leftarrow> [1..<Suc hm]] }"

definition ccu_nkm_find_best :: "u64 \<Rightarrow> u64 \<Rightarrow> ccu_nkm \<Rightarrow> (nat \<times> nat \<times> nat) option" where
  "ccu_nkm_find_best parent rate c = do { cs \<leftarrow> nkm_cands c; find_best (nkm_rate parent) (0, 0, 0) rate cs }"

definition nkm_read :: "ccu_nkm \<Rightarrow> u32 \<Rightarrow> (nat \<times> nat \<times> nat) option" where
  "nkm_read c v =
     do {
       n \<leftarrow> read_factor (mu_offset (nkm_n c)) (mu_shift (nkm_n c)) (mu_width (nkm_n c)) v;
       k \<leftarrow> read_factor (mu_offset (nkm_k c)) (mu_shift (nkm_k c)) (mu_width (nkm_k c)) v;
       m \<leftarrow> read_factor (di_offset (nkm_m c)) (di_shift (nkm_m c)) (di_width (nkm_m c)) v;
       Some (n, k, m) }"

definition nkm_write :: "ccu_nkm \<Rightarrow> nat \<times> nat \<times> nat \<Rightarrow> u32 \<Rightarrow> u32 option" where
  "nkm_write c = (\<lambda>(n, k, m) v.
     do {
       mn \<leftarrow> GENMASK (mu_shift (nkm_n c)) (mu_width (nkm_n c));
       mk \<leftarrow> GENMASK (mu_shift (nkm_k c)) (mu_width (nkm_k c));
       mm \<leftarrow> GENMASK (di_shift (nkm_m c)) (di_width (nkm_m c));
       Some (v AND NOT mn AND NOT mk AND NOT mm OR factor_bits (mu_offset (nkm_n c)) (mu_shift (nkm_n c)) n
             OR factor_bits (mu_offset (nkm_k c)) (mu_shift (nkm_k c)) k OR factor_bits (di_offset (nkm_m c)) (di_shift (nkm_m c)) m) })"

text \<open>The division by the factor M in \<open>recalc_rate\<close> has 64 bits; the factors that are read are never zero.\<close>

definition ccu_nkm_recalc_rate :: "ccu_nkm \<Rightarrow> u64 \<Rightarrow> ccu \<Rightarrow> u64 option" where
  "ccu_nkm_recalc_rate c parent_rate st =
     do {
       (n, k, m) \<leftarrow> nkm_read c (readl (ccu_addr (nkm_common c)) st);
       r \<leftarrow> div64 (parent_rate * of_nat n * of_nat k) (of_nat m);
       if has (nkm_common c) CCU_FEATURE_FIXED_POSTDIV then div64 r (ucast (nkm_post_div c)) else Some r }"

definition ccu_nkm_round_rate :: "ccu_nkm \<Rightarrow> round_fn" where
  "ccu_nkm_round_rate c p parent_rate rate =
     do {
       f \<leftarrow> ccu_nkm_find_best parent_rate (post_mul (nkm_common c) (nkm_post_div c) rate) c;
       r \<leftarrow> nkm_rate parent_rate f;
       r \<leftarrow> post_div (nkm_common c) (nkm_post_div c) r;
       Some (r, parent_rate) }"

definition ccu_nkm_determine_rate :: "clk_env \<Rightarrow> ccu_nkm \<Rightarrow> u64 \<Rightarrow> ccu \<Rightarrow> (int \<times> choice option) option" where
  "ccu_nkm_determine_rate env c rate st = ccu_mux_helper_determine_rate (nkm_common c) (nkm_mux c) env (ccu_nkm_round_rate c) rate st"

definition ccu_nkm_set_rate :: "ccu_nkm \<Rightarrow> u64 \<Rightarrow> u64 \<Rightarrow> ccu \<Rightarrow> (int \<times> ccu) option" where
  "ccu_nkm_set_rate c rate parent_rate st =
     do {
       f \<leftarrow> ccu_nkm_find_best parent_rate (post_mul (nkm_common c) (nkm_post_div c) rate) c;
       v \<leftarrow> nkm_write c f (readl (ccu_addr (nkm_common c)) st);
       Some (0, writel v (ccu_addr (nkm_common c)) st) }"

section \<open>Clocks with the factors N, K, M and P\<close>

record ccu_nkmp =
  nkmp_enable :: u32
  nkmp_n :: ccu_mult_internal
  nkmp_k :: ccu_mult_internal
  nkmp_m :: ccu_div_internal
  nkmp_p :: ccu_div_internal
  nkmp_post_div :: u32
  nkmp_max_rate :: u32
  nkmp_common :: ccu_common

definition ccu_nkmp_calc_rate :: "u64 \<Rightarrow> nat \<times> nat \<times> nat \<times> nat \<Rightarrow> u64 option" where
  "ccu_nkmp_calc_rate parent = (\<lambda>(n, k, m, p). do_div (parent * (of_nat n * of_nat k)) (of_nat m * of_nat p))"

definition nkmp_cands :: "ccu_nkmp \<Rightarrow> (nat \<times> nat \<times> nat \<times> nat) list option" where
  "nkmp_cands c =
     do {
       hn \<leftarrow> mult_hi (nkmp_n c);
       hk \<leftarrow> mult_hi (nkmp_k c);
       hm \<leftarrow> div_hi (nkmp_m c);
       hp \<leftarrow> pow_hi (nkmp_p c);
       ps \<leftarrow> pows 64 hp;
       Some [(n, k, m, p). k \<leftarrow> [mult_lo (nkmp_k c)..<Suc hk], n \<leftarrow> [mult_lo (nkmp_n c)..<Suc hn], m \<leftarrow> [1..<Suc hm], p \<leftarrow> ps] }"

definition ccu_nkmp_find_best :: "u64 \<Rightarrow> u64 \<Rightarrow> ccu_nkmp \<Rightarrow> (nat \<times> nat \<times> nat \<times> nat) option" where
  "ccu_nkmp_find_best parent rate c = do { cs \<leftarrow> nkmp_cands c; find_best (ccu_nkmp_calc_rate parent) (0, 0, 0, 0) rate cs }"

definition nkmp_read :: "ccu_nkmp \<Rightarrow> u32 \<Rightarrow> (nat \<times> nat \<times> nat \<times> nat) option" where
  "nkmp_read c v =
     do {
       n \<leftarrow> read_factor (mu_offset (nkmp_n c)) (mu_shift (nkmp_n c)) (mu_width (nkmp_n c)) v;
       k \<leftarrow> read_factor (mu_offset (nkmp_k c)) (mu_shift (nkmp_k c)) (mu_width (nkmp_k c)) v;
       m \<leftarrow> read_factor (di_offset (nkmp_m c)) (di_shift (nkmp_m c)) (di_width (nkmp_m c)) v;
       e \<leftarrow> get_bits v (di_shift (nkmp_p c)) (di_width (nkmp_p c));
       p \<leftarrow> int_bit (unat e);
       Some (n, k, m, p) }"

text \<open>Here an empty field has an empty mask, and the factors are cut to their fields. \<open>ilog2\<close> is undefined at zero.\<close>

definition field_mask :: "nat \<Rightarrow> nat \<Rightarrow> u32 option" where
  "field_mask lo w = (if w = 0 then Some 0 else GENMASK lo w)"

fun ilog2 :: "nat \<Rightarrow> nat option" where
  "ilog2 n = (if n = 0 then None else if n = 1 then Some 0 else map_option Suc (ilog2 (n div 2)))"

definition nkmp_write :: "ccu_nkmp \<Rightarrow> nat \<times> nat \<times> nat \<times> nat \<Rightarrow> u32 \<Rightarrow> u32 option" where
  "nkmp_write c = (\<lambda>(n, k, m, p) v.
     do {
       mn \<leftarrow> field_mask (mu_shift (nkmp_n c)) (mu_width (nkmp_n c));
       mk \<leftarrow> field_mask (mu_shift (nkmp_k c)) (mu_width (nkmp_k c));
       mm \<leftarrow> field_mask (di_shift (nkmp_m c)) (di_width (nkmp_m c));
       mp \<leftarrow> field_mask (di_shift (nkmp_p c)) (di_width (nkmp_p c));
       e \<leftarrow> ilog2 p;
       Some (v AND NOT (mn OR mk OR mm OR mp) OR factor_bits (mu_offset (nkmp_n c)) (mu_shift (nkmp_n c)) n AND mn
             OR factor_bits (mu_offset (nkmp_k c)) (mu_shift (nkmp_k c)) k AND mk
             OR factor_bits (di_offset (nkmp_m c)) (di_shift (nkmp_m c)) m AND mm OR push_bit (di_shift (nkmp_p c)) (of_nat e) AND mp) })"

definition ccu_nkmp_recalc_rate :: "ccu_nkmp \<Rightarrow> u64 \<Rightarrow> ccu \<Rightarrow> u64 option" where
  "ccu_nkmp_recalc_rate c parent_rate st =
     do {
       f \<leftarrow> nkmp_read c (readl (ccu_addr (nkmp_common c)) st);
       r \<leftarrow> ccu_nkmp_calc_rate parent_rate f;
       if has (nkmp_common c) CCU_FEATURE_FIXED_POSTDIV then div64 r (ucast (nkmp_post_div c)) else Some r }"

definition ccu_nkmp_round_rate :: "ccu_nkmp \<Rightarrow> u64 \<Rightarrow> u64 \<Rightarrow> u64 option" where
  "ccu_nkmp_round_rate c rate parent_rate =
     (let rate = post_mul (nkmp_common c) (nkmp_post_div c) rate in
      if nkmp_max_rate c \<noteq> 0 \<and> ucast (nkmp_max_rate c) < rate
      then post_div (nkmp_common c) (nkmp_post_div c) (ucast (nkmp_max_rate c))
      else do {
        f \<leftarrow> ccu_nkmp_find_best parent_rate rate c;
        r \<leftarrow> ccu_nkmp_calc_rate parent_rate f;
        post_div (nkmp_common c) (nkmp_post_div c) r })"

definition ccu_nkmp_set_rate :: "ccu_nkmp \<Rightarrow> u64 \<Rightarrow> u64 \<Rightarrow> ccu \<Rightarrow> (int \<times> ccu) option" where
  "ccu_nkmp_set_rate c rate parent_rate st =
     do {
       f \<leftarrow> ccu_nkmp_find_best parent_rate (post_mul (nkmp_common c) (nkmp_post_div c) rate) c;
       v \<leftarrow> nkmp_write c f (readl (ccu_addr (nkmp_common c)) st);
       Some (0, writel v (ccu_addr (nkmp_common c)) st) }"
section \<open>Clocks with the factors N and M\<close>

record ccu_nm =
  nm_enable :: u32
  nm_n :: ccu_mult_internal
  nm_m :: ccu_div_internal
  nm_frac :: ccu_frac_internal
  nm_sdm :: ccu_sdm_internal
  nm_post_div :: u32
  nm_min_rate :: u32
  nm_max_rate :: u32
  nm_common :: ccu_common

definition ccu_nm_calc_rate :: "u64 \<Rightarrow> nat \<times> nat \<Rightarrow> u64 option" where
  "ccu_nm_calc_rate parent = (\<lambda>(n, m). do_div (parent * of_nat n) (of_nat m))"

definition nm_cands :: "ccu_nm \<Rightarrow> (nat \<times> nat) list option" where
  "nm_cands c =
     do {
       hn \<leftarrow> mult_hi (nm_n c);
       hm \<leftarrow> div_hi (nm_m c);
       Some [(n, m). n \<leftarrow> [mult_lo (nm_n c)..<Suc hn], m \<leftarrow> [1..<Suc hm]] }"

definition ccu_nm_find_best :: "u64 \<Rightarrow> u64 \<Rightarrow> ccu_nm \<Rightarrow> (nat \<times> nat) option" where
  "ccu_nm_find_best parent rate c = do { cs \<leftarrow> nm_cands c; find_best (ccu_nm_calc_rate parent) (0, 0) rate cs }"

definition nm_read :: "ccu_nm \<Rightarrow> u32 \<Rightarrow> (nat \<times> nat) option" where
  "nm_read c v =
     do {
       n \<leftarrow> read_factor (mu_offset (nm_n c)) (mu_shift (nm_n c)) (mu_width (nm_n c)) v;
       m \<leftarrow> read_factor (di_offset (nm_m c)) (di_shift (nm_m c)) (di_width (nm_m c)) v;
       Some (n, m) }"

definition nm_write :: "ccu_nm \<Rightarrow> nat \<times> nat \<Rightarrow> u32 \<Rightarrow> u32 option" where
  "nm_write c = (\<lambda>(n, m) v.
     do {
       mn \<leftarrow> GENMASK (mu_shift (nm_n c)) (mu_width (nm_n c));
       mm \<leftarrow> GENMASK (di_shift (nm_m c)) (di_width (nm_m c));
       Some (v AND NOT mn AND NOT mm OR factor_bits (mu_offset (nm_n c)) (mu_shift (nm_n c)) n
             OR factor_bits (di_offset (nm_m c)) (di_shift (nm_m c)) m) })"

definition ccu_nm_recalc_rate :: "ccu_nm \<Rightarrow> u64 \<Rightarrow> ccu \<Rightarrow> u64 option" where
  "ccu_nm_recalc_rate c parent_rate st =
     (if ccu_frac_helper_is_enabled (nm_common c) (nm_frac c) st
      then post_div (nm_common c) (nm_post_div c) (ccu_frac_helper_read_rate (nm_common c) (nm_frac c) st)
      else do {
        (n, m) \<leftarrow> nm_read c (readl (ccu_addr (nm_common c)) st);
        r \<leftarrow> (if ccu_sdm_helper_is_enabled (nm_common c) (nm_sdm c) st
              then Some (ccu_sdm_helper_read_rate (nm_common c) (nm_sdm c) (of_nat m) (of_nat n) st)
              else ccu_nm_calc_rate parent_rate (n, m));
        post_div (nm_common c) (nm_post_div c) r })"

definition ccu_nm_round_rate :: "ccu_nm \<Rightarrow> u64 \<Rightarrow> u64 \<Rightarrow> u64 option" where
  "ccu_nm_round_rate c rate parent_rate =
     (let rate = post_mul (nm_common c) (nm_post_div c) rate in
      if rate < ucast (nm_min_rate c) then post_div (nm_common c) (nm_post_div c) (ucast (nm_min_rate c))
      else if nm_max_rate c \<noteq> 0 \<and> ucast (nm_max_rate c) < rate
      then post_div (nm_common c) (nm_post_div c) (ucast (nm_max_rate c))
      else if ccu_frac_helper_has_rate (nm_common c) (nm_frac c) rate then post_div (nm_common c) (nm_post_div c) rate
      else if ccu_sdm_helper_has_rate (nm_common c) (nm_sdm c) rate then post_div (nm_common c) (nm_post_div c) rate
      else do {
        f \<leftarrow> ccu_nm_find_best parent_rate rate c;
        r \<leftarrow> ccu_nm_calc_rate parent_rate f;
        post_div (nm_common c) (nm_post_div c) r })"

text \<open>The fractional mode wants the factor M to be zero.\<close>

definition clear_m :: "ccu_nm \<Rightarrow> ccu \<Rightarrow> ccu option" where
  "clear_m c st =
     do {
       mm \<leftarrow> GENMASK (di_shift (nm_m c)) (di_width (nm_m c));
       Some (writel (readl (ccu_addr (nm_common c)) st AND NOT mm) (ccu_addr (nm_common c)) st) }"

definition ccu_nm_set_rate :: "ccu_nm \<Rightarrow> u64 \<Rightarrow> u64 \<Rightarrow> ccu \<Rightarrow> (int \<times> ccu) option" where
  "ccu_nm_set_rate c rate parent_rate st =
     (let rate = post_mul (nm_common c) (nm_post_div c) rate in
      if ccu_frac_helper_has_rate (nm_common c) (nm_frac c) rate then
        do {
          st \<leftarrow> clear_m c st;
          Some (ccu_frac_helper_set_rate (nm_common c) (nm_frac c) rate (ccu_frac_helper_enable (nm_common c) (nm_frac c) st)) }
      else do {
        let st = ccu_frac_helper_disable (nm_common c) (nm_frac c) st;
        (f, st) \<leftarrow>
          (if ccu_sdm_helper_has_rate (nm_common c) (nm_sdm c) rate then
             do {
               (m, n) \<leftarrow> ccu_sdm_helper_get_factors (nm_common c) (nm_sdm c) rate;
               Some ((unat n, unat m), ccu_sdm_helper_enable (nm_common c) (nm_sdm c) rate st) }
           else
             do {
               f \<leftarrow> ccu_nm_find_best parent_rate rate c;
               Some (f, ccu_sdm_helper_disable (nm_common c) (nm_sdm c) st) });
        v \<leftarrow> nm_write c f (readl (ccu_addr (nm_common c)) st);
        Some (0, writel v (ccu_addr (nm_common c)) st) })"

section \<open>Clocks with the dividers M and P\<close>

record ccu_mp =
  mp_enable :: u32
  mp_m :: ccu_div_internal
  mp_p :: ccu_div_internal
  mp_mux :: ccu_mux_internal
  mp_post_div :: u32
  mp_common :: ccu_common

definition mp_rate :: "u64 \<Rightarrow> nat \<times> nat \<Rightarrow> u64 option" where
  "mp_rate parent = (\<lambda>(m, p). do { r \<leftarrow> div64 parent (of_nat p); div64 r (of_nat m) })"

definition ccu_mp_find_best :: "u64 \<Rightarrow> u64 \<Rightarrow> nat \<Rightarrow> nat \<Rightarrow> (nat \<times> nat) option" where
  "ccu_mp_find_best parent rate max_m max_p =
     do {
       ps \<leftarrow> pows 32 max_p;
       find_best (mp_rate parent) (0, 0) rate [(m, p). p \<leftarrow> ps, m \<leftarrow> [1..<Suc max_m]] }"

text \<open>
  The search that may ask the parent for another rate. The loops carry the best rate and the rate of the parent;
  \<open>Inr\<close> is the return out of the loops. The product of the dividers has 32 bits.
\<close>

fun adj_inner :: "(u64 \<Rightarrow> u64) \<Rightarrow> u64 \<Rightarrow> u64 \<Rightarrow> u64 \<Rightarrow> nat \<Rightarrow> nat list \<Rightarrow> u64 \<times> u64 \<Rightarrow> (u64 \<times> u64 + u64 \<times> u64) option" where
  "adj_inner rnd rate maxdiv saved p [] best = Some (Inl best)"
| "adj_inner rnd rate maxdiv saved p (m # ms) best =
     (let d = (of_nat m * of_nat p :: u32) in
      if maxdiv < ucast d then Some (Inl best)
      else if rate * ucast d = saved then Some (Inr (rate, saved))
      else do {
        let pr = rnd (rate * ucast d);
        now \<leftarrow> div64 pr (ucast d);
        if now \<le> rate \<and> fst best < now then
          (if now = rate then Some (Inr (rate, pr)) else adj_inner rnd rate maxdiv saved p ms (now, pr))
        else adj_inner rnd rate maxdiv saved p ms best })"

fun adj_outer :: "(u64 \<Rightarrow> u64) \<Rightarrow> u64 \<Rightarrow> u64 \<Rightarrow> u64 \<Rightarrow> nat list \<Rightarrow> nat list \<Rightarrow> u64 \<times> u64 \<Rightarrow> (u64 \<times> u64) option" where
  "adj_outer rnd rate maxdiv saved [] ms best = Some best"
| "adj_outer rnd rate maxdiv saved (p # ps) ms best =
     do {
       r \<leftarrow> adj_inner rnd rate maxdiv saved p ms best;
       case r of Inr res \<Rightarrow> Some res | Inl best \<Rightarrow> adj_outer rnd rate maxdiv saved ps ms best }"

definition ccu_mp_find_best_with_parent_adj :: "(u64 \<Rightarrow> u64) \<Rightarrow> u64 \<Rightarrow> u64 \<Rightarrow> nat \<Rightarrow> nat \<Rightarrow> (u64 \<times> u64) option" where
  "ccu_mp_find_best_with_parent_adj rnd parent rate max_m max_p =
     do {
       q \<leftarrow> div64 (-1) rate;
       let maxdiv = min q (ucast (of_nat max_m * of_nat max_p :: u32));
       ps \<leftarrow> pows 32 max_p;
       adj_outer rnd rate maxdiv parent ps [1..<Suc max_m] (0, parent) }"

definition ccu_mp_round_rate :: "clk_env \<Rightarrow> ccu_mp \<Rightarrow> round_fn" where
  "ccu_mp_round_rate env c p parent_rate rate =
     do {
       let rate = post_mul (mp_common c) (mp_post_div c) rate;
       max_m \<leftarrow> div_hi (mp_m c);
       max_p \<leftarrow> pow_hi (mp_p c);
       (r, pr) \<leftarrow>
         (if \<not> set_rate_parent env then
            do { f \<leftarrow> ccu_mp_find_best parent_rate rate max_m max_p; r \<leftarrow> mp_rate parent_rate f; Some (r, parent_rate) }
          else ccu_mp_find_best_with_parent_adj (clk_round env p) parent_rate rate max_m max_p);
       r \<leftarrow> (if has (mp_common c) CCU_FEATURE_FIXED_POSTDIV then div64 r (ucast (mp_post_div c)) else Some r);
       Some (r, pr) }"

definition mp_read :: "ccu_mp \<Rightarrow> u32 \<Rightarrow> (nat \<times> nat) option" where
  "mp_read c v =
     do {
       m \<leftarrow> read_factor (di_offset (mp_m c)) (di_shift (mp_m c)) (di_width (mp_m c)) v;
       p \<leftarrow> (if has (mp_common c) CCU_FEATURE_MP_NO_INDEX_MODE
             then read_factor (di_offset (mp_p c)) (di_shift (mp_p c)) (di_width (mp_p c)) v
             else do { e \<leftarrow> get_bits v (di_shift (mp_p c)) (di_width (mp_p c)); if unat e < 64 then Some (2 ^ unat e) else None });
       Some (m, p) }"

definition mp_write :: "ccu_mp \<Rightarrow> nat \<times> nat \<Rightarrow> u32 \<Rightarrow> u32 option" where
  "mp_write c = (\<lambda>(m, p) v.
     do {
       mm \<leftarrow> GENMASK (di_shift (mp_m c)) (di_width (mp_m c));
       mp \<leftarrow> GENMASK (di_shift (mp_p c)) (di_width (mp_p c));
       bp \<leftarrow> (if has (mp_common c) CCU_FEATURE_MP_NO_INDEX_MODE
              then Some (factor_bits (di_offset (mp_p c)) (di_shift (mp_p c)) p)
              else do { e \<leftarrow> ilog2 p; Some (push_bit (di_shift (mp_p c)) (of_nat e)) });
       Some (v AND NOT mm AND NOT mp OR factor_bits (di_offset (mp_m c)) (di_shift (mp_m c)) m OR bp) })"

definition ccu_mp_recalc_rate :: "ccu_mp \<Rightarrow> u64 \<Rightarrow> ccu \<Rightarrow> u64 option" where
  "ccu_mp_recalc_rate c parent_rate st =
     do {
       pr \<leftarrow> ccu_mux_helper_apply_prediv (mp_common c) (mp_mux c) (-1) parent_rate st;
       f \<leftarrow> mp_read c (readl (ccu_addr (mp_common c)) st);
       r \<leftarrow> mp_rate pr f;
       if has (mp_common c) CCU_FEATURE_FIXED_POSTDIV then div64 r (ucast (mp_post_div c)) else Some r }"

definition ccu_mp_determine_rate :: "clk_env \<Rightarrow> ccu_mp \<Rightarrow> u64 \<Rightarrow> ccu \<Rightarrow> (int \<times> choice option) option" where
  "ccu_mp_determine_rate env c rate st = ccu_mux_helper_determine_rate (mp_common c) (mp_mux c) env (ccu_mp_round_rate env c) rate st"

definition mp_max_p :: "ccu_mp \<Rightarrow> nat option" where
  "mp_max_p c = (if has (mp_common c) CCU_FEATURE_MP_NO_INDEX_MODE then div_hi (mp_p c) else pow_hi (mp_p c))"

definition ccu_mp_set_rate :: "ccu_mp \<Rightarrow> u64 \<Rightarrow> u64 \<Rightarrow> ccu \<Rightarrow> (int \<times> ccu) option" where
  "ccu_mp_set_rate c rate parent_rate st =
     do {
       pr \<leftarrow> ccu_mux_helper_apply_prediv (mp_common c) (mp_mux c) (-1) parent_rate st;
       max_m \<leftarrow> div_hi (mp_m c);
       max_p \<leftarrow> mp_max_p c;
       f \<leftarrow> ccu_mp_find_best pr (post_mul (mp_common c) (mp_post_div c) rate) max_m max_p;
       v \<leftarrow> mp_write c f (readl (ccu_addr (mp_common c)) st);
       Some (0, writel v (ccu_addr (mp_common c)) st) }"

text \<open>
  The clocks of the memory cards: in the new timing mode the output is halved. The limits of the request, which are doubled and
  halved with its rate and not used in between, are left out.
\<close>

definition new_timing :: "ccu_mp \<Rightarrow> ccu \<Rightarrow> bool" where
  "new_timing c st \<longleftrightarrow> readl (ccu_addr (mp_common c)) st AND CCU_MMC_NEW_TIMING_MODE \<noteq> 0"

definition ccu_mp_mmc_recalc_rate :: "ccu_mp \<Rightarrow> u64 \<Rightarrow> ccu \<Rightarrow> u64 option" where
  "ccu_mp_mmc_recalc_rate c parent_rate st =
     do { r \<leftarrow> ccu_mp_recalc_rate c parent_rate st; Some (if new_timing c st then r div 2 else r) }"

definition ccu_mp_mmc_determine_rate :: "clk_env \<Rightarrow> ccu_mp \<Rightarrow> u64 \<Rightarrow> ccu \<Rightarrow> (int \<times> u64 \<times> choice option) option" where
  "ccu_mp_mmc_determine_rate env c rate st =
     do {
       let rate = (if new_timing c st then rate * 2 else rate);
       (ret, ch) \<leftarrow> ccu_mp_determine_rate env c rate st;
       let r = (case ch of Some ch \<Rightarrow> best_rate ch | None \<Rightarrow> rate);
       Some (ret, if new_timing c st then r div 2 else r, ch) }"

definition ccu_mp_mmc_set_rate :: "ccu_mp \<Rightarrow> u64 \<Rightarrow> u64 \<Rightarrow> ccu \<Rightarrow> (int \<times> ccu) option" where
  "ccu_mp_mmc_set_rate c rate parent_rate st =
     ccu_mp_set_rate c (if new_timing c st then rate * 2 else rate) parent_rate st"

section \<open>Clocks with one multiplier or one divider\<close>

record ccu_mult =
  mult_enable :: u32
  mult_frac :: ccu_frac_internal
  mult :: ccu_mult_internal
  mult_mux :: ccu_mux_internal
  mult_common :: ccu_common

definition ccu_mult_find_best :: "u64 \<Rightarrow> u64 \<Rightarrow> nat \<Rightarrow> nat \<Rightarrow> u64 option" where
  "ccu_mult_find_best parent rate lo hi =
     do {
       q \<leftarrow> do_div rate (ucast parent);
       let q = (if q < of_nat lo then of_nat lo else q);
       Some (if of_nat hi < q then of_nat hi else q) }"

definition mult_limit :: "ccu_mult \<Rightarrow> nat option" where
  "mult_limit c =
     (if mu_max (mult c) \<noteq> 0 then Some (mu_max (mult c))
      else do { b \<leftarrow> int_bit (mu_width (mult c)); Some (b + mu_offset (mult c) - 1) })"

definition ccu_mult_round_rate :: "ccu_mult \<Rightarrow> round_fn" where
  "ccu_mult_round_rate c p parent_rate rate =
     do {
       hi \<leftarrow> mult_limit c;
       q \<leftarrow> ccu_mult_find_best parent_rate rate (mu_min (mult c)) hi;
       Some (parent_rate * q, parent_rate) }"

definition ccu_mult_recalc_rate :: "ccu_mult \<Rightarrow> u64 \<Rightarrow> ccu \<Rightarrow> u64 option" where
  "ccu_mult_recalc_rate c parent_rate st =
     (if ccu_frac_helper_is_enabled (mult_common c) (mult_frac c) st
      then Some (ccu_frac_helper_read_rate (mult_common c) (mult_frac c) st)
      else do {
        f \<leftarrow> get_bits (readl (ccu_addr (mult_common c)) st) (mu_shift (mult c)) (mu_width (mult c));
        pr \<leftarrow> ccu_mux_helper_apply_prediv (mult_common c) (mult_mux c) (-1) parent_rate st;
        Some (pr * (ucast f + of_nat (mu_offset (mult c)))) })"

definition ccu_mult_determine_rate :: "clk_env \<Rightarrow> ccu_mult \<Rightarrow> u64 \<Rightarrow> ccu \<Rightarrow> (int \<times> choice option) option" where
  "ccu_mult_determine_rate env c rate st = ccu_mux_helper_determine_rate (mult_common c) (mult_mux c) env (ccu_mult_round_rate c) rate st"

definition ccu_mult_set_rate :: "ccu_mult \<Rightarrow> u64 \<Rightarrow> u64 \<Rightarrow> ccu \<Rightarrow> (int \<times> ccu) option" where
  "ccu_mult_set_rate c rate parent_rate st =
     (if ccu_frac_helper_has_rate (mult_common c) (mult_frac c) rate
      then Some (ccu_frac_helper_set_rate (mult_common c) (mult_frac c) rate (ccu_frac_helper_enable (mult_common c) (mult_frac c) st))
      else do {
        let st = ccu_frac_helper_disable (mult_common c) (mult_frac c) st;
        pr \<leftarrow> ccu_mux_helper_apply_prediv (mult_common c) (mult_mux c) (-1) parent_rate st;
        hi \<leftarrow> mult_limit c;
        q \<leftarrow> ccu_mult_find_best pr rate (mu_min (mult c)) hi;
        m \<leftarrow> GENMASK (mu_shift (mult c)) (mu_width (mult c));
        let v = readl (ccu_addr (mult_common c)) st AND NOT m OR factor_bits (mu_offset (mult c)) (mu_shift (mult c)) (unat q);
        Some (0, writel v (ccu_addr (mult_common c)) st) })"

record ccu_div =
  div_enable :: u32
  ccu_div_field :: ccu_div_internal
  div_mux :: ccu_mux_internal
  div_common :: ccu_common
  div_post_div :: u32

text \<open>The dividers of the kernel's clock framework, for the table and the flags of the clock.\<close>

record divider_fns =
  divider_round_rate_parent :: "nat \<Rightarrow> u64 \<Rightarrow> u64 \<Rightarrow> u64 \<times> u64"
  divider_recalc_rate :: "u64 \<Rightarrow> u64 \<Rightarrow> u64"
  divider_get_val :: "u64 \<Rightarrow> u64 \<Rightarrow> u32"

definition ccu_div_round_rate :: "divider_fns \<Rightarrow> ccu_div \<Rightarrow> round_fn" where
  "ccu_div_round_rate fns c p parent_rate rate =
     do {
       let (r, pr) = divider_round_rate_parent fns p (post_mul (div_common c) (div_post_div c) rate) parent_rate;
       r \<leftarrow> (if has (div_common c) CCU_FEATURE_FIXED_POSTDIV then div64 r (ucast (div_post_div c)) else Some r);
       Some (r, pr) }"

definition ccu_div_recalc_rate :: "divider_fns \<Rightarrow> ccu_div \<Rightarrow> u64 \<Rightarrow> ccu \<Rightarrow> u64 option" where
  "ccu_div_recalc_rate fns c parent_rate st =
     do {
       f \<leftarrow> get_bits (readl (ccu_addr (div_common c)) st) (di_shift (ccu_div_field c)) (di_width (ccu_div_field c));
       pr \<leftarrow> ccu_mux_helper_apply_prediv (div_common c) (div_mux c) (-1) parent_rate st;
       let r = divider_recalc_rate fns pr (ucast f);
       if has (div_common c) CCU_FEATURE_FIXED_POSTDIV then div64 r (ucast (div_post_div c)) else Some r }"

definition ccu_div_determine_rate :: "divider_fns \<Rightarrow> clk_env \<Rightarrow> ccu_div \<Rightarrow> u64 \<Rightarrow> ccu \<Rightarrow> (int \<times> choice option) option" where
  "ccu_div_determine_rate fns env c rate st =
     ccu_mux_helper_determine_rate (div_common c) (div_mux c) env (ccu_div_round_rate fns c) rate st"

definition ccu_div_set_rate :: "divider_fns \<Rightarrow> ccu_div \<Rightarrow> u64 \<Rightarrow> u64 \<Rightarrow> ccu \<Rightarrow> (int \<times> ccu) option" where
  "ccu_div_set_rate fns c rate parent_rate st =
     do {
       pr \<leftarrow> ccu_mux_helper_apply_prediv (div_common c) (div_mux c) (-1) parent_rate st;
       let val = divider_get_val fns (post_mul (div_common c) (div_post_div c) rate) pr;
       m \<leftarrow> GENMASK (di_shift (ccu_div_field c)) (di_width (ccu_div_field c));
       let v = readl (ccu_addr (div_common c)) st AND NOT m OR push_bit (di_shift (ccu_div_field c)) val;
       Some (0, writel v (ccu_addr (div_common c)) st) }"
section \<open>Gates and parents of the clocks\<close>

definition ccu_nk_disable :: "ccu_nk \<Rightarrow> ccu \<Rightarrow> ccu" where
  "ccu_nk_disable c st = ccu_gate_helper_disable (nk_common c) (nk_enable c) st"

definition ccu_nk_enable :: "ccu_nk \<Rightarrow> ccu \<Rightarrow> int \<times> ccu" where
  "ccu_nk_enable c st = ccu_gate_helper_enable (nk_common c) (nk_enable c) st"

definition ccu_nk_is_enabled :: "ccu_nk \<Rightarrow> ccu \<Rightarrow> u32" where
  "ccu_nk_is_enabled c st = ccu_gate_helper_is_enabled (nk_common c) (nk_enable c) st"

definition ccu_nkm_disable :: "ccu_nkm \<Rightarrow> ccu \<Rightarrow> ccu" where
  "ccu_nkm_disable c st = ccu_gate_helper_disable (nkm_common c) (nkm_enable c) st"

definition ccu_nkm_enable :: "ccu_nkm \<Rightarrow> ccu \<Rightarrow> int \<times> ccu" where
  "ccu_nkm_enable c st = ccu_gate_helper_enable (nkm_common c) (nkm_enable c) st"

definition ccu_nkm_is_enabled :: "ccu_nkm \<Rightarrow> ccu \<Rightarrow> u32" where
  "ccu_nkm_is_enabled c st = ccu_gate_helper_is_enabled (nkm_common c) (nkm_enable c) st"

definition ccu_nkmp_disable :: "ccu_nkmp \<Rightarrow> ccu \<Rightarrow> ccu" where
  "ccu_nkmp_disable c st = ccu_gate_helper_disable (nkmp_common c) (nkmp_enable c) st"

definition ccu_nkmp_enable :: "ccu_nkmp \<Rightarrow> ccu \<Rightarrow> int \<times> ccu" where
  "ccu_nkmp_enable c st = ccu_gate_helper_enable (nkmp_common c) (nkmp_enable c) st"

definition ccu_nkmp_is_enabled :: "ccu_nkmp \<Rightarrow> ccu \<Rightarrow> u32" where
  "ccu_nkmp_is_enabled c st = ccu_gate_helper_is_enabled (nkmp_common c) (nkmp_enable c) st"

definition ccu_nm_disable :: "ccu_nm \<Rightarrow> ccu \<Rightarrow> ccu" where
  "ccu_nm_disable c st = ccu_gate_helper_disable (nm_common c) (nm_enable c) st"

definition ccu_nm_enable :: "ccu_nm \<Rightarrow> ccu \<Rightarrow> int \<times> ccu" where
  "ccu_nm_enable c st = ccu_gate_helper_enable (nm_common c) (nm_enable c) st"

definition ccu_nm_is_enabled :: "ccu_nm \<Rightarrow> ccu \<Rightarrow> u32" where
  "ccu_nm_is_enabled c st = ccu_gate_helper_is_enabled (nm_common c) (nm_enable c) st"

definition ccu_mp_disable :: "ccu_mp \<Rightarrow> ccu \<Rightarrow> ccu" where
  "ccu_mp_disable c st = ccu_gate_helper_disable (mp_common c) (mp_enable c) st"

definition ccu_mp_enable :: "ccu_mp \<Rightarrow> ccu \<Rightarrow> int \<times> ccu" where
  "ccu_mp_enable c st = ccu_gate_helper_enable (mp_common c) (mp_enable c) st"

definition ccu_mp_is_enabled :: "ccu_mp \<Rightarrow> ccu \<Rightarrow> u32" where
  "ccu_mp_is_enabled c st = ccu_gate_helper_is_enabled (mp_common c) (mp_enable c) st"

definition ccu_mult_disable :: "ccu_mult \<Rightarrow> ccu \<Rightarrow> ccu" where
  "ccu_mult_disable c st = ccu_gate_helper_disable (mult_common c) (mult_enable c) st"

definition ccu_mult_enable :: "ccu_mult \<Rightarrow> ccu \<Rightarrow> int \<times> ccu" where
  "ccu_mult_enable c st = ccu_gate_helper_enable (mult_common c) (mult_enable c) st"

definition ccu_mult_is_enabled :: "ccu_mult \<Rightarrow> ccu \<Rightarrow> u32" where
  "ccu_mult_is_enabled c st = ccu_gate_helper_is_enabled (mult_common c) (mult_enable c) st"

definition ccu_div_disable :: "ccu_div \<Rightarrow> ccu \<Rightarrow> ccu" where
  "ccu_div_disable c st = ccu_gate_helper_disable (div_common c) (div_enable c) st"

definition ccu_div_enable :: "ccu_div \<Rightarrow> ccu \<Rightarrow> int \<times> ccu" where
  "ccu_div_enable c st = ccu_gate_helper_enable (div_common c) (div_enable c) st"

definition ccu_div_is_enabled :: "ccu_div \<Rightarrow> ccu \<Rightarrow> u32" where
  "ccu_div_is_enabled c st = ccu_gate_helper_is_enabled (div_common c) (div_enable c) st"

definition ccu_nkm_get_parent :: "clk_env \<Rightarrow> ccu_nkm \<Rightarrow> ccu \<Rightarrow> byte option" where
  "ccu_nkm_get_parent env c st = ccu_mux_helper_get_parent env (nkm_common c) (nkm_mux c) st"

definition ccu_nkm_set_parent :: "ccu_nkm \<Rightarrow> byte \<Rightarrow> ccu \<Rightarrow> (int \<times> ccu) option" where
  "ccu_nkm_set_parent c index st = ccu_mux_helper_set_parent (nkm_common c) (nkm_mux c) index st"

definition ccu_mp_get_parent :: "clk_env \<Rightarrow> ccu_mp \<Rightarrow> ccu \<Rightarrow> byte option" where
  "ccu_mp_get_parent env c st = ccu_mux_helper_get_parent env (mp_common c) (mp_mux c) st"

definition ccu_mp_set_parent :: "ccu_mp \<Rightarrow> byte \<Rightarrow> ccu \<Rightarrow> (int \<times> ccu) option" where
  "ccu_mp_set_parent c index st = ccu_mux_helper_set_parent (mp_common c) (mp_mux c) index st"

definition ccu_mult_get_parent :: "clk_env \<Rightarrow> ccu_mult \<Rightarrow> ccu \<Rightarrow> byte option" where
  "ccu_mult_get_parent env c st = ccu_mux_helper_get_parent env (mult_common c) (mult_mux c) st"

definition ccu_mult_set_parent :: "ccu_mult \<Rightarrow> byte \<Rightarrow> ccu \<Rightarrow> (int \<times> ccu) option" where
  "ccu_mult_set_parent c index st = ccu_mux_helper_set_parent (mult_common c) (mult_mux c) index st"

definition ccu_div_get_parent :: "clk_env \<Rightarrow> ccu_div \<Rightarrow> ccu \<Rightarrow> byte option" where
  "ccu_div_get_parent env c st = ccu_mux_helper_get_parent env (div_common c) (div_mux c) st"

definition ccu_div_set_parent :: "ccu_div \<Rightarrow> byte \<Rightarrow> ccu \<Rightarrow> (int \<times> ccu) option" where
  "ccu_div_set_parent c index st = ccu_mux_helper_set_parent (div_common c) (div_mux c) index st"


end
