(* ===== verification/Ccu_Rates.thy ===== *)
theory Ccu_Rates
  imports Ccu_Factors
begin

text \<open>
  The rates of the factor clocks of \<open>Ccu_Factors\<close>.

  \<^item> The search over the candidates finds the greatest rate that is not above the wanted one (\<open>search_spec\<close>), and its candidates are
    exactly the factors that the fields describe (\<open>searches_optimal\<close>).
  \<^item> The locale \<open>factor_clock\<close> is what such a clock promises: its candidates exist and have a rate, factors that are written into the
    register are read back from it, and they are read from the bits of their fields alone. It is interpreted on the clocks with the
    factors N and K, N and M, N, K and M, N, K, M and P, and M and P, under conditions on the fields that the clocks of the chip meet
    (\<open>chip_clocks_ok\<close>): each fits the register, can hold its largest factor, and has its bits to itself.
  \<^item> From it: the rate that is read back after setting is the one that rounding announced; the audio PLL reports its rates; and a
    rate that no factors come near spoils the register.
\<close>

unbundle bit_operations_syntax

section \<open>The search\<close>

definition best_of :: "('f \<Rightarrow> u64 option) \<Rightarrow> 'f list \<Rightarrow> u64 \<Rightarrow> 'f \<Rightarrow> u64 \<Rightarrow> bool" where
  "best_of calc fs rate f r \<longleftrightarrow> f \<in> set fs \<and> calc f = Some r \<and> 0 < r \<and> r \<le> rate \<and>
     (\<forall>f'\<in>set fs. \<forall>r'. calc f' = Some r' \<longrightarrow> r' \<le> rate \<longrightarrow> r' \<le> r)"

lemma search_spec:
  assumes "\<forall>f\<in>set fs. calc f \<noteq> None" "fst best \<le> rate"
  shows "\<exists>r f. search calc rate fs best = Some (r, f) \<and> r \<le> rate \<and> fst best \<le> r \<and>
    ((r, f) = best \<or> f \<in> set fs \<and> calc f = Some r \<and> fst best < r) \<and>
    (\<forall>f'\<in>set fs. \<forall>r'. calc f' = Some r' \<longrightarrow> r' \<le> rate \<longrightarrow> r' \<le> r)"
  using assms
proof (induction fs arbitrary: best)
  case Nil
  then show ?case by (cases best) simp
next
  case (Cons g gs)
  obtain t where t: "calc g = Some t" using Cons.prems(1) by auto
  let ?b = "better rate t g best"
  have b: "?b = best \<and> (rate < t \<or> t \<le> fst best) \<or> ?b = (t, g) \<and> t \<le> rate \<and> fst best < t"
    using Cons.prems(2) word_closer [of t rate "fst best"] by (auto simp: better_def not_less)
  then have "fst ?b \<le> rate" using Cons.prems(2) by auto
  with Cons.IH [of ?b] Cons.prems(1) obtain r f where
    rf: "search calc rate gs ?b = Some (r, f)" "r \<le> rate" "fst ?b \<le> r"
      "(r, f) = ?b \<or> f \<in> set gs \<and> calc f = Some r \<and> fst ?b < r"
      "\<forall>f'\<in>set gs. \<forall>r'. calc f' = Some r' \<longrightarrow> r' \<le> rate \<longrightarrow> r' \<le> r" by auto
  have "fst best \<le> r" "t \<le> rate \<Longrightarrow> t \<le> r" using b rf(3) by (auto dest: order.strict_trans1 less_imp_le)
  moreover have "(r, f) = best \<or> f \<in> set (g # gs) \<and> calc f = Some r \<and> fst best < r"
    using rf(4) b t by auto
  ultimately show ?case using rf(1,2,5) t by auto
qed

lemma find_best_spec:
  assumes "\<forall>f\<in>set fs. calc f \<noteq> None"
  shows "\<exists>f. find_best calc none rate fs = Some f \<and>
    (if \<exists>g\<in>set fs. \<exists>r. calc g = Some r \<and> 0 < r \<and> r \<le> rate then \<exists>r. best_of calc fs rate f r else f = none)"
proof -
  obtain r f where rf: "search calc rate fs (0, none) = Some (r, f)" "r \<le> rate"
      "(r, f) = (0, none) \<or> f \<in> set fs \<and> calc f = Some r \<and> 0 < r"
      "\<forall>f'\<in>set fs. \<forall>r'. calc f' = Some r' \<longrightarrow> r' \<le> rate \<longrightarrow> r' \<le> r"
    using search_spec [OF assms, of "(0, none)" rate] by auto
  have "find_best calc none rate fs = Some f" by (simp add: find_best_def rf(1))
  moreover have "\<exists>r. best_of calc fs rate f r" if "g \<in> set fs" "calc g = Some s" "0 < s" "s \<le> rate" for g s
  proof -
    have "s \<le> r" using rf(4) that by blast
    then have "r \<noteq> 0" using that(3) by auto
    then show ?thesis using rf by (auto simp: best_of_def)
  qed
  moreover have "f = none" if "\<not> (\<exists>g\<in>set fs. \<exists>r. calc g = Some r \<and> 0 < r \<and> r \<le> rate)"
    using rf that by auto
  ultimately show ?thesis by auto
qed

text \<open>Some candidate gives a rate that is not zero and not above the wanted one.\<close>

definition attainable :: "('c \<Rightarrow> 'f list option) \<Rightarrow> (u64 \<Rightarrow> 'f \<Rightarrow> u64 option) \<Rightarrow> u64 \<Rightarrow> u64 \<Rightarrow> 'c \<Rightarrow> bool" where
  "attainable cands calc parent rate c \<longleftrightarrow>
     (\<exists>fs. cands c = Some fs \<and> (\<exists>f\<in>set fs. \<exists>r. calc parent f = Some r \<and> 0 < r \<and> r \<le> rate))"

definition best_factors :: "('c \<Rightarrow> 'f list option) \<Rightarrow> (u64 \<Rightarrow> 'f \<Rightarrow> u64 option) \<Rightarrow> 'f \<Rightarrow> u64 \<Rightarrow> u64 \<Rightarrow> 'c \<Rightarrow> 'f option" where
  "best_factors cands calc none parent rate c = do { fs \<leftarrow> cands c; find_best (calc parent) none rate fs }"

definition finds_best :: "('c \<Rightarrow> 'f list option) \<Rightarrow> (u64 \<Rightarrow> 'f \<Rightarrow> u64 option) \<Rightarrow> 'f \<Rightarrow> 'f option \<Rightarrow> u64 \<Rightarrow> u64 \<Rightarrow> 'c \<Rightarrow> bool" where
  "finds_best cands calc none found parent rate c \<longleftrightarrow>
     (\<exists>fs f. cands c = Some fs \<and> found = Some f \<and>
        (if attainable cands calc parent rate c then \<exists>r. best_of (calc parent) fs rate f r else f = none))"

section \<open>The contract\<close>

locale factor_clock =
  fixes calc :: "u64 \<Rightarrow> 'f \<Rightarrow> u64 option"
    and cands :: "'c \<Rightarrow> 'f list option"
    and none :: 'f
    and rd :: "'c \<Rightarrow> u32 \<Rightarrow> 'f option"
    and wr :: "'c \<Rightarrow> 'f \<Rightarrow> u32 \<Rightarrow> u32 option"
    and bits :: "'c \<Rightarrow> u32"
    and wf :: "'c \<Rightarrow> bool"
  assumes cands_exist: "wf c \<Longrightarrow> \<exists>fs. cands c = Some fs"
    and calc_total: "wf c \<Longrightarrow> cands c = Some fs \<Longrightarrow> f \<in> set fs \<Longrightarrow> calc parent f \<noteq> None"
    and write_read: "wf c \<Longrightarrow> cands c = Some fs \<Longrightarrow> f \<in> set fs \<Longrightarrow>
      \<exists>v'. wr c f v = Some v' \<and> rd c v' = Some f \<and> v' AND NOT (bits c) = v AND NOT (bits c)"
    and read_local: "wf c \<Longrightarrow> u AND bits c = v AND bits c \<Longrightarrow> rd c u = rd c v"
begin

lemma best_optimal:
  assumes "wf c"
  obtains fs f where "cands c = Some fs" "best_factors cands calc none parent rate c = Some f"
    "attainable cands calc parent rate c \<Longrightarrow> \<exists>r. best_of (calc parent) fs rate f r" "\<not> attainable cands calc parent rate c \<Longrightarrow> f = none"
proof -
  obtain fs where fs: "cands c = Some fs" using cands_exist [OF assms] by blast
  have "\<forall>f\<in>set fs. calc parent f \<noteq> None" using calc_total [OF assms fs] by blast
  then obtain f where f: "find_best (calc parent) none rate fs = Some f"
      "if \<exists>g\<in>set fs. \<exists>r. calc parent g = Some r \<and> 0 < r \<and> r \<le> rate then \<exists>r. best_of (calc parent) fs rate f r else f = none"
    using find_best_spec [of fs "calc parent" none rate] by blast
  have "best_factors cands calc none parent rate c = Some f" using fs f(1) by (simp add: best_factors_def)
  then show thesis using that [OF fs] f(2) fs by (auto simp: attainable_def split: if_splits)
qed

lemma finds: "wf c \<Longrightarrow> finds_best cands calc none (best_factors cands calc none parent rate c) parent rate c"
  by (rule best_optimal [of c parent rate]) (auto simp: finds_best_def)

text \<open>What is written is read back, through the bits that a register does not show.\<close>

lemma set_read:
  assumes "wf c" "attainable cands calc parent rate c" "hidden AND bits c = 0"
  obtains fs f r v where "cands c = Some fs" "best_factors cands calc none parent rate c = Some f" "best_of (calc parent) fs rate f r" "wr c f x = Some v"
    "rd c (v AND NOT hidden) = Some f" "v AND NOT (bits c) = x AND NOT (bits c)"
proof -
  obtain fs f where b: "cands c = Some fs" "best_factors cands calc none parent rate c = Some f" "\<exists>r. best_of (calc parent) fs rate f r"
    using best_optimal [OF assms(1), of parent rate] assms(2) by metis
  then obtain r where r: "best_of (calc parent) fs rate f r" by blast
  then have "f \<in> set fs" by (simp add: best_of_def)
  then obtain v where v: "wr c f x = Some v" "rd c v = Some f" "v AND NOT (bits c) = x AND NOT (bits c)"
    using write_read [OF assms(1) b(1)] by blast
  have "(v AND NOT hidden) AND bits c = v AND bits c"
  proof (rule bit_word_eqI)
    fix n assume "n < LENGTH(32)"
    have "\<not> (bit hidden n \<and> bit (bits c) n)" using assms(3) by (metis bit_and_iff bit_0_eq bot_apply bot_bool_def)
    then show "bit ((v AND NOT hidden) AND bits c) n = bit (v AND bits c) n"
      using \<open>n < LENGTH(32)\<close> by (auto simp: bit_simps)
  qed
  then have "rd c (v AND NOT hidden) = Some f" using read_local [OF assms(1)] v(2) by metis
  then show thesis using that [OF b(1,2) r v(1)] v(3) by blast
qed

end

section \<open>Fields of a register\<close>

definition fits :: "nat \<Rightarrow> nat \<Rightarrow> bool" where
  "fits lo w \<longleftrightarrow> lo + w \<le> 32 \<and> 0 < w \<and> w < 31"

definition apart :: "nat \<Rightarrow> nat \<Rightarrow> nat \<Rightarrow> nat \<Rightarrow> bool" where
  "apart lo w lo' w' \<longleftrightarrow> lo + w \<le> lo' \<or> lo' + w' \<le> lo"

lemma apart_sym: "apart lo w lo' w' \<Longrightarrow> apart lo' w' lo w"
  by (auto simp: apart_def)

lemma take_bit_self_bit: "take_bit w (x :: u32) = x \<Longrightarrow> bit x n \<Longrightarrow> n < w"
  by (metis bit_take_bit_iff)

lemma field_or: "field lo w (a OR b :: u32) = field lo w a OR field lo w b"
  by (rule bit_word_eqI) (auto simp: bit_of_field bit_simps)

lemma field_and: "field lo w (a AND b :: u32) = field lo w a AND field lo w b"
  by (rule bit_word_eqI) (auto simp: bit_of_field bit_simps)

lemma field_push_same: "lo + w \<le> 32 \<Longrightarrow> take_bit w x = x \<Longrightarrow> field lo w (push_bit lo x :: u32) = x"
  by (rule bit_word_eqI) (auto simp: bit_of_field bit_simps dest: take_bit_self_bit)

lemma field_push_other: "apart lo w lo' w' \<Longrightarrow> take_bit w' x = x \<Longrightarrow> field lo w (push_bit lo' x :: u32) = 0"
  by (rule bit_word_eqI) (auto simp: bit_of_field bit_simps apart_def dest: take_bit_self_bit)

lemma field_not_same: "field lo w (NOT (push_bit lo (mask w)) :: u32) = 0"
  by (rule bit_word_eqI) (auto simp: bit_of_field bit_simps)

lemma field_not_other: "apart lo w lo' w' \<Longrightarrow> lo + w \<le> 32 \<Longrightarrow> field lo w (NOT (push_bit lo' (mask w')) :: u32) = mask w"
  by (rule bit_word_eqI) (auto simp: bit_of_field bit_simps apart_def)

lemma field_and_mask: "field lo w v AND mask w = field lo w (v :: u32)"
  by (simp add: field_def take_bit_eq_mask [symmetric])

lemmas field_simps_ops = field_or field_and field_not_same field_not_other field_and_mask field_push_same field_push_other

lemma field_mask_same: "lo + w \<le> 32 \<Longrightarrow> field lo w (push_bit lo (mask w) :: u32) = mask w"
  by (rule bit_word_eqI) (auto simp: bit_of_field bit_simps)

lemma field_local:
  assumes "u AND b = v AND b" "field lo w b = mask w"
  shows "field lo w u = field lo w (v :: u32)"
proof -
  have "field lo w u AND field lo w b = field lo w v AND field lo w b" using assms(1) by (metis field_and)
  then show ?thesis using assms(2) by (simp add: field_def take_bit_eq_mask [symmetric])
qed

lemma get_bits_field: "fits lo w \<Longrightarrow> get_bits v lo w = Some (field lo w v)"
  by (simp add: get_bits_def fits_def field_def take_bit_eq_mask)

lemma GENMASK_fits: "fits lo w \<Longrightarrow> GENMASK lo w = Some (push_bit lo (mask w))"
  by (simp add: GENMASK_def fits_def)

lemma read_factor_field:
  "fits lo w \<Longrightarrow> read_factor off lo w v = Some (if unat (field lo w v) + off = 0 then 1 else unat (field lo w v) + off)"
  by (simp add: read_factor_def get_bits_field Let_def)

text \<open>A factor that its field can hold.\<close>

definition holds :: "nat \<Rightarrow> nat \<Rightarrow> nat \<Rightarrow> bool" where
  "holds off w n \<longleftrightarrow> off \<le> n \<and> n < off + 2 ^ w \<and> 0 < n"

lemma of_nat_take_bit: "n < 2 ^ w \<Longrightarrow> take_bit w (of_nat n :: u32) = of_nat n"
  by (metis of_nat_take_bit take_bit_nat_eq_self)

lemma factor_bits_holds:
  assumes "holds off w n" "fits lo w"
  shows "factor_bits off lo n = push_bit lo (of_nat (n - off))" "take_bit w (of_nat (n - off) :: u32) = of_nat (n - off)"
    "unat (of_nat (n - off) :: u32) = n - off"
proof -
  have l: "n - off < 2 ^ w" using assms(1) by (auto simp: holds_def)
  then show "take_bit w (of_nat (n - off) :: u32) = of_nat (n - off)" by (rule of_nat_take_bit)
  have "(2 :: nat) ^ w \<le> 2 ^ 32" using assms(2) by (intro power_increasing) (auto simp: fits_def)
  then have "n - off < 2 ^ 32" using l by linarith
  then show "unat (of_nat (n - off) :: u32) = n - off" by (simp add: unat_of_nat take_bit_nat_eq_self)
  show "factor_bits off lo n = push_bit lo (of_nat (n - off))"
    using assms(1) by (simp add: factor_bits_def holds_def of_nat_diff)
qed

lemma read_back:
  assumes "holds off w n" "fits lo w" "field lo w v = of_nat (n - off)"
  shows "read_factor off lo w v = Some n"
  using assms factor_bits_holds(3) [OF assms(1,2)] by (auto simp: read_factor_field holds_def)

section \<open>The clocks meet the contract\<close>

definition mult_ok :: "ccu_mult_internal \<Rightarrow> bool" where
  "mult_ok f \<longleftrightarrow> fits (mu_shift f) (mu_width f) \<and> mu_offset f \<le> mult_lo f \<and>
     (mu_max f = 0 \<longrightarrow> 0 < mu_offset f) \<and> mu_max f < mu_offset f + 2 ^ mu_width f"

definition div_ok :: "ccu_div_internal \<Rightarrow> bool" where
  "div_ok f \<longleftrightarrow> fits (di_shift f) (di_width f) \<and> di_offset f \<le> 1 \<and>
     (di_max f = 0 \<longrightarrow> 0 < di_offset f) \<and> di_max f < di_offset f + 2 ^ di_width f"

lemma mult_ok_holds:
  assumes "mult_ok f"
  obtains h where "mult_hi f = Some h" "\<And>n. n \<in> {mult_lo f..h} \<Longrightarrow> holds (mu_offset f) (mu_width f) n" "h < 2 ^ 31 + mu_offset f"
proof (cases "mu_max f = 0")
  case True
  have "(2 :: nat) ^ mu_width f \<le> 2 ^ 31" using assms by (intro power_increasing) (auto simp: mult_ok_def fits_def)
  then show thesis using True assms
    by (intro that [of "2 ^ mu_width f"]) (auto simp: mult_hi_def int_bit_def mult_ok_def fits_def holds_def mult_lo_def split: if_splits)
next
  case False
  have "(2 :: nat) ^ mu_width f \<le> 2 ^ 31" using assms by (intro power_increasing) (auto simp: mult_ok_def fits_def)
  then show thesis using False assms
    by (intro that [of "mu_max f"]) (auto simp: mult_hi_def mult_ok_def fits_def holds_def mult_lo_def split: if_splits)
qed

lemma div_ok_holds:
  assumes "div_ok f"
  obtains h where "div_hi f = Some h" "\<And>n. n \<in> {1..h} \<Longrightarrow> holds (di_offset f) (di_width f) n" "h \<le> 2 ^ di_width f"
proof (cases "di_max f = 0")
  case True
  then show thesis using assms
    by (intro that [of "2 ^ di_width f"]) (auto simp: div_hi_def int_bit_def div_ok_def fits_def holds_def)
next
  case False
  then show thesis using assms
    by (intro that [of "di_max f"]) (auto simp: div_hi_def div_ok_def fits_def holds_def)
qed

text \<open>
  Several fields of one register: the place and the width of each with its contents. The fields of a clock are
  cleared and filled; each is seen with its contents afterwards, and the other bits are as they were.
\<close>

type_synonym layout = "(nat \<times> nat \<times> u32) list"

definition masks :: "layout \<Rightarrow> u32" where
  "masks L = foldr (\<lambda>(lo, w, x) m. push_bit lo (mask w) OR m) L 0"

definition puts :: "layout \<Rightarrow> u32" where
  "puts L = foldr (\<lambda>(lo, w, x) m. push_bit lo x OR m) L 0"

definition layout_ok :: "layout \<Rightarrow> bool" where
  "layout_ok L \<longleftrightarrow> list_all (\<lambda>(lo, w, x). lo + w \<le> 32 \<and> take_bit w x = x) L \<and>
     sorted_wrt (\<lambda>(lo, w, x) (lo', w', x'). apart lo w lo' w') L"

lemma bit_masks: "bit (masks L) n \<longleftrightarrow> n < 32 \<and> (\<exists>lo w x. (lo, w, x) \<in> set L \<and> lo \<le> n \<and> n < lo + w)"
  by (induction L) (fastforce simp: masks_def bit_simps)+

lemma bit_puts: "bit (puts L) n \<longleftrightarrow> n < 32 \<and> (\<exists>lo w x. (lo, w, x) \<in> set L \<and> lo \<le> n \<and> bit x (n - lo))"
  by (induction L) (fastforce simp: puts_def bit_simps)+

lemma sorted_wrt_apart:
  assumes "sorted_wrt (\<lambda>(lo, w, x :: u32) (lo', w', x' :: u32). apart lo w lo' w') L" "(lo, w, x) \<in> set L" "(lo', w', x') \<in> set L"
  shows "(lo, w, x) = (lo', w', x') \<or> apart lo w lo' w'"
  using assms by (induction L) (auto dest: apart_sym)

lemma layout_fields:
  assumes "layout_ok L" "v' = v AND NOT (masks L) OR puts L"
  shows "(lo, w, x) \<in> set L \<Longrightarrow> field lo w v' = x" "v' AND NOT (masks L) = v AND NOT (masks L)"
proof -
  have fit: "lo + w \<le> 32" "take_bit w x = x" if "(lo, w, x) \<in> set L" for lo w x
    using assms(1) that by (auto simp: layout_ok_def list_all_iff)
  show "v' AND NOT (masks L) = v AND NOT (masks L)"
  proof (rule bit_word_eqI)
    fix n assume "n < LENGTH(32)"
    have "bit (masks L) n" if p: "bit (puts L) n"
    proof -
      obtain lo w x where e: "(lo, w, x) \<in> set L" "lo \<le> n" "bit x (n - lo)" using p by (auto simp: bit_puts)
      then have "n - lo < w" using take_bit_self_bit [OF fit(2) [OF e(1)]] by blast
      then have "n < lo + w" using e(2) by linarith
      then show ?thesis using e(1,2) \<open>n < LENGTH(32)\<close> unfolding bit_masks by auto
    qed
    then show "bit (v' AND NOT (masks L)) n = bit (v AND NOT (masks L)) n"
      using \<open>n < LENGTH(32)\<close> by (auto simp: assms(2) bit_simps)
  qed
  assume L: "(lo, w, x) \<in> set L"
  show "field lo w v' = x"
  proof (rule bit_word_eqI)
    fix n assume n: "n < LENGTH(32)"
    have other: "lo' = lo \<and> w' = w \<and> x' = x" if "(lo', w', x') \<in> set L" "lo' \<le> lo + n" "bit x' (lo + n - lo')" "n < w" for lo' w' x'
      using sorted_wrt_apart [of L lo w x lo' w' x'] assms(1) L that take_bit_self_bit [OF fit(2) [OF that(1)] that(3)]
      by (auto simp: layout_ok_def apart_def)
    show "bit (field lo w v') n = bit x n"
    proof (cases "n < w")
      case True
      then have "lo + n < 32" "lo \<le> lo + n" "lo + n < lo + w" using fit(1) [OF L] by auto
      then have "bit (masks L) (lo + n)" unfolding bit_masks using L by blast
      moreover have "bit (puts L) (lo + n) \<longleftrightarrow> bit x n"
      proof
        assume "bit (puts L) (lo + n)"
        then obtain lo' w' x' where "(lo', w', x') \<in> set L" "lo' \<le> lo + n" "bit x' (lo + n - lo')" unfolding bit_puts by blast
        with other [OF this True] show "bit x n" by simp
      next
        assume "bit x n"
        then have "lo + n < 32" "lo \<le> lo + n" "bit x (lo + n - lo)" using True fit(1) [OF L] by auto
        then show "bit (puts L) (lo + n)" unfolding bit_puts using L by blast
      qed
      ultimately show ?thesis using True fit(1) [OF L] by (auto simp: bit_of_field assms(2) bit_simps)
    next
      case False
      then show ?thesis using fit(2) [OF L] by (auto simp: bit_of_field dest: take_bit_self_bit)
    qed
  qed
qed

lemma masks_local:
  assumes "u AND masks L = v AND masks L" "(lo, w, x) \<in> set L" "lo + w \<le> 32"
  shows "field lo w u = field lo w v"
proof (rule field_local [OF assms(1)])
  have "bit (masks L) (lo + n)" if "n < w" for n
  proof -
    have "lo + n < 32" "lo \<le> lo + n" "lo + n < lo + w" using assms(3) that by auto
    then show ?thesis unfolding bit_masks using assms(2) by blast
  qed
  then show "field lo w (masks L) = mask w" by (intro bit_word_eqI) (auto simp: bit_of_field bit_simps)
qed

definition mult_entry :: "ccu_mult_internal \<Rightarrow> nat \<Rightarrow> nat \<times> nat \<times> u32" where
  "mult_entry f n = (mu_shift f, mu_width f, of_nat (n - mu_offset f))"

definition div_entry :: "ccu_div_internal \<Rightarrow> nat \<Rightarrow> nat \<times> nat \<times> u32" where
  "div_entry f n = (di_shift f, di_width f, of_nat (n - di_offset f))"

text \<open>The places of the fields alone decide which bits are theirs.\<close>

lemma masks_places:
  assumes "map (\<lambda>(lo, w, x). (lo, w)) L = map (\<lambda>(lo, w, x). (lo, w)) L'"
  shows "masks L = masks L'"
proof -
  have "masks M = foldr (\<lambda>(lo, w) m. push_bit lo (mask w) OR m) (map (\<lambda>(lo, w, x). (lo, w)) M) 0" for M
    by (induction M) (auto simp: masks_def)
  then show ?thesis using assms by simp
qed

lemmas ac_bits = and.assoc and.commute and.left_commute or.assoc or.commute or.left_commute


lemma mult_entry_ok:
  "mult_ok f \<Longrightarrow> holds (mu_offset f) (mu_width f) n \<Longrightarrow>
     mu_shift f + mu_width f \<le> 32 \<and> take_bit (mu_width f) (of_nat (n - mu_offset f) :: u32) = of_nat (n - mu_offset f)"
  using factor_bits_holds(2) by (auto simp: mult_ok_def fits_def)

lemma div_entry_ok:
  "div_ok f \<Longrightarrow> holds (di_offset f) (di_width f) n \<Longrightarrow>
     di_shift f + di_width f \<le> 32 \<and> take_bit (di_width f) (of_nat (n - di_offset f) :: u32) = of_nat (n - di_offset f)"
  using factor_bits_holds(2) by (auto simp: div_ok_def fits_def)

lemma entry_places [simp]:
  "(case mult_entry f n of (lo, w, x) \<Rightarrow> (lo, w)) = (mu_shift f, mu_width f)"
  "(case div_entry g n of (lo, w, x) \<Rightarrow> (lo, w)) = (di_shift g, di_width g)"
  by (simp_all add: mult_entry_def div_entry_def)

text \<open>What is read of a factor after the fields were filled, and what it depends on.\<close>

lemma mult_read:
  assumes "mult_ok f" "holds (mu_offset f) (mu_width f) n" "layout_ok L" "v' = v AND NOT (masks L) OR puts L" "mult_entry f n \<in> set L"
  shows "read_factor (mu_offset f) (mu_shift f) (mu_width f) v' = Some n"
proof -
  have "fits (mu_shift f) (mu_width f)" using assms(1) by (simp add: mult_ok_def)
  moreover have "field (mu_shift f) (mu_width f) v' = of_nat (n - mu_offset f)"
    using layout_fields(1) [OF assms(3,4)] assms(5) by (simp add: mult_entry_def)
  ultimately show ?thesis using read_back assms(2) by blast
qed

lemma div_read:
  assumes "div_ok f" "holds (di_offset f) (di_width f) n" "layout_ok L" "v' = v AND NOT (masks L) OR puts L" "div_entry f n \<in> set L"
  shows "read_factor (di_offset f) (di_shift f) (di_width f) v' = Some n"
proof -
  have "fits (di_shift f) (di_width f)" using assms(1) by (simp add: div_ok_def)
  moreover have "field (di_shift f) (di_width f) v' = of_nat (n - di_offset f)"
    using layout_fields(1) [OF assms(3,4)] assms(5) by (simp add: div_entry_def)
  ultimately show ?thesis using read_back assms(2) by blast
qed

lemma read_factor_local:
  assumes "u AND masks L = v AND masks L" "(lo, w, x) \<in> set L" "fits lo w"
  shows "read_factor off lo w u = read_factor off lo w v"
  using masks_local [OF assms(1,2)] assms(3) by (simp add: read_factor_field fits_def)

lemma mult_local:
  "mult_ok f \<Longrightarrow> u AND masks L = v AND masks L \<Longrightarrow> mult_entry f n \<in> set L \<Longrightarrow>
     read_factor (mu_offset f) (mu_shift f) (mu_width f) u = read_factor (mu_offset f) (mu_shift f) (mu_width f) v"
  unfolding mult_entry_def mult_ok_def using read_factor_local by blast

lemma div_local:
  "div_ok f \<Longrightarrow> u AND masks L = v AND masks L \<Longrightarrow> div_entry f n \<in> set L \<Longrightarrow>
     read_factor (di_offset f) (di_shift f) (di_width f) u = read_factor (di_offset f) (di_shift f) (di_width f) v"
  unfolding div_entry_def div_ok_def using read_factor_local by blast

lemma mult_factor_bits:
  assumes "mult_ok f" "holds (mu_offset f) (mu_width f) n"
  shows "factor_bits (mu_offset f) (mu_shift f) n = push_bit (mu_shift f) (of_nat (n - mu_offset f))"
    "GENMASK (mu_shift f) (mu_width f) = Some (push_bit (mu_shift f) (mask (mu_width f)))"
  using assms factor_bits_holds(1) GENMASK_fits by (auto simp: mult_ok_def)

lemma div_factor_bits:
  assumes "div_ok f" "holds (di_offset f) (di_width f) n"
  shows "factor_bits (di_offset f) (di_shift f) n = push_bit (di_shift f) (of_nat (n - di_offset f))"
    "GENMASK (di_shift f) (di_width f) = Some (push_bit (di_shift f) (mask (di_width f)))"
  using assms factor_bits_holds(1) GENMASK_fits by (auto simp: div_ok_def)

abbreviation mult_holds :: "ccu_mult_internal \<Rightarrow> nat \<Rightarrow> bool" where
  "mult_holds f \<equiv> holds (mu_offset f) (mu_width f)"

abbreviation div_holds :: "ccu_div_internal \<Rightarrow> nat \<Rightarrow> bool" where
  "div_holds f \<equiv> holds (di_offset f) (di_width f)"

lemmas layout_defs = layout_ok_def masks_def puts_def mult_entry_def div_entry_def

subsection \<open>N and K\<close>

definition nk_ok :: "ccu_nk \<Rightarrow> bool" where
  "nk_ok c \<longleftrightarrow> mult_ok (nk_n c) \<and> mult_ok (nk_k c) \<and>
     apart (mu_shift (nk_n c)) (mu_width (nk_n c)) (mu_shift (nk_k c)) (mu_width (nk_k c))"

definition nk_layout :: "ccu_nk \<Rightarrow> nat \<times> nat \<Rightarrow> layout" where
  "nk_layout c = (\<lambda>(n, k). [mult_entry (nk_n c) n, mult_entry (nk_k c) k])"

definition nk_bits :: "ccu_nk \<Rightarrow> u32" where
  "nk_bits c = masks (nk_layout c (0, 0))"

lemma nk_places: "masks (nk_layout c f) = nk_bits c"
  unfolding nk_bits_def by (rule masks_places) (simp add: nk_layout_def split: prod.split)

lemma nk_cands_hold:
  assumes "nk_ok c"
  obtains fs where "nk_cands c = Some fs" "\<And>n k. (n, k) \<in> set fs \<Longrightarrow> mult_holds (nk_n c) n \<and> mult_holds (nk_k c) k"
proof -
  have ok: "mult_ok (nk_n c)" "mult_ok (nk_k c)" using assms(1) by (auto simp: nk_ok_def)
  obtain hn where hn: "mult_hi (nk_n c) = Some hn" "\<And>n. n \<in> {mult_lo (nk_n c)..hn} \<Longrightarrow> mult_holds (nk_n c) n"
    using mult_ok_holds [OF ok(1)] by metis
  obtain hk where hk: "mult_hi (nk_k c) = Some hk" "\<And>n. n \<in> {mult_lo (nk_k c)..hk} \<Longrightarrow> mult_holds (nk_k c) n"
    using mult_ok_holds [OF ok(2)] by metis
  show thesis by (rule that) (auto simp: nk_cands_def hn(1) hk(1) hn(2) hk(2))
qed

lemma nk_write_read:
  assumes "nk_ok c" "mult_holds (nk_n c) n" "mult_holds (nk_k c) k"
  shows "\<exists>v'. nk_write c (n, k) v = Some v' \<and> nk_read c v' = Some (n, k) \<and> v' AND NOT (nk_bits c) = v AND NOT (nk_bits c)"
proof -
  let ?L = "nk_layout c (n, k)"
  define v' where "v' = v AND NOT (masks ?L) OR puts ?L"
  have ok: "mult_ok (nk_n c)" "mult_ok (nk_k c)" using assms(1) by (auto simp: nk_ok_def)
  have L: "layout_ok ?L"
    using assms mult_entry_ok [OF ok(1) assms(2)] mult_entry_ok [OF ok(2) assms(3)] by (simp add: layout_defs nk_layout_def nk_ok_def)
  have "nk_read c v' = Some (n, k)"
    using mult_read [OF ok(1) assms(2) L v'_def] mult_read [OF ok(2) assms(3) L v'_def] by (simp add: nk_read_def nk_layout_def)
  moreover have "nk_write c (n, k) v = Some v'"
    unfolding nk_write_def v'_def
    by (simp add: mult_factor_bits [OF ok(1) assms(2)] mult_factor_bits [OF ok(2) assms(3)] nk_layout_def layout_defs ac_bits)
  ultimately show ?thesis using layout_fields(2) [OF L v'_def] nk_places by simp
qed

interpretation nk: factor_clock nk_rate nk_cands "(0, 0)" nk_read nk_write nk_bits nk_ok
proof
  fix c :: ccu_nk and fs f parent and u v :: u32
  assume ok: "nk_ok c"
  obtain cs where cs: "nk_cands c = Some cs" "\<And>n k. (n, k) \<in> set cs \<Longrightarrow> mult_holds (nk_n c) n \<and> mult_holds (nk_k c) k"
    using nk_cands_hold [OF ok] by metis
  show "\<exists>fs. nk_cands c = Some fs" using cs(1) by blast
  show "nk_rate parent f \<noteq> None" by (simp add: nk_rate_def split: prod.split)
  show "\<exists>v'. nk_write c f v = Some v' \<and> nk_read c v' = Some f \<and> v' AND NOT (nk_bits c) = v AND NOT (nk_bits c)"
    if "nk_cands c = Some fs" "f \<in> set fs"
    using nk_write_read [OF ok] cs that by (cases f) auto
  show "nk_read c u = nk_read c v" if eq: "u AND nk_bits c = v AND nk_bits c"
    using mult_local [OF _ eq [unfolded nk_bits_def], where n = 0] ok
    by (simp add: nk_read_def nk_layout_def nk_ok_def)
qed

subsection \<open>N and M\<close>

definition nm_ok :: "ccu_nm \<Rightarrow> bool" where
  "nm_ok c \<longleftrightarrow> mult_ok (nm_n c) \<and> div_ok (nm_m c) \<and>
     apart (mu_shift (nm_n c)) (mu_width (nm_n c)) (di_shift (nm_m c)) (di_width (nm_m c))"

definition nm_layout :: "ccu_nm \<Rightarrow> nat \<times> nat \<Rightarrow> layout" where
  "nm_layout c = (\<lambda>(n, m). [mult_entry (nm_n c) n, div_entry (nm_m c) m])"

definition nm_bits :: "ccu_nm \<Rightarrow> u32" where
  "nm_bits c = masks (nm_layout c (0, 0))"

lemma nm_places: "masks (nm_layout c f) = nm_bits c"
  unfolding nm_bits_def by (rule masks_places) (simp add: nm_layout_def split: prod.split)

text \<open>A divisor that fits its field survives the cut to 32 bits.\<close>

lemma div_nonzero:
  assumes "div_ok f" "div_holds f m"
  shows "(of_nat m :: u32) \<noteq> 0" "unat (of_nat m :: u32) = m"
proof -
  have "(2 :: nat) ^ di_width f \<le> 2 ^ 31" using assms(1) by (intro power_increasing) (auto simp: div_ok_def fits_def)
  then have "m < 2 ^ 32" "0 < m" using assms by (auto simp: holds_def div_ok_def)
  then show "unat (of_nat m :: u32) = m" by (simp add: unat_of_nat take_bit_nat_eq_self)
  with \<open>0 < m\<close> show "(of_nat m :: u32) \<noteq> 0" by (metis less_irrefl unat_0)
qed

lemma nm_cands_hold:
  assumes "nm_ok c"
  obtains fs where "nm_cands c = Some fs" "\<And>n m. (n, m) \<in> set fs \<Longrightarrow> mult_holds (nm_n c) n \<and> div_holds (nm_m c) m"
proof -
  have ok: "mult_ok (nm_n c)" "div_ok (nm_m c)" using assms(1) by (auto simp: nm_ok_def)
  obtain hn where hn: "mult_hi (nm_n c) = Some hn" "\<And>n. n \<in> {mult_lo (nm_n c)..hn} \<Longrightarrow> mult_holds (nm_n c) n"
    using mult_ok_holds [OF ok(1)] by metis
  obtain hm where hm: "div_hi (nm_m c) = Some hm" "\<And>n. n \<in> {1..hm} \<Longrightarrow> div_holds (nm_m c) n"
    using div_ok_holds [OF ok(2)] by metis
  show thesis by (rule that) (auto simp: nm_cands_def hn(1) hm(1) hn(2) hm(2))
qed

lemma nm_write_read:
  assumes "nm_ok c" "mult_holds (nm_n c) n" "div_holds (nm_m c) m"
  shows "\<exists>v'. nm_write c (n, m) v = Some v' \<and> nm_read c v' = Some (n, m) \<and> v' AND NOT (nm_bits c) = v AND NOT (nm_bits c)"
proof -
  let ?L = "nm_layout c (n, m)"
  define v' where "v' = v AND NOT (masks ?L) OR puts ?L"
  have ok: "mult_ok (nm_n c)" "div_ok (nm_m c)" using assms(1) by (auto simp: nm_ok_def)
  have L: "layout_ok ?L"
    using assms mult_entry_ok [OF ok(1) assms(2)] div_entry_ok [OF ok(2) assms(3)] by (simp add: layout_defs nm_layout_def nm_ok_def)
  have "nm_read c v' = Some (n, m)"
    using mult_read [OF ok(1) assms(2) L v'_def] div_read [OF ok(2) assms(3) L v'_def] by (simp add: nm_read_def nm_layout_def)
  moreover have "nm_write c (n, m) v = Some v'"
    unfolding nm_write_def v'_def
    by (simp add: mult_factor_bits [OF ok(1) assms(2)] div_factor_bits [OF ok(2) assms(3)] nm_layout_def layout_defs ac_bits)
  ultimately show ?thesis using layout_fields(2) [OF L v'_def] nm_places by simp
qed

interpretation nm: factor_clock ccu_nm_calc_rate nm_cands "(0, 0)" nm_read nm_write nm_bits nm_ok
proof
  fix c :: ccu_nm and fs f parent and u v :: u32
  assume ok: "nm_ok c"
  obtain cs where cs: "nm_cands c = Some cs" "\<And>n m. (n, m) \<in> set cs \<Longrightarrow> mult_holds (nm_n c) n \<and> div_holds (nm_m c) m"
    using nm_cands_hold [OF ok] by metis
  have dok: "div_ok (nm_m c)" using ok by (simp add: nm_ok_def)
  show "\<exists>fs. nm_cands c = Some fs" using cs(1) by blast
  show "ccu_nm_calc_rate parent f \<noteq> None" if "nm_cands c = Some fs" "f \<in> set fs"
    using cs that div_nonzero(1) [OF dok] by (cases f) (auto simp: ccu_nm_calc_rate_def do_div_def)
  show "\<exists>v'. nm_write c f v = Some v' \<and> nm_read c v' = Some f \<and> v' AND NOT (nm_bits c) = v AND NOT (nm_bits c)"
    if "nm_cands c = Some fs" "f \<in> set fs"
    using nm_write_read [OF ok] cs that by (cases f) auto
  show "nm_read c u = nm_read c v" if eq: "u AND nm_bits c = v AND nm_bits c"
    using mult_local [OF _ eq [unfolded nm_bits_def], where n = 0] div_local [OF _ eq [unfolded nm_bits_def], where n = 0] ok
    by (simp add: nm_read_def nm_layout_def nm_ok_def)
qed

subsection \<open>N, K and M\<close>

definition nkm_ok :: "ccu_nkm \<Rightarrow> bool" where
  "nkm_ok c \<longleftrightarrow> mult_ok (nkm_n c) \<and> mult_ok (nkm_k c) \<and> div_ok (nkm_m c) \<and>
     apart (mu_shift (nkm_n c)) (mu_width (nkm_n c)) (mu_shift (nkm_k c)) (mu_width (nkm_k c)) \<and>
     apart (mu_shift (nkm_n c)) (mu_width (nkm_n c)) (di_shift (nkm_m c)) (di_width (nkm_m c)) \<and>
     apart (mu_shift (nkm_k c)) (mu_width (nkm_k c)) (di_shift (nkm_m c)) (di_width (nkm_m c))"

definition nkm_layout :: "ccu_nkm \<Rightarrow> nat \<times> nat \<times> nat \<Rightarrow> layout" where
  "nkm_layout c = (\<lambda>(n, k, m). [mult_entry (nkm_n c) n, mult_entry (nkm_k c) k, div_entry (nkm_m c) m])"

definition nkm_bits :: "ccu_nkm \<Rightarrow> u32" where
  "nkm_bits c = masks (nkm_layout c (0, 0, 0))"

lemma nkm_places: "masks (nkm_layout c f) = nkm_bits c"
  unfolding nkm_bits_def by (rule masks_places) (simp add: nkm_layout_def split: prod.split)

lemma nkm_cands_hold:
  assumes "nkm_ok c"
  obtains fs where "nkm_cands c = Some fs"
    "\<And>n k m. (n, k, m) \<in> set fs \<Longrightarrow> mult_holds (nkm_n c) n \<and> mult_holds (nkm_k c) k \<and> div_holds (nkm_m c) m"
proof -
  have ok: "mult_ok (nkm_n c)" "mult_ok (nkm_k c)" "div_ok (nkm_m c)" using assms(1) by (auto simp: nkm_ok_def)
  obtain hn where hn: "mult_hi (nkm_n c) = Some hn" "\<And>n. n \<in> {mult_lo (nkm_n c)..hn} \<Longrightarrow> mult_holds (nkm_n c) n"
    using mult_ok_holds [OF ok(1)] by metis
  obtain hk where hk: "mult_hi (nkm_k c) = Some hk" "\<And>n. n \<in> {mult_lo (nkm_k c)..hk} \<Longrightarrow> mult_holds (nkm_k c) n"
    using mult_ok_holds [OF ok(2)] by metis
  obtain hm where hm: "div_hi (nkm_m c) = Some hm" "\<And>n. n \<in> {1..hm} \<Longrightarrow> div_holds (nkm_m c) n"
    using div_ok_holds [OF ok(3)] by metis
  show thesis by (rule that) (auto simp: nkm_cands_def hn(1) hk(1) hm(1) hn(2) hk(2) hm(2))
qed

lemma nkm_write_read:
  assumes "nkm_ok c" "mult_holds (nkm_n c) n" "mult_holds (nkm_k c) k" "div_holds (nkm_m c) m"
  shows "\<exists>v'. nkm_write c (n, k, m) v = Some v' \<and> nkm_read c v' = Some (n, k, m) \<and> v' AND NOT (nkm_bits c) = v AND NOT (nkm_bits c)"
proof -
  let ?L = "nkm_layout c (n, k, m)"
  define v' where "v' = v AND NOT (masks ?L) OR puts ?L"
  have ok: "mult_ok (nkm_n c)" "mult_ok (nkm_k c)" "div_ok (nkm_m c)" using assms(1) by (auto simp: nkm_ok_def)
  have L: "layout_ok ?L"
    using assms mult_entry_ok [OF ok(1) assms(2)] mult_entry_ok [OF ok(2) assms(3)] div_entry_ok [OF ok(3) assms(4)]
    by (simp add: layout_defs nkm_layout_def nkm_ok_def)
  have "nkm_read c v' = Some (n, k, m)"
    using mult_read [OF ok(1) assms(2) L v'_def] mult_read [OF ok(2) assms(3) L v'_def] div_read [OF ok(3) assms(4) L v'_def]
    by (simp add: nkm_read_def nkm_layout_def)
  moreover have "nkm_write c (n, k, m) v = Some v'"
    unfolding nkm_write_def v'_def
    by (simp add: mult_factor_bits [OF ok(1) assms(2)] mult_factor_bits [OF ok(2) assms(3)] div_factor_bits [OF ok(3) assms(4)]
        nkm_layout_def layout_defs ac_bits)
  ultimately show ?thesis using layout_fields(2) [OF L v'_def] nkm_places by simp
qed

interpretation nkm: factor_clock nkm_rate nkm_cands "(0, 0, 0)" nkm_read nkm_write nkm_bits nkm_ok
proof
  fix c :: ccu_nkm and fs f parent and u v :: u32
  assume ok: "nkm_ok c"
  obtain cs where cs: "nkm_cands c = Some cs"
      "\<And>n k m. (n, k, m) \<in> set cs \<Longrightarrow> mult_holds (nkm_n c) n \<and> mult_holds (nkm_k c) k \<and> div_holds (nkm_m c) m"
    using nkm_cands_hold [OF ok] by metis
  have dok: "div_ok (nkm_m c)" using ok by (simp add: nkm_ok_def)
  show "\<exists>fs. nkm_cands c = Some fs" using cs(1) by blast
  show "nkm_rate parent f \<noteq> None" if "nkm_cands c = Some fs" "f \<in> set fs"
    using cs that div_nonzero(1) [OF dok] by (cases f) (auto simp: nkm_rate_def do_div_def)
  show "\<exists>v'. nkm_write c f v = Some v' \<and> nkm_read c v' = Some f \<and> v' AND NOT (nkm_bits c) = v AND NOT (nkm_bits c)"
    if "nkm_cands c = Some fs" "f \<in> set fs"
    using nkm_write_read [OF ok] cs that by (cases f) auto
  show "nkm_read c u = nkm_read c v" if eq: "u AND nkm_bits c = v AND nkm_bits c"
    using mult_local [OF _ eq [unfolded nkm_bits_def], where n = 0] div_local [OF _ eq [unfolded nkm_bits_def], where n = 0] ok
    by (simp add: nkm_read_def nkm_layout_def nkm_ok_def)
qed

subsection \<open>N, K, M and P\<close>

text \<open>
  The clocks of this chip have no factor K: its field is empty, and its only value is one. The factor P is a power of
  two, of which the register has the exponent.
\<close>

definition k_ok :: "ccu_mult_internal \<Rightarrow> bool" where
  "k_ok f \<longleftrightarrow> mult_ok f \<or> mu_width f = 0 \<and> mu_shift f < 32 \<and> mu_offset f = 0 \<and> mu_min f \<le> 1 \<and> mu_max f \<le> 1"

definition k_holds :: "ccu_mult_internal \<Rightarrow> nat \<Rightarrow> bool" where
  "k_holds f k \<longleftrightarrow> (if mu_width f = 0 then k = 1 else mult_holds f k)"

definition pow_ok :: "ccu_div_internal \<Rightarrow> bool" where
  "pow_ok f \<longleftrightarrow> di_shift f < 32 \<and> di_shift f + di_width f \<le> 32 \<and> di_width f \<le> 4 \<and> di_max f < 2 ^ 2 ^ di_width f"

definition nkmp_ok :: "ccu_nkmp \<Rightarrow> bool" where
  "nkmp_ok c \<longleftrightarrow> mult_ok (nkmp_n c) \<and> k_ok (nkmp_k c) \<and> div_ok (nkmp_m c) \<and> pow_ok (nkmp_p c) \<and>
     di_width (nkmp_m c) + 2 ^ di_width (nkmp_p c) \<le> 32 \<and>
     apart (mu_shift (nkmp_n c)) (mu_width (nkmp_n c)) (mu_shift (nkmp_k c)) (mu_width (nkmp_k c)) \<and>
     apart (mu_shift (nkmp_n c)) (mu_width (nkmp_n c)) (di_shift (nkmp_m c)) (di_width (nkmp_m c)) \<and>
     apart (mu_shift (nkmp_n c)) (mu_width (nkmp_n c)) (di_shift (nkmp_p c)) (di_width (nkmp_p c)) \<and>
     apart (mu_shift (nkmp_k c)) (mu_width (nkmp_k c)) (di_shift (nkmp_m c)) (di_width (nkmp_m c)) \<and>
     apart (mu_shift (nkmp_k c)) (mu_width (nkmp_k c)) (di_shift (nkmp_p c)) (di_width (nkmp_p c)) \<and>
     apart (di_shift (nkmp_m c)) (di_width (nkmp_m c)) (di_shift (nkmp_p c)) (di_width (nkmp_p c))"

definition pow_entry :: "ccu_div_internal \<Rightarrow> nat \<Rightarrow> nat \<times> nat \<times> u32" where
  "pow_entry f e = (di_shift f, di_width f, of_nat e)"

definition k_entry :: "ccu_mult_internal \<Rightarrow> nat \<Rightarrow> nat \<times> nat \<times> u32" where
  "k_entry f k = (mu_shift f, mu_width f, if mu_width f = 0 then 0 else of_nat (k - mu_offset f))"

definition nkmp_layout :: "ccu_nkmp \<Rightarrow> nat \<times> nat \<times> nat \<times> nat \<Rightarrow> layout" where
  "nkmp_layout c = (\<lambda>(n, k, m, e). [mult_entry (nkmp_n c) n, k_entry (nkmp_k c) k, div_entry (nkmp_m c) m, pow_entry (nkmp_p c) e])"

definition nkmp_bits :: "ccu_nkmp \<Rightarrow> u32" where
  "nkmp_bits c = masks (nkmp_layout c (0, 0, 0, 0))"

lemma nkmp_places: "masks (nkmp_layout c f) = nkmp_bits c"
  unfolding nkmp_bits_def
  by (rule masks_places) (simp add: nkmp_layout_def pow_entry_def k_entry_def split: prod.split)

lemma k_ok_holds:
  assumes "k_ok f"
  obtains h where "mult_hi f = Some h" "\<And>n. n \<in> {mult_lo f..h} \<Longrightarrow> k_holds f n"
proof (cases "mult_ok f")
  case True
  then have "mu_width f \<noteq> 0" by (simp add: mult_ok_def fits_def)
  then show thesis using mult_ok_holds [OF True] that by (metis k_holds_def)
next
  case False
  then show thesis using assms
    by (intro that [of 1]) (auto simp: k_ok_def mult_hi_def int_bit_def k_holds_def mult_lo_def split: if_splits)
qed

lemma ilog2_power: "ilog2 (2 ^ e) = Some e"
  by (induction e) (simp_all add: ilog2.simps [of "2 ^ Suc _"])

declare ilog2.simps [simp del]

lemma pow_hi_bound:
  assumes "pow_ok f"
  obtains h where "pow_hi f = Some h" "h < 2 ^ 2 ^ di_width f" "2 ^ di_width f \<le> (16 :: nat)"
proof -
  have w: "(2 :: nat) ^ di_width f \<le> 2 ^ 4" using assms by (intro power_increasing) (auto simp: pow_ok_def)
  show thesis
  proof (cases "di_max f = 0")
    case True
    have "(2 :: nat) ^ (2 ^ di_width f - 1) < 2 ^ 2 ^ di_width f" by (intro power_strict_increasing) auto
    then show thesis using True assms w by (intro that [of "2 ^ (2 ^ di_width f - 1)"]) (auto simp: pow_hi_def int_bit_def pow_ok_def)
  next
    case False
    then show thesis using assms w by (intro that [of "di_max f"]) (auto simp: pow_hi_def pow_ok_def)
  qed
qed

lemma pow_ok_holds:
  assumes "pow_ok f" "32 \<le> b"
  obtains h ps where "pow_hi f = Some h" "pows b h = Some ps" "\<And>p. p \<in> set ps \<Longrightarrow> \<exists>e. p = 2 ^ e \<and> e < 2 ^ di_width f"
proof -
  obtain h where h: "pow_hi f = Some h" "h < 2 ^ 2 ^ di_width f" "2 ^ di_width f \<le> (16 :: nat)" using pow_hi_bound [OF assms(1)] .
  have "(2 :: nat) ^ 2 ^ di_width f \<le> 2 ^ (b - 1)" using h(3) assms(2) by (intro power_increasing) auto
  then have b: "h < 2 ^ (b - 1)" using h(2) by linarith
  have "\<exists>e. p = 2 ^ e \<and> e < 2 ^ di_width f" if p: "p \<in> set (takeWhile (\<lambda>p. p \<le> h) (map (\<lambda>i. 2 ^ i) [0..<b]))" for p
  proof -
    obtain e where e: "p = 2 ^ e" "p \<le> h" using set_takeWhileD [OF p] by auto
    then have "(2 :: nat) ^ e < 2 ^ 2 ^ di_width f" using h(2) by (metis le_less_trans)
    then show ?thesis using e(1) by auto
  qed
  then show thesis using that h(1) b by (simp add: pows_def)
qed

lemma k_read:
  assumes "k_ok f" "k_holds f k" "layout_ok L" "v' = v AND NOT (masks L) OR puts L" "k_entry f k \<in> set L"
  shows "read_factor (mu_offset f) (mu_shift f) (mu_width f) v' = Some k"
proof (cases "mu_width f = 0")
  case True
  then have "mu_offset f = 0" "mu_shift f < 32" using assms(1) by (auto simp: k_ok_def mult_ok_def fits_def)
  then show ?thesis using True assms(2) by (simp add: read_factor_def get_bits_def k_holds_def)
next
  case False
  then show ?thesis using mult_read [OF _ _ assms(3,4), of f k] assms(1,2,5) by (simp add: k_ok_def k_holds_def k_entry_def mult_entry_def)
qed

lemma k_local:
  "k_ok f \<Longrightarrow> u AND masks L = v AND masks L \<Longrightarrow> k_entry f k \<in> set L \<Longrightarrow>
     read_factor (mu_offset f) (mu_shift f) (mu_width f) u = read_factor (mu_offset f) (mu_shift f) (mu_width f) v"
  using mult_local [of f u L v k]
  by (cases "mu_width f = 0") (auto simp: k_ok_def k_entry_def mult_entry_def mult_ok_def fits_def read_factor_def get_bits_def)

lemma field_mask_eq: "lo < 32 \<Longrightarrow> lo + w \<le> 32 \<Longrightarrow> field_mask lo w = Some (push_bit lo (mask w))"
  by (simp add: field_mask_def GENMASK_def)

lemma take_push: "take_bit w (x :: u32) = x \<Longrightarrow> push_bit lo x AND push_bit lo (mask w) = push_bit lo x"
  by (metis push_bit_and take_bit_eq_mask)

lemma k_bits:
  assumes "k_ok f" "k_holds f k"
  shows "factor_bits (mu_offset f) (mu_shift f) k AND push_bit (mu_shift f) (mask (mu_width f)) =
      push_bit (mu_shift f) (if mu_width f = 0 then 0 else of_nat (k - mu_offset f))"
    "mu_shift f < 32" "mu_shift f + mu_width f \<le> 32"
    "take_bit (mu_width f) (if mu_width f = 0 then 0 else of_nat (k - mu_offset f) :: u32) = (if mu_width f = 0 then 0 else of_nat (k - mu_offset f))"
proof -
  have f: "mult_ok f" "mult_holds f k" if "mu_width f \<noteq> 0" using that assms by (auto simp: k_ok_def k_holds_def)
  show "take_bit (mu_width f) (if mu_width f = 0 then 0 else of_nat (k - mu_offset f) :: u32) = (if mu_width f = 0 then 0 else of_nat (k - mu_offset f))"
    using mult_entry_ok f by auto
  show "mu_shift f < 32" "mu_shift f + mu_width f \<le> 32" using assms(1) by (auto simp: k_ok_def mult_ok_def fits_def)
  show "factor_bits (mu_offset f) (mu_shift f) k AND push_bit (mu_shift f) (mask (mu_width f)) =
      push_bit (mu_shift f) (if mu_width f = 0 then 0 else of_nat (k - mu_offset f))"
    using mult_factor_bits(1) [OF f] mult_entry_ok [OF f] take_push by auto
qed

lemma pow_bits:
  assumes "pow_ok f" "e < 2 ^ di_width f"
  shows "take_bit (di_width f) (of_nat e :: u32) = of_nat e" "unat (of_nat e :: u32) = e" "e < 16"
proof -
  show "take_bit (di_width f) (of_nat e :: u32) = of_nat e" using assms(2) by (rule of_nat_take_bit)
  have "(2 :: nat) ^ di_width f \<le> 2 ^ 4" using assms(1) by (intro power_increasing) (auto simp: pow_ok_def)
  then show "e < 16" using assms(2) by simp
  then show "unat (of_nat e :: u32) = e" by (simp add: unat_of_nat take_bit_nat_eq_self)
qed

lemma nkmp_cands_hold:
  assumes "nkmp_ok c"
  obtains fs where "nkmp_cands c = Some fs"
    "\<And>n k m p. (n, k, m, p) \<in> set fs \<Longrightarrow> mult_holds (nkmp_n c) n \<and> k_holds (nkmp_k c) k \<and> div_holds (nkmp_m c) m \<and>
       (\<exists>e. p = 2 ^ e \<and> e < 2 ^ di_width (nkmp_p c))"
proof -
  have ok: "mult_ok (nkmp_n c)" "k_ok (nkmp_k c)" "div_ok (nkmp_m c)" "pow_ok (nkmp_p c)" using assms(1) by (auto simp: nkmp_ok_def)
  obtain hn where hn: "mult_hi (nkmp_n c) = Some hn" "\<And>n. n \<in> {mult_lo (nkmp_n c)..hn} \<Longrightarrow> mult_holds (nkmp_n c) n"
    using mult_ok_holds [OF ok(1)] by metis
  obtain hk where hk: "mult_hi (nkmp_k c) = Some hk" "\<And>n. n \<in> {mult_lo (nkmp_k c)..hk} \<Longrightarrow> k_holds (nkmp_k c) n"
    using k_ok_holds [OF ok(2)] by metis
  obtain hm where hm: "div_hi (nkmp_m c) = Some hm" "\<And>n. n \<in> {1..hm} \<Longrightarrow> div_holds (nkmp_m c) n"
    using div_ok_holds [OF ok(3)] by metis
  obtain hp ps where hp: "pow_hi (nkmp_p c) = Some hp" "pows 64 hp = Some ps"
      "\<And>p. p \<in> set ps \<Longrightarrow> \<exists>e. p = 2 ^ e \<and> e < 2 ^ di_width (nkmp_p c)"
    using pow_ok_holds [OF ok(4), of 64] by auto
  show thesis by (rule that) (auto simp: nkmp_cands_def hn(1) hk(1) hm(1) hp(1,2) hn(2) hk(2) hm(2) hp(3))
qed

lemma unat_small: "n < 2 ^ 32 \<Longrightarrow> unat (of_nat n :: u32) = n"
  by (simp add: unat_of_nat take_bit_nat_eq_self)

lemma nkmp_divisor:
  assumes "nkmp_ok c" "div_holds (nkmp_m c) m" "e < 2 ^ di_width (nkmp_p c)"
  shows "(of_nat m * of_nat (2 ^ e) :: u32) \<noteq> 0"
proof -
  have m: "m \<le> 2 ^ di_width (nkmp_m c)" "0 < m" using assms(1,2) by (auto simp: holds_def nkmp_ok_def div_ok_def)
  have "m * 2 ^ e \<le> 2 ^ (di_width (nkmp_m c) + e)" using m(1) by (simp add: power_add)
  also have "\<dots> \<le> 2 ^ 31" using assms(1,3) by (intro power_increasing) (auto simp: nkmp_ok_def)
  finally have "m * 2 ^ e < 2 ^ 32" by simp
  then have "unat (of_nat (m * 2 ^ e) :: u32) = m * 2 ^ e" by (rule unat_small)
  moreover have "m * 2 ^ e \<noteq> 0" using m(2) by simp
  ultimately have "(of_nat (m * 2 ^ e) :: u32) \<noteq> 0" by (metis unat_0)
  then show ?thesis by simp
qed

lemma nkmp_write_read:
  assumes "nkmp_ok c" "mult_holds (nkmp_n c) n" "k_holds (nkmp_k c) k" "div_holds (nkmp_m c) m" "e < 2 ^ di_width (nkmp_p c)"
  shows "\<exists>v'. nkmp_write c (n, k, m, 2 ^ e) v = Some v' \<and> nkmp_read c v' = Some (n, k, m, 2 ^ e) \<and>
    v' AND NOT (nkmp_bits c) = v AND NOT (nkmp_bits c)"
proof -
  let ?L = "nkmp_layout c (n, k, m, e)"
  define v' where "v' = v AND NOT (masks ?L) OR puts ?L"
  have ok: "mult_ok (nkmp_n c)" "k_ok (nkmp_k c)" "div_ok (nkmp_m c)" "pow_ok (nkmp_p c)" using assms(1) by (auto simp: nkmp_ok_def)
  note k = k_bits [OF ok(2) assms(3)] and p = pow_bits [OF ok(4) assms(5)]
  note n = mult_entry_ok [OF ok(1) assms(2)] and m = div_entry_ok [OF ok(3) assms(4)]
  have lo: "di_shift (nkmp_p c) < 32" "di_shift (nkmp_p c) + di_width (nkmp_p c) \<le> 32" "di_width (nkmp_p c) < 31"
    using ok(4) by (auto simp: pow_ok_def)
  have lo': "mu_shift (nkmp_n c) < 32" "di_shift (nkmp_m c) < 32" using ok(1,3) by (auto simp: mult_ok_def div_ok_def fits_def)
  have L: "layout_ok ?L"
    using assms(1) n m k(3,4) p(1) lo by (simp add: layout_ok_def nkmp_layout_def mult_entry_def div_entry_def pow_entry_def k_entry_def nkmp_ok_def)
  have "field (di_shift (nkmp_p c)) (di_width (nkmp_p c)) v' = of_nat e"
    using layout_fields(1) [OF L v'_def] by (simp add: nkmp_layout_def pow_entry_def)
  then have "get_bits v' (di_shift (nkmp_p c)) (di_width (nkmp_p c)) = Some (of_nat e)"
    using lo by (simp add: get_bits_def field_def take_bit_eq_mask)
  then have "nkmp_read c v' = Some (n, k, m, 2 ^ e)"
    using mult_read [OF ok(1) assms(2) L v'_def] k_read [OF ok(2) assms(3) L v'_def] div_read [OF ok(3) assms(4) L v'_def] p
    by (simp add: nkmp_read_def nkmp_layout_def int_bit_def)
  moreover have "nkmp_write c (n, k, m, 2 ^ e) v = Some v'"
    unfolding nkmp_write_def v'_def
    using n m k p lo lo'
    by (simp add: field_mask_eq mult_factor_bits(1) [OF ok(1) assms(2)] div_factor_bits(1) [OF ok(3) assms(4)] ilog2_power take_push
        nkmp_layout_def masks_def puts_def mult_entry_def div_entry_def pow_entry_def k_entry_def or.assoc)
  ultimately show ?thesis using layout_fields(2) [OF L v'_def] nkmp_places by simp
qed

interpretation nkmp: factor_clock ccu_nkmp_calc_rate nkmp_cands "(0, 0, 0, 0)" nkmp_read nkmp_write nkmp_bits nkmp_ok
proof
  fix c :: ccu_nkmp and fs f parent and u v :: u32
  assume ok: "nkmp_ok c"
  obtain cs where cs: "nkmp_cands c = Some cs"
      "\<And>n k m p. (n, k, m, p) \<in> set cs \<Longrightarrow> mult_holds (nkmp_n c) n \<and> k_holds (nkmp_k c) k \<and> div_holds (nkmp_m c) m \<and>
         (\<exists>e. p = 2 ^ e \<and> e < 2 ^ di_width (nkmp_p c))"
    using nkmp_cands_hold [OF ok] by metis
  show "\<exists>fs. nkmp_cands c = Some fs" using cs(1) by blast
  have in_cs: "\<exists>n k m e. f = (n, k, m, 2 ^ e) \<and> mult_holds (nkmp_n c) n \<and> k_holds (nkmp_k c) k \<and> div_holds (nkmp_m c) m \<and>
      e < 2 ^ di_width (nkmp_p c)" if "nkmp_cands c = Some fs" "f \<in> set fs"
    using cs that by (cases f) fastforce
  show "ccu_nkmp_calc_rate parent f \<noteq> None" if "nkmp_cands c = Some fs" "f \<in> set fs"
    using in_cs [OF that] nkmp_divisor [OF ok] by (auto simp: ccu_nkmp_calc_rate_def do_div_def)
  show "\<exists>v'. nkmp_write c f v = Some v' \<and> nkmp_read c v' = Some f \<and> v' AND NOT (nkmp_bits c) = v AND NOT (nkmp_bits c)"
    if "nkmp_cands c = Some fs" "f \<in> set fs"
    using in_cs [OF that] nkmp_write_read [OF ok] by auto
  show "nkmp_read c u = nkmp_read c v" if eq: "u AND nkmp_bits c = v AND nkmp_bits c"
  proof -
    note eq = eq [unfolded nkmp_bits_def]
    have "get_bits u (di_shift (nkmp_p c)) (di_width (nkmp_p c)) = get_bits v (di_shift (nkmp_p c)) (di_width (nkmp_p c))"
      using masks_local [OF eq, of "di_shift (nkmp_p c)" "di_width (nkmp_p c)" 0] ok
      by (simp add: nkmp_layout_def pow_entry_def nkmp_ok_def pow_ok_def get_bits_def field_def take_bit_eq_mask)
    then show ?thesis
      using mult_local [OF _ eq, where n = 0] k_local [OF _ eq, where k = 0] div_local [OF _ eq, where n = 0] ok
      by (simp add: nkmp_read_def nkmp_layout_def nkmp_ok_def)
  qed
qed

subsection \<open>M and P\<close>

text \<open>The clocks of the peripherals, with P as a power of two (the index mode) and pre-dividers that do not depend on the register.\<close>

definition mp_ok :: "ccu_mp \<Rightarrow> bool" where
  "mp_ok c \<longleftrightarrow> div_ok (mp_m c) \<and> pow_ok (mp_p c) \<and> 0 < di_width (mp_p c) \<and> \<not> has (mp_common c) CCU_FEATURE_MP_NO_INDEX_MODE \<and>
     apart (di_shift (mp_m c)) (di_width (mp_m c)) (di_shift (mp_p c)) (di_width (mp_p c))"

definition mp_cands :: "ccu_mp \<Rightarrow> (nat \<times> nat) list option" where
  "mp_cands c = do { hm \<leftarrow> div_hi (mp_m c); hp \<leftarrow> pow_hi (mp_p c); ps \<leftarrow> pows 32 hp; Some [(m, p). p \<leftarrow> ps, m \<leftarrow> [1..<Suc hm]] }"

definition mp_layout :: "ccu_mp \<Rightarrow> nat \<times> nat \<Rightarrow> layout" where
  "mp_layout c = (\<lambda>(m, e). [div_entry (mp_m c) m, pow_entry (mp_p c) e])"

definition mp_bits :: "ccu_mp \<Rightarrow> u32" where
  "mp_bits c = masks (mp_layout c (0, 0))"

lemma mp_places: "masks (mp_layout c f) = mp_bits c"
  unfolding mp_bits_def by (rule masks_places) (simp add: mp_layout_def pow_entry_def split: prod.split)

lemma mp_cands_hold:
  assumes "mp_ok c"
  obtains fs where "mp_cands c = Some fs"
    "\<And>m p. (m, p) \<in> set fs \<Longrightarrow> div_holds (mp_m c) m \<and> (\<exists>e. p = 2 ^ e \<and> e < 2 ^ di_width (mp_p c))"
proof -
  have ok: "div_ok (mp_m c)" "pow_ok (mp_p c)" using assms by (auto simp: mp_ok_def)
  obtain hm where hm: "div_hi (mp_m c) = Some hm" "\<And>n. n \<in> {1..hm} \<Longrightarrow> div_holds (mp_m c) n"
    using div_ok_holds [OF ok(1)] by metis
  obtain hp ps where hp: "pow_hi (mp_p c) = Some hp" "pows 32 hp = Some ps"
      "\<And>p. p \<in> set ps \<Longrightarrow> \<exists>e. p = 2 ^ e \<and> e < 2 ^ di_width (mp_p c)"
    using pow_ok_holds [OF ok(2), of 32] by auto
  show thesis by (rule that) (auto simp: mp_cands_def hm(1) hp(1,2) hm(2) hp(3))
qed

lemma mp_write_read:
  assumes "mp_ok c" "div_holds (mp_m c) m" "e < 2 ^ di_width (mp_p c)"
  shows "\<exists>v'. mp_write c (m, 2 ^ e) v = Some v' \<and> mp_read c v' = Some (m, 2 ^ e) \<and> v' AND NOT (mp_bits c) = v AND NOT (mp_bits c)"
proof -
  let ?L = "mp_layout c (m, e)"
  define v' where "v' = v AND NOT (masks ?L) OR puts ?L"
  have ok: "div_ok (mp_m c)" "pow_ok (mp_p c)" "\<not> has (mp_common c) CCU_FEATURE_MP_NO_INDEX_MODE" "0 < di_width (mp_p c)"
    using assms(1) by (auto simp: mp_ok_def)
  note p = pow_bits [OF ok(2) assms(3)] and m = div_entry_ok [OF ok(1) assms(2)]
  have lo: "di_shift (mp_p c) < 32" "di_shift (mp_p c) + di_width (mp_p c) \<le> 32" "di_width (mp_p c) < 31"
    using ok(2) by (auto simp: pow_ok_def)
  then have g: "GENMASK (di_shift (mp_p c)) (di_width (mp_p c)) = Some (push_bit (di_shift (mp_p c)) (mask (di_width (mp_p c))))"
    using ok(4) by (intro GENMASK_fits) (simp add: fits_def)
  have L: "layout_ok ?L" using assms(1) m p(1) lo by (simp add: layout_ok_def mp_layout_def div_entry_def pow_entry_def mp_ok_def)
  have "field (di_shift (mp_p c)) (di_width (mp_p c)) v' = of_nat e"
    using layout_fields(1) [OF L v'_def] by (simp add: mp_layout_def pow_entry_def)
  then have "get_bits v' (di_shift (mp_p c)) (di_width (mp_p c)) = Some (of_nat e)"
    using lo by (simp add: get_bits_def field_def take_bit_eq_mask)
  then have "mp_read c v' = Some (m, 2 ^ e)"
    using div_read [OF ok(1) assms(2) L v'_def] p ok(3) by (simp add: mp_read_def mp_layout_def)
  moreover have "mp_write c (m, 2 ^ e) v = Some v'"
    unfolding mp_write_def v'_def using ok(3)
    by (simp add: g div_factor_bits [OF ok(1) assms(2)] ilog2_power mp_layout_def layout_defs pow_entry_def ac_bits)
  ultimately show ?thesis using layout_fields(2) [OF L v'_def] mp_places by simp
qed

lemma mp_rate_total:
  assumes "mp_ok c" "div_holds (mp_m c) m" "e < 2 ^ di_width (mp_p c)"
  shows "mp_rate parent (m, 2 ^ e) \<noteq> None"
proof -
  have ok: "div_ok (mp_m c)" "pow_ok (mp_p c)" using assms(1) by (auto simp: mp_ok_def)
  have nz: "(of_nat n :: u64) \<noteq> 0" if "0 < n" "n < 2 ^ 32" for n
  proof -
    have "n < 2 ^ 64" using that(2) by simp
    then have "unat (of_nat n :: u64) = n" by (simp add: unat_of_nat take_bit_nat_eq_self)
    then show ?thesis using that(1) by (metis less_irrefl unat_0)
  qed
  have "(2 :: nat) ^ di_width (mp_m c) \<le> 2 ^ 31" using ok(1) by (intro power_increasing) (auto simp: div_ok_def fits_def)
  then have m: "0 < m" "m < 2 ^ 32" using assms(2) ok(1) by (auto simp: holds_def div_ok_def)
  have "(2 :: nat) ^ e < 2 ^ 32" using pow_bits(3) [OF ok(2) assms(3)] by (intro power_strict_increasing) auto
  then show ?thesis using nz [OF m] nz [of "2 ^ e"] by (simp add: mp_rate_def div64_def)
qed

interpretation mp: factor_clock mp_rate mp_cands "(0, 0)" mp_read mp_write mp_bits mp_ok
proof
  fix c :: ccu_mp and fs f parent and u v :: u32
  assume ok: "mp_ok c"
  obtain cs where cs: "mp_cands c = Some cs"
      "\<And>m p. (m, p) \<in> set cs \<Longrightarrow> div_holds (mp_m c) m \<and> (\<exists>e. p = 2 ^ e \<and> e < 2 ^ di_width (mp_p c))"
    using mp_cands_hold [OF ok] by metis
  show "\<exists>fs. mp_cands c = Some fs" using cs(1) by blast
  have in_cs: "\<exists>m e. f = (m, 2 ^ e) \<and> div_holds (mp_m c) m \<and> e < 2 ^ di_width (mp_p c)" if "mp_cands c = Some fs" "f \<in> set fs"
    using cs that by (cases f) fastforce
  show "mp_rate parent f \<noteq> None" if "mp_cands c = Some fs" "f \<in> set fs"
    using in_cs [OF that] mp_rate_total [OF ok] by auto
  show "\<exists>v'. mp_write c f v = Some v' \<and> mp_read c v' = Some f \<and> v' AND NOT (mp_bits c) = v AND NOT (mp_bits c)"
    if "mp_cands c = Some fs" "f \<in> set fs"
    using in_cs [OF that] mp_write_read [OF ok] by auto
  show "mp_read c u = mp_read c v" if eq: "u AND mp_bits c = v AND mp_bits c"
  proof -
    note eq = eq [unfolded mp_bits_def]
    have "get_bits u (di_shift (mp_p c)) (di_width (mp_p c)) = get_bits v (di_shift (mp_p c)) (di_width (mp_p c))"
      using masks_local [OF eq, of "di_shift (mp_p c)" "di_width (mp_p c)" 0] ok
      by (simp add: mp_layout_def pow_entry_def mp_ok_def pow_ok_def get_bits_def field_def take_bit_eq_mask)
    then show ?thesis using div_local [OF _ eq, where n = 0] ok by (simp add: mp_read_def mp_layout_def mp_ok_def)
  qed
qed

section \<open>Rates set, rounded and read\<close>

context factor_clock
begin

lemma set_register:
  assumes "wf c" "attainable cands calc parent rate c" "key_bits st a AND bits c = 0"
  obtains fs f r v where "cands c = Some fs" "best_factors cands calc none parent rate c = Some f" "best_of (calc parent) fs rate f r"
    "wr c f (readl a st) = Some v" "rd c (readl a (writel v a st)) = Some f"
    "readl a (writel v a st) AND NOT (bits c) = readl a st AND NOT (bits c)"
proof -
  obtain fs f r v where s: "cands c = Some fs" "best_factors cands calc none parent rate c = Some f" "best_of (calc parent) fs rate f r"
      "wr c f (readl a st) = Some v" "rd c (v AND NOT (key_bits st a)) = Some f" "v AND NOT (bits c) = readl a st AND NOT (bits c)"
    using set_read [OF assms, of "readl a st"] .
  have "(v AND NOT (key_bits st a)) AND NOT (bits c) = (v AND NOT (bits c)) AND NOT (key_bits st a)" by (simp add: ac_bits)
  also have "\<dots> = (readl a st AND NOT (key_bits st a)) AND NOT (bits c)" unfolding s(6) by (simp add: ac_bits)
  finally have "(v AND NOT (key_bits st a)) AND NOT (bits c) = readl a st AND NOT (bits c)" by (simp only: readl_hidden)
  then show thesis using that [OF s(1,2,3,4)] s(5) by simp
qed

end

lemma unat_ucast_u64: "unat (ucast (d :: u32) :: u64) = unat d"
  using unsigned_less [of d, where 'a = nat] by (simp add: unsigned_ucast_eq take_bit_nat_eq_self)

lemma post_bound:
  fixes r rate :: u64 and d :: u32
  assumes "r \<le> rate * ucast d"
  shows "r div ucast d \<le> rate"
proof -
  have "unat (rate * ucast d) \<le> unat rate * unat d" by (simp add: unat_word_ariths(2) unat_ucast_u64)
  then have "unat r \<le> unat rate * unat d" using assms by (simp add: word_le_nat_alt)
  then have "unat r div unat d \<le> unat rate" by (cases "unat d = 0") (auto intro: order.trans [OF div_le_mono])
  then show ?thesis by (simp add: word_le_nat_alt unat_div unat_ucast_u64)
qed


lemma div64_do_div: "div64 x (ucast d) = do_div x d"
  using unat_ucast_u64 [of d] by (auto simp: div64_def do_div_def unat_eq_0)

lemma post_div_le:
  assumes "r \<le> post_mul common d rate" "has common CCU_FEATURE_FIXED_POSTDIV \<Longrightarrow> d \<noteq> 0"
  obtains q where "post_div common d r = Some q" "q \<le> rate"
  using assms post_bound [of r rate d] by (auto simp: post_mul_def post_div_def do_div_def split: if_splits)

text \<open>
  C36. A rate that a clock with the factors N, K, M and P can come near is set as it was announced: rounding gives a rate that is not
  above the wanted one, setting succeeds, and the rate that is read back from the register is the announced one. The bits of the
  register outside of the fields of the factors, and all other registers, are as before.
\<close>

theorem ccu_nkmp_set_recalc:
  assumes "nkmp_ok c" "attainable nkmp_cands ccu_nkmp_calc_rate parent (post_mul (nkmp_common c) (nkmp_post_div c) rate) c"
    "key_bits st (ccu_addr (nkmp_common c)) AND nkmp_bits c = 0"
    "has (nkmp_common c) CCU_FEATURE_FIXED_POSTDIV \<Longrightarrow> nkmp_post_div c \<noteq> 0"
    "nkmp_max_rate c = 0 \<or> post_mul (nkmp_common c) (nkmp_post_div c) rate \<le> ucast (nkmp_max_rate c)"
  shows "\<exists>q st'. ccu_nkmp_round_rate c rate parent = Some q \<and> q \<le> rate \<and> ccu_nkmp_set_rate c rate parent st = Some (0, st') \<and>
    ccu_nkmp_recalc_rate c parent st' = Some q \<and>
    readl (ccu_addr (nkmp_common c)) st' AND NOT (nkmp_bits c) = readl (ccu_addr (nkmp_common c)) st AND NOT (nkmp_bits c) \<and>
    (\<forall>b. b \<noteq> ccu_addr (nkmp_common c) \<longrightarrow> readl b st' = readl b st)"
proof -
  let ?a = "ccu_addr (nkmp_common c)" and ?want = "post_mul (nkmp_common c) (nkmp_post_div c) rate"
  obtain fs f r v where s: "nkmp_cands c = Some fs" "ccu_nkmp_find_best parent ?want c = Some f"
      "best_of (ccu_nkmp_calc_rate parent) fs ?want f r" "nkmp_write c f (readl ?a st) = Some v"
      "nkmp_read c (readl ?a (writel v ?a st)) = Some f"
      "readl ?a (writel v ?a st) AND NOT (nkmp_bits c) = readl ?a st AND NOT (nkmp_bits c)"
    using nkmp.set_register [OF assms(1,2,3)] unfolding best_factors_def ccu_nkmp_find_best_def [symmetric] .
  have r: "ccu_nkmp_calc_rate parent f = Some r" "r \<le> ?want" using s(3) by (auto simp: best_of_def)
  obtain q where q: "post_div (nkmp_common c) (nkmp_post_div c) r = Some q" "q \<le> rate" using post_div_le r(2) assms(4) by blast
  have "ccu_nkmp_round_rate c rate parent = Some q"
    using assms(5) s(2) r(1) q(1) by (auto simp: ccu_nkmp_round_rate_def Let_def)
  moreover have "ccu_nkmp_set_rate c rate parent st = Some (0, writel v ?a st)"
    using s(2,4) by (simp add: ccu_nkmp_set_rate_def)
  moreover have "ccu_nkmp_recalc_rate c parent (writel v ?a st) = Some q"
    using s(5) r(1) q(1) by (simp add: ccu_nkmp_recalc_rate_def div64_do_div post_div_def split: if_splits)
  ultimately show ?thesis using s(6) q(2) by auto
qed


lemma prediv_fixed:
  assumes "\<not> has common CCU_FEATURE_FIXED_PREDIV" "\<not> has common CCU_FEATURE_VARIABLE_PREDIV"
  shows "ccu_mux_helper_apply_prediv common cm i parent st' = ccu_mux_helper_apply_prediv common cm i parent st"
  using assms by (simp add: ccu_mux_helper_apply_prediv_def ccu_mux_get_prediv_def)

lemma mp_best: "best_factors mp_cands mp_rate (0, 0) parent rate c =
    do { hm \<leftarrow> div_hi (mp_m c); hp \<leftarrow> pow_hi (mp_p c); ccu_mp_find_best parent rate hm hp }"
  by (simp add: best_factors_def mp_cands_def ccu_mp_find_best_def)

text \<open>
  Likewise for the clocks of the peripherals, with the factors M and P, that do not ask their parent for another rate: setting
  and reading back give what rounding announced for the pre-divided rate of the parent.
\<close>

theorem ccu_mp_set_recalc:
  assumes "mp_ok c" "\<not> set_rate_parent env" "\<not> has (mp_common c) CCU_FEATURE_FIXED_PREDIV" "\<not> has (mp_common c) CCU_FEATURE_VARIABLE_PREDIV"
    "ccu_mux_helper_apply_prediv (mp_common c) (mp_mux c) (-1) parent st = Some pr"
    "attainable mp_cands mp_rate pr (post_mul (mp_common c) (mp_post_div c) rate) c"
    "key_bits st (ccu_addr (mp_common c)) AND mp_bits c = 0" "has (mp_common c) CCU_FEATURE_FIXED_POSTDIV \<Longrightarrow> mp_post_div c \<noteq> 0"
  shows "\<exists>q st'. ccu_mp_round_rate env c p pr rate = Some (q, pr) \<and> q \<le> rate \<and> ccu_mp_set_rate c rate parent st = Some (0, st') \<and>
    ccu_mp_recalc_rate c parent st' = Some q \<and>
    readl (ccu_addr (mp_common c)) st' AND NOT (mp_bits c) = readl (ccu_addr (mp_common c)) st AND NOT (mp_bits c) \<and>
    (\<forall>b. b \<noteq> ccu_addr (mp_common c) \<longrightarrow> readl b st' = readl b st)"
proof -
  let ?a = "ccu_addr (mp_common c)" and ?want = "post_mul (mp_common c) (mp_post_div c) rate"
  obtain fs f r v where s: "mp_cands c = Some fs" "best_factors mp_cands mp_rate (0, 0) pr ?want c = Some f"
      "best_of (mp_rate pr) fs ?want f r" "mp_write c f (readl ?a st) = Some v" "mp_read c (readl ?a (writel v ?a st)) = Some f"
      "readl ?a (writel v ?a st) AND NOT (mp_bits c) = readl ?a st AND NOT (mp_bits c)"
    using mp.set_register [OF assms(1,6,7)] .
  obtain hm hp where h: "div_hi (mp_m c) = Some hm" "pow_hi (mp_p c) = Some hp" "ccu_mp_find_best pr ?want hm hp = Some f"
    using s(2) unfolding mp_best by (auto split: Option.bind_splits)
  have r: "mp_rate pr f = Some r" "r \<le> ?want" using s(3) by (auto simp: best_of_def)
  obtain q where q: "post_div (mp_common c) (mp_post_div c) r = Some q" "q \<le> rate" using post_div_le r(2) assms(8) by blast
  then have q': "(if has (mp_common c) CCU_FEATURE_FIXED_POSTDIV then div64 r (ucast (mp_post_div c)) else Some r) = Some q"
    by (simp add: post_div_def div64_do_div split: if_splits)
  have "ccu_mp_round_rate env c p pr rate = Some (q, pr)"
    using h r(1) q' assms(2) by (simp add: ccu_mp_round_rate_def)
  moreover have "ccu_mp_set_rate c rate parent st = Some (0, writel v ?a st)"
    using assms(1,5) h s(4) by (simp add: ccu_mp_set_rate_def mp_max_p_def mp_ok_def)
  moreover have "ccu_mp_recalc_rate c parent (writel v ?a st) = Some q"
    using s(5) r(1) q' prediv_fixed [OF assms(3,4), of "mp_mux c" "-1" parent "writel v ?a st" st] assms(5)
    by (simp add: ccu_mp_recalc_rate_def del: readl_writel)
  ultimately show ?thesis using s(6) q(2) by auto
qed

lemma frac_absent:
  assumes "\<not> has common CCU_FEATURE_FRACTIONAL"
  shows "\<not> ccu_frac_helper_is_enabled common cf st" "ccu_frac_helper_disable common cf st = st" "\<not> ccu_frac_helper_has_rate common cf rate"
  using assms by (simp_all add: ccu_frac_helper_is_enabled_def ccu_frac_helper_disable_def ccu_frac_helper_has_rate_def)

lemma sdm_disable_frame:
  "key_bits (ccu_sdm_helper_disable common sdm st) = key_bits st"
  "b \<noteq> ccu_addr common \<Longrightarrow> b \<noteq> sdm_addr common sdm \<Longrightarrow> readl b (ccu_sdm_helper_disable common sdm st) = readl b st"
  by (simp_all add: ccu_sdm_helper_disable_def Let_def)

lemma sdm_disabled:
  assumes "sdm_addr common sdm \<noteq> ccu_addr common"
  shows "\<not> ccu_sdm_helper_is_enabled common sdm (writel v (ccu_addr common) (ccu_sdm_helper_disable common sdm st))"
proof -
  have "((x AND NOT t) AND NOT k) AND t = 0" for x t k :: u32 by (rule bit_word_eqI) (auto simp: bit_simps)
  then show ?thesis using assms by (simp add: ccu_sdm_helper_is_enabled_def ccu_sdm_helper_disable_def Let_def)
qed

text \<open>Turning the modulation off keeps all other bits.\<close>

lemma masked_chain:
  fixes u v w b e :: u32
  assumes "u AND NOT b = v AND NOT b" "v AND NOT e = w AND NOT e"
  shows "u AND NOT (b OR e) = w AND NOT (b OR e)"
proof -
  have split: "x AND NOT (b OR e) = (x AND NOT b) AND NOT e" "(x AND NOT b) AND NOT e = (x AND NOT e) AND NOT b" for x :: u32
    by (rule bit_word_eqI; auto simp: bit_simps)+
  have "u AND NOT (b OR e) = (v AND NOT e) AND NOT b" unfolding split(1) assms(1) by (rule split(2))
  also have "\<dots> = w AND NOT (b OR e)" unfolding assms(2) split by (rule refl)
  finally show ?thesis .
qed

lemma clear_hidden: "((x AND NOT e) AND NOT k) AND NOT e = (x AND NOT k) AND NOT (e :: u32)"
  by (rule bit_word_eqI) (auto simp: bit_simps)

lemma sdm_disable_masked:
  assumes "sdm_addr common sdm \<noteq> ccu_addr common"
  shows "readl (ccu_addr common) (ccu_sdm_helper_disable common sdm st) AND NOT (sdm_enable sdm) = readl (ccu_addr common) st AND NOT (sdm_enable sdm)"
    "readl (sdm_addr common sdm) (ccu_sdm_helper_disable common sdm st) AND NOT (tuning_enable sdm) =
      readl (sdm_addr common sdm) st AND NOT (tuning_enable sdm)"
  using assms by (simp_all add: ccu_sdm_helper_disable_def Let_def clear_hidden readl_hidden)

text \<open>
  C37. Likewise for a clock with the factors N and M that has no fractional mode, at a rate inside of its limits that is not in the table
  of the modulation, and that some factors come near: rounding gives a rate that is not above the wanted one, setting succeeds, and the
  rate that is read back, with the modulation off, is the announced one. In the register of the clock only the fields of the factors and
  the bit of the modulation change, in the register of the modulation only its own bit, and no other register changes.
\<close>

theorem ccu_nm_set_recalc:
  assumes "nm_ok c" "attainable nm_cands ccu_nm_calc_rate parent (post_mul (nm_common c) (nm_post_div c) rate) c"
    "key_bits st (ccu_addr (nm_common c)) AND nm_bits c = 0"
    "has (nm_common c) CCU_FEATURE_FIXED_POSTDIV \<Longrightarrow> nm_post_div c \<noteq> 0"
    "\<not> has (nm_common c) CCU_FEATURE_FRACTIONAL" "sdm_addr (nm_common c) (nm_sdm c) \<noteq> ccu_addr (nm_common c)"
    "\<not> ccu_sdm_helper_has_rate (nm_common c) (nm_sdm c) (post_mul (nm_common c) (nm_post_div c) rate)"
    "ucast (nm_min_rate c) \<le> post_mul (nm_common c) (nm_post_div c) rate"
    "nm_max_rate c = 0 \<or> post_mul (nm_common c) (nm_post_div c) rate \<le> ucast (nm_max_rate c)"
  shows "\<exists>q st'. ccu_nm_round_rate c rate parent = Some q \<and> q \<le> rate \<and> ccu_nm_set_rate c rate parent st = Some (0, st') \<and>
    ccu_nm_recalc_rate c parent st' = Some q \<and> \<not> ccu_sdm_helper_is_enabled (nm_common c) (nm_sdm c) st' \<and>
    readl (ccu_addr (nm_common c)) st' AND NOT (nm_bits c OR sdm_enable (nm_sdm c)) =
      readl (ccu_addr (nm_common c)) st AND NOT (nm_bits c OR sdm_enable (nm_sdm c)) \<and>
    readl (sdm_addr (nm_common c) (nm_sdm c)) st' AND NOT (tuning_enable (nm_sdm c)) =
      readl (sdm_addr (nm_common c) (nm_sdm c)) st AND NOT (tuning_enable (nm_sdm c)) \<and>
    (\<forall>b. b \<noteq> ccu_addr (nm_common c) \<longrightarrow> b \<noteq> sdm_addr (nm_common c) (nm_sdm c) \<longrightarrow> readl b st' = readl b st)"
proof -
  let ?a = "ccu_addr (nm_common c)" and ?t = "sdm_addr (nm_common c) (nm_sdm c)" and ?want = "post_mul (nm_common c) (nm_post_div c) rate"
  let ?st = "ccu_sdm_helper_disable (nm_common c) (nm_sdm c) st"
  have k: "key_bits ?st ?a AND nm_bits c = 0" using assms(3) by (simp add: sdm_disable_frame)
  obtain fs f r v where s: "nm_cands c = Some fs" "ccu_nm_find_best parent ?want c = Some f"
      "best_of (ccu_nm_calc_rate parent) fs ?want f r" "nm_write c f (readl ?a ?st) = Some v"
      "nm_read c (readl ?a (writel v ?a ?st)) = Some f"
      "readl ?a (writel v ?a ?st) AND NOT (nm_bits c) = readl ?a ?st AND NOT (nm_bits c)"
    using nm.set_register [OF assms(1,2) k] unfolding best_factors_def ccu_nm_find_best_def [symmetric] .
  have r: "ccu_nm_calc_rate parent f = Some r" "r \<le> ?want" using s(3) by (auto simp: best_of_def)
  obtain q where q: "post_div (nm_common c) (nm_post_div c) r = Some q" "q \<le> rate" using post_div_le r(2) assms(4) by blast
  have "ccu_nm_round_rate c rate parent = Some q"
    using assms(7,8,9) s(2) r(1) q(1) by (auto simp: ccu_nm_round_rate_def Let_def frac_absent [OF assms(5)])
  moreover have "ccu_nm_set_rate c rate parent st = Some (0, writel v ?a ?st)"
    using s(2,4) assms(7) by (simp add: ccu_nm_set_rate_def Let_def frac_absent [OF assms(5)])
  moreover have "ccu_nm_recalc_rate c parent (writel v ?a ?st) = Some q"
    using s(5) r(1) q(1) sdm_disabled [OF assms(6)]
    by (cases f) (simp add: ccu_nm_recalc_rate_def frac_absent [OF assms(5)] del: readl_writel)
  moreover have "readl ?a (writel v ?a ?st) AND NOT (nm_bits c OR sdm_enable (nm_sdm c)) = readl ?a st AND NOT (nm_bits c OR sdm_enable (nm_sdm c))"
    by (rule masked_chain [OF s(6) sdm_disable_masked(1) [OF assms(6)]])
  moreover have "readl ?t (writel v ?a ?st) AND NOT (tuning_enable (nm_sdm c)) = readl ?t st AND NOT (tuning_enable (nm_sdm c))"
    using sdm_disable_masked(2) [of "nm_common c" "nm_sdm c" st] assms(6) by simp
  moreover have "readl b (writel v ?a ?st) = readl b st" if "b \<noteq> ?a" "b \<noteq> ?t" for b using that sdm_disable_frame(2) by simp
  ultimately show ?thesis using q(2) sdm_disabled [OF assms(6), of v st] by blast
qed

text \<open>
  Sigma-delta modulation. The table of the clock has each rate once, no two settings look alike in the registers, the
  patterns have the bits that turn the modulation on, and the factors fit their fields.
\<close>

definition sdm_ok :: "ccu_nm \<Rightarrow> bool" where
  "sdm_ok c \<longleftrightarrow> has (nm_common c) CCU_FEATURE_SIGMA_DELTA_MOD \<and> sdm_addr (nm_common c) (nm_sdm c) \<noteq> ccu_addr (nm_common c) \<and>
     distinct (map sdm_rate (sdm_table (nm_sdm c))) \<and>
     distinct (map (\<lambda>e. (sdm_pattern e, sdm_m e, sdm_n e)) (sdm_table (nm_sdm c))) \<and>
     tuning_enable (nm_sdm c) \<noteq> 0 \<and> sdm_enable (nm_sdm c) AND nm_bits c = 0 \<and>
     list_all (\<lambda>e. sdm_pattern e AND tuning_enable (nm_sdm c) = tuning_enable (nm_sdm c) \<and>
       mult_holds (nm_n c) (unat (sdm_n e)) \<and> div_holds (nm_m c) (unat (sdm_m e))) (sdm_table (nm_sdm c))"

lemma find_unique:
  assumes "distinct (map f xs)" "x \<in> set xs"
  shows "List.find (\<lambda>y. f y = f x) xs = Some x"
  using assms by (induction xs) (auto simp: rev_image_eqI)

lemma foldl_skip: "(\<And>y. y \<in> set ys \<Longrightarrow> \<not> P y) \<Longrightarrow> foldl (\<lambda>st e. if P e then g e st else st) st ys = st"
  by (induction ys arbitrary: st) auto

lemma foldl_unique:
  assumes "distinct (map f xs)" "x \<in> set xs"
  shows "foldl (\<lambda>st e. if f e = f x then g e st else st) st xs = g x st"
  using assms
proof (induction xs arbitrary: st)
  case (Cons y ys)
  show ?case
  proof (cases "y = x")
    case True
    then have "f x \<notin> f ` set ys" using Cons.prems(1) by simp
    then have "foldl (\<lambda>st e. if f e = f x then g e st else st) (g x st) ys = g x st"
      by (intro foldl_skip) (metis imageI)
    then show ?thesis using True by simp
  next
    case False
    then have "x \<in> set ys" "f y \<noteq> f x" using Cons.prems by (auto simp: rev_image_eqI)
    then show ?thesis using Cons.IH Cons.prems(1) by simp
  qed
qed simp

lemma and_not_disjoint:
  assumes "s AND b = 0"
  shows "s AND NOT b = (s :: u32)"
proof (rule bit_word_eqI)
  fix n assume "n < LENGTH(32)"
  have "\<not> (bit s n \<and> bit b n)" using assms by (metis bit_and_iff bit_0_eq bot_apply bot_bool_def)
  then show "bit (s AND NOT b) n = bit s n" using \<open>n < LENGTH(32)\<close> by (auto simp: bit_simps)
qed

lemma or_absorbed:
  assumes "p AND t = (t :: u32)"
  shows "p OR t = p"
proof (rule bit_word_eqI)
  fix n
  have "bit t n \<Longrightarrow> bit p n" using assms by (metis bit_and_iff)
  then show "bit (p OR t) n = bit p n" by (auto simp: bit_simps)
qed

lemma kept_bits:
  assumes "v AND NOT b = u AND NOT b" "s AND b = 0"
  shows "v AND s = u AND (s :: u32)"
proof -
  have "v AND s = (v AND NOT b) AND s" "(u AND NOT b) AND s = u AND s" using and_not_disjoint [OF assms(2)] by (metis and.assoc and.commute)+
  then show ?thesis using assms(1) by simp
qed

lemma or_seen:
  assumes "s AND NOT k = (s :: u32)"
  shows "((x OR s) AND NOT k) AND s = s"
proof (rule bit_word_eqI)
  fix n assume "n < LENGTH(32)"
  have "bit s n \<Longrightarrow> \<not> bit k n" using assms by (metis bit_and_iff bit_not_iff)
  then show "bit (((x OR s) AND NOT k) AND s) n = bit s n" using \<open>n < LENGTH(32)\<close> by (auto simp: bit_simps)
qed

lemma sdm_enable_state:
  assumes "sdm_ok c" "e \<in> set (sdm_table (nm_sdm c))" "key_bits st (sdm_addr (nm_common c) (nm_sdm c)) = 0"
  defines "st' \<equiv> ccu_sdm_helper_enable (nm_common c) (nm_sdm c) (sdm_rate e) st"
  shows "readl (sdm_addr (nm_common c) (nm_sdm c)) st' = sdm_pattern e" "key_bits st' = key_bits st"
    "readl (ccu_addr (nm_common c)) st' = (readl (ccu_addr (nm_common c)) st OR sdm_enable (nm_sdm c)) AND NOT (key_bits st (ccu_addr (nm_common c)))"
    "b \<noteq> ccu_addr (nm_common c) \<Longrightarrow> b \<noteq> sdm_addr (nm_common c) (nm_sdm c) \<Longrightarrow> readl b st' = readl b st"
proof -
  have ok: "has (nm_common c) CCU_FEATURE_SIGMA_DELTA_MOD" "sdm_addr (nm_common c) (nm_sdm c) \<noteq> ccu_addr (nm_common c)"
      "distinct (map sdm_rate (sdm_table (nm_sdm c)))" "sdm_pattern e AND tuning_enable (nm_sdm c) = tuning_enable (nm_sdm c)"
    using assms(1,2) by (auto simp: sdm_ok_def list_all_iff)
  have p: "sdm_pattern e OR tuning_enable (nm_sdm c) = sdm_pattern e" by (rule or_absorbed [OF ok(4)])
  have "set_pattern (nm_common c) (nm_sdm c) (sdm_rate e) st = writel (sdm_pattern e) (sdm_addr (nm_common c) (nm_sdm c)) st"
    unfolding set_pattern_def by (rule foldl_unique [OF ok(3) assms(2)])
  then show "readl (sdm_addr (nm_common c) (nm_sdm c)) st' = sdm_pattern e" "key_bits st' = key_bits st"
    "readl (ccu_addr (nm_common c)) st' = (readl (ccu_addr (nm_common c)) st OR sdm_enable (nm_sdm c)) AND NOT (key_bits st (ccu_addr (nm_common c)))"
    "b \<noteq> ccu_addr (nm_common c) \<Longrightarrow> b \<noteq> sdm_addr (nm_common c) (nm_sdm c) \<Longrightarrow> readl b st' = readl b st"
    using ok(1,2) p assms(3) by (simp_all add: st'_def ccu_sdm_helper_enable_def Let_def)
qed

lemma ccu_nm_sdm_exact:
  assumes "nm_ok c" "sdm_ok c" "e \<in> set (sdm_table (nm_sdm c))"
    "post_mul (nm_common c) (nm_post_div c) rate = sdm_rate e" "post_div (nm_common c) (nm_post_div c) (sdm_rate e) = Some rate"
    "\<not> has (nm_common c) CCU_FEATURE_FRACTIONAL" "ucast (nm_min_rate c) \<le> sdm_rate e"
    "nm_max_rate c = 0 \<or> sdm_rate e \<le> ucast (nm_max_rate c)"
    "key_bits st (ccu_addr (nm_common c)) AND nm_bits c = 0" "key_bits st (ccu_addr (nm_common c)) AND sdm_enable (nm_sdm c) = 0"
    "key_bits st (sdm_addr (nm_common c) (nm_sdm c)) = 0"
  shows "ccu_nm_round_rate c rate parent = Some rate \<and>
    (\<exists>st'. ccu_nm_set_rate c rate parent st = Some (0, st') \<and> ccu_nm_recalc_rate c parent st' = Some rate \<and>
      (\<forall>b. b \<noteq> ccu_addr (nm_common c) \<longrightarrow> b \<noteq> sdm_addr (nm_common c) (nm_sdm c) \<longrightarrow> readl b st' = readl b st))"
proof -
  let ?C = "nm_common c" and ?S = "nm_sdm c"
  let ?a = "ccu_addr ?C" and ?t = "sdm_addr ?C ?S" and ?st = "ccu_sdm_helper_enable ?C ?S (sdm_rate e) st"
  have ok: "has ?C CCU_FEATURE_SIGMA_DELTA_MOD" "?t \<noteq> ?a" "distinct (map sdm_rate (sdm_table ?S))"
      "distinct (map (\<lambda>e. (sdm_pattern e, sdm_m e, sdm_n e)) (sdm_table ?S))" "tuning_enable ?S \<noteq> 0" "sdm_enable ?S AND nm_bits c = 0"
      "sdm_pattern e AND tuning_enable ?S = tuning_enable ?S" "mult_holds (nm_n c) (unat (sdm_n e))" "div_holds (nm_m c) (unat (sdm_m e))"
    using assms(2,3) by (auto simp: sdm_ok_def list_all_iff)
  note en = sdm_enable_state [OF assms(2,3,11)]
  have hr: "ccu_sdm_helper_has_rate ?C ?S (sdm_rate e)" using ok(1) assms(3) by (auto simp: ccu_sdm_helper_has_rate_def list_ex_iff)
  have gf: "ccu_sdm_helper_get_factors ?C ?S (sdm_rate e) = Some (sdm_m e, sdm_n e)"
    using ok(1) find_unique [OF ok(3) assms(3)] by (simp add: ccu_sdm_helper_get_factors_def)
  obtain v where v: "nm_write c (unat (sdm_n e), unat (sdm_m e)) (readl ?a ?st) = Some v"
      "nm_read c v = Some (unat (sdm_n e), unat (sdm_m e))" "v AND NOT (nm_bits c) = readl ?a ?st AND NOT (nm_bits c)"
    using nm_write_read [OF assms(1) ok(8,9)] by blast
  let ?st' = "writel v ?a ?st"
  have "v AND NOT (key_bits st ?a) AND nm_bits c = v AND nm_bits c"
    using and_not_disjoint [of "nm_bits c" "key_bits st ?a"] assms(9) by (simp add: ac_bits)
  then have rd: "nm_read c (readl ?a ?st') = Some (unat (sdm_n e), unat (sdm_m e))"
    using nm.read_local [OF assms(1), of "v AND NOT (key_bits st ?a)" v] v(2) by (simp add: en(2) and.assoc)
  have "readl ?a ?st' AND sdm_enable ?S = sdm_enable ?S"
  proof -
    have s: "sdm_enable ?S AND NOT (key_bits st ?a) = sdm_enable ?S" using assms(10) by (intro and_not_disjoint) (simp add: and.commute)
    have "readl ?a ?st' AND sdm_enable ?S = v AND sdm_enable ?S" using s by (simp add: en(2) ac_bits)
    also have "\<dots> = readl ?a ?st AND sdm_enable ?S" by (rule kept_bits [OF v(3) ok(6)])
    also have "\<dots> = sdm_enable ?S" unfolding en(3) by (rule or_seen [OF s])
    finally show ?thesis .
  qed
  then have on: "ccu_sdm_helper_is_enabled ?C ?S ?st'" using ok(1,2,5,7) en(1) by (simp add: ccu_sdm_helper_is_enabled_def)
  have rr: "ccu_sdm_helper_read_rate ?C ?S (sdm_m e) (sdm_n e) ?st' = sdm_rate e"
    using ok(1,2) en(1) find_unique [OF ok(4) assms(3)] by (simp add: ccu_sdm_helper_read_rate_def)
  have "ccu_nm_round_rate c rate parent = Some rate"
    using assms(4,5,7,8) hr by (auto simp: ccu_nm_round_rate_def Let_def frac_absent [OF assms(6)])
  moreover have "ccu_nm_set_rate c rate parent st = Some (0, ?st')"
    using assms(4) hr gf v(1) by (simp add: ccu_nm_set_rate_def Let_def frac_absent [OF assms(6)])
  moreover have "ccu_nm_recalc_rate c parent ?st' = Some rate"
    using rd on rr assms(5) by (simp add: ccu_nm_recalc_rate_def frac_absent [OF assms(6)] del: readl_writel)
  ultimately show ?thesis using en(4) by auto
qed

section \<open>What the searches are for\<close>

text \<open>
  The values that a factor can have, as its field describes them: a multiplier goes from its minimum, at least one, to its maximum, or
  to two to the width of the field when it has none; a divider from one; and a divider of which the register has the exponent is a
  power of two, with an exponent that fits the field when it has no maximum.
\<close>

definition mult_values :: "ccu_mult_internal \<Rightarrow> nat set" where
  "mult_values f = {n. 1 \<le> n \<and> mu_min f \<le> n \<and> n \<le> (if mu_max f = 0 then 2 ^ mu_width f else mu_max f)}"

definition div_values :: "ccu_div_internal \<Rightarrow> nat set" where
  "div_values f = {m. 1 \<le> m \<and> m \<le> (if di_max f = 0 then 2 ^ di_width f else di_max f)}"

definition pow_values :: "ccu_div_internal \<Rightarrow> nat set" where
  "pow_values f = {p. \<exists>e. p = 2 ^ e \<and> (if di_max f = 0 then e < 2 ^ di_width f else p \<le> di_max f)}"

text \<open>
  Of the dividers of a clock whose register has the divider P itself, the search still tries the powers of two only.
\<close>

definition mp_values :: "ccu_mp \<Rightarrow> (nat \<times> nat) set" where
  "mp_values c = {(m, p). m \<in> div_values (mp_m c) \<and>
     (if has (mp_common c) CCU_FEATURE_MP_NO_INDEX_MODE then p \<in> div_values (mp_p c) \<and> (\<exists>e. p = 2 ^ e) else p \<in> pow_values (mp_p c))}"

text \<open>The answer of a search over the factors \<open>F\<close>: those with the greatest rate that is not above the wanted one.\<close>

definition greatest_below :: "'f set \<Rightarrow> ('f \<Rightarrow> u64) \<Rightarrow> 'f \<Rightarrow> u64 \<Rightarrow> 'f option \<Rightarrow> bool" where
  "greatest_below F rate_of none rate found \<longleftrightarrow>
     (\<exists>f. found = Some f \<and>
        (if \<exists>g \<in> F. 0 < rate_of g \<and> rate_of g \<le> rate
         then f \<in> F \<and> 0 < rate_of f \<and> rate_of f \<le> rate \<and> (\<forall>g \<in> F. rate_of g \<le> rate \<longrightarrow> rate_of g \<le> rate_of f)
         else f = none))"

lemma greatest_find:
  assumes "\<And>f. f \<in> set fs \<Longrightarrow> calc f = Some (rate_of f)" "set fs = F"
  shows "greatest_below F rate_of none rate (find_best calc none rate fs)"
proof -
  obtain f where f: "find_best calc none rate fs = Some f"
      "if \<exists>g\<in>set fs. \<exists>r. calc g = Some r \<and> 0 < r \<and> r \<le> rate then \<exists>r. best_of calc fs rate f r else f = none"
    using find_best_spec [of fs calc none rate] assms(1) by auto
  have "(\<exists>g\<in>set fs. \<exists>r. calc g = Some r \<and> 0 < r \<and> r \<le> rate) \<longleftrightarrow> (\<exists>g \<in> F. 0 < rate_of g \<and> rate_of g \<le> rate)"
    unfolding assms(2) [symmetric] by (auto simp: assms(1))
  moreover have "f \<in> F \<and> 0 < rate_of f \<and> rate_of f \<le> rate \<and> (\<forall>g \<in> F. rate_of g \<le> rate \<longrightarrow> rate_of g \<le> rate_of f)"
    if "best_of calc fs rate f r" for r
    using that assms unfolding best_of_def by auto
  ultimately show ?thesis using f unfolding greatest_below_def by (auto split: if_splits)
qed

lemma mult_range: "mult_hi f = Some h \<Longrightarrow> {mult_lo f..h} = mult_values f"
  by (auto simp: mult_hi_def mult_lo_def mult_values_def int_bit_def split: if_splits)

lemma div_range: "div_hi f = Some h \<Longrightarrow> {1..h} = div_values f"
  by (auto simp: div_hi_def div_values_def int_bit_def split: if_splits)

lemma takeWhile_le: "sorted xs \<Longrightarrow> set (takeWhile (\<lambda>p. p \<le> h) xs) = {p \<in> set xs. p \<le> (h :: nat)}"
  by (induction xs) auto

lemma pows_range:
  assumes "pows b h = Some ps"
  shows "set ps = {p. \<exists>e. p = 2 ^ e \<and> p \<le> h}"
proof -
  have h: "h < 2 ^ (b - 1)" and ps: "ps = takeWhile (\<lambda>p. p \<le> h) (map (\<lambda>i. 2 ^ i) [0..<b])"
    using assms by (auto simp: pows_def split: if_splits)
  have "sorted (map (\<lambda>i. 2 ^ i :: nat) [0..<b])" by (intro sorted_map_mono) (auto intro: mono_onI)
  moreover have "e < b" if "(2 :: nat) ^ e \<le> h" for e
  proof -
    have "(2 :: nat) ^ e < 2 ^ (b - 1)" using that h by linarith
    then have "e < b - 1" by (simp only: power_strict_increasing_iff one_less_numeral_iff semiring_norm)
    then show ?thesis by simp
  qed
  ultimately show ?thesis unfolding ps by (auto simp: takeWhile_le)
qed

lemma pow_range:
  assumes "pow_hi f = Some h" "pows b h = Some ps"
  shows "set ps = pow_values f"
proof (cases "di_max f = 0")
  case True
  then have "h = 2 ^ (2 ^ di_width f - 1)" using assms(1) by (auto simp: pow_hi_def int_bit_def split: if_splits)
  moreover have "0 < (2 :: nat) ^ di_width f" by simp
  then have "e \<le> 2 ^ di_width f - 1 \<longleftrightarrow> e < 2 ^ di_width f" for e :: nat by linarith
  ultimately have "(2 :: nat) ^ e \<le> h \<longleftrightarrow> e < 2 ^ di_width f" for e using power_increasing_iff [of "2 :: nat" e "2 ^ di_width f - 1"] by simp
  then show ?thesis using True unfolding pows_range [OF assms(2)] by (auto simp: pow_values_def)
next
  case False
  then show ?thesis using assms(1) unfolding pows_range [OF assms(2)] by (auto simp: pow_values_def pow_hi_def)
qed


text \<open>A divisor of 32 bits is the same with 64 bits.\<close>

lemma do_div_small:
  assumes "0 < d" "d < 2 ^ 32"
  shows "do_div x (of_nat d) = Some (x div of_nat d)"
proof -
  have u: "unat (of_nat d :: u32) = d" using assms(2) by (rule unat_small)
  then have "(of_nat d :: u32) \<noteq> 0" using assms(1) by (metis less_irrefl unat_0)
  moreover have "unat (of_nat d :: u64) = d" using assms(2) by (simp add: unat_of_nat take_bit_nat_eq_self)
  then have "ucast (of_nat d :: u32) = (of_nat d :: u64)" using unat_ucast_u64 [of "of_nat d"] u by (intro word_unat_eq_iff [THEN iffD2]) simp
  ultimately show ?thesis by (simp add: do_div_def)
qed

lemma div64_small:
  assumes "0 < d" "d < 2 ^ 32"
  shows "div64 x (of_nat d) = Some (x div of_nat d)"
proof -
  have "d < 2 ^ 64" using assms(2) by simp
  then have "unat (of_nat d :: u64) = d" by (simp add: unat_of_nat take_bit_nat_eq_self)
  then show ?thesis using assms(1) by (auto simp: div64_def)
qed

lemma div_values_small:
  assumes "div_ok f" "m \<in> div_values f"
  shows "0 < m" "m \<le> 2 ^ di_width f" "m < 2 ^ 32"
proof -
  have "(2 :: nat) ^ di_width f \<le> 2 ^ 31" using assms(1) by (intro power_increasing) (auto simp: div_ok_def fits_def)
  then show "0 < m" "m \<le> 2 ^ di_width f" "m < 2 ^ 32" using assms by (auto simp: div_values_def div_ok_def split: if_splits)
qed

lemmas up_to = atLeastLessThanSuc_atLeastAtMost image_iff

lemma nk_search:
  assumes "nk_ok c"
  shows "greatest_below {(n, k). n \<in> mult_values (nk_n c) \<and> k \<in> mult_values (nk_k c)} (\<lambda>(n, k). parent * of_nat n * of_nat k) (0, 0) rate
    (ccu_nk_find_best parent rate c)"
proof -
  obtain hn where hn: "mult_hi (nk_n c) = Some hn" using assms mult_ok_holds unfolding nk_ok_def by metis
  obtain hk where hk: "mult_hi (nk_k c) = Some hk" using assms mult_ok_holds unfolding nk_ok_def by metis
  show ?thesis
    unfolding ccu_nk_find_best_def nk_cands_def hn hk bind.bind_lunit
    by (intro greatest_find) (auto simp del: upt_Suc simp: up_to nk_rate_def mult_range [OF hn, symmetric] mult_range [OF hk, symmetric])
qed

lemma nm_search:
  assumes "nm_ok c"
  shows "greatest_below {(n, m). n \<in> mult_values (nm_n c) \<and> m \<in> div_values (nm_m c)} (\<lambda>(n, m). (parent * of_nat n) div of_nat m) (0, 0) rate
    (ccu_nm_find_best parent rate c)"
proof -
  have ok: "mult_ok (nm_n c)" "div_ok (nm_m c)" using assms by (auto simp: nm_ok_def)
  obtain hn where hn: "mult_hi (nm_n c) = Some hn" using mult_ok_holds [OF ok(1)] by metis
  obtain hm where hm: "div_hi (nm_m c) = Some hm" using div_ok_holds [OF ok(2)] by metis
  show ?thesis
    unfolding ccu_nm_find_best_def nm_cands_def hn hm bind.bind_lunit
    using div_values_small [OF ok(2)]
    by (intro greatest_find) (auto simp del: upt_Suc simp: up_to ccu_nm_calc_rate_def do_div_small mult_range [OF hn, symmetric] div_range [OF hm, symmetric])
qed

lemma nkm_search:
  assumes "nkm_ok c"
  shows "greatest_below {(n, k, m). n \<in> mult_values (nkm_n c) \<and> k \<in> mult_values (nkm_k c) \<and> m \<in> div_values (nkm_m c)}
    (\<lambda>(n, k, m). (parent * of_nat n * of_nat k) div of_nat m) (0, 0, 0) rate (ccu_nkm_find_best parent rate c)"
proof -
  have ok: "mult_ok (nkm_n c)" "mult_ok (nkm_k c)" "div_ok (nkm_m c)" using assms by (auto simp: nkm_ok_def)
  obtain hn where hn: "mult_hi (nkm_n c) = Some hn" using mult_ok_holds [OF ok(1)] by metis
  obtain hk where hk: "mult_hi (nkm_k c) = Some hk" using mult_ok_holds [OF ok(2)] by metis
  obtain hm where hm: "div_hi (nkm_m c) = Some hm" using div_ok_holds [OF ok(3)] by metis
  show ?thesis
    unfolding ccu_nkm_find_best_def nkm_cands_def hn hk hm bind.bind_lunit
    using div_values_small [OF ok(3)]
    by (intro greatest_find) (auto simp del: upt_Suc simp: up_to nkm_rate_def do_div_small mult_range [OF hn, symmetric] mult_range [OF hk, symmetric] div_range [OF hm, symmetric])
qed

lemma nkmp_calc:
  assumes "nkmp_ok c" "m \<in> div_values (nkmp_m c)" "p \<in> pow_values (nkmp_p c)"
  shows "ccu_nkmp_calc_rate parent (n, k, m, p) = Some ((parent * (of_nat n * of_nat k)) div (of_nat m * of_nat p))"
proof -
  have ok: "div_ok (nkmp_m c)" "pow_ok (nkmp_p c)" "di_width (nkmp_m c) + 2 ^ di_width (nkmp_p c) \<le> 32" using assms(1) by (auto simp: nkmp_ok_def)
  obtain e where e: "p = 2 ^ e" "e < 2 ^ di_width (nkmp_p c)"
  proof -
    obtain e where e: "p = 2 ^ e" "if di_max (nkmp_p c) = 0 then e < 2 ^ di_width (nkmp_p c) else p \<le> di_max (nkmp_p c)"
      using assms(3) by (auto simp: pow_values_def)
    have "e < 2 ^ di_width (nkmp_p c)" if "(2 :: nat) ^ e < 2 ^ 2 ^ di_width (nkmp_p c)"
      using that by (simp only: power_strict_increasing_iff one_less_numeral_iff semiring_norm)
    then show thesis using that e ok(2) unfolding pow_ok_def by (metis le_less_trans)
  qed
  have m: "0 < m" "m \<le> 2 ^ di_width (nkmp_m c)" using div_values_small [OF ok(1) assms(2)] by auto
  have "m * p \<le> 2 ^ (di_width (nkmp_m c) + e)" using m(2) by (simp add: e(1) power_add)
  also have "\<dots> \<le> 2 ^ 31" using ok(3) e(2) by (intro power_increasing) auto
  finally have "m * p < 2 ^ 32" by simp
  moreover have "0 < m * p" using m(1) by (simp add: e(1))
  ultimately show ?thesis using do_div_small [of "m * p"] by (simp add: ccu_nkmp_calc_rate_def)
qed

lemma nkmp_search:
  assumes "nkmp_ok c"
  shows "greatest_below {(n, k, m, p). n \<in> mult_values (nkmp_n c) \<and> k \<in> mult_values (nkmp_k c) \<and> m \<in> div_values (nkmp_m c) \<and> p \<in> pow_values (nkmp_p c)}
    (\<lambda>(n, k, m, p). (parent * (of_nat n * of_nat k)) div (of_nat m * of_nat p)) (0, 0, 0, 0) rate (ccu_nkmp_find_best parent rate c)"
proof -
  have ok: "mult_ok (nkmp_n c)" "k_ok (nkmp_k c)" "div_ok (nkmp_m c)" "pow_ok (nkmp_p c)" using assms by (auto simp: nkmp_ok_def)
  obtain hn where hn: "mult_hi (nkmp_n c) = Some hn" using mult_ok_holds [OF ok(1)] by metis
  obtain hk where hk: "mult_hi (nkmp_k c) = Some hk" using k_ok_holds [OF ok(2)] by metis
  obtain hm where hm: "div_hi (nkmp_m c) = Some hm" using div_ok_holds [OF ok(3)] by metis
  obtain hp ps where hp: "pow_hi (nkmp_p c) = Some hp" "pows 64 hp = Some ps"
    by (rule pow_ok_holds [OF ok(4), of 64]) simp_all
  show ?thesis
    unfolding ccu_nkmp_find_best_def nkmp_cands_def hn hk hm hp bind.bind_lunit
    using nkmp_calc [OF assms]
    by (intro greatest_find)
      (auto simp del: upt_Suc simp: up_to mult_range [OF hn, symmetric] mult_range [OF hk, symmetric] div_range [OF hm, symmetric] pow_range [OF hp, symmetric])
qed

text \<open>The search of a clock with the factors M and P, with the limits that setting its rate gives it, in both modes.\<close>

definition mp_search_ok :: "ccu_mp \<Rightarrow> bool" where
  "mp_search_ok c \<longleftrightarrow> div_ok (mp_m c) \<and> (if has (mp_common c) CCU_FEATURE_MP_NO_INDEX_MODE then div_ok (mp_p c) else pow_ok (mp_p c))"

lemma mp_limits:
  assumes "mp_search_ok c"
  obtains hm hp ps where "div_hi (mp_m c) = Some hm" "mp_max_p c = Some hp" "pows 32 hp = Some ps"
    "mp_values c = {1..hm} \<times> set ps" "\<And>m. m \<in> {1..hm} \<Longrightarrow> m < 2 ^ 32" "\<And>p. p \<in> set ps \<Longrightarrow> 0 < p \<and> p < 2 ^ 32"
proof -
  have ok: "div_ok (mp_m c)" using assms by (simp add: mp_search_ok_def)
  obtain hm where hm: "div_hi (mp_m c) = Some hm" using div_ok_holds [OF ok] by metis
  obtain hp ps where hp: "mp_max_p c = Some hp" "pows 32 hp = Some ps"
      "set ps = (if has (mp_common c) CCU_FEATURE_MP_NO_INDEX_MODE then {p. p \<in> div_values (mp_p c) \<and> (\<exists>e. p = 2 ^ e)} else pow_values (mp_p c))"
  proof (cases "has (mp_common c) CCU_FEATURE_MP_NO_INDEX_MODE")
    case True
    then have d: "div_ok (mp_p c)" using assms by (simp add: mp_search_ok_def)
    obtain hp where hp: "div_hi (mp_p c) = Some hp" "hp \<le> 2 ^ di_width (mp_p c)" using div_ok_holds [OF d] by metis
    have "(2 :: nat) ^ di_width (mp_p c) \<le> 2 ^ 30" using d by (intro power_increasing) (auto simp: div_ok_def fits_def)
    then have "hp < 2 ^ 31" using hp(2) by simp
    then obtain ps where ps: "pows 32 hp = Some ps" by (simp add: pows_def)
    then have "set ps = {p. p \<in> {1..hp} \<and> (\<exists>e. p = 2 ^ e)}" unfolding pows_range [OF ps] by (auto simp: Suc_le_eq)
    then show thesis using that [OF _ ps] True hp(1) unfolding div_range [OF hp(1)] by (simp add: mp_max_p_def)
  next
    case False
    then have d: "pow_ok (mp_p c)" using assms by (simp add: mp_search_ok_def)
    obtain hp ps where hp: "pow_hi (mp_p c) = Some hp" "pows 32 hp = Some ps" by (rule pow_ok_holds [OF d, of 32]) simp_all
    show thesis using that [OF _ hp(2)] False hp(1) pow_range [OF hp] by (simp add: mp_max_p_def)
  qed
  have "hp < 2 ^ 31" using hp(2) by (auto simp: pows_def split: if_splits)
  then have "0 < p \<and> p < 2 ^ 32" if "p \<in> set ps" for p using that unfolding pows_range [OF hp(2)] by auto
  moreover have "m < 2 ^ 32" if "m \<in> {1..hm}" for m using that div_values_small(3) [OF ok] unfolding div_range [OF hm] by blast
  moreover have "mp_values c = {1..hm} \<times> set ps" unfolding hp(3) div_range [OF hm] by (auto simp: mp_values_def)
  ultimately show thesis using that [OF hm hp(1,2)] by blast
qed

lemma mp_search:
  assumes "mp_search_ok c"
  shows "greatest_below (mp_values c) (\<lambda>(m, p). parent div of_nat p div of_nat m) (0, 0) rate
    (do { max_m \<leftarrow> div_hi (mp_m c); max_p \<leftarrow> mp_max_p c; ccu_mp_find_best parent rate max_m max_p })"
proof -
  obtain hm hp ps where h: "div_hi (mp_m c) = Some hm" "mp_max_p c = Some hp" "pows 32 hp = Some ps" "mp_values c = {1..hm} \<times> set ps"
      "\<And>m. m \<in> {1..hm} \<Longrightarrow> m < 2 ^ 32" "\<And>p. p \<in> set ps \<Longrightarrow> 0 < p \<and> p < 2 ^ 32"
    using mp_limits [OF assms] by blast
  show ?thesis
    unfolding ccu_mp_find_best_def h(1-4) bind.bind_lunit
    using h(5,6) by (intro greatest_find) (auto simp del: upt_Suc simp: up_to mp_rate_def div64_small)
qed


section \<open>Clocks of the chip\<close>

text \<open>Four of the PLLs and one of the other clocks of the chip (\<open>ccu-sun50iw9.c\<close>), with the registers at the address \<open>b\<close>.\<close>

definition SUNXI_CCU_MULT_MIN :: "nat \<Rightarrow> nat \<Rightarrow> nat \<Rightarrow> ccu_mult_internal" where
  "SUNXI_CCU_MULT_MIN shift width mn = \<lparr>mu_offset = 1, mu_shift = shift, mu_width = width, mu_min = mn, mu_max = 0\<rparr>"

definition SUNXI_CCU_DIV :: "nat \<Rightarrow> nat \<Rightarrow> ccu_div_internal" where
  "SUNXI_CCU_DIV shift width = \<lparr>di_shift = shift, di_width = width, di_max = 0, di_offset = 1\<rparr>"

definition no_mult :: ccu_mult_internal where
  "no_mult = \<lparr>mu_offset = 0, mu_shift = 0, mu_width = 0, mu_min = 0, mu_max = 0\<rparr>"

definition no_frac :: ccu_frac_internal where
  "no_frac = \<lparr>frac_enable = 0, frac_select = 0, frac_rate0 = 0, frac_rate1 = 0\<rparr>"

definition no_sdm :: ccu_sdm_internal where
  "no_sdm = \<lparr>sdm_table = [], sdm_enable = 0, tuning_enable = 0, tuning_reg = 0\<rparr>"

definition pll_periph0_clk :: "u64 \<Rightarrow> ccu_nkmp" where
  "pll_periph0_clk b =
     \<lparr>nkmp_enable = 0x8000000, nkmp_n = SUNXI_CCU_MULT_MIN 8 8 12, nkmp_k = no_mult, nkmp_m = SUNXI_CCU_DIV 1 1,
      nkmp_p = SUNXI_CCU_DIV 0 1, nkmp_post_div = 2, nkmp_max_rate = 0,
      nkmp_common = \<lparr>base = b, reg = 0x020, prediv = 0, key_value = 0, features = CCU_FEATURE_FIXED_POSTDIV\<rparr>\<rparr>"

definition pll_gpu_clk :: "u64 \<Rightarrow> ccu_nkmp" where
  "pll_gpu_clk b =
     \<lparr>nkmp_enable = 0x8000000, nkmp_n = SUNXI_CCU_MULT_MIN 8 8 12, nkmp_k = no_mult, nkmp_m = SUNXI_CCU_DIV 1 1,
      nkmp_p = SUNXI_CCU_DIV 0 1, nkmp_post_div = 0, nkmp_max_rate = 0,
      nkmp_common = \<lparr>base = b, reg = 0x030, prediv = 0, key_value = 0, features = 0\<rparr>\<rparr>"

definition pll_video0_clk :: "u64 \<Rightarrow> ccu_nm" where
  "pll_video0_clk b =
     \<lparr>nm_enable = 0x8000000, nm_n = SUNXI_CCU_MULT_MIN 8 8 12, nm_m = SUNXI_CCU_DIV 1 1, nm_frac = no_frac, nm_sdm = no_sdm,
      nm_post_div = 4, nm_min_rate = 288000000, nm_max_rate = 2400000000,
      nm_common = \<lparr>base = b, reg = 0x040, prediv = 0, key_value = 0, features = CCU_FEATURE_FIXED_POSTDIV\<rparr>\<rparr>"

definition pll_audio_sdm_table :: "ccu_sdm_setting list" where
  "pll_audio_sdm_table =
     [\<lparr>sdm_rate = 45158400, sdm_pattern = 0xc001bcd3, sdm_m = 18, sdm_n = 33\<rparr>,
      \<lparr>sdm_rate = 49152000, sdm_pattern = 0xc001eb85, sdm_m = 20, sdm_n = 40\<rparr>,
      \<lparr>sdm_rate = 180633600, sdm_pattern = 0xc001288d, sdm_m = 3, sdm_n = 22\<rparr>,
      \<lparr>sdm_rate = 196608000, sdm_pattern = 0xc001eb85, sdm_m = 5, sdm_n = 40\<rparr>]"

definition pll_audio_4x_clk :: "u64 \<Rightarrow> ccu_nm" where
  "pll_audio_4x_clk b =
     \<lparr>nm_enable = 0x8000000, nm_n = SUNXI_CCU_MULT_MIN 8 8 12, nm_m = SUNXI_CCU_DIV 16 6, nm_frac = no_frac,
      nm_sdm = \<lparr>sdm_table = pll_audio_sdm_table, sdm_enable = 0x1000000, tuning_enable = 0x80000000, tuning_reg = 0x178\<rparr>,
      nm_post_div = 2, nm_min_rate = 0, nm_max_rate = 0,
      nm_common = \<lparr>base = b, reg = 0x078, prediv = 0, key_value = 0,
        features = CCU_FEATURE_FIXED_POSTDIV OR CCU_FEATURE_SIGMA_DELTA_MOD\<rparr>\<rparr>"

text \<open>The clock of the first memory card.\<close>

definition mmc0_clk :: "u64 \<Rightarrow> ccu_mp" where
  "mmc0_clk b =
     \<lparr>mp_enable = 0x80000000, mp_m = SUNXI_CCU_DIV 0 4, mp_p = SUNXI_CCU_DIV 8 2,
      mp_mux = \<lparr>mux_shift = 24, mux_width = 2, mux_table = None, fixed_predivs = [], var_predivs = []\<rparr>, mp_post_div = 0,
      mp_common = \<lparr>base = b, reg = 0x830, prediv = 0, key_value = 0, features = 0\<rparr>\<rparr>"

lemmas chip_defs = SUNXI_CCU_MULT_MIN_def SUNXI_CCU_DIV_def no_mult_def no_frac_def no_sdm_def

lemma chip_clocks_ok: "nkmp_ok (pll_periph0_clk b)" "nkmp_ok (pll_gpu_clk b)" "nm_ok (pll_video0_clk b)" "nm_ok (pll_audio_4x_clk b)"
    "mp_ok (mmc0_clk b)"
  by (simp_all add: mmc0_clk_def mp_ok_def has_def nkmp_ok_def nm_ok_def mult_ok_def div_ok_def k_ok_def pow_ok_def fits_def apart_def mult_lo_def
      pll_periph0_clk_def pll_gpu_clk_def pll_video0_clk_def pll_audio_4x_clk_def chip_defs)

lemma audio_bits: "nm_bits (pll_audio_4x_clk b) = 0x3FFF00"
  by (simp add: nm_bits_def nm_layout_def masks_def mult_entry_def div_entry_def pll_audio_4x_clk_def chip_defs mask_eq_exp_minus_1 push_bit_eq_mult)

lemma audio_features:
  "has (nm_common (pll_audio_4x_clk b)) CCU_FEATURE_SIGMA_DELTA_MOD" "has (nm_common (pll_audio_4x_clk b)) CCU_FEATURE_FIXED_POSTDIV"
  "\<not> has (nm_common (pll_audio_4x_clk b)) CCU_FEATURE_FRACTIONAL"
  by (simp_all add: pll_audio_4x_clk_def has_def feature_defs)

lemma audio_sdm_ok: "sdm_ok (pll_audio_4x_clk b)"
  unfolding sdm_ok_def audio_bits
  by (simp add: audio_features) (simp add: pll_audio_4x_clk_def pll_audio_sdm_table_def sdm_addr_def ccu_addr_def holds_def chip_defs)


text \<open>
  The clock of chip \<open>sun8iw20\<close> whose register has its divider P, of five bits, itself. Rounding takes for it the largest P of the other
  mode, two to the thirty-first, which does not fit an \<open>int\<close>: rounding a rate for it is undefined, whatever the rate.
\<close>

definition fanout_27m_clk :: "u64 \<Rightarrow> ccu_mp" where
  "fanout_27m_clk b =
     \<lparr>mp_enable = 0x80000000, mp_m = SUNXI_CCU_DIV 8 2, mp_p = SUNXI_CCU_DIV 0 5,
      mp_mux = \<lparr>mux_shift = 24, mux_width = 2, mux_table = None, fixed_predivs = [], var_predivs = []\<rparr>, mp_post_div = 0,
      mp_common = \<lparr>base = b, reg = 0xf34, prediv = 0, key_value = 0, features = CCU_FEATURE_MP_NO_INDEX_MODE\<rparr>\<rparr>"

lemma fanout_27m_ok: "mp_search_ok (fanout_27m_clk b)"
  by (simp add: mp_search_ok_def fanout_27m_clk_def has_def feature_defs div_ok_def fits_def chip_defs)

lemma fanout_27m_round_undefined: "ccu_mp_round_rate env (fanout_27m_clk b) p parent_rate rate = None"
  by (simp add: ccu_mp_round_rate_def fanout_27m_clk_def chip_defs pow_hi_def int_bit_def Let_def)

lemma set_zero_bits:
  assumes "nm_ok c" "mu_offset (nm_n c) = 1"
  shows "\<exists>v. nm_write c (0, 0) x = Some v \<and> (\<forall>i. mu_shift (nm_n c) \<le> i \<longrightarrow> i < 32 \<longrightarrow> bit v i)"
proof -
  have "fits (mu_shift (nm_n c)) (mu_width (nm_n c))" "fits (di_shift (nm_m c)) (di_width (nm_m c))"
    using assms(1) by (auto simp: nm_ok_def mult_ok_def div_ok_def)
  then show ?thesis using assms(2) by (simp add: nm_write_def GENMASK_fits factor_bits_def bit_simps)
qed

text \<open>
  At a rate that no factors come near, rounding divides by the factor zero, and setting the rate reports success although it has set
  every bit of the register from the field of N upwards, the enable bits and the other fields among them.
\<close>

theorem ccu_nm_unattainable:
  assumes "nm_ok c" "mu_offset (nm_n c) = 1" "\<not> has (nm_common c) CCU_FEATURE_FRACTIONAL"
    "\<not> attainable nm_cands ccu_nm_calc_rate parent (post_mul (nm_common c) (nm_post_div c) rate) c"
    "\<not> ccu_sdm_helper_has_rate (nm_common c) (nm_sdm c) (post_mul (nm_common c) (nm_post_div c) rate)"
    "ucast (nm_min_rate c) \<le> post_mul (nm_common c) (nm_post_div c) rate"
    "nm_max_rate c = 0 \<or> post_mul (nm_common c) (nm_post_div c) rate \<le> ucast (nm_max_rate c)"
    "key_bits st (ccu_addr (nm_common c)) = 0"
  shows "ccu_nm_round_rate c rate parent = None \<and>
    (\<exists>st'. ccu_nm_set_rate c rate parent st = Some (0, st') \<and>
      (\<forall>i. mu_shift (nm_n c) \<le> i \<longrightarrow> i < 32 \<longrightarrow> bit (readl (ccu_addr (nm_common c)) st') i))"
proof -
  let ?want = "post_mul (nm_common c) (nm_post_div c) rate"
  let ?st = "ccu_sdm_helper_disable (nm_common c) (nm_sdm c) st"
  have f: "ccu_nm_find_best parent ?want c = Some (0, 0)"
    using nm.finds [OF assms(1), of parent ?want] assms(4) by (simp add: finds_best_def best_factors_def ccu_nm_find_best_def)
  have "ccu_nm_round_rate c rate parent = None"
    using f assms(5,6,7) by (auto simp: ccu_nm_round_rate_def Let_def frac_absent [OF assms(3)] ccu_nm_calc_rate_def do_div_def)
  moreover obtain v where v: "nm_write c (0, 0) (readl (ccu_addr (nm_common c)) ?st) = Some v"
      "\<forall>i. mu_shift (nm_n c) \<le> i \<longrightarrow> i < 32 \<longrightarrow> bit v i"
    using set_zero_bits [OF assms(1,2)] by blast
  moreover have "ccu_nm_set_rate c rate parent st = Some (0, writel v (ccu_addr (nm_common c)) ?st)"
    using f v(1) assms(5) by (simp add: ccu_nm_set_rate_def Let_def frac_absent [OF assms(3)])
  ultimately show ?thesis using assms(8) by (simp add: sdm_disable_frame)
qed

text \<open>
  The audio PLL reports the four rates it is there for: for each of them rounding gives the rate itself, and after setting it the rate
  that the table of the modulation has for the registers is that rate. The two dividers in the low bits of the register, which the
  probe of the chip sets, are not looked at.
\<close>

theorem pll_audio_exact:
  assumes "rate \<in> {22579200, 24576000, 90316800, 98304000}" "key_bits st = (\<lambda>_. 0)"
  shows "ccu_nm_round_rate (pll_audio_4x_clk b) rate parent = Some rate \<and>
    (\<exists>st'. ccu_nm_set_rate (pll_audio_4x_clk b) rate parent st = Some (0, st') \<and>
      ccu_nm_recalc_rate (pll_audio_4x_clk b) parent st' = Some rate \<and>
      (\<forall>a. a \<noteq> b + 0x78 \<longrightarrow> a \<noteq> b + 0x178 \<longrightarrow> readl a st' = readl a st))"
proof -
  let ?c = "pll_audio_4x_clk b"
  have "2 * rate \<in> sdm_rate ` set pll_audio_sdm_table" "2 * rate div 2 = rate"
    using assms(1) by (auto simp: pll_audio_sdm_table_def)
  then obtain e where e: "e \<in> set pll_audio_sdm_table" "sdm_rate e = 2 * rate" "2 * rate div 2 = rate" by (metis imageE)
  have c: "sdm_table (nm_sdm ?c) = pll_audio_sdm_table" "nm_post_div ?c = 2" "nm_min_rate ?c = 0" "nm_max_rate ?c = 0"
      "ccu_addr (nm_common ?c) = b + 0x78" "sdm_addr (nm_common ?c) (nm_sdm ?c) = b + 0x178"
    by (simp_all add: pll_audio_4x_clk_def ccu_addr_def sdm_addr_def)
  show ?thesis
    using ccu_nm_sdm_exact [OF chip_clocks_ok(4) audio_sdm_ok, of e b rate st parent] e assms(2)
    by (simp add: c audio_features post_mul_def post_div_def do_div_def mult.commute)
qed

definition some_nk :: ccu_nk where
  "some_nk = \<lparr>nk_enable = 0x80000000, nk_n = SUNXI_CCU_MULT_MIN 8 5 1, nk_k = SUNXI_CCU_MULT_MIN 4 2 1, nk_post_div = 0,
     nk_common = \<lparr>base = 0, reg = 0x28, prediv = 0, key_value = 0, features = 0\<rparr>\<rparr>"

definition some_nkm :: ccu_nkm where
  "some_nkm = \<lparr>nkm_enable = 0x80000000, nkm_n = SUNXI_CCU_MULT_MIN 8 5 1, nkm_k = SUNXI_CCU_MULT_MIN 4 2 1,
     nkm_m = SUNXI_CCU_DIV 0 2, nkm_mux = \<lparr>mux_shift = 24, mux_width = 2, mux_table = None, fixed_predivs = [], var_predivs = []\<rparr>,
     nkm_post_div = 0, nkm_common = \<lparr>base = 0, reg = 0x40, prediv = 0, key_value = 0, features = 0\<rparr>\<rparr>"

lemma some_clocks_ok: "nk_ok some_nk" "nkm_ok some_nkm"
  by (simp_all add: nk_ok_def nkm_ok_def mult_ok_def div_ok_def fits_def apart_def mult_lo_def some_nk_def some_nkm_def chip_defs)


lemma attainable_intro:
  "cands c = Some fs \<Longrightarrow> f \<in> set fs \<Longrightarrow> calc parent f = Some r \<Longrightarrow> 0 < r \<Longrightarrow> r \<le> rate \<Longrightarrow> attainable cands calc parent rate c"
  by (auto simp: attainable_def)

lemma nkmp_attainable:
  assumes "mult_hi (nkmp_n c) = Some hn" "mult_hi (nkmp_k c) = Some hk" "div_hi (nkmp_m c) = Some hm" "pow_hi (nkmp_p c) = Some hp"
    "pows 64 hp = Some ps" "n \<in> {mult_lo (nkmp_n c)..hn}" "k \<in> {mult_lo (nkmp_k c)..hk}" "m \<in> {1..hm}" "p \<in> set ps"
    "ccu_nkmp_calc_rate parent (n, k, m, p) = Some r" "0 < r" "r \<le> rate"
  shows "attainable nkmp_cands ccu_nkmp_calc_rate parent rate c"
proof -
  obtain fs where "nkmp_cands c = Some fs" "(n, k, m, p) \<in> set fs" using assms(1-9) by (simp add: nkmp_cands_def) force
  then show ?thesis using assms(10-12) by (rule attainable_intro)
qed

lemma periph0_attainable: "attainable nkmp_cands ccu_nkmp_calc_rate 24000000 1200000000 (pll_periph0_clk b)"
proof -
  have "[0..<64] = 0 # 1 # 2 # [3..<64]" by (simp add: upt_conv_Cons)
  then have p: "pows 64 2 = Some [1, 2]" by (simp add: pows_def)
  have r: "ccu_nkmp_calc_rate 24000000 (50, 1, 1, 1) = Some 1200000000" "(0 :: u64) < 1200000000" "(1200000000 :: u64) \<le> 1200000000"
    by (simp_all add: ccu_nkmp_calc_rate_def do_div_def)
  show ?thesis
    by (rule nkmp_attainable [OF _ _ _ _ p _ _ _ _ r, where hn = 256 and hk = 1 and hm = 2])
      (simp_all add: pll_periph0_clk_def chip_defs mult_hi_def div_hi_def pow_hi_def int_bit_def mult_lo_def)
qed

theorem ccu_nkmp_set_recalc_witness:
  "\<exists>q st'. ccu_nkmp_round_rate (pll_periph0_clk 0x3001000) 600000000 24000000 = Some q \<and> q \<le> 600000000 \<and>
     ccu_nkmp_set_rate (pll_periph0_clk 0x3001000) 600000000 24000000 \<lparr>regs = (\<lambda>_. 0xA8003100), key_bits = (\<lambda>_. 0)\<rparr> = Some (0, st') \<and>
     ccu_nkmp_recalc_rate (pll_periph0_clk 0x3001000) 24000000 st' = Some q"
proof -
  let ?c = "pll_periph0_clk 0x3001000" and ?st = "\<lparr>regs = (\<lambda>_. 0xA8003100), key_bits = (\<lambda>_. 0)\<rparr> :: ccu"
  have c: "nkmp_post_div ?c = 2" "nkmp_max_rate ?c = 0" by (simp_all add: pll_periph0_clk_def)
  have w: "post_mul (nkmp_common ?c) 2 600000000 = 1200000000"
    by (simp add: pll_periph0_clk_def post_mul_def has_def feature_defs)
  show ?thesis
    using ccu_nkmp_set_recalc [OF chip_clocks_ok(1), of 24000000 "0x3001000" 600000000 ?st] periph0_attainable by (auto simp: c w)
qed

lemma video0_attainable: "attainable nm_cands ccu_nm_calc_rate 24000000 1188000000 (pll_video0_clk b)"
proof -
  let ?fs = "[(n, m). n \<leftarrow> [12..<257], m \<leftarrow> [1..<3]] :: (nat \<times> nat) list"
  have "nm_cands (pll_video0_clk b) = Some ?fs"
    by (simp add: nm_cands_def pll_video0_clk_def chip_defs mult_hi_def div_hi_def int_bit_def mult_lo_def del: upt_Suc)
  moreover have "(49, 1) \<in> set ?fs" by simp
  moreover have "ccu_nm_calc_rate 24000000 (49, 1) = Some 1176000000" by (simp add: ccu_nm_calc_rate_def do_div_def)
  moreover have "(0 :: u64) < 1176000000" "(1176000000 :: u64) \<le> 1188000000" by simp_all
  ultimately show ?thesis by (rule attainable_intro)
qed

lemma video0_facts:
  "nm_post_div (pll_video0_clk b) = 4" "nm_min_rate (pll_video0_clk b) = 288000000" "nm_max_rate (pll_video0_clk b) = 2400000000"
  "\<not> has (nm_common (pll_video0_clk b)) CCU_FEATURE_FRACTIONAL"
  "\<not> ccu_sdm_helper_has_rate (nm_common (pll_video0_clk b)) (nm_sdm (pll_video0_clk b)) rate"
  "sdm_addr (nm_common (pll_video0_clk b)) (nm_sdm (pll_video0_clk b)) \<noteq> ccu_addr (nm_common (pll_video0_clk b))"
  "post_mul (nm_common (pll_video0_clk b)) 4 rate = rate * 4" "mu_offset (nm_n (pll_video0_clk b)) = 1"
  by (simp_all add: pll_video0_clk_def has_def feature_defs ccu_sdm_helper_has_rate_def sdm_addr_def ccu_addr_def post_mul_def chip_defs)

theorem ccu_nm_set_recalc_witness:
  "\<exists>q st'. ccu_nm_round_rate (pll_video0_clk 0x3001000) 297000000 24000000 = Some q \<and> q \<le> 297000000 \<and>
     ccu_nm_set_rate (pll_video0_clk 0x3001000) 297000000 24000000 \<lparr>regs = (\<lambda>_. 0xA8003100), key_bits = (\<lambda>_. 0)\<rparr> = Some (0, st') \<and>
     ccu_nm_recalc_rate (pll_video0_clk 0x3001000) 24000000 st' = Some q"
proof -
  let ?c = "pll_video0_clk 0x3001000" and ?st = "\<lparr>regs = (\<lambda>_. 0xA8003100), key_bits = (\<lambda>_. 0)\<rparr> :: ccu"
  show ?thesis
    using ccu_nm_set_recalc [OF chip_clocks_ok(3), of 24000000 "0x3001000" 297000000 ?st] video0_attainable
    by (auto simp: video0_facts)
qed

theorem ccu_nm_unattainable_witness:
  "ccu_nm_round_rate (pll_audio_4x_clk 0x3001000) 0 24000000 = None \<and>
   (\<exists>st'. ccu_nm_set_rate (pll_audio_4x_clk 0x3001000) 0 24000000 \<lparr>regs = (\<lambda>_. 0), key_bits = (\<lambda>_. 0)\<rparr> = Some (0, st') \<and>
     (\<forall>i. 8 \<le> i \<longrightarrow> i < 32 \<longrightarrow> bit (readl 0x3001078 st') i))"
proof -
  let ?c = "pll_audio_4x_clk 0x3001000" and ?st = "\<lparr>regs = (\<lambda>_. 0), key_bits = (\<lambda>_. 0)\<rparr> :: ccu"
  have c: "mu_offset (nm_n ?c) = 1" "mu_shift (nm_n ?c) = 8" "nm_post_div ?c = 2" "nm_min_rate ?c = 0" "nm_max_rate ?c = 0"
      "ccu_addr (nm_common ?c) = 0x3001078" "\<not> ccu_sdm_helper_has_rate (nm_common ?c) (nm_sdm ?c) 0"
    by (simp_all add: pll_audio_4x_clk_def chip_defs ccu_addr_def ccu_sdm_helper_has_rate_def pll_audio_sdm_table_def)
  have "\<not> attainable nm_cands ccu_nm_calc_rate 24000000 0 ?c" by (auto simp: attainable_def)
  moreover have "post_mul (nm_common ?c) 2 0 = 0" by (simp add: post_mul_def)
  ultimately show ?thesis
    using ccu_nm_unattainable [OF chip_clocks_ok(4), of "0x3001000" 24000000 0 ?st] by (simp add: c audio_features)
qed

theorem pll_audio_exact_witness:
  "ccu_nm_round_rate (pll_audio_4x_clk 0x3001000) 24576000 24000000 = Some 24576000 \<and>
   (\<exists>st'. ccu_nm_set_rate (pll_audio_4x_clk 0x3001000) 24576000 24000000 \<lparr>regs = (\<lambda>_. 0xFFFFFFFF), key_bits = (\<lambda>_. 0)\<rparr> = Some (0, st') \<and>
      ccu_nm_recalc_rate (pll_audio_4x_clk 0x3001000) 24000000 st' = Some 24576000)"
  using pll_audio_exact [of 24576000 "\<lparr>regs = (\<lambda>_. 0xFFFFFFFF), key_bits = (\<lambda>_. 0)\<rparr>" "0x3001000" 24000000] by auto

end
