(* ===== verification/Ccu_Control.thy ===== *)
theory Ccu_Control
  imports Ccu_Common
begin

text \<open>
  What the common part of the clock control unit (\<open>Ccu_Common\<close>) promises: the registers come back after a sleep, a parent that
  was set is the one that is read, the notifier moves the processor away from its clock and back, the choice of the parent takes
  the best rate, and a failed probe leaves nothing registered but the lookups of a debugging kernel.
\<close>

unbundle bit_operations_syntax

section \<open>Suspend and resume\<close>

definition dump_addrs :: "reg_cache \<Rightarrow> u64 set" where
  "dump_addrs c = (\<lambda>(off, v). reg_base c + ucast off) ` set (rdump c)"

definition suspend_addrs :: "reg_cache \<Rightarrow> u64 set" where
  "suspend_addrs c = (\<lambda>(off, v). reg_base c + ucast off) ` set (rsuspend c)"

text \<open>The caches are saved one after the other, and each writes its own values for the sleep before the next is saved.\<close>

definition sleep_ok :: "reg_cache list \<Rightarrow> bool" where
  "sleep_ok caches \<longleftrightarrow> sorted_wrt (\<lambda>c d. suspend_addrs c \<inter> dump_addrs d = {}) caches"

lemma restore_key [simp]: "key_bits (ccu_restore b rd st) = key_bits st"
  unfolding ccu_restore_def by (induction rd arbitrary: st) auto

lemma restore_other: "a \<notin> (\<lambda>(off, v). b + ucast off) ` set rd \<Longrightarrow> readl a (ccu_restore b rd st) = readl a st"
  unfolding ccu_restore_def by (induction rd arbitrary: st) (auto simp: image_iff)

text \<open>A register that has the value, or is given it, has the value in the end.\<close>

lemma restore_value:
  assumes "\<And>off v. (off, v) \<in> set rd \<Longrightarrow> b + ucast off = a \<Longrightarrow> v AND NOT (key_bits st a) = x"
    "a \<in> (\<lambda>(off, v). b + ucast off) ` set rd \<or> readl a st = x"
  shows "readl a (ccu_restore b rd st) = x"
  using assms
proof (induction rd arbitrary: st)
  case (Cons p rd)
  obtain off v where p: "p = (off, v)" by (cases p)
  have s: "ccu_restore b (p # rd) st = ccu_restore b rd (writel v (b + ucast off) st)" by (simp add: ccu_restore_def p)
  have "a \<in> (\<lambda>(off, v). b + ucast off) ` set rd \<or> readl a (writel v (b + ucast off) st) = x"
    using Cons.prems(2) Cons.prems(1) [of off v] by (auto simp: p)
  then show ?case unfolding s using Cons.prems(1) by (intro Cons.IH) auto
qed (simp add: ccu_restore_def)

lemma suspend_saves:
  assumes "sleep_ok caches" "ccu_suspend caches st = (caches', st')"
  shows "map (\<lambda>c. (reg_base c, map fst (rdump c))) caches' = map (\<lambda>c. (reg_base c, map fst (rdump c))) caches"
    "c \<in> set caches' \<Longrightarrow> (off, v) \<in> set (rdump c) \<Longrightarrow> v = readl (reg_base c + ucast off) st"
proof -
  have "map (\<lambda>c. (reg_base c, map fst (rdump c))) caches' = map (\<lambda>c. (reg_base c, map fst (rdump c))) caches \<and>
    (\<forall>c \<in> set caches'. \<forall>(off, v) \<in> set (rdump c). v = readl (reg_base c + ucast off) st)"
    using assms
  proof (induction caches arbitrary: st caches' st')
    case (Cons c cs)
    let ?st = "ccu_restore (reg_base c) (rsuspend c) st"
    obtain cs' where cs': "ccu_suspend cs ?st = (cs', st')" "caches' = c\<lparr>rdump := ccu_save (reg_base c) (rdump c) st\<rparr> # cs'"
      using Cons.prems(2) by (auto simp: Let_def split: prod.splits)
    have ok: "sleep_ok cs" "\<And>d. d \<in> set cs \<Longrightarrow> suspend_addrs c \<inter> dump_addrs d = {}" using Cons.prems(1) by (auto simp: sleep_ok_def)
    have IH: "map (\<lambda>c. (reg_base c, map fst (rdump c))) cs' = map (\<lambda>c. (reg_base c, map fst (rdump c))) cs"
      "\<And>d off v. d \<in> set cs' \<Longrightarrow> (off, v) \<in> set (rdump d) \<Longrightarrow> v = readl (reg_base d + ucast off) ?st"
      using Cons.IH [OF ok(1) cs'(1)] by auto
    have "v = readl (reg_base d + ucast off) st" if d: "d \<in> set cs'" "(off, v) \<in> set (rdump d)" for d off v
    proof -
      have "(reg_base d, map fst (rdump d)) \<in> set (map (\<lambda>c. (reg_base c, map fst (rdump c))) cs)"
        unfolding IH(1) [symmetric] using d(1) by simp
      then obtain d0 where d0: "d0 \<in> set cs" "reg_base d0 = reg_base d" "map fst (rdump d0) = map fst (rdump d)" by auto
      have "off \<in> set (map fst (rdump d0))" unfolding d0(3) using d(2) by force
      then have "reg_base d + ucast off \<in> dump_addrs d0" using d0(2) by (force simp: dump_addrs_def)
      then have "reg_base d + ucast off \<notin> suspend_addrs c" using ok(2) [OF d0(1)] by blast
      then show ?thesis using IH(2) [OF d] restore_other unfolding suspend_addrs_def by metis
    qed
    then show ?case unfolding cs'(2) using IH(1) by (auto simp: ccu_save_def)
  qed simp
  then show "map (\<lambda>c. (reg_base c, map fst (rdump c))) caches' = map (\<lambda>c. (reg_base c, map fst (rdump c))) caches"
    "c \<in> set caches' \<Longrightarrow> (off, v) \<in> set (rdump c) \<Longrightarrow> v = readl (reg_base c + ucast off) st" by auto
qed

lemma resume_value:
  assumes "\<And>c off v. c \<in> set caches \<Longrightarrow> (off, v) \<in> set (rdump c) \<Longrightarrow> reg_base c + ucast off = a \<Longrightarrow> v AND NOT (key_bits st a) = x"
    "(\<exists>c\<in>set caches. a \<in> dump_addrs c) \<or> readl a st = x"
  shows "readl a (ccu_resume caches st) = x"
  using assms
proof (induction caches arbitrary: st)
  case (Cons c cs)
  let ?st = "ccu_restore (reg_base c) (rdump c) st"
  have v: "readl a ?st = x" if "a \<in> dump_addrs c \<or> readl a st = x"
    using that Cons.prems(1) by (intro restore_value) (auto simp: dump_addrs_def)
  have "readl a (ccu_resume cs ?st) = x"
  proof (rule Cons.IH)
    show "v AND NOT (key_bits ?st a) = x" if "d \<in> set cs" "(off, v) \<in> set (rdump d)" "reg_base d + ucast off = a" for d off v
      using Cons.prems(1) [of d off v] that by simp
    show "(\<exists>c\<in>set cs. a \<in> dump_addrs c) \<or> readl a ?st = x" using Cons.prems(2) v by auto
  qed
  then show ?case by simp
qed simp

text \<open>
  C38. Every register that the sleep of the clock unit dumps reads after the resume as it read before the suspend, whatever the
  power cut made of the registers, as long as no cache overwrites for the sleep what a later one has still to save.
\<close>

theorem ccu_sleep_restores:
  assumes "sleep_ok caches" "ccu_suspend caches st = (caches', st1)" "key_bits st2 = key_bits st" "c \<in> set caches" "a \<in> dump_addrs c"
  shows "readl a (ccu_resume caches' st2) = readl a st"
proof (rule resume_value)
  note s = suspend_saves [OF assms(1,2)]
  show "v AND NOT (key_bits st2 a) = readl a st" if "d \<in> set caches'" "(off, v) \<in> set (rdump d)" "reg_base d + ucast off = a" for d off v
    using s(2) [OF that(1,2)] that(3) assms(3) readl_hidden by metis
  have "(reg_base c, map fst (rdump c)) \<in> set (map (\<lambda>c. (reg_base c, map fst (rdump c))) caches')" unfolding s(1) using assms(4) by simp
  then obtain d where d: "d \<in> set caches'" "reg_base d = reg_base c" "map fst (rdump d) = map fst (rdump c)" by auto
  obtain off v where "(off, v) \<in> set (rdump c)" "a = reg_base c + ucast off" using assms(5) by (auto simp: dump_addrs_def)
  then have "off \<in> set (map fst (rdump d))" "a = reg_base d + ucast off" unfolding d(2,3) by force+
  then have "a \<in> dump_addrs d" by (force simp: dump_addrs_def)
  then show "(\<exists>c\<in>set caches'. a \<in> dump_addrs c) \<or> readl a st2 = readl a st" using d(1) by blast
qed

theorem ccu_sleep_restores_witness:
  "let caches = sunxi_ccu_sleep_init 0x3001000 [\<lparr>base = 0x3001000, reg = 0x20, prediv = 0, key_value = 0, features = 0\<rparr>] [(0x500, 1)] [];
       (caches', st1) = ccu_suspend caches \<lparr>regs = (\<lambda>_. 7), key_bits = (\<lambda>_. 0)\<rparr> in
   readl 0x3001020 (ccu_resume caches' \<lparr>regs = (\<lambda>_. 0), key_bits = (\<lambda>_. 0)\<rparr>) = 7"
proof -
  let ?caches = "sunxi_ccu_sleep_init 0x3001000 [\<lparr>base = 0x3001000, reg = 0x20, prediv = 0, key_value = 0, features = 0\<rparr>] [(0x500, 1)] []"
  let ?c = "\<lparr>reg_base = 0x3001000, rdump = [(0x20, 0)], rsuspend = [(0x500, 1)]\<rparr> :: reg_cache"
  have "?caches = [?c]" by (simp add: sunxi_ccu_sleep_init_def ccu_alloc_reg_dump_def)
  moreover have "sleep_ok [?c]" "0x3001020 \<in> dump_addrs ?c" by (simp_all add: sleep_ok_def dump_addrs_def)
  ultimately show ?thesis
    using ccu_sleep_restores [of ?caches "\<lparr>regs = (\<lambda>_. 7), key_bits = (\<lambda>_. 0)\<rparr>" _ _ "\<lparr>regs = (\<lambda>_. 0), key_bits = (\<lambda>_. 0)\<rparr>" ?c "0x3001020"]
    by (auto simp: Let_def readl_def split: prod.splits)
qed

section \<open>Parents\<close>

text \<open>
  The field of the parent is inside of the register and of a byte, its bits are not hidden and do not overlap the key, and the
  table has a different entry for each parent.
\<close>

definition mux_ok :: "clk_env \<Rightarrow> ccu_common \<Rightarrow> ccu_mux_internal \<Rightarrow> ccu \<Rightarrow> bool" where
  "mux_ok env common cm st \<longleftrightarrow>
     0 < mux_width cm \<and> mux_width cm \<le> 8 \<and> mux_shift cm + mux_width cm \<le> 32 \<and>
     key_bits st (ccu_addr common) AND push_bit (mux_shift cm) (mask (mux_width cm)) = 0 \<and>
     (case mux_table cm of
        None \<Rightarrow> True
      | Some t \<Rightarrow> distinct t \<and> length t = length (parents env) \<and> length t \<le> 256 \<and> list_all (\<lambda>v. unat v < 2 ^ mux_width cm) t)"

definition parent_ok :: "ccu_mux_internal \<Rightarrow> byte \<Rightarrow> bool" where
  "parent_ok cm i \<longleftrightarrow> (case mux_table cm of None \<Rightarrow> unat i < 2 ^ mux_width cm | Some t \<Rightarrow> unat i < length t)"

lemma small_byte: "unat (x :: byte) < 2 ^ w \<Longrightarrow> take_bit w x = x"
  by (rule word_unat_eq_iff [THEN iffD2]) (simp add: unsigned_take_bit_eq take_bit_nat_eq_self)

lemma field_byte:
  fixes v :: u32
  assumes "0 < w" "w \<le> 8" "lo + w \<le> 32" "take_bit w (x :: byte) = x" "k AND push_bit lo (mask w) = (0 :: u32)"
  shows "ucast (drop_bit lo ((v AND NOT (push_bit lo (mask w)) OR push_bit lo (ucast x)) AND NOT k)) AND mask w = x"
proof (rule bit_word_eqI)
  fix n assume n: "n < LENGTH(8)"
  have x: "bit x n \<Longrightarrow> n < w" using assms(4) by (metis bit_take_bit_iff)
  have "n < w \<Longrightarrow> \<not> bit k (lo + n)"
  proof
    assume "n < w" "bit k (lo + n)"
    moreover have "bit (k AND push_bit lo (mask w)) (lo + n) = False" unfolding assms(5) by simp
    ultimately show False using assms(3) by (simp add: bit_simps)
  qed
  then show "bit (ucast (drop_bit lo ((v AND NOT (push_bit lo (mask w)) OR push_bit lo (ucast x)) AND NOT k)) AND mask w :: byte) n = bit x n"
    using n x assms(2,3) by (auto simp: bit_simps)
qed

lemma find_table_hit:
  assumes "distinct t" "length t \<le> 256" "j \<le> i" "i < length t" "i < j + n" "j + n \<le> length t"
  shows "find_table t (t ! i) j n = Some (Some (of_nat i))"
  using assms(3,5,6)
proof (induction n arbitrary: j)
  case (Suc n)
  show ?case
  proof (cases "j = i")
    case True
    then show ?thesis using assms(4) by simp
  next
    case False
    then have "t ! j \<noteq> t ! i" using assms(1,4) Suc.prems by (simp add: nth_eq_iff_index_eq)
    then show ?thesis using Suc False by simp
  qed
qed simp

lemma set_get_parent:
  assumes "mux_ok env common cm st" "parent_ok cm i"
  shows "\<exists>st'. ccu_mux_helper_set_parent common cm i st = Some (0, st') \<and> ccu_mux_helper_get_parent env common cm st' = Some i \<and>
    key_bits st' = key_bits st \<and> (\<forall>b. b \<noteq> ccu_addr common \<longrightarrow> readl b st' = readl b st)"
proof -
  have ok: "0 < mux_width cm" "mux_width cm \<le> 8" "mux_shift cm + mux_width cm \<le> 32"
      "key_bits st (ccu_addr common) AND push_bit (mux_shift cm) (mask (mux_width cm)) = 0"
    using assms(1) by (auto simp: mux_ok_def)
  define x where "x = (case mux_table cm of None \<Rightarrow> i | Some t \<Rightarrow> t ! unat i)"
  have x: "(case mux_table cm of None \<Rightarrow> Some i | Some t \<Rightarrow> arr_get t (unat i)) = Some x" "take_bit (mux_width cm) x = x"
    using assms by (auto simp: x_def mux_ok_def parent_ok_def arr_get_def list_all_length small_byte split: option.splits)
  let ?v = "(with_key common (readl (ccu_addr common) st) AND NOT (push_bit (mux_shift cm) (mask (mux_width cm)))) OR
    push_bit (mux_shift cm) (ucast x)"
  have g: "GENMASK (mux_shift cm) (mux_width cm) = Some (push_bit (mux_shift cm) (mask (mux_width cm)))"
    using ok by (simp add: GENMASK_def)
  define st' where "st' = (if has common CCU_FEATURE_REPEAT_SET_MUX then writel ?v (ccu_addr common) (writel ?v (ccu_addr common) st)
    else writel ?v (ccu_addr common) st)"
  have s: "ccu_mux_helper_set_parent common cm i st = Some (0, st')"
    unfolding ccu_mux_helper_set_parent_def x(1) g st'_def by (simp add: Let_def)
  have "readl (ccu_addr common) st' = ?v AND NOT (key_bits st (ccu_addr common))" by (simp add: st'_def)
  then have f: "ucast (drop_bit (mux_shift cm) (readl (ccu_addr common) st')) AND mask (mux_width cm) = x"
    using field_byte [OF ok(1-3) x(2) ok(4)] by simp
  have "ccu_mux_helper_get_parent env common cm st' = Some i"
  proof (cases "mux_table cm")
    case None
    then show ?thesis using ok f by (simp add: ccu_mux_helper_get_parent_def Let_def x_def)
  next
    case (Some t)
    then have "find_table t (t ! unat i) 0 (length (parents env)) = Some (Some (of_nat (unat i)))"
      using assms by (intro find_table_hit) (auto simp: mux_ok_def parent_ok_def)
    then show ?thesis using Some ok f by (simp add: ccu_mux_helper_get_parent_def Let_def x_def)
  qed
  then show ?thesis using s by (auto simp: st'_def)
qed

text \<open>
  C39. Before the clock of the processor changes, the notifier moves the processor to the bypass parent, and after the change back to the
  parent it had, whatever happened to the registers in between; this needs only that both are parents of the table.
\<close>

theorem ccu_mux_notifier_returns:
  assumes "mux_ok env (nb_common nb) (nb_cm nb) st" "ccu_mux_helper_get_parent env (nb_common nb) (nb_cm nb) st = Some i"
    "parent_ok (nb_cm nb) i" "parent_ok (nb_cm nb) (bypass_index nb)"
  shows "\<exists>nb1 st1. ccu_mux_notifier_cb env PRE_RATE_CHANGE nb st = Some (0, nb1, st1) \<and>
    ccu_mux_helper_get_parent env (nb_common nb) (nb_cm nb) st1 = Some (bypass_index nb) \<and>
    (\<forall>st2. key_bits st2 = key_bits st1 \<longrightarrow>
      (\<exists>st3. ccu_mux_notifier_cb env POST_RATE_CHANGE nb1 st2 = Some (0, nb1, st3) \<and>
        ccu_mux_helper_get_parent env (nb_common nb) (nb_cm nb) st3 = Some i))"
proof -
  obtain st1 where s1: "ccu_mux_helper_set_parent (nb_common nb) (nb_cm nb) (bypass_index nb) st = Some (0, st1)"
      "ccu_mux_helper_get_parent env (nb_common nb) (nb_cm nb) st1 = Some (bypass_index nb)" "key_bits st1 = key_bits st"
    using set_get_parent [OF assms(1,4)] by blast
  have "\<exists>st3. ccu_mux_notifier_cb env POST_RATE_CHANGE (nb\<lparr>original_index := i\<rparr>) st2 = Some (0, nb\<lparr>original_index := i\<rparr>, st3) \<and>
      ccu_mux_helper_get_parent env (nb_common nb) (nb_cm nb) st3 = Some i" if "key_bits st2 = key_bits st1" for st2
  proof -
    have "mux_ok env (nb_common nb) (nb_cm nb) st2" using assms(1) s1(3) that by (simp add: mux_ok_def)
    then obtain st3 where "ccu_mux_helper_set_parent (nb_common nb) (nb_cm nb) i st2 = Some (0, st3)"
        "ccu_mux_helper_get_parent env (nb_common nb) (nb_cm nb) st3 = Some i"
      using set_get_parent [OF _ assms(3)] by blast
    then show ?thesis by (simp add: ccu_mux_notifier_cb_def)
  qed
  moreover have "ccu_mux_notifier_cb env PRE_RATE_CHANGE nb st = Some (0, nb\<lparr>original_index := i\<rparr>, st1)"
    using assms(2) s1(1) by (simp add: ccu_mux_notifier_cb_def)
  ultimately show ?thesis using s1(2) by blast
qed

text \<open>
  The multiplexer of the processor's clock: three bits from bit 24 on, five parents, of which the third is the PLL of the processor and
  the fourth, the bypass, the one of the peripherals (counted from zero).
\<close>

definition cpux_nb :: ccu_mux_nb where
  "cpux_nb = \<lparr>nb_common = \<lparr>base = 0x3001000, reg = 0x500, prediv = 0, key_value = 0, features = 0\<rparr>,
     nb_cm = \<lparr>mux_shift = 24, mux_width = 3, mux_table = None, fixed_predivs = [], var_predivs = []\<rparr>,
     bypass_index = 4, original_index = 0\<rparr>"

definition cpux_env :: clk_env where
  "cpux_env = \<lparr>set_rate_parent = True, no_reparent = False, cur_parent = 3, parents = [Some 0, Some 1, Some 2, Some 3, Some 4],
     clk_rate = (\<lambda>_. 24000000), clk_round = (\<lambda>_ r. r)\<rparr>"

theorem ccu_mux_notifier_returns_witness:
  "\<exists>nb1 st1. ccu_mux_notifier_cb cpux_env PRE_RATE_CHANGE cpux_nb \<lparr>regs = (\<lambda>_. 0x3000301), key_bits = (\<lambda>_. 0)\<rparr> = Some (0, nb1, st1) \<and>
     ccu_mux_helper_get_parent cpux_env (nb_common cpux_nb) (nb_cm cpux_nb) st1 = Some 4 \<and>
     (\<exists>st3. ccu_mux_notifier_cb cpux_env POST_RATE_CHANGE nb1 st1 = Some (0, nb1, st3) \<and>
       ccu_mux_helper_get_parent cpux_env (nb_common cpux_nb) (nb_cm cpux_nb) st3 = Some 3)"
proof -
  let ?st = "\<lparr>regs = (\<lambda>_. 0x3000301), key_bits = (\<lambda>_. 0)\<rparr> :: ccu"
  have "mux_ok cpux_env (nb_common cpux_nb) (nb_cm cpux_nb) ?st" by (simp add: mux_ok_def cpux_nb_def)
  moreover have "ccu_mux_helper_get_parent cpux_env (nb_common cpux_nb) (nb_cm cpux_nb) ?st = Some 3"
    by (simp add: ccu_mux_helper_get_parent_def cpux_nb_def readl_def drop_bit_eq_div mask_eq_exp_minus_1)
  moreover have "parent_ok (nb_cm cpux_nb) 3" "parent_ok (nb_cm cpux_nb) (bypass_index cpux_nb)" "bypass_index cpux_nb = 4"
    by (simp_all add: parent_ok_def cpux_nb_def)
  ultimately show ?thesis using ccu_mux_notifier_returns [of cpux_env cpux_nb ?st 3] by metis
qed

section \<open>Registration\<close>

definition somes :: "'a option list \<Rightarrow> 'a list" where
  "somes xs = map the (filter (\<lambda>x. x \<noteq> None) xs)"

lemma somes_simps [simp]: "somes [] = []" "somes (None # xs) = somes xs" "somes (Some x # xs) = x # somes xs" "somes (xs @ ys) = somes xs @ somes ys"
  by (simp_all add: somes_def)

text \<open>The clocks of a table that a kernel with \<open>CONFIG_COMMON_CLK_DEBUG\<close> can look up after they were tried.\<close>

definition looked :: "probe_env \<Rightarrow> nat option list \<Rightarrow> nat list" where
  "looked env hws = (if clk_debug env then filter (clkdev_ok env) (somes hws) else [])"

lemma looked_simps [simp]:
  "looked env [] = []" "looked env (None # hs) = looked env hs"
  "looked env (Some h # hs) = (if clk_debug env \<and> clkdev_ok env h then h # looked env hs else looked env hs)"
  by (simp_all add: looked_def)

text \<open>What the loop has registered when it stops at the clock \<open>j\<close>.\<close>

lemma reg_loop_spec:
  assumes "reg_loop env i hs k = (ret, j, k')"
  shows "i \<le> j \<and> j \<le> i + length hs \<and>
    (if ret = 0 then j = i + length hs \<and> k' = k\<lparr>clks := clks k @ somes hs, lookups := lookups k @ looked env hs\<rparr>
     else j < i + length hs \<and> (\<exists>h. hs ! (j - i) = Some h \<and> clk_rc env h = ret) \<and>
       k' = k\<lparr>clks := clks k @ somes (take (j - i) hs), lookups := lookups k @ looked env (take (Suc (j - i)) hs)\<rparr>)"
  using assms
proof (induction env i hs k rule: reg_loop.induct)
  case (2 env i hs k)
  have "reg_loop env (Suc i) hs k = (ret, j, k')" using "2.prems" by simp
  note IH = "2.IH" [OF this]
  then have "j - i = Suc (j - Suc i)" by (auto split: if_splits)
  with IH show ?case by (auto split: if_splits)
next
  case (3 env i h hs k)
  show ?case
  proof (cases "clk_rc env h = 0")
    case True
    then have "reg_loop env (Suc i) hs (register_clkdev env h (k\<lparr>clks := clks k @ [h]\<rparr>)) = (ret, j, k')" using "3.prems" by simp
    note IH = "3.IH" [OF _ this]
    then have "j - i = Suc (j - Suc i)" using True by (auto split: if_splits)
    with IH True show ?thesis by (auto simp: register_clkdev_def split: if_splits)
  next
    case False
    then show ?thesis using "3.prems" by (auto simp: register_clkdev_def)
  qed
qed (auto simp: looked_def)

lemma unreg_loop_spec:
  assumes "distinct (somes (take i hws))" "set (somes (take i hws)) \<inter> set xs = {}" "i \<le> length hws" "clks k = xs @ somes (take i hws)"
  shows "unreg_loop hws i k = k\<lparr>clks := xs\<rparr>"
  using assms
proof (induction i arbitrary: k)
  case (Suc i)
  have t: "take (Suc i) hws = take i hws @ [hws ! i]" using Suc.prems(3) by (simp add: take_Suc_conv_app_nth)
  show ?case
  proof (cases "hws ! i")
    case None
    then show ?thesis using Suc by (simp add: t)
  next
    case (Some h)
    then have "remove1 h (clks k) = xs @ somes (take i hws)" using Suc.prems by (simp add: t remove1_append)
    then show ?thesis using Suc.IH [of "k\<lparr>clks := xs @ somes (take i hws)\<rparr>"] Suc.prems Some by (simp add: t)
  qed
qed simp

lemma set_bases_spec: "set_bases addr cs b c = (if Some c \<in> set cs then addr else b c)"
  unfolding set_bases_def by (induction cs arbitrary: b) (auto split: option.splits)



section \<open>The choice of the parent\<close>

text \<open>The rate that the clock can make of the parent \<open>p\<close> at place \<open>i\<close>, as the loop computes it.\<close>

definition offer :: "ccu_common \<Rightarrow> ccu_mux_internal \<Rightarrow> clk_env \<Rightarrow> round_fn \<Rightarrow> u64 \<Rightarrow> ccu \<Rightarrow> nat \<Rightarrow> nat \<Rightarrow> u64 option" where
  "offer common cm env round rate st i p =
     do { pr \<leftarrow> ccu_mux_helper_apply_prediv common cm (int i) (clk_rate env p) st; (tmp, pr) \<leftarrow> round p pr rate; Some tmp }"

definition chosen :: "choice + choice \<Rightarrow> choice" where
  "chosen r = (case r of Inl c \<Rightarrow> c | Inr c \<Rightarrow> c)"

definition best_choice :: "(nat \<Rightarrow> nat \<Rightarrow> u64 option) \<Rightarrow> nat \<Rightarrow> nat option list \<Rightarrow> u64 \<Rightarrow> choice \<Rightarrow> choice \<Rightarrow> bool" where
  "best_choice off i ps rate best c \<longleftrightarrow> best_rate c \<le> rate \<and> best_rate best \<le> best_rate c \<and>
     (\<forall>j < length ps. \<forall>p t. ps ! j = Some p \<longrightarrow> off (i + j) p = Some t \<longrightarrow> t \<le> best_rate c) \<and>
     (c = best \<or> (\<exists>j < length ps. \<exists>p. ps ! j = Some p \<and> best_parent c = Some p \<and> off (i + j) p = Some (best_rate c)))"

lemma best_choice_None: "best_choice off (Suc i) ps rate best c \<Longrightarrow> best_choice off i (None # ps) rate best c"
  by (auto simp: best_choice_def less_Suc_eq_0_disj)

lemma best_choice_Some:
  assumes "best_choice off (Suc i) ps rate best' c" "off i p = Some tmp"
    "best' = best \<and> tmp \<le> best_rate best \<or> best_rate best' = tmp \<and> best_parent best' = Some p \<and> best_rate best < tmp"
  shows "best_choice off i (Some p # ps) rate best c"
proof -
  have c: "best_rate c \<le> rate" "best_rate best' \<le> best_rate c"
      "\<And>j q t. j < length ps \<Longrightarrow> ps ! j = Some q \<Longrightarrow> off (Suc i + j) q = Some t \<Longrightarrow> t \<le> best_rate c"
      "c = best' \<or> (\<exists>j < length ps. \<exists>q. ps ! j = Some q \<and> best_parent c = Some q \<and> off (Suc i + j) q = Some (best_rate c))"
    using assms(1) by (auto simp: best_choice_def)
  have "best_rate best \<le> best_rate c" "tmp \<le> best_rate c" using c(2) assms(3) by auto
  moreover have "t \<le> best_rate c" if "j < length (Some p # ps)" "(Some p # ps) ! j = Some q" "off (i + j) q = Some t" for j q t
    using that c(3) calculation(2) assms(2) by (cases j) auto
  moreover have "c = best \<or> (\<exists>j < length (Some p # ps). \<exists>q. (Some p # ps) ! j = Some q \<and> best_parent c = Some q \<and> off (i + j) q = Some (best_rate c))"
    using c(4)
  proof
    assume "c = best'"
    then show ?thesis using assms(2,3) by auto
  next
    assume "\<exists>j < length ps. \<exists>q. ps ! j = Some q \<and> best_parent c = Some q \<and> off (Suc i + j) q = Some (best_rate c)"
    then obtain j q where "j < length ps" "ps ! j = Some q" "best_parent c = Some q" "off (Suc i + j) q = Some (best_rate c)" by blast
    then have "Suc j < length (Some p # ps)" "(Some p # ps) ! Suc j = Some q" "off (i + Suc j) q = Some (best_rate c)" by simp_all
    then show ?thesis using \<open>best_parent c = Some q\<close> by blast
  qed
  ultimately show ?thesis using c(1) unfolding best_choice_def by blast
qed

lemma best_choice_exact:
  assumes "\<And>j q. j < length ps \<Longrightarrow> ps ! j = Some q \<Longrightarrow> \<exists>t. off (Suc i + j) q = Some t \<and> t \<le> rate" "off i p = Some rate" "best_rate best \<le> rate"
    "best_rate c = rate" "best_parent c = Some p"
  shows "best_choice off i (Some p # ps) rate best c"
proof -
  have "t \<le> rate" if "j < length (Some p # ps)" "(Some p # ps) ! j = Some q" "off (i + j) q = Some t" for j q t
    using that assms(1) [of "j - 1" q] assms(2) by (cases j) auto
  then show ?thesis using assms(2-5) unfolding best_choice_def by auto
qed

lemma parent_loop_best:
  assumes "\<And>j p. j < length ps \<Longrightarrow> ps ! j = Some p \<Longrightarrow> \<exists>t. offer common cm env round rate st (i + j) p = Some t \<and> t \<le> rate"
    "best_rate best \<le> rate" "parent_loop common cm env round rate st i ps best = Some r"
  shows "best_choice (offer common cm env round rate st) i ps rate best (chosen r)"
  using assms
proof (induction ps arbitrary: i best)
  case Nil
  then have "r = Inl best" by simp
  then show ?case using Nil by (simp add: best_choice_def chosen_def)
next
  case (Cons q ps)
  have rest: "\<exists>t. offer common cm env round rate st (Suc i + j) p = Some t \<and> t \<le> rate" if "j < length ps" "ps ! j = Some p" for j p
    using Cons.prems(1) [of "Suc j" p] that by simp
  show ?case
  proof (cases q)
    case None
    then show ?thesis using Cons.IH [of "Suc i" best] rest Cons.prems(2,3) by (auto intro: best_choice_None)
  next
    case (Some p)
    obtain tmp where tmp: "offer common cm env round rate st i p = Some tmp" "tmp \<le> rate" using Cons.prems(1) [of 0 p] Some by auto
    then obtain pr pr1 where pr: "ccu_mux_helper_apply_prediv common cm (int i) (clk_rate env p) st = Some pr" "round p pr rate = Some (tmp, pr1)"
      by (auto simp: offer_def split: Option.bind_splits)
    then obtain pr2 where pr2: "ccu_mux_helper_unapply_prediv common cm (int i) pr1 st = Some pr2"
      using Cons.prems(3) by (auto simp: Some split: Option.bind_splits)
    let ?c = "\<lparr>best_rate = tmp, best_parent = Some p, best_parent_rate = pr2\<rparr>"
    let ?b = "if rate - tmp < rate - best_rate best then ?c else best"
    show ?thesis
    proof (cases "tmp = rate")
      case True
      then have "chosen r = ?c" using Cons.prems(3) pr pr2 by (auto simp: Some chosen_def)
      then show ?thesis unfolding Some using rest tmp(1) True Cons.prems(2) by (intro best_choice_exact) auto
    next
      case False
      then have "parent_loop common cm env round rate st (Suc i) ps ?b = Some r" using Cons.prems(3) pr pr2 by (simp add: Some)
      then have "best_choice (offer common cm env round rate st) (Suc i) ps rate ?b (chosen r)"
        using rest tmp(2) Cons.prems(2) by (intro Cons.IH) auto
      then show ?thesis unfolding Some using tmp(1)
        by (rule best_choice_Some) (use word_closer [OF tmp(2) Cons.prems(2)] in auto)
    qed
  qed
qed

lemma parent_loop_jump: "parent_loop common cm env round rate st i ps best = Some (Inr c) \<Longrightarrow> best_parent c \<noteq> None"
proof (induction ps arbitrary: i best)
  case (Cons q ps)
  then show ?case by (cases q) (auto simp: Let_def split: Option.bind_splits if_splits)
qed simp

text \<open>
  Where every parent offers a rate that is not above the wanted one, the choice among the parents takes the greatest of the offers,
  with the parent that makes it; it is refused only when no parent offers a rate above zero.
\<close>

theorem determine_rate_best:
  assumes "\<not> no_reparent env"
    "\<And>i p. i < length (parents env) \<Longrightarrow> parents env ! i = Some p \<Longrightarrow> \<exists>t. offer common cm env round rate st i p = Some t \<and> t \<le> rate"
    "ccu_mux_helper_determine_rate common cm env round rate st = Some (ret, ch)"
  shows "(case ch of
      None \<Rightarrow> ret = -22 \<and> (\<forall>i < length (parents env). \<forall>p. parents env ! i = Some p \<longrightarrow> offer common cm env round rate st i p = Some 0)
    | Some c \<Rightarrow> ret = 0 \<and> (\<exists>i < length (parents env). \<exists>p. parents env ! i = Some p \<and> best_parent c = Some p \<and>
          offer common cm env round rate st i p = Some (best_rate c)) \<and>
        (\<forall>i < length (parents env). \<forall>p t. parents env ! i = Some p \<longrightarrow> offer common cm env round rate st i p = Some t \<longrightarrow> t \<le> best_rate c))"
proof -
  let ?z = "\<lparr>best_rate = 0, best_parent = None, best_parent_rate = 0\<rparr>"
  obtain r where r: "parent_loop common cm env round rate st 0 (parents env) ?z = Some r"
    using assms(1,3) by (auto simp: ccu_mux_helper_determine_rate_def split: Option.bind_splits)
  have b: "best_choice (offer common cm env round rate st) 0 (parents env) rate ?z (chosen r)"
    using assms(2) r by (intro parent_loop_best) auto
  let ?off = "offer common cm env round rate st"
  have le: "t \<le> best_rate (chosen r)" if "i < length (parents env)" "parents env ! i = Some p" "?off i p = Some t" for i p t
    using b that by (auto simp: best_choice_def)
  have pick: "chosen r = ?z \<or> (\<exists>i < length (parents env). \<exists>p. parents env ! i = Some p \<and> best_parent (chosen r) = Some p \<and>
      ?off i p = Some (best_rate (chosen r)))"
    using b by (simp add: best_choice_def)
  show ?thesis
  proof (cases "\<exists>c. r = Inl c \<and> best_rate c = 0")
    case True
    then have "ret = -22" "ch = None" "best_rate (chosen r) = 0" using assms(1,3) r by (auto simp: ccu_mux_helper_determine_rate_def chosen_def)
    moreover have "?off i p = Some 0" if "i < length (parents env)" "parents env ! i = Some p" for i p
      using assms(2) [OF that] le [OF that] calculation(3) by auto
    ultimately show ?thesis by simp
  next
    case False
    then have "ret = 0" "ch = Some (chosen r)"
      using assms(1,3) r by (auto simp: ccu_mux_helper_determine_rate_def chosen_def split: sum.splits if_splits)
    moreover have "chosen r \<noteq> ?z" using False parent_loop_jump [of common cm env round rate st 0 "parents env" ?z] r by (cases r) (auto simp: chosen_def)
    ultimately show ?thesis using pick le by auto
  qed
qed

theorem determine_rate_best_witness:
  "case ccu_mux_helper_determine_rate \<lparr>base = 0, reg = 0, prediv = 0, key_value = 0, features = 0\<rparr>
      \<lparr>mux_shift = 24, mux_width = 2, mux_table = None, fixed_predivs = [], var_predivs = []\<rparr>
      (cpux_env\<lparr>clk_rate := (\<lambda>p. if p = 2 then 900 else 700)\<rparr>) (\<lambda>p pr rate. Some (pr, pr)) 1000 \<lparr>regs = (\<lambda>_. 0), key_bits = (\<lambda>_. 0)\<rparr> of
     Some (ret, Some c) \<Rightarrow> ret = 0 \<and> 900 \<le> best_rate c
   | _ \<Rightarrow> False"
proof -
  let ?C = "\<lparr>base = 0, reg = 0, prediv = 0, key_value = 0, features = 0\<rparr> :: ccu_common"
    and ?cm = "\<lparr>mux_shift = 24, mux_width = 2, mux_table = None, fixed_predivs = [], var_predivs = []\<rparr> :: ccu_mux_internal"
    and ?env = "cpux_env\<lparr>clk_rate := (\<lambda>p. if p = 2 then 900 else 700)\<rparr>" and ?f = "(\<lambda>p pr rate. Some (pr, pr)) :: round_fn"
    and ?st = "\<lparr>regs = (\<lambda>_. 0), key_bits = (\<lambda>_. 0)\<rparr> :: ccu"
  have o: "offer ?C ?cm ?env ?f 1000 ?st i p = Some (if p = 2 then 900 else 700)" for i p
    by (simp add: offer_def ccu_mux_helper_apply_prediv_def ccu_mux_get_prediv_def has_def div64_def)
  have e: "parents ?env = [Some 0, Some 1, Some 2, Some 3, Some 4]" "\<not> no_reparent ?env" by (simp_all add: cpux_env_def)
  obtain ret ch where r: "ccu_mux_helper_determine_rate ?C ?cm ?env ?f 1000 ?st = Some (ret, ch)"
    by (simp add: cpux_env_def ccu_mux_helper_determine_rate_def ccu_mux_helper_apply_prediv_def ccu_mux_helper_unapply_prediv_def
        ccu_mux_get_prediv_def has_def div64_def)
  have "\<exists>t. offer ?C ?cm ?env ?f 1000 ?st i p = Some t \<and> t \<le> 1000" for i p by (simp add: o)
  note best = determine_rate_best [OF e(2) this r]
  let ?off = "offer ?C ?cm ?env ?f 1000 ?st"
  have two: "2 < length (parents ?env)" "parents ?env ! 2 = Some 2" by (simp_all add: e(1))
  show ?thesis
  proof (cases ch)
    case None
    then have "?off 2 2 = Some 0" using best two by simp
    then show ?thesis by (simp add: o)
  next
    case (Some c)
    then have "ret = 0" "?off 2 2 = Some 900 \<longrightarrow> 900 \<le> best_rate c" using best two by auto
    then show ?thesis using Some r by (simp add: o)
  qed
qed

end
