(* ===== verification/Spec2Isabelle.thy ===== *)
theory Spec2Isabelle
  imports Mqtt_Session Audio_Dma_T507 Audio_Dma_RK3399 T507_Codec T507_Ahub RK3399_Dai Es8316 Ac107 Sunxi_Sysinfo Sunxi_Addr Hdf_Entry Xr829_Chip Ccu_Rates Ccu_Control
begin

text \<open>
  A verification library for the board-support code of two OpenHarmony boards of iSoftStone, \<open>yangfan\<close> (RK3399) and
  \<open>zhiyuan\<close> (T507), both 64-bit Arm. Most of the repository is vendor code for the Linux kernel; the library models
  the code that carries the boards' own logic and that can be read from its sources alone, and proves it correct or
  shows where it is not. All paths below are relative to \<open>src/\<close>.

  \<^bold>\<open>Parts of the program and the theories that model them.\<close>

  \<^item> \<open>BSP_Prelude\<close>: machine types, byte buffers with bounds (\<open>load8\<close>, \<open>store_bytes\<close>, \<open>arr_get\<close>, \<open>arr_set\<close>, \<open>take_n\<close>: an
    access outside of the object is \<open>None\<close>), the algebra of writers (\<open>put\<close>), and the locales \<open>guarded_serializer\<close> and
    \<open>safe_serializer\<close>, the contract of a packet serializer.
  \<^item> The MQTT library of yangfan, \<open>yangfan/common/mqtt\<close>. \<open>Mqtt_Packet\<close>, \<open>Mqtt_Publish\<close>, \<open>Mqtt_Connect\<close> and
    \<open>Mqtt_Subscribe\<close> are the packet layer (\<open>mqttpacket/src\<close>, one definition per C function with its name).
    \<open>Mqtt_Platform\<close> is \<open>mqttclient_c/src/linux\<close>: timers and sockets over a parameter for the operating system.
    \<open>Mqtt_Client\<close> is \<open>MQTTClient.c\<close>: the record \<open>MQTTClient\<close> has the fields of the C structure. \<open>Mqtt_Topics\<close> has
    the specification of topic matching and of the handler table, \<open>Mqtt_Session\<close> the invariant of the client over
    all sequences of calls.
  \<^item> The audio drivers. \<open>Audio_Base\<close> has what they share: the kernel as a log of calls with answers, registers after a
    log (\<open>reg_val\<close>), bit fields, and resources held (\<open>held\<close>), with the locales \<open>register_file\<close> and \<open>init_stage\<close>.
    \<open>Audio_Dma\<close> has the DMA engine and the locale \<open>stream_isolation\<close>; \<open>Audio_Dma_T507\<close> is \<open>t507_dma_ops.c\<close> and
    \<open>Audio_Dma_RK3399\<close> is \<open>rk3399_dma_ops.c\<close>. \<open>T507_Codec\<close>, \<open>T507_Ahub\<close> and \<open>Ac107\<close> are the codec, the audio hub and
    the microphone codec of zhiyuan (\<open>zhiyuan/kernel/hdf/driver/audio\<close>); \<open>RK3399_Dai\<close> and \<open>Es8316\<close> the audio interface
    and the codec of yangfan (\<open>yangfan/kernel/hdf/drivers/audio\<close>). \<open>Hdf_Entry\<close> has the entry points through which
    the framework binds, initialises and releases these drivers, with the locale \<open>driver_entry\<close>.
  \<^item> The identity of the zhiyuan chip. \<open>Kernel_Text\<close> is the formatted printing and scanning of the kernel library.
    \<open>Sunxi_Sid\<close> is \<open>smc/sunxi-smc.c\<close> and \<open>sid/sunxi-sid.c\<close> under \<open>zhiyuan/kernel/driver/drivers\<close>: secure monitor
    calls and fuses, with the locale \<open>one_time_reader\<close>. \<open>Sunxi_Sysinfo\<close> is \<open>smc/sunxi-sysinfo.c\<close>, the view of user
    space. \<open>Sha256\<close> is \<open>misc/sunxi-addr/sha256.c\<close> with the hash standard as its specification and the locale
    \<open>block_hash\<close>; \<open>Sha256_Example\<close> evaluates one hash. \<open>Sunxi_Addr\<close> is \<open>misc/sunxi-addr/sunxi-addr.c\<close>, which derives the
    addresses of the network interfaces from the identity through the hash.
  \<^item> The wireless adapter of zhiyuan, \<open>zhiyuan/kernel/hdf/driver/wifi/xr829_hdfadapter\<close>: \<open>Xr829_Wifi\<close> is
    \<open>hdf_mac80211.c\<close> and \<open>net_adpater.c\<close>, \<open>Xr829_Chip\<close> is \<open>hdfinit_xr829.c\<close> and \<open>hdf_driver_register.c\<close>. Its
    \<open>WalSetMacAddr\<close> calls the address manager.
  \<^item> The clock control unit of zhiyuan, \<open>zhiyuan/kernel/driver/drivers/clk\<close>. \<open>Ccu_Common\<close> is what all clocks share:
    registers, gates, parents, the fractional and modulated modes, phases, resets, registration, suspend and resume
    (\<open>ccu_common.c\<close>, \<open>ccu_gate.c\<close>, \<open>ccu_mux.c\<close>, \<open>ccu_frac.c\<close>, \<open>ccu_sdm.c\<close>, \<open>ccu_phase.c\<close>, \<open>ccu_reset.c\<close>). \<open>Ccu_Factors\<close>
    is the clocks whose rate comes from factors (\<open>ccu_nk.c\<close>, \<open>ccu_nkm.c\<close>, \<open>ccu_nkmp.c\<close>, \<open>ccu_nm.c\<close>, \<open>ccu_mp.c\<close>,
    \<open>ccu_mult.c\<close>, \<open>ccu_div.c\<close>). \<open>Ccu_Control\<close> proves what the common part promises; \<open>Ccu_Rates\<close> has the locale
    \<open>factor_clock\<close>, its interpretations on five kinds of factor clocks, and some PLLs of the chip
    (\<open>ccu-sun50iw9.c\<close>), among them the one that feeds the audio drivers.

  \<^bold>\<open>How code and model correspond.\<close> A C structure is a record with the fields the code uses, an enumeration a datatype or
  named constants, a function a definition of the same name that returns the result and the new state. Unsigned
  arithmetic is on words of its width; a C \<open>int\<close> that cannot overflow is an \<open>int\<close>. \<open>None\<close> is undefined
  behaviour: an access out of bounds or through a null or freed pointer, an uninitialised variable, a division by zero.
  Returned error codes are values. Code that is not in the repository (the kernel, the HDF framework, the secure
  monitor, the operating system) is a parameter, and so is the wireless driver behind its function table, which is vendor
  code; what is assumed of it is named in the theorems (\<open>handles_valid\<close>, \<open>channels_independent\<close>, \<open>codec_answers\<close>,
  \<open>counts_channels\<close>).
  Log messages, delays and locks have no effect on the modelled state and are left out.

  \<^bold>\<open>What is shown.\<close>

  \<^item> MQTT: every serializer is one \<open>put\<close> of the packet's bytes, and the parsers read them back; the readers stay in their
    buffers, take a packet for complete only when all its bytes were received, and reassemble any fragmentation; a
    CONNECT packet is read back exactly when its credentials can be told apart; the byte-wise topic matching equals
    matching of levels, and a message goes to the handlers whose filter matches it in the specification; the handler
    table refines a finite map; all calls keep the invariant of the client, return, and close the session
    on failure.
  \<^item> Audio: any interleaving of operations on the two streams looks to each as if it were alone; positions stay in
    the ring, read from the stream's own channel; the probe of the codec gives back what it took but for a clock that refuses to
    start, and what then happens is stated; the operations of the hub fault only when the bus clock did not start and its probe
    gave the clocks back while reporting success; registers hold the volume, the formats and the clock dividers that
    were asked for; bus handles and buffers are given back on every path; drivers give back their memory and mutexes.
  \<^item> Identity: the fuse driver keeps its invariant for callers that keep to the buffer sizes it needs, and its answers are stable; key material is cleared after every
    request; the streaming hash equals the standard; each network interface always has a usable address, which is the
    stated slice of the hash, and the text interface is a round trip.
  \<^item> Wireless: the copy of the information elements is owned exactly once in any order of connections, answers and
    disconnects, which are undefined exactly when a channel is used that was never given; an association repeats what the authentication asked for; scans stay in their request.
  \<^item> Clocks: the searches end with the best factors among all values of the fields, which are specified apart from the loops of the
    code; the rate read back after setting is the one that rounding announced,
    and no other bits change, for the N-K-M-P and the N-M clocks; the choice of the parent takes the best offer;
    dumped registers survive a sleep; the processor's clock returns to its parent; a failed probe leaves no clock
    and no reset registered, only the lookup entries of a debugging build, which no path removes.
  \<^item> Where the code is wrong, a theorem says exactly when, and the defects are recorded with the source line.

  \<^bold>\<open>Bounds and fuel.\<close> The loops of the MQTT platform and client that wait for the network are \<open>partial_function (option)\<close> or
  carry the number of rounds; that they return is proved from the assumption that time passes (\<open>read_loop_total\<close>,
  \<open>write_loop_total\<close>, \<open>sendPacket_returns\<close>). All other loops run over lists or counters and are total. The
  searches of the clock unit run over explicit lists of candidates; the loop over the powers of two is \<open>None\<close> where its
  counter would wrap to zero and never end (\<open>pows\<close>).

  \<^bold>\<open>Not modelled.\<close> The vendor drivers of the kernel trees (\<open>yangfan/kernel/src\<close>, \<open>zhiyuan/kernel/driver\<close> but for the files
  named above): display, camera, image processing, video codecs, GPU, the Broadcom and XR829 wireless drivers,
  network, storage, power and bus drivers, whose behaviour is that of hardware and kernel interfaces that are not in the
  repository. The camera pipeline, the C++ MQTT client and the OpenCV parts are not C. The clock tables of the
  other chips are data for the modelled code. Samples, tests, and the ports of the
  MQTT platform to other systems are not part of the boards. \<open>MQTTFormat.c\<close> only prints packets for traces.
\<close>

end
